(* ===== verification/Gateway_Prelude.thy ===== *)
theory Gateway_Prelude
  imports Complex_Main "HOL-Library.Product_Lexorder"
begin

text \<open>
  Shared foundations of the development.

  The gateway is a set of Python stores over relational tables. This theory holds what all
  of them use of the language, its standard library and SQL:

  \<^item> numbers as the code receives them (\<open>py_num\<close>), aware and naive \<open>datetime\<close> values as
    microseconds, \<open>timedelta(seconds=x)\<close> with its half-even rounding, \<open>str.strip\<close>,
    \<open>str(int)\<close>, SQL \<open>trim\<close>;
  \<^item> a table as the list of its rows with \<open>UPDATE \<dots> WHERE\<close> (\<open>update_where\<close>), the
    row count a statement reports (\<open>rowcount\<close>), \<open>SELECT \<dots> ORDER BY \<dots> LIMIT 1\<close>
    (\<open>select_min\<close>) and primary-key lookup (\<open>lookup_by\<close>);
  \<^item> the bounded select-then-compare-and-set loop that both work queues run
    (\<open>cas_loop\<close>), with the transactions of other sessions that may commit between the
    selection and the update as explicit functions;
  \<^item> the interfaces the components share, as locales: \<open>claim_fence\<close> (a claim token fences
    completion), \<open>cas_queue\<close> (what a selection and a claim of a work queue promise each
    other) and \<open>preserved_by\<close> (an invariant kept by a step relation).
\<close>

named_theorems table_simps \<open>characterisations of the table statements\<close>
named_theorems py_simps \<open>evaluation of the modelled standard-library functions\<close>

section \<open>Python values\<close>

text \<open>A number argument whose dynamic type the code inspects.\<close>

datatype py_num = PyBool bool | PyInt int | PyFloat rat | PyNonFinite

text \<open>Instants are microseconds in UTC; a naive datetime carries no offset.\<close>

type_synonym instant = int

datatype py_datetime = Aware instant | Naive instant

text \<open>The clock of the process (\<open>datetime.now(UTC)\<close>) and of the database (\<open>now()\<close>).\<close>

record clocks =
  wall_now :: instant
  db_now :: instant

text \<open>\<open>threading.TIMEOUT_MAX\<close>, in seconds.\<close>

definition TIMEOUT_MAX :: rat where
  "TIMEOUT_MAX = 9223372036"

text \<open>\<open>timedelta(seconds=x)\<close> keeps whole microseconds, rounding half to even.\<close>

definition round_half_even :: "rat \<Rightarrow> int" where
  "round_half_even x =
     (let f = \<lfloor>x\<rfloor>; d = x - of_int f
      in if d < 1/2 then f else if d > 1/2 then f + 1 else if even f then f else f + 1)"

definition timedelta_seconds :: "rat \<Rightarrow> int" where
  "timedelta_seconds x = round_half_even (x * 1000000)"

lemma round_half_even_floor:
  "\<lfloor>x\<rfloor> \<le> round_half_even x \<and> round_half_even x \<le> \<lfloor>x\<rfloor> + 1"
  by (simp add: round_half_even_def Let_def)

lemma timedelta_seconds_nonneg: "0 \<le> x \<Longrightarrow> 0 \<le> timedelta_seconds x"
proof -
  assume "0 \<le> x"
  then have "0 \<le> \<lfloor>x * 1000000\<rfloor>" by simp
  with round_half_even_floor [of "x * 1000000"] show ?thesis
    unfolding timedelta_seconds_def by linarith
qed

lemma timedelta_seconds_of_int [py_simps]: "timedelta_seconds (of_int n) = n * 1000000"
proof -
  have "(of_int n :: rat) * 1000000 = of_int (n * 1000000)" by simp
  then show ?thesis
    by (simp only: timedelta_seconds_def round_half_even_def floor_of_int Let_def) simp
qed

lemma timedelta_seconds_pos: "1 \<le> x \<Longrightarrow> 0 < timedelta_seconds x"
proof -
  assume "1 \<le> x"
  then have "1 \<le> \<lfloor>x * 1000000\<rfloor>" by (simp add: le_floor_iff)
  with round_half_even_floor [of "x * 1000000"] show ?thesis
    unfolding timedelta_seconds_def by linarith
qed

subsection \<open>Strings\<close>

text \<open>
  Characters are code points below 256. \<open>py_isspace\<close> is \<open>str.isspace\<close> on that range
  (tab to carriage return, the four separators, space, next-line, no-break space).
\<close>

definition py_isspace :: "char \<Rightarrow> bool" where
  "py_isspace c =
     (let n = (of_char c :: nat)
      in (9 \<le> n \<and> n \<le> 13) \<or> (28 \<le> n \<and> n \<le> 32) \<or> n = 133 \<or> n = 160)"

definition py_strip :: "string \<Rightarrow> string" where
  "py_strip s = rev (dropWhile py_isspace (rev (dropWhile py_isspace s)))"

text \<open>The truth value of \<open>value.strip()\<close>.\<close>

definition nonblank :: "string \<Rightarrow> bool" where
  "nonblank s = (py_strip s \<noteq> [])"

text \<open>SQL \<open>length(trim(x)) > 0\<close>: \<open>trim\<close> removes spaces only.\<close>

definition sql_nonempty :: "string \<Rightarrow> bool" where
  "sql_nonempty s = (\<not> list_all (\<lambda>c. c = CHR '' '') s)"

lemma nonblank_iff: "nonblank s \<longleftrightarrow> \<not> list_all py_isspace s"
proof -
  have "dropWhile py_isspace (rev (dropWhile py_isspace s)) = []
        \<longleftrightarrow> list_all py_isspace (dropWhile py_isspace s)"
    by (simp add: dropWhile_eq_Nil_conv list_all_iff)
  also have "\<dots> \<longleftrightarrow> list_all py_isspace s"
    by (induction s) auto
  finally show ?thesis by (simp add: nonblank_def py_strip_def)
qed

lemma py_isspace_space: "py_isspace (CHR '' '')"
  by (simp add: py_isspace_def)

lemma nonblank_sql_nonempty: "nonblank s \<Longrightarrow> sql_nonempty s"
  unfolding nonblank_iff sql_nonempty_def list_all_iff using py_isspace_space by metis

lemma dropWhile_hd: "xs \<noteq> [] \<Longrightarrow> \<not> P (hd xs) \<Longrightarrow> dropWhile P xs = xs"
  by (cases xs) auto

lemma py_strip_ends:
  "py_strip s \<noteq> [] \<Longrightarrow> \<not> py_isspace (hd (py_strip s)) \<and> \<not> py_isspace (last (py_strip s))"
proof -
  define u where "u = dropWhile py_isspace s"
  define v where "v = dropWhile py_isspace (rev u)"
  assume "py_strip s \<noteq> []"
  then have v: "v \<noteq> []" "py_strip s = rev v" by (auto simp: py_strip_def u_def v_def)
  then have "\<not> py_isspace (last (py_strip s))"
    by (simp add: v_def last_rev hd_dropWhile)
  obtain w where w: "rev u = w @ v" unfolding v_def by (metis takeWhile_dropWhile_id)
  then have "u = rev v @ rev w" by (metis rev_append rev_rev_ident)
  with v(1) have "u \<noteq> []" "hd u = hd (rev v)" by simp_all
  moreover from \<open>u \<noteq> []\<close> have "\<not> py_isspace (hd u)" unfolding u_def by (simp add: hd_dropWhile)
  ultimately have "\<not> py_isspace (hd (py_strip s))" using v by simp
  with \<open>\<not> py_isspace (last (py_strip s))\<close> show ?thesis by simp
qed

lemma py_strip_idem [simp]: "py_strip (py_strip s) = py_strip s"
proof (cases "py_strip s = []")
  case True
  show ?thesis unfolding True by (simp add: py_strip_def)
next
  case False
  note e = py_strip_ends [OF False]
  have "dropWhile py_isspace (py_strip s) = py_strip s" using False e by (simp add: dropWhile_hd)
  moreover have "dropWhile py_isspace (rev (py_strip s)) = rev (py_strip s)"
    using False e by (simp add: dropWhile_hd hd_rev)
  ultimately show ?thesis by (metis py_strip_def rev_rev_ident)
qed

lemma length_py_strip: "length (py_strip s) \<le> length s"
  by (metis (no_types, lifting) length_dropWhile_le length_rev order_trans py_strip_def)

text \<open>\<open>str(n)\<close> for an integer.\<close>

fun nat_str :: "nat \<Rightarrow> string" where
  "nat_str n = (if n < 10 then [char_of (48 + n)] else nat_str (n div 10) @ [char_of (48 + n mod 10)])"

declare nat_str.simps [simp del]

definition int_str :: "int \<Rightarrow> string" where
  "int_str i = (if i < 0 then ''-'' @ nat_str (nat (- i)) else nat_str (nat i))"

definition str_nat :: "string \<Rightarrow> nat" where
  "str_nat s = foldl (\<lambda>a c. 10 * a + (of_char c - 48)) 0 s"

lemma of_char_digit: "d < 10 \<Longrightarrow> (of_char (char_of (48 + d :: nat)) :: nat) = 48 + d"
  by simp

lemma str_nat_nat_str: "str_nat (nat_str n) = n"
proof (induction n rule: nat_str.induct)
  case (1 n)
  show ?case
  proof (cases "n < 10")
    case True
    then show ?thesis
      using of_char_digit [of n] by (simp add: nat_str.simps [of n] str_nat_def)
  next
    case False
    with 1 have "str_nat (nat_str (n div 10)) = n div 10" by simp
    with False show ?thesis
      using of_char_digit [of "n mod 10"] by (simp add: nat_str.simps [of n] str_nat_def)
  qed
qed

lemma nat_str_inject: "nat_str m = nat_str n \<longleftrightarrow> m = n"
  by (metis str_nat_nat_str)

lemma nat_str_nonempty: "nat_str n \<noteq> []"
  by (subst nat_str.simps) simp

lemma int_str_inject_nonneg: "0 \<le> i \<Longrightarrow> 0 \<le> j \<Longrightarrow> int_str i = int_str j \<longleftrightarrow> i = j"
  by (simp add: int_str_def nat_str_inject eq_nat_nat_iff)

section \<open>Tables\<close>

text \<open>
  What becomes of a commit: it succeeds, it fails and is rolled back, or it raises although the
  server applied it.
\<close>

datatype commit_fate = Commits | CommitFails | CommitUnknown

text \<open>\<open>UPDATE t SET f WHERE p\<close> and the row count it reports.\<close>

definition update_where :: "('r \<Rightarrow> bool) \<Rightarrow> ('r \<Rightarrow> 'r) \<Rightarrow> 'r list \<Rightarrow> 'r list" where
  "update_where p f rows = map (\<lambda>r. if p r then f r else r) rows"

definition rowcount :: "('r \<Rightarrow> bool) \<Rightarrow> 'r list \<Rightarrow> nat" where
  "rowcount p rows = length (filter p rows)"

text \<open>\<open>session.scalar(select(t).where(key = k))\<close> on a table of rows.\<close>

definition lookup_by :: "('r \<Rightarrow> 'k) \<Rightarrow> 'k \<Rightarrow> 'r list \<Rightarrow> 'r option" where
  "lookup_by key k rows = find (\<lambda>r. key r = k) rows"

text \<open>\<open>SELECT \<dots> ORDER BY key LIMIT 1\<close>.\<close>

fun select_min :: "('r \<Rightarrow> 'k::linorder) \<Rightarrow> 'r list \<Rightarrow> 'r option" where
  "select_min key [] = None"
| "select_min key (r # rows) =
     (case select_min key rows of
        None \<Rightarrow> Some r
      | Some r' \<Rightarrow> Some (if key r \<le> key r' then r else r'))"

lemma set_update_where [table_simps]:
  "set (update_where p f rows) = (\<lambda>r. if p r then f r else r) ` set rows"
  by (simp add: update_where_def)

lemma length_update_where [simp]: "length (update_where p f rows) = length rows"
  by (simp add: update_where_def)

lemma update_where_none: "(\<And>r. r \<in> set rows \<Longrightarrow> \<not> p r) \<Longrightarrow> update_where p f rows = rows"
  by (induction rows) (auto simp: update_where_def)

lemma map_key_update_where:
  "(\<And>r. key (f r) = key r) \<Longrightarrow> map key (update_where p f rows) = map key rows"
  by (induction rows) (auto simp: update_where_def)

lemma rowcount_0_iff: "rowcount p rows = 0 \<longleftrightarrow> (\<forall>r\<in>set rows. \<not> p r)"
  by (auto simp: rowcount_def filter_empty_conv)

lemma rowcount_le_1:
  assumes "distinct (map key rows)" and "\<And>r. p r \<Longrightarrow> key r = k"
  shows "rowcount p rows \<le> 1"
  using assms(1)
proof (induction rows)
  case Nil
  then show ?case by (simp add: rowcount_def)
next
  case (Cons r rows)
  show ?case
  proof (cases "p r")
    case True
    then have "key r = k" by (rule assms(2))
    moreover have "filter p rows = []"
    proof (rule ccontr)
      assume "filter p rows \<noteq> []"
      then obtain q where "q \<in> set rows" "p q" by (auto simp: filter_empty_conv)
      then have "key r = key q" using assms(2) \<open>key r = k\<close> by simp
      then have "key r \<in> key ` set rows" using \<open>q \<in> set rows\<close> by (rule image_eqI)
      with Cons.prems show False by simp
    qed
    ultimately show ?thesis by (simp add: rowcount_def)
  next
    case False
    with Cons show ?thesis by (simp add: rowcount_def)
  qed
qed

lemma rowcount_1_iff:
  assumes "distinct (map key rows)" and "\<And>r. p r \<Longrightarrow> key r = k"
  shows "rowcount p rows = 1 \<longleftrightarrow> (\<exists>r\<in>set rows. p r)"
proof -
  have "rowcount p rows \<le> 1" by (rule rowcount_le_1 [OF assms(1)]) (rule assms(2))
  then have "rowcount p rows = 1 \<longleftrightarrow> rowcount p rows \<noteq> 0" by linarith
  also have "\<dots> \<longleftrightarrow> (\<exists>r\<in>set rows. p r)" using rowcount_0_iff by metis
  finally show ?thesis .
qed

lemma lookup_by_Some:
  "lookup_by key k rows = Some r \<Longrightarrow> r \<in> set rows \<and> key r = k"
  by (auto simp: lookup_by_def find_Some_iff)

lemma lookup_by_None [table_simps]:
  "lookup_by key k rows = None \<longleftrightarrow> k \<notin> key ` set rows"
  by (auto simp: lookup_by_def find_None_iff)

lemma lookup_by_distinct:
  assumes "distinct (map key rows)" and "r \<in> set rows"
  shows "lookup_by key (key r) rows = Some r"
  using assms
proof (induction rows)
  case Nil
  then show ?case by simp
next
  case (Cons q rows)
  then show ?case by (force simp: lookup_by_def)
qed

lemma lookup_by_eq_Some_iff:
  "distinct (map key rows) \<Longrightarrow> lookup_by key k rows = Some r \<longleftrightarrow> r \<in> set rows \<and> key r = k"
  using lookup_by_Some lookup_by_distinct by metis

lemma distinct_key_eq:
  "distinct (map key rows) \<Longrightarrow> r \<in> set rows \<Longrightarrow> q \<in> set rows \<Longrightarrow> key r = key q \<Longrightarrow> r = q"
  by (metis lookup_by_distinct option.inject)

lemma lookup_by_update_where:
  assumes "\<And>r. key (f r) = key r"
  shows "lookup_by key k (update_where p f rows) =
         map_option (\<lambda>r. if p r then f r else r) (lookup_by key k rows)"
  using assms by (induction rows) (auto simp: lookup_by_def update_where_def)

lemma select_min_None [table_simps]: "select_min key rows = None \<longleftrightarrow> rows = []"
  by (cases rows) (auto split: option.splits)

lemma select_min_Some:
  "select_min key rows = Some r \<Longrightarrow> r \<in> set rows \<and> (\<forall>q\<in>set rows. key r \<le> key q)"
proof (induction rows arbitrary: r)
  case Nil
  then show ?case by simp
next
  case (Cons q rows)
  show ?case
  proof (cases "select_min key rows")
    case None
    with Cons.prems show ?thesis by (simp add: select_min_None)
  next
    case (Some m)
    with Cons.IH [OF Some] Cons.prems show ?thesis
      by (auto split: if_splits dest: order_trans)
  qed
qed

lemma sum_list_map_mono:
  "(\<And>x. x \<in> set xs \<Longrightarrow> f x \<le> (g x :: nat)) \<Longrightarrow> sum_list (map f xs) \<le> sum_list (map g xs)"
  by (induction xs) (auto intro: add_mono)

section \<open>The select-then-claim loop of a work queue\<close>

text \<open>
  Both queues claim work the same way: \<open>for _ in range(n)\<close>, select a candidate, attempt a
  compare-and-set update on it, retry when another session won. The functions in the list
  are what other sessions commit between the selection and the update, one per iteration;
  its length is the loop bound.
\<close>

fun cas_loop ::
  "('s \<Rightarrow> 's) list \<Rightarrow> ('s \<Rightarrow> 'k option) \<Rightarrow> ('k \<Rightarrow> 's \<Rightarrow> 'a option \<times> 's) \<Rightarrow> 's \<Rightarrow> 'a option \<times> 's"
where
  "cas_loop [] sel attempt s = (None, s)"
| "cas_loop (race # races) sel attempt s =
     (case sel s of
        None \<Rightarrow> (None, s)
      | Some k \<Rightarrow>
          (case attempt k (race s) of
             (Some a, s') \<Rightarrow> (Some a, s')
           | (None, s') \<Rightarrow> cas_loop races sel attempt s'))"

text \<open>A schedule without interference: every other session is idle for \<open>n\<close> rounds.\<close>

definition quiet :: "nat \<Rightarrow> ('s \<Rightarrow> 's) list" where
  "quiet n = replicate n id"

lemma length_quiet [simp]: "length (quiet n) = n"
  by (simp add: quiet_def)

lemma set_quiet: "r \<in> set (quiet n) \<Longrightarrow> r = id"
  by (simp add: quiet_def)

section \<open>Interfaces\<close>

subsection \<open>An invariant kept by a step relation\<close>

locale preserved_by =
  fixes step :: "'s \<Rightarrow> 's \<Rightarrow> bool"
    and inv :: "'s \<Rightarrow> bool"
  assumes inv_step: "step s t \<Longrightarrow> inv s \<Longrightarrow> inv t"
begin

lemma inv_steps: "step\<^sup>*\<^sup>* s t \<Longrightarrow> inv s \<Longrightarrow> inv t"
  by (induction rule: rtranclp_induct) (auto intro: inv_step)

lemma inv_never_violated: "inv s \<Longrightarrow> \<not> inv t \<Longrightarrow> \<not> step\<^sup>*\<^sup>* s t"
  using inv_steps by blast

end

subsection \<open>A claim token fences completion\<close>

text \<open>
  \<open>holder s k\<close> is the token that owns item \<open>k\<close>; \<open>finish k t s\<close> is the
  completion a worker attempts with token \<open>t\<close>, \<open>None\<close> when it is refused.
\<close>

locale claim_fence =
  fixes holder :: "'s \<Rightarrow> 'k \<Rightarrow> 't option"
    and finish :: "'k \<Rightarrow> 't \<Rightarrow> 's \<Rightarrow> 's option"
    and wf :: "'s \<Rightarrow> bool"
  assumes finish_needs_token: "wf s \<Longrightarrow> finish k t s = Some s' \<Longrightarrow> holder s k = Some t"
    and finish_releases: "wf s \<Longrightarrow> finish k t s = Some s' \<Longrightarrow> holder s' k = None"
    and finish_frame: "wf s \<Longrightarrow> finish k t s = Some s' \<Longrightarrow> j \<noteq> k \<Longrightarrow> holder s' j = holder s j"
    and finish_wf: "wf s \<Longrightarrow> finish k t s = Some s' \<Longrightarrow> wf s'"
begin

lemma stale_token_refused: "wf s \<Longrightarrow> holder s k \<noteq> Some t \<Longrightarrow> finish k t s = None"
  by (metis finish_needs_token not_None_eq)

lemma finish_once: "wf s \<Longrightarrow> finish k t s = Some s' \<Longrightarrow> finish k u s' = None"
  by (simp add: stale_token_refused [OF finish_wf] finish_releases)

lemma single_winner:
  "wf s \<Longrightarrow> finish k t s = Some s1 \<Longrightarrow> finish k u s = Some s2 \<Longrightarrow> t = u"
  by (metis finish_needs_token option.inject)

lemma finish_commutes_on_others:
  "wf s \<Longrightarrow> finish k t s = Some s' \<Longrightarrow> j \<noteq> k \<Longrightarrow> holder s' j = Some u \<longleftrightarrow> holder s j = Some u"
  using finish_frame by metis

end

subsection \<open>What a queue's selection and claim promise each other\<close>

text \<open>
  \<open>sel\<close> proposes a candidate, \<open>attempt\<close> is the compare-and-set on it. A claim that
  succeeds leaves the state well formed and satisfies \<open>won\<close>; a claim refused leaves
  the state as it was; a candidate selected in the very state it is claimed in is claimed.
\<close>

locale cas_queue =
  fixes sel :: "'s \<Rightarrow> 'k option"
    and attempt :: "'k \<Rightarrow> 's \<Rightarrow> 'a option \<times> 's"
    and wf :: "'s \<Rightarrow> bool"
    and won :: "'k \<Rightarrow> 's \<Rightarrow> 'a \<Rightarrow> 's \<Rightarrow> bool"
  assumes try_won: "wf s \<Longrightarrow> attempt k s = (Some a, s') \<Longrightarrow> won k s a s' \<and> wf s'"
    and try_refused: "wf s \<Longrightarrow> attempt k s = (None, s') \<Longrightarrow> s' = s"
    and sel_try: "wf s \<Longrightarrow> sel s = Some k \<Longrightarrow> \<exists>a s'. attempt k s = (Some a, s')"
begin

lemma cas_loop_safe:
  assumes "\<And>r u. r \<in> set races \<Longrightarrow> wf u \<Longrightarrow> wf (r u)"
    and "wf s" and "cas_loop races sel attempt s = (res, s')"
  shows "wf s' \<and> (\<forall>a. res = Some a \<longrightarrow> (\<exists>k u. wf u \<and> attempt k u = (Some a, s') \<and> won k u a s'))"
  using assms
proof (induction races arbitrary: s)
  case Nil
  then show ?case by simp
next
  case (Cons r races)
  show ?case
  proof (cases "sel s")
    case None
    with Cons.prems show ?thesis by auto
  next
    case (Some k)
    from Cons.prems have wfr: "wf (r s)" by simp
    obtain o1 s1 where t: "attempt k (r s) = (o1, s1)" by (cases "attempt k (r s)")
    show ?thesis
    proof (cases o1)
      case (Some a)
      with t have t': "attempt k (r s) = (Some a, s1)" by simp
      from try_won [OF wfr t'] have "won k (r s) a s1 \<and> wf s1" .
      moreover from Cons.prems(3) \<open>sel s = Some k\<close> t' have "res = Some a" "s' = s1" by auto
      ultimately show ?thesis using wfr t' by auto
    next
      case None
      with t have "attempt k (r s) = (None, s1)" by simp
      from try_refused [OF wfr this] have "s1 = r s" .
      with Cons.prems(3) \<open>sel s = Some k\<close> t None
      have "cas_loop races sel attempt (r s) = (res, s')" by simp
      with Cons.IH Cons.prems(1) wfr show ?thesis by (metis list.set_intros(2))
    qed
  qed
qed

lemma cas_loop_quiet:
  assumes "wf s" and "0 < n"
  shows "cas_loop (quiet n) sel attempt s =
         (case sel s of None \<Rightarrow> (None, s) | Some k \<Rightarrow> attempt k s)"
proof (cases n)
  case 0
  with assms show ?thesis by simp
next
  case (Suc m)
  show ?thesis
  proof (cases "sel s")
    case None
    with Suc show ?thesis by (simp add: quiet_def)
  next
    case (Some k)
    with sel_try [OF assms(1)] obtain a s' where "attempt k s = (Some a, s')" by blast
    with Some Suc show ?thesis by (simp add: quiet_def)
  qed
qed

lemma cas_loop_progress:
  "wf s \<Longrightarrow> sel s \<noteq> None \<Longrightarrow> 0 < n \<Longrightarrow> \<exists>a s'. cas_loop (quiet n) sel attempt s = (Some a, s')"
  using cas_loop_quiet sel_try by fastforce

end

end
