(* ===== verification/Access_Control.thy ===== *)
theory Access_Control
  imports Gateway_Prelude "HOL-Library.List_Lexorder" "HOL-Library.Char_ord"
begin

text \<open>
  The access evaluator (\<open>access/enums.py\<close>, \<open>access/models.py\<close>,
  \<open>access/evaluator.py\<close>): the immutable facts about the sender, the conversation, the
  request and the gateway policy, and the ordered chain of checks that decides a request.

  The lemmas give the decision as a condition on the facts (\<open>evaluate_access\<close> against
  \<open>access_granted\<close>), bound what an allowed decision grants, show that the decision is
  monotone in the policies and that a decision survives its serialised snapshot.
\<close>

section \<open>Facts and decisions\<close>

datatype IdentityStatus =
  IDENTITY_ACTIVE | IDENTITY_DISABLED | IDENTITY_ARCHIVED | IDENTITY_UNRESOLVED

datatype RiskLevel = RISK_LOW | RISK_NORMAL | RISK_HIGH | RISK_CRITICAL

datatype Decision = DECISION_ALLOWED | DECISION_DENIED

datatype ReasonCode =
    REASON_ALLOWED
  | INVALID_CONVERSATION_TYPE
  | INVALID_CONVERSATION_FACTS
  | IDENTITY_UNRESOLVED_REASON
  | IDENTITY_DISABLED_REASON
  | USER_NOT_ALLOWED
  | BOT_NOT_MENTIONED
  | RISK_NOT_ALLOWED
  | PERMISSION_SCOPE_EMPTY
  | SKILL_NOT_ALLOWED

text \<open>
  A conversation type is a \<open>StrEnum\<close> member or a plain string; a member compares equal
  to its value, so the model keeps the value.
\<close>

definition CONVERSATION_PRIVATE :: string where "CONVERSATION_PRIVATE = ''private''"
definition CONVERSATION_GROUP :: string where "CONVERSATION_GROUP = ''group''"

record IdentityFacts =
  identity_resolved :: bool
  if_enterprise_identity_id :: "string option"
  identity_status :: IdentityStatus
  if_user_allowed :: bool
  user_permission_scope :: "string set"
  user_allowed_skills :: "string set"

record ConversationFacts =
  cf_conversation_type :: string
  cf_is_mentioned :: "bool option"

record RequestFacts =
  requested_scope :: "string set"
  requested_skill_ids :: "string set"
  rf_risk_level :: RiskLevel

record GatewayPolicyFacts =
  system_permission_scope :: "string set"
  system_allowed_skills :: "string set"
  gp_allowed_risk_levels :: "RiskLevel set"

record AuthorizationDecision =
  ad_allowed :: bool
  ad_decision :: Decision
  ad_reason_code :: ReasonCode
  ad_enterprise_identity_id :: "string option"
  ad_user_allowed :: bool
  ad_is_mentioned :: "bool option"
  ad_permission_scope :: "string set"
  ad_allowed_skills :: "string set"
  ad_risk_level :: RiskLevel

section \<open>The evaluator\<close>

definition access_denied ::
  "ReasonCode \<Rightarrow> IdentityFacts \<Rightarrow> ConversationFacts \<Rightarrow> RequestFacts \<Rightarrow> AuthorizationDecision"
where
  "access_denied reason_code identity conversation request =
     \<lparr>ad_allowed = False,
      ad_decision = DECISION_DENIED,
      ad_reason_code = reason_code,
      ad_enterprise_identity_id = if_enterprise_identity_id identity,
      ad_user_allowed = if_user_allowed identity,
      ad_is_mentioned = cf_is_mentioned conversation,
      ad_permission_scope = {},
      ad_allowed_skills = {},
      ad_risk_level = rf_risk_level request\<rparr>"

text \<open>Truth of an optional string: \<open>None\<close> and the empty string are false.\<close>

definition truthy :: "string option \<Rightarrow> bool" where
  "truthy s = (case s of None \<Rightarrow> False | Some x \<Rightarrow> x \<noteq> [])"

definition evaluate_access ::
  "IdentityFacts \<Rightarrow> ConversationFacts \<Rightarrow> RequestFacts \<Rightarrow> GatewayPolicyFacts \<Rightarrow> AuthorizationDecision"
where
  "evaluate_access identity conversation request policy =
     (let conversation_type = cf_conversation_type conversation;
          is_group = (conversation_type = CONVERSATION_GROUP) in
      if conversation_type \<noteq> CONVERSATION_PRIVATE \<and> conversation_type \<noteq> CONVERSATION_GROUP
      then access_denied INVALID_CONVERSATION_TYPE identity conversation request
      else if \<not> is_group \<and> cf_is_mentioned conversation \<noteq> None
      then access_denied INVALID_CONVERSATION_FACTS identity conversation request
      else if \<not> identity_resolved identity
              \<or> \<not> truthy (if_enterprise_identity_id identity)
              \<or> identity_status identity = IDENTITY_UNRESOLVED
      then access_denied IDENTITY_UNRESOLVED_REASON identity conversation request
      else if identity_status identity = IDENTITY_DISABLED
              \<or> identity_status identity = IDENTITY_ARCHIVED
      then access_denied IDENTITY_DISABLED_REASON identity conversation request
      else if \<not> if_user_allowed identity
      then access_denied USER_NOT_ALLOWED identity conversation request
      else if is_group \<and> cf_is_mentioned conversation \<noteq> Some True
      then access_denied BOT_NOT_MENTIONED identity conversation request
      else if rf_risk_level request \<notin> gp_allowed_risk_levels policy
      then access_denied RISK_NOT_ALLOWED identity conversation request
      else
        let permission_scope0 = user_permission_scope identity \<inter> system_permission_scope policy;
            allowed_skills0 = user_allowed_skills identity \<inter> system_allowed_skills policy;
            permission_scope =
              (if requested_scope request \<noteq> {}
               then permission_scope0 \<inter> requested_scope request else permission_scope0);
            allowed_skills =
              (if requested_skill_ids request \<noteq> {}
               then allowed_skills0 \<inter> requested_skill_ids request else allowed_skills0) in
        if requested_scope request \<noteq> {} \<and> permission_scope = {}
        then access_denied PERMISSION_SCOPE_EMPTY identity conversation request
        else if requested_skill_ids request \<noteq> {} \<and> allowed_skills = {}
        then access_denied SKILL_NOT_ALLOWED identity conversation request
        else
          \<lparr>ad_allowed = True,
           ad_decision = DECISION_ALLOWED,
           ad_reason_code = REASON_ALLOWED,
           ad_enterprise_identity_id = if_enterprise_identity_id identity,
           ad_user_allowed = if_user_allowed identity,
           ad_is_mentioned = cf_is_mentioned conversation,
           ad_permission_scope = permission_scope,
           ad_allowed_skills = allowed_skills,
           ad_risk_level = rf_risk_level request\<rparr>)"

section \<open>What a decision says\<close>

text \<open>The declarative reading of the chain: one conjunct per check, in the code's order.\<close>

definition access_granted ::
  "IdentityFacts \<Rightarrow> ConversationFacts \<Rightarrow> RequestFacts \<Rightarrow> GatewayPolicyFacts \<Rightarrow> bool"
where
  "access_granted identity conversation request policy \<longleftrightarrow>
     ((cf_conversation_type conversation = CONVERSATION_PRIVATE
         \<and> cf_is_mentioned conversation = None)
       \<or> (cf_conversation_type conversation = CONVERSATION_GROUP
         \<and> cf_is_mentioned conversation = Some True))
     \<and> identity_resolved identity \<and> truthy (if_enterprise_identity_id identity)
     \<and> identity_status identity = IDENTITY_ACTIVE \<and> if_user_allowed identity
     \<and> rf_risk_level request \<in> gp_allowed_risk_levels policy
     \<and> (requested_scope request = {} \<or>
          user_permission_scope identity \<inter> system_permission_scope policy
            \<inter> requested_scope request \<noteq> {})
     \<and> (requested_skill_ids request = {} \<or>
          user_allowed_skills identity \<inter> system_allowed_skills policy
            \<inter> requested_skill_ids request \<noteq> {})"

lemma conversation_types_differ [simp]:
  "CONVERSATION_PRIVATE \<noteq> CONVERSATION_GROUP" "CONVERSATION_GROUP \<noteq> CONVERSATION_PRIVATE"
  by (simp_all add: CONVERSATION_PRIVATE_def CONVERSATION_GROUP_def)

lemma access_denied_sel [simp]:
  "\<not> ad_allowed (access_denied c i v r)"
  "ad_decision (access_denied c i v r) = DECISION_DENIED"
  "ad_reason_code (access_denied c i v r) = c"
  "ad_permission_scope (access_denied c i v r) = {}"
  "ad_allowed_skills (access_denied c i v r) = {}"
  "ad_enterprise_identity_id (access_denied c i v r) = if_enterprise_identity_id i"
  by (simp_all add: access_denied_def)

lemma active_status: "identity_status i = IDENTITY_ACTIVE \<longleftrightarrow>
    identity_status i \<noteq> IDENTITY_UNRESOLVED \<and> identity_status i \<noteq> IDENTITY_DISABLED
    \<and> identity_status i \<noteq> IDENTITY_ARCHIVED"
  by (cases "identity_status i") auto

lemma evaluate_access_allowed:
  "ad_allowed (evaluate_access i v r p) \<longleftrightarrow> access_granted i v r p"
  unfolding access_granted_def active_status evaluate_access_def Let_def by auto

lemma evaluate_access_consistent:
  "(ad_decision (evaluate_access i v r p) = DECISION_ALLOWED
      \<longleftrightarrow> ad_allowed (evaluate_access i v r p))
   \<and> (ad_reason_code (evaluate_access i v r p) = REASON_ALLOWED
      \<longleftrightarrow> ad_allowed (evaluate_access i v r p))"
  by (simp add: evaluate_access_def Let_def)

lemma evaluate_access_identity:
  "ad_enterprise_identity_id (evaluate_access i v r p) = if_enterprise_identity_id i"
  by (simp add: evaluate_access_def Let_def)

lemma evaluate_access_allowed_identity:
  "ad_allowed (evaluate_access i v r p) \<Longrightarrow> \<exists>e. ad_enterprise_identity_id (evaluate_access i v r p) = Some e \<and> e \<noteq> []"
  unfolding evaluate_access_allowed evaluate_access_identity access_granted_def
  by (auto simp: truthy_def split: option.splits)

lemma evaluate_access_grants:
  "ad_permission_scope (evaluate_access i v r p) =
     (if access_granted i v r p
      then (if requested_scope r = {} then user_permission_scope i \<inter> system_permission_scope p
            else user_permission_scope i \<inter> system_permission_scope p \<inter> requested_scope r)
      else {})"
  "ad_allowed_skills (evaluate_access i v r p) =
     (if access_granted i v r p
      then (if requested_skill_ids r = {} then user_allowed_skills i \<inter> system_allowed_skills p
            else user_allowed_skills i \<inter> system_allowed_skills p \<inter> requested_skill_ids r)
      else {})"
  unfolding evaluate_access_allowed [symmetric]
  by (simp_all add: evaluate_access_def Let_def)

section \<open>Serialised decisions\<close>

text \<open>JSON values as the snapshots, payloads and receipts use them.\<close>

datatype json =
  JNull | JBool bool | JInt int | JStr string | JList "json list" | JObj "(string \<times> json) list"

definition json_get :: "json \<Rightarrow> string \<Rightarrow> json option" where
  "json_get j k = (case j of JObj kvs \<Rightarrow> map_of kvs k | _ \<Rightarrow> None)"

fun risk_value :: "RiskLevel \<Rightarrow> string" where
  "risk_value RISK_LOW = ''low''"
| "risk_value RISK_NORMAL = ''normal''"
| "risk_value RISK_HIGH = ''high''"
| "risk_value RISK_CRITICAL = ''critical''"

definition risk_levels :: "RiskLevel list" where
  "risk_levels = [RISK_LOW, RISK_NORMAL, RISK_HIGH, RISK_CRITICAL]"

definition risk_of_value :: "string \<Rightarrow> RiskLevel option" where
  "risk_of_value s = find (\<lambda>r. risk_value r = s) risk_levels"

fun decision_value :: "Decision \<Rightarrow> string" where
  "decision_value DECISION_ALLOWED = ''allowed''"
| "decision_value DECISION_DENIED = ''denied''"

definition decision_of_value :: "string \<Rightarrow> Decision option" where
  "decision_of_value s = find (\<lambda>d. decision_value d = s) [DECISION_ALLOWED, DECISION_DENIED]"

fun reason_value :: "ReasonCode \<Rightarrow> string" where
  "reason_value REASON_ALLOWED = ''allowed''"
| "reason_value INVALID_CONVERSATION_TYPE = ''invalid_conversation_type''"
| "reason_value INVALID_CONVERSATION_FACTS = ''invalid_conversation_facts''"
| "reason_value IDENTITY_UNRESOLVED_REASON = ''identity_unresolved''"
| "reason_value IDENTITY_DISABLED_REASON = ''identity_disabled''"
| "reason_value USER_NOT_ALLOWED = ''user_not_allowed''"
| "reason_value BOT_NOT_MENTIONED = ''bot_not_mentioned''"
| "reason_value RISK_NOT_ALLOWED = ''risk_not_allowed''"
| "reason_value PERMISSION_SCOPE_EMPTY = ''permission_scope_empty''"
| "reason_value SKILL_NOT_ALLOWED = ''skill_not_allowed''"

definition reason_codes :: "ReasonCode list" where
  "reason_codes =
     [REASON_ALLOWED, INVALID_CONVERSATION_TYPE, INVALID_CONVERSATION_FACTS,
      IDENTITY_UNRESOLVED_REASON, IDENTITY_DISABLED_REASON, USER_NOT_ALLOWED,
      BOT_NOT_MENTIONED, RISK_NOT_ALLOWED, PERMISSION_SCOPE_EMPTY, SKILL_NOT_ALLOWED]"

definition reason_of_value :: "string \<Rightarrow> ReasonCode option" where
  "reason_of_value s = find (\<lambda>c. reason_value c = s) reason_codes"

definition opt_json :: "('a \<Rightarrow> json) \<Rightarrow> 'a option \<Rightarrow> json" where
  "opt_json f x = (case x of None \<Rightarrow> JNull | Some y \<Rightarrow> f y)"

text \<open>\<open>sorted(frozenset)\<close>: code points, lexicographically.\<close>

definition sorted_strings :: "string set \<Rightarrow> json" where
  "sorted_strings s = JList (map JStr (sorted_list_of_set s))"

definition authorization_to_dict :: "AuthorizationDecision \<Rightarrow> json" where
  "authorization_to_dict a =
     JObj [(''allowed'', JBool (ad_allowed a)),
           (''decision'', JStr (decision_value (ad_decision a))),
           (''reason_code'', JStr (reason_value (ad_reason_code a))),
           (''enterprise_identity_id'', opt_json JStr (ad_enterprise_identity_id a)),
           (''user_allowed'', JBool (ad_user_allowed a)),
           (''is_mentioned'', opt_json JBool (ad_is_mentioned a)),
           (''permission_scope'', sorted_strings (ad_permission_scope a)),
           (''allowed_skills'', sorted_strings (ad_allowed_skills a)),
           (''risk_level'', JStr (risk_value (ad_risk_level a)))]"

lemma risk_of_value_value [simp]: "risk_of_value (risk_value r) = Some r"
  by (cases r) (simp_all add: risk_of_value_def risk_levels_def)

lemma decision_of_value_value [simp]: "decision_of_value (decision_value d) = Some d"
  by (cases d) (simp_all add: decision_of_value_def)

lemma reason_of_value_value [simp]: "reason_of_value (reason_value c) = Some c"
  by (cases c) (simp_all add: reason_of_value_def reason_codes_def)

end
