(* ===== verification/Gateway_Schema.thy ===== *)
theory Gateway_Schema
  imports Access_Control
begin

text \<open>
  The durable state: one record per mapped class of the \<open>models.py\<close> files, one enum per
  \<open>StrEnum\<close>, the check and unique constraints the tables declare, the database as a record
  of tables (\<open>gateway_db\<close>) and the exceptions the stores raise (\<open>gateway_error\<close>).

  A table is the list of its rows in insertion order, an auto-increment primary key is
  drawn from the table's sequence. Check constraints are boolean functions of a row,
  unique constraints \<open>distinct\<close> conditions on a table: a statement that would break one
  raises \<open>IntegrityError\<close>.
\<close>

section \<open>Enumerations\<close>

datatype HermesDispatchStatus =
  D_QUEUED | D_RUNNING | D_SUCCESS | D_FAILED | D_UNCERTAIN | D_DEAD

datatype HermesDispatchRecoveryAction = RETRY_APPROVED | MARK_DEAD | CONFIRM_SUCCESS

datatype ResponseStatus =
  R_QUEUED | R_GENERATED | R_DELIVERING | R_DELIVERED | R_FAILED | R_UNCERTAIN

datatype ResponsePartKind = PART_TEXT | PART_ARTIFACT_REF

datatype DeliveryStatus = O_QUEUED | O_DELIVERING | O_DELIVERED | O_FAILED | O_UNCERTAIN

datatype DeliveryAttemptStatus = A_DELIVERING | A_DELIVERED | A_FAILED | A_UNCERTAIN

datatype ArtifactKind = ARTIFACT_IMAGE | ARTIFACT_FILE

datatype ArtifactStatus = ARTIFACT_CREATED | ARTIFACT_READY | ARTIFACT_FAILED | ARTIFACT_EXPIRED

datatype AdmissionReason =
    ADMISSION_ALLOWED | SELF_MESSAGE | SYSTEM_MESSAGE | SENDER_UNRESOLVED
  | ACCESS_DENIED | ROUTE_UNAVAILABLE | LEGACY_UNRESOLVED

datatype AdmissionOutcomeState = ADMISSION_PENDING | ADMISSION_COMPLETED

datatype AdmissionDecision = ADMISSION_DECISION_ALLOWED | ADMISSION_DECISION_DENIED
  | ADMISSION_DECISION_UNRESOLVED

datatype AdmissionEvidenceOrigin = ORIGIN_RUNTIME | ORIGIN_LEGACY_DISPATCH
  | ORIGIN_LEGACY_UNRESOLVED

datatype StoredIdentityStatus = STORED_ACTIVE | STORED_DISABLED | STORED_ARCHIVED

datatype WorkspaceStatus = WORKSPACE_ACTIVE | WORKSPACE_DISABLED | WORKSPACE_ARCHIVED

datatype ThreadType = THREAD_PRIVATE | THREAD_GROUP

datatype ThreadPolicy = PRIVATE_SENDER | GROUP_SHARED | GROUP_SENDER

datatype ThreadStatus = THREAD_ACTIVE | THREAD_DISABLED | THREAD_ARCHIVED

datatype AgentProfileStatus = PROFILE_ACTIVE | PROFILE_DISABLED | PROFILE_ARCHIVED

datatype GroupTypeStatus = GROUP_ACTIVE | GROUP_DISABLED | GROUP_ARCHIVED

section \<open>Values passed between components\<close>

record AdmissionOutcome =
  ao_message_id :: int
  ao_admitted :: bool
  ao_should_create_task :: bool
  ao_reason :: AdmissionReason
  ao_enterprise_identity_id :: "string option"
  ao_workspace_id :: "string option"
  ao_ai_thread_id :: "string option"
  ao_authorization :: "AuthorizationDecision option"
  ao_policy_snapshot :: "json option"
  ao_gateway_policy_id :: "string option"
  ao_gateway_policy_updated_at :: "instant option"
  ao_user_policy_id :: "string option"
  ao_user_policy_updated_at :: "instant option"
  ao_routing_mode :: string
  ao_route_conversation_record_id :: "int option"
  ao_agent_profile_id :: "string option"
  ao_agent_profile_key :: "string option"
  ao_agent_profile_reference :: "string option"
  ao_agent_profile_revision :: "int option"
  ao_group_type_id :: "string option"
  ao_group_type_key :: "string option"
  ao_thread_policy :: "string option"

datatype ResponsePart = TextPart string | ArtifactRefPart string

record ResponseEnvelope =
  env_response_id :: string
  env_parts :: "ResponsePart list"

record HermesDispatchOutcome =
  out_message_id :: int
  out_workspace_id :: string
  out_ai_thread_id :: string
  out_assistant_content :: string
  out_response :: "ResponseEnvelope option"
  out_requested_hermes_thread_id :: "string option"
  out_next_hermes_thread_id :: "string option"

section \<open>Rows\<close>

record HermesDispatchRecord =
  d_id :: int
  d_idempotency_key :: string
  d_message_id :: int
  d_enterprise_identity_id :: string
  d_workspace_id :: string
  d_ai_thread_id :: string
  d_status :: HermesDispatchStatus
  d_attempt_count :: int
  d_manual_retry_approved :: bool
  d_claim_token :: "string option"
  d_claimed_at :: "instant option"
  d_completed_at :: "instant option"
  d_lease_expires_at :: "instant option"
  d_last_error_code :: "string option"
  d_reconciliation_failure_count :: int
  d_reconciliation_next_attempt_at :: "instant option"
  d_reconciliation_quarantined_at :: "instant option"
  d_reconciliation_last_error_code :: "string option"
  d_created_at :: instant
  d_updated_at :: instant

record HermesDispatchRecoveryAudit =
  u_id :: int
  u_dispatch_record_id :: int
  u_action :: HermesDispatchRecoveryAction
  u_operator :: string
  u_reference :: string
  u_reason :: string
  u_before_status :: HermesDispatchStatus
  u_after_status :: HermesDispatchStatus
  u_before_error_code :: "string option"
  u_evidence_dispatch_response_id :: "int option"
  u_created_at :: instant

record HermesDispatchResponse =
  h_id :: int
  h_dispatch_record_id :: int
  h_hermes_response_id :: "string option"
  h_assistant_content :: string
  h_response_payload :: "json option"
  h_created_at :: instant

record ResponsePartRecord =
  p_ordinal :: nat
  p_part_type :: ResponsePartKind
  p_text :: "string option"
  p_artifact_id :: "string option"

record ResponseRecord =
  r_response_id :: string
  r_idempotency_key :: string
  r_message_id :: int
  r_workspace_id :: string
  r_ai_thread_id :: string
  r_content_sha256 :: string
  r_part_count :: int
  r_status :: ResponseStatus
  r_generated_at :: "instant option"
  r_delivering_at :: "instant option"
  r_delivered_at :: "instant option"
  r_failed_at :: "instant option"
  r_uncertain_at :: "instant option"
  r_last_error_code :: "string option"
  r_created_at :: instant
  r_updated_at :: instant
  r_parts :: "ResponsePartRecord list"

record DeliveryOutboxRecord =
  o_id :: int
  o_idempotency_key :: string
  o_response_id :: string
  o_channel :: string
  o_account_id :: string
  o_conversation_id :: string
  o_target_key :: string
  o_status :: DeliveryStatus
  o_next_part_ordinal :: int
  o_attempt_count :: int
  o_available_at :: instant
  o_claim_token :: "string option"
  o_claimed_at :: "instant option"
  o_completed_at :: "instant option"
  o_last_error_code :: "string option"
  o_created_at :: instant
  o_updated_at :: instant

record DeliveryAttempt =
  a_id :: int
  a_delivery_id :: int
  a_part_ordinal :: int
  a_attempt_number :: int
  a_provider_idempotency_key :: string
  a_status :: DeliveryAttemptStatus
  a_provider_message_id :: "string option"
  a_receipt_payload :: "json option"
  a_error_code :: "string option"
  a_started_at :: instant
  a_completed_at :: "instant option"

record DeliveryReceipt =
  c_delivery_id :: int
  c_part_ordinal :: int
  c_response_id :: string
  c_attempt_id :: int
  c_provider_message_id :: "string option"
  c_receipt_payload :: json
  c_delivered_at :: instant

record Artifact =
  f_artifact_id :: string
  f_response_id :: string
  f_kind :: ArtifactKind
  f_filename :: string
  f_mime_type :: string
  f_size :: "int option"
  f_sha256 :: "string option"
  f_storage_key :: string
  f_status :: ArtifactStatus

record MessageAdmissionOutcome =
  m_id :: int
  m_message_id :: int
  m_state :: AdmissionOutcomeState
  m_decision :: "AdmissionDecision option"
  m_evidence_origin :: AdmissionEvidenceOrigin
  m_admission_reason :: "string option"
  m_should_create_task :: bool
  m_requested_scope :: "string set option"
  m_requested_skill_ids :: "string set option"
  m_risk_level :: "string option"
  m_authorization_reason_code :: "string option"
  m_authorization_snapshot :: "json option"
  m_policy_snapshot :: "json option"
  m_gateway_policy_id :: "string option"
  m_gateway_policy_updated_at :: "instant option"
  m_user_policy_id :: "string option"
  m_user_policy_updated_at :: "instant option"
  m_enterprise_identity_id :: "string option"
  m_workspace_id :: "string option"
  m_ai_thread_id :: "string option"
  m_routing_mode :: string
  m_route_conversation_record_id :: "int option"
  m_agent_profile_id :: "string option"
  m_agent_profile_key :: "string option"
  m_agent_profile_reference :: "string option"
  m_agent_profile_revision :: "int option"
  m_group_type_id :: "string option"
  m_group_type_key :: "string option"
  m_thread_policy :: "string option"
  m_attempt_count :: int
  m_claim_token :: "string option"
  m_lease_expires_at :: "instant option"
  m_last_error_code :: "string option"
  m_completed_at :: "instant option"
  m_created_at :: instant
  m_updated_at :: instant

record AIThread =
  t_id :: string
  t_workspace_id :: string
  t_agent_profile_id :: "string option"
  t_thread_type :: ThreadType
  t_thread_policy :: "ThreadPolicy option"
  t_thread_key :: string
  t_status :: ThreadStatus
  t_hermes_thread_id :: "string option"
  t_created_at :: instant
  t_updated_at :: instant
  t_last_active_at :: instant

record ThreadSourceBinding =
  b_id :: string
  b_ai_thread_id :: string
  b_platform :: string
  b_account_id :: string
  b_physical_conversation_id :: string
  b_sender_id :: "string option"
  b_created_at :: instant
  b_updated_at :: instant

record AgentProfile =
  ap_id :: string
  ap_profile_key :: string
  ap_revision :: int
  ap_provider :: string
  ap_external_profile_ref :: string
  ap_model :: string
  ap_status :: AgentProfileStatus
  ap_created_at :: instant
  ap_updated_at :: instant

record GroupType =
  gt_id :: string
  gt_type_key :: string
  gt_display_name :: string
  gt_agent_profile_id :: string
  gt_thread_policy :: ThreadPolicy
  gt_status :: GroupTypeStatus
  gt_created_at :: instant
  gt_updated_at :: instant

record ConversationAgentProfileBinding =
  cp_id :: string
  cp_conversation_id :: int
  cp_agent_profile_id :: string
  cp_created_at :: instant
  cp_updated_at :: instant

record ConversationGroupTypeBinding =
  cg_id :: string
  cg_conversation_id :: int
  cg_group_type_id :: string
  cg_created_at :: instant
  cg_updated_at :: instant

record EmployeeWorkspace =
  w_id :: string
  w_enterprise_identity_id :: string
  w_status :: WorkspaceStatus
  w_created_at :: instant
  w_updated_at :: instant
  w_last_active_at :: instant

record EnterpriseIdentity =
  e_id :: string
  e_employee_id :: "string option"
  e_display_name :: "string option"
  e_status :: StoredIdentityStatus
  e_created_at :: instant
  e_updated_at :: instant

record SourceIdentityMapping =
  s_id :: string
  s_platform :: string
  s_account_id :: string
  s_sender_id :: string
  s_enterprise_identity_id :: string
  s_enabled :: bool
  s_created_at :: instant
  s_updated_at :: instant

record UserAccessPolicy =
  up_id :: string
  up_enterprise_identity_id :: string
  up_enabled :: bool
  up_permission_scope :: "string set"
  up_allowed_skills :: "string set"
  up_valid_from :: "instant option"
  up_valid_until :: "instant option"
  up_created_at :: instant
  up_updated_at :: instant

record GatewayAccessPolicy =
  gap_id :: string
  gap_policy_key :: string
  gap_permission_scope :: "string set"
  gap_allowed_skills :: "string set"
  gap_allowed_risk_levels :: "string set"
  gap_enabled :: bool
  gap_created_at :: instant
  gap_updated_at :: instant

record Conversation =
  v_id :: int
  v_source :: string
  v_source_account_id :: string
  v_conversation_id :: string
  v_conversation_type :: string
  v_conversation_name :: "string option"
  v_created_at :: instant
  v_updated_at :: instant

text \<open>
  The attachments and the raw payload of a message are rows of their own that live and die
  with it; their surrogate keys are not modelled.
\<close>

record Attachment =
  at_filename :: string
  at_file_type :: string
  at_mime_type :: string
  at_file_size :: int
  at_storage_path :: string
  at_hash :: string

record Message =
  g_id :: int
  g_event_id :: string
  g_source :: string
  g_source_account_id :: string
  g_source_message_id :: string
  g_conversation_id :: string
  g_conversation_type :: string
  g_is_mentioned :: "bool option"
  g_is_self :: bool
  g_sender_type :: string
  g_sender_id :: "string option"
  g_sender_name :: "string option"
  g_message_type :: string
  g_raw_type :: "int option"
  g_content :: string
  g_timestamp :: instant
  g_source_local_id :: "string option"
  g_source_server_id :: "string option"
  g_source_message_id_is_fallback :: bool
  g_reply_context :: "json option"
  g_reply_to_message_id :: "string option"
  g_direction :: string
  g_occurred_at :: instant
  g_received_at :: instant
  g_created_at :: instant
  g_attachments :: "Attachment list"
  g_raw_payload :: "json option"

section \<open>The database\<close>

record gateway_db =
  conversations :: "Conversation list"
  conversation_seq :: int
  messages :: "Message list"
  message_seq :: int
  identities :: "EnterpriseIdentity list"
  identity_mappings :: "SourceIdentityMapping list"
  workspaces :: "EmployeeWorkspace list"
  ai_threads :: "AIThread list"
  thread_bindings :: "ThreadSourceBinding list"
  agent_profiles :: "AgentProfile list"
  group_types :: "GroupType list"
  profile_bindings :: "ConversationAgentProfileBinding list"
  group_bindings :: "ConversationGroupTypeBinding list"
  user_policies :: "UserAccessPolicy list"
  gateway_policies :: "GatewayAccessPolicy list"
  admissions :: "MessageAdmissionOutcome list"
  admission_seq :: int
  dispatches :: "HermesDispatchRecord list"
  dispatch_seq :: int
  recovery_audits :: "HermesDispatchRecoveryAudit list"
  audit_seq :: int
  dispatch_responses :: "HermesDispatchResponse list"
  dispatch_response_seq :: int
  responses :: "ResponseRecord list"
  deliveries :: "DeliveryOutboxRecord list"
  delivery_seq :: int
  attempts :: "DeliveryAttempt list"
  attempt_seq :: int
  receipts :: "DeliveryReceipt list"
  artifacts :: "Artifact list"

definition empty_db :: gateway_db where
  "empty_db =
     \<lparr>conversations = [], conversation_seq = 1, messages = [], message_seq = 1, identities = [],
      identity_mappings = [], workspaces = [], ai_threads = [], thread_bindings = [], agent_profiles = [],
      group_types = [], profile_bindings = [], group_bindings = [],
      user_policies = [], gateway_policies = [], admissions = [], admission_seq = 1,
      dispatches = [], dispatch_seq = 1, recovery_audits = [], audit_seq = 1,
      dispatch_responses = [], dispatch_response_seq = 1, responses = [], deliveries = [],
      delivery_seq = 1, attempts = [], attempt_seq = 1, receipts = [], artifacts = []\<rparr>"

section \<open>Exceptions\<close>

datatype identity_error =
    EmployeeIdConflictError string string
  | IdentityConflictError string
  | SourceIdentityConflictError string string
  | MappingNotFoundError
  | InvalidPolicyWindowError

datatype workspace_error =
    AuthorizedIdentityNotFoundError string
  | AuthorizedIdentityUnavailableError string StoredIdentityStatus
  | WorkspaceUnavailableError string WorkspaceStatus
  | ThreadConflictError string string
  | ThreadSourceBindingConflictError string string
  | ThreadNotFoundError string
  | ThreadUnavailableError string ThreadStatus
  | ThreadRoutingConflictError string
  | HermesThreadConflictError string string string

datatype routing_error =
    RouteConversationNotFoundError
  | RouteConversationTypeConflictError string string
  | RouteGroupTypeUnavailableError string GroupTypeStatus
  | RouteAgentProfileUnavailableError string "AgentProfileStatus option"
  | AgentProfileNotFoundError string
  | AgentProfileRevisionConflictError string int
  | AgentProfileIdConflictError string
  | GroupTypeNotFoundError string
  | GroupTypeConflictError string
  | GroupTypeIdConflictError string
  | InvalidGroupThreadPolicyError ThreadPolicy
  | ConversationNotFoundError int
  | ConversationNotGroupError int
  | ConversationNotPrivateError int
  | PrivateConversationProfileNotConfiguredError int
  | UnknownGroupTypeNotConfiguredError

datatype message_error =
    ConversationTypeConflictError string string
  | PersistedMessageNotFoundError int

datatype gateway_error =
    ValueError string
  | IntegrityError
  | StaleDataError
  | InvalidRequestError
  | HermesDispatchAdmissionError string
  | HermesDispatchTargetConflictError string int
  | HermesDispatchStateConflictError int HermesDispatchStatus
  | DispatchRecoveryNotFoundError
  | DispatchRecoveryStateConflictError
  | DispatchRecoveryEvidenceError string
  | DispatchRecoveryReferenceConflictError
  | ResponseValidationError string
  | ResponseConflictError string
  | DeliveryStateConflictError int string
  | AdmissionInvariantError string
  | AdmissionPendingError int
  | AdmissionStateConflictError int
  | IdentityNotFoundError string
  | InvalidGatewayPolicyKeyError string
  | SchemaValidationError
  | IdentityFailure identity_error
  | WorkspaceFailure workspace_error
  | RoutingFailure routing_error
  | MessageFailure message_error

text \<open>A store operation returns a value or raises, and leaves a database behind.\<close>

type_synonym 'a outcome = "(gateway_error + 'a) \<times> gateway_db"

text \<open>A validated argument is passed on; a validation that raises leaves the database as it is.\<close>

definition checked :: "gateway_error + 'a \<Rightarrow> gateway_db \<Rightarrow> ('a \<Rightarrow> 'b outcome) \<Rightarrow> 'b outcome" where
  "checked v db k = (case v of Inl e \<Rightarrow> (Inl e, db) | Inr x \<Rightarrow> k x)"

lemma checked_simps [simp]:
  "checked (Inl e) db k = (Inl e, db)" "checked (Inr x) db k = k x"
  by (simp_all add: checked_def)

lemma checked_InrD:
  "checked v db k = (Inr y, db') \<Longrightarrow> \<exists>x. v = Inr x \<and> k x = (Inr y, db')"
  by (cases v) auto

section \<open>Argument validation shared by the stores\<close>

text \<open>\<open>_validated_required_string\<close>: the value is checked, not changed.\<close>

definition validated_required_string :: "string \<Rightarrow> nat \<Rightarrow> string \<Rightarrow> gateway_error + string" where
  "validated_required_string field_name max_length value =
     (if \<not> nonblank value then Inl (ValueError (field_name @ '' must not be empty''))
      else if length value > max_length then Inl (ValueError (field_name @ '' is too long''))
      else Inr value)"

text \<open>\<open>_validated_lease_seconds\<close>: a bool is not a number here, an int becomes a float.\<close>

definition validated_lease_seconds :: "py_num \<Rightarrow> gateway_error + rat" where
  "validated_lease_seconds value =
     (let bad = Inl (ValueError ''lease_seconds must be a finite positive number'');
          check = (\<lambda>x. if x \<le> 0 \<or> x > TIMEOUT_MAX then bad else Inr x) in
      case value of
        PyBool _ \<Rightarrow> bad
      | PyNonFinite \<Rightarrow> bad
      | PyInt n \<Rightarrow> check (of_int n)
      | PyFloat x \<Rightarrow> check x)"

definition validated_retry_limit :: "py_num \<Rightarrow> gateway_error + int" where
  "validated_retry_limit value =
     (let bad = Inl (ValueError ''retry_limit must be a non-negative integer'') in
      case value of
        PyInt n \<Rightarrow> if n < 0 then bad else Inr n
      | _ \<Rightarrow> bad)"

definition validated_now :: "clocks \<Rightarrow> py_datetime option \<Rightarrow> gateway_error + instant" where
  "validated_now ck value =
     (case value of
        None \<Rightarrow> Inr (wall_now ck)
      | Some (Aware t) \<Rightarrow> Inr t
      | Some (Naive _) \<Rightarrow> Inl (ValueError ''now must be a timezone-aware datetime''))"

lemma validated_required_string_Inr:
  "validated_required_string f n v = Inr x \<longleftrightarrow> x = v \<and> nonblank v \<and> length v \<le> n"
  by (auto simp: validated_required_string_def)

lemma validated_lease_seconds_Inr:
  "validated_lease_seconds v = Inr x \<Longrightarrow> 0 < x \<and> x \<le> TIMEOUT_MAX"
  by (auto simp: validated_lease_seconds_def Let_def split: py_num.splits if_splits)

lemma validated_lease_seconds_again:
  "0 < x \<Longrightarrow> x \<le> TIMEOUT_MAX \<Longrightarrow> validated_lease_seconds (PyFloat x) = Inr x"
  by (simp add: validated_lease_seconds_def)

lemma validated_retry_limit_Inr: "validated_retry_limit v = Inr n \<longleftrightarrow> v = PyInt n \<and> 0 \<le> n"
  by (auto simp: validated_retry_limit_def Let_def split: py_num.splits if_splits)

text \<open>A nullable column compared in a \<open>WHERE\<close> clause: \<open>NULL\<close> never satisfies it.\<close>

definition sql_gt :: "instant option \<Rightarrow> instant \<Rightarrow> bool" where
  "sql_gt c t = (case c of None \<Rightarrow> False | Some x \<Rightarrow> x > t)"

definition sql_le :: "instant option \<Rightarrow> instant \<Rightarrow> bool" where
  "sql_le c t = (case c of None \<Rightarrow> False | Some x \<Rightarrow> x \<le> t)"

lemma sql_gt_le_disjoint: "sql_gt c t \<Longrightarrow> \<not> sql_le c t"
  by (auto simp: sql_gt_def sql_le_def split: option.splits)

end
