(* ===== verification/Dispatch_Store.thy ===== *)
theory Dispatch_Store
  imports Gateway_Schema
begin

text \<open>
  The durable dispatch queue (\<open>task/model/models.py\<close>, \<open>task/model/store.py\<close>): the
  constraints of \<open>hermes_dispatch_records\<close>, idempotent enqueue, the claim of the head of
  a thread, lease renewal, fenced completion and the finalisation of exhausted and expired
  records.

  Every operation is a function of the database the transaction sees. What other sessions
  commit between two statements of one operation is an explicit argument (\<open>race_*\<close>), so
  the recovery branches after a lost race are part of the model.

  The lemmas show that the \<open>WHERE\<close> clauses alone keep every table constraint, that a claim
  is taken only by the head of an idle thread, that a token fences completion, and the
  transitions a record can make.
\<close>

section \<open>Constraints of the table\<close>

definition is_null :: "'a option \<Rightarrow> bool" where
  "is_null x = (x = None)"

lemma is_null_simps [simp]: "is_null None" "\<not> is_null (Some x)"
  by (simp_all add: is_null_def)

text \<open>\<open>ck_hermes_dispatch_state_fields\<close>\<close>

fun dispatch_state_fields_ok :: "HermesDispatchRecord \<Rightarrow> bool" where
  "dispatch_state_fields_ok r =
     (case d_status r of
        D_QUEUED \<Rightarrow> is_null (d_claim_token r) \<and> is_null (d_claimed_at r)
          \<and> is_null (d_lease_expires_at r) \<and> is_null (d_completed_at r)
          \<and> is_null (d_last_error_code r)
      | D_RUNNING \<Rightarrow> \<not> is_null (d_claim_token r) \<and> \<not> is_null (d_claimed_at r)
          \<and> \<not> is_null (d_lease_expires_at r) \<and> is_null (d_completed_at r)
          \<and> is_null (d_last_error_code r)
      | D_SUCCESS \<Rightarrow> is_null (d_claim_token r) \<and> \<not> is_null (d_claimed_at r)
          \<and> is_null (d_lease_expires_at r) \<and> \<not> is_null (d_completed_at r)
          \<and> is_null (d_last_error_code r)
      | _ \<Rightarrow> is_null (d_claim_token r) \<and> \<not> is_null (d_claimed_at r)
          \<and> is_null (d_lease_expires_at r) \<and> \<not> is_null (d_completed_at r)
          \<and> \<not> is_null (d_last_error_code r))"

text \<open>\<open>ck_hermes_dispatch_reconciliation_state\<close>\<close>

definition dispatch_reconciliation_ok :: "HermesDispatchRecord \<Rightarrow> bool" where
  "dispatch_reconciliation_ok r =
     ((d_reconciliation_failure_count r = 0 \<and> is_null (d_reconciliation_next_attempt_at r)
         \<and> is_null (d_reconciliation_quarantined_at r)
         \<and> is_null (d_reconciliation_last_error_code r))
      \<or> (1 \<le> d_reconciliation_failure_count r \<and> d_reconciliation_failure_count r \<le> 4
         \<and> \<not> is_null (d_reconciliation_next_attempt_at r)
         \<and> is_null (d_reconciliation_quarantined_at r)
         \<and> \<not> is_null (d_reconciliation_last_error_code r))
      \<or> (5 \<le> d_reconciliation_failure_count r \<and> is_null (d_reconciliation_next_attempt_at r)
         \<and> \<not> is_null (d_reconciliation_quarantined_at r)
         \<and> \<not> is_null (d_reconciliation_last_error_code r)))"

text \<open>The check constraints of one row.\<close>

definition null_or_nonempty :: "string option \<Rightarrow> bool" where
  "null_or_nonempty c = (case c of None \<Rightarrow> True | Some s \<Rightarrow> sql_nonempty s)"

definition dispatch_row_ok :: "HermesDispatchRecord \<Rightarrow> bool" where
  "dispatch_row_ok r =
     (d_attempt_count r \<ge> 0
      \<and> (d_status r = D_QUEUED \<longleftrightarrow> d_attempt_count r = 0)
      \<and> sql_nonempty (d_idempotency_key r)
      \<and> null_or_nonempty (d_last_error_code r)
      \<and> null_or_nonempty (d_claim_token r)
      \<and> (\<not> d_manual_retry_approved r \<or> d_status r = D_FAILED)
      \<and> d_reconciliation_failure_count r \<ge> 0
      \<and> dispatch_reconciliation_ok r
      \<and> dispatch_state_fields_ok r)"

text \<open>
  The whole table: the row checks, the primary key, the two unique constraints and the
  partial unique index \<open>uq_hermes_dispatch_running_thread\<close>.
\<close>

definition running_threads :: "HermesDispatchRecord list \<Rightarrow> string list" where
  "running_threads rows = map d_ai_thread_id (filter (\<lambda>r. d_status r = D_RUNNING) rows)"

definition dispatch_table_ok :: "HermesDispatchRecord list \<Rightarrow> bool" where
  "dispatch_table_ok rows =
     (list_all dispatch_row_ok rows
      \<and> distinct (map d_id rows)
      \<and> distinct (map d_idempotency_key rows)
      \<and> distinct (map d_message_id rows)
      \<and> distinct (running_threads rows))"

section \<open>Statements\<close>

text \<open>An \<open>UPDATE\<close>: a violated constraint raises, otherwise the row count is reported.\<close>

definition dispatch_update ::
  "(HermesDispatchRecord \<Rightarrow> bool) \<Rightarrow> (HermesDispatchRecord \<Rightarrow> HermesDispatchRecord)
     \<Rightarrow> gateway_db \<Rightarrow> nat outcome"
where
  "dispatch_update p f db =
     (let rows' = update_where p f (dispatches db) in
      if dispatch_table_ok rows'
      then (Inr (rowcount p (dispatches db)), db\<lparr>dispatches := rows'\<rparr>)
      else (Inl IntegrityError, db))"

definition dispatch_reload :: "int \<Rightarrow> gateway_db \<Rightarrow> HermesDispatchRecord option" where
  "dispatch_reload record_id db = lookup_by d_id record_id (dispatches db)"

definition dispatch_get_by_idempotency_key ::
  "string \<Rightarrow> gateway_db \<Rightarrow> HermesDispatchRecord option" where
  "dispatch_get_by_idempotency_key key db = lookup_by d_idempotency_key key (dispatches db)"

definition dispatch_get_by_message_id :: "int \<Rightarrow> gateway_db \<Rightarrow> HermesDispatchRecord option" where
  "dispatch_get_by_message_id mid db = lookup_by d_message_id mid (dispatches db)"

text \<open>\<open>_apply_transition\<close>: one row or a state conflict; an integrity error is a conflict too.\<close>

definition dispatch_apply_transition ::
  "int \<Rightarrow> HermesDispatchStatus \<Rightarrow> (HermesDispatchRecord \<Rightarrow> bool)
     \<Rightarrow> (HermesDispatchRecord \<Rightarrow> HermesDispatchRecord) \<Rightarrow> gateway_db
     \<Rightarrow> HermesDispatchRecord outcome"
where
  "dispatch_apply_transition record_id expected_status p f db =
     (let conflict = Inl (HermesDispatchStateConflictError record_id expected_status) in
      case dispatch_update p f db of
        (Inl _, _) \<Rightarrow> (conflict, db)
      | (Inr n, db') \<Rightarrow>
          if n \<noteq> 1 then (conflict, db)
          else (case dispatch_reload record_id db' of
                  None \<Rightarrow> (conflict, db')
                | Some r \<Rightarrow> (Inr r, db')))"

section \<open>Enqueue\<close>

definition HERMES_DISPATCH_IDEMPOTENCY_NAMESPACE :: string where
  "HERMES_DISPATCH_IDEMPOTENCY_NAMESPACE = ''v1:hermes-chat:message''"

definition build_hermes_dispatch_idempotency_key :: "int \<Rightarrow> gateway_error + string" where
  "build_hermes_dispatch_idempotency_key message_id =
     (if message_id \<le> 0 then Inl (ValueError ''message_id must be a positive integer'')
      else Inr (HERMES_DISPATCH_IDEMPOTENCY_NAMESPACE @ '':'' @ int_str message_id))"

record DispatchTarget =
  dt_message_id :: int
  dt_enterprise_identity_id :: string
  dt_workspace_id :: string
  dt_ai_thread_id :: string

definition required_target_id :: "string option \<Rightarrow> string \<Rightarrow> gateway_error + string" where
  "required_target_id value reason =
     (case value of
        None \<Rightarrow> Inl (HermesDispatchAdmissionError reason)
      | Some v \<Rightarrow> if nonblank v then Inr v else Inl (HermesDispatchAdmissionError reason))"

definition dispatch_target :: "AdmissionOutcome \<Rightarrow> gateway_error + DispatchTarget" where
  "dispatch_target admission =
     (if \<not> ao_admitted admission \<or> ao_reason admission \<noteq> ADMISSION_ALLOWED
      then Inl (HermesDispatchAdmissionError ''admission_not_allowed'')
      else if \<not> ao_should_create_task admission
      then Inl (HermesDispatchAdmissionError ''task_not_requested'')
      else if ao_message_id admission \<le> 0
      then Inl (HermesDispatchAdmissionError ''invalid_message_id'')
      else
        case required_target_id (ao_enterprise_identity_id admission) ''enterprise_identity_missing'' of
          Inl e \<Rightarrow> Inl e
        | Inr identity_id \<Rightarrow>
          (case required_target_id (ao_workspace_id admission) ''workspace_missing'' of
             Inl e \<Rightarrow> Inl e
           | Inr workspace_id \<Rightarrow>
             (case required_target_id (ao_ai_thread_id admission) ''ai_thread_missing'' of
                Inl e \<Rightarrow> Inl e
              | Inr thread_id \<Rightarrow>
                  Inr \<lparr>dt_message_id = ao_message_id admission,
                       dt_enterprise_identity_id = identity_id,
                       dt_workspace_id = workspace_id,
                       dt_ai_thread_id = thread_id\<rparr>)))"

definition compatible_record_or_raise ::
  "HermesDispatchRecord \<Rightarrow> DispatchTarget \<Rightarrow> gateway_error + HermesDispatchRecord"
where
  "compatible_record_or_raise r target =
     (if d_message_id r \<noteq> dt_message_id target
         \<or> d_enterprise_identity_id r \<noteq> dt_enterprise_identity_id target
         \<or> d_workspace_id r \<noteq> dt_workspace_id target
         \<or> d_ai_thread_id r \<noteq> dt_ai_thread_id target
      then Inl (HermesDispatchTargetConflictError (d_idempotency_key r) (d_id r))
      else Inr r)"

text \<open>The row the insert creates: column defaults, then the server defaults.\<close>

definition new_dispatch_record :: "clocks \<Rightarrow> int \<Rightarrow> string \<Rightarrow> DispatchTarget \<Rightarrow> HermesDispatchRecord" where
  "new_dispatch_record ck new_id key target =
     \<lparr>d_id = new_id, d_idempotency_key = key, d_message_id = dt_message_id target,
      d_enterprise_identity_id = dt_enterprise_identity_id target,
      d_workspace_id = dt_workspace_id target, d_ai_thread_id = dt_ai_thread_id target,
      d_status = D_QUEUED, d_attempt_count = 0, d_manual_retry_approved = False,
      d_claim_token = None, d_claimed_at = None, d_completed_at = None,
      d_lease_expires_at = None, d_last_error_code = None,
      d_reconciliation_failure_count = 0, d_reconciliation_next_attempt_at = None,
      d_reconciliation_quarantined_at = None, d_reconciliation_last_error_code = None,
      d_created_at = db_now ck, d_updated_at = db_now ck\<rparr>"

text \<open>The foreign keys of a new row: message, identity, workspace and thread exist.\<close>

definition dispatch_foreign_keys_ok :: "gateway_db \<Rightarrow> HermesDispatchRecord \<Rightarrow> bool" where
  "dispatch_foreign_keys_ok db r =
     (d_message_id r \<in> g_id ` set (messages db)
      \<and> d_enterprise_identity_id r \<in> e_id ` set (identities db)
      \<and> d_workspace_id r \<in> w_id ` set (workspaces db)
      \<and> d_ai_thread_id r \<in> t_id ` set (ai_threads db))"

definition dispatch_find_existing :: "int \<Rightarrow> string \<Rightarrow> gateway_db \<Rightarrow> HermesDispatchRecord option" where
  "dispatch_find_existing mid key db =
     (case dispatch_get_by_message_id mid db of
        Some r \<Rightarrow> Some r
      | None \<Rightarrow> dispatch_get_by_idempotency_key key db)"

text \<open>
  \<open>stage_enqueue\<close> leaves two databases: the committed one (what a rollback returns to) and
  the one with the pending insert. \<open>race_lock\<close> is what other sessions commit until the
  thread row is locked, \<open>race_flush\<close> what they commit until the insert is flushed.
\<close>

definition dispatch_stage_enqueue ::
  "(gateway_db \<Rightarrow> gateway_db) \<Rightarrow> (gateway_db \<Rightarrow> gateway_db) \<Rightarrow> clocks \<Rightarrow> AdmissionOutcome \<Rightarrow> gateway_db
     \<Rightarrow> (gateway_error + HermesDispatchRecord \<times> bool) \<times> gateway_db \<times> gateway_db"
where
  "dispatch_stage_enqueue race_lock race_flush ck admission db =
     (case dispatch_target admission of
        Inl e \<Rightarrow> (Inl e, db, db)
      | Inr target \<Rightarrow>
        (case build_hermes_dispatch_idempotency_key (dt_message_id target) of
           Inl e \<Rightarrow> (Inl e, db, db)
         | Inr key \<Rightarrow>
           (case dispatch_find_existing (dt_message_id target) key db of
              Some r \<Rightarrow> (map_sum id (\<lambda>x. (x, False)) (compatible_record_or_raise r target), db, db)
            | None \<Rightarrow>
              (let db1 = race_lock db in
               case dispatch_find_existing (dt_message_id target) key db1 of
                 Some r \<Rightarrow>
                   (map_sum id (\<lambda>x. (x, False)) (compatible_record_or_raise r target), db1, db1)
               | None \<Rightarrow>
                 (let db2 = race_flush db1;
                      row = new_dispatch_record ck (dispatch_seq db2) key target in
                  if dispatch_table_ok (dispatches db2 @ [row]) \<and> dispatch_foreign_keys_ok db2 row
                  then (Inr (row, True), db2,
                        db2\<lparr>dispatches := dispatches db2 @ [row],
                            dispatch_seq := dispatch_seq db2 + 1\<rparr>)
                  else (Inl IntegrityError, db2, db2))))))"

definition dispatch_enqueue ::
  "(gateway_db \<Rightarrow> gateway_db) \<Rightarrow> (gateway_db \<Rightarrow> gateway_db) \<Rightarrow> clocks \<Rightarrow> AdmissionOutcome \<Rightarrow> gateway_db
     \<Rightarrow> (HermesDispatchRecord \<times> bool) outcome"
where
  "dispatch_enqueue race_lock race_flush ck admission db =
     (case dispatch_target admission of
        Inl e \<Rightarrow> (Inl e, db)
      | Inr target \<Rightarrow>
        (case build_hermes_dispatch_idempotency_key (dt_message_id target) of
           Inl e \<Rightarrow> (Inl e, db)
         | Inr key \<Rightarrow>
           (case dispatch_stage_enqueue race_lock race_flush ck admission db of
              (Inr res, _, staged) \<Rightarrow> (Inr res, staged)
            | (Inl IntegrityError, committed, _) \<Rightarrow>
                (case dispatch_find_existing (dt_message_id target) key committed of
                   Some r \<Rightarrow> (map_sum id (\<lambda>x. (x, False)) (compatible_record_or_raise r target), committed)
                 | None \<Rightarrow> (Inl IntegrityError, committed))
            | (Inl e, committed, _) \<Rightarrow> (Inl e, committed))))"

section \<open>Claiming\<close>

definition BLOCKING_STATUSES :: "HermesDispatchStatus list" where
  "BLOCKING_STATUSES = [D_QUEUED, D_RUNNING, D_FAILED, D_UNCERTAIN]"

definition EXPIRED_LEASE_ERROR :: string where
  "EXPIRED_LEASE_ERROR = ''dispatch_lease_expired_uncertain''"

definition MAX_CLAIM_TOKEN_LENGTH :: nat where "MAX_CLAIM_TOKEN_LENGTH = 255"
definition MAX_ERROR_CODE_LENGTH :: nat where "MAX_ERROR_CODE_LENGTH = 128"

definition claimable_predicate :: "int \<Rightarrow> HermesDispatchRecord \<Rightarrow> bool" where
  "claimable_predicate retry_limit r =
     (let max_attempts = retry_limit + 1 in
      d_status r = D_QUEUED
      \<or> (d_status r = D_FAILED
         \<and> (d_attempt_count r < max_attempts \<or> d_manual_retry_approved r)))"

definition is_prior :: "HermesDispatchRecord \<Rightarrow> HermesDispatchRecord \<Rightarrow> bool" where
  "is_prior prior r =
     (d_created_at prior < d_created_at r
      \<or> (d_created_at prior = d_created_at r \<and> d_id prior < d_id r))"

definition thread_head_predicate :: "HermesDispatchRecord list \<Rightarrow> HermesDispatchRecord \<Rightarrow> bool" where
  "thread_head_predicate rows r =
     (\<not> list_ex (\<lambda>prior. d_ai_thread_id prior = d_ai_thread_id r \<and> is_prior prior r
                  \<and> d_status prior \<in> set BLOCKING_STATUSES) rows)"

definition thread_idle_predicate :: "HermesDispatchRecord list \<Rightarrow> HermesDispatchRecord \<Rightarrow> bool" where
  "thread_idle_predicate rows r =
     (\<not> list_ex (\<lambda>running. d_ai_thread_id running = d_ai_thread_id r \<and> d_id running \<noteq> d_id r
                  \<and> d_status running = D_RUNNING) rows)"

definition eligible :: "int \<Rightarrow> HermesDispatchRecord list \<Rightarrow> HermesDispatchRecord \<Rightarrow> bool" where
  "eligible retry_limit rows r =
     (claimable_predicate retry_limit r \<and> thread_head_predicate rows r \<and> thread_idle_predicate rows r)"

definition claim_values ::
  "clocks \<Rightarrow> string \<Rightarrow> rat \<Rightarrow> instant \<Rightarrow> HermesDispatchRecord \<Rightarrow> HermesDispatchRecord" where
  "claim_values ck token lease claimed_at r =
     r\<lparr>d_status := D_RUNNING,
       d_attempt_count := d_attempt_count r + 1,
       d_manual_retry_approved := False,
       d_claim_token := Some token,
       d_claimed_at := Some claimed_at,
       d_lease_expires_at := Some (claimed_at + timedelta_seconds lease),
       d_completed_at := None,
       d_last_error_code := None,
       d_updated_at := db_now ck\<rparr>"

text \<open>\<open>claim\<close> after its arguments are validated.\<close>

definition dispatch_claim_validated ::
  "clocks \<Rightarrow> string \<Rightarrow> rat \<Rightarrow> int \<Rightarrow> instant \<Rightarrow> int \<Rightarrow> gateway_db \<Rightarrow> HermesDispatchRecord outcome"
where
  "dispatch_claim_validated ck token lease retries claimed_at record_id db =
     dispatch_apply_transition record_id D_QUEUED
       (\<lambda>r. d_id r = record_id \<and> eligible retries (dispatches db) r)
       (claim_values ck token lease claimed_at) db"

definition dispatch_claim ::
  "clocks \<Rightarrow> int \<Rightarrow> string \<Rightarrow> py_num \<Rightarrow> py_num \<Rightarrow> py_datetime option \<Rightarrow> gateway_db
     \<Rightarrow> HermesDispatchRecord outcome"
where
  "dispatch_claim ck record_id claim_token lease_seconds retry_limit now db =
     checked (validated_required_string ''claim_token'' MAX_CLAIM_TOKEN_LENGTH claim_token) db (\<lambda>token.
     checked (validated_lease_seconds lease_seconds) db (\<lambda>lease.
     checked (validated_retry_limit retry_limit) db (\<lambda>retries.
     checked (validated_now ck now) db (\<lambda>claimed_at.
       dispatch_claim_validated ck token lease retries claimed_at record_id db))))"

text \<open>\<open>_finalize_exhausted\<close>: two statements in one transaction.\<close>

definition exhausted_where :: "int \<Rightarrow> HermesDispatchRecord \<Rightarrow> bool" where
  "exhausted_where retry_limit r =
     (d_status r = D_FAILED \<and> d_attempt_count r \<ge> retry_limit + 1 \<and> \<not> d_manual_retry_approved r)"

definition expired_where :: "instant \<Rightarrow> HermesDispatchRecord \<Rightarrow> bool" where
  "expired_where now r = (d_status r = D_RUNNING \<and> sql_le (d_lease_expires_at r) now)"

definition exhausted_values :: "clocks \<Rightarrow> HermesDispatchRecord \<Rightarrow> HermesDispatchRecord" where
  "exhausted_values ck r = r\<lparr>d_status := D_DEAD, d_updated_at := db_now ck\<rparr>"

definition expired_values :: "clocks \<Rightarrow> HermesDispatchRecord \<Rightarrow> HermesDispatchRecord" where
  "expired_values ck r =
     r\<lparr>d_status := D_UNCERTAIN, d_claim_token := None, d_lease_expires_at := None,
       d_completed_at := Some (db_now ck), d_last_error_code := Some EXPIRED_LEASE_ERROR,
       d_updated_at := db_now ck\<rparr>"

definition dispatch_finalize_exhausted :: "clocks \<Rightarrow> instant \<Rightarrow> int \<Rightarrow> gateway_db \<Rightarrow> unit outcome" where
  "dispatch_finalize_exhausted ck now retry_limit db =
     (case dispatch_update (exhausted_where retry_limit) (exhausted_values ck) db of
        (Inl e, _) \<Rightarrow> (Inl e, db)
      | (Inr _, db1) \<Rightarrow>
          (case dispatch_update (expired_where now) (expired_values ck) db1 of
             (Inl e, _) \<Rightarrow> (Inl e, db)
           | (Inr _, db2) \<Rightarrow> (Inr (), db2)))"

text \<open>The candidate of one round: \<open>ORDER BY attempt_count, created_at, id LIMIT 1\<close>.\<close>

definition claim_order :: "HermesDispatchRecord \<Rightarrow> int \<times> int \<times> int" where
  "claim_order r = (d_attempt_count r, d_created_at r, d_id r)"

definition dispatch_candidate :: "int \<Rightarrow> gateway_db \<Rightarrow> int option" where
  "dispatch_candidate retries db =
     map_option d_id
       (select_min claim_order (filter (eligible retries (dispatches db)) (dispatches db)))"

definition claim_attempt ::
  "clocks \<Rightarrow> string \<Rightarrow> rat \<Rightarrow> int \<Rightarrow> instant \<Rightarrow> int \<Rightarrow> gateway_db
     \<Rightarrow> HermesDispatchRecord option \<times> gateway_db"
where
  "claim_attempt ck token lease retries claimed_at record_id db =
     (case dispatch_claim_validated ck token lease retries claimed_at record_id db of
        (Inr r, db') \<Rightarrow> (Some r, db')
      | (Inl _, db') \<Rightarrow> (None, db'))"

definition CLAIM_ROUNDS :: nat where "CLAIM_ROUNDS = 32"

definition dispatch_claim_next ::
  "(nat \<Rightarrow> gateway_db \<Rightarrow> gateway_db) \<Rightarrow> clocks \<Rightarrow> string \<Rightarrow> string option \<Rightarrow> py_num \<Rightarrow> py_num
     \<Rightarrow> py_datetime option \<Rightarrow> gateway_db \<Rightarrow> HermesDispatchRecord option outcome"
where
  "dispatch_claim_next race ck uuid claim_token lease_seconds retry_limit now db =
     checked (validated_required_string ''claim_token'' MAX_CLAIM_TOKEN_LENGTH
                (case claim_token of Some t \<Rightarrow> t | None \<Rightarrow> uuid)) db (\<lambda>token.
     checked (validated_lease_seconds lease_seconds) db (\<lambda>lease.
     checked (validated_retry_limit retry_limit) db (\<lambda>retries.
     checked (validated_now ck now) db (\<lambda>claimed_at.
       case dispatch_finalize_exhausted ck claimed_at retries db of
         (Inl e, db') \<Rightarrow> (Inl e, db')
       | (Inr _, db') \<Rightarrow>
           (case cas_loop (map race [0..<CLAIM_ROUNDS]) (dispatch_candidate retries)
                   (claim_attempt ck token lease retries claimed_at) db' of
              (res, db'') \<Rightarrow> (Inr res, db''))))))"

section \<open>Owning and completing a claim\<close>

definition dispatch_renew_lease ::
  "clocks \<Rightarrow> int \<Rightarrow> string \<Rightarrow> py_num \<Rightarrow> py_datetime option \<Rightarrow> gateway_db \<Rightarrow> HermesDispatchRecord outcome"
where
  "dispatch_renew_lease ck record_id claim_token lease_seconds now db =
     checked (validated_required_string ''claim_token'' MAX_CLAIM_TOKEN_LENGTH claim_token) db (\<lambda>token.
     checked (validated_lease_seconds lease_seconds) db (\<lambda>lease.
     checked (validated_now ck now) db (\<lambda>renewed_at.
       dispatch_apply_transition record_id D_RUNNING
         (\<lambda>r. d_id r = record_id \<and> d_status r = D_RUNNING \<and> d_claim_token r = Some token
              \<and> sql_gt (d_lease_expires_at r) renewed_at)
         (\<lambda>r. r\<lparr>d_lease_expires_at := Some (renewed_at + timedelta_seconds lease),
                d_updated_at := db_now ck\<rparr>) db)))"

text \<open>The status a completion writes: a constant, or the retry-limit \<open>CASE\<close> of \<open>mark_failed\<close>.\<close>

definition owned_where :: "clocks \<Rightarrow> int \<Rightarrow> string \<Rightarrow> HermesDispatchRecord \<Rightarrow> bool" where
  "owned_where ck record_id token r =
     (d_id r = record_id \<and> d_status r = D_RUNNING \<and> d_claim_token r = Some token
      \<and> sql_gt (d_lease_expires_at r) (db_now ck))"

definition completion_values ::
  "clocks \<Rightarrow> (HermesDispatchRecord \<Rightarrow> HermesDispatchStatus) \<Rightarrow> string option
     \<Rightarrow> HermesDispatchRecord \<Rightarrow> HermesDispatchRecord"
where
  "completion_values ck status error_code r =
     r\<lparr>d_status := status r, d_claim_token := None, d_lease_expires_at := None,
       d_completed_at := Some (db_now ck), d_last_error_code := error_code,
       d_updated_at := db_now ck\<rparr>"

definition dispatch_complete ::
  "clocks \<Rightarrow> int \<Rightarrow> string \<Rightarrow> (HermesDispatchRecord \<Rightarrow> HermesDispatchStatus) \<Rightarrow> string option
     \<Rightarrow> gateway_db \<Rightarrow> HermesDispatchRecord outcome"
where
  "dispatch_complete ck record_id claim_token status error_code db =
     checked (validated_required_string ''claim_token'' MAX_CLAIM_TOKEN_LENGTH claim_token) db (\<lambda>token.
       dispatch_apply_transition record_id D_RUNNING (owned_where ck record_id token)
         (completion_values ck status error_code) db)"

definition dispatch_mark_success :: "clocks \<Rightarrow> int \<Rightarrow> string \<Rightarrow> gateway_db \<Rightarrow> HermesDispatchRecord outcome" where
  "dispatch_mark_success ck record_id claim_token db =
     dispatch_complete ck record_id claim_token (\<lambda>_. D_SUCCESS) None db"

definition dispatch_mark_failed ::
  "clocks \<Rightarrow> int \<Rightarrow> string \<Rightarrow> string \<Rightarrow> py_num option \<Rightarrow> gateway_db \<Rightarrow> HermesDispatchRecord outcome"
where
  "dispatch_mark_failed ck record_id claim_token error_code retry_limit db =
     checked (case retry_limit of
                None \<Rightarrow> Inr (\<lambda>_. D_FAILED)
              | Some limit \<Rightarrow>
                  (case validated_retry_limit limit of
                     Inl e \<Rightarrow> Inl e
                   | Inr n \<Rightarrow> Inr (\<lambda>r. if d_attempt_count r \<ge> n + 1 then D_DEAD else D_FAILED))) db (\<lambda>status.
     checked (validated_required_string ''error_code'' MAX_ERROR_CODE_LENGTH error_code) db (\<lambda>code.
       dispatch_complete ck record_id claim_token status (Some code) db))"

definition dispatch_mark_uncertain ::
  "clocks \<Rightarrow> int \<Rightarrow> string \<Rightarrow> string \<Rightarrow> gateway_db \<Rightarrow> HermesDispatchRecord outcome"
where
  "dispatch_mark_uncertain ck record_id claim_token error_code db =
     checked (validated_required_string ''error_code'' MAX_ERROR_CODE_LENGTH error_code) db (\<lambda>code.
       dispatch_complete ck record_id claim_token (\<lambda>_. D_UNCERTAIN) (Some code) db)"

definition dispatch_mark_dead ::
  "clocks \<Rightarrow> int \<Rightarrow> string \<Rightarrow> string \<Rightarrow> gateway_db \<Rightarrow> HermesDispatchRecord outcome"
where
  "dispatch_mark_dead ck record_id claim_token error_code db =
     checked (validated_required_string ''error_code'' MAX_ERROR_CODE_LENGTH error_code) db (\<lambda>code.
       dispatch_complete ck record_id claim_token (\<lambda>_. D_DEAD) (Some code) db)"

section \<open>The table constraints under updates\<close>

named_theorems dispatch_values \<open>what the updates of the store write\<close>

lemma running_threads_distinct:
  assumes "distinct (map d_id rows)"
  shows "distinct (running_threads rows) \<longleftrightarrow>
    (\<forall>r\<in>set rows. \<forall>q\<in>set rows. d_status r = D_RUNNING \<longrightarrow> d_status q = D_RUNNING
       \<longrightarrow> d_ai_thread_id r = d_ai_thread_id q \<longrightarrow> r = q)"
proof -
  have "distinct rows" using assms by (simp add: distinct_map)
  then show ?thesis
    by (auto simp: running_threads_def distinct_map inj_on_def)
qed

lemma dispatch_table_okD:
  assumes "dispatch_table_ok rows"
  shows "r \<in> set rows \<Longrightarrow> dispatch_row_ok r"
    and "distinct (map d_id rows)"
    and "distinct (map d_idempotency_key rows)"
    and "distinct (map d_message_id rows)"
    and "distinct (running_threads rows)"
  using assms by (auto simp: dispatch_table_ok_def list_all_iff)

text \<open>
  An update that keeps the identifying columns keeps the table valid when the rows it
  writes are valid and when a row it makes running is alone on its thread.
\<close>

lemma dispatch_table_ok_update:
  assumes ok: "dispatch_table_ok rows"
    and keys: "\<And>r. d_id (f r) = d_id r" "\<And>r. d_idempotency_key (f r) = d_idempotency_key r"
      "\<And>r. d_message_id (f r) = d_message_id r" "\<And>r. d_ai_thread_id (f r) = d_ai_thread_id r"
    and row: "\<And>r. r \<in> set rows \<Longrightarrow> p r \<Longrightarrow> dispatch_row_ok r \<Longrightarrow> dispatch_row_ok (f r)"
    and run: "\<And>r q. r \<in> set rows \<Longrightarrow> p r \<Longrightarrow> d_status (f r) = D_RUNNING \<Longrightarrow> d_status r \<noteq> D_RUNNING \<Longrightarrow>
      q \<in> set rows \<Longrightarrow> d_ai_thread_id q = d_ai_thread_id r \<Longrightarrow> d_id q \<noteq> d_id r \<Longrightarrow>
      (if p q then d_status (f q) else d_status q) \<noteq> D_RUNNING"
  shows "dispatch_table_ok (update_where p f rows)"
proof -
  let ?g = "\<lambda>r. if p r then f r else r"
  note D = dispatch_table_okD [OF ok]
  have ids: "distinct (map d_id (update_where p f rows))"
    using D(2) keys(1) by (simp add: map_key_update_where)
  have uniq: "r = q" if rq: "r \<in> set rows" "q \<in> set rows" "d_status (?g r) = D_RUNNING"
    "d_status (?g q) = D_RUNNING" "d_ai_thread_id r = d_ai_thread_id q" for r q
  proof (cases "d_status r = D_RUNNING \<and> d_status q = D_RUNNING")
    case True
    with D(5) rq show ?thesis by (auto simp: running_threads_distinct [OF D(2)])
  next
    case False
    have "d_id r = d_id q"
    proof (rule ccontr)
      assume "d_id r \<noteq> d_id q"
      with False rq run [of r q] run [of q r] show False
        by (auto split: if_splits)
    qed
    with D(2) rq show ?thesis by (auto intro: distinct_key_eq)
  qed
  have "distinct (running_threads (update_where p f rows))"
    unfolding running_threads_distinct [OF ids] set_update_where
  proof (intro ballI impI)
    fix a b
    assume "a \<in> ?g ` set rows" "b \<in> ?g ` set rows" and running: "d_status a = D_RUNNING"
      "d_status b = D_RUNNING" "d_ai_thread_id a = d_ai_thread_id b"
    then obtain r q where ab: "a = ?g r" "b = ?g q" and rq: "r \<in> set rows" "q \<in> set rows" by blast
    have thread: "d_ai_thread_id (?g r) = d_ai_thread_id r" for r by (simp add: keys(4))
    have "r = q" using rq running by (intro uniq) (simp_all only: ab thread)
    with ab show "a = b" by simp
  qed
  moreover have "list_all dispatch_row_ok (update_where p f rows)"
    using D(1) row by (auto simp: list_all_iff set_update_where)
  ultimately show ?thesis
    using ids D(3,4) keys(2,3) by (simp add: dispatch_table_ok_def map_key_update_where)
qed

lemma dispatch_update_Inr:
  "dispatch_table_ok (update_where p f (dispatches db)) \<Longrightarrow>
   dispatch_update p f db =
     (Inr (rowcount p (dispatches db)), db\<lparr>dispatches := update_where p f (dispatches db)\<rparr>)"
  by (simp add: dispatch_update_def)

lemma dispatch_apply_transition_hit:
  assumes "distinct (map d_id (dispatches db))"
    and "dispatch_table_ok (update_where p f (dispatches db))"
    and "\<And>q. p q \<Longrightarrow> d_id q = i" and "\<And>q. d_id (f q) = d_id q"
    and "r \<in> set (dispatches db)" and "p r"
  shows "dispatch_apply_transition i st p f db =
         (Inr (f r), db\<lparr>dispatches := update_where p f (dispatches db)\<rparr>)"
proof -
  have "rowcount p (dispatches db) = 1"
    using rowcount_1_iff [OF assms(1), of p i] assms(3,5,6) by blast
  moreover have "lookup_by d_id i (update_where p f (dispatches db)) = Some (f r)"
    using lookup_by_distinct [OF assms(1,5)] assms(3)[OF assms(6)] assms(4,6)
    by (simp add: lookup_by_update_where)
  ultimately show ?thesis
    by (simp add: dispatch_apply_transition_def dispatch_update_Inr [OF assms(2)] dispatch_reload_def)
qed

lemma dispatch_apply_transition_miss:
  assumes "dispatch_table_ok (dispatches db)" and "\<And>r. r \<in> set (dispatches db) \<Longrightarrow> \<not> p r"
  shows "dispatch_apply_transition i st p f db = (Inl (HermesDispatchStateConflictError i st), db)"
proof -
  have "update_where p f (dispatches db) = dispatches db" "rowcount p (dispatches db) = 0"
    using assms(2) by (auto simp: update_where_none rowcount_0_iff)
  with assms(1) show ?thesis
    by (simp add: dispatch_apply_transition_def dispatch_update_def)
qed

lemma dispatch_apply_transition_cases:
  assumes ok: "dispatch_table_ok (dispatches db)"
    and upd: "dispatch_table_ok (update_where p f (dispatches db))"
    and id: "\<And>q. p q \<Longrightarrow> d_id q = i" "\<And>q. d_id (f q) = d_id q"
  obtains (hit) r where "r \<in> set (dispatches db)" "p r"
      "dispatch_apply_transition i st p f db =
         (Inr (f r), db\<lparr>dispatches := update_where p f (dispatches db)\<rparr>)"
  | (miss) "\<forall>r\<in>set (dispatches db). \<not> p r"
      "dispatch_apply_transition i st p f db = (Inl (HermesDispatchStateConflictError i st), db)"
proof (cases "\<exists>r\<in>set (dispatches db). p r")
  case True
  then obtain r where "r \<in> set (dispatches db)" "p r" by blast
  with dispatch_apply_transition_hit [OF dispatch_table_okD(2) [OF ok] upd id] hit show ?thesis by blast
next
  case False
  with dispatch_apply_transition_miss [OF ok] miss show ?thesis by blast
qed

section \<open>What the updates write\<close>

lemma claim_values_sel [dispatch_values, simp]:
  "d_id (claim_values ck t l n r) = d_id r"
  "d_idempotency_key (claim_values ck t l n r) = d_idempotency_key r"
  "d_message_id (claim_values ck t l n r) = d_message_id r"
  "d_ai_thread_id (claim_values ck t l n r) = d_ai_thread_id r"
  "d_status (claim_values ck t l n r) = D_RUNNING"
  "d_claim_token (claim_values ck t l n r) = Some t"
  "d_attempt_count (claim_values ck t l n r) = d_attempt_count r + 1"
  "d_created_at (claim_values ck t l n r) = d_created_at r"
  "d_lease_expires_at (claim_values ck t l n r) = Some (n + timedelta_seconds l)"
  "d_manual_retry_approved (claim_values ck t l n r) = False"
  by (simp_all add: claim_values_def)

lemma exhausted_values_sel [dispatch_values, simp]:
  "d_id (exhausted_values ck r) = d_id r"
  "d_idempotency_key (exhausted_values ck r) = d_idempotency_key r"
  "d_message_id (exhausted_values ck r) = d_message_id r"
  "d_ai_thread_id (exhausted_values ck r) = d_ai_thread_id r"
  "d_status (exhausted_values ck r) = D_DEAD"
  "d_claim_token (exhausted_values ck r) = d_claim_token r"
  "d_attempt_count (exhausted_values ck r) = d_attempt_count r"
  "d_created_at (exhausted_values ck r) = d_created_at r"
  by (simp_all add: exhausted_values_def)

lemma expired_values_sel [dispatch_values, simp]:
  "d_id (expired_values ck r) = d_id r"
  "d_idempotency_key (expired_values ck r) = d_idempotency_key r"
  "d_message_id (expired_values ck r) = d_message_id r"
  "d_ai_thread_id (expired_values ck r) = d_ai_thread_id r"
  "d_status (expired_values ck r) = D_UNCERTAIN"
  "d_claim_token (expired_values ck r) = None"
  "d_attempt_count (expired_values ck r) = d_attempt_count r"
  "d_created_at (expired_values ck r) = d_created_at r"
  by (simp_all add: expired_values_def)

lemma completion_values_sel [dispatch_values, simp]:
  "d_id (completion_values ck s e r) = d_id r"
  "d_idempotency_key (completion_values ck s e r) = d_idempotency_key r"
  "d_message_id (completion_values ck s e r) = d_message_id r"
  "d_ai_thread_id (completion_values ck s e r) = d_ai_thread_id r"
  "d_status (completion_values ck s e r) = s r"
  "d_claim_token (completion_values ck s e r) = None"
  "d_attempt_count (completion_values ck s e r) = d_attempt_count r"
  "d_created_at (completion_values ck s e r) = d_created_at r"
  by (simp_all add: completion_values_def)

lemma EXPIRED_LEASE_ERROR_nonempty: "sql_nonempty EXPIRED_LEASE_ERROR"
  by (simp add: sql_nonempty_def EXPIRED_LEASE_ERROR_def)

lemma claim_values_row_ok:
  "dispatch_row_ok r \<Longrightarrow> nonblank t \<Longrightarrow> dispatch_row_ok (claim_values ck t l n r)"
  by (auto simp: dispatch_row_ok_def claim_values_def null_or_nonempty_def
      dispatch_reconciliation_ok_def nonblank_sql_nonempty)

lemma exhausted_values_row_ok:
  "dispatch_row_ok r \<Longrightarrow> exhausted_where n r \<Longrightarrow> dispatch_row_ok (exhausted_values ck r)"
  by (auto simp: dispatch_row_ok_def exhausted_values_def exhausted_where_def
      dispatch_reconciliation_ok_def)

lemma expired_values_row_ok:
  "dispatch_row_ok r \<Longrightarrow> expired_where n r \<Longrightarrow> dispatch_row_ok (expired_values ck r)"
  by (auto simp: dispatch_row_ok_def expired_values_def expired_where_def null_or_nonempty_def
      dispatch_reconciliation_ok_def EXPIRED_LEASE_ERROR_nonempty)

text \<open>A completion status and its error code agree: an error for every outcome but success.\<close>

definition completion_ok :: "HermesDispatchStatus \<Rightarrow> string option \<Rightarrow> bool" where
  "completion_ok s e =
     ((s = D_SUCCESS \<and> e = None)
      \<or> (s \<in> {D_FAILED, D_UNCERTAIN, D_DEAD} \<and> (\<exists>c. e = Some c \<and> nonblank c)))"

lemma completion_values_row_ok:
  "dispatch_row_ok r \<Longrightarrow> d_status r = D_RUNNING \<Longrightarrow> completion_ok (s r) e \<Longrightarrow>
   dispatch_row_ok (completion_values ck s e r)"
  by (auto simp: dispatch_row_ok_def completion_values_def completion_ok_def null_or_nonempty_def
      dispatch_reconciliation_ok_def nonblank_sql_nonempty)

section \<open>The invariant of the store\<close>

definition dispatch_inv :: "gateway_db \<Rightarrow> bool" where
  "dispatch_inv db =
     (dispatch_table_ok (dispatches db) \<and> list_all (\<lambda>r. d_id r < dispatch_seq db) (dispatches db))"

lemma dispatch_invD:
  "dispatch_inv db \<Longrightarrow> dispatch_table_ok (dispatches db)"
  "dispatch_inv db \<Longrightarrow> r \<in> set (dispatches db) \<Longrightarrow> d_id r < dispatch_seq db"
  by (auto simp: dispatch_inv_def list_all_iff)

lemma dispatch_inv_update:
  assumes "dispatch_inv db" and "dispatch_table_ok (update_where p f (dispatches db))"
    and "\<And>r. d_id (f r) = d_id r"
  shows "dispatch_inv (db\<lparr>dispatches := update_where p f (dispatches db)\<rparr>)"
  using assms by (auto simp: dispatch_inv_def list_all_iff set_update_where)

subsection \<open>Claims\<close>

definition claim_where :: "int \<Rightarrow> int \<Rightarrow> HermesDispatchRecord list \<Rightarrow> HermesDispatchRecord \<Rightarrow> bool" where
  "claim_where retries i rows r = (d_id r = i \<and> eligible retries rows r)"

text \<open>The \<open>WHERE\<close> clause of a claim is enough for every constraint, the partial index included.\<close>

lemma claim_table_ok:
  assumes ok: "dispatch_table_ok rows" and "nonblank token"
  shows "dispatch_table_ok (update_where (claim_where retries i rows) (claim_values ck token lease n) rows)"
proof (rule dispatch_table_ok_update [OF ok])
  show "dispatch_row_ok (claim_values ck token lease n r)" if "dispatch_row_ok r" for r
    using that assms(2) by (rule claim_values_row_ok)
  fix r q
  assume "claim_where retries i rows r" "q \<in> set rows" "d_ai_thread_id q = d_ai_thread_id r" "d_id q \<noteq> d_id r"
  then show "(if claim_where retries i rows q then d_status (claim_values ck token lease n q)
              else d_status q) \<noteq> D_RUNNING"
    by (auto simp: claim_where_def eligible_def thread_idle_predicate_def list_ex_iff)
qed simp_all

lemma dispatch_claim_validated_hit:
  assumes inv: "dispatch_inv db" and "nonblank token"
    and r: "r \<in> set (dispatches db)" "eligible retries (dispatches db) r"
  shows "dispatch_claim_validated ck token lease retries n (d_id r) db =
    (Inr (claim_values ck token lease n r),
     db\<lparr>dispatches := update_where (claim_where retries (d_id r) (dispatches db))
                          (claim_values ck token lease n) (dispatches db)\<rparr>)"
proof -
  note ok = dispatch_invD(1) [OF inv]
  show ?thesis
    unfolding dispatch_claim_validated_def claim_where_def [symmetric]
    using r
    by (intro dispatch_apply_transition_hit dispatch_table_okD(2) [OF ok] claim_table_ok [OF ok assms(2)])
      (auto simp: claim_where_def)
qed

lemma dispatch_claim_validated_miss:
  assumes inv: "dispatch_inv db"
    and no: "\<And>r. r \<in> set (dispatches db) \<Longrightarrow> d_id r = i \<Longrightarrow> \<not> eligible retries (dispatches db) r"
  shows "dispatch_claim_validated ck token lease retries n i db =
    (Inl (HermesDispatchStateConflictError i D_QUEUED), db)"
  unfolding dispatch_claim_validated_def
  by (rule dispatch_apply_transition_miss [OF dispatch_invD(1) [OF inv]]) (use no in auto)

lemma dispatch_claim_validated_Inr:
  assumes inv: "dispatch_inv db" and "nonblank token"
    and "dispatch_claim_validated ck token lease retries n i db = (Inr a, db')"
  obtains r where "r \<in> set (dispatches db)" "d_id r = i" "eligible retries (dispatches db) r"
    "a = claim_values ck token lease n r"
    "db' = db\<lparr>dispatches := update_where (claim_where retries i (dispatches db))
                          (claim_values ck token lease n) (dispatches db)\<rparr>"
proof (cases "\<exists>r\<in>set (dispatches db). d_id r = i \<and> eligible retries (dispatches db) r")
  case True
  then obtain r where r: "r \<in> set (dispatches db)" "d_id r = i" "eligible retries (dispatches db) r" by blast
  with dispatch_claim_validated_hit [OF inv assms(2) r(1,3), of ck lease n] assms(3) that show ?thesis
    by auto
next
  case False
  with dispatch_claim_validated_miss [OF inv, of i retries ck token lease n] assms(3) show ?thesis by auto
qed

lemma dispatch_claim_validated_inv:
  assumes inv: "dispatch_inv db" and "nonblank token"
    and "dispatch_claim_validated ck token lease retries n i db = (res, db')"
  shows "dispatch_inv db'"
proof (cases "\<exists>r\<in>set (dispatches db). d_id r = i \<and> eligible retries (dispatches db) r")
  case True
  then obtain r where r: "r \<in> set (dispatches db)" "d_id r = i" "eligible retries (dispatches db) r" by blast
  with dispatch_claim_validated_hit [OF inv assms(2) r(1,3), of ck lease n] assms(3)
  have "db' = db\<lparr>dispatches := update_where (claim_where retries i (dispatches db))
                          (claim_values ck token lease n) (dispatches db)\<rparr>" by auto
  with dispatch_inv_update [OF inv claim_table_ok [OF dispatch_invD(1) [OF inv] assms(2)]] show ?thesis by simp
next
  case False
  with dispatch_claim_validated_miss [OF inv, of i retries ck token lease n] assms(3) inv show ?thesis by auto
qed

subsection \<open>The candidate of a round\<close>

lemma dispatch_candidate_Some:
  assumes "dispatch_candidate retries db = Some i"
  obtains r where "r \<in> set (dispatches db)" "d_id r = i" "eligible retries (dispatches db) r"
    "\<And>q. q \<in> set (dispatches db) \<Longrightarrow> eligible retries (dispatches db) q \<Longrightarrow> claim_order r \<le> claim_order q"
proof -
  from assms obtain r where sel:
    "select_min claim_order (filter (eligible retries (dispatches db)) (dispatches db)) = Some r" "d_id r = i"
    by (auto simp: dispatch_candidate_def)
  from select_min_Some [OF sel(1)] sel(2) show ?thesis by (intro that [of r]) auto
qed

lemma dispatch_candidate_None:
  "dispatch_candidate retries db = None \<longleftrightarrow> (\<forall>r\<in>set (dispatches db). \<not> eligible retries (dispatches db) r)"
  by (simp add: dispatch_candidate_def select_min_None filter_empty_conv)

definition claim_won ::
  "clocks \<Rightarrow> string \<Rightarrow> rat \<Rightarrow> int \<Rightarrow> instant \<Rightarrow> int \<Rightarrow> gateway_db \<Rightarrow> HermesDispatchRecord \<Rightarrow> gateway_db \<Rightarrow> bool"
where
  "claim_won ck token lease retries n i db a db' \<longleftrightarrow>
     (\<exists>r\<in>set (dispatches db). d_id r = i \<and> eligible retries (dispatches db) r
        \<and> a = claim_values ck token lease n r
        \<and> db' = db\<lparr>dispatches := update_where (claim_where retries i (dispatches db))
                                (claim_values ck token lease n) (dispatches db)\<rparr>)"

interpretation dispatch_queue: cas_queue
  "dispatch_candidate retries"
  "claim_attempt ck token lease retries n"
  "\<lambda>db. dispatch_inv db \<and> nonblank token"
  "claim_won ck token lease retries n"
  for ck token lease retries n
proof (unfold_locales, goal_cases)
  case (1 s k a s')
  then have inv: "dispatch_inv s" "nonblank token"
    and c: "dispatch_claim_validated ck token lease retries n k s = (Inr a, s')"
    by (auto simp: claim_attempt_def split: prod.splits sum.splits)
  from dispatch_claim_validated_Inr [OF inv c] dispatch_claim_validated_inv [OF inv c] inv(2)
  show ?case by (auto simp: claim_won_def)
next
  case (2 s k s')
  then have inv: "dispatch_inv s" "nonblank token" by auto
  show ?case
  proof (cases "\<exists>r\<in>set (dispatches s). d_id r = k \<and> eligible retries (dispatches s) r")
    case True
    then obtain r where "r \<in> set (dispatches s)" "d_id r = k" "eligible retries (dispatches s) r" by blast
    with dispatch_claim_validated_hit [OF inv this(1,3), of ck lease n] 2 show ?thesis
      by (auto simp: claim_attempt_def)
  next
    case False
    with dispatch_claim_validated_miss [OF inv(1), of k retries ck token lease n] 2 show ?thesis
      by (auto simp: claim_attempt_def)
  qed
next
  case (3 s k)
  then have inv: "dispatch_inv s" "nonblank token" by auto
  from 3 obtain r where "r \<in> set (dispatches s)" "d_id r = k" "eligible retries (dispatches s) r"
    by (auto elim: dispatch_candidate_Some)
  with dispatch_claim_validated_hit [OF inv this(1,3), of ck lease n] show ?case
    by (auto simp: claim_attempt_def)
qed

subsection \<open>Finalisation\<close>

definition finalized_rows :: "clocks \<Rightarrow> instant \<Rightarrow> int \<Rightarrow> HermesDispatchRecord list \<Rightarrow> HermesDispatchRecord list" where
  "finalized_rows ck now retries rows =
     update_where (expired_where now) (expired_values ck)
       (update_where (exhausted_where retries) (exhausted_values ck) rows)"

lemma exhausted_table_ok:
  assumes "dispatch_table_ok rows"
  shows "dispatch_table_ok (update_where (exhausted_where n) (exhausted_values ck) rows)"
  by (rule dispatch_table_ok_update [OF assms]) (simp_all add: exhausted_values_row_ok)

lemma expired_table_ok:
  assumes "dispatch_table_ok rows"
  shows "dispatch_table_ok (update_where (expired_where n) (expired_values ck) rows)"
  by (rule dispatch_table_ok_update [OF assms]) (simp_all add: expired_values_row_ok)

lemma finalized_table_ok:
  "dispatch_table_ok rows \<Longrightarrow> dispatch_table_ok (finalized_rows ck now n rows)"
  by (simp add: finalized_rows_def exhausted_table_ok expired_table_ok)

lemma dispatch_finalize_exhausted_ok:
  assumes "dispatch_table_ok (dispatches db)"
  shows "dispatch_finalize_exhausted ck now n db =
    (Inr (), db\<lparr>dispatches := finalized_rows ck now n (dispatches db)\<rparr>)"
  using exhausted_table_ok [OF assms, of n ck] expired_table_ok [OF exhausted_table_ok [OF assms, of n ck], of now ck]
  by (simp add: dispatch_finalize_exhausted_def dispatch_update_Inr finalized_rows_def)

lemma set_finalized_rows:
  "set (finalized_rows ck now n rows) =
     (\<lambda>r. if exhausted_where n r then exhausted_values ck r
          else if expired_where now r then expired_values ck r else r) ` set rows"
  by (auto simp: finalized_rows_def set_update_where image_image expired_where_def intro!: image_cong)

lemma finalized_inv:
  "dispatch_inv db \<Longrightarrow> dispatch_inv (db\<lparr>dispatches := finalized_rows ck now n (dispatches db)\<rparr>)"
  by (auto simp: dispatch_inv_def finalized_table_ok list_all_iff set_finalized_rows)

lemma claim_won_id: "claim_won ck t l retries n k u a db' \<Longrightarrow> d_id a = k"
  by (auto simp: claim_won_def)

subsection \<open>The claim of the next record\<close>

text \<open>
  What \<open>claim_next\<close> does once its arguments pass validation, for any interference that
  keeps the invariant: the record it returns was the head of an idle thread in the
  database it was claimed in, and that database is the final one but for the claim.
\<close>

lemma dispatch_claim_next_safe:
  assumes inv: "dispatch_inv db"
    and race: "\<And>i u. i < CLAIM_ROUNDS \<Longrightarrow> dispatch_inv u \<Longrightarrow> dispatch_inv (race i u)"
    and run: "dispatch_claim_next race ck uuid token lease (PyInt retries) now db = (Inr res, db')"
  shows "dispatch_inv db'"
    and "res = Some a \<Longrightarrow> \<exists>u l n. dispatch_inv u \<and> validated_lease_seconds lease = Inr l
      \<and> validated_now ck now = Inr n
      \<and> claim_won ck (case token of Some t \<Rightarrow> t | None \<Rightarrow> uuid) l retries n (d_id a) u a db'"
proof -
  let ?t = "case token of Some t \<Rightarrow> t | None \<Rightarrow> uuid"
  from run obtain l n where v: "nonblank ?t" "validated_lease_seconds lease = Inr l"
    "validated_now ck now = Inr n"
    and loop: "cas_loop (map race [0..<CLAIM_ROUNDS]) (dispatch_candidate retries)
      (claim_attempt ck ?t l retries n) (db\<lparr>dispatches := finalized_rows ck n retries (dispatches db)\<rparr>) = (res, db')"
    using dispatch_finalize_exhausted_ok [OF dispatch_invD(1) [OF inv]]
    by (auto simp: dispatch_claim_next_def validated_required_string_Inr validated_retry_limit_Inr
        split: prod.splits dest!: checked_InrD)
  have "(dispatch_inv db' \<and> nonblank ?t) \<and> (\<forall>a. res = Some a \<longrightarrow> (\<exists>k u. (dispatch_inv u \<and> nonblank ?t)
      \<and> claim_attempt ck ?t l retries n k u = (Some a, db') \<and> claim_won ck ?t l retries n k u a db'))"
    by (rule dispatch_queue.cas_loop_safe [OF _ _ loop])
      (use race v finalized_inv [OF inv] in auto)
  then show "dispatch_inv db'"
    and "res = Some a \<Longrightarrow> \<exists>u l n. dispatch_inv u \<and> validated_lease_seconds lease = Inr l
      \<and> validated_now ck now = Inr n
      \<and> claim_won ck (case token of Some t \<Rightarrow> t | None \<Rightarrow> uuid) l retries n (d_id a) u a db'"
    using v claim_won_id by metis+
qed

text \<open>Without interference the first round decides.\<close>

lemma dispatch_claim_next_quiet:
  assumes inv: "dispatch_inv db" and "nonblank t" "length t \<le> MAX_CLAIM_TOKEN_LENGTH"
    and "validated_lease_seconds lease = Inr l" and "0 \<le> retries" and "validated_now ck now = Inr n"
  defines "db1 \<equiv> db\<lparr>dispatches := finalized_rows ck n retries (dispatches db)\<rparr>"
  shows "dispatch_claim_next (\<lambda>_. id) ck uuid (Some t) lease (PyInt retries) now db =
    (case dispatch_candidate retries db1 of
       None \<Rightarrow> (Inr None, db1)
     | Some i \<Rightarrow> (case claim_attempt ck t l retries n i db1 of (res, db2) \<Rightarrow> (Inr res, db2)))"
proof -
  have "map (\<lambda>_. id :: gateway_db \<Rightarrow> gateway_db) [0..<CLAIM_ROUNDS] = quiet CLAIM_ROUNDS"
    by (simp add: quiet_def map_replicate_const)
  moreover have "cas_loop (quiet CLAIM_ROUNDS) (dispatch_candidate retries)
      (claim_attempt ck t l retries n) db1 =
      (case dispatch_candidate retries db1 of None \<Rightarrow> (None, db1) | Some k \<Rightarrow> claim_attempt ck t l retries n k db1)"
    using finalized_inv [OF inv] assms(2)
    by (intro dispatch_queue.cas_loop_quiet) (auto simp: db1_def CLAIM_ROUNDS_def)
  moreover have "validated_retry_limit (PyInt retries) = Inr retries"
    using assms(5) by (simp add: validated_retry_limit_Inr)
  moreover have "validated_required_string ''claim_token'' MAX_CLAIM_TOKEN_LENGTH t = Inr t"
    using assms(2,3) by (simp add: validated_required_string_Inr)
  ultimately show ?thesis
    using assms(4,6) dispatch_finalize_exhausted_ok [OF dispatch_invD(1) [OF inv], of ck n retries]
    by (simp add: dispatch_claim_next_def db1_def [symmetric] split: option.split)
qed

lemma dispatch_claim_next_min:
  assumes inv: "dispatch_inv db" and "nonblank t" "length t \<le> MAX_CLAIM_TOKEN_LENGTH"
    and "validated_lease_seconds lease = Inr l" and "0 \<le> retries" and "validated_now ck now = Inr n"
    and ex: "\<exists>r\<in>set (finalized_rows ck n retries (dispatches db)).
               eligible retries (finalized_rows ck n retries (dispatches db)) r"
  obtains r db' where
    "dispatch_claim_next (\<lambda>_. id) ck uuid (Some t) lease (PyInt retries) now db =
       (Inr (Some (claim_values ck t l n r)), db')"
    "r \<in> set (finalized_rows ck n retries (dispatches db))"
    "eligible retries (finalized_rows ck n retries (dispatches db)) r"
    "\<And>q. q \<in> set (finalized_rows ck n retries (dispatches db)) \<Longrightarrow>
         eligible retries (finalized_rows ck n retries (dispatches db)) q \<Longrightarrow> claim_order r \<le> claim_order q"
proof -
  let ?db1 = "db\<lparr>dispatches := finalized_rows ck n retries (dispatches db)\<rparr>"
  from ex obtain i where i: "dispatch_candidate retries ?db1 = Some i"
    using dispatch_candidate_None [of retries ?db1] by auto
  obtain r where r: "r \<in> set (finalized_rows ck n retries (dispatches db))" "d_id r = i"
    "eligible retries (finalized_rows ck n retries (dispatches db)) r"
    "\<And>q. q \<in> set (finalized_rows ck n retries (dispatches db)) \<Longrightarrow>
         eligible retries (finalized_rows ck n retries (dispatches db)) q \<Longrightarrow> claim_order r \<le> claim_order q"
    using dispatch_candidate_Some [OF i] by auto
  have "claim_attempt ck t l retries n i ?db1 = (Some (claim_values ck t l n r),
      snd (dispatch_claim_validated ck t l retries n i ?db1))"
    using dispatch_claim_validated_hit [OF finalized_inv [OF inv, of ck n retries] assms(2), of r retries ck l n] r
    by (simp add: claim_attempt_def)
  with dispatch_claim_next_quiet [OF inv assms(2-6), of uuid] i r that show ?thesis by simp
qed

subsection \<open>Renewal and completion\<close>

definition renew_where :: "int \<Rightarrow> string \<Rightarrow> instant \<Rightarrow> HermesDispatchRecord \<Rightarrow> bool" where
  "renew_where i token n r =
     (d_id r = i \<and> d_status r = D_RUNNING \<and> d_claim_token r = Some token \<and> sql_gt (d_lease_expires_at r) n)"

definition renew_values :: "clocks \<Rightarrow> rat \<Rightarrow> instant \<Rightarrow> HermesDispatchRecord \<Rightarrow> HermesDispatchRecord" where
  "renew_values ck lease n r =
     r\<lparr>d_lease_expires_at := Some (n + timedelta_seconds lease), d_updated_at := db_now ck\<rparr>"

lemma renew_values_sel [dispatch_values, simp]:
  "d_id (renew_values ck l n r) = d_id r"
  "d_idempotency_key (renew_values ck l n r) = d_idempotency_key r"
  "d_message_id (renew_values ck l n r) = d_message_id r"
  "d_ai_thread_id (renew_values ck l n r) = d_ai_thread_id r"
  "d_status (renew_values ck l n r) = d_status r"
  "d_claim_token (renew_values ck l n r) = d_claim_token r"
  "d_attempt_count (renew_values ck l n r) = d_attempt_count r"
  "d_created_at (renew_values ck l n r) = d_created_at r"
  by (simp_all add: renew_values_def)

lemma renew_table_ok:
  assumes "dispatch_table_ok rows"
  shows "dispatch_table_ok (update_where (renew_where i t n) (renew_values ck l n) rows)"
proof (rule dispatch_table_ok_update [OF assms])
  show "dispatch_row_ok (renew_values ck l n r)" if "renew_where i t n r" "dispatch_row_ok r" for r
    using that by (auto simp: dispatch_row_ok_def renew_values_def renew_where_def
        dispatch_reconciliation_ok_def)
qed (simp_all add: renew_where_def)

lemma completion_table_ok:
  assumes ok: "dispatch_table_ok rows"
    and "\<And>r. r \<in> set rows \<Longrightarrow> owned_where ck i t r \<Longrightarrow> completion_ok (s r) e"
  shows "dispatch_table_ok (update_where (owned_where ck i t) (completion_values ck s e) rows)"
proof (rule dispatch_table_ok_update [OF ok])
  fix r q
  assume r: "r \<in> set rows" "owned_where ck i t r"
  with assms(2) have ce: "completion_ok (s r) e" .
  show "dispatch_row_ok (completion_values ck s e r)" if "dispatch_row_ok r"
    using that r ce by (intro completion_values_row_ok) (auto simp: owned_where_def)
  assume "d_status (completion_values ck s e r) = D_RUNNING"
  with ce show "(if owned_where ck i t q then d_status (completion_values ck s e q) else d_status q) \<noteq> D_RUNNING"
    by (simp add: completion_ok_def)
qed simp_all

text \<open>
  The three outcomes of an operation on an owned record: the arguments are refused, no row
  matches (a state conflict), or exactly the owned row is rewritten.
\<close>

lemma dispatch_complete_cases:
  assumes inv: "dispatch_inv db"
    and ok: "\<And>r. r \<in> set (dispatches db) \<Longrightarrow> owned_where ck i t r \<Longrightarrow> completion_ok (s r) e"
  obtains (hit) r where "r \<in> set (dispatches db)" "owned_where ck i t r" "nonblank t"
      "dispatch_complete ck i t s e db = (Inr (completion_values ck s e r),
         db\<lparr>dispatches := update_where (owned_where ck i t) (completion_values ck s e) (dispatches db)\<rparr>)"
      "dispatch_inv (db\<lparr>dispatches := update_where (owned_where ck i t) (completion_values ck s e) (dispatches db)\<rparr>)"
  | (refused) err where "dispatch_complete ck i t s e db = (Inl err, db)"
      "nonblank t \<Longrightarrow> length t \<le> MAX_CLAIM_TOKEN_LENGTH \<Longrightarrow>
         err = HermesDispatchStateConflictError i D_RUNNING \<and> (\<forall>r\<in>set (dispatches db). \<not> owned_where ck i t r)"
proof (cases "validated_required_string ''claim_token'' MAX_CLAIM_TOKEN_LENGTH t")
  case (Inl err)
  then have "dispatch_complete ck i t s e db = (Inl err, db)" by (simp add: dispatch_complete_def)
  moreover from Inl have "\<not> (nonblank t \<and> length t \<le> MAX_CLAIM_TOKEN_LENGTH)"
    by (auto simp: validated_required_string_def)
  ultimately show ?thesis using refused by blast
next
  case (Inr t')
  then have t: "t' = t" "nonblank t" by (auto simp: validated_required_string_Inr)
  have upd: "dispatch_table_ok (update_where (owned_where ck i t) (completion_values ck s e) (dispatches db))"
    using ok by (intro completion_table_ok [OF dispatch_invD(1) [OF inv]])
  have inv': "dispatch_inv (db\<lparr>dispatches := update_where (owned_where ck i t) (completion_values ck s e) (dispatches db)\<rparr>)"
    by (rule dispatch_inv_update [OF inv upd]) simp
  have eq: "dispatch_complete ck i t s e db =
      dispatch_apply_transition i D_RUNNING (owned_where ck i t) (completion_values ck s e) db"
    using Inr t by (simp add: dispatch_complete_def)
  show ?thesis
  proof (rule dispatch_apply_transition_cases [OF dispatch_invD(1) [OF inv] upd, of i D_RUNNING])
    fix r assume "r \<in> set (dispatches db)" "owned_where ck i t r"
      "dispatch_apply_transition i D_RUNNING (owned_where ck i t) (completion_values ck s e) db =
        (Inr (completion_values ck s e r), db\<lparr>dispatches := update_where (owned_where ck i t) (completion_values ck s e) (dispatches db)\<rparr>)"
    then show ?thesis using hit [of r] t inv' eq by simp
  next
    assume "\<forall>r\<in>set (dispatches db). \<not> owned_where ck i t r"
      "dispatch_apply_transition i D_RUNNING (owned_where ck i t) (completion_values ck s e) db =
        (Inl (HermesDispatchStateConflictError i D_RUNNING), db)"
    then show ?thesis using refused eq by simp
  qed (auto simp: owned_where_def)
qed

lemma dispatch_renew_cases:
  assumes inv: "dispatch_inv db" and run: "dispatch_renew_lease ck i t lease now db = (res, db')"
  obtains (hit) r l n where "r \<in> set (dispatches db)" "renew_where i t n r" "nonblank t"
      "validated_lease_seconds lease = Inr l" "validated_now ck now = Inr n"
      "res = Inr (renew_values ck l n r)"
      "db' = db\<lparr>dispatches := update_where (renew_where i t n) (renew_values ck l n) (dispatches db)\<rparr>"
  | (refused) err where "res = Inl err" "db' = db"
proof -
  consider (bad) err where "res = Inl err" "db' = db"
    | (good) l n where "nonblank t" "validated_lease_seconds lease = Inr l" "validated_now ck now = Inr n"
      "dispatch_apply_transition i D_RUNNING (renew_where i t n) (renew_values ck l n) db = (res, db')"
    using run
    by (auto simp: dispatch_renew_lease_def checked_def validated_required_string_def
        renew_where_def [abs_def] renew_values_def [abs_def] split: sum.splits if_splits)
  then show ?thesis
  proof cases
    case bad
    then show ?thesis by (rule refused)
  next
    case (good l n)
    show ?thesis
    proof (rule dispatch_apply_transition_cases [OF dispatch_invD(1) [OF inv]
            renew_table_ok [OF dispatch_invD(1) [OF inv], of i t n ck l], of i D_RUNNING])
      fix r assume "r \<in> set (dispatches db)" "renew_where i t n r"
        "dispatch_apply_transition i D_RUNNING (renew_where i t n) (renew_values ck l n) db =
          (Inr (renew_values ck l n r), db\<lparr>dispatches := update_where (renew_where i t n) (renew_values ck l n) (dispatches db)\<rparr>)"
      with good show ?thesis by (intro hit [of r n l]) auto
    next
      assume "dispatch_apply_transition i D_RUNNING (renew_where i t n) (renew_values ck l n) db =
          (Inl (HermesDispatchStateConflictError i D_RUNNING), db)"
      with good show ?thesis by (intro refused) auto
    qed (auto simp: renew_where_def)
  qed
qed

lemma dispatch_renew_inv:
  assumes "dispatch_inv db" and "dispatch_renew_lease ck i t lease now db = (res, db')"
  shows "dispatch_inv db'"
  using assms(2)
  by (rule dispatch_renew_cases [OF assms(1)])
    (use assms(1) renew_table_ok [OF dispatch_invD(1) [OF assms(1)]] in \<open>auto intro!: dispatch_inv_update\<close>)

subsection \<open>The token fences completion\<close>

lemma completion_ok_not_running: "\<forall>r. completion_ok (s r) e \<Longrightarrow> s r \<noteq> D_RUNNING"
  by (drule spec [of _ r]) (auto simp: completion_ok_def)

definition dispatch_holder :: "gateway_db \<Rightarrow> int \<Rightarrow> string option" where
  "dispatch_holder db i =
     (case dispatch_reload i db of
        None \<Rightarrow> None
      | Some r \<Rightarrow> if d_status r = D_RUNNING then d_claim_token r else None)"

definition dispatch_finish ::
  "clocks \<Rightarrow> (HermesDispatchRecord \<Rightarrow> HermesDispatchStatus) \<Rightarrow> string option \<Rightarrow> int \<Rightarrow> string \<Rightarrow> gateway_db
     \<Rightarrow> gateway_db option"
where
  "dispatch_finish ck s e i t db =
     (case dispatch_complete ck i t s e db of (Inr _, db') \<Rightarrow> Some db' | (Inl _, _) \<Rightarrow> None)"

lemma dispatch_holder_row:
  assumes "dispatch_inv db" and "r \<in> set (dispatches db)"
  shows "dispatch_holder db (d_id r) = (if d_status r = D_RUNNING then d_claim_token r else None)"
  using lookup_by_distinct [OF dispatch_table_okD(2) [OF dispatch_invD(1) [OF assms(1)]] assms(2)]
  by (simp add: dispatch_holder_def dispatch_reload_def)

lemma dispatch_holder_update:
  assumes "\<And>r. d_id (f r) = d_id r"
  shows "dispatch_holder (db\<lparr>dispatches := update_where p f (dispatches db)\<rparr>) j =
    (case dispatch_reload j db of None \<Rightarrow> None
     | Some r \<Rightarrow> (if d_status (if p r then f r else r) = D_RUNNING
                  then d_claim_token (if p r then f r else r) else None))"
  using assms by (simp add: dispatch_holder_def dispatch_reload_def lookup_by_update_where split: option.split)

interpretation dispatch_fence: claim_fence dispatch_holder "dispatch_finish ck s e"
  "\<lambda>db. dispatch_inv db \<and> (\<forall>r. completion_ok (s r) e)"
  for ck s e
proof -
  have step: "\<exists>r\<in>set (dispatches db). owned_where ck k t r
      \<and> db' = db\<lparr>dispatches := update_where (owned_where ck k t) (completion_values ck s e) (dispatches db)\<rparr>
      \<and> dispatch_inv db'"
    if "dispatch_inv db" "\<forall>r. completion_ok (s r) e" "dispatch_finish ck s e k t db = Some db'" for db k t db'
    using that(3)
    by (cases rule: dispatch_complete_cases [OF that(1), of ck k t s e])
      (use that(2) in \<open>auto simp: dispatch_finish_def\<close>)
  show "claim_fence dispatch_holder (dispatch_finish ck s e) (\<lambda>db. dispatch_inv db \<and> (\<forall>r. completion_ok (s r) e))"
  proof (unfold_locales, goal_cases)
    case (1 db k t db')
    then show ?case
      using step [of db k t db'] dispatch_holder_row [of db] by (auto simp: owned_where_def)
  next
    case (2 db k t db')
    then have c: "dispatch_inv db" "\<And>r. s r \<noteq> D_RUNNING"
      by (auto dest: completion_ok_not_running)
    from 2 step [of db k t db'] obtain r where r: "r \<in> set (dispatches db)" "owned_where ck k t r"
      "db' = db\<lparr>dispatches := update_where (owned_where ck k t) (completion_values ck s e) (dispatches db)\<rparr>" by auto
    have "dispatch_reload k db = Some r"
      using r lookup_by_distinct [OF dispatch_table_okD(2) [OF dispatch_invD(1) [OF c(1)]] r(1)]
      by (auto simp: dispatch_reload_def owned_where_def)
    with r c(2) show ?case by (simp add: dispatch_holder_update)
  next
    case (3 db k t db' j)
    then obtain r where
      "db' = db\<lparr>dispatches := update_where (owned_where ck k t) (completion_values ck s e) (dispatches db)\<rparr>"
      using step [of db k t db'] by auto
    with 3(3) show ?case
      by (auto simp: dispatch_holder_def dispatch_reload_def owned_where_def lookup_by_update_where
          split: option.splits dest: lookup_by_Some)
  next
    case (4 db k t db')
    then show ?case using step [of db k t db'] by auto
  qed
qed

section \<open>Enqueue is idempotent\<close>

lemma dispatch_target_Inr:
  assumes "dispatch_target adm = Inr tg"
  shows "ao_admitted adm" "ao_reason adm = ADMISSION_ALLOWED" "ao_should_create_task adm"
    "0 < ao_message_id adm" "dt_message_id tg = ao_message_id adm"
    "ao_enterprise_identity_id adm = Some (dt_enterprise_identity_id tg)"
    "ao_workspace_id adm = Some (dt_workspace_id tg)" "ao_ai_thread_id adm = Some (dt_ai_thread_id tg)"
  using assms
  by (auto simp: dispatch_target_def required_target_id_def split: if_splits sum.splits option.splits)

lemma idempotency_key_Inr:
  "build_hermes_dispatch_idempotency_key m = Inr k \<longleftrightarrow>
     0 < m \<and> k = HERMES_DISPATCH_IDEMPOTENCY_NAMESPACE @ '':'' @ int_str m"
  by (auto simp: build_hermes_dispatch_idempotency_key_def)

lemma idempotency_key_inject:
  "build_hermes_dispatch_idempotency_key m = Inr k \<Longrightarrow> build_hermes_dispatch_idempotency_key n = Inr k \<Longrightarrow> m = n"
  by (metis append_same_eq idempotency_key_Inr int_str_inject_nonneg less_imp_le same_append_eq)

lemma idempotency_key_nonempty:
  "build_hermes_dispatch_idempotency_key m = Inr k \<Longrightarrow> sql_nonempty k"
  by (simp add: idempotency_key_Inr sql_nonempty_def HERMES_DISPATCH_IDEMPOTENCY_NAMESPACE_def)

text \<open>Every stored key is the key of its message.\<close>

definition dispatch_keys_ok :: "gateway_db \<Rightarrow> bool" where
  "dispatch_keys_ok db =
     list_all (\<lambda>r. build_hermes_dispatch_idempotency_key (d_message_id r) = Inr (d_idempotency_key r))
       (dispatches db)"

lemma dispatch_keys_okD:
  "dispatch_keys_ok db \<Longrightarrow> r \<in> set (dispatches db) \<Longrightarrow>
   build_hermes_dispatch_idempotency_key (d_message_id r) = Inr (d_idempotency_key r)"
  by (simp add: dispatch_keys_ok_def list_all_iff)

lemma dispatch_find_existing_iff:
  assumes "dispatch_inv db" "dispatch_keys_ok db" "build_hermes_dispatch_idempotency_key m = Inr k"
  shows "dispatch_find_existing m k db = Some r \<longleftrightarrow> r \<in> set (dispatches db) \<and> d_message_id r = m"
proof -
  note ok = dispatch_invD(1) [OF assms(1)]
  have msg: "lookup_by d_message_id m (dispatches db) = Some q \<longleftrightarrow> q \<in> set (dispatches db) \<and> d_message_id q = m" for q
    by (rule lookup_by_eq_Some_iff [OF dispatch_table_okD(4) [OF ok]])
  have "lookup_by d_message_id m (dispatches db) \<noteq> None"
    if "lookup_by d_idempotency_key k (dispatches db) = Some q" for q
  proof -
    from lookup_by_Some [OF that] have q: "q \<in> set (dispatches db)" "d_idempotency_key q = k" by auto
    with dispatch_keys_okD [OF assms(2) q(1)] assms(3) have "d_message_id q = m"
      using idempotency_key_inject by blast
    with q msg show ?thesis by auto
  qed
  then have "dispatch_find_existing m k db = lookup_by d_message_id m (dispatches db)"
    by (cases "lookup_by d_message_id m (dispatches db)"; cases "lookup_by d_idempotency_key k (dispatches db)")
      (auto simp: dispatch_find_existing_def dispatch_get_by_message_id_def dispatch_get_by_idempotency_key_def)
  with msg show ?thesis by simp
qed

lemma new_dispatch_record_sel [dispatch_values, simp]:
  "d_id (new_dispatch_record ck i k tg) = i" "d_idempotency_key (new_dispatch_record ck i k tg) = k"
  "d_message_id (new_dispatch_record ck i k tg) = dt_message_id tg"
  "d_ai_thread_id (new_dispatch_record ck i k tg) = dt_ai_thread_id tg"
  "d_status (new_dispatch_record ck i k tg) = D_QUEUED"
  "d_attempt_count (new_dispatch_record ck i k tg) = 0"
  "d_claim_token (new_dispatch_record ck i k tg) = None"
  "d_created_at (new_dispatch_record ck i k tg) = db_now ck"
  by (simp_all add: new_dispatch_record_def)

lemma new_dispatch_row_ok: "sql_nonempty k \<Longrightarrow> dispatch_row_ok (new_dispatch_record ck i k tg)"
  by (simp add: dispatch_row_ok_def new_dispatch_record_def null_or_nonempty_def dispatch_reconciliation_ok_def)

text \<open>A row for a message that has none can always be inserted.\<close>

lemma dispatch_insert_table_ok:
  assumes inv: "dispatch_inv db" and keys: "dispatch_keys_ok db"
    and k: "build_hermes_dispatch_idempotency_key (dt_message_id tg) = Inr k"
    and none: "dispatch_find_existing (dt_message_id tg) k db = None"
  shows "dispatch_table_ok (dispatches db @ [new_dispatch_record ck (dispatch_seq db) k tg])"
proof -
  note D = dispatch_table_okD [OF dispatch_invD(1) [OF inv]]
  have nomsg: "r \<in> set (dispatches db) \<Longrightarrow> d_message_id r \<noteq> dt_message_id tg" for r
    using none dispatch_find_existing_iff [OF inv keys k] by auto
  have "dt_message_id tg \<notin> d_message_id ` set (dispatches db)" using nomsg by force
  moreover have "k \<notin> d_idempotency_key ` set (dispatches db)"
    using nomsg dispatch_keys_okD [OF keys] k idempotency_key_inject by blast
  moreover have "dispatch_seq db \<notin> d_id ` set (dispatches db)"
    using dispatch_invD(2) [OF inv] by force
  moreover have "list_all dispatch_row_ok (dispatches db)" using D(1) by (simp add: list_all_iff)
  ultimately show ?thesis
    using D(2-5) new_dispatch_row_ok [OF idempotency_key_nonempty [OF k]]
    by (auto simp: dispatch_table_ok_def running_threads_def)
qed

lemma dispatch_insert_inv:
  assumes inv: "dispatch_inv db" and keys: "dispatch_keys_ok db"
    and k: "build_hermes_dispatch_idempotency_key (dt_message_id tg) = Inr k"
    and none: "dispatch_find_existing (dt_message_id tg) k db = None"
    and row: "row = new_dispatch_record ck (dispatch_seq db) k tg"
  shows "dispatch_inv (db\<lparr>dispatches := dispatches db @ [row], dispatch_seq := dispatch_seq db + 1\<rparr>)"
    and "dispatch_keys_ok (db\<lparr>dispatches := dispatches db @ [row], dispatch_seq := dispatch_seq db + 1\<rparr>)"
  using dispatch_insert_table_ok [OF inv keys k none, of ck] dispatch_invD(2) [OF inv] keys k
  by (force simp: dispatch_inv_def dispatch_keys_ok_def row list_all_iff zless_add1_eq)+

text \<open>
  Every run of \<open>enqueue\<close>, whatever other sessions commit meanwhile, ends in one of three
  ways: it raises, it returns the one record of the message, or it inserts that record.
\<close>

lemma dispatch_enqueue_cases:
  assumes inv: "dispatch_inv db" "dispatch_keys_ok db"
    and race: "\<And>u. dispatch_inv u \<Longrightarrow> dispatch_keys_ok u \<Longrightarrow> dispatch_inv (race_lock u) \<and> dispatch_keys_ok (race_lock u)"
      "\<And>u. dispatch_inv u \<Longrightarrow> dispatch_keys_ok u \<Longrightarrow> dispatch_inv (race_flush u) \<and> dispatch_keys_ok (race_flush u)"
    and run: "dispatch_enqueue race_lock race_flush ck adm db = (res, db')"
  obtains (refused) e where "dispatch_target adm = Inl e" "res = Inl e" "db' = db"
  | (found) tg r where "dispatch_target adm = Inr tg"
      "db' \<in> {db, race_lock db, race_flush (race_lock db)}"
      "dispatch_inv db'" "dispatch_keys_ok db'"
      "r \<in> set (dispatches db')" "d_message_id r = ao_message_id adm"
      "res = map_sum id (\<lambda>x. (x, False)) (compatible_record_or_raise r tg)"
  | (inserted) tg k where "dispatch_target adm = Inr tg"
      "build_hermes_dispatch_idempotency_key (dt_message_id tg) = Inr k"
      "dispatch_inv (race_flush (race_lock db))" "dispatch_keys_ok (race_flush (race_lock db))"
      "dispatch_find_existing (dt_message_id tg) k (race_flush (race_lock db)) = None"
      "res = Inr (new_dispatch_record ck (dispatch_seq (race_flush (race_lock db))) k tg, True)"
      "db' = (race_flush (race_lock db))
         \<lparr>dispatches := dispatches (race_flush (race_lock db))
             @ [new_dispatch_record ck (dispatch_seq (race_flush (race_lock db))) k tg],
          dispatch_seq := dispatch_seq (race_flush (race_lock db)) + 1\<rparr>"
  | (dangling) tg k where "dispatch_target adm = Inr tg" "res = Inl IntegrityError"
      "db' = race_flush (race_lock db)" "dispatch_inv db'" "dispatch_keys_ok db'"
      "\<not> dispatch_foreign_keys_ok db' (new_dispatch_record ck (dispatch_seq db') k tg)"
proof (cases "dispatch_target adm")
  case (Inl e)
  with run refused show ?thesis by (auto simp: dispatch_enqueue_def)
next
  case (Inr tg)
  let ?u1 = "race_lock db" and ?u2 = "race_flush (race_lock db)"
  from race inv have u1: "dispatch_inv ?u1" "dispatch_keys_ok ?u1" by auto
  with race have u2: "dispatch_inv ?u2" "dispatch_keys_ok ?u2" by auto
  have m: "dt_message_id tg = ao_message_id adm" "0 < ao_message_id adm"
    using dispatch_target_Inr [OF Inr] by auto
  then obtain k where k: "build_hermes_dispatch_idempotency_key (dt_message_id tg) = Inr k"
    by (auto simp: idempotency_key_Inr)
  let ?row = "new_dispatch_record ck (dispatch_seq ?u2) k tg"
  let ?compat = "\<lambda>r. map_sum id (\<lambda>x. (x, False)) (compatible_record_or_raise r tg)"
  have unfolded: "(res, db') =
      (case dispatch_stage_enqueue race_lock race_flush ck adm db of
         (Inr r, _, staged) \<Rightarrow> (Inr r, staged)
       | (Inl IntegrityError, committed, _) \<Rightarrow>
           (case dispatch_find_existing (dt_message_id tg) k committed of
              Some r \<Rightarrow> (?compat r, committed)
            | None \<Rightarrow> (Inl IntegrityError, committed))
       | (Inl e, committed, _) \<Rightarrow> (Inl e, committed))"
    using run by (simp add: dispatch_enqueue_def Inr k)
  have compat_staged: "res = ?compat r \<and> db' = u"
    if "dispatch_stage_enqueue race_lock race_flush ck adm db = (?compat r, u, u)" for r u
    using unfolded that by (simp add: compatible_record_or_raise_def split: if_splits)
  have hit: ?thesis
    if "dispatch_find_existing (dt_message_id tg) k u = Some r" "dispatch_inv u" "dispatch_keys_ok u"
      "u \<in> {db, ?u1, ?u2}"
      "res = map_sum id (\<lambda>x. (x, False)) (compatible_record_or_raise r tg)" "db' = u" for u r
    using that dispatch_find_existing_iff [OF that(2,3) k] m by (intro found [OF Inr]) auto
  show ?thesis
  proof (cases "dispatch_find_existing (dt_message_id tg) k db")
    case (Some r)
    then have "dispatch_stage_enqueue race_lock race_flush ck adm db = (?compat r, db, db)"
      by (simp add: dispatch_stage_enqueue_def Inr k)
    with compat_staged have "res = ?compat r \<and> db' = db" by blast
    with Some inv show ?thesis by (intro hit [of db r]) auto
  next
    case n0: None
    show ?thesis
    proof (cases "dispatch_find_existing (dt_message_id tg) k ?u1")
      case (Some r)
      with n0 have "dispatch_stage_enqueue race_lock race_flush ck adm db = (?compat r, ?u1, ?u1)"
        by (simp add: dispatch_stage_enqueue_def Inr k Let_def)
      with compat_staged have "res = ?compat r \<and> db' = ?u1" by blast
      with Some u1 show ?thesis by (intro hit [of ?u1 r]) auto
    next
      case n1: None
      have staged: "dispatch_stage_enqueue race_lock race_flush ck adm db =
          (if dispatch_table_ok (dispatches ?u2 @ [?row]) \<and> dispatch_foreign_keys_ok ?u2 ?row
           then (Inr (?row, True), ?u2, ?u2\<lparr>dispatches := dispatches ?u2 @ [?row],
                   dispatch_seq := dispatch_seq ?u2 + 1\<rparr>)
           else (Inl IntegrityError, ?u2, ?u2))"
        using n0 n1 by (simp add: dispatch_stage_enqueue_def Inr k Let_def)
      show ?thesis
      proof (cases "dispatch_find_existing (dt_message_id tg) k ?u2")
        case n2: None
        show ?thesis
        proof (cases "dispatch_foreign_keys_ok ?u2 (new_dispatch_record ck (dispatch_seq ?u2) k tg)")
          case True
          with unfolded staged dispatch_insert_table_ok [OF u2 k n2, of ck] show ?thesis
            by (intro inserted [OF Inr k u2 n2]) simp_all
        next
          case False
          with unfolded staged n2 have "res = Inl IntegrityError" "db' = ?u2" by simp_all
          with False u2 show ?thesis by (intro dangling [OF Inr, of k]) simp_all
        qed
      next
        case (Some r)
        then have "r \<in> set (dispatches ?u2)" "d_message_id r = dt_message_id tg"
          using dispatch_find_existing_iff [OF u2 k] by auto
        then have "\<not> distinct (map d_message_id (dispatches ?u2 @ [new_dispatch_record ck (dispatch_seq ?u2) k tg]))"
          by force
        then have "\<not> dispatch_table_ok (dispatches ?u2 @ [new_dispatch_record ck (dispatch_seq ?u2) k tg])"
          by (auto simp: dispatch_table_ok_def)
        with unfolded staged Some have "res = ?compat r" "db' = ?u2" by simp_all
        with Some u2 show ?thesis by (intro hit [of ?u2 r]) auto
      qed
    qed
  qed
qed

end
