(* ===== verification/Dispatch_Results.thy ===== *)
theory Dispatch_Results
  imports Dispatch_Store
begin

text \<open>
  What a Hermes call returns and how it is made durable (\<open>hermes/models.py\<close>,
  \<open>hermes/errors.py\<close>, \<open>hermes/outbox.py\<close>, \<open>hermes/result_models.py\<close>,
  \<open>hermes/result_store.py\<close>): the response envelope with its validators and its JSON form,
  the exceptions of a call and the dispatch status each one leads to, and the transaction
  that completes a dispatch, rotates the Hermes session of its thread and stores the result.

  The lemmas show that a stored envelope is read back as it was, that the completion is
  atomic and fenced by the claim token, that one dispatch has at most one result, and that
  only failures known to happen before the external effect are retryable.
\<close>

section \<open>Response envelopes\<close>

definition has_control_char :: "string \<Rightarrow> bool" where
  "has_control_char s = list_ex (\<lambda>c. (of_char c :: nat) < 32) s"

text \<open>\<open>ArtifactRefPart.validate_artifact_id\<close>, after the \<open>Field\<close> bounds 1 and 36.\<close>

definition validate_artifact_id :: "string \<Rightarrow> string option" where
  "validate_artifact_id value =
     (if length value < 1 \<or> length value > 36 then None
      else
        let artifact_id = py_strip value in
        if artifact_id = [] then None
        else if artifact_id \<in> {''.'', ''..''}
             \<or> list_ex (\<lambda>c. c \<in> set artifact_id) [CHR ''/'', CHR 0x5C, CHR '':'']
             \<or> has_control_char artifact_id
        then None
        else Some artifact_id)"

text \<open>\<open>ResponseEnvelope.validate_response_id\<close>, after the \<open>Field\<close> bounds 1 and 255.\<close>

definition validate_response_id :: "string \<Rightarrow> string option" where
  "validate_response_id value =
     (if length value < 1 \<or> length value > 255 then None
      else
        let response_id = py_strip value in
        if response_id = [] then None
        else if has_control_char response_id then None
        else Some response_id)"

text \<open>A JSON object with exactly the named string fields (\<open>extra="forbid"\<close>).\<close>

definition exact_fields :: "string list \<Rightarrow> json \<Rightarrow> bool" where
  "exact_fields ks j = (case j of JObj kvs \<Rightarrow> set (map fst kvs) = set ks | _ \<Rightarrow> False)"

definition json_str :: "json \<Rightarrow> string \<Rightarrow> string option" where
  "json_str j k = (case json_get j k of Some (JStr s) \<Rightarrow> Some s | _ \<Rightarrow> None)"

text \<open>\<open>model_validate\<close> of one part, discriminated by \<open>type\<close>; \<open>model_dump\<close> is its inverse.\<close>

definition validate_part :: "json \<Rightarrow> ResponsePart option" where
  "validate_part j =
     (case json_str j ''type'' of
        None \<Rightarrow> None
      | Some kind \<Rightarrow>
          if kind = ''text'' then
            (if \<not> exact_fields [''type'', ''text''] j then None
             else case json_str j ''text'' of
                    None \<Rightarrow> None
                  | Some t \<Rightarrow> if t = [] then None else Some (TextPart t))
          else if kind = ''artifact_ref'' then
            (if \<not> exact_fields [''type'', ''artifact_id''] j then None
             else case json_str j ''artifact_id'' of
                    None \<Rightarrow> None
                  | Some a \<Rightarrow> map_option ArtifactRefPart (validate_artifact_id a))
          else None)"

fun dump_part :: "ResponsePart \<Rightarrow> json" where
  "dump_part (TextPart t) = JObj [(''type'', JStr ''text''), (''text'', JStr t)]"
| "dump_part (ArtifactRefPart a) = JObj [(''type'', JStr ''artifact_ref''), (''artifact_id'', JStr a)]"

fun validate_parts :: "json list \<Rightarrow> ResponsePart list option" where
  "validate_parts [] = Some []"
| "validate_parts (j # js) =
     (case validate_part j of
        None \<Rightarrow> None
      | Some p \<Rightarrow> map_option ((#) p) (validate_parts js))"

definition envelope_validate :: "json \<Rightarrow> ResponseEnvelope option" where
  "envelope_validate j =
     (if \<not> exact_fields [''response_id'', ''parts''] j then None
      else case (json_str j ''response_id'', json_get j ''parts'') of
             (Some rid, Some (JList js)) \<Rightarrow>
               (case (validate_response_id rid, validate_parts js) of
                  (Some rid', Some ps) \<Rightarrow>
                    if ps = [] then None else Some \<lparr>env_response_id = rid', env_parts = ps\<rparr>
                | _ \<Rightarrow> None)
           | _ \<Rightarrow> None)"

definition envelope_dump :: "ResponseEnvelope \<Rightarrow> json" where
  "envelope_dump e =
     JObj [(''response_id'', JStr (env_response_id e)),
           (''parts'', JList (map dump_part (env_parts e)))]"

text \<open>\<open>ResponseEnvelope.assistant_content\<close> and \<open>artifact_ids\<close>.\<close>

fun part_text :: "ResponsePart \<Rightarrow> string" where
  "part_text (TextPart t) = t"
| "part_text (ArtifactRefPart _) = []"

definition envelope_assistant_content :: "ResponseEnvelope \<Rightarrow> string" where
  "envelope_assistant_content e = concat (map part_text (env_parts e))"

definition envelope_artifact_ids :: "ResponseEnvelope \<Rightarrow> string list" where
  "envelope_artifact_ids e =
     concat (map (\<lambda>p. case p of TextPart _ \<Rightarrow> [] | ArtifactRefPart a \<Rightarrow> [a]) (env_parts e))"

text \<open>\<open>HermesDispatchOutcome.from_response\<close> and \<open>parts\<close>.\<close>

definition outcome_from_response :: "int \<Rightarrow> string \<Rightarrow> string \<Rightarrow> ResponseEnvelope \<Rightarrow> HermesDispatchOutcome" where
  "outcome_from_response message_id workspace_id ai_thread_id response =
     \<lparr>out_message_id = message_id, out_workspace_id = workspace_id, out_ai_thread_id = ai_thread_id,
      out_assistant_content = envelope_assistant_content response, out_response = Some response,
      out_requested_hermes_thread_id = None, out_next_hermes_thread_id = None\<rparr>"

definition outcome_parts :: "HermesDispatchOutcome \<Rightarrow> ResponsePart list" where
  "outcome_parts o1 =
     (case out_response o1 of
        Some e \<Rightarrow> env_parts e
      | None \<Rightarrow> if out_assistant_content o1 \<noteq> [] then [TextPart (out_assistant_content o1)] else [])"

section \<open>Exceptions of a Hermes call\<close>

datatype hermes_exception =
    HermesConfigurationError
  | HermesAPIKeyError
  | HermesAPIError string int
  | HermesTransportError string
  | HermesTimeoutError string
  | HermesExecutionTimeoutError string
  | HermesResponseError string
  | HermesDispatchError string
  | HermesDeliveryError string
  | OtherException string

text \<open>The class attribute \<open>code\<close>; an exception outside the hierarchy has none.\<close>

fun hermes_error_class_code :: "hermes_exception \<Rightarrow> string option" where
  "hermes_error_class_code HermesConfigurationError = Some ''hermes_configuration_error''"
| "hermes_error_class_code HermesAPIKeyError = Some ''hermes_api_key_error''"
| "hermes_error_class_code (HermesAPIError _ _) = Some ''hermes_api_error''"
| "hermes_error_class_code (HermesTransportError _) = Some ''hermes_transport_error''"
| "hermes_error_class_code (HermesTimeoutError _) = Some ''hermes_timeout_error''"
| "hermes_error_class_code (HermesExecutionTimeoutError _) = Some ''hermes_execution_timeout_error''"
| "hermes_error_class_code (HermesResponseError _) = Some ''hermes_response_error''"
| "hermes_error_class_code (HermesDispatchError _) = Some ''hermes_dispatch_error''"
| "hermes_error_class_code (HermesDeliveryError _) = Some ''hermes_delivery_error''"
| "hermes_error_class_code (OtherException _) = None"

definition http_error_category :: "int \<Rightarrow> string" where
  "http_error_category status_code =
     (if status_code \<in> {401, 403} then ''authentication''
      else if status_code = 429 then ''rate_limit''
      else if 400 \<le> status_code \<and> status_code < 500 then ''client''
      else if 500 \<le> status_code \<and> status_code < 600 then ''server''
      else ''unexpected_status'')"

definition POST_CALL_DISPATCH_ERRORS :: "string list" where
  "POST_CALL_DISPATCH_ERRORS = [''hermes_thread_advanced_concurrently'']"

fun dispatch_failure_status :: "hermes_exception \<Rightarrow> HermesDispatchStatus" where
  "dispatch_failure_status (HermesDispatchError reason) =
     (if reason \<in> set POST_CALL_DISPATCH_ERRORS then D_UNCERTAIN else D_FAILED)"
| "dispatch_failure_status (HermesAPIError _ status_code) =
     (if status_code \<ge> 500 then D_UNCERTAIN else D_FAILED)"
| "dispatch_failure_status _ = D_UNCERTAIN"

fun dispatch_error_code :: "hermes_exception \<Rightarrow> string" where
  "dispatch_error_code (HermesDispatchError reason) = ''hermes_dispatch_error:'' @ reason"
| "dispatch_error_code (HermesAPIError _ status_code) = ''hermes_api_error:http_'' @ int_str status_code"
| "dispatch_error_code e =
     (case hermes_error_class_code e of None \<Rightarrow> ''unexpected_dispatch_error'' | Some code \<Rightarrow> code)"

section \<open>The result store\<close>

text \<open>The unique constraints of \<open>hermes_dispatch_responses\<close> (\<open>NULL\<close> is not a duplicate).\<close>

definition dispatch_response_table_ok :: "HermesDispatchResponse list \<Rightarrow> bool" where
  "dispatch_response_table_ok rows =
     (distinct (map h_id rows) \<and> distinct (map h_dispatch_record_id rows)
      \<and> distinct (map h_hermes_response_id (filter (\<lambda>h. h_hermes_response_id h \<noteq> None) rows)))"

text \<open>The constraints of \<open>ai_threads\<close>.\<close>

definition ai_thread_row_ok :: "AIThread \<Rightarrow> bool" where
  "ai_thread_row_ok t =
     ((t_agent_profile_id t = None \<longleftrightarrow> t_thread_policy t = None)
      \<and> (t_agent_profile_id t = None
         \<or> (t_thread_type t = THREAD_PRIVATE \<and> t_thread_policy t = Some PRIVATE_SENDER)
         \<or> (t_thread_type t = THREAD_GROUP \<and> t_thread_policy t \<in> {Some GROUP_SHARED, Some GROUP_SENDER})))"

definition ai_thread_table_ok :: "AIThread list \<Rightarrow> bool" where
  "ai_thread_table_ok rows =
     (list_all ai_thread_row_ok rows \<and> distinct (map t_id rows) \<and> distinct (map t_thread_key rows)
      \<and> distinct (map t_hermes_thread_id (filter (\<lambda>t. t_hermes_thread_id t \<noteq> None) rows)))"

definition get_by_dispatch_record_id :: "int \<Rightarrow> gateway_db \<Rightarrow> HermesDispatchResponse option" where
  "get_by_dispatch_record_id i db = lookup_by h_dispatch_record_id i (dispatch_responses db)"

text \<open>The session rotation inside \<open>complete_success\<close>.\<close>

definition rotate_hermes_session ::
  "clocks \<Rightarrow> int \<Rightarrow> HermesDispatchOutcome \<Rightarrow> gateway_db \<Rightarrow> unit outcome"
where
  "rotate_hermes_session ck record_id out db =
     (case out_requested_hermes_thread_id out of
        None \<Rightarrow> (Inr (), db)
      | Some requested \<Rightarrow>
        (case out_next_hermes_thread_id out of
           None \<Rightarrow> (Inl (ValueError ''missing Hermes session rotation target''), db)
         | Some next_id \<Rightarrow>
           (let p = (\<lambda>t. t_id t = out_ai_thread_id out \<and> t_hermes_thread_id t = Some requested);
                rows = update_where p (\<lambda>t. t\<lparr>t_hermes_thread_id := Some next_id,
                                              t_updated_at := db_now ck\<rparr>) (ai_threads db) in
            if \<not> ai_thread_table_ok rows then (Inl IntegrityError, db)
            else if rowcount p (ai_threads db) \<noteq> 1
            then (Inl (HermesDispatchStateConflictError record_id D_RUNNING), db)
            else (Inr (), db\<lparr>ai_threads := rows\<rparr>))))"

definition new_dispatch_response ::
  "clocks \<Rightarrow> int \<Rightarrow> int \<Rightarrow> HermesDispatchOutcome \<Rightarrow> HermesDispatchResponse" where
  "new_dispatch_response ck new_id record_id out =
     \<lparr>h_id = new_id, h_dispatch_record_id = record_id,
      h_hermes_response_id = map_option env_response_id (out_response out),
      h_assistant_content = out_assistant_content out,
      h_response_payload = map_option envelope_dump (out_response out),
      h_created_at = db_now ck\<rparr>"

definition result_where :: "clocks \<Rightarrow> int \<Rightarrow> string \<Rightarrow> HermesDispatchOutcome \<Rightarrow> HermesDispatchRecord \<Rightarrow> bool" where
  "result_where ck record_id claim_token out r =
     (owned_where ck record_id claim_token r
      \<and> d_message_id r = out_message_id out \<and> d_workspace_id r = out_workspace_id out
      \<and> d_ai_thread_id r = out_ai_thread_id out)"

definition complete_success ::
  "clocks \<Rightarrow> int \<Rightarrow> string \<Rightarrow> HermesDispatchOutcome \<Rightarrow> gateway_db \<Rightarrow> HermesDispatchResponse outcome"
where
  "complete_success ck record_id claim_token out db =
     (let conflict = Inl (HermesDispatchStateConflictError record_id D_RUNNING) in
      case dispatch_update (result_where ck record_id claim_token out)
             (completion_values ck (\<lambda>_. D_SUCCESS) None) db of
        (Inl _, _) \<Rightarrow> (conflict, db)
      | (Inr n, db1) \<Rightarrow>
          if n \<noteq> 1 then (conflict, db)
          else
            (case rotate_hermes_session ck record_id out db1 of
               (Inl IntegrityError, _) \<Rightarrow> (conflict, db)
             | (Inl e, _) \<Rightarrow> (Inl e, db)
             | (Inr _, db2) \<Rightarrow>
                 (let row = new_dispatch_response ck (dispatch_response_seq db2) record_id out in
                  if dispatch_response_table_ok (dispatch_responses db2 @ [row])
                  then (Inr row, db2\<lparr>dispatch_responses := dispatch_responses db2 @ [row],
                                     dispatch_response_seq := dispatch_response_seq db2 + 1\<rparr>)
                  else (conflict, db))))"

text \<open>\<open>to_outcome\<close>; a payload that no longer validates raises.\<close>

definition to_outcome :: "HermesDispatchResponse \<Rightarrow> HermesDispatchRecord \<Rightarrow> gateway_error + HermesDispatchOutcome" where
  "to_outcome response r =
     (let build = (\<lambda>envelope. \<lparr>out_message_id = d_message_id r, out_workspace_id = d_workspace_id r,
             out_ai_thread_id = d_ai_thread_id r, out_assistant_content = h_assistant_content response,
             out_response = envelope, out_requested_hermes_thread_id = None,
             out_next_hermes_thread_id = None\<rparr>) in
      case h_response_payload response of
        None \<Rightarrow> Inr (build None)
      | Some payload \<Rightarrow>
          (case envelope_validate payload of
             None \<Rightarrow> Inl (ValueError ''response_payload'')
           | Some envelope \<Rightarrow> Inr (build (Some envelope))))"

section \<open>Envelopes survive their JSON form\<close>

lemma validate_response_id_again: "validate_response_id v = Some r \<Longrightarrow> validate_response_id r = Some r"
  using length_py_strip [of v]
  by (auto simp: validate_response_id_def Let_def split: if_splits)

lemma validate_artifact_id_again: "validate_artifact_id v = Some a \<Longrightarrow> validate_artifact_id a = Some a"
proof -
  assume "validate_artifact_id v = Some a"
  then have a: "a = py_strip v" "a \<noteq> []" "length v \<le> 36" and
    rest: "\<not> (a \<in> {''.'', ''..''} \<or> list_ex (\<lambda>c. c \<in> set a) [CHR ''/'', CHR 0x5C, CHR '':''] \<or> has_control_char a)"
    unfolding validate_artifact_id_def Let_def by (simp_all split: if_splits)
  have "length a \<le> 36" "length a \<ge> 1" using a length_py_strip [of v] by (auto simp: Suc_le_eq)
  moreover have "py_strip a = a" using a(1) by simp
  ultimately show ?thesis using a(2) rest unfolding validate_artifact_id_def Let_def
    by (simp only: not_less if_False if_True) simp
qed

lemma validate_part_dump: "validate_part j = Some p \<Longrightarrow> validate_part (dump_part p) = Some p"
proof -
  assume v: "validate_part j = Some p"
  show ?thesis
  proof (cases p)
    case (TextPart t)
    with v have "t \<noteq> []" by (auto simp: validate_part_def split: option.splits if_splits)
    with TextPart show ?thesis
      by (simp add: validate_part_def json_str_def json_get_def exact_fields_def)
  next
    case (ArtifactRefPart a)
    with v obtain w where "validate_artifact_id w = Some a"
      by (auto simp: validate_part_def split: option.splits if_splits)
    then have "validate_artifact_id a = Some a" by (rule validate_artifact_id_again)
    with ArtifactRefPart show ?thesis
      by (simp add: validate_part_def json_str_def json_get_def exact_fields_def)
  qed
qed

lemma validate_parts_dump:
  "validate_parts js = Some ps \<Longrightarrow> validate_parts (map dump_part ps) = Some ps"
  by (induction js arbitrary: ps) (auto simp: validate_part_dump split: option.splits)

lemma envelope_validate_dump:
  assumes "envelope_validate j = Some e"
  shows "envelope_validate (envelope_dump e) = Some e"
proof -
  from assms obtain rid js rid' ps where v: "validate_response_id rid = Some rid'"
    "validate_parts js = Some ps" "ps \<noteq> []" "e = \<lparr>env_response_id = rid', env_parts = ps\<rparr>"
    unfolding envelope_validate_def by (simp split: if_splits option.splits json.splits)
  have get: "exact_fields [''response_id'', ''parts''] (envelope_dump e)"
    "json_str (envelope_dump e) ''response_id'' = Some rid'"
    "json_get (envelope_dump e) ''parts'' = Some (JList (map dump_part ps))"
    unfolding v(4) envelope_dump_def exact_fields_def json_str_def json_get_def by simp_all
  show ?thesis
    unfolding envelope_validate_def get(2,3)
    using get(1) v(3) validate_response_id_again [OF v(1)] validate_parts_dump [OF v(2)] by (simp add: v(4))
qed

section \<open>Completion is atomic and fenced\<close>

lemma result_table_ok:
  assumes "dispatch_table_ok rows"
  shows "dispatch_table_ok (update_where (result_where ck i t out) (completion_values ck (\<lambda>_. D_SUCCESS) None) rows)"
  by (rule dispatch_table_ok_update [OF assms])
    (simp_all add: result_where_def owned_where_def completion_values_row_ok completion_ok_def)

lemma rotate_frame:
  "rotate_hermes_session ck i out db = (Inr u, db') \<Longrightarrow>
     \<exists>rows. db' = db\<lparr>ai_threads := rows\<rparr> \<and> map t_id rows = map t_id (ai_threads db)"
  by (cases db) (auto simp: rotate_hermes_session_def Let_def map_key_update_where split: option.splits if_splits)

lemma rotate_done:
  assumes "rotate_hermes_session ck i out db = (Inr u, db')"
    and "out_requested_hermes_thread_id out = Some req"
  obtains nxt t where "out_next_hermes_thread_id out = Some nxt" "t \<in> set (ai_threads db')"
    "t_id t = out_ai_thread_id out" "t_hermes_thread_id t = Some nxt" "ai_thread_table_ok (ai_threads db')"
proof -
  from assms obtain nxt where nxt: "out_next_hermes_thread_id out = Some nxt"
    by (auto simp: rotate_hermes_session_def split: option.splits)
  let ?p = "\<lambda>t. t_id t = out_ai_thread_id out \<and> t_hermes_thread_id t = Some req"
  let ?f = "\<lambda>t. t\<lparr>t_hermes_thread_id := Some nxt, t_updated_at := db_now ck\<rparr>"
  from assms nxt have one: "rowcount ?p (ai_threads db) = 1"
    and db': "db' = db\<lparr>ai_threads := update_where ?p ?f (ai_threads db)\<rparr>"
    and ok: "ai_thread_table_ok (ai_threads db')"
    by (auto simp: rotate_hermes_session_def Let_def split: if_splits)
  from one obtain t where "t \<in> set (ai_threads db)" "?p t"
    using rowcount_0_iff [of ?p "ai_threads db"] by auto
  then have "?f t \<in> set (ai_threads db')" by (auto simp: db' set_update_where)
  with ok nxt \<open>?p t\<close> show ?thesis by (intro that [of nxt "?f t"]) auto
qed

text \<open>
  A completion either changes nothing or, in one transaction, marks the owned dispatch
  successful, rotates the session of its thread and stores the result.
\<close>

lemma complete_success_cases:
  assumes inv: "dispatch_inv db" and run: "complete_success ck i t out db = (res, db')"
  obtains (refused) e where "res = Inl e" "db' = db"
  | (stored) r db2 row where "r \<in> set (dispatches db)" "result_where ck i t out r"
      "rotate_hermes_session ck i out (db\<lparr>dispatches :=
         update_where (result_where ck i t out) (completion_values ck (\<lambda>_. D_SUCCESS) None) (dispatches db)\<rparr>) = (Inr (), db2)"
      "row = new_dispatch_response ck (dispatch_response_seq db) i out" "res = Inr row"
      "db' = db2\<lparr>dispatch_responses := dispatch_responses db @ [row],
                 dispatch_response_seq := dispatch_response_seq db + 1\<rparr>"
      "dispatch_response_table_ok (dispatch_responses db @ [row])"
      "dispatches db' = update_where (result_where ck i t out) (completion_values ck (\<lambda>_. D_SUCCESS) None) (dispatches db)"
proof -
  let ?p = "result_where ck i t out" and ?f = "completion_values ck (\<lambda>_. D_SUCCESS) None"
  let ?db1 = "db\<lparr>dispatches := update_where ?p ?f (dispatches db)\<rparr>"
  note ok = dispatch_invD(1) [OF inv]
  note upd = dispatch_update_Inr [OF result_table_ok [OF ok], of ck i t out]
  show ?thesis
  proof (cases "rowcount ?p (dispatches db) = 1")
    case False
    with run upd refused show ?thesis by (auto simp: complete_success_def Let_def)
  next
    case one: True
    then obtain r where r: "r \<in> set (dispatches db)" "?p r"
      using rowcount_0_iff [of ?p "dispatches db"] by auto
    obtain o1 db2 where rot: "rotate_hermes_session ck i out ?db1 = (o1, db2)" by (cases "rotate_hermes_session ck i out ?db1")
    show ?thesis
    proof (cases o1)
      case (Inl e)
      with run upd one rot refused show ?thesis
        by (cases e) (auto simp: complete_success_def Let_def)
    next
      case (Inr u)
      obtain rows where db2: "db2 = ?db1\<lparr>ai_threads := rows\<rparr>"
        using rotate_frame rot Inr by metis
      let ?row = "new_dispatch_response ck (dispatch_response_seq db) i out"
      have eq: "complete_success ck i t out db =
          (if dispatch_response_table_ok (dispatch_responses db @ [?row])
           then (Inr ?row, db2\<lparr>dispatch_responses := dispatch_responses db @ [?row],
                               dispatch_response_seq := dispatch_response_seq db + 1\<rparr>)
           else (Inl (HermesDispatchStateConflictError i D_RUNNING), db))"
        using upd one rot Inr by (simp add: complete_success_def Let_def db2)
      show ?thesis
      proof (cases "dispatch_response_table_ok (dispatch_responses db @ [?row])")
        case True
        with eq run r rot Inr show ?thesis by (intro stored [of r db2 ?row]) (auto simp: db2)
      next
        case False
        with eq run refused show ?thesis by auto
      qed
    qed
  qed
qed

lemma complete_success_inv:
  assumes inv: "dispatch_inv db" and run: "complete_success ck i t out db = (res, db')"
  shows "dispatch_inv db'"
  using run
proof (cases rule: complete_success_cases [OF inv, consumes 1, case_names refused stored])
  case (stored r db2 row)
  from rotate_frame [OF stored(3)] have "dispatch_seq db' = dispatch_seq db" by (auto simp: stored(6))
  with dispatch_inv_update [OF inv result_table_ok [OF dispatch_invD(1) [OF inv]], of ck i t out]
  show ?thesis by (simp add: dispatch_inv_def stored(8))
qed (use inv in auto)

text \<open>The stored result is read back as the outcome that was completed.\<close>

lemma to_outcome_new_response:
  assumes "out_message_id out = d_message_id r" "out_workspace_id out = d_workspace_id r"
    "out_ai_thread_id out = d_ai_thread_id r"
    and "\<And>e. out_response out = Some e \<Longrightarrow> \<exists>j. envelope_validate j = Some e"
  shows "to_outcome (new_dispatch_response ck n i out) r =
    Inr (out\<lparr>out_requested_hermes_thread_id := None, out_next_hermes_thread_id := None\<rparr>)"
proof (cases "out_response out")
  case None
  with assms(1-3) show ?thesis by (cases out) (simp add: to_outcome_def new_dispatch_response_def)
next
  case (Some e)
  with assms(4) envelope_validate_dump have "envelope_validate (envelope_dump e) = Some e" by blast
  with Some assms(1-3) show ?thesis by (cases out) (simp add: to_outcome_def new_dispatch_response_def)
qed

section \<open>Failure classification\<close>

text \<open>Only a rejected request (before the call, or a status below 500) is retried without an operator.\<close>

lemma dispatch_failure_status_FAILED:
  "dispatch_failure_status e = D_FAILED \<longleftrightarrow>
     (\<exists>reason. e = HermesDispatchError reason \<and> reason \<notin> set POST_CALL_DISPATCH_ERRORS)
     \<or> (\<exists>op code. e = HermesAPIError op code \<and> code < 500)"
  by (cases e) auto

lemma dispatch_failure_status_range: "dispatch_failure_status e \<in> {D_FAILED, D_UNCERTAIN}"
  by (cases e) auto

lemma dispatch_error_code_nonblank: "nonblank (dispatch_error_code e)"
  by (cases e) (simp_all add: nonblank_iff py_isspace_def)

end
