(* ===== verification/Gateway_Digest.thy ===== *)
theory Gateway_Digest
  imports Access_Control "HOL-Library.Word"
begin

text \<open>
  The two standard-library functions behind the content hashes and the derived keys:
  \<open>json.dumps(x, ensure_ascii=True, separators=(",", ":"), sort_keys=True)\<close> and
  \<open>hashlib.sha256(b).hexdigest()\<close>, both as executable definitions. The lemmas give the
  shape of a digest (64 lower-case hexadecimal digits), which the column constraints
  \<open>length(content_sha256) = 64\<close> and \<open>length(target_key) = 64\<close> rely on.
\<close>

unbundle bit_operations_syntax

section \<open>Canonical JSON\<close>

definition hex_digit :: "nat \<Rightarrow> char" where
  "hex_digit n = char_of (if n < 10 then 48 + n else 87 + n)"

definition escape_char :: "char \<Rightarrow> string" where
  "escape_char c =
     (let n = (of_char c :: nat) in
      if n = 34 then [CHR 0x5C, CHR 0x22]
      else if n = 92 then [CHR 0x5C, CHR 0x5C]
      else if n = 10 then [CHR 0x5C, CHR ''n'']
      else if n = 13 then [CHR 0x5C, CHR ''r'']
      else if n = 9 then [CHR 0x5C, CHR ''t'']
      else if n = 12 then [CHR 0x5C, CHR ''f'']
      else if n = 8 then [CHR 0x5C, CHR ''b'']
      else if 32 \<le> n \<and> n \<le> 126 then [c]
      else [CHR 0x5C, CHR ''u'', CHR ''0'', CHR ''0'', hex_digit (n div 16), hex_digit (n mod 16)])"

definition dumps_string :: "string \<Rightarrow> string" where
  "dumps_string s = [CHR 0x22] @ concat (map escape_char s) @ [CHR 0x22]"

fun join_comma :: "string list \<Rightarrow> string" where
  "join_comma [] = []"
| "join_comma [x] = x"
| "join_comma (x # y # zs) = x @ '','' @ join_comma (y # zs)"

text \<open>Keys are sorted by code point; the keys of one object are distinct.\<close>

fun json_dumps :: "json \<Rightarrow> string" where
  "json_dumps JNull = ''null''"
| "json_dumps (JBool b) = (if b then ''true'' else ''false'')"
| "json_dumps (JInt i) = int_str i"
| "json_dumps (JStr s) = dumps_string s"
| "json_dumps (JList js) = ''['' @ join_comma (map json_dumps js) @ '']''"
| "json_dumps (JObj kvs) =
     ''{'' @ join_comma (map (\<lambda>(k, t). dumps_string k @ '':'' @ t)
               (sort_key fst (map (\<lambda>(k, v). (k, json_dumps v)) kvs))) @ ''}''"

section \<open>SHA-256\<close>

definition sha_rotr :: "nat \<Rightarrow> 32 word \<Rightarrow> 32 word" where
  "sha_rotr n w = word_rotr n w"

definition sha_initial :: "32 word list" where
  "sha_initial = [1779033703, 3144134277, 1013904242, 2773480762, 1359893119, 2600822924, 528734635, 1541459225]"

definition sha_constants :: "32 word list" where
  "sha_constants =
    [1116352408, 1899447441, 3049323471, 3921009573, 961987163, 1508970993, 2453635748, 2870763221,
     3624381080, 310598401, 607225278, 1426881987, 1925078388, 2162078206, 2614888103, 3248222580,
     3835390401, 4022224774, 264347078, 604807628, 770255983, 1249150122, 1555081692, 1996064986,
     2554220882, 2821834349, 2952996808, 3210313671, 3336571891, 3584528711, 113926993, 338241895,
     666307205, 773529912, 1294757372, 1396182291, 1695183700, 1986661051, 2177026350, 2456956037,
     2730485921, 2820302411, 3259730800, 3345764771, 3516065817, 3600352804, 4094571909, 275423344,
     430227734, 506948616, 659060556, 883997877, 958139571, 1322822218, 1537002063, 1747873779,
     1955562222, 2024104815, 2227730452, 2361852424, 2428436474, 2756734187, 3204031479, 3329325298]"

text \<open>Bytes big-endian, the padding of a message and its blocks of sixteen words.\<close>

definition nat_bytes :: "nat \<Rightarrow> nat \<Rightarrow> nat list" where
  "nat_bytes k n = map (\<lambda>i. (n div 256 ^ i) mod 256) (rev [0..<k])"

definition sha_pad :: "nat list \<Rightarrow> nat list" where
  "sha_pad bs =
     (let l = length bs; z = (119 - l mod 64) mod 64
      in bs @ [128] @ replicate z 0 @ nat_bytes 8 (8 * l))"

definition be_word :: "nat list \<Rightarrow> 32 word" where
  "be_word bs = word_of_nat (foldl (\<lambda>a b. 256 * a + b) 0 bs)"

fun sha_words :: "nat list \<Rightarrow> 32 word list" where
  "sha_words (a # b # c # d # bs) = be_word [a, b, c, d] # sha_words bs"
| "sha_words _ = []"

text \<open>The message schedule, newest word first: sixteen words of the block, then one per step.\<close>

definition sha_next_word :: "32 word list \<Rightarrow> 32 word" where
  "sha_next_word ws =
     (let s0 = (\<lambda>x. sha_rotr 7 x XOR sha_rotr 18 x XOR drop_bit 3 x);
          s1 = (\<lambda>x. sha_rotr 17 x XOR sha_rotr 19 x XOR drop_bit 10 x)
      in s1 (ws ! 1) + ws ! 6 + s0 (ws ! 14) + ws ! 15)"

fun sha_extend :: "nat \<Rightarrow> 32 word list \<Rightarrow> 32 word list" where
  "sha_extend 0 ws = ws"
| "sha_extend (Suc n) ws = sha_extend n (sha_next_word ws # ws)"

fun sha_round :: "32 word list \<Rightarrow> 32 word \<times> 32 word \<Rightarrow> 32 word list" where
  "sha_round [a, b, c, d, e, f, g, h] (k, w) =
     (let s1 = sha_rotr 6 e XOR sha_rotr 11 e XOR sha_rotr 25 e;
          ch = (e AND f) XOR (NOT e AND g);
          t1 = h + s1 + ch + k + w;
          s0 = sha_rotr 2 a XOR sha_rotr 13 a XOR sha_rotr 22 a;
          maj = (a AND b) XOR (a AND c) XOR (b AND c);
          t2 = s0 + maj
      in [t1 + t2, a, b, c, d + t1, e, f, g])"
| "sha_round st _ = st"

definition sha_compress :: "32 word list \<Rightarrow> 32 word list \<Rightarrow> 32 word list" where
  "sha_compress st block =
     (let ws = rev (sha_extend 48 (rev block));
          out = foldl sha_round st (zip sha_constants ws)
      in map2 (+) st out)"

fun sha_blocks :: "nat \<Rightarrow> 32 word list \<Rightarrow> 32 word list \<Rightarrow> 32 word list" where
  "sha_blocks 0 st ws = st"
| "sha_blocks (Suc n) st ws = sha_blocks n (sha_compress st (take 16 ws)) (drop 16 ws)"

definition sha256_words :: "nat list \<Rightarrow> 32 word list" where
  "sha256_words bs = (let ws = sha_words (sha_pad bs) in sha_blocks (length ws div 16) sha_initial ws)"

definition word_hex :: "32 word \<Rightarrow> string" where
  "word_hex w = map (\<lambda>i. hex_digit (unat w div 16 ^ i mod 16)) (rev [0..<8])"

definition sha256_hexdigest :: "string \<Rightarrow> string" where
  "sha256_hexdigest s = concat (map word_hex (sha256_words (map of_char s)))"

section \<open>The shape of a digest\<close>

lemma length_sha_round: "length st = 8 \<Longrightarrow> length (sha_round st kw) = 8"
  by (cases "(st, kw)" rule: sha_round.cases) (auto simp: Let_def)

lemma length_sha_rounds: "length st = 8 \<Longrightarrow> length (foldl sha_round st kws) = 8"
  by (induction kws arbitrary: st) (auto simp: length_sha_round)

lemma length_sha_compress: "length st = 8 \<Longrightarrow> length (sha_compress st block) = 8"
  by (simp add: sha_compress_def Let_def length_sha_rounds)

lemma length_sha_blocks: "length st = 8 \<Longrightarrow> length (sha_blocks n st ws) = 8"
  by (induction n arbitrary: st ws) (auto simp: length_sha_compress)

lemma length_word_hex: "length (word_hex w) = 8"
  by (simp add: word_hex_def)

lemma length_sha256_hexdigest [simp]: "length (sha256_hexdigest s) = 64"
proof -
  have "length (sha256_words bs) = 8" for bs
    by (simp add: sha256_words_def Let_def length_sha_blocks sha_initial_def)
  moreover have "length (concat (map word_hex ws)) = 8 * length ws" for ws
    by (induction ws) (simp_all add: length_word_hex)
  ultimately show ?thesis by (simp add: sha256_hexdigest_def)
qed

lemma sha_pad_blocks: "length (sha_pad bs) mod 64 = 0"
proof -
  define l where "l = length bs"
  have "l + 1 + (119 - l mod 64) mod 64 + 8 = length (sha_pad bs)"
    by (simp add: sha_pad_def Let_def nat_bytes_def l_def)
  moreover have "(l + 1 + (119 - l mod 64) mod 64 + 8) mod 64 = 0"
  proof -
    define q m where "q = l div 64" and "m = l mod 64"
    have l: "l = 64 * q + m" and m: "m < 64" by (simp_all add: q_def m_def)
    have "(119 - m) mod 64 = (if m < 56 then 55 - m else 119 - m)"
      using m by (auto simp: mod_if)
    then have "64 * q + m + 1 + (119 - m) mod 64 + 8 = 64 * (if m < 56 then q + 1 else q + 2)"
      using m by (auto split: if_splits)
    moreover have "(64 * (if m < 56 then q + 1 else q + 2)) mod 64 = 0"
      by (rule mod_mult_self1_is_0)
    ultimately show ?thesis using l m by (simp add: m_def [symmetric])
  qed
  ultimately show ?thesis by simp
qed

lemma hex_digit_not_space: "n < 16 \<Longrightarrow> \<not> py_isspace (hex_digit n)"
proof -
  assume "n < 16"
  then have "(of_char (hex_digit n) :: nat) = (if n < 10 then 48 + n else 87 + n)"
    by (simp add: hex_digit_def)
  with \<open>n < 16\<close> show ?thesis by (simp add: py_isspace_def)
qed

end
