(* ===== verification/Response_Store.thy ===== *)
theory Response_Store
  imports Dispatch_Results Gateway_Digest
begin

text \<open>
  The response store (\<open>response/models.py\<close>, \<open>response/store.py\<close>,
  \<open>response/runtime.py\<close>) and the constraints of the delivery outbox it fills: a generated
  response, its ordered parts and its delivery job are persisted in one transaction, keyed
  by the message, and a repeated save of the same outcome returns what is stored.

  \<open>race\<close> arguments are what other sessions commit between the lookup and the insert, so
  the branches that recover from a lost race are part of the model.
\<close>

section \<open>Constraints\<close>

fun response_part_ok :: "ResponsePartRecord \<Rightarrow> bool" where
  "response_part_ok p =
     (case p_part_type p of
        PART_TEXT \<Rightarrow> (case p_text p of Some t \<Rightarrow> t \<noteq> [] | None \<Rightarrow> False) \<and> p_artifact_id p = None
      | PART_ARTIFACT_REF \<Rightarrow>
          p_text p = None \<and> (case p_artifact_id p of Some a \<Rightarrow> sql_nonempty a | None \<Rightarrow> False))"

definition response_row_ok :: "ResponseRecord \<Rightarrow> bool" where
  "response_row_ok r =
     (r_part_count r > 0 \<and> length (r_content_sha256 r) = 64 \<and> sql_nonempty (r_idempotency_key r)
      \<and> null_or_nonempty (r_last_error_code r)
      \<and> list_all response_part_ok (r_parts r) \<and> distinct (map p_ordinal (r_parts r)))"

definition response_table_ok :: "ResponseRecord list \<Rightarrow> bool" where
  "response_table_ok rows =
     (list_all response_row_ok rows \<and> distinct (map r_response_id rows)
      \<and> distinct (map r_idempotency_key rows) \<and> distinct (map r_message_id rows))"

definition delivery_row_ok :: "DeliveryOutboxRecord \<Rightarrow> bool" where
  "delivery_row_ok d =
     (o_attempt_count d \<ge> 0 \<and> o_next_part_ordinal d \<ge> 0 \<and> length (o_target_key d) = 64
      \<and> sql_nonempty (o_idempotency_key d)
      \<and> null_or_nonempty (o_claim_token d) \<and> null_or_nonempty (o_last_error_code d))"

definition delivery_table_ok :: "DeliveryOutboxRecord list \<Rightarrow> bool" where
  "delivery_table_ok rows =
     (list_all delivery_row_ok rows \<and> distinct (map o_id rows) \<and> distinct (map o_idempotency_key rows)
      \<and> distinct (map (\<lambda>d. (o_response_id d, o_channel d, o_target_key d)) rows))"

definition response_foreign_keys_ok :: "gateway_db \<Rightarrow> ResponseRecord \<Rightarrow> bool" where
  "response_foreign_keys_ok db r =
     (r_message_id r \<in> g_id ` set (messages db) \<and> r_workspace_id r \<in> w_id ` set (workspaces db)
      \<and> r_ai_thread_id r \<in> t_id ` set (ai_threads db))"

section \<open>Targets and keys\<close>

record DeliveryTarget =
  tg_channel :: string
  tg_account_id :: string
  tg_conversation_id :: string

definition required_string :: "string \<Rightarrow> string \<Rightarrow> nat \<Rightarrow> gateway_error + string" where
  "required_string value field_name max_length =
     (if \<not> nonblank value then Inl (ResponseValidationError (field_name @ ''_missing''))
      else
        let normalized = py_strip value in
        if length normalized > max_length \<or> has_control_char normalized
        then Inl (ResponseValidationError (field_name @ ''_invalid''))
        else Inr normalized)"

text \<open>\<open>DeliveryTarget(\<dots>)\<close>: the three fields are normalised in order.\<close>

definition make_delivery_target :: "string \<Rightarrow> string \<Rightarrow> string \<Rightarrow> gateway_error + DeliveryTarget" where
  "make_delivery_target channel account_id conversation_id =
     (case required_string channel ''channel'' 64 of
        Inl e \<Rightarrow> Inl e
      | Inr c \<Rightarrow>
        (case required_string account_id ''account_id'' 255 of
           Inl e \<Rightarrow> Inl e
         | Inr a \<Rightarrow>
           (case required_string conversation_id ''conversation_id'' 255 of
              Inl e \<Rightarrow> Inl e
            | Inr v \<Rightarrow> Inr \<lparr>tg_channel = c, tg_account_id = a, tg_conversation_id = v\<rparr>)))"

definition RESPONSE_IDEMPOTENCY_NAMESPACE :: string where
  "RESPONSE_IDEMPOTENCY_NAMESPACE = ''v1:hermes-response:message''"

definition DELIVERY_IDEMPOTENCY_NAMESPACE :: string where
  "DELIVERY_IDEMPOTENCY_NAMESPACE = ''v1:response-delivery''"

definition positive_message_id :: "int \<Rightarrow> gateway_error + int" where
  "positive_message_id value =
     (if value \<le> 0 then Inl (ResponseValidationError ''invalid_message_id'') else Inr value)"

definition build_response_idempotency_key :: "int \<Rightarrow> gateway_error + string" where
  "build_response_idempotency_key message_id =
     map_sum id (\<lambda>m. RESPONSE_IDEMPOTENCY_NAMESPACE @ '':'' @ int_str m) (positive_message_id message_id)"

definition build_stable_response_id :: "int \<Rightarrow> gateway_error + string" where
  "build_stable_response_id message_id =
     map_sum id (\<lambda>m. ''legacy-response:message:'' @ int_str m) (positive_message_id message_id)"

definition content_sha256 :: "ResponseEnvelope \<Rightarrow> string" where
  "content_sha256 envelope = sha256_hexdigest (json_dumps (envelope_dump envelope))"

definition target_key :: "DeliveryTarget \<Rightarrow> string" where
  "target_key target =
     sha256_hexdigest (json_dumps (JObj [(''account_id'', JStr (tg_account_id target)),
       (''channel'', JStr (tg_channel target)), (''conversation_id'', JStr (tg_conversation_id target))]))"

definition delivery_idempotency_key :: "string \<Rightarrow> string \<Rightarrow> string" where
  "delivery_idempotency_key response_key tkey =
     DELIVERY_IDEMPOTENCY_NAMESPACE @ '':'' @ sha256_hexdigest (response_key @ '':'' @ tkey)"

text \<open>\<open>_response_envelope\<close>: an outcome without an envelope becomes one text part.\<close>

definition response_envelope :: "HermesDispatchOutcome \<Rightarrow> gateway_error + ResponseEnvelope" where
  "response_envelope out =
     (case out_response out of
        Some e \<Rightarrow> Inr e
      | None \<Rightarrow>
          if out_assistant_content out = [] then Inl (ResponseValidationError ''empty_response'')
          else map_sum id (\<lambda>rid. \<lparr>env_response_id = rid, env_parts = [TextPart (out_assistant_content out)]\<rparr>)
                 (build_stable_response_id (out_message_id out)))"

fun part_record :: "nat \<Rightarrow> ResponsePart \<Rightarrow> ResponsePartRecord" where
  "part_record ordinal (TextPart t) =
     \<lparr>p_ordinal = ordinal, p_part_type = PART_TEXT, p_text = Some t, p_artifact_id = None\<rparr>"
| "part_record ordinal (ArtifactRefPart a) =
     \<lparr>p_ordinal = ordinal, p_part_type = PART_ARTIFACT_REF, p_text = None, p_artifact_id = Some a\<rparr>"

definition part_records :: "ResponsePart list \<Rightarrow> ResponsePartRecord list" where
  "part_records parts = map (\<lambda>(i, p). part_record i p) (enumerate 0 parts)"

section \<open>Lookups and compatibility\<close>

definition response_get :: "string \<Rightarrow> gateway_db \<Rightarrow> ResponseRecord option" where
  "response_get rid db = lookup_by r_response_id rid (responses db)"

definition response_get_by_idempotency_key :: "string \<Rightarrow> gateway_db \<Rightarrow> ResponseRecord option" where
  "response_get_by_idempotency_key key db = lookup_by r_idempotency_key key (responses db)"

definition find_delivery :: "string \<Rightarrow> DeliveryTarget \<Rightarrow> gateway_db \<Rightarrow> DeliveryOutboxRecord option" where
  "find_delivery rid target db =
     lookup_by (\<lambda>d. (o_response_id d, o_channel d, o_target_key d))
       (rid, tg_channel target, target_key target) (deliveries db)"

fun stored_part :: "ResponsePartRecord \<Rightarrow> ResponsePartKind \<times> string option \<times> string option" where
  "stored_part p = (p_part_type p, p_text p, p_artifact_id p)"

fun expected_part :: "ResponsePart \<Rightarrow> ResponsePartKind \<times> string option \<times> string option" where
  "expected_part (TextPart t) = (PART_TEXT, Some t, None)"
| "expected_part (ArtifactRefPart a) = (PART_ARTIFACT_REF, None, Some a)"

definition compatible_response :: "ResponseRecord \<Rightarrow> HermesDispatchOutcome \<Rightarrow> ResponseEnvelope \<Rightarrow> string \<Rightarrow> bool" where
  "compatible_response r out envelope sha =
     (r_response_id r = env_response_id envelope \<and> r_message_id r = out_message_id out
      \<and> r_workspace_id r = out_workspace_id out \<and> r_ai_thread_id r = out_ai_thread_id out
      \<and> r_content_sha256 r = sha \<and> r_part_count r = int (length (env_parts envelope))
      \<and> map stored_part (r_parts r) = map expected_part (env_parts envelope))"

definition require_compatible_response ::
  "ResponseRecord \<Rightarrow> HermesDispatchOutcome \<Rightarrow> ResponseEnvelope \<Rightarrow> string \<Rightarrow> gateway_error + unit" where
  "require_compatible_response r out envelope sha =
     (if compatible_response r out envelope sha then Inr ()
      else Inl (ResponseConflictError (r_idempotency_key r)))"

definition require_compatible_delivery ::
  "DeliveryOutboxRecord \<Rightarrow> DeliveryTarget \<Rightarrow> string \<Rightarrow> gateway_error + unit" where
  "require_compatible_delivery d target tkey =
     (if o_channel d \<noteq> tg_channel target \<or> o_account_id d \<noteq> tg_account_id target
         \<or> o_conversation_id d \<noteq> tg_conversation_id target \<or> o_target_key d \<noteq> tkey
      then Inl (ResponseConflictError (o_idempotency_key d)) else Inr ())"

section \<open>Saving\<close>

definition new_delivery ::
  "clocks \<Rightarrow> int \<Rightarrow> string \<Rightarrow> string \<Rightarrow> DeliveryTarget \<Rightarrow> string \<Rightarrow> DeliveryOutboxRecord" where
  "new_delivery ck new_id response_id delivery_key target tkey =
     \<lparr>o_id = new_id, o_idempotency_key = delivery_key, o_response_id = response_id,
      o_channel = tg_channel target, o_account_id = tg_account_id target,
      o_conversation_id = tg_conversation_id target, o_target_key = tkey, o_status = O_QUEUED,
      o_next_part_ordinal = 0, o_attempt_count = 0, o_available_at = wall_now ck,
      o_claim_token = None, o_claimed_at = None, o_completed_at = None, o_last_error_code = None,
      o_created_at = db_now ck, o_updated_at = db_now ck\<rparr>"

definition new_response ::
  "clocks \<Rightarrow> string \<Rightarrow> HermesDispatchOutcome \<Rightarrow> ResponseEnvelope \<Rightarrow> string \<Rightarrow> ResponseRecord" where
  "new_response ck key out envelope sha =
     \<lparr>r_response_id = env_response_id envelope, r_idempotency_key = key,
      r_message_id = out_message_id out, r_workspace_id = out_workspace_id out,
      r_ai_thread_id = out_ai_thread_id out, r_content_sha256 = sha,
      r_part_count = int (length (env_parts envelope)), r_status = R_GENERATED,
      r_generated_at = Some (wall_now ck), r_delivering_at = None, r_delivered_at = None,
      r_failed_at = None, r_uncertain_at = None, r_last_error_code = None,
      r_created_at = db_now ck, r_updated_at = db_now ck,
      r_parts = part_records (env_parts envelope)\<rparr>"

text \<open>An insert into the outbox: its constraints and its foreign key to the response.\<close>

definition insert_delivery :: "DeliveryOutboxRecord \<Rightarrow> gateway_db \<Rightarrow> gateway_db option" where
  "insert_delivery d db =
     (if delivery_table_ok (deliveries db @ [d]) \<and> o_response_id d \<in> r_response_id ` set (responses db)
      then Some (db\<lparr>deliveries := deliveries db @ [d], delivery_seq := delivery_seq db + 1\<rparr>)
      else None)"

definition insert_response :: "ResponseRecord \<Rightarrow> gateway_db \<Rightarrow> gateway_db option" where
  "insert_response r db =
     (if response_table_ok (responses db @ [r]) \<and> response_foreign_keys_ok db r
      then Some (db\<lparr>responses := responses db @ [r]\<rparr>)
      else None)"

definition create_missing_delivery ::
  "(gateway_db \<Rightarrow> gateway_db) \<Rightarrow> clocks \<Rightarrow> ResponseRecord \<Rightarrow> HermesDispatchOutcome \<Rightarrow> ResponseEnvelope
     \<Rightarrow> string \<Rightarrow> DeliveryTarget \<Rightarrow> string \<Rightarrow> string \<Rightarrow> gateway_db
     \<Rightarrow> (ResponseRecord \<times> DeliveryOutboxRecord \<times> bool) outcome"
where
  "create_missing_delivery race ck r out envelope sha target tkey delivery_key db =
     (case lookup_by o_response_id (r_response_id r) (deliveries db) of
        Some d \<Rightarrow> (map_sum id (\<lambda>_. (r, d, False)) (require_compatible_delivery d target tkey), db)
      | None \<Rightarrow>
        (let db1 = race db;
             d = new_delivery ck (delivery_seq db1) (r_response_id r) delivery_key target tkey in
         case insert_delivery d db1 of
           Some db2 \<Rightarrow>
             (case response_get (r_response_id r) db2 of
                None \<Rightarrow> (Inl (ResponseValidationError ''response_not_found''), db2)
              | Some stored \<Rightarrow> (Inr (stored, d, True), db2))
         | None \<Rightarrow>
             (case response_get_by_idempotency_key (r_idempotency_key r) db1 of
                None \<Rightarrow> (Inl IntegrityError, db1)
              | Some existing \<Rightarrow>
                  checked (require_compatible_response existing out envelope sha) db1 (\<lambda>_.
                    case find_delivery (r_response_id existing) target db1 of
                      None \<Rightarrow> (Inl IntegrityError, db1)
                    | Some c \<Rightarrow>
                        (map_sum id (\<lambda>_. (existing, c, False)) (require_compatible_delivery c target tkey), db1)))))"

text \<open>The branch of \<open>save_generated\<close> for a message that already has a response.\<close>

definition resume_existing ::
  "(gateway_db \<Rightarrow> gateway_db) \<Rightarrow> clocks \<Rightarrow> ResponseRecord \<Rightarrow> HermesDispatchOutcome \<Rightarrow> ResponseEnvelope
     \<Rightarrow> string \<Rightarrow> DeliveryTarget \<Rightarrow> string \<Rightarrow> string \<Rightarrow> gateway_db
     \<Rightarrow> (ResponseRecord \<times> DeliveryOutboxRecord \<times> bool) outcome"
where
  "resume_existing race ck existing out envelope sha target tkey delivery_key db =
     checked (require_compatible_response existing out envelope sha) db (\<lambda>_.
       case find_delivery (r_response_id existing) target db of
         None \<Rightarrow> create_missing_delivery race ck existing out envelope sha target tkey delivery_key db
       | Some d \<Rightarrow> (map_sum id (\<lambda>_. (existing, d, False)) (require_compatible_delivery d target tkey), db))"

definition save_generated ::
  "(gateway_db \<Rightarrow> gateway_db) \<Rightarrow> (gateway_db \<Rightarrow> gateway_db) \<Rightarrow> clocks \<Rightarrow> HermesDispatchOutcome
     \<Rightarrow> DeliveryTarget \<Rightarrow> gateway_db \<Rightarrow> (ResponseRecord \<times> DeliveryOutboxRecord \<times> bool) outcome"
where
  "save_generated race race2 ck out target db =
     checked (response_envelope out) db (\<lambda>envelope.
     checked (build_response_idempotency_key (out_message_id out)) db (\<lambda>key.
       let sha = content_sha256 envelope;
           tkey = target_key target;
           delivery_key = delivery_idempotency_key key tkey in
       case response_get_by_idempotency_key key db of
         Some existing \<Rightarrow> resume_existing race2 ck existing out envelope sha target tkey delivery_key db
       | None \<Rightarrow>
         (let db1 = race db;
              r = new_response ck key out envelope sha;
              d = new_delivery ck (delivery_seq db1) (env_response_id envelope) delivery_key target tkey in
          case Option.bind (insert_response r db1) (insert_delivery d) of
            Some db2 \<Rightarrow> (Inr (r, d, True), db2)
          | None \<Rightarrow>
              (case response_get_by_idempotency_key key db1 of
                 Some existing \<Rightarrow>
                   resume_existing race2 ck existing out envelope sha target tkey delivery_key db1
               | None \<Rightarrow> (Inl IntegrityError, db1)))))"

definition verify_generated :: "HermesDispatchOutcome \<Rightarrow> gateway_db \<Rightarrow> gateway_error + ResponseRecord option" where
  "verify_generated out db =
     (case response_envelope out of
        Inl e \<Rightarrow> Inl e
      | Inr envelope \<Rightarrow>
        (case build_response_idempotency_key (out_message_id out) of
           Inl e \<Rightarrow> Inl e
         | Inr key \<Rightarrow>
           (case response_get_by_idempotency_key key db of
              None \<Rightarrow> Inr None
            | Some existing \<Rightarrow>
                map_sum id (\<lambda>_. Some existing)
                  (require_compatible_response existing out envelope (content_sha256 envelope)))))"

section \<open>The persistence processor\<close>

definition message_get :: "int \<Rightarrow> gateway_db \<Rightarrow> Message option" where
  "message_get mid db = lookup_by g_id mid (messages db)"

definition thread_get :: "string \<Rightarrow> gateway_db \<Rightarrow> AIThread option" where
  "thread_get tid db = lookup_by t_id tid (ai_threads db)"

record ResponsePersistenceOutcome =
  rp_response_id :: string
  rp_delivery_id :: int
  rp_created :: bool

definition persist_response ::
  "(gateway_db \<Rightarrow> gateway_db) \<Rightarrow> (gateway_db \<Rightarrow> gateway_db) \<Rightarrow> clocks \<Rightarrow> HermesDispatchOutcome
     \<Rightarrow> gateway_db \<Rightarrow> ResponsePersistenceOutcome outcome"
where
  "persist_response race race2 ck out db =
     (case message_get (out_message_id out) db of
        None \<Rightarrow> (Inl (ResponseValidationError ''message_not_found''), db)
      | Some message \<Rightarrow>
        (case thread_get (out_ai_thread_id out) db of
           None \<Rightarrow> (Inl (ResponseValidationError ''ai_thread_not_found''), db)
         | Some thread \<Rightarrow>
             if t_thread_type thread = THREAD_PRIVATE \<and> t_workspace_id thread \<noteq> out_workspace_id out
             then (Inl (ResponseValidationError ''ai_thread_workspace_mismatch''), db)
             else if t_status thread \<noteq> THREAD_ACTIVE
             then (Inl (ResponseValidationError ''ai_thread_unavailable''), db)
             else if g_source message \<noteq> ''wechat''
             then (Inl (ResponseValidationError ''unsupported_channel''), db)
             else
               checked (make_delivery_target (g_source message) (g_source_account_id message)
                          (g_conversation_id message)) db (\<lambda>target.
                 case save_generated race race2 ck out target db of
                   (Inl e, db') \<Rightarrow> (Inl e, db')
                 | (Inr (stored, d, created), db') \<Rightarrow>
                     (Inr \<lparr>rp_response_id = r_response_id stored, rp_delivery_id = o_id d,
                           rp_created = created\<rparr>, db'))))"

section \<open>The invariant of the store\<close>

definition response_inv :: "gateway_db \<Rightarrow> bool" where
  "response_inv db =
     (response_table_ok (responses db) \<and> delivery_table_ok (deliveries db)
      \<and> list_all (\<lambda>d. o_id d < delivery_seq db) (deliveries db)
      \<and> list_all (\<lambda>d. o_response_id d \<in> r_response_id ` set (responses db)) (deliveries db))"

lemma response_table_okD:
  assumes "response_table_ok rows"
  shows "r \<in> set rows \<Longrightarrow> response_row_ok r" "distinct (map r_response_id rows)"
    "distinct (map r_idempotency_key rows)" "distinct (map r_message_id rows)"
  using assms by (auto simp: response_table_ok_def list_all_iff)

lemma delivery_table_okD:
  assumes "delivery_table_ok rows"
  shows "d \<in> set rows \<Longrightarrow> delivery_row_ok d" "distinct (map o_id rows)"
    "distinct (map o_idempotency_key rows)"
    "distinct (map (\<lambda>d. (o_response_id d, o_channel d, o_target_key d)) rows)"
  using assms by (auto simp: delivery_table_ok_def list_all_iff)

lemma response_invD:
  "response_inv db \<Longrightarrow> response_table_ok (responses db)"
  "response_inv db \<Longrightarrow> delivery_table_ok (deliveries db)"
  "response_inv db \<Longrightarrow> d \<in> set (deliveries db) \<Longrightarrow> o_id d < delivery_seq db"
  "response_inv db \<Longrightarrow> d \<in> set (deliveries db) \<Longrightarrow> \<exists>r\<in>set (responses db). r_response_id r = o_response_id d"
     apply (auto simp: response_inv_def list_all_iff)
  by (metis imageE)

text \<open>
  What never changes of a response and of a delivery once stored. A later database extends
  an earlier one when every stored row is still there with these columns.
\<close>

definition response_identity :: "ResponseRecord \<Rightarrow> string \<times> string \<times> int \<times> string \<times> string \<times> string \<times> int \<times> ResponsePartRecord list" where
  "response_identity r = (r_response_id r, r_idempotency_key r, r_message_id r, r_workspace_id r,
     r_ai_thread_id r, r_content_sha256 r, r_part_count r, r_parts r)"

definition delivery_identity :: "DeliveryOutboxRecord \<Rightarrow> int \<times> string \<times> string \<times> string \<times> string \<times> string \<times> string" where
  "delivery_identity d = (o_id d, o_idempotency_key d, o_response_id d, o_channel d, o_account_id d,
     o_conversation_id d, o_target_key d)"

definition response_extends :: "gateway_db \<Rightarrow> gateway_db \<Rightarrow> bool" where
  "response_extends u v =
     (response_identity ` set (responses u) \<subseteq> response_identity ` set (responses v)
      \<and> delivery_identity ` set (deliveries u) \<subseteq> delivery_identity ` set (deliveries v))"

lemma response_extends_refl [simp]: "response_extends u u"
  by (simp add: response_extends_def)

lemma response_extends_trans: "response_extends u v \<Longrightarrow> response_extends v w \<Longrightarrow> response_extends u w"
  unfolding response_extends_def by (meson subset_trans)

lemma response_extends_response:
  "response_extends u v \<Longrightarrow> r \<in> set (responses u) \<Longrightarrow> \<exists>r'\<in>set (responses v). response_identity r' = response_identity r"
  by (force simp: response_extends_def)

lemma response_extends_delivery:
  "response_extends u v \<Longrightarrow> d \<in> set (deliveries u) \<Longrightarrow> \<exists>d'\<in>set (deliveries v). delivery_identity d' = delivery_identity d"
  by (force simp: response_extends_def)

lemma compatible_response_identity:
  "response_identity r' = response_identity r \<Longrightarrow> compatible_response r' out e sha = compatible_response r out e sha"
  by (simp add: compatible_response_def response_identity_def)

section \<open>A save is idempotent\<close>

text \<open>The outcome is stored: its response under its key, its delivery for the target.\<close>

definition saved_as :: "HermesDispatchOutcome \<Rightarrow> DeliveryTarget \<Rightarrow> ResponseRecord \<Rightarrow> DeliveryOutboxRecord \<Rightarrow> gateway_db \<Rightarrow> bool" where
  "saved_as out tg r d db \<longleftrightarrow>
     (\<exists>e. response_envelope out = Inr e \<and> compatible_response r out e (content_sha256 e))
     \<and> build_response_idempotency_key (out_message_id out) = Inr (r_idempotency_key r)
     \<and> r \<in> set (responses db) \<and> d \<in> set (deliveries db) \<and> o_response_id d = r_response_id r
     \<and> require_compatible_delivery d tg (target_key tg) = Inr ()"

lemma require_compatible_delivery_Inr:
  "require_compatible_delivery d tg k = Inr u \<longleftrightarrow>
     o_channel d = tg_channel tg \<and> o_account_id d = tg_account_id tg
     \<and> o_conversation_id d = tg_conversation_id tg \<and> o_target_key d = k"
  by (auto simp: require_compatible_delivery_def)

lemma require_compatible_response_Inr:
  "require_compatible_response r out e sha = Inr u \<longleftrightarrow> compatible_response r out e sha"
  by (simp add: require_compatible_response_def)

lemma find_delivery_Some:
  "find_delivery rid tg db = Some d \<Longrightarrow>
     d \<in> set (deliveries db) \<and> o_response_id d = rid \<and> o_channel d = tg_channel tg \<and> o_target_key d = target_key tg"
  unfolding find_delivery_def by (drule lookup_by_Some) auto

lemma saved_as_find_delivery:
  assumes "response_inv db" and "saved_as out tg r d db"
  shows "find_delivery (r_response_id r) tg db = Some d"
proof -
  from assms(2) have d: "d \<in> set (deliveries db)" "o_response_id d = r_response_id r"
    "o_channel d = tg_channel tg" "o_target_key d = target_key tg"
    by (auto simp: saved_as_def require_compatible_delivery_Inr)
  show ?thesis
    unfolding find_delivery_def d(2-4) [symmetric]
    by (rule lookup_by_distinct [OF delivery_table_okD(4) [OF response_invD(2) [OF assms(1)]] d(1)])
qed

lemma save_generated_saved:
  assumes inv: "response_inv db" and s: "saved_as out tg r d db"
  shows "save_generated race race2 ck out tg db = (Inr (r, d, False), db)"
proof -
  from s obtain e where e: "response_envelope out = Inr e" "compatible_response r out e (content_sha256 e)"
    and k: "build_response_idempotency_key (out_message_id out) = Inr (r_idempotency_key r)"
    and r: "r \<in> set (responses db)" and d: "require_compatible_delivery d tg (target_key tg) = Inr ()"
    by (auto simp: saved_as_def)
  have "response_get_by_idempotency_key (r_idempotency_key r) db = Some r"
    unfolding response_get_by_idempotency_key_def
    by (rule lookup_by_distinct [OF response_table_okD(3) [OF response_invD(1) [OF inv]] r])
  with e k d saved_as_find_delivery [OF inv s] show ?thesis
    by (simp add: save_generated_def resume_existing_def require_compatible_response_def Let_def)
qed

lemma saved_as_extends:
  assumes "saved_as out tg r d u" and "response_extends u v"
  obtains r' d' where "saved_as out tg r' d' v" "response_identity r' = response_identity r"
    "delivery_identity d' = delivery_identity d"
proof -
  from assms(1) have rd: "r \<in> set (responses u)" "d \<in> set (deliveries u)" by (auto simp: saved_as_def)
  obtain r' where r': "r' \<in> set (responses v)" "response_identity r' = response_identity r"
    using response_extends_response [OF assms(2) rd(1)] by blast
  obtain d' where d': "d' \<in> set (deliveries v)" "delivery_identity d' = delivery_identity d"
    using response_extends_delivery [OF assms(2) rd(2)] by blast
  have "r_idempotency_key r' = r_idempotency_key r" "r_response_id r' = r_response_id r"
    using r'(2) by (auto simp: response_identity_def)
  moreover have "require_compatible_delivery d' tg k = Inr u \<longleftrightarrow> require_compatible_delivery d tg k = Inr u"
    "o_response_id d' = o_response_id d" for k u
    using d'(2) by (auto simp: delivery_identity_def require_compatible_delivery_Inr)
  ultimately have "saved_as out tg r' d' v"
    using assms(1) r' d'(1) compatible_response_identity [OF r'(2)] by (auto simp: saved_as_def)
  with r' d' that show ?thesis by blast
qed

lemma map_stored_part_records:
  "map stored_part (part_records ps) = map expected_part ps"
proof -
  have "stored_part (part_record i p) = expected_part p" for i p by (cases p) auto
  then have "map stored_part (map (\<lambda>(i, p). part_record i p) (enumerate n ps)) = map expected_part ps" for n
    by (induction ps arbitrary: n) auto
  then show ?thesis by (simp only: part_records_def)
qed

lemma new_response_compatible: "compatible_response (new_response ck k out e sha) out e sha"
  by (simp add: compatible_response_def new_response_def map_stored_part_records)

lemma insert_response_Some:
  "insert_response r db = Some db' \<Longrightarrow> response_table_ok (responses db @ [r]) \<and> db' = db\<lparr>responses := responses db @ [r]\<rparr>"
  by (auto simp: insert_response_def split: if_splits)

lemma insert_delivery_Some:
  "insert_delivery d db = Some db' \<Longrightarrow>
     delivery_table_ok (deliveries db @ [d]) \<and> o_response_id d \<in> r_response_id ` set (responses db)
     \<and> db' = db\<lparr>deliveries := deliveries db @ [d], delivery_seq := delivery_seq db + 1\<rparr>"
  by (auto simp: insert_delivery_def split: if_splits)

lemma new_delivery_sel [simp]:
  "o_id (new_delivery ck i rid k tg tk) = i" "o_response_id (new_delivery ck i rid k tg tk) = rid"
  "o_idempotency_key (new_delivery ck i rid k tg tk) = k"
  "o_status (new_delivery ck i rid k tg tk) = O_QUEUED" "o_channel (new_delivery ck i rid k tg tk) = tg_channel tg"
  "o_target_key (new_delivery ck i rid k tg tk) = tk" "o_next_part_ordinal (new_delivery ck i rid k tg tk) = 0"
  "o_claim_token (new_delivery ck i rid k tg tk) = None" "o_attempt_count (new_delivery ck i rid k tg tk) = 0"
  "require_compatible_delivery (new_delivery ck i rid k tg tk) tg tk = Inr ()"
  by (simp_all add: new_delivery_def require_compatible_delivery_def)

lemma insert_delivery_inv:
  assumes "response_inv db" and "insert_delivery (new_delivery ck (delivery_seq db) rid k tg tk) db = Some db'"
  shows "response_inv db' \<and> response_extends db db'"
  using insert_delivery_Some [OF assms(2)] assms(1)
  by (force simp: response_inv_def response_extends_def list_all_iff)

text \<open>Interference that keeps the invariant and never drops or rewrites what is stored.\<close>

definition response_safe :: "(gateway_db \<Rightarrow> gateway_db) \<Rightarrow> bool" where
  "response_safe race \<longleftrightarrow> (\<forall>u. response_inv u \<longrightarrow> response_inv (race u) \<and> response_extends u (race u))"

lemma response_safeD:
  "response_safe race \<Longrightarrow> response_inv u \<Longrightarrow> response_inv (race u)"
  "response_safe race \<Longrightarrow> response_inv u \<Longrightarrow> response_extends u (race u)"
  by (auto simp: response_safe_def)

lemma response_safe_id [simp]: "response_safe id"
  by (simp add: response_safe_def)

lemma create_missing_delivery_ok:
  assumes inv: "response_inv db" and safe: "response_safe race"
    and r: "r \<in> set (responses db)" and e: "response_envelope out = Inr e"
    and k: "build_response_idempotency_key (out_message_id out) = Inr (r_idempotency_key r)"
    and c: "compatible_response r out e (content_sha256 e)"
    and none: "find_delivery (r_response_id r) tg db = None"
    and run: "create_missing_delivery race ck r out e (content_sha256 e) tg (target_key tg) dk db = (res, db')"
  shows "response_inv db' \<and> response_extends db db'
    \<and> (\<forall>r' d c. res = Inr (r', d, c) \<longrightarrow> saved_as out tg r' d db')"
proof (cases "lookup_by o_response_id (r_response_id r) (deliveries db)")
  case (Some d)
  have "require_compatible_delivery d tg (target_key tg) \<noteq> Inr u" for u
  proof
    assume "require_compatible_delivery d tg (target_key tg) = Inr u"
    with lookup_by_Some [OF Some] have d: "d \<in> set (deliveries db)"
      "(\<lambda>d. (o_response_id d, o_channel d, o_target_key d)) d = (r_response_id r, tg_channel tg, target_key tg)"
      by (auto simp: require_compatible_delivery_Inr)
    from none show False unfolding find_delivery_def lookup_by_None using d by force
  qed
  with Some run inv show ?thesis
    by (cases "require_compatible_delivery d tg (target_key tg)")
      (auto simp: create_missing_delivery_def)
next
  case None
  let ?u = "race db"
  note u = response_safeD [OF safe inv]
  let ?d = "new_delivery ck (delivery_seq ?u) (r_response_id r) dk tg (target_key tg)"
  obtain x where x: "x \<in> set (responses ?u)" "response_identity x = response_identity r"
    using response_extends_response [OF u(2) r] by blast
  then have xid: "r_response_id x = r_response_id r" "r_idempotency_key x = r_idempotency_key r"
    by (auto simp: response_identity_def)
  note Du = response_table_okD [OF response_invD(1) [OF u(1)]]
  have cx: "compatible_response x out e (content_sha256 e)" using c compatible_response_identity [OF x(2)] by simp
  show ?thesis
  proof (cases "insert_delivery ?d ?u")
    case (Some v)
    have "response_get (r_response_id r) v = Some x"
      using insert_delivery_Some [OF Some] lookup_by_distinct [OF Du(2) x(1)] xid
      by (auto simp: response_get_def)
    with None Some run have rv: "res = Inr (x, ?d, True)" "db' = v"
      by (auto simp: create_missing_delivery_def Let_def)
    have "saved_as out tg x ?d v"
      using insert_delivery_Some [OF Some] x xid e k cx by (auto simp: saved_as_def)
    with rv insert_delivery_inv [OF u(1) Some] response_extends_trans [OF u(2)] show ?thesis by auto
  next
    case none2: None
    have "response_get_by_idempotency_key (r_idempotency_key r) ?u = Some x"
      using lookup_by_distinct [OF Du(3) x(1)] xid by (auto simp: response_get_by_idempotency_key_def)
    with None none2 run cx have rv: "(res, db') = (case find_delivery (r_response_id x) tg ?u of
        None \<Rightarrow> (Inl IntegrityError, ?u)
      | Some d \<Rightarrow> (map_sum id (\<lambda>_. (x, d, False)) (require_compatible_delivery d tg (target_key tg)), ?u))"
      by (simp add: create_missing_delivery_def Let_def require_compatible_response_def)
    show ?thesis
    proof (cases "find_delivery (r_response_id x) tg ?u")
      case None
      with rv u show ?thesis by auto
    next
      case (Some d)
      with rv u x(1) e k cx xid find_delivery_Some [OF Some] show ?thesis
        by (cases "require_compatible_delivery d tg (target_key tg)") (auto simp: saved_as_def)
    qed
  qed
qed

lemma resume_existing_ok:
  assumes inv: "response_inv db" and safe: "response_safe race"
    and r: "response_get_by_idempotency_key key db = Some r" and e: "response_envelope out = Inr e"
    and k: "build_response_idempotency_key (out_message_id out) = Inr key"
    and run: "resume_existing race ck r out e (content_sha256 e) tg (target_key tg) dk db = (res, db')"
  shows "response_inv db' \<and> response_extends db db'
    \<and> (\<forall>r' d c. res = Inr (r', d, c) \<longrightarrow> saved_as out tg r' d db')"
proof -
  from r have r': "r \<in> set (responses db)" "r_idempotency_key r = key"
    by (auto simp: response_get_by_idempotency_key_def dest: lookup_by_Some)
  show ?thesis
  proof (cases "compatible_response r out e (content_sha256 e)")
    case False
    with run inv show ?thesis by (auto simp: resume_existing_def require_compatible_response_def)
  next
    case c: True
    show ?thesis
    proof (cases "find_delivery (r_response_id r) tg db")
      case None
      with run c have "create_missing_delivery race ck r out e (content_sha256 e) tg (target_key tg) dk db = (res, db')"
        by (simp add: resume_existing_def require_compatible_response_def)
      with create_missing_delivery_ok [OF inv safe r'(1) e _ c None] k r'(2) show ?thesis by blast
    next
      case (Some d)
      with run c inv r' e k find_delivery_Some [OF Some] show ?thesis
        by (cases "require_compatible_delivery d tg (target_key tg)")
          (auto simp: resume_existing_def require_compatible_response_def saved_as_def)
    qed
  qed
qed

lemma save_new_ok:
  assumes inv: "response_inv db"
    and ins: "Option.bind (insert_response (new_response ck key out e (content_sha256 e)) db)
      (insert_delivery (new_delivery ck (delivery_seq db) (env_response_id e) dk tg (target_key tg))) = Some db'"
    and e: "response_envelope out = Inr e"
    and k: "build_response_idempotency_key (out_message_id out) = Inr key"
  shows "response_inv db' \<and> response_extends db db'
    \<and> saved_as out tg (new_response ck key out e (content_sha256 e))
        (new_delivery ck (delivery_seq db) (env_response_id e) dk tg (target_key tg)) db'"
proof -
  let ?r = "new_response ck key out e (content_sha256 e)"
  let ?d = "new_delivery ck (delivery_seq db) (env_response_id e) dk tg (target_key tg)"
  from ins obtain u where u: "insert_response ?r db = Some u" "insert_delivery ?d u = Some db'"
    by (auto simp: bind_eq_Some_conv)
  from insert_response_Some [OF u(1)] have u': "response_table_ok (responses db @ [?r])"
    "u = db\<lparr>responses := responses db @ [?r]\<rparr>" by auto
  with inv have "response_inv u" "response_extends db u"
    by (auto simp: response_inv_def response_extends_def list_all_iff)
  moreover have "delivery_seq db = delivery_seq u" using u'(2) by simp
  ultimately have "response_inv db'" "response_extends db db'"
    using insert_delivery_inv [of u ck "env_response_id e" dk tg "target_key tg" db'] u(2) response_extends_trans by auto
  moreover have "r_idempotency_key ?r = key" "r_response_id ?r = env_response_id e"
    by (simp_all add: new_response_def)
  ultimately show ?thesis
    using insert_delivery_Some [OF u(2)] u'(2) e k new_response_compatible [of ck key out e "content_sha256 e"]
    by (auto simp: saved_as_def)
qed

text \<open>The contract of a save: it keeps what is stored, and on success the outcome is stored.\<close>

lemma save_generated_ok:
  assumes inv: "response_inv db" and safe: "response_safe race" "response_safe race2"
    and run: "save_generated race race2 ck out tg db = (res, db')"
  shows "response_inv db' \<and> response_extends db db'
    \<and> (\<forall>r d c. res = Inr (r, d, c) \<longrightarrow> saved_as out tg r d db')"
proof (cases "response_envelope out")
  case (Inl x)
  with run inv show ?thesis by (auto simp: save_generated_def)
next
  case e: (Inr e)
  show ?thesis
  proof (cases "build_response_idempotency_key (out_message_id out)")
    case (Inl x)
    with e run inv show ?thesis by (auto simp: save_generated_def)
  next
    case k: (Inr key)
    note run' = run [unfolded save_generated_def e k checked_simps Let_def]
    let ?u = "race db"
    note u = response_safeD [OF safe(1) inv]
    show ?thesis
    proof (cases "response_get_by_idempotency_key key db")
      case (Some r)
      with run' resume_existing_ok [OF inv safe(2) Some e k] show ?thesis by auto
    next
      case None
      note run'' = run' [unfolded None option.case]
      show ?thesis
      proof (cases "Option.bind (insert_response (new_response ck key out e (content_sha256 e)) ?u)
          (insert_delivery (new_delivery ck (delivery_seq ?u) (env_response_id e)
             (delivery_idempotency_key key (target_key tg)) tg (target_key tg)))")
        case (Some v)
        with run'' save_new_ok [OF u(1) Some e k] response_extends_trans [OF u(2)] show ?thesis by auto
      next
        case none2: None
        show ?thesis
        proof (cases "response_get_by_idempotency_key key ?u")
          case (Some r)
          with run'' none2 resume_existing_ok [OF u(1) safe(2) Some e k] response_extends_trans [OF u(2)]
          show ?thesis by auto
        next
          case None
          with run'' none2 u show ?thesis by auto
        qed
      qed
    qed
  qed
qed

lemma distinct_map_snoc:
  "distinct (map f xs) \<Longrightarrow> (\<And>x. x \<in> set xs \<Longrightarrow> f x \<noteq> f y) \<Longrightarrow> distinct (map f (xs @ [y]))"
  by (simp add: image_iff) metis

section \<open>A first save and a conflicting one\<close>

lemma validated_parts_ok:
  assumes "envelope_validate j = Some e"
  shows "list_all response_part_ok (part_records (env_parts e))" "env_parts e \<noteq> []"
proof -
  from assms obtain js where ps: "validate_parts js = Some (env_parts e)" and ne: "env_parts e \<noteq> []"
    unfolding envelope_validate_def by (auto split: if_splits option.splits json.splits)
  have part: "response_part_ok (part_record i p)" if p: "validate_part x = Some p" for x p i
  proof (cases p)
    case (TextPart t)
    with p show ?thesis by (auto simp: validate_part_def split: option.splits if_splits)
  next
    case (ArtifactRefPart a)
    with p obtain w where "validate_artifact_id w = Some a"
      by (auto simp: validate_part_def split: option.splits if_splits)
    then have "a = py_strip w" "py_strip w \<noteq> []"
      unfolding validate_artifact_id_def Let_def by (simp_all split: if_splits)
    then have "nonblank a" by (simp add: nonblank_def)
    with ArtifactRefPart show ?thesis by (simp add: nonblank_sql_nonempty)
  qed
  have "\<forall>p\<in>set ps. \<forall>i. response_part_ok (part_record i p)" if "validate_parts js = Some ps" for js ps
    using that by (induction js arbitrary: ps) (auto simp del: response_part_ok.simps intro: part split: option.splits)
  with ps show "list_all response_part_ok (part_records (env_parts e))"
    by (auto simp: part_records_def list_all_iff in_set_enumerate_eq simp del: response_part_ok.simps)
  show "env_parts e \<noteq> []" by (rule ne)
qed

lemma part_records_ordinals: "map p_ordinal (part_records ps) = [0..<length ps]"
proof -
  have "p_ordinal \<circ> (\<lambda>(i, p). part_record i p) = fst"
  proof
    fix x :: "nat \<times> ResponsePart"
    show "(p_ordinal \<circ> (\<lambda>(i, p). part_record i p)) x = fst x" by (cases x; cases "snd x") auto
  qed
  then have "map p_ordinal (part_records ps) = map fst (enumerate 0 ps)"
    by (simp only: part_records_def map_map)
  then show ?thesis by simp
qed

lemma response_key_nonempty: "build_response_idempotency_key m = Inr k \<Longrightarrow> sql_nonempty k"
  by (auto simp: build_response_idempotency_key_def positive_message_id_def sql_nonempty_def
      RESPONSE_IDEMPOTENCY_NAMESPACE_def split: if_splits)

lemma delivery_key_nonempty: "sql_nonempty (delivery_idempotency_key a b)"
  by (simp add: delivery_idempotency_key_def sql_nonempty_def DELIVERY_IDEMPOTENCY_NAMESPACE_def)

lemma new_response_row_ok:
  assumes "envelope_validate j = Some e" "build_response_idempotency_key m = Inr k"
  shows "response_row_ok (new_response ck k out e (content_sha256 e))"
  using validated_parts_ok [OF assms(1)] response_key_nonempty [OF assms(2)]
  by (simp add: response_row_ok_def new_response_def null_or_nonempty_def part_records_ordinals content_sha256_def)

lemma new_delivery_row_ok:
  "delivery_row_ok (new_delivery ck i rid (delivery_idempotency_key a b) tg (target_key tg))"
  using delivery_key_nonempty [of a b]
  by (simp add: delivery_row_ok_def new_delivery_def null_or_nonempty_def target_key_def)

text \<open>
  A first save for a message succeeds when the response id is new, the rows it refers to
  exist and the derived delivery key is not taken.
\<close>

lemma save_generated_first:
  assumes inv: "response_inv db"
    and out: "out_response out = Some e" "envelope_validate j = Some e"
    and k: "build_response_idempotency_key (out_message_id out) = Inr key"
    and new: "\<And>r. r \<in> set (responses db) \<Longrightarrow> r_message_id r \<noteq> out_message_id out
        \<and> r_idempotency_key r \<noteq> key \<and> r_response_id r \<noteq> env_response_id e"
    and fk: "response_foreign_keys_ok db (new_response ck key out e (content_sha256 e))"
    and dk: "\<And>d. d \<in> set (deliveries db) \<Longrightarrow> o_idempotency_key d \<noteq> delivery_idempotency_key key (target_key tg)"
  defines "r \<equiv> new_response ck key out e (content_sha256 e)"
    and "d \<equiv> new_delivery ck (delivery_seq db) (env_response_id e)
               (delivery_idempotency_key key (target_key tg)) tg (target_key tg)"
  shows "save_generated id id ck out tg db =
    (Inr (r, d, True), db\<lparr>responses := responses db @ [r], deliveries := deliveries db @ [d],
                          delivery_seq := delivery_seq db + 1\<rparr>)"
proof -
  have rsel: "r_response_id r = env_response_id e" "r_idempotency_key r = key" "r_message_id r = out_message_id out"
    by (simp_all add: r_def new_response_def)
  note R = response_table_okD [OF response_invD(1) [OF inv]]
    and D = delivery_table_okD [OF response_invD(2) [OF inv]]
  have "response_row_ok r" unfolding r_def by (rule new_response_row_ok [OF out(2) k])
  then have "response_table_ok (responses db @ [r])"
    unfolding response_table_ok_def using R(1) new
    by (intro conjI distinct_map_snoc R(2-4)) (auto simp: list_all_iff rsel)
  then have ir: "insert_response r db = Some (db\<lparr>responses := responses db @ [r]\<rparr>)"
    using fk by (simp add: insert_response_def r_def)
  have dnew: "(o_response_id x, o_channel x, o_target_key x) \<noteq> (o_response_id d, o_channel d, o_target_key d)"
    if "x \<in> set (deliveries db)" for x
    using response_invD(4) [OF inv that] new by (auto simp: d_def)
  have "delivery_table_ok (deliveries db @ [d])"
    unfolding delivery_table_ok_def
  proof (intro conjI distinct_map_snoc D(2-4))
    show "list_all delivery_row_ok (deliveries db @ [d])"
      using D(1) new_delivery_row_ok [of ck "delivery_seq db" "env_response_id e" key "target_key tg" tg]
      by (simp add: list_all_iff d_def)
  next
    fix x assume "x \<in> set (deliveries db)"
    then show "o_id x \<noteq> o_id d" "o_idempotency_key x \<noteq> o_idempotency_key d"
      "(o_response_id x, o_channel x, o_target_key x) \<noteq> (o_response_id d, o_channel d, o_target_key d)"
      using response_invD(3) [OF inv, of x] dk dnew by (auto simp: d_def)
  qed
  then have id: "insert_delivery d (db\<lparr>responses := responses db @ [r]\<rparr>) =
      Some (db\<lparr>responses := responses db @ [r], deliveries := deliveries db @ [d], delivery_seq := delivery_seq db + 1\<rparr>)"
    using rsel by (simp add: insert_delivery_def d_def)
  have "response_get_by_idempotency_key key db = None"
    using new by (auto simp: response_get_by_idempotency_key_def lookup_by_None)
  moreover have "response_envelope out = Inr e" by (simp add: response_envelope_def out(1))
  ultimately show ?thesis
    using k ir id by (simp add: save_generated_def Let_def r_def d_def)
qed

lemma save_generated_conflict:
  assumes inv: "response_inv db" and e: "response_envelope out = Inr e"
    and k: "build_response_idempotency_key (out_message_id out) = Inr (r_idempotency_key r)"
    and r: "r \<in> set (responses db)" "\<not> compatible_response r out e (content_sha256 e)"
  shows "save_generated race race2 ck out tg db = (Inl (ResponseConflictError (r_idempotency_key r)), db)"
proof -
  have "response_get_by_idempotency_key (r_idempotency_key r) db = Some r"
    unfolding response_get_by_idempotency_key_def
    by (rule lookup_by_distinct [OF response_table_okD(3) [OF response_invD(1) [OF inv]] r(1)])
  with e k r(2) show ?thesis
    by (simp add: save_generated_def Let_def resume_existing_def require_compatible_response_def)
qed

end
