(* ===== verification/Delivery_Outbox.thy ===== *)
theory Delivery_Outbox
  imports Response_Store
begin

text \<open>
  The delivery outbox (\<open>delivery/models.py\<close>, \<open>delivery/outbox.py\<close>): claiming a queued
  delivery, recovering stale claims, one attempt per send, one receipt per delivered part,
  and the three ways an attempt can end. Every operation is one transaction over the
  delivery, its response, its attempts and its receipts.

  \<open>race\<close> is what other sessions commit between the reads of an operation and its first
  update. The local view of a delivery (\<open>local_ok\<close>) is the contract the operations keep:
  the receipts are those of the parts already passed, in order, at most one attempt is in
  flight, and the response mirrors the status of its delivery.
\<close>

section \<open>Constraints and statements\<close>

definition attempt_table_ok :: "DeliveryAttempt list \<Rightarrow> bool" where
  "attempt_table_ok rows =
     (list_all (\<lambda>a. a_part_ordinal a \<ge> 0 \<and> a_attempt_number a > 0) rows \<and> distinct (map a_id rows)
      \<and> distinct (map (\<lambda>a. (a_delivery_id a, a_part_ordinal a, a_attempt_number a)) rows))"

definition receipt_table_ok :: "DeliveryReceipt list \<Rightarrow> bool" where
  "receipt_table_ok rows =
     (list_all (\<lambda>c. c_part_ordinal c \<ge> 0) rows
      \<and> distinct (map (\<lambda>c. (c_delivery_id c, c_part_ordinal c)) rows) \<and> distinct (map c_attempt_id rows))"

definition receipt_foreign_keys_ok :: "gateway_db \<Rightarrow> DeliveryReceipt \<Rightarrow> bool" where
  "receipt_foreign_keys_ok db c =
     (list_ex (\<lambda>d. o_id d = c_delivery_id c \<and> o_response_id d = c_response_id c) (deliveries db)
      \<and> list_ex (\<lambda>a. a_id a = c_attempt_id c \<and> a_delivery_id a = c_delivery_id c
            \<and> a_part_ordinal a = c_part_ordinal c) (attempts db)
      \<and> list_ex (\<lambda>r. r_response_id r = c_response_id c
            \<and> list_ex (\<lambda>p. int (p_ordinal p) = c_part_ordinal c) (r_parts r)) (responses db))"

definition delivery_update ::
  "(DeliveryOutboxRecord \<Rightarrow> bool) \<Rightarrow> (DeliveryOutboxRecord \<Rightarrow> DeliveryOutboxRecord) \<Rightarrow> gateway_db \<Rightarrow> nat outcome" where
  "delivery_update p f db =
     (let rows = update_where p f (deliveries db) in
      if delivery_table_ok rows then (Inr (rowcount p (deliveries db)), db\<lparr>deliveries := rows\<rparr>)
      else (Inl IntegrityError, db))"

definition response_update ::
  "(ResponseRecord \<Rightarrow> bool) \<Rightarrow> (ResponseRecord \<Rightarrow> ResponseRecord) \<Rightarrow> gateway_db \<Rightarrow> nat outcome" where
  "response_update p f db =
     (let rows = update_where p f (responses db) in
      if response_table_ok rows then (Inr (rowcount p (responses db)), db\<lparr>responses := rows\<rparr>)
      else (Inl IntegrityError, db))"

definition delivery_get :: "int \<Rightarrow> gateway_db \<Rightarrow> DeliveryOutboxRecord option" where
  "delivery_get i db = lookup_by o_id i (deliveries db)"

definition get_part :: "string \<Rightarrow> int \<Rightarrow> gateway_db \<Rightarrow> ResponsePartRecord option" where
  "get_part rid ordinal db =
     (case response_get rid db of
        None \<Rightarrow> None
      | Some r \<Rightarrow> lookup_by (\<lambda>p. int (p_ordinal p)) ordinal (r_parts r))"

definition get_receipt :: "int \<Rightarrow> int \<Rightarrow> gateway_db \<Rightarrow> DeliveryReceipt option" where
  "get_receipt i ordinal db = lookup_by (\<lambda>c. (c_delivery_id c, c_part_ordinal c)) (i, ordinal) (receipts db)"

fun delivery_status_value :: "DeliveryStatus \<Rightarrow> string" where
  "delivery_status_value O_QUEUED = ''queued''"
| "delivery_status_value O_DELIVERING = ''delivering''"
| "delivery_status_value O_DELIVERED = ''delivered''"
| "delivery_status_value O_FAILED = ''failed''"
| "delivery_status_value O_UNCERTAIN = ''uncertain''"

fun response_status_value :: "ResponseStatus \<Rightarrow> string" where
  "response_status_value R_QUEUED = ''queued''"
| "response_status_value R_GENERATED = ''generated''"
| "response_status_value R_DELIVERING = ''delivering''"
| "response_status_value R_DELIVERED = ''delivered''"
| "response_status_value R_FAILED = ''failed''"
| "response_status_value R_UNCERTAIN = ''uncertain''"

definition delivery_required_string :: "string \<Rightarrow> string \<Rightarrow> nat \<Rightarrow> gateway_error + string" where
  "delivery_required_string value field_name max_length =
     (if \<not> nonblank value then Inl (ValueError (field_name @ '' must not be empty''))
      else
        let normalized = py_strip value in
        if length normalized > max_length then Inl (ValueError (field_name @ '' is too long''))
        else Inr normalized)"

definition aware_utc :: "py_datetime \<Rightarrow> string \<Rightarrow> gateway_error + instant" where
  "aware_utc value field_name =
     (case value of
        Aware t \<Rightarrow> Inr t
      | Naive _ \<Rightarrow> Inl (ValueError (field_name @ '' must be timezone-aware'')))"

definition now_or_clock :: "clocks \<Rightarrow> py_datetime option \<Rightarrow> py_datetime" where
  "now_or_clock ck now = (case now of Some t \<Rightarrow> t | None \<Rightarrow> Aware (wall_now ck))"

section \<open>Claiming\<close>

definition delivery_claimable :: "string \<Rightarrow> instant \<Rightarrow> DeliveryOutboxRecord \<Rightarrow> bool" where
  "delivery_claimable channel t d = (o_status d = O_QUEUED \<and> o_channel d = channel \<and> o_available_at d \<le> t)"

definition delivery_order :: "DeliveryOutboxRecord \<Rightarrow> int \<times> int \<times> int" where
  "delivery_order d = (o_available_at d, o_created_at d, o_id d)"

definition delivery_candidate :: "string \<Rightarrow> instant \<Rightarrow> gateway_db \<Rightarrow> int option" where
  "delivery_candidate channel t db =
     map_option o_id (select_min delivery_order (filter (delivery_claimable channel t) (deliveries db)))"

definition delivery_claim_values :: "string \<Rightarrow> instant \<Rightarrow> DeliveryOutboxRecord \<Rightarrow> DeliveryOutboxRecord" where
  "delivery_claim_values token t d =
     d\<lparr>o_status := O_DELIVERING, o_attempt_count := o_attempt_count d + 1, o_claim_token := Some token,
       o_claimed_at := Some t, o_completed_at := None, o_last_error_code := None, o_updated_at := t\<rparr>"

definition response_claim_values :: "instant \<Rightarrow> ResponseRecord \<Rightarrow> ResponseRecord" where
  "response_claim_values t r =
     r\<lparr>r_status := R_DELIVERING,
       r_delivering_at := (case r_delivering_at r of Some x \<Rightarrow> Some x | None \<Rightarrow> Some t),
       r_last_error_code := None, r_updated_at := t\<rparr>"

text \<open>
  One round of the loop: \<open>None\<close> when another session won, otherwise the claimed delivery
  or the exception that leaves the loop.
\<close>

definition delivery_claim_attempt ::
  "string \<Rightarrow> string \<Rightarrow> instant \<Rightarrow> int \<Rightarrow> gateway_db \<Rightarrow> (gateway_error + DeliveryOutboxRecord) option \<times> gateway_db"
where
  "delivery_claim_attempt channel token t i db =
     (case delivery_update (\<lambda>d. o_id d = i \<and> delivery_claimable channel t d) (delivery_claim_values token t) db of
        (Inl e, _) \<Rightarrow> (Some (Inl e), db)
      | (Inr n, db1) \<Rightarrow>
          if n \<noteq> 1 then (None, db)
          else
            (case delivery_get i db1 of
               None \<Rightarrow> (Some (Inl (DeliveryStateConflictError i ''generated'')), db)
             | Some d \<Rightarrow>
                 (case response_update (\<lambda>r. r_response_id r = o_response_id d
                            \<and> r_status r \<in> {R_GENERATED, R_DELIVERING}) (response_claim_values t) db1 of
                    (Inl e, _) \<Rightarrow> (Some (Inl e), db)
                  | (Inr m, db2) \<Rightarrow>
                      if m \<noteq> 1 then (Some (Inl (DeliveryStateConflictError i (response_status_value R_GENERATED))), db)
                      else (Some (Inr d), db2))))"

definition DELIVERY_CLAIM_ROUNDS :: nat where "DELIVERY_CLAIM_ROUNDS = 8"
definition DELIVERY_MAX_CLAIM_TOKEN_LENGTH :: nat where "DELIVERY_MAX_CLAIM_TOKEN_LENGTH = 255"
definition DELIVERY_MAX_ERROR_CODE_LENGTH :: nat where "DELIVERY_MAX_ERROR_CODE_LENGTH = 128"

definition delivery_claim_next ::
  "(nat \<Rightarrow> gateway_db \<Rightarrow> gateway_db) \<Rightarrow> clocks \<Rightarrow> string \<Rightarrow> string \<Rightarrow> py_datetime option \<Rightarrow> gateway_db
     \<Rightarrow> DeliveryOutboxRecord option outcome"
where
  "delivery_claim_next race ck channel claim_token now db =
     checked (delivery_required_string channel ''channel'' 64) db (\<lambda>channel'.
     checked (delivery_required_string claim_token ''claim_token'' DELIVERY_MAX_CLAIM_TOKEN_LENGTH) db (\<lambda>token.
     checked (aware_utc (now_or_clock ck now) ''now'') db (\<lambda>t.
       case cas_loop (map race [0..<DELIVERY_CLAIM_ROUNDS]) (delivery_candidate channel' t)
              (delivery_claim_attempt channel' token t) db of
         (None, db') \<Rightarrow> (Inr None, db')
       | (Some (Inl e), db') \<Rightarrow> (Inl e, db')
       | (Some (Inr d), db') \<Rightarrow> (Inr (Some d), db'))))"

section \<open>Stale claims\<close>

text \<open>\<open>_active_attempt\<close>: the newest attempt of the part that is still in flight.\<close>

definition active_attempt :: "int \<Rightarrow> int \<Rightarrow> gateway_db \<Rightarrow> DeliveryAttempt option" where
  "active_attempt i ordinal db =
     select_min (\<lambda>a. - a_id a)
       (filter (\<lambda>a. a_delivery_id a = i \<and> a_part_ordinal a = ordinal \<and> a_status a = A_DELIVERING) (attempts db))"

definition CLAIM_EXPIRED_ERROR :: string where "CLAIM_EXPIRED_ERROR = ''delivery_claim_expired''"

definition stale_where :: "string \<Rightarrow> instant \<Rightarrow> DeliveryOutboxRecord \<Rightarrow> bool" where
  "stale_where channel cutoff d =
     (o_channel d = channel \<and> o_status d = O_DELIVERING \<and> o_claim_token d \<noteq> None \<and> sql_le (o_claimed_at d) cutoff)"

definition stale_values :: "bool \<Rightarrow> instant \<Rightarrow> DeliveryOutboxRecord \<Rightarrow> DeliveryOutboxRecord" where
  "stale_values in_flight t d =
     d\<lparr>o_status := (if in_flight then O_UNCERTAIN else O_QUEUED), o_available_at := t,
       o_claim_token := None, o_claimed_at := None,
       o_completed_at := (if in_flight then Some t else None),
       o_last_error_code := (if in_flight then Some CLAIM_EXPIRED_ERROR else None),
       o_updated_at := t\<rparr>"

definition attempt_update :: "(DeliveryAttempt \<Rightarrow> bool) \<Rightarrow> (DeliveryAttempt \<Rightarrow> DeliveryAttempt) \<Rightarrow> gateway_db \<Rightarrow> nat outcome" where
  "attempt_update p f db =
     (let rows = update_where p f (attempts db) in
      if attempt_table_ok rows then (Inr (rowcount p (attempts db)), db\<lparr>attempts := rows\<rparr>)
      else (Inl IntegrityError, db))"

definition attempt_finish_values :: "DeliveryAttemptStatus \<Rightarrow> string \<Rightarrow> instant \<Rightarrow> DeliveryAttempt \<Rightarrow> DeliveryAttempt" where
  "attempt_finish_values s code t a = a\<lparr>a_status := s, a_error_code := Some code, a_completed_at := Some t\<rparr>"

definition response_stale_values :: "bool \<Rightarrow> int \<Rightarrow> instant \<Rightarrow> ResponseRecord \<Rightarrow> ResponseRecord" where
  "response_stale_values in_flight next_part t r =
     (if in_flight
      then r\<lparr>r_status := R_UNCERTAIN, r_uncertain_at := Some t,
             r_last_error_code := Some CLAIM_EXPIRED_ERROR, r_updated_at := t\<rparr>
      else r\<lparr>r_status := (if next_part = 0 then R_GENERATED else R_DELIVERING),
             r_last_error_code := None, r_updated_at := t\<rparr>)"

text \<open>One delivery of the loop: recovered, skipped (another session moved it), or an exception.\<close>

definition recover_stale_delivery ::
  "(gateway_db \<Rightarrow> gateway_db) \<Rightarrow> string \<Rightarrow> instant \<Rightarrow> instant \<Rightarrow> int \<Rightarrow> gateway_db \<Rightarrow> DeliveryOutboxRecord option outcome"
where
  "recover_stale_delivery race channel cutoff t i db =
     (case delivery_get i db of
        None \<Rightarrow> (Inr None, db)
      | Some d \<Rightarrow>
        (case o_claim_token d of
           None \<Rightarrow> (Inr None, db)
         | Some token \<Rightarrow>
             if o_status d \<noteq> O_DELIVERING then (Inr None, db)
             else
               (let active = active_attempt (o_id d) (o_next_part_ordinal d) db;
                    in_flight = (active \<noteq> None);
                    db0 = race db in
                case delivery_update (\<lambda>x. o_id x = o_id d \<and> o_channel x = channel \<and> o_status x = O_DELIVERING
                         \<and> o_claim_token x = Some token \<and> sql_le (o_claimed_at x) cutoff)
                       (stale_values in_flight t) db0 of
                  (Inl e, _) \<Rightarrow> (Inl e, db0)
                | (Inr n, db1) \<Rightarrow>
                    if n \<noteq> 1 then (Inr None, db0)
                    else
                      (case (case active of
                               None \<Rightarrow> (Inr 1, db1)
                             | Some a \<Rightarrow> attempt_update (\<lambda>x. a_id x = a_id a \<and> a_status x = A_DELIVERING)
                                          (attempt_finish_values A_UNCERTAIN CLAIM_EXPIRED_ERROR t) db1) of
                         (Inl e, _) \<Rightarrow> (Inl e, db0)
                       | (Inr m, db2) \<Rightarrow>
                           if m \<noteq> 1 then (Inr None, db0)
                           else
                             (case response_update (\<lambda>r. r_response_id r = o_response_id d \<and> r_status r = R_DELIVERING)
                                     (response_stale_values in_flight (o_next_part_ordinal d) t) db2 of
                                (Inl e, _) \<Rightarrow> (Inl e, db0)
                              | (Inr k, db3) \<Rightarrow>
                                  if k \<noteq> 1
                                  then (Inl (DeliveryStateConflictError i (response_status_value R_DELIVERING)), db0)
                                  else
                                    (case delivery_get i db3 of
                                       None \<Rightarrow> (Inl (DeliveryStateConflictError i ''present''), db3)
                                     | Some d' \<Rightarrow> (Inr (Some d'), db3)))))))"

fun recover_stale_loop ::
  "(gateway_db \<Rightarrow> gateway_db) \<Rightarrow> string \<Rightarrow> instant \<Rightarrow> instant \<Rightarrow> int list \<Rightarrow> gateway_db \<Rightarrow> DeliveryOutboxRecord list outcome"
where
  "recover_stale_loop race channel cutoff t [] db = (Inr [], db)"
| "recover_stale_loop race channel cutoff t (i # ids) db =
     (case recover_stale_delivery race channel cutoff t i db of
        (Inl e, db') \<Rightarrow> (Inl e, db')
      | (Inr d, db') \<Rightarrow>
          (case recover_stale_loop race channel cutoff t ids db' of
             (Inl e, db'') \<Rightarrow> (Inl e, db'')
           | (Inr ds, db'') \<Rightarrow> (Inr (case d of None \<Rightarrow> ds | Some x \<Rightarrow> x # ds), db'')))"

definition stale_order :: "DeliveryOutboxRecord \<Rightarrow> int \<times> int" where
  "stale_order d = (case o_claimed_at d of None \<Rightarrow> (0, o_id d) | Some t \<Rightarrow> (t, o_id d))"

definition recover_stale_claims ::
  "(gateway_db \<Rightarrow> gateway_db) \<Rightarrow> clocks \<Rightarrow> string \<Rightarrow> py_datetime \<Rightarrow> py_datetime option \<Rightarrow> gateway_db
     \<Rightarrow> DeliveryOutboxRecord list outcome"
where
  "recover_stale_claims race ck channel stale_before now db =
     checked (delivery_required_string channel ''channel'' 64) db (\<lambda>channel'.
     checked (aware_utc stale_before ''stale_before'') db (\<lambda>cutoff.
     checked (aware_utc (now_or_clock ck now) ''now'') db (\<lambda>t.
       if cutoff > t then (Inl (ValueError ''stale_before must not be later than now''), db)
       else recover_stale_loop race channel' cutoff t
              (map o_id (sort_key stale_order (filter (stale_where channel' cutoff) (deliveries db)))) db)))"

section \<open>Attempts\<close>

definition delivery_required :: "int \<Rightarrow> gateway_db \<Rightarrow> gateway_error + DeliveryOutboxRecord" where
  "delivery_required i db =
     (case delivery_get i db of
        None \<Rightarrow> Inl (DeliveryStateConflictError i ''present'')
      | Some d \<Rightarrow> Inr d)"

definition delivery_claimed :: "int \<Rightarrow> string \<Rightarrow> gateway_db \<Rightarrow> gateway_error + DeliveryOutboxRecord" where
  "delivery_claimed i claim_token db =
     (case delivery_required_string claim_token ''claim_token'' DELIVERY_MAX_CLAIM_TOKEN_LENGTH of
        Inl e \<Rightarrow> Inl e
      | Inr token \<Rightarrow>
        (case delivery_required i db of
           Inl e \<Rightarrow> Inl e
         | Inr d \<Rightarrow>
             if o_status d \<noteq> O_DELIVERING \<or> o_claim_token d \<noteq> Some token
             then Inl (DeliveryStateConflictError i (delivery_status_value O_DELIVERING))
             else Inr d))"

definition required_attempt :: "int \<Rightarrow> int \<Rightarrow> int \<Rightarrow> gateway_db \<Rightarrow> gateway_error + DeliveryAttempt" where
  "required_attempt attempt_id i ordinal db =
     (case lookup_by a_id attempt_id (attempts db) of
        None \<Rightarrow> Inl (DeliveryStateConflictError i ''matching_attempt'')
      | Some a \<Rightarrow>
          if a_delivery_id a \<noteq> i \<or> a_part_ordinal a \<noteq> ordinal
          then Inl (DeliveryStateConflictError i ''matching_attempt'')
          else Inr a)"

definition provider_idempotency_key :: "string \<Rightarrow> int \<Rightarrow> string" where
  "provider_idempotency_key delivery_key ordinal = delivery_key @ '':part:'' @ int_str ordinal"

definition next_attempt_number :: "int \<Rightarrow> int \<Rightarrow> gateway_db \<Rightarrow> int" where
  "next_attempt_number i ordinal db =
     foldr max (map a_attempt_number
        (filter (\<lambda>a. a_delivery_id a = i \<and> a_part_ordinal a = ordinal) (attempts db))) 0 + 1"

definition new_attempt :: "clocks \<Rightarrow> int \<Rightarrow> DeliveryOutboxRecord \<Rightarrow> int \<Rightarrow> int \<Rightarrow> DeliveryAttempt" where
  "new_attempt ck new_id d ordinal number =
     \<lparr>a_id = new_id, a_delivery_id = o_id d, a_part_ordinal = ordinal, a_attempt_number = number,
      a_provider_idempotency_key = provider_idempotency_key (o_idempotency_key d) ordinal,
      a_status = A_DELIVERING, a_provider_message_id = None, a_receipt_payload = None,
      a_error_code = None, a_started_at = db_now ck, a_completed_at = None\<rparr>"

definition start_attempt ::
  "(gateway_db \<Rightarrow> gateway_db) \<Rightarrow> clocks \<Rightarrow> int \<Rightarrow> string \<Rightarrow> int \<Rightarrow> gateway_db \<Rightarrow> DeliveryAttempt outcome"
where
  "start_attempt race ck i claim_token ordinal db =
     checked (delivery_claimed i claim_token db) db (\<lambda>d.
       if ordinal \<noteq> o_next_part_ordinal d
       then (Inl (DeliveryStateConflictError i (''next_part_'' @ int_str (o_next_part_ordinal d))), db)
       else
         (case active_attempt i ordinal db of
            Some a \<Rightarrow> (Inr a, db)
          | None \<Rightarrow>
            (let db1 = race db;
                 a = new_attempt ck (attempt_seq db1) d ordinal (next_attempt_number i ordinal db) in
             if attempt_table_ok (attempts db1 @ [a]) \<and> i \<in> o_id ` set (deliveries db1)
             then (Inr a, db1\<lparr>attempts := attempts db1 @ [a], attempt_seq := attempt_seq db1 + 1\<rparr>)
             else
               (case active_attempt i ordinal db1 of
                  Some b \<Rightarrow> (Inr b, db1)
                | None \<Rightarrow> (Inl IntegrityError, db1)))))"

definition part_delivered_values :: "bool \<Rightarrow> int \<Rightarrow> instant \<Rightarrow> DeliveryOutboxRecord \<Rightarrow> DeliveryOutboxRecord" where
  "part_delivered_values final_part ordinal t d =
     (if final_part
      then d\<lparr>o_next_part_ordinal := ordinal + 1, o_updated_at := t, o_status := O_DELIVERED,
             o_claim_token := None, o_claimed_at := None, o_completed_at := Some t, o_last_error_code := None\<rparr>
      else d\<lparr>o_next_part_ordinal := ordinal + 1, o_updated_at := t\<rparr>)"

definition attempt_delivered_values ::
  "string option \<Rightarrow> json \<Rightarrow> instant \<Rightarrow> DeliveryAttempt \<Rightarrow> DeliveryAttempt" where
  "attempt_delivered_values provider_id payload t a =
     a\<lparr>a_status := A_DELIVERED, a_provider_message_id := provider_id, a_receipt_payload := Some payload,
       a_completed_at := Some t\<rparr>"

definition response_delivered_values :: "instant \<Rightarrow> ResponseRecord \<Rightarrow> ResponseRecord" where
  "response_delivered_values t r =
     r\<lparr>r_status := R_DELIVERED, r_delivered_at := Some t, r_last_error_code := None, r_updated_at := t\<rparr>"

definition mark_part_delivered ::
  "(gateway_db \<Rightarrow> gateway_db) \<Rightarrow> clocks \<Rightarrow> int \<Rightarrow> string \<Rightarrow> int \<Rightarrow> int \<Rightarrow> json \<Rightarrow> string option \<Rightarrow> instant option
     \<Rightarrow> gateway_db \<Rightarrow> DeliveryOutboxRecord outcome"
where
  "mark_part_delivered race ck i claim_token attempt_id ordinal payload provider_id completed_at db =
     checked (delivery_claimed i claim_token db) db (\<lambda>d.
       if ordinal \<noteq> o_next_part_ordinal d
       then (Inl (DeliveryStateConflictError i (''next_part_'' @ int_str (o_next_part_ordinal d))), db)
       else
         checked (required_attempt attempt_id i ordinal db) db (\<lambda>a.
           if a_status a \<noteq> A_DELIVERING then (Inl (DeliveryStateConflictError i ''delivering''), db)
           else if get_receipt i ordinal db \<noteq> None then (Inl (DeliveryStateConflictError i ''receipt_missing''), db)
           else
             (case response_get (o_response_id d) db of
                None \<Rightarrow> (Inl (DeliveryStateConflictError i ''response_present''), db)
              | Some r \<Rightarrow>
                  (let t = (case completed_at of Some x \<Rightarrow> x | None \<Rightarrow> wall_now ck);
                       final_part = (ordinal + 1 = r_part_count r);
                       receipt = \<lparr>c_delivery_id = i, c_part_ordinal = ordinal, c_response_id = o_response_id d,
                          c_attempt_id = a_id a, c_provider_message_id = provider_id,
                          c_receipt_payload = payload, c_delivered_at = t\<rparr>;
                       db0 = race db in
                   case delivery_update (\<lambda>x. o_id x = i \<and> o_status x = O_DELIVERING
                            \<and> o_claim_token x = Some claim_token \<and> o_next_part_ordinal x = ordinal)
                          (part_delivered_values final_part ordinal t) db0 of
                     (Inl e, _) \<Rightarrow> (Inl e, db0)
                   | (Inr n, db1) \<Rightarrow>
                       if n \<noteq> 1 then (Inl (DeliveryStateConflictError i (delivery_status_value O_DELIVERING)), db0)
                       else
                         (case (if final_part
                                then response_update (\<lambda>x. r_response_id x = o_response_id d \<and> r_status x = R_DELIVERING)
                                       (response_delivered_values t) db1
                                else (Inr 1, db1)) of
                            (Inl e, _) \<Rightarrow> (Inl e, db0)
                          | (Inr m, db2) \<Rightarrow>
                              if m \<noteq> 1 then (Inl (DeliveryStateConflictError i (response_status_value R_DELIVERING)), db0)
                              else
                                (case attempt_update (\<lambda>x. a_id x = a_id a) (attempt_delivered_values provider_id payload t) db2 of
                                   (Inl e, _) \<Rightarrow> (Inl e, db0)
                                 | (Inr _, db3) \<Rightarrow>
                                     if receipt_table_ok (receipts db3 @ [receipt]) \<and> receipt_foreign_keys_ok db3 receipt
                                     then (let db4 = db3\<lparr>receipts := receipts db3 @ [receipt]\<rparr> in
                                           (delivery_required i db4, db4))
                                     else (Inl IntegrityError, db0)))))))"

definition delivery_finish_values ::
  "DeliveryStatus \<Rightarrow> string \<Rightarrow> instant option \<Rightarrow> instant \<Rightarrow> DeliveryOutboxRecord \<Rightarrow> DeliveryOutboxRecord" where
  "delivery_finish_values s code available t d =
     d\<lparr>o_status := s, o_claim_token := None, o_claimed_at := None,
       o_completed_at := (if s = O_QUEUED then None else Some t), o_last_error_code := Some code,
       o_updated_at := t, o_available_at := (case available of Some x \<Rightarrow> x | None \<Rightarrow> o_available_at d)\<rparr>"

definition response_finish_values :: "ResponseStatus \<Rightarrow> string \<Rightarrow> instant \<Rightarrow> ResponseRecord \<Rightarrow> ResponseRecord" where
  "response_finish_values s code t r =
     r\<lparr>r_status := s, r_last_error_code := Some code, r_updated_at := t,
       r_failed_at := (if s = R_FAILED then Some t else r_failed_at r),
       r_uncertain_at := (if s = R_UNCERTAIN then Some t else r_uncertain_at r)\<rparr>"

definition finish_attempt ::
  "(gateway_db \<Rightarrow> gateway_db) \<Rightarrow> clocks \<Rightarrow> int \<Rightarrow> string \<Rightarrow> int \<Rightarrow> DeliveryAttemptStatus \<Rightarrow> DeliveryStatus
     \<Rightarrow> ResponseStatus option \<Rightarrow> string \<Rightarrow> py_datetime option \<Rightarrow> gateway_db \<Rightarrow> DeliveryOutboxRecord outcome"
where
  "finish_attempt race ck i claim_token attempt_id attempt_status delivery_status response_status error_code available_at db =
     checked (delivery_claimed i claim_token db) db (\<lambda>d.
     checked (required_attempt attempt_id i (o_next_part_ordinal d) db) db (\<lambda>a.
       if a_status a \<noteq> A_DELIVERING then (Inl (DeliveryStateConflictError i ''delivering''), db)
       else
         checked (delivery_required_string error_code ''error_code'' DELIVERY_MAX_ERROR_CODE_LENGTH) db (\<lambda>code.
         checked (case available_at of None \<Rightarrow> Inr None | Some x \<Rightarrow> map_sum id Some (aware_utc x ''available_at'')) db (\<lambda>avail.
           let t = wall_now ck; db0 = race db in
           case delivery_update (\<lambda>x. o_id x = i \<and> o_status x = O_DELIVERING \<and> o_claim_token x = Some claim_token)
                  (delivery_finish_values delivery_status code avail t) db0 of
             (Inl e, _) \<Rightarrow> (Inl e, db0)
           | (Inr n, db1) \<Rightarrow>
               if n \<noteq> 1 then (Inl (DeliveryStateConflictError i (delivery_status_value O_DELIVERING)), db0)
               else
                 (case (case response_status of
                          None \<Rightarrow> (Inr 1, db1)
                        | Some s \<Rightarrow> response_update (\<lambda>x. r_response_id x = o_response_id d \<and> r_status x = R_DELIVERING)
                                     (response_finish_values s code t) db1) of
                    (Inl e, _) \<Rightarrow> (Inl e, db0)
                  | (Inr m, db2) \<Rightarrow>
                      if m \<noteq> 1 then (Inl (DeliveryStateConflictError i (response_status_value R_DELIVERING)), db0)
                      else
                        (case attempt_update (\<lambda>x. a_id x = a_id a) (attempt_finish_values attempt_status code t) db2 of
                           (Inl e, _) \<Rightarrow> (Inl e, db0)
                         | (Inr _, db3) \<Rightarrow> (delivery_required i db3, db3)))))))"

definition mark_attempt_retryable ::
  "(gateway_db \<Rightarrow> gateway_db) \<Rightarrow> clocks \<Rightarrow> int \<Rightarrow> string \<Rightarrow> int \<Rightarrow> string \<Rightarrow> py_datetime \<Rightarrow> gateway_db \<Rightarrow> DeliveryOutboxRecord outcome" where
  "mark_attempt_retryable race ck i claim_token attempt_id error_code available_at db =
     finish_attempt race ck i claim_token attempt_id A_FAILED O_QUEUED None error_code (Some available_at) db"

definition mark_attempt_failed ::
  "(gateway_db \<Rightarrow> gateway_db) \<Rightarrow> clocks \<Rightarrow> int \<Rightarrow> string \<Rightarrow> int \<Rightarrow> string \<Rightarrow> gateway_db \<Rightarrow> DeliveryOutboxRecord outcome" where
  "mark_attempt_failed race ck i claim_token attempt_id error_code db =
     finish_attempt race ck i claim_token attempt_id A_FAILED O_FAILED (Some R_FAILED) error_code None db"

definition mark_attempt_uncertain ::
  "(gateway_db \<Rightarrow> gateway_db) \<Rightarrow> clocks \<Rightarrow> int \<Rightarrow> string \<Rightarrow> int \<Rightarrow> string \<Rightarrow> gateway_db \<Rightarrow> DeliveryOutboxRecord outcome" where
  "mark_attempt_uncertain race ck i claim_token attempt_id error_code db =
     finish_attempt race ck i claim_token attempt_id A_UNCERTAIN O_UNCERTAIN (Some R_UNCERTAIN) error_code None db"

section \<open>Operator retry\<close>

definition delivery_retry ::
  "(gateway_db \<Rightarrow> gateway_db) \<Rightarrow> clocks \<Rightarrow> int \<Rightarrow> bool \<Rightarrow> py_datetime option \<Rightarrow> gateway_db \<Rightarrow> DeliveryOutboxRecord outcome"
where
  "delivery_retry race ck i allow_uncertain available_at db =
     checked (delivery_required i db) db (\<lambda>d.
       if o_status d \<noteq> O_FAILED \<and> (\<not> allow_uncertain \<or> o_status d \<noteq> O_UNCERTAIN)
       then (Inl (DeliveryStateConflictError i ''failed_or_explicitly_allowed_uncertain''), db)
       else
         checked (case available_at of None \<Rightarrow> Inr (wall_now ck) | Some x \<Rightarrow> aware_utc x ''available_at'') db (\<lambda>scheduled.
           let t = wall_now ck;
               next_status = (if o_next_part_ordinal d > 0 then R_DELIVERING else R_GENERATED);
               expected = (if o_status d = O_UNCERTAIN then R_UNCERTAIN else R_FAILED);
               db0 = race db in
           case delivery_update (\<lambda>x. o_id x = i \<and> o_status x = o_status d)
                  (\<lambda>x. x\<lparr>o_status := O_QUEUED, o_available_at := scheduled, o_claim_token := None,
                         o_claimed_at := None, o_completed_at := None, o_last_error_code := None,
                         o_updated_at := t\<rparr>) db0 of
             (Inl e, _) \<Rightarrow> (Inl e, db0)
           | (Inr n, db1) \<Rightarrow>
               if n \<noteq> 1 then (Inl (DeliveryStateConflictError i (delivery_status_value (o_status d))), db0)
               else
                 (case response_update (\<lambda>x. r_response_id x = o_response_id d \<and> r_status x = expected)
                         (\<lambda>x. x\<lparr>r_status := next_status, r_failed_at := None, r_uncertain_at := None,
                                r_last_error_code := None, r_updated_at := t\<rparr>) db1 of
                    (Inl e, _) \<Rightarrow> (Inl e, db0)
                  | (Inr m, db2) \<Rightarrow>
                      if m \<noteq> 1 then (Inl (DeliveryStateConflictError i (response_status_value expected)), db0)
                      else (delivery_required i db2, db2))))"

section \<open>The local view of a delivery\<close>

definition attempts_of :: "gateway_db \<Rightarrow> int \<Rightarrow> DeliveryAttempt list" where
  "attempts_of db i = filter (\<lambda>a. a_delivery_id a = i) (attempts db)"

definition receipts_of :: "gateway_db \<Rightarrow> int \<Rightarrow> DeliveryReceipt list" where
  "receipts_of db i = filter (\<lambda>c. c_delivery_id c = i) (receipts db)"

text \<open>The statuses a response may have while its delivery has a given status.\<close>

fun mirrors :: "DeliveryStatus \<Rightarrow> ResponseStatus \<Rightarrow> bool" where
  "mirrors O_QUEUED s \<longleftrightarrow> s \<in> {R_GENERATED, R_DELIVERING}"
| "mirrors O_DELIVERING s \<longleftrightarrow> s = R_DELIVERING"
| "mirrors O_DELIVERED s \<longleftrightarrow> s = R_DELIVERED"
| "mirrors O_FAILED s \<longleftrightarrow> s = R_FAILED"
| "mirrors O_UNCERTAIN s \<longleftrightarrow> s = R_UNCERTAIN"

definition parts_ok :: "ResponseRecord \<Rightarrow> bool" where
  "parts_ok r \<longleftrightarrow> r_part_count r = int (length (r_parts r)) \<and> map p_ordinal (r_parts r) = [0..<length (r_parts r)]"

definition claim_ok :: "DeliveryOutboxRecord \<Rightarrow> bool" where
  "claim_ok d \<longleftrightarrow> (o_status d = O_DELIVERING \<longleftrightarrow> o_claim_token d \<noteq> None)
     \<and> (o_status d = O_DELIVERING \<longleftrightarrow> o_claimed_at d \<noteq> None)"

definition progress_ok :: "DeliveryOutboxRecord \<Rightarrow> ResponseRecord \<Rightarrow> bool" where
  "progress_ok d r \<longleftrightarrow> o_next_part_ordinal d \<le> r_part_count r
     \<and> (o_status d = O_DELIVERED \<longleftrightarrow> o_next_part_ordinal d = r_part_count r)"

definition ledger_ok :: "DeliveryOutboxRecord \<Rightarrow> DeliveryAttempt list \<Rightarrow> DeliveryReceipt list \<Rightarrow> bool" where
  "ledger_ok d ats rcs \<longleftrightarrow>
     map c_part_ordinal rcs = map int [0..<nat (o_next_part_ordinal d)]
     \<and> (\<forall>c\<in>set rcs. c_response_id c = o_response_id d
          \<and> (\<exists>a\<in>set ats. a_id a = c_attempt_id c \<and> a_part_ordinal a = c_part_ordinal c \<and> a_status a = A_DELIVERED))"

definition in_flight_ok :: "DeliveryOutboxRecord \<Rightarrow> DeliveryAttempt list \<Rightarrow> bool" where
  "in_flight_ok d ats \<longleftrightarrow>
     (\<forall>a\<in>set ats. a_status a = A_DELIVERING \<longrightarrow>
         o_status d = O_DELIVERING \<and> a_part_ordinal a = o_next_part_ordinal d)
     \<and> (\<forall>a\<in>set ats. \<forall>b\<in>set ats. a_status a = A_DELIVERING \<longrightarrow> a_status b = A_DELIVERING \<longrightarrow> a = b)"

definition local_ok ::
  "DeliveryOutboxRecord \<Rightarrow> ResponseRecord \<Rightarrow> DeliveryAttempt list \<Rightarrow> DeliveryReceipt list \<Rightarrow> bool" where
  "local_ok d r ats rcs \<longleftrightarrow>
     r_response_id r = o_response_id d \<and> mirrors (o_status d) (r_status r) \<and> parts_ok r \<and> claim_ok d
     \<and> progress_ok d r \<and> ledger_ok d ats rcs \<and> in_flight_ok d ats"

text \<open>The whole outbox: the tables, the sequences, a delivery for every response, and every delivery in order.\<close>

definition outbox_tables_ok :: "gateway_db \<Rightarrow> bool" where
  "outbox_tables_ok db \<longleftrightarrow>
     response_inv db \<and> distinct (map o_response_id (deliveries db))
     \<and> attempt_table_ok (attempts db) \<and> receipt_table_ok (receipts db)
     \<and> r_response_id ` set (responses db) \<subseteq> o_response_id ` set (deliveries db)
     \<and> (\<forall>a\<in>set (attempts db). a_id a < attempt_seq db \<and> a_delivery_id a < delivery_seq db)
     \<and> (\<forall>c\<in>set (receipts db). \<exists>a\<in>set (attempts db). a_id a = c_attempt_id c \<and> a_delivery_id a = c_delivery_id c)"

definition delivery_inv :: "gateway_db \<Rightarrow> bool" where
  "delivery_inv db \<longleftrightarrow> outbox_tables_ok db
     \<and> (\<forall>d\<in>set (deliveries db). \<exists>r\<in>set (responses db). local_ok d r (attempts_of db (o_id d)) (receipts_of db (o_id d)))"

lemma delivery_invD:
  assumes "delivery_inv db"
  shows "response_inv db" "distinct (map o_response_id (deliveries db))" "attempt_table_ok (attempts db)"
    "receipt_table_ok (receipts db)" "a \<in> set (attempts db) \<Longrightarrow> a_id a < attempt_seq db"
    "response_table_ok (responses db)" "delivery_table_ok (deliveries db)"
    "a \<in> set (attempts db) \<Longrightarrow> a_delivery_id a < delivery_seq db"
    "r \<in> set (responses db) \<Longrightarrow> \<exists>d\<in>set (deliveries db). o_response_id d = r_response_id r"
proof -
  show "\<exists>d\<in>set (deliveries db). o_response_id d = r_response_id r" if "r \<in> set (responses db)"
    using assms that unfolding delivery_inv_def outbox_tables_ok_def by (metis image_iff imageI subsetD)
qed (use assms in \<open>auto simp: delivery_inv_def outbox_tables_ok_def response_inv_def\<close>)

lemma delivery_inv_local:
  assumes "delivery_inv db" and "d \<in> set (deliveries db)"
  obtains r where "r \<in> set (responses db)" "local_ok d r (attempts_of db (o_id d)) (receipts_of db (o_id d))"
    "r_response_id r = o_response_id d" "response_get (o_response_id d) db = Some r"
proof -
  from assms obtain r where r: "r \<in> set (responses db)"
    "local_ok d r (attempts_of db (o_id d)) (receipts_of db (o_id d))"
    unfolding delivery_inv_def by blast
  then have "r_response_id r = o_response_id d" by (simp add: local_ok_def)
  moreover have "response_get (o_response_id d) db = Some r"
    using lookup_by_distinct [OF response_table_okD(2) [OF delivery_invD(6) [OF assms(1)]] r(1)] calculation
    by (simp add: response_get_def)
  ultimately show ?thesis using that r by blast
qed

text \<open>An update whose clause selects one key rewrites the one row that has it.\<close>

definition replace_by :: "('r \<Rightarrow> 'k) \<Rightarrow> 'k \<Rightarrow> 'r \<Rightarrow> 'r list \<Rightarrow> 'r list" where
  "replace_by key k x rows = map (\<lambda>r. if key r = k then x else r) rows"

lemma update_where_replace:
  assumes "distinct (map key rows)" "r \<in> set rows" "p r" "\<And>q. p q \<Longrightarrow> key q = key r"
  shows "update_where p f rows = replace_by key (key r) (f r) rows"
  unfolding update_where_def replace_by_def
proof (rule map_cong [OF refl])
  fix q assume "q \<in> set rows"
  with assms distinct_key_eq [OF assms(1) assms(2), of q]
  show "(if p q then f q else q) = (if key q = key r then f r else q)" by metis
qed

lemma set_replace_by:
  "set (replace_by key k x rows) = (\<lambda>r. if key r = k then x else r) ` set rows"
  by (simp add: replace_by_def)

lemma map_replace_by:
  assumes "distinct (map key rows)" "r \<in> set rows" "key r = k" "g x = g r"
  shows "map g (replace_by key k x rows) = map g rows"
  unfolding replace_by_def map_map
proof (rule map_cong [OF refl])
  fix q assume "q \<in> set rows"
  with assms distinct_key_eq [OF assms(1) assms(2), of q]
  show "(g \<circ> (\<lambda>r. if key r = k then x else r)) q = g q" by auto
qed

lemma lookup_replace_by:
  assumes "distinct (map key rows)" "r \<in> set rows" "key r = k" "key x = k"
  shows "lookup_by key k (replace_by key k x rows) = Some x"
proof -
  have "distinct (map key (replace_by key k x rows))"
    using map_replace_by [OF assms(1-3), of key x] assms by simp
  moreover have "x \<in> set (replace_by key k x rows)" using assms by (force simp: set_replace_by)
  ultimately show ?thesis using lookup_by_distinct assms(4) by metis
qed

lemma delivery_table_replace:
  assumes ok: "delivery_table_ok rows" and d: "d \<in> set rows"
    and id: "delivery_identity d' = delivery_identity d" and row: "delivery_row_ok d'"
  shows "delivery_table_ok (replace_by o_id (o_id d) d' rows)"
proof -
  note D = delivery_table_okD [OF ok]
  have sel: "o_id d' = o_id d" "o_idempotency_key d' = o_idempotency_key d"
    "(o_response_id d', o_channel d', o_target_key d') = (o_response_id d, o_channel d, o_target_key d)"
    using id by (auto simp: delivery_identity_def)
  have "list_all delivery_row_ok (replace_by o_id (o_id d) d' rows)"
    using D(1) row by (auto simp: list_all_iff set_replace_by)
  with D(2-4) map_replace_by [OF D(2) d refl, of o_id d'] map_replace_by [OF D(2) d refl, of o_idempotency_key d']
    map_replace_by [OF D(2) d refl, of "\<lambda>d. (o_response_id d, o_channel d, o_target_key d)" d'] sel
  show ?thesis by (simp add: delivery_table_ok_def)
qed

lemma response_table_replace:
  assumes ok: "response_table_ok rows" and r: "r \<in> set rows"
    and id: "response_identity r' = response_identity r" and row: "response_row_ok r'"
  shows "response_table_ok (replace_by r_response_id (r_response_id r) r' rows)"
proof -
  note D = response_table_okD [OF ok]
  have sel: "r_response_id r' = r_response_id r" "r_idempotency_key r' = r_idempotency_key r" "r_message_id r' = r_message_id r"
    using id by (auto simp: response_identity_def)
  have "list_all response_row_ok (replace_by r_response_id (r_response_id r) r' rows)"
    using D(1) row by (auto simp: list_all_iff set_replace_by)
  with D(2-4) map_replace_by [OF D(2) r refl, of r_response_id r'] map_replace_by [OF D(2) r refl, of r_idempotency_key r']
    map_replace_by [OF D(2) r refl, of r_message_id r'] sel
  show ?thesis by (simp add: response_table_ok_def)
qed

text \<open>
  The frame of every operation on one delivery: the other deliveries keep their local view.
\<close>

lemma delivery_inv_replace:
  assumes inv: "delivery_inv db" and d: "d \<in> set (deliveries db)"
    and r: "r \<in> set (responses db)" "r_response_id r = o_response_id d"
    and ident: "delivery_identity d' = delivery_identity d" "response_identity r' = response_identity r"
    and rows: "delivery_row_ok d'" "response_row_ok r'"
    and new: "deliveries db' = replace_by o_id (o_id d) d' (deliveries db)"
      "responses db' = replace_by r_response_id (r_response_id r) r' (responses db)"
      "delivery_seq db' = delivery_seq db"
    and attempts: "attempt_table_ok (attempts db')" "\<And>a. a \<in> set (attempts db') \<Longrightarrow> a_id a < attempt_seq db' \<and> a_delivery_id a < delivery_seq db'"
      "\<And>j. j \<noteq> o_id d \<Longrightarrow> attempts_of db' j = attempts_of db j"
    and receipts: "receipt_table_ok (receipts db')"
      "\<And>c. c \<in> set (receipts db') \<Longrightarrow> \<exists>a\<in>set (attempts db'). a_id a = c_attempt_id c \<and> a_delivery_id a = c_delivery_id c"
      "\<And>j. j \<noteq> o_id d \<Longrightarrow> receipts_of db' j = receipts_of db j"
    and loc: "local_ok d' r' (attempts_of db' (o_id d)) (receipts_of db' (o_id d))"
  shows "delivery_inv db'"
proof -
  note R = response_table_okD [OF delivery_invD(6) [OF inv]] and D = delivery_table_okD [OF delivery_invD(7) [OF inv]]
  have dsel: "o_id d' = o_id d" "o_response_id d' = o_response_id d" using ident(1) by (auto simp: delivery_identity_def)
  have rsel: "r_response_id r' = r_response_id r" using ident(2) by (auto simp: response_identity_def)
  have tabs: "delivery_table_ok (deliveries db')" "response_table_ok (responses db')"
    using delivery_table_replace [OF delivery_invD(7) [OF inv] d ident(1) rows(1)]
      response_table_replace [OF delivery_invD(6) [OF inv] r(1) ident(2) rows(2)] new by simp_all
  have rids: "r_response_id ` set (responses db') = r_response_id ` set (responses db)"
    using map_replace_by [OF R(2) r(1) refl, of r_response_id r'] rsel new(2) by (metis list.set_map)
  have dids: "map o_response_id (deliveries db') = map o_response_id (deliveries db)"
    using map_replace_by [OF D(2) d refl, of o_response_id d'] dsel new(1) by simp
  have seqs: "o_id x < delivery_seq db' \<and> o_response_id x \<in> r_response_id ` set (responses db')"
    if "x \<in> set (deliveries db')" for x
  proof -
    from that consider "x = d'" | "x \<in> set (deliveries db)" by (auto simp: new(1) set_replace_by split: if_splits)
    then show ?thesis
    proof cases
      case 1
      then show ?thesis
        using response_invD(3) [OF delivery_invD(1) [OF inv] d] r dsel new(3) rids by (auto intro: rev_image_eqI)
    next
      case 2
      from response_invD(4) [OF delivery_invD(1) [OF inv] 2] obtain q where
        "q \<in> set (responses db)" "r_response_id q = o_response_id x" by blast
      then have "o_response_id x \<in> r_response_id ` set (responses db)" by (auto intro: rev_image_eqI)
      with response_invD(3) [OF delivery_invD(1) [OF inv] 2] new(3) rids show ?thesis by simp
    qed
  qed
  then have "response_inv db'" using tabs by (auto simp: response_inv_def list_all_iff)
  moreover have "r_response_id ` set (responses db') \<subseteq> o_response_id ` set (deliveries db')"
    using inv rids arg_cong [OF dids, of set] by (simp add: delivery_inv_def outbox_tables_ok_def)
  ultimately have "outbox_tables_ok db'"
    using dids delivery_invD(2) [OF inv] attempts receipts by (simp add: outbox_tables_ok_def)
  moreover have "\<exists>q\<in>set (responses db'). local_ok x q (attempts_of db' (o_id x)) (receipts_of db' (o_id x))"
    if x: "x \<in> set (deliveries db')" for x
  proof (cases "o_id x = o_id d")
    case True
    then have "x = d'" using x dsel by (auto simp: new(1) set_replace_by split: if_splits)
    moreover have "r' \<in> set (responses db')" using r(1) by (force simp: new(2) set_replace_by)
    ultimately show ?thesis using loc True by auto
  next
    case False
    then have xin: "x \<in> set (deliveries db)" using x dsel by (auto simp: new(1) set_replace_by split: if_splits)
    obtain q where q: "q \<in> set (responses db)" "local_ok x q (attempts_of db (o_id x)) (receipts_of db (o_id x))"
      "r_response_id q = o_response_id x"
      using delivery_inv_local [OF inv xin] by blast
    have "o_response_id x \<noteq> o_response_id d"
      using distinct_key_eq [OF delivery_invD(2) [OF inv] xin d] False by auto
    then have "q \<in> set (responses db')" using q r(2) by (force simp: new(2) set_replace_by)
    with q attempts(3) [OF False] receipts(3) [OF False] show ?thesis by auto
  qed
  ultimately show ?thesis by (simp add: delivery_inv_def)
qed

section \<open>Statements under the invariant\<close>

lemma rowcount_key_1:
  "distinct (map key rows) \<Longrightarrow> r \<in> set rows \<Longrightarrow> p r \<Longrightarrow> (\<And>q. p q \<Longrightarrow> key q = key r) \<Longrightarrow> rowcount p rows = 1"
  using rowcount_1_iff [of key rows p "key r"] by blast

lemma delivery_update_one:
  assumes ok: "delivery_table_ok (deliveries db)" and d: "d \<in> set (deliveries db)" "p d" "\<And>q. p q \<Longrightarrow> o_id q = o_id d"
    and f: "delivery_identity (f d) = delivery_identity d" "delivery_row_ok (f d)"
  shows "delivery_update p f db = (Inr 1, db\<lparr>deliveries := replace_by o_id (o_id d) (f d) (deliveries db)\<rparr>)"
proof -
  note D = delivery_table_okD [OF ok]
  have "update_where p f (deliveries db) = replace_by o_id (o_id d) (f d) (deliveries db)"
    using update_where_replace [OF D(2) d(1), of p f] d(2,3) by blast
  moreover have "rowcount p (deliveries db) = 1" using rowcount_key_1 [OF D(2) d(1), of p] d(2,3) by blast
  ultimately show ?thesis
    using delivery_table_replace [OF ok d(1) f] by (simp add: delivery_update_def)
qed

lemma delivery_update_none:
  assumes "delivery_table_ok (deliveries db)" "\<And>d. d \<in> set (deliveries db) \<Longrightarrow> \<not> p d"
  shows "delivery_update p f db = (Inr 0, db)"
proof -
  have "update_where p f (deliveries db) = deliveries db" "rowcount p (deliveries db) = 0"
    using assms(2) by (auto simp: update_where_none rowcount_0_iff)
  with assms(1) show ?thesis by (simp add: delivery_update_def)
qed

lemma response_update_one:
  assumes ok: "response_table_ok (responses db)" and r: "r \<in> set (responses db)" "p r"
    "\<And>q. p q \<Longrightarrow> r_response_id q = r_response_id r"
    and f: "response_identity (f r) = response_identity r" "response_row_ok (f r)"
  shows "response_update p f db = (Inr 1, db\<lparr>responses := replace_by r_response_id (r_response_id r) (f r) (responses db)\<rparr>)"
proof -
  note R = response_table_okD [OF ok]
  have "update_where p f (responses db) = replace_by r_response_id (r_response_id r) (f r) (responses db)"
    using update_where_replace [OF R(2) r(1), of p f] r(2,3) by blast
  moreover have "rowcount p (responses db) = 1" using rowcount_key_1 [OF R(2) r(1), of p] r(2,3) by blast
  ultimately show ?thesis
    using response_table_replace [OF ok r(1) f] by (simp add: response_update_def)
qed

lemma attempt_table_okD:
  assumes "attempt_table_ok rows"
  shows "a \<in> set rows \<Longrightarrow> a_part_ordinal a \<ge> 0 \<and> a_attempt_number a > 0" "distinct (map a_id rows)"
    "distinct (map (\<lambda>a. (a_delivery_id a, a_part_ordinal a, a_attempt_number a)) rows)"
  using assms by (auto simp: attempt_table_ok_def list_all_iff)

definition attempt_identity :: "DeliveryAttempt \<Rightarrow> int \<times> int \<times> int \<times> int" where
  "attempt_identity a = (a_id a, a_delivery_id a, a_part_ordinal a, a_attempt_number a)"

lemma attempt_table_replace:
  assumes ok: "attempt_table_ok rows" and a: "a \<in> set rows" and id: "attempt_identity a' = attempt_identity a"
  shows "attempt_table_ok (replace_by a_id (a_id a) a' rows)"
proof -
  note A = attempt_table_okD [OF ok]
  have "list_all (\<lambda>a. a_part_ordinal a \<ge> 0 \<and> a_attempt_number a > 0) (replace_by a_id (a_id a) a' rows)"
    using A(1) id a by (auto simp: list_all_iff set_replace_by attempt_identity_def)
  with A(2,3) map_replace_by [OF A(2) a refl, of a_id a']
    map_replace_by [OF A(2) a refl, of "\<lambda>a. (a_delivery_id a, a_part_ordinal a, a_attempt_number a)" a'] id
  show ?thesis by (simp add: attempt_table_ok_def attempt_identity_def)
qed

lemma attempt_update_one:
  assumes ok: "attempt_table_ok (attempts db)" and a: "a \<in> set (attempts db)" "p a" "\<And>q. p q \<Longrightarrow> a_id q = a_id a"
    and f: "attempt_identity (f a) = attempt_identity a"
  shows "attempt_update p f db = (Inr 1, db\<lparr>attempts := replace_by a_id (a_id a) (f a) (attempts db)\<rparr>)"
proof -
  note A = attempt_table_okD [OF ok]
  have "update_where p f (attempts db) = replace_by a_id (a_id a) (f a) (attempts db)"
    using update_where_replace [OF A(2) a(1), of p f] a(2,3) by blast
  moreover have "rowcount p (attempts db) = 1" using rowcount_key_1 [OF A(2) a(1), of p] a(2,3) by blast
  ultimately show ?thesis
    using attempt_table_replace [OF ok a(1) f] by (simp add: attempt_update_def)
qed

text \<open>Replacing an attempt of one delivery leaves the attempts of the others alone.\<close>

lemma attempts_of_replace_other:
  "a \<in> set (attempts db) \<Longrightarrow> distinct (map a_id (attempts db)) \<Longrightarrow> a_delivery_id a' = a_delivery_id a \<Longrightarrow> j \<noteq> a_delivery_id a \<Longrightarrow>
   filter (\<lambda>x. a_delivery_id x = j) (replace_by a_id (a_id a) a' (attempts db)) = attempts_of db j"
proof -
  assume a: "a \<in> set (attempts db)" "distinct (map a_id (attempts db))" "a_delivery_id a' = a_delivery_id a" "j \<noteq> a_delivery_id a"
  have "filter (\<lambda>x. a_delivery_id x = j) (replace_by a_id (a_id a) a' rows) = filter (\<lambda>x. a_delivery_id x = j) rows"
    if "set rows \<subseteq> set (attempts db)" for rows
    using that
  proof (induction rows)
    case (Cons x rows)
    have "x = a" if "a_id x = a_id a" using distinct_key_eq [OF a(2) a(1), of x] Cons.prems that by simp
    with Cons a(3,4) show ?case by (auto simp: replace_by_def)
  qed (simp add: replace_by_def)
  then show ?thesis by (simp add: attempts_of_def)
qed

lemma attempts_of_replace_same:
  assumes "a_delivery_id a' = a_delivery_id a" "a \<in> set (attempts db)" "distinct (map a_id (attempts db))" "a_delivery_id a = i"
  shows "filter (\<lambda>x. a_delivery_id x = i) (replace_by a_id (a_id a) a' (attempts db)) =
    replace_by a_id (a_id a) a' (attempts_of db i)"
proof -
  have "filter (\<lambda>x. a_delivery_id x = i) (replace_by a_id (a_id a) a' rows) =
      replace_by a_id (a_id a) a' (filter (\<lambda>x. a_delivery_id x = i) rows)"
    if "set rows \<subseteq> set (attempts db)" for rows
    using that
  proof (induction rows)
    case (Cons x rows)
    have "x = a" if "a_id x = a_id a" using distinct_key_eq [OF assms(3,2), of x] Cons.prems that by simp
    with Cons assms show ?case by (auto simp: replace_by_def)
  qed (simp add: replace_by_def)
  then show ?thesis by (simp add: attempts_of_def)
qed

section \<open>Claims\<close>

lemma delivery_claim_values_ok:
  assumes "delivery_row_ok d" "nonblank token"
  shows "delivery_row_ok (delivery_claim_values token t d)"
    "delivery_identity (delivery_claim_values token t d) = delivery_identity d"
  using assms nonblank_sql_nonempty
  by (auto simp: delivery_row_ok_def delivery_claim_values_def delivery_identity_def null_or_nonempty_def)

lemma response_claim_values_ok:
  "response_row_ok r \<Longrightarrow> response_row_ok (response_claim_values t r)"
  "response_identity (response_claim_values t r) = response_identity r"
  by (auto simp: response_row_ok_def response_claim_values_def response_identity_def null_or_nonempty_def)

lemma local_ok_claim:
  assumes "local_ok d r ats rcs" "o_status d = O_QUEUED"
  shows "local_ok (delivery_claim_values token t d) (response_claim_values t r) ats rcs"
  using assms
  by (auto simp: local_ok_def delivery_claim_values_def response_claim_values_def parts_ok_def claim_ok_def
      progress_ok_def ledger_ok_def in_flight_ok_def)

text \<open>The database after a claim.\<close>

definition claimed_db :: "string \<Rightarrow> instant \<Rightarrow> DeliveryOutboxRecord \<Rightarrow> ResponseRecord \<Rightarrow> gateway_db \<Rightarrow> gateway_db" where
  "claimed_db token t d r db =
     db\<lparr>deliveries := replace_by o_id (o_id d) (delivery_claim_values token t d) (deliveries db),
        responses := replace_by r_response_id (r_response_id r) (response_claim_values t r) (responses db)\<rparr>"

lemma delivery_claim_attempt_hit:
  assumes inv: "delivery_inv db" and "nonblank token" and d: "d \<in> set (deliveries db)" "delivery_claimable channel t d"
  obtains r where "r \<in> set (responses db)" "r_response_id r = o_response_id d"
    "delivery_claim_attempt channel token t (o_id d) db = (Some (Inr (delivery_claim_values token t d)), claimed_db token t d r db)"
    "delivery_inv (claimed_db token t d r db)"
proof -
  obtain r where r: "r \<in> set (responses db)" "local_ok d r (attempts_of db (o_id d)) (receipts_of db (o_id d))"
    "r_response_id r = o_response_id d" using delivery_inv_local [OF inv d(1)] by blast
  note T = delivery_invD(7) [OF inv] and R = delivery_invD(6) [OF inv]
  note dv = delivery_claim_values_ok [OF delivery_table_okD(1) [OF T d(1)] assms(2), of t]
  let ?d' = "delivery_claim_values token t d" and ?r' = "response_claim_values t r"
  let ?db1 = "db\<lparr>deliveries := replace_by o_id (o_id d) ?d' (deliveries db)\<rparr>"
  have u1: "delivery_update (\<lambda>x. o_id x = o_id d \<and> delivery_claimable channel t x) (delivery_claim_values token t) db = (Inr 1, ?db1)"
    by (rule delivery_update_one [OF T d(1)]) (use d(2) dv in auto)
  have g: "delivery_get (o_id d) ?db1 = Some ?d'"
    using lookup_replace_by [OF delivery_table_okD(2) [OF T] d(1) refl, of ?d'] dv(2)
    by (simp add: delivery_get_def delivery_identity_def)
  have st: "r_status r \<in> {R_GENERATED, R_DELIVERING}" using r(2) d(2) by (auto simp: local_ok_def delivery_claimable_def)
  have rid: "o_response_id ?d' = o_response_id d" by (simp add: delivery_claim_values_def)
  have u2: "response_update (\<lambda>x. r_response_id x = o_response_id ?d' \<and> r_status x \<in> {R_GENERATED, R_DELIVERING})
      (response_claim_values t) ?db1 = (Inr 1, claimed_db token t d r db)"
    using response_update_one [of ?db1 r "\<lambda>x. r_response_id x = o_response_id ?d' \<and> r_status x \<in> {R_GENERATED, R_DELIVERING}"
        "response_claim_values t"] R r(1,3) st rid response_claim_values_ok response_table_okD(1) [OF R r(1)]
    by (simp add: claimed_db_def)
  have "delivery_inv (claimed_db token t d r db)"
  proof (rule delivery_inv_replace [OF inv d(1) r(1,3) dv(2) response_claim_values_ok(2) dv(1)
        response_claim_values_ok(1) [OF response_table_okD(1) [OF R r(1)]]])
    have same: "attempts_of (claimed_db token t d r db) j = attempts_of db j"
      "receipts_of (claimed_db token t d r db) j = receipts_of db j" for j
      by (simp_all add: claimed_db_def attempts_of_def receipts_of_def)
    show "local_ok ?d' ?r' (attempts_of (claimed_db token t d r db) (o_id d)) (receipts_of (claimed_db token t d r db) (o_id d))"
      unfolding same using local_ok_claim [OF r(2)] d(2) by (simp add: delivery_claimable_def)
    show "attempts_of (claimed_db token t d r db) j = attempts_of db j"
      "receipts_of (claimed_db token t d r db) j = receipts_of db j" for j by (rule same)+
  qed (use inv in \<open>auto simp: claimed_db_def delivery_inv_def outbox_tables_ok_def\<close>)
  with u1 g u2 r that show ?thesis by (simp add: delivery_claim_attempt_def)
qed

lemma delivery_claim_attempt_miss:
  assumes inv: "delivery_inv db" and "\<And>d. d \<in> set (deliveries db) \<Longrightarrow> o_id d = i \<Longrightarrow> \<not> delivery_claimable channel t d"
  shows "delivery_claim_attempt channel token t i db = (None, db)"
proof -
  have "delivery_update (\<lambda>d. o_id d = i \<and> delivery_claimable channel t d) (delivery_claim_values token t) db = (Inr 0, db)"
    by (rule delivery_update_none [OF delivery_invD(7) [OF inv]]) (use assms(2) in auto)
  then show ?thesis by (simp add: delivery_claim_attempt_def)
qed

definition delivery_won ::
  "string \<Rightarrow> string \<Rightarrow> instant \<Rightarrow> int \<Rightarrow> gateway_db \<Rightarrow> (gateway_error + DeliveryOutboxRecord) \<Rightarrow> gateway_db \<Rightarrow> bool" where
  "delivery_won channel token t i db a db' \<longleftrightarrow>
     (\<exists>d\<in>set (deliveries db). \<exists>r\<in>set (responses db). o_id d = i \<and> delivery_claimable channel t d
        \<and> r_response_id r = o_response_id d \<and> a = Inr (delivery_claim_values token t d) \<and> db' = claimed_db token t d r db)"

lemma delivery_candidate_Some:
  assumes "delivery_candidate channel t db = Some i"
  obtains d where "d \<in> set (deliveries db)" "o_id d = i" "delivery_claimable channel t d"
    "\<And>q. q \<in> set (deliveries db) \<Longrightarrow> delivery_claimable channel t q \<Longrightarrow> delivery_order d \<le> delivery_order q"
proof -
  from assms obtain d where sel:
    "select_min delivery_order (filter (delivery_claimable channel t) (deliveries db)) = Some d" "o_id d = i"
    by (auto simp: delivery_candidate_def)
  from select_min_Some [OF sel(1)] sel(2) show ?thesis by (intro that [of d]) auto
qed

interpretation delivery_queue: cas_queue
  "delivery_candidate channel t"
  "delivery_claim_attempt channel token t"
  "\<lambda>db. delivery_inv db \<and> nonblank token"
  "delivery_won channel token t"
  for channel token t
proof (unfold_locales, goal_cases)
  case (1 s k a s')
  show ?case
  proof (cases "\<exists>d\<in>set (deliveries s). o_id d = k \<and> delivery_claimable channel t d")
    case True
    then obtain d where d: "d \<in> set (deliveries s)" "o_id d = k" "delivery_claimable channel t d" by blast
    from 1 have i: "delivery_inv s" "nonblank token" by auto
    obtain r where "r \<in> set (responses s)" "r_response_id r = o_response_id d"
      "delivery_claim_attempt channel token t (o_id d) s =
        (Some (Inr (delivery_claim_values token t d)), claimed_db token t d r s)" "delivery_inv (claimed_db token t d r s)"
      using delivery_claim_attempt_hit [OF i d(1,3)] by blast
    with 1 d show ?thesis by (auto simp: delivery_won_def)
  next
    case False
    with delivery_claim_attempt_miss [of s k channel t token] 1 show ?thesis by auto
  qed
next
  case (2 s k s')
  show ?case
  proof (cases "\<exists>d\<in>set (deliveries s). o_id d = k \<and> delivery_claimable channel t d")
    case True
    then obtain d where d: "d \<in> set (deliveries s)" "o_id d = k" "delivery_claimable channel t d" by blast
    from 2 have i: "delivery_inv s" "nonblank token" by auto
    obtain r where "delivery_claim_attempt channel token t (o_id d) s =
        (Some (Inr (delivery_claim_values token t d)), claimed_db token t d r s)"
      using delivery_claim_attempt_hit [OF i d(1,3)] by blast
    with 2 d(2) show ?thesis by auto
  next
    case False
    with delivery_claim_attempt_miss [of s k channel t token] 2 show ?thesis by auto
  qed
next
  case (3 s k)
  then obtain d where d: "d \<in> set (deliveries s)" "o_id d = k" "delivery_claimable channel t d"
    using delivery_candidate_Some by metis
  from 3 have i: "delivery_inv s" "nonblank token" by auto
  from delivery_claim_attempt_hit [OF i d(1,3)] d(2) show ?case by metis
qed

lemma replace_by_same:
  assumes "distinct (map key rows)" "r \<in> set rows"
  shows "replace_by key (key r) r rows = rows"
proof -
  have "q = r" if "q \<in> set rows" "key q = key r" for q
    using distinct_key_eq [OF assms(1) that(1) assms(2) that(2)] .
  then show ?thesis unfolding replace_by_def by (intro map_idI) auto
qed

section \<open>Attempts\<close>

lemma delivery_required_string_Inr:
  "delivery_required_string v f n = Inr x \<Longrightarrow> x = py_strip v \<and> nonblank x"
  by (auto simp: delivery_required_string_def Let_def nonblank_def split: if_splits)

lemma delivery_claimed_Inr:
  assumes "delivery_claimed i token db = Inr d"
  shows "d \<in> set (deliveries db)" "o_id d = i" "o_status d = O_DELIVERING" "o_claim_token d = Some (py_strip token)"
  using assms
  by (auto simp: delivery_claimed_def delivery_required_def delivery_get_def split: sum.splits option.splits if_splits
      dest!: lookup_by_Some dest: delivery_required_string_Inr)

lemma delivery_claimed_cong:
  assumes "deliveries db' = deliveries db"
  shows "delivery_claimed i token db' = delivery_claimed i token db"
proof -
  have "delivery_required i db' = delivery_required i db" by (simp add: delivery_required_def delivery_get_def assms)
  then show ?thesis unfolding delivery_claimed_def by (rule arg_cong)
qed

lemma required_attempt_Inr:
  assumes "required_attempt k i ordinal db = Inr a"
  shows "a \<in> set (attempts db)" "a_id a = k" "a_delivery_id a = i" "a_part_ordinal a = ordinal"
  using assms by (auto simp: required_attempt_def split: option.splits if_splits dest!: lookup_by_Some)

lemma foldr_max_ge: "x \<in> set xs \<Longrightarrow> x \<le> foldr max xs (0::int)"
  by (induction xs) auto

lemma next_attempt_number_fresh:
  assumes "a \<in> set (attempts db)" "a_delivery_id a = i" "a_part_ordinal a = k"
  shows "a_attempt_number a < next_attempt_number i k db"
proof -
  have "a_attempt_number a \<in> set (map a_attempt_number (filter (\<lambda>a. a_delivery_id a = i \<and> a_part_ordinal a = k) (attempts db)))"
    using assms by auto
  from foldr_max_ge [OF this] show ?thesis by (simp add: next_attempt_number_def)
qed

lemma next_attempt_number_pos: "0 < next_attempt_number i k db"
proof -
  have "0 \<le> foldr max xs (0::int)" for xs by (induction xs) auto
  from this [of "map a_attempt_number (filter (\<lambda>a. a_delivery_id a = i \<and> a_part_ordinal a = k) (attempts db))"]
  show ?thesis unfolding next_attempt_number_def by linarith
qed

lemma active_attempt_Some:
  "active_attempt i k db = Some a \<Longrightarrow>
     a \<in> set (attempts db) \<and> a_delivery_id a = i \<and> a_part_ordinal a = k \<and> a_status a = A_DELIVERING"
  unfolding active_attempt_def by (drule select_min_Some) auto

lemma active_attempt_None:
  "active_attempt i k db = None \<longleftrightarrow>
     (\<forall>a\<in>set (attempts db). a_delivery_id a = i \<longrightarrow> a_part_ordinal a = k \<longrightarrow> a_status a \<noteq> A_DELIVERING)"
  unfolding active_attempt_def select_min_None filter_empty_conv by auto

text \<open>Under the invariant a part without an attempt in flight has none at all in flight.\<close>

lemma no_active_attempt:
  assumes "local_ok d r (attempts_of db (o_id d)) rcs" "active_attempt (o_id d) (o_next_part_ordinal d) db = None"
  shows "a \<in> set (attempts_of db (o_id d)) \<Longrightarrow> a_status a \<noteq> A_DELIVERING"
  using assms by (auto simp: local_ok_def in_flight_ok_def active_attempt_None attempts_of_def)

lemma start_attempt_ok:
  assumes inv: "delivery_inv db" and run: "start_attempt id ck i token k db = (res, db')"
  shows "delivery_inv db' \<and> (\<forall>e. res = Inl e \<longrightarrow> db' = db)
    \<and> (\<forall>a. res = Inr a \<longrightarrow> a \<in> set (attempts_of db' i) \<and> a_status a = A_DELIVERING \<and> a_part_ordinal a = k
         \<and> delivery_claimed i token db' = delivery_claimed i token db \<and> deliveries db' = deliveries db \<and> responses db' = responses db
         \<and> receipts db' = receipts db)
    \<and> (\<forall>d. delivery_claimed i token db = Inr d \<and> k = o_next_part_ordinal d \<longrightarrow> (\<exists>a. res = Inr a))"
proof (cases "delivery_claimed i token db")
  case (Inl e)
  with run inv show ?thesis by (auto simp: start_attempt_def)
next
  case (Inr d)
  note d = delivery_claimed_Inr [OF Inr]
  obtain r where r: "r \<in> set (responses db)" "local_ok d r (attempts_of db (o_id d)) (receipts_of db (o_id d))"
    "r_response_id r = o_response_id d" using delivery_inv_local [OF inv d(1)] by blast
  show ?thesis
  proof (cases "k = o_next_part_ordinal d")
    case False
    with Inr run inv show ?thesis by (auto simp: start_attempt_def)
  next
    case k: True
    show ?thesis
    proof (cases "active_attempt i k db")
      case (Some a)
      with Inr run inv k active_attempt_Some [OF Some] show ?thesis
        by (auto simp: start_attempt_def attempts_of_def)
    next
      case None
      let ?a = "new_attempt ck (attempt_seq db) d k (next_attempt_number i k db)"
      note A = attempt_table_okD [OF delivery_invD(3) [OF inv]]
      have sel: "a_id ?a = attempt_seq db" "a_delivery_id ?a = i" "a_part_ordinal ?a = k" "a_status ?a = A_DELIVERING"
        "a_attempt_number ?a = next_attempt_number i k db"
        using d(2) by (simp_all add: new_attempt_def)
      have knn: "0 \<le> k" using delivery_table_okD(1) [OF delivery_invD(7) [OF inv] d(1)] k by (simp add: delivery_row_ok_def)
      have tab: "attempt_table_ok (attempts db @ [?a])"
        unfolding attempt_table_ok_def
      proof (intro conjI distinct_map_snoc A(2,3))
        show "list_all (\<lambda>a. a_part_ordinal a \<ge> 0 \<and> a_attempt_number a > 0) (attempts db @ [?a])"
          using A(1) knn next_attempt_number_pos by (simp add: list_all_iff sel)
      next
        fix x assume x: "x \<in> set (attempts db)"
        show "a_id x \<noteq> a_id ?a" using delivery_invD(5) [OF inv x] sel by simp
        show "(a_delivery_id x, a_part_ordinal x, a_attempt_number x) \<noteq> (a_delivery_id ?a, a_part_ordinal ?a, a_attempt_number ?a)"
          using next_attempt_number_fresh [OF x, of i k] by (auto simp: sel)
      qed
      have "i \<in> o_id ` set (deliveries db)" using d by auto
      with run Inr k None tab have rv: "res = Inr ?a" "db' = db\<lparr>attempts := attempts db @ [?a], attempt_seq := attempt_seq db + 1\<rparr>"
        by (auto simp: start_attempt_def Let_def)
      have ao: "attempts_of db' i = attempts_of db i @ [?a]" "\<And>j. j \<noteq> i \<Longrightarrow> attempts_of db' j = attempts_of db j"
        by (simp_all add: attempts_of_def rv(2) sel)
      have none: "a_status a \<noteq> A_DELIVERING" if "a \<in> set (attempts_of db i)" for a
        using no_active_attempt [OF r(2)] None that k d(2) by simp
      have loc: "local_ok d r (attempts_of db i @ [?a]) (receipts_of db i)"
        using r(2) none d k sel
        by (auto simp: local_ok_def in_flight_ok_def ledger_ok_def)
      have "delivery_inv db'"
      proof (rule delivery_inv_replace [OF inv d(1) r(1,3) refl refl])
        show "delivery_row_ok d" using delivery_table_okD(1) [OF delivery_invD(7) [OF inv] d(1)] .
        show "response_row_ok r" using response_table_okD(1) [OF delivery_invD(6) [OF inv] r(1)] .
        show "deliveries db' = replace_by o_id (o_id d) d (deliveries db)"
          using replace_by_same [OF delivery_table_okD(2) [OF delivery_invD(7) [OF inv]] d(1)] by (simp add: rv(2))
        show "responses db' = replace_by r_response_id (r_response_id r) r (responses db)"
          using replace_by_same [OF response_table_okD(2) [OF delivery_invD(6) [OF inv]] r(1)] by (simp add: rv(2))
        show "attempt_table_ok (attempts db')" using tab by (simp add: rv(2))
        show "a_id x < attempt_seq db' \<and> a_delivery_id x < delivery_seq db'" if "x \<in> set (attempts db')" for x
          using that delivery_invD(5,8) [OF inv, of x] sel(1,2) response_invD(3) [OF delivery_invD(1) [OF inv] d(1)] d(2)
          by (auto simp: rv(2))
        show "attempts_of db' j = attempts_of db j" if "j \<noteq> o_id d" for j using ao(2) that d(2) by simp
        show "\<exists>a\<in>set (attempts db'). a_id a = c_attempt_id c \<and> a_delivery_id a = c_delivery_id c" if "c \<in> set (receipts db')" for c
          using that inv by (auto simp: rv(2) delivery_inv_def outbox_tables_ok_def)
        show "local_ok d r (attempts_of db' (o_id d)) (receipts_of db' (o_id d))"
          using loc ao(1) d(2) by (simp add: receipts_of_def rv(2))
      qed (use inv in \<open>simp_all add: rv(2) receipts_of_def delivery_invD\<close>)
      moreover have same: "deliveries db' = deliveries db" "responses db' = responses db" "receipts db' = receipts db"
        by (simp_all add: rv(2))
      moreover have "delivery_claimed i token db' = delivery_claimed i token db"
        using same(1) by (rule delivery_claimed_cong)
      moreover have "?a \<in> set (attempts_of db' i)" using ao(1) by simp
      ultimately show ?thesis using rv(1) sel by simp
    qed
  qed
qed

end
