(* ===== verification/Delivery_Ledger.thy ===== *)
theory Delivery_Ledger
  imports Delivery_Outbox
begin

text \<open>
  The outbox under interference (\<open>delivery/outbox.py\<close>). Every operation of a claim holder is
  either refused without a trace or moves exactly one delivery, its response, one attempt and
  at most one receipt (\<open>moved_db\<close>), and the invariant of the whole outbox is kept. \<open>fenced\<close> is
  the only assumption on the other sessions: while the delivery carries the holder's token
  they leave its rows alone.
\<close>

section \<open>Moving one delivery\<close>

text \<open>
  What the successful branches of the operations write: the row of the delivery, the row of
  its response, one of its attempts, and at most one new receipt.
\<close>

definition moved_db ::
  "DeliveryOutboxRecord \<Rightarrow> DeliveryOutboxRecord \<Rightarrow> ResponseRecord \<Rightarrow> ResponseRecord \<Rightarrow> DeliveryAttempt list
     \<Rightarrow> DeliveryReceipt list \<Rightarrow> gateway_db \<Rightarrow> gateway_db" where
  "moved_db d d' r r' ats cs db =
     db\<lparr>deliveries := replace_by o_id (o_id d) d' (deliveries db),
        responses := replace_by r_response_id (r_response_id r) r' (responses db),
        attempts := ats, receipts := receipts db @ cs\<rparr>"

definition swap_attempt :: "DeliveryAttempt \<Rightarrow> DeliveryAttempt \<Rightarrow> gateway_db \<Rightarrow> DeliveryAttempt list" where
  "swap_attempt a a' db = replace_by a_id (a_id a) a' (attempts db)"

text \<open>A delivery with the response, the attempts and the receipts its row belongs to.\<close>

definition outbox_view :: "gateway_db \<Rightarrow> DeliveryOutboxRecord \<Rightarrow> ResponseRecord \<Rightarrow> bool" where
  "outbox_view db d r \<longleftrightarrow> delivery_inv db \<and> d \<in> set (deliveries db) \<and> r \<in> set (responses db)
     \<and> r_response_id r = o_response_id d \<and> local_ok d r (attempts_of db (o_id d)) (receipts_of db (o_id d))"

lemma outbox_viewD:
  assumes "outbox_view db d r"
  shows "delivery_inv db" "d \<in> set (deliveries db)" "r \<in> set (responses db)" "r_response_id r = o_response_id d"
    "local_ok d r (attempts_of db (o_id d)) (receipts_of db (o_id d))"
    "delivery_table_ok (deliveries db)" "response_table_ok (responses db)" "attempt_table_ok (attempts db)"
    "delivery_row_ok d" "response_row_ok r"
  using assms delivery_invD(3,6,7) [of db] delivery_table_okD(1) [of "deliveries db" d] response_table_okD(1) [of "responses db" r]
  by (auto simp: outbox_view_def)

lemma outbox_view_exists:
  assumes "delivery_inv db" "d \<in> set (deliveries db)"
  obtains r where "outbox_view db d r" "response_get (o_response_id d) db = Some r"
  using delivery_inv_local [OF assms] assms that by (metis outbox_view_def)

lemma moved_inv:
  assumes v: "outbox_view db d r" and a: "a \<in> set (attempts_of db (o_id d))" "attempt_identity a' = attempt_identity a"
    and ident: "delivery_identity d' = delivery_identity d" "response_identity r' = response_identity r"
    and rows: "delivery_row_ok d'" "response_row_ok r'"
    and cs: "receipt_table_ok (receipts db @ cs)" "\<And>c. c \<in> set cs \<Longrightarrow> c_delivery_id c = o_id d \<and> c_attempt_id c = a_id a"
    and loc: "local_ok d' r' (replace_by a_id (a_id a) a' (attempts_of db (o_id d))) (receipts_of db (o_id d) @ cs)"
  shows "delivery_inv (moved_db d d' r r' (swap_attempt a a' db) cs db)"
proof (rule delivery_inv_replace [OF outbox_viewD(1-4) [OF v] ident rows])
  let ?db = "moved_db d d' r r' (swap_attempt a a' db) cs db"
  note inv = outbox_viewD(1) [OF v] and A = attempt_table_okD [OF outbox_viewD(8) [OF v]]
  have a1: "a \<in> set (attempts db)" "a_delivery_id a = o_id d" using a(1) by (auto simp: attempts_of_def)
  have a2: "a_id a' = a_id a" "a_delivery_id a' = a_delivery_id a" using a(2) by (auto simp: attempt_identity_def)
  show "attempt_table_ok (attempts ?db)"
    using attempt_table_replace [OF outbox_viewD(8) [OF v] a1(1) a(2)] by (simp add: moved_db_def swap_attempt_def)
  show "a_id x < attempt_seq ?db \<and> a_delivery_id x < delivery_seq ?db" if "x \<in> set (attempts ?db)" for x
    using that delivery_invD(5,8) [OF inv] delivery_invD(8) [OF inv a1(1)] a1 a2
    by (auto simp: moved_db_def swap_attempt_def set_replace_by split: if_splits)
  show "attempts_of ?db j = attempts_of db j" if "j \<noteq> o_id d" for j
    using attempts_of_replace_other [OF a1(1) A(2) a2(2), of j] that a1(2)
    by (simp add: moved_db_def swap_attempt_def attempts_of_def)
  show "receipt_table_ok (receipts ?db)" using cs(1) by (simp add: moved_db_def)
  show "\<exists>x\<in>set (attempts ?db). a_id x = c_attempt_id c \<and> a_delivery_id x = c_delivery_id c" if "c \<in> set (receipts ?db)" for c
  proof -
    have "\<exists>x\<in>set (attempts db). a_id x = c_attempt_id c \<and> a_delivery_id x = c_delivery_id c"
      using that cs(2) [of c] a1 inv by (auto simp: moved_db_def delivery_inv_def outbox_tables_ok_def)
    then obtain x where x: "x \<in> set (attempts db)" "a_id x = c_attempt_id c" "a_delivery_id x = c_delivery_id c" by blast
    show ?thesis
    proof (cases "a_id x = a_id a")
      case True
      then have "x = a" using distinct_key_eq [OF A(2) x(1) a1(1)] by simp
      with x a1 a2 show ?thesis by (force simp: moved_db_def swap_attempt_def set_replace_by)
    next
      case False
      with x show ?thesis by (force simp: moved_db_def swap_attempt_def set_replace_by)
    qed
  qed
  show "receipts_of ?db j = receipts_of db j" if "j \<noteq> o_id d" for j
    using cs(2) that by (auto simp: moved_db_def receipts_of_def filter_empty_conv)
  have "receipts_of ?db (o_id d) = receipts_of db (o_id d) @ cs"
    using cs(2) by (auto simp: moved_db_def receipts_of_def)
  moreover have "attempts_of ?db (o_id d) = replace_by a_id (a_id a) a' (attempts_of db (o_id d))"
    using attempts_of_replace_same [OF a2(2) a1(1) A(2) a1(2)] by (simp add: moved_db_def swap_attempt_def attempts_of_def)
  ultimately show "local_ok d' r' (attempts_of ?db (o_id d)) (receipts_of ?db (o_id d))" using loc by simp
qed (simp_all add: moved_db_def)

lemma moved_inv_still:
  assumes v: "outbox_view db d r" and ident: "delivery_identity d' = delivery_identity d" "response_identity r' = response_identity r"
    and rows: "delivery_row_ok d'" "response_row_ok r'"
    and loc: "local_ok d' r' (attempts_of db (o_id d)) (receipts_of db (o_id d))"
  shows "delivery_inv (moved_db d d' r r' (attempts db) [] db)"
proof (rule delivery_inv_replace [OF outbox_viewD(1-4) [OF v] ident rows])
  note inv = outbox_viewD(1) [OF v]
  show "\<exists>x\<in>set (attempts (moved_db d d' r r' (attempts db) [] db)). a_id x = c_attempt_id c \<and> a_delivery_id x = c_delivery_id c"
    if "c \<in> set (receipts (moved_db d d' r r' (attempts db) [] db))" for c
    using that inv by (auto simp: moved_db_def delivery_inv_def outbox_tables_ok_def)
  show "local_ok d' r' (attempts_of (moved_db d d' r r' (attempts db) [] db) (o_id d))
      (receipts_of (moved_db d d' r r' (attempts db) [] db) (o_id d))"
    using loc by (simp add: moved_db_def attempts_of_def receipts_of_def)
qed (use outbox_viewD(1) [OF v] delivery_invD [of db] in \<open>auto simp: moved_db_def attempts_of_def receipts_of_def\<close>)

lemma moved_get:
  assumes "outbox_view db d r" "delivery_identity d' = delivery_identity d"
  shows "delivery_required (o_id d) (moved_db d d' r r' ats cs db) = Inr d'"
  using lookup_replace_by [OF delivery_table_okD(2) [OF outbox_viewD(6) [OF assms(1)]] outbox_viewD(2) [OF assms(1)] refl, of d'] assms(2)
  by (simp add: delivery_required_def delivery_get_def moved_db_def delivery_identity_def)

lemma moved_delivery:
  assumes "outbox_view db d r"
  shows "db\<lparr>deliveries := replace_by o_id (o_id d) d' (deliveries db)\<rparr> = moved_db d d' r r (attempts db) [] db"
  using replace_by_same [OF response_table_okD(2) [OF outbox_viewD(7) [OF assms]] outbox_viewD(3) [OF assms]]
  by (simp add: moved_db_def)

lemma move_delivery:
  assumes v: "outbox_view db d r" and p: "p d" "\<And>q. p q \<Longrightarrow> o_id q = o_id d"
    and f: "delivery_identity (f d) = delivery_identity d" "delivery_row_ok (f d)"
  shows "delivery_update p f db = (Inr 1, moved_db d (f d) r r (attempts db) [] db)"
  unfolding moved_delivery [OF v, symmetric]
  by (rule delivery_update_one [OF outbox_viewD(6) [OF v] outbox_viewD(2) [OF v], where p = p and f = f, OF p f])

lemma move_response:
  assumes v: "outbox_view db d r" and p: "p r" "\<And>q. p q \<Longrightarrow> r_response_id q = r_response_id r"
    and g: "response_identity (g r) = response_identity r" "response_row_ok (g r)"
  shows "response_update p g (moved_db d d' r r ats cs db) = (Inr 1, moved_db d d' r (g r) ats cs db)"
proof -
  let ?db = "moved_db d d' r r ats cs db"
  have eq: "responses ?db = responses db"
    using replace_by_same [OF response_table_okD(2) [OF outbox_viewD(7) [OF v]] outbox_viewD(3) [OF v]]
    by (simp add: moved_db_def)
  have "response_update p g ?db =
      (Inr 1, ?db\<lparr>responses := replace_by r_response_id (r_response_id r) (g r) (responses ?db)\<rparr>)"
    by (rule response_update_one [where p = p and f = g and r = r, OF _ _ p g]) (use outbox_viewD(3,7) [OF v] in \<open>simp_all only: eq\<close>)
  then show ?thesis unfolding eq by (simp add: moved_db_def)
qed

lemma move_attempt:
  assumes v: "outbox_view db d r" and a: "a \<in> set (attempts_of db (o_id d))"
    and p: "p a" "\<And>q. p q \<Longrightarrow> a_id q = a_id a" and h: "attempt_identity (h a) = attempt_identity a"
  shows "attempt_update p h (moved_db d d' r r' (attempts db) cs db) =
    (Inr 1, moved_db d d' r r' (swap_attempt a (h a) db) cs db)"
proof -
  let ?db = "moved_db d d' r r' (attempts db) cs db"
  have eq: "attempts ?db = attempts db" by (simp add: moved_db_def)
  have "a \<in> set (attempts db)" using a by (simp add: attempts_of_def)
  then have "attempt_update p h ?db = (Inr 1, ?db\<lparr>attempts := replace_by a_id (a_id a) (h a) (attempts ?db)\<rparr>)"
    by (intro attempt_update_one [where p = p and f = h and a = a, OF _ _ p h]) (use outbox_viewD(8) [OF v] in \<open>simp_all only: eq\<close>)
  then show ?thesis unfolding eq by (simp add: moved_db_def swap_attempt_def)
qed

section \<open>A delivered part\<close>

lemma swap_in_flight:
  assumes "in_flight_ok d ats" "a \<in> set ats" "a_status a = A_DELIVERING" "a_status a' \<noteq> A_DELIVERING"
    and x: "x \<in> set (replace_by a_id (a_id a) a' ats)"
  shows "a_status x \<noteq> A_DELIVERING"
  using assms by (auto simp: set_replace_by in_flight_ok_def split: if_splits)

lemma swap_ledger:
  assumes led: "ledger_ok d ats rcs" and a: "a \<in> set ats" "a_status a \<noteq> A_DELIVERED" "distinct (map a_id ats)"
    and c: "c \<in> set rcs"
  shows "c_response_id c = o_response_id d
    \<and> (\<exists>x\<in>set (replace_by a_id (a_id a) a' ats). a_id x = c_attempt_id c \<and> a_part_ordinal x = c_part_ordinal c \<and> a_status x = A_DELIVERED)"
proof -
  from led c obtain x where x: "x \<in> set ats" "a_id x = c_attempt_id c" "a_part_ordinal x = c_part_ordinal c" "a_status x = A_DELIVERED"
    and id: "c_response_id c = o_response_id d"
    by (auto simp: ledger_ok_def)
  then have "a_id x \<noteq> a_id a" using distinct_key_eq [OF a(3) x(1) a(1)] a(2) by auto
  with x id show ?thesis by (force simp: set_replace_by)
qed

lemma attempts_of_distinct: "attempt_table_ok (attempts db) \<Longrightarrow> distinct (map a_id (attempts_of db i))"
  by (auto dest: attempt_table_okD(2) simp: attempts_of_def distinct_map_filter)

lemma local_ok_part_delivered:
  assumes loc: "local_ok d r ats rcs" and st: "o_status d = O_DELIVERING"
    and a: "a \<in> set ats" "a_status a = A_DELIVERING" "distinct (map a_id ats)"
    and k: "k = o_next_part_ordinal d" "0 \<le> k" and fin: "fin \<longleftrightarrow> k + 1 = r_part_count r"
    and c: "c_part_ordinal c = k" "c_response_id c = o_response_id d" "c_attempt_id c = a_id a"
  shows "local_ok (part_delivered_values fin k t d) (if fin then response_delivered_values t r else r)
    (replace_by a_id (a_id a) (attempt_delivered_values pid payload t a) ats) (rcs @ [c])"
proof -
  let ?d' = "part_delivered_values fin k t d" and ?a' = "attempt_delivered_values pid payload t a"
  have fl: "in_flight_ok d ats" and led: "ledger_ok d ats rcs" using loc by (auto simp: local_ok_def)
  have ak: "a_part_ordinal a = k" using fl a k by (auto simp: in_flight_ok_def)
  have "in_flight_ok ?d' (replace_by a_id (a_id a) ?a' ats)"
    using swap_in_flight [OF fl a(1,2), of ?a'] by (auto simp: in_flight_ok_def attempt_delivered_values_def)
  moreover have "ledger_ok ?d' (replace_by a_id (a_id a) ?a' ats) (rcs @ [c])"
    unfolding ledger_ok_def
  proof (intro conjI ballI)
    have "nat (k + 1) = Suc (nat k)" using k(2) by simp
    moreover have "map c_part_ordinal rcs = map int [0..<nat k]" using led k(1) by (simp add: ledger_ok_def)
    ultimately show "map c_part_ordinal (rcs @ [c]) = map int [0..<nat (o_next_part_ordinal ?d')]"
      using c(1) k(2) by (simp add: part_delivered_values_def)
  next
    fix e assume "e \<in> set (rcs @ [c])"
    then consider "e \<in> set rcs" | "e = c" by auto
    then have "c_response_id e = o_response_id d \<and> (\<exists>x\<in>set (replace_by a_id (a_id a) ?a' ats).
        a_id x = c_attempt_id e \<and> a_part_ordinal x = c_part_ordinal e \<and> a_status x = A_DELIVERED)"
    proof cases
      case 1
      with swap_ledger [OF led a(1) _ a(3)] a(2) show ?thesis by simp
    next
      case 2
      moreover have "?a' \<in> set (replace_by a_id (a_id a) ?a' ats)" using a(1) by (force simp: set_replace_by)
      moreover have "a_id ?a' = a_id a" "a_part_ordinal ?a' = k" "a_status ?a' = A_DELIVERED"
        using ak by (simp_all add: attempt_delivered_values_def)
      ultimately show ?thesis using c by metis
    qed
    then show "c_response_id e = o_response_id ?d'"
      "\<exists>x\<in>set (replace_by a_id (a_id a) ?a' ats). a_id x = c_attempt_id e \<and> a_part_ordinal x = c_part_ordinal e \<and> a_status x = A_DELIVERED"
      by (auto simp: part_delivered_values_def)
  qed
  ultimately show ?thesis
    using loc st fin k
    by (auto simp: local_ok_def part_delivered_values_def response_delivered_values_def parts_ok_def claim_ok_def progress_ok_def)
qed

lemma receipt_table_snoc:
  assumes v: "outbox_view db d r" and a: "a \<in> set (attempts_of db (o_id d))" "a_status a = A_DELIVERING"
    and c: "c_delivery_id c = o_id d" "c_part_ordinal c = o_next_part_ordinal d" "c_attempt_id c = a_id a"
  shows "receipt_table_ok (receipts db @ [c])"
proof -
  note inv = outbox_viewD(1) [OF v]
  have tab: "receipt_table_ok (receipts db)" by (rule delivery_invD(4) [OF inv])
  have led: "ledger_ok d (attempts_of db (o_id d)) (receipts_of db (o_id d))" using outbox_viewD(5) [OF v] by (simp add: local_ok_def)
  have nn: "0 \<le> o_next_part_ordinal d" using outbox_viewD(9) [OF v] by (simp add: delivery_row_ok_def)
  have new: "(c_delivery_id e, c_part_ordinal e) \<noteq> (c_delivery_id c, c_part_ordinal c) \<and> c_attempt_id e \<noteq> c_attempt_id c"
    if e: "e \<in> set (receipts db)" for e
  proof (cases "c_delivery_id e = o_id d")
    case True
    then have er: "e \<in> set (receipts_of db (o_id d))" using e by (simp add: receipts_of_def)
    then have "c_part_ordinal e \<in> set (map c_part_ordinal (receipts_of db (o_id d)))" by auto
    then have "c_part_ordinal e \<in> set (map int [0..<nat (o_next_part_ordinal d)])" using led unfolding ledger_ok_def by simp
    then have "c_part_ordinal e < o_next_part_ordinal d" using nn by auto
    moreover obtain x where "x \<in> set (attempts_of db (o_id d))" "a_id x = c_attempt_id e" "a_status x = A_DELIVERED"
      using led er by (auto simp: ledger_ok_def)
    then have "c_attempt_id e \<noteq> a_id a"
      using distinct_key_eq [OF attempts_of_distinct [OF outbox_viewD(8) [OF v]] _ a(1)] a(2) by (metis DeliveryAttemptStatus.distinct(1))
    ultimately show ?thesis using c by auto
  next
    case False
    obtain x where "x \<in> set (attempts db)" "a_id x = c_attempt_id e" "a_delivery_id x = c_delivery_id e"
      using inv e by (auto simp: delivery_inv_def outbox_tables_ok_def)
    moreover have "a \<in> set (attempts db)" "a_delivery_id a = o_id d" using a(1) by (auto simp: attempts_of_def)
    ultimately have "c_attempt_id e \<noteq> a_id a"
      using distinct_key_eq [OF attempt_table_okD(2) [OF outbox_viewD(8) [OF v]], of x a] False by metis
    with False c show ?thesis by auto
  qed
  show ?thesis
    unfolding receipt_table_ok_def
  proof (intro conjI distinct_map_snoc)
    show "list_all (\<lambda>c. c_part_ordinal c \<ge> 0) (receipts db @ [c])" using tab nn c by (simp add: receipt_table_ok_def)
  qed (use tab new in \<open>auto simp: receipt_table_ok_def\<close>)
qed

text \<open>
  What a session that holds a claim relies on: as long as the delivery still carries its
  token, no other session has touched the delivery, its response, its attempts or its receipts.
\<close>

definition fenced :: "int \<Rightarrow> string \<Rightarrow> gateway_db \<Rightarrow> gateway_db \<Rightarrow> bool" where
  "fenced i token u v \<longleftrightarrow>
     (\<forall>d\<in>set (deliveries v). o_id d = i \<and> o_status d = O_DELIVERING \<and> o_claim_token d = Some token \<longrightarrow>
        d \<in> set (deliveries u) \<and> attempts_of v i = attempts_of u i \<and> receipts_of v i = receipts_of u i
        \<and> response_get (o_response_id d) v = response_get (o_response_id d) u)"

lemma fenced_refl [simp]: "fenced i token u u"
  by (simp add: fenced_def)

definition completed_time :: "clocks \<Rightarrow> instant option \<Rightarrow> instant" where
  "completed_time ck tm = (case tm of Some x \<Rightarrow> x | None \<Rightarrow> wall_now ck)"

text \<open>The receipt and the database a delivered part leaves.\<close>

definition part_receipt :: "DeliveryOutboxRecord \<Rightarrow> DeliveryAttempt \<Rightarrow> json \<Rightarrow> string option \<Rightarrow> instant \<Rightarrow> DeliveryReceipt" where
  "part_receipt d a payload pid t =
     \<lparr>c_delivery_id = o_id d, c_part_ordinal = o_next_part_ordinal d, c_response_id = o_response_id d,
      c_attempt_id = a_id a, c_provider_message_id = pid, c_receipt_payload = payload, c_delivered_at = t\<rparr>"

definition delivered_db ::
  "DeliveryOutboxRecord \<Rightarrow> ResponseRecord \<Rightarrow> DeliveryAttempt \<Rightarrow> json \<Rightarrow> string option \<Rightarrow> instant \<Rightarrow> gateway_db \<Rightarrow> gateway_db" where
  "delivered_db d r a payload pid t db =
     (let final = (o_next_part_ordinal d + 1 = r_part_count r) in
      moved_db d (part_delivered_values final (o_next_part_ordinal d) t d) r
        (if final then response_delivered_values t r else r)
        (swap_attempt a (attempt_delivered_values pid payload t a) db) [part_receipt d a payload pid t] db)"

lemma part_delivered_values_ok:
  "delivery_row_ok d \<Longrightarrow> 0 \<le> k \<Longrightarrow> delivery_row_ok (part_delivered_values fin k t d)"
  "delivery_identity (part_delivered_values fin k t d) = delivery_identity d"
  by (auto simp: part_delivered_values_def delivery_row_ok_def delivery_identity_def null_or_nonempty_def)

lemma response_delivered_values_ok:
  "response_row_ok r \<Longrightarrow> response_row_ok (response_delivered_values t r)"
  "response_identity (response_delivered_values t r) = response_identity r"
  by (auto simp: response_delivered_values_def response_row_ok_def response_identity_def null_or_nonempty_def)

lemma attempt_values_identity:
  "attempt_identity (attempt_delivered_values pid payload t a) = attempt_identity a"
  "attempt_identity (attempt_finish_values s code t a) = attempt_identity a"
  by (simp_all add: attempt_delivered_values_def attempt_finish_values_def attempt_identity_def)

lemma next_part_exists:
  assumes v: "outbox_view db d r" and st: "o_status d \<noteq> O_DELIVERED"
  shows "\<exists>p\<in>set (r_parts r). int (p_ordinal p) = o_next_part_ordinal d"
proof -
  have "0 \<le> o_next_part_ordinal d" using outbox_viewD(9) [OF v] by (simp add: delivery_row_ok_def)
  moreover have "parts_ok r" "o_next_part_ordinal d < r_part_count r"
    using outbox_viewD(5) [OF v] st by (auto simp: local_ok_def progress_ok_def)
  ultimately have "nat (o_next_part_ordinal d) \<in> set (map p_ordinal (r_parts r))" "0 \<le> o_next_part_ordinal d"
    by (auto simp: parts_ok_def)
  then obtain p where "p \<in> set (r_parts r)" "nat (o_next_part_ordinal d) = p_ordinal p" by auto
  moreover from this have "int (p_ordinal p) = o_next_part_ordinal d" using \<open>0 \<le> o_next_part_ordinal d\<close> by linarith
  ultimately show ?thesis by blast
qed

text \<open>The holder of the claim, with the attempt of the part in flight, can always record it.\<close>

definition in_hand :: "gateway_db \<Rightarrow> DeliveryOutboxRecord \<Rightarrow> ResponseRecord \<Rightarrow> DeliveryAttempt \<Rightarrow> bool" where
  "in_hand db d r a \<longleftrightarrow> outbox_view db d r \<and> o_status d = O_DELIVERING
     \<and> a \<in> set (attempts_of db (o_id d)) \<and> a_status a = A_DELIVERING"

lemma in_handD:
  assumes "in_hand db d r a"
  shows "outbox_view db d r" "o_status d = O_DELIVERING" "a \<in> set (attempts_of db (o_id d))" "a_status a = A_DELIVERING"
    "a_part_ordinal a = o_next_part_ordinal d" "r_status r = R_DELIVERING" "0 \<le> o_next_part_ordinal d"
  using assms outbox_viewD(5,9) [of db d r]
  by (auto simp: in_hand_def local_ok_def in_flight_ok_def delivery_row_ok_def)

lemma delivered_inv:
  assumes "in_hand db d r a"
  shows "delivery_inv (delivered_db d r a payload pid t db)"
proof -
  note h = in_handD [OF assms]
  note v = outbox_viewD [OF h(1)]
  show ?thesis
    unfolding delivered_db_def Let_def
  proof (rule moved_inv [OF h(1,3) attempt_values_identity(1) part_delivered_values_ok(2)])
    show "receipt_table_ok (receipts db @ [part_receipt d a payload pid t])"
      by (rule receipt_table_snoc [OF h(1,3,4)]) (simp_all add: part_receipt_def)
    show "local_ok (part_delivered_values (o_next_part_ordinal d + 1 = r_part_count r) (o_next_part_ordinal d) t d)
       (if o_next_part_ordinal d + 1 = r_part_count r then response_delivered_values t r else r)
       (replace_by a_id (a_id a) (attempt_delivered_values pid payload t a) (attempts_of db (o_id d)))
       (receipts_of db (o_id d) @ [part_receipt d a payload pid t])"
      by (rule local_ok_part_delivered [OF v(5) h(2,3,4) attempts_of_distinct [OF v(8)] refl h(7)])
         (simp_all add: part_receipt_def)
  qed (use v(9,10) h(7) in \<open>auto simp: part_delivered_values_ok response_delivered_values_ok part_receipt_def\<close>)
qed

lemma delivered_foreign_keys:
  assumes h: "in_hand db d r a" and r': "response_identity r' = response_identity r"
    and d': "delivery_identity d' = delivery_identity d"
  shows "receipt_foreign_keys_ok
    (moved_db d d' r r' (swap_attempt a (attempt_delivered_values pid payload t a) db) [] db) (part_receipt d a payload pid t)"
proof -
  note h = in_handD [OF h]
  note v = outbox_viewD [OF h(1)]
  from next_part_exists [OF h(1)] h(2) obtain p where
    p: "p \<in> set (r_parts r')" "int (p_ordinal p) = o_next_part_ordinal d" using r' by (auto simp: response_identity_def)
  have "d' \<in> set (replace_by o_id (o_id d) d' (deliveries db))" using v(2) by (force simp: set_replace_by)
  moreover have "r' \<in> set (replace_by r_response_id (r_response_id r) r' (responses db))" using v(3) by (force simp: set_replace_by)
  moreover have "attempt_delivered_values pid payload t a \<in> set (swap_attempt a (attempt_delivered_values pid payload t a) db)"
    using h(3) by (force simp: swap_attempt_def set_replace_by attempts_of_def)
  moreover have "a_id (attempt_delivered_values pid payload t a) = a_id a" "a_delivery_id (attempt_delivered_values pid payload t a) = o_id d"
    "a_part_ordinal (attempt_delivered_values pid payload t a) = o_next_part_ordinal d"
    using h(3,5) by (auto simp: attempt_delivered_values_def attempts_of_def)
  moreover have "o_id d' = o_id d" "o_response_id d' = o_response_id d" "r_response_id r' = o_response_id d"
    using d' r' v(4) by (auto simp: delivery_identity_def response_identity_def)
  ultimately show ?thesis
    using p unfolding receipt_foreign_keys_ok_def list_ex_iff part_receipt_def moved_db_def by simp blast
qed


text \<open>
  The answer of \<open>mark_part_delivered\<close>, whatever the other sessions did in between: refused
  without a trace, or the part is recorded on the delivery the token still holds.
\<close>

definition part_refused :: "(gateway_db \<Rightarrow> gateway_db) \<Rightarrow> 'a outcome \<Rightarrow> gateway_db \<Rightarrow> bool" where
  "part_refused race out db \<longleftrightarrow> (\<exists>e. fst out = Inl e) \<and> snd out \<in> {db, race db}"

lemma claim_where_cases:
  assumes inv: "delivery_inv db" "delivery_inv (race db)" and f: "fenced i token db (race db)"
    and c: "delivery_claimed i token db = Inr d"
  obtains (lost) "\<And>x. x \<in> set (deliveries (race db)) \<Longrightarrow> \<not> (o_id x = i \<and> o_status x = O_DELIVERING \<and> o_claim_token x = Some token)"
  | (held) r where "outbox_view (race db) d r" "o_claim_token d = Some token" "response_get (o_response_id d) db = Some r"
      "attempts_of (race db) i = attempts_of db i" "receipts_of (race db) i = receipts_of db i"
proof (cases "\<exists>x\<in>set (deliveries (race db)). o_id x = i \<and> o_status x = O_DELIVERING \<and> o_claim_token x = Some token")
  case True
  then obtain x where x: "x \<in> set (deliveries (race db))" "o_id x = i" "o_status x = O_DELIVERING" "o_claim_token x = Some token" by blast
  with f have same: "x \<in> set (deliveries db)" "attempts_of (race db) i = attempts_of db i" "receipts_of (race db) i = receipts_of db i"
    "response_get (o_response_id x) (race db) = response_get (o_response_id x) db" by (auto simp: fenced_def)
  have "x = d"
    using distinct_key_eq [OF delivery_table_okD(2) [OF delivery_invD(7) [OF inv(1)]] same(1)] delivery_claimed_Inr(1,2) [OF c] x(2) by simp
  moreover obtain r where "outbox_view (race db) x r" "response_get (o_response_id x) (race db) = Some r"
    using outbox_view_exists [OF inv(2) x(1)] by blast
  ultimately show ?thesis using held x same by metis
next
  case False
  with lost show ?thesis by blast
qed

lemma mark_part_delivered_held:
  assumes h: "in_hand (race db) d r a" and d: "o_id d = i" "o_claim_token d = Some token"
    and g: "delivery_claimed i token db = Inr d" "k = o_next_part_ordinal d" "required_attempt aid i k db = Inr a"
      "get_receipt i k db = None" "response_get (o_response_id d) db = Some r"
  shows "mark_part_delivered race ck i token aid k payload pid tm db =
    (Inr (part_delivered_values (k + 1 = r_part_count r) k (completed_time ck tm) d),
     delivered_db d r a payload pid (completed_time ck tm) (race db))"
proof -
  note hh = in_handD [OF h]
  note v = outbox_viewD [OF hh(1)]
  let ?db = "race db" and ?t = "completed_time ck tm" and ?fin = "k + 1 = r_part_count r"
  let ?d' = "part_delivered_values ?fin k ?t d" and ?a' = "attempt_delivered_values pid payload ?t a"
  let ?r' = "if ?fin then response_delivered_values ?t r else r"
  have u1: "delivery_update (\<lambda>x. o_id x = i \<and> o_status x = O_DELIVERING \<and> o_claim_token x = Some token \<and> o_next_part_ordinal x = k)
      (part_delivered_values ?fin k ?t) ?db = (Inr 1, moved_db d ?d' r r (attempts ?db) [] ?db)"
    by (rule move_delivery [OF hh(1)]) (use d g(2) hh(2,7) v(9) in \<open>auto simp: part_delivered_values_ok\<close>)
  have ur: "response_update (\<lambda>x. r_response_id x = o_response_id d \<and> r_status x = R_DELIVERING)
      (response_delivered_values ?t) (moved_db d d'' r r ats cs ?db) = (Inr 1, moved_db d d'' r (response_delivered_values ?t r) ats cs ?db)"
    for d'' ats cs
    by (rule move_response [OF hh(1)]) (use v(4,10) hh(6) in \<open>auto simp: response_delivered_values_ok\<close>)
  have u2: "(if ?fin then response_update (\<lambda>x. r_response_id x = o_response_id d \<and> r_status x = R_DELIVERING)
        (response_delivered_values ?t) (moved_db d ?d' r r (attempts ?db) [] ?db)
      else (Inr 1, moved_db d ?d' r r (attempts ?db) [] ?db)) = (Inr 1, moved_db d ?d' r ?r' (attempts ?db) [] ?db)"
    by (simp add: ur)
  have u3: "attempt_update (\<lambda>x. a_id x = a_id a) (attempt_delivered_values pid payload ?t)
      (moved_db d ?d' r ?r' (attempts ?db) [] ?db) = (Inr 1, moved_db d ?d' r ?r' (swap_attempt a ?a' ?db) [] ?db)"
    by (rule move_attempt [OF hh(1,3)]) (simp_all add: attempt_values_identity)
  let ?c = "part_receipt d a payload pid ?t"
  have rc: "\<lparr>c_delivery_id = i, c_part_ordinal = k, c_response_id = o_response_id d, c_attempt_id = a_id a,
      c_provider_message_id = pid, c_receipt_payload = payload, c_delivered_at = ?t\<rparr> = ?c"
    using d(1) g(2) by (simp add: part_receipt_def)
  have fk: "receipt_foreign_keys_ok (moved_db d ?d' r ?r' (swap_attempt a ?a' ?db) [] ?db) ?c"
    by (rule delivered_foreign_keys [OF h]) (simp_all add: part_delivered_values_ok response_delivered_values_ok)
  have tab: "receipt_table_ok (receipts ?db @ [?c])"
    by (rule receipt_table_snoc [OF hh(1,3,4)]) (simp_all add: part_receipt_def)
  have m: "(moved_db d ?d' r ?r' (swap_attempt a ?a' ?db) [] ?db)\<lparr>receipts := receipts ?db @ [?c]\<rparr>
      = delivered_db d r a payload pid ?t ?db" "receipts (moved_db d ?d' r ?r' (swap_attempt a ?a' ?db) [] ?db) = receipts ?db"
    by (simp_all add: delivered_db_def moved_db_def g(2))
  have q: "delivery_required i (delivered_db d r a payload pid ?t ?db) = Inr ?d'"
    unfolding delivered_db_def Let_def g(2) d(1) [symmetric] by (rule moved_get [OF hh(1) part_delivered_values_ok(2)])
  have t: "(case tm of None \<Rightarrow> wall_now ck | Some x \<Rightarrow> x) = ?t" by (simp add: completed_time_def)
  show ?thesis
    unfolding mark_part_delivered_def checked_def g(1,3,5) sum.case option.case prod.case t Let_def rc u1 u2 u3 m
    using hh(4) g(2) g(4) tab fk q by (simp only: simp_thms if_True if_False not_True_eq_False)
qed

lemma mark_part_delivered_cases:
  assumes inv: "delivery_inv db" "delivery_inv (race db)" and f: "fenced i token db (race db)"
  obtains (refused) "part_refused race (mark_part_delivered race ck i token aid k payload pid tm db) db"
  | (recorded) d r a where "in_hand (race db) d r a" "o_id d = i" "o_claim_token d = Some token"
      "k = o_next_part_ordinal d" "a_id a = aid"
      "mark_part_delivered race ck i token aid k payload pid tm db =
         (Inr (part_delivered_values (k + 1 = r_part_count r) k (completed_time ck tm) d),
          delivered_db d r a payload pid (completed_time ck tm) (race db))"
proof -
  let ?out = "mark_part_delivered race ck i token aid k payload pid tm db"
  have early: "part_refused race ?out db"
    if "\<not> (\<exists>d a r. delivery_claimed i token db = Inr d \<and> k = o_next_part_ordinal d \<and> required_attempt aid i k db = Inr a
        \<and> a_status a = A_DELIVERING \<and> get_receipt i k db = None \<and> response_get (o_response_id d) db = Some r)"
    using that by (auto simp: mark_part_delivered_def part_refused_def checked_def Let_def split: sum.splits if_splits option.splits)
  show ?thesis
  proof (cases "\<exists>d a r. delivery_claimed i token db = Inr d \<and> k = o_next_part_ordinal d \<and> required_attempt aid i k db = Inr a
        \<and> a_status a = A_DELIVERING \<and> get_receipt i k db = None \<and> response_get (o_response_id d) db = Some r")
    case False
    with early refused show ?thesis by blast
  next
    case True
    then obtain d a r where g: "delivery_claimed i token db = Inr d" "k = o_next_part_ordinal d" "required_attempt aid i k db = Inr a"
      "a_status a = A_DELIVERING" "get_receipt i k db = None" "response_get (o_response_id d) db = Some r" by blast
    note d = delivery_claimed_Inr [OF g(1)] and a = required_attempt_Inr [OF g(3)]
    show ?thesis
    proof (rule claim_where_cases [where race = race, OF inv f g(1)], goal_cases lost held)
      case lost
      then have "delivery_update (\<lambda>x. o_id x = i \<and> o_status x = O_DELIVERING \<and> o_claim_token x = Some token
          \<and> o_next_part_ordinal x = k) h (race db) = (Inr 0, race db)" for h
        by (intro delivery_update_none [OF delivery_invD(7) [OF inv(2)]]) auto
      then have "part_refused race ?out db"
        by (simp add: mark_part_delivered_def g(1,3-6) g(2) [symmetric] part_refused_def Let_def)
      with refused show ?thesis by blast
    next
      case (held r')
      then have "r' = r" using g(6) by simp
      moreover have "a \<in> set (attempts_of db i)" using a by (simp add: attempts_of_def)
      ultimately have "in_hand (race db) d r a" using held d g(4) by (simp add: in_hand_def)
      then show ?thesis
        using recorded [of d r a] mark_part_delivered_held [OF _ d(2) held(2) g(1-3,5,6)] d(2) held(2) g(2) a(2) by blast
    qed
  qed
qed

text \<open>Undisturbed, the holder of the claim records the part.\<close>

lemma in_hand_guards:
  assumes h: "in_hand db d r a" and tok: "o_claim_token d = Some token" "py_strip token = token" "nonblank token"
      "length token \<le> DELIVERY_MAX_CLAIM_TOKEN_LENGTH"
  shows "delivery_claimed (o_id d) token db = Inr d" "required_attempt (a_id a) (o_id d) (o_next_part_ordinal d) db = Inr a"
    "get_receipt (o_id d) (o_next_part_ordinal d) db = None" "response_get (o_response_id d) db = Some r"
proof -
  note hh = in_handD [OF h]
  note v = outbox_viewD [OF hh(1)]
  have "delivery_get (o_id d) db = Some d"
    using lookup_by_distinct [OF delivery_table_okD(2) [OF v(6)] v(2)] by (simp add: delivery_get_def)
  then show "delivery_claimed (o_id d) token db = Inr d"
    using tok hh(2) by (simp add: delivery_claimed_def delivery_required_string_def delivery_required_def)
  have "a \<in> set (attempts db)" "a_delivery_id a = o_id d" using hh(3) by (auto simp: attempts_of_def)
  then show "required_attempt (a_id a) (o_id d) (o_next_part_ordinal d) db = Inr a"
    using lookup_by_distinct [OF attempt_table_okD(2) [OF v(8)], of a] hh(5) by (simp add: required_attempt_def)
  have "False" if "e \<in> set (receipts db)" "c_delivery_id e = o_id d" "c_part_ordinal e = o_next_part_ordinal d" for e
  proof -
    have "c_part_ordinal e \<in> set (map c_part_ordinal (receipts_of db (o_id d)))" using that by (force simp: receipts_of_def)
    then have "c_part_ordinal e \<in> set (map int [0..<nat (o_next_part_ordinal d)])"
      using v(5) unfolding local_ok_def ledger_ok_def by simp
    with that(3) show False by auto
  qed
  then show "get_receipt (o_id d) (o_next_part_ordinal d) db = None"
    unfolding get_receipt_def lookup_by_None by fastforce
  show "response_get (o_response_id d) db = Some r"
    using lookup_by_distinct [OF response_table_okD(2) [OF v(7)] v(3)] v(4) by (simp add: response_get_def)
qed

section \<open>The end of an attempt\<close>

text \<open>The three triples of statuses the entry points pass.\<close>

definition finish_kind :: "DeliveryAttemptStatus \<Rightarrow> DeliveryStatus \<Rightarrow> ResponseStatus option \<Rightarrow> bool" where
  "finish_kind sa sd sr \<longleftrightarrow> (sa, sd, sr) \<in>
     {(A_FAILED, O_QUEUED, None), (A_FAILED, O_FAILED, Some R_FAILED), (A_UNCERTAIN, O_UNCERTAIN, Some R_UNCERTAIN)}"

definition finished_db ::
  "DeliveryAttemptStatus \<Rightarrow> DeliveryStatus \<Rightarrow> ResponseStatus option \<Rightarrow> string \<Rightarrow> instant option \<Rightarrow> instant
    \<Rightarrow> DeliveryOutboxRecord \<Rightarrow> ResponseRecord \<Rightarrow> DeliveryAttempt \<Rightarrow> gateway_db \<Rightarrow> gateway_db" where
  "finished_db sa sd sr code avail t d r a db =
     moved_db d (delivery_finish_values sd code avail t d) r
       (case sr of None \<Rightarrow> r | Some s \<Rightarrow> response_finish_values s code t r)
       (swap_attempt a (attempt_finish_values sa code t a) db) [] db"

lemma finish_values_ok:
  "delivery_row_ok d \<Longrightarrow> nonblank code \<Longrightarrow> delivery_row_ok (delivery_finish_values sd code avail t d)"
  "delivery_identity (delivery_finish_values sd code avail t d) = delivery_identity d"
  "response_row_ok r \<Longrightarrow> nonblank code \<Longrightarrow> response_row_ok (response_finish_values s code t r)"
  "response_identity (response_finish_values s code t r) = response_identity r"
  using nonblank_sql_nonempty
  by (auto simp: delivery_finish_values_def delivery_row_ok_def delivery_identity_def null_or_nonempty_def
      response_finish_values_def response_row_ok_def response_identity_def)

lemma local_ok_finished:
  assumes loc: "local_ok d r ats rcs" and st: "o_status d = O_DELIVERING"
    and a: "a \<in> set ats" "a_status a = A_DELIVERING" "distinct (map a_id ats)" and kind: "finish_kind sa sd sr"
  shows "local_ok (delivery_finish_values sd code avail t d) (case sr of None \<Rightarrow> r | Some s \<Rightarrow> response_finish_values s code t r)
    (replace_by a_id (a_id a) (attempt_finish_values sa code t a) ats) rcs"
proof -
  let ?d' = "delivery_finish_values sd code avail t d" and ?a' = "attempt_finish_values sa code t a"
  have fl: "in_flight_ok d ats" and led: "ledger_ok d ats rcs" using loc by (auto simp: local_ok_def)
  have "a_status ?a' \<noteq> A_DELIVERING" using kind by (auto simp: finish_kind_def attempt_finish_values_def)
  then have "in_flight_ok ?d' (replace_by a_id (a_id a) ?a' ats)"
    using swap_in_flight [OF fl a(1,2), of ?a'] by (auto simp: in_flight_ok_def)
  moreover have "ledger_ok ?d' (replace_by a_id (a_id a) ?a' ats) rcs"
    using led swap_ledger [OF led a(1) _ a(3), of _ ?a'] a(2) unfolding ledger_ok_def
    by (simp add: delivery_finish_values_def)
  ultimately show ?thesis
    using loc st kind
    by (auto simp: local_ok_def delivery_finish_values_def response_finish_values_def parts_ok_def claim_ok_def progress_ok_def finish_kind_def)
qed

lemma finished_inv:
  assumes "in_hand db d r a" "nonblank code" "finish_kind sa sd sr"
  shows "delivery_inv (finished_db sa sd sr code avail t d r a db)"
proof -
  note h = in_handD [OF assms(1)]
  note v = outbox_viewD [OF h(1)]
  show ?thesis
    unfolding finished_db_def
  proof (rule moved_inv [OF h(1,3) attempt_values_identity(2) finish_values_ok(2)])
    show "local_ok (delivery_finish_values sd code avail t d) (case sr of None \<Rightarrow> r | Some s \<Rightarrow> response_finish_values s code t r)
       (replace_by a_id (a_id a) (attempt_finish_values sa code t a) (attempts_of db (o_id d))) (receipts_of db (o_id d) @ [])"
      using local_ok_finished [OF v(5) h(2,3,4) attempts_of_distinct [OF v(8)] assms(3)] by simp
    show "receipt_table_ok (receipts db @ [])" using delivery_invD(4) [OF v(1)] by simp
  qed (use v(9,10) assms(2) finish_values_ok in \<open>auto split: option.splits\<close>)
qed

lemma finish_attempt_held:
  assumes h: "in_hand (race db) d r a" and d: "o_id d = i" "o_claim_token d = Some token" and kind: "finish_kind sa sd sr"
    and g: "delivery_claimed i token db = Inr d" "required_attempt aid i (o_next_part_ordinal d) db = Inr a"
      "delivery_required_string error ''error_code'' DELIVERY_MAX_ERROR_CODE_LENGTH = Inr code"
      "(case available of None \<Rightarrow> Inr None | Some x \<Rightarrow> map_sum id Some (aware_utc x ''available_at'')) = Inr avail"
  shows "finish_attempt race ck i token aid sa sd sr error available db =
    (Inr (delivery_finish_values sd code avail (wall_now ck) d), finished_db sa sd sr code avail (wall_now ck) d r a (race db))"
proof -
  note hh = in_handD [OF h]
  note v = outbox_viewD [OF hh(1)]
  have code: "nonblank code" using delivery_required_string_Inr [OF g(3)] by blast
  let ?db = "race db" and ?t = "wall_now ck"
  let ?d' = "delivery_finish_values sd code avail ?t d" and ?a' = "attempt_finish_values sa code ?t a"
  let ?r' = "case sr of None \<Rightarrow> r | Some s \<Rightarrow> response_finish_values s code ?t r"
  have u1: "delivery_update (\<lambda>x. o_id x = i \<and> o_status x = O_DELIVERING \<and> o_claim_token x = Some token)
      (delivery_finish_values sd code avail ?t) ?db = (Inr 1, moved_db d ?d' r r (attempts ?db) [] ?db)"
    by (rule move_delivery [OF hh(1)]) (use d hh(2) v(9) code in \<open>auto simp: finish_values_ok\<close>)
  have ur: "response_update (\<lambda>x. r_response_id x = o_response_id d \<and> r_status x = R_DELIVERING)
      (response_finish_values s code ?t) (moved_db d d'' r r ats cs ?db) =
      (Inr 1, moved_db d d'' r (response_finish_values s code ?t r) ats cs ?db)" for d'' ats cs s
    by (rule move_response [OF hh(1)]) (use v(4,10) hh(6) code in \<open>auto simp: finish_values_ok\<close>)
  have u2: "(case sr of None \<Rightarrow> (Inr 1, moved_db d ?d' r r (attempts ?db) [] ?db)
      | Some s \<Rightarrow> response_update (\<lambda>x. r_response_id x = o_response_id d \<and> r_status x = R_DELIVERING)
        (response_finish_values s code ?t) (moved_db d ?d' r r (attempts ?db) [] ?db)) =
      (Inr 1, moved_db d ?d' r ?r' (attempts ?db) [] ?db)"
    by (cases sr) (simp_all add: ur)
  have u3: "attempt_update (\<lambda>x. a_id x = a_id a) (attempt_finish_values sa code ?t)
      (moved_db d ?d' r ?r' (attempts ?db) [] ?db) = (Inr 1, finished_db sa sd sr code avail ?t d r a ?db)"
    unfolding finished_db_def by (rule move_attempt [OF hh(1,3)]) (simp_all add: attempt_values_identity)
  have q: "delivery_required i (finished_db sa sd sr code avail ?t d r a ?db) = Inr ?d'"
    unfolding finished_db_def d(1) [symmetric] by (rule moved_get [OF hh(1) finish_values_ok(2)])
  show ?thesis
    unfolding finish_attempt_def checked_def g sum.case prod.case Let_def u1 u2 u3
    using hh(4) q by (simp only: simp_thms if_True if_False not_True_eq_False)
qed

lemma finish_attempt_cases:
  assumes inv: "delivery_inv db" "delivery_inv (race db)" and f: "fenced i token db (race db)" and kind: "finish_kind sa sd sr"
  obtains (refused) "part_refused race (finish_attempt race ck i token aid sa sd sr error available db) db"
  | (ended) d r a code avail where "in_hand (race db) d r a" "o_id d = i" "o_claim_token d = Some token" "a_id a = aid"
      "nonblank code"
      "finish_attempt race ck i token aid sa sd sr error available db =
         (Inr (delivery_finish_values sd code avail (wall_now ck) d), finished_db sa sd sr code avail (wall_now ck) d r a (race db))"
proof -
  let ?out = "finish_attempt race ck i token aid sa sd sr error available db"
  let ?avail = "case available of None \<Rightarrow> Inr None | Some x \<Rightarrow> map_sum id Some (aware_utc x ''available_at'')"
  let ?ok = "\<exists>d a code avail. delivery_claimed i token db = Inr d \<and> required_attempt aid i (o_next_part_ordinal d) db = Inr a
        \<and> a_status a = A_DELIVERING \<and> delivery_required_string error ''error_code'' DELIVERY_MAX_ERROR_CODE_LENGTH = Inr code
        \<and> ?avail = Inr avail"
  show ?thesis
  proof (cases ?ok)
    case False
    then have "part_refused race ?out db"
      by (auto simp: finish_attempt_def part_refused_def checked_def split: sum.splits if_splits)
    with refused show ?thesis by blast
  next
    case True
    then obtain d a code avail where g: "delivery_claimed i token db = Inr d" "required_attempt aid i (o_next_part_ordinal d) db = Inr a"
      "a_status a = A_DELIVERING" "delivery_required_string error ''error_code'' DELIVERY_MAX_ERROR_CODE_LENGTH = Inr code"
      "?avail = Inr avail" by blast
    note d = delivery_claimed_Inr [OF g(1)] and a = required_attempt_Inr [OF g(2)]
    show ?thesis
    proof (rule claim_where_cases [where race = race, OF inv f g(1)], goal_cases lost held)
      case lost
      then have "delivery_update (\<lambda>x. o_id x = i \<and> o_status x = O_DELIVERING \<and> o_claim_token x = Some token) h (race db)
          = (Inr 0, race db)" for h
        by (intro delivery_update_none [OF delivery_invD(7) [OF inv(2)]]) auto
      then have "part_refused race ?out db"
        by (simp add: finish_attempt_def g part_refused_def Let_def)
      with refused show ?thesis by blast
    next
      case (held r)
      have "a \<in> set (attempts_of db i)" using a by (simp add: attempts_of_def)
      then have "in_hand (race db) d r a" using held d g(3) by (simp add: in_hand_def)
      then show ?thesis
        using ended [of d r a code avail] finish_attempt_held [OF _ d(2) held(2) kind g(1,2,4,5)] d(2) held(2) a(2)
          delivery_required_string_Inr [OF g(4)] by blast
    qed
  qed
qed

section \<open>Recovering stale claims\<close>

lemma stale_values_ok:
  "delivery_row_ok d \<Longrightarrow> delivery_row_ok (stale_values b t d)"
  "delivery_identity (stale_values b t d) = delivery_identity d"
  "response_row_ok r \<Longrightarrow> response_row_ok (response_stale_values b k t r)"
  "response_identity (response_stale_values b k t r) = response_identity r"
  by (auto simp: stale_values_def delivery_row_ok_def delivery_identity_def null_or_nonempty_def CLAIM_EXPIRED_ERROR_def
      response_stale_values_def response_row_ok_def response_identity_def sql_nonempty_def)

text \<open>
  A stale claim with an attempt in flight may have reached the provider: the delivery becomes
  uncertain. Without one nothing was sent for the part, and the delivery goes back to the queue.
\<close>

definition recovered_db ::
  "instant \<Rightarrow> DeliveryOutboxRecord \<Rightarrow> ResponseRecord \<Rightarrow> DeliveryAttempt option \<Rightarrow> gateway_db \<Rightarrow> gateway_db" where
  "recovered_db t d r active db =
     moved_db d (stale_values (active \<noteq> None) t d) r (response_stale_values (active \<noteq> None) (o_next_part_ordinal d) t r)
       (case active of None \<Rightarrow> attempts db
        | Some a \<Rightarrow> swap_attempt a (attempt_finish_values A_UNCERTAIN CLAIM_EXPIRED_ERROR t a) db) [] db"

lemma local_ok_stale:
  assumes loc: "local_ok d r ats rcs" and st: "o_status d = O_DELIVERING" and none: "\<And>a. a \<in> set ats \<Longrightarrow> a_status a \<noteq> A_DELIVERING"
  shows "local_ok (stale_values False t d) (response_stale_values False (o_next_part_ordinal d) t r) ats rcs"
  using loc st none
  by (auto simp: local_ok_def stale_values_def response_stale_values_def parts_ok_def claim_ok_def progress_ok_def
      ledger_ok_def in_flight_ok_def)

lemma local_ok_uncertain:
  assumes loc: "local_ok d r ats rcs" and st: "o_status d = O_DELIVERING"
    and a: "a \<in> set ats" "a_status a = A_DELIVERING" "distinct (map a_id ats)"
  shows "local_ok (stale_values True t d) (response_stale_values True (o_next_part_ordinal d) t r)
    (replace_by a_id (a_id a) (attempt_finish_values A_UNCERTAIN CLAIM_EXPIRED_ERROR t a) ats) rcs"
proof -
  let ?d' = "stale_values True t d" and ?a' = "attempt_finish_values A_UNCERTAIN CLAIM_EXPIRED_ERROR t a"
  have fl: "in_flight_ok d ats" and led: "ledger_ok d ats rcs" using loc by (auto simp: local_ok_def)
  have "in_flight_ok ?d' (replace_by a_id (a_id a) ?a' ats)"
    using swap_in_flight [OF fl a(1,2), of ?a'] by (auto simp: in_flight_ok_def attempt_finish_values_def)
  moreover have "ledger_ok ?d' (replace_by a_id (a_id a) ?a' ats) rcs"
    using led swap_ledger [OF led a(1) _ a(3), of _ ?a'] a(2) unfolding ledger_ok_def by (simp add: stale_values_def)
  ultimately show ?thesis
    using loc st
    by (auto simp: local_ok_def stale_values_def response_stale_values_def parts_ok_def claim_ok_def progress_ok_def)
qed

lemma recovered_inv:
  assumes v: "outbox_view db d r" and st: "o_status d = O_DELIVERING"
    and act: "active = active_attempt (o_id d) (o_next_part_ordinal d) db"
  shows "delivery_inv (recovered_db t d r active db)"
proof (cases active)
  case None
  then have none: "active_attempt (o_id d) (o_next_part_ordinal d) db = None" using act by simp
  have "local_ok (stale_values False t d) (response_stale_values False (o_next_part_ordinal d) t r)
      (attempts_of db (o_id d)) (receipts_of db (o_id d))"
    by (rule local_ok_stale [OF outbox_viewD(5) [OF v] st no_active_attempt [OF outbox_viewD(5) [OF v] none]])
  with None show ?thesis
    using moved_inv_still [OF v stale_values_ok(2,4) stale_values_ok(1,3)] outbox_viewD(9,10) [OF v] by (simp add: recovered_db_def)
next
  case (Some a)
  with act active_attempt_Some [of "o_id d" "o_next_part_ordinal d" db a]
  have a: "a \<in> set (attempts_of db (o_id d))" "a_status a = A_DELIVERING" by (auto simp: attempts_of_def)
  note loc = local_ok_uncertain [OF outbox_viewD(5) [OF v] st a attempts_of_distinct [OF outbox_viewD(8) [OF v]], of t]
  have "delivery_inv (moved_db d (stale_values True t d) r (response_stale_values True (o_next_part_ordinal d) t r)
      (swap_attempt a (attempt_finish_values A_UNCERTAIN CLAIM_EXPIRED_ERROR t a) db) [] db)"
    by (rule moved_inv [OF v a(1) attempt_values_identity(2) stale_values_ok(2,4) stale_values_ok(1,3)])
       (use outbox_viewD(9,10) [OF v] delivery_invD(4) [OF outbox_viewD(1) [OF v]] loc in auto)
  with Some show ?thesis by (simp add: recovered_db_def)
qed

text \<open>The claims the loop may pick up: it looked at the row and its token before the race.\<close>

lemma recover_stale_held:
  assumes v: "outbox_view (race db) d r" and st: "o_status d = O_DELIVERING" "o_claim_token d = Some token"
      "o_channel d = channel" "sql_le (o_claimed_at d) cutoff" and g: "delivery_get (o_id d) db = Some d"
    and same: "attempts_of (race db) (o_id d) = attempts_of db (o_id d)"
  shows "recover_stale_delivery race channel cutoff t (o_id d) db =
    (let active = active_attempt (o_id d) (o_next_part_ordinal d) (race db) in
     (Inr (Some (stale_values (active \<noteq> None) t d)), recovered_db t d r active (race db)))"
proof -
  note w = outbox_viewD [OF v]
  let ?db = "race db" and ?k = "o_next_part_ordinal d"
  have act: "active_attempt (o_id d) ?k db = active_attempt (o_id d) ?k ?db"
  proof -
    have "filter (\<lambda>a. a_delivery_id a = o_id d \<and> a_part_ordinal a = ?k \<and> a_status a = A_DELIVERING) (attempts x) =
        filter (\<lambda>a. a_part_ordinal a = ?k \<and> a_status a = A_DELIVERING) (attempts_of x (o_id d))" for x
      by (simp add: attempts_of_def conj_ac)
    then show ?thesis using same by (simp add: active_attempt_def)
  qed
  let ?active = "active_attempt (o_id d) ?k ?db"
  let ?fl = "?active \<noteq> None"
  have rst: "r_status r = R_DELIVERING" using w(5) st(1) by (simp add: local_ok_def)
  have u1: "delivery_update (\<lambda>x. o_id x = o_id d \<and> o_channel x = channel \<and> o_status x = O_DELIVERING
        \<and> o_claim_token x = Some token \<and> sql_le (o_claimed_at x) cutoff) (stale_values ?fl t) ?db
      = (Inr 1, moved_db d (stale_values ?fl t d) r r (attempts ?db) [] ?db)"
    by (rule move_delivery [OF v]) (use st w(9) in \<open>auto simp: stale_values_ok\<close>)
  let ?ats = "case ?active of None \<Rightarrow> attempts ?db
      | Some a \<Rightarrow> swap_attempt a (attempt_finish_values A_UNCERTAIN CLAIM_EXPIRED_ERROR t a) ?db"
  have ua: "attempt_update (\<lambda>x. a_id x = a_id a \<and> a_status x = A_DELIVERING) (attempt_finish_values A_UNCERTAIN CLAIM_EXPIRED_ERROR t)
      (moved_db d d' r r (attempts ?db) [] ?db) =
      (Inr 1, moved_db d d' r r (swap_attempt a (attempt_finish_values A_UNCERTAIN CLAIM_EXPIRED_ERROR t a) ?db) [] ?db)"
    if "?active = Some a" for a d'
    by (rule move_attempt [OF v]) (use active_attempt_Some [OF that] in \<open>auto simp: attempt_values_identity attempts_of_def\<close>)
  have u2: "(case ?active of None \<Rightarrow> (Inr 1, moved_db d d' r r (attempts ?db) [] ?db)
      | Some a \<Rightarrow> attempt_update (\<lambda>x. a_id x = a_id a \<and> a_status x = A_DELIVERING)
          (attempt_finish_values A_UNCERTAIN CLAIM_EXPIRED_ERROR t) (moved_db d d' r r (attempts ?db) [] ?db)) =
      (Inr 1, moved_db d d' r r ?ats [] ?db)" for d'
    by (cases ?active) (simp_all add: ua)
  have u3: "response_update (\<lambda>x. r_response_id x = o_response_id d \<and> r_status x = R_DELIVERING)
      (response_stale_values ?fl ?k t) (moved_db d (stale_values ?fl t d) r r ?ats [] ?db) = (Inr 1, recovered_db t d r ?active ?db)"
    unfolding recovered_db_def
    by (rule move_response [OF v]) (use w(4,10) rst in \<open>auto simp: stale_values_ok\<close>)
  have "delivery_required (o_id d) (recovered_db t d r ?active ?db) = Inr (stale_values ?fl t d)"
    unfolding recovered_db_def by (rule moved_get [OF v stale_values_ok(2)])
  then have q: "delivery_get (o_id d) (recovered_db t d r ?active ?db) = Some (stale_values ?fl t d)"
    by (simp add: delivery_required_def split: option.splits)
  show ?thesis
    unfolding recover_stale_delivery_def g option.case st(2) Let_def act u1 prod.case sum.case u2 u3 q
    using st(1) by (simp only: simp_thms if_True if_False not_True_eq_False)
qed

lemma recover_stale_cases:
  assumes inv: "delivery_inv db" "delivery_inv (race db)"
    and f: "\<And>token. delivery_get i db = Some d \<Longrightarrow> o_claim_token d = Some token \<Longrightarrow> fenced i token db (race db)"
    and g: "delivery_get i db = Some d"
  obtains (skipped) "fst (recover_stale_delivery race channel cutoff t i db) = Inr None"
      "snd (recover_stale_delivery race channel cutoff t i db) \<in> {db, race db}"
  | (recovered) r token where "outbox_view (race db) d r" "o_status d = O_DELIVERING" "o_claim_token d = Some token"
      "o_channel d = channel" "sql_le (o_claimed_at d) cutoff" "o_id d = i"
      "recover_stale_delivery race channel cutoff t i db =
        (let active = active_attempt i (o_next_part_ordinal d) (race db) in
         (Inr (Some (stale_values (active \<noteq> None) t d)), recovered_db t d r active (race db)))"
proof (cases "o_status d = O_DELIVERING \<and> (\<exists>token. o_claim_token d = Some token)")
  case False
  then have "recover_stale_delivery race channel cutoff t i db = (Inr None, db)"
    using g by (auto simp: recover_stale_delivery_def split: option.splits)
  with skipped show ?thesis by simp
next
  case True
  then obtain token where tok: "o_status d = O_DELIVERING" "o_claim_token d = Some token" by blast
  have din: "d \<in> set (deliveries db)" "o_id d = i" using lookup_by_Some [OF g [unfolded delivery_get_def]] by auto
  note fn = f [OF g tok(2)]
  let ?w = "\<lambda>x. o_id x = o_id d \<and> o_channel x = channel \<and> o_status x = O_DELIVERING \<and> o_claim_token x = Some token
      \<and> sql_le (o_claimed_at x) cutoff"
  show ?thesis
  proof (cases "\<exists>x\<in>set (deliveries (race db)). ?w x")
    case False
    then have "delivery_update ?w h (race db) = (Inr 0, race db)" for h
      by (intro delivery_update_none [OF delivery_invD(7) [OF inv(2)]]) auto
    then have "recover_stale_delivery race channel cutoff t i db = (Inr None, race db)"
      using g tok by (simp add: recover_stale_delivery_def Let_def)
    with skipped show ?thesis by simp
  next
    case True
    then obtain x where x: "x \<in> set (deliveries (race db))" "?w x" by blast
    then have "x \<in> set (deliveries db)" and same: "attempts_of (race db) i = attempts_of db i"
      using fn din by (auto simp: fenced_def)
    then have "x = d" using distinct_key_eq [OF delivery_table_okD(2) [OF delivery_invD(7) [OF inv(1)]] _ din(1)] x(2) by blast
    with x obtain r where v: "outbox_view (race db) d r" using outbox_view_exists [OF inv(2)] by blast
    have "recover_stale_delivery race channel cutoff t (o_id d) db =
        (let active = active_attempt (o_id d) (o_next_part_ordinal d) (race db) in
         (Inr (Some (stale_values (active \<noteq> None) t d)), recovered_db t d r active (race db)))"
      by (rule recover_stale_held [where race = race, OF v tok]) (use x \<open>x = d\<close> g same din in auto)
    with recovered [OF v tok] x \<open>x = d\<close> din(2) show ?thesis by blast
  qed
qed

section \<open>Operator retry\<close>

definition retried_db :: "instant \<Rightarrow> instant \<Rightarrow> DeliveryOutboxRecord \<Rightarrow> ResponseRecord \<Rightarrow> gateway_db \<Rightarrow> gateway_db" where
  "retried_db scheduled t d r db =
     moved_db d (d\<lparr>o_status := O_QUEUED, o_available_at := scheduled, o_claim_token := None, o_claimed_at := None,
        o_completed_at := None, o_last_error_code := None, o_updated_at := t\<rparr>)
       r (r\<lparr>r_status := (if o_next_part_ordinal d > 0 then R_DELIVERING else R_GENERATED), r_failed_at := None,
        r_uncertain_at := None, r_last_error_code := None, r_updated_at := t\<rparr>) (attempts db) [] db"

lemma retried_inv:
  assumes v: "outbox_view db d r" and st: "o_status d = O_FAILED \<or> o_status d = O_UNCERTAIN"
  shows "delivery_inv (retried_db scheduled t d r db)"
  unfolding retried_db_def
  by (rule moved_inv_still [OF v])
     (use outbox_viewD(5,9,10) [OF v] st in \<open>auto simp: delivery_identity_def response_identity_def delivery_row_ok_def
       response_row_ok_def null_or_nonempty_def local_ok_def parts_ok_def claim_ok_def progress_ok_def ledger_ok_def in_flight_ok_def\<close>)

text \<open>A retry takes a failed delivery, or an uncertain one when that is explicitly allowed.\<close>

lemma delivery_retry_works:
  assumes v: "outbox_view db d r"
    and st: "o_status d = O_FAILED \<or> allow \<and> o_status d = O_UNCERTAIN"
    and sch: "(case available of None \<Rightarrow> Inr (wall_now ck) | Some x \<Rightarrow> aware_utc x ''available_at'') = Inr scheduled"
  shows "\<exists>d'. delivery_retry id ck (o_id d) allow available db = (Inr d', retried_db scheduled (wall_now ck) d r db)
    \<and> o_status d' = O_QUEUED \<and> o_next_part_ordinal d' = o_next_part_ordinal d"
proof -
  note w = outbox_viewD [OF v]
  let ?t = "wall_now ck"
  let ?f = "\<lambda>x. x\<lparr>o_status := O_QUEUED, o_available_at := scheduled, o_claim_token := None,
                         o_claimed_at := None, o_completed_at := None, o_last_error_code := None, o_updated_at := ?t\<rparr>"
  let ?g = "\<lambda>x. x\<lparr>r_status := (if o_next_part_ordinal d > 0 then R_DELIVERING else R_GENERATED), r_failed_at := None,
        r_uncertain_at := None, r_last_error_code := None, r_updated_at := ?t\<rparr>"
  let ?exp = "if o_status d = O_UNCERTAIN then R_UNCERTAIN else R_FAILED"
  have rst: "r_status r = ?exp" using w(5) st by (auto simp: local_ok_def)
  have g: "delivery_required (o_id d) db = Inr d"
    using lookup_by_distinct [OF delivery_table_okD(2) [OF w(6)] w(2)] by (simp add: delivery_required_def delivery_get_def)
  have u1: "delivery_update (\<lambda>x. o_id x = o_id d \<and> o_status x = o_status d) ?f db = (Inr 1, moved_db d (?f d) r r (attempts db) [] db)"
    by (rule move_delivery [OF v]) (use w(9) in \<open>auto simp: delivery_identity_def delivery_row_ok_def null_or_nonempty_def\<close>)
  have u2: "response_update (\<lambda>x. r_response_id x = o_response_id d \<and> r_status x = ?exp) ?g
      (moved_db d (?f d) r r (attempts db) [] db) = (Inr 1, retried_db scheduled ?t d r db)"
    unfolding retried_db_def
    by (rule move_response [OF v]) (use w(4,10) rst in \<open>auto simp: response_identity_def response_row_ok_def null_or_nonempty_def\<close>)
  have q: "delivery_required (o_id d) (retried_db scheduled ?t d r db) = Inr (?f d)"
    unfolding retried_db_def by (rule moved_get [OF v]) (simp add: delivery_identity_def)
  have "delivery_retry id ck (o_id d) allow available db = (Inr (?f d), retried_db scheduled ?t d r db)"
    unfolding delivery_retry_def g checked_def sum.case sch Let_def id_apply u1 prod.case u2 q
    using st by auto
  then show ?thesis by simp
qed


section \<open>The whole recovery pass\<close>

lemma recover_stale_delivery_pass:
  assumes inv: "delivery_inv db"
  obtains res db' where "recover_stale_delivery id channel cutoff t i db = (Inr res, db')" "delivery_inv db'"
    "\<And>x. x \<in> set (deliveries db') \<Longrightarrow> stale_where channel cutoff x \<Longrightarrow> x \<in> set (deliveries db) \<and> o_id x \<noteq> i"
proof (cases "delivery_get i db")
  case None
  then have "recover_stale_delivery id channel cutoff t i db = (Inr None, db)" by (simp add: recover_stale_delivery_def)
  moreover have "o_id x \<noteq> i" if "x \<in> set (deliveries db)" for x
    using None that by (auto simp: delivery_get_def lookup_by_None)
  ultimately show ?thesis using that inv by blast
next
  case (Some d)
  note d = lookup_by_Some [OF Some [unfolded delivery_get_def]]
  have only: "x = d" if "x \<in> set (deliveries db)" "o_id x = i" for x
    using distinct_key_eq [OF delivery_table_okD(2) [OF delivery_invD(7) [OF inv]] that(1), of d] d that(2) by simp
  show ?thesis
  proof (rule recover_stale_cases [where race = id and channel = channel and cutoff = cutoff and t = t, OF inv _ _ Some],
      goal_cases inv fenced skipped recovered)
    case skipped
    obtain r where v: "outbox_view (id db) d r" using outbox_view_exists [OF inv] d by auto
    have "\<not> stale_where channel cutoff d"
    proof
      assume "stale_where channel cutoff d"
      then obtain token where "o_status d = O_DELIVERING" "o_claim_token d = Some token" "o_channel d = channel"
        "sql_le (o_claimed_at d) cutoff" by (auto simp: stale_where_def)
      from recover_stale_held [where race = id and t = t, OF v this] Some d skipped(1) show False by (simp add: Let_def)
    qed
    with skipped only that [of None db] inv show ?thesis
      by (cases "recover_stale_delivery id channel cutoff t i db") auto
  next
    case (recovered r token)
    let ?db' = "recovered_db t d r (active_attempt i (o_next_part_ordinal d) db) db"
    have "x \<in> set (deliveries db) \<and> o_id x \<noteq> i" if "x \<in> set (deliveries ?db')" "stale_where channel cutoff x" for x
      using that recovered(6)
      by (auto simp: recovered_db_def moved_db_def set_replace_by stale_where_def stale_values_def split: if_splits)
    moreover have "delivery_inv ?db'" using recovered_inv [of "id db" d r] recovered by simp
    ultimately show ?thesis using that recovered(7) by (simp add: Let_def)
  qed (use inv in simp_all)
qed

lemma recover_stale_loop_pass:
  assumes "delivery_inv db"
  shows "\<exists>ds db'. recover_stale_loop id channel cutoff t ids db = (Inr ds, db') \<and> delivery_inv db'
    \<and> (\<forall>x\<in>set (deliveries db'). stale_where channel cutoff x \<longrightarrow> x \<in> set (deliveries db) \<and> o_id x \<notin> set ids)"
  using assms
proof (induction ids arbitrary: db)
  case (Cons i ids)
  obtain res db1 where one: "recover_stale_delivery id channel cutoff t i db = (Inr res, db1)" "delivery_inv db1"
    "\<And>x. x \<in> set (deliveries db1) \<Longrightarrow> stale_where channel cutoff x \<Longrightarrow> x \<in> set (deliveries db) \<and> o_id x \<noteq> i"
    using recover_stale_delivery_pass [OF Cons.prems] by metis
  from Cons.IH [OF one(2)] obtain ds db2 where two: "recover_stale_loop id channel cutoff t ids db1 = (Inr ds, db2)" "delivery_inv db2"
    "\<And>x. x \<in> set (deliveries db2) \<Longrightarrow> stale_where channel cutoff x \<Longrightarrow> x \<in> set (deliveries db1) \<and> o_id x \<notin> set ids" by blast
  have "recover_stale_loop id channel cutoff t (i # ids) db = (Inr (case res of None \<Rightarrow> ds | Some x \<Rightarrow> x # ds), db2)"
    unfolding recover_stale_loop.simps one(1) two(1) prod.case sum.case by (rule refl)
  moreover have "\<forall>x\<in>set (deliveries db2). stale_where channel cutoff x \<longrightarrow> x \<in> set (deliveries db) \<and> o_id x \<notin> set (i # ids)"
    using one(3) two(3) by auto
  ultimately show ?case using two(2) by blast
qed simp

lemma recover_stale_claims_complete:
  assumes inv: "delivery_inv db"
    and args: "delivery_required_string channel ''channel'' 64 = Inr channel'" "now_or_clock ck now = Aware t" "cutoff \<le> t"
  shows "\<exists>ds db'. recover_stale_claims id ck channel (Aware cutoff) now db = (Inr ds, db') \<and> delivery_inv db'
    \<and> (\<forall>x\<in>set (deliveries db'). \<not> stale_where channel' cutoff x)"
proof -
  let ?ids = "map o_id (sort_key stale_order (filter (stale_where channel' cutoff) (deliveries db)))"
  from recover_stale_loop_pass [OF inv, of channel' cutoff t ?ids] obtain ds db' where
    run: "recover_stale_loop id channel' cutoff t ?ids db = (Inr ds, db')" "delivery_inv db'"
    "\<forall>x\<in>set (deliveries db'). stale_where channel' cutoff x \<longrightarrow> x \<in> set (deliveries db) \<and> o_id x \<notin> set ?ids" by blast
  then have "\<forall>x\<in>set (deliveries db'). \<not> stale_where channel' cutoff x" by auto
  with run args show ?thesis by (simp add: recover_stale_claims_def aware_utc_def)
qed

end
