(* ===== verification/Artifact_Repository.thy ===== *)
theory Artifact_Repository
  imports Gateway_Schema Gateway_Digest
begin

text \<open>
  Reading artifacts (\<open>artifact/models.py\<close>, \<open>artifact/errors.py\<close>, \<open>artifact/repository.py\<close>):
  the validation of identifiers and storage keys, the lookup, and \<open>read\<close> with its integrity
  checks. The file system is a parameter: \<open>inside\<close> says whether the path of a key resolves
  beneath the storage root, \<open>file\<close> what opening it gives.
\<close>

section \<open>Errors\<close>

datatype artifact_error =
    ArtifactValidationError
  | ArtifactNotFoundError string
  | ArtifactStateError ArtifactStatus string
  | ArtifactStorageError
  | ArtifactStorageKeyError
  | ArtifactIntegrityError

fun artifact_error_code :: "artifact_error \<Rightarrow> string" where
  "artifact_error_code ArtifactValidationError = ''artifact_validation_error''"
| "artifact_error_code (ArtifactNotFoundError _) = ''artifact_not_found''"
| "artifact_error_code (ArtifactStateError _ _) = ''artifact_state_error''"
| "artifact_error_code ArtifactStorageError = ''artifact_storage_error''"
| "artifact_error_code ArtifactStorageKeyError = ''artifact_storage_key_error''"
| "artifact_error_code ArtifactIntegrityError = ''artifact_integrity_error''"

text \<open>\<open>isinstance(error, ArtifactStorageError)\<close> and \<open>isinstance(error, ValueError)\<close>.\<close>

fun is_storage_error :: "artifact_error \<Rightarrow> bool" where
  "is_storage_error ArtifactStorageError = True"
| "is_storage_error ArtifactStorageKeyError = True"
| "is_storage_error ArtifactIntegrityError = True"
| "is_storage_error _ = False"

fun artifact_is_value_error :: "artifact_error \<Rightarrow> bool" where
  "artifact_is_value_error ArtifactValidationError = True"
| "artifact_is_value_error ArtifactStorageKeyError = True"
| "artifact_is_value_error _ = False"

section \<open>Validation\<close>

definition artifact_required_string :: "string \<Rightarrow> nat \<Rightarrow> artifact_error + string" where
  "artifact_required_string value max_length =
     (if \<not> nonblank value then Inl ArtifactValidationError
      else
        let normalized = py_strip value in
        if length normalized > max_length then Inl ArtifactValidationError
        else if list_ex (\<lambda>c. (of_char c :: nat) < 32) normalized then Inl ArtifactValidationError
        else Inr normalized)"

definition artifact_storage_key :: "string \<Rightarrow> string" where
  "artifact_storage_key artifact_id = ''objects/'' @ take 2 artifact_id @ ''/'' @ artifact_id"

definition ready_storage_key :: "string \<Rightarrow> string \<Rightarrow> string" where
  "ready_storage_key uuid_hex artifact_id = artifact_storage_key artifact_id @ ''-'' @ uuid_hex"

text \<open>\<open>value.split("/")\<close>.\<close>

fun split_slash :: "string \<Rightarrow> string list" where
  "split_slash [] = [[]]"
| "split_slash (c # cs) =
     (if c = CHR ''/'' then [] # split_slash cs
      else (case split_slash cs of [] \<Rightarrow> [[c]] | p # ps \<Rightarrow> (c # p) # ps))"

fun has_double_slash :: "string \<Rightarrow> bool" where
  "has_double_slash (a # b # cs) = ((a = CHR ''/'' \<and> b = CHR ''/'') \<or> has_double_slash (b # cs))"
| "has_double_slash _ = False"

text \<open>
  A POSIX path is absolute when it starts with a slash; a Windows path has a drive when a
  letter is followed by a colon or when it is a share, and is absolute only with a drive.
\<close>

definition posix_absolute :: "string \<Rightarrow> bool" where
  "posix_absolute v = (take 1 v = ''/'')"

definition windows_drive :: "string \<Rightarrow> bool" where
  "windows_drive v = (take 1 (drop 1 v) = '':'' \<or> take 2 v \<in> {''//'', [CHR 0x5C, CHR 0x5C]})"

definition storage_key_parts :: "string \<Rightarrow> artifact_error + string list" where
  "storage_key_parts value =
     (if value = [] \<or> CHR 0x00 \<in> set value \<or> CHR 0x5C \<in> set value \<or> CHR '':'' \<in> set value
      then Inl ArtifactStorageKeyError
      else if take 1 value = ''/'' \<or> has_double_slash value then Inl ArtifactStorageKeyError
      else
        let raw_parts = split_slash value in
        if list_ex (\<lambda>part. part \<in> {[], ''.'', ''..''}) raw_parts then Inl ArtifactStorageKeyError
        else if posix_absolute value \<or> windows_drive value then Inl ArtifactStorageKeyError
        else Inr raw_parts)"

section \<open>Lookup and read\<close>

definition artifact_get :: "string \<Rightarrow> gateway_db \<Rightarrow> Artifact option" where
  "artifact_get artifact_id db = lookup_by f_artifact_id artifact_id (artifacts db)"

definition required_artifact :: "string \<Rightarrow> gateway_db \<Rightarrow> artifact_error + Artifact" where
  "required_artifact artifact_id db =
     (case artifact_required_string artifact_id 36 of
        Inl e \<Rightarrow> Inl e
      | Inr normalized \<Rightarrow>
        (case artifact_get normalized db of
           None \<Rightarrow> Inl (ArtifactNotFoundError normalized)
         | Some a \<Rightarrow> Inr a))"

definition require_status :: "Artifact \<Rightarrow> ArtifactStatus \<Rightarrow> string \<Rightarrow> artifact_error + unit" where
  "require_status artifact expected operation =
     (if f_status artifact \<noteq> expected then Inl (ArtifactStateError (f_status artifact) operation) else Inr ())"

datatype file_state = FileAbsent | FileUnreadable | FileBytes string

definition storage_path :: "(string list \<Rightarrow> bool) \<Rightarrow> string \<Rightarrow> artifact_error + string list" where
  "storage_path inside storage_key =
     (case storage_key_parts storage_key of
        Inl e \<Rightarrow> Inl e
      | Inr parts \<Rightarrow> if inside parts then Inr parts else Inl ArtifactStorageKeyError)"

definition read_content ::
  "(string list \<Rightarrow> bool) \<Rightarrow> (string list \<Rightarrow> file_state) \<Rightarrow> nat \<Rightarrow> string \<Rightarrow> artifact_error + string" where
  "read_content inside file max_artifact_bytes storage_key =
     (case storage_path inside storage_key of
        Inl e \<Rightarrow> Inl e
      | Inr path \<Rightarrow>
        (case file path of
           FileAbsent \<Rightarrow> Inl ArtifactStorageError
         | FileUnreadable \<Rightarrow> Inl ArtifactStorageError
         | FileBytes bytes \<Rightarrow>
             let content = take (max_artifact_bytes + 1) bytes in
             if length content > max_artifact_bytes then Inl ArtifactIntegrityError else Inr content))"

definition artifact_read ::
  "(string list \<Rightarrow> bool) \<Rightarrow> (string list \<Rightarrow> file_state) \<Rightarrow> nat \<Rightarrow> string \<Rightarrow> gateway_db \<Rightarrow> artifact_error + string" where
  "artifact_read inside file max_artifact_bytes artifact_id db =
     (case required_artifact artifact_id db of
        Inl e \<Rightarrow> Inl e
      | Inr artifact \<Rightarrow>
        (case require_status artifact ARTIFACT_READY ''read'' of
           Inl e \<Rightarrow> Inl e
         | Inr _ \<Rightarrow>
           (case (f_size artifact, f_sha256 artifact) of
              (Some expected_size, Some sha) \<Rightarrow>
                (case read_content inside file max_artifact_bytes (f_storage_key artifact) of
                   Inl e \<Rightarrow> Inl e
                 | Inr content \<Rightarrow>
                     if int (length content) \<noteq> expected_size then Inl ArtifactIntegrityError
                     else if sha256_hexdigest content \<noteq> sha then Inl ArtifactIntegrityError
                     else Inr content)
            | _ \<Rightarrow> Inl ArtifactIntegrityError)))"

section \<open>What they guarantee\<close>

fun join_slash :: "string list \<Rightarrow> string" where
  "join_slash [] = []"
| "join_slash [p] = p"
| "join_slash (p # q # ps) = p @ ''/'' @ join_slash (q # ps)"

lemma split_slash_nonempty: "split_slash s \<noteq> []"
  by (cases s) (auto split: list.splits)

lemma join_split_slash: "join_slash (split_slash s) = s"
proof (induction s)
  case (Cons c cs)
  obtain p ps where ps: "split_slash cs = p # ps" using split_slash_nonempty [of cs] by (cases "split_slash cs") auto
  with Cons show ?case by (cases ps) auto
qed simp

lemma split_slash_parts: "p \<in> set (split_slash s) \<Longrightarrow> CHR ''/'' \<notin> set p"
proof (induction s arbitrary: p)
  case (Cons c cs)
  then show ?case by (auto split: if_splits list.splits)
qed simp

lemma storage_key_parts_Inr:
  assumes "storage_key_parts key = Inr parts"
  shows "join_slash parts = key" "parts \<noteq> []" "p \<in> set parts \<Longrightarrow> p \<noteq> [] \<and> p \<noteq> ''.'' \<and> p \<noteq> ''..'' \<and> CHR ''/'' \<notin> set p"
proof -
  from assms have p: "parts = split_slash key" "\<not> list_ex (\<lambda>part. part \<in> {[], ''.'', ''..''}) (split_slash key)"
    by (auto simp: storage_key_parts_def Let_def split: if_splits)
  show "join_slash parts = key" "parts \<noteq> []" using p(1) join_split_slash split_slash_nonempty by auto
  show "p \<in> set parts \<Longrightarrow> p \<noteq> [] \<and> p \<noteq> ''.'' \<and> p \<noteq> ''..'' \<and> CHR ''/'' \<notin> set p"
    using p split_slash_parts by (auto simp: list_ex_iff)
qed

lemma artifact_read_Inr:
  assumes "artifact_read inside file n artifact_id db = Inr content"
  obtains a parts where "artifact_get (py_strip artifact_id) db = Some a" "f_status a = ARTIFACT_READY"
    "f_size a = Some (int (length content))" "f_sha256 a = Some (sha256_hexdigest content)" "length content \<le> n"
    "storage_key_parts (f_storage_key a) = Inr parts" "inside parts" "file parts = FileBytes content"
proof -
  from assms obtain a where a: "required_artifact artifact_id db = Inr a"
    by (auto simp: artifact_read_def split: sum.splits)
  then have get: "artifact_get (py_strip artifact_id) db = Some a"
    by (auto simp: required_artifact_def artifact_required_string_def Let_def split: sum.splits option.splits if_splits)
  from assms a have st: "f_status a = ARTIFACT_READY"
    by (auto simp: artifact_read_def require_status_def split: if_splits)
  from assms a st obtain size sha where m: "f_size a = Some size" "f_sha256 a = Some sha"
    and rc: "read_content inside file n (f_storage_key a) = Inr content" "int (length content) = size" "sha256_hexdigest content = sha"
    by (auto simp: artifact_read_def require_status_def split: option.splits sum.splits if_splits)
  from rc(1) obtain parts where p: "storage_key_parts (f_storage_key a) = Inr parts" "inside parts"
    by (auto simp: read_content_def storage_path_def split: sum.splits if_splits)
  with rc(1) obtain bytes where b: "file parts = FileBytes bytes" "content = take (n + 1) bytes" "length content \<le> n"
    by (auto simp: read_content_def storage_path_def Let_def split: file_state.splits if_splits)
  then have "content = bytes" by (simp add: min_def split: if_splits)
  with that get st m rc p b show ?thesis by auto
qed

end
