(* ===== verification/Delivery_Worker.thy ===== *)
theory Delivery_Worker
  imports Delivery_Ledger Artifact_Repository
begin

text \<open>
  The delivery worker (\<open>delivery/worker.py\<close>, \<open>delivery/errors.py\<close>, \<open>adapters/wechat/errors.py\<close>):
  the classification of the errors of a channel, receipts, the delivery of one part, the
  recording of a failure with its backoff, one turn of the worker and the batch loop.

  The sender of the channel, the clock, the file system below the artifacts and the faults of
  the database are arguments (\<open>delivery_env\<close>), indexed by the number of the loop iteration, so
  that nothing is assumed of them. A commit may be reported, may fail before it took effect, or
  may take effect and be reported as failed.
\<close>

section \<open>Errors\<close>

datatype delivery_exception =
    WechatAPIError string int
  | WechatTransportError string
  | WechatTimeoutError string
  | WechatResponseError string
  | WechatPreSendAuthError
  | WechatAccountMismatchError
  | WechatNormalizationError
  | RetryableDeliveryError string
  | PermanentDeliveryError string
  | UncertainDeliveryError string
  | ArtifactFailure artifact_error
  | PlainValueError
  | OtherError "string option"

text \<open>The class attribute \<open>code\<close>; an exception of another package may have one or not.\<close>

fun delivery_exception_code :: "delivery_exception \<Rightarrow> string option" where
  "delivery_exception_code (WechatAPIError _ _) = Some ''wechat_api_error''"
| "delivery_exception_code (WechatTransportError _) = Some ''wechat_transport_error''"
| "delivery_exception_code (WechatTimeoutError _) = Some ''wechat_timeout_error''"
| "delivery_exception_code (WechatResponseError _) = Some ''wechat_response_error''"
| "delivery_exception_code WechatPreSendAuthError = Some ''wechat_presend_auth_unavailable''"
| "delivery_exception_code WechatAccountMismatchError = Some ''wechat_presend_account_mismatch''"
| "delivery_exception_code WechatNormalizationError = Some ''wechat_normalization_error''"
| "delivery_exception_code (RetryableDeliveryError _) = Some ''delivery_retryable_error''"
| "delivery_exception_code (PermanentDeliveryError _) = Some ''delivery_permanent_error''"
| "delivery_exception_code (UncertainDeliveryError _) = Some ''delivery_uncertain_error''"
| "delivery_exception_code (ArtifactFailure e) = Some (artifact_error_code e)"
| "delivery_exception_code PlainValueError = None"
| "delivery_exception_code (OtherError code) = code"

definition wechat_http_error_category :: "int \<Rightarrow> string" where
  "wechat_http_error_category status_code =
     (if status_code \<in> {401, 403} then ''authentication''
      else if status_code = 429 then ''rate_limit''
      else if 400 \<le> status_code \<and> status_code < 500 then ''client''
      else if 500 \<le> status_code \<and> status_code < 600 then ''server''
      else ''unexpected_status'')"

datatype DeliveryFailureKind = FAILURE_RETRYABLE | FAILURE_PERMANENT | FAILURE_UNCERTAIN

fun classify_delivery_error :: "delivery_exception \<Rightarrow> DeliveryFailureKind" where
  "classify_delivery_error WechatAccountMismatchError = FAILURE_PERMANENT"
| "classify_delivery_error WechatPreSendAuthError = FAILURE_RETRYABLE"
| "classify_delivery_error (RetryableDeliveryError _) = FAILURE_RETRYABLE"
| "classify_delivery_error (PermanentDeliveryError _) = FAILURE_PERMANENT"
| "classify_delivery_error (UncertainDeliveryError _) = FAILURE_UNCERTAIN"
| "classify_delivery_error (WechatAPIError _ status_code) =
     (if status_code = 429 then FAILURE_RETRYABLE
      else if 500 \<le> status_code \<and> status_code < 600 then FAILURE_UNCERTAIN
      else FAILURE_PERMANENT)"
| "classify_delivery_error (WechatTimeoutError _) = FAILURE_UNCERTAIN"
| "classify_delivery_error (WechatTransportError _) = FAILURE_UNCERTAIN"
| "classify_delivery_error (WechatResponseError _) = FAILURE_UNCERTAIN"
| "classify_delivery_error PlainValueError = FAILURE_PERMANENT"
| "classify_delivery_error (ArtifactFailure e) =
     (if artifact_is_value_error e then FAILURE_PERMANENT else FAILURE_UNCERTAIN)"
| "classify_delivery_error WechatNormalizationError = FAILURE_UNCERTAIN"
| "classify_delivery_error (OtherError _) = FAILURE_UNCERTAIN"

definition delivery_error_code :: "delivery_exception \<Rightarrow> string" where
  "delivery_error_code error =
     (case error of
        WechatAPIError _ status_code \<Rightarrow> ''wechat_api_error:http_'' @ int_str status_code
      | _ \<Rightarrow>
          (case delivery_exception_code error of
             Some code \<Rightarrow> if nonblank code then take 128 code else ''unexpected_delivery_error''
           | None \<Rightarrow> ''unexpected_delivery_error''))"

section \<open>Receipts\<close>

text \<open>
  What a sender returns: nothing, a mapping (with the object its JSON form is read back as, if
  it has one), or anything else.
\<close>

datatype raw_receipt = ReceiptNone | ReceiptMapping "(string \<times> json) list option" | ReceiptOther

definition accepted_payload :: json where
  "accepted_payload = JObj [(''accepted'', JBool True)]"

fun receipt_payload :: "raw_receipt \<Rightarrow> json" where
  "receipt_payload ReceiptNone = accepted_payload"
| "receipt_payload (ReceiptMapping (Some entries)) = JObj entries"
| "receipt_payload (ReceiptMapping None) = accepted_payload"
| "receipt_payload ReceiptOther = accepted_payload"

fun provider_id_from :: "string list \<Rightarrow> json \<Rightarrow> string option" where
  "provider_id_from [] receipt = None"
| "provider_id_from (field_name # names) receipt =
     (let usable = (\<lambda>normalized. if normalized \<noteq> [] \<and> length normalized \<le> 255 then Some normalized
                                  else provider_id_from names receipt) in
      case json_get receipt field_name of
        Some (JStr s) \<Rightarrow> usable s
      | Some (JInt i) \<Rightarrow> usable (int_str i)
      | _ \<Rightarrow> provider_id_from names receipt)"

definition provider_message_id :: "json \<Rightarrow> string option" where
  "provider_message_id receipt = provider_id_from [''message_id'', ''messageId'', ''localId'', ''id''] receipt"

section \<open>The channel and the environment\<close>

record media_call =
  md_conversation_id :: string
  md_media_type :: string
  md_data :: string
  md_mime_type :: string
  md_filename :: "string option"

record ChannelDeliverySender =
  sn_account_id :: "delivery_exception + string"
  sn_send_text :: "nat \<Rightarrow> string \<Rightarrow> string \<Rightarrow> delivery_exception + raw_receipt"
  sn_send_media :: "(nat \<Rightarrow> media_call \<Rightarrow> delivery_exception + raw_receipt) option"

record artifact_store =
  as_inside :: "string list \<Rightarrow> bool"
  as_file :: "string list \<Rightarrow> file_state"
  as_max_bytes :: nat

datatype commit_fault = COMMIT_REPORTED | COMMIT_FAILED | COMMIT_LOST

record delivery_env =
  ev_clock :: "nat \<Rightarrow> py_datetime"
  ev_ck :: "nat \<Rightarrow> clocks"
  ev_factory :: "nat \<Rightarrow> string \<Rightarrow> delivery_exception + ChannelDeliverySender"
  ev_part_lookup_fails :: "nat \<Rightarrow> bool"
  ev_repository :: "artifact_store option"
  ev_artifact_lookup_fails :: "nat \<Rightarrow> bool"
  ev_commit :: "nat \<Rightarrow> commit_fault"
  ev_recover_race :: "gateway_db \<Rightarrow> gateway_db"
  ev_claim_race :: "nat \<Rightarrow> gateway_db \<Rightarrow> gateway_db"
  ev_start_race :: "nat \<Rightarrow> gateway_db \<Rightarrow> gateway_db"
  ev_mark_race :: "nat \<Rightarrow> gateway_db \<Rightarrow> gateway_db"
  ev_finish_race :: "nat \<Rightarrow> gateway_db \<Rightarrow> gateway_db"

section \<open>The worker\<close>

record ChannelDeliveryWorker =
  cw_channel :: string
  cw_max_attempts :: int
  cw_retry_base_seconds :: rat
  cw_retry_max_seconds :: rat
  cw_claim_timeout_seconds :: rat

definition nonnegative_finite :: "py_num \<Rightarrow> string \<Rightarrow> gateway_error + rat" where
  "nonnegative_finite value field_name =
     (let bad = Inl (ValueError (field_name @ '' must be a finite nonnegative number''));
          check = (\<lambda>x. if x < 0 then bad else Inr x) in
      case value of
        PyBool _ \<Rightarrow> bad
      | PyNonFinite \<Rightarrow> bad
      | PyInt n \<Rightarrow> check (of_int n)
      | PyFloat x \<Rightarrow> check x)"

definition positive_finite :: "py_num \<Rightarrow> string \<Rightarrow> gateway_error + rat" where
  "positive_finite value field_name =
     (case nonnegative_finite value field_name of
        Inl e \<Rightarrow> Inl e
      | Inr x \<Rightarrow> if x \<le> 0 then Inl (ValueError (field_name @ '' must be a finite positive number'')) else Inr x)"

definition make_delivery_worker ::
  "string \<Rightarrow> py_num \<Rightarrow> py_num \<Rightarrow> py_num \<Rightarrow> py_num \<Rightarrow> gateway_error + ChannelDeliveryWorker" where
  "make_delivery_worker channel max_attempts retry_base_seconds retry_max_seconds claim_timeout_seconds =
     (if \<not> nonblank channel \<or> length (py_strip channel) > 64
      then Inl (ValueError ''channel must be a non-empty string of at most 64 characters'')
      else if list_ex (\<lambda>c. (of_char c :: nat) < 32) (py_strip channel)
      then Inl (ValueError ''channel contains invalid characters'')
      else
        (case (case max_attempts of PyInt n \<Rightarrow> if n \<le> 0 then None else Some n | _ \<Rightarrow> None) of
           None \<Rightarrow> Inl (ValueError ''max_attempts must be a positive integer'')
         | Some n \<Rightarrow>
           (case nonnegative_finite retry_base_seconds ''retry_base_seconds'' of
              Inl e \<Rightarrow> Inl e
            | Inr base \<Rightarrow>
              (case nonnegative_finite retry_max_seconds ''retry_max_seconds'' of
                 Inl e \<Rightarrow> Inl e
               | Inr most \<Rightarrow>
                   if most < base then Inl (ValueError ''retry_max_seconds must be at least retry_base_seconds'')
                   else
                     (case positive_finite claim_timeout_seconds ''claim_timeout_seconds'' of
                        Inl e \<Rightarrow> Inl e
                      | Inr timeout \<Rightarrow>
                          Inr \<lparr>cw_channel = py_strip channel, cw_max_attempts = n, cw_retry_base_seconds = base,
                               cw_retry_max_seconds = most, cw_claim_timeout_seconds = timeout\<rparr>)))))"

record DeliveryRunResult =
  rr_delivery_id :: int
  rr_response_id :: string
  rr_status :: DeliveryStatus
  rr_next_part_ordinal :: int
  rr_attempt_count :: int
  rr_error_code :: "string option"

definition run_result :: "DeliveryOutboxRecord \<Rightarrow> string option \<Rightarrow> DeliveryRunResult" where
  "run_result d error_code =
     \<lparr>rr_delivery_id = o_id d, rr_response_id = o_response_id d, rr_status = o_status d,
      rr_next_part_ordinal = o_next_part_ordinal d, rr_attempt_count = o_attempt_count d, rr_error_code = error_code\<rparr>"

subsection \<open>Sending one part\<close>

definition deliver_artifact ::
  "artifact_store \<Rightarrow> nat \<Rightarrow> DeliveryOutboxRecord \<Rightarrow> Artifact \<Rightarrow> ChannelDeliverySender \<Rightarrow> gateway_db
     \<Rightarrow> delivery_exception + raw_receipt"
where
  "deliver_artifact repository n d artifact sender db =
     (if f_response_id artifact \<noteq> o_response_id d
      then Inl (PermanentDeliveryError ''artifact belongs to a different response'')
      else if f_status artifact = ARTIFACT_CREATED then Inl (RetryableDeliveryError ''artifact is not ready'')
      else if f_status artifact \<noteq> ARTIFACT_READY then Inl (PermanentDeliveryError ''artifact is unavailable'')
      else
        (case artifact_read (as_inside repository) (as_file repository) (as_max_bytes repository) (f_artifact_id artifact) db of
           Inl ArtifactIntegrityError \<Rightarrow> Inl (PermanentDeliveryError ''artifact integrity validation failed'')
         | Inl e \<Rightarrow>
             if is_storage_error e then Inl (RetryableDeliveryError ''artifact storage is unavailable'')
             else Inl (ArtifactFailure e)
         | Inr content \<Rightarrow>
             (case sn_send_media sender of
                None \<Rightarrow> Inl (PermanentDeliveryError ''sender does not support media delivery'')
              | Some send_media \<Rightarrow>
                  if f_kind artifact = ARTIFACT_IMAGE
                  then send_media n \<lparr>md_conversation_id = o_conversation_id d, md_media_type = ''image'', md_data = content,
                                     md_mime_type = f_mime_type artifact, md_filename = None\<rparr>
                  else send_media n \<lparr>md_conversation_id = o_conversation_id d, md_media_type = ''file'', md_data = content,
                                     md_mime_type = f_mime_type artifact, md_filename = Some (f_filename artifact)\<rparr>)))"

definition deliver_part ::
  "delivery_env \<Rightarrow> nat \<Rightarrow> DeliveryOutboxRecord \<Rightarrow> ResponsePartRecord \<Rightarrow> ChannelDeliverySender \<Rightarrow> gateway_db
     \<Rightarrow> delivery_exception + raw_receipt"
where
  "deliver_part env n d part sender db =
     (if p_part_type part = PART_TEXT
      then (case p_text part of
              None \<Rightarrow> Inl (PermanentDeliveryError ''text response part is invalid'')
            | Some t \<Rightarrow> sn_send_text sender n (o_conversation_id d) t)
      else
        (case p_artifact_id part of
           None \<Rightarrow> Inl (PermanentDeliveryError ''response part type is unsupported'')
         | Some artifact_id \<Rightarrow>
           (case ev_repository env of
              None \<Rightarrow> Inl (PermanentDeliveryError ''artifact repository is not configured'')
            | Some repository \<Rightarrow>
                if ev_artifact_lookup_fails env n then Inl (OtherError None)
                else
                  (case artifact_get artifact_id db of
                     None \<Rightarrow> Inl (PermanentDeliveryError ''artifact does not exist'')
                   | Some artifact \<Rightarrow> deliver_artifact repository n d artifact sender db))))"

fun is_delivery_error :: "delivery_exception \<Rightarrow> bool" where
  "is_delivery_error (PermanentDeliveryError _) = True"
| "is_delivery_error (RetryableDeliveryError _) = True"
| "is_delivery_error (UncertainDeliveryError _) = True"
| "is_delivery_error _ = False"

definition obtain_sender ::
  "delivery_env \<Rightarrow> nat \<Rightarrow> DeliveryOutboxRecord \<Rightarrow> ChannelDeliverySender option \<Rightarrow> delivery_exception + ChannelDeliverySender" where
  "obtain_sender env n d sender =
     (case sender of
        Some s \<Rightarrow> Inr s
      | None \<Rightarrow>
        (case ev_factory env n (o_account_id d) of
           Inl e \<Rightarrow> Inl (if is_delivery_error e then e else RetryableDeliveryError ''sender initialization failed'')
         | Inr s \<Rightarrow>
           (case sn_account_id s of
              Inl _ \<Rightarrow> Inl (PermanentDeliveryError ''sender account is unavailable'')
            | Inr account_id \<Rightarrow>
                if account_id \<noteq> o_account_id d
                then Inl (PermanentDeliveryError ''sender account does not match delivery'')
                else Inr s)))"

definition send_part ::
  "delivery_env \<Rightarrow> nat \<Rightarrow> DeliveryOutboxRecord \<Rightarrow> int \<Rightarrow> ChannelDeliverySender option \<Rightarrow> gateway_db
     \<Rightarrow> delivery_exception + (ChannelDeliverySender \<times> raw_receipt)"
where
  "send_part env n d ordinal sender db =
     (if ev_part_lookup_fails env n then Inl (RetryableDeliveryError ''response part lookup failed'')
      else
        (case get_part (o_response_id d) ordinal db of
           None \<Rightarrow> Inl (PermanentDeliveryError ''response part is missing'')
         | Some part \<Rightarrow>
           (case obtain_sender env n d sender of
              Inl e \<Rightarrow> Inl e
            | Inr s \<Rightarrow> map_sum id (\<lambda>raw. (s, raw)) (deliver_part env n d part s db))))"

subsection \<open>Recording what happened\<close>

definition CLOCK_ERROR :: gateway_error where
  "CLOCK_ERROR = ValueError ''clock must return a timezone-aware datetime''"

definition retry_delay_seconds :: "ChannelDeliveryWorker \<Rightarrow> int \<Rightarrow> rat" where
  "retry_delay_seconds w attempt_number =
     min (cw_retry_max_seconds w) (cw_retry_base_seconds w * 2 ^ nat (max 0 (attempt_number - 1)))"

definition ATTEMPTS_EXHAUSTED :: string where "ATTEMPTS_EXHAUSTED = ''delivery_attempts_exhausted''"
definition PERSISTENCE_UNCERTAIN :: string where "PERSISTENCE_UNCERTAIN = ''delivery_receipt_persistence_uncertain''"

definition worker_record_failure ::
  "delivery_env \<Rightarrow> nat \<Rightarrow> ChannelDeliveryWorker \<Rightarrow> DeliveryOutboxRecord \<Rightarrow> string \<Rightarrow> DeliveryAttempt \<Rightarrow> delivery_exception
     \<Rightarrow> gateway_db \<Rightarrow> DeliveryRunResult outcome"
where
  "worker_record_failure env n w d token a error db =
     (let kind = classify_delivery_error error;
          code = delivery_error_code error;
          finish = (\<lambda>code out. case out of
                       (Inl e, db') \<Rightarrow> (Inl e, db')
                     | (Inr current, db') \<Rightarrow> (Inr (run_result current (Some code)), db')) in
      if kind = FAILURE_RETRYABLE \<and> a_attempt_number a < cw_max_attempts w
      then
        (case ev_clock env (Suc n) of
           Naive _ \<Rightarrow> (Inl CLOCK_ERROR, db)
         | Aware t \<Rightarrow>
             finish code (mark_attempt_retryable (ev_finish_race env n) (ev_ck env n) (o_id d) token (a_id a) code
                (Aware (t + timedelta_seconds (retry_delay_seconds w (a_attempt_number a)))) db))
      else if kind = FAILURE_RETRYABLE
      then finish ATTEMPTS_EXHAUSTED
             (mark_attempt_failed (ev_finish_race env n) (ev_ck env n) (o_id d) token (a_id a) ATTEMPTS_EXHAUSTED db)
      else if kind = FAILURE_PERMANENT
      then finish code (mark_attempt_failed (ev_finish_race env n) (ev_ck env n) (o_id d) token (a_id a) code db)
      else finish code (mark_attempt_uncertain (ev_finish_race env n) (ev_ck env n) (o_id d) token (a_id a) code db))"

text \<open>\<open>mark_part_delivered\<close> as the worker sees it: the new delivery, or some exception.\<close>

definition persist_part ::
  "delivery_env \<Rightarrow> nat \<Rightarrow> DeliveryOutboxRecord \<Rightarrow> string \<Rightarrow> DeliveryAttempt \<Rightarrow> int \<Rightarrow> json \<Rightarrow> gateway_db
     \<Rightarrow> DeliveryOutboxRecord option \<times> gateway_db"
where
  "persist_part env n d token a ordinal payload db =
     (case ev_clock env (Suc n) of
        Naive _ \<Rightarrow> (None, db)
      | Aware t \<Rightarrow>
          (let out = mark_part_delivered (ev_mark_race env n) (ev_ck env n) (o_id d) token (a_id a) ordinal payload
                       (provider_message_id payload) (Some t) db in
           case ev_commit env n of
             COMMIT_REPORTED \<Rightarrow> (case out of (Inl _, db') \<Rightarrow> (None, db') | (Inr d', db') \<Rightarrow> (Some d', db'))
           | COMMIT_FAILED \<Rightarrow> (None, ev_mark_race env n db)
           | COMMIT_LOST \<Rightarrow> (None, snd out)))"

text \<open>The provider accepted the part and no receipt was stored: the attempt ends as uncertain.\<close>

definition settle_uncertain ::
  "delivery_env \<Rightarrow> nat \<Rightarrow> DeliveryOutboxRecord \<Rightarrow> string \<Rightarrow> DeliveryAttempt \<Rightarrow> gateway_db \<Rightarrow> DeliveryRunResult outcome" where
  "settle_uncertain env n d token a db =
     (case mark_attempt_uncertain (ev_finish_race env n) (ev_ck env n) (o_id d) token (a_id a) PERSISTENCE_UNCERTAIN db of
        (Inl e, db') \<Rightarrow> (Inl e, db')
      | (Inr current, db') \<Rightarrow> (Inr (run_result current (Some PERSISTENCE_UNCERTAIN)), db'))"

subsection \<open>One turn\<close>

text \<open>
  The loop over the parts of a claimed delivery. The fuel is more than the number of parts that
  are left (\<open>deliver_loop_returns\<close>); \<open>None\<close> is a loop that did not end within it.
\<close>

fun deliver_loop ::
  "nat \<Rightarrow> delivery_env \<Rightarrow> ChannelDeliveryWorker \<Rightarrow> string \<Rightarrow> nat \<Rightarrow> ChannelDeliverySender option \<Rightarrow> DeliveryOutboxRecord
     \<Rightarrow> gateway_db \<Rightarrow> ((gateway_error + DeliveryRunResult) \<times> gateway_db) option"
where
  "deliver_loop 0 env w token n sender d db = None"
| "deliver_loop (Suc fuel) env w token n sender d db =
     (if o_status d \<noteq> O_DELIVERING then Some (Inr (run_result d None), db)
      else
        (let ordinal = o_next_part_ordinal d in
         case start_attempt (ev_start_race env n) (ev_ck env n) (o_id d) token ordinal db of
           (Inl e, db1) \<Rightarrow> Some (Inl e, db1)
         | (Inr a, db1) \<Rightarrow>
           (case send_part env n d ordinal sender db1 of
              Inl error \<Rightarrow> Some (worker_record_failure env n w d token a error db1)
            | Inr (s, raw) \<Rightarrow>
              (case persist_part env n d token a ordinal (receipt_payload raw) db1 of
                 (Some d', db2) \<Rightarrow> deliver_loop fuel env w token (Suc n) (Some s) d' db2
               | (None, db2) \<Rightarrow>
                   (if get_receipt (o_id d) ordinal db2 \<noteq> None
                    then deliver_loop fuel env w token (Suc n) (Some s)
                           (case delivery_get (o_id d) db2 of Some d' \<Rightarrow> d' | None \<Rightarrow> d) db2
                    else
                      (case delivery_get (o_id d) db2 of
                         Some current \<Rightarrow>
                           if o_status current \<noteq> O_DELIVERING
                           then Some (Inr (run_result current (Some PERSISTENCE_UNCERTAIN)), db2)
                           else Some (settle_uncertain env n d token a db2)
                       | None \<Rightarrow> Some (settle_uncertain env n d token a db2)))))))"

definition delivery_run_once ::
  "nat \<Rightarrow> delivery_env \<Rightarrow> ChannelDeliveryWorker \<Rightarrow> string \<Rightarrow> gateway_db
     \<Rightarrow> ((gateway_error + DeliveryRunResult option) \<times> gateway_db) option"
where
  "delivery_run_once fuel env w claim_token db =
     (case ev_clock env 0 of
        Naive _ \<Rightarrow> Some (Inl CLOCK_ERROR, db)
      | Aware now \<Rightarrow>
        (case recover_stale_claims (ev_recover_race env) (ev_ck env 0) (cw_channel w)
                (Aware (now - timedelta_seconds (cw_claim_timeout_seconds w))) (Some (Aware now)) db of
           (Inl e, db1) \<Rightarrow> Some (Inl e, db1)
         | (Inr _, db1) \<Rightarrow>
           (case delivery_claim_next (ev_claim_race env) (ev_ck env 0) (cw_channel w) claim_token (Some (Aware now)) db1 of
              (Inl e, db2) \<Rightarrow> Some (Inl e, db2)
            | (Inr None, db2) \<Rightarrow> Some (Inr None, db2)
            | (Inr (Some d), db2) \<Rightarrow>
                map_option (\<lambda>(res, db3). (map_sum id Some res, db3))
                  (deliver_loop fuel env w claim_token 0 None d db2))))"

subsection \<open>A batch\<close>

text \<open>Each turn has its own environment and its own random claim token.\<close>

fun run_turns ::
  "nat \<Rightarrow> (nat \<Rightarrow> delivery_env) \<Rightarrow> (nat \<Rightarrow> string) \<Rightarrow> ChannelDeliveryWorker \<Rightarrow> nat \<Rightarrow> nat \<Rightarrow> gateway_db
     \<Rightarrow> ((gateway_error + DeliveryRunResult list) \<times> gateway_db) option"
where
  "run_turns fuel envs tokens w k 0 db = Some (Inr [], db)"
| "run_turns fuel envs tokens w k (Suc left) db =
     (case delivery_run_once fuel (envs k) w (tokens k) db of
        None \<Rightarrow> None
      | Some (Inl e, db') \<Rightarrow> Some (Inl e, db')
      | Some (Inr None, db') \<Rightarrow> Some (Inr [], db')
      | Some (Inr (Some x), db') \<Rightarrow>
          map_option (\<lambda>(res, db''). (map_sum id (\<lambda>xs. x # xs) res, db''))
            (run_turns fuel envs tokens w (Suc k) left db'))"

record DeliveryBatchResult =
  br_deliveries :: "DeliveryRunResult list"

definition batch_processed :: "DeliveryBatchResult \<Rightarrow> nat" where
  "batch_processed b = length (br_deliveries b)"

definition batch_count :: "DeliveryStatus \<Rightarrow> DeliveryBatchResult \<Rightarrow> nat" where
  "batch_count s b = length (filter (\<lambda>x. rr_status x = s) (br_deliveries b))"

definition run_until_idle ::
  "nat \<Rightarrow> (nat \<Rightarrow> delivery_env) \<Rightarrow> (nat \<Rightarrow> string) \<Rightarrow> ChannelDeliveryWorker \<Rightarrow> py_num \<Rightarrow> gateway_db
     \<Rightarrow> ((gateway_error + DeliveryBatchResult) \<times> gateway_db) option"
where
  "run_until_idle fuel envs tokens w max_deliveries db =
     (case (case max_deliveries of PyInt n \<Rightarrow> if n \<le> 0 then None else Some n | _ \<Rightarrow> None) of
        None \<Rightarrow> Some (Inl (ValueError ''max_deliveries must be a positive integer''), db)
      | Some n \<Rightarrow>
          map_option (\<lambda>(res, db'). (map_sum id (\<lambda>xs. \<lparr>br_deliveries = xs\<rparr>) res, db'))
            (run_turns fuel envs tokens w 0 (nat n) db))"

end
