(* ===== verification/Delivery_Turns.thy ===== *)
theory Delivery_Turns
  imports Delivery_Worker
begin

text \<open>
  Turns of the delivery worker under the invariant of the outbox. The other sessions are \<open>polite\<close>:
  what they commit keeps the invariant, and the delivery a token holds changes only together
  with its claim. The network, the files, the clock and the commits may behave in any way.
\<close>

section \<open>Polite sessions\<close>

definition polite :: "(gateway_db \<Rightarrow> gateway_db) \<Rightarrow> bool" where
  "polite race \<longleftrightarrow> (\<forall>db. delivery_inv db \<longrightarrow> delivery_inv (race db) \<and> (\<forall>i token. fenced i token db (race db)))"

lemma politeD:
  "polite race \<Longrightarrow> delivery_inv db \<Longrightarrow> delivery_inv (race db)"
  "polite race \<Longrightarrow> delivery_inv db \<Longrightarrow> fenced i token db (race db)"
  by (simp_all add: polite_def)

lemma polite_id [simp]: "polite id"
  by (simp add: polite_def)

definition claim_token_ok :: "string \<Rightarrow> bool" where
  "claim_token_ok token \<longleftrightarrow> py_strip token = token \<and> nonblank token \<and> length token \<le> DELIVERY_MAX_CLAIM_TOKEN_LENGTH"

definition holds_claim :: "string \<Rightarrow> int \<Rightarrow> gateway_db \<Rightarrow> bool" where
  "holds_claim token i db \<longleftrightarrow> (\<exists>x\<in>set (deliveries db). o_id x = i \<and> o_status x = O_DELIVERING \<and> o_claim_token x = Some token)"

definition env_ok :: "delivery_env \<Rightarrow> bool" where
  "env_ok env \<longleftrightarrow> (\<forall>n. ev_start_race env n = id \<and> polite (ev_mark_race env n) \<and> polite (ev_finish_race env n))
     \<and> ev_recover_race env = id \<and> (\<forall>n db. delivery_inv db \<longrightarrow> delivery_inv (ev_claim_race env n db))"

text \<open>The result of a turn is settled when the delivery it reports is no longer being delivered.\<close>

definition settled :: "gateway_error + DeliveryRunResult \<Rightarrow> bool" where
  "settled res \<longleftrightarrow> (\<forall>x. res = Inr x \<longrightarrow> rr_status x \<noteq> O_DELIVERING)"

lemma settled_simps [simp]:
  "settled (Inl e)" "settled (Inr (run_result d c)) \<longleftrightarrow> o_status d \<noteq> O_DELIVERING"
  by (simp_all add: settled_def run_result_def)

lemma delivery_claimed_holds:
  assumes "delivery_inv db" "d \<in> set (deliveries db)" "o_status d = O_DELIVERING" "o_claim_token d = Some token" "claim_token_ok token"
  shows "delivery_claimed (o_id d) token db = Inr d"
proof -
  have "delivery_get (o_id d) db = Some d"
    using lookup_by_distinct [OF delivery_table_okD(2) [OF delivery_invD(7) [OF assms(1)]] assms(2)] by (simp add: delivery_get_def)
  with assms(3-5) show ?thesis
    by (simp add: delivery_claimed_def delivery_required_string_def delivery_required_def claim_token_ok_def)
qed

lemma delivery_claimed_lost:
  assumes "\<not> holds_claim token i db" "claim_token_ok token"
  obtains e where "delivery_claimed i token db = Inl e"
proof (cases "delivery_claimed i token db")
  case (Inr d)
  with delivery_claimed_Inr [OF Inr] assms show ?thesis by (auto simp: holds_claim_def claim_token_ok_def)
qed (use that in blast)

text \<open>After a polite race the holder either lost the claim or finds everything as it was.\<close>

lemma in_hand_race:
  assumes h: "in_hand db d r a" and tok: "o_claim_token d = Some token" "claim_token_ok token" and p: "polite race"
  shows "\<not> holds_claim token (o_id d) (race db) \<or> in_hand (race db) d r a"
proof -
  note v = in_handD(1) [OF h]
  note inv = outbox_viewD(1) [OF v]
  have g: "delivery_claimed (o_id d) token db = Inr d" "response_get (o_response_id d) db = Some r"
    using in_hand_guards [OF h tok(1)] tok(2) by (auto simp: claim_token_ok_def)
  show ?thesis
  proof (rule claim_where_cases [where race = race, OF inv politeD(1) [OF p inv] politeD(2) [OF p inv] g(1)], goal_cases lost held)
    case lost
    then show ?case by (auto simp: holds_claim_def)
  next
    case (held q)
    with g(2) in_handD(2,3,4) [OF h] show ?case by (simp add: in_hand_def)
  qed
qed

section \<open>Ending an attempt\<close>

lemma finish_attempt_settles:
  assumes inv: "delivery_inv db" and p: "polite race" and kind: "finish_kind sa sd sr"
    and run: "finish_attempt race ck i token aid sa sd sr error available db = (res, db')"
  shows "delivery_inv db' \<and> (\<forall>x. res = Inr x \<longrightarrow> o_status x \<noteq> O_DELIVERING)"
proof (rule finish_attempt_cases [where race = race and ck = ck and aid = aid and error = error and available = available and i = i and token = token,
      OF inv politeD(1) [OF p inv] politeD(2) [OF p inv] kind], goal_cases refused ended)
  case refused
  with run politeD(1) [OF p inv] inv show ?case by (auto simp: part_refused_def)
next
  case (ended d r a code avail)
  from finished_inv [OF ended(1) ended(5) kind] ended(6) run kind show ?case
    by (auto simp: finish_kind_def delivery_finish_values_def)
qed

lemma settle_uncertain_ok:
  assumes "delivery_inv db" "env_ok env" and run: "settle_uncertain env n d token a db = (res, db')"
  shows "delivery_inv db' \<and> settled res"
proof -
  obtain out x where o: "mark_attempt_uncertain (ev_finish_race env n) (ev_ck env n) (o_id d) token (a_id a) PERSISTENCE_UNCERTAIN db = (out, x)"
    by (cases "mark_attempt_uncertain (ev_finish_race env n) (ev_ck env n) (o_id d) token (a_id a) PERSISTENCE_UNCERTAIN db")
  have "finish_kind A_UNCERTAIN O_UNCERTAIN (Some R_UNCERTAIN)" by (simp add: finish_kind_def)
  from finish_attempt_settles [OF assms(1) _ this o [unfolded mark_attempt_uncertain_def]] assms(2)
  have "delivery_inv x \<and> (\<forall>y. out = Inr y \<longrightarrow> o_status y \<noteq> O_DELIVERING)" by (simp add: env_ok_def)
  with run o show ?thesis by (auto simp: settle_uncertain_def split: sum.splits)
qed

lemma worker_record_failure_ok:
  assumes inv: "delivery_inv db" and e: "env_ok env" and run: "worker_record_failure env n w d token a error db = (res, db')"
  shows "delivery_inv db' \<and> settled res"
proof -
  let ?race = "ev_finish_race env n"
  have p: "polite ?race" using e by (simp add: env_ok_def)
  have kinds: "finish_kind A_FAILED O_QUEUED None" "finish_kind A_FAILED O_FAILED (Some R_FAILED)"
    "finish_kind A_UNCERTAIN O_UNCERTAIN (Some R_UNCERTAIN)" by (simp_all add: finish_kind_def)
  note one = finish_attempt_settles [OF inv p kinds(1)] finish_attempt_settles [OF inv p kinds(2)] finish_attempt_settles [OF inv p kinds(3)]
  show ?thesis
    using run inv
    by (auto simp: worker_record_failure_def Let_def mark_attempt_retryable_def mark_attempt_failed_def mark_attempt_uncertain_def
        split: if_splits py_datetime.splits prod.splits sum.splits dest: one)
qed

section \<open>Recording a part\<close>

text \<open>What a recorded part leaves: the delivery has moved on by one part, and the receipt is there.\<close>

definition moved_on :: "string \<Rightarrow> DeliveryOutboxRecord \<Rightarrow> ResponseRecord \<Rightarrow> DeliveryOutboxRecord \<Rightarrow> gateway_db \<Rightarrow> bool" where
  "moved_on token d r d' db \<longleftrightarrow>
     (\<exists>r'. outbox_view db d' r' \<and> r_part_count r' = r_part_count r) \<and> o_id d' = o_id d
     \<and> o_next_part_ordinal d' = o_next_part_ordinal d + 1 \<and> (o_status d' = O_DELIVERING \<longrightarrow> o_claim_token d' = Some token)
     \<and> delivery_get (o_id d) db = Some d' \<and> get_receipt (o_id d) (o_next_part_ordinal d) db \<noteq> None"

lemma delivery_required_get: "delivery_required i db = Inr d \<Longrightarrow> delivery_get i db = Some d"
  by (simp add: delivery_required_def split: option.splits)

lemma delivered_moved_on:
  assumes h: "in_hand db d r a" and tok: "o_claim_token d = Some token"
  shows "moved_on token d r (part_delivered_values (o_next_part_ordinal d + 1 = r_part_count r) (o_next_part_ordinal d) t d)
    (delivered_db d r a payload pid t db)"
proof -
  note v = in_handD(1) [OF h]
  let ?fin = "o_next_part_ordinal d + 1 = r_part_count r"
  let ?d' = "part_delivered_values ?fin (o_next_part_ordinal d) t d" and ?db = "delivered_db d r a payload pid t db"
  let ?r' = "if ?fin then response_delivered_values t r else r"
  have rid: "r_response_id ?r' = r_response_id r" "r_part_count ?r' = r_part_count r"
    by (simp_all add: response_delivered_values_def)
  have get: "delivery_get (o_id d) ?db = Some ?d'"
    unfolding delivered_db_def Let_def by (rule delivery_required_get [OF moved_get [OF v part_delivered_values_ok(2)]])
  then have mem: "?d' \<in> set (deliveries ?db)" using lookup_by_Some [of o_id] by (fastforce simp: delivery_get_def)
  obtain r' where r': "outbox_view ?db ?d' r'" "response_get (o_response_id ?d') ?db = Some r'"
    using outbox_view_exists [OF delivered_inv [OF h] mem] by blast
  have "response_get (r_response_id r) ?db = Some ?r'"
    unfolding response_get_def delivered_db_def Let_def moved_db_def
    using lookup_replace_by [OF response_table_okD(2) [OF outbox_viewD(7) [OF v]] outbox_viewD(3) [OF v] refl rid(1)] by simp
  moreover have "o_response_id ?d' = r_response_id r"
    using outbox_viewD(4) [OF v] by (simp add: part_delivered_values_def)
  ultimately have "r_part_count r' = r_part_count r" using r'(2) rid(2) by simp
  moreover have "get_receipt (o_id d) (o_next_part_ordinal d) ?db \<noteq> None"
    by (auto simp: get_receipt_def lookup_by_None delivered_db_def Let_def moved_db_def part_receipt_def)
  ultimately show ?thesis
    using r'(1) get tok by (auto simp: moved_on_def part_delivered_values_def)
qed

lemma persist_part_cases:
  assumes h: "in_hand db d r a" and tok: "o_claim_token d = Some token" "claim_token_ok token" and e: "env_ok env"
    and run: "persist_part env n d token a (o_next_part_ordinal d) payload db = (x, db')"
  shows "delivery_inv db' \<and> ((\<exists>d'. moved_on token d r d' db' \<and> (x = Some d' \<or> x = None))
     \<or> x = None \<and> (\<not> holds_claim token (o_id d) db' \<or> in_hand db' d r a))"
proof (cases "ev_clock env (Suc n)")
  case (Naive t)
  with run h in_handD(1) [OF h] show ?thesis by (auto simp: persist_part_def outbox_view_def)
next
  case (Aware t)
  let ?race = "ev_mark_race env n" and ?k = "o_next_part_ordinal d"
  let ?out = "mark_part_delivered ?race (ev_ck env n) (o_id d) token (a_id a) ?k payload (provider_message_id payload) (Some t) db"
  have p: "polite ?race" using e by (simp add: env_ok_def)
  note inv = outbox_viewD(1) [OF in_handD(1) [OF h]]
  note invr = politeD(1) [OF p inv]
  from in_hand_race [OF h tok p] show ?thesis
  proof
    assume lost: "\<not> holds_claim token (o_id d) (?race db)"
    have "part_refused ?race ?out db"
    proof (rule mark_part_delivered_cases [where race = ?race and ck = "ev_ck env n" and aid = "a_id a" and i = "o_id d" and token = token
          and payload = payload and pid = "provider_message_id payload" and tm = "Some t" and k = ?k,
          OF inv invr politeD(2) [OF p inv]], goal_cases refused recorded)
      case (recorded d0 r0 a0)
      then have "holds_claim token (o_id d) (?race db)"
        using in_handD(2) [OF recorded(1)] outbox_viewD(2) [OF in_handD(1) [OF recorded(1)]] by (auto simp: holds_claim_def)
      with lost show ?case by simp
    qed
    with run Aware lost h inv invr show ?thesis
      by (auto simp: persist_part_def Let_def part_refused_def split: commit_fault.splits prod.splits sum.splits)
  next
    assume h': "in_hand (?race db) d r a"
    have "?out = (Inr (part_delivered_values (?k + 1 = r_part_count r) ?k (completed_time (ev_ck env n) (Some t)) d),
       delivered_db d r a payload (provider_message_id payload) (completed_time (ev_ck env n) (Some t)) (?race db))"
      by (rule mark_part_delivered_held [where race = ?race, OF h' refl tok(1)])
        (use in_hand_guards [OF h tok(1)] tok(2) in \<open>auto simp: claim_token_ok_def\<close>)
    with run Aware h' invr delivered_moved_on [OF h' tok(1)] delivered_inv [OF h'] show ?thesis
      by (auto simp: persist_part_def Let_def split: commit_fault.splits)
  qed
qed

section \<open>The loop\<close>

lemma deliver_loop_lost:
  assumes "\<not> holds_claim token (o_id d) db" "claim_token_ok token" "0 < fuel"
  obtains res where "deliver_loop fuel env w token n s d db = Some (res, db)" "settled res"
proof -
  from assms(3) obtain f where f: "fuel = Suc f" by (cases fuel) auto
  obtain e where "delivery_claimed (o_id d) token db = Inl e" using delivery_claimed_lost [OF assms(1,2)] .
  then have "start_attempt (ev_start_race env n) (ev_ck env n) (o_id d) token (o_next_part_ordinal d) db = (Inl e, db)"
    by (simp add: start_attempt_def)
  then show ?thesis using that f by (cases "o_status d = O_DELIVERING") auto
qed

lemma start_attempt_in_hand:
  assumes v: "outbox_view db d r" and st: "o_status d = O_DELIVERING" and tok: "o_claim_token d = Some token" "claim_token_ok token"
  obtains a db' where "start_attempt id ck (o_id d) token (o_next_part_ordinal d) db = (Inr a, db')" "in_hand db' d r a"
proof -
  note inv = outbox_viewD(1) [OF v]
  obtain res db' where run: "start_attempt id ck (o_id d) token (o_next_part_ordinal d) db = (res, db')"
    by (cases "start_attempt id ck (o_id d) token (o_next_part_ordinal d) db")
  note s = start_attempt_ok [OF inv run] and c = delivery_claimed_holds [OF inv outbox_viewD(2) [OF v] st tok]
  then obtain a where a: "res = Inr a" by blast
  with s have s': "delivery_inv db'" "a \<in> set (attempts_of db' (o_id d))" "a_status a = A_DELIVERING"
    "deliveries db' = deliveries db" "responses db' = responses db" by auto
  have d: "d \<in> set (deliveries db')" using outbox_viewD(2) [OF v] s'(4) by simp
  obtain r' where r': "outbox_view db' d r'" "response_get (o_response_id d) db' = Some r'" using outbox_view_exists [OF s'(1) d] by blast
  obtain r'' where r'': "outbox_view db d r''" "response_get (o_response_id d) db = Some r''" using outbox_view_exists [OF inv outbox_viewD(2) [OF v]] by blast
  have "r' \<in> set (responses db)" "r_response_id r' = r_response_id r"
    using outbox_viewD(3,4) [OF r'(1)] outbox_viewD(4) [OF v] s'(5) by auto
  then have "r' = r" using distinct_key_eq [OF response_table_okD(2) [OF outbox_viewD(7) [OF v]], of r' r] outbox_viewD(3) [OF v] by simp
  then have "in_hand db' d r a" using r'(1) st s'(2,3) by (simp add: in_hand_def)
  with that run a show ?thesis by blast
qed

text \<open>
  The branch after a send that was not recorded: either the receipt is found and the loop goes
  on, or the turn ends with the delivery settled.
\<close>

definition unrecorded ::
  "nat \<Rightarrow> delivery_env \<Rightarrow> ChannelDeliveryWorker \<Rightarrow> string \<Rightarrow> nat \<Rightarrow> ChannelDeliverySender \<Rightarrow> DeliveryOutboxRecord
     \<Rightarrow> DeliveryAttempt \<Rightarrow> gateway_db \<Rightarrow> ((gateway_error + DeliveryRunResult) \<times> gateway_db) option"
where
  "unrecorded fuel env w token n s d a db =
     (if get_receipt (o_id d) (o_next_part_ordinal d) db \<noteq> None
      then deliver_loop fuel env w token (Suc n) (Some s) (case delivery_get (o_id d) db of Some d' \<Rightarrow> d' | None \<Rightarrow> d) db
      else
        (case delivery_get (o_id d) db of
           Some current \<Rightarrow>
             if o_status current \<noteq> O_DELIVERING then Some (Inr (run_result current (Some PERSISTENCE_UNCERTAIN)), db)
             else Some (settle_uncertain env n d token a db)
         | None \<Rightarrow> Some (settle_uncertain env n d token a db)))"

lemma unrecorded_settles:
  assumes inv: "delivery_inv db" and e: "env_ok env" and none: "get_receipt (o_id d) (o_next_part_ordinal d) db = None"
  shows "\<exists>res db'. unrecorded fuel env w token n s d a db = Some (res, db') \<and> delivery_inv db' \<and> settled res"
proof -
  obtain res db' where "settle_uncertain env n d token a db = (res, db')" by (cases "settle_uncertain env n d token a db")
  with settle_uncertain_ok [OF inv e this] none inv show ?thesis
    by (auto simp: unrecorded_def split: option.splits)
qed

lemma unrecorded_lost:
  assumes inv: "delivery_inv db" and e: "env_ok env" and lost: "\<not> holds_claim token (o_id d) db" "claim_token_ok token" and "0 < fuel"
  shows "\<exists>res db'. unrecorded fuel env w token n s d a db = Some (res, db') \<and> delivery_inv db' \<and> settled res"
proof (cases "get_receipt (o_id d) (o_next_part_ordinal d) db")
  case None
  then show ?thesis using unrecorded_settles [OF inv e] by blast
next
  case (Some c)
  let ?d = "case delivery_get (o_id d) db of Some d' \<Rightarrow> d' | None \<Rightarrow> d"
  have "o_id ?d = o_id d" by (auto simp: delivery_get_def split: option.splits dest: lookup_by_Some)
  then obtain res where "deliver_loop fuel env w token (Suc n) (Some s) ?d db = Some (res, db)" "settled res"
    using deliver_loop_lost [of token ?d db fuel env w "Suc n" "Some s"] lost assms(5) by metis
  with Some inv show ?thesis by (simp add: unrecorded_def)
qed

lemma deliver_loop_returns:
  assumes "outbox_view db d r" "o_status d = O_DELIVERING \<Longrightarrow> o_claim_token d = Some token" "claim_token_ok token" "env_ok env"
    and "nat (r_part_count r - o_next_part_ordinal d) < fuel"
  shows "\<exists>res db'. deliver_loop fuel env w token n s d db = Some (res, db') \<and> delivery_inv db' \<and> settled res"
  using assms
proof (induction fuel arbitrary: db d r n s)
  case (Suc fuel)
  note inv = outbox_viewD(1) [OF Suc.prems(1)]
  show ?case
  proof (cases "o_status d = O_DELIVERING")
    case False
    with inv show ?thesis by simp
  next
    case st: True
    note tok = Suc.prems(2) [OF st]
    have left: "o_next_part_ordinal d < r_part_count r"
      using outbox_viewD(5) [OF Suc.prems(1)] st by (auto simp: local_ok_def progress_ok_def)
    obtain a db1 where a: "start_attempt id (ev_ck env n) (o_id d) token (o_next_part_ordinal d) db = (Inr a, db1)" "in_hand db1 d r a"
      using start_attempt_in_hand [OF Suc.prems(1) st tok Suc.prems(3)] by blast
    note inv1 = outbox_viewD(1) [OF in_handD(1) [OF a(2)]]
    have id: "ev_start_race env n = id" using Suc.prems(4) by (simp add: env_ok_def)
    show ?thesis
    proof (cases "send_part env n d (o_next_part_ordinal d) s db1")
      case (Inl error)
      obtain res db' where f: "worker_record_failure env n w d token a error db1 = (res, db')"
        by (cases "worker_record_failure env n w d token a error db1")
      from worker_record_failure_ok [OF inv1 Suc.prems(4) f] f Inl a(1) st id show ?thesis by simp
    next
      case (Inr sent)
      obtain s' raw where sr: "sent = (s', raw)" by (cases sent)
      obtain x db2 where p: "persist_part env n d token a (o_next_part_ordinal d) (receipt_payload raw) db1 = (x, db2)"
        by (cases "persist_part env n d token a (o_next_part_ordinal d) (receipt_payload raw) db1")
      have step: "deliver_loop (Suc fuel) env w token n s d db =
          (case x of Some d' \<Rightarrow> deliver_loop fuel env w token (Suc n) (Some s') d' db2 | None \<Rightarrow> unrecorded fuel env w token n s' d a db2)"
        using st a(1) id Inr sr p by (simp add: unrecorded_def Let_def split: option.splits)
      have next_ok: "\<exists>res db'. deliver_loop fuel env w token (Suc n) (Some s') d' db2 = Some (res, db') \<and> delivery_inv db' \<and> settled res"
        if m: "moved_on token d r d' db2" for d'
      proof -
        from m obtain r' where r': "outbox_view db2 d' r'" "r_part_count r' = r_part_count r" by (auto simp: moved_on_def)
        from m have n': "o_next_part_ordinal d' = o_next_part_ordinal d + 1"
          and t': "o_status d' = O_DELIVERING \<Longrightarrow> o_claim_token d' = Some token" by (auto simp: moved_on_def)
        show ?thesis by (rule Suc.IH [OF r'(1) t' Suc.prems(3,4)]) (use Suc.prems(5) left r'(2) n' in auto)
      qed
      have inv2: "delivery_inv db2" and c: "(\<exists>d'. moved_on token d r d' db2 \<and> (x = Some d' \<or> x = None))
           \<or> x = None \<and> (\<not> holds_claim token (o_id d) db2 \<or> in_hand db2 d r a)"
        using persist_part_cases [OF a(2) tok Suc.prems(3,4) p] by blast+
      from c show ?thesis
      proof (elim disjE exE conjE)
        fix d' assume "moved_on token d r d' db2" "x = Some d'"
        with next_ok step show ?thesis by simp
      next
        fix d' assume m: "moved_on token d r d' db2" and "x = None"
        then have "unrecorded fuel env w token n s' d a db2 = deliver_loop fuel env w token (Suc n) (Some s') d' db2"
          by (simp add: unrecorded_def moved_on_def)
        with next_ok [OF m] step \<open>x = None\<close> show ?thesis by simp
      next
        assume "x = None" "\<not> holds_claim token (o_id d) db2"
        with unrecorded_lost [OF inv2 Suc.prems(4) _ Suc.prems(3)] step Suc.prems(5) left show ?thesis by simp
      next
        assume "x = None" "in_hand db2 d r a"
        with in_hand_guards(3) [of db2 d r a token] tok Suc.prems(3) unrecorded_settles [OF inv2 Suc.prems(4)] step
        show ?thesis by (simp add: claim_token_ok_def)
      qed
    qed
  qed
qed simp

text \<open>More fuel never changes the result of a loop that ended.\<close>

lemma deliver_loop_fuel:
  "deliver_loop fuel env w token n s d db = Some out \<Longrightarrow> fuel \<le> fuel' \<Longrightarrow> deliver_loop fuel' env w token n s d db = Some out"
proof (induction fuel arbitrary: fuel' db d n s)
  case (Suc fuel)
  then obtain f where f: "fuel' = Suc f" "fuel \<le> f" by (cases fuel') auto
  from Suc.prems(1) show ?case unfolding f(1)
    by (auto simp: Let_def split: if_splits prod.splits sum.splits option.splits intro: Suc.IH [OF _ f(2)])
qed simp

section \<open>A turn and a batch\<close>

lemma make_delivery_worker_Inr:
  assumes "make_delivery_worker ch ma rb rm ct = Inr w"
  shows "delivery_required_string (cw_channel w) ''channel'' 64 = Inr (cw_channel w)" "0 < cw_claim_timeout_seconds w"
    "0 \<le> cw_retry_base_seconds w" "cw_retry_base_seconds w \<le> cw_retry_max_seconds w" "0 < cw_max_attempts w"
  using assms
  by (auto simp: make_delivery_worker_def delivery_required_string_def nonnegative_finite_def positive_finite_def Let_def
      nonblank_def split: if_splits sum.splits option.splits py_num.splits)

lemma delivery_claim_next_view:
  assumes inv: "delivery_inv db" and races: "\<And>n u. delivery_inv u \<Longrightarrow> delivery_inv (race n u)" and tok: "claim_token_ok token"
    and ch: "delivery_required_string channel ''channel'' 64 = Inr channel"
    and run: "delivery_claim_next race ck channel token (Some (Aware t)) db = (res, db')"
  shows "delivery_inv db' \<and> (\<forall>d. res = Inr (Some d) \<longrightarrow> o_status d = O_DELIVERING \<and> o_claim_token d = Some token \<and> d \<in> set (deliveries db'))"
proof -
  have tk: "delivery_required_string token ''claim_token'' DELIVERY_MAX_CLAIM_TOKEN_LENGTH = Inr token" "nonblank token"
    using tok by (simp_all add: claim_token_ok_def delivery_required_string_def)
  obtain x u where loop: "cas_loop (map race [0..<DELIVERY_CLAIM_ROUNDS]) (delivery_candidate channel t)
      (delivery_claim_attempt channel token t) db = (x, u)" by fastforce
  have "(delivery_inv u \<and> nonblank token) \<and> (\<forall>a. x = Some a \<longrightarrow> (\<exists>k v. (delivery_inv v \<and> nonblank token)
      \<and> delivery_claim_attempt channel token t k v = (Some a, u) \<and> delivery_won channel token t k v a u))"
    by (rule delivery_queue.cas_loop_safe [OF _ _ loop]) (use inv races tk in auto)
  then have u: "delivery_inv u" and won: "\<And>a. x = Some a \<Longrightarrow> \<exists>k v. delivery_inv v \<and> delivery_won channel token t k v a u" by auto
  have mem: "\<exists>d0. a = Inr d0 \<and> o_status d0 = O_DELIVERING \<and> o_claim_token d0 = Some token \<and> d0 \<in> set (deliveries u)" if "x = Some a" for a
  proof -
    from won [OF that] obtain k v d r where "delivery_inv v" "d \<in> set (deliveries v)" "a = Inr (delivery_claim_values token t d)"
      "u = claimed_db token t d r v" by (auto simp: delivery_won_def)
    then show ?thesis by (auto simp: delivery_claim_values_def claimed_db_def set_replace_by)
  qed
  show ?thesis
    using run u mem
    by (auto simp: delivery_claim_next_def ch tk now_or_clock_def aware_utc_def loop split: option.splits sum.splits)
qed

lemma delivery_run_once_returns:
  assumes inv: "delivery_inv db" and w: "make_delivery_worker ch ma rb rm ct = Inr w" and tok: "claim_token_ok token" and e: "env_ok env"
  shows "\<exists>N res db'. (\<forall>fuel\<ge>N. delivery_run_once fuel env w token db = Some (res, db')) \<and> delivery_inv db'
     \<and> (\<forall>x. res = Inr (Some x) \<longrightarrow> rr_status x \<noteq> O_DELIVERING)"
proof (cases "ev_clock env 0")
  case (Naive t)
  with inv show ?thesis by (auto simp: delivery_run_once_def)
next
  case (Aware now)
  note W = make_delivery_worker_Inr [OF w]
  let ?cut = "now - timedelta_seconds (cw_claim_timeout_seconds w)"
  have "?cut \<le> now" using timedelta_seconds_nonneg [of "cw_claim_timeout_seconds w"] W(2) by simp
  then obtain ds db1 where rec: "recover_stale_claims id (ev_ck env 0) (cw_channel w) (Aware ?cut) (Some (Aware now)) db = (Inr ds, db1)"
    "delivery_inv db1"
    using recover_stale_claims_complete [OF inv W(1), of "ev_ck env 0" "Some (Aware now)" now ?cut] by (auto simp: now_or_clock_def)
  obtain c db2 where cl: "delivery_claim_next (ev_claim_race env) (ev_ck env 0) (cw_channel w) token (Some (Aware now)) db1 = (c, db2)" by fastforce
  have c: "delivery_inv db2 \<and> (\<forall>d. c = Inr (Some d) \<longrightarrow> o_status d = O_DELIVERING \<and> o_claim_token d = Some token \<and> d \<in> set (deliveries db2))"
    by (rule delivery_claim_next_view [OF rec(2) _ tok W(1) cl]) (use e in \<open>simp add: env_ok_def\<close>)
  have id: "ev_recover_race env = id" using e by (simp add: env_ok_def)
  note once = delivery_run_once_def Aware rec(1) cl id
  show ?thesis
  proof (cases "\<exists>d. c = Inr (Some d)")
    case False
    have "delivery_run_once fuel env w token db = Some (map_sum id (\<lambda>_. None) c, db2)" for fuel
      using False by (auto simp: once split: sum.splits option.splits)
    moreover have "map_sum id (\<lambda>_. None) c \<noteq> Inr (Some x)" for x :: DeliveryRunResult using False by (cases c) auto
    ultimately show ?thesis using c by blast
  next
    case True
    then obtain d where d: "c = Inr (Some d)" by blast
    with c have dd: "delivery_inv db2" "d \<in> set (deliveries db2)" "o_claim_token d = Some token" by auto
    obtain r where r: "outbox_view db2 d r" using outbox_view_exists [OF dd(1,2)] by blast
    let ?N = "Suc (nat (r_part_count r - o_next_part_ordinal d))"
    obtain res db' where l: "deliver_loop ?N env w token 0 None d db2 = Some (res, db')" "delivery_inv db'" "settled res"
      using deliver_loop_returns [OF r _ tok e, of ?N w 0 None] dd(3) by auto
    have "delivery_run_once fuel env w token db = Some (map_sum id Some res, db')" if "?N \<le> fuel" for fuel
      using deliver_loop_fuel [OF l(1) that] by (simp add: once d)
    moreover have "rr_status x \<noteq> O_DELIVERING" if "map_sum id Some res = Inr (Some x)" for x
      using that l(3) by (cases res) (auto simp: settled_def)
    ultimately show ?thesis using l(2) by blast
  qed
qed

lemma run_turns_return:
  assumes "delivery_inv db" and w: "make_delivery_worker ch ma rb rm ct = Inr w"
    and envs: "\<And>k. claim_token_ok (tokens k)" "\<And>k. env_ok (envs k)"
  shows "\<exists>N res db'. (\<forall>fuel\<ge>N. run_turns fuel envs tokens w k left db = Some (res, db')) \<and> delivery_inv db'
     \<and> (\<forall>xs. res = Inr xs \<longrightarrow> length xs \<le> left \<and> (\<forall>x\<in>set xs. rr_status x \<noteq> O_DELIVERING))"
  using assms(1)
proof (induction left arbitrary: k db)
  case 0
  then show ?case by (intro exI [of _ 0] exI [of _ "Inr []"] exI [of _ db]) simp
next
  case (Suc left)
  obtain N out db1 where one: "\<And>fuel. N \<le> fuel \<Longrightarrow> delivery_run_once fuel (envs k) w (tokens k) db = Some (out, db1)" "delivery_inv db1"
    "\<And>x. out = Inr (Some x) \<Longrightarrow> rr_status x \<noteq> O_DELIVERING"
    using delivery_run_once_returns [OF Suc.prems w envs(1) envs(2)] by metis
  show ?case
  proof (cases "\<exists>x. out = Inr (Some x)")
    case False
    have "run_turns fuel envs tokens w k (Suc left) db = Some (map_sum id (\<lambda>_. []) out, db1)" if "N \<le> fuel" for fuel
      using one(1) [OF that] False by (auto split: sum.splits option.splits)
    moreover have "xs = []" if "map_sum id (\<lambda>_. []) out = Inr xs" for xs :: "DeliveryRunResult list"
      using that by (cases out) auto
    ultimately show ?thesis using one(2) by (intro exI [of _ N] exI [of _ "map_sum id (\<lambda>_. []) out"] exI [of _ db1]) fastforce
  next
    case True
    then obtain x where x: "out = Inr (Some x)" by blast
    from Suc.IH [OF one(2), of "Suc k"] obtain M res db' where
      two: "\<And>fuel. M \<le> fuel \<Longrightarrow> run_turns fuel envs tokens w (Suc k) left db1 = Some (res, db')" "delivery_inv db'"
      "\<And>xs. res = Inr xs \<Longrightarrow> length xs \<le> left \<and> (\<forall>x\<in>set xs. rr_status x \<noteq> O_DELIVERING)" by metis
    have "run_turns fuel envs tokens w k (Suc left) db = Some (map_sum id (\<lambda>xs. x # xs) res, db')" if "max N M \<le> fuel" for fuel
      using one(1) [of fuel] two(1) [of fuel] that x by simp
    moreover have "length xs \<le> Suc left \<and> (\<forall>x\<in>set xs. rr_status x \<noteq> O_DELIVERING)" if "map_sum id (\<lambda>xs. x # xs) res = Inr xs" for xs
      using that two(3) one(3) x by (cases res) auto
    ultimately show ?thesis using two(2) by blast
  qed
qed

section \<open>A generated response enters the outbox\<close>

lemma create_missing_delivery_covered:
  assumes "delivery_inv db" "r \<in> set (responses db)" and run: "create_missing_delivery id ck r out e sha tg tkey dkey db = (res, db')"
  shows "db' = db"
proof -
  from delivery_invD(9) [OF assms(1,2)] have "lookup_by o_response_id (r_response_id r) (deliveries db) \<noteq> None"
    by (metis imageI lookup_by_None)
  with run show ?thesis by (auto simp: create_missing_delivery_def)
qed

lemma resume_existing_covered:
  assumes inv: "delivery_inv db" and r: "r \<in> set (responses db)" and run: "resume_existing id ck r out e sha tg tkey dkey db = (res, db')"
  shows "db' = db"
  using run create_missing_delivery_covered [OF inv r]
  by (auto simp: resume_existing_def checked_def split: sum.splits option.splits)

lemma inserted_inv:
  assumes inv: "delivery_inv db" and r: "insert_response r db = Some db1" and d: "insert_delivery d db1 = Some db2"
    and new: "o_id d = delivery_seq db" "o_response_id d = r_response_id r" "o_status d = O_QUEUED" "o_next_part_ordinal d = 0"
      "o_claim_token d = None" "o_claimed_at d = None" "r_status r = R_GENERATED" "parts_ok r"
  shows "delivery_inv db2"
proof -
  from r d have db2: "db2 = db\<lparr>responses := responses db @ [r], deliveries := deliveries db @ [d], delivery_seq := delivery_seq db + 1\<rparr>"
    and rt: "response_table_ok (responses db @ [r])" and dt: "delivery_table_ok (deliveries db @ [d])"
    by (auto simp: insert_response_def insert_delivery_def split: if_splits)
  note I = delivery_invD [OF inv]
  have fresh: "r_response_id q \<noteq> r_response_id r" if "q \<in> set (responses db)" for q
    using response_table_okD(2) [OF rt] that by (auto simp: rev_image_eqI)
  have ids: "o_id x < delivery_seq db \<and> o_response_id x \<noteq> r_response_id r" if "x \<in> set (deliveries db)" for x
    using response_invD(3,4) [OF I(1) that] fresh by fastforce
  have "response_inv db2"
    using rt dt I(1) new(1,2) by (auto simp: db2 response_inv_def list_all_iff)
  moreover have "distinct (map o_response_id (deliveries db2))"
    using I(2) ids new(2) by (force simp: db2)
  moreover have "r_response_id ` set (responses db2) \<subseteq> o_response_id ` set (deliveries db2)"
    using inv new(2) by (auto simp: db2 delivery_inv_def outbox_tables_ok_def)
  ultimately have tables: "outbox_tables_ok db2"
    using inv by (auto simp: db2 delivery_inv_def outbox_tables_ok_def)
  have same: "attempts_of db2 j = attempts_of db j" "receipts_of db2 j = receipts_of db j" for j
    by (simp_all add: db2 attempts_of_def receipts_of_def)
  have none: "attempts_of db (o_id d) = []" using I(8) new(1) by (fastforce simp: attempts_of_def filter_empty_conv)
  then have "receipts_of db (o_id d) = []"
    using inv by (fastforce simp: receipts_of_def attempts_of_def filter_empty_conv delivery_inv_def outbox_tables_ok_def)
  moreover have "r_part_count r > 0" using rt by (simp add: response_table_ok_def response_row_ok_def)
  ultimately have "local_ok d r (attempts_of db2 (o_id d)) (receipts_of db2 (o_id d))"
    using none new by (simp add: same local_ok_def claim_ok_def progress_ok_def ledger_ok_def in_flight_ok_def)
  then have "\<exists>q\<in>set (responses db2). local_ok x q (attempts_of db2 (o_id x)) (receipts_of db2 (o_id x))" if "x \<in> set (deliveries db2)" for x
    using that inv by (auto simp: db2 same [unfolded db2] delivery_inv_def)
  with tables show ?thesis by (simp add: delivery_inv_def)
qed

lemma save_generated_delivery_inv:
  assumes inv: "delivery_inv db" and run: "save_generated id id ck out tg db = (res, db')"
  shows "delivery_inv db'"
proof -
  have found: "r \<in> set (responses db)" if "response_get_by_idempotency_key k db = Some r" for k r
    using that by (auto simp: response_get_by_idempotency_key_def dest: lookup_by_Some)
  have parts: "parts_ok (new_response ck k out e sha)" for k e sha
  proof -
    have "length (part_records (env_parts e)) = length (env_parts e)" by (simp add: part_records_def)
    with part_records_ordinals [of "env_parts e"] show ?thesis by (simp add: parts_ok_def new_response_def)
  qed
  have ins: "delivery_inv db2"
    if "insert_response (new_response ck k out e sha) db = Some db1"
      "insert_delivery (new_delivery ck (delivery_seq db) (env_response_id e) dk tg tk) db1 = Some db2" for k e sha dk tk db1 db2
    by (rule inserted_inv [OF inv that]) (use parts in \<open>simp_all add: new_response_def new_delivery_def\<close>)
  have "(db' = db \<or> delivery_inv db')"
    using run resume_existing_covered [OF inv found]
    by (auto simp: save_generated_def checked_def Let_def bind_eq_Some_conv bind_eq_None_conv intro: ins
        split: sum.splits option.splits Option.bind_splits)
  with inv show ?thesis by blast
qed

end
