(* ===== verification/Delivery_Machine.thy ===== *)
theory Delivery_Machine
  imports Delivery_Turns
begin

text \<open>
  The outbox as a state machine. \<open>delivery_life\<close> is what one delivery may do, \<open>outbox_spec\<close> what
  the table of deliveries may do, and \<open>outbox_step\<close> the operations of \<open>delivery/outbox.py\<close> and
  \<open>response/store.py\<close> run one transaction after the other. Every step keeps the invariant of the
  outbox and refines the specification.
\<close>

section \<open>The specification\<close>

text \<open>The part of a delivery the specification speaks of: its status and the parts passed.\<close>

definition progress :: "DeliveryOutboxRecord \<Rightarrow> DeliveryStatus \<times> int" where
  "progress d = (o_status d, o_next_part_ordinal d)"

inductive delivery_life :: "DeliveryOutboxRecord \<Rightarrow> DeliveryOutboxRecord \<Rightarrow> bool" where
  stay: "delivery_identity d' = delivery_identity d \<Longrightarrow> progress d' = progress d \<Longrightarrow> delivery_life d d'"
| claim: "delivery_identity d' = delivery_identity d \<Longrightarrow> o_status d = O_QUEUED \<Longrightarrow>
    progress d' = (O_DELIVERING, o_next_part_ordinal d) \<Longrightarrow> delivery_life d d'"
| part: "delivery_identity d' = delivery_identity d \<Longrightarrow> o_status d = O_DELIVERING \<Longrightarrow> s \<in> {O_DELIVERING, O_DELIVERED} \<Longrightarrow>
    progress d' = (s, o_next_part_ordinal d + 1) \<Longrightarrow> delivery_life d d'"
| ended: "delivery_identity d' = delivery_identity d \<Longrightarrow> o_status d = O_DELIVERING \<Longrightarrow> s \<in> {O_QUEUED, O_FAILED, O_UNCERTAIN} \<Longrightarrow>
    progress d' = (s, o_next_part_ordinal d) \<Longrightarrow> delivery_life d d'"
| retry: "delivery_identity d' = delivery_identity d \<Longrightarrow> o_status d \<in> {O_FAILED, O_UNCERTAIN} \<Longrightarrow>
    progress d' = (O_QUEUED, o_next_part_ordinal d) \<Longrightarrow> delivery_life d d'"

inductive_cases delivery_life_elim: "delivery_life d d'"

inductive outbox_spec :: "DeliveryOutboxRecord list \<Rightarrow> DeliveryOutboxRecord list \<Rightarrow> bool" where
  evolve: "rows' = map g rows \<Longrightarrow> (\<And>d. d \<in> set rows \<Longrightarrow> delivery_life d (g d)) \<Longrightarrow> outbox_spec rows rows'"
| arrive: "rows' = rows @ [d] \<Longrightarrow> progress d = (O_QUEUED, 0) \<Longrightarrow> (\<And>x. x \<in> set rows \<Longrightarrow> o_id x \<noteq> o_id d) \<Longrightarrow> outbox_spec rows rows'"

lemma delivery_life_refl: "delivery_life d d"
  by (rule stay) simp_all

lemma outbox_spec_refl: "outbox_spec rows rows"
  by (rule evolve [of _ id]) (simp_all add: delivery_life_refl)

lemma outbox_spec_replace:
  assumes "distinct (map o_id rows)" "d \<in> set rows" "delivery_life d d'"
  shows "outbox_spec rows (replace_by o_id (o_id d) d' rows)"
proof (rule evolve [of _ "\<lambda>x. if o_id x = o_id d then d' else x"])
  fix x assume "x \<in> set rows"
  then show "delivery_life x (if o_id x = o_id d then d' else x)"
    using distinct_key_eq [OF assms(1) _ assms(2), of x] assms(3) delivery_life_refl by auto
qed (simp add: replace_by_def)

subsection \<open>What the specification guarantees\<close>

lemma delivery_life_progress:
  assumes "delivery_life d d'"
  shows "o_id d' = o_id d" "o_response_id d' = o_response_id d" "o_next_part_ordinal d \<le> o_next_part_ordinal d'"
    "o_status d = O_DELIVERED \<Longrightarrow> progress d' = progress d"
    "o_status d \<in> {O_FAILED, O_UNCERTAIN} \<Longrightarrow> progress d' \<noteq> progress d \<Longrightarrow> progress d' = (O_QUEUED, o_next_part_ordinal d)"
  using assms by (auto elim!: delivery_life_elim simp: progress_def delivery_identity_def)

text \<open>A row has a successor with the same identity in every later table, at least as far.\<close>

definition evolved :: "DeliveryOutboxRecord list \<Rightarrow> DeliveryOutboxRecord list \<Rightarrow> bool" where
  "evolved rows rows' \<longleftrightarrow> (\<forall>d\<in>set rows. \<exists>d'\<in>set rows'. delivery_identity d' = delivery_identity d
     \<and> o_next_part_ordinal d \<le> o_next_part_ordinal d' \<and> (o_status d = O_DELIVERED \<longrightarrow> progress d' = progress d))"

lemma evolved_refl: "evolved rows rows"
  by (auto simp: evolved_def)

lemma evolved_trans:
  assumes "evolved a b" "evolved b c"
  shows "evolved a c"
  unfolding evolved_def
proof
  fix d assume "d \<in> set a"
  with assms(1) obtain d' where d': "d' \<in> set b" "delivery_identity d' = delivery_identity d"
    "o_next_part_ordinal d \<le> o_next_part_ordinal d'" "o_status d = O_DELIVERED \<longrightarrow> progress d' = progress d" unfolding evolved_def by blast
  from assms(2) d'(1) obtain d'' where "d'' \<in> set c" "delivery_identity d'' = delivery_identity d'"
    "o_next_part_ordinal d' \<le> o_next_part_ordinal d''" "o_status d' = O_DELIVERED \<longrightarrow> progress d'' = progress d'" unfolding evolved_def by blast
  with d' show "\<exists>d'\<in>set c. delivery_identity d' = delivery_identity d \<and> o_next_part_ordinal d \<le> o_next_part_ordinal d'
     \<and> (o_status d = O_DELIVERED \<longrightarrow> progress d' = progress d)"
    by (intro bexI [of _ d'']) (auto simp: progress_def)
qed

lemma outbox_spec_evolved: "outbox_spec rows rows' \<Longrightarrow> evolved rows rows'"
proof (induction rule: outbox_spec.induct)
  case (evolve rows' g rows)
  show ?case unfolding evolved_def
  proof
    fix d assume d: "d \<in> set rows"
    from evolve(2) [OF d] have "delivery_identity (g d) = delivery_identity d" by (auto elim: delivery_life_elim)
    with delivery_life_progress(3,4) [OF evolve(2) [OF d]] d evolve(1)
    show "\<exists>d'\<in>set rows'. delivery_identity d' = delivery_identity d \<and> o_next_part_ordinal d \<le> o_next_part_ordinal d'
       \<and> (o_status d = O_DELIVERED \<longrightarrow> progress d' = progress d)" by (intro bexI [of _ "g d"]) auto
  qed
qed (auto simp: evolved_def)

lemma outbox_spec_star_evolved: "outbox_spec\<^sup>*\<^sup>* rows rows' \<Longrightarrow> evolved rows rows'"
  by (induction rule: rtranclp_induct) (auto intro: evolved_refl evolved_trans outbox_spec_evolved)

section \<open>The machine\<close>

definition outbox_part ::
  "gateway_db \<Rightarrow> ResponseRecord list \<times> DeliveryOutboxRecord list \<times> int \<times> DeliveryAttempt list \<times> int \<times> DeliveryReceipt list" where
  "outbox_part db = (responses db, deliveries db, delivery_seq db, attempts db, attempt_seq db, receipts db)"

inductive outbox_step :: "gateway_db \<Rightarrow> gateway_db \<Rightarrow> bool" where
  generate: "save_generated id id ck out tg db = (res, db') \<Longrightarrow> outbox_step db db'"
| claim_next: "delivery_claim_next (\<lambda>_. id) ck channel token now db = (res1, db') \<Longrightarrow> outbox_step db db'"
| recover_stale: "recover_stale_claims id ck channel stale_before now db = (res2, db') \<Longrightarrow> outbox_step db db'"
| start: "start_attempt id ck i token ordinal db = (res3, db') \<Longrightarrow> outbox_step db db'"
| mark_delivered: "mark_part_delivered id ck i token aid ordinal payload pid tm db = (res4, db') \<Longrightarrow> outbox_step db db'"
| mark_retryable: "mark_attempt_retryable id ck i token aid code avail db = (res4, db') \<Longrightarrow> outbox_step db db'"
| mark_failed: "mark_attempt_failed id ck i token aid code db = (res4, db') \<Longrightarrow> outbox_step db db'"
| mark_uncertain: "mark_attempt_uncertain id ck i token aid code db = (res4, db') \<Longrightarrow> outbox_step db db'"
| operator_retry: "delivery_retry id ck i allow available db = (res4, db') \<Longrightarrow> outbox_step db db'"
| elsewhere: "outbox_part db' = outbox_part db \<Longrightarrow> outbox_step db db'"

inductive outbox_reached :: "gateway_db \<Rightarrow> bool" where
  init: "outbox_part db = outbox_part empty_db \<Longrightarrow> outbox_reached db"
| step: "outbox_reached db \<Longrightarrow> outbox_step db db' \<Longrightarrow> outbox_reached db'"

subsection \<open>Every step keeps the invariant and refines the specification\<close>

definition refines :: "gateway_db \<Rightarrow> gateway_db \<Rightarrow> bool" where
  "refines db db' \<longleftrightarrow> delivery_inv db' \<and> outbox_spec\<^sup>*\<^sup>* (deliveries db) (deliveries db')"

lemma refines_refl: "delivery_inv db \<Longrightarrow> refines db db"
  by (simp add: refines_def)

lemma refines_trans: "refines a b \<Longrightarrow> refines b c \<Longrightarrow> refines a c"
  by (auto simp: refines_def)

lemma refines_moved:
  assumes v: "outbox_view db d r" and inv: "delivery_inv db'" and rows: "deliveries db' = replace_by o_id (o_id d) d' (deliveries db)"
    and l: "delivery_life d d'"
  shows "refines db db'"
  using outbox_spec_replace [OF delivery_table_okD(2) [OF outbox_viewD(6) [OF v]] outbox_viewD(2) [OF v] l] inv rows
  by (simp add: refines_def r_into_rtranclp)

lemma refines_same: "delivery_inv db' \<Longrightarrow> deliveries db' = deliveries db \<Longrightarrow> refines db db'"
  by (simp add: refines_def)

lemma finish_attempt_refines:
  assumes inv: "delivery_inv db" and kind: "finish_kind sa sd sr"
    and run: "finish_attempt id ck i token aid sa sd sr error available db = (res, db')"
  shows "refines db db'"
proof (rule finish_attempt_cases [where race = id and ck = ck and aid = aid and error = error and available = available and i = i
      and token = token, OF inv _ _ kind], goal_cases inv fenced refused ended)
  case refused
  with run inv show ?case by (auto simp: part_refused_def intro: refines_refl)
next
  case (ended d r a code avail)
  have db': "db' = finished_db sa sd sr code avail (wall_now ck) d r a db" using run ended(6) by simp
  have "delivery_life d (delivery_finish_values sd code avail (wall_now ck) d)"
    by (rule delivery_life.ended [where s = sd])
       (use kind in_handD(2) [OF ended(1)] finish_values_ok(2) in \<open>auto simp: finish_kind_def progress_def delivery_finish_values_def\<close>)
  then show ?case
    using refines_moved [OF in_handD(1) [OF ended(1)], of db'] finished_inv [OF ended(1) ended(5) kind] db'
    by (simp add: finished_db_def moved_db_def)
qed (use inv in simp_all)

lemma mark_part_delivered_refines:
  assumes inv: "delivery_inv db" and run: "mark_part_delivered id ck i token aid k payload pid tm db = (res, db')"
  shows "refines db db'"
proof (rule mark_part_delivered_cases [where race = id and ck = ck and aid = aid and i = i and token = token
      and payload = payload and pid = pid and tm = tm and k = k, OF inv], goal_cases inv fenced refused recorded)
  case refused
  with run inv show ?case by (auto simp: part_refused_def intro: refines_refl)
next
  case (recorded d r a)
  let ?t = "completed_time ck tm"
  have db': "db' = delivered_db d r a payload pid ?t db" using run recorded(6) by simp
  have "delivery_life d (part_delivered_values (k + 1 = r_part_count r) k ?t d)"
    by (rule part [where s = "if k + 1 = r_part_count r then O_DELIVERED else O_DELIVERING"])
       (use recorded(4) in_handD(2) [OF recorded(1)] part_delivered_values_ok(2) in \<open>auto simp: progress_def part_delivered_values_def\<close>)
  then show ?case
    using refines_moved [OF in_handD(1) [OF recorded(1)], of db'] delivered_inv [OF recorded(1)] db' recorded(4)
    by (simp add: delivered_db_def moved_db_def Let_def)
qed (use inv in simp_all)

lemma delivery_claim_next_refines:
  assumes inv: "delivery_inv db" and run: "delivery_claim_next (\<lambda>_. id) ck channel token now db = (res, db')"
  shows "refines db db'"
proof -
  have quiet: "map (\<lambda>_. id) [0..<DELIVERY_CLAIM_ROUNDS] = quiet DELIVERY_CLAIM_ROUNDS"
    by (simp add: quiet_def map_replicate_const)
  have loop: "refines db u"
    if l: "cas_loop (map (\<lambda>_. id) [0..<DELIVERY_CLAIM_ROUNDS]) (delivery_candidate c t) (delivery_claim_attempt c k t) db = (x, u)"
      and k: "nonblank k" for c k t x u
  proof (cases "delivery_candidate c t db")
    case None
    then have "u = db" using l [unfolded quiet] delivery_queue.cas_loop_quiet [of db k DELIVERY_CLAIM_ROUNDS c t] inv k
      by (simp add: DELIVERY_CLAIM_ROUNDS_def)
    with inv show ?thesis by (simp add: refines_refl)
  next
    case (Some i)
    then obtain d where d: "d \<in> set (deliveries db)" "o_id d = i" "delivery_claimable c t d" using delivery_candidate_Some by metis
    obtain r where r: "r \<in> set (responses db)" "r_response_id r = o_response_id d"
      "delivery_claim_attempt c k t (o_id d) db = (Some (Inr (delivery_claim_values k t d)), claimed_db k t d r db)"
      "delivery_inv (claimed_db k t d r db)"
      using delivery_claim_attempt_hit [OF inv k d(1,3)] by blast
    have u: "u = claimed_db k t d r db"
      using l [unfolded quiet] delivery_queue.cas_loop_quiet [of db k DELIVERY_CLAIM_ROUNDS c t] inv k Some d(2) r(3)
      by (simp add: DELIVERY_CLAIM_ROUNDS_def)
    obtain q where v: "outbox_view db d q" using outbox_view_exists [OF inv d(1)] by blast
    have "delivery_life d (delivery_claim_values k t d)"
      by (rule claim) (use d(3) in \<open>simp_all add: delivery_claimable_def progress_def delivery_claim_values_def delivery_identity_def\<close>)
    with refines_moved [OF v, of u] u r(4) show ?thesis by (simp add: claimed_db_def)
  qed
  show ?thesis
    using run inv
    by (auto simp: delivery_claim_next_def checked_def split: sum.splits option.splits prod.splits
        intro: refines_refl loop dest!: delivery_required_string_Inr)
qed

lemma recover_stale_delivery_refines:
  assumes inv: "delivery_inv db" and run: "recover_stale_delivery id channel cutoff t i db = (res, db')"
  shows "refines db db'"
proof (cases "delivery_get i db")
  case None
  with run inv show ?thesis by (auto simp: recover_stale_delivery_def intro: refines_refl)
next
  case (Some d)
  show ?thesis
  proof (rule recover_stale_cases [where race = id and channel = channel and cutoff = cutoff and t = t, OF inv _ _ Some],
      goal_cases inv fenced skipped recovered)
    case skipped
    with run inv show ?case by (auto intro: refines_refl)
  next
    case (recovered r token)
    let ?act = "active_attempt i (o_next_part_ordinal d) db"
    have db': "db' = recovered_db t d r ?act db" using run recovered(7) by (simp add: Let_def)
    have "delivery_life d (stale_values (?act \<noteq> None) t d)"
      by (rule delivery_life.ended [where s = "if ?act \<noteq> None then O_UNCERTAIN else O_QUEUED"])
         (use recovered(2) stale_values_ok(2) in \<open>auto simp: progress_def stale_values_def\<close>)
    moreover have "outbox_view db d r" using recovered(1) by simp
    moreover have "delivery_inv db'" using recovered_inv [of db d r ?act t] recovered db' by simp
    ultimately show ?case
      using refines_moved [of db d r db' "stale_values (?act \<noteq> None) t d"] db' by (simp add: recovered_db_def moved_db_def)
  qed (use inv in simp_all)
qed

lemma recover_stale_loop_refines:
  "delivery_inv db \<Longrightarrow> recover_stale_loop id channel cutoff t ids db = (res, db') \<Longrightarrow> refines db db'"
proof (induction ids arbitrary: db res db')
  case (Cons i ids)
  obtain x db1 where one: "recover_stale_delivery id channel cutoff t i db = (x, db1)" by fastforce
  note r1 = recover_stale_delivery_refines [OF Cons.prems(1) one]
  then have "delivery_inv db1" by (simp add: refines_def)
  then have rest: "refines db u" if "recover_stale_loop id channel cutoff t ids db1 = (y, u)" for y u
    using refines_trans [OF r1 Cons.IH] that by blast
  obtain y u where two: "recover_stale_loop id channel cutoff t ids db1 = (y, u)" by fastforce
  from Cons.prems(2) [unfolded recover_stale_loop.simps one two prod.case] r1 rest [OF two] show ?case
    by (auto split: sum.splits)
qed (auto intro: refines_refl)

lemma recover_stale_claims_refines:
  assumes "delivery_inv db" "recover_stale_claims id ck channel stale_before now db = (res, db')"
  shows "refines db db'"
  using assms
  by (auto simp: recover_stale_claims_def checked_def split: sum.splits if_splits intro: refines_refl recover_stale_loop_refines)

lemma delivery_retry_refines:
  assumes inv: "delivery_inv db" and run: "delivery_retry id ck i allow available db = (res, db')"
  shows "refines db db'"
proof -
  let ?sch = "case available of None \<Rightarrow> Inr (wall_now ck) | Some x \<Rightarrow> aware_utc x ''available_at''"
  show ?thesis
  proof (cases "\<exists>d s. delivery_required i db = Inr d \<and> (o_status d = O_FAILED \<or> allow \<and> o_status d = O_UNCERTAIN) \<and> ?sch = Inr s")
    case True
    then obtain d s where d: "delivery_required i db = Inr d" "o_status d = O_FAILED \<or> allow \<and> o_status d = O_UNCERTAIN" "?sch = Inr s" by blast
    then have mem: "d \<in> set (deliveries db)" "o_id d = i"
      by (auto dest!: delivery_required_get simp: delivery_get_def dest: lookup_by_Some)
    obtain r where v: "outbox_view db d r" using outbox_view_exists [OF inv mem(1)] by blast
    have db': "db' = retried_db s (wall_now ck) d r db"
      using delivery_retry_works [OF v d(2,3)] run mem(2) by auto
    have l: "delivery_life d (d\<lparr>o_status := O_QUEUED, o_available_at := s, o_claim_token := None, o_claimed_at := None,
        o_completed_at := None, o_last_error_code := None, o_updated_at := wall_now ck\<rparr>)"
      by (rule retry) (use d(2) in \<open>auto simp: progress_def delivery_identity_def\<close>)
    have "delivery_inv db'" unfolding db' by (rule retried_inv [OF v]) (use d(2) in auto)
    then show ?thesis by (rule refines_moved [OF v _ _ l]) (simp add: db' retried_db_def moved_db_def)
  next
    case False
    then have "db' = db"
      using run by (cases "delivery_required i db"; cases ?sch) (auto simp: delivery_retry_def split: if_splits)
    with inv show ?thesis by (simp add: refines_refl)
  qed
qed

lemma start_attempt_refines:
  assumes "delivery_inv db" "start_attempt id ck i token k db = (res, db')"
  shows "refines db db'"
  using start_attempt_ok [OF assms] assms(1) by (cases res) (auto intro: refines_same)

lemma save_generated_refines:
  assumes inv: "delivery_inv db" and run: "save_generated id id ck out tg db = (res, db')"
  shows "refines db db'"
proof -
  have rows: "deliveries db' = deliveries db \<or> (\<exists>d. deliveries db' = deliveries db @ [d] \<and> progress d = (O_QUEUED, 0) \<and> o_id d = delivery_seq db)"
  proof -
    have found: "r \<in> set (responses db)" if "response_get_by_idempotency_key k db = Some r" for k r
      using that by (auto simp: response_get_by_idempotency_key_def dest: lookup_by_Some)
    have same: "deliveries db' = deliveries db"
      if "response_get_by_idempotency_key k db = Some r" "resume_existing id ck r out e sha tg tkey dkey db = (res, db')"
      for k r e sha tkey dkey using resume_existing_covered [OF inv found [OF that(1)] that(2)] by simp
    show ?thesis
      using run
      by (auto dest: same simp: save_generated_def checked_def Let_def bind_eq_Some_conv bind_eq_None_conv insert_response_def insert_delivery_def
          progress_def split: sum.splits option.splits Option.bind_splits if_splits)
  qed
  moreover have "x \<in> set (deliveries db) \<Longrightarrow> o_id x \<noteq> delivery_seq db" for x
    using response_invD(3) [OF delivery_invD(1) [OF inv]] by fastforce
  ultimately have "outbox_spec (deliveries db) (deliveries db')"
    by (auto intro: outbox_spec_refl arrive)
  with save_generated_delivery_inv [OF inv run] show ?thesis by (auto simp: refines_def)
qed

lemma outbox_step_refines: "outbox_step db db' \<Longrightarrow> delivery_inv db \<Longrightarrow> refines db db'"
proof (induction rule: outbox_step.induct)
  case (elsewhere db' db)
  then have "delivery_inv db'"
    by (simp add: outbox_part_def delivery_inv_def outbox_tables_ok_def response_inv_def attempts_of_def receipts_of_def)
  with elsewhere show ?case by (auto simp: outbox_part_def intro: refines_same)
qed (auto simp: mark_attempt_retryable_def mark_attempt_failed_def mark_attempt_uncertain_def
    intro: save_generated_refines delivery_claim_next_refines recover_stale_claims_refines start_attempt_refines
      mark_part_delivered_refines delivery_retry_refines finish_attempt_refines [where sa = A_FAILED and sd = O_QUEUED and sr = None]
      finish_attempt_refines [where sa = A_FAILED and sd = O_FAILED and sr = "Some R_FAILED"]
      finish_attempt_refines [where sa = A_UNCERTAIN and sd = O_UNCERTAIN and sr = "Some R_UNCERTAIN"] simp: finish_kind_def)

lemma outbox_reached_inv: "outbox_reached db \<Longrightarrow> delivery_inv db"
proof (induction rule: outbox_reached.induct)
  case (init db)
  then show ?case
    by (simp add: outbox_part_def empty_db_def delivery_inv_def outbox_tables_ok_def response_inv_def attempt_table_ok_def
        receipt_table_ok_def response_table_ok_def delivery_table_ok_def)
qed (use outbox_step_refines in \<open>auto simp: refines_def\<close>)

lemma outbox_run_refines: "outbox_step\<^sup>*\<^sup>* db db' \<Longrightarrow> delivery_inv db \<Longrightarrow> refines db db'"
  by (induction rule: rtranclp_induct) (use outbox_step_refines in \<open>auto simp: refines_def intro: rtranclp_trans\<close>)

lemma active_attempt_of:
  "active_attempt i k db = select_min (\<lambda>a. - a_id a) (filter (\<lambda>a. a_part_ordinal a = k \<and> a_status a = A_DELIVERING) (attempts_of db i))"
  unfolding active_attempt_def attempts_of_def filter_filter
  by (rule arg_cong [where f = "select_min (\<lambda>a. - a_id a)"], rule filter_cong) auto

text \<open>One pass over one delivery: its row, if stale, is rewritten; the others keep theirs.\<close>

lemma recover_stale_delivery_effect:
  assumes inv: "delivery_inv db" and run: "recover_stale_delivery id channel cutoff t i db = (res, db')" and d: "d \<in> set (deliveries db)"
  shows "o_id d \<noteq> i \<Longrightarrow> d \<in> set (deliveries db') \<and> attempts_of db' (o_id d) = attempts_of db (o_id d)"
    "o_id d = i \<Longrightarrow> stale_where channel cutoff d \<Longrightarrow>
       stale_values (active_attempt i (o_next_part_ordinal d) db \<noteq> None) t d \<in> set (deliveries db')"
proof -
  obtain r where v: "outbox_view db d r" using outbox_view_exists [OF inv d] by blast
  have get: "delivery_get (o_id d) db = Some d"
    using lookup_by_distinct [OF delivery_table_okD(2) [OF delivery_invD(7) [OF inv]] d] by (simp add: delivery_get_def)
  show "stale_values (active_attempt i (o_next_part_ordinal d) db \<noteq> None) t d \<in> set (deliveries db')"
    if "o_id d = i" "stale_where channel cutoff d"
  proof -
    from that(2) obtain token where st: "o_status d = O_DELIVERING" "o_claim_token d = Some token" "o_channel d = channel"
      "sql_le (o_claimed_at d) cutoff" by (auto simp: stale_where_def)
    from recover_stale_held [where race = id and t = t, OF _ st] v get run that(1)
    have "db' = recovered_db t d r (active_attempt i (o_next_part_ordinal d) db) db" by (simp add: Let_def)
    with d that(1) show ?thesis by (force simp: recovered_db_def moved_db_def set_replace_by)
  qed
  show "d \<in> set (deliveries db') \<and> attempts_of db' (o_id d) = attempts_of db (o_id d)" if "o_id d \<noteq> i"
  proof (cases "delivery_get i db")
    case None
    with run d show ?thesis by (auto simp: recover_stale_delivery_def)
  next
    case (Some e)
    show ?thesis
    proof (rule recover_stale_cases [where race = id and channel = channel and cutoff = cutoff and t = t, OF inv _ _ Some],
        goal_cases inv fenced skipped recovered)
      case skipped
      with run d show ?case by auto
    next
      case (recovered q token)
      let ?act = "active_attempt i (o_next_part_ordinal e) db"
      have db': "db' = recovered_db t e q ?act db" using run recovered(7) by (simp add: Let_def)
      have "d \<in> set (deliveries db')" using d that recovered(6) by (force simp: db' recovered_db_def moved_db_def set_replace_by)
      moreover have "attempts_of db' (o_id d) = attempts_of db (o_id d)"
      proof (cases ?act)
        case None
        then show ?thesis by (simp add: db' recovered_db_def moved_db_def attempts_of_def)
      next
        case (Some a)
        from active_attempt_Some [OF Some] have a: "a \<in> set (attempts db)" "a_delivery_id a = i" by auto
        show ?thesis
          using attempts_of_replace_other [OF a(1) attempt_table_okD(2) [OF delivery_invD(3) [OF inv]], of
              "attempt_finish_values A_UNCERTAIN CLAIM_EXPIRED_ERROR t a" "o_id d"] a(2) that Some
          by (simp add: db' recovered_db_def moved_db_def swap_attempt_def attempts_of_def attempt_finish_values_def)
      qed
      ultimately show ?case by blast
    qed (use inv in simp_all)
  qed
qed

definition stale_outcome :: "gateway_db \<Rightarrow> instant \<Rightarrow> DeliveryOutboxRecord \<Rightarrow> DeliveryOutboxRecord" where
  "stale_outcome db t d = stale_values (active_attempt (o_id d) (o_next_part_ordinal d) db \<noteq> None) t d"

lemma stale_outcome_key: "o_id (stale_outcome db t d) = o_id d"
  by (simp add: stale_outcome_def stale_values_def)

lemma recover_stale_loop_effect:
  assumes "delivery_inv db" "recover_stale_loop id channel cutoff t ids db = (Inr ds, db')" "distinct ids" "d \<in> set (deliveries db)"
  shows "(o_id d \<notin> set ids \<longrightarrow> d \<in> set (deliveries db')) \<and>
    (o_id d \<in> set ids \<and> stale_where channel cutoff d \<longrightarrow> stale_outcome db t d \<in> set (deliveries db'))"
  using assms
proof (induction ids arbitrary: db d ds)
  case (Cons i ids)
  obtain x db1 where one: "recover_stale_delivery id channel cutoff t i db = (x, db1)" by fastforce
  obtain y db2 where two: "recover_stale_loop id channel cutoff t ids db1 = (y, db2)" by fastforce
  have inv1: "delivery_inv db1" using recover_stale_delivery_refines [OF Cons.prems(1) one] by (simp add: refines_def)
  from Cons.prems(2) [unfolded recover_stale_loop.simps one two prod.case] have db2: "db2 = db'" and y: "\<exists>es. y = Inr es"
    by (auto split: sum.splits)
  then obtain es where es: "recover_stale_loop id channel cutoff t ids db1 = (Inr es, db')" using two by auto
  have dist: "distinct ids" "i \<notin> set ids" using Cons.prems(3) by auto
  note eff = recover_stale_delivery_effect [OF Cons.prems(1) one Cons.prems(4)]
  show ?case
  proof (cases "o_id d = i")
    case True
    have "stale_outcome db t d \<in> set (deliveries db1)" if "stale_where channel cutoff d"
      using eff(2) [OF True that] True by (simp add: stale_outcome_def)
    then have "stale_outcome db t d \<in> set (deliveries db')" if "stale_where channel cutoff d"
      using Cons.IH [OF inv1 es dist(1)] stale_outcome_key [of db t d] dist(2) that True by auto
    with True show ?thesis by simp
  next
    case False
    from eff(1) [OF False] have d1: "d \<in> set (deliveries db1)" and same: "stale_outcome db1 t d = stale_outcome db t d"
      by (simp_all add: stale_outcome_def active_attempt_of)
    from Cons.IH [OF inv1 es dist(1) d1] same False show ?thesis by auto
  qed
qed simp

lemma recover_stale_claims_outcome:
  assumes inv: "delivery_inv db"
    and args: "delivery_required_string channel ''channel'' 64 = Inr channel'" "now_or_clock ck now = Aware t" "cutoff \<le> t"
    and run: "recover_stale_claims id ck channel (Aware cutoff) now db = (Inr ds, db')"
    and d: "d \<in> set (deliveries db)"
  shows "(if stale_where channel' cutoff d then stale_outcome db t d else d) \<in> set (deliveries db')"
proof -
  let ?ids = "map o_id (sort_key stale_order (filter (stale_where channel' cutoff) (deliveries db)))"
  have loop: "recover_stale_loop id channel' cutoff t ?ids db = (Inr ds, db')"
    using run args by (simp add: recover_stale_claims_def aware_utc_def)
  have keys: "distinct (map o_id (deliveries db))" by (rule delivery_table_okD(2) [OF delivery_invD(7) [OF inv]])
  have "distinct (map o_id (filter (stale_where channel' cutoff) (deliveries db)))" by (rule distinct_map_filter [OF keys])
  then have dist: "distinct ?ids" by (simp add: distinct_map)
  have "o_id d \<in> set ?ids \<longleftrightarrow> stale_where channel' cutoff d"
    using distinct_key_eq [OF keys _ d] d by auto
  with recover_stale_loop_effect [OF inv loop dist d] show ?thesis by auto
qed

end
