(* ===== verification/Dispatch_Recovery.thy ===== *)
theory Dispatch_Recovery
  imports Response_Store
begin

text \<open>
  Operator recovery of uncertain dispatches (\<open>admin/recovery.py\<close>): inspection, and the
  three resolutions \<open>retry_approved\<close>, \<open>mark_dead\<close> and \<open>confirm_success\<close>. Each is a
  compare-and-set out of \<open>UNCERTAIN\<close> with its audit row in the same transaction;
  a repeated request with the same reference returns the recorded result.

  \<open>race\<close> is what other sessions commit between the reads of a resolution and its update.
\<close>

section \<open>The audit table\<close>

definition audit_row_ok :: "HermesDispatchRecoveryAudit \<Rightarrow> bool" where
  "audit_row_ok a =
     (((u_action a = RETRY_APPROVED \<and> u_before_status a = D_UNCERTAIN \<and> u_after_status a = D_FAILED
          \<and> is_null (u_evidence_dispatch_response_id a))
       \<or> (u_action a = MARK_DEAD \<and> u_before_status a = D_UNCERTAIN \<and> u_after_status a = D_DEAD
          \<and> is_null (u_evidence_dispatch_response_id a))
       \<or> (u_action a = CONFIRM_SUCCESS \<and> u_before_status a = D_UNCERTAIN \<and> u_after_status a = D_SUCCESS
          \<and> \<not> is_null (u_evidence_dispatch_response_id a)))
      \<and> sql_nonempty (u_operator a) \<and> sql_nonempty (u_reference a) \<and> sql_nonempty (u_reason a))"

definition audit_key :: "HermesDispatchRecoveryAudit \<Rightarrow> int \<times> HermesDispatchRecoveryAction \<times> string" where
  "audit_key a = (u_dispatch_record_id a, u_action a, u_reference a)"

definition audit_table_ok :: "HermesDispatchRecoveryAudit list \<Rightarrow> bool" where
  "audit_table_ok rows =
     (list_all audit_row_ok rows \<and> distinct (map u_id rows) \<and> distinct (map audit_key rows))"

definition audit_foreign_keys_ok :: "gateway_db \<Rightarrow> HermesDispatchRecoveryAudit \<Rightarrow> bool" where
  "audit_foreign_keys_ok db a =
     (u_dispatch_record_id a \<in> d_id ` set (dispatches db)
      \<and> (case u_evidence_dispatch_response_id a of
           None \<Rightarrow> True
         | Some e \<Rightarrow> e \<in> h_id ` set (dispatch_responses db)))"

definition audit_for ::
  "int \<Rightarrow> HermesDispatchRecoveryAction \<Rightarrow> string \<Rightarrow> gateway_db \<Rightarrow> HermesDispatchRecoveryAudit option" where
  "audit_for i action reference db = lookup_by audit_key (i, action, reference) (recovery_audits db)"

section \<open>Inspection\<close>

record DispatchRecoveryInspection =
  di_dispatch_record_id :: int
  di_status :: HermesDispatchStatus
  di_message_id :: int
  di_ai_thread_id :: string
  di_attempt_count :: int
  di_last_error_code :: "string option"
  di_has_dispatch_response :: bool
  di_has_hermes_response :: bool
  di_has_delivery :: bool
  di_blocks_following_dispatch :: bool
  di_created_at :: instant
  di_updated_at :: instant
  di_claimed_at :: "instant option"
  di_completed_at :: "instant option"
  di_lease_expires_at :: "instant option"

definition normalized_response :: "int \<Rightarrow> gateway_db \<Rightarrow> ResponseRecord option" where
  "normalized_response mid db = lookup_by r_message_id mid (responses db)"

definition blocks_following_dispatch :: "HermesDispatchRecord \<Rightarrow> gateway_db \<Rightarrow> bool" where
  "blocks_following_dispatch r db =
     (if d_status r \<notin> {D_QUEUED, D_RUNNING, D_FAILED, D_UNCERTAIN} then False
      else list_ex (\<lambda>c. d_id c = d_id r \<and>
             list_ex (\<lambda>f. d_ai_thread_id f = d_ai_thread_id c
               \<and> (d_created_at f > d_created_at c \<or> (d_created_at f = d_created_at c \<and> d_id f > d_id c))
               \<and> d_status f \<in> {D_QUEUED, D_RUNNING, D_FAILED, D_UNCERTAIN}) (dispatches db)) (dispatches db))"

definition recovery_inspect :: "int \<Rightarrow> gateway_db \<Rightarrow> DispatchRecoveryInspection option" where
  "recovery_inspect i db =
     (case dispatch_reload i db of
        None \<Rightarrow> None
      | Some r \<Rightarrow>
          let raw = get_by_dispatch_record_id (d_id r) db;
              response = normalized_response (d_message_id r) db in
          Some \<lparr>di_dispatch_record_id = d_id r, di_status = d_status r, di_message_id = d_message_id r,
            di_ai_thread_id = d_ai_thread_id r, di_attempt_count = d_attempt_count r,
            di_last_error_code = d_last_error_code r, di_has_dispatch_response = (raw \<noteq> None),
            di_has_hermes_response = (response \<noteq> None),
            di_has_delivery = (case response of
                 None \<Rightarrow> False
               | Some x \<Rightarrow> list_ex (\<lambda>d. o_response_id d = r_response_id x) (deliveries db)),
            di_blocks_following_dispatch = blocks_following_dispatch r db,
            di_created_at = d_created_at r, di_updated_at = d_updated_at r,
            di_claimed_at = d_claimed_at r, di_completed_at = d_completed_at r,
            di_lease_expires_at = d_lease_expires_at r\<rparr>)"

section \<open>Resolution\<close>

record DispatchRecoveryResult =
  dr_dispatch_record_id :: int
  dr_action :: HermesDispatchRecoveryAction
  dr_status :: HermesDispatchStatus
  dr_audit_id :: int
  dr_idempotent :: bool

definition idempotent_result ::
  "HermesDispatchRecoveryAudit \<Rightarrow> string \<Rightarrow> string \<Rightarrow> gateway_error + DispatchRecoveryResult" where
  "idempotent_result a operator reason =
     (if u_operator a \<noteq> operator \<or> u_reason a \<noteq> reason then Inl DispatchRecoveryReferenceConflictError
      else Inr \<lparr>dr_dispatch_record_id = u_dispatch_record_id a, dr_action = u_action a,
                dr_status = u_after_status a, dr_audit_id = u_id a, dr_idempotent = True\<rparr>)"

definition verified_success_evidence ::
  "HermesDispatchRecord \<Rightarrow> gateway_db \<Rightarrow> gateway_error + HermesDispatchResponse" where
  "verified_success_evidence r db =
     (case get_by_dispatch_record_id (d_id r) db of
        None \<Rightarrow> Inl (DispatchRecoveryEvidenceError ''dispatch_response_missing'')
      | Some raw \<Rightarrow>
        (case to_outcome raw r of
           Inl _ \<Rightarrow> Inl (DispatchRecoveryEvidenceError ''dispatch_response_invalid'')
         | Inr out \<Rightarrow>
           (let response = normalized_response (d_message_id r) db;
                mismatch = Inl (DispatchRecoveryEvidenceError ''hermes_response_mismatch'') in
            case verify_generated out db of
              Inl _ \<Rightarrow> mismatch
            | Inr verified \<Rightarrow>
                (case response of
                   None \<Rightarrow> Inr raw
                 | Some x \<Rightarrow>
                     (case verified of
                        None \<Rightarrow> mismatch
                      | Some v \<Rightarrow> if r_response_id v \<noteq> r_response_id x then mismatch else Inr raw)))))"

definition recovery_values ::
  "clocks \<Rightarrow> HermesDispatchRecoveryAction \<Rightarrow> HermesDispatchStatus \<Rightarrow> HermesDispatchRecord \<Rightarrow> HermesDispatchRecord" where
  "recovery_values ck action after r =
     r\<lparr>d_status := after, d_manual_retry_approved := (action = RETRY_APPROVED),
       d_updated_at := db_now ck,
       d_last_error_code := (if after = D_SUCCESS then None else d_last_error_code r)\<rparr>"

definition recovery_where :: "int \<Rightarrow> HermesDispatchRecord \<Rightarrow> bool" where
  "recovery_where i r = (d_id r = i \<and> d_status r = D_UNCERTAIN)"

definition new_audit ::
  "clocks \<Rightarrow> int \<Rightarrow> int \<Rightarrow> HermesDispatchRecoveryAction \<Rightarrow> HermesDispatchStatus \<Rightarrow> string \<Rightarrow> string \<Rightarrow> string
     \<Rightarrow> string option \<Rightarrow> int option \<Rightarrow> HermesDispatchRecoveryAudit" where
  "new_audit ck new_id i action after operator reference reason error_code evidence =
     \<lparr>u_id = new_id, u_dispatch_record_id = i, u_action = action, u_operator = operator,
      u_reference = reference, u_reason = reason, u_before_status = D_UNCERTAIN, u_after_status = after,
      u_before_error_code = error_code, u_evidence_dispatch_response_id = evidence,
      u_created_at = db_now ck\<rparr>"

text \<open>After a lost race or a constraint violation: the recorded result or a conflict.\<close>

definition recovery_replay ::
  "int \<Rightarrow> HermesDispatchRecoveryAction \<Rightarrow> string \<Rightarrow> string \<Rightarrow> string \<Rightarrow> gateway_db \<Rightarrow> DispatchRecoveryResult outcome" where
  "recovery_replay i action operator reference reason db =
     (case audit_for i action reference db of
        Some a \<Rightarrow> (idempotent_result a operator reason, db)
      | None \<Rightarrow> (Inl DispatchRecoveryStateConflictError, db))"

definition recovery_resolve ::
  "(gateway_db \<Rightarrow> gateway_db) \<Rightarrow> clocks \<Rightarrow> int \<Rightarrow> HermesDispatchRecoveryAction \<Rightarrow> HermesDispatchStatus
     \<Rightarrow> string \<Rightarrow> string \<Rightarrow> string \<Rightarrow> bool \<Rightarrow> gateway_db \<Rightarrow> DispatchRecoveryResult outcome"
where
  "recovery_resolve race ck i action after operator reference reason require_evidence db =
     (case audit_for i action reference db of
        Some a \<Rightarrow> (idempotent_result a operator reason, db)
      | None \<Rightarrow>
        (case dispatch_reload i db of
           None \<Rightarrow> (Inl DispatchRecoveryNotFoundError, db)
         | Some r \<Rightarrow>
             if d_status r \<noteq> D_UNCERTAIN then (Inl DispatchRecoveryStateConflictError, db)
             else
               checked (if require_evidence then map_sum id (\<lambda>h. Some (h_id h)) (verified_success_evidence r db)
                        else Inr None) db (\<lambda>evidence.
                 let db1 = race db in
                 case dispatch_update (recovery_where i) (recovery_values ck action after) db1 of
                   (Inl _, _) \<Rightarrow> recovery_replay i action operator reference reason db1
                 | (Inr n, db2) \<Rightarrow>
                     if n \<noteq> 1 then recovery_replay i action operator reference reason db1
                     else
                       (let a = new_audit ck (audit_seq db2) i action after operator reference reason
                                  (d_last_error_code r) evidence in
                        if audit_table_ok (recovery_audits db2 @ [a]) \<and> audit_foreign_keys_ok db2 a
                        then (Inr \<lparr>dr_dispatch_record_id = i, dr_action = action, dr_status = after,
                                   dr_audit_id = u_id a, dr_idempotent = False\<rparr>,
                              db2\<lparr>recovery_audits := recovery_audits db2 @ [a], audit_seq := audit_seq db2 + 1\<rparr>)
                        else recovery_replay i action operator reference reason db1))))"

definition retry_approved ::
  "(gateway_db \<Rightarrow> gateway_db) \<Rightarrow> clocks \<Rightarrow> int \<Rightarrow> string \<Rightarrow> string \<Rightarrow> string \<Rightarrow> gateway_db \<Rightarrow> DispatchRecoveryResult outcome" where
  "retry_approved race ck i operator reference reason db =
     recovery_resolve race ck i RETRY_APPROVED D_FAILED operator reference reason False db"

definition recovery_mark_dead ::
  "(gateway_db \<Rightarrow> gateway_db) \<Rightarrow> clocks \<Rightarrow> int \<Rightarrow> string \<Rightarrow> string \<Rightarrow> string \<Rightarrow> gateway_db \<Rightarrow> DispatchRecoveryResult outcome" where
  "recovery_mark_dead race ck i operator reference reason db =
     recovery_resolve race ck i MARK_DEAD D_DEAD operator reference reason False db"

definition confirm_success ::
  "(gateway_db \<Rightarrow> gateway_db) \<Rightarrow> clocks \<Rightarrow> int \<Rightarrow> string \<Rightarrow> string \<Rightarrow> string \<Rightarrow> gateway_db \<Rightarrow> DispatchRecoveryResult outcome" where
  "confirm_success race ck i operator reference reason db =
     recovery_resolve race ck i CONFIRM_SUCCESS D_SUCCESS operator reference reason True db"

section \<open>What a resolution does\<close>

text \<open>The three status pairs the code passes to \<open>_resolve\<close>.\<close>

fun action_after :: "HermesDispatchRecoveryAction \<Rightarrow> HermesDispatchStatus" where
  "action_after RETRY_APPROVED = D_FAILED"
| "action_after MARK_DEAD = D_DEAD"
| "action_after CONFIRM_SUCCESS = D_SUCCESS"

lemma recovery_values_sel [dispatch_values, simp]:
  "d_id (recovery_values ck a s r) = d_id r"
  "d_idempotency_key (recovery_values ck a s r) = d_idempotency_key r"
  "d_message_id (recovery_values ck a s r) = d_message_id r"
  "d_ai_thread_id (recovery_values ck a s r) = d_ai_thread_id r"
  "d_status (recovery_values ck a s r) = s"
  "d_claim_token (recovery_values ck a s r) = d_claim_token r"
  "d_attempt_count (recovery_values ck a s r) = d_attempt_count r"
  "d_created_at (recovery_values ck a s r) = d_created_at r"
  by (simp_all add: recovery_values_def)

lemma recovery_values_row_ok:
  "dispatch_row_ok r \<Longrightarrow> d_status r = D_UNCERTAIN \<Longrightarrow> dispatch_row_ok (recovery_values ck a (action_after a) r)"
  by (cases a) (auto simp: dispatch_row_ok_def recovery_values_def dispatch_reconciliation_ok_def
      null_or_nonempty_def)

lemma action_after_not_running: "action_after a \<noteq> D_RUNNING"
  by (cases a) simp_all

lemma recovery_table_ok:
  assumes "dispatch_table_ok rows"
  shows "dispatch_table_ok (update_where (recovery_where i) (recovery_values ck a (action_after a)) rows)"
  by (rule dispatch_table_ok_update [OF assms])
    (simp_all add: recovery_where_def recovery_values_row_ok action_after_not_running)

text \<open>
  A resolution either leaves the database other sessions left, or moves exactly the named
  record out of \<open>UNCERTAIN\<close> and appends the audit that says so.
\<close>

lemma recovery_resolve_cases:
  assumes run: "recovery_resolve race ck i a (action_after a) op ref why ev db = (res, db')"
    and ok: "dispatch_table_ok (dispatches (race db))"
  obtains (kept) "db' = db \<or> db' = race db" "\<And>x. res = Inr x \<Longrightarrow> dr_idempotent x"
      "\<And>x. res = Inr x \<Longrightarrow> (\<exists>y\<in>set (recovery_audits db'). audit_key y = (i, a, ref)
          \<and> u_operator y = op \<and> u_reason y = why \<and> dr_audit_id x = u_id y \<and> dr_status x = u_after_status y)"
  | (resolved) r q ev_id x where "dispatch_reload i db = Some r" "d_status r = D_UNCERTAIN"
      "q \<in> set (dispatches (race db))" "recovery_where i q"
      "audit_for i a ref db = None"
      "if ev then (\<exists>h. verified_success_evidence r db = Inr h \<and> ev_id = Some (h_id h)) else ev_id = None"
      "x = new_audit ck (audit_seq (race db)) i a (action_after a) op ref why (d_last_error_code r) ev_id"
      "db' = (race db)\<lparr>dispatches := update_where (recovery_where i) (recovery_values ck a (action_after a)) (dispatches (race db)),
                recovery_audits := recovery_audits (race db) @ [x], audit_seq := audit_seq (race db) + 1\<rparr>"
      "audit_table_ok (recovery_audits (race db) @ [x])"
      "res = Inr \<lparr>dr_dispatch_record_id = i, dr_action = a, dr_status = action_after a, dr_audit_id = u_id x, dr_idempotent = False\<rparr>"
proof -
  have replay: ?thesis if "(res, db') = (idempotent_result y op why, u)" "audit_for i a ref u = Some y" "u = db \<or> u = race db" for y u
    using that lookup_by_Some [OF that(2) [unfolded audit_for_def]]
    by (intro kept) (auto simp: idempotent_result_def split: if_splits)
  have fail: ?thesis if "(res, db') = (Inl e, u)" "u = db \<or> u = race db" for e u
    using that by (intro kept) auto
  have replay2: ?thesis if "(res, db') = recovery_replay i a op ref why (race db)"
    using that replay [of _ "race db"] fail [of _ "race db"]
    by (auto simp: recovery_replay_def split: option.splits)
  note upd = dispatch_update_Inr [OF recovery_table_ok [OF ok], of i ck a]
  show ?thesis
  proof (cases "audit_for i a ref db")
    case (Some y)
    with run replay [of y db] show ?thesis by (simp add: recovery_resolve_def)
  next
    case none: None
    show ?thesis
    proof (cases "dispatch_reload i db")
      case None
      with none run fail [of DispatchRecoveryNotFoundError db] show ?thesis by (simp add: recovery_resolve_def)
    next
      case (Some r)
      let ?ev = "if ev then map_sum id (\<lambda>h. Some (h_id h)) (verified_success_evidence r db) else Inr None"
      consider "d_status r \<noteq> D_UNCERTAIN" | e where "d_status r = D_UNCERTAIN" "?ev = Inl e"
        | evi where "d_status r = D_UNCERTAIN" "?ev = Inr evi"
        by (cases ?ev) auto
      then show ?thesis
      proof cases
        case 1
        with Some none run fail [of DispatchRecoveryStateConflictError db] show ?thesis by (simp add: recovery_resolve_def)
      next
        case (2 e)
        with Some none run fail [of e db] show ?thesis by (simp add: recovery_resolve_def)
      next
        case (3 evi)
        let ?x = "new_audit ck (audit_seq (race db)) i a (action_after a) op ref why (d_last_error_code r) evi"
        let ?db2 = "(race db)\<lparr>dispatches := update_where (recovery_where i) (recovery_values ck a (action_after a)) (dispatches (race db))\<rparr>"
        have eq: "(res, db') = (if rowcount (recovery_where i) (dispatches (race db)) \<noteq> 1
            then recovery_replay i a op ref why (race db)
            else if audit_table_ok (recovery_audits (race db) @ [?x]) \<and> audit_foreign_keys_ok ?db2 ?x
            then (Inr \<lparr>dr_dispatch_record_id = i, dr_action = a, dr_status = action_after a, dr_audit_id = u_id ?x, dr_idempotent = False\<rparr>,
                  ?db2\<lparr>recovery_audits := recovery_audits (race db) @ [?x], audit_seq := audit_seq (race db) + 1\<rparr>)
            else recovery_replay i a op ref why (race db))"
          using run 3 Some none upd by (simp add: recovery_resolve_def Let_def cong: if_cong)
        show ?thesis
        proof (cases "rowcount (recovery_where i) (dispatches (race db)) = 1
            \<and> audit_table_ok (recovery_audits (race db) @ [?x]) \<and> audit_foreign_keys_ok ?db2 ?x")
          case False
          with eq replay2 show ?thesis by (auto split: if_splits)
        next
          case True
          then obtain q where "q \<in> set (dispatches (race db))" "recovery_where i q"
            using rowcount_0_iff [of "recovery_where i" "dispatches (race db)"] by auto
          moreover have "if ev then (\<exists>h. verified_success_evidence r db = Inr h \<and> evi = Some (h_id h)) else evi = None"
            using 3(2) by (cases "verified_success_evidence r db") (auto split: if_splits)
          ultimately show ?thesis
            using eq True Some 3 none by (intro resolved [of r q evi ?x]) simp_all
        qed
      qed
    qed
  qed
qed

end
