(* ===== verification/Dispatch_Worker.thy ===== *)
theory Dispatch_Worker
  imports Dispatch_Recovery
begin

text \<open>
  The dispatch worker (\<open>hermes/worker.py\<close>): claiming one thread head, executing it under a
  lease heartbeat, completing it, handing the result to the persistence processor, and the
  reconciliation scan that repairs results whose persistence was interrupted.

  The Hermes call itself is an argument (\<open>result\<close>), as is what happens to the database
  while it runs (\<open>during\<close>: the heartbeat, other workers, operators). \<open>race*\<close> are the
  transactions of other sessions inside the persistence and reconciliation steps.
\<close>

section \<open>Worker state and claims\<close>

record HermesDispatchWorker =
  hw_lease_seconds :: rat
  hw_retry_limit :: int
  hw_reconcile_persisted_responses :: bool
  hw_has_response_processor :: bool
  hw_reconciliation_cursor :: int
  hw_next_reconciliation_scan_at :: rat

record DispatchClaim =
  dc_record_id :: int
  dc_claim_token :: string
  dc_ai_thread_id :: string
  dc_idempotency_key :: string
  dc_attempt_count :: int
  dc_lease_expires_at :: instant

record DispatchProcessResult =
  dp_record_id :: int
  dp_status :: HermesDispatchStatus
  dp_response_id :: "int option"
  dp_error_code :: "string option"
  dp_delivery_error_code :: "string option"

record ReconciliationFailureState =
  rf_record_id :: int
  rf_failure_count :: int
  rf_next_attempt_at :: "instant option"
  rf_quarantined_at :: "instant option"

text \<open>The constructor validates its numbers; the cursor and the next scan start at zero.\<close>

definition make_dispatch_worker :: "py_num \<Rightarrow> py_num \<Rightarrow> bool \<Rightarrow> bool \<Rightarrow> gateway_error + HermesDispatchWorker" where
  "make_dispatch_worker lease_seconds retry_limit reconcile processor =
     (case validated_lease_seconds lease_seconds of
        Inl _ \<Rightarrow> Inl (ValueError ''lease_seconds must be a positive number'')
      | Inr lease \<Rightarrow>
        (case validated_retry_limit retry_limit of
           Inl e \<Rightarrow> Inl e
         | Inr retries \<Rightarrow>
             Inr \<lparr>hw_lease_seconds = lease, hw_retry_limit = retries,
                  hw_reconcile_persisted_responses = reconcile, hw_has_response_processor = processor,
                  hw_reconciliation_cursor = 0, hw_next_reconciliation_scan_at = 0\<rparr>))"

definition claim_once ::
  "(nat \<Rightarrow> gateway_db \<Rightarrow> gateway_db) \<Rightarrow> clocks \<Rightarrow> string \<Rightarrow> HermesDispatchWorker \<Rightarrow> py_datetime option
     \<Rightarrow> gateway_db \<Rightarrow> DispatchClaim option outcome"
where
  "claim_once race ck uuid w now db =
     (case dispatch_claim_next race ck uuid (Some uuid) (PyFloat (hw_lease_seconds w)) (PyInt (hw_retry_limit w)) now db of
        (Inl e, db') \<Rightarrow> (Inl e, db')
      | (Inr None, db') \<Rightarrow> (Inr None, db')
      | (Inr (Some r), db') \<Rightarrow>
          (case (d_claim_token r, d_lease_expires_at r) of
             (Some token, Some lease_end) \<Rightarrow>
               (Inr (Some \<lparr>dc_record_id = d_id r, dc_claim_token = token, dc_ai_thread_id = d_ai_thread_id r,
                  dc_idempotency_key = d_idempotency_key r, dc_attempt_count = d_attempt_count r,
                  dc_lease_expires_at = lease_end\<rparr>), db')
           | _ \<Rightarrow> (Inl (HermesDispatchStateConflictError (d_id r) D_RUNNING), db')))"

section \<open>The lease heartbeat\<close>

text \<open>One renewal per wake-up of the heartbeat thread; the first failure ends it.\<close>

fun heartbeat_run :: "clocks list \<Rightarrow> DispatchClaim \<Rightarrow> rat \<Rightarrow> gateway_db \<Rightarrow> gateway_db" where
  "heartbeat_run [] claim lease db = db"
| "heartbeat_run (ck # cks) claim lease db =
     (case dispatch_renew_lease ck (dc_record_id claim) (dc_claim_token claim) (PyFloat lease) None db of
        (Inr _, db') \<Rightarrow> heartbeat_run cks claim lease db'
      | (Inl _, db') \<Rightarrow> db')"

section \<open>Executing a claim\<close>

definition record_failure ::
  "clocks \<Rightarrow> HermesDispatchWorker \<Rightarrow> DispatchClaim \<Rightarrow> hermes_exception \<Rightarrow> gateway_db \<Rightarrow> DispatchProcessResult outcome"
where
  "record_failure ck w claim error db =
     (let code = dispatch_error_code error in
      case (if dispatch_failure_status error = D_FAILED
            then dispatch_mark_failed ck (dc_record_id claim) (dc_claim_token claim) code
                   (Some (PyInt (hw_retry_limit w))) db
            else dispatch_mark_uncertain ck (dc_record_id claim) (dc_claim_token claim) code db) of
        (Inl e, db') \<Rightarrow> (Inl e, db')
      | (Inr r, db') \<Rightarrow>
          (Inr \<lparr>dp_record_id = dc_record_id claim, dp_status = d_status r, dp_response_id = None,
                dp_error_code = Some code, dp_delivery_error_code = None\<rparr>, db'))"

text \<open>\<open>_deliver\<close>: an exception of the processor is an error code, never a failure of the dispatch.\<close>

definition worker_deliver ::
  "(gateway_db \<Rightarrow> gateway_db) \<Rightarrow> (gateway_db \<Rightarrow> gateway_db) \<Rightarrow> clocks \<Rightarrow> HermesDispatchWorker
     \<Rightarrow> HermesDispatchOutcome \<Rightarrow> gateway_db \<Rightarrow> string option \<times> gateway_db"
where
  "worker_deliver race race2 ck w out db =
     (if \<not> hw_has_response_processor w then (None, db)
      else
        (case persist_response race race2 ck out db of
           (Inl e, db') \<Rightarrow> (Some (dispatch_error_code (OtherException ''persistence'')), db')
         | (Inr _, db') \<Rightarrow> (None, db')))"

definition process_claim ::
  "(gateway_db \<Rightarrow> gateway_db) \<Rightarrow> (gateway_db \<Rightarrow> gateway_db) \<Rightarrow> (gateway_db \<Rightarrow> gateway_db) \<Rightarrow> clocks \<Rightarrow> clocks
     \<Rightarrow> HermesDispatchWorker \<Rightarrow> DispatchClaim \<Rightarrow> (hermes_exception + HermesDispatchOutcome) \<Rightarrow> gateway_db
     \<Rightarrow> DispatchProcessResult outcome"
where
  "process_claim during race race2 ck ck' w claim result db =
     (let conflict = Inl (HermesDispatchStateConflictError (dc_record_id claim) D_RUNNING) in
      case dispatch_reload (dc_record_id claim) db of
        None \<Rightarrow> (conflict, db)
      | Some r \<Rightarrow>
          if d_status r \<noteq> D_RUNNING \<or> d_claim_token r \<noteq> Some (dc_claim_token claim) then (conflict, db)
          else
            (case dispatch_renew_lease ck (dc_record_id claim) (dc_claim_token claim)
                    (PyFloat (hw_lease_seconds w)) None db of
               (Inl e, db1) \<Rightarrow> (Inl e, db1)
             | (Inr _, db1) \<Rightarrow>
                 (let db2 = during db1 in
                  case result of
                    Inl error \<Rightarrow> record_failure ck' w claim error db2
                  | Inr out \<Rightarrow>
                      (case complete_success ck' (dc_record_id claim) (dc_claim_token claim) out db2 of
                         (Inl e, db3) \<Rightarrow> (Inl e, db3)
                       | (Inr response, db3) \<Rightarrow>
                           (case worker_deliver race race2 ck' w out db3 of
                              (delivery_error, db4) \<Rightarrow>
                                (Inr \<lparr>dp_record_id = dc_record_id claim, dp_status = D_SUCCESS,
                                      dp_response_id = Some (h_id response), dp_error_code = None,
                                      dp_delivery_error_code = delivery_error\<rparr>, db4))))))"

section \<open>Reconciliation\<close>

definition RECONCILIATION_BATCH_SIZE :: nat where "RECONCILIATION_BATCH_SIZE = 25"
definition RECONCILIATION_SCAN_INTERVAL_SECONDS :: rat where "RECONCILIATION_SCAN_INTERVAL_SECONDS = 5"
definition RECONCILIATION_BACKOFF_BASE_SECONDS :: int where "RECONCILIATION_BACKOFF_BASE_SECONDS = 30"
definition RECONCILIATION_BACKOFF_MAX_SECONDS :: int where "RECONCILIATION_BACKOFF_MAX_SECONDS = 300"
definition RECONCILIATION_QUARANTINE_FAILURES :: int where "RECONCILIATION_QUARANTINE_FAILURES = 5"
definition RECONCILIATION_ERROR_CODE :: string where
  "RECONCILIATION_ERROR_CODE = ''dispatch_reconciliation_candidate_invalid''"

definition reconciliation_due :: "instant \<Rightarrow> HermesDispatchRecord \<Rightarrow> bool" where
  "reconciliation_due now r =
     (d_reconciliation_quarantined_at r = None
      \<and> (d_reconciliation_next_attempt_at r = None \<or> sql_le (d_reconciliation_next_attempt_at r) now))"

text \<open>The \<open>WHERE\<close> clause of the scan: a successful dispatch with a raw result, no complete delivery state.\<close>

definition reconciliation_candidate :: "int \<Rightarrow> instant \<Rightarrow> gateway_db \<Rightarrow> HermesDispatchRecord \<Rightarrow> bool" where
  "reconciliation_candidate after now db r =
     (list_ex (\<lambda>h. h_dispatch_record_id h = d_id r) (dispatch_responses db)
      \<and> list_ex (\<lambda>g. g_id g = d_message_id r \<and> g_source g = ''wechat'') (messages db)
      \<and> d_status r = D_SUCCESS \<and> d_id r > after \<and> reconciliation_due now r
      \<and> (\<not> list_ex (\<lambda>x. r_message_id x = d_message_id r) (responses db)
         \<or> \<not> list_ex (\<lambda>x. r_message_id x = d_message_id r
               \<and> list_ex (\<lambda>d. o_response_id d = r_response_id x) (deliveries db)) (responses db)))"

definition reconciliation_candidate_ids :: "int \<Rightarrow> instant \<Rightarrow> gateway_db \<Rightarrow> int list" where
  "reconciliation_candidate_ids after now db =
     take RECONCILIATION_BATCH_SIZE (sort (map d_id (filter (reconciliation_candidate after now db) (dispatches db))))"

definition clear_reconciliation_failure :: "clocks \<Rightarrow> int \<Rightarrow> gateway_db \<Rightarrow> unit outcome" where
  "clear_reconciliation_failure ck i db =
     (case dispatch_update (\<lambda>r. d_id r = i \<and> d_reconciliation_failure_count r > 0)
             (\<lambda>r. r\<lparr>d_reconciliation_failure_count := 0, d_reconciliation_next_attempt_at := None,
                    d_reconciliation_quarantined_at := None, d_reconciliation_last_error_code := None,
                    d_updated_at := db_now ck\<rparr>) db of
        (Inl e, _) \<Rightarrow> (Inl e, db)
      | (Inr n, db') \<Rightarrow> if n \<noteq> 0 then (Inr (), db') else (Inr (), db))"

definition reconcile_candidate ::
  "(gateway_db \<Rightarrow> gateway_db) \<Rightarrow> (gateway_db \<Rightarrow> gateway_db) \<Rightarrow> clocks \<Rightarrow> int \<Rightarrow> gateway_db \<Rightarrow> bool outcome"
where
  "reconcile_candidate race race2 ck i db =
     (case dispatch_reload i db of
        None \<Rightarrow> (Inr False, db)
      | Some r \<Rightarrow>
        (case get_by_dispatch_record_id i db of
           None \<Rightarrow> (Inr False, db)
         | Some raw \<Rightarrow>
           (case message_get (d_message_id r) db of
              None \<Rightarrow> (Inr False, db)
            | Some message \<Rightarrow>
                if d_status r \<noteq> D_SUCCESS \<or> g_source message \<noteq> ''wechat'' then (Inr False, db)
                else
                  checked (to_outcome raw r) db (\<lambda>out.
                  checked (make_delivery_target (g_source message) (g_source_account_id message)
                             (g_conversation_id message)) db (\<lambda>target.
                    case save_generated race race2 ck out target db of
                      (Inl e, db') \<Rightarrow> (Inl e, db')
                    | (Inr (_, _, created), db') \<Rightarrow>
                        (case clear_reconciliation_failure ck i db' of
                           (Inl e, db'') \<Rightarrow> (Inl e, db'')
                         | (Inr _, db'') \<Rightarrow> (Inr created, db'')))))))"

definition reconciliation_delay_seconds :: "int \<Rightarrow> int" where
  "reconciliation_delay_seconds failure_count =
     min RECONCILIATION_BACKOFF_MAX_SECONDS
         (RECONCILIATION_BACKOFF_BASE_SECONDS * 2 ^ nat (failure_count - 1))"

definition defer_values :: "clocks \<Rightarrow> instant \<Rightarrow> int \<Rightarrow> HermesDispatchRecord \<Rightarrow> HermesDispatchRecord" where
  "defer_values ck now failure_count r =
     (let quarantined = failure_count \<ge> RECONCILIATION_QUARANTINE_FAILURES in
      r\<lparr>d_reconciliation_failure_count := failure_count,
        d_reconciliation_next_attempt_at :=
          (if quarantined then None
           else Some (now + timedelta_seconds (of_int (reconciliation_delay_seconds failure_count)))),
        d_reconciliation_quarantined_at := (if quarantined then Some now else None),
        d_reconciliation_last_error_code := Some RECONCILIATION_ERROR_CODE,
        d_updated_at := db_now ck\<rparr>)"

definition defer_where :: "int \<Rightarrow> int \<Rightarrow> instant \<Rightarrow> HermesDispatchRecord \<Rightarrow> bool" where
  "defer_where i count now r =
     (d_id r = i \<and> d_reconciliation_failure_count r = count \<and> reconciliation_due now r)"

definition defer_reconciliation_candidate ::
  "(gateway_db \<Rightarrow> gateway_db) \<Rightarrow> clocks \<Rightarrow> instant \<Rightarrow> int \<Rightarrow> gateway_db \<Rightarrow> ReconciliationFailureState option outcome"
where
  "defer_reconciliation_candidate race ck now i db =
     (case dispatch_reload i db of
        None \<Rightarrow> (Inr None, db)
      | Some r \<Rightarrow>
          if d_reconciliation_quarantined_at r \<noteq> None \<or> sql_gt (d_reconciliation_next_attempt_at r) now
          then (Inr None, db)
          else
            (let failure_count = d_reconciliation_failure_count r + 1;
                 db1 = race db;
                 p = defer_where i (d_reconciliation_failure_count r) now;
                 f = defer_values ck now failure_count in
             case dispatch_update p f db1 of
               (Inl e, _) \<Rightarrow> (Inl e, db1)
             | (Inr n, db2) \<Rightarrow>
                 if n \<noteq> 1 then (Inr None, db1)
                 else (Inr (Some \<lparr>rf_record_id = i, rf_failure_count = failure_count,
                          rf_next_attempt_at = d_reconciliation_next_attempt_at (f r),
                          rf_quarantined_at = d_reconciliation_quarantined_at (f r)\<rparr>), db2)))"

text \<open>
  The loop over one batch. A database error is raised (an integrity error is one of them);
  any other exception defers the candidate. The cursor moves before the candidate is tried.
\<close>

fun reconcile_loop ::
  "(gateway_db \<Rightarrow> gateway_db) \<Rightarrow> (gateway_db \<Rightarrow> gateway_db) \<Rightarrow> (gateway_db \<Rightarrow> gateway_db) \<Rightarrow> clocks \<Rightarrow> instant
     \<Rightarrow> int list \<Rightarrow> HermesDispatchWorker \<Rightarrow> gateway_db \<Rightarrow> (gateway_error + bool) \<times> HermesDispatchWorker \<times> gateway_db"
where
  "reconcile_loop race race2 race3 ck now [] w db = (Inr False, w, db)"
| "reconcile_loop race race2 race3 ck now (i # ids) w db =
     (let w' = w\<lparr>hw_reconciliation_cursor := i\<rparr> in
      case reconcile_candidate race race2 ck i db of
        (Inr True, db') \<Rightarrow> (Inr True, w', db')
      | (Inr False, db') \<Rightarrow> reconcile_loop race race2 race3 ck now ids w' db'
      | (Inl IntegrityError, db') \<Rightarrow> (Inl IntegrityError, w', db')
      | (Inl _, db') \<Rightarrow>
          (case defer_reconciliation_candidate race3 ck now i db' of
             (Inl e, db'') \<Rightarrow> (Inl e, w', db'')
           | (Inr _, db'') \<Rightarrow> reconcile_loop race race2 race3 ck now ids w' db''))"

definition reconcile_once ::
  "(gateway_db \<Rightarrow> gateway_db) \<Rightarrow> (gateway_db \<Rightarrow> gateway_db) \<Rightarrow> (gateway_db \<Rightarrow> gateway_db) \<Rightarrow> clocks
     \<Rightarrow> py_datetime option \<Rightarrow> HermesDispatchWorker \<Rightarrow> gateway_db
     \<Rightarrow> (gateway_error + bool) \<times> HermesDispatchWorker \<times> gateway_db"
where
  "reconcile_once race race2 race3 ck now w db =
     (if \<not> hw_reconcile_persisted_responses w then (Inr False, w, db)
      else
        (case now of
           Some (Naive _) \<Rightarrow>
             (Inl (ValueError ''reconciliation clock must return a timezone-aware datetime''), w, db)
         | _ \<Rightarrow>
             (let t = (case now of Some (Aware t) \<Rightarrow> t | _ \<Rightarrow> wall_now ck);
                  ids = reconciliation_candidate_ids (hw_reconciliation_cursor w) t db in
              if ids = [] \<and> hw_reconciliation_cursor w \<noteq> 0
              then (let w0 = w\<lparr>hw_reconciliation_cursor := 0\<rparr> in
                    reconcile_loop race race2 race3 ck t (reconciliation_candidate_ids 0 t db) w0 db)
              else reconcile_loop race race2 race3 ck t ids w db)))"

definition reconcile_if_due ::
  "(gateway_db \<Rightarrow> gateway_db) \<Rightarrow> (gateway_db \<Rightarrow> gateway_db) \<Rightarrow> (gateway_db \<Rightarrow> gateway_db) \<Rightarrow> clocks \<Rightarrow> rat
     \<Rightarrow> HermesDispatchWorker \<Rightarrow> gateway_db \<Rightarrow> (gateway_error + bool) \<times> HermesDispatchWorker \<times> gateway_db"
where
  "reconcile_if_due race race2 race3 ck monotonic_now w db =
     (if monotonic_now < hw_next_reconciliation_scan_at w then (Inr False, w, db)
      else reconcile_once race race2 race3 ck None
             (w\<lparr>hw_next_reconciliation_scan_at := monotonic_now + RECONCILIATION_SCAN_INTERVAL_SECONDS\<rparr>) db)"

section \<open>One turn of the worker\<close>

definition dispatch_run_once ::
  "(nat \<Rightarrow> gateway_db \<Rightarrow> gateway_db) \<Rightarrow> (gateway_db \<Rightarrow> gateway_db) \<Rightarrow> (gateway_db \<Rightarrow> gateway_db) \<Rightarrow> (gateway_db \<Rightarrow> gateway_db)
     \<Rightarrow> (gateway_db \<Rightarrow> gateway_db) \<Rightarrow> clocks \<Rightarrow> clocks \<Rightarrow> string \<Rightarrow> py_datetime option
     \<Rightarrow> (DispatchClaim \<Rightarrow> hermes_exception + HermesDispatchOutcome) \<Rightarrow> HermesDispatchWorker \<Rightarrow> gateway_db
     \<Rightarrow> (gateway_error + DispatchProcessResult option) \<times> HermesDispatchWorker \<times> gateway_db"
where
  "dispatch_run_once claim_race during race race2 race3 ck ck' uuid now call w db =
     (case reconcile_once race race2 race3 ck now w db of
        (Inl e, w', db1) \<Rightarrow> (Inl e, w', db1)
      | (Inr _, w', db1) \<Rightarrow>
          (case claim_once claim_race ck uuid w' now db1 of
             (Inl e, db2) \<Rightarrow> (Inl e, w', db2)
           | (Inr None, db2) \<Rightarrow> (Inr None, w', db2)
           | (Inr (Some claim), db2) \<Rightarrow>
               (case process_claim during race race2 ck ck' w' claim (call claim) db2 of
                  (Inl e, db3) \<Rightarrow> (Inl e, w', db3)
                | (Inr res, db3) \<Rightarrow> (Inr (Some res), w', db3))))"

section \<open>Reconciliation keeps the constraints\<close>

lemma RECONCILIATION_ERROR_CODE_nonempty: "sql_nonempty RECONCILIATION_ERROR_CODE"
  by (simp add: sql_nonempty_def RECONCILIATION_ERROR_CODE_def)

lemma defer_values_sel [dispatch_values, simp]:
  "d_id (defer_values ck n c r) = d_id r"
  "d_idempotency_key (defer_values ck n c r) = d_idempotency_key r"
  "d_message_id (defer_values ck n c r) = d_message_id r"
  "d_ai_thread_id (defer_values ck n c r) = d_ai_thread_id r"
  "d_status (defer_values ck n c r) = d_status r"
  "d_reconciliation_failure_count (defer_values ck n c r) = c"
  by (simp_all add: defer_values_def Let_def)

lemma due_count:
  "dispatch_row_ok r \<Longrightarrow> reconciliation_due now r \<Longrightarrow>
     0 \<le> d_reconciliation_failure_count r \<and> d_reconciliation_failure_count r \<le> 4"
  by (auto simp: dispatch_row_ok_def dispatch_reconciliation_ok_def reconciliation_due_def is_null_def)

lemma defer_values_row_ok:
  assumes "dispatch_row_ok r" and "defer_where i c now r"
  shows "dispatch_row_ok (defer_values ck now (c + 1) r)"
proof -
  from assms(2) have c: "c = d_reconciliation_failure_count r" "reconciliation_due now r"
    by (auto simp: defer_where_def)
  from due_count [OF assms(1) c(2)] c(1) have "0 \<le> c" "c \<le> 4" by auto
  then have "dispatch_reconciliation_ok (defer_values ck now (c + 1) r)"
    by (auto simp: dispatch_reconciliation_ok_def defer_values_def Let_def RECONCILIATION_QUARANTINE_FAILURES_def)
  with assms(1) \<open>0 \<le> c\<close> show ?thesis
    by (cases "d_status r") (auto simp: dispatch_row_ok_def defer_values_def Let_def)
qed

lemma defer_table_ok:
  assumes "dispatch_table_ok rows"
  shows "dispatch_table_ok (update_where (defer_where i c now) (defer_values ck now (c + 1)) rows)"
  by (rule dispatch_table_ok_update [OF assms]) (simp_all add: defer_values_row_ok)

text \<open>
  A deferral either leaves the database other sessions left, or counts one more failure on
  the candidate: the first four wait for a doubling delay of at most five minutes, the fifth
  is quarantined for good.
\<close>

lemma defer_cases:
  assumes ok: "dispatch_table_ok (dispatches (race db))"
    and run: "defer_reconciliation_candidate race ck now i db = (res, db')"
  obtains (kept) "db' = db \<or> db' = race db" "res = Inr None"
  | (deferred) r q where "dispatch_reload i db = Some r" "q \<in> set (dispatches (race db))"
      "defer_where i (d_reconciliation_failure_count r) now q"
      "db' = (race db)\<lparr>dispatches := update_where (defer_where i (d_reconciliation_failure_count r) now)
                (defer_values ck now (d_reconciliation_failure_count r + 1)) (dispatches (race db))\<rparr>"
      "res = Inr (Some \<lparr>rf_record_id = i, rf_failure_count = d_reconciliation_failure_count r + 1,
         rf_next_attempt_at = d_reconciliation_next_attempt_at (defer_values ck now (d_reconciliation_failure_count r + 1) r),
         rf_quarantined_at = d_reconciliation_quarantined_at (defer_values ck now (d_reconciliation_failure_count r + 1) r)\<rparr>)"
proof (cases "dispatch_reload i db")
  case None
  with run kept show ?thesis by (auto simp: defer_reconciliation_candidate_def)
next
  case (Some r)
  let ?c = "d_reconciliation_failure_count r"
  note upd = dispatch_update_Inr [OF defer_table_ok [OF ok], of i ?c now ck]
  show ?thesis
  proof (cases "d_reconciliation_quarantined_at r \<noteq> None \<or> sql_gt (d_reconciliation_next_attempt_at r) now
      \<or> rowcount (defer_where i ?c now) (dispatches (race db)) \<noteq> 1")
    case True
    with Some run kept upd show ?thesis
      by (auto simp: defer_reconciliation_candidate_def Let_def split: if_splits)
  next
    case False
    then obtain q where "q \<in> set (dispatches (race db))" "defer_where i ?c now q"
      using rowcount_0_iff [of "defer_where i ?c now" "dispatches (race db)"] by auto
    with False Some run upd show ?thesis
      by (intro deferred [of r q]) (auto simp: defer_reconciliation_candidate_def Let_def)
  qed
qed

lemma reconciliation_delay_bounds:
  "1 \<le> c \<Longrightarrow> 30 \<le> reconciliation_delay_seconds c \<and> reconciliation_delay_seconds c \<le> 300"
proof -
  have "(1::int) \<le> 2 ^ k" for k :: nat by simp
  from this [of "nat (c - 1)"] show ?thesis
    by (simp add: reconciliation_delay_seconds_def RECONCILIATION_BACKOFF_MAX_SECONDS_def
        RECONCILIATION_BACKOFF_BASE_SECONDS_def)
qed

definition clear_where :: "int \<Rightarrow> HermesDispatchRecord \<Rightarrow> bool" where
  "clear_where i r = (d_id r = i \<and> d_reconciliation_failure_count r > 0)"

definition clear_values :: "clocks \<Rightarrow> HermesDispatchRecord \<Rightarrow> HermesDispatchRecord" where
  "clear_values ck r =
     r\<lparr>d_reconciliation_failure_count := 0, d_reconciliation_next_attempt_at := None,
       d_reconciliation_quarantined_at := None, d_reconciliation_last_error_code := None,
       d_updated_at := db_now ck\<rparr>"

lemma clear_table_ok:
  assumes "dispatch_table_ok rows"
  shows "dispatch_table_ok (update_where (clear_where i) (clear_values ck) rows)"
proof (rule dispatch_table_ok_update [OF assms])
  show "dispatch_row_ok (clear_values ck r)" if "dispatch_row_ok r" for r
    using that by (cases "d_status r") (auto simp: dispatch_row_ok_def clear_values_def dispatch_reconciliation_ok_def)
qed (simp_all add: clear_values_def)

lemma clear_reconciliation_failure_ok:
  assumes "dispatch_table_ok (dispatches db)"
  shows "clear_reconciliation_failure ck i db =
    (Inr (), db\<lparr>dispatches := update_where (clear_where i) (clear_values ck) (dispatches db)\<rparr>)"
proof -
  note upd = dispatch_update_Inr [OF clear_table_ok [OF assms], of i ck, unfolded clear_where_def [abs_def] clear_values_def [abs_def]]
  show ?thesis
  proof (cases "rowcount (clear_where i) (dispatches db) = 0")
    case True
    then have "update_where (clear_where i) (clear_values ck) (dispatches db) = dispatches db"
      by (intro update_where_none) (simp add: rowcount_0_iff)
    with upd True show ?thesis
      by (simp add: clear_reconciliation_failure_def clear_where_def [abs_def] clear_values_def [abs_def])
  next
    case False
    with upd show ?thesis
      by (simp add: clear_reconciliation_failure_def clear_where_def [abs_def] clear_values_def [abs_def])
  qed
qed

section \<open>Frames\<close>

text \<open>
  A save touches the response and delivery tables only: every property of the rest of the
  database that the interference keeps, the save keeps.
\<close>

locale response_frame =
  fixes P :: "gateway_db \<Rightarrow> bool" and race race2 :: "gateway_db \<Rightarrow> gateway_db"
  assumes race: "P u \<Longrightarrow> P (race u)" and race2: "P u \<Longrightarrow> P (race2 u)"
    and insensitive: "P u \<Longrightarrow> P (u\<lparr>responses := rs, deliveries := ds, delivery_seq := n\<rparr>)"
begin

lemma insert_response_keeps: "P u \<Longrightarrow> insert_response r u = Some v \<Longrightarrow> P v"
  using insensitive [where u = u and rs = "responses u @ [r]" and ds = "deliveries u" and n = "delivery_seq u"]
  by (auto simp: insert_response_def split: if_splits)

lemma insert_delivery_keeps: "P u \<Longrightarrow> insert_delivery d u = Some v \<Longrightarrow> P v"
  using insensitive [where u = u and rs = "responses u" and ds = "deliveries u @ [d]" and n = "delivery_seq u + 1"]
  by (auto simp: insert_delivery_def split: if_splits)

lemma create_missing_keeps:
  "P db \<Longrightarrow> create_missing_delivery race2 ck r out e sha tg tk dk db = (res, db') \<Longrightarrow> P db'"
  by (auto simp: create_missing_delivery_def Let_def checked_def race2 intro: insert_delivery_keeps [OF race2]
      split: option.splits sum.splits)

lemma resume_keeps:
  "P db \<Longrightarrow> resume_existing race2 ck r out e sha tg tk dk db = (res, db') \<Longrightarrow> P db'"
  by (auto simp: resume_existing_def checked_def split: option.splits sum.splits intro: create_missing_keeps)

lemma save_keeps: "P db \<Longrightarrow> save_generated race race2 ck out tg db = (res, db') \<Longrightarrow> P db'"
  by (auto simp: save_generated_def Let_def checked_def race bind_eq_None_conv bind_eq_Some_conv
      split: option.splits sum.splits
      intro: resume_keeps resume_keeps [OF race] insert_delivery_keeps [OF insert_response_keeps [OF race]])

lemma persist_keeps: "P db \<Longrightarrow> persist_response race race2 ck out db = (res, db') \<Longrightarrow> P db'"
  by (auto simp: persist_response_def checked_def split: option.splits sum.splits if_splits prod.splits intro: save_keeps)

end

end
