(* ===== verification/Dispatch_Machine.thy ===== *)
theory Dispatch_Machine
  imports Dispatch_Worker
begin

text \<open>
  The dispatch queue as a state machine. \<open>lifecycle\<close> and \<open>queue_step\<close> are the abstract
  specification: which transitions one record may make, and how the table may evolve.
  \<open>gateway_step\<close> is the concrete machine: one constructor per committed transaction of
  the store, of the result store, of operator recovery and of the worker's reconciliation.

  The refinement lemma shows that every concrete step is a step of the specification; the
  invariants are proved once, on the specification, and reach the code through it. Every
  turn of a worker, with interference that itself consists of steps, is a run of the machine.
\<close>

section \<open>The specification\<close>

text \<open>The columns that identify a record for good, and those that drive its life.\<close>

definition ident :: "HermesDispatchRecord \<Rightarrow> int \<times> string \<times> int \<times> string \<times> string \<times> string \<times> instant" where
  "ident r = (d_id r, d_idempotency_key r, d_message_id r, d_enterprise_identity_id r, d_workspace_id r,
     d_ai_thread_id r, d_created_at r)"

definition control :: "HermesDispatchRecord \<Rightarrow> HermesDispatchStatus \<times> int \<times> string option \<times> bool" where
  "control r = (d_status r, d_attempt_count r, d_claim_token r, d_manual_retry_approved r)"

inductive lifecycle ::
  "int \<Rightarrow> HermesDispatchRecord list \<Rightarrow> HermesDispatchRecord \<Rightarrow> HermesDispatchRecord \<Rightarrow> bool"
  for retries rows
where
  stay: "ident r' = ident r \<Longrightarrow> control r' = control r \<Longrightarrow> lifecycle retries rows r r'"
| claim: "ident r' = ident r \<Longrightarrow> eligible retries rows r \<Longrightarrow>
    control r' = (D_RUNNING, d_attempt_count r + 1, Some token, False) \<Longrightarrow> lifecycle retries rows r r'"
| finish: "ident r' = ident r \<Longrightarrow> d_status r = D_RUNNING \<Longrightarrow> s \<in> {D_SUCCESS, D_FAILED, D_UNCERTAIN, D_DEAD} \<Longrightarrow>
    control r' = (s, d_attempt_count r, None, d_manual_retry_approved r) \<Longrightarrow> lifecycle retries rows r r'"
| exhaust: "ident r' = ident r \<Longrightarrow> d_status r = D_FAILED \<Longrightarrow> \<not> d_manual_retry_approved r \<Longrightarrow>
    control r' = (D_DEAD, d_attempt_count r, d_claim_token r, False) \<Longrightarrow> lifecycle retries rows r r'"
| resolve: "ident r' = ident r \<Longrightarrow> d_status r = D_UNCERTAIN \<Longrightarrow>
    control r' = (action_after a, d_attempt_count r, d_claim_token r, a = RETRY_APPROVED) \<Longrightarrow>
    lifecycle retries rows r r'"

inductive_cases lifecycle_elim: "lifecycle retries rows r r'"

text \<open>
  The table evolves row by row, or by one new queued record at the end; \<open>mono\<close> asks that
  a new record is not dated before the stored ones.
\<close>

inductive queue_step ::
  "bool \<Rightarrow> int \<Rightarrow> HermesDispatchRecord list \<Rightarrow> HermesDispatchRecord list \<Rightarrow> bool"
  for mono retries
where
  evolve: "rows' = map g rows \<Longrightarrow> (\<And>r. r \<in> set rows \<Longrightarrow> lifecycle retries rows r (g r)) \<Longrightarrow>
    queue_step mono retries rows rows'"
| arrive: "rows' = rows @ [row] \<Longrightarrow> control row = (D_QUEUED, 0, None, False) \<Longrightarrow>
    (\<And>r. r \<in> set rows \<Longrightarrow> d_id r < d_id row) \<Longrightarrow>
    (\<And>r. mono \<Longrightarrow> r \<in> set rows \<Longrightarrow> d_created_at r \<le> d_created_at row) \<Longrightarrow>
    queue_step mono retries rows rows'"

lemma queue_step_refl: "queue_step m n rows rows"
  by (rule evolve [of _ id]) (auto intro: stay)

lemma queue_step_update:
  "(\<And>r. r \<in> set rows \<Longrightarrow> p r \<Longrightarrow> lifecycle n rows r (f r)) \<Longrightarrow> queue_step m n rows (update_where p f rows)"
  by (rule evolve [of _ "\<lambda>r. if p r then f r else r"]) (auto simp: update_where_def intro: stay)

subsection \<open>What the specification guarantees of one record\<close>

lemma lifecycle_ident: "lifecycle n rows r r' \<Longrightarrow> ident r' = ident r"
  by (auto elim: lifecycle_elim)

lemma ident_sel:
  "ident r' = ident r \<Longrightarrow> d_id r' = d_id r \<and> d_ai_thread_id r' = d_ai_thread_id r \<and> d_created_at r' = d_created_at r
     \<and> d_message_id r' = d_message_id r \<and> d_idempotency_key r' = d_idempotency_key r"
  by (simp add: ident_def)

lemma lifecycle_attempts: "lifecycle n rows r r' \<Longrightarrow> d_attempt_count r \<le> d_attempt_count r'"
  by (auto elim!: lifecycle_elim simp: control_def)

lemma lifecycle_terminal:
  "lifecycle n rows r r' \<Longrightarrow> d_status r \<in> {D_SUCCESS, D_DEAD} \<Longrightarrow> control r' = control r"
  by (auto elim!: lifecycle_elim simp: eligible_def claimable_predicate_def Let_def)

lemma lifecycle_uncertain:
  "lifecycle n rows r r' \<Longrightarrow> d_status r = D_UNCERTAIN \<Longrightarrow>
     control r' = control r \<or> (\<exists>a. control r' = (action_after a, d_attempt_count r, d_claim_token r, a = RETRY_APPROVED))"
  by (auto elim!: lifecycle_elim simp: eligible_def claimable_predicate_def Let_def)

text \<open>A record that starts to run, or runs again, is eligible; its attempt is counted.\<close>

lemma lifecycle_starts:
  "lifecycle n rows r r' \<Longrightarrow> d_attempt_count r' \<noteq> d_attempt_count r \<Longrightarrow>
     eligible n rows r \<and> d_status r' = D_RUNNING \<and> d_attempt_count r' = d_attempt_count r + 1"
  by (auto elim!: lifecycle_elim simp: control_def)

lemma lifecycle_running:
  "lifecycle n rows r r' \<Longrightarrow> d_status r' = D_RUNNING \<Longrightarrow> d_status r \<noteq> D_RUNNING \<Longrightarrow> eligible n rows r"
  by (auto elim!: lifecycle_elim simp: control_def dest: action_after_not_running [symmetric, THEN notE])

text \<open>The token of a claim disappears only with the claim.\<close>

lemma lifecycle_token:
  "lifecycle n rows r r' \<Longrightarrow> d_status r = D_RUNNING \<Longrightarrow> d_status r' = D_RUNNING \<Longrightarrow>
     d_claim_token r' = d_claim_token r \<and> d_attempt_count r' = d_attempt_count r"
  by (auto elim!: lifecycle_elim simp: control_def eligible_def claimable_predicate_def Let_def)

subsection \<open>Records are never lost\<close>

lemma queue_step_keeps:
  assumes "queue_step m n rows rows'" and "r \<in> set rows"
  obtains r' where "r' \<in> set rows'" "lifecycle n rows r r'"
  using assms by (cases rule: queue_step.cases) (auto intro: stay that)

lemma queue_steps_ident:
  "(queue_step m n)\<^sup>*\<^sup>* rows rows' \<Longrightarrow> r \<in> set rows \<Longrightarrow> \<exists>r'\<in>set rows'. ident r' = ident r"
proof (induction rule: rtranclp_induct)
  case base
  then show ?case by blast
next
  case (step y z)
  then obtain q where q: "q \<in> set y" "ident q = ident r" by blast
  from queue_step_keeps [OF step(2) q(1)] lifecycle_ident q(2) show ?case by metis
qed

lemma queue_steps_terminal:
  "(queue_step m n)\<^sup>*\<^sup>* rows rows' \<Longrightarrow> r \<in> set rows \<Longrightarrow> d_status r \<in> {D_SUCCESS, D_DEAD} \<Longrightarrow>
     \<exists>r'\<in>set rows'. ident r' = ident r \<and> control r' = control r"
proof (induction rule: rtranclp_induct)
  case base
  then show ?case by blast
next
  case (step y z)
  then obtain q where q: "q \<in> set y" "ident q = ident r" "control q = control r" by blast
  obtain q' where q': "q' \<in> set z" "lifecycle n y q q'" using queue_step_keeps [OF step(2) q(1)] by blast
  from q(3) step(5) have "d_status q \<in> {D_SUCCESS, D_DEAD}" by (simp add: control_def)
  with lifecycle_terminal [OF q'(2)] lifecycle_ident [OF q'(2)] q q'(1) show ?case by metis
qed

section \<open>First in, first out\<close>

text \<open>
  Whenever a record of a thread has been attempted, every earlier record of that thread is
  finished: successful or dead.
\<close>

definition fifo_ok :: "HermesDispatchRecord list \<Rightarrow> bool" where
  "fifo_ok rows \<longleftrightarrow>
     (\<forall>r\<in>set rows. \<forall>q\<in>set rows. d_ai_thread_id q = d_ai_thread_id r \<longrightarrow> is_prior q r
        \<longrightarrow> 0 < d_attempt_count r \<longrightarrow> d_status q \<in> {D_SUCCESS, D_DEAD})"

lemma head_priors_finished:
  "thread_head_predicate rows r \<Longrightarrow> q \<in> set rows \<Longrightarrow> d_ai_thread_id q = d_ai_thread_id r \<Longrightarrow> is_prior q r
     \<Longrightarrow> d_status q \<in> {D_SUCCESS, D_DEAD}"
  by (cases "d_status q") (auto simp: thread_head_predicate_def BLOCKING_STATUSES_def list_ex_iff)

lemma is_prior_ident: "ident q' = ident q \<Longrightarrow> ident r' = ident r \<Longrightarrow> is_prior q' r' = is_prior q r"
  by (simp add: is_prior_def ident_def)

lemma queue_step_fifo:
  assumes "queue_step True n rows rows'" and fifo: "fifo_ok rows"
    and nonneg: "\<And>r. r \<in> set rows \<Longrightarrow> 0 \<le> d_attempt_count r"
  shows "fifo_ok rows'"
  using assms(1)
proof (cases rule: queue_step.cases)
  case (evolve g)
  show ?thesis
    unfolding fifo_ok_def
  proof (intro ballI impI)
    fix r' q' assume "r' \<in> set rows'" "q' \<in> set rows'" and th: "d_ai_thread_id q' = d_ai_thread_id r'"
      and pr: "is_prior q' r'" and at: "0 < d_attempt_count r'"
    then obtain r q where rq: "r \<in> set rows" "q \<in> set rows" "r' = g r" "q' = g q" using evolve(1) by auto
    note lr = evolve(2) [OF rq(1)] and lq = evolve(2) [OF rq(2)]
    have th': "d_ai_thread_id q = d_ai_thread_id r" and pr': "is_prior q r"
      using th pr ident_sel [OF lifecycle_ident [OF lr]] ident_sel [OF lifecycle_ident [OF lq]]
        is_prior_ident [OF lifecycle_ident [OF lq] lifecycle_ident [OF lr]] rq by auto
    have "d_status q \<in> {D_SUCCESS, D_DEAD}"
    proof (cases "d_attempt_count r' = d_attempt_count r")
      case True
      with at fifo rq th' pr' show ?thesis by (auto simp: fifo_ok_def)
    next
      case False
      with lifecycle_starts [OF lr] rq have "thread_head_predicate rows r" by (auto simp: eligible_def)
      from head_priors_finished [OF this rq(2) th' pr'] show ?thesis .
    qed
    then show "d_status q' \<in> {D_SUCCESS, D_DEAD}"
      using lifecycle_terminal [OF lq] rq(4) by (auto simp: control_def)
  qed
next
  case (arrive row)
  have "\<not> is_prior row r" if "r \<in> set rows" for r
    using arrive(3) [OF that] arrive(4) [OF _ that] by (auto simp: is_prior_def)
  moreover have "\<not> is_prior row row" by (simp add: is_prior_def)
  moreover have "d_attempt_count row = 0" using arrive(2) by (simp add: control_def)
  ultimately show ?thesis
    using fifo unfolding fifo_ok_def arrive(1) by fastforce
qed

section \<open>The concrete machine\<close>

text \<open>
  One step is one committed transaction; interference between the statements of an
  operation is the interleaving of steps. \<open>elsewhere\<close> is any transaction on the tables the
  queue does not own. \<open>mono\<close> states that the database clock an insert reads is not behind
  the creation times already stored.
\<close>

inductive gateway_step :: "bool \<Rightarrow> int \<Rightarrow> gateway_db \<Rightarrow> gateway_db \<Rightarrow> bool"
  for mono retries
where
  enqueue: "dispatch_enqueue id id ck adm db = (res, db') \<Longrightarrow>
    (mono \<Longrightarrow> \<forall>r\<in>set (dispatches db). d_created_at r \<le> db_now ck) \<Longrightarrow> gateway_step mono retries db db'"
| claim: "dispatch_claim ck i token lease (PyInt retries) now db = (res, db') \<Longrightarrow> gateway_step mono retries db db'"
| finalize: "dispatch_finalize_exhausted ck t retries db = (res, db') \<Longrightarrow> gateway_step mono retries db db'"
| renew: "dispatch_renew_lease ck i token lease now db = (res, db') \<Longrightarrow> gateway_step mono retries db db'"
| mark_success: "dispatch_mark_success ck i token db = (res, db') \<Longrightarrow> gateway_step mono retries db db'"
| mark_failed: "dispatch_mark_failed ck i token code limit db = (res, db') \<Longrightarrow> gateway_step mono retries db db'"
| mark_uncertain: "dispatch_mark_uncertain ck i token code db = (res, db') \<Longrightarrow> gateway_step mono retries db db'"
| mark_dead: "dispatch_mark_dead ck i token code db = (res, db') \<Longrightarrow> gateway_step mono retries db db'"
| complete: "complete_success ck i token out db = (res, db') \<Longrightarrow> gateway_step mono retries db db'"
| retry: "retry_approved id ck i operator reference reason db = (res, db') \<Longrightarrow> gateway_step mono retries db db'"
| bury: "recovery_mark_dead id ck i operator reference reason db = (res, db') \<Longrightarrow> gateway_step mono retries db db'"
| confirm: "confirm_success id ck i operator reference reason db = (res, db') \<Longrightarrow> gateway_step mono retries db db'"
| defer_candidate: "defer_reconciliation_candidate id ck t i db = (res, db') \<Longrightarrow> gateway_step mono retries db db'"
| clear_candidate: "clear_reconciliation_failure ck i db = (res, db') \<Longrightarrow> gateway_step mono retries db db'"
| elsewhere: "dispatches db' = dispatches db \<Longrightarrow> dispatch_seq db' = dispatch_seq db \<Longrightarrow>
    recovery_audits db' = recovery_audits db \<Longrightarrow> dispatch_responses db' = dispatch_responses db \<Longrightarrow>
    gateway_step mono retries db db'"

text \<open>The three kinds of effect a step has on the tables of the queue.\<close>

inductive step_effect :: "bool \<Rightarrow> int \<Rightarrow> gateway_db \<Rightarrow> gateway_db \<Rightarrow> bool"
  for mono retries db db'
where
  evolved: "dispatches db' = update_where p f (dispatches db) \<Longrightarrow>
    (\<And>r. r \<in> set (dispatches db) \<Longrightarrow> p r \<Longrightarrow> lifecycle retries (dispatches db) r (f r)
       \<and> (d_status r = D_UNCERTAIN \<longrightarrow> control (f r) = control r)) \<Longrightarrow>
    recovery_audits db' = recovery_audits db \<Longrightarrow>
    dispatch_responses db' = dispatch_responses db \<or>
      (\<exists>h r. dispatch_responses db' = dispatch_responses db @ [h] \<and> r \<in> set (dispatches db) \<and> p r
         \<and> d_id r = h_dispatch_record_id h \<and> d_status (f r) = D_SUCCESS \<and> d_status r = D_RUNNING) \<Longrightarrow>
    dispatch_seq db' = dispatch_seq db \<Longrightarrow> step_effect mono retries db db'"
| resolved: "dispatches db' = update_where (recovery_where i) (recovery_values ck a (action_after a)) (dispatches db) \<Longrightarrow>
    recovery_audits db' = recovery_audits db @ [x] \<Longrightarrow> u_dispatch_record_id x = i \<Longrightarrow> u_action x = a \<Longrightarrow>
    q \<in> set (dispatches db) \<Longrightarrow> recovery_where i q \<Longrightarrow>
    (a = CONFIRM_SUCCESS \<Longrightarrow> get_by_dispatch_record_id i db \<noteq> None) \<Longrightarrow>
    dispatch_responses db' = dispatch_responses db \<Longrightarrow> dispatch_seq db' = dispatch_seq db \<Longrightarrow>
    step_effect mono retries db db'"
| arrived: "dispatches db' = dispatches db @ [row] \<Longrightarrow> control row = (D_QUEUED, 0, None, False) \<Longrightarrow>
    build_hermes_dispatch_idempotency_key (d_message_id row) = Inr (d_idempotency_key row) \<Longrightarrow>
    (\<And>r. r \<in> set (dispatches db) \<Longrightarrow> d_id r < d_id row) \<Longrightarrow>
    (\<And>r. mono \<Longrightarrow> r \<in> set (dispatches db) \<Longrightarrow> d_created_at r \<le> d_created_at row) \<Longrightarrow>
    recovery_audits db' = recovery_audits db \<Longrightarrow> dispatch_responses db' = dispatch_responses db \<Longrightarrow>
    d_id row = dispatch_seq db \<Longrightarrow> dispatch_seq db' = dispatch_seq db + 1 \<Longrightarrow> step_effect mono retries db db'"

lemma effect_unchanged:
  "dispatches db' = dispatches db \<Longrightarrow> recovery_audits db' = recovery_audits db \<Longrightarrow>
   dispatch_responses db' = dispatch_responses db \<Longrightarrow> dispatch_seq db' = dispatch_seq db \<Longrightarrow> step_effect m n db db'"
  by (rule evolved [where p = "\<lambda>_. False" and f = id]) (auto simp: update_where_def)

lemma effect_update:
  "db' = db\<lparr>dispatches := update_where p f (dispatches db)\<rparr> \<Longrightarrow>
   (\<And>r. r \<in> set (dispatches db) \<Longrightarrow> p r \<Longrightarrow> lifecycle n (dispatches db) r (f r)
       \<and> (d_status r = D_UNCERTAIN \<longrightarrow> control (f r) = control r)) \<Longrightarrow> step_effect m n db db'"
  by (rule evolved [where p = p and f = f]) auto

lemma ident_values [simp]:
  "ident (claim_values ck t l n r) = ident r" "ident (completion_values ck s e r) = ident r"
  "ident (exhausted_values ck r) = ident r" "ident (expired_values ck r) = ident r"
  "ident (renew_values ck l n r) = ident r" "ident (recovery_values ck a st r) = ident r"
  "ident (defer_values ck n c r) = ident r" "ident (clear_values ck r) = ident r"
  by (simp_all add: ident_def claim_values_def completion_values_def exhausted_values_def expired_values_def
      renew_values_def recovery_values_def defer_values_def clear_values_def Let_def)

lemma control_values [simp]:
  "control (claim_values ck t l n r) = (D_RUNNING, d_attempt_count r + 1, Some t, False)"
  "control (completion_values ck s e r) = (s r, d_attempt_count r, None, d_manual_retry_approved r)"
  "control (exhausted_values ck r) = (D_DEAD, d_attempt_count r, d_claim_token r, d_manual_retry_approved r)"
  "control (expired_values ck r) = (D_UNCERTAIN, d_attempt_count r, None, d_manual_retry_approved r)"
  "control (renew_values ck l n r) = control r"
  "control (recovery_values ck a st r) = (st, d_attempt_count r, d_claim_token r, a = RETRY_APPROVED)"
  "control (defer_values ck n c r) = control r" "control (clear_values ck r) = control r"
  by (simp_all add: control_def claim_values_def completion_values_def exhausted_values_def expired_values_def
      renew_values_def recovery_values_def defer_values_def clear_values_def Let_def)

subsection \<open>Each operation\<close>

lemma mark_operations:
  "dispatch_mark_success ck i t db = (res, db') \<Longrightarrow>
     \<exists>s e. (\<forall>r. completion_ok (s r) e) \<and> dispatch_complete ck i t s e db = (res, db')"
  "dispatch_mark_failed ck i t code limit db = (res, db') \<Longrightarrow>
     db' = db \<or> (\<exists>s e. (\<forall>r. completion_ok (s r) e) \<and> dispatch_complete ck i t s e db = (res, db'))"
  "dispatch_mark_uncertain ck i t code db = (res, db') \<Longrightarrow>
     db' = db \<or> (\<exists>s e. (\<forall>r. completion_ok (s r) e) \<and> dispatch_complete ck i t s e db = (res, db'))"
  "dispatch_mark_dead ck i t code db = (res, db') \<Longrightarrow>
     db' = db \<or> (\<exists>s e. (\<forall>r. completion_ok (s r) e) \<and> dispatch_complete ck i t s e db = (res, db'))"
proof -
  show "dispatch_mark_success ck i t db = (res, db') \<Longrightarrow>
     \<exists>s e. (\<forall>r. completion_ok (s r) e) \<and> dispatch_complete ck i t s e db = (res, db')"
    unfolding dispatch_mark_success_def
    by (intro exI [of _ "\<lambda>_. D_SUCCESS"] exI [of _ None]) (simp add: completion_ok_def)
  show "dispatch_mark_uncertain ck i t code db = (res, db') \<Longrightarrow>
     db' = db \<or> (\<exists>s e. (\<forall>r. completion_ok (s r) e) \<and> dispatch_complete ck i t s e db = (res, db'))"
    unfolding dispatch_mark_uncertain_def checked_def
    by (cases "validated_required_string ''error_code'' MAX_ERROR_CODE_LENGTH code")
      (auto simp: validated_required_string_Inr completion_ok_def
        intro!: exI [of _ "\<lambda>_. D_UNCERTAIN"] exI [of _ "Some code"])
  show "dispatch_mark_dead ck i t code db = (res, db') \<Longrightarrow>
     db' = db \<or> (\<exists>s e. (\<forall>r. completion_ok (s r) e) \<and> dispatch_complete ck i t s e db = (res, db'))"
    unfolding dispatch_mark_dead_def checked_def
    by (cases "validated_required_string ''error_code'' MAX_ERROR_CODE_LENGTH code")
      (auto simp: validated_required_string_Inr completion_ok_def
        intro!: exI [of _ "\<lambda>_. D_DEAD"] exI [of _ "Some code"])
  assume run: "dispatch_mark_failed ck i t code limit db = (res, db')"
  let ?st = "(case limit of None \<Rightarrow> Inr (\<lambda>_. D_FAILED)
      | Some limit \<Rightarrow> (case validated_retry_limit limit of Inl e \<Rightarrow> Inl e
          | Inr n \<Rightarrow> Inr (\<lambda>r. if d_attempt_count r \<ge> n + 1 then D_DEAD else D_FAILED)))
      :: gateway_error + (HermesDispatchRecord \<Rightarrow> HermesDispatchStatus)"
  have st: "s r \<in> {D_DEAD, D_FAILED}" if "?st = Inr s" for s r
    using that by (auto split: option.splits sum.splits if_splits)
  show "db' = db \<or> (\<exists>s e. (\<forall>r. completion_ok (s r) e) \<and> dispatch_complete ck i t s e db = (res, db'))"
  proof (cases ?st)
    case (Inl e)
    with run show ?thesis unfolding dispatch_mark_failed_def by simp
  next
    case (Inr s)
    show ?thesis
    proof (cases "validated_required_string ''error_code'' MAX_ERROR_CODE_LENGTH code")
      case Inl2: (Inl e)
      with Inr run show ?thesis unfolding dispatch_mark_failed_def by simp
    next
      case (Inr c)
      then have "c = code" "nonblank code" by (auto simp: validated_required_string_Inr)
      with st [OF \<open>?st = Inr s\<close>] have "\<forall>r. completion_ok (s r) (Some code)"
        by (auto simp: completion_ok_def)
      moreover have "dispatch_complete ck i t s (Some code) db = (res, db')"
        using run \<open>?st = Inr s\<close> Inr \<open>c = code\<close> unfolding dispatch_mark_failed_def by simp
      ultimately show ?thesis by blast
    qed
  qed
qed

lemma complete_effect:
  assumes inv: "dispatch_inv db" and "\<forall>r. completion_ok (s r) e"
    and run: "dispatch_complete ck i t s e db = (res, db')"
  shows "step_effect m n db db' \<and> dispatch_inv db' \<and> dispatch_seq db' = dispatch_seq db"
proof (rule dispatch_complete_cases [OF inv, of ck i t s e])
  show "completion_ok (s r) e" for r using assms(2) by blast
next
  fix r assume "dispatch_complete ck i t s e db = (Inr (completion_values ck s e r),
      db\<lparr>dispatches := update_where (owned_where ck i t) (completion_values ck s e) (dispatches db)\<rparr>)"
    and i: "dispatch_inv (db\<lparr>dispatches := update_where (owned_where ck i t) (completion_values ck s e) (dispatches db)\<rparr>)"
  with run have db': "db' = db\<lparr>dispatches := update_where (owned_where ck i t) (completion_values ck s e) (dispatches db)\<rparr>"
    by simp
  moreover have "step_effect m n db db'"
  proof (rule effect_update [OF db'])
    fix q assume "owned_where ck i t q"
    moreover have "s q \<in> {D_SUCCESS, D_FAILED, D_UNCERTAIN, D_DEAD}"
      using assms(2) [rule_format, of q] by (auto simp: completion_ok_def)
    ultimately show "lifecycle n (dispatches db) q (completion_values ck s e q)
        \<and> (d_status q = D_UNCERTAIN \<longrightarrow> control (completion_values ck s e q) = control q)"
      by (auto simp: owned_where_def intro: lifecycle.finish)
  qed
  ultimately show ?thesis using i by simp
next
  fix err assume "dispatch_complete ck i t s e db = (Inl err, db)"
  with run inv show ?thesis by (auto intro: effect_unchanged)
qed

lemma claim_effect:
  assumes inv: "dispatch_inv db" and run: "dispatch_claim ck i t lease (PyInt n) now db = (res, db')"
  shows "step_effect m n db db' \<and> dispatch_inv db' \<and> dispatch_seq db' = dispatch_seq db"
proof -
  consider "db' = db" | l c where "nonblank t" "dispatch_claim_validated ck t l n c i db = (res, db')"
    using run by (auto simp: dispatch_claim_def checked_def validated_required_string_Inr validated_retry_limit_Inr
        split: sum.splits)
  then show ?thesis
  proof cases
    case 1
    with inv show ?thesis by (auto intro: effect_unchanged)
  next
    case (2 l c)
    note inv' = dispatch_claim_validated_inv [OF inv 2]
    show ?thesis
    proof (cases res)
      case (Inl e)
      have "db' = db"
        using dispatch_queue.try_refused [of db t ck l n c i db'] inv 2 Inl by (simp add: claim_attempt_def)
      with inv show ?thesis by (auto intro: effect_unchanged)
    next
      case (Inr a)
      from dispatch_claim_validated_Inr [OF inv 2(1) 2(2) [unfolded Inr]]
      have db': "db' = db\<lparr>dispatches := update_where (claim_where n i (dispatches db)) (claim_values ck t l c) (dispatches db)\<rparr>"
        by blast
      then have "step_effect m n db db'"
        by (rule effect_update)
          (auto simp: claim_where_def eligible_def claimable_predicate_def Let_def intro!: lifecycle.claim)
      with inv' db' show ?thesis by simp
    qed
  qed
qed

lemma finalize_effect:
  assumes inv: "dispatch_inv db" and run: "dispatch_finalize_exhausted ck t n db = (res, db')"
  shows "step_effect m n db db' \<and> dispatch_inv db' \<and> dispatch_seq db' = dispatch_seq db"
proof -
  let ?p = "\<lambda>r. exhausted_where n r \<or> expired_where t r"
  let ?f = "\<lambda>r. if exhausted_where n r then exhausted_values ck r else expired_values ck r"
  have db': "db' = db\<lparr>dispatches := finalized_rows ck t n (dispatches db)\<rparr>"
    using run dispatch_finalize_exhausted_ok [OF dispatch_invD(1) [OF inv]] by auto
  moreover have "finalized_rows ck t n (dispatches db) = update_where ?p ?f (dispatches db)"
    by (auto simp: finalized_rows_def update_where_def expired_where_def exhausted_where_def)
  ultimately have "step_effect m n db db'"
    by (intro effect_update [where p = ?p and f = ?f])
      (auto simp: exhausted_where_def expired_where_def intro: lifecycle.exhaust lifecycle.finish)
  with db' finalized_inv [OF inv] show ?thesis by simp
qed

lemma renew_effect:
  assumes inv: "dispatch_inv db" and run: "dispatch_renew_lease ck i t lease now db = (res, db')"
  shows "step_effect m n db db' \<and> dispatch_inv db' \<and> dispatch_seq db' = dispatch_seq db"
  using run
proof (cases rule: dispatch_renew_cases [OF inv, consumes 1, case_names hit refused])
  case (hit r l c)
  from hit(7) have "step_effect m n db db'" by (rule effect_update) (simp add: lifecycle.stay)
  with hit(7) dispatch_renew_inv [OF inv run] show ?thesis by simp
next
  case (refused err)
  with inv show ?thesis by (simp add: effect_unchanged)
qed

lemma result_effect:
  assumes inv: "dispatch_inv db" and run: "complete_success ck i t out db = (res, db')"
  shows "step_effect m n db db' \<and> dispatch_inv db' \<and> dispatch_seq db' = dispatch_seq db"
  using run
proof (cases rule: complete_success_cases [OF inv, consumes 1, case_names refused stored])
  case (refused e)
  with inv show ?thesis by (simp add: effect_unchanged)
next
  case (stored r db2 row)
  from rotate_frame [OF stored(3)] have frame: "recovery_audits db' = recovery_audits db"
    "dispatch_seq db' = dispatch_seq db" "dispatch_responses db' = dispatch_responses db @ [row]"
    by (auto simp: stored(6))
  have "step_effect m n db db'"
  proof (rule evolved [OF stored(8)])
    fix q assume "result_where ck i t out q"
    then show "lifecycle n (dispatches db) q (completion_values ck (\<lambda>_. D_SUCCESS) None q)
        \<and> (d_status q = D_UNCERTAIN \<longrightarrow> control (completion_values ck (\<lambda>_. D_SUCCESS) None q) = control q)"
      by (auto simp: result_where_def owned_where_def intro: lifecycle.finish)
  next
    show "dispatch_responses db' = dispatch_responses db \<or>
      (\<exists>h q. dispatch_responses db' = dispatch_responses db @ [h] \<and> q \<in> set (dispatches db)
         \<and> result_where ck i t out q \<and> d_id q = h_dispatch_record_id h
         \<and> d_status (completion_values ck (\<lambda>_. D_SUCCESS) None q) = D_SUCCESS \<and> d_status q = D_RUNNING)"
      using stored frame(3) by (auto simp: new_dispatch_response_def result_where_def owned_where_def)
  qed (simp_all add: frame)
  with frame complete_success_inv [OF inv run] show ?thesis by simp
qed

lemma recovery_effect:
  assumes inv: "dispatch_inv db"
    and run: "recovery_resolve id ck i a (action_after a) op ref why ev db = (res, db')"
    and ev: "a = CONFIRM_SUCCESS \<Longrightarrow> ev"
  shows "step_effect m n db db' \<and> dispatch_inv db' \<and> dispatch_seq db' = dispatch_seq db"
proof -
  have ok: "dispatch_table_ok (dispatches (id db))" using dispatch_invD(1) [OF inv] by simp
  show ?thesis
    using run
  proof (cases rule: recovery_resolve_cases [where race = id and db = db, OF _ ok, consumes 1, case_names kept moved])
    case kept
    with inv show ?thesis by (auto simp: effect_unchanged)
  next
    case (moved r q ev_id x)
    have evidence: "get_by_dispatch_record_id i db \<noteq> None" if "a = CONFIRM_SUCCESS"
    proof
      assume "get_by_dispatch_record_id i db = None"
      moreover have "d_id r = i" using moved(1) by (auto simp: dispatch_reload_def dest: lookup_by_Some)
      ultimately show False using moved(6) ev [OF that] by (simp add: verified_success_evidence_def)
    qed
    have "step_effect m n db db'"
      by (rule resolved [where i = i and ck = ck and a = a and x = x and q = q]) (use moved evidence in \<open>auto simp: new_audit_def\<close>)
    moreover have "dispatch_inv db'"
      using dispatch_inv_update [OF inv recovery_table_ok [OF dispatch_invD(1) [OF inv], where i = i and ck = ck and a = a]]
        moved(8) by (simp add: dispatch_inv_def)
    ultimately show ?thesis using moved(8) by simp
  qed
qed

lemma defer_effect:
  assumes inv: "dispatch_inv db" and run: "defer_reconciliation_candidate id ck t i db = (res, db')"
  shows "step_effect m n db db' \<and> dispatch_inv db' \<and> dispatch_seq db' = dispatch_seq db"
proof -
  have ok: "dispatch_table_ok (dispatches (id db))" using dispatch_invD(1) [OF inv] by simp
  show ?thesis
    using run
  proof (cases rule: defer_cases [where race = id and db = db, OF ok, consumes 1, case_names kept moved])
    case kept
    with inv show ?thesis by (auto simp: effect_unchanged)
  next
    case (moved r q)
    from moved(4) have db': "db' = db\<lparr>dispatches := update_where (defer_where i (d_reconciliation_failure_count r) t)
        (defer_values ck t (d_reconciliation_failure_count r + 1)) (dispatches db)\<rparr>" by simp
    then have "step_effect m n db db'" by (rule effect_update) (simp add: lifecycle.stay)
    with db' dispatch_inv_update [OF inv defer_table_ok [OF dispatch_invD(1) [OF inv]]] show ?thesis by simp
  qed
qed

lemma clear_effect:
  assumes inv: "dispatch_inv db" and run: "clear_reconciliation_failure ck i db = (res, db')"
  shows "step_effect m n db db' \<and> dispatch_inv db' \<and> dispatch_seq db' = dispatch_seq db"
proof -
  have db': "db' = db\<lparr>dispatches := update_where (clear_where i) (clear_values ck) (dispatches db)\<rparr>"
    using run clear_reconciliation_failure_ok [OF dispatch_invD(1) [OF inv]] by simp
  then have "step_effect m n db db'" by (rule effect_update) (simp add: lifecycle.stay)
  moreover have "d_id (clear_values ck r) = d_id r" for r by (simp add: clear_values_def)
  ultimately show ?thesis
    using db' dispatch_inv_update [OF inv clear_table_ok [OF dispatch_invD(1) [OF inv]]] by simp
qed

lemma enqueue_effect:
  assumes inv: "dispatch_inv db" "dispatch_keys_ok db" and run: "dispatch_enqueue id id ck adm db = (res, db')"
    and clock: "m \<Longrightarrow> \<forall>r\<in>set (dispatches db). d_created_at r \<le> db_now ck"
  shows "step_effect m n db db' \<and> dispatch_inv db'"
proof (rule dispatch_enqueue_cases [OF inv _ _ run])
  fix tg k
  let ?row = "new_dispatch_record ck (dispatch_seq (id (id db))) k tg"
  assume ins: "build_hermes_dispatch_idempotency_key (dt_message_id tg) = Inr k"
    "dispatch_find_existing (dt_message_id tg) k (id (id db)) = None"
    "db' = (id (id db))\<lparr>dispatches := dispatches (id (id db)) @ [?row], dispatch_seq := dispatch_seq (id (id db)) + 1\<rparr>"
  have "dispatch_inv db'"
    using dispatch_insert_inv(1) [OF inv ins(1) ins(2) [unfolded id_apply] refl, of ck] ins(3) by simp
  moreover have "step_effect m n db db'"
    by (rule arrived [of _ _ ?row])
      (use ins(1,3) dispatch_invD(2) [OF inv(1)] clock in \<open>auto simp: control_def new_dispatch_record_def\<close>)
  ultimately show ?thesis by simp
qed (use inv in \<open>auto intro: effect_unchanged\<close>)

lemma gateway_step_effect:
  assumes step: "gateway_step m n db db'" and inv: "dispatch_inv db" "dispatch_keys_ok db"
  shows "step_effect m n db db' \<and> dispatch_inv db'"
  using step
proof (cases rule: gateway_step.cases)
  case (elsewhere)
  with inv(1) show ?thesis by (auto intro!: effect_unchanged simp: dispatch_inv_def)
next
  case (mark_success ck i t res)
  with mark_operations(1) complete_effect [OF inv(1)] show ?thesis by blast
next
  case (mark_failed ck i t code limit res)
  with mark_operations(2) complete_effect [OF inv(1)] inv(1) effect_unchanged [of db db] show ?thesis by metis
next
  case (mark_uncertain ck i t code res)
  with mark_operations(3) complete_effect [OF inv(1)] inv(1) effect_unchanged [of db db] show ?thesis by metis
next
  case (mark_dead ck i t code res)
  with mark_operations(4) complete_effect [OF inv(1)] inv(1) effect_unchanged [of db db] show ?thesis by metis
next
  case (retry ck i op ref why res)
  with recovery_effect [OF inv(1), of ck i RETRY_APPROVED op ref why False] show ?thesis by (auto simp: retry_approved_def)
next
  case (bury ck i op ref why res)
  with recovery_effect [OF inv(1), of ck i MARK_DEAD op ref why False] show ?thesis by (auto simp: recovery_mark_dead_def)
next
  case (confirm ck i op ref why res)
  with recovery_effect [OF inv(1), of ck i CONFIRM_SUCCESS op ref why True] show ?thesis by (auto simp: confirm_success_def)
next
  case (enqueue ck adm res)
  from enqueue_effect [OF inv enqueue] show ?thesis .
next
  case (claim ck i token lease now res)
  from claim_effect [OF inv(1) claim] show ?thesis by simp
next
  case (finalize ck t res)
  from finalize_effect [OF inv(1) finalize] show ?thesis by simp
next
  case (renew ck i token lease now res)
  from renew_effect [OF inv(1) renew] show ?thesis by simp
next
  case (complete ck i token out res)
  from result_effect [OF inv(1) complete] show ?thesis by simp
next
  case (defer_candidate ck t i res)
  from defer_effect [OF inv(1) defer_candidate] show ?thesis by simp
next
  case (clear_candidate ck i res)
  from clear_effect [OF inv(1) clear_candidate] show ?thesis by simp
qed

section \<open>The machine refines the specification\<close>

lemma effect_queue_step: "step_effect m n db db' \<Longrightarrow> queue_step m n (dispatches db) (dispatches db')"
proof (induction rule: step_effect.induct)
  case (evolved p f)
  then show ?case using queue_step_update [of "dispatches db" p n f] by auto
next
  case (resolved i ck a x q)
  show ?case
    unfolding resolved(1)
    by (rule queue_step_update) (auto simp: recovery_where_def intro: lifecycle.resolve)
next
  case (arrived row)
  then show ?case by (intro queue_step.arrive) auto
qed

lemma effect_keys_ok:
  assumes "step_effect m n db db'" and keys: "dispatch_keys_ok db"
  shows "dispatch_keys_ok db'"
proof -
  have upd: "dispatch_keys_ok db'" if "dispatches db' = update_where p f (dispatches db)"
    "\<And>r. r \<in> set (dispatches db) \<Longrightarrow> p r \<Longrightarrow> ident (f r) = ident r" for p f
    unfolding dispatch_keys_ok_def list_all_iff that(1) set_update_where
  proof
    fix x assume "x \<in> (\<lambda>r. if p r then f r else r) ` set (dispatches db)"
    then obtain r where r: "r \<in> set (dispatches db)" "x = (if p r then f r else r)" by blast
    with that(2) have "ident x = ident r" by simp
    with ident_sel [OF this] dispatch_keys_okD [OF keys r(1)]
    show "build_hermes_dispatch_idempotency_key (d_message_id x) = Inr (d_idempotency_key x)" by simp
  qed
  from assms(1) show ?thesis
  proof (cases rule: step_effect.cases)
    case (evolved p f)
    with upd [of p f] lifecycle_ident show ?thesis by blast
  next
    case (resolved i ck a x q)
    with upd show ?thesis by simp
  next
    case (arrived row)
    with keys show ?thesis by (auto simp: dispatch_keys_ok_def list_all_iff)
  qed
qed

section \<open>Invariants of every run\<close>

text \<open>A stored Hermes result belongs to a successful dispatch.\<close>

definition evidence_ok :: "gateway_db \<Rightarrow> bool" where
  "evidence_ok db =
     list_all (\<lambda>h. list_ex (\<lambda>r. d_id r = h_dispatch_record_id h \<and> d_status r = D_SUCCESS) (dispatches db))
       (dispatch_responses db)"

text \<open>Operator approvals are the only attempts beyond the retry limit.\<close>

definition approvals :: "gateway_db \<Rightarrow> int \<Rightarrow> int" where
  "approvals db i =
     int (length (filter (\<lambda>a. u_dispatch_record_id a = i \<and> u_action a = RETRY_APPROVED) (recovery_audits db)))"

definition attempt_weight :: "HermesDispatchRecord \<Rightarrow> int" where
  "attempt_weight r = d_attempt_count r + (if d_manual_retry_approved r then 1 else 0)"

definition attempts_ok :: "int \<Rightarrow> gateway_db \<Rightarrow> bool" where
  "attempts_ok retries db =
     list_all (\<lambda>r. attempt_weight r \<le> retries + 1 + approvals db (d_id r)) (dispatches db)"

definition no_confirmation :: "gateway_db \<Rightarrow> bool" where
  "no_confirmation db = list_all (\<lambda>a. u_action a \<noteq> CONFIRM_SUCCESS) (recovery_audits db)"

definition machine_inv :: "int \<Rightarrow> gateway_db \<Rightarrow> bool" where
  "machine_inv retries db \<longleftrightarrow> dispatch_inv db \<and> dispatch_keys_ok db \<and> evidence_ok db
     \<and> no_confirmation db \<and> attempts_ok retries db"

lemma machine_invD:
  "machine_inv n db \<Longrightarrow> dispatch_inv db" "machine_inv n db \<Longrightarrow> dispatch_keys_ok db"
  "machine_inv n db \<Longrightarrow> evidence_ok db" "machine_inv n db \<Longrightarrow> no_confirmation db"
  "machine_inv n db \<Longrightarrow> attempts_ok n db"
  by (simp_all add: machine_inv_def)

lemma evidence_okD:
  assumes "evidence_ok db" and "get_by_dispatch_record_id i db \<noteq> None"
  obtains r where "r \<in> set (dispatches db)" "d_id r = i" "d_status r = D_SUCCESS"
proof -
  from assms(2) obtain h where "get_by_dispatch_record_id i db = Some h" by blast
  then have "h \<in> set (dispatch_responses db)" "h_dispatch_record_id h = i"
    by (auto simp: get_by_dispatch_record_id_def dest: lookup_by_Some)
  with assms(1) that show ?thesis by (auto simp: evidence_ok_def list_all_iff list_ex_iff)
qed

lemma success_persists:
  "queue_step m n rows rows' \<Longrightarrow> r \<in> set rows \<Longrightarrow> d_status r = D_SUCCESS \<Longrightarrow>
     \<exists>r'\<in>set rows'. d_id r' = d_id r \<and> d_status r' = D_SUCCESS"
proof -
  assume q: "queue_step m n rows rows'" and r: "r \<in> set rows" "d_status r = D_SUCCESS"
  obtain r' where r': "r' \<in> set rows'" "lifecycle n rows r r'" using queue_step_keeps [OF q r(1)] .
  from lifecycle_terminal [OF r'(2)] r(2) have "d_status r' = D_SUCCESS" by (simp add: control_def)
  with r' ident_sel [OF lifecycle_ident [OF r'(2)]] show ?thesis by blast
qed

lemma effect_evidence:
  assumes eff: "step_effect m n db db'" and ev: "evidence_ok db"
  shows "evidence_ok db'"
proof -
  note q = effect_queue_step [OF eff]
  have old: "\<exists>r'\<in>set (dispatches db'). d_id r' = h_dispatch_record_id h \<and> d_status r' = D_SUCCESS"
    if "h \<in> set (dispatch_responses db)" for h
  proof -
    from ev that obtain r where "r \<in> set (dispatches db)" "d_id r = h_dispatch_record_id h" "d_status r = D_SUCCESS"
      by (auto simp: evidence_ok_def list_all_iff list_ex_iff)
    with success_persists [OF q, of r] show ?thesis by simp
  qed
  have all: "evidence_ok db'" if "dispatch_responses db' = dispatch_responses db"
    using old that by (auto simp: evidence_ok_def list_all_iff list_ex_iff)
  from eff show ?thesis
  proof (cases rule: step_effect.cases)
    case (evolved p f)
    from evolved(4) show ?thesis
    proof
      assume "\<exists>h r. dispatch_responses db' = dispatch_responses db @ [h] \<and> r \<in> set (dispatches db) \<and> p r
         \<and> d_id r = h_dispatch_record_id h \<and> d_status (f r) = D_SUCCESS \<and> d_status r = D_RUNNING"
      then obtain h r where h: "dispatch_responses db' = dispatch_responses db @ [h]" "r \<in> set (dispatches db)" "p r"
        "d_id r = h_dispatch_record_id h" "d_status (f r) = D_SUCCESS" by blast
      have "f r \<in> set (dispatches db')" using h by (auto simp: evolved(1) set_update_where)
      moreover have "d_id (f r) = h_dispatch_record_id h"
        using h evolved(2) [OF h(2,3)] ident_sel [OF lifecycle_ident] by metis
      ultimately show ?thesis using old h by (auto simp: evidence_ok_def list_all_iff list_ex_iff)
    qed (rule all)
  next
    case (resolved i ck a x q)
    then show ?thesis by (intro all)
  next
    case (arrived row)
    then show ?thesis by (intro all)
  qed
qed

lemma approvals_snoc:
  "recovery_audits db' = recovery_audits db @ [x] \<Longrightarrow>
   approvals db' i = approvals db i + (if u_dispatch_record_id x = i \<and> u_action x = RETRY_APPROVED then 1 else 0)"
  by (simp add: approvals_def)

lemma approvals_nonneg: "0 \<le> approvals db i"
  by (simp add: approvals_def)

lemma lifecycle_weight:
  assumes l: "lifecycle n rows r r'" and ok: "dispatch_row_ok r" and "0 \<le> n" "0 \<le> b"
    and w: "attempt_weight r \<le> n + 1 + b" and u: "d_status r = D_UNCERTAIN \<longrightarrow> control r' = control r"
  shows "attempt_weight r' \<le> n + 1 + b"
  using l
proof (cases rule: lifecycle.cases)
  case (claim t)
  then have "d_attempt_count r' = d_attempt_count r + 1" "\<not> d_manual_retry_approved r'" by (auto simp: control_def)
  moreover have "d_attempt_count r < n + 1 \<or> d_manual_retry_approved r"
    using claim(2) ok \<open>0 \<le> n\<close>
    by (auto simp: eligible_def claimable_predicate_def Let_def dispatch_row_ok_def)
  ultimately show ?thesis using w \<open>0 \<le> b\<close> by (auto simp: attempt_weight_def split: if_splits)
next
  case (resolve a)
  with u have "control r' = control r" by auto
  with w show ?thesis by (auto simp: control_def attempt_weight_def)
qed (use w in \<open>auto simp: control_def attempt_weight_def\<close>)

lemma resolve_weight:
  assumes "dispatch_row_ok r" "d_status r = D_UNCERTAIN"
  shows "attempt_weight (recovery_values ck a s r) = attempt_weight r + (if a = RETRY_APPROVED then 1 else 0)"
  using assms by (auto simp: attempt_weight_def recovery_values_def dispatch_row_ok_def)

lemma effect_attempts:
  assumes eff: "step_effect m n db db'" and att: "attempts_ok n db" and inv: "dispatch_inv db" and "0 \<le> n"
  shows "attempts_ok n db'"
proof -
  have old: "attempt_weight r \<le> n + 1 + approvals db (d_id r)" if "r \<in> set (dispatches db)" for r
    using att that by (auto simp: attempts_ok_def list_all_iff)
  note row = dispatch_table_okD(1) [OF dispatch_invD(1) [OF inv]]
  have upd: "attempts_ok n db'" if d: "dispatches db' = update_where p f (dispatches db)"
    "\<And>r. r \<in> set (dispatches db) \<Longrightarrow> p r \<Longrightarrow> attempt_weight (f r) \<le> n + 1 + approvals db' (d_id r) \<and> d_id (f r) = d_id r"
    "\<And>i. approvals db i \<le> approvals db' i" for p f
    unfolding attempts_ok_def list_all_iff d(1) set_update_where
  proof
    fix x assume "x \<in> (\<lambda>r. if p r then f r else r) ` set (dispatches db)"
    then obtain r where r: "r \<in> set (dispatches db)" "x = (if p r then f r else r)" by blast
    show "attempt_weight x \<le> n + 1 + approvals db' (d_id x)"
      using r d(2) [OF r(1)] old [OF r(1)] d(3) [of "d_id r"] by (cases "p r") auto
  qed
  from eff show ?thesis
  proof (cases rule: step_effect.cases)
    case (evolved p f)
    have same: "approvals db' i = approvals db i" for i by (simp add: approvals_def evolved(3))
    show ?thesis
    proof (rule upd [OF evolved(1)])
      fix r assume r: "r \<in> set (dispatches db)" "p r"
      note l = evolved(2) [OF r]
      have "attempt_weight (f r) \<le> n + 1 + approvals db (d_id r)"
        using lifecycle_weight [OF l [THEN conjunct1] row [OF r(1)] \<open>0 \<le> n\<close> approvals_nonneg old [OF r(1)] l [THEN conjunct2]] .
      with ident_sel [OF lifecycle_ident [OF l [THEN conjunct1]]]
      show "attempt_weight (f r) \<le> n + 1 + approvals db' (d_id r) \<and> d_id (f r) = d_id r" by (simp add: same)
    qed (simp add: same)
  next
    case (resolved i ck a x q)
    show ?thesis
    proof (rule upd [OF resolved(1)])
      fix r assume r: "r \<in> set (dispatches db)" "recovery_where i r"
      with old [OF r(1)] resolve_weight [OF row [OF r(1)], of ck a "action_after a"] resolved(3,4)
      show "attempt_weight (recovery_values ck a (action_after a) r) \<le> n + 1 + approvals db' (d_id r)
          \<and> d_id (recovery_values ck a (action_after a) r) = d_id r"
        unfolding approvals_snoc [OF resolved(2)] by (auto simp: recovery_where_def)
    qed (simp add: approvals_snoc [OF resolved(2)])
  next
    case (arrived row)
    then have "attempt_weight row = 0" by (auto simp: control_def attempt_weight_def)
    moreover have "approvals db' i = approvals db i" for i by (simp add: approvals_def arrived(6))
    ultimately show ?thesis
      using old arrived(1) approvals_nonneg [of db "d_id row"] \<open>0 \<le> n\<close> by (auto simp: attempts_ok_def list_all_iff)
  qed
qed

lemma effect_no_confirmation:
  assumes eff: "step_effect m n db db'" and "no_confirmation db" "evidence_ok db" "dispatch_inv db"
  shows "no_confirmation db'"
  using eff
proof (cases rule: step_effect.cases)
  case (resolved i ck a x q)
  have "a \<noteq> CONFIRM_SUCCESS"
  proof
    assume "a = CONFIRM_SUCCESS"
    from evidence_okD [OF assms(3) resolved(7) [OF this]] obtain r where
      r: "r \<in> set (dispatches db)" "d_id r = i" "d_status r = D_SUCCESS" by blast
    have "r = q"
      using distinct_key_eq [OF dispatch_table_okD(2) [OF dispatch_invD(1) [OF assms(4)]] r(1) resolved(5)] r(2) resolved(6)
      by (simp add: recovery_where_def)
    with r(3) resolved(6) show False by (simp add: recovery_where_def)
  qed
  with assms(2) resolved(2,4) show ?thesis by (auto simp: no_confirmation_def list_all_iff)
qed (use assms(2) in \<open>auto simp: no_confirmation_def\<close>)

lemma machine_inv_step:
  assumes "gateway_step m n db db'" and "machine_inv n db \<and> 0 \<le> n"
  shows "machine_inv n db' \<and> 0 \<le> n"
proof -
  from assms(2) have I: "dispatch_inv db" "dispatch_keys_ok db" "evidence_ok db" "no_confirmation db" "attempts_ok n db" "0 \<le> n"
    by (auto simp: machine_inv_def)
  from gateway_step_effect [OF assms(1) I(1,2)] have e: "step_effect m n db db'" "dispatch_inv db'" by auto
  with effect_keys_ok [OF e(1) I(2)] effect_evidence [OF e(1) I(3)] effect_no_confirmation [OF e(1) I(4,3,1)]
    effect_attempts [OF e(1) I(5,1,6)] I(6)
  show ?thesis by (simp add: machine_inv_def)
qed

interpretation machine: preserved_by "gateway_step m n" "\<lambda>db. machine_inv n db \<and> 0 \<le> n" for m n
  by unfold_locales (rule machine_inv_step)

text \<open>The queue order, for runs whose clock never goes back.\<close>

lemma machine_fifo_step:
  assumes "gateway_step True n db db'" and "(machine_inv n db \<and> 0 \<le> n) \<and> fifo_ok (dispatches db)"
  shows "(machine_inv n db' \<and> 0 \<le> n) \<and> fifo_ok (dispatches db')"
proof -
  from assms(2) have I: "dispatch_inv db" "dispatch_keys_ok db" by (auto simp: machine_inv_def)
  have "0 \<le> d_attempt_count r" if "r \<in> set (dispatches db)" for r
    using dispatch_table_okD(1) [OF dispatch_invD(1) [OF I(1)] that] by (simp add: dispatch_row_ok_def)
  with queue_step_fifo [OF effect_queue_step [OF gateway_step_effect [OF assms(1) I, THEN conjunct1]]] assms(2)
    machine_inv_step [OF assms(1)] show ?thesis by blast
qed

interpretation fifo: preserved_by "gateway_step True n"
  "\<lambda>db. (machine_inv n db \<and> 0 \<le> n) \<and> fifo_ok (dispatches db)" for n
  by unfold_locales (rule machine_fifo_step)

lemma machine_inv_empty: "machine_inv n empty_db"
  by (simp add: machine_inv_def dispatch_inv_def dispatch_table_ok_def running_threads_def dispatch_keys_ok_def
      evidence_ok_def no_confirmation_def attempts_ok_def empty_db_def)

lemma fifo_empty: "fifo_ok (dispatches empty_db)"
  by (simp add: fifo_ok_def empty_db_def)

lemma gateway_steps_queue:
  assumes "(gateway_step m n)\<^sup>*\<^sup>* db db'" and "machine_inv n db" "0 \<le> n"
  shows "(queue_step m n)\<^sup>*\<^sup>* (dispatches db) (dispatches db') \<and> machine_inv n db'"
  using assms(1)
proof (induction rule: rtranclp_induct)
  case base
  then show ?case using assms by simp
next
  case (step y z)
  then have y: "dispatch_inv y" "dispatch_keys_ok y" "machine_inv n y" by (auto simp: machine_inv_def)
  from effect_queue_step [OF gateway_step_effect [OF step(2) y(1,2), THEN conjunct1]] step(3)
  have "(queue_step m n)\<^sup>*\<^sup>* (dispatches db) (dispatches z)" by (meson rtranclp.rtrancl_into_rtrancl)
  with machine_inv_step [OF step(2)] y(3) assms(3) show ?case by simp
qed

section \<open>Leaving the uncertain state\<close>

lemma step_uncertain_audited:
  assumes step: "gateway_step m n db db'" and inv: "dispatch_inv db" "dispatch_keys_ok db"
    and r: "r \<in> set (dispatches db)" "d_status r = D_UNCERTAIN"
    and r': "r' \<in> set (dispatches db')" "d_id r' = d_id r" "d_status r' \<noteq> D_UNCERTAIN"
  shows "\<exists>x. recovery_audits db' = recovery_audits db @ [x] \<and> u_dispatch_record_id x = d_id r
    \<and> d_status r' = action_after (u_action x)"
proof -
  note ids = dispatch_table_okD(2) [OF dispatch_invD(1) [OF inv(1)]]
  from gateway_step_effect [OF step inv] have eff: "step_effect m n db db'" by simp
  have from_r: "r' = (if p r then f r else r)"
    if "dispatches db' = update_where p f (dispatches db)"
      "\<And>q. q \<in> set (dispatches db) \<Longrightarrow> p q \<Longrightarrow> d_id (f q) = d_id q" for p f
  proof -
    from r'(1) have "r' \<in> (\<lambda>q. if p q then f q else q) ` set (dispatches db)"
      by (simp only: that(1) set_update_where)
    then obtain q where q: "q \<in> set (dispatches db)" "r' = (if p q then f q else q)" by blast
    with that(2) r'(2) have "d_id q = d_id r" by (auto split: if_splits)
    with distinct_key_eq [OF ids q(1) r(1)] q(2) show ?thesis by simp
  qed
  from eff show ?thesis
  proof (cases rule: step_effect.cases)
    case (evolved p f)
    then have "d_id (f q) = d_id q" if "q \<in> set (dispatches db)" "p q" for q
      using that ident_sel [OF lifecycle_ident] by metis
    with from_r [OF evolved(1)] have "r' = (if p r then f r else r)" by blast
    with evolved(2) [OF r(1)] r(2) have "control r' = control r" by auto
    with r(2) r'(3) show ?thesis by (simp add: control_def)
  next
    case (resolved i ck a x q)
    have "r' = (if recovery_where i r then recovery_values ck a (action_after a) r else r)"
      by (rule from_r [OF resolved(1)]) simp
    with r(2) r'(3) resolved(2-4) show ?thesis by (auto simp: recovery_where_def split: if_splits)
  next
    case (arrived row)
    with r' r distinct_key_eq [OF ids, of r' r] show ?thesis by force
  qed
qed

text \<open>Without a stored result for an uncertain dispatch, its success cannot be confirmed.\<close>

lemma confirm_success_refused:
  assumes "machine_inv n db"
  shows "\<exists>e. confirm_success id ck i op ref why db = (Inl e, db)"
proof -
  have none: "audit_for i CONFIRM_SUCCESS ref db = None"
  proof (rule ccontr)
    assume "audit_for i CONFIRM_SUCCESS ref db \<noteq> None"
    then obtain a where "a \<in> set (recovery_audits db)" "audit_key a = (i, CONFIRM_SUCCESS, ref)"
      by (auto simp: audit_for_def dest: lookup_by_Some)
    with machine_invD(4) [OF assms] show False by (auto simp: no_confirmation_def list_all_iff audit_key_def)
  qed
  show ?thesis
  proof (cases "dispatch_reload i db")
    case None
    with none show ?thesis by (simp add: confirm_success_def recovery_resolve_def)
  next
    case (Some r)
    then have r: "r \<in> set (dispatches db)" "d_id r = i" by (auto simp: dispatch_reload_def dest: lookup_by_Some)
    show ?thesis
    proof (cases "d_status r = D_UNCERTAIN")
      case False
      with none Some show ?thesis by (simp add: confirm_success_def recovery_resolve_def)
    next
      case True
      have "get_by_dispatch_record_id i db = None"
      proof (rule ccontr)
        assume "get_by_dispatch_record_id i db \<noteq> None"
        from evidence_okD [OF machine_invD(3) [OF assms] this] obtain q where
          "q \<in> set (dispatches db)" "d_id q = i" "d_status q = D_SUCCESS" by blast
        with distinct_key_eq [OF dispatch_table_okD(2) [OF dispatch_invD(1) [OF machine_invD(1) [OF assms]]] r(1)] r(2) True
        show False by force
      qed
      with none Some True r(2) show ?thesis
        by (simp add: confirm_success_def recovery_resolve_def verified_success_evidence_def)
    qed
  qed
qed

section \<open>A worker's turn is a run\<close>

text \<open>Interference made of steps of the machine.\<close>

definition steps_only :: "bool \<Rightarrow> int \<Rightarrow> (gateway_db \<Rightarrow> gateway_db) \<Rightarrow> bool" where
  "steps_only m n race \<longleftrightarrow> (\<forall>u. machine_inv n u \<longrightarrow> (gateway_step m n)\<^sup>*\<^sup>* u (race u))"

lemma steps_only_id [simp]: "steps_only m n id"
  by (simp add: steps_only_def)

definition run_from :: "bool \<Rightarrow> int \<Rightarrow> gateway_db \<Rightarrow> gateway_db \<Rightarrow> bool" where
  "run_from m n db u \<longleftrightarrow> 0 \<le> n \<and> machine_inv n u \<and> (gateway_step m n)\<^sup>*\<^sup>* db u"

lemma run_from_step: "run_from m n db u \<Longrightarrow> gateway_step m n u v \<Longrightarrow> run_from m n db v"
  using machine_inv_step by (auto simp: run_from_def intro: rtranclp.rtrancl_into_rtrancl)

lemma run_from_race: "run_from m n db u \<Longrightarrow> steps_only m n race \<Longrightarrow> run_from m n db (race u)"
  using machine.inv_steps by (auto simp: run_from_def steps_only_def intro: rtranclp_trans)

lemma run_from_refl: "machine_inv n db \<Longrightarrow> 0 \<le> n \<Longrightarrow> run_from m n db db"
  by (simp add: run_from_def)

lemma run_fromD: "run_from m n db u \<Longrightarrow> dispatch_inv u" "run_from m n db u \<Longrightarrow> machine_inv n u"
  by (auto simp: run_from_def machine_inv_def)

lemma cas_loop_keeps:
  assumes "P s" and "\<And>r u. r \<in> set races \<Longrightarrow> P u \<Longrightarrow> P (r u)"
    and "\<And>k u x u'. P u \<Longrightarrow> attempt k u = (x, u') \<Longrightarrow> P u'"
    and "cas_loop races sel attempt s = (res, s')"
  shows "P s'"
  using assms(1,2,4)
proof (induction races arbitrary: s)
  case (Cons r races)
  from Cons.prems(1,2) have r: "P (r s)" by simp
  show ?case
    using Cons.prems Cons.IH assms(3) [OF r] by (auto split: option.splits prod.splits)
qed simp

text \<open>A claim inside the loop of \<open>claim_next\<close> is a step: its arguments are already valid.\<close>

lemma claim_attempt_step:
  assumes "nonblank t" "length t \<le> MAX_CLAIM_TOKEN_LENGTH" "validated_lease_seconds lease = Inr l" "0 \<le> n"
    and "claim_attempt ck t l n c i u = (x, v)"
  shows "gateway_step m n u v"
proof -
  have "dispatch_claim ck i t lease (PyInt n) (Some (Aware c)) u = dispatch_claim_validated ck t l n c i u"
  proof -
    have "validated_required_string ''claim_token'' MAX_CLAIM_TOKEN_LENGTH t = Inr t"
      using assms(1,2) by (simp add: validated_required_string_Inr)
    moreover have "validated_retry_limit (PyInt n) = Inr n" using assms(4) by (simp add: validated_retry_limit_Inr)
    ultimately show ?thesis using assms(3) by (simp add: dispatch_claim_def validated_now_def)
  qed
  moreover have "snd (dispatch_claim_validated ck t l n c i u) = v"
    using assms(5) by (auto simp: claim_attempt_def split: prod.splits sum.splits)
  ultimately show ?thesis by (metis gateway_step.claim prod.collapse)
qed

lemma claim_next_run:
  assumes u: "run_from m n db u" and race: "\<And>k. k < CLAIM_ROUNDS \<Longrightarrow> steps_only m n (race k)"
    and run: "dispatch_claim_next race ck uuid (Some t) lease (PyInt n) now u = (res, v)"
  shows "run_from m n db v"
proof (cases "\<exists>e. res = Inl e \<and> v = u")
  case True
  with u show ?thesis by auto
next
  case False
  have n: "0 \<le> n" using u by (simp add: run_from_def)
  obtain l c where v: "nonblank t" "length t \<le> MAX_CLAIM_TOKEN_LENGTH" "validated_lease_seconds lease = Inr l"
    "validated_now ck now = Inr c"
    using run False
    by (auto simp: dispatch_claim_next_def checked_def validated_required_string_def split: sum.splits if_splits)
  let ?w = "u\<lparr>dispatches := finalized_rows ck c n (dispatches u)\<rparr>"
  note fin = dispatch_finalize_exhausted_ok [OF dispatch_invD(1) [OF run_fromD(1) [OF u]], of ck c n]
  have w: "run_from m n db ?w" by (rule run_from_step [OF u gateway_step.finalize [OF fin]])
  have valid: "validated_required_string ''claim_token'' MAX_CLAIM_TOKEN_LENGTH t = Inr t"
    "validated_retry_limit (PyInt n) = Inr n"
    using v(1,2) n by (simp_all add: validated_required_string_Inr validated_retry_limit_Inr)
  obtain y where loop: "cas_loop (map race [0..<CLAIM_ROUNDS]) (dispatch_candidate n) (claim_attempt ck t l n c) ?w = (y, v)"
    using run fin v(3,4) valid by (auto simp: dispatch_claim_next_def split: prod.splits)
  show ?thesis
  proof (rule cas_loop_keeps [where P = "run_from m n db", OF w _ _ loop])
    fix r x assume "r \<in> set (map race [0..<CLAIM_ROUNDS])" "run_from m n db x"
    then show "run_from m n db (r x)" using race run_from_race by auto
  next
    fix k x y z assume "run_from m n db x" "claim_attempt ck t l n c k x = (y, z)"
    then show "run_from m n db z" using run_from_step claim_attempt_step [OF v(1-3) n] by blast
  qed
qed

interpretation run_frame: response_frame
  "\<lambda>u. run_from m n db u \<and> steps_only m n race \<and> steps_only m n race2" race race2 for m n db race race2
proof unfold_locales
  fix u :: gateway_db and rs ds k
  assume "run_from m n db u \<and> steps_only m n race \<and> steps_only m n race2"
  moreover have "gateway_step m n u (u\<lparr>responses := rs, deliveries := ds, delivery_seq := k\<rparr>)"
    by (rule gateway_step.elsewhere) simp_all
  ultimately show "run_from m n db (u\<lparr>responses := rs, deliveries := ds, delivery_seq := k\<rparr>)
      \<and> steps_only m n race \<and> steps_only m n race2"
    using run_from_step by blast
qed (auto intro: run_from_race)

lemma record_failure_run:
  assumes u: "run_from m n db u" and run: "record_failure ck w claim err u = (res, v)"
  shows "run_from m n db v"
proof -
  have "gateway_step m n u v"
  proof (cases "dispatch_failure_status err = D_FAILED")
    case True
    with run show ?thesis
      by (auto simp: record_failure_def Let_def split: prod.splits sum.splits intro: gateway_step.mark_failed)
  next
    case False
    with run show ?thesis
      by (auto simp: record_failure_def Let_def split: prod.splits sum.splits intro: gateway_step.mark_uncertain)
  qed
  with u show ?thesis by (rule run_from_step)
qed

lemma process_claim_run:
  assumes u: "run_from m n db u" and races: "steps_only m n during" "steps_only m n race" "steps_only m n race2"
    and run: "process_claim during race race2 ck ck' w claim result u = (res, v)"
  shows "run_from m n db v"
proof -
  obtain ren u1 where ren: "dispatch_renew_lease ck (dc_record_id claim) (dc_claim_token claim)
      (PyFloat (hw_lease_seconds w)) None u = (ren, u1)" by fastforce
  have u1: "run_from m n db u1" by (rule run_from_step [OF u gateway_step.renew [OF ren]])
  have u2: "run_from m n db (during u1)" by (rule run_from_race [OF u1 races(1)])
  have fail: "run_from m n db x" if "record_failure ck' w claim err (during u1) = (y, x)" for err x y
    by (rule record_failure_run [OF u2 that])
  have comp: "run_from m n db x" if "complete_success ck' (dc_record_id claim) (dc_claim_token claim) out (during u1) = (y, x)" for out x y
    by (rule run_from_step [OF u2 gateway_step.complete [OF that]])
  have persist: "run_from m n db x" if "run_from m n db y" "persist_response race race2 ck' out y = (z, x)" for out x y z
    using run_frame.persist_keeps [OF conjI [OF that(1) conjI [OF races(2,3)]] that(2)] by simp
  have deliver: "run_from m n db x" if "run_from m n db y" "worker_deliver race race2 ck' w out y = (z, x)" for out x y z
    using that by (auto simp: worker_deliver_def split: if_splits prod.splits sum.splits intro: persist)
  show ?thesis
    using run u u1 ren
    by (auto simp: process_claim_def Let_def split: option.splits if_splits prod.splits sum.splits
        intro: fail comp deliver)
qed

text \<open>A deferral read before other sessions commit is the deferral of the record they left.\<close>

lemma defer_run:
  assumes u: "run_from m n db u" and race: "steps_only m n race"
    and run: "defer_reconciliation_candidate race ck t i u = (res, v)"
  shows "run_from m n db v"
proof -
  let ?w = "race u"
  have w: "run_from m n db ?w" by (rule run_from_race [OF u race])
  note ok = dispatch_invD(1) [OF run_fromD(1) [OF w]]
  show ?thesis
    using run
  proof (cases rule: defer_cases [where race = race and db = u, OF ok, consumes 1, case_names kept moved])
    case kept
    with u w show ?thesis by auto
  next
    case (moved r q)
    let ?c = "d_reconciliation_failure_count r"
    from moved(3) have q: "d_id q = i" "d_reconciliation_failure_count q = ?c" "reconciliation_due t q"
      by (auto simp: defer_where_def)
    have "dispatch_reload i ?w = Some q"
      using lookup_by_distinct [OF dispatch_table_okD(2) [OF ok] moved(2)] q(1) by (simp add: dispatch_reload_def)
    moreover have "d_reconciliation_quarantined_at q = None" "\<not> sql_gt (d_reconciliation_next_attempt_at q) t"
      using q(3) by (auto simp: reconciliation_due_def dest: sql_gt_le_disjoint) (simp add: sql_gt_def)
    moreover have "rowcount (defer_where i ?c t) (dispatches ?w) = 1"
      using moved(2,3) rowcount_1_iff [OF dispatch_table_okD(2) [OF ok], of "defer_where i ?c t" i]
      by (auto simp: defer_where_def)
    ultimately have "\<exists>x. defer_reconciliation_candidate id ck t i ?w = (x, v)"
      using dispatch_update_Inr [OF defer_table_ok [OF ok], of i ?c t ck] moved(4) q(2)
      by (simp add: defer_reconciliation_candidate_def Let_def)
    then show ?thesis using run_from_step [OF w gateway_step.defer_candidate] by blast
  qed
qed

lemma reconcile_candidate_run:
  assumes u: "run_from m n db u" and races: "steps_only m n race" "steps_only m n race2"
    and run: "reconcile_candidate race race2 ck i u = (res, v)"
  shows "run_from m n db v"
proof -
  have save: "run_from m n db x" if "save_generated race race2 ck out tg u = (z, x)" for out tg x z
    using run_frame.save_keeps [OF conjI [OF u conjI [OF races]] that] by simp
  have clear: "run_from m n db y"
    if "save_generated race race2 ck out tg u = (z, x)" "clear_reconciliation_failure ck i x = (w, y)" for out tg x z w y
    by (rule run_from_step [OF save [OF that(1)] gateway_step.clear_candidate [OF that(2)]])
  show ?thesis
    using run u
    by (auto simp: reconcile_candidate_def checked_def split: option.splits if_splits sum.splits prod.splits
        intro: save clear)
qed

lemma reconcile_loop_run:
  assumes races: "steps_only m n race" "steps_only m n race2" "steps_only m n race3"
  shows "run_from m n db u \<Longrightarrow> reconcile_loop race race2 race3 ck t ids w u = (res, w', v) \<Longrightarrow> run_from m n db v"
proof (induction ids arbitrary: w u)
  case (Cons i ids)
  obtain x y where c: "reconcile_candidate race race2 ck i u = (x, y)" by fastforce
  have y: "run_from m n db y" by (rule reconcile_candidate_run [OF Cons.prems(1) races(1,2) c])
  obtain x2 z where d: "defer_reconciliation_candidate race3 ck t i y = (x2, z)" by fastforce
  have z: "run_from m n db z" by (rule defer_run [OF y races(3) d])
  consider "x = Inr True" | "x = Inr False" | "x = Inl IntegrityError" | e where "x = Inl e" "e \<noteq> IntegrityError"
    by (cases x) auto
  then show ?case
  proof cases
    case (4 e)
    then have "reconcile_loop race race2 race3 ck t (i # ids) w u =
        (case (x2, z) of (Inl e, db'') \<Rightarrow> (Inl e, w\<lparr>hw_reconciliation_cursor := i\<rparr>, db'')
         | (Inr _, db'') \<Rightarrow> reconcile_loop race race2 race3 ck t ids (w\<lparr>hw_reconciliation_cursor := i\<rparr>) db'')"
      using c d by (cases e) (simp_all add: Let_def)
    with Cons.prems(2) z Cons.IH [OF z] show ?thesis by (cases x2) auto
  qed (use Cons.prems(2) c y Cons.IH [OF y] in \<open>auto simp: Let_def\<close>)
qed simp

lemma reconcile_once_run:
  assumes races: "steps_only m n race" "steps_only m n race2" "steps_only m n race3"
    and u: "run_from m n db u" and run: "reconcile_once race race2 race3 ck now w u = (res, w', v)"
  shows "run_from m n db v"
  using run u reconcile_loop_run [OF races u]
  by (auto simp: reconcile_once_def Let_def split: if_splits option.splits py_datetime.splits)

lemma claim_once_run:
  assumes u: "run_from m (hw_retry_limit w) db u"
    and race: "\<And>k. k < CLAIM_ROUNDS \<Longrightarrow> steps_only m (hw_retry_limit w) (race k)"
    and run: "claim_once race ck uuid w now u = (res, v)"
  shows "run_from m (hw_retry_limit w) db v"
proof -
  obtain x y where c: "dispatch_claim_next race ck uuid (Some uuid) (PyFloat (hw_lease_seconds w))
      (PyInt (hw_retry_limit w)) now u = (x, y)" by fastforce
  have "run_from m (hw_retry_limit w) db y" by (rule claim_next_run [OF u race c])
  moreover have "v = y"
    using run c by (auto simp: claim_once_def split: sum.splits option.splits prod.splits)
  ultimately show ?thesis by simp
qed

lemma reconcile_loop_worker:
  "reconcile_loop race race2 race3 ck t ids w u = (res, w', v) \<Longrightarrow> hw_retry_limit w' = hw_retry_limit w"
proof (induction ids arbitrary: w u)
  case (Cons i ids)
  have IH: "reconcile_loop race race2 race3 ck t ids (w\<lparr>hw_reconciliation_cursor := i\<rparr>) x = (res, w', v) \<Longrightarrow>
      hw_retry_limit w' = hw_retry_limit w" for x
    using Cons.IH by fastforce
  show ?case
    using Cons.prems
    by (auto simp: Let_def split: prod.splits sum.splits bool.splits gateway_error.splits dest: IH)
qed simp

lemma reconcile_once_worker:
  "reconcile_once race race2 race3 ck now w u = (res, w', v) \<Longrightarrow> hw_retry_limit w' = hw_retry_limit w"
  by (auto simp: reconcile_once_def Let_def split: if_splits option.splits py_datetime.splits dest: reconcile_loop_worker)

lemma dispatch_run_once_run:
  assumes races: "\<And>k. k < CLAIM_ROUNDS \<Longrightarrow> steps_only m (hw_retry_limit w) (claim_race k)"
    "steps_only m (hw_retry_limit w) during" "steps_only m (hw_retry_limit w) race"
    "steps_only m (hw_retry_limit w) race2" "steps_only m (hw_retry_limit w) race3"
    and u: "run_from m (hw_retry_limit w) db u"
    and run: "dispatch_run_once claim_race during race race2 race3 ck ck' uuid now call w u = (res, w', v)"
  shows "run_from m (hw_retry_limit w) db v"
proof -
  obtain r1 w1 u1 where rec: "reconcile_once race race2 race3 ck now w u = (r1, w1, u1)" by (metis prod_cases3)
  note u1 = reconcile_once_run [OF races(3-5) u rec]
  note w1 = reconcile_once_worker [OF rec]
  obtain c u2 where cl: "claim_once claim_race ck uuid w1 now u1 = (c, u2)" by fastforce
  have u2: "run_from m (hw_retry_limit w) db u2"
    using claim_once_run [of m w1 db u1 claim_race ck uuid now c u2] u1 races(1) cl w1 by simp
  have p: "run_from m (hw_retry_limit w) db x" if "process_claim during race race2 ck ck' w1 claim z u2 = (y, x)" for claim z x y
    by (rule process_claim_run [OF u2 races(2-4) that])
  show ?thesis
    using run rec cl u1 u2
    by (auto simp: dispatch_run_once_def split: sum.splits option.splits prod.splits intro: p)
qed

end
