(* ===== verification/Sample_Runs.thy ===== *)
theory Sample_Runs
  imports Dispatch_Machine Delivery_Ledger
begin

text \<open>
  Concrete runs of the model, evaluated by the witnesses: two messages of one thread are
  enqueued, the first is claimed and then succeeds or ends uncertain, the second follows; a
  response of two parts waits in the outbox, is claimed and its first part is attempted.
\<close>

section \<open>Dispatch\<close>

definition sample_clock :: "instant \<Rightarrow> clocks" where
  "sample_clock t = \<lparr>wall_now = t, db_now = t\<rparr>"

definition sample_message :: "int \<Rightarrow> Message" where
  "sample_message i =
     \<lparr>g_id = i, g_event_id = ''ev'' @ int_str i, g_source = ''wechat'', g_source_account_id = ''bot'',
      g_source_message_id = ''m'' @ int_str i, g_conversation_id = ''c1'', g_conversation_type = ''private'',
      g_is_mentioned = None, g_is_self = False, g_sender_type = ''human'', g_sender_id = Some ''u1'', g_sender_name = None,
      g_message_type = ''text'', g_raw_type = Some 1, g_content = ''hello'', g_timestamp = 0, g_source_local_id = None,
      g_source_server_id = None, g_source_message_id_is_fallback = False, g_reply_context = None, g_reply_to_message_id = None,
      g_direction = ''inbound'', g_occurred_at = 0, g_received_at = 0, g_created_at = 0,
      g_attachments = [], g_raw_payload = None\<rparr>"

definition sample_identity :: EnterpriseIdentity where
  "sample_identity = \<lparr>e_id = ''e1'', e_employee_id = None, e_display_name = None, e_status = STORED_ACTIVE,
     e_created_at = 0, e_updated_at = 0\<rparr>"

definition sample_workspace :: EmployeeWorkspace where
  "sample_workspace = \<lparr>w_id = ''w1'', w_enterprise_identity_id = ''e1'', w_status = WORKSPACE_ACTIVE,
     w_created_at = 0, w_updated_at = 0, w_last_active_at = 0\<rparr>"

definition sample_thread :: AIThread where
  "sample_thread = \<lparr>t_id = ''t1'', t_workspace_id = ''w1'', t_agent_profile_id = None, t_thread_type = THREAD_PRIVATE,
     t_thread_policy = None, t_thread_key = ''k'', t_status = THREAD_ACTIVE, t_hermes_thread_id = Some ''h1'',
     t_created_at = 0, t_updated_at = 0, t_last_active_at = 0\<rparr>"

definition sample_base :: gateway_db where
  "sample_base = empty_db\<lparr>messages := [sample_message 7, sample_message 8], identities := [sample_identity],
     workspaces := [sample_workspace], ai_threads := [sample_thread]\<rparr>"

definition sample_admission :: "int \<Rightarrow> AdmissionOutcome" where
  "sample_admission i =
     \<lparr>ao_message_id = i, ao_admitted = True, ao_should_create_task = True, ao_reason = ADMISSION_ALLOWED,
      ao_enterprise_identity_id = Some ''e1'', ao_workspace_id = Some ''w1'', ao_ai_thread_id = Some ''t1'',
      ao_authorization = None, ao_policy_snapshot = None, ao_gateway_policy_id = None, ao_gateway_policy_updated_at = None,
      ao_user_policy_id = None, ao_user_policy_updated_at = None, ao_routing_mode = ''legacy'',
      ao_route_conversation_record_id = None, ao_agent_profile_id = None, ao_agent_profile_key = None,
      ao_agent_profile_reference = None, ao_agent_profile_revision = None, ao_group_type_id = None,
      ao_group_type_key = None, ao_thread_policy = None\<rparr>"

definition sample_queued :: gateway_db where
  "sample_queued = snd (dispatch_enqueue id id (sample_clock 2) (sample_admission 8)
     (snd (dispatch_enqueue id id (sample_clock 1) (sample_admission 7) sample_base)))"

definition sample_running :: gateway_db where
  "sample_running = snd (dispatch_claim (sample_clock 3) 1 ''tok'' (PyInt 60) (PyInt 2) None sample_queued)"


definition sample_envelope :: ResponseEnvelope where
  "sample_envelope = \<lparr>env_response_id = ''resp-1'', env_parts = [TextPart ''hi'', TextPart ''there'']\<rparr>"

definition sample_outcome :: HermesDispatchOutcome where
  "sample_outcome =
     \<lparr>out_message_id = 7, out_workspace_id = ''w1'', out_ai_thread_id = ''t1'', out_assistant_content = ''hithere'',
      out_response = Some sample_envelope, out_requested_hermes_thread_id = None, out_next_hermes_thread_id = None\<rparr>"

definition sample_done :: gateway_db where
  "sample_done = snd (complete_success (sample_clock 4) 1 ''tok'' sample_outcome sample_running)"

definition sample_next :: gateway_db where
  "sample_next = snd (dispatch_claim (sample_clock 5) 2 ''tok2'' (PyInt 60) (PyInt 2) None sample_done)"

definition sample_uncertain :: gateway_db where
  "sample_uncertain = snd (dispatch_mark_uncertain (sample_clock 4) 1 ''tok'' ''hermes_timeout'' sample_running)"

definition sample_retried :: gateway_db where
  "sample_retried = snd (retry_approved id (sample_clock 6) 1 ''ops'' ''ticket-1'' ''checked'' sample_uncertain)"

text \<open>Every one of them is reached from the empty database.\<close>

lemma sample_base_step: "gateway_step True 2 empty_db sample_base"
  by (rule gateway_step.elsewhere) (simp_all add: sample_base_def)

lemma sample_queued_steps: "(gateway_step True 2)\<^sup>*\<^sup>* sample_base sample_queued"
proof -
  let ?u = "snd (dispatch_enqueue id id (sample_clock 1) (sample_admission 7) sample_base)"
  have none: "dispatches sample_base = []" by (simp add: sample_base_def empty_db_def)
  have one: "gateway_step True 2 sample_base ?u"
    by (rule gateway_step.enqueue [OF surjective_pairing]) (simp add: none)
  have at: "map d_created_at (dispatches ?u) = [1]" by code_simp
  have "gateway_step True 2 ?u sample_queued"
    unfolding sample_queued_def
  proof (rule gateway_step.enqueue [OF surjective_pairing])
    have "\<forall>t\<in>set (map d_created_at (dispatches ?u)). t \<le> db_now (sample_clock 2)"
      unfolding at by (simp add: sample_clock_def)
    then show "\<forall>r\<in>set (dispatches ?u). d_created_at r \<le> db_now (sample_clock 2)" by simp
  qed
  with one show ?thesis by (meson converse_rtranclp_into_rtranclp r_into_rtranclp)
qed

lemma sample_queued_reached: "(gateway_step True 2)\<^sup>*\<^sup>* empty_db sample_queued"
  using sample_base_step sample_queued_steps by (rule converse_rtranclp_into_rtranclp)

lemma sample_running_reached: "(gateway_step True 2)\<^sup>*\<^sup>* empty_db sample_running"
  unfolding sample_running_def
  by (rule rtranclp.rtrancl_into_rtrancl [OF sample_queued_reached gateway_step.claim [OF surjective_pairing]])

lemma sample_done_step: "gateway_step True 2 sample_running sample_done"
  unfolding sample_done_def by (rule gateway_step.complete [OF surjective_pairing])

lemma sample_next_step: "gateway_step True 2 sample_done sample_next"
  unfolding sample_next_def by (rule gateway_step.claim [OF surjective_pairing])

lemma sample_uncertain_step: "gateway_step True 2 sample_running sample_uncertain"
  unfolding sample_uncertain_def by (rule gateway_step.mark_uncertain [OF surjective_pairing])

lemma sample_retried_step: "gateway_step True 2 sample_uncertain sample_retried"
  unfolding sample_retried_def by (rule gateway_step.retry [OF surjective_pairing])

lemmas sample_reached =
  sample_queued_reached sample_running_reached
  rtranclp.rtrancl_into_rtrancl [OF sample_running_reached sample_done_step]
  rtranclp.rtrancl_into_rtrancl [OF rtranclp.rtrancl_into_rtrancl [OF sample_running_reached sample_done_step] sample_next_step]
  rtranclp.rtrancl_into_rtrancl [OF sample_running_reached sample_uncertain_step]
  rtranclp.rtrancl_into_rtrancl [OF rtranclp.rtrancl_into_rtrancl [OF sample_running_reached sample_uncertain_step] sample_retried_step]

lemma sample_statuses:
  "map d_status (dispatches sample_running) = [D_RUNNING, D_QUEUED]"
  "map d_status (dispatches sample_next) = [D_SUCCESS, D_RUNNING]"
  "map d_status (dispatches sample_uncertain) = [D_UNCERTAIN, D_QUEUED]"
  "map d_status (dispatches sample_retried) = [D_FAILED, D_QUEUED]"
  by code_simp+

end
