(* ===== verification/Dispatch_Properties.thy ===== *)
theory Dispatch_Properties
  imports Sample_Runs
begin

text \<open>
  What the dispatch queue guarantees (\<open>task/model/store.py\<close>, \<open>hermes/worker.py\<close>,
  \<open>hermes/result_store.py\<close>, \<open>admin/recovery.py\<close>). The first group holds in every database a
  run of the gateway can reach, whatever the interleaving of enqueues, claims, heartbeats,
  completions, reconciliations and operator actions; the second describes single operations.
\<close>

section \<open>Every reachable database\<close>

lemma reachable_inv:
  assumes "(gateway_step m n)\<^sup>*\<^sup>* empty_db db" "0 \<le> n"
  shows "machine_inv n db"
  using machine.inv_steps [OF assms(1)] machine_inv_empty assms(2) by blast

lemma distinct_count_le: "distinct xs \<Longrightarrow> length (filter (\<lambda>x. x = a) xs) \<le> 1"
  by (induction xs) (auto simp: filter_empty_conv)

text \<open>
  C1. At no point of any run are two dispatches of one AI thread running.
\<close>

theorem one_running_per_thread:
  assumes "(gateway_step m n)\<^sup>*\<^sup>* empty_db db" and "0 \<le> n"
  shows "length (filter (\<lambda>r. d_status r = D_RUNNING \<and> d_ai_thread_id r = t) (dispatches db)) \<le> 1"
proof -
  have "distinct (running_threads (dispatches db))"
    using machine_invD(1) [OF reachable_inv [OF assms]] by (simp add: dispatch_inv_def dispatch_table_ok_def)
  from distinct_count_le [OF this, of t] show ?thesis
    by (simp add: running_threads_def filter_map o_def conj_commute)
qed

theorem one_running_per_thread_witness:
  "length (filter (\<lambda>r. d_status r = D_RUNNING \<and> d_ai_thread_id r = ''t1'') (dispatches sample_running)) \<le> 1
   \<and> length (dispatches sample_running) = 2"
proof -
  have "length (dispatches sample_running) = 2" by code_simp
  with one_running_per_thread [OF sample_reached(2), of "''t1''"] show ?thesis by simp
qed

text \<open>
  C2. A dispatch is attempted only after every earlier dispatch of its thread has ended in
  success or is dead: the messages of a thread reach Hermes in the order they were queued.
\<close>

theorem thread_fifo:
  assumes "(gateway_step True n)\<^sup>*\<^sup>* empty_db db" and "0 \<le> n"
    and "r \<in> set (dispatches db)" "q \<in> set (dispatches db)" "d_ai_thread_id q = d_ai_thread_id r"
    and "is_prior q r" "0 < d_attempt_count r"
  shows "d_status q \<in> {D_SUCCESS, D_DEAD}"
proof -
  have "fifo_ok (dispatches db)"
    using fifo.inv_steps [OF assms(1)] machine_inv_empty fifo_empty assms(2) by blast
  with assms(3-7) show ?thesis unfolding fifo_ok_def by blast
qed

theorem thread_fifo_witness:
  "0 < d_attempt_count (dispatches sample_next ! 1) \<and> d_status (dispatches sample_next ! 0) \<in> {D_SUCCESS, D_DEAD}"
proof -
  have h: "dispatches sample_next ! 1 \<in> set (dispatches sample_next)" "dispatches sample_next ! 0 \<in> set (dispatches sample_next)"
    "d_ai_thread_id (dispatches sample_next ! 0) = d_ai_thread_id (dispatches sample_next ! 1)"
    "is_prior (dispatches sample_next ! 0) (dispatches sample_next ! 1)" "0 < d_attempt_count (dispatches sample_next ! 1)"
    by code_simp+
  from thread_fifo [OF sample_reached(4) _ h] h(5) show ?thesis by simp
qed

text \<open>
  C6. Success and death are final: whatever happens later, the dispatch keeps its identity,
  its status, its attempt count and its token.
\<close>

theorem terminal_is_final:
  assumes "(gateway_step m n)\<^sup>*\<^sup>* empty_db db" and "0 \<le> n" and "(gateway_step m n)\<^sup>*\<^sup>* db db'"
    and "r \<in> set (dispatches db)" "d_status r \<in> {D_SUCCESS, D_DEAD}"
  shows "\<exists>r'\<in>set (dispatches db'). ident r' = ident r \<and> control r' = control r"
  using gateway_steps_queue [OF assms(3) reachable_inv [OF assms(1,2)] assms(2)] queue_steps_terminal [OF _ assms(4,5)]
  by blast

theorem terminal_is_final_witness:
  "\<exists>r'\<in>set (dispatches sample_next). ident r' = ident (hd (dispatches sample_done))
     \<and> control r' = control (hd (dispatches sample_done))"
proof -
  have h: "hd (dispatches sample_done) \<in> set (dispatches sample_done)"
    "d_status (hd (dispatches sample_done)) \<in> {D_SUCCESS, D_DEAD}" by code_simp+
  from terminal_is_final [OF sample_reached(3) _ r_into_rtranclp [of "gateway_step True 2", OF sample_next_step] h] show ?thesis by simp
qed

text \<open>
  C7. Attempts are bounded: no dispatch is ever started more often than the retry limit
  allows plus once for every retry an operator approved for it.
\<close>

theorem attempts_bounded:
  assumes "(gateway_step m n)\<^sup>*\<^sup>* empty_db db" and "0 \<le> n" and "r \<in> set (dispatches db)"
  shows "d_attempt_count r \<le> n + 1 + approvals db (d_id r)"
  using machine_invD(5) [OF reachable_inv [OF assms(1,2)]] assms(3)
  by (auto simp: attempts_ok_def list_all_iff attempt_weight_def split: if_splits)

theorem attempts_bounded_witness:
  "d_attempt_count (hd (dispatches sample_retried)) = 1 \<and> approvals sample_retried 1 = 1
   \<and> d_attempt_count (hd (dispatches sample_retried)) \<le> 2 + 1 + approvals sample_retried (d_id (hd (dispatches sample_retried)))"
proof -
  have h: "hd (dispatches sample_retried) \<in> set (dispatches sample_retried)" by code_simp
  have "d_attempt_count (hd (dispatches sample_retried)) = 1" "approvals sample_retried 1 = 1" by code_simp+
  with attempts_bounded [OF sample_reached(6) _ h] show ?thesis by simp
qed

text \<open>
  C8. An uncertain dispatch is never retried, buried or confirmed silently: the step that
  changes its status appends the audit of an operator's action, and the new status is the
  one that action stands for.
\<close>

theorem uncertain_needs_audit:
  assumes "(gateway_step m n)\<^sup>*\<^sup>* empty_db db" and "0 \<le> n" and "gateway_step m n db db'"
    and "r \<in> set (dispatches db)" "d_status r = D_UNCERTAIN"
    and "r' \<in> set (dispatches db')" "d_id r' = d_id r" "d_status r' \<noteq> D_UNCERTAIN"
  shows "\<exists>x. recovery_audits db' = recovery_audits db @ [x] \<and> u_dispatch_record_id x = d_id r
    \<and> d_status r' = action_after (u_action x)"
  using step_uncertain_audited [OF assms(3) _ _ assms(4-8)] machine_invD(1,2) [OF reachable_inv [OF assms(1,2)]] by blast

theorem uncertain_needs_audit_witness:
  "\<exists>x. recovery_audits sample_retried = recovery_audits sample_uncertain @ [x] \<and> u_dispatch_record_id x = d_id (hd (dispatches sample_uncertain))
    \<and> d_status (hd (dispatches sample_retried)) = action_after (u_action x)"
proof -
  have h: "hd (dispatches sample_uncertain) \<in> set (dispatches sample_uncertain)" "d_status (hd (dispatches sample_uncertain)) = D_UNCERTAIN"
    "hd (dispatches sample_retried) \<in> set (dispatches sample_retried)"
    "d_id (hd (dispatches sample_retried)) = d_id (hd (dispatches sample_uncertain))" "d_status (hd (dispatches sample_retried)) \<noteq> D_UNCERTAIN"
    by code_simp+
  show ?thesis by (rule uncertain_needs_audit [OF sample_reached(5) _ sample_retried_step h]) simp
qed

text \<open>
  C9. The detailed operations implement the abstract queue: every step of the gateway from a
  reachable database is a step of \<open>queue_step\<close>, in which rows only arrive at the end or
  evolve along the \<open>lifecycle\<close> of a dispatch.
\<close>

theorem gateway_refines_queue:
  assumes "(gateway_step m n)\<^sup>*\<^sup>* empty_db db" and "0 \<le> n" and "gateway_step m n db db'"
  shows "queue_step m n (dispatches db) (dispatches db')"
  using gateway_step_effect [OF assms(3)] machine_invD(1,2) [OF reachable_inv [OF assms(1,2)]] effect_queue_step by blast

theorem gateway_refines_queue_witness:
  "queue_step True 2 (dispatches sample_running) (dispatches sample_done)"
  using gateway_refines_queue [OF sample_reached(2) _ sample_done_step] by simp

text \<open>
  C15. In no reachable database does \<open>confirm_success\<close> do anything: a persisted Hermes result
  exists only for dispatches that already succeeded, so the evidence it asks of an uncertain
  dispatch is never there and the request is refused without a change.
\<close>

theorem confirm_success_never_applies:
  assumes "(gateway_step m n)\<^sup>*\<^sup>* empty_db db" and "0 \<le> n"
  shows "\<exists>e. confirm_success id ck i operator reference reason db = (Inl e, db)"
  using confirm_success_refused [OF reachable_inv [OF assms]] by blast

theorem confirm_success_never_applies_witness:
  "\<exists>e. confirm_success id (sample_clock 9) 1 ''ops'' ''ticket-2'' ''seen'' sample_uncertain = (Inl e, sample_uncertain)"
  using confirm_success_never_applies [OF sample_reached(5)] by simp

section \<open>The operations\<close>

lemma compatible_Inr: "compatible_record_or_raise r tg = Inr x \<Longrightarrow> x = r"
  by (simp add: compatible_record_or_raise_def split: if_splits)

lemma dispatch_target_message: "dispatch_target adm = Inr tg \<Longrightarrow> dt_message_id tg = ao_message_id adm \<and> 0 < ao_message_id adm"
  by (auto simp: dispatch_target_def split: if_splits sum.splits)

lemma enqueue_existing:
  assumes inv: "dispatch_inv db" "dispatch_keys_ok db" and tg: "dispatch_target adm = Inr tg"
    and r: "r \<in> set (dispatches db)" "d_message_id r = ao_message_id adm" "compatible_record_or_raise r tg = Inr r"
  shows "dispatch_enqueue race_lock race_flush ck adm db = (Inr (r, False), db)"
proof -
  note m = dispatch_target_message [OF tg]
  then obtain k where k: "build_hermes_dispatch_idempotency_key (dt_message_id tg) = Inr k"
    by (auto simp: build_hermes_dispatch_idempotency_key_def)
  have "dispatch_find_existing (dt_message_id tg) k db = Some r"
    using dispatch_find_existing_iff [OF inv k] r(1,2) m by simp
  with tg k r(3) show ?thesis by (simp add: dispatch_enqueue_def dispatch_stage_enqueue_def)
qed

lemma filter_key_one: "distinct (map key xs) \<Longrightarrow> r \<in> set xs \<Longrightarrow> filter (\<lambda>x. key x = key r) xs = [r]"
proof (induction xs)
  case (Cons x xs)
  show ?case
  proof (cases "x = r")
    case True
    with Cons.prems(1) have "key r \<notin> key ` set xs" by simp
    then have "\<forall>q\<in>set xs. key q \<noteq> key r" by (metis image_eqI)
    with True show ?thesis by (simp add: filter_empty_conv)
  next
    case False
    with Cons.prems have "r \<in> set xs" "key x \<notin> key ` set xs" by auto
    then have "key x \<noteq> key r" by (metis image_eqI)
    with Cons \<open>r \<in> set xs\<close> show ?thesis by simp
  qed
qed simp

lemma filter_message_one:
  assumes "dispatch_inv db" "r \<in> set (dispatches db)"
  shows "filter (\<lambda>x. d_message_id x = d_message_id r) (dispatches db) = [r]"
  using filter_key_one [OF _ assms(2), of d_message_id] assms(1) by (simp add: dispatch_inv_def dispatch_table_ok_def)

text \<open>
  C12. Enqueueing a message is idempotent, whatever other sessions commit before the thread is
  locked and before the insert is flushed: when it answers with a record, that record is the
  only dispatch of the message, and asking again answers with it and changes nothing.
\<close>

theorem enqueue_exactly_once:
  assumes "dispatch_inv db" "dispatch_keys_ok db"
    and "\<And>u. dispatch_inv u \<Longrightarrow> dispatch_keys_ok u \<Longrightarrow> dispatch_inv (race_lock u) \<and> dispatch_keys_ok (race_lock u)"
    and "\<And>u. dispatch_inv u \<Longrightarrow> dispatch_keys_ok u \<Longrightarrow> dispatch_inv (race_flush u) \<and> dispatch_keys_ok (race_flush u)"
    and "dispatch_enqueue race_lock race_flush ck adm db = (Inr (r, created), db')"
  shows "filter (\<lambda>x. d_message_id x = ao_message_id adm) (dispatches db') = [r]
    \<and> dispatch_enqueue race_lock2 race_flush2 ck2 adm db' = (Inr (r, False), db')"
proof -
  have "\<exists>tg. dispatch_target adm = Inr tg \<and> dispatch_inv db' \<and> dispatch_keys_ok db' \<and> r \<in> set (dispatches db')
      \<and> d_message_id r = ao_message_id adm \<and> compatible_record_or_raise r tg = Inr r"
  proof (rule dispatch_enqueue_cases [OF assms(1,2) _ _ assms(5)], goal_cases lock flush refused found inserted dangling)
    case (found tg q)
    then have "compatible_record_or_raise q tg = Inr r"
      by (cases "compatible_record_or_raise q tg") auto
    with compatible_Inr found show ?case by blast
  next
    case (inserted tg k)
    then have r: "r = new_dispatch_record ck (dispatch_seq (race_flush (race_lock db))) k tg" "r \<in> set (dispatches db')" by auto
    have "dispatch_inv db'" "dispatch_keys_ok db'"
      using dispatch_insert_inv [OF inserted(3,4,2,5) refl] inserted(7) by auto
    with r inserted(1) dispatch_target_message [OF inserted(1)] show ?case
      by (auto simp: new_dispatch_record_def compatible_record_or_raise_def)
  qed (use assms(3,4) in auto)
  then obtain tg where t: "dispatch_target adm = Inr tg" "dispatch_inv db'" "dispatch_keys_ok db'" "r \<in> set (dispatches db')"
    "d_message_id r = ao_message_id adm" "compatible_record_or_raise r tg = Inr r" by blast
  from filter_message_one [OF t(2,4)] enqueue_existing [OF t(2,3,1,4-6)] t(5) show ?thesis by simp
qed


text \<open>Another session enqueues the same message in between.\<close>

definition sample_rival :: "gateway_db \<Rightarrow> gateway_db" where
  "sample_rival u = snd (dispatch_enqueue id id (sample_clock 1) (sample_admission 7) u)"

lemma sample_rival_safe: "dispatch_inv u \<Longrightarrow> dispatch_keys_ok u \<Longrightarrow> dispatch_inv (sample_rival u) \<and> dispatch_keys_ok (sample_rival u)"
proof -
  assume u: "dispatch_inv u" "dispatch_keys_ok u"
  have "gateway_step False 2 u (sample_rival u)"
    unfolding sample_rival_def by (rule gateway_step.enqueue [OF surjective_pairing]) simp
  from gateway_step_effect [OF this u] effect_keys_ok [OF _ u(2)] show ?thesis by blast
qed

theorem enqueue_exactly_once_witness:
  "\<exists>r. dispatch_enqueue sample_rival id (sample_clock 2) (sample_admission 7) sample_base = (Inr (r, False), sample_rival sample_base)
     \<and> filter (\<lambda>x. d_message_id x = 7) (dispatches (sample_rival sample_base)) = [r]"
proof -
  let ?r = "hd (dispatches (sample_rival sample_base))"
  have run: "dispatch_enqueue sample_rival id (sample_clock 2) (sample_admission 7) sample_base = (Inr (?r, False), sample_rival sample_base)"
    by code_simp
  have inv: "dispatch_inv sample_base" "dispatch_keys_ok sample_base" by code_simp+
  from enqueue_exactly_once [OF inv sample_rival_safe _ run] run show ?thesis by (simp add: sample_admission_def)
qed

text \<open>
  A claim is safe under interference: whatever other sessions commit between the selection
  of a candidate and the compare-and-set, in each of the rounds, the dispatch that is handed
  out was claimable, the head of its thread and alone in it at the moment it was taken.
\<close>

theorem claim_next_takes_thread_head:
  assumes "dispatch_inv db" and "\<And>i u. i < CLAIM_ROUNDS \<Longrightarrow> dispatch_inv u \<Longrightarrow> dispatch_inv (race i u)"
    and "dispatch_claim_next race ck uuid (Some token) lease (PyInt retries) now db = (Inr (Some a), db')"
  shows "\<exists>u r l n. dispatch_inv u \<and> r \<in> set (dispatches u) \<and> eligible retries (dispatches u) r
    \<and> a = claim_values ck token l n r \<and> a \<in> set (dispatches db') \<and> dispatch_inv db'"
proof -
  from dispatch_claim_next_safe(2) [OF assms refl] obtain u l n where
    u: "dispatch_inv u" "claim_won ck token l retries n (d_id a) u a db'" by auto
  from u(2) obtain r where r: "r \<in> set (dispatches u)" "d_id r = d_id a" "eligible retries (dispatches u) r" "a = claim_values ck token l n r"
    "db' = u\<lparr>dispatches := update_where (claim_where retries (d_id a) (dispatches u)) (claim_values ck token l n) (dispatches u)\<rparr>"
    unfolding claim_won_def by blast
  have aeq: "a = (if claim_where retries (d_id a) (dispatches u) r then claim_values ck token l n r else r)"
    using r(2-4) by (simp add: claim_where_def)
  have rows: "dispatches db' = map (\<lambda>r. if claim_where retries (d_id a) (dispatches u) r then claim_values ck token l n r else r) (dispatches u)"
    unfolding r(5) by (simp add: update_where_def)
  have mem: "a \<in> set (dispatches db')" unfolding rows set_map by (rule image_eqI [where x = r]) (rule aeq, rule r(1))
  have inv: "dispatch_inv db'" by (rule dispatch_claim_next_safe(1) [OF assms])
  show ?thesis by (rule exI [of _ u], rule exI [of _ r], rule exI [of _ l], rule exI [of _ n]) (intro conjI u(1) r(1,3,4) mem inv)
qed

theorem claim_next_takes_thread_head_witness:
  "\<exists>a db'. dispatch_claim_next (\<lambda>_. id) (sample_clock 3) ''uuid'' (Some ''tok'') (PyInt 60) (PyInt 2) None sample_queued = (Inr (Some a), db')
     \<and> (\<exists>u r l n. dispatch_inv u \<and> r \<in> set (dispatches u) \<and> eligible 2 (dispatches u) r
          \<and> a = claim_values (sample_clock 3) ''tok'' l n r \<and> a \<in> set (dispatches db') \<and> dispatch_inv db')"
proof -
  have run: "dispatch_claim_next (\<lambda>_. id) (sample_clock 3) ''uuid'' (Some ''tok'') (PyInt 60) (PyInt 2) None sample_queued
      = (Inr (Some (hd (dispatches sample_running))), sample_running)" by code_simp
  have inv: "dispatch_inv sample_queued" by code_simp
  from claim_next_takes_thread_head [OF inv _ run] run show ?thesis by simp
qed



section \<open>Fencing\<close>

lemma update_whereI: "r \<in> set rows \<Longrightarrow> (if p r then f r else r) \<in> set (update_where p f rows)"
  by (simp add: update_where_def)

lemma not_owned_complete:
  assumes "dispatch_inv db" and "\<And>r. r \<in> set (dispatches db) \<Longrightarrow> \<not> owned_where ck i t r"
  shows "\<exists>err. dispatch_complete ck i t s e db = (Inl err, db)"
  by (rule dispatch_complete_cases [OF assms(1), of ck i t s e]) (use assms(2) in auto)

lemma holder_not_owned:
  assumes "dispatch_inv db" "dispatch_holder db i \<noteq> Some t" "r \<in> set (dispatches db)"
  shows "\<not> owned_where ck i t r" "\<not> renew_where i t n r"
  using dispatch_holder_row [OF assms(1,3)] assms(2) by (auto simp: owned_where_def renew_where_def)

text \<open>
  C11. Every write a worker can make for a dispatch is fenced by its claim token: once the
  token no longer holds the dispatch, renewing the lease, completing with success, recording
  the persisted result, a failure, uncertainty or death are all refused, and nothing changes.
\<close>

theorem stale_token_is_refused:
  assumes "dispatch_inv db" and "dispatch_holder db i \<noteq> Some t"
  shows "\<exists>e1 e2 e3 e4 e5 e6.
     dispatch_renew_lease ck i t lease now db = (Inl e1, db) \<and> dispatch_mark_success ck i t db = (Inl e2, db)
     \<and> complete_success ck i t out db = (Inl e3, db) \<and> dispatch_mark_failed ck i t code limit db = (Inl e4, db)
     \<and> dispatch_mark_uncertain ck i t code db = (Inl e5, db) \<and> dispatch_mark_dead ck i t code db = (Inl e6, db)"
proof -
  note no = holder_not_owned [OF assms]
  have comp: "\<exists>err. dispatch_complete ck i t s e db = (Inl err, db)" for s e
    by (rule not_owned_complete [OF assms(1) no(1)])
  have "\<exists>e. dispatch_renew_lease ck i t lease now db = (Inl e, db)"
  proof (cases "dispatch_renew_lease ck i t lease now db")
    case (Pair res db')
    from dispatch_renew_cases [OF assms(1) this] no(2) Pair show ?thesis by metis
  qed
  moreover have "\<exists>e. dispatch_mark_success ck i t db = (Inl e, db)"
    using comp by (simp add: dispatch_mark_success_def)
  moreover have "\<exists>e. complete_success ck i t out db = (Inl e, db)"
  proof (cases "complete_success ck i t out db")
    case (Pair res db')
    from complete_success_cases [OF assms(1) this] no(1) Pair show ?thesis by (metis result_where_def)
  qed
  moreover have "\<exists>e. dispatch_mark_failed ck i t code limit db = (Inl e, db)"
    "\<exists>e. dispatch_mark_uncertain ck i t code db = (Inl e, db)" "\<exists>e. dispatch_mark_dead ck i t code db = (Inl e, db)"
    unfolding dispatch_mark_failed_def dispatch_mark_uncertain_def dispatch_mark_dead_def checked_def
    using comp by (auto split: sum.split)
  ultimately show ?thesis by blast
qed

theorem stale_token_is_refused_witness:
  "\<exists>e1 e2 e3 e4 e5 e6.
     dispatch_renew_lease (sample_clock 5) 1 ''old'' (PyInt 60) None sample_running = (Inl e1, sample_running)
     \<and> dispatch_mark_success (sample_clock 5) 1 ''old'' sample_running = (Inl e2, sample_running)
     \<and> complete_success (sample_clock 5) 1 ''old'' sample_outcome sample_running = (Inl e3, sample_running)
     \<and> dispatch_mark_failed (sample_clock 5) 1 ''old'' ''code'' None sample_running = (Inl e4, sample_running)
     \<and> dispatch_mark_uncertain (sample_clock 5) 1 ''old'' ''code'' sample_running = (Inl e5, sample_running)
     \<and> dispatch_mark_dead (sample_clock 5) 1 ''old'' ''code'' sample_running = (Inl e6, sample_running)"
proof -
  have h: "dispatch_inv sample_running" "dispatch_holder sample_running 1 \<noteq> Some ''old''" by code_simp+
  show ?thesis by (rule stale_token_is_refused [OF h])
qed

text \<open>
  A claim is completed at most once: the call that completes it held the token, it
  releases it, and a second completion of the same dispatch is refused whatever its token.
\<close>

theorem completed_once:
  assumes "dispatch_inv db" and "\<And>r. completion_ok (s r) e"
    and "dispatch_complete ck i t s e db = (Inr r, db')"
  shows "dispatch_holder db i = Some t \<and> dispatch_holder db' i = None
    \<and> (\<exists>err. dispatch_complete ck' i t' s' e' db' = (Inl err, db'))"
proof -
  have fin: "dispatch_finish ck s e i t db = Some db'" using assms(3) by (simp add: dispatch_finish_def)
  have wf: "dispatch_inv db \<and> (\<forall>r. completion_ok (s r) e)" using assms(1,2) by blast
  note h = dispatch_fence.finish_needs_token [OF wf fin] dispatch_fence.finish_releases [OF wf fin]
  have inv: "dispatch_inv db'" using dispatch_fence.finish_wf [OF wf fin] by blast
  have "\<exists>err. dispatch_complete ck' i t' s' e' db' = (Inl err, db')"
    by (rule not_owned_complete [OF inv holder_not_owned(1) [OF inv]]) (use h(2) in auto)
  with h show ?thesis by blast
qed

theorem completed_once_witness:
  "dispatch_holder sample_running 1 = Some ''tok''
   \<and> (\<exists>err. dispatch_complete (sample_clock 5) 1 ''tok'' (\<lambda>_. D_SUCCESS) None sample_uncertain = (Inl err, sample_uncertain))"
proof -
  have inv: "dispatch_inv sample_running" by code_simp
  have run: "dispatch_complete (sample_clock 4) 1 ''tok'' (\<lambda>_. D_UNCERTAIN) (Some ''hermes_timeout'') sample_running
      = (Inr (hd (dispatches sample_uncertain)), sample_uncertain)" by code_simp
  have ok: "completion_ok D_UNCERTAIN (Some ''hermes_timeout'')"
    by (simp add: completion_ok_def nonblank_def py_strip_def py_isspace_def)
  from completed_once [where s = "\<lambda>_. D_UNCERTAIN" and s' = "\<lambda>_. D_SUCCESS" and ck' = "sample_clock 5" and t' = "''tok''",
      OF inv ok run]
  show ?thesis by blast
qed

text \<open>
  A lease that has run out is not a retry: the next claim round turns the dispatch into
  an uncertain one, without a token, and its former holder is locked out.
\<close>

theorem expired_lease_is_uncertain:
  assumes "dispatch_inv db" and "r \<in> set (dispatches db)" "d_status r = D_RUNNING" "sql_le (d_lease_expires_at r) now"
  shows "\<exists>db' r'. dispatch_finalize_exhausted ck now retries db = (Inr (), db') \<and> r' \<in> set (dispatches db')
    \<and> ident r' = ident r \<and> d_status r' = D_UNCERTAIN \<and> d_last_error_code r' = Some EXPIRED_LEASE_ERROR
    \<and> dispatch_holder db' (d_id r) = None"
proof -
  let ?db = "db\<lparr>dispatches := finalized_rows ck now retries (dispatches db)\<rparr>"
  have run: "dispatch_finalize_exhausted ck now retries db = (Inr (), ?db)"
    by (rule dispatch_finalize_exhausted_ok [OF dispatch_invD(1) [OF assms(1)]])
  have "expired_where now r" "\<not> exhausted_where retries r"
    using assms(3,4) by (simp_all add: expired_where_def exhausted_where_def)
  then have mem: "expired_values ck r \<in> set (dispatches ?db)"
    using update_whereI [OF update_whereI [OF assms(2), of "exhausted_where retries" "exhausted_values ck"], of "expired_where now" "expired_values ck"]
    by (simp add: finalized_rows_def)
  have inv: "dispatch_inv ?db" using finalize_effect [OF assms(1) run] by blast
  have "dispatch_holder ?db (d_id (expired_values ck r)) = None"
    using dispatch_holder_row [OF inv mem] by (simp add: expired_values_def)
  then have "dispatch_holder ?db (d_id r) = None" by (simp add: expired_values_def)
  moreover have "ident (expired_values ck r) = ident r" by simp
  moreover have "d_status (expired_values ck r) = D_UNCERTAIN"
    "d_last_error_code (expired_values ck r) = Some EXPIRED_LEASE_ERROR" by (simp_all add: expired_values_def)
  ultimately show ?thesis using run mem by blast
qed

theorem expired_lease_is_uncertain_witness:
  "\<exists>db' r'. dispatch_finalize_exhausted (sample_clock 99) 70000000 2 sample_running = (Inr (), db') \<and> r' \<in> set (dispatches db')
    \<and> ident r' = ident (hd (dispatches sample_running)) \<and> d_status r' = D_UNCERTAIN \<and> d_last_error_code r' = Some EXPIRED_LEASE_ERROR
    \<and> dispatch_holder db' (d_id (hd (dispatches sample_running))) = None"
proof -
  have h: "dispatch_inv sample_running" "hd (dispatches sample_running) \<in> set (dispatches sample_running)"
    "d_status (hd (dispatches sample_running)) = D_RUNNING" "sql_le (d_lease_expires_at (hd (dispatches sample_running))) 70000000"
    by code_simp+
  show ?thesis by (rule expired_lease_is_uncertain [OF h])
qed


section \<open>Results\<close>

text \<open>
  C14. A successful call is recorded in one piece or not at all: either the request is refused
  and nothing changes, or the dispatch it was claimed for is marked successful and exactly one
  result row is added, from which the outcome is read back as it was (without the session
  hand-over, which has been applied).
\<close>

theorem result_is_atomic_and_readable:
  assumes "dispatch_inv db" and "\<And>e. out_response out = Some e \<Longrightarrow> \<exists>j. envelope_validate j = Some e"
    and "complete_success ck i t out db = (res, db')"
  shows "(\<exists>e. res = Inl e \<and> db' = db)
    \<or> (\<exists>h r. res = Inr h \<and> dispatch_responses db' = dispatch_responses db @ [h] \<and> h_dispatch_record_id h = i
         \<and> r \<in> set (dispatches db') \<and> d_id r = i \<and> d_status r = D_SUCCESS \<and> d_claim_token r = None
         \<and> to_outcome h r = Inr (out\<lparr>out_requested_hermes_thread_id := None, out_next_hermes_thread_id := None\<rparr>))"
proof (rule complete_success_cases [OF assms(1,3)], goal_cases refused stored)
  case (stored r db2 row)
  let ?r = "completion_values ck (\<lambda>_. D_SUCCESS) None r"
  have "?r \<in> set (dispatches db')"
    using update_whereI [OF stored(1), of "result_where ck i t out" "completion_values ck (\<lambda>_. D_SUCCESS) None"] stored(2,8) by simp
  moreover have "d_id ?r = i" "d_status ?r = D_SUCCESS" "d_claim_token ?r = None" "out_message_id out = d_message_id ?r"
    "out_workspace_id out = d_workspace_id ?r" "out_ai_thread_id out = d_ai_thread_id ?r"
    using stored(2) by (simp_all add: result_where_def owned_where_def completion_values_def)
  moreover have "to_outcome row ?r = Inr (out\<lparr>out_requested_hermes_thread_id := None, out_next_hermes_thread_id := None\<rparr>)"
    unfolding stored(4) by (rule to_outcome_new_response) (use calculation assms(2) in auto)
  moreover have "h_dispatch_record_id row = i" "dispatch_responses db' = dispatch_responses db @ [row]"
    using stored(4,6) by (simp_all add: new_dispatch_response_def)
  ultimately show ?case using stored(5) by blast
qed simp

theorem result_is_atomic_and_readable_witness:
  "\<exists>h r. complete_success (sample_clock 4) 1 ''tok'' sample_outcome sample_running = (Inr h, sample_done)
     \<and> dispatch_responses sample_done = [h] \<and> r \<in> set (dispatches sample_done) \<and> to_outcome h r = Inr sample_outcome"
proof -
  have inv: "dispatch_inv sample_running" by code_simp
  have run: "complete_success (sample_clock 4) 1 ''tok'' sample_outcome sample_running = (Inr (hd (dispatch_responses sample_done)), sample_done)"
    by code_simp
  have none: "dispatch_responses sample_running = []" by code_simp
  have ok: "envelope_validate (envelope_dump sample_envelope) = Some sample_envelope" by code_simp
  have same: "sample_outcome\<lparr>out_requested_hermes_thread_id := None, out_next_hermes_thread_id := None\<rparr> = sample_outcome"
    by (simp add: sample_outcome_def)
  have v: "\<exists>j. envelope_validate j = Some e" if "out_response sample_outcome = Some e" for e
    using that ok by (auto simp: sample_outcome_def)
  from result_is_atomic_and_readable [OF inv v run] run none same show ?thesis by auto
qed

text \<open>
  A failed call is retried automatically only when Hermes cannot have acted on it: a
  dispatch error raised before the call, or a response with a status below 500. A timeout, a
  transport error, a server error and anything unexpected leave the dispatch uncertain.
\<close>

theorem failure_classification:
  "dispatch_failure_status e =
     (if (\<exists>reason. e = HermesDispatchError reason \<and> reason \<notin> set POST_CALL_DISPATCH_ERRORS)
         \<or> (\<exists>op code. e = HermesAPIError op code \<and> code < 500)
      then D_FAILED else D_UNCERTAIN)"
  using dispatch_failure_status_FAILED [of e] dispatch_failure_status_range [of e] by auto

section \<open>Operator recovery\<close>

lemma idempotent_result_again:
  "idempotent_result y op why = Inr x \<Longrightarrow> x\<lparr>dr_idempotent := True\<rparr> = x"
  by (auto simp: idempotent_result_def split: if_splits)

lemma audit_for_snoc:
  assumes "audit_table_ok (recovery_audits v @ [y])" "recovery_audits u = recovery_audits v @ [y]" "audit_key y = (i, a, ref)"
  shows "audit_for i a ref u = Some y"
proof -
  have "distinct (map audit_key (recovery_audits u))" "y \<in> set (recovery_audits u)"
    using assms(1,2) by (simp_all add: audit_table_ok_def)
  from lookup_by_distinct [OF this] assms(3) show ?thesis by (simp add: audit_for_def)
qed

lemma replay_audited:
  assumes "recovery_replay i a op ref why u = (Inr x, u')"
  shows "\<exists>y. audit_for i a ref u' = Some y \<and> idempotent_result y op why = Inr (x\<lparr>dr_idempotent := True\<rparr>)"
  using assms idempotent_result_again by (auto simp: recovery_replay_def split: option.splits)

text \<open>A resolution that succeeded left the audit it answers for.\<close>

lemma resolution_audited:
  assumes run: "recovery_resolve race ck i a after op ref why ev db = (Inr x, db')"
  shows "\<exists>y. audit_for i a ref db' = Some y \<and> idempotent_result y op why = Inr (x\<lparr>dr_idempotent := True\<rparr>)"
proof (cases "audit_for i a ref db")
  case (Some y)
  with run idempotent_result_again show ?thesis by (auto simp: recovery_resolve_def)
next
  case None
  from run None obtain r where r: "dispatch_reload i db = Some r" "d_status r = D_UNCERTAIN"
    by (auto simp: recovery_resolve_def split: option.splits if_splits)
  from run None r obtain evidence where
    e: "(if ev then map_sum id (\<lambda>h. Some (h_id h)) (verified_success_evidence r db) else Inr None) = Inr evidence"
    by (auto simp: recovery_resolve_def checked_def split: sum.splits)
  note run' = run [unfolded recovery_resolve_def None option.case r(1) e checked_def sum.case Let_def]
  show ?thesis
  proof (cases "dispatch_update (recovery_where i) (recovery_values ck a after) (race db)")
    case (Pair n db2)
    show ?thesis
    proof (cases n)
      case (Inl err)
      with run' Pair r(2) replay_audited show ?thesis by simp
    next
      case (Inr k)
      let ?y = "new_audit ck (audit_seq db2) i a after op ref why (d_last_error_code r) evidence"
      show ?thesis
      proof (cases "k = 1 \<and> audit_table_ok (recovery_audits db2 @ [?y]) \<and> audit_foreign_keys_ok db2 ?y")
        case True
        with run' Pair Inr r(2) have res: "x = \<lparr>dr_dispatch_record_id = i, dr_action = a, dr_status = after, dr_audit_id = u_id ?y, dr_idempotent = False\<rparr>"
          "recovery_audits db' = recovery_audits db2 @ [?y]" by auto
        moreover have "audit_for i a ref db' = Some ?y"
          by (rule audit_for_snoc) (use True res in \<open>auto simp: audit_key_def new_audit_def\<close>)
        ultimately show ?thesis by (simp add: idempotent_result_def new_audit_def)
      next
        case False
        with run' Pair Inr r(2) have "recovery_replay i a op ref why (race db) = (Inr x, db')" by (auto split: if_splits)
        then show ?thesis by (rule replay_audited)
      qed
    qed
  qed
qed

text \<open>
  An operator's resolution is idempotent per reference, under any interference: once it
  has been answered, sending it again answers with the same audit and changes nothing, and the
  same reference with another operator or reason is a conflict.
\<close>

theorem resolution_is_idempotent:
  assumes "recovery_resolve race ck i a after op ref why ev db = (Inr x, db')"
  shows "recovery_resolve race' ck' i a after' op' ref why' ev' db' =
    (if op' = op \<and> why' = why then Inr (x\<lparr>dr_idempotent := True\<rparr>) else Inl DispatchRecoveryReferenceConflictError, db')"
proof -
  from resolution_audited [OF assms] obtain y where
    y: "audit_for i a ref db' = Some y" "idempotent_result y op why = Inr (x\<lparr>dr_idempotent := True\<rparr>)" by blast
  from y(2) have "u_operator y = op" "u_reason y = why" by (auto simp: idempotent_result_def split: if_splits)
  with y show ?thesis by (auto simp: recovery_resolve_def idempotent_result_def)
qed

theorem resolution_is_idempotent_witness:
  "fst (recovery_resolve id (sample_clock 6) 1 RETRY_APPROVED D_FAILED ''ops'' ''ticket-1'' ''checked'' False sample_uncertain)
     = Inr \<lparr>dr_dispatch_record_id = 1, dr_action = RETRY_APPROVED, dr_status = D_FAILED, dr_audit_id = 1, dr_idempotent = False\<rparr>
   \<and> recovery_resolve id (sample_clock 8) 1 RETRY_APPROVED D_FAILED ''ops'' ''ticket-1'' ''checked'' False sample_retried
     = (Inr \<lparr>dr_dispatch_record_id = 1, dr_action = RETRY_APPROVED, dr_status = D_FAILED, dr_audit_id = 1, dr_idempotent = True\<rparr>, sample_retried)"
proof -
  have run: "recovery_resolve id (sample_clock 6) 1 RETRY_APPROVED D_FAILED ''ops'' ''ticket-1'' ''checked'' False sample_uncertain
     = (Inr \<lparr>dr_dispatch_record_id = 1, dr_action = RETRY_APPROVED, dr_status = D_FAILED, dr_audit_id = 1, dr_idempotent = False\<rparr>, sample_retried)"
    by code_simp
  from resolution_is_idempotent [OF run, of id "sample_clock 8" D_FAILED "''ops''" "''checked''" False] run show ?thesis by simp
qed

section \<open>The worker\<close>

definition sample_worker :: HermesDispatchWorker where
  "sample_worker = \<lparr>hw_lease_seconds = 60, hw_retry_limit = 2, hw_reconcile_persisted_responses = True,
     hw_has_response_processor = False, hw_reconciliation_cursor = 0, hw_next_reconciliation_scan_at = 0\<rparr>"

text \<open>
  C10. A whole turn of a dispatch worker stays inside the machine: reconciliation, the claim,
  the heartbeat, the call with any result Hermes may give and the recording of it, interleaved
  with any steps of other sessions, lead from a reachable database to a reachable one, so
  every guarantee of the reachable databases survives it.
\<close>

theorem worker_turn_is_a_run:
  assumes "(gateway_step m (hw_retry_limit w))\<^sup>*\<^sup>* empty_db db" and "0 \<le> hw_retry_limit w"
    and "\<And>k. k < CLAIM_ROUNDS \<Longrightarrow> steps_only m (hw_retry_limit w) (claim_race k)"
    and "steps_only m (hw_retry_limit w) during" "steps_only m (hw_retry_limit w) race"
      "steps_only m (hw_retry_limit w) race2" "steps_only m (hw_retry_limit w) race3"
    and "dispatch_run_once claim_race during race race2 race3 ck ck' uuid now call w db = (res, w', db')"
  shows "(gateway_step m (hw_retry_limit w))\<^sup>*\<^sup>* empty_db db'"
proof -
  have "machine_inv (hw_retry_limit w) db" using machine.inv_steps [OF assms(1)] machine_inv_empty assms(2) by blast
  then have "run_from m (hw_retry_limit w) empty_db db" using assms(1,2) by (simp add: run_from_def)
  from dispatch_run_once_run [OF assms(3-7) this assms(8)] show ?thesis by (simp add: run_from_def)
qed

theorem worker_turn_is_a_run_witness:
  "(gateway_step True 2)\<^sup>*\<^sup>* empty_db (snd (snd (dispatch_run_once (\<lambda>_. id) id id id id (sample_clock 3) (sample_clock 4) ''tok'' None
       (\<lambda>_. Inr sample_outcome) sample_worker sample_queued)))
   \<and> map d_status (dispatches (snd (snd (dispatch_run_once (\<lambda>_. id) id id id id (sample_clock 3) (sample_clock 4) ''tok'' None
       (\<lambda>_. Inr sample_outcome) sample_worker sample_queued)))) = [D_SUCCESS, D_QUEUED]"
proof
  have w: "hw_retry_limit sample_worker = 2" by (simp add: sample_worker_def)
  obtain res w' db' where run: "dispatch_run_once (\<lambda>_. id) id id id id (sample_clock 3) (sample_clock 4) ''tok'' None
      (\<lambda>_. Inr sample_outcome) sample_worker sample_queued = (res, w', db')" by (metis prod_cases3)
  from worker_turn_is_a_run [where m = True and w = sample_worker, unfolded w, OF sample_reached(1) _ _ _ _ _ _ run]
  show "(gateway_step True 2)\<^sup>*\<^sup>* empty_db (snd (snd (dispatch_run_once (\<lambda>_. id) id id id id (sample_clock 3) (sample_clock 4) ''tok'' None
       (\<lambda>_. Inr sample_outcome) sample_worker sample_queued)))"
    by (simp add: run w)
  show "map d_status (dispatches (snd (snd (dispatch_run_once (\<lambda>_. id) id id id id (sample_clock 3) (sample_clock 4) ''tok'' None
       (\<lambda>_. Inr sample_outcome) sample_worker sample_queued)))) = [D_SUCCESS, D_QUEUED]"
    by code_simp
qed

text \<open>
  Reconciliation backs off and gives up: a failed candidate waits between 30 and 300
  seconds, and its fifth failure quarantines it.
\<close>

theorem reconciliation_backs_off:
  assumes "dispatch_table_ok (dispatches (race db))"
    and "defer_reconciliation_candidate race ck now i db = (Inr (Some st), db')"
  shows "1 \<le> rf_failure_count st \<and> rf_failure_count st \<le> 5
    \<and> (if rf_failure_count st < 5
       then rf_quarantined_at st = None
         \<and> (\<exists>t. rf_next_attempt_at st = Some t \<and> now + 30000000 \<le> t \<and> t \<le> now + 300000000)
       else rf_quarantined_at st = Some now \<and> rf_next_attempt_at st = None)"
proof (rule defer_cases [OF assms], goal_cases kept deferred)
  case (deferred r q)
  let ?c = "d_reconciliation_failure_count r"
  have q: "d_reconciliation_failure_count q = ?c" "reconciliation_due now q"
    using deferred(3) by (auto simp: defer_where_def)
  have "dispatch_row_ok q" using assms(1) deferred(2) by (simp add: dispatch_table_ok_def list_all_iff)
  from due_count [OF this q(2)] q(1) have c: "0 \<le> ?c" "?c \<le> 4" by auto
  have "30 \<le> reconciliation_delay_seconds (?c + 1)" "reconciliation_delay_seconds (?c + 1) \<le> 300"
    using reconciliation_delay_bounds [of "?c + 1"] c by auto
  then have "30000000 \<le> timedelta_seconds (of_int (reconciliation_delay_seconds (?c + 1)))"
    "timedelta_seconds (of_int (reconciliation_delay_seconds (?c + 1))) \<le> 300000000" by (simp_all add: timedelta_seconds_of_int)
  with deferred(5) c show ?case
    by (auto simp: defer_values_def Let_def RECONCILIATION_QUARANTINE_FAILURES_def)
qed simp


definition sample_failing :: gateway_db where
  "sample_failing = snd (defer_reconciliation_candidate id (sample_clock 5) 5 1 sample_done)"

theorem reconciliation_backs_off_witness:
  "\<exists>st. defer_reconciliation_candidate id (sample_clock 5) 5 1 sample_done = (Inr (Some st), sample_failing)
     \<and> rf_failure_count st = 1 \<and> (\<exists>t. rf_next_attempt_at st = Some t \<and> 5 + 30000000 \<le> t \<and> t \<le> 5 + 300000000)"
proof -
  let ?st = "\<lparr>rf_record_id = 1, rf_failure_count = 1, rf_next_attempt_at = Some 30000005, rf_quarantined_at = None\<rparr>"
  have run: "defer_reconciliation_candidate id (sample_clock 5) 5 1 sample_done = (Inr (Some ?st), sample_failing)"
    by code_simp
  have ok: "dispatch_table_ok (dispatches (id sample_done))" by code_simp
  from reconciliation_backs_off [OF ok run] run show ?thesis by simp
qed

text \<open>
  A crash between the recorded result and the outbox loses nothing: when reconciliation
  handles a successful dispatch with a stored result, then, whatever races it meets, the
  response and the delivery of that very outcome to the message's conversation are stored.
\<close>

theorem reconciliation_repairs:
  assumes "response_inv db" "response_safe race" "response_safe race2"
    and "dispatch_reload i db = Some r" "d_status r = D_SUCCESS"
      "get_by_dispatch_record_id i db = Some raw" "to_outcome raw r = Inr out"
      "message_get (d_message_id r) db = Some g" "g_source g = ''wechat''"
      "make_delivery_target (g_source g) (g_source_account_id g) (g_conversation_id g) = Inr tg"
    and "reconcile_candidate race race2 ck i db = (Inr created, db')"
  shows "\<exists>x d. saved_as out tg x d db'"
proof -
  from assms(4-11) obtain x d db1 where s: "save_generated race race2 ck out tg db = (Inr (x, d, created), db1)"
    and c: "\<exists>u. clear_reconciliation_failure ck i db1 = (Inr u, db')"
    by (auto simp: reconcile_candidate_def split: prod.splits sum.splits)
  have "saved_as out tg x d db1" using save_generated_ok [OF assms(1-3) s] by blast
  moreover have "responses db' = responses db1" "deliveries db' = deliveries db1"
    using c by (auto simp: clear_reconciliation_failure_def dispatch_update_def Let_def split: if_splits prod.splits sum.splits)
  ultimately show ?thesis by (auto simp: saved_as_def)
qed

definition sample_target :: DeliveryTarget where
  "sample_target = \<lparr>tg_channel = ''wechat'', tg_account_id = ''bot'', tg_conversation_id = ''c1''\<rparr>"

definition sample_saved :: gateway_db where
  "sample_saved = snd (save_generated id id (sample_clock 6) sample_outcome sample_target sample_done)"

lemma sample_save:
  "\<exists>r d. save_generated id id (sample_clock 6) sample_outcome sample_target sample_done = (Inr (r, d, True), sample_saved)
     \<and> dispatches sample_saved = dispatches sample_done \<and> r \<in> set (responses sample_saved)
     \<and> (\<exists>sha. r = new_response (sample_clock 6) ''v1:hermes-response:message:7'' sample_outcome sample_envelope sha)"
proof -
  have none: "responses sample_done = []" "deliveries sample_done = []" by code_simp+
  have inv: "response_inv sample_done" by code_simp
  have k: "build_response_idempotency_key (out_message_id sample_outcome) = Inr ''v1:hermes-response:message:7''" by code_simp
  have out: "out_response sample_outcome = Some sample_envelope" "envelope_validate (envelope_dump sample_envelope) = Some sample_envelope"
    by code_simp+
  have fk: "response_foreign_keys_ok sample_done (new_response (sample_clock 6) k sample_outcome sample_envelope sha)" for k sha
    by code_simp
  show ?thesis
    unfolding sample_saved_def using save_generated_first [OF inv out k _ fk, of sample_target] none by auto
qed

theorem reconciliation_repairs_witness:
  "\<exists>created db' x d. reconcile_candidate id id (sample_clock 6) 1 sample_done = (Inr created, db') \<and> saved_as sample_outcome sample_target x d db'"
proof -
  have h: "dispatch_reload 1 sample_done = Some (hd (dispatches sample_done))" "d_status (hd (dispatches sample_done)) = D_SUCCESS"
    "get_by_dispatch_record_id 1 sample_done = Some (hd (dispatch_responses sample_done))"
    "to_outcome (hd (dispatch_responses sample_done)) (hd (dispatches sample_done)) = Inr sample_outcome"
    "message_get (d_message_id (hd (dispatches sample_done))) sample_done = Some (sample_message 7)" "g_source (sample_message 7) = ''wechat''"
    "make_delivery_target (g_source (sample_message 7)) (g_source_account_id (sample_message 7)) (g_conversation_id (sample_message 7)) = Inr sample_target"
    by code_simp+
  have inv: "response_inv sample_done" "dispatch_table_ok (dispatches sample_done)" by code_simp+
  obtain r d where s: "save_generated id id (sample_clock 6) sample_outcome sample_target sample_done = (Inr (r, d, True), sample_saved)"
    "dispatches sample_saved = dispatches sample_done"
    using sample_save by blast
  obtain db' where "clear_reconciliation_failure (sample_clock 6) 1 sample_saved = (Inr (), db')"
    using clear_reconciliation_failure_ok [of sample_saved] inv(2) s(2) by simp
  then have run: "reconcile_candidate id id (sample_clock 6) 1 sample_done = (Inr True, db')"
    using h s by (simp add: reconcile_candidate_def)
  from reconciliation_repairs [OF inv(1) _ _ h run] run show ?thesis by auto
qed

end
