(* ===== verification/Delivery_Properties.thy ===== *)
theory Delivery_Properties
  imports Delivery_Machine Dispatch_Properties
begin

text \<open>
  What the delivery outbox and the delivery worker guarantee (\<open>delivery/outbox.py\<close>,
  \<open>delivery/worker.py\<close>), with the concrete databases and environments of the witnesses.
\<close>

section \<open>A delivery of two text parts\<close>

definition sample_digest :: string where "sample_digest = replicate 64 CHR ''a''"

definition sample_response :: ResponseRecord where
  "sample_response =
     \<lparr>r_response_id = ''resp-1'', r_idempotency_key = ''key-1'', r_message_id = 7, r_workspace_id = ''w1'',
      r_ai_thread_id = ''t1'', r_content_sha256 = sample_digest, r_part_count = 2, r_status = R_GENERATED,
      r_generated_at = Some 5, r_delivering_at = None, r_delivered_at = None, r_failed_at = None, r_uncertain_at = None,
      r_last_error_code = None, r_created_at = 5, r_updated_at = 5,
      r_parts = part_records [TextPart ''hi'', TextPart ''there'']\<rparr>"

definition sample_delivery :: DeliveryOutboxRecord where
  "sample_delivery =
     \<lparr>o_id = 1, o_idempotency_key = ''dkey-1'', o_response_id = ''resp-1'', o_channel = ''wechat'', o_account_id = ''bot'',
      o_conversation_id = ''c1'', o_target_key = sample_digest, o_status = O_QUEUED, o_next_part_ordinal = 0,
      o_attempt_count = 0, o_available_at = 5, o_claim_token = None, o_claimed_at = None, o_completed_at = None,
      o_last_error_code = None, o_created_at = 5, o_updated_at = 5\<rparr>"

definition sample_outbox :: gateway_db where
  "sample_outbox = sample_base\<lparr>responses := [sample_response], deliveries := [sample_delivery], delivery_seq := 2\<rparr>"

definition sample_sender :: ChannelDeliverySender where
  "sample_sender = \<lparr>sn_account_id = Inr ''bot'', sn_send_text = (\<lambda>n c t. Inr ReceiptNone), sn_send_media = None\<rparr>"

definition sample_env :: delivery_env where
  "sample_env =
     \<lparr>ev_clock = (\<lambda>n. Aware (1000000000 + int n)), ev_ck = (\<lambda>n. sample_clock (1000000000 + int n)), ev_factory = (\<lambda>n a. Inr sample_sender),
      ev_part_lookup_fails = (\<lambda>n. False), ev_repository = None, ev_artifact_lookup_fails = (\<lambda>n. False),
      ev_commit = (\<lambda>n. COMMIT_REPORTED), ev_recover_race = id, ev_claim_race = (\<lambda>n. id), ev_start_race = (\<lambda>n. id),
      ev_mark_race = (\<lambda>n. id), ev_finish_race = (\<lambda>n. id)\<rparr>"

definition sample_delivery_worker :: ChannelDeliveryWorker where
  "sample_delivery_worker = \<lparr>cw_channel = ''wechat'', cw_max_attempts = 3, cw_retry_base_seconds = 1, cw_retry_max_seconds = 60,
     cw_claim_timeout_seconds = 300\<rparr>"

definition sample_claimed :: gateway_db where
  "sample_claimed = snd (delivery_claim_next (\<lambda>_. id) (sample_clock 10) ''wechat'' ''A'' None sample_outbox)"

definition sample_started :: gateway_db where
  "sample_started = snd (start_attempt id (sample_clock 11) 1 ''A'' 0 sample_claimed)"

lemma sample_facts:
  "make_delivery_worker ''wechat'' (PyInt 3) (PyFloat 1) (PyFloat 60) (PyFloat 300) = Inr sample_delivery_worker"
  "delivery_inv sample_outbox" "delivery_inv sample_claimed" "delivery_inv sample_started"
  "claim_token_ok ''A''" "claim_token_ok ''B''"
  by code_simp+

lemma sample_env_ok: "env_ok sample_env"
  by (simp add: env_ok_def sample_env_def)

lemma sample_outbox_reached: "outbox_reached sample_done" "outbox_step sample_done sample_saved" "outbox_reached sample_saved"
proof -
  have "outbox_part sample_done = outbox_part empty_db" by code_simp
  then show r: "outbox_reached sample_done" by (rule outbox_reached.init)
  show s: "outbox_step sample_done sample_saved" unfolding sample_saved_def by (rule generate [OF surjective_pairing])
  show "outbox_reached sample_saved" using r s by (rule outbox_reached.step)
qed

section \<open>Every reachable outbox\<close>





text \<open>
  A delivery is never lost and never taken back: after any run it is still there, with the
  same response and target, at least as many parts passed, and it stays delivered once it is.
\<close>

theorem delivered_is_final:
  assumes "outbox_reached db" and "outbox_step\<^sup>*\<^sup>* db db'" and "d \<in> set (deliveries db)"
  shows "\<exists>d'\<in>set (deliveries db'). delivery_identity d' = delivery_identity d
     \<and> o_next_part_ordinal d \<le> o_next_part_ordinal d'
     \<and> (o_status d = O_DELIVERED \<longrightarrow> o_status d' = O_DELIVERED \<and> o_next_part_ordinal d' = o_next_part_ordinal d)"
proof -
  have "evolved (deliveries db) (deliveries db')"
    using outbox_run_refines [OF assms(2) outbox_reached_inv [OF assms(1)]] outbox_spec_star_evolved by (simp add: refines_def)
  with assms(3) show ?thesis by (fastforce simp: evolved_def progress_def)
qed

theorem delivered_is_final_witness:
  "\<exists>d\<in>set (deliveries sample_saved). \<exists>d'\<in>set (deliveries sample_saved). delivery_identity d' = delivery_identity d
     \<and> (o_status d = O_DELIVERED \<longrightarrow> o_status d' = O_DELIVERED)"
proof -
  obtain r where "r \<in> set (responses sample_saved)" using sample_save by blast
  then obtain d where d: "d \<in> set (deliveries sample_saved)"
    using delivery_invD(9) [OF outbox_reached_inv [OF sample_outbox_reached(3)]] by blast
  from delivered_is_final [OF sample_outbox_reached(3) rtranclp.rtrancl_refl d] d show ?thesis by blast
qed

section \<open>The worker\<close>

text \<open>
  C35. A batch of the worker always returns, whatever the channel, the files, the clock and the
  commits do: it processes at most the given number of deliveries, leaves none of the
  deliveries it reports in the middle of a send, and keeps the outbox in order.
\<close>

theorem delivery_batch_returns:
  assumes "delivery_inv db" and "make_delivery_worker channel ma rb rm ct = Inr w" and "0 < n"
    and "\<And>k. claim_token_ok (tokens k)" and "\<And>k. env_ok (envs k)"
  shows "\<exists>N res db'. (\<forall>fuel\<ge>N. run_until_idle fuel envs tokens w (PyInt n) db = Some (res, db')) \<and> delivery_inv db'
     \<and> (\<forall>b. res = Inr b \<longrightarrow> int (batch_processed b) \<le> n \<and> batch_count O_DELIVERING b = 0)"
proof -
  obtain N res db' where r: "\<And>fuel. N \<le> fuel \<Longrightarrow> run_turns fuel envs tokens w 0 (nat n) db = Some (res, db')" "delivery_inv db'"
    "\<And>xs. res = Inr xs \<Longrightarrow> length xs \<le> nat n \<and> (\<forall>x\<in>set xs. rr_status x \<noteq> O_DELIVERING)"
    using run_turns_return [where k = 0 and left = "nat n" and envs = envs and tokens = tokens, OF assms(1,2,4,5)] by (elim exE conjE) blast
  let ?res = "map_sum id (\<lambda>xs. \<lparr>br_deliveries = xs\<rparr>) res"
  have "\<forall>fuel\<ge>N. run_until_idle fuel envs tokens w (PyInt n) db = Some (?res, db')"
    using r(1) assms(3) by (simp add: run_until_idle_def)
  moreover have "int (batch_processed b) \<le> n \<and> batch_count O_DELIVERING b = 0" if "?res = Inr b" for b
    using that r(3) assms(3) by (cases res) (auto simp: batch_processed_def batch_count_def filter_empty_conv)
  ultimately show ?thesis using r(2) by blast
qed

theorem delivery_batch_returns_witness:
  "(\<exists>N res db'. \<forall>fuel\<ge>N. run_until_idle fuel (\<lambda>_. sample_env) (\<lambda>_. ''A'') sample_delivery_worker (PyInt 5) sample_outbox = Some (res, db'))
   \<and> (case run_until_idle 4 (\<lambda>_. sample_env) (\<lambda>_. ''A'') sample_delivery_worker (PyInt 5) sample_outbox of
        Some (Inr b, db') \<Rightarrow> batch_count O_DELIVERED b = 1 \<and> batch_processed b = 1 | _ \<Rightarrow> False)"
proof
  show "\<exists>N res db'. \<forall>fuel\<ge>N. run_until_idle fuel (\<lambda>_. sample_env) (\<lambda>_. ''A'') sample_delivery_worker (PyInt 5) sample_outbox = Some (res, db')"
    using delivery_batch_returns [where tokens = "\<lambda>_. ''A''" and envs = "\<lambda>_. sample_env" and n = 5,
        OF sample_facts(2) sample_facts(1) _ sample_facts(5) sample_env_ok] by auto
  show "case run_until_idle 4 (\<lambda>_. sample_env) (\<lambda>_. ''A'') sample_delivery_worker (PyInt 5) sample_outbox of
        Some (Inr b, db') \<Rightarrow> batch_count O_DELIVERED b = 1 \<and> batch_processed b = 1 | _ \<Rightarrow> False" by code_simp
qed

text \<open>
  A part is sent only under an attempt: the worker that may send a part has an attempt of
  its own part in flight, and the part has no receipt yet, so that a part whose receipt is
  stored is never sent again.
\<close>

theorem sent_part_has_no_receipt:
  assumes "delivery_inv db" and "start_attempt id ck i token k db = (Inr a, db')"
  shows "get_receipt i k db' = None \<and> active_attempt i k db' = Some a \<and> delivery_inv db'
     \<and> (\<forall>b\<in>set (attempts_of db' i). a_status b = A_DELIVERING \<longrightarrow> b = a)"
proof -
  have s: "delivery_inv db'" "a \<in> set (attempts_of db' i)" "a_status a = A_DELIVERING" "a_part_ordinal a = k"
    "delivery_claimed i token db' = delivery_claimed i token db"
    using start_attempt_ok [OF assms] by auto
  obtain d where d: "delivery_claimed i token db = Inr d" using assms(2) by (cases "delivery_claimed i token db") (auto simp: start_attempt_def)
  with s(5) have d': "d \<in> set (deliveries db')" "o_id d = i" "o_status d = O_DELIVERING" using delivery_claimed_Inr [of i token db' d] by simp_all
  obtain r where v: "outbox_view db' d r" using outbox_view_exists [OF s(1) d'(1)] by blast
  have loc: "in_flight_ok d (attempts_of db' i)" "ledger_ok d (attempts_of db' i) (receipts_of db' i)"
    using outbox_viewD(5) [OF v] d'(2) by (simp_all add: local_ok_def)
  then have uniq: "\<forall>b\<in>set (attempts_of db' i). a_status b = A_DELIVERING \<longrightarrow> b = a" and k: "k = o_next_part_ordinal d"
    using s(2,3,4) by (auto simp: in_flight_ok_def)
  have "get_receipt i k db' = None"
  proof (rule ccontr)
    assume "get_receipt i k db' \<noteq> None"
    then obtain c where "c \<in> set (receipts_of db' i)" "c_part_ordinal c = k"
      by (auto simp: get_receipt_def receipts_of_def dest!: lookup_by_Some)
    then have "k \<in> set (map c_part_ordinal (receipts_of db' i))" by (metis imageI list.set_map)
    moreover have "map c_part_ordinal (receipts_of db' i) = map int [0..<nat (o_next_part_ordinal d)]"
      using loc(2) by (simp add: ledger_ok_def)
    ultimately have "k \<in> set (map int [0..<nat (o_next_part_ordinal d)])" by simp
    then show False using k by auto
  qed
  moreover have "active_attempt i k db' = Some a"
  proof -
    have "active_attempt i k db' \<noteq> None" using s(2,3,4) by (auto simp: active_attempt_None attempts_of_def)
    then obtain b where b: "active_attempt i k db' = Some b" by blast
    with active_attempt_Some [OF b] uniq show ?thesis by (auto simp: attempts_of_def)
  qed
  ultimately show ?thesis using s(1) uniq by blast
qed

theorem sent_part_has_no_receipt_witness:
  "\<exists>a. start_attempt id (sample_clock 11) 1 ''A'' 0 sample_claimed = (Inr a, sample_started) \<and> get_receipt 1 0 sample_started = None
     \<and> active_attempt 1 0 sample_started = Some a"
proof -
  have "\<not> isl (fst (start_attempt id (sample_clock 11) 1 ''A'' 0 sample_claimed))" by code_simp
  then obtain a where a: "start_attempt id (sample_clock 11) 1 ''A'' 0 sample_claimed = (Inr a, sample_started)"
    unfolding sample_started_def by (metis prod.collapse sum.collapse(2))
  from sent_part_has_no_receipt [OF sample_facts(3) a] a show ?thesis by blast
qed

text \<open>
  A worker that lost its claim cannot record anything: when the delivery is no longer held
  by its token at the moment of the update, a delivered part, a failure and an uncertain end
  are refused and nothing is written.
\<close>

theorem lost_claim_is_refused:
  assumes "delivery_inv db" and "polite race" and "\<not> holds_claim token i (race db)"
  shows "part_refused race (mark_part_delivered race ck i token aid k payload pid tm db) db
     \<and> part_refused race (mark_attempt_retryable race ck i token aid code avail db) db
     \<and> part_refused race (mark_attempt_failed race ck i token aid code db) db
     \<and> part_refused race (mark_attempt_uncertain race ck i token aid code db) db"
proof -
  note inv = assms(1) politeD(1) [OF assms(2,1)]
  note f = politeD(2) [OF assms(2,1), of i token]
  have no: "\<not> (in_hand (race db) d r a \<and> o_id d = i \<and> o_claim_token d = Some token)" for d r a
    using assms(3) in_handD(2) [of "race db" d r a] outbox_viewD(2) [of "race db" d r] in_handD(1) [of "race db" d r a]
    by (auto simp: holds_claim_def)
  have fin: "part_refused race (finish_attempt race ck i token aid sa sd sr code x db) db" if "finish_kind sa sd sr" for sa sd sr x
    by (rule finish_attempt_cases [where race = race and ck = ck and aid = aid and error = code and available = x,
          OF inv f that]) (use no in blast)+
  have "part_refused race (mark_part_delivered race ck i token aid k payload pid tm db) db"
    by (rule mark_part_delivered_cases [where race = race and ck = ck and aid = aid and payload = payload and pid = pid and tm = tm and k = k,
          OF inv f]) (use no in blast)+
  with fin show ?thesis
    by (simp add: mark_attempt_retryable_def mark_attempt_failed_def mark_attempt_uncertain_def finish_kind_def)
qed

theorem lost_claim_is_refused_witness:
  "\<not> holds_claim ''B'' 1 sample_started
   \<and> part_refused id (mark_part_delivered id (sample_clock 12) 1 ''B'' 1 0 accepted_payload None None sample_started) sample_started"
proof -
  have m: "\<not> holds_claim ''B'' 1 sample_started" by code_simp
  then have n: "\<not> holds_claim ''B'' 1 (id sample_started)" by simp
  from lost_claim_is_refused [OF sample_facts(4) polite_id n, of "sample_clock 12" 1 0 accepted_payload None None "''x''" "Aware 0"] m
  show ?thesis by blast
qed

section \<open>Single operations\<close>

text \<open>The reference for \<open>ORDER BY available_at, created_at, id LIMIT 1\<close>: sort, then take the head.\<close>

definition first_available :: "string \<Rightarrow> instant \<Rightarrow> gateway_db \<Rightarrow> DeliveryOutboxRecord option" where
  "first_available channel t db =
     (case sort_key delivery_order (filter (delivery_claimable channel t) (deliveries db)) of [] \<Rightarrow> None | d # _ \<Rightarrow> Some d)"

lemma first_available_least:
  assumes "first_available channel t db = Some d"
  shows "d \<in> set (deliveries db)" "delivery_claimable channel t d"
    "\<And>q. q \<in> set (deliveries db) \<Longrightarrow> delivery_claimable channel t q \<Longrightarrow> delivery_order d \<le> delivery_order q"
proof -
  let ?rows = "filter (delivery_claimable channel t) (deliveries db)"
  from assms obtain ds where s: "sort_key delivery_order ?rows = d # ds"
    by (auto simp: first_available_def split: list.splits)
  have mem: "set (d # ds) = set ?rows" using arg_cong [OF s, of set] by simp
  then show "d \<in> set (deliveries db)" "delivery_claimable channel t d" by auto
  have "sorted (map delivery_order (d # ds))" using sorted_sort_key [of delivery_order ?rows] s by simp
  then show "delivery_order d \<le> delivery_order q" if "q \<in> set (deliveries db)" "delivery_claimable channel t q" for q
    using that mem by fastforce
qed

lemma delivery_candidate_first:
  "delivery_inv db \<Longrightarrow> delivery_candidate channel t db = map_option o_id (first_available channel t db)"
proof -
  assume inv: "delivery_inv db"
  let ?rows = "filter (delivery_claimable channel t) (deliveries db)"
  show ?thesis
  proof (cases "first_available channel t db")
    case None
    then have "sort_key delivery_order ?rows = []" by (auto simp: first_available_def split: list.splits)
    then have "?rows = []" by (metis set_empty set_sort)
    then have "select_min delivery_order ?rows = None" by (simp add: select_min_None)
    with None show ?thesis by (simp add: delivery_candidate_def)
  next
    case (Some d)
    note least = first_available_least [OF Some]
    then have "?rows \<noteq> []" by (auto simp: filter_empty_conv)
    then have "delivery_candidate channel t db \<noteq> None" by (simp add: delivery_candidate_def select_min_None)
    then obtain i where i: "delivery_candidate channel t db = Some i" by blast
    from delivery_candidate_Some [OF i] obtain e where e: "e \<in> set (deliveries db)" "o_id e = i" "delivery_claimable channel t e"
      "\<And>q. q \<in> set (deliveries db) \<Longrightarrow> delivery_claimable channel t q \<Longrightarrow> delivery_order e \<le> delivery_order q" by metis
    have "delivery_order e = delivery_order d" using e(4) [OF least(1,2)] least(3) [OF e(1,3)] by simp
    then have "o_id e = o_id d" by (simp add: delivery_order_def)
    with i e(2) Some show ?thesis by simp
  qed
qed

text \<open>
  \<open>claim_next\<close> is equivalent to sorting the queued deliveries of the channel that are due by
  (available_at, created_at, id) and claiming the first: failed, uncertain and delivered ones
  are never handed out, and nothing is written when none is due.
\<close>

theorem claim_next_is_first_available:
  assumes "delivery_inv db" and "delivery_required_string channel ''channel'' 64 = Inr channel'"
    and "claim_token_ok token" and "now_or_clock ck now = Aware t"
  shows "fst (delivery_claim_next (\<lambda>_. id) ck channel token now db) =
           Inr (map_option (delivery_claim_values token t) (first_available channel' t db))
     \<and> (first_available channel' t db = None \<longrightarrow> snd (delivery_claim_next (\<lambda>_. id) ck channel token now db) = db)"
proof -
  have tk: "delivery_required_string token ''claim_token'' DELIVERY_MAX_CLAIM_TOKEN_LENGTH = Inr token" "nonblank token"
    using assms(3) by (simp_all add: claim_token_ok_def delivery_required_string_def)
  have quiet: "map (\<lambda>_. id) [0..<DELIVERY_CLAIM_ROUNDS] = quiet DELIVERY_CLAIM_ROUNDS"
    by (simp add: quiet_def map_replicate_const)
  have loop: "cas_loop (quiet DELIVERY_CLAIM_ROUNDS) (delivery_candidate channel' t) (delivery_claim_attempt channel' token t) db =
      (case delivery_candidate channel' t db of None \<Rightarrow> (None, db) | Some k \<Rightarrow> delivery_claim_attempt channel' token t k db)"
    by (rule delivery_queue.cas_loop_quiet) (use assms(1) tk in \<open>simp_all add: DELIVERY_CLAIM_ROUNDS_def\<close>)
  note run = delivery_claim_next_def assms(2) tk(1) checked_simps assms(4) aware_utc_def py_datetime.case quiet loop
    delivery_candidate_first [OF assms(1)]
  show ?thesis
  proof (cases "first_available channel' t db")
    case None
    then show ?thesis by (simp add: run)
  next
    case (Some d)
    note least = first_available_least [OF Some]
    obtain r where "delivery_claim_attempt channel' token t (o_id d) db =
        (Some (Inr (delivery_claim_values token t d)), claimed_db token t d r db)"
      using delivery_claim_attempt_hit [OF assms(1) tk(2) least(1,2)] by blast
    with Some show ?thesis by (simp add: run)
  qed
qed

theorem claim_next_is_first_available_witness:
  "fst (delivery_claim_next (\<lambda>_. id) (sample_clock 10) ''wechat'' ''A'' None sample_outbox) =
     Inr (map_option (delivery_claim_values ''A'' 10) (first_available ''wechat'' 10 sample_outbox))
   \<and> map_option o_id (first_available ''wechat'' 10 sample_outbox) = Some 1"
proof -
  have c: "delivery_required_string ''wechat'' ''channel'' 64 = Inr ''wechat''" "now_or_clock (sample_clock 10) None = Aware 10"
    "map_option o_id (first_available ''wechat'' 10 sample_outbox) = Some 1" by code_simp+
  from claim_next_is_first_available [OF sample_facts(2) c(1) sample_facts(5) c(2)] c(3) show ?thesis by blast
qed

text \<open>
  The recovery of stale claims is complete and exact: every stale delivery of the channel
  goes back to the queue when no attempt was in flight and becomes uncertain when one was,
  every other delivery keeps its row, and no stale claim is left.
\<close>

theorem stale_recovery_is_complete:
  assumes "delivery_inv db" and "delivery_required_string channel ''channel'' 64 = Inr channel'"
    and "now_or_clock ck now = Aware t" and "cutoff \<le> t"
  shows "\<exists>ds db'. recover_stale_claims id ck channel (Aware cutoff) now db = (Inr ds, db') \<and> delivery_inv db'
     \<and> (\<forall>x\<in>set (deliveries db'). \<not> stale_where channel' cutoff x)
     \<and> (\<forall>d\<in>set (deliveries db).
          (if stale_where channel' cutoff d then stale_values (active_attempt (o_id d) (o_next_part_ordinal d) db \<noteq> None) t d
           else d) \<in> set (deliveries db'))"
proof -
  obtain ds db' where r: "recover_stale_claims id ck channel (Aware cutoff) now db = (Inr ds, db')" "delivery_inv db'"
    "\<forall>x\<in>set (deliveries db'). \<not> stale_where channel' cutoff x"
    using recover_stale_claims_complete [OF assms] by blast
  with recover_stale_claims_outcome [OF assms r(1), unfolded stale_outcome_def] show ?thesis by blast
qed

theorem stale_recovery_is_complete_witness:
  "\<exists>ds db'. recover_stale_claims id (sample_clock 20) ''wechat'' (Aware 15) None sample_started = (Inr ds, db')
     \<and> (\<forall>x\<in>set (deliveries db'). \<not> stale_where ''wechat'' 15 x) \<and> map o_status ds = [O_UNCERTAIN]"
proof -
  have c: "delivery_required_string ''wechat'' ''channel'' 64 = Inr ''wechat''" "now_or_clock (sample_clock 20) None = Aware 20" by code_simp+
  obtain ds db' where r: "recover_stale_claims id (sample_clock 20) ''wechat'' (Aware 15) None sample_started = (Inr ds, db')"
    "\<forall>x\<in>set (deliveries db'). \<not> stale_where ''wechat'' 15 x"
    using stale_recovery_is_complete [OF sample_facts(4) c, of 15] by auto
  have "map_sum id (map o_status) (fst (recover_stale_claims id (sample_clock 20) ''wechat'' (Aware 15) None sample_started)) = Inr [O_UNCERTAIN]"
    by code_simp
  with r show ?thesis by auto
qed

text \<open>What the holder of a claim leaves when it ends the attempt in flight.\<close>

lemma finish_attempt_outcome:
  assumes h: "in_hand db d r a" and tok: "o_claim_token d = Some token" "claim_token_ok token" and k: "finish_kind sa sd sr"
    and e: "delivery_required_string e ''error_code'' DELIVERY_MAX_ERROR_CODE_LENGTH = Inr c" and av: "av = None \<or> av = Some (Aware u)"
  shows "\<exists>d' db'. finish_attempt id ck (o_id d) token (a_id a) sa sd sr e av db = (Inr d', db')
      \<and> delivery_inv db' \<and> delivery_get (o_id d) db' = Some d' \<and> o_status d' = sd \<and> o_next_part_ordinal d' = o_next_part_ordinal d
      \<and> receipts db' = receipts db \<and> active_attempt (o_id d) (o_next_part_ordinal d) db' = None
      \<and> (av \<noteq> None \<longrightarrow> o_available_at d' = u)"
proof -
  have g: "delivery_claimed (o_id d) token db = Inr d" "required_attempt (a_id a) (o_id d) (o_next_part_ordinal d) db = Inr a"
    using in_hand_guards [OF h tok(1)] tok(2) by (simp_all add: claim_token_ok_def)
  let ?av = "case av of None \<Rightarrow> None | Some _ \<Rightarrow> Some u"
  let ?d' = "delivery_finish_values sd c ?av (wall_now ck) d"
  let ?db' = "finished_db sa sd sr c ?av (wall_now ck) d r a db"
  have "(case av of None \<Rightarrow> Inr None | Some x \<Rightarrow> map_sum id Some (aware_utc x ''available_at'')) = Inr ?av"
    using av by (auto simp: aware_utc_def)
  from finish_attempt_held [where race = id, OF _ refl tok(1) k g e this, of r ck] h
  have run: "finish_attempt id ck (o_id d) token (a_id a) sa sd sr e av db = (Inr ?d', ?db')" by simp
  have "nonblank c" using delivery_required_string_Inr [OF e] by blast
  then have inv: "delivery_inv ?db'" by (rule finished_inv [OF h _ k])
  have get: "delivery_get (o_id d) ?db' = Some ?d'"
    unfolding finished_db_def by (rule delivery_required_get [OF moved_get [OF in_handD(1) [OF h] finish_values_ok(2)]])
  have st: "o_status ?d' = sd" "o_next_part_ordinal ?d' = o_next_part_ordinal d" by (simp_all add: delivery_finish_values_def)
  have mem: "?d' \<in> set (deliveries ?db')" "o_id ?d' = o_id d"
    using get by (auto simp: delivery_get_def dest: lookup_by_Some)
  obtain q where "local_ok ?d' q (attempts_of ?db' (o_id d)) (receipts_of ?db' (o_id d))"
    using delivery_inv_local [OF inv mem(1)] mem(2) by metis
  then have "in_flight_ok ?d' (attempts_of ?db' (o_id d))" by (simp add: local_ok_def)
  then have "active_attempt (o_id d) (o_next_part_ordinal d) ?db' = None"
    using st(1) k by (auto simp: active_attempt_None in_flight_ok_def attempts_of_def finish_kind_def)
  moreover have "receipts ?db' = receipts db" by (simp add: finished_db_def moved_db_def)
  moreover have "av \<noteq> None \<longrightarrow> o_available_at ?d' = u" using av by (auto simp: delivery_finish_values_def)
  ultimately show ?thesis using run inv get st by blast
qed

text \<open>
  C37. Every failed send ends in the state its classification demands: a retryable failure with
  attempts left goes back to the queue and is due after the backoff, a retryable one without
  and a permanent one fail, and a failure after which the provider may have sent the part is
  uncertain, so that it is never resent automatically. No part is skipped or counted as passed.
\<close>

theorem failed_send_outcome:
  assumes "in_hand db d r a" and "o_claim_token d = Some token" and "claim_token_ok token"
    and "ev_finish_race env n = id" and "ev_clock env (Suc n) = Aware t"
    and "delivery_required_string (delivery_error_code error) ''error_code'' DELIVERY_MAX_ERROR_CODE_LENGTH = Inr code"
  shows "\<exists>x db' d'. worker_record_failure env n w d token a error db = (Inr x, db') \<and> delivery_inv db'
     \<and> delivery_get (o_id d) db' = Some d' \<and> rr_status x = o_status d' \<and> o_next_part_ordinal d' = o_next_part_ordinal d
     \<and> receipts db' = receipts db \<and> active_attempt (o_id d) (o_next_part_ordinal d) db' = None
     \<and> o_status d' = (case classify_delivery_error error of
          FAILURE_RETRYABLE \<Rightarrow> if a_attempt_number a < cw_max_attempts w then O_QUEUED else O_FAILED
        | FAILURE_PERMANENT \<Rightarrow> O_FAILED
        | FAILURE_UNCERTAIN \<Rightarrow> O_UNCERTAIN)
     \<and> (o_status d' = O_QUEUED \<longrightarrow>
          o_available_at d' = t + timedelta_seconds (retry_delay_seconds w (a_attempt_number a)))"
proof -
  have ex: "delivery_required_string ATTEMPTS_EXHAUSTED ''error_code'' DELIVERY_MAX_ERROR_CODE_LENGTH = Inr ATTEMPTS_EXHAUSTED" by code_simp
  have kinds: "finish_kind A_FAILED O_QUEUED None" "finish_kind A_FAILED O_FAILED (Some R_FAILED)"
    "finish_kind A_UNCERTAIN O_UNCERTAIN (Some R_UNCERTAIN)" by (simp_all add: finish_kind_def)
  let ?due = "t + timedelta_seconds (retry_delay_seconds w (a_attempt_number a))"
  note retry = finish_attempt_outcome [OF assms(1-3) kinds(1) assms(6), of "Some (Aware ?due)" ?due "ev_ck env n"]
    and exhausted = finish_attempt_outcome [OF assms(1-3) kinds(2) ex, of None 0 "ev_ck env n"]
    and failed = finish_attempt_outcome [OF assms(1-3) kinds(2) assms(6), of None 0 "ev_ck env n"]
    and unsure = finish_attempt_outcome [OF assms(1-3) kinds(3) assms(6), of None 0 "ev_ck env n"]
  note defs = worker_record_failure_def Let_def assms(4,5) mark_attempt_retryable_def mark_attempt_failed_def
    mark_attempt_uncertain_def run_result_def
  show ?thesis
  proof (cases "classify_delivery_error error")
    case FAILURE_RETRYABLE
    show ?thesis
    proof (cases "a_attempt_number a < cw_max_attempts w")
      case True
      with retry FAILURE_RETRYABLE show ?thesis by (auto simp: defs)
    next
      case False
      with exhausted FAILURE_RETRYABLE show ?thesis by (auto simp: defs)
    qed
  next
    case FAILURE_PERMANENT
    with failed show ?thesis by (auto simp: defs)
  next
    case FAILURE_UNCERTAIN
    with unsure show ?thesis by (auto simp: defs)
  qed
qed

theorem failed_send_outcome_witness:
  "\<exists>x db' d'. worker_record_failure sample_env 0 sample_delivery_worker (hd (deliveries sample_started)) ''A'' (hd (attempts sample_started))
       (WechatTimeoutError ''send'') sample_started = (Inr x, db')
     \<and> delivery_get 1 db' = Some d' \<and> o_status d' = O_UNCERTAIN"
proof -
  let ?d = "hd (deliveries sample_started)" and ?a = "hd (attempts sample_started)"
  have d: "?d \<in> set (deliveries sample_started)" "o_claim_token ?d = Some ''A''" "o_status ?d = O_DELIVERING" "o_id ?d = 1"
    "?a \<in> set (attempts_of sample_started 1)" "a_status ?a = A_DELIVERING"
    "delivery_required_string (delivery_error_code (WechatTimeoutError ''send'')) ''error_code'' DELIVERY_MAX_ERROR_CODE_LENGTH
      = Inr ''wechat_timeout_error''"
    by code_simp+
  obtain r where "outbox_view sample_started ?d r" using outbox_view_exists [OF sample_facts(4) d(1)] by blast
  with d have h: "in_hand sample_started ?d r ?a" by (simp add: in_hand_def)
  from failed_send_outcome [OF h d(2) sample_facts(5) _ _ d(7), of sample_env 0 "1000000001" sample_delivery_worker] d(4) show ?thesis
    by (auto simp: sample_env_def)
qed

text \<open>
  The backoff of a constructed worker is never negative and never above the configured
  maximum, starts at the configured base and never shrinks from one attempt to the next.
\<close>

theorem retry_backoff_bounds:
  assumes "make_delivery_worker channel ma rb rm ct = Inr w"
  shows "cw_retry_base_seconds w \<le> retry_delay_seconds w n \<and> retry_delay_seconds w n \<le> cw_retry_max_seconds w
     \<and> 0 \<le> timedelta_seconds (retry_delay_seconds w n) \<and> retry_delay_seconds w 1 = cw_retry_base_seconds w
     \<and> retry_delay_seconds w n \<le> retry_delay_seconds w (n + 1)"
proof -
  note W = make_delivery_worker_Inr [OF assms]
  let ?b = "cw_retry_base_seconds w" and ?p = "\<lambda>n. (2::rat) ^ nat (max 0 (n - 1))"
  have up: "?b * 1 \<le> ?b * ?p n" for n using W(3) by (intro mult_left_mono) simp_all
  have step: "?b * ?p n \<le> ?b * ?p (n + 1)" using W(3) by (intro mult_left_mono power_increasing) auto
  have lo: "?b \<le> retry_delay_seconds w n" using up [of n] W(4) by (simp add: retry_delay_seconds_def)
  then have "0 \<le> retry_delay_seconds w n" using W(3) by simp
  moreover have "retry_delay_seconds w n \<le> retry_delay_seconds w (n + 1)"
    unfolding retry_delay_seconds_def by (rule min.mono [OF order_refl step])
  ultimately show ?thesis using lo W(4) timedelta_seconds_nonneg by (simp add: retry_delay_seconds_def)
qed

theorem retry_backoff_bounds_witness:
  "retry_delay_seconds sample_delivery_worker 3 \<le> cw_retry_max_seconds sample_delivery_worker
   \<and> map (retry_delay_seconds sample_delivery_worker) [1, 2, 3, 9] = [1, 2, 4, 60]"
proof
  show "retry_delay_seconds sample_delivery_worker 3 \<le> cw_retry_max_seconds sample_delivery_worker"
    using retry_backoff_bounds [OF sample_facts(1), of 3] by blast
  show "map (retry_delay_seconds sample_delivery_worker) [1, 2, 3, 9] = [1, 2, 4, 60]"
    by (simp add: retry_delay_seconds_def sample_delivery_worker_def)
qed

section \<open>A race between a stale recovery and the holder of the claim\<close>




end
