(* ===== verification/Keyed_Insert.thy ===== *)
theory Keyed_Insert
  imports Gateway_Schema
begin

text \<open>
  The pattern most stores use for rows with a natural key: look the key up, insert when it is
  missing, and look it up again when the insert breaks a unique constraint because another
  session was faster. \<open>get_or_insert\<close> is the pattern, \<open>race\<close> what other sessions commit between
  the lookup and the insert; the locale states what a table has to promise for it.
\<close>

definition get_or_insert ::
  "(gateway_db \<Rightarrow> 'r option) \<Rightarrow> ('r \<Rightarrow> gateway_db \<Rightarrow> gateway_db option) \<Rightarrow> 'r \<Rightarrow> (gateway_db \<Rightarrow> gateway_db) \<Rightarrow> gateway_db
     \<Rightarrow> ('r \<times> bool) outcome"
where
  "get_or_insert seek ins row race db =
     (case seek db of
        Some r \<Rightarrow> (Inr (r, False), db)
      | None \<Rightarrow>
        (let db1 = race db in
         case ins row db1 of
           Some db2 \<Rightarrow> (Inr (row, True), db2)
         | None \<Rightarrow>
             (case seek db1 of
                Some r \<Rightarrow> (Inr (r, False), db1)
              | None \<Rightarrow> (Inl IntegrityError, db1))))"

locale keyed_table =
  fixes seek :: "gateway_db \<Rightarrow> 'r option"
    and ins :: "'r \<Rightarrow> gateway_db \<Rightarrow> gateway_db option"
    and row :: 'r
  assumes find_inserted: "seek u = None \<Longrightarrow> ins row u = Some v \<Longrightarrow> seek v = Some row"
    and found_refused: "seek u = Some r \<Longrightarrow> ins row u = None"
begin

text \<open>Whatever the other sessions do, the answer is the row the key has afterwards.\<close>

lemma answer_is_stored:
  assumes "get_or_insert seek ins row race db = (Inr (r, created), db')"
  shows "seek db' = Some r"
proof (cases "seek db")
  case (Some q)
  with assms show ?thesis by (simp add: get_or_insert_def)
next
  case None
  show ?thesis
  proof (cases "ins row (race db)")
    case (Some v)
    then have "seek (race db) = None" using found_refused by (cases "seek (race db)") auto
    from find_inserted [OF this Some] assms None Some show ?thesis by (simp add: get_or_insert_def)
  next
    case none: None
    with assms None show ?thesis by (auto simp: get_or_insert_def Let_def split: option.splits)
  qed
qed

lemma answer_again:
  assumes "get_or_insert seek ins row race db = (Inr (r, created), db')"
  shows "get_or_insert seek ins row' race' db' = (Inr (r, False), db')"
  using answer_is_stored [OF assms] by (simp add: get_or_insert_def)

lemma existing_wins: "seek db = Some r \<Longrightarrow> get_or_insert seek ins row race db = (Inr (r, False), db)"
  by (simp add: get_or_insert_def)

lemma created_is_row:
  "get_or_insert seek ins row race db = (Inr (r, True), db') \<Longrightarrow> r = row \<and> seek db = None"
  by (auto simp: get_or_insert_def Let_def split: option.splits)

end

section \<open>Fields of the schemas\<close>

text \<open>A string field of a pydantic schema that strips white space, with its length bounds.\<close>

definition schema_string :: "nat \<Rightarrow> string \<Rightarrow> gateway_error + string" where
  "schema_string max_length value =
     (let s = py_strip value in
      if s = [] \<or> length s > max_length then Inl SchemaValidationError else Inr s)"

definition schema_optional :: "nat \<Rightarrow> string option \<Rightarrow> gateway_error + string option" where
  "schema_optional max_length value =
     (case value of None \<Rightarrow> Inr None | Some v \<Rightarrow> map_sum id Some (schema_string max_length v))"

lemma schema_string_Inr: "schema_string n v = Inr s \<longleftrightarrow> s = py_strip v \<and> s \<noteq> [] \<and> length s \<le> n"
  by (auto simp: schema_string_def Let_def)

lemma find_append: "find p (xs @ ys) = (case find p xs of Some x \<Rightarrow> Some x | None \<Rightarrow> find p ys)"
  by (induction xs) auto

text \<open>A table whose key is unique: an appended row with a new key is the one the key finds.\<close>

lemma lookup_by_snoc:
  "lookup_by key k rows = None \<Longrightarrow> key row = k \<Longrightarrow> lookup_by key k (rows @ [row]) = Some row"
  by (simp add: lookup_by_def find_append)

lemma lookup_by_taken:
  "lookup_by key k rows = Some r \<Longrightarrow> key row = k \<Longrightarrow> \<not> distinct (map key (rows @ [row]))"
  using lookup_by_Some [of key k rows r] by (auto intro: rev_image_eqI)

end
