(* ===== verification/Admission_Store.thy ===== *)
theory Admission_Store
  imports Keyed_Insert
begin

text \<open>
  The admission outcomes (\<open>admission/enums.py\<close>, \<open>admission/models.py\<close>, \<open>admission/store.py\<close>):
  one row per message, claimed with a token and a lease while it is evaluated and completed
  exactly once. What other sessions commit between the statements of an operation is an
  argument (\<open>race_insert\<close>, \<open>race_update\<close>, \<open>race_read\<close>), and so are the tokens drawn from \<open>uuid4\<close>.
\<close>

section \<open>Values\<close>

definition DEFAULT_ADMISSION_LEASE_SECONDS :: rat where "DEFAULT_ADMISSION_LEASE_SECONDS = 60"

definition EVALUATION_ERROR_CODE :: string where "EVALUATION_ERROR_CODE = ''admission_evaluation_failed''"

fun admission_reason_value :: "AdmissionReason \<Rightarrow> string" where
  "admission_reason_value ADMISSION_ALLOWED = ''allowed''"
| "admission_reason_value SELF_MESSAGE = ''self_message''"
| "admission_reason_value SYSTEM_MESSAGE = ''system_message''"
| "admission_reason_value SENDER_UNRESOLVED = ''sender_unresolved''"
| "admission_reason_value ACCESS_DENIED = ''access_denied''"
| "admission_reason_value ROUTE_UNAVAILABLE = ''route_unavailable''"
| "admission_reason_value LEGACY_UNRESOLVED = ''legacy_unresolved''"

definition admission_reasons :: "AdmissionReason list" where
  "admission_reasons =
     [ADMISSION_ALLOWED, SELF_MESSAGE, SYSTEM_MESSAGE, SENDER_UNRESOLVED, ACCESS_DENIED, ROUTE_UNAVAILABLE, LEGACY_UNRESOLVED]"

definition admission_reason_of_value :: "string \<Rightarrow> AdmissionReason option" where
  "admission_reason_of_value s = find (\<lambda>r. admission_reason_value r = s) admission_reasons"

lemma admission_reason_of_value_value [simp]: "admission_reason_of_value (admission_reason_value r) = Some r"
  by (cases r) (simp_all add: admission_reason_of_value_def admission_reasons_def)

lemma admission_reason_value_inject [simp]: "admission_reason_value r = admission_reason_value r' \<longleftrightarrow> r = r'"
  by (metis admission_reason_of_value_value option.inject)

record AdmissionClaim =
  cl_outcome :: MessageAdmissionOutcome
  cl_claim_token :: "string option"
  cl_created :: bool

definition should_evaluate :: "AdmissionClaim \<Rightarrow> bool" where
  "should_evaluate claim = (cl_claim_token claim \<noteq> None)"

section \<open>The table\<close>

text \<open>
  The check constraints of a row, one conjunct per constraint. A comparison with \<open>NULL\<close> that
  would leave a constraint undetermined meets a row that \<open>ck_message_admission_state_fields\<close>
  rejects.
\<close>

definition admission_row_ok :: "MessageAdmissionOutcome \<Rightarrow> bool" where
  "admission_row_ok m \<longleftrightarrow>
     (case m_evidence_origin m of
        ORIGIN_RUNTIME \<Rightarrow> m_state m = ADMISSION_PENDING
          \<or> m_decision m \<in> {Some ADMISSION_DECISION_ALLOWED, Some ADMISSION_DECISION_DENIED}
      | ORIGIN_LEGACY_DISPATCH \<Rightarrow> m_state m = ADMISSION_COMPLETED \<and> m_decision m = Some ADMISSION_DECISION_ALLOWED
      | ORIGIN_LEGACY_UNRESOLVED \<Rightarrow> m_state m = ADMISSION_COMPLETED \<and> m_decision m = Some ADMISSION_DECISION_UNRESOLVED)
     \<and> m_routing_mode m \<in> {''none'', ''v1'', ''v2'', ''legacy''}
     \<and> m_attempt_count m \<ge> 0
     \<and> (m_claim_token m = None \<longleftrightarrow> m_lease_expires_at m = None)
     \<and> (case m_state m of
          ADMISSION_PENDING \<Rightarrow> m_decision m = None \<and> m_admission_reason m = None \<and> m_completed_at m = None
            \<and> \<not> m_should_create_task m \<and> m_evidence_origin m = ORIGIN_RUNTIME
        | ADMISSION_COMPLETED \<Rightarrow> m_decision m \<noteq> None \<and> m_admission_reason m \<noteq> None \<and> m_completed_at m \<noteq> None
            \<and> m_claim_token m = None \<and> m_lease_expires_at m = None)
     \<and> (m_evidence_origin m = ORIGIN_RUNTIME \<longrightarrow>
          m_requested_scope m \<noteq> None \<and> m_requested_skill_ids m \<noteq> None \<and> m_risk_level m \<noteq> None)
     \<and> (case m_decision m of
          Some ADMISSION_DECISION_ALLOWED \<Rightarrow> m_should_create_task m \<and> m_enterprise_identity_id m \<noteq> None
            \<and> m_workspace_id m \<noteq> None \<and> m_ai_thread_id m \<noteq> None
        | Some _ \<Rightarrow> \<not> m_should_create_task m \<and> m_workspace_id m = None \<and> m_ai_thread_id m = None
        | None \<Rightarrow> True)
     \<and> (case m_decision m of
          Some ADMISSION_DECISION_ALLOWED \<Rightarrow> m_admission_reason m = Some ''allowed''
        | Some ADMISSION_DECISION_UNRESOLVED \<Rightarrow> m_admission_reason m = Some ''legacy_unresolved''
        | Some ADMISSION_DECISION_DENIED \<Rightarrow> m_admission_reason m \<notin> {Some ''allowed'', Some ''legacy_unresolved''}
        | None \<Rightarrow> True)
     \<and> (case m_last_error_code m of None \<Rightarrow> True | Some e \<Rightarrow> sql_nonempty e)"

definition admission_table_ok :: "MessageAdmissionOutcome list \<Rightarrow> bool" where
  "admission_table_ok rows \<longleftrightarrow> distinct (map m_id rows) \<and> distinct (map m_message_id rows) \<and> list_all admission_row_ok rows"

definition fk_ok :: "('r \<Rightarrow> 'k) \<Rightarrow> 'r list \<Rightarrow> 'k option \<Rightarrow> bool" where
  "fk_ok key rows value = (case value of None \<Rightarrow> True | Some k \<Rightarrow> k \<in> key ` set rows)"

definition admission_foreign_keys_ok :: "gateway_db \<Rightarrow> MessageAdmissionOutcome \<Rightarrow> bool" where
  "admission_foreign_keys_ok db m \<longleftrightarrow>
     m_message_id m \<in> g_id ` set (messages db)
     \<and> fk_ok gap_id (gateway_policies db) (m_gateway_policy_id m)
     \<and> fk_ok up_id (user_policies db) (m_user_policy_id m)
     \<and> fk_ok e_id (identities db) (m_enterprise_identity_id m)
     \<and> fk_ok w_id (workspaces db) (m_workspace_id m)
     \<and> fk_ok t_id (ai_threads db) (m_ai_thread_id m)
     \<and> fk_ok v_id (conversations db) (m_route_conversation_record_id m)
     \<and> fk_ok ap_id (agent_profiles db) (m_agent_profile_id m)
     \<and> fk_ok gt_id (group_types db) (m_group_type_id m)"

definition admission_references ::
  "MessageAdmissionOutcome \<Rightarrow> int \<times> string option \<times> string option \<times> string option \<times> string option \<times> string option \<times> int option
     \<times> string option \<times> string option"
where
  "admission_references m =
     (m_message_id m, m_gateway_policy_id m, m_user_policy_id m, m_enterprise_identity_id m, m_workspace_id m,
      m_ai_thread_id m, m_route_conversation_record_id m, m_agent_profile_id m, m_group_type_id m)"

text \<open>
  An insert and an update of the table, refused when a row would break a constraint; an update
  that leaves the references alone does not check them again.
\<close>

definition insert_admission :: "MessageAdmissionOutcome \<Rightarrow> gateway_db \<Rightarrow> gateway_db option" where
  "insert_admission m db =
     (if admission_table_ok (admissions db @ [m]) \<and> admission_foreign_keys_ok db m
      then Some (db\<lparr>admissions := admissions db @ [m], admission_seq := admission_seq db + 1\<rparr>) else None)"

definition update_admissions ::
  "(MessageAdmissionOutcome \<Rightarrow> bool) \<Rightarrow> (MessageAdmissionOutcome \<Rightarrow> MessageAdmissionOutcome) \<Rightarrow> gateway_db \<Rightarrow> nat outcome" where
  "update_admissions q f db =
     (let rows = update_where q f (admissions db) in
      if list_all (\<lambda>m. q m \<longrightarrow> admission_row_ok (f m)
           \<and> (admission_references (f m) = admission_references m \<or> admission_foreign_keys_ok db (f m))) (admissions db)
      then (Inr (rowcount q (admissions db)), db\<lparr>admissions := rows\<rparr>)
      else (Inl IntegrityError, db))"

definition admission_get_by_message_id :: "int \<Rightarrow> gateway_db \<Rightarrow> MessageAdmissionOutcome option" where
  "admission_get_by_message_id message_id db = lookup_by m_message_id message_id (admissions db)"

section \<open>Claiming\<close>

definition claimable_admission :: "int \<Rightarrow> instant \<Rightarrow> MessageAdmissionOutcome \<Rightarrow> bool" where
  "claimable_admission message_id now m =
     (m_message_id m = message_id \<and> m_state m = ADMISSION_PENDING
      \<and> (m_claim_token m = None \<or> sql_le (m_lease_expires_at m) now))"

definition claim_admission_values :: "clocks \<Rightarrow> string \<Rightarrow> rat \<Rightarrow> instant \<Rightarrow> MessageAdmissionOutcome \<Rightarrow> MessageAdmissionOutcome" where
  "claim_admission_values ck token lease now m =
     m\<lparr>m_claim_token := Some token, m_lease_expires_at := Some (now + timedelta_seconds lease),
       m_attempt_count := m_attempt_count m + 1, m_last_error_code := None, m_updated_at := db_now ck\<rparr>"

definition claim_existing ::
  "(gateway_db \<Rightarrow> gateway_db) \<Rightarrow> (gateway_db \<Rightarrow> gateway_db) \<Rightarrow> clocks \<Rightarrow> string \<Rightarrow> MessageAdmissionOutcome \<Rightarrow> rat \<Rightarrow> instant
     \<Rightarrow> gateway_db \<Rightarrow> AdmissionClaim outcome"
where
  "claim_existing race_update race_read ck token outcome lease now db =
     (if m_state outcome = ADMISSION_COMPLETED
      then (Inr \<lparr>cl_outcome = outcome, cl_claim_token = None, cl_created = False\<rparr>, db)
      else
        (case update_admissions (claimable_admission (m_message_id outcome) now) (claim_admission_values ck token lease now)
                (race_update db) of
           (Inl e, db1) \<Rightarrow> (Inl e, db1)
         | (Inr n, db1) \<Rightarrow>
             if n \<noteq> 1
             then (let db2 = race_read (race_update db) in
                   case admission_get_by_message_id (m_message_id outcome) db2 of
                     Some current \<Rightarrow>
                       if m_state current = ADMISSION_COMPLETED
                       then (Inr \<lparr>cl_outcome = current, cl_claim_token = None, cl_created = False\<rparr>, db2)
                       else (Inl (AdmissionPendingError (m_message_id outcome)), db2)
                   | None \<Rightarrow> (Inl (AdmissionPendingError (m_message_id outcome)), db2))
             else (let db2 = race_read db1 in
                   case admission_get_by_message_id (m_message_id outcome) db2 of
                     Some claimed \<Rightarrow> (Inr \<lparr>cl_outcome = claimed, cl_claim_token = Some token, cl_created = False\<rparr>, db2)
                   | None \<Rightarrow> (Inl (AdmissionStateConflictError (m_message_id outcome)), db2))))"

definition claim_pending ::
  "(gateway_db \<Rightarrow> gateway_db) \<Rightarrow> (gateway_db \<Rightarrow> gateway_db) \<Rightarrow> clocks \<Rightarrow> string \<Rightarrow> MessageAdmissionOutcome \<Rightarrow> py_num
     \<Rightarrow> py_datetime option \<Rightarrow> gateway_db \<Rightarrow> AdmissionClaim outcome"
where
  "claim_pending race_update race_read ck token outcome lease_seconds now db =
     (if m_state outcome = ADMISSION_COMPLETED
      then (Inr \<lparr>cl_outcome = outcome, cl_claim_token = None, cl_created = False\<rparr>, db)
      else
        checked (validated_lease_seconds lease_seconds) db (\<lambda>lease.
        checked (validated_now ck now) db (\<lambda>t.
          claim_existing race_update race_read ck token outcome lease t db)))"

text \<open>The row a new claim inserts.\<close>

definition new_admission :: "clocks \<Rightarrow> int \<Rightarrow> int \<Rightarrow> AdmissionOutcomeState \<Rightarrow> AdmissionEvidenceOrigin \<Rightarrow> string \<Rightarrow> MessageAdmissionOutcome" where
  "new_admission ck i message_id state origin routing_mode =
     \<lparr>m_id = i, m_message_id = message_id, m_state = state, m_decision = None, m_evidence_origin = origin,
      m_admission_reason = None, m_should_create_task = False, m_requested_scope = None, m_requested_skill_ids = None,
      m_risk_level = None, m_authorization_reason_code = None, m_authorization_snapshot = None, m_policy_snapshot = None,
      m_gateway_policy_id = None, m_gateway_policy_updated_at = None, m_user_policy_id = None,
      m_user_policy_updated_at = None, m_enterprise_identity_id = None, m_workspace_id = None, m_ai_thread_id = None,
      m_routing_mode = routing_mode, m_route_conversation_record_id = None, m_agent_profile_id = None,
      m_agent_profile_key = None, m_agent_profile_reference = None, m_agent_profile_revision = None,
      m_group_type_id = None, m_group_type_key = None, m_thread_policy = None, m_attempt_count = 0, m_claim_token = None,
      m_lease_expires_at = None, m_last_error_code = None, m_completed_at = None, m_created_at = db_now ck,
      m_updated_at = db_now ck\<rparr>"

definition pending_row :: "clocks \<Rightarrow> string \<Rightarrow> int \<Rightarrow> int \<Rightarrow> RequestFacts \<Rightarrow> rat \<Rightarrow> instant \<Rightarrow> MessageAdmissionOutcome" where
  "pending_row ck token i message_id request lease claimed_at =
     (new_admission ck i message_id ADMISSION_PENDING ORIGIN_RUNTIME ''none'')
       \<lparr>m_requested_scope := Some (requested_scope request), m_requested_skill_ids := Some (requested_skill_ids request),
        m_risk_level := Some (risk_value (rf_risk_level request)), m_attempt_count := 1, m_claim_token := Some token,
        m_lease_expires_at := Some (claimed_at + timedelta_seconds lease)\<rparr>"

definition create_pending ::
  "(gateway_db \<Rightarrow> gateway_db) \<Rightarrow> (gateway_db \<Rightarrow> gateway_db) \<Rightarrow> (gateway_db \<Rightarrow> gateway_db) \<Rightarrow> clocks \<Rightarrow> string \<Rightarrow> string
     \<Rightarrow> int \<Rightarrow> RequestFacts \<Rightarrow> py_num \<Rightarrow> py_datetime option \<Rightarrow> gateway_db \<Rightarrow> AdmissionClaim outcome"
where
  "create_pending race_insert race_update race_read ck token token' message_id request lease_seconds now db =
     checked (validated_now ck now) db (\<lambda>claimed_at.
     checked (validated_lease_seconds lease_seconds) db (\<lambda>lease.
       (let db1 = race_insert db;
            row = pending_row ck token (admission_seq db1) message_id request lease claimed_at in
        case insert_admission row db1 of
          Some db2 \<Rightarrow> (Inr \<lparr>cl_outcome = row, cl_claim_token = Some token, cl_created = True\<rparr>, db2)
        | None \<Rightarrow>
            (case admission_get_by_message_id message_id db1 of
               None \<Rightarrow> (Inl IntegrityError, db1)
             | Some existing \<Rightarrow> claim_existing race_update race_read ck token' existing lease claimed_at db1))))"

definition request_facts :: "MessageAdmissionOutcome \<Rightarrow> gateway_error + RequestFacts" where
  "request_facts outcome =
     (if m_evidence_origin outcome \<noteq> ORIGIN_RUNTIME then Inl (AdmissionInvariantError ''pending admission has no authoritative request snapshot'')
      else
        (case (m_requested_scope outcome, m_requested_skill_ids outcome, m_risk_level outcome) of
           (Some scope, Some skills, Some risk) \<Rightarrow>
             (case risk_of_value risk of
                None \<Rightarrow> Inl (ValueError ''not a valid RiskLevel'')
              | Some r \<Rightarrow> Inr \<lparr>requested_scope = scope, requested_skill_ids = skills, rf_risk_level = r\<rparr>)
         | _ \<Rightarrow> Inl (AdmissionInvariantError ''pending admission has no authoritative request snapshot'')))"

section \<open>Outcomes of messages that were dispatched before outcomes existed\<close>

definition compatible_legacy_dispatch_outcome ::
  "MessageAdmissionOutcome \<Rightarrow> HermesDispatchRecord \<Rightarrow> gateway_error + MessageAdmissionOutcome" where
  "compatible_legacy_dispatch_outcome outcome r =
     (if m_message_id outcome = d_message_id r \<and> m_state outcome = ADMISSION_COMPLETED
         \<and> m_decision outcome = Some ADMISSION_DECISION_ALLOWED
         \<and> m_admission_reason outcome = Some (admission_reason_value ADMISSION_ALLOWED)
         \<and> m_should_create_task outcome
         \<and> m_enterprise_identity_id outcome = Some (d_enterprise_identity_id r)
         \<and> m_workspace_id outcome = Some (d_workspace_id r)
         \<and> m_ai_thread_id outcome = Some (d_ai_thread_id r)
      then Inr outcome
      else Inl (AdmissionInvariantError ''persisted admission outcome conflicts with an existing dispatch record''))"

definition legacy_row :: "clocks \<Rightarrow> int \<Rightarrow> HermesDispatchRecord \<Rightarrow> MessageAdmissionOutcome" where
  "legacy_row ck i r =
     (new_admission ck i (d_message_id r) ADMISSION_COMPLETED ORIGIN_LEGACY_DISPATCH ''legacy'')
       \<lparr>m_decision := Some ADMISSION_DECISION_ALLOWED, m_admission_reason := Some (admission_reason_value ADMISSION_ALLOWED),
        m_should_create_task := True, m_enterprise_identity_id := Some (d_enterprise_identity_id r),
        m_workspace_id := Some (d_workspace_id r), m_ai_thread_id := Some (d_ai_thread_id r),
        m_completed_at := Some (db_now ck)\<rparr>"

definition create_legacy_dispatch_outcome ::
  "(gateway_db \<Rightarrow> gateway_db) \<Rightarrow> clocks \<Rightarrow> HermesDispatchRecord \<Rightarrow> gateway_db \<Rightarrow> (MessageAdmissionOutcome \<times> bool) outcome" where
  "create_legacy_dispatch_outcome race_insert ck r db =
     (let db1 = race_insert db; row = legacy_row ck (admission_seq db1) r in
      case insert_admission row db1 of
        Some db2 \<Rightarrow> (map_sum id (\<lambda>m. (m, True)) (compatible_legacy_dispatch_outcome row r), db2)
      | None \<Rightarrow>
          (case admission_get_by_message_id (d_message_id r) db1 of
             None \<Rightarrow> (Inl IntegrityError, db1)
           | Some existing \<Rightarrow> (map_sum id (\<lambda>m. (m, False)) (compatible_legacy_dispatch_outcome existing r), db1)))"

definition held_admission :: "int \<Rightarrow> string \<Rightarrow> MessageAdmissionOutcome \<Rightarrow> bool" where
  "held_admission message_id token m =
     (m_message_id m = message_id \<and> m_state m = ADMISSION_PENDING \<and> m_claim_token m = Some token)"

definition legacy_values :: "clocks \<Rightarrow> HermesDispatchRecord \<Rightarrow> MessageAdmissionOutcome \<Rightarrow> MessageAdmissionOutcome" where
  "legacy_values ck r m =
     m\<lparr>m_state := ADMISSION_COMPLETED, m_decision := Some ADMISSION_DECISION_ALLOWED,
       m_evidence_origin := ORIGIN_LEGACY_DISPATCH, m_admission_reason := Some (admission_reason_value ADMISSION_ALLOWED),
       m_should_create_task := True, m_authorization_reason_code := None, m_authorization_snapshot := None,
       m_policy_snapshot := None, m_requested_scope := None, m_requested_skill_ids := None, m_risk_level := None,
       m_gateway_policy_id := None, m_gateway_policy_updated_at := None, m_user_policy_id := None,
       m_user_policy_updated_at := None, m_enterprise_identity_id := Some (d_enterprise_identity_id r),
       m_workspace_id := Some (d_workspace_id r), m_ai_thread_id := Some (d_ai_thread_id r),
       m_routing_mode := ''legacy'', m_route_conversation_record_id := None, m_agent_profile_id := None,
       m_agent_profile_key := None, m_agent_profile_reference := None, m_agent_profile_revision := None,
       m_group_type_id := None, m_group_type_key := None, m_thread_policy := None, m_claim_token := None,
       m_lease_expires_at := None, m_last_error_code := None, m_completed_at := Some (db_now ck),
       m_updated_at := db_now ck\<rparr>"

definition complete_claim_from_legacy_dispatch ::
  "(gateway_db \<Rightarrow> gateway_db) \<Rightarrow> (gateway_db \<Rightarrow> gateway_db) \<Rightarrow> clocks \<Rightarrow> string \<Rightarrow> HermesDispatchRecord \<Rightarrow> gateway_db
     \<Rightarrow> MessageAdmissionOutcome outcome"
where
  "complete_claim_from_legacy_dispatch race_update race_read ck token r db =
     (case update_admissions (held_admission (d_message_id r) token) (legacy_values ck r) (race_update db) of
        (Inl e, db1) \<Rightarrow> (Inl e, db1)
      | (Inr n, db1) \<Rightarrow>
          (let db2 = race_read (if n \<noteq> 1 then race_update db else db1) in
           case admission_get_by_message_id (d_message_id r) db2 of
             None \<Rightarrow> (Inl (AdmissionStateConflictError (d_message_id r)), db2)
           | Some m \<Rightarrow> (compatible_legacy_dispatch_outcome m r, db2)))"

section \<open>Releasing and completing a claim\<close>

definition admission_error_code :: "string \<Rightarrow> gateway_error + string" where
  "admission_error_code value =
     (if \<not> nonblank value \<or> length value > 128
      then Inl (ValueError ''error_code must be a non-empty string up to 128 characters'') else Inr value)"

definition release_claim ::
  "(gateway_db \<Rightarrow> gateway_db) \<Rightarrow> clocks \<Rightarrow> int \<Rightarrow> string \<Rightarrow> string \<Rightarrow> gateway_db \<Rightarrow> unit outcome" where
  "release_claim race_update ck message_id token error_code db =
     checked (admission_error_code error_code) db (\<lambda>code.
       (case update_admissions (held_admission message_id token)
               (\<lambda>m. m\<lparr>m_claim_token := None, m_lease_expires_at := None, m_last_error_code := Some code,
                      m_updated_at := db_now ck\<rparr>) (race_update db) of
          (Inl e, db1) \<Rightarrow> (Inl e, db1)
        | (Inr _, db1) \<Rightarrow> (Inr (), db1)))"

definition completed_decision :: "AdmissionOutcome \<Rightarrow> gateway_error + AdmissionDecision" where
  "completed_decision a =
     (if ao_admitted a
      then
        if ao_reason a \<noteq> ADMISSION_ALLOWED \<or> \<not> ao_should_create_task a
        then Inl (AdmissionInvariantError ''allowed admission has inconsistent state'')
        else if \<not> (truthy (ao_enterprise_identity_id a) \<and> truthy (ao_workspace_id a) \<and> truthy (ao_ai_thread_id a))
        then Inl (AdmissionInvariantError ''allowed admission has no durable dispatch target'')
        else Inr ADMISSION_DECISION_ALLOWED
      else if ao_should_create_task a \<or> ao_reason a = ADMISSION_ALLOWED
      then Inl (AdmissionInvariantError ''denied admission has inconsistent state'')
      else Inr ADMISSION_DECISION_DENIED)"

definition stored_identity :: "AdmissionOutcome \<Rightarrow> string option" where
  "stored_identity a =
     (case ao_enterprise_identity_id a of
        Some e \<Rightarrow> Some e
      | None \<Rightarrow> Option.bind (ao_authorization a) ad_enterprise_identity_id)"

definition admission_values :: "clocks \<Rightarrow> AdmissionDecision \<Rightarrow> AdmissionOutcome \<Rightarrow> MessageAdmissionOutcome \<Rightarrow> MessageAdmissionOutcome" where
  "admission_values ck decision a m =
     m\<lparr>m_state := ADMISSION_COMPLETED, m_decision := Some decision,
       m_admission_reason := Some (admission_reason_value (ao_reason a)), m_should_create_task := ao_should_create_task a,
       m_authorization_reason_code := map_option (\<lambda>d. reason_value (ad_reason_code d)) (ao_authorization a),
       m_authorization_snapshot := map_option authorization_to_dict (ao_authorization a),
       m_policy_snapshot := ao_policy_snapshot a, m_gateway_policy_id := ao_gateway_policy_id a,
       m_gateway_policy_updated_at := ao_gateway_policy_updated_at a, m_user_policy_id := ao_user_policy_id a,
       m_user_policy_updated_at := ao_user_policy_updated_at a, m_enterprise_identity_id := stored_identity a,
       m_workspace_id := ao_workspace_id a, m_ai_thread_id := ao_ai_thread_id a, m_routing_mode := ao_routing_mode a,
       m_route_conversation_record_id := ao_route_conversation_record_id a, m_agent_profile_id := ao_agent_profile_id a,
       m_agent_profile_key := ao_agent_profile_key a, m_agent_profile_reference := ao_agent_profile_reference a,
       m_agent_profile_revision := ao_agent_profile_revision a, m_group_type_id := ao_group_type_id a,
       m_group_type_key := ao_group_type_key a, m_thread_policy := ao_thread_policy a, m_claim_token := None,
       m_lease_expires_at := None, m_last_error_code := None, m_completed_at := Some (db_now ck),
       m_updated_at := db_now ck\<rparr>"

text \<open>The caller commits: the resulting database is the one with the update pending.\<close>

definition stage_completion ::
  "clocks \<Rightarrow> string \<Rightarrow> AdmissionOutcome \<Rightarrow> gateway_db \<Rightarrow> unit outcome" where
  "stage_completion ck token a db =
     checked (completed_decision a) db (\<lambda>decision.
       (case update_admissions (held_admission (ao_message_id a) token) (admission_values ck decision a) db of
          (Inl e, db1) \<Rightarrow> (Inl e, db1)
        | (Inr n, db1) \<Rightarrow> if n \<noteq> 1 then (Inl (AdmissionStateConflictError (ao_message_id a)), db1) else (Inr (), db1)))"

definition complete_denied ::
  "(gateway_db \<Rightarrow> gateway_db) \<Rightarrow> (gateway_db \<Rightarrow> gateway_db) \<Rightarrow> clocks \<Rightarrow> string \<Rightarrow> AdmissionOutcome \<Rightarrow> gateway_db
     \<Rightarrow> MessageAdmissionOutcome outcome"
where
  "complete_denied race_update race_read ck token a db =
     (if ao_admitted a \<or> ao_should_create_task a
      then (Inl (AdmissionInvariantError ''denied admission requested dispatch''), db)
      else
        (case stage_completion ck token a (race_update db) of
           (Inl e, _) \<Rightarrow> (Inl e, race_update db)
         | (Inr _, db1) \<Rightarrow>
             (let db2 = race_read db1 in
              case admission_get_by_message_id (ao_message_id a) db2 of
                None \<Rightarrow> (Inl (AdmissionStateConflictError (ao_message_id a)), db2)
              | Some m \<Rightarrow> (Inr m, db2))))"

section \<open>Reading an outcome back\<close>

text \<open>
  \<open>bool(x)\<close>, \<open>str(x)\<close> and iteration on a value of the snapshot; the text of a list or an object
  (\<open>repr\<close>) is a parameter.
\<close>

fun json_truth :: "json \<Rightarrow> bool" where
  "json_truth JNull = False"
| "json_truth (JBool b) = b"
| "json_truth (JInt n) = (n \<noteq> 0)"
| "json_truth (JStr s) = (s \<noteq> [])"
| "json_truth (JList xs) = (xs \<noteq> [])"
| "json_truth (JObj kvs) = (kvs \<noteq> [])"

fun json_str :: "(json \<Rightarrow> string) \<Rightarrow> json \<Rightarrow> string" where
  "json_str repr JNull = ''None''"
| "json_str repr (JBool b) = (if b then ''True'' else ''False'')"
| "json_str repr (JInt n) = int_str n"
| "json_str repr (JStr s) = s"
| "json_str repr j = repr j"

fun json_iter :: "json \<Rightarrow> json list option" where
  "json_iter (JList xs) = Some xs"
| "json_iter (JStr s) = Some (map (\<lambda>c. JStr [c]) s)"
| "json_iter (JObj kvs) = Some (map (\<lambda>kv. JStr (fst kv)) kvs)"
| "json_iter _ = None"

definition json_strings :: "(json \<Rightarrow> string) \<Rightarrow> json option \<Rightarrow> string set option" where
  "json_strings repr j = Option.bind (Option.bind j json_iter) (\<lambda>xs. Some (set (map (json_str repr) xs)))"

text \<open>\<open>None\<close> stands for the \<open>TypeError\<close>, \<open>ValueError\<close> or \<open>KeyError\<close> that is turned into one exception.\<close>

definition authorization_from_snapshot ::
  "(json \<Rightarrow> string) \<Rightarrow> json option \<Rightarrow> AuthorizationDecision option option" where
  "authorization_from_snapshot repr snapshot =
     (case snapshot of
        None \<Rightarrow> Some None
      | Some JNull \<Rightarrow> Some None
      | Some j \<Rightarrow>
        Option.bind (json_get j ''allowed'') (\<lambda>allowed.
        Option.bind (Option.bind (json_get j ''decision'') (\<lambda>x. decision_of_value (json_str repr x))) (\<lambda>decision.
        Option.bind (Option.bind (json_get j ''reason_code'') (\<lambda>x. reason_of_value (json_str repr x))) (\<lambda>reason_code.
        Option.bind (json_get j ''user_allowed'') (\<lambda>user_allowed.
        Option.bind (json_strings repr (json_get j ''permission_scope'')) (\<lambda>permission_scope.
        Option.bind (json_strings repr (json_get j ''allowed_skills'')) (\<lambda>allowed_skills.
        Option.bind (Option.bind (json_get j ''risk_level'') (\<lambda>x. risk_of_value (json_str repr x))) (\<lambda>risk_level.
          Some (Some
            \<lparr>ad_allowed = json_truth allowed, ad_decision = decision, ad_reason_code = reason_code,
             ad_enterprise_identity_id =
               (case json_get j ''enterprise_identity_id'' of
                  None \<Rightarrow> None | Some JNull \<Rightarrow> None | Some x \<Rightarrow> Some (json_str repr x)),
             ad_user_allowed = json_truth user_allowed,
             ad_is_mentioned =
               (case json_get j ''is_mentioned'' of
                  None \<Rightarrow> None | Some JNull \<Rightarrow> None | Some x \<Rightarrow> Some (json_truth x)),
             ad_permission_scope = permission_scope, ad_allowed_skills = allowed_skills, ad_risk_level = risk_level\<rparr>)))))))))"

definition to_admission_outcome ::
  "(json \<Rightarrow> string) \<Rightarrow> MessageAdmissionOutcome \<Rightarrow> gateway_error + AdmissionOutcome"
where
  "to_admission_outcome repr stored =
     (if m_state stored \<noteq> ADMISSION_COMPLETED \<or> m_decision stored = None then Inl (AdmissionPendingError (m_message_id stored))
      else
        (case (Option.bind (m_admission_reason stored) admission_reason_of_value,
               authorization_from_snapshot repr (m_authorization_snapshot stored)) of
           (Some reason, Some authorization) \<Rightarrow>
             (let admitted = (m_decision stored = Some ADMISSION_DECISION_ALLOWED) in
              if admitted \<noteq> m_should_create_task stored
              then Inl (AdmissionInvariantError ''stored admission decision and task target disagree'')
              else if admitted \<noteq> (reason = ADMISSION_ALLOWED)
              then Inl (AdmissionInvariantError ''stored admission decision and reason disagree'')
              else if m_decision stored = Some ADMISSION_DECISION_UNRESOLVED \<and> reason \<noteq> LEGACY_UNRESOLVED
              then Inl (AdmissionInvariantError ''stored unresolved admission reason is invalid'')
              else if (case authorization of None \<Rightarrow> False | Some d \<Rightarrow> ad_allowed d \<noteq> admitted)
              then Inl (AdmissionInvariantError ''stored authorization and admission decision disagree'')
              else Inr
                \<lparr>ao_message_id = m_message_id stored, ao_admitted = admitted,
                 ao_should_create_task = m_should_create_task stored, ao_reason = reason,
                 ao_enterprise_identity_id = m_enterprise_identity_id stored, ao_workspace_id = m_workspace_id stored,
                 ao_ai_thread_id = m_ai_thread_id stored, ao_authorization = authorization,
                 ao_policy_snapshot = m_policy_snapshot stored, ao_gateway_policy_id = m_gateway_policy_id stored,
                 ao_gateway_policy_updated_at = m_gateway_policy_updated_at stored,
                 ao_user_policy_id = m_user_policy_id stored,
                 ao_user_policy_updated_at = m_user_policy_updated_at stored,
                 ao_routing_mode = m_routing_mode stored,
                 ao_route_conversation_record_id = m_route_conversation_record_id stored,
                 ao_agent_profile_id = m_agent_profile_id stored, ao_agent_profile_key = m_agent_profile_key stored,
                 ao_agent_profile_reference = m_agent_profile_reference stored,
                 ao_agent_profile_revision = m_agent_profile_revision stored,
                 ao_group_type_id = m_group_type_id stored, ao_group_type_key = m_group_type_key stored,
                 ao_thread_policy = m_thread_policy stored\<rparr>)
         | _ \<Rightarrow> Inl (AdmissionInvariantError ''stored admission outcome is invalid'')))"

section \<open>A completed outcome is final\<close>

definition admissions_ok :: "gateway_db \<Rightarrow> bool" where
  "admissions_ok db \<longleftrightarrow> admission_table_ok (admissions db) \<and> (\<forall>m\<in>set (admissions db). m_id m < admission_seq db)"

text \<open>
  What a step may do to the table: no row disappears, a completed row keeps every column, a
  pending one its identity, and attempts are only added.
\<close>

definition admission_grows :: "gateway_db \<Rightarrow> gateway_db \<Rightarrow> bool" where
  "admission_grows db db' \<longleftrightarrow> (admissions_ok db \<longrightarrow> admissions_ok db'
     \<and> (\<forall>m\<in>set (admissions db). \<exists>m'\<in>set (admissions db'). m_id m' = m_id m \<and> m_message_id m' = m_message_id m
          \<and> m_attempt_count m \<le> m_attempt_count m' \<and> (m_state m = ADMISSION_COMPLETED \<longrightarrow> m' = m)))"

lemma admission_grows_refl [intro]: "admission_grows db db"
  by (auto simp: admission_grows_def)

lemma admission_grows_trans: "admission_grows a b \<Longrightarrow> admission_grows b c \<Longrightarrow> admission_grows a c"
  unfolding admission_grows_def by (metis order_trans)

lemma admission_grows_frame:
  "admissions db' = admissions db \<Longrightarrow> admission_seq db' = admission_seq db \<Longrightarrow> admission_grows db db'"
  by (auto simp: admission_grows_def admissions_ok_def)

lemma admissions_ok_message: "admissions_ok db \<Longrightarrow> distinct (map m_message_id (admissions db))"
  by (simp add: admissions_ok_def admission_table_ok_def)

lemma insert_admission_grows:
  assumes "insert_admission m db = Some db'" "m_id m = admission_seq db"
  shows "admission_grows db db'"
  using assms by (fastforce simp: insert_admission_def admission_grows_def admissions_ok_def split: if_splits)

definition pending_update :: "(MessageAdmissionOutcome \<Rightarrow> bool) \<Rightarrow> (MessageAdmissionOutcome \<Rightarrow> MessageAdmissionOutcome) \<Rightarrow> bool" where
  "pending_update q f \<longleftrightarrow> (\<forall>m. (q m \<longrightarrow> m_state m = ADMISSION_PENDING) \<and> m_id (f m) = m_id m
     \<and> m_message_id (f m) = m_message_id m \<and> m_attempt_count m \<le> m_attempt_count (f m))"

lemma update_admissions_grows:
  assumes "update_admissions q f db = (res, db')" "pending_update q f"
  shows "admission_grows db db'"
proof (cases "list_all (\<lambda>m. q m \<longrightarrow> admission_row_ok (f m)
           \<and> (admission_references (f m) = admission_references m \<or> admission_foreign_keys_ok db (f m))) (admissions db)")
  case True
  with assms(1) have db': "db' = db\<lparr>admissions := update_where q f (admissions db)\<rparr>"
    by (simp add: update_admissions_def)
  have keys: "map m_id (admissions db') = map m_id (admissions db)"
      "map m_message_id (admissions db') = map m_message_id (admissions db)"
    using assms(2) by (simp_all add: db' pending_update_def map_key_update_where)
  show ?thesis unfolding admission_grows_def
  proof (intro impI conjI ballI)
    assume ok: "admissions_ok db"
    have "\<forall>m\<in>set (admissions db'). m_id m < admission_seq db'"
      using ok assms(2) by (auto simp: admissions_ok_def db' pending_update_def set_update_where)
    moreover have "list_all admission_row_ok (admissions db')"
      using True ok by (auto simp: list_all_iff db' set_update_where admissions_ok_def admission_table_ok_def)
    ultimately show "admissions_ok db'" using ok keys by (simp add: admissions_ok_def admission_table_ok_def)
  next
    fix m assume "m \<in> set (admissions db)"
    then have "(if q m then f m else m) \<in> set (admissions db')" by (simp add: db' set_update_where)
    then show "\<exists>m'\<in>set (admissions db'). m_id m' = m_id m \<and> m_message_id m' = m_message_id m
        \<and> m_attempt_count m \<le> m_attempt_count m' \<and> (m_state m = ADMISSION_COMPLETED \<longrightarrow> m' = m)"
      using assms(2) by (intro bexI [of _ "if q m then f m else m"]) (auto simp: pending_update_def)
  qed
next
  case False
  with assms(1) show ?thesis by (auto simp: update_admissions_def)
qed

lemma held_pending [simp]:
  "pending_update (held_admission i t) (legacy_values ck r)"
  "pending_update (held_admission i t) (admission_values ck d a)"
  "pending_update (held_admission i t) (\<lambda>m. m\<lparr>m_claim_token := None, m_lease_expires_at := None, m_last_error_code := c,
                      m_updated_at := u\<rparr>)"
  "pending_update (claimable_admission i now) (claim_admission_values ck token lease now)"
  by (auto simp: pending_update_def held_admission_def legacy_values_def admission_values_def claimable_admission_def
      claim_admission_values_def)

lemma checked_grows:
  "(\<And>x. v = Inr x \<Longrightarrow> admission_grows db (snd (k x))) \<Longrightarrow> admission_grows db (snd (checked v db k))"
  by (cases v) auto

lemma claim_existing_grows:
  assumes "\<And>u. admission_grows u (race_update u)" "\<And>u. admission_grows u (race_read u)"
  shows "admission_grows db (snd (claim_existing race_update race_read ck token outcome lease now db))"
proof -
  obtain res db1 where u: "update_admissions (claimable_admission (m_message_id outcome) now)
      (claim_admission_values ck token lease now) (race_update db) = (res, db1)" by fastforce
  have step: "admission_grows db db1" using update_admissions_grows [OF u] assms(1) admission_grows_trans by fastforce
  have "admission_grows db (race_read db1)" "admission_grows db (race_read (race_update db))"
    using step assms admission_grows_trans by blast+
  with step u show ?thesis by (auto simp: claim_existing_def Let_def split: sum.splits option.splits)
qed

lemma create_pending_grows:
  assumes "\<And>u. admission_grows u (race_insert u)" "\<And>u. admission_grows u (race_update u)" "\<And>u. admission_grows u (race_read u)"
  shows "admission_grows db (snd (create_pending race_insert race_update race_read ck token token' i request lease now db))"
proof -
  define row where "row = (\<lambda>l c. pending_row ck token (admission_seq (race_insert db)) i request l c)"
  have new: "m_id (row l c) = admission_seq (race_insert db)" for l c
    by (simp add: row_def pending_row_def new_admission_def)
  have ins: "admission_grows db db2" if "insert_admission (row l c) (race_insert db) = Some db2" for db2 l c
    using admission_grows_trans [OF assms(1) insert_admission_grows [OF that new]] .
  have old: "admission_grows db (snd (claim_existing race_update race_read ck token' m l c (race_insert db)))" for m l c
    using admission_grows_trans [OF assms(1) claim_existing_grows [OF assms(2,3)]] .
  show ?thesis unfolding create_pending_def
    by (intro checked_grows) (auto simp: Let_def row_def [symmetric] assms(1) split: option.splits intro: ins old)
qed

lemma create_legacy_grows:
  assumes "\<And>u. admission_grows u (race_insert u)"
  shows "admission_grows db (snd (create_legacy_dispatch_outcome race_insert ck r db))"
proof -
  have new: "m_id (legacy_row ck (admission_seq (race_insert db)) r) = admission_seq (race_insert db)"
    by (simp add: legacy_row_def new_admission_def)
  have "admission_grows db db2" if "insert_admission (legacy_row ck (admission_seq (race_insert db)) r) (race_insert db) = Some db2" for db2
    using admission_grows_trans [OF assms(1) insert_admission_grows [OF that new]] .
  then show ?thesis using assms by (auto simp: create_legacy_dispatch_outcome_def Let_def split: option.splits)
qed

lemma complete_claim_from_legacy_grows:
  assumes "\<And>u. admission_grows u (race_update u)" "\<And>u. admission_grows u (race_read u)"
  shows "admission_grows db (snd (complete_claim_from_legacy_dispatch race_update race_read ck token r db))"
proof -
  obtain res db1 where u: "update_admissions (held_admission (d_message_id r) token) (legacy_values ck r) (race_update db) = (res, db1)"
    by fastforce
  have step: "admission_grows db db1" using update_admissions_grows [OF u] assms(1) admission_grows_trans by fastforce
  have "admission_grows db (race_read db1)" "admission_grows db (race_read (race_update db))"
    using step assms admission_grows_trans by blast+
  with step u show ?thesis
    by (auto simp: complete_claim_from_legacy_dispatch_def Let_def split: sum.splits option.splits)
qed

lemma release_claim_grows:
  assumes "\<And>u. admission_grows u (race_update u)"
  shows "admission_grows db (snd (release_claim race_update ck i token code db))"
proof -
  have "admission_grows db (snd (case update_admissions (held_admission i token)
               (\<lambda>m. m\<lparr>m_claim_token := None, m_lease_expires_at := None, m_last_error_code := Some c,
                      m_updated_at := db_now ck\<rparr>) (race_update db) of
          (Inl e, db1) \<Rightarrow> (Inl e, db1)
        | (Inr _, db1) \<Rightarrow> (Inr (), db1)))" for c
    using admission_grows_trans [OF assms update_admissions_grows [OF _ held_pending(3)]]
    by (auto split: prod.splits sum.splits)
  then show ?thesis unfolding release_claim_def by (intro checked_grows)
qed

lemma stage_completion_grows: "admission_grows db (snd (stage_completion ck token a db))"
proof -
  have "admission_grows db (snd (case update_admissions (held_admission (ao_message_id a) token) (admission_values ck d a) db of
          (Inl e, db1) \<Rightarrow> (Inl e, db1)
        | (Inr n, db1) \<Rightarrow> if n \<noteq> 1 then (Inl (AdmissionStateConflictError (ao_message_id a)), db1) else (Inr (), db1)))" for d
    using update_admissions_grows [OF _ held_pending(2)] by (auto split: prod.splits sum.splits)
  then show ?thesis unfolding stage_completion_def by (intro checked_grows)
qed

lemma complete_denied_grows:
  assumes "\<And>u. admission_grows u (race_update u)" "\<And>u. admission_grows u (race_read u)"
  shows "admission_grows db (snd (complete_denied race_update race_read ck token a db))"
proof -
  have step: "admission_grows db (snd (stage_completion ck token a (race_update db)))"
    using admission_grows_trans [OF assms(1) stage_completion_grows] .
  have "admission_grows db (race_read (snd (stage_completion ck token a (race_update db))))"
    using admission_grows_trans [OF step assms(2)] .
  with assms(1) show ?thesis
    by (auto simp: complete_denied_def Let_def split: prod.splits sum.splits option.splits)
qed


section \<open>One evaluator at a time\<close>

definition admission_holder :: "gateway_db \<Rightarrow> int \<Rightarrow> string option" where
  "admission_holder db message_id =
     Option.bind (admission_get_by_message_id message_id db)
       (\<lambda>m. if m_state m = ADMISSION_PENDING then m_claim_token m else None)"

definition admission_finish :: "clocks \<Rightarrow> AdmissionOutcome \<Rightarrow> int \<Rightarrow> string \<Rightarrow> gateway_db \<Rightarrow> gateway_db option" where
  "admission_finish ck a message_id token db =
     (case stage_completion ck token (a\<lparr>ao_message_id := message_id\<rparr>) db of (Inr _, db') \<Rightarrow> Some db' | _ \<Rightarrow> None)"

lemma admission_get_iff:
  "admissions_ok db \<Longrightarrow> admission_get_by_message_id i db = Some m \<longleftrightarrow> m \<in> set (admissions db) \<and> m_message_id m = i"
  by (simp add: admission_get_by_message_id_def lookup_by_eq_Some_iff [OF admissions_ok_message])

lemma rowcount_message:
  assumes "admissions_ok db" "\<And>m. q m \<Longrightarrow> m_message_id m = i"
  shows "rowcount q (admissions db) = 1 \<longleftrightarrow> (\<exists>m. admission_get_by_message_id i db = Some m \<and> q m)"
  using rowcount_1_iff [OF admissions_ok_message [OF assms(1)], of q i] assms by (auto simp: admission_get_iff)

lemma update_admissions_get:
  assumes "update_admissions q f db = (Inr n, db')" "pending_update q f"
  shows "admission_get_by_message_id i db' = map_option (\<lambda>m. if q m then f m else m) (admission_get_by_message_id i db)"
proof -
  from assms(1) have "admissions db' = update_where q f (admissions db)"
    by (auto simp: update_admissions_def Let_def split: if_splits)
  with assms(2) show ?thesis
    by (simp add: admission_get_by_message_id_def lookup_by_update_where pending_update_def)
qed

lemma update_admissions_Inr:
  "update_admissions q f db = (Inr n, db') \<Longrightarrow> n = rowcount q (admissions db)"
  by (auto simp: update_admissions_def Let_def split: if_splits)

lemma stage_completion_done:
  assumes "stage_completion ck token a db = (Inr x, db')" "admissions_ok db"
  obtains m d where "admission_get_by_message_id (ao_message_id a) db = Some m" "held_admission (ao_message_id a) token m"
    "completed_decision a = Inr d" "admissions_ok db'"
    "\<And>i. admission_get_by_message_id i db' = (if i = ao_message_id a then Some (admission_values ck d a m)
       else admission_get_by_message_id i db)"
proof -
  from assms(1) obtain d n where d: "completed_decision a = Inr d"
    and u: "update_admissions (held_admission (ao_message_id a) token) (admission_values ck d a) db = (Inr n, db')" and "n = 1"
    unfolding stage_completion_def by (auto dest!: checked_InrD split: prod.splits sum.splits if_splits)
  have msg: "\<And>m. held_admission (ao_message_id a) token m \<Longrightarrow> m_message_id m = ao_message_id a"
    by (simp add: held_admission_def)
  obtain m where m: "admission_get_by_message_id (ao_message_id a) db = Some m" "held_admission (ao_message_id a) token m"
    using update_admissions_Inr [OF u] \<open>n = 1\<close> rowcount_message [OF assms(2) msg] by auto
  have get: "admission_get_by_message_id i db' = (if i = ao_message_id a then Some (admission_values ck d a m)
       else admission_get_by_message_id i db)" for i
  proof (cases "i = ao_message_id a")
    case True
    then show ?thesis using update_admissions_get [OF u held_pending(2), of i] m by simp
  next
    case False
    have "admission_get_by_message_id i db = Some x \<Longrightarrow> \<not> held_admission (ao_message_id a) token x" for x
      using False admission_get_iff [OF assms(2)] by (auto simp: held_admission_def)
    then show ?thesis using update_admissions_get [OF u held_pending(2), of i] False
      by (cases "admission_get_by_message_id i db") simp_all
  qed
  have "admissions_ok db'" using update_admissions_grows [OF u held_pending(2)] assms(2) by (simp add: admission_grows_def)
  with that m d get show thesis by blast
qed

interpretation admission_fence: claim_fence admission_holder "admission_finish ck a" admissions_ok for ck a
proof (unfold_locales, goal_cases)
  case (1 s k t s')
  then have "stage_completion ck t (a\<lparr>ao_message_id := k\<rparr>) s = (Inr (), s')"
    by (simp add: admission_finish_def split: prod.splits sum.splits)
  then show ?case by (rule stage_completion_done [OF _ 1(1)]) (simp add: admission_holder_def held_admission_def)
next
  case (2 s k t s')
  then have "stage_completion ck t (a\<lparr>ao_message_id := k\<rparr>) s = (Inr (), s')"
    by (simp add: admission_finish_def split: prod.splits sum.splits)
  then show ?case by (rule stage_completion_done [OF _ 2(1)]) (simp add: admission_holder_def admission_values_def)
next
  case (3 s k t s' j)
  then have "stage_completion ck t (a\<lparr>ao_message_id := k\<rparr>) s = (Inr (), s')"
    by (simp add: admission_finish_def split: prod.splits sum.splits)
  then show ?case by (rule stage_completion_done [OF _ 3(1)]) (simp add: admission_holder_def 3(3))
next
  case (4 s k t s')
  then have "stage_completion ck t (a\<lparr>ao_message_id := k\<rparr>) s = (Inr (), s')"
    by (simp add: admission_finish_def split: prod.splits sum.splits)
  then show ?case by (rule stage_completion_done [OF _ 4(1)])
qed

text \<open>Undisturbed, a claim is given exactly when no other evaluator has a live one.\<close>

lemma claim_row_ok:
  "admission_row_ok m \<Longrightarrow> m_state m = ADMISSION_PENDING \<Longrightarrow> admission_row_ok (claim_admission_values ck token lease now m)"
  by (simp add: admission_row_ok_def claim_admission_values_def)

lemma claim_references: "admission_references (claim_admission_values ck token lease now m) = admission_references m"
  by (simp add: admission_references_def claim_admission_values_def)

lemma claim_existing_quiet:
  assumes ok: "admissions_ok db" and m: "m \<in> set (admissions db)" and pending: "m_state m = ADMISSION_PENDING"
  shows "claim_existing id id ck token m lease now db =
    (if claimable_admission (m_message_id m) now m
     then (Inr \<lparr>cl_outcome = claim_admission_values ck token lease now m, cl_claim_token = Some token, cl_created = False\<rparr>,
           db\<lparr>admissions := update_where (claimable_admission (m_message_id m) now) (claim_admission_values ck token lease now) (admissions db)\<rparr>)
     else (Inl (AdmissionPendingError (m_message_id m)), db))"
proof -
  let ?q = "claimable_admission (m_message_id m) now" and ?f = "claim_admission_values ck token lease now"
  let ?db = "db\<lparr>admissions := update_where ?q ?f (admissions db)\<rparr>"
  have "admission_row_ok x" if "x \<in> set (admissions db)" for x
    using ok that by (auto simp: admissions_ok_def admission_table_ok_def list_all_iff)
  then have upd: "update_admissions ?q ?f db = (Inr (rowcount ?q (admissions db)), ?db)"
    by (auto simp: update_admissions_def list_all_iff claim_row_ok claimable_admission_def claim_references)
  have get: "admission_get_by_message_id (m_message_id m) db = Some m" using m admission_get_iff [OF ok] by simp
  have msg: "\<And>x. ?q x \<Longrightarrow> m_message_id x = m_message_id m" by (simp add: claimable_admission_def)
  have one: "rowcount ?q (admissions db) = 1 \<longleftrightarrow> ?q m" using rowcount_message [OF ok msg] get by simp
  have "admission_get_by_message_id (m_message_id m) ?db = Some (if ?q m then ?f m else m)"
    using update_admissions_get [OF upd held_pending(4)] get by simp
  with one upd get pending show ?thesis by (simp add: claim_existing_def)
qed

section \<open>The stored outcome is the outcome\<close>

lemma set_sorted_strings: "finite s \<Longrightarrow> json_strings repr (Some (sorted_strings s)) = Some s"
  by (simp add: json_strings_def sorted_strings_def image_image)

lemma authorization_snapshot_roundtrip:
  assumes "finite (ad_permission_scope d)" "finite (ad_allowed_skills d)"
  shows "authorization_from_snapshot repr (Some (authorization_to_dict d)) = Some (Some d)"
  using assms
  by (cases d) (simp add: authorization_from_snapshot_def authorization_to_dict_def json_get_def set_sorted_strings opt_json_def
      split: option.splits)

lemma admission_values_sel:
  "m_message_id (admission_values ck d a m) = m_message_id m"
  "m_state (admission_values ck d a m) = ADMISSION_COMPLETED"
  "m_decision (admission_values ck d a m) = Some d"
  "m_admission_reason (admission_values ck d a m) = Some (admission_reason_value (ao_reason a))"
  "m_should_create_task (admission_values ck d a m) = ao_should_create_task a"
  "m_authorization_snapshot (admission_values ck d a m) = map_option authorization_to_dict (ao_authorization a)"
  "m_policy_snapshot (admission_values ck d a m) = ao_policy_snapshot a"
  "m_gateway_policy_id (admission_values ck d a m) = ao_gateway_policy_id a"
  "m_gateway_policy_updated_at (admission_values ck d a m) = ao_gateway_policy_updated_at a"
  "m_user_policy_id (admission_values ck d a m) = ao_user_policy_id a"
  "m_user_policy_updated_at (admission_values ck d a m) = ao_user_policy_updated_at a"
  "m_enterprise_identity_id (admission_values ck d a m) = stored_identity a"
  "m_workspace_id (admission_values ck d a m) = ao_workspace_id a"
  "m_ai_thread_id (admission_values ck d a m) = ao_ai_thread_id a"
  "m_routing_mode (admission_values ck d a m) = ao_routing_mode a"
  "m_route_conversation_record_id (admission_values ck d a m) = ao_route_conversation_record_id a"
  "m_agent_profile_id (admission_values ck d a m) = ao_agent_profile_id a"
  "m_agent_profile_key (admission_values ck d a m) = ao_agent_profile_key a"
  "m_agent_profile_reference (admission_values ck d a m) = ao_agent_profile_reference a"
  "m_agent_profile_revision (admission_values ck d a m) = ao_agent_profile_revision a"
  "m_group_type_id (admission_values ck d a m) = ao_group_type_id a"
  "m_group_type_key (admission_values ck d a m) = ao_group_type_key a"
  "m_thread_policy (admission_values ck d a m) = ao_thread_policy a"
  by (simp_all add: admission_values_def)

definition admission_consistent :: "AdmissionOutcome \<Rightarrow> bool" where
  "admission_consistent a \<longleftrightarrow> (case ao_authorization a of None \<Rightarrow> True
     | Some d \<Rightarrow> ad_allowed d = ao_admitted a \<and> finite (ad_permission_scope d) \<and> finite (ad_allowed_skills d))"

lemma completed_outcome_roundtrip:
  assumes "completed_decision a = Inr d" "m_message_id m = ao_message_id a" "admission_consistent a"
  shows "to_admission_outcome repr (admission_values ck d a m) = Inr (a\<lparr>ao_enterprise_identity_id := stored_identity a\<rparr>)"
proof -
  have d: "d = (if ao_admitted a then ADMISSION_DECISION_ALLOWED else ADMISSION_DECISION_DENIED)"
      "ao_should_create_task a = ao_admitted a" "(ao_reason a = ADMISSION_ALLOWED) = ao_admitted a"
    using assms(1) by (auto simp: completed_decision_def split: if_splits)
  have auth: "authorization_from_snapshot repr (map_option authorization_to_dict (ao_authorization a)) = Some (ao_authorization a)"
    using assms(3) authorization_snapshot_roundtrip
    by (cases "ao_authorization a") (auto simp: admission_consistent_def, simp add: authorization_from_snapshot_def)
  have agree: "\<not> (case ao_authorization a of None \<Rightarrow> False | Some x \<Rightarrow> ad_allowed x \<noteq> ao_admitted a)"
    using assms(3) by (simp add: admission_consistent_def split: option.splits)
  have decided: "(Some d = Some ADMISSION_DECISION_ALLOWED) = ao_admitted a" "d \<noteq> ADMISSION_DECISION_UNRESOLVED"
    using d by simp_all
  show ?thesis unfolding to_admission_outcome_def admission_values_sel auth bind.simps
      admission_reason_of_value_value prod.case option.case Let_def decided(1)
    using agree d(2,3) decided(2) assms(2) by simp
qed

end
