(* ===== verification/Admission_Machine.thy ===== *)
theory Admission_Machine
  imports Admission_Store
begin

text \<open>
  The runs of the admission table: every operation of the store is a step, in any order and by
  any number of sessions, and other components change other tables. Completed admissions are
  final in every run, and a pending one has at most one holder.
\<close>

section \<open>Steps\<close>

inductive admission_step :: "gateway_db \<Rightarrow> gateway_db \<Rightarrow> bool" where
  create: "create_pending id id id ck token token' message_id request lease now db = (res, db') \<Longrightarrow> admission_step db db'"
| claim: "claim_pending id id ck token outcome lease now db = (res', db') \<Longrightarrow> admission_step db db'"
| legacy: "create_legacy_dispatch_outcome id ck r db = (res'', db') \<Longrightarrow> admission_step db db'"
| adopt: "complete_claim_from_legacy_dispatch id id ck token r db = (stored, db') \<Longrightarrow> admission_step db db'"
| release: "release_claim id ck message_id token code db = (done', db') \<Longrightarrow> admission_step db db'"
| complete: "stage_completion ck token a db = (done', db') \<Longrightarrow> admission_step db db'"
| deny: "complete_denied id id ck token a db = (stored, db') \<Longrightarrow> admission_step db db'"
| elsewhere: "admissions db' = admissions db \<Longrightarrow> admission_seq db' = admission_seq db \<Longrightarrow> admission_step db db'"

inductive_cases admission_stepE: "admission_step db db'"

section \<open>What a run keeps\<close>

lemma claim_pending_grows: "admission_grows db (snd (claim_pending id id ck token outcome lease now db))"
  unfolding claim_pending_def by (auto intro!: checked_grows claim_existing_grows)

lemma admission_step_grows: "admission_step db db' \<Longrightarrow> admission_grows db db'"
proof (induction rule: admission_step.induct)
  case (create ck token token' i request lease now db res db')
  with create_pending_grows [of id id id db ck token token' i request lease now] show ?case by auto
next
  case (claim ck token outcome lease now db res' db')
  with claim_pending_grows [of db ck token outcome lease now] show ?case by simp
next
  case (legacy ck r db res'' db')
  with create_legacy_grows [of id db ck r] show ?case by auto
next
  case (adopt ck token r db stored db')
  with complete_claim_from_legacy_grows [of id id db ck token r] show ?case by auto
next
  case (release ck i token code db d db')
  with release_claim_grows [of id db ck i token code] show ?case by auto
next
  case (complete ck token a db d db')
  with stage_completion_grows [of db ck token a] show ?case by simp
next
  case (deny ck token a db stored db')
  with complete_denied_grows [of id id db ck token a] show ?case by auto
qed (rule admission_grows_frame)

lemma admission_run_grows: "admission_step\<^sup>*\<^sup>* db db' \<Longrightarrow> admission_grows db db'"
  by (induction rule: rtranclp_induct) (blast intro: admission_grows_trans admission_step_grows)+

lemma admission_reached_ok: "admission_step\<^sup>*\<^sup>* empty_db db \<Longrightarrow> admissions_ok db"
  using admission_run_grows [of empty_db db] by (simp add: admission_grows_def admissions_ok_def admission_table_ok_def empty_db_def)

lemma admission_run_completed:
  assumes "admissions_ok db" "admission_step\<^sup>*\<^sup>* db db'" "m \<in> set (admissions db)" "m_state m = ADMISSION_COMPLETED"
  shows "m \<in> set (admissions db') \<and> admission_get_by_message_id (m_message_id m) db' = Some m"
proof -
  have g: "admission_grows db db'" using admission_run_grows [OF assms(2)] .
  then have "m \<in> set (admissions db')" "admissions_ok db'" using assms unfolding admission_grows_def by blast+
  then show ?thesis using admission_get_iff by blast
qed

section \<open>One holder\<close>

lemma held_claim_refused:
  assumes "admissions_ok db" "admission_get_by_message_id i db = Some m" "m_state m = ADMISSION_PENDING"
    and "m_claim_token m = Some t" "m_lease_expires_at m = Some e" "now < e"
  shows "claim_existing id id ck token m lease now db = (Inl (AdmissionPendingError i), db)"
proof -
  have m: "m \<in> set (admissions db)" "m_message_id m = i" using assms(2) admission_get_iff [OF assms(1)] by auto
  have "\<not> claimable_admission i now m" using assms(4-6) by (simp add: claimable_admission_def sql_le_def)
  with claim_existing_quiet [OF assms(1) m(1) assms(3)] m(2) show ?thesis by simp
qed

lemma stage_completion_finish:
  "admission_finish ck a (ao_message_id a) token db = (case stage_completion ck token a db of (Inr _, db') \<Rightarrow> Some db' | _ \<Rightarrow> None)"
  by (simp add: admission_finish_def)

end
