(* ===== verification/Identity_Policy.thy ===== *)
theory Identity_Policy
  imports Keyed_Insert
begin

text \<open>
  Identities and access policies (\<open>identity/store.py\<close>, \<open>identity/service.py\<close>,
  \<open>access/policy_store.py\<close>, \<open>access/policy_service.py\<close> with their schemas): who a sender of a
  channel is, and which facts the evaluator of \<open>Access_Control\<close> is given. Identifiers drawn from
  \<open>uuid4\<close> are arguments, and so is what other sessions commit between the lookup and the insert
  or update of an operation (\<open>race\<close>).
\<close>

section \<open>Identities\<close>

definition identity_table_ok :: "EnterpriseIdentity list \<Rightarrow> bool" where
  "identity_table_ok rows \<longleftrightarrow> distinct (map e_id rows)
     \<and> distinct (map e_employee_id (filter (\<lambda>e. e_employee_id e \<noteq> None) rows))"

definition mapping_key :: "SourceIdentityMapping \<Rightarrow> string \<times> string \<times> string" where
  "mapping_key m = (s_platform m, s_account_id m, s_sender_id m)"

definition mapping_table_ok :: "SourceIdentityMapping list \<Rightarrow> bool" where
  "mapping_table_ok rows \<longleftrightarrow> distinct (map s_id rows) \<and> distinct (map mapping_key rows)"

definition get_identity :: "string \<Rightarrow> gateway_db \<Rightarrow> EnterpriseIdentity option" where
  "get_identity i db = lookup_by e_id i (identities db)"

definition get_identity_by_employee_id :: "string \<Rightarrow> gateway_db \<Rightarrow> EnterpriseIdentity option" where
  "get_identity_by_employee_id employee_id db = lookup_by e_employee_id (Some employee_id) (identities db)"

definition employee_conflict :: "string option \<Rightarrow> gateway_db \<Rightarrow> gateway_error option" where
  "employee_conflict employee_id db =
     (case employee_id of
        None \<Rightarrow> None
      | Some x \<Rightarrow> map_option (\<lambda>e. IdentityFailure (EmployeeIdConflictError x (e_id e))) (get_identity_by_employee_id x db))"

definition identity_store_create ::
  "(gateway_db \<Rightarrow> gateway_db) \<Rightarrow> clocks \<Rightarrow> string \<Rightarrow> string option \<Rightarrow> string option \<Rightarrow> StoredIdentityStatus \<Rightarrow> string option
     \<Rightarrow> gateway_db \<Rightarrow> EnterpriseIdentity outcome"
where
  "identity_store_create race ck uuid employee_id display_name status enterprise_identity_id db =
     (case employee_conflict employee_id db of
        Some e \<Rightarrow> (Inl e, db)
      | None \<Rightarrow>
        (let row = \<lparr>e_id = (if truthy enterprise_identity_id then the enterprise_identity_id else uuid),
                    e_employee_id = employee_id, e_display_name = display_name, e_status = status,
                    e_created_at = db_now ck, e_updated_at = db_now ck\<rparr>;
             db1 = race db in
         if identity_table_ok (identities db1 @ [row])
         then (Inr row, db1\<lparr>identities := identities db1 @ [row]\<rparr>)
         else
           (case employee_conflict employee_id db1 of
              Some e \<Rightarrow> (Inl e, db1)
            | None \<Rightarrow>
                if get_identity (e_id row) db1 \<noteq> None then (Inl (IdentityFailure (IdentityConflictError (e_id row))), db1)
                else (Inl IntegrityError, db1))))"

definition create_identity ::
  "(gateway_db \<Rightarrow> gateway_db) \<Rightarrow> clocks \<Rightarrow> string \<Rightarrow> string option \<Rightarrow> string option \<Rightarrow> StoredIdentityStatus \<Rightarrow> gateway_db
     \<Rightarrow> EnterpriseIdentity outcome"
where
  "create_identity race ck uuid employee_id display_name status db =
     checked (schema_optional 255 employee_id) db (\<lambda>employee.
     checked (schema_optional 255 display_name) db (\<lambda>name.
       identity_store_create race ck uuid employee name status None db))"

subsection \<open>Mappings\<close>

definition get_mapping :: "string \<Rightarrow> string \<Rightarrow> string \<Rightarrow> gateway_db \<Rightarrow> SourceIdentityMapping option" where
  "get_mapping platform account_id sender_id db = lookup_by mapping_key (platform, account_id, sender_id) (identity_mappings db)"

definition list_mappings :: "string \<Rightarrow> string \<Rightarrow> string \<Rightarrow> gateway_db \<Rightarrow> SourceIdentityMapping list" where
  "list_mappings platform account_id sender_id db =
     filter (\<lambda>m. mapping_key m = (platform, account_id, sender_id)) (identity_mappings db)"

definition same_mapping_or_raise :: "SourceIdentityMapping \<Rightarrow> string \<Rightarrow> gateway_error + SourceIdentityMapping" where
  "same_mapping_or_raise mapping requested_identity_id =
     (if s_enterprise_identity_id mapping \<noteq> requested_identity_id
      then Inl (IdentityFailure (SourceIdentityConflictError (s_enterprise_identity_id mapping) requested_identity_id))
      else Inr mapping)"

definition insert_mapping :: "SourceIdentityMapping \<Rightarrow> gateway_db \<Rightarrow> gateway_db option" where
  "insert_mapping m db =
     (if mapping_table_ok (identity_mappings db @ [m]) \<and> s_enterprise_identity_id m \<in> e_id ` set (identities db)
      then Some (db\<lparr>identity_mappings := identity_mappings db @ [m]\<rparr>) else None)"

definition mapping_store_create ::
  "(gateway_db \<Rightarrow> gateway_db) \<Rightarrow> clocks \<Rightarrow> string \<Rightarrow> string \<Rightarrow> string \<Rightarrow> string \<Rightarrow> string \<Rightarrow> gateway_db
     \<Rightarrow> (SourceIdentityMapping \<times> bool) outcome"
where
  "mapping_store_create race ck uuid platform account_id sender_id enterprise_identity_id db =
     (case get_or_insert (get_mapping platform account_id sender_id) insert_mapping
             \<lparr>s_id = uuid, s_platform = platform, s_account_id = account_id, s_sender_id = sender_id,
              s_enterprise_identity_id = enterprise_identity_id, s_enabled = True,
              s_created_at = db_now ck, s_updated_at = db_now ck\<rparr> race db of
        (Inl e, db') \<Rightarrow> (Inl e, db')
      | (Inr (m, created), db') \<Rightarrow>
          (if created then Inr (m, True)
           else map_sum id (\<lambda>x. (x, False)) (same_mapping_or_raise m enterprise_identity_id), db'))"

definition create_mapping ::
  "(gateway_db \<Rightarrow> gateway_db) \<Rightarrow> clocks \<Rightarrow> string \<Rightarrow> string \<Rightarrow> string \<Rightarrow> string \<Rightarrow> string \<Rightarrow> gateway_db
     \<Rightarrow> SourceIdentityMapping outcome"
where
  "create_mapping race ck uuid platform account_id sender_id enterprise_identity_id db =
     checked (schema_string 64 platform) db (\<lambda>p.
     checked (schema_string 255 account_id) db (\<lambda>a.
     checked (schema_string 255 sender_id) db (\<lambda>s.
     checked (schema_string 36 enterprise_identity_id) db (\<lambda>i.
       if get_identity i db = None then (Inl (IdentityNotFoundError i), db)
       else
         (case mapping_store_create race ck uuid p a s i db of
            (Inl e, db') \<Rightarrow> (Inl e, db')
          | (Inr (m, _), db') \<Rightarrow> (Inr m, db'))))))"

definition disable_mapping ::
  "clocks \<Rightarrow> string \<Rightarrow> string \<Rightarrow> string \<Rightarrow> gateway_db \<Rightarrow> SourceIdentityMapping outcome" where
  "disable_mapping ck platform account_id sender_id db =
     checked (schema_string 64 platform) db (\<lambda>p.
     checked (schema_string 255 account_id) db (\<lambda>a.
     checked (schema_string 255 sender_id) db (\<lambda>s.
       (case get_mapping p a s db of
          None \<Rightarrow> (Inl (IdentityFailure MappingNotFoundError), db)
        | Some m \<Rightarrow>
            if s_enabled m
            then (let f = (\<lambda>x. x\<lparr>s_enabled := False, s_updated_at := db_now ck\<rparr>) in
                  (Inr (f m), db\<lparr>identity_mappings := update_where (\<lambda>x. s_id x = s_id m) f (identity_mappings db)\<rparr>))
            else (Inr m, db)))))"

subsection \<open>Resolution\<close>

datatype IdentityResolutionStatus = RESOLUTION_RESOLVED | RESOLUTION_UNRESOLVED | RESOLUTION_DISABLED | RESOLUTION_CONFLICT

record IdentityResolution =
  ir_status :: IdentityResolutionStatus
  ir_enterprise_identity_id :: "string option"
  ir_employee_id :: "string option"
  ir_mapping_id :: "string option"

definition resolve_identity :: "string \<Rightarrow> string \<Rightarrow> string \<Rightarrow> gateway_db \<Rightarrow> gateway_error + IdentityResolution" where
  "resolve_identity platform account_id sender_id db =
     (case schema_string 64 platform of
        Inl e \<Rightarrow> Inl e
      | Inr p \<Rightarrow>
        (case schema_string 255 account_id of
           Inl e \<Rightarrow> Inl e
         | Inr a \<Rightarrow>
           (case schema_string 255 sender_id of
              Inl e \<Rightarrow> Inl e
            | Inr s \<Rightarrow> Inr
              (case list_mappings p a s db of
                 [] \<Rightarrow> \<lparr>ir_status = RESOLUTION_UNRESOLVED, ir_enterprise_identity_id = None, ir_employee_id = None,
                        ir_mapping_id = None\<rparr>
               | [m] \<Rightarrow>
                   (case get_identity (s_enterprise_identity_id m) db of
                      None \<Rightarrow> \<lparr>ir_status = RESOLUTION_CONFLICT, ir_enterprise_identity_id = Some (s_enterprise_identity_id m),
                                ir_employee_id = None, ir_mapping_id = Some (s_id m)\<rparr>
                    | Some identity \<Rightarrow>
                        \<lparr>ir_status = (if \<not> s_enabled m \<or> e_status identity \<noteq> STORED_ACTIVE then RESOLUTION_DISABLED
                                       else RESOLUTION_RESOLVED),
                         ir_enterprise_identity_id = Some (e_id identity), ir_employee_id = e_employee_id identity,
                         ir_mapping_id = Some (s_id m)\<rparr>)
               | _ \<Rightarrow> \<lparr>ir_status = RESOLUTION_CONFLICT, ir_enterprise_identity_id = None, ir_employee_id = None,
                       ir_mapping_id = None\<rparr>))))"

section \<open>Policies\<close>

definition DEFAULT_GATEWAY_POLICY_KEY :: string where "DEFAULT_GATEWAY_POLICY_KEY = ''default''"

definition user_policy_table_ok :: "UserAccessPolicy list \<Rightarrow> bool" where
  "user_policy_table_ok rows \<longleftrightarrow> distinct (map up_id rows) \<and> distinct (map up_enterprise_identity_id rows)"

definition gateway_policy_table_ok :: "GatewayAccessPolicy list \<Rightarrow> bool" where
  "gateway_policy_table_ok rows \<longleftrightarrow> distinct (map gap_id rows) \<and> distinct (map gap_policy_key rows)
     \<and> list_all (\<lambda>p. gap_policy_key p = DEFAULT_GATEWAY_POLICY_KEY) rows"

definition get_user_policy :: "string \<Rightarrow> gateway_db \<Rightarrow> UserAccessPolicy option" where
  "get_user_policy enterprise_identity_id db = lookup_by up_enterprise_identity_id enterprise_identity_id (user_policies db)"

definition get_gateway_policy :: "string \<Rightarrow> gateway_db \<Rightarrow> GatewayAccessPolicy option" where
  "get_gateway_policy policy_key db = lookup_by gap_policy_key policy_key (gateway_policies db)"

definition insert_user_policy :: "UserAccessPolicy \<Rightarrow> gateway_db \<Rightarrow> gateway_db option" where
  "insert_user_policy p db =
     (if user_policy_table_ok (user_policies db @ [p]) \<and> up_enterprise_identity_id p \<in> e_id ` set (identities db)
      then Some (db\<lparr>user_policies := user_policies db @ [p]\<rparr>) else None)"

definition insert_gateway_policy :: "GatewayAccessPolicy \<Rightarrow> gateway_db \<Rightarrow> gateway_db option" where
  "insert_gateway_policy p db =
     (if gateway_policy_table_ok (gateway_policies db @ [p])
      then Some (db\<lparr>gateway_policies := gateway_policies db @ [p]\<rparr>) else None)"

text \<open>
  \<open>_update\<close>: the columns whose value differs are assigned, and the row is written (with a new
  \<open>updated_at\<close>) when there is one.
\<close>

definition update_user_policy :: "clocks \<Rightarrow> UserAccessPolicy \<Rightarrow> UserAccessPolicy \<Rightarrow> gateway_db \<Rightarrow> UserAccessPolicy \<times> gateway_db" where
  "update_user_policy ck existing new db =
     (let same = (up_enabled existing = up_enabled new \<and> up_permission_scope existing = up_permission_scope new
                  \<and> up_allowed_skills existing = up_allowed_skills new \<and> up_valid_from existing = up_valid_from new
                  \<and> up_valid_until existing = up_valid_until new);
          written = existing\<lparr>up_enabled := up_enabled new, up_permission_scope := up_permission_scope new,
             up_allowed_skills := up_allowed_skills new, up_valid_from := up_valid_from new,
             up_valid_until := up_valid_until new, up_updated_at := db_now ck\<rparr> in
      if same then (existing, db)
      else (written, db\<lparr>user_policies := update_where (\<lambda>p. up_id p = up_id existing) (\<lambda>_. written) (user_policies db)\<rparr>))"

definition update_gateway_policy ::
  "clocks \<Rightarrow> GatewayAccessPolicy \<Rightarrow> GatewayAccessPolicy \<Rightarrow> gateway_db \<Rightarrow> GatewayAccessPolicy \<times> gateway_db" where
  "update_gateway_policy ck existing new db =
     (let same = (gap_enabled existing = gap_enabled new \<and> gap_permission_scope existing = gap_permission_scope new
                  \<and> gap_allowed_skills existing = gap_allowed_skills new
                  \<and> gap_allowed_risk_levels existing = gap_allowed_risk_levels new);
          written = existing\<lparr>gap_enabled := gap_enabled new, gap_permission_scope := gap_permission_scope new,
             gap_allowed_skills := gap_allowed_skills new, gap_allowed_risk_levels := gap_allowed_risk_levels new,
             gap_updated_at := db_now ck\<rparr> in
      if same then (existing, db)
      else (written, db\<lparr>gateway_policies := update_where (\<lambda>p. gap_id p = gap_id existing) (\<lambda>_. written) (gateway_policies db)\<rparr>))"

definition policy_store_upsert_user ::
  "(gateway_db \<Rightarrow> gateway_db) \<Rightarrow> clocks \<Rightarrow> UserAccessPolicy \<Rightarrow> gateway_db \<Rightarrow> (UserAccessPolicy \<times> bool) outcome" where
  "policy_store_upsert_user race ck row db =
     (case get_or_insert (get_user_policy (up_enterprise_identity_id row)) insert_user_policy row race db of
        (Inl e, db') \<Rightarrow> (Inl e, db')
      | (Inr (p, True), db') \<Rightarrow> (Inr (p, True), db')
      | (Inr (p, False), db') \<Rightarrow> (case update_user_policy ck p row db' of (q, db'') \<Rightarrow> (Inr (q, False), db'')))"

definition policy_store_upsert_gateway ::
  "(gateway_db \<Rightarrow> gateway_db) \<Rightarrow> clocks \<Rightarrow> GatewayAccessPolicy \<Rightarrow> gateway_db \<Rightarrow> (GatewayAccessPolicy \<times> bool) outcome" where
  "policy_store_upsert_gateway race ck row db =
     (if gap_policy_key row \<noteq> DEFAULT_GATEWAY_POLICY_KEY then (Inl (InvalidGatewayPolicyKeyError (gap_policy_key row)), db)
      else
        (case get_or_insert (get_gateway_policy (gap_policy_key row)) insert_gateway_policy row race db of
           (Inl e, db') \<Rightarrow> (Inl e, db')
         | (Inr (p, True), db') \<Rightarrow> (Inr (p, True), db')
         | (Inr (p, False), db') \<Rightarrow> (case update_gateway_policy ck p row db' of (q, db'') \<Rightarrow> (Inr (q, False), db''))))"

subsection \<open>Setting policies\<close>

text \<open>A set of policy values: every value is stripped and has between 1 and 255 characters.\<close>

fun schema_strings :: "string list \<Rightarrow> gateway_error + string set" where
  "schema_strings [] = Inr {}"
| "schema_strings (v # vs) =
     (case schema_string 255 v of
        Inl e \<Rightarrow> Inl e
      | Inr s \<Rightarrow> map_sum id (insert s) (schema_strings vs))"

definition as_utc :: "py_datetime \<Rightarrow> instant" where
  "as_utc v = (case v of Aware t \<Rightarrow> t | Naive t \<Rightarrow> t)"

definition policy_window_ok :: "py_datetime option \<Rightarrow> py_datetime option \<Rightarrow> bool" where
  "policy_window_ok valid_from valid_until =
     (case (valid_from, valid_until) of (Some a, Some b) \<Rightarrow> as_utc a \<le> as_utc b | _ \<Rightarrow> True)"

definition upsert_user_policy ::
  "(gateway_db \<Rightarrow> gateway_db) \<Rightarrow> clocks \<Rightarrow> string \<Rightarrow> string \<Rightarrow> bool \<Rightarrow> string list \<Rightarrow> string list \<Rightarrow> py_datetime option
     \<Rightarrow> py_datetime option \<Rightarrow> gateway_db \<Rightarrow> UserAccessPolicy outcome"
where
  "upsert_user_policy race ck uuid enterprise_identity_id enabled permission_scope allowed_skills valid_from valid_until db =
     checked (schema_strings permission_scope) db (\<lambda>scope.
     checked (schema_strings allowed_skills) db (\<lambda>skills.
     checked (schema_string 36 enterprise_identity_id) db (\<lambda>i.
       if \<not> policy_window_ok valid_from valid_until then (Inl (IdentityFailure InvalidPolicyWindowError), db)
       else if get_identity i db = None then (Inl (IdentityNotFoundError i), db)
       else
         (case policy_store_upsert_user race ck
                 \<lparr>up_id = uuid, up_enterprise_identity_id = i, up_enabled = enabled, up_permission_scope = scope,
                  up_allowed_skills = skills, up_valid_from = map_option as_utc valid_from,
                  up_valid_until = map_option as_utc valid_until, up_created_at = db_now ck, up_updated_at = db_now ck\<rparr> db of
            (Inl e, db') \<Rightarrow> (Inl e, db')
          | (Inr (p, _), db') \<Rightarrow> (Inr p, db')))))"

fun risk_strings :: "string list \<Rightarrow> gateway_error + string set" where
  "risk_strings [] = Inr {}"
| "risk_strings (v # vs) =
     (case risk_of_value v of
        None \<Rightarrow> Inl SchemaValidationError
      | Some r \<Rightarrow> map_sum id (insert (risk_value r)) (risk_strings vs))"

definition upsert_gateway_policy ::
  "(gateway_db \<Rightarrow> gateway_db) \<Rightarrow> clocks \<Rightarrow> string \<Rightarrow> string \<Rightarrow> bool \<Rightarrow> string list \<Rightarrow> string list \<Rightarrow> string list
     \<Rightarrow> gateway_db \<Rightarrow> GatewayAccessPolicy outcome"
where
  "upsert_gateway_policy race ck uuid policy_key enabled permission_scope allowed_skills allowed_risk_levels db =
     (if policy_key \<noteq> DEFAULT_GATEWAY_POLICY_KEY then (Inl SchemaValidationError, db)
      else
        checked (schema_strings permission_scope) db (\<lambda>scope.
        checked (schema_strings allowed_skills) db (\<lambda>skills.
        checked (risk_strings allowed_risk_levels) db (\<lambda>risks.
          (case policy_store_upsert_gateway race ck
                  \<lparr>gap_id = uuid, gap_policy_key = policy_key, gap_permission_scope = scope, gap_allowed_skills = skills,
                   gap_allowed_risk_levels = risks, gap_enabled = enabled, gap_created_at = db_now ck,
                   gap_updated_at = db_now ck\<rparr> db of
             (Inl e, db') \<Rightarrow> (Inl e, db')
           | (Inr (p, _), db') \<Rightarrow> (Inr p, db'))))))"

subsection \<open>Facts for the evaluator\<close>

definition empty_identity_facts :: "string option \<Rightarrow> bool \<Rightarrow> IdentityStatus \<Rightarrow> IdentityFacts" where
  "empty_identity_facts enterprise_identity_id resolved status =
     \<lparr>identity_resolved = resolved, if_enterprise_identity_id = enterprise_identity_id, identity_status = status,
      if_user_allowed = False, user_permission_scope = {}, user_allowed_skills = {}\<rparr>"

definition is_active_policy :: "bool \<Rightarrow> instant option \<Rightarrow> instant option \<Rightarrow> instant \<Rightarrow> bool" where
  "is_active_policy enabled valid_from valid_until resolved_at =
     (enabled \<and> \<not> ((case valid_from of None \<Rightarrow> False | Some t \<Rightarrow> resolved_at < t)
                    \<or> (case valid_until of None \<Rightarrow> False | Some t \<Rightarrow> resolved_at > t)))"

fun evaluator_status :: "StoredIdentityStatus \<Rightarrow> IdentityStatus" where
  "evaluator_status STORED_ACTIVE = IDENTITY_ACTIVE"
| "evaluator_status STORED_DISABLED = IDENTITY_DISABLED"
| "evaluator_status STORED_ARCHIVED = IDENTITY_ARCHIVED"

text \<open>\<open>at\<close> is the given instant, or the clock of the process when there is none.\<close>

definition resolve_identity_facts :: "instant \<Rightarrow> string option \<Rightarrow> gateway_db \<Rightarrow> IdentityFacts" where
  "resolve_identity_facts now enterprise_identity_id db =
     (case enterprise_identity_id of
        None \<Rightarrow> empty_identity_facts None False IDENTITY_UNRESOLVED
      | Some i \<Rightarrow>
        (case get_identity i db of
           None \<Rightarrow> empty_identity_facts (Some i) False IDENTITY_UNRESOLVED
         | Some identity \<Rightarrow>
             if e_status identity \<noteq> STORED_ACTIVE
             then empty_identity_facts (Some i) True (evaluator_status (e_status identity))
             else
               (case get_user_policy i db of
                  None \<Rightarrow> empty_identity_facts (Some i) True IDENTITY_ACTIVE
                | Some policy \<Rightarrow>
                    if \<not> is_active_policy (up_enabled policy) (up_valid_from policy) (up_valid_until policy) now
                    then empty_identity_facts (Some i) True IDENTITY_ACTIVE
                    else \<lparr>identity_resolved = True, if_enterprise_identity_id = Some i, identity_status = IDENTITY_ACTIVE,
                          if_user_allowed = True, user_permission_scope = up_permission_scope policy,
                          user_allowed_skills = up_allowed_skills policy\<rparr>)))"

definition resolve_identity_resolution_facts :: "instant \<Rightarrow> IdentityResolution \<Rightarrow> gateway_db \<Rightarrow> IdentityFacts" where
  "resolve_identity_resolution_facts now resolution db =
     (case ir_status resolution of
        RESOLUTION_RESOLVED \<Rightarrow> resolve_identity_facts now (ir_enterprise_identity_id resolution) db
      | RESOLUTION_DISABLED \<Rightarrow>
          (let archived = (case Option.bind (ir_enterprise_identity_id resolution) (\<lambda>i. get_identity i db) of
                             None \<Rightarrow> False | Some identity \<Rightarrow> e_status identity = STORED_ARCHIVED) in
           empty_identity_facts (ir_enterprise_identity_id resolution) (ir_enterprise_identity_id resolution \<noteq> None)
             (if archived then IDENTITY_ARCHIVED else IDENTITY_DISABLED))
      | _ \<Rightarrow> empty_identity_facts (ir_enterprise_identity_id resolution) False IDENTITY_UNRESOLVED)"

definition resolve_source_identity_facts :: "instant \<Rightarrow> string \<Rightarrow> string \<Rightarrow> string \<Rightarrow> gateway_db \<Rightarrow> gateway_error + IdentityFacts" where
  "resolve_source_identity_facts now source account_id sender_id db =
     (case resolve_identity source account_id sender_id db of
        Inl e \<Rightarrow> Inl e
      | Inr resolution \<Rightarrow> Inr (resolve_identity_resolution_facts now resolution db))"

definition resolve_conversation_facts :: "string \<Rightarrow> bool option \<Rightarrow> gateway_error + ConversationFacts" where
  "resolve_conversation_facts conversation_type is_mentioned =
     (if conversation_type = CONVERSATION_PRIVATE
      then Inr \<lparr>cf_conversation_type = conversation_type, cf_is_mentioned = None\<rparr>
      else if conversation_type = CONVERSATION_GROUP
      then Inr \<lparr>cf_conversation_type = conversation_type, cf_is_mentioned = is_mentioned\<rparr>
      else Inl (ValueError ''not a valid ConversationType''))"

text \<open>\<open>GatewayPolicyFacts\<close> reads the stored risk levels back as members of the enum, or raises.\<close>

definition risk_members :: "string set \<Rightarrow> gateway_error + RiskLevel set" where
  "risk_members values =
     (if values \<subseteq> risk_value ` set risk_levels then Inr {r \<in> set risk_levels. risk_value r \<in> values}
      else Inl (ValueError ''not a valid RiskLevel''))"

definition resolve_gateway_policy_facts :: "gateway_db \<Rightarrow> gateway_error + GatewayPolicyFacts" where
  "resolve_gateway_policy_facts db =
     (case get_gateway_policy DEFAULT_GATEWAY_POLICY_KEY db of
        None \<Rightarrow> Inr \<lparr>system_permission_scope = {}, system_allowed_skills = {}, gp_allowed_risk_levels = {}\<rparr>
      | Some policy \<Rightarrow>
          if \<not> gap_enabled policy
          then Inr \<lparr>system_permission_scope = {}, system_allowed_skills = {}, gp_allowed_risk_levels = {}\<rparr>
          else map_sum id (\<lambda>risks. \<lparr>system_permission_scope = gap_permission_scope policy,
                 system_allowed_skills = gap_allowed_skills policy, gp_allowed_risk_levels = risks\<rparr>)
               (risk_members (gap_allowed_risk_levels policy)))"

section \<open>What the tables promise\<close>

lemma get_mapping_self: "get_mapping (s_platform m) (s_account_id m) (s_sender_id m) db = lookup_by mapping_key (mapping_key m) (identity_mappings db)"
  by (simp add: get_mapping_def mapping_key_def)

interpretation mapping_table: keyed_table "get_mapping (s_platform m) (s_account_id m) (s_sender_id m)" insert_mapping m for m
proof (unfold_locales, goal_cases)
  case (1 u v)
  then show ?case by (auto simp: get_mapping_self insert_mapping_def intro: lookup_by_snoc split: if_splits)
next
  case (2 u r)
  then show ?case using lookup_by_taken [of mapping_key "mapping_key m" "identity_mappings u" r m]
    by (simp add: get_mapping_self insert_mapping_def mapping_table_ok_def)
qed

interpretation user_policy_table: keyed_table "get_user_policy (up_enterprise_identity_id p)" insert_user_policy p for p
proof (unfold_locales, goal_cases)
  case (1 u v)
  then show ?case by (auto simp: get_user_policy_def insert_user_policy_def intro: lookup_by_snoc split: if_splits)
next
  case (2 u r)
  then show ?case using lookup_by_taken [of up_enterprise_identity_id "up_enterprise_identity_id p" "user_policies u" r p]
    by (simp add: get_user_policy_def insert_user_policy_def user_policy_table_ok_def)
qed

interpretation gateway_policy_table: keyed_table "get_gateway_policy (gap_policy_key p)" insert_gateway_policy p for p
proof (unfold_locales, goal_cases)
  case (1 u v)
  then show ?case by (auto simp: get_gateway_policy_def insert_gateway_policy_def intro: lookup_by_snoc split: if_splits)
next
  case (2 u r)
  then show ?case using lookup_by_taken [of gap_policy_key "gap_policy_key p" "gateway_policies u" r p]
    by (simp add: get_gateway_policy_def insert_gateway_policy_def gateway_policy_table_ok_def)
qed

lemma lookup_by_written:
  assumes "lookup_by key k rows = Some r" "q r" "key w = k"
  shows "lookup_by key k (update_where q (\<lambda>_. w) rows) = Some w"
  using assms by (induction rows) (auto simp: lookup_by_def update_where_def split: if_splits)

text \<open>A policy that was set is the policy the key finds, with every column as it was given.\<close>

lemma policy_store_upsert_user_stored:
  assumes "policy_store_upsert_user race ck row db = (Inr (p, created), db')"
  shows "get_user_policy (up_enterprise_identity_id row) db' = Some p
    \<and> up_enabled p = up_enabled row \<and> up_permission_scope p = up_permission_scope row
    \<and> up_allowed_skills p = up_allowed_skills row \<and> up_valid_from p = up_valid_from row
    \<and> up_valid_until p = up_valid_until row"
proof -
  obtain q new db1 where put:
      "get_or_insert (get_user_policy (up_enterprise_identity_id row)) insert_user_policy row race db = (Inr (q, new), db1)"
    using assms unfolding policy_store_upsert_user_def by (auto split: prod.splits sum.splits)
  note stored = user_policy_table.answer_is_stored [OF put]
  show ?thesis
  proof (cases new)
    case True
    then have "q = row" using put user_policy_table.created_is_row [of row race db q db1] by simp
    with put stored assms True show ?thesis
      by (simp add: policy_store_upsert_user_def)
  next
    case False
    have "up_enterprise_identity_id q = up_enterprise_identity_id row"
      using lookup_by_Some [OF stored [unfolded get_user_policy_def]] by simp
    with put stored assms False show ?thesis
      by (auto simp: policy_store_upsert_user_def update_user_policy_def get_user_policy_def Let_def
          intro!: lookup_by_written split: if_splits)
  qed
qed

lemma upsert_user_policy_stored:
  assumes "upsert_user_policy race ck uuid i enabled scope skills valid_from valid_until db = (Inr p, db')"
  shows "get_user_policy (py_strip i) db' = Some p \<and> up_enabled p = enabled
    \<and> schema_strings scope = Inr (up_permission_scope p) \<and> schema_strings skills = Inr (up_allowed_skills p)
    \<and> up_valid_from p = map_option as_utc valid_from \<and> up_valid_until p = map_option as_utc valid_until"
  using assms unfolding upsert_user_policy_def
  by (auto dest!: checked_InrD policy_store_upsert_user_stored simp: schema_string_Inr
      split: if_splits prod.splits sum.splits)

section \<open>Denial by default\<close>

lemma resolve_identity_facts_allowed:
  assumes "if_user_allowed (resolve_identity_facts now i db)"
  shows "\<exists>j e u. i = Some j \<and> get_identity j db = Some e \<and> e_status e = STORED_ACTIVE \<and> get_user_policy j db = Some u
    \<and> is_active_policy (up_enabled u) (up_valid_from u) (up_valid_until u) now
    \<and> user_permission_scope (resolve_identity_facts now i db) = up_permission_scope u
    \<and> user_allowed_skills (resolve_identity_facts now i db) = up_allowed_skills u
    \<and> if_enterprise_identity_id (resolve_identity_facts now i db) = i"
  using assms by (auto simp: resolve_identity_facts_def empty_identity_facts_def split: option.splits if_splits)

lemma resolution_facts_allowed:
  assumes "if_user_allowed (resolve_identity_resolution_facts now r db)"
  shows "ir_status r = RESOLUTION_RESOLVED
    \<and> resolve_identity_resolution_facts now r db = resolve_identity_facts now (ir_enterprise_identity_id r) db"
  using assms by (auto simp: resolve_identity_resolution_facts_def empty_identity_facts_def Let_def
      split: IdentityResolutionStatus.splits if_splits)

lemma resolve_identity_resolved:
  assumes "resolve_identity p a s db = Inr r" "ir_status r = RESOLUTION_RESOLVED"
  shows "\<exists>m e. list_mappings (py_strip p) (py_strip a) (py_strip s) db = [m] \<and> s_enabled m
    \<and> get_identity (s_enterprise_identity_id m) db = Some e \<and> e_status e = STORED_ACTIVE
    \<and> ir_enterprise_identity_id r = Some (s_enterprise_identity_id m) \<and> e_id e = s_enterprise_identity_id m"
  using assms lookup_by_Some unfolding resolve_identity_def get_identity_def
  by (fastforce simp: schema_string_Inr split: sum.splits list.splits option.splits if_splits)

text \<open>The gateway policy that grants something is the default policy and it is enabled.\<close>

lemma resolve_gateway_policy_facts_risk:
  assumes "resolve_gateway_policy_facts db = Inr g" "r \<in> gp_allowed_risk_levels g"
  shows "\<exists>q. get_gateway_policy DEFAULT_GATEWAY_POLICY_KEY db = Some q \<and> gap_enabled q
    \<and> risk_value r \<in> gap_allowed_risk_levels q \<and> system_permission_scope g = gap_permission_scope q
    \<and> system_allowed_skills g = gap_allowed_skills q"
  using assms by (auto simp: resolve_gateway_policy_facts_def risk_members_def split: option.splits if_splits)

text \<open>Disabling a mapping takes the sender's identity away.\<close>

lemma disable_mapping_answer:
  assumes "disable_mapping ck p a s db = (Inr m, db')"
  obtains x where "get_mapping (py_strip p) (py_strip a) (py_strip s) db = Some x"
    and "m = (if s_enabled x then x\<lparr>s_enabled := False, s_updated_at := db_now ck\<rparr> else x)"
    and "db' = (if s_enabled x then db\<lparr>identity_mappings := update_where (\<lambda>y. s_id y = s_id x)
                  (\<lambda>y. y\<lparr>s_enabled := False, s_updated_at := db_now ck\<rparr>) (identity_mappings db)\<rparr> else db)"
proof -
  from assms have "schema_string 64 p = Inr (py_strip p)" "schema_string 255 a = Inr (py_strip a)"
      "schema_string 255 s = Inr (py_strip s)"
    unfolding disable_mapping_def by (auto dest!: checked_InrD simp: schema_string_Inr)
  with assms have "(case get_mapping (py_strip p) (py_strip a) (py_strip s) db of
          None \<Rightarrow> (Inl (IdentityFailure MappingNotFoundError), db)
        | Some m \<Rightarrow>
            if s_enabled m
            then (let f = (\<lambda>x. x\<lparr>s_enabled := False, s_updated_at := db_now ck\<rparr>) in
                  (Inr (f m), db\<lparr>identity_mappings := update_where (\<lambda>x. s_id x = s_id m) f (identity_mappings db)\<rparr>))
            else (Inr m, db)) = (Inr m, db')" by (simp add: disable_mapping_def)
  with that show thesis by (simp add: Let_def split: option.splits if_splits)
qed

lemma disable_mapping_lists:
  assumes "disable_mapping ck p a s db = (Inr m, db')" "mapping_table_ok (identity_mappings db)"
  shows "\<not> s_enabled m \<and> (\<forall>x\<in>set (list_mappings (py_strip p) (py_strip a) (py_strip s) db'). \<not> s_enabled x)"
proof -
  obtain x where x: "get_mapping (py_strip p) (py_strip a) (py_strip s) db = Some x"
    and m: "m = (if s_enabled x then x\<lparr>s_enabled := False, s_updated_at := db_now ck\<rparr> else x)"
    and db': "db' = (if s_enabled x then db\<lparr>identity_mappings := update_where (\<lambda>y. s_id y = s_id x)
                  (\<lambda>y. y\<lparr>s_enabled := False, s_updated_at := db_now ck\<rparr>) (identity_mappings db)\<rparr> else db)"
    using disable_mapping_answer [OF assms(1)] by metis
  have only: "y = x" if "y \<in> set (identity_mappings db)" "mapping_key y = (py_strip p, py_strip a, py_strip s)" for y
    using lookup_by_Some [OF x [unfolded get_mapping_def]] assms(2) that
    by (auto simp: mapping_table_ok_def distinct_map inj_on_def)
  have off: "\<not> s_enabled y" if "y \<in> set (identity_mappings db')" "mapping_key y = (py_strip p, py_strip a, py_strip s)" for y
  proof (cases "s_enabled x")
    case True
    with that(1) db' obtain z where "z \<in> set (identity_mappings db)"
        "y = (if s_id z = s_id x then z\<lparr>s_enabled := False, s_updated_at := db_now ck\<rparr> else z)"
      by (auto simp: set_update_where)
    then show ?thesis using that(2) only [of z] by (cases "s_id z = s_id x") (simp_all add: mapping_key_def)
  next
    case False
    then show ?thesis using that only [of y] db' by simp
  qed
  with m show ?thesis by (simp add: list_mappings_def)
qed

lemma disabled_mapping_resolves_no_one:
  assumes "disable_mapping ck p a s db = (Inr m, db')" "mapping_table_ok (identity_mappings db)"
    and "resolve_source_identity_facts now p a s db' = Inr f"
  shows "\<not> if_user_allowed f"
proof
  assume "if_user_allowed f"
  from assms(3) obtain r where r: "resolve_identity p a s db' = Inr r" "f = resolve_identity_resolution_facts now r db'"
    by (auto simp: resolve_source_identity_facts_def split: sum.splits)
  with \<open>if_user_allowed f\<close> have "ir_status r = RESOLUTION_RESOLVED" using resolution_facts_allowed by blast
  from resolve_identity_resolved [OF r(1) this] disable_mapping_lists [OF assms(1,2)] show False by auto
qed

end
