(* ===== verification/Thread_Keys.thy ===== *)
theory Thread_Keys
  imports Gateway_Schema Gateway_Digest
begin

text \<open>
  Thread keys (\<open>workspace/thread_keys.py\<close>): the text that names the AI thread of a conversation,
  readable while it is short and a digest otherwise, and the digest of the route in the second
  version. The standard library functions behind them are definitions: \<open>str.casefold\<close>, the UTF-8
  encoding, \<open>json.dumps(x, ensure_ascii=False, sort_keys=True, separators=(",", ":"))\<close> and
  \<open>urllib.parse.quote\<close>. Both encodings are prefix codes (locale \<open>prefix_code\<close>), from which the
  lemmas derive that a key determines the conversation it was built from.
\<close>

section \<open>Encodings\<close>

text \<open>
  \<open>str.casefold\<close> on the modelled code points; the micro sign, whose folding is a code point
  above them, is kept.
\<close>

definition casefold_char :: "char \<Rightarrow> string" where
  "casefold_char c =
     (let n = (of_char c :: nat) in
      if (65 \<le> n \<and> n \<le> 90) \<or> (192 \<le> n \<and> n \<le> 222 \<and> n \<noteq> 215) then [char_of (n + 32)]
      else if n = 223 then ''ss''
      else [c])"

definition py_casefold :: "string \<Rightarrow> string" where
  "py_casefold s = concat (map casefold_char s)"

definition utf8_char :: "char \<Rightarrow> string" where
  "utf8_char c =
     (let n = (of_char c :: nat) in
      if n < 128 then [c] else [char_of (192 + n div 64), char_of (128 + n mod 64)])"

text \<open>A character inside a JSON string, encoded as UTF-8.\<close>

definition json_char :: "char \<Rightarrow> string" where
  "json_char c =
     (let n = (of_char c :: nat) in
      if n < 32 \<or> n = 34 \<or> n = 92 then escape_char c else utf8_char c)"

definition utf8_dumps_string :: "string \<Rightarrow> string" where
  "utf8_dumps_string s = [CHR 0x22] @ concat (map json_char s) @ [CHR 0x22]"

text \<open>The values the canonical objects hold: strings, the version and \<open>None\<close>.\<close>

fun utf8_dumps :: "json \<Rightarrow> string" where
  "utf8_dumps (JStr s) = utf8_dumps_string s"
| "utf8_dumps (JInt n) = int_str n"
| "utf8_dumps (JBool b) = (if b then ''true'' else ''false'')"
| "utf8_dumps JNull = ''null''"
| "utf8_dumps (JList xs) = ''['' @ join_comma (map utf8_dumps xs) @ '']''"
| "utf8_dumps (JObj kvs) =
     ''{'' @ join_comma (map (\<lambda>(k, t). utf8_dumps_string k @ '':'' @ t)
               (sort_key fst (map (\<lambda>(k, v). (k, utf8_dumps v)) kvs))) @ ''}''"

text \<open>\<open>quote(value, safe="-._~@")\<close>.\<close>

definition segment_safe :: "char \<Rightarrow> bool" where
  "segment_safe c =
     (let n = (of_char c :: nat) in
      (48 \<le> n \<and> n \<le> 57) \<or> (65 \<le> n \<and> n \<le> 90) \<or> (97 \<le> n \<and> n \<le> 122) \<or> n = 95
      \<or> n = 45 \<or> n = 46 \<or> n = 126 \<or> n = 64)"

definition upper_hex :: "nat \<Rightarrow> char" where
  "upper_hex n = char_of (if n < 10 then 48 + n else 55 + n)"

definition percent_byte :: "char \<Rightarrow> string" where
  "percent_byte b = (let n = (of_char b :: nat) in [CHR ''%'', upper_hex (n div 16), upper_hex (n mod 16)])"

definition quote_char :: "char \<Rightarrow> string" where
  "quote_char c = (if segment_safe c then [c] else concat (map percent_byte (utf8_char c)))"

definition encode_segment :: "string \<Rightarrow> string" where
  "encode_segment s = concat (map quote_char s)"

section \<open>Keys\<close>

definition THREAD_KEY_VERSION :: int where "THREAD_KEY_VERSION = 1"
definition THREAD_KEY_V2_VERSION :: int where "THREAD_KEY_V2_VERSION = 2"
definition THREAD_KEY_MAX_LENGTH :: nat where "THREAD_KEY_MAX_LENGTH = 96"

fun thread_type_value :: "ThreadType \<Rightarrow> string" where
  "thread_type_value THREAD_PRIVATE = ''private''"
| "thread_type_value THREAD_GROUP = ''group''"

fun thread_policy_value :: "ThreadPolicy \<Rightarrow> string" where
  "thread_policy_value PRIVATE_SENDER = ''private_sender''"
| "thread_policy_value GROUP_SHARED = ''group_shared''"
| "thread_policy_value GROUP_SENDER = ''group_sender''"

definition thread_type_of_value :: "string \<Rightarrow> ThreadType option" where
  "thread_type_of_value s = find (\<lambda>t. thread_type_value t = s) [THREAD_PRIVATE, THREAD_GROUP]"

definition thread_policy_of_value :: "string \<Rightarrow> ThreadPolicy option" where
  "thread_policy_of_value s = find (\<lambda>p. thread_policy_value p = s) [PRIVATE_SENDER, GROUP_SHARED, GROUP_SENDER]"

definition required_field :: "string option \<Rightarrow> string \<Rightarrow> gateway_error + string" where
  "required_field value field_name =
     (case value of
        None \<Rightarrow> Inl (ValueError (field_name @ '' must not be empty''))
      | Some v \<Rightarrow> if nonblank v then Inr (py_strip v) else Inl (ValueError (field_name @ '' must not be empty'')))"

text \<open>An argument that is a member of the enum or a string.\<close>

definition key_thread_type :: "ThreadType + string \<Rightarrow> gateway_error + ThreadType" where
  "key_thread_type value =
     (case value of
        Inl t \<Rightarrow> Inr t
      | Inr s \<Rightarrow>
        (case required_field (Some s) ''conversation_type'' of
           Inl e \<Rightarrow> Inl e
         | Inr v \<Rightarrow> (case thread_type_of_value (py_casefold v) of
                      None \<Rightarrow> Inl (ValueError ''not a valid ThreadType'') | Some t \<Rightarrow> Inr t)))"

definition key_thread_policy :: "ThreadPolicy + string \<Rightarrow> gateway_error + ThreadPolicy" where
  "key_thread_policy value =
     (case value of
        Inl p \<Rightarrow> Inr p
      | Inr s \<Rightarrow>
        (case required_field (Some s) ''thread_policy'' of
           Inl e \<Rightarrow> Inl e
         | Inr v \<Rightarrow> (case thread_policy_of_value (py_casefold v) of
                      None \<Rightarrow> Inl (ValueError ''not a valid ThreadPolicy'') | Some p \<Rightarrow> Inr p)))"

definition validate_policy :: "ThreadPolicy \<Rightarrow> ThreadType \<Rightarrow> gateway_error + unit" where
  "validate_policy policy thread_type =
     (if policy = PRIVATE_SENDER \<and> thread_type \<noteq> THREAD_PRIVATE
      then Inl (ValueError ''private_sender requires a private conversation'')
      else if policy \<noteq> PRIVATE_SENDER \<and> thread_type \<noteq> THREAD_GROUP
      then Inl (ValueError (thread_policy_value policy @ '' requires a group conversation''))
      else Inr ())"

definition thread_key_canonical :: "ThreadType \<Rightarrow> string \<Rightarrow> string \<Rightarrow> string \<Rightarrow> string" where
  "thread_key_canonical thread_type platform account_id conversation_id =
     utf8_dumps (JObj [(''account_id'', JStr account_id), (''conversation_id'', JStr conversation_id),
       (''platform'', JStr platform), (''thread_type'', JStr (thread_type_value thread_type)),
       (''version'', JInt THREAD_KEY_VERSION)])"

definition readable_thread_key :: "ThreadType \<Rightarrow> string \<Rightarrow> string \<Rightarrow> string \<Rightarrow> string" where
  "readable_thread_key thread_type platform account_id conversation_id =
     ''v'' @ int_str THREAD_KEY_VERSION @ '':'' @ encode_segment platform @ '':'' @ thread_type_value thread_type
       @ '':'' @ encode_segment account_id @ '':'' @ encode_segment conversation_id"

text \<open>\<open>sender_id\<close> is an argument of the function that its body does not use.\<close>

definition build_thread_key ::
  "string option \<Rightarrow> string option \<Rightarrow> string option \<Rightarrow> ThreadType + string \<Rightarrow> string option \<Rightarrow> gateway_error + string"
where
  "build_thread_key platform account_id physical_conversation_id conversation_type sender_id =
     (case key_thread_type conversation_type of
        Inl e \<Rightarrow> Inl e
      | Inr thread_type \<Rightarrow>
        (case required_field platform ''platform'' of
           Inl e \<Rightarrow> Inl e
         | Inr raw_platform \<Rightarrow>
           (case required_field account_id ''account_id'' of
              Inl e \<Rightarrow> Inl e
            | Inr account \<Rightarrow>
              (case required_field physical_conversation_id ''physical_conversation_id'' of
                 Inl e \<Rightarrow> Inl e
               | Inr conversation \<Rightarrow>
                 (let p = py_casefold raw_platform;
                      readable_key = readable_thread_key thread_type p account conversation in
                  if length readable_key \<le> THREAD_KEY_MAX_LENGTH then Inr readable_key
                  else Inr (''v'' @ int_str THREAD_KEY_VERSION @ '':sha256:'' @ thread_type_value thread_type @ '':''
                         @ sha256_hexdigest (thread_key_canonical thread_type p account conversation)))))))"

definition build_private_thread_key :: "string option \<Rightarrow> string option \<Rightarrow> string option \<Rightarrow> gateway_error + string" where
  "build_private_thread_key platform account_id private_chat_id =
     build_thread_key platform account_id private_chat_id (Inl THREAD_PRIVATE) None"

definition build_group_thread_key ::
  "string option \<Rightarrow> string option \<Rightarrow> string option \<Rightarrow> string option \<Rightarrow> gateway_error + string" where
  "build_group_thread_key platform account_id group_chat_id sender_id =
     build_thread_key platform account_id group_chat_id (Inl THREAD_GROUP) None"

definition v2_key_canonical ::
  "string \<Rightarrow> string \<Rightarrow> string \<Rightarrow> string \<Rightarrow> ThreadType \<Rightarrow> string \<Rightarrow> string option \<Rightarrow> ThreadPolicy \<Rightarrow> string" where
  "v2_key_canonical account_id agent_profile_id revision conversation_id thread_type platform sender policy =
     utf8_dumps (JObj [(''account_id'', JStr account_id), (''agent_profile_id'', JStr agent_profile_id),
       (''agent_profile_revision'', JStr revision), (''conversation_id'', JStr conversation_id),
       (''conversation_type'', JStr (thread_type_value thread_type)), (''platform'', JStr platform),
       (''sender_identity_id'', opt_json JStr sender), (''thread_policy'', JStr (thread_policy_value policy)),
       (''version'', JInt THREAD_KEY_V2_VERSION)])"

fun revision_str :: "int + string \<Rightarrow> string" where
  "revision_str (Inl n) = int_str n"
| "revision_str (Inr s) = s"

text \<open>The normalised fields of a second-version key, or the first validation that fails.\<close>

record v2_key_fields =
  vk_account_id :: string
  vk_agent_profile_id :: string
  vk_agent_profile_revision :: string
  vk_conversation_id :: string
  vk_conversation_type :: ThreadType
  vk_platform :: string
  vk_sender_identity_id :: "string option"
  vk_thread_policy :: ThreadPolicy

definition v2_fields ::
  "string option \<Rightarrow> string option \<Rightarrow> string option \<Rightarrow> ThreadType + string \<Rightarrow> string option \<Rightarrow> string option
     \<Rightarrow> (int + string) option \<Rightarrow> ThreadPolicy + string \<Rightarrow> gateway_error + v2_key_fields"
where
  "v2_fields platform account_id physical_conversation_id conversation_type sender_identity_id agent_profile_id
       agent_profile_revision thread_policy =
     (case key_thread_type conversation_type of
        Inl e \<Rightarrow> Inl e
      | Inr thread_type \<Rightarrow>
        (case key_thread_policy thread_policy of
           Inl e \<Rightarrow> Inl e
         | Inr policy \<Rightarrow>
           (case validate_policy policy thread_type of
              Inl e \<Rightarrow> Inl e
            | Inr _ \<Rightarrow>
              (case agent_profile_revision of
                 None \<Rightarrow> Inl (ValueError ''agent_profile_revision must not be empty'')
               | Some revision \<Rightarrow>
                 (case (if policy \<noteq> GROUP_SHARED then map_sum id Some (required_field sender_identity_id ''sender_identity_id'')
                        else Inr None) of
                    Inl e \<Rightarrow> Inl e
                  | Inr sender \<Rightarrow>
                    (case required_field account_id ''account_id'' of
                       Inl e \<Rightarrow> Inl e
                     | Inr account \<Rightarrow>
                       (case required_field agent_profile_id ''agent_profile_id'' of
                          Inl e \<Rightarrow> Inl e
                        | Inr profile \<Rightarrow>
                          (case required_field (Some (revision_str revision)) ''agent_profile_revision'' of
                             Inl e \<Rightarrow> Inl e
                           | Inr rev_text \<Rightarrow>
                             (case required_field physical_conversation_id ''physical_conversation_id'' of
                                Inl e \<Rightarrow> Inl e
                              | Inr conversation \<Rightarrow>
                                (case required_field platform ''platform'' of
                                   Inl e \<Rightarrow> Inl e
                                 | Inr raw_platform \<Rightarrow>
                                     Inr \<lparr>vk_account_id = account, vk_agent_profile_id = profile,
                                          vk_agent_profile_revision = rev_text, vk_conversation_id = conversation,
                                          vk_conversation_type = thread_type, vk_platform = py_casefold raw_platform,
                                          vk_sender_identity_id = sender, vk_thread_policy = policy\<rparr>))))))))))"

definition v2_canonical :: "v2_key_fields \<Rightarrow> string" where
  "v2_canonical k =
     v2_key_canonical (vk_account_id k) (vk_agent_profile_id k) (vk_agent_profile_revision k) (vk_conversation_id k)
       (vk_conversation_type k) (vk_platform k) (vk_sender_identity_id k) (vk_thread_policy k)"

definition build_v2_thread_key ::
  "string option \<Rightarrow> string option \<Rightarrow> string option \<Rightarrow> ThreadType + string \<Rightarrow> string option \<Rightarrow> string option
     \<Rightarrow> (int + string) option \<Rightarrow> ThreadPolicy + string \<Rightarrow> gateway_error + string"
where
  "build_v2_thread_key platform account_id physical_conversation_id conversation_type sender_identity_id agent_profile_id
       agent_profile_revision thread_policy =
     map_sum id (\<lambda>k. ''v'' @ int_str THREAD_KEY_V2_VERSION @ '':sha256:'' @ thread_policy_value (vk_thread_policy k) @ '':''
                     @ sha256_hexdigest (v2_canonical k))
       (v2_fields platform account_id physical_conversation_id conversation_type sender_identity_id agent_profile_id
          agent_profile_revision thread_policy)"

section \<open>Prefix codes\<close>

text \<open>
  A code for characters with a decoder for its first letter, whose words never begin with the
  character that ends a text: a coded text and what follows it are determined by their
  concatenation.
\<close>

locale prefix_code =
  fixes enc :: "char \<Rightarrow> string"
    and dec :: "string \<Rightarrow> char \<times> string"
    and stop :: char
  assumes dec_enc: "dec (enc c @ x) = (c, x)"
    and enc_start: "enc c \<noteq> [] \<and> hd (enc c) \<noteq> stop"
begin

lemma coded_text_inject:
  "concat (map enc s) @ stop # x = concat (map enc t) @ stop # y \<Longrightarrow> s = t \<and> x = y"
proof (induction s arbitrary: t)
  case Nil
  show ?case
  proof (cases t)
    case (Cons d u)
    with Nil.prems have "stop = hd (enc d @ concat (map enc u) @ stop # y)" by (metis append_Nil append_assoc concat.simps list.sel(1) list.simps(8,9))
    with enc_start [of d] show ?thesis by simp
  qed (use Nil.prems in simp)
next
  case (Cons c s)
  show ?case
  proof (cases t)
    case Nil
    with Cons.prems have "hd (enc c @ concat (map enc s) @ stop # x) = stop" by simp
    with enc_start [of c] show ?thesis by simp
  next
    case (Cons d u)
    with Cons.prems have e: "enc c @ (concat (map enc s) @ stop # x) = enc d @ (concat (map enc u) @ stop # y)" by simp
    then have "(c, concat (map enc s) @ stop # x) = (d, concat (map enc u) @ stop # y)"
      using dec_enc by metis
    with Cons.IH [of u] Cons show ?thesis by simp
  qed
qed

lemma coded_inject: "concat (map enc s) = concat (map enc t) \<longleftrightarrow> s = t"
  using coded_text_inject [of s "[]" t "[]"] by auto

end

subsection \<open>The JSON text of a string\<close>

definition hex_value :: "char \<Rightarrow> nat" where
  "hex_value c = (let n = (of_char c :: nat) in if n < 58 then n - 48 else if n < 91 then n - 55 else n - 87)"

definition json_unescape :: "char \<Rightarrow> char" where
  "json_unescape c =
     (if c = CHR ''n'' then char_of (10::nat) else if c = CHR ''r'' then char_of (13::nat)
      else if c = CHR ''t'' then char_of (9::nat) else if c = CHR ''f'' then char_of (12::nat)
      else if c = CHR ''b'' then char_of (8::nat) else c)"

fun json_decode :: "string \<Rightarrow> char \<times> string" where
  "json_decode (a # b # c # d # e # f # x) =
     (if a = CHR 0x5C then
        if b = CHR ''u'' then (char_of (16 * hex_value e + hex_value f), x) else (json_unescape b, c # d # e # f # x)
      else if (of_char a :: nat) < 128 then (a, b # c # d # e # f # x)
      else (char_of (64 * (of_char a - 192) + (of_char b - 128 :: nat)), c # d # e # f # x))"
| "json_decode (a # b # x) =
     (if a = CHR 0x5C then (json_unescape b, x)
      else if (of_char a :: nat) < 128 then (a, b # x)
      else (char_of (64 * (of_char a - 192) + (of_char b - 128 :: nat)), x))"
| "json_decode [a] = (a, [])"
| "json_decode [] = (CHR 0x00, [])"

lemma json_decode_two:
  "a \<noteq> CHR 0x5C \<or> b \<noteq> CHR ''u'' \<Longrightarrow> json_decode (a # b # x) =
     (if a = CHR 0x5C then (json_unescape b, x)
      else if (of_char a :: nat) < 128 then (a, b # x)
      else (char_of (64 * (of_char a - 192) + (of_char b - 128 :: nat)), x))"
  by (cases "a # b # x" rule: json_decode.cases) auto

lemma json_decode_plain: "a \<noteq> CHR 0x5C \<Longrightarrow> (of_char a :: nat) < 128 \<Longrightarrow> json_decode (a # x) = (a, x)"
  by (cases x) (auto simp: json_decode_two)

lemma hex_value_digit: "n < 16 \<Longrightarrow> hex_value (hex_digit n) = n"
  by (auto simp: hex_value_def hex_digit_def Let_def)

lemma char_of_nat_eq: "n < 256 \<Longrightarrow> char_of n = c \<longleftrightarrow> n = (of_char c :: nat)"
  by (metis char_of_char of_char_of mod_less)

lemma json_decode_json_char: "json_decode (json_char c @ x) = (c, x)"
proof -
  define n where "n = (of_char c :: nat)"
  have c: "c = char_of n" and n: "n < 256" by (simp_all add: n_def)
  consider "n \<in> {8, 9, 10, 12, 13, 34, 92}" | "n < 32" "n \<notin> {8, 9, 10, 12, 13}" | "32 \<le> n" "n < 128" "n \<noteq> 34" "n \<noteq> 92" | "128 \<le> n"
    by force
  then show ?thesis
  proof cases
    case 1
    then show ?thesis
      by (auto simp: c json_char_def escape_char_def json_decode_two json_unescape_def)
        (simp_all add: eq_commute [of "CHR 0x22"] eq_commute [of "CHR 0x5C"] char_of_nat_eq)
  next
    case 2
    then have "16 * (n div 16) + n mod 16 = n" "n div 16 < 16" "n mod 16 < 16" by auto
    with 2 show ?thesis
      by (simp add: json_char_def escape_char_def n_def [symmetric] Let_def hex_value_digit) (simp add: c)
  next
    case 3
    then have "c \<noteq> CHR 0x5C" by (auto simp: n_def)
    with 3 show ?thesis by (simp add: json_char_def utf8_char_def n_def [symmetric] Let_def json_decode_plain)
  next
    case 4
    have a: "(of_char (char_of (192 + n div 64) :: char) :: nat) = 192 + n div 64"
      and b: "(of_char (char_of (128 + n mod 64) :: char) :: nat) = 128 + n mod 64"
      using n by simp_all
    have "char_of (192 + n div 64) \<noteq> CHR 0x5C" using n by (subst char_of_nat_eq) auto
    with 4 a b show ?thesis
      by (simp add: json_char_def utf8_char_def n_def [symmetric] Let_def json_decode_two) (simp add: c)
  qed
qed

lemma json_char_start: "json_char c \<noteq> [] \<and> hd (json_char c) \<noteq> CHR 0x22"
proof -
  define n where "n = (of_char c :: nat)"
  have "n < 256" by (simp add: n_def)
  then have "char_of (192 + n div 64) \<noteq> CHR 0x22" by (subst char_of_nat_eq) auto
  moreover have "n \<noteq> 34 \<Longrightarrow> c \<noteq> CHR 0x22" by (auto simp: n_def)
  ultimately show ?thesis
    by (simp add: json_char_def escape_char_def utf8_char_def n_def [symmetric] Let_def)
qed

interpretation json_text: prefix_code json_char json_decode "CHR 0x22"
  by unfold_locales (rule json_decode_json_char, rule json_char_start)


lemma utf8_dumps_string_inject: "utf8_dumps_string s @ x = utf8_dumps_string t @ y \<longleftrightarrow> s = t \<and> x = y"
  using json_text.coded_text_inject [of s x t y] by (auto simp: utf8_dumps_string_def)

lemma utf8_dumps_string_eq [simp]: "utf8_dumps_string s = utf8_dumps_string t \<longleftrightarrow> s = t"
  using utf8_dumps_string_inject [of s "[]" t "[]"] by simp

subsection \<open>The quoted segment\<close>

fun quote_decode :: "string \<Rightarrow> char \<times> string" where
  "quote_decode (a # b # c # x) =
     (if a = CHR ''%'' then
        let n = 16 * hex_value b + hex_value c in
        if n < 128 then (char_of n, x)
        else (char_of (64 * (n - 192) + (16 * hex_value (x ! 1) + hex_value (x ! 2) - 128)), drop 3 x)
      else (a, b # c # x))"
| "quote_decode (a # x) = (a, x)"
| "quote_decode [] = (CHR 0x00, [])"

lemma quote_decode_plain: "a \<noteq> CHR ''%'' \<Longrightarrow> quote_decode (a # x) = (a, x)"
  by (cases "a # x" rule: quote_decode.cases) auto

lemma hex_value_upper: "n < 16 \<Longrightarrow> hex_value (upper_hex n) = n"
  by (auto simp: hex_value_def upper_hex_def Let_def)

lemma percent_safe: "\<not> segment_safe (CHR ''%'')" "\<not> segment_safe (CHR '':'')"
  by (simp_all add: segment_safe_def)

lemma quote_char_code:
  "quote_char c = (if segment_safe c then [c]
     else let n = of_char c in
       if n < 128 then [CHR ''%'', upper_hex (n div 16), upper_hex (n mod 16)]
       else [CHR ''%'', upper_hex ((192 + n div 64) div 16), upper_hex ((192 + n div 64) mod 16),
             CHR ''%'', upper_hex ((128 + n mod 64) div 16), upper_hex ((128 + n mod 64) mod 16)])"
proof -
  have "(of_char c :: nat) div 64 < 64"
    using nat_of_char_less_256 [of c] less_mult_imp_div_less [of "of_char c" 64 64] by linarith
  then show ?thesis by (simp add: quote_char_def utf8_char_def percent_byte_def Let_def)
qed

lemma quote_decode_quote_char: "quote_decode (quote_char c @ x) = (c, x)"
proof (cases "segment_safe c")
  case True
  with percent_safe have "c \<noteq> CHR ''%''" by auto
  with True show ?thesis by (simp add: quote_char_def quote_decode_plain)
next
  case False
  define n where "n = (of_char c :: nat)"
  have c: "c = char_of n" and n: "n < 256" by (simp_all add: n_def)
  show ?thesis
  proof (cases "n < 128")
    case True
    then have "16 * (n div 16) + n mod 16 = n" "n div 16 < 16" by auto
    with True False show ?thesis
      by (simp add: quote_char_code n_def [symmetric] Let_def hex_value_upper) (simp add: c)
  next
    case big: False
    define a b where "a = 192 + n div 64" and "b = 128 + n mod 64"
    have ab: "16 * (a div 16) + a mod 16 = a" "16 * (b div 16) + b mod 16 = b" "a div 16 < 16" "b div 16 < 16" "\<not> a < 128"
      using n by (auto simp: a_def b_def)
    have "64 * (a - 192) + (b - 128) = n" by (simp add: a_def b_def)
    with ab big False show ?thesis
      by (simp add: quote_char_code n_def [symmetric] a_def [symmetric] b_def [symmetric] Let_def hex_value_upper) (simp add: c)
  qed
qed

lemma upper_hex_no_colon: "n < 16 \<Longrightarrow> upper_hex n \<noteq> CHR '':''"
  by (auto simp: upper_hex_def char_of_nat_eq)

lemma quote_char_no_colon: "CHR '':'' \<notin> set (quote_char c)"
proof -
  define n where "n = (of_char c :: nat)"
  have "n < 256" by (simp add: n_def)
  then have "CHR '':'' \<noteq> upper_hex (n div 16)" "CHR '':'' \<noteq> upper_hex ((192 + n div 64) div 16)"
      "CHR '':'' \<noteq> upper_hex ((128 + n mod 64) div 16)" "\<And>k. CHR '':'' \<noteq> upper_hex (k mod 16)"
    by (auto intro!: upper_hex_no_colon [symmetric])
  with percent_safe show ?thesis by (auto simp: quote_char_code n_def [symmetric] Let_def)
qed

interpretation segment_text: prefix_code quote_char quote_decode "CHR '':''"
proof
  show "quote_decode (quote_char c @ x) = (c, x)" for c x by (rule quote_decode_quote_char)
  show "quote_char c \<noteq> [] \<and> hd (quote_char c) \<noteq> CHR '':''" for c
  proof -
    have "quote_char c \<noteq> []" by (simp add: quote_char_code Let_def)
    with quote_char_no_colon [of c] hd_in_set [of "quote_char c"] show ?thesis by metis
  qed
qed

lemma encode_segment_no_colon: "CHR '':'' \<notin> set (encode_segment s)"
  using quote_char_no_colon by (auto simp: encode_segment_def)

lemma encode_segment_inject: "encode_segment s = encode_segment t \<longleftrightarrow> s = t"
  unfolding encode_segment_def by (rule segment_text.coded_inject)

lemma encode_segment_split:
  "encode_segment s @ CHR '':'' # x = encode_segment t @ CHR '':'' # y \<longleftrightarrow> s = t \<and> x = y"
  using segment_text.coded_text_inject [of s x t y] by (auto simp: encode_segment_def)


section \<open>A key determines its conversation\<close>

lemma thread_type_value_inject [simp]: "thread_type_value t = thread_type_value u \<longleftrightarrow> t = u"
  by (cases t; cases u) simp_all

lemma thread_policy_value_inject [simp]: "thread_policy_value p = thread_policy_value q \<longleftrightarrow> p = q"
  by (cases p; cases q) simp_all

lemma thread_type_split:
  "thread_type_value t @ CHR '':'' # x = thread_type_value u @ CHR '':'' # y \<longleftrightarrow> t = u \<and> x = y"
  by (cases t; cases u) simp_all

lemma thread_policy_split:
  "thread_policy_value p @ CHR '':'' # x = thread_policy_value q @ CHR '':'' # y \<longleftrightarrow> p = q \<and> x = y"
  by (cases p; cases q) simp_all

lemma int_str_versions: "int_str THREAD_KEY_VERSION = ''1''" "int_str THREAD_KEY_V2_VERSION = ''2''"
  by (simp_all add: THREAD_KEY_VERSION_def THREAD_KEY_V2_VERSION_def int_str_def nat_str.simps char_of_nat_eq)

lemma thread_key_canonical_text:
  "thread_key_canonical t p a c =
     ''{'' @ utf8_dumps_string ''account_id'' @ '':'' @ utf8_dumps_string a @ '','' @ utf8_dumps_string ''conversation_id'' @ '':''
     @ utf8_dumps_string c @ '','' @ utf8_dumps_string ''platform'' @ '':'' @ utf8_dumps_string p @ '','' @ utf8_dumps_string ''thread_type'' @ '':''
     @ utf8_dumps_string (thread_type_value t) @ '','' @ utf8_dumps_string ''version'' @ '':'' @ ''1}''"
  unfolding thread_key_canonical_def by (simp add: int_str_versions)

lemma v2_key_canonical_text:
  "v2_key_canonical a i r c t p s q =
     ''{'' @ utf8_dumps_string ''account_id'' @ '':'' @ utf8_dumps_string a @ '','' @ utf8_dumps_string ''agent_profile_id'' @ '':''
     @ utf8_dumps_string i @ '','' @ utf8_dumps_string ''agent_profile_revision'' @ '':'' @ utf8_dumps_string r @ '',''
     @ utf8_dumps_string ''conversation_id'' @ '':'' @ utf8_dumps_string c @ '','' @ utf8_dumps_string ''conversation_type'' @ '':''
     @ utf8_dumps_string (thread_type_value t) @ '','' @ utf8_dumps_string ''platform'' @ '':'' @ utf8_dumps_string p @ '',''
     @ utf8_dumps_string ''sender_identity_id'' @ '':'' @ utf8_dumps (opt_json JStr s) @ '','' @ utf8_dumps_string ''thread_policy'' @ '':''
     @ utf8_dumps_string (thread_policy_value q) @ '','' @ utf8_dumps_string ''version'' @ '':'' @ ''2}''"
  unfolding v2_key_canonical_def by (simp add: int_str_versions)

lemma thread_key_canonical_inject:
  "thread_key_canonical t p a c = thread_key_canonical t' p' a' c' \<longleftrightarrow> t = t' \<and> p = p' \<and> a = a' \<and> c = c'"
  unfolding thread_key_canonical_text by (simp add: utf8_dumps_string_inject) blast

lemma opt_text_inject:
  "utf8_dumps (opt_json JStr s) @ '','' @ x = utf8_dumps (opt_json JStr s') @ '','' @ y \<longleftrightarrow> s = s' \<and> x = y"
  by (cases s; cases s') (simp_all add: opt_json_def utf8_dumps_string_inject, simp_all add: utf8_dumps_string_def)

lemma v2_canonical_inject: "v2_canonical k = v2_canonical k' \<longleftrightarrow> k = k'"
  unfolding v2_canonical_def v2_key_canonical_text
  by (simp add: utf8_dumps_string_inject opt_text_inject [simplified] v2_key_fields.equality) (cases k; cases k'; auto)


lemma readable_thread_key_inject:
  "readable_thread_key t p a c = readable_thread_key t' p' a' c' \<longleftrightarrow> t = t' \<and> p = p' \<and> a = a' \<and> c = c'"
  by (auto simp: readable_thread_key_def encode_segment_split thread_type_split encode_segment_inject)

definition colons :: "string \<Rightarrow> nat" where
  "colons s = length (filter (\<lambda>c. c = CHR '':'') s)"

lemma colons_append [simp]: "colons (s @ t) = colons s + colons t"
  by (simp add: colons_def)

lemma colons_none: "CHR '':'' \<notin> set s \<Longrightarrow> colons s = 0"
  by (auto simp: colons_def filter_empty_conv)

lemma hexdigest_no_colon: "CHR '':'' \<notin> set (sha256_hexdigest s)"
proof -
  have "CHR '':'' \<noteq> hex_digit n" if "n < 16" for n
  proof
    assume "CHR '':'' = hex_digit n"
    then have "(of_char (hex_digit n) :: nat) = 58" by (simp flip: \<open>CHR '':'' = hex_digit n\<close>)
    with that show False by (simp add: hex_digit_def split: if_splits)
  qed
  then have "\<And>k. CHR '':'' \<noteq> hex_digit (k mod 16)" by simp
  then show ?thesis by (auto simp: sha256_hexdigest_def word_hex_def)
qed

lemma readable_not_digest:
  "readable_thread_key t p a c \<noteq> ''v'' @ int_str THREAD_KEY_VERSION @ '':sha256:'' @ thread_type_value t' @ '':'' @ sha256_hexdigest x"
proof
  assume e: "readable_thread_key t p a c = ''v'' @ int_str THREAD_KEY_VERSION @ '':sha256:'' @ thread_type_value t' @ '':'' @ sha256_hexdigest x"
  have ty: "colons (thread_type_value u) = 0" for u
    by (cases u) (simp_all add: colons_def)
  have "colons (readable_thread_key t p a c) = 4"
    by (simp only: readable_thread_key_def int_str_versions colons_append ty colons_none [OF encode_segment_no_colon])
      (simp add: colons_def)
  moreover have "colons (''v'' @ int_str THREAD_KEY_VERSION @ '':sha256:'' @ thread_type_value t' @ '':'' @ sha256_hexdigest x) = 3"
    by (simp only: int_str_versions colons_append ty colons_none [OF hexdigest_no_colon]) (simp add: colons_def)
  ultimately show False using e by simp
qed

lemma digest_thread_key_inject:
  "''v1:sha256:'' @ thread_type_value t @ '':'' @ x = ''v1:sha256:'' @ thread_type_value t' @ '':'' @ y \<longleftrightarrow> t = t' \<and> x = y"
  by (simp add: thread_type_split)

lemma required_field_Some: "required_field (Some v) f = Inr x \<longleftrightarrow> nonblank v \<and> x = py_strip v"
  by (auto simp: required_field_def)

definition v1_key :: "ThreadType \<Rightarrow> string \<Rightarrow> string \<Rightarrow> string \<Rightarrow> string" where
  "v1_key t p a c =
     (if length (readable_thread_key t p a c) \<le> THREAD_KEY_MAX_LENGTH then readable_thread_key t p a c
      else ''v1:sha256:'' @ thread_type_value t @ '':'' @ sha256_hexdigest (thread_key_canonical t p a c))"

lemma build_thread_key_v1:
  assumes "build_thread_key (Some p) (Some a) (Some c) (Inl t) s = Inr k"
  shows "k = v1_key t (py_casefold (py_strip p)) (py_strip a) (py_strip c)"
  using assms unfolding build_thread_key_def v1_key_def
  by (auto simp: key_thread_type_def required_field_Some int_str_versions Let_def split: sum.splits if_splits)

lemma v1_key_inject:
  assumes "THREAD_KEY_MAX_LENGTH < length (readable_thread_key t p a c) \<Longrightarrow> THREAD_KEY_MAX_LENGTH < length (readable_thread_key t' p' a' c')
    \<Longrightarrow> sha256_hexdigest (thread_key_canonical t p a c) = sha256_hexdigest (thread_key_canonical t' p' a' c')
    \<Longrightarrow> thread_key_canonical t p a c = thread_key_canonical t' p' a' c'"
  shows "v1_key t p a c = v1_key t' p' a' c' \<longleftrightarrow> t = t' \<and> p = p' \<and> a = a' \<and> c = c'"
proof -
  have mixed: "readable_thread_key u q b d \<noteq> ''v1:sha256:'' @ thread_type_value u' @ '':'' @ sha256_hexdigest x" for u q b d u' x
    using readable_not_digest [of u q b d u' x] by (simp add: int_str_versions)
  show ?thesis unfolding v1_key_def using assms
    by (simp add: readable_thread_key_inject thread_key_canonical_inject mixed [simplified] mixed [symmetric, simplified]
        thread_type_split not_le) (auto simp: not_less [symmetric])
qed

lemma v2_prefix_inject:
  "''v2:sha256:'' @ thread_policy_value t @ '':'' @ x = ''v2:sha256:'' @ thread_policy_value t' @ '':'' @ y \<longleftrightarrow> t = t' \<and> x = y"
  by (simp add: thread_policy_split)

lemma v2_key_inject:
  assumes "sha256_hexdigest (v2_canonical k) = sha256_hexdigest (v2_canonical k') \<Longrightarrow> v2_canonical k = v2_canonical k'"
  shows "''v2:sha256:'' @ thread_policy_value (vk_thread_policy k) @ '':'' @ sha256_hexdigest (v2_canonical k)
       = ''v2:sha256:'' @ thread_policy_value (vk_thread_policy k') @ '':'' @ sha256_hexdigest (v2_canonical k') \<longleftrightarrow> k = k'"
  unfolding v2_prefix_inject using assms v2_canonical_inject by blast

text \<open>Every key fits its column.\<close>

lemma v1_key_length: "length (v1_key t p a c) \<le> THREAD_KEY_MAX_LENGTH"
  by (cases t) (simp_all add: v1_key_def THREAD_KEY_MAX_LENGTH_def)

lemma v2_key_length:
  "build_v2_thread_key platform account conversation type sender profile revision policy = Inr k \<Longrightarrow> length k \<le> THREAD_KEY_MAX_LENGTH"
proof -
  assume "build_v2_thread_key platform account conversation type sender profile revision policy = Inr k"
  then obtain b where "k = ''v'' @ ''2'' @ '':sha256:'' @ thread_policy_value (vk_thread_policy b) @ '':'' @ sha256_hexdigest (v2_canonical b)"
    by (cases "v2_fields platform account conversation type sender profile revision policy")
      (auto simp: build_v2_thread_key_def int_str_versions)
  then show ?thesis by (cases "vk_thread_policy b") (simp_all add: THREAD_KEY_MAX_LENGTH_def)
qed

end
