(* ===== verification/Workspace_Threads.thy ===== *)
theory Workspace_Threads
  imports Identity_Policy Thread_Keys
begin

text \<open>
  Workspaces and AI threads (\<open>workspace/models.py\<close>, \<open>workspace/store.py\<close>,
  \<open>workspace/service.py\<close>, \<open>workspace/thread_resolver.py\<close>): one workspace per identity, one
  thread per key, one binding per conversation of a channel account, one Hermes thread per AI
  thread. \<open>race n\<close> is what other sessions commit before the n-th write of an operation and
  \<open>uuid n\<close> the n-th identifier it draws.
\<close>

section \<open>Tables\<close>

definition workspace_table_ok :: "EmployeeWorkspace list \<Rightarrow> bool" where
  "workspace_table_ok rows \<longleftrightarrow> distinct (map w_id rows) \<and> distinct (map w_enterprise_identity_id rows)"

definition thread_row_ok :: "AIThread \<Rightarrow> bool" where
  "thread_row_ok t \<longleftrightarrow>
     (t_agent_profile_id t = None \<longleftrightarrow> t_thread_policy t = None)
     \<and> (t_agent_profile_id t = None
        \<or> (t_thread_type t = THREAD_PRIVATE \<and> t_thread_policy t = Some PRIVATE_SENDER)
        \<or> (t_thread_type t = THREAD_GROUP \<and> t_thread_policy t \<in> {Some GROUP_SHARED, Some GROUP_SENDER}))"

definition thread_table_ok :: "AIThread list \<Rightarrow> bool" where
  "thread_table_ok rows \<longleftrightarrow> distinct (map t_id rows) \<and> distinct (map t_thread_key rows)
     \<and> distinct (map t_hermes_thread_id (filter (\<lambda>t. t_hermes_thread_id t \<noteq> None) rows))
     \<and> list_all thread_row_ok rows"

definition binding_key :: "ThreadSourceBinding \<Rightarrow> string \<times> string \<times> string" where
  "binding_key b = (b_platform b, b_account_id b, b_physical_conversation_id b)"

definition binding_table_ok :: "ThreadSourceBinding list \<Rightarrow> bool" where
  "binding_table_ok rows \<longleftrightarrow> distinct (map b_id rows) \<and> distinct (map binding_key rows)"

definition insert_workspace :: "EmployeeWorkspace \<Rightarrow> gateway_db \<Rightarrow> gateway_db option" where
  "insert_workspace w db =
     (if workspace_table_ok (workspaces db @ [w]) \<and> w_enterprise_identity_id w \<in> e_id ` set (identities db)
      then Some (db\<lparr>workspaces := workspaces db @ [w]\<rparr>) else None)"

definition insert_thread :: "AIThread \<Rightarrow> gateway_db \<Rightarrow> gateway_db option" where
  "insert_thread t db =
     (if thread_table_ok (ai_threads db @ [t]) \<and> t_workspace_id t \<in> w_id ` set (workspaces db)
      then Some (db\<lparr>ai_threads := ai_threads db @ [t]\<rparr>) else None)"

definition insert_binding :: "ThreadSourceBinding \<Rightarrow> gateway_db \<Rightarrow> gateway_db option" where
  "insert_binding b db =
     (if binding_table_ok (thread_bindings db @ [b]) \<and> b_ai_thread_id b \<in> t_id ` set (ai_threads db)
      then Some (db\<lparr>thread_bindings := thread_bindings db @ [b]\<rparr>) else None)"

text \<open>An update of threads; only the agent profile is a reference an update changes.\<close>

definition update_threads :: "(AIThread \<Rightarrow> bool) \<Rightarrow> (AIThread \<Rightarrow> AIThread) \<Rightarrow> gateway_db \<Rightarrow> gateway_db option" where
  "update_threads q f db =
     (let rows = update_where q f (ai_threads db) in
      if thread_table_ok rows
         \<and> list_all (\<lambda>t. q t \<longrightarrow> t_agent_profile_id (f t) \<in> {t_agent_profile_id t, None} \<union> (Some \<circ> ap_id) ` set (agent_profiles db))
             (ai_threads db)
      then Some (db\<lparr>ai_threads := rows\<rparr>) else None)"

section \<open>The store\<close>

definition get_workspace_for_identity :: "string \<Rightarrow> gateway_db \<Rightarrow> EmployeeWorkspace option" where
  "get_workspace_for_identity enterprise_identity_id db = lookup_by w_enterprise_identity_id enterprise_identity_id (workspaces db)"

definition ensure_workspace ::
  "(gateway_db \<Rightarrow> gateway_db) \<Rightarrow> clocks \<Rightarrow> string \<Rightarrow> string \<Rightarrow> gateway_db \<Rightarrow> (EmployeeWorkspace \<times> bool) outcome" where
  "ensure_workspace race ck uuid enterprise_identity_id db =
     get_or_insert (get_workspace_for_identity enterprise_identity_id) insert_workspace
       \<lparr>w_id = uuid, w_enterprise_identity_id = enterprise_identity_id, w_status = WORKSPACE_ACTIVE,
        w_created_at = db_now ck, w_updated_at = db_now ck, w_last_active_at = db_now ck\<rparr> race db"

definition get_thread :: "string \<Rightarrow> gateway_db \<Rightarrow> AIThread option" where
  "get_thread ai_thread_id db = lookup_by t_id ai_thread_id (ai_threads db)"

definition get_thread_by_key :: "string \<Rightarrow> gateway_db \<Rightarrow> AIThread option" where
  "get_thread_by_key thread_key db = lookup_by t_thread_key thread_key (ai_threads db)"

definition get_thread_by_hermes_thread_id :: "string \<Rightarrow> gateway_db \<Rightarrow> AIThread option" where
  "get_thread_by_hermes_thread_id hermes_thread_id db = lookup_by t_hermes_thread_id (Some hermes_thread_id) (ai_threads db)"

definition compatible_thread_or_raise :: "AIThread \<Rightarrow> ThreadType \<Rightarrow> gateway_error + AIThread" where
  "compatible_thread_or_raise t thread_type =
     (if t_thread_type t \<noteq> thread_type then Inl (WorkspaceFailure (ThreadConflictError (t_workspace_id t) (t_thread_key t)))
      else Inr t)"

definition new_thread :: "clocks \<Rightarrow> string \<Rightarrow> string \<Rightarrow> ThreadType \<Rightarrow> string \<Rightarrow> AIThread" where
  "new_thread ck uuid workspace_id thread_type thread_key =
     \<lparr>t_id = uuid, t_workspace_id = workspace_id, t_agent_profile_id = None, t_thread_type = thread_type,
      t_thread_policy = None, t_thread_key = thread_key, t_status = THREAD_ACTIVE, t_hermes_thread_id = None,
      t_created_at = db_now ck, t_updated_at = db_now ck, t_last_active_at = db_now ck\<rparr>"

definition ensure_thread ::
  "(gateway_db \<Rightarrow> gateway_db) \<Rightarrow> clocks \<Rightarrow> string \<Rightarrow> string \<Rightarrow> ThreadType \<Rightarrow> string \<Rightarrow> gateway_db \<Rightarrow> (AIThread \<times> bool) outcome" where
  "ensure_thread race ck uuid workspace_id thread_type thread_key db =
     (case get_or_insert (get_thread_by_key thread_key) insert_thread (new_thread ck uuid workspace_id thread_type thread_key) race db of
        (Inl e, db') \<Rightarrow> (Inl e, db')
      | (Inr (t, True), db') \<Rightarrow> (Inr (t, True), db')
      | (Inr (t, False), db') \<Rightarrow> (map_sum id (\<lambda>x. (x, False)) (compatible_thread_or_raise t thread_type), db'))"

definition compatible_v2_route_or_raise :: "AIThread \<Rightarrow> string \<Rightarrow> ThreadPolicy \<Rightarrow> gateway_error + AIThread" where
  "compatible_v2_route_or_raise t agent_profile_id thread_policy =
     (if t_agent_profile_id t \<noteq> Some agent_profile_id \<or> t_thread_policy t \<noteq> Some thread_policy
      then Inl (WorkspaceFailure (ThreadRoutingConflictError (t_id t))) else Inr t)"

definition unrouted :: "string \<Rightarrow> AIThread \<Rightarrow> bool" where
  "unrouted i t = (t_id t = i \<and> t_agent_profile_id t = None \<and> t_thread_policy t = None)"

definition bind_v2_route_snapshot ::
  "(nat \<Rightarrow> gateway_db \<Rightarrow> gateway_db) \<Rightarrow> clocks \<Rightarrow> AIThread \<Rightarrow> string \<Rightarrow> ThreadPolicy \<Rightarrow> gateway_db \<Rightarrow> AIThread outcome" where
  "bind_v2_route_snapshot race ck t agent_profile_id policy db =
     (let expected = (if policy = PRIVATE_SENDER then THREAD_PRIVATE else THREAD_GROUP) in
      if t_thread_type t \<noteq> expected
      then (Inl (ValueError (thread_policy_value policy @ '' requires a '' @ thread_type_value expected @ '' thread'')), db)
      else
        (case update_threads (unrouted (t_id t))
                (\<lambda>x. x\<lparr>t_agent_profile_id := Some agent_profile_id, t_thread_policy := Some policy, t_updated_at := db_now ck\<rparr>)
                (race 0 db) of
           None \<Rightarrow> (Inl IntegrityError, race 0 db)
         | Some db1 \<Rightarrow>
             (let db2 = race 1 db1 in
              case get_thread (t_id t) db2 of
                None \<Rightarrow> (Inl InvalidRequestError, db2)
              | Some t' \<Rightarrow> (compatible_v2_route_or_raise t' agent_profile_id policy, db2))))"

definition compatible_hermes_thread_or_raise :: "AIThread \<Rightarrow> string \<Rightarrow> string \<Rightarrow> gateway_error + AIThread" where
  "compatible_hermes_thread_or_raise t requested_ai_thread_id hermes_thread_id =
     (if t_id t \<noteq> requested_ai_thread_id
      then Inl (WorkspaceFailure (HermesThreadConflictError hermes_thread_id (t_id t) requested_ai_thread_id)) else Inr t)"

definition claim_hermes_thread ::
  "(nat \<Rightarrow> gateway_db \<Rightarrow> gateway_db) \<Rightarrow> clocks \<Rightarrow> AIThread \<Rightarrow> string \<Rightarrow> gateway_db \<Rightarrow> AIThread outcome" where
  "claim_hermes_thread race ck t hermes_thread_id db =
     (if t_hermes_thread_id t \<noteq> None then (Inr t, db)
      else
        (case update_threads (\<lambda>x. t_id x = t_id t \<and> t_hermes_thread_id x = None)
                (\<lambda>x. x\<lparr>t_hermes_thread_id := Some hermes_thread_id, t_updated_at := db_now ck\<rparr>) (race 0 db) of
           None \<Rightarrow>
             (case get_thread_by_hermes_thread_id hermes_thread_id (race 0 db) of
                Some existing \<Rightarrow> (compatible_hermes_thread_or_raise existing (t_id t) hermes_thread_id, race 0 db)
              | None \<Rightarrow> (Inl IntegrityError, race 0 db))
         | Some db1 \<Rightarrow>
             (case get_thread (t_id t) (race 1 db1) of
                None \<Rightarrow> (Inl InvalidRequestError, race 1 db1)
              | Some t' \<Rightarrow> (Inr t', race 1 db1))))"

definition advance_hermes_thread ::
  "(gateway_db \<Rightarrow> gateway_db) \<Rightarrow> clocks \<Rightarrow> AIThread \<Rightarrow> string \<Rightarrow> string \<Rightarrow> gateway_db \<Rightarrow> bool outcome" where
  "advance_hermes_thread race ck t expected_hermes_thread_id next_hermes_thread_id db =
     (let q = (\<lambda>x. t_id x = t_id t \<and> t_hermes_thread_id x = Some expected_hermes_thread_id) in
      case update_threads q (\<lambda>x. x\<lparr>t_hermes_thread_id := Some next_hermes_thread_id, t_updated_at := db_now ck\<rparr>) (race db) of
        Some db1 \<Rightarrow> (Inr (rowcount q (ai_threads (race db)) = 1), db1)
      | None \<Rightarrow>
          (case get_thread_by_hermes_thread_id next_hermes_thread_id (race db) of
             Some existing \<Rightarrow>
               (map_sum id (\<lambda>_. False) (compatible_hermes_thread_or_raise existing (t_id t) next_hermes_thread_id), race db)
           | None \<Rightarrow> (Inl IntegrityError, race db)))"

definition get_source_binding :: "string \<Rightarrow> string \<Rightarrow> string \<Rightarrow> gateway_db \<Rightarrow> ThreadSourceBinding option" where
  "get_source_binding platform account_id physical_conversation_id db =
     select_min (\<lambda>b. (b_created_at b, b_id b))
       (filter (\<lambda>b. binding_key b = (platform, account_id, physical_conversation_id)) (thread_bindings db))"

definition compatible_source_binding_or_raise :: "ThreadSourceBinding \<Rightarrow> string \<Rightarrow> gateway_error + ThreadSourceBinding" where
  "compatible_source_binding_or_raise b requested_ai_thread_id =
     (if b_ai_thread_id b \<noteq> requested_ai_thread_id
      then Inl (WorkspaceFailure (ThreadSourceBindingConflictError (b_ai_thread_id b) requested_ai_thread_id)) else Inr b)"

definition ensure_source_binding ::
  "(gateway_db \<Rightarrow> gateway_db) \<Rightarrow> clocks \<Rightarrow> string \<Rightarrow> string \<Rightarrow> string \<Rightarrow> string \<Rightarrow> string \<Rightarrow> string option \<Rightarrow> gateway_db
     \<Rightarrow> (ThreadSourceBinding \<times> bool) outcome"
where
  "ensure_source_binding race ck uuid ai_thread_id platform account_id physical_conversation_id sender_id db =
     (case get_or_insert (get_source_binding platform account_id physical_conversation_id) insert_binding
             \<lparr>b_id = uuid, b_ai_thread_id = ai_thread_id, b_platform = platform, b_account_id = account_id,
              b_physical_conversation_id = physical_conversation_id, b_sender_id = sender_id,
              b_created_at = db_now ck, b_updated_at = db_now ck\<rparr> race db of
        (Inl e, db') \<Rightarrow> (Inl e, db')
      | (Inr (b, True), db') \<Rightarrow> (Inr (b, True), db')
      | (Inr (b, False), db') \<Rightarrow> (map_sum id (\<lambda>x. (x, False)) (compatible_source_binding_or_raise b ai_thread_id), db'))"

text \<open>A thread other rows refer to cannot be deleted.\<close>

definition thread_referenced :: "string \<Rightarrow> gateway_db \<Rightarrow> bool" where
  "thread_referenced i db \<longleftrightarrow> i \<in> d_ai_thread_id ` set (dispatches db) \<or> Some i \<in> m_ai_thread_id ` set (admissions db)
     \<or> i \<in> r_ai_thread_id ` set (responses db)"

definition discard_thread_if_unbound :: "(gateway_db \<Rightarrow> gateway_db) \<Rightarrow> string \<Rightarrow> gateway_db \<Rightarrow> unit outcome" where
  "discard_thread_if_unbound race ai_thread_id db =
     (let db1 = race db;
          q = (\<lambda>t. t_id t = ai_thread_id \<and> t_hermes_thread_id t = None \<and> \<not> list_ex (\<lambda>b. b_ai_thread_id b = t_id t) (thread_bindings db1)) in
      if list_ex (\<lambda>t. q t \<and> thread_referenced (t_id t) db1) (ai_threads db1) then (Inl IntegrityError, db1)
      else (Inr (), db1\<lparr>ai_threads := filter (\<lambda>t. \<not> q t) (ai_threads db1)\<rparr>))"

definition list_source_bindings_for_thread :: "string \<Rightarrow> gateway_db \<Rightarrow> ThreadSourceBinding list" where
  "list_source_bindings_for_thread ai_thread_id db = filter (\<lambda>b. b_ai_thread_id b = ai_thread_id) (thread_bindings db)"

text \<open>
  A loaded row that the session writes back: the statement names the primary key, and a row
  that is gone is a \<open>StaleDataError\<close>.
\<close>

definition store_bind_hermes_thread ::
  "(gateway_db \<Rightarrow> gateway_db) \<Rightarrow> clocks \<Rightarrow> AIThread \<Rightarrow> string option \<Rightarrow> gateway_db \<Rightarrow> AIThread outcome" where
  "store_bind_hermes_thread race ck t hermes_thread_id db =
     (case Option.bind hermes_thread_id (\<lambda>h. get_thread_by_hermes_thread_id h db) of
        Some existing \<Rightarrow> (compatible_hermes_thread_or_raise existing (t_id t) (the hermes_thread_id), db)
      | None \<Rightarrow>
          (let db1 = race db; f = (\<lambda>x. x\<lparr>t_hermes_thread_id := hermes_thread_id, t_updated_at := db_now ck\<rparr>) in
           if t_hermes_thread_id t = hermes_thread_id then (Inr t, db1)
           else if get_thread (t_id t) db1 = None then (Inl StaleDataError, db1)
           else
             (case update_threads (\<lambda>x. t_id x = t_id t) f db1 of
                Some db2 \<Rightarrow> (Inr (f (the (get_thread (t_id t) db1))), db2)
              | None \<Rightarrow>
                  (case Option.bind hermes_thread_id (\<lambda>h. get_thread_by_hermes_thread_id h db1) of
                     Some existing \<Rightarrow> (compatible_hermes_thread_or_raise existing (t_id t) (the hermes_thread_id), db1)
                   | None \<Rightarrow> (Inl IntegrityError, db1)))))"

definition touch_workspace :: "(gateway_db \<Rightarrow> gateway_db) \<Rightarrow> clocks \<Rightarrow> EmployeeWorkspace \<Rightarrow> gateway_db \<Rightarrow> EmployeeWorkspace outcome" where
  "touch_workspace race ck w db =
     (let db1 = race db; f = (\<lambda>x. x\<lparr>w_last_active_at := wall_now ck, w_updated_at := db_now ck\<rparr>) in
      case lookup_by w_id (w_id w) (workspaces db1) of
        None \<Rightarrow> (Inl StaleDataError, db1)
      | Some x \<Rightarrow> (Inr (f x), db1\<lparr>workspaces := update_where (\<lambda>y. w_id y = w_id w) f (workspaces db1)\<rparr>))"

definition touch_thread :: "(gateway_db \<Rightarrow> gateway_db) \<Rightarrow> clocks \<Rightarrow> AIThread \<Rightarrow> gateway_db \<Rightarrow> AIThread outcome" where
  "touch_thread race ck t db =
     (let db1 = race db; f = (\<lambda>x. x\<lparr>t_last_active_at := wall_now ck, t_updated_at := db_now ck\<rparr>) in
      case get_thread (t_id t) db1 of
        None \<Rightarrow> (Inl StaleDataError, db1)
      | Some x \<Rightarrow> (Inr (f x), db1\<lparr>ai_threads := update_where (\<lambda>y. t_id y = t_id t) f (ai_threads db1)\<rparr>))"

section \<open>The service\<close>

text \<open>The first operation that raises ends the request; its database stays.\<close>

definition attempt_op :: "'a outcome \<Rightarrow> ('a \<Rightarrow> gateway_db \<Rightarrow> 'b outcome) \<Rightarrow> 'b outcome" where
  "attempt_op r k = (case r of (Inl e, db) \<Rightarrow> (Inl e, db) | (Inr x, db) \<Rightarrow> k x db)"

lemma attempt_op_simps [simp]:
  "attempt_op (Inl e, db) k = (Inl e, db)" "attempt_op (Inr x, db) k = k x db"
  by (simp_all add: attempt_op_def)

lemma attempt_op_InrD:
  "attempt_op r k = (Inr y, db') \<Longrightarrow> \<exists>x db1. r = (Inr x, db1) \<and> k x db1 = (Inr y, db')"
  by (auto simp: attempt_op_def split: prod.splits sum.splits)

definition ensure_workspace_for_authorized_identity ::
  "(nat \<Rightarrow> gateway_db \<Rightarrow> gateway_db) \<Rightarrow> clocks \<Rightarrow> (nat \<Rightarrow> string) \<Rightarrow> string \<Rightarrow> gateway_db \<Rightarrow> EmployeeWorkspace outcome" where
  "ensure_workspace_for_authorized_identity race ck uuid enterprise_identity_id db =
     (case get_identity enterprise_identity_id db of
        None \<Rightarrow> (Inl (WorkspaceFailure (AuthorizedIdentityNotFoundError enterprise_identity_id)), db)
      | Some identity \<Rightarrow>
          if e_status identity \<noteq> STORED_ACTIVE
          then (Inl (WorkspaceFailure (AuthorizedIdentityUnavailableError (e_id identity) (e_status identity))), db)
          else
            attempt_op (ensure_workspace (race 0) ck (uuid 0) (e_id identity) db) (\<lambda>(w, _) db1.
              if w_status w \<noteq> WORKSPACE_ACTIVE
              then (Inl (WorkspaceFailure (WorkspaceUnavailableError (w_id w) (w_status w))), db1)
              else touch_workspace (race 1) ck w db1))"

definition bound_thread :: "string \<Rightarrow> gateway_db \<Rightarrow> gateway_error + AIThread" where
  "bound_thread ai_thread_id db =
     (case get_thread ai_thread_id db of
        None \<Rightarrow> Inl (WorkspaceFailure (ThreadNotFoundError ai_thread_id)) | Some t \<Rightarrow> Inr t)"

definition checked_bound_thread :: "string \<Rightarrow> ThreadType \<Rightarrow> gateway_db \<Rightarrow> AIThread outcome" where
  "checked_bound_thread ai_thread_id thread_type db =
     checked (bound_thread ai_thread_id db) db (\<lambda>t. (compatible_thread_or_raise t thread_type, db))"

fun binding_conflict :: "gateway_error \<Rightarrow> string option" where
  "binding_conflict (WorkspaceFailure (ThreadSourceBindingConflictError existing _)) = Some existing"
| "binding_conflict _ = None"

definition thread_of_request ::
  "(nat \<Rightarrow> gateway_db \<Rightarrow> gateway_db) \<Rightarrow> clocks \<Rightarrow> (nat \<Rightarrow> string) \<Rightarrow> EmployeeWorkspace \<Rightarrow> string \<Rightarrow> string \<Rightarrow> string \<Rightarrow> string
     \<Rightarrow> ThreadType \<Rightarrow> string \<Rightarrow> gateway_db \<Rightarrow> AIThread outcome"
where
  "thread_of_request race ck uuid w thread_key platform account_id conversation_id thread_type sender_id db =
     (case get_source_binding platform account_id conversation_id db of
        Some b \<Rightarrow> checked_bound_thread (b_ai_thread_id b) thread_type db
      | None \<Rightarrow>
          attempt_op (ensure_thread (race 2) ck (uuid 1) (w_id w) thread_type thread_key db) (\<lambda>(t, created) db1.
            (case ensure_source_binding (race 3) ck (uuid 2) (t_id t) platform account_id conversation_id (Some sender_id) db1 of
               (Inr _, db2) \<Rightarrow> (Inr t, db2)
             | (Inl e, db2) \<Rightarrow>
                 (case binding_conflict e of
                    Some existing \<Rightarrow>
                      attempt_op (if created then discard_thread_if_unbound (race 4) (t_id t) db2 else (Inr (), db2)) (\<lambda>_ db3.
                        checked_bound_thread existing thread_type db3)
                  | None \<Rightarrow> (Inl e, db2)))))"

definition ensure_thread_for_authorized_request ::
  "(nat \<Rightarrow> gateway_db \<Rightarrow> gateway_db) \<Rightarrow> clocks \<Rightarrow> (nat \<Rightarrow> string) \<Rightarrow> string \<Rightarrow> string \<Rightarrow> string \<Rightarrow> string \<Rightarrow> string \<Rightarrow> string
     \<Rightarrow> gateway_db \<Rightarrow> AIThread outcome"
where
  "ensure_thread_for_authorized_request race ck uuid enterprise_identity_id platform account_id physical_conversation_id
       conversation_type sender_id db =
     checked (schema_string 36 enterprise_identity_id) db (\<lambda>i.
     checked (schema_string 64 platform) db (\<lambda>p.
     checked (schema_string 255 account_id) db (\<lambda>a.
     checked (schema_string 255 physical_conversation_id) db (\<lambda>c.
     checked (case thread_type_of_value conversation_type of None \<Rightarrow> Inl SchemaValidationError | Some t \<Rightarrow> Inr t) db (\<lambda>thread_type.
     checked (schema_string 255 sender_id) db (\<lambda>s.
       attempt_op (ensure_workspace_for_authorized_identity race ck uuid i db) (\<lambda>w db1.
         checked (build_thread_key (Some p) (Some a) (Some c) (Inl thread_type) (Some s)) db1 (\<lambda>thread_key.
           attempt_op (thread_of_request race ck uuid w thread_key p a c thread_type s db1) (\<lambda>t db2.
             if t_status t \<noteq> THREAD_ACTIVE then (Inl (WorkspaceFailure (ThreadUnavailableError (t_id t) (t_status t))), db2)
             else touch_thread (race 5) ck t db2)))))))))"

definition service_bind_hermes_thread ::
  "(gateway_db \<Rightarrow> gateway_db) \<Rightarrow> clocks \<Rightarrow> string \<Rightarrow> string option \<Rightarrow> gateway_db \<Rightarrow> AIThread outcome" where
  "service_bind_hermes_thread race ck ai_thread_id hermes_thread_id db =
     checked (schema_string 36 ai_thread_id) db (\<lambda>i.
     checked (schema_optional 255 hermes_thread_id) db (\<lambda>h.
       (case get_thread i db of
          None \<Rightarrow> (Inl (WorkspaceFailure (ThreadNotFoundError i)), db)
        | Some t \<Rightarrow> store_bind_hermes_thread race ck t h db)))"

section \<open>The resolver of the second version\<close>

definition resolve_thread ::
  "(nat \<Rightarrow> gateway_db \<Rightarrow> gateway_db) \<Rightarrow> clocks \<Rightarrow> (nat \<Rightarrow> string) \<Rightarrow> string \<Rightarrow> ThreadType \<Rightarrow> string \<Rightarrow> string \<Rightarrow> string \<Rightarrow> string
     \<Rightarrow> int \<Rightarrow> ThreadPolicy \<Rightarrow> gateway_db \<Rightarrow> AIThread outcome"
where
  "resolve_thread race ck uuid conversation_id thread_type platform account_id identity_id profile_id revision policy db =
     checked (schema_string 255 conversation_id) db (\<lambda>c.
     checked (schema_string 64 platform) db (\<lambda>p.
     checked (schema_string 255 account_id) db (\<lambda>a.
     checked (schema_string 36 identity_id) db (\<lambda>i.
     checked (schema_string 255 profile_id) db (\<lambda>pr.
     checked (schema_string 255 (int_str revision)) db (\<lambda>rv.
       attempt_op (ensure_workspace_for_authorized_identity race ck uuid i db) (\<lambda>w db1.
         checked (build_v2_thread_key (Some p) (Some a) (Some c) (Inl thread_type) (Some i) (Some pr) (Some (Inr rv)) (Inl policy)) db1
           (\<lambda>thread_key.
             attempt_op (ensure_thread (race 2) ck (uuid 1) (w_id w) thread_type thread_key db1) (\<lambda>(t, _) db2.
               if t_status t \<noteq> THREAD_ACTIVE then (Inl (WorkspaceFailure (ThreadUnavailableError (t_id t) (t_status t))), db2)
               else touch_thread (race 3) ck t db2)))))))))"

section \<open>What the tables promise\<close>

interpretation workspace_table: keyed_table "get_workspace_for_identity (w_enterprise_identity_id w)" insert_workspace w for w
proof (unfold_locales, goal_cases)
  case (1 u v)
  then show ?case by (auto simp: get_workspace_for_identity_def insert_workspace_def intro: lookup_by_snoc split: if_splits)
next
  case (2 u r)
  then show ?case using lookup_by_taken [of w_enterprise_identity_id "w_enterprise_identity_id w" "workspaces u" r w]
    by (simp add: get_workspace_for_identity_def insert_workspace_def workspace_table_ok_def)
qed

interpretation thread_table: keyed_table "get_thread_by_key (t_thread_key t)" insert_thread t for t
proof (unfold_locales, goal_cases)
  case (1 u v)
  then show ?case by (auto simp: get_thread_by_key_def insert_thread_def intro: lookup_by_snoc split: if_splits)
next
  case (2 u r)
  then show ?case using lookup_by_taken [of t_thread_key "t_thread_key t" "ai_threads u" r t]
    by (simp add: get_thread_by_key_def insert_thread_def thread_table_ok_def)
qed

lemma get_source_binding_None:
  "get_source_binding p a c db = None \<longleftrightarrow> (\<forall>b\<in>set (thread_bindings db). binding_key b \<noteq> (p, a, c))"
  by (auto simp: get_source_binding_def select_min_None filter_empty_conv)

lemma get_source_binding_Some:
  "get_source_binding p a c db = Some b \<Longrightarrow> b \<in> set (thread_bindings db) \<and> binding_key b = (p, a, c)"
  by (auto simp: get_source_binding_def dest!: select_min_Some)

interpretation source_binding_table: keyed_table "get_source_binding (b_platform b) (b_account_id b) (b_physical_conversation_id b)" insert_binding b for b
proof (unfold_locales, goal_cases)
  case (1 u v)
  then have "filter (\<lambda>x. binding_key x = binding_key b) (thread_bindings u) = []"
    by (auto simp: get_source_binding_None binding_key_def filter_empty_conv)
  with 1(2) show ?case by (auto simp: get_source_binding_def insert_binding_def binding_key_def split: if_splits)
next
  case (2 u r)
  from get_source_binding_Some [OF 2] have "binding_key b \<in> binding_key ` set (thread_bindings u)"
    by (auto simp: binding_key_def intro: rev_image_eqI)
  then show ?case by (simp add: insert_binding_def binding_table_ok_def)
qed

section \<open>A conversation keeps its thread\<close>

definition keeps_bindings :: "gateway_db \<Rightarrow> gateway_db \<Rightarrow> bool" where
  "keeps_bindings db db' \<longleftrightarrow> (\<forall>p a c b. get_source_binding p a c db = Some b \<longrightarrow>
     (\<exists>b'. get_source_binding p a c db' = Some b' \<and> b_ai_thread_id b' = b_ai_thread_id b))"

lemma keeps_bindings_refl [intro, simp]: "keeps_bindings db db"
  by (simp add: keeps_bindings_def)

lemma keeps_bindings_trans: "keeps_bindings a b \<Longrightarrow> keeps_bindings b c \<Longrightarrow> keeps_bindings a c"
  unfolding keeps_bindings_def by metis

lemma keeps_bindings_frame: "thread_bindings db' = thread_bindings db \<Longrightarrow> keeps_bindings db db'"
  by (simp add: keeps_bindings_def get_source_binding_def)

lemma get_or_insert_keeps_bindings:
  assumes "\<And>u. keeps_bindings u (race u)" "\<And>u v. ins row u = Some v \<Longrightarrow> thread_bindings v = thread_bindings u"
    and "get_or_insert seek ins row race db = (res, db')"
  shows "keeps_bindings db db'"
  using assms keeps_bindings_frame keeps_bindings_trans
  by (auto simp: get_or_insert_def Let_def split: option.splits) (metis keeps_bindings_frame keeps_bindings_trans)

lemma ensure_workspace_keeps_bindings:
  assumes "\<And>n u. keeps_bindings u (race n u)"
    and "ensure_workspace_for_authorized_identity race ck uuid i db = (res, db')"
  shows "keeps_bindings db db'"
proof -
  have ins: "insert_workspace w u = Some v \<Longrightarrow> thread_bindings v = thread_bindings u" for w u v
    by (auto simp: insert_workspace_def split: if_splits)
  have ens: "keeps_bindings db db1" if "ensure_workspace (race 0) ck (uuid 0) e db = (r, db1)" for e r db1
    using get_or_insert_keeps_bindings [OF assms(1) ins that [unfolded ensure_workspace_def]] .
  have tch: "keeps_bindings u v" if "touch_workspace (race 1) ck w u = (r, v)" for u v w r
    using that assms(1) [of u 1]
    by (auto simp: touch_workspace_def Let_def split: option.splits
        intro: keeps_bindings_trans [OF _ keeps_bindings_frame])
  show ?thesis using assms(2) ens tch keeps_bindings_trans
    unfolding ensure_workspace_for_authorized_identity_def attempt_op_def
    by (auto split: option.splits if_splits prod.splits sum.splits) blast+
qed

lemma ensure_source_binding_bound:
  assumes "ensure_source_binding race ck uuid i p a c s db = (res, db')"
  shows "case res of
      Inr (b, created) \<Rightarrow> get_source_binding p a c db' = Some b \<and> b_ai_thread_id b = i
    | Inl (WorkspaceFailure (ThreadSourceBindingConflictError existing requested)) \<Rightarrow>
        \<exists>b. get_source_binding p a c db' = Some b \<and> b_ai_thread_id b = existing
    | _ \<Rightarrow> True"
proof -
  let ?row = "\<lparr>b_id = uuid, b_ai_thread_id = i, b_platform = p, b_account_id = a, b_physical_conversation_id = c,
              b_sender_id = s, b_created_at = db_now ck, b_updated_at = db_now ck\<rparr>"
  obtain r db1 where put: "get_or_insert (get_source_binding p a c) insert_binding ?row race db = (r, db1)" by fastforce
  have stored: "get_source_binding p a c db1 = Some b" if "r = Inr (b, new)" for b new
    using source_binding_table.answer_is_stored [of ?row race db b new db1] put that by simp
  have made: "b = ?row" if "r = Inr (b, True)" for b
    using source_binding_table.created_is_row [of ?row race db b db1] put that by simp
  have fails: "e = IntegrityError" if "r = Inl e" for e
    using put that by (auto simp: get_or_insert_def Let_def split: option.splits)
  show ?thesis
  proof (cases r)
    case (Inl e)
    with fails assms put show ?thesis by (auto simp: ensure_source_binding_def)
  next
    case (Inr bn)
    obtain b new where bn: "bn = (b, new)" by (cases bn)
    show ?thesis
    proof (cases new)
      case True
      with Inr bn made have b: "r = Inr (?row, True)" by simp
      with assms put have "res = Inr (?row, True)" "db' = db1" by (simp_all add: ensure_source_binding_def)
      with stored [OF b] show ?thesis by simp
    next
      case False
      then show ?thesis using assms put Inr bn stored
        by (auto simp: ensure_source_binding_def compatible_source_binding_or_raise_def split: if_splits)
    qed
  qed
qed


definition bound_to :: "string \<Rightarrow> string \<Rightarrow> string \<Rightarrow> string \<Rightarrow> gateway_db \<Rightarrow> bool" where
  "bound_to p a c i db \<longleftrightarrow> (\<exists>b. get_source_binding p a c db = Some b \<and> b_ai_thread_id b = i)"

lemma bound_to_unique: "bound_to p a c i db \<Longrightarrow> bound_to p a c j db \<Longrightarrow> i = j"
  by (auto simp: bound_to_def)

lemma keeps_bindings_bound: "keeps_bindings db db' \<Longrightarrow> bound_to p a c i db \<Longrightarrow> bound_to p a c i db'"
  unfolding keeps_bindings_def bound_to_def by metis

lemma checked_bound_thread_id:
  "checked_bound_thread i ty db = (Inr t, db') \<Longrightarrow> t_id t = i \<and> db' = db \<and> t_thread_type t = ty"
  by (auto simp: checked_bound_thread_def bound_thread_def compatible_thread_or_raise_def get_thread_def
      dest!: lookup_by_Some split: option.splits if_splits)

lemma discard_keeps_bindings:
  "(\<And>u. keeps_bindings u (race u)) \<Longrightarrow> discard_thread_if_unbound race i db = (res, db') \<Longrightarrow> keeps_bindings db db'"
  by (rule keeps_bindings_trans [of db "race db"], blast, rule keeps_bindings_frame)
    (auto simp: discard_thread_if_unbound_def Let_def split: if_splits)

lemma ensure_thread_keeps_bindings:
  assumes "\<And>u. keeps_bindings u (race u)" "ensure_thread race ck uuid w ty k db = (res, db')"
  shows "keeps_bindings db db'"
proof -
  have ins: "insert_thread t u = Some v \<Longrightarrow> thread_bindings v = thread_bindings u" for t u v
    by (auto simp: insert_thread_def split: if_splits)
  obtain r db1 where put: "get_or_insert (get_thread_by_key k) insert_thread (new_thread ck uuid w ty k) race db = (r, db1)"
    by fastforce
  with assms(2) have "db' = db1" by (auto simp: ensure_thread_def split: sum.splits prod.splits bool.splits)
  with get_or_insert_keeps_bindings [OF assms(1) ins put] show ?thesis by simp
qed

lemma thread_of_request_bound:
  assumes "\<And>n u. keeps_bindings u (race n u)"
    and "thread_of_request race ck uuid w k p a c ty s db = (Inr t, db')"
  shows "bound_to p a c (t_id t) db'"
proof (cases "get_source_binding p a c db")
  case (Some b)
  with assms(2) have "checked_bound_thread (b_ai_thread_id b) ty db = (Inr t, db')" by (simp add: thread_of_request_def)
  from checked_bound_thread_id [OF this] Some show ?thesis by (auto simp: bound_to_def)
next
  case None
  with assms(2) obtain t1 created db1 where t1: "ensure_thread (race 2) ck (uuid 1) (w_id w) ty k db = (Inr (t1, created), db1)"
    by (auto simp: thread_of_request_def dest!: attempt_op_InrD)
  obtain res db2 where b: "ensure_source_binding (race 3) ck (uuid 2) (t_id t1) p a c (Some s) db1 = (res, db2)" by fastforce
  note bound = ensure_source_binding_bound [OF b]
  show ?thesis
  proof (cases res)
    case (Inr x)
    with None t1 b assms(2) have "t = t1" "db' = db2" by (auto simp: thread_of_request_def)
    with bound Inr show ?thesis by (auto simp: bound_to_def split: prod.splits)
  next
    case (Inl e)
    with None t1 b assms(2) obtain i where "binding_conflict e = Some i"
      by (auto simp: thread_of_request_def split: option.splits)
    then obtain j where e: "e = WorkspaceFailure (ThreadSourceBindingConflictError i j)" by (cases e rule: binding_conflict.cases) auto
    with None t1 b Inl assms(2) obtain y db3 where
        d: "(if created then discard_thread_if_unbound (race 4) (t_id t1) db2 else (Inr (), db2)) = (Inr y, db3)"
      and r: "checked_bound_thread i ty db3 = (Inr t, db')"
      by (auto simp: thread_of_request_def dest!: attempt_op_InrD)
    have "keeps_bindings db2 db3" using d discard_keeps_bindings [OF assms(1)] by (auto split: if_splits)
    moreover have "bound_to p a c i db2" using bound Inl e by (auto simp: bound_to_def)
    ultimately show ?thesis using checked_bound_thread_id [OF r] keeps_bindings_bound by blast
  qed
qed

lemma touch_thread_id:
  assumes "\<And>u. keeps_bindings u (race u)" "touch_thread race ck t db = (Inr t', db')"
  shows "t_id t' = t_id t \<and> keeps_bindings db db'"
proof -
  from assms(2) obtain x where x: "get_thread (t_id t) (race db) = Some x"
      "t' = x\<lparr>t_last_active_at := wall_now ck, t_updated_at := db_now ck\<rparr>"
    and frame: "thread_bindings db' = thread_bindings (race db)"
    by (auto simp: touch_thread_def Let_def split: option.splits)
  from x have "t_id t' = t_id t" by (auto simp: get_thread_def dest!: lookup_by_Some)
  with keeps_bindings_trans [OF assms(1) keeps_bindings_frame [OF frame]] show ?thesis by simp
qed

lemma ensure_thread_request_steps:
  assumes "ensure_thread_for_authorized_request race ck uuid i p a c cty s db = (Inr t, db')"
  obtains i' ty s' k w db1 t1 db2 where
    "ensure_workspace_for_authorized_identity race ck uuid i' db = (Inr w, db1)"
    "thread_of_request race ck uuid w k (py_strip p) (py_strip a) (py_strip c) ty s' db1 = (Inr t1, db2)"
    "touch_thread (race 5) ck t1 db2 = (Inr t, db')"
proof -
  from assms obtain i' ty s' where
    r: "attempt_op (ensure_workspace_for_authorized_identity race ck uuid i' db) (\<lambda>w db1.
         checked (build_thread_key (Some (py_strip p)) (Some (py_strip a)) (Some (py_strip c)) (Inl ty) (Some s')) db1 (\<lambda>thread_key.
           attempt_op (thread_of_request race ck uuid w thread_key (py_strip p) (py_strip a) (py_strip c) ty s' db1) (\<lambda>t db2.
             if t_status t \<noteq> THREAD_ACTIVE then (Inl (WorkspaceFailure (ThreadUnavailableError (t_id t) (t_status t))), db2)
             else touch_thread (race 5) ck t db2))) = (Inr t, db')"
    unfolding ensure_thread_for_authorized_request_def by (fastforce dest!: checked_InrD simp: schema_string_Inr)
  then obtain w db1 where w: "ensure_workspace_for_authorized_identity race ck uuid i' db = (Inr w, db1)"
    and r1: "checked (build_thread_key (Some (py_strip p)) (Some (py_strip a)) (Some (py_strip c)) (Inl ty) (Some s')) db1 (\<lambda>thread_key.
           attempt_op (thread_of_request race ck uuid w thread_key (py_strip p) (py_strip a) (py_strip c) ty s' db1) (\<lambda>t db2.
             if t_status t \<noteq> THREAD_ACTIVE then (Inl (WorkspaceFailure (ThreadUnavailableError (t_id t) (t_status t))), db2)
             else touch_thread (race 5) ck t db2)) = (Inr t, db')" by (blast dest: attempt_op_InrD)
  from checked_InrD [OF r1] obtain k t1 db2 where
      "thread_of_request race ck uuid w k (py_strip p) (py_strip a) (py_strip c) ty s' db1 = (Inr t1, db2)"
      "touch_thread (race 5) ck t1 db2 = (Inr t, db')"
    by (auto dest!: attempt_op_InrD split: if_splits)
  with w that show thesis by blast
qed

lemma request_binds_conversation:
  assumes "\<And>n u. keeps_bindings u (race n u)"
    and "ensure_thread_for_authorized_request race ck uuid i p a c cty s db = (Inr t, db')"
  shows "bound_to (py_strip p) (py_strip a) (py_strip c) (t_id t) db'"
proof -
  obtain i' ty s' k w db1 t1 db2 where
    t1: "thread_of_request race ck uuid w k (py_strip p) (py_strip a) (py_strip c) ty s' db1 = (Inr t1, db2)"
    and t: "touch_thread (race 5) ck t1 db2 = (Inr t, db')"
    by (rule ensure_thread_request_steps [OF assms(2)]) blast
  from thread_of_request_bound [OF assms(1) t1] touch_thread_id [OF assms(1) t] show ?thesis
    using keeps_bindings_bound by metis
qed

lemma bound_request_answer:
  assumes "\<And>n u. keeps_bindings u (race n u)"
    and "bound_to (py_strip p) (py_strip a) (py_strip c) j db"
    and "ensure_thread_for_authorized_request race ck uuid i p a c cty s db = (Inr t, db')"
  shows "t_id t = j"
proof -
  obtain i' ty s' k w db1 t1 db2 where
    w: "ensure_workspace_for_authorized_identity race ck uuid i' db = (Inr w, db1)"
    and t1: "thread_of_request race ck uuid w k (py_strip p) (py_strip a) (py_strip c) ty s' db1 = (Inr t1, db2)"
    and t: "touch_thread (race 5) ck t1 db2 = (Inr t, db')"
    by (rule ensure_thread_request_steps [OF assms(3)])
  have "bound_to (py_strip p) (py_strip a) (py_strip c) j db1"
    using keeps_bindings_bound [OF ensure_workspace_keeps_bindings [OF assms(1) w] assms(2)] .
  then obtain b where b: "get_source_binding (py_strip p) (py_strip a) (py_strip c) db1 = Some b" "b_ai_thread_id b = j"
    by (auto simp: bound_to_def)
  with t1 have "checked_bound_thread j ty db1 = (Inr t1, db2)" by (simp add: thread_of_request_def)
  from checked_bound_thread_id [OF this] touch_thread_id [OF assms(1) t] show ?thesis by simp
qed

end
