(* ===== verification/Agent_Routing.thy ===== *)
theory Agent_Routing
  imports Workspace_Threads
begin

text \<open>
  Agent profiles, group types and the route of a conversation (\<open>agent_profile/models.py\<close>,
  \<open>agent_profile/store.py\<close>, \<open>routing/models.py\<close>, \<open>routing/resolver.py\<close>). A private
  conversation is routed by its own binding to a profile, a group by the profile and the thread
  policy of its group type, with \<open>unknown_group\<close> as the type of groups without a binding.
\<close>

section \<open>Tables\<close>

definition UNKNOWN_GROUP_TYPE_KEY :: string where "UNKNOWN_GROUP_TYPE_KEY = ''unknown_group''"

definition profile_revision_key :: "AgentProfile \<Rightarrow> string \<times> int" where
  "profile_revision_key p = (ap_profile_key p, ap_revision p)"

definition profile_row_ok :: "AgentProfile \<Rightarrow> bool" where
  "profile_row_ok p \<longleftrightarrow> ap_revision p > 0 \<and> sql_nonempty (ap_profile_key p) \<and> sql_nonempty (ap_provider p)
     \<and> sql_nonempty (ap_external_profile_ref p) \<and> sql_nonempty (ap_model p)"

definition profile_table_ok :: "AgentProfile list \<Rightarrow> bool" where
  "profile_table_ok rows \<longleftrightarrow> distinct (map ap_id rows) \<and> distinct (map profile_revision_key rows) \<and> list_all profile_row_ok rows"

definition group_type_row_ok :: "GroupType \<Rightarrow> bool" where
  "group_type_row_ok g \<longleftrightarrow> sql_nonempty (gt_type_key g) \<and> sql_nonempty (gt_display_name g)
     \<and> gt_thread_policy g \<in> {GROUP_SHARED, GROUP_SENDER}"

definition group_type_table_ok :: "GroupType list \<Rightarrow> bool" where
  "group_type_table_ok rows \<longleftrightarrow> distinct (map gt_id rows) \<and> distinct (map gt_type_key rows) \<and> list_all group_type_row_ok rows"

definition insert_agent_profile :: "AgentProfile \<Rightarrow> gateway_db \<Rightarrow> gateway_db option" where
  "insert_agent_profile p db =
     (if profile_table_ok (agent_profiles db @ [p]) then Some (db\<lparr>agent_profiles := agent_profiles db @ [p]\<rparr>) else None)"

definition insert_group_type :: "GroupType \<Rightarrow> gateway_db \<Rightarrow> gateway_db option" where
  "insert_group_type g db =
     (if group_type_table_ok (group_types db @ [g]) \<and> gt_agent_profile_id g \<in> ap_id ` set (agent_profiles db)
      then Some (db\<lparr>group_types := group_types db @ [g]\<rparr>) else None)"

definition insert_profile_binding :: "ConversationAgentProfileBinding \<Rightarrow> gateway_db \<Rightarrow> gateway_db option" where
  "insert_profile_binding b db =
     (if distinct (map cp_id (profile_bindings db @ [b])) \<and> distinct (map cp_conversation_id (profile_bindings db @ [b]))
         \<and> cp_conversation_id b \<in> v_id ` set (conversations db) \<and> cp_agent_profile_id b \<in> ap_id ` set (agent_profiles db)
      then Some (db\<lparr>profile_bindings := profile_bindings db @ [b]\<rparr>) else None)"

definition insert_group_binding :: "ConversationGroupTypeBinding \<Rightarrow> gateway_db \<Rightarrow> gateway_db option" where
  "insert_group_binding b db =
     (if distinct (map cg_id (group_bindings db @ [b])) \<and> distinct (map cg_conversation_id (group_bindings db @ [b]))
         \<and> cg_conversation_id b \<in> v_id ` set (conversations db) \<and> cg_group_type_id b \<in> gt_id ` set (group_types db)
      then Some (db\<lparr>group_bindings := group_bindings db @ [b]\<rparr>) else None)"

section \<open>Lookups\<close>

definition get_agent_profile :: "string \<Rightarrow> gateway_db \<Rightarrow> AgentProfile option" where
  "get_agent_profile agent_profile_id db = lookup_by ap_id agent_profile_id (agent_profiles db)"

definition get_agent_profile_revision :: "string \<Rightarrow> int \<Rightarrow> gateway_db \<Rightarrow> AgentProfile option" where
  "get_agent_profile_revision profile_key revision db = lookup_by profile_revision_key (profile_key, revision) (agent_profiles db)"

definition list_agent_profile_revisions :: "string \<Rightarrow> gateway_db \<Rightarrow> AgentProfile list" where
  "list_agent_profile_revisions profile_key db =
     sort_key (\<lambda>p. (ap_revision p, ap_id p)) (filter (\<lambda>p. ap_profile_key p = profile_key) (agent_profiles db))"

definition get_group_type :: "string \<Rightarrow> gateway_db \<Rightarrow> GroupType option" where
  "get_group_type group_type_id db = lookup_by gt_id group_type_id (group_types db)"

definition get_group_type_by_key :: "string \<Rightarrow> gateway_db \<Rightarrow> GroupType option" where
  "get_group_type_by_key type_key db = lookup_by gt_type_key type_key (group_types db)"

definition get_conversation_agent_profile_binding :: "int \<Rightarrow> gateway_db \<Rightarrow> ConversationAgentProfileBinding option" where
  "get_conversation_agent_profile_binding conversation_record_id db =
     lookup_by cp_conversation_id conversation_record_id (profile_bindings db)"

definition get_conversation_group_type_binding :: "int \<Rightarrow> gateway_db \<Rightarrow> ConversationGroupTypeBinding option" where
  "get_conversation_group_type_binding conversation_record_id db =
     lookup_by cg_conversation_id conversation_record_id (group_bindings db)"

text \<open>The join of a binding with its group type; the conversation has at most one.\<close>

definition get_bound_group_type :: "int \<Rightarrow> gateway_db \<Rightarrow> GroupType option" where
  "get_bound_group_type conversation_record_id db =
     Option.bind (get_conversation_group_type_binding conversation_record_id db) (\<lambda>b. get_group_type (cg_group_type_id b) db)"

definition require_agent_profile :: "string \<Rightarrow> gateway_db \<Rightarrow> gateway_error + AgentProfile" where
  "require_agent_profile agent_profile_id db =
     (case get_agent_profile agent_profile_id db of
        None \<Rightarrow> Inl (RoutingFailure (AgentProfileNotFoundError agent_profile_id)) | Some p \<Rightarrow> Inr p)"

definition require_group_type :: "string \<Rightarrow> gateway_db \<Rightarrow> gateway_error + GroupType" where
  "require_group_type group_type_id db =
     (case get_group_type group_type_id db of
        None \<Rightarrow> Inl (RoutingFailure (GroupTypeNotFoundError group_type_id)) | Some g \<Rightarrow> Inr g)"

definition require_conversation :: "int \<Rightarrow> gateway_db \<Rightarrow> gateway_error + Conversation" where
  "require_conversation conversation_record_id db =
     (case lookup_by v_id conversation_record_id (conversations db) of
        None \<Rightarrow> Inl (RoutingFailure (ConversationNotFoundError conversation_record_id)) | Some v \<Rightarrow> Inr v)"

definition require_group_conversation :: "int \<Rightarrow> gateway_db \<Rightarrow> gateway_error + Conversation" where
  "require_group_conversation conversation_record_id db =
     (case require_conversation conversation_record_id db of
        Inl e \<Rightarrow> Inl e
      | Inr v \<Rightarrow> if v_conversation_type v \<noteq> ''group'' then Inl (RoutingFailure (ConversationNotGroupError conversation_record_id))
                 else Inr v)"

definition require_private_conversation :: "int \<Rightarrow> gateway_db \<Rightarrow> gateway_error + Conversation" where
  "require_private_conversation conversation_record_id db =
     (case require_conversation conversation_record_id db of
        Inl e \<Rightarrow> Inl e
      | Inr v \<Rightarrow> if v_conversation_type v \<noteq> ''private'' then Inl (RoutingFailure (ConversationNotPrivateError conversation_record_id))
                 else Inr v)"

section \<open>Profiles\<close>

definition same_agent_profile_revision_or_raise ::
  "AgentProfile \<Rightarrow> string \<Rightarrow> string \<Rightarrow> string \<Rightarrow> AgentProfileStatus \<Rightarrow> gateway_error + AgentProfile" where
  "same_agent_profile_revision_or_raise p provider external_profile_ref model status =
     (if ap_provider p \<noteq> provider \<or> ap_external_profile_ref p \<noteq> external_profile_ref \<or> ap_model p \<noteq> model \<or> ap_status p \<noteq> status
      then Inl (RoutingFailure (AgentProfileRevisionConflictError (ap_profile_key p) (ap_revision p))) else Inr p)"

definition create_agent_profile ::
  "(gateway_db \<Rightarrow> gateway_db) \<Rightarrow> clocks \<Rightarrow> string \<Rightarrow> string \<Rightarrow> int \<Rightarrow> string \<Rightarrow> string \<Rightarrow> string \<Rightarrow> AgentProfileStatus
     \<Rightarrow> string option \<Rightarrow> gateway_db \<Rightarrow> (AgentProfile \<times> bool) outcome"
where
  "create_agent_profile race ck uuid profile_key revision provider external_profile_ref model status agent_profile_id db =
     (let i = (if truthy agent_profile_id then the agent_profile_id else uuid) in
      case get_or_insert (get_agent_profile_revision profile_key revision) insert_agent_profile
             \<lparr>ap_id = i, ap_profile_key = profile_key, ap_revision = revision, ap_provider = provider,
              ap_external_profile_ref = external_profile_ref, ap_model = model, ap_status = status,
              ap_created_at = db_now ck, ap_updated_at = db_now ck\<rparr> race db of
        (Inl e, db') \<Rightarrow>
          if get_agent_profile i db' \<noteq> None then (Inl (RoutingFailure (AgentProfileIdConflictError i)), db') else (Inl e, db')
      | (Inr (p, True), db') \<Rightarrow> (Inr (p, True), db')
      | (Inr (p, False), db') \<Rightarrow>
          (map_sum id (\<lambda>x. (x, False)) (same_agent_profile_revision_or_raise p provider external_profile_ref model status), db'))"

definition set_agent_profile_status ::
  "(gateway_db \<Rightarrow> gateway_db) \<Rightarrow> clocks \<Rightarrow> string \<Rightarrow> AgentProfileStatus \<Rightarrow> gateway_db \<Rightarrow> AgentProfile outcome" where
  "set_agent_profile_status race ck agent_profile_id status db =
     (case get_agent_profile agent_profile_id db of
        None \<Rightarrow> (Inl (RoutingFailure (AgentProfileNotFoundError agent_profile_id)), db)
      | Some p \<Rightarrow>
          if ap_status p = status then (Inr p, db)
          else
            (let db1 = race db; f = (\<lambda>x. x\<lparr>ap_status := status, ap_updated_at := db_now ck\<rparr>) in
             case get_agent_profile agent_profile_id db1 of
               None \<Rightarrow> (Inl StaleDataError, db1)
             | Some q \<Rightarrow> (Inr (f q), db1\<lparr>agent_profiles := update_where (\<lambda>x. ap_id x = agent_profile_id) f (agent_profiles db1)\<rparr>)))"

text \<open>A row of a binding table written back with its new target.\<close>

definition rebind_profile ::
  "(gateway_db \<Rightarrow> gateway_db) \<Rightarrow> clocks \<Rightarrow> ConversationAgentProfileBinding \<Rightarrow> string \<Rightarrow> gateway_db
     \<Rightarrow> (ConversationAgentProfileBinding \<times> bool) outcome"
where
  "rebind_profile race ck existing agent_profile_id db =
     (if cp_agent_profile_id existing = agent_profile_id then (Inr (existing, False), db)
      else
        (let db1 = race db; f = (\<lambda>x. x\<lparr>cp_agent_profile_id := agent_profile_id, cp_updated_at := db_now ck\<rparr>) in
         if agent_profile_id \<notin> ap_id ` set (agent_profiles db1) then (Inl IntegrityError, db1)
         else
           (case lookup_by cp_id (cp_id existing) (profile_bindings db1) of
              None \<Rightarrow> (Inl StaleDataError, db1)
            | Some b \<Rightarrow>
                (Inr (f b, False), db1\<lparr>profile_bindings := update_where (\<lambda>x. cp_id x = cp_id existing) f (profile_bindings db1)\<rparr>))))"

definition bind_conversation_agent_profile ::
  "(nat \<Rightarrow> gateway_db \<Rightarrow> gateway_db) \<Rightarrow> clocks \<Rightarrow> string \<Rightarrow> int \<Rightarrow> string \<Rightarrow> gateway_db
     \<Rightarrow> (ConversationAgentProfileBinding \<times> bool) outcome"
where
  "bind_conversation_agent_profile race ck uuid conversation_record_id agent_profile_id db =
     checked (require_private_conversation conversation_record_id db) db (\<lambda>_.
     checked (require_agent_profile agent_profile_id db) db (\<lambda>_.
       (case get_or_insert (get_conversation_agent_profile_binding conversation_record_id) insert_profile_binding
               \<lparr>cp_id = uuid, cp_conversation_id = conversation_record_id, cp_agent_profile_id = agent_profile_id,
                cp_created_at = db_now ck, cp_updated_at = db_now ck\<rparr> (race 0) db of
          (Inl e, db') \<Rightarrow> (Inl e, db')
        | (Inr (b, True), db') \<Rightarrow> (Inr (b, True), db')
        | (Inr (b, False), db') \<Rightarrow> rebind_profile (race 1) ck b agent_profile_id db')))"

definition resolve_private_agent_profile :: "int \<Rightarrow> gateway_db \<Rightarrow> gateway_error + AgentProfile" where
  "resolve_private_agent_profile conversation_record_id db =
     (case require_private_conversation conversation_record_id db of
        Inl e \<Rightarrow> Inl e
      | Inr _ \<Rightarrow>
        (case get_conversation_agent_profile_binding conversation_record_id db of
           None \<Rightarrow> Inl (RoutingFailure (PrivateConversationProfileNotConfiguredError conversation_record_id))
         | Some b \<Rightarrow> require_agent_profile (cp_agent_profile_id b) db))"

section \<open>Group types\<close>

definition group_thread_policy :: "ThreadPolicy + string \<Rightarrow> gateway_error + ThreadPolicy" where
  "group_thread_policy thread_policy =
     (case (case thread_policy of Inl p \<Rightarrow> Some p | Inr s \<Rightarrow> thread_policy_of_value s) of
        None \<Rightarrow> Inl (ValueError ''not a valid ThreadPolicy'')
      | Some p \<Rightarrow> if p = PRIVATE_SENDER then Inl (RoutingFailure (InvalidGroupThreadPolicyError p)) else Inr p)"

definition same_group_type_or_raise ::
  "GroupType \<Rightarrow> string \<Rightarrow> string \<Rightarrow> ThreadPolicy \<Rightarrow> GroupTypeStatus \<Rightarrow> gateway_error + GroupType" where
  "same_group_type_or_raise g display_name agent_profile_id thread_policy status =
     (if gt_display_name g \<noteq> display_name \<or> gt_agent_profile_id g \<noteq> agent_profile_id \<or> gt_thread_policy g \<noteq> thread_policy
         \<or> gt_status g \<noteq> status
      then Inl (RoutingFailure (GroupTypeConflictError (gt_type_key g))) else Inr g)"

definition new_group_type :: "clocks \<Rightarrow> string \<Rightarrow> string \<Rightarrow> string \<Rightarrow> string \<Rightarrow> ThreadPolicy \<Rightarrow> GroupTypeStatus \<Rightarrow> GroupType" where
  "new_group_type ck i type_key display_name agent_profile_id thread_policy status =
     \<lparr>gt_id = i, gt_type_key = type_key, gt_display_name = display_name, gt_agent_profile_id = agent_profile_id,
      gt_thread_policy = thread_policy, gt_status = status, gt_created_at = db_now ck, gt_updated_at = db_now ck\<rparr>"

text \<open>The lookup of an existing type comes before the lookup of the profile.\<close>

definition create_group_type ::
  "(gateway_db \<Rightarrow> gateway_db) \<Rightarrow> clocks \<Rightarrow> string \<Rightarrow> string \<Rightarrow> string \<Rightarrow> string \<Rightarrow> ThreadPolicy + string \<Rightarrow> GroupTypeStatus
     \<Rightarrow> string option \<Rightarrow> gateway_db \<Rightarrow> (GroupType \<times> bool) outcome"
where
  "create_group_type race ck uuid type_key display_name agent_profile_id thread_policy status group_type_id db =
     checked (group_thread_policy thread_policy) db (\<lambda>policy.
       (case get_group_type_by_key type_key db of
          Some existing \<Rightarrow>
            (map_sum id (\<lambda>x. (x, False)) (same_group_type_or_raise existing display_name agent_profile_id policy status), db)
        | None \<Rightarrow>
          checked (require_agent_profile agent_profile_id db) db (\<lambda>_.
            (let i = (if truthy group_type_id then the group_type_id else uuid) in
             case get_or_insert (get_group_type_by_key type_key) insert_group_type
                    (new_group_type ck i type_key display_name agent_profile_id policy status) race db of
               (Inl e, db') \<Rightarrow>
                 if get_group_type i db' \<noteq> None then (Inl (RoutingFailure (GroupTypeIdConflictError i)), db') else (Inl e, db')
             | (Inr (g, True), db') \<Rightarrow> (Inr (g, True), db')
             | (Inr (g, False), db') \<Rightarrow>
                 (map_sum id (\<lambda>x. (x, False)) (same_group_type_or_raise g display_name agent_profile_id policy status), db')))))"

definition update_group_type ::
  "(gateway_db \<Rightarrow> gateway_db) \<Rightarrow> clocks \<Rightarrow> GroupType \<Rightarrow> string \<Rightarrow> string \<Rightarrow> ThreadPolicy \<Rightarrow> GroupTypeStatus \<Rightarrow> gateway_db
     \<Rightarrow> (GroupType \<times> bool) outcome"
where
  "update_group_type race ck g display_name agent_profile_id thread_policy status db =
     (if gt_display_name g = display_name \<and> gt_agent_profile_id g = agent_profile_id \<and> gt_thread_policy g = thread_policy
         \<and> gt_status g = status
      then (Inr (g, False), db)
      else
        (let db1 = race db;
             f = (\<lambda>x. x\<lparr>gt_display_name := display_name, gt_agent_profile_id := agent_profile_id,
                        gt_thread_policy := thread_policy, gt_status := status, gt_updated_at := db_now ck\<rparr>);
             rows = update_where (\<lambda>x. gt_id x = gt_id g) f (group_types db1) in
         case get_group_type (gt_id g) db1 of
           None \<Rightarrow> (Inl StaleDataError, db1)
         | Some x \<Rightarrow>
             if group_type_table_ok rows \<and> agent_profile_id \<in> ap_id ` set (agent_profiles db1)
             then (Inr (f x, False), db1\<lparr>group_types := rows\<rparr>) else (Inl IntegrityError, db1)))"

definition upsert_group_type ::
  "(nat \<Rightarrow> gateway_db \<Rightarrow> gateway_db) \<Rightarrow> clocks \<Rightarrow> string \<Rightarrow> string \<Rightarrow> string \<Rightarrow> string \<Rightarrow> ThreadPolicy + string \<Rightarrow> GroupTypeStatus
     \<Rightarrow> gateway_db \<Rightarrow> (GroupType \<times> bool) outcome"
where
  "upsert_group_type race ck uuid type_key display_name agent_profile_id thread_policy status db =
     checked (require_agent_profile agent_profile_id db) db (\<lambda>_.
     checked (group_thread_policy thread_policy) db (\<lambda>policy.
       (case get_or_insert (get_group_type_by_key type_key) insert_group_type
               (new_group_type ck uuid type_key display_name agent_profile_id policy status) (race 0) db of
          (Inl e, db') \<Rightarrow> (Inl e, db')
        | (Inr (g, True), db') \<Rightarrow> (Inr (g, True), db')
        | (Inr (g, False), db') \<Rightarrow> update_group_type (race 1) ck g display_name agent_profile_id policy status db')))"

definition rebind_group ::
  "(gateway_db \<Rightarrow> gateway_db) \<Rightarrow> clocks \<Rightarrow> ConversationGroupTypeBinding \<Rightarrow> string \<Rightarrow> gateway_db
     \<Rightarrow> (ConversationGroupTypeBinding \<times> bool) outcome"
where
  "rebind_group race ck existing group_type_id db =
     (if cg_group_type_id existing = group_type_id then (Inr (existing, False), db)
      else
        (let db1 = race db; f = (\<lambda>x. x\<lparr>cg_group_type_id := group_type_id, cg_updated_at := db_now ck\<rparr>) in
         if group_type_id \<notin> gt_id ` set (group_types db1) then (Inl IntegrityError, db1)
         else
           (case lookup_by cg_id (cg_id existing) (group_bindings db1) of
              None \<Rightarrow> (Inl StaleDataError, db1)
            | Some b \<Rightarrow>
                (Inr (f b, False), db1\<lparr>group_bindings := update_where (\<lambda>x. cg_id x = cg_id existing) f (group_bindings db1)\<rparr>))))"

definition bind_conversation_group_type ::
  "(nat \<Rightarrow> gateway_db \<Rightarrow> gateway_db) \<Rightarrow> clocks \<Rightarrow> string \<Rightarrow> int \<Rightarrow> string \<Rightarrow> gateway_db
     \<Rightarrow> (ConversationGroupTypeBinding \<times> bool) outcome"
where
  "bind_conversation_group_type race ck uuid conversation_record_id group_type_id db =
     checked (require_group_conversation conversation_record_id db) db (\<lambda>_.
     checked (require_group_type group_type_id db) db (\<lambda>_.
       (case get_or_insert (get_conversation_group_type_binding conversation_record_id) insert_group_binding
               \<lparr>cg_id = uuid, cg_conversation_id = conversation_record_id, cg_group_type_id = group_type_id,
                cg_created_at = db_now ck, cg_updated_at = db_now ck\<rparr> (race 0) db of
          (Inl e, db') \<Rightarrow> (Inl e, db')
        | (Inr (b, True), db') \<Rightarrow> (Inr (b, True), db')
        | (Inr (b, False), db') \<Rightarrow> rebind_group (race 1) ck b group_type_id db')))"

definition resolve_group_type :: "int \<Rightarrow> gateway_db \<Rightarrow> gateway_error + GroupType option" where
  "resolve_group_type conversation_record_id db =
     (case require_conversation conversation_record_id db of
        Inl e \<Rightarrow> Inl e
      | Inr v \<Rightarrow>
        if v_conversation_type v \<noteq> ''group'' then Inr None
        else
          (case get_bound_group_type conversation_record_id db of
             Some g \<Rightarrow> Inr (Some g)
           | None \<Rightarrow>
             (case get_group_type_by_key UNKNOWN_GROUP_TYPE_KEY db of
                None \<Rightarrow> Inl (RoutingFailure UnknownGroupTypeNotConfiguredError)
              | Some g \<Rightarrow> Inr (Some g))))"

section \<open>Routes\<close>

record ResolvedRoute =
  rr_conversation_record_id :: int
  rr_source :: string
  rr_source_account_id :: string
  rr_conversation_id :: string
  rr_conversation_type :: ThreadType
  rr_enterprise_identity_id :: string
  rr_group_type_id :: "string option"
  rr_group_type_key :: "string option"
  rr_agent_profile_id :: string
  rr_agent_profile_key :: string
  rr_agent_profile_reference :: string
  rr_agent_profile_revision :: int
  rr_thread_policy :: ThreadPolicy

definition conversation_key :: "Conversation \<Rightarrow> string \<times> string \<times> string" where
  "conversation_key v = (v_source v, v_source_account_id v, v_conversation_id v)"

definition resolved_route ::
  "Conversation \<Rightarrow> ThreadType \<Rightarrow> string \<Rightarrow> GroupType option \<Rightarrow> AgentProfile \<Rightarrow> ThreadPolicy \<Rightarrow> ResolvedRoute" where
  "resolved_route v requested_type enterprise_identity_id group_type profile thread_policy =
     \<lparr>rr_conversation_record_id = v_id v, rr_source = v_source v, rr_source_account_id = v_source_account_id v,
      rr_conversation_id = v_conversation_id v, rr_conversation_type = requested_type,
      rr_enterprise_identity_id = enterprise_identity_id, rr_group_type_id = map_option gt_id group_type,
      rr_group_type_key = map_option gt_type_key group_type, rr_agent_profile_id = ap_id profile,
      rr_agent_profile_key = ap_profile_key profile, rr_agent_profile_reference = ap_external_profile_ref profile,
      rr_agent_profile_revision = ap_revision profile, rr_thread_policy = thread_policy\<rparr>"

definition active_profile_or_raise ::
  "AgentProfile \<Rightarrow> Conversation \<Rightarrow> ThreadType \<Rightarrow> string \<Rightarrow> GroupType option \<Rightarrow> ThreadPolicy \<Rightarrow> gateway_error + ResolvedRoute" where
  "active_profile_or_raise profile v requested_type enterprise_identity_id group_type thread_policy =
     (if ap_status profile \<noteq> PROFILE_ACTIVE
      then Inl (RoutingFailure (RouteAgentProfileUnavailableError (ap_id profile) (Some (ap_status profile))))
      else Inr (resolved_route v requested_type enterprise_identity_id group_type profile thread_policy))"

text \<open>The status \<open>None\<close> of an unavailable profile stands for \<open>"missing"\<close>.\<close>

definition resolve_route ::
  "string \<Rightarrow> string \<Rightarrow> string \<Rightarrow> string \<Rightarrow> string \<Rightarrow> gateway_db \<Rightarrow> gateway_error + ResolvedRoute" where
  "resolve_route source source_account_id conversation_id conversation_type enterprise_identity_id db =
     (case thread_type_of_value conversation_type of
        None \<Rightarrow> Inl (ValueError ''not a valid ThreadType'')
      | Some requested_type \<Rightarrow>
        (case lookup_by conversation_key (source, source_account_id, conversation_id) (conversations db) of
           None \<Rightarrow> Inl (RoutingFailure RouteConversationNotFoundError)
         | Some v \<Rightarrow>
           if v_conversation_type v \<noteq> thread_type_value requested_type
           then Inl (RoutingFailure (RouteConversationTypeConflictError (v_conversation_type v) (thread_type_value requested_type)))
           else if requested_type = THREAD_PRIVATE
           then
             (case resolve_private_agent_profile (v_id v) db of
                Inl e \<Rightarrow> Inl e
              | Inr profile \<Rightarrow> active_profile_or_raise profile v requested_type enterprise_identity_id None PRIVATE_SENDER)
           else
             (case resolve_group_type (v_id v) db of
                Inl e \<Rightarrow> Inl e
              | Inr None \<Rightarrow>
                  Inl (RoutingFailure (RouteConversationTypeConflictError (v_conversation_type v) (thread_type_value requested_type)))
              | Inr (Some g) \<Rightarrow>
                  if gt_status g \<noteq> GROUP_ACTIVE then Inl (RoutingFailure (RouteGroupTypeUnavailableError (gt_id g) (gt_status g)))
                  else
                    (case get_agent_profile (gt_agent_profile_id g) db of
                       None \<Rightarrow> Inl (RoutingFailure (RouteAgentProfileUnavailableError (gt_agent_profile_id g) None))
                     | Some profile \<Rightarrow>
                         active_profile_or_raise profile v requested_type enterprise_identity_id (Some g) (gt_thread_policy g)))))"

section \<open>What the tables promise\<close>

interpretation profile_table: keyed_table "get_agent_profile_revision (ap_profile_key p) (ap_revision p)" insert_agent_profile p for p
proof (unfold_locales, goal_cases)
  case (1 u v)
  then show ?case using lookup_by_snoc [of profile_revision_key "(ap_profile_key p, ap_revision p)" "agent_profiles u" p]
    by (auto simp: get_agent_profile_revision_def insert_agent_profile_def profile_revision_key_def [of p] split: if_splits)
next
  case (2 u r)
  then show ?case using lookup_by_taken [of profile_revision_key "profile_revision_key p" "agent_profiles u" r p]
    by (simp add: get_agent_profile_revision_def insert_agent_profile_def profile_table_ok_def profile_revision_key_def)
qed

interpretation group_type_table: keyed_table "get_group_type_by_key (gt_type_key g)" insert_group_type g for g
proof (unfold_locales, goal_cases)
  case (1 u v)
  then show ?case by (auto simp: get_group_type_by_key_def insert_group_type_def intro: lookup_by_snoc split: if_splits)
next
  case (2 u r)
  then show ?case using lookup_by_taken [of gt_type_key "gt_type_key g" "group_types u" r g]
    by (simp add: get_group_type_by_key_def insert_group_type_def group_type_table_ok_def)
qed

interpretation profile_binding_table: keyed_table "get_conversation_agent_profile_binding (cp_conversation_id b)" insert_profile_binding b for b
proof (unfold_locales, goal_cases)
  case (1 u v)
  then show ?case
    by (auto simp: get_conversation_agent_profile_binding_def insert_profile_binding_def intro: lookup_by_snoc split: if_splits)
next
  case (2 u r)
  then show ?case using lookup_by_taken [of cp_conversation_id "cp_conversation_id b" "profile_bindings u" r b]
    by (simp add: get_conversation_agent_profile_binding_def insert_profile_binding_def)
qed

interpretation group_binding_table: keyed_table "get_conversation_group_type_binding (cg_conversation_id b)" insert_group_binding b for b
proof (unfold_locales, goal_cases)
  case (1 u v)
  then show ?case
    by (auto simp: get_conversation_group_type_binding_def insert_group_binding_def intro: lookup_by_snoc split: if_splits)
next
  case (2 u r)
  then show ?case using lookup_by_taken [of cg_conversation_id "cg_conversation_id b" "group_bindings u" r b]
    by (simp add: get_conversation_group_type_binding_def insert_group_binding_def)
qed

section \<open>What a route promises\<close>

lemma active_profile_or_raise_Inr:
  "active_profile_or_raise p v ty e g pol = Inr r \<Longrightarrow> ap_status p = PROFILE_ACTIVE \<and> r = resolved_route v ty e g p pol"
  by (auto simp: active_profile_or_raise_def split: if_splits)

lemma resolve_group_type_stored:
  assumes "resolve_group_type i db = Inr (Some g)"
  shows "g \<in> set (group_types db)"
proof -
  from assms consider "get_bound_group_type i db = Some g" | "get_group_type_by_key UNKNOWN_GROUP_TYPE_KEY db = Some g"
    unfolding resolve_group_type_def by (auto split: sum.splits if_splits option.splits)
  then show ?thesis
  proof cases
    case 1
    then obtain j where "get_group_type j db = Some g" unfolding get_bound_group_type_def bind_eq_Some_conv by blast
    then show ?thesis unfolding get_group_type_def by (blast dest: lookup_by_Some)
  next
    case 2
    then show ?thesis unfolding get_group_type_by_key_def by (blast dest: lookup_by_Some)
  qed
qed

lemma resolve_route_sound:
  assumes "resolve_route s a c cty e db = Inr r"
  shows "\<exists>p. get_agent_profile (rr_agent_profile_id r) db = Some p \<and> ap_status p = PROFILE_ACTIVE
     \<and> rr_agent_profile_revision r = ap_revision p"
    and "rr_source r = s \<and> rr_source_account_id r = a \<and> rr_conversation_id r = c
     \<and> thread_type_of_value cty = Some (rr_conversation_type r) \<and> rr_enterprise_identity_id r = e"
    and "group_type_table_ok (group_types db) \<Longrightarrow> validate_policy (rr_thread_policy r) (rr_conversation_type r) = Inr ()"
proof -
  from assms obtain ty v where v: "thread_type_of_value cty = Some ty" "lookup_by conversation_key (s, a, c) (conversations db) = Some v"
    by (auto simp: resolve_route_def split: option.splits)
  then have key: "v_source v = s" "v_source_account_id v = a" "v_conversation_id v = c"
    by (auto simp: conversation_key_def dest!: lookup_by_Some)
  have self: "get_agent_profile (ap_id p) db = Some p" if "get_agent_profile j db = Some p" for j p
    using that lookup_by_Some [of ap_id j "agent_profiles db" p] by (auto simp: get_agent_profile_def)
  consider p where "ty = THREAD_PRIVATE" "resolve_private_agent_profile (v_id v) db = Inr p" "ap_status p = PROFILE_ACTIVE"
      "r = resolved_route v ty e None p PRIVATE_SENDER"
    | g p where "ty = THREAD_GROUP" "resolve_group_type (v_id v) db = Inr (Some g)" "get_agent_profile (gt_agent_profile_id g) db = Some p"
      "ap_status p = PROFILE_ACTIVE" "r = resolved_route v ty e (Some g) p (gt_thread_policy g)"
    using assms v by (cases ty) (auto simp: resolve_route_def dest!: active_profile_or_raise_Inr split: sum.splits option.splits if_splits)
  then have "(\<exists>p. get_agent_profile (rr_agent_profile_id r) db = Some p \<and> ap_status p = PROFILE_ACTIVE
     \<and> rr_agent_profile_revision r = ap_revision p)
     \<and> (rr_source r = s \<and> rr_source_account_id r = a \<and> rr_conversation_id r = c
     \<and> thread_type_of_value cty = Some (rr_conversation_type r) \<and> rr_enterprise_identity_id r = e)
     \<and> (group_type_table_ok (group_types db) \<longrightarrow> validate_policy (rr_thread_policy r) (rr_conversation_type r) = Inr ())"
  proof cases
    case 1
    then show ?thesis using v key self
      by (auto simp: resolved_route_def validate_policy_def resolve_private_agent_profile_def require_agent_profile_def
          split: sum.splits option.splits)
  next
    case 2
    have "group_type_table_ok (group_types db) \<Longrightarrow> gt_thread_policy g \<noteq> PRIVATE_SENDER"
      using resolve_group_type_stored [OF 2(2)] by (auto simp: group_type_table_ok_def list_all_iff group_type_row_ok_def)
    with 2 show ?thesis using v key self by (auto simp: resolved_route_def validate_policy_def)
  qed
  then show "\<exists>p. get_agent_profile (rr_agent_profile_id r) db = Some p \<and> ap_status p = PROFILE_ACTIVE
     \<and> rr_agent_profile_revision r = ap_revision p"
    and "rr_source r = s \<and> rr_source_account_id r = a \<and> rr_conversation_id r = c
     \<and> thread_type_of_value cty = Some (rr_conversation_type r) \<and> rr_enterprise_identity_id r = e"
    and "group_type_table_ok (group_types db) \<Longrightarrow> validate_policy (rr_thread_policy r) (rr_conversation_type r) = Inr ()"
    by blast+
qed

end
