(* ===== verification/Message_Store.thy ===== *)
theory Message_Store
  imports Agent_Routing
begin

text \<open>
  Conversations and messages (\<open>message/models.py\<close>, \<open>message/schemas.py\<close>,
  \<open>message/store.py\<close>): the validated event of a channel is stored once, under its event id and
  under its source identity, together with the conversation it belongs to. \<open>race n\<close> is what other
  sessions commit before the n-th commit of an operation.
\<close>

section \<open>Events\<close>

record MessageEvent =
  ev_event_id :: string
  ev_source :: string
  ev_source_account_id :: string
  ev_source_message_id :: string
  ev_conversation_id :: string
  ev_conversation_type :: string
  ev_is_mentioned :: "bool option"
  ev_is_self :: bool
  ev_conversation_name :: "string option"
  ev_sender_type :: string
  ev_sender_id :: "string option"
  ev_sender_name :: "string option"
  ev_message_type :: string
  ev_raw_type :: "int option"
  ev_content :: string
  ev_timestamp :: "instant option"
  ev_occurred_at :: "instant option"
  ev_received_at :: instant
  ev_direction :: "string option"
  ev_source_local_id :: "string option"
  ev_source_server_id :: "string option"
  ev_source_message_id_is_fallback :: bool
  ev_reply_context :: "json option"
  ev_reply_to_message_id :: "string option"
  ev_attachments :: "Attachment list"
  ev_raw_payload :: "json option"

text \<open>
  \<open>validate_envelope\<close>, the validator that runs after the fields were checked. Every raised
  \<open>ValueError\<close> is reported as a validation error of the schema.
\<close>

definition validate_envelope :: "MessageEvent \<Rightarrow> gateway_error + MessageEvent" where
  "validate_envelope e =
     (if ev_sender_type e = ''human'' \<and> ev_sender_id e = None then Inl SchemaValidationError
      else if ev_conversation_type e = ''private'' \<and> ev_is_mentioned e \<noteq> None then Inl SchemaValidationError
      else
        (let e1 = (if ev_conversation_type e \<noteq> ''private'' \<and> ev_is_mentioned e = None then e\<lparr>ev_is_mentioned := Some False\<rparr> else e) in
         if ev_timestamp e1 = None \<and> ev_occurred_at e1 = None then Inl SchemaValidationError
         else if ev_timestamp e1 \<noteq> None \<and> ev_occurred_at e1 \<noteq> None \<and> ev_timestamp e1 \<noteq> ev_occurred_at e1
         then Inl SchemaValidationError
         else
           (let t = (if ev_timestamp e1 = None then ev_occurred_at e1 else ev_timestamp e1);
                e2 = e1\<lparr>ev_timestamp := t, ev_occurred_at := t\<rparr> in
            Inr (if ev_direction e2 = None
                 then e2\<lparr>ev_direction := Some (if ev_sender_type e2 = ''system'' then ''system''
                            else if ev_is_self e2 then ''outbound'' else ''inbound'')\<rparr>
                 else e2))))"

section \<open>Tables\<close>

definition message_source_key :: "Message \<Rightarrow> string \<times> string \<times> string \<times> string" where
  "message_source_key m = (g_source m, g_source_account_id m, g_conversation_id m, g_source_message_id m)"

definition message_row_ok :: "Message \<Rightarrow> bool" where
  "message_row_ok m \<longleftrightarrow>
     (g_conversation_type m \<noteq> ''private'' \<or> g_is_mentioned m = None)
     \<and> (g_conversation_type m \<noteq> ''group'' \<or> g_is_mentioned m \<noteq> None)
     \<and> g_sender_type m \<in> {''human'', ''system''}
     \<and> (g_sender_type m = ''system'' \<or> (case g_sender_id m of None \<Rightarrow> False | Some s \<Rightarrow> sql_nonempty s))
     \<and> g_direction m \<in> {''inbound'', ''outbound'', ''assistant'', ''system''}"

definition message_table_ok :: "Message list \<Rightarrow> bool" where
  "message_table_ok rows \<longleftrightarrow> distinct (map g_id rows) \<and> distinct (map g_event_id rows) \<and> distinct (map message_source_key rows)
     \<and> list_all message_row_ok rows"

definition conversation_table_ok :: "Conversation list \<Rightarrow> bool" where
  "conversation_table_ok rows \<longleftrightarrow> distinct (map v_id rows) \<and> distinct (map conversation_key rows)"

definition message_conversation_key :: "Message \<Rightarrow> string \<times> string \<times> string" where
  "message_conversation_key m = (g_source m, g_source_account_id m, g_conversation_id m)"

definition insert_message :: "Message \<Rightarrow> gateway_db \<Rightarrow> gateway_db option" where
  "insert_message m db =
     (if message_table_ok (messages db @ [m]) \<and> message_conversation_key m \<in> conversation_key ` set (conversations db)
      then Some (db\<lparr>messages := messages db @ [m], message_seq := message_seq db + 1\<rparr>) else None)"

definition insert_conversation :: "Conversation \<Rightarrow> gateway_db \<Rightarrow> gateway_db option" where
  "insert_conversation v db =
     (if conversation_table_ok (conversations db @ [v])
      then Some (db\<lparr>conversations := conversations db @ [v], conversation_seq := conversation_seq db + 1\<rparr>) else None)"

section \<open>The store\<close>

definition get_conversation :: "string \<Rightarrow> string \<Rightarrow> string \<Rightarrow> gateway_db \<Rightarrow> Conversation option" where
  "get_conversation source source_account_id conversation_id db =
     lookup_by conversation_key (source, source_account_id, conversation_id) (conversations db)"

definition new_conversation :: "clocks \<Rightarrow> int \<Rightarrow> string \<Rightarrow> string \<Rightarrow> string \<Rightarrow> string \<Rightarrow> string option \<Rightarrow> Conversation" where
  "new_conversation ck i source source_account_id conversation_id conversation_type name =
     \<lparr>v_id = i, v_source = source, v_source_account_id = source_account_id, v_conversation_id = conversation_id,
      v_conversation_type = conversation_type, v_conversation_name = name, v_created_at = db_now ck, v_updated_at = db_now ck\<rparr>"

definition prepare_conversation ::
  "(gateway_db \<Rightarrow> gateway_db) \<Rightarrow> clocks \<Rightarrow> string \<Rightarrow> string \<Rightarrow> string \<Rightarrow> string \<Rightarrow> gateway_db \<Rightarrow> (Conversation \<times> bool) outcome" where
  "prepare_conversation race ck source source_account_id conversation_id conversation_type db =
     checked (schema_string 64 source) db (\<lambda>s.
     checked (schema_string 255 source_account_id) db (\<lambda>a.
     checked (schema_string 255 conversation_id) db (\<lambda>c.
       if conversation_type \<notin> {''private'', ''group''} then (Inl SchemaValidationError, db)
       else
         (case get_conversation s a c db of
            Some existing \<Rightarrow>
              if v_conversation_type existing \<noteq> conversation_type
              then (Inl (MessageFailure (ConversationTypeConflictError (v_conversation_type existing) conversation_type)), db)
              else (Inr (existing, False), db)
          | None \<Rightarrow>
              (let db1 = race db; v = new_conversation ck (conversation_seq db1) s a c conversation_type None in
               case insert_conversation v db1 of
                 Some db2 \<Rightarrow> (Inr (v, True), db2) | None \<Rightarrow> (Inl IntegrityError, db1))))))"

definition get_by_event_id :: "string \<Rightarrow> gateway_db \<Rightarrow> Message option" where
  "get_by_event_id event_id db = lookup_by g_event_id event_id (messages db)"

definition get_by_source_message :: "string \<Rightarrow> string \<Rightarrow> string \<Rightarrow> string \<Rightarrow> gateway_db \<Rightarrow> Message option" where
  "get_by_source_message source source_account_id conversation_id source_message_id db =
     lookup_by message_source_key (source, source_account_id, conversation_id, source_message_id) (messages db)"

definition get_existing_message :: "MessageEvent \<Rightarrow> gateway_db \<Rightarrow> Message option" where
  "get_existing_message event db =
     (case get_by_event_id (ev_event_id event) db of
        Some m \<Rightarrow> Some m
      | None \<Rightarrow> get_by_source_message (ev_source event) (ev_source_account_id event) (ev_conversation_id event)
                  (ev_source_message_id event) db)"

text \<open>After validation the time and the direction of an event are present.\<close>

definition build_message :: "clocks \<Rightarrow> int \<Rightarrow> MessageEvent \<Rightarrow> Message" where
  "build_message ck i event =
     \<lparr>g_id = i, g_event_id = ev_event_id event, g_source = ev_source event, g_source_account_id = ev_source_account_id event,
      g_source_message_id = ev_source_message_id event, g_conversation_id = ev_conversation_id event,
      g_conversation_type = ev_conversation_type event, g_is_mentioned = ev_is_mentioned event, g_is_self = ev_is_self event,
      g_sender_type = ev_sender_type event, g_sender_id = ev_sender_id event, g_sender_name = ev_sender_name event,
      g_message_type = ev_message_type event, g_raw_type = ev_raw_type event, g_content = ev_content event,
      g_timestamp = the (ev_timestamp event), g_source_local_id = ev_source_local_id event,
      g_source_server_id = ev_source_server_id event,
      g_source_message_id_is_fallback = ev_source_message_id_is_fallback event, g_reply_context = ev_reply_context event,
      g_reply_to_message_id = ev_reply_to_message_id event, g_direction = the (ev_direction event),
      g_occurred_at = the (ev_occurred_at event), g_received_at = ev_received_at event, g_created_at = db_now ck,
      g_attachments = ev_attachments event, g_raw_payload = ev_raw_payload event\<rparr>"

definition validate_conversation_type :: "Conversation \<Rightarrow> MessageEvent \<Rightarrow> gateway_error + unit" where
  "validate_conversation_type v event =
     (if v_conversation_type v \<noteq> ev_conversation_type event
      then Inl (MessageFailure (ConversationTypeConflictError (v_conversation_type v) (ev_conversation_type event))) else Inr ())"

definition retry_message_insert ::
  "(gateway_db \<Rightarrow> gateway_db) \<Rightarrow> clocks \<Rightarrow> MessageEvent \<Rightarrow> gateway_db \<Rightarrow> (Message \<times> bool) outcome" where
  "retry_message_insert race ck event db =
     (let db1 = race db; m = build_message ck (message_seq db1) event in
      case insert_message m db1 of
        Some db2 \<Rightarrow> (Inr (m, True), db2)
      | None \<Rightarrow>
          (case get_existing_message event db1 of
             Some existing \<Rightarrow> (Inr (existing, False), db1) | None \<Rightarrow> (Inl IntegrityError, db1)))"

text \<open>
  The conversation part of the transaction: a new row, or the new name of the loaded one (a
  column whose value does not change is not written).
\<close>

definition rename_conversation :: "clocks \<Rightarrow> Conversation \<Rightarrow> string option \<Rightarrow> gateway_db \<Rightarrow> gateway_db" where
  "rename_conversation ck v name db =
     (if name = None \<or> name = v_conversation_name v then db
      else db\<lparr>conversations := update_where (\<lambda>x. v_id x = v_id v)
             (\<lambda>x. x\<lparr>v_conversation_name := name, v_updated_at := db_now ck\<rparr>) (conversations db)\<rparr>)"

definition stage_conversation :: "clocks \<Rightarrow> Conversation option \<Rightarrow> MessageEvent \<Rightarrow> gateway_db \<Rightarrow> gateway_db option" where
  "stage_conversation ck conversation event db =
     (case conversation of
        None \<Rightarrow> insert_conversation (new_conversation ck (conversation_seq db) (ev_source event) (ev_source_account_id event)
                  (ev_conversation_id event) (ev_conversation_type event) (ev_conversation_name event)) db
      | Some v \<Rightarrow> Some (rename_conversation ck v (ev_conversation_name event) db))"

definition message_create ::
  "(nat \<Rightarrow> gateway_db \<Rightarrow> gateway_db) \<Rightarrow> clocks \<Rightarrow> MessageEvent \<Rightarrow> gateway_db \<Rightarrow> (Message \<times> bool) outcome" where
  "message_create race ck event db =
     (case get_existing_message event db of
        Some existing \<Rightarrow> (Inr (existing, False), db)
      | None \<Rightarrow>
        (let conversation = get_conversation (ev_source event) (ev_source_account_id event) (ev_conversation_id event) db in
         checked (case conversation of None \<Rightarrow> Inr () | Some v \<Rightarrow> validate_conversation_type v event) db (\<lambda>_.
           (let db1 = race 0 db; m = build_message ck (message_seq db1) event in
            case Option.bind (stage_conversation ck conversation event db1) (insert_message m) of
              Some db2 \<Rightarrow> (Inr (m, True), db2)
            | None \<Rightarrow>
              (case get_existing_message event db1 of
                 Some existing \<Rightarrow> (Inr (existing, False), db1)
               | None \<Rightarrow>
                 if conversation \<noteq> None then (Inl IntegrityError, db1)
                 else
                   (case get_conversation (ev_source event) (ev_source_account_id event) (ev_conversation_id event) db1 of
                      None \<Rightarrow> (Inl IntegrityError, db1)
                    | Some v \<Rightarrow> checked (validate_conversation_type v event) db1 (\<lambda>_. retry_message_insert (race 1) ck event db1)))))))"

definition message_get :: "int \<Rightarrow> gateway_db \<Rightarrow> Message option" where
  "message_get message_id db = lookup_by g_id message_id (messages db)"

definition list_for_conversation :: "string \<Rightarrow> string \<Rightarrow> string \<Rightarrow> nat option \<Rightarrow> nat \<Rightarrow> gateway_db \<Rightarrow> Message list" where
  "list_for_conversation source source_account_id conversation_id limit offset db =
     (let rows = drop offset (sort_key (\<lambda>m. (g_timestamp m, g_id m))
                   (filter (\<lambda>m. message_conversation_key m = (source, source_account_id, conversation_id)) (messages db))) in
      case limit of None \<Rightarrow> rows | Some n \<Rightarrow> take n rows)"

section \<open>A message is stored once\<close>

definition messages_ok :: "gateway_db \<Rightarrow> bool" where
  "messages_ok db \<longleftrightarrow> message_table_ok (messages db) \<and> (\<forall>m\<in>set (messages db). g_id m < message_seq db)"

lemma get_existing_self:
  assumes "messages_ok db" "m \<in> set (messages db)" "g_event_id m = ev_event_id event"
  shows "get_existing_message event db = Some m"
  using assms lookup_by_distinct [of g_event_id "messages db" m]
  by (simp add: get_existing_message_def get_by_event_id_def messages_ok_def message_table_ok_def)

lemma get_existing_message_stored: "get_existing_message event db = Some m \<Longrightarrow> m \<in> set (messages db)"
  by (auto simp: get_existing_message_def get_by_event_id_def get_by_source_message_def dest!: lookup_by_Some split: option.splits)

lemma insert_message_ok:
  assumes "insert_message m db = Some db'" "messages_ok db" "g_id m = message_seq db"
  shows "messages_ok db' \<and> m \<in> set (messages db') \<and> set (messages db) \<subseteq> set (messages db')"
  using assms by (fastforce simp: insert_message_def messages_ok_def split: if_splits)

lemma stage_conversation_messages:
  "stage_conversation ck v event db = Some db' \<Longrightarrow> messages db' = messages db \<and> message_seq db' = message_seq db"
  by (auto simp: stage_conversation_def insert_conversation_def rename_conversation_def split: option.splits if_splits)

definition message_kept :: "gateway_db \<Rightarrow> gateway_db \<Rightarrow> bool" where
  "message_kept db db' \<longleftrightarrow> (messages_ok db \<longrightarrow> messages_ok db' \<and> set (messages db) \<subseteq> set (messages db'))"

lemma message_kept_trans: "message_kept a b \<Longrightarrow> message_kept b c \<Longrightarrow> message_kept a c"
  by (auto simp: message_kept_def)

lemma message_kept_refl [simp, intro]: "message_kept db db"
  by (simp add: message_kept_def)

lemma build_message_sel [simp]: "g_id (build_message ck i event) = i" "g_event_id (build_message ck i event) = ev_event_id event"
  by (simp_all add: build_message_def)

lemma staged_insert_ok:
  assumes "Option.bind (stage_conversation ck v event db) (insert_message (build_message ck (message_seq db) event)) = Some db'"
    "messages_ok db"
  shows "messages_ok db' \<and> get_existing_message event db' = Some (build_message ck (message_seq db) event)
    \<and> set (messages db) \<subseteq> set (messages db')"
proof -
  from assms(1) obtain db1 where s: "stage_conversation ck v event db = Some db1"
    and i: "insert_message (build_message ck (message_seq db) event) db1 = Some db'" by (auto simp: bind_eq_Some_conv)
  note frame = stage_conversation_messages [OF s]
  with assms(2) have "messages_ok db1" by (simp add: messages_ok_def)
  from insert_message_ok [OF i this] frame show ?thesis by (auto intro: get_existing_self)
qed

lemma retry_message_insert_answer:
  assumes r: "\<And>u. message_kept u (race u)" and ok: "messages_ok db"
    and e: "retry_message_insert race ck event db = (res, db')"
  shows "message_kept db db' \<and> (\<forall>m new. res = Inr (m, new) \<longrightarrow> get_existing_message event db' = Some m)"
proof -
  have ok1: "messages_ok (race db)" and sub: "set (messages db) \<subseteq> set (messages (race db))" using r ok by (auto simp: message_kept_def)
  show ?thesis
  proof (cases "insert_message (build_message ck (message_seq (race db)) event) (race db)")
    case (Some db2)
    from insert_message_ok [OF Some ok1] sub have "messages_ok db2" "set (messages db) \<subseteq> set (messages db2)"
        "get_existing_message event db2 = Some (build_message ck (message_seq (race db)) event)"
      by (auto intro: get_existing_self)
    with Some e show ?thesis by (auto simp: retry_message_insert_def message_kept_def)
  next
    case None
    with e r show ?thesis by (auto simp: retry_message_insert_def Let_def split: option.splits)
  qed
qed

lemma message_create_answer:
  assumes r: "\<And>n u. message_kept u (race n u)" and ok: "messages_ok db"
    and e: "message_create race ck event db = (res, db')"
  shows "message_kept db db' \<and> (\<forall>m new. res = Inr (m, new) \<longrightarrow> get_existing_message event db' = Some m)"
proof (cases "get_existing_message event db")
  case (Some m)
  with e show ?thesis by (auto simp: message_create_def)
next
  case None
  define v where "v = get_conversation (ev_source event) (ev_source_account_id event) (ev_conversation_id event) db"
  have ok1: "messages_ok (race 0 db)" and sub: "set (messages db) \<subseteq> set (messages (race 0 db))" using r ok by (auto simp: message_kept_def)
  show ?thesis
  proof (cases "Option.bind (stage_conversation ck v event (race 0 db)) (insert_message (build_message ck (message_seq (race 0 db)) event))")
    case (Some db2)
    from staged_insert_ok [OF Some ok1] sub None e show ?thesis
      by (cases "case v of None \<Rightarrow> Inr () | Some v \<Rightarrow> validate_conversation_type v event")
        (auto simp: message_create_def v_def [symmetric] Some message_kept_def)
  next
    case none: None
    have "message_kept db (race 0 db)" using r by blast
    moreover have "message_kept db db' \<and> (\<forall>m new. res = Inr (m, new) \<longrightarrow> get_existing_message event db' = Some m)"
      if "retry_message_insert (race 1) ck event (race 0 db) = (res, db')"
      using retry_message_insert_answer [OF r ok1 that] message_kept_trans [OF \<open>message_kept db (race 0 db)\<close>] by blast
    ultimately show ?thesis using e None none
      by (cases "case v of None \<Rightarrow> Inr () | Some v \<Rightarrow> validate_conversation_type v event")
        (auto simp: message_create_def v_def [symmetric] Let_def checked_def split: option.splits if_splits sum.splits)
  qed
qed

end
