(* ===== verification/Admission_Service.thy ===== *)
theory Admission_Service
  imports Agent_Routing Admission_Store
begin

text \<open>
  The admission of a message (\<open>admission/service.py\<close>): preprocessing denials, the facts for the
  evaluator, the decision, and only for an allowed sender the workspace, the route and the
  thread. The rendering of a stored instant (\<open>datetime.isoformat\<close>, which depends on the zone the
  driver attaches) is a parameter, as are the races and identifiers of the stores below.
\<close>

datatype SenderType = SENDER_HUMAN | SENDER_SYSTEM

record AdmissionCandidate =
  ca_message_id :: int
  ca_source :: string
  ca_source_account_id :: string
  ca_conversation_id :: string
  ca_conversation_type :: string
  ca_sender_type :: SenderType
  ca_sender_id :: "string option"
  ca_is_self :: bool
  ca_is_mentioned :: "bool option"
  ca_message_type :: string
  ca_requested_scope :: "string set"
  ca_requested_skill_ids :: "string set"
  ca_risk_level :: RiskLevel

definition SYSTEM_MESSAGE_TYPE :: string where "SYSTEM_MESSAGE_TYPE = ''system''"

fun identity_status_value :: "IdentityStatus \<Rightarrow> string" where
  "identity_status_value IDENTITY_ACTIVE = ''active''"
| "identity_status_value IDENTITY_DISABLED = ''disabled''"
| "identity_status_value IDENTITY_ARCHIVED = ''archived''"
| "identity_status_value IDENTITY_UNRESOLVED = ''unresolved''"

definition datetime_snapshot :: "(instant \<Rightarrow> string) \<Rightarrow> instant option \<Rightarrow> json" where
  "datetime_snapshot isoformat value = opt_json (\<lambda>t. JStr (isoformat t)) value"

definition policy_snapshot_fields ::
  "(instant \<Rightarrow> string) \<Rightarrow> IdentityFacts \<Rightarrow> GatewayPolicyFacts \<Rightarrow> GatewayAccessPolicy option \<Rightarrow> UserAccessPolicy option
     \<Rightarrow> (string \<times> json) list"
where
  "policy_snapshot_fields isoformat i g gateway_policy user_policy =
     [(''evaluated_identity'', JObj
         [(''identity_resolved'', JBool (identity_resolved i)),
          (''enterprise_identity_id'', opt_json JStr (if_enterprise_identity_id i)),
          (''identity_status'', JStr (identity_status_value (identity_status i))),
          (''user_allowed'', JBool (if_user_allowed i)),
          (''permission_scope'', sorted_strings (user_permission_scope i)),
          (''allowed_skills'', sorted_strings (user_allowed_skills i))]),
      (''evaluated_gateway'', JObj
         [(''permission_scope'', sorted_strings (system_permission_scope g)),
          (''allowed_skills'', sorted_strings (system_allowed_skills g)),
          (''allowed_risk_levels'', sorted_strings (risk_value ` gp_allowed_risk_levels g))]),
      (''gateway'', opt_json (\<lambda>p. JObj
         [(''id'', JStr (gap_id p)), (''policy_key'', JStr (gap_policy_key p)), (''enabled'', JBool (gap_enabled p)),
          (''permission_scope'', sorted_strings (gap_permission_scope p)),
          (''allowed_skills'', sorted_strings (gap_allowed_skills p)),
          (''allowed_risk_levels'', sorted_strings (gap_allowed_risk_levels p)),
          (''updated_at'', datetime_snapshot isoformat (Some (gap_updated_at p)))]) gateway_policy),
      (''user'', opt_json (\<lambda>p. JObj
         [(''id'', JStr (up_id p)), (''enterprise_identity_id'', JStr (up_enterprise_identity_id p)),
          (''enabled'', JBool (up_enabled p)), (''permission_scope'', sorted_strings (up_permission_scope p)),
          (''allowed_skills'', sorted_strings (up_allowed_skills p)),
          (''valid_from'', datetime_snapshot isoformat (up_valid_from p)),
          (''valid_until'', datetime_snapshot isoformat (up_valid_until p)),
          (''updated_at'', datetime_snapshot isoformat (Some (up_updated_at p)))]) user_policy)]"

definition preprocessing_denial :: "int \<Rightarrow> AdmissionReason \<Rightarrow> AdmissionOutcome" where
  "preprocessing_denial message_id reason =
     \<lparr>ao_message_id = message_id, ao_admitted = False, ao_should_create_task = False, ao_reason = reason,
      ao_enterprise_identity_id = None, ao_workspace_id = None, ao_ai_thread_id = None, ao_authorization = None,
      ao_policy_snapshot = None, ao_gateway_policy_id = None, ao_gateway_policy_updated_at = None, ao_user_policy_id = None,
      ao_user_policy_updated_at = None, ao_routing_mode = ''none'', ao_route_conversation_record_id = None,
      ao_agent_profile_id = None, ao_agent_profile_key = None, ao_agent_profile_reference = None,
      ao_agent_profile_revision = None, ao_group_type_id = None, ao_group_type_key = None, ao_thread_policy = None\<rparr>"

text \<open>\<open>**policy_references\<close> and \<open>**routing_references\<close>.\<close>

definition with_policies ::
  "(string \<times> json) list \<Rightarrow> GatewayAccessPolicy option \<Rightarrow> UserAccessPolicy option \<Rightarrow> AdmissionOutcome \<Rightarrow> AdmissionOutcome" where
  "with_policies snapshot gateway_policy user_policy a =
     a\<lparr>ao_policy_snapshot := Some (JObj snapshot), ao_gateway_policy_id := map_option gap_id gateway_policy,
       ao_gateway_policy_updated_at := map_option gap_updated_at gateway_policy,
       ao_user_policy_id := map_option up_id user_policy, ao_user_policy_updated_at := map_option up_updated_at user_policy\<rparr>"

definition with_route :: "ResolvedRoute \<Rightarrow> AdmissionOutcome \<Rightarrow> AdmissionOutcome" where
  "with_route r a =
     a\<lparr>ao_routing_mode := ''v2'', ao_route_conversation_record_id := Some (rr_conversation_record_id r),
       ao_agent_profile_id := Some (rr_agent_profile_id r), ao_agent_profile_key := Some (rr_agent_profile_key r),
       ao_agent_profile_reference := Some (rr_agent_profile_reference r),
       ao_agent_profile_revision := Some (rr_agent_profile_revision r), ao_group_type_id := rr_group_type_id r,
       ao_group_type_key := rr_group_type_key r, ao_thread_policy := Some (thread_policy_value (rr_thread_policy r))\<rparr>"

text \<open>
  The failures of the route that are a denial, with their \<open>code\<close>; every other one, a missing
  profile included, is raised.
\<close>

fun route_unavailable_code :: "gateway_error \<Rightarrow> string option" where
  "route_unavailable_code (RoutingFailure (PrivateConversationProfileNotConfiguredError _)) =
     Some ''private_conversation_profile_not_configured''"
| "route_unavailable_code (RoutingFailure UnknownGroupTypeNotConfiguredError) = Some ''unknown_group_type_not_configured''"
| "route_unavailable_code (RoutingFailure (RouteAgentProfileUnavailableError _ (Some status))) =
     (if status \<in> {PROFILE_DISABLED, PROFILE_ARCHIVED} then Some ''route_agent_profile_unavailable'' else None)"
| "route_unavailable_code (RoutingFailure (RouteGroupTypeUnavailableError _ status)) =
     (if status \<in> {GROUP_DISABLED, GROUP_ARCHIVED} then Some ''route_group_type_unavailable'' else None)"
| "route_unavailable_code _ = None"

definition admitted_outcome :: "int \<Rightarrow> string \<Rightarrow> EmployeeWorkspace \<Rightarrow> AIThread \<Rightarrow> AuthorizationDecision \<Rightarrow> AdmissionOutcome" where
  "admitted_outcome message_id enterprise_identity_id w t authorization =
     (preprocessing_denial message_id ADMISSION_ALLOWED)
       \<lparr>ao_admitted := True, ao_should_create_task := True, ao_enterprise_identity_id := Some enterprise_identity_id,
        ao_workspace_id := Some (w_id w), ao_ai_thread_id := Some (t_id t), ao_authorization := Some authorization\<rparr>"

text \<open>The allowed branch of \<open>admit\<close>: the route, the thread and the workspace of the message.\<close>

definition admit_v2 ::
  "(nat \<Rightarrow> gateway_db \<Rightarrow> gateway_db) \<Rightarrow> clocks \<Rightarrow> (nat \<Rightarrow> string) \<Rightarrow> AdmissionCandidate \<Rightarrow> string \<Rightarrow> AuthorizationDecision
     \<Rightarrow> (string \<times> json) list \<Rightarrow> GatewayAccessPolicy option \<Rightarrow> UserAccessPolicy option \<Rightarrow> gateway_db \<Rightarrow> AdmissionOutcome outcome"
where
  "admit_v2 race ck uuid candidate identity_id authorization snapshot gateway_policy user_policy db =
     (case resolve_route (ca_source candidate) (ca_source_account_id candidate) (ca_conversation_id candidate)
             (ca_conversation_type candidate) identity_id db of
        Inl e \<Rightarrow>
          (case route_unavailable_code e of
             None \<Rightarrow> (Inl e, db)
           | Some code \<Rightarrow>
               (Inr (with_policies (snapshot @ [(''route_unavailable_reason'', JStr code),
                                               (''route_authorization'', authorization_to_dict authorization)])
                       gateway_policy user_policy
                       ((preprocessing_denial (ca_message_id candidate) ROUTE_UNAVAILABLE)
                          \<lparr>ao_enterprise_identity_id := Some identity_id, ao_routing_mode := ''v2''\<rparr>)), db))
      | Inr route \<Rightarrow>
          attempt_op (resolve_thread race ck uuid (rr_conversation_id route) (rr_conversation_type route) (rr_source route)
             (rr_source_account_id route) identity_id (rr_agent_profile_id route) (rr_agent_profile_revision route)
             (rr_thread_policy route) db) (\<lambda>t db1.
          attempt_op (bind_v2_route_snapshot (\<lambda>n. race (4 + n)) ck t (rr_agent_profile_id route) (rr_thread_policy route) db1) (\<lambda>t' db2.
          attempt_op (ensure_workspace_for_authorized_identity (\<lambda>n. race (6 + n)) ck (\<lambda>n. uuid (2 + n)) identity_id db2) (\<lambda>w db3.
            (Inr (with_route route (with_policies snapshot gateway_policy user_policy
                    (admitted_outcome (ca_message_id candidate) identity_id w t' authorization))), db3)))))"

definition admit_v1 ::
  "(nat \<Rightarrow> gateway_db \<Rightarrow> gateway_db) \<Rightarrow> clocks \<Rightarrow> (nat \<Rightarrow> string) \<Rightarrow> AdmissionCandidate \<Rightarrow> string \<Rightarrow> string \<Rightarrow> AuthorizationDecision
     \<Rightarrow> (string \<times> json) list \<Rightarrow> GatewayAccessPolicy option \<Rightarrow> UserAccessPolicy option \<Rightarrow> gateway_db \<Rightarrow> AdmissionOutcome outcome"
where
  "admit_v1 race ck uuid candidate sender_id identity_id authorization snapshot gateway_policy user_policy db =
     attempt_op (ensure_workspace_for_authorized_identity (\<lambda>n. race (6 + n)) ck (\<lambda>n. uuid (3 + n)) identity_id db) (\<lambda>w db1.
     attempt_op (ensure_thread_for_authorized_request race ck uuid identity_id (ca_source candidate)
        (ca_source_account_id candidate) (ca_conversation_id candidate) (ca_conversation_type candidate) sender_id db1) (\<lambda>t db2.
       (Inr ((with_policies snapshot gateway_policy user_policy
               (admitted_outcome (ca_message_id candidate) identity_id w t authorization))\<lparr>ao_routing_mode := ''v1''\<rparr>), db2)))"

definition candidate_request :: "AdmissionCandidate \<Rightarrow> RequestFacts" where
  "candidate_request candidate =
     \<lparr>requested_scope = ca_requested_scope candidate, requested_skill_ids = ca_requested_skill_ids candidate,
      rf_risk_level = ca_risk_level candidate\<rparr>"

text \<open>
  \<open>race 8\<close> is what other sessions commit between the facts the decision uses and the policy
  rows the snapshot records.
\<close>

definition admit ::
  "(instant \<Rightarrow> string) \<Rightarrow> (nat \<Rightarrow> gateway_db \<Rightarrow> gateway_db) \<Rightarrow> clocks \<Rightarrow> (nat \<Rightarrow> string) \<Rightarrow> bool \<Rightarrow> AdmissionCandidate \<Rightarrow> gateway_db
     \<Rightarrow> AdmissionOutcome outcome"
where
  "admit isoformat race ck uuid v2_routing_enabled candidate db =
     (if ca_is_self candidate then (Inr (preprocessing_denial (ca_message_id candidate) SELF_MESSAGE), db)
      else if ca_sender_type candidate = SENDER_SYSTEM \<or> ca_message_type candidate = SYSTEM_MESSAGE_TYPE
      then (Inr (preprocessing_denial (ca_message_id candidate) SYSTEM_MESSAGE), db)
      else
        (case ca_sender_id candidate of
           None \<Rightarrow> (Inr (preprocessing_denial (ca_message_id candidate) SENDER_UNRESOLVED), db)
         | Some sender_id \<Rightarrow>
           if \<not> nonblank sender_id then (Inr (preprocessing_denial (ca_message_id candidate) SENDER_UNRESOLVED), db)
           else
             checked (resolve_source_identity_facts (wall_now ck) (ca_source candidate) (ca_source_account_id candidate) sender_id db) db
               (\<lambda>identity.
             checked (resolve_conversation_facts (ca_conversation_type candidate) (ca_is_mentioned candidate)) db (\<lambda>conversation.
             checked (resolve_gateway_policy_facts db) db (\<lambda>gateway_facts.
               (let db1 = race 8 db;
                    gateway_policy = get_gateway_policy DEFAULT_GATEWAY_POLICY_KEY db1;
                    user_policy = Option.bind (if_enterprise_identity_id identity) (\<lambda>i. get_user_policy i db1);
                    snapshot = policy_snapshot_fields isoformat identity gateway_facts gateway_policy user_policy;
                    authorization = evaluate_access identity conversation (candidate_request candidate) gateway_facts in
                if \<not> ad_allowed authorization
                then (Inr (with_policies snapshot gateway_policy user_policy
                        ((preprocessing_denial (ca_message_id candidate) ACCESS_DENIED)
                           \<lparr>ao_enterprise_identity_id := ad_enterprise_identity_id authorization,
                            ao_authorization := Some authorization\<rparr>)), db1)
                else
                  (case ad_enterprise_identity_id authorization of
                     None \<Rightarrow> (Inl (AdmissionInvariantError ''allowed authorization decision has no enterprise identity''), db1)
                   | Some identity_id \<Rightarrow>
                       if v2_routing_enabled
                       then admit_v2 race ck uuid candidate identity_id authorization snapshot gateway_policy user_policy db1
                       else admit_v1 race ck uuid candidate sender_id identity_id authorization snapshot gateway_policy user_policy db1)))))))"

section \<open>The stages of an admission\<close>

text \<open>The message gets past preprocessing and the facts are resolved.\<close>

definition admission_facts ::
  "clocks \<Rightarrow> AdmissionCandidate \<Rightarrow> gateway_db \<Rightarrow> string \<Rightarrow> IdentityFacts \<Rightarrow> ConversationFacts \<Rightarrow> GatewayPolicyFacts \<Rightarrow> bool" where
  "admission_facts ck candidate db sender_id identity conversation gateway_facts \<longleftrightarrow>
     \<not> ca_is_self candidate \<and> ca_sender_type candidate \<noteq> SENDER_SYSTEM \<and> ca_message_type candidate \<noteq> SYSTEM_MESSAGE_TYPE
     \<and> ca_sender_id candidate = Some sender_id \<and> nonblank sender_id
     \<and> resolve_source_identity_facts (wall_now ck) (ca_source candidate) (ca_source_account_id candidate) sender_id db = Inr identity
     \<and> resolve_conversation_facts (ca_conversation_type candidate) (ca_is_mentioned candidate) = Inr conversation
     \<and> resolve_gateway_policy_facts db = Inr gateway_facts"

lemma admit_cases:
  assumes "admit isoformat race ck uuid v2 candidate db = (Inr a, db')"
  obtains (preprocessing) r where "a = preprocessing_denial (ca_message_id candidate) r"
      "r \<in> {SELF_MESSAGE, SYSTEM_MESSAGE, SENDER_UNRESOLVED}" "db' = db"
  | (denied) s i c g snapshot gp up where "admission_facts ck candidate db s i c g"
      "\<not> ad_allowed (evaluate_access i c (candidate_request candidate) g)"
      "a = with_policies snapshot gp up ((preprocessing_denial (ca_message_id candidate) ACCESS_DENIED)
         \<lparr>ao_enterprise_identity_id := ad_enterprise_identity_id (evaluate_access i c (candidate_request candidate) g),
          ao_authorization := Some (evaluate_access i c (candidate_request candidate) g)\<rparr>)" "db' = race 8 db"
  | (allowed) s i c g e snapshot gp up where "admission_facts ck candidate db s i c g"
      "ad_allowed (evaluate_access i c (candidate_request candidate) g)"
      "ad_enterprise_identity_id (evaluate_access i c (candidate_request candidate) g) = Some e" "e \<noteq> []"
      "(if v2 then admit_v2 race ck uuid candidate e (evaluate_access i c (candidate_request candidate) g) snapshot gp up (race 8 db)
        else admit_v1 race ck uuid candidate s e (evaluate_access i c (candidate_request candidate) g) snapshot gp up (race 8 db)) = (Inr a, db')"
proof (cases "ca_is_self candidate \<or> ca_sender_type candidate = SENDER_SYSTEM \<or> ca_message_type candidate = SYSTEM_MESSAGE_TYPE
    \<or> ca_sender_id candidate = None \<or> \<not> nonblank (the (ca_sender_id candidate))")
  case True
  with assms have "db' = db \<and> (\<exists>r. a = preprocessing_denial (ca_message_id candidate) r \<and> r \<in> {SELF_MESSAGE, SYSTEM_MESSAGE, SENDER_UNRESOLVED})"
    unfolding admit_def by (auto split: if_splits option.splits)
  with preprocessing show thesis by blast
next
  case False
  then obtain s where s: "ca_sender_id candidate = Some s" "nonblank s" by auto
  let ?ev = "\<lambda>i c g. evaluate_access i c (candidate_request candidate) g"
  from assms False s obtain i c g where f: "admission_facts ck candidate db s i c g"
    unfolding admit_def admission_facts_def by (auto dest!: checked_InrD split: if_splits)
  define gp up sn where "gp = get_gateway_policy DEFAULT_GATEWAY_POLICY_KEY (race 8 db)"
    and "up = Option.bind (if_enterprise_identity_id i) (\<lambda>j. get_user_policy j (race 8 db))"
    and "sn = policy_snapshot_fields isoformat i g gp up"
  have r: "(if \<not> ad_allowed (?ev i c g)
        then (Inr (with_policies sn gp up ((preprocessing_denial (ca_message_id candidate) ACCESS_DENIED)
           \<lparr>ao_enterprise_identity_id := ad_enterprise_identity_id (?ev i c g), ao_authorization := Some (?ev i c g)\<rparr>)), race 8 db)
        else (case ad_enterprise_identity_id (?ev i c g) of
             None \<Rightarrow> (Inl (AdmissionInvariantError ''allowed authorization decision has no enterprise identity''), race 8 db)
           | Some e \<Rightarrow> if v2 then admit_v2 race ck uuid candidate e (?ev i c g) sn gp up (race 8 db)
               else admit_v1 race ck uuid candidate s e (?ev i c g) sn gp up (race 8 db))) = (Inr a, db')"
    using assms f unfolding admit_def admission_facts_def gp_def up_def sn_def by (simp add: Let_def split del: if_split)
  show thesis
  proof (cases "ad_allowed (?ev i c g)")
    case True
    with evaluate_access_allowed_identity obtain e where "ad_enterprise_identity_id (?ev i c g) = Some e" "e \<noteq> []" by blast
    with r True f show thesis by (intro allowed [of s i c g e sn gp up]) simp_all
  next
    case no: False
    with r f show thesis by (intro denied [of s i c g sn gp up]) simp_all
  qed
qed

lemma admit_v1_cases:
  assumes "admit_v1 race ck uuid candidate s e au sn gp up db = (Inr a, db')"
  obtains w db1 t where
    "ensure_workspace_for_authorized_identity (\<lambda>n. race (6 + n)) ck (\<lambda>n. uuid (3 + n)) e db = (Inr w, db1)"
    "ensure_thread_for_authorized_request race ck uuid e (ca_source candidate)
        (ca_source_account_id candidate) (ca_conversation_id candidate) (ca_conversation_type candidate) s db1 = (Inr t, db')"
    "a = (with_policies sn gp up (admitted_outcome (ca_message_id candidate) e w t au))\<lparr>ao_routing_mode := ''v1''\<rparr>"
  using assms unfolding admit_v1_def by (auto dest!: attempt_op_InrD)

lemma admit_v2_cases:
  assumes "admit_v2 race ck uuid candidate e au sn gp up db = (Inr a, db')"
  obtains (unavailable) sn' where "a = with_policies sn' gp up ((preprocessing_denial (ca_message_id candidate) ROUTE_UNAVAILABLE)
                          \<lparr>ao_enterprise_identity_id := Some e, ao_routing_mode := ''v2''\<rparr>)" "db' = db"
  | (routed) route t db1 t' db2 w where
    "resolve_route (ca_source candidate) (ca_source_account_id candidate) (ca_conversation_id candidate)
             (ca_conversation_type candidate) e db = Inr route"
    "resolve_thread race ck uuid (rr_conversation_id route) (rr_conversation_type route) (rr_source route)
             (rr_source_account_id route) e (rr_agent_profile_id route) (rr_agent_profile_revision route)
             (rr_thread_policy route) db = (Inr t, db1)"
    "bind_v2_route_snapshot (\<lambda>n. race (4 + n)) ck t (rr_agent_profile_id route) (rr_thread_policy route) db1 = (Inr t', db2)"
    "ensure_workspace_for_authorized_identity (\<lambda>n. race (6 + n)) ck (\<lambda>n. uuid (2 + n)) e db2 = (Inr w, db')"
    "a = with_route route (with_policies sn gp up (admitted_outcome (ca_message_id candidate) e w t' au))"
proof (cases "resolve_route (ca_source candidate) (ca_source_account_id candidate) (ca_conversation_id candidate)
             (ca_conversation_type candidate) e db")
  case (Inl err)
  with assms show thesis by (auto simp: admit_v2_def split: option.splits intro: unavailable)
next
  case (Inr route)
  with assms show thesis by (auto simp: admit_v2_def dest!: attempt_op_InrD intro: routed)
qed

section \<open>Who is admitted\<close>

lemma source_facts_allowed:
  assumes "resolve_source_identity_facts now p a s db = Inr f" "if_user_allowed f"
  shows "\<exists>m e u. list_mappings (py_strip p) (py_strip a) (py_strip s) db = [m] \<and> s_enabled m
    \<and> get_identity (s_enterprise_identity_id m) db = Some e \<and> e_status e = STORED_ACTIVE
    \<and> get_user_policy (s_enterprise_identity_id m) db = Some u
    \<and> is_active_policy (up_enabled u) (up_valid_from u) (up_valid_until u) now
    \<and> user_permission_scope f = up_permission_scope u \<and> user_allowed_skills f = up_allowed_skills u
    \<and> if_enterprise_identity_id f = Some (s_enterprise_identity_id m)"
proof -
  from assms(1) obtain r where r: "resolve_identity p a s db = Inr r" "f = resolve_identity_resolution_facts now r db"
    by (auto simp: resolve_source_identity_facts_def split: sum.splits)
  note res = resolution_facts_allowed [OF assms(2) [unfolded r(2)]]
  obtain m where m: "list_mappings (py_strip p) (py_strip a) (py_strip s) db = [m]" "s_enabled m"
      "ir_enterprise_identity_id r = Some (s_enterprise_identity_id m)"
    using resolve_identity_resolved [OF r(1)] res by blast
  have f: "f = resolve_identity_facts now (Some (s_enterprise_identity_id m)) db" using res r(2) m(3) by simp
  from resolve_identity_facts_allowed [OF assms(2) [unfolded f]] m(1,2) show ?thesis unfolding f by blast
qed

definition admission_authorized :: "clocks \<Rightarrow> AdmissionCandidate \<Rightarrow> gateway_db \<Rightarrow> AdmissionOutcome \<Rightarrow> bool" where
  "admission_authorized ck candidate db a \<longleftrightarrow>
     (\<exists>s m e u q d. ca_sender_id candidate = Some s
        \<and> list_mappings (py_strip (ca_source candidate)) (py_strip (ca_source_account_id candidate)) (py_strip s) db = [m] \<and> s_enabled m
        \<and> get_identity (s_enterprise_identity_id m) db = Some e \<and> e_status e = STORED_ACTIVE
        \<and> ao_enterprise_identity_id a = Some (s_enterprise_identity_id m)
        \<and> get_user_policy (s_enterprise_identity_id m) db = Some u
        \<and> is_active_policy (up_enabled u) (up_valid_from u) (up_valid_until u) (wall_now ck)
        \<and> get_gateway_policy DEFAULT_GATEWAY_POLICY_KEY db = Some q \<and> gap_enabled q
        \<and> risk_value (ca_risk_level candidate) \<in> gap_allowed_risk_levels q
        \<and> (ca_conversation_type candidate = CONVERSATION_GROUP \<longrightarrow> ca_is_mentioned candidate = Some True)
        \<and> ao_authorization a = Some d \<and> ad_allowed d
        \<and> ad_permission_scope d \<subseteq> up_permission_scope u \<inter> gap_permission_scope q
        \<and> ad_allowed_skills d \<subseteq> up_allowed_skills u \<inter> gap_allowed_skills q)"

lemma granted_facts:
  assumes "admission_facts ck candidate db s i c g" "ad_allowed (evaluate_access i c (candidate_request candidate) g)"
    and "ad_enterprise_identity_id (evaluate_access i c (candidate_request candidate) g) = Some e"
    and "ao_enterprise_identity_id a = Some e" "ao_authorization a = Some (evaluate_access i c (candidate_request candidate) g)"
  shows "admission_authorized ck candidate db a"
proof -
  have gr: "access_granted i c (candidate_request candidate) g" using assms(2) evaluate_access_allowed by blast
  then have "if_user_allowed i" and risk: "ca_risk_level candidate \<in> gp_allowed_risk_levels g"
    by (simp_all add: access_granted_def candidate_request_def)
  have rs: "resolve_source_identity_facts (wall_now ck) (ca_source candidate) (ca_source_account_id candidate) s db = Inr i"
    and rg: "resolve_gateway_policy_facts db = Inr g" and s: "ca_sender_id candidate = Some s"
    and rc: "resolve_conversation_facts (ca_conversation_type candidate) (ca_is_mentioned candidate) = Inr c"
    using assms(1) by (simp_all add: admission_facts_def)
  from source_facts_allowed [OF rs \<open>if_user_allowed i\<close>] obtain m f u where u:
      "list_mappings (py_strip (ca_source candidate)) (py_strip (ca_source_account_id candidate)) (py_strip s) db = [m]" "s_enabled m"
      "get_identity (s_enterprise_identity_id m) db = Some f" "e_status f = STORED_ACTIVE"
      "get_user_policy (s_enterprise_identity_id m) db = Some u"
      "is_active_policy (up_enabled u) (up_valid_from u) (up_valid_until u) (wall_now ck)"
      "user_permission_scope i = up_permission_scope u" "user_allowed_skills i = up_allowed_skills u"
      "if_enterprise_identity_id i = Some (s_enterprise_identity_id m)" by blast
  from resolve_gateway_policy_facts_risk [OF rg risk] obtain q where q:
      "get_gateway_policy DEFAULT_GATEWAY_POLICY_KEY db = Some q" "gap_enabled q"
      "risk_value (ca_risk_level candidate) \<in> gap_allowed_risk_levels q" "system_permission_scope g = gap_permission_scope q"
      "system_allowed_skills g = gap_allowed_skills q" by blast
  have men: "ca_conversation_type candidate = CONVERSATION_GROUP \<longrightarrow> ca_is_mentioned candidate = Some True"
    using gr rc by (auto simp: access_granted_def resolve_conversation_facts_def split: if_splits)
  have sub: "ad_permission_scope (evaluate_access i c (candidate_request candidate) g) \<subseteq> up_permission_scope u \<inter> gap_permission_scope q"
      "ad_allowed_skills (evaluate_access i c (candidate_request candidate) g) \<subseteq> up_allowed_skills u \<inter> gap_allowed_skills q"
    unfolding evaluate_access_grants u(7,8) q(4,5) by auto
  have "e = s_enterprise_identity_id m" using assms(3) evaluate_access_identity u(9) by simp
  with assms(2,4,5) s u(1-6) q(1-3) men sub show ?thesis unfolding admission_authorized_def by blast
qed

lemma admitted_outcome_authorized:
  assumes "admit isoformat race ck uuid v2 candidate db = (Inr a, db')" "ao_admitted a"
  shows "admission_authorized ck candidate db a"
  using assms(1)
proof (cases rule: admit_cases)
  case (preprocessing r)
  with assms(2) show ?thesis by (simp add: preprocessing_denial_def)
next
  case (denied s i c g snapshot gp up)
  with assms(2) show ?thesis by (simp add: preprocessing_denial_def with_policies_def)
next
  case (allowed s i c g e snapshot gp up)
  let ?d = "evaluate_access i c (candidate_request candidate) g"
  have "ao_enterprise_identity_id a = Some e \<and> ao_authorization a = Some ?d"
  proof (cases v2)
    case True
    with allowed(5) have "admit_v2 race ck uuid candidate e ?d snapshot gp up (race 8 db) = (Inr a, db')" by simp
    then show ?thesis
      by (cases rule: admit_v2_cases) (use assms(2) in \<open>auto simp: with_policies_def preprocessing_denial_def with_route_def admitted_outcome_def\<close>)
  next
    case False
    with allowed(5) have "admit_v1 race ck uuid candidate s e ?d snapshot gp up (race 8 db) = (Inr a, db')" by simp
    then show ?thesis by (cases rule: admit_v1_cases) (auto simp: with_policies_def admitted_outcome_def)
  qed
  with granted_facts [OF allowed(1-3)] show ?thesis by blast
qed

lemma denied_admission_writes_nothing:
  assumes "admit isoformat race ck uuid v2 candidate db = (Inr a, db')" "\<not> ao_admitted a"
  shows "db' = db \<or> db' = race 8 db"
  using assms(1)
proof (cases rule: admit_cases)
  case (allowed s i c g e snapshot gp up)
  show ?thesis
  proof (cases v2)
    case True
    with allowed(5) have "admit_v2 race ck uuid candidate e (evaluate_access i c (candidate_request candidate) g) snapshot gp up (race 8 db) = (Inr a, db')"
      by simp
    then show ?thesis
      by (cases rule: admit_v2_cases) (use assms(2) in \<open>auto simp: with_policies_def with_route_def admitted_outcome_def\<close>)
  next
    case False
    with allowed(5) have "admit_v1 race ck uuid candidate s e (evaluate_access i c (candidate_request candidate) g) snapshot gp up (race 8 db) = (Inr a, db')"
      by simp
    then show ?thesis
      by (cases rule: admit_v1_cases) (use assms(2) in \<open>auto simp: with_policies_def admitted_outcome_def\<close>)
  qed
qed auto

section \<open>Every outcome can be stored\<close>

text \<open>Primary keys are never empty, and the sets of a policy row are finite.\<close>

definition rows_named :: "gateway_db \<Rightarrow> bool" where
  "rows_named db \<longleftrightarrow> (\<forall>w\<in>set (workspaces db). w_id w \<noteq> []) \<and> (\<forall>t\<in>set (ai_threads db). t_id t \<noteq> [])
     \<and> (\<forall>u\<in>set (user_policies db). finite (up_permission_scope u) \<and> finite (up_allowed_skills u))"

lemma rows_named_get_or_insert:
  assumes "\<And>u. rows_named u \<Longrightarrow> rows_named (race u)" "\<And>u v. ins row u = Some v \<Longrightarrow> rows_named u \<Longrightarrow> rows_named v"
    and "get_or_insert seek ins row race db = (res, db')" "rows_named db"
  shows "rows_named db'"
  using assms by (auto simp: get_or_insert_def Let_def split: option.splits)

lemma ensure_workspace_named:
  assumes r: "\<And>u. rows_named u \<Longrightarrow> rows_named (race u)" and "i \<noteq> []" and named: "rows_named db"
    and e: "ensure_workspace race ck i e db = (Inr (w, new), db')"
  shows "rows_named db' \<and> w_id w \<noteq> []"
proof -
  let ?row = "\<lparr>w_id = i, w_enterprise_identity_id = e, w_status = WORKSPACE_ACTIVE,
        w_created_at = db_now ck, w_updated_at = db_now ck, w_last_active_at = db_now ck\<rparr>"
  have ins: "rows_named v" if "insert_workspace ?row u = Some v" "rows_named u" for u v
    using that \<open>i \<noteq> []\<close> by (auto simp: insert_workspace_def rows_named_def split: if_splits)
  note put = e [unfolded ensure_workspace_def]
  have "rows_named db'" using rows_named_get_or_insert [OF r ins put named] .
  moreover have "get_workspace_for_identity e db' = Some w" using workspace_table.answer_is_stored [of ?row race db w new db'] put by simp
  ultimately show ?thesis by (auto simp: rows_named_def get_workspace_for_identity_def dest!: lookup_by_Some)
qed

lemma touch_workspace_named:
  assumes "\<And>u. rows_named u \<Longrightarrow> rows_named (race u)" "rows_named db" "touch_workspace race ck w db = (Inr w', db')"
  shows "rows_named db' \<and> w_id w' \<noteq> []"
proof -
  have "rows_named (race db)" using assms by blast
  with assms(3) show ?thesis
    by (auto simp: touch_workspace_def Let_def rows_named_def set_update_where dest!: lookup_by_Some split: option.splits)
qed

lemma authorized_workspace_named:
  assumes "\<And>n u. rows_named u \<Longrightarrow> rows_named (race n u)" "\<And>n. uuid n \<noteq> []" "rows_named db"
    and "ensure_workspace_for_authorized_identity race ck uuid e db = (Inr w, db')"
  shows "rows_named db' \<and> w_id w \<noteq> []"
proof -
  from assms(4) obtain i w1 new db1 where w1: "ensure_workspace (race 0) ck (uuid 0) i db = (Inr (w1, new), db1)"
      and t: "touch_workspace (race 1) ck w1 db1 = (Inr w, db')"
    unfolding ensure_workspace_for_authorized_identity_def
    by (auto dest!: attempt_op_InrD split: option.splits if_splits)
  have "rows_named db1" using ensure_workspace_named [OF assms(1) assms(2) assms(3) w1] by blast
  from touch_workspace_named [OF assms(1) this t] show ?thesis .
qed

lemma ensure_thread_named:
  assumes r: "\<And>u. rows_named u \<Longrightarrow> rows_named (race u)" and "i \<noteq> []" and named: "rows_named db"
    and e: "ensure_thread race ck i w ty k db = (Inr (t, new), db')"
  shows "rows_named db' \<and> t_id t \<noteq> []"
proof -
  let ?row = "new_thread ck i w ty k"
  have ins: "rows_named v" if "insert_thread ?row u = Some v" "rows_named u" for u v
    using that \<open>i \<noteq> []\<close> by (auto simp: insert_thread_def new_thread_def rows_named_def split: if_splits)
  obtain new' where put: "get_or_insert (get_thread_by_key k) insert_thread ?row race db = (Inr (t, new'), db')"
    using e by (auto simp: ensure_thread_def compatible_thread_or_raise_def split: prod.splits sum.splits bool.splits if_splits)
  have "rows_named db'" using rows_named_get_or_insert [OF r ins put named] .
  moreover have "get_thread_by_key k db' = Some t"
    using thread_table.answer_is_stored [of ?row race db t new' db'] put by (simp add: new_thread_def)
  ultimately show ?thesis by (auto simp: rows_named_def get_thread_by_key_def dest!: lookup_by_Some)
qed

lemma touch_thread_named:
  assumes "\<And>u. rows_named u \<Longrightarrow> rows_named (race u)" "rows_named db" "touch_thread race ck t db = (Inr t', db')"
  shows "rows_named db' \<and> t_id t' \<noteq> []"
proof -
  have "rows_named (race db)" using assms by blast
  with assms(3) show ?thesis
    by (auto simp: touch_thread_def get_thread_def Let_def rows_named_def set_update_where dest!: lookup_by_Some split: option.splits)
qed

lemma ensure_source_binding_named:
  assumes r: "\<And>u. rows_named u \<Longrightarrow> rows_named (race u)" and named: "rows_named db"
    and e: "ensure_source_binding race ck i t p a c s db = (res, db')"
  shows "rows_named db'"
proof -
  let ?row = "\<lparr>b_id = i, b_ai_thread_id = t, b_platform = p, b_account_id = a, b_physical_conversation_id = c,
              b_sender_id = s, b_created_at = db_now ck, b_updated_at = db_now ck\<rparr>"
  have ins: "rows_named v" if "insert_binding ?row u = Some v" "rows_named u" for u v
    using that by (auto simp: insert_binding_def rows_named_def split: if_splits)
  obtain x where put: "get_or_insert (get_source_binding p a c) insert_binding ?row race db = (x, db')"
    using e by (auto simp: ensure_source_binding_def split: prod.splits sum.splits bool.splits)
  show ?thesis using rows_named_get_or_insert [OF r ins put named] .
qed

lemma discard_named:
  assumes "\<And>u. rows_named u \<Longrightarrow> rows_named (race u)" "rows_named db" "discard_thread_if_unbound race i db = (res, db')"
  shows "rows_named db'"
  using assms(3) assms(1) [OF assms(2)]
  by (auto simp: discard_thread_if_unbound_def Let_def rows_named_def split: if_splits)

lemma thread_of_request_named:
  assumes r: "\<And>n u. rows_named u \<Longrightarrow> rows_named (race n u)" and u: "\<And>n. uuid n \<noteq> []" and named: "rows_named db"
    and e: "thread_of_request race ck uuid w k p a c ty s db = (Inr t, db')"
  shows "rows_named db'"
proof (cases "get_source_binding p a c db")
  case (Some b)
  with e named show ?thesis by (auto simp: thread_of_request_def dest: checked_bound_thread_id)
next
  case None
  with e obtain t1 created db1 where t1: "ensure_thread (race 2) ck (uuid 1) (w_id w) ty k db = (Inr (t1, created), db1)"
    by (auto simp: thread_of_request_def dest!: attempt_op_InrD)
  obtain res db2 where b: "ensure_source_binding (race 3) ck (uuid 2) (t_id t1) p a c (Some s) db1 = (res, db2)" by fastforce
  have named2: "rows_named db2"
    using ensure_source_binding_named [OF r _ b] ensure_thread_named [OF r u named t1] by blast
  show ?thesis
  proof (cases res)
    case (Inr x)
    with None t1 b e named2 show ?thesis by (auto simp: thread_of_request_def)
  next
    case (Inl err)
    with None t1 b e obtain i y db3 where
        "(if created then discard_thread_if_unbound (race 4) (t_id t1) db2 else (Inr (), db2)) = (Inr y, db3)"
        "checked_bound_thread i ty db3 = (Inr t, db')"
      by (auto simp: thread_of_request_def split: option.splits dest!: attempt_op_InrD)
    with named2 discard_named [OF r named2, where i = "t_id t1"] show ?thesis
      by (auto dest!: checked_bound_thread_id split: if_splits)
  qed
qed

lemma request_thread_named:
  assumes r: "\<And>n u. rows_named u \<Longrightarrow> rows_named (race n u)" and u: "\<And>n. uuid n \<noteq> []" and named: "rows_named db"
    and e: "ensure_thread_for_authorized_request race ck uuid i p a c cty s db = (Inr t, db')"
  shows "rows_named db' \<and> t_id t \<noteq> []"
proof -
  obtain i' ty s' k w db1 t1 db2 where
    w: "ensure_workspace_for_authorized_identity race ck uuid i' db = (Inr w, db1)"
    and t1: "thread_of_request race ck uuid w k (py_strip p) (py_strip a) (py_strip c) ty s' db1 = (Inr t1, db2)"
    and t: "touch_thread (race 5) ck t1 db2 = (Inr t, db')"
    by (rule ensure_thread_request_steps [OF e])
  have "rows_named db1" using authorized_workspace_named [OF r u named w] by blast
  from thread_of_request_named [OF r u this t1] touch_thread_named [OF r _ t] show ?thesis by blast
qed

lemma resolve_thread_named:
  assumes r: "\<And>n u. rows_named u \<Longrightarrow> rows_named (race n u)" and u: "\<And>n. uuid n \<noteq> []" and named: "rows_named db"
    and e: "resolve_thread race ck uuid c ty p a i pr rv pol db = (Inr t, db')"
  shows "rows_named db' \<and> t_id t \<noteq> []"
proof -
  from e obtain i' w db1 k t1 new db2 where w: "ensure_workspace_for_authorized_identity race ck uuid i' db = (Inr w, db1)"
    and t1: "ensure_thread (race 2) ck (uuid 1) (w_id w) ty k db1 = (Inr (t1, new), db2)"
    and t: "touch_thread (race 3) ck t1 db2 = (Inr t, db')"
    unfolding resolve_thread_def by (fastforce dest!: checked_InrD attempt_op_InrD split: if_splits)
  have "rows_named db1" using authorized_workspace_named [OF r u named w] by blast
  then have "rows_named db2" using ensure_thread_named [OF r u _ t1] by blast
  from touch_thread_named [OF r this t] show ?thesis .
qed

lemma bind_route_named:
  assumes r: "\<And>n u. rows_named u \<Longrightarrow> rows_named (race n u)" and named: "rows_named db"
    and e: "bind_v2_route_snapshot race ck t i pol db = (Inr t', db')"
  shows "rows_named db' \<and> t_id t' \<noteq> []"
proof -
  have upd: "rows_named v" if "update_threads q f x = Some v" "rows_named x" "\<And>y. t_id (f y) = t_id y" for q f x v
    using that by (auto simp: update_threads_def Let_def rows_named_def set_update_where split: if_splits)
  from e obtain db1 where u: "update_threads (unrouted (t_id t))
                (\<lambda>x. x\<lparr>t_agent_profile_id := Some i, t_thread_policy := Some pol, t_updated_at := db_now ck\<rparr>)
                (race 0 db) = Some db1"
      and g: "get_thread (t_id t) (race 1 db1) = Some t'" "db' = race 1 db1"
    by (auto simp: bind_v2_route_snapshot_def compatible_v2_route_or_raise_def Let_def split: if_splits option.splits)
  have "rows_named db1" using upd [OF u] r named by simp
  then have "rows_named db'" using r g(2) by simp
  with g show ?thesis by (auto simp: rows_named_def get_thread_def dest!: lookup_by_Some)
qed


lemma allowed_outcome_named:
  assumes r: "\<And>n u. rows_named u \<Longrightarrow> rows_named (race n u)" and u: "\<And>n. uuid n \<noteq> []" and named: "rows_named db"
    and e: "(if v2 then admit_v2 race ck uuid candidate i au sn gp up db else admit_v1 race ck uuid candidate s i au sn gp up db) = (Inr a, db')"
  shows "if ao_admitted a
    then ao_reason a = ADMISSION_ALLOWED \<and> ao_should_create_task a \<and> ao_enterprise_identity_id a = Some i \<and> ao_authorization a = Some au
      \<and> truthy (ao_workspace_id a) \<and> truthy (ao_ai_thread_id a) \<and> ao_message_id a = ca_message_id candidate
    else ao_reason a = ROUTE_UNAVAILABLE \<and> \<not> ao_should_create_task a \<and> ao_authorization a = None
      \<and> ao_workspace_id a = None \<and> ao_ai_thread_id a = None \<and> ao_message_id a = ca_message_id candidate"
proof (cases v2)
  case True
  with e have "admit_v2 race ck uuid candidate i au sn gp up db = (Inr a, db')" by simp
  then show ?thesis
  proof (cases rule: admit_v2_cases)
    case (unavailable sn')
    then show ?thesis by (simp add: with_policies_def preprocessing_denial_def)
  next
    case (routed route t db1 t' db2 w)
    have t: "rows_named db1" using resolve_thread_named [OF r u named routed(2)] by blast
    have t': "rows_named db2 \<and> t_id t' \<noteq> []" using bind_route_named [OF r t routed(3)] .
    have w: "w_id w \<noteq> []" using authorized_workspace_named [OF r u _ routed(4)] t' by blast
    from routed(5) t' w show ?thesis
      by (simp add: with_route_def with_policies_def admitted_outcome_def truthy_def preprocessing_denial_def)
  qed
next
  case False
  with e have "admit_v1 race ck uuid candidate s i au sn gp up db = (Inr a, db')" by simp
  then show ?thesis
  proof (cases rule: admit_v1_cases)
    case (1 w db1 t)
    have w: "rows_named db1 \<and> w_id w \<noteq> []" using authorized_workspace_named [OF r u named 1(1)] .
    have "t_id t \<noteq> []" using request_thread_named [OF r u _ 1(2)] w by blast
    with 1(3) w show ?thesis by (simp add: with_policies_def admitted_outcome_def truthy_def preprocessing_denial_def)
  qed
qed

lemma facts_finite:
  assumes "rows_named db" "resolve_source_identity_facts now p a s db = Inr f"
  shows "finite (user_permission_scope f) \<and> finite (user_allowed_skills f)"
proof (cases "if_user_allowed f")
  case True
  from source_facts_allowed [OF assms(2) True] obtain j u where "get_user_policy j db = Some u"
      "user_permission_scope f = up_permission_scope u" "user_allowed_skills f = up_allowed_skills u" by blast
  with assms(1) show ?thesis by (auto simp: rows_named_def get_user_policy_def dest!: lookup_by_Some)
next
  case False
  with assms(2) show ?thesis
    by (auto simp: resolve_source_identity_facts_def resolve_identity_resolution_facts_def resolve_identity_facts_def
        empty_identity_facts_def Let_def split: sum.splits option.splits IdentityResolutionStatus.splits if_splits)
qed

lemma evaluate_access_finite:
  assumes "finite (user_permission_scope i)" "finite (user_allowed_skills i)"
  shows "finite (ad_permission_scope (evaluate_access i c r g)) \<and> finite (ad_allowed_skills (evaluate_access i c r g))"
  unfolding evaluate_access_grants using assms by simp

lemma admit_outcome_storable:
  assumes r: "\<And>n u. rows_named u \<Longrightarrow> rows_named (race n u)" and u: "\<And>n. uuid n \<noteq> []" and named: "rows_named db"
    and e: "admit isoformat race ck uuid v2 candidate db = (Inr a, db')"
  shows "completed_decision a = Inr (if ao_admitted a then ADMISSION_DECISION_ALLOWED else ADMISSION_DECISION_DENIED)
    \<and> admission_consistent a \<and> ao_message_id a = ca_message_id candidate
    \<and> (\<not> ao_admitted a \<longrightarrow> ao_workspace_id a = None \<and> ao_ai_thread_id a = None \<and> ao_reason a \<noteq> LEGACY_UNRESOLVED)"
  using e
proof (cases rule: admit_cases)
  case (preprocessing x)
  then show ?thesis by (auto simp: preprocessing_denial_def completed_decision_def admission_consistent_def)
next
  case (denied s i c g sn gp up)
  have "finite (user_permission_scope i) \<and> finite (user_allowed_skills i)"
    using denied(1) facts_finite [OF named] unfolding admission_facts_def by blast
  with denied evaluate_access_finite show ?thesis
    by (auto simp: preprocessing_denial_def with_policies_def completed_decision_def admission_consistent_def)
next
  case (allowed s i c g j sn gp up)
  have "finite (user_permission_scope i) \<and> finite (user_allowed_skills i)"
    using allowed(1) facts_finite [OF named] unfolding admission_facts_def by blast
  then have fin: "finite (ad_permission_scope (evaluate_access i c (candidate_request candidate) g))"
      "finite (ad_allowed_skills (evaluate_access i c (candidate_request candidate) g))"
    using evaluate_access_finite by blast+
  show ?thesis using allowed_outcome_named [OF r u r [OF named] allowed(5)] allowed(2,4) fin
    by (auto simp: completed_decision_def admission_consistent_def truthy_def split: if_splits)
qed

end
