(* ===== verification/Ingestion.thy ===== *)
theory Ingestion
  imports Message_Store Admission_Service Dispatch_Store
begin

text \<open>
  The ingestion of a message (\<open>ingestion/models.py\<close>, \<open>ingestion/service.py\<close>): the event is stored,
  its admission is claimed, evaluated and completed, and an allowed admission commits together
  with the dispatch record of the message. A message that is delivered again is answered from the
  stored outcome. The resolver of request facts and the optional synchronous dispatcher are
  parameters; \<open>race s n\<close> is what other sessions commit before the n-th statement of stage \<open>s\<close>.
\<close>

section \<open>Values\<close>

record MessageIngestionOutcome =
  io_message_id :: int
  io_message_created :: bool
  io_admission :: AdmissionOutcome
  io_should_create_task :: bool
  io_workspace_id :: "string option"
  io_ai_thread_id :: "string option"
  io_hermes_dispatch :: "HermesDispatchOutcome option"
  io_dispatch_record_id :: "int option"

definition ingestion_outcome ::
  "bool \<Rightarrow> AdmissionOutcome \<Rightarrow> HermesDispatchRecord option \<Rightarrow> HermesDispatchOutcome option \<Rightarrow> MessageIngestionOutcome" where
  "ingestion_outcome created admission dispatch_record hermes_dispatch =
     \<lparr>io_message_id = ao_message_id admission, io_message_created = created, io_admission = admission,
      io_should_create_task = ao_should_create_task admission, io_workspace_id = ao_workspace_id admission,
      io_ai_thread_id = ao_ai_thread_id admission, io_hermes_dispatch = hermes_dispatch,
      io_dispatch_record_id = map_option d_id dispatch_record\<rparr>"

definition default_request_resolver :: "Message \<Rightarrow> RequestFacts" where
  "default_request_resolver m = \<lparr>requested_scope = {}, requested_skill_ids = {}, rf_risk_level = RISK_NORMAL\<rparr>"

definition sender_type_of_value :: "string \<Rightarrow> SenderType option" where
  "sender_type_of_value s = (if s = ''human'' then Some SENDER_HUMAN else if s = ''system'' then Some SENDER_SYSTEM else None)"

text \<open>The candidate of a stored message; the enums of the data class raise \<open>ValueError\<close>.\<close>

definition admission_candidate :: "Message \<Rightarrow> RequestFacts \<Rightarrow> gateway_error + AdmissionCandidate" where
  "admission_candidate m request =
     (if g_conversation_type m \<notin> {CONVERSATION_PRIVATE, CONVERSATION_GROUP} then Inl (ValueError ''not a valid ConversationType'')
      else
        (case sender_type_of_value (g_sender_type m) of
           None \<Rightarrow> Inl (ValueError ''not a valid SenderType'')
         | Some sender_type \<Rightarrow> Inr
             \<lparr>ca_message_id = g_id m, ca_source = g_source m, ca_source_account_id = g_source_account_id m,
              ca_conversation_id = g_conversation_id m, ca_conversation_type = g_conversation_type m,
              ca_sender_type = sender_type, ca_sender_id = g_sender_id m, ca_is_self = g_is_self m,
              ca_is_mentioned = g_is_mentioned m, ca_message_type = g_message_type m,
              ca_requested_scope = requested_scope request, ca_requested_skill_ids = requested_skill_ids request,
              ca_risk_level = rf_risk_level request\<rparr>))"

section \<open>Replaying a completed admission\<close>

text \<open>When the record of the message exists, \<open>stage_enqueue\<close> only checks that it is compatible.\<close>

definition replay_persisted_admission ::
  "(json \<Rightarrow> string) \<Rightarrow> (nat \<Rightarrow> gateway_db \<Rightarrow> gateway_db) \<Rightarrow> clocks \<Rightarrow> MessageAdmissionOutcome \<Rightarrow> gateway_db
     \<Rightarrow> MessageIngestionOutcome outcome"
where
  "replay_persisted_admission repr race ck stored db =
     checked (to_admission_outcome repr stored) db (\<lambda>admission.
       if ao_admitted admission
       then
         (case dispatch_get_by_message_id (ao_message_id admission) db of
            None \<Rightarrow> attempt_op (dispatch_enqueue (race 0) (race 1) ck admission db) (\<lambda>(r, _) db1.
                      (Inr (ingestion_outcome False admission (Some r) None), db1))
          | Some _ \<Rightarrow>
              (case dispatch_stage_enqueue (race 0) (race 1) ck admission db of
                 (Inl e, committed, _) \<Rightarrow> (Inl e, committed)
               | (Inr (r, _), committed, _) \<Rightarrow> (Inr (ingestion_outcome False admission (Some r) None), committed)))
       else if dispatch_get_by_message_id (ao_message_id admission) db \<noteq> None
       then (Inl (AdmissionInvariantError ''persisted denied admission conflicts with an existing dispatch record''), db)
       else (Inr (ingestion_outcome False admission None None), db))"

section \<open>Completing an allowed admission\<close>

text \<open>
  One transaction: the dispatch record is staged, then the admission is completed, and both are
  committed or rolled back together. What other sessions do to the admission between the two
  statements commutes with the insert of the record, so \<open>race 0\<close> and \<open>race 1\<close> cover it.
\<close>

definition complete_allowed_once ::
  "(nat \<Rightarrow> gateway_db \<Rightarrow> gateway_db) \<Rightarrow> clocks \<Rightarrow> string \<Rightarrow> AdmissionOutcome \<Rightarrow> gateway_db \<Rightarrow> (HermesDispatchRecord \<times> bool) outcome" where
  "complete_allowed_once race ck claim_token admission db =
     (case dispatch_stage_enqueue (race 0) (race 1) ck admission db of
        (Inl e, committed, _) \<Rightarrow> (Inl e, committed)
      | (Inr res, committed, staged) \<Rightarrow>
          (case stage_completion ck claim_token admission staged of
             (Inl e, _) \<Rightarrow> (Inl e, committed)
           | (Inr _, db') \<Rightarrow> (Inr res, db')))"

definition complete_allowed_admission_atomically ::
  "(nat \<Rightarrow> gateway_db \<Rightarrow> gateway_db) \<Rightarrow> clocks \<Rightarrow> string \<Rightarrow> AdmissionOutcome \<Rightarrow> gateway_db \<Rightarrow> (HermesDispatchRecord \<times> bool) outcome" where
  "complete_allowed_admission_atomically race ck claim_token admission db =
     (case complete_allowed_once race ck claim_token admission db of
        (Inl IntegrityError, db1) \<Rightarrow> complete_allowed_once (\<lambda>n. race (2 + n)) ck claim_token admission db1
      | r \<Rightarrow> r)"

section \<open>Evaluating a claim\<close>

text \<open>
  Inside the \<open>try\<close> block: either the message is answered from the stored outcome, or a decision
  was completed, with the dispatch record of an allowed one.
\<close>

definition adopt_legacy_dispatch ::
  "(json \<Rightarrow> string) \<Rightarrow> (nat \<Rightarrow> gateway_db \<Rightarrow> gateway_db) \<Rightarrow> clocks \<Rightarrow> string \<Rightarrow> HermesDispatchRecord \<Rightarrow> gateway_db
     \<Rightarrow> (MessageIngestionOutcome + AdmissionOutcome \<times> (HermesDispatchRecord \<times> bool) option) outcome"
where
  "adopt_legacy_dispatch repr race ck claim_token r db =
     attempt_op (complete_claim_from_legacy_dispatch (race 0) (race 1) ck claim_token r db) (\<lambda>stored db1.
     attempt_op (replay_persisted_admission repr (\<lambda>n. race (2 + n)) ck stored db1) (\<lambda>o1 db2. (Inr (Inl o1), db2)))"

definition evaluate_claim ::
  "(json \<Rightarrow> string) \<Rightarrow> (instant \<Rightarrow> string) \<Rightarrow> (nat \<Rightarrow> nat \<Rightarrow> gateway_db \<Rightarrow> gateway_db) \<Rightarrow> clocks \<Rightarrow> (nat \<Rightarrow> string) \<Rightarrow> bool
     \<Rightarrow> string \<Rightarrow> AdmissionClaim \<Rightarrow> Message \<Rightarrow> gateway_db
     \<Rightarrow> (MessageIngestionOutcome + AdmissionOutcome \<times> (HermesDispatchRecord \<times> bool) option) outcome"
where
  "evaluate_claim repr isoformat race ck uuid v2 claim_token claim m db =
     (let db1 = race 3 0 db in
      case dispatch_get_by_message_id (g_id m) db1 of
        Some r \<Rightarrow> adopt_legacy_dispatch repr (race 4) ck claim_token r db1
      | None \<Rightarrow>
          checked (request_facts (cl_outcome claim)) db1 (\<lambda>request.
          checked (admission_candidate m request) db1 (\<lambda>candidate.
            attempt_op (admit isoformat (race 5) ck uuid v2 candidate db1) (\<lambda>admission db2.
              if ao_admitted admission \<and> ao_reason admission = ADMISSION_ALLOWED
              then attempt_op (complete_allowed_admission_atomically (race 6) ck claim_token admission db2) (\<lambda>rc db3.
                     (Inr (Inr (admission, Some rc)), db3))
              else
                (let db3 = race 3 1 db2 in
                 case dispatch_get_by_message_id (g_id m) db3 of
                   Some r \<Rightarrow> adopt_legacy_dispatch repr (race 4) ck claim_token r db3
                 | None \<Rightarrow>
                     attempt_op (complete_denied (race 7 0) (race 7 1) ck claim_token admission db3) (\<lambda>_ db4.
                       (Inr (Inr (admission, None)), db4)))))))"

text \<open>An exception releases the claim, whose own failure is suppressed, and is raised again.\<close>

definition release_on_error ::
  "(gateway_db \<Rightarrow> gateway_db) \<Rightarrow> clocks \<Rightarrow> int \<Rightarrow> string \<Rightarrow> 'a outcome \<Rightarrow> 'a outcome" where
  "release_on_error race ck message_id claim_token r =
     (case r of
        (Inl e, db) \<Rightarrow> (Inl e, snd (release_claim race ck message_id claim_token EVALUATION_ERROR_CODE db))
      | (Inr x, db) \<Rightarrow> (Inr x, db))"

definition finish_decision ::
  "(AdmissionOutcome \<Rightarrow> gateway_db \<Rightarrow> HermesDispatchOutcome outcome) option \<Rightarrow> bool
     \<Rightarrow> MessageIngestionOutcome + AdmissionOutcome \<times> (HermesDispatchRecord \<times> bool) option \<Rightarrow> gateway_db
     \<Rightarrow> MessageIngestionOutcome outcome"
where
  "finish_decision dispatcher message_created decided db =
     (case decided of
        Inl o1 \<Rightarrow> (Inr o1, db)
      | Inr (admission, None) \<Rightarrow> (Inr (ingestion_outcome message_created admission None None), db)
      | Inr (admission, Some (r, created)) \<Rightarrow>
          (case dispatcher of
             Some dispatch \<Rightarrow>
               if created \<and> d_status r = D_QUEUED
               then attempt_op (dispatch admission db) (\<lambda>h db1. (Inr (ingestion_outcome message_created admission (Some r) (Some h)), db1))
               else (Inr (ingestion_outcome message_created admission (Some r) None), db)
           | None \<Rightarrow> (Inr (ingestion_outcome message_created admission (Some r) None), db)))"

section \<open>Processing an event\<close>

definition claim_admission ::
  "(nat \<Rightarrow> gateway_db \<Rightarrow> gateway_db) \<Rightarrow> clocks \<Rightarrow> (nat \<Rightarrow> string) \<Rightarrow> (Message \<Rightarrow> RequestFacts) \<Rightarrow> py_num \<Rightarrow> Message
     \<Rightarrow> MessageAdmissionOutcome option \<Rightarrow> gateway_db \<Rightarrow> AdmissionClaim outcome"
where
  "claim_admission race ck uuid resolver lease m stored db =
     (case stored of
        None \<Rightarrow> create_pending (race 0) (race 1) (race 2) ck (uuid 100) (uuid 101) (g_id m) (resolver m) lease None db
      | Some a \<Rightarrow> claim_pending (race 1) (race 2) ck (uuid 101) a lease None db)"

definition process_event ::
  "(json \<Rightarrow> string) \<Rightarrow> (instant \<Rightarrow> string) \<Rightarrow> (Message \<Rightarrow> RequestFacts)
     \<Rightarrow> (AdmissionOutcome \<Rightarrow> gateway_db \<Rightarrow> HermesDispatchOutcome outcome) option
     \<Rightarrow> (nat \<Rightarrow> nat \<Rightarrow> gateway_db \<Rightarrow> gateway_db) \<Rightarrow> clocks \<Rightarrow> (nat \<Rightarrow> string) \<Rightarrow> bool \<Rightarrow> py_num \<Rightarrow> MessageEvent \<Rightarrow> gateway_db
     \<Rightarrow> MessageIngestionOutcome outcome"
where
  "process_event repr isoformat resolver dispatcher race ck uuid v2 lease event db =
     attempt_op (message_create (race 0) ck event db) (\<lambda>(stored, message_created) db1.
       (case message_get (g_id stored) db1 of
          None \<Rightarrow> (Inl (MessageFailure (PersistedMessageNotFoundError (g_id stored))), db1)
        | Some m \<Rightarrow>
          (let db2 = race 1 0 db1; found = admission_get_by_message_id (g_id m) db2 in
           if found \<noteq> None \<and> m_state (the found) = ADMISSION_COMPLETED
           then replay_persisted_admission repr (race 8) ck (the found) db2
           else
             (let db3 = race 1 1 db2 in
              case (found, dispatch_get_by_message_id (g_id m) db3) of
                (None, Some r) \<Rightarrow>
                  attempt_op (create_legacy_dispatch_outcome (race 1 2) ck r db3) (\<lambda>(a, _) db4.
                    replay_persisted_admission repr (race 8) ck a db4)
              | _ \<Rightarrow>
                  attempt_op (claim_admission (race 2) ck uuid resolver lease m found db3) (\<lambda>claim db4.
                    (case cl_claim_token claim of
                       None \<Rightarrow> replay_persisted_admission repr (race 8) ck (cl_outcome claim) db4
                     | Some claim_token \<Rightarrow>
                         attempt_op (release_on_error (race 9 0) ck (g_id m) claim_token
                           (evaluate_claim repr isoformat race ck uuid v2 claim_token claim m db4))
                           (finish_decision dispatcher message_created)))))))"

section \<open>What an admission leaves alone\<close>

text \<open>
  The tables an admission decision never writes. An invariant that only looks at them and
  survives the races survives the decision.
\<close>

definition core_tables ::
  "gateway_db \<Rightarrow> Message list \<times> int \<times> MessageAdmissionOutcome list \<times> int \<times> HermesDispatchRecord list \<times> int" where
  "core_tables db = (messages db, message_seq db, admissions db, admission_seq db, dispatches db, dispatch_seq db)"

locale core_invariant =
  fixes inv :: "gateway_db \<Rightarrow> bool"
  assumes inv_core: "core_tables v = core_tables u \<Longrightarrow> inv u \<Longrightarrow> inv v"
begin

lemma inv_attempt: "inv (snd r) \<Longrightarrow> (\<And>x u. inv u \<Longrightarrow> inv (snd (k x u))) \<Longrightarrow> inv (snd (attempt_op r k))"
  by (cases r) (auto simp: attempt_op_def split: sum.splits)

lemma inv_checked: "inv db \<Longrightarrow> (\<And>x. inv (snd (k x))) \<Longrightarrow> inv (snd (checked r db k))"
  by (cases r) auto

lemma inv_get_or_insert:
  assumes "\<And>u. inv u \<Longrightarrow> inv (race u)" "\<And>u v. ins row u = Some v \<Longrightarrow> core_tables v = core_tables u" "inv db"
  shows "inv (snd (get_or_insert seek ins row race db))"
  using assms inv_core by (auto simp: get_or_insert_def Let_def split: option.splits)

lemma inv_insert:
  "insert_workspace w u = Some v \<Longrightarrow> core_tables v = core_tables u"
  "insert_thread t u = Some v \<Longrightarrow> core_tables v = core_tables u"
  "insert_binding b u = Some v \<Longrightarrow> core_tables v = core_tables u"
  "update_threads q f u = Some v \<Longrightarrow> core_tables v = core_tables u"
  by (auto simp: insert_workspace_def insert_thread_def insert_binding_def update_threads_def Let_def core_tables_def split: if_splits)

lemma inv_touch:
  assumes "\<And>u. inv u \<Longrightarrow> inv (race u)" "inv db"
  shows "inv (snd (touch_workspace race ck w db))" "inv (snd (touch_thread race ck t db))"
  using assms(1) [OF assms(2)] inv_core
  by (auto simp: touch_workspace_def touch_thread_def Let_def core_tables_def split: option.splits)

lemma inv_workspace:
  assumes r: "\<And>n u. inv u \<Longrightarrow> inv (race n u)" and "inv db"
  shows "inv (snd (ensure_workspace_for_authorized_identity race ck uuid i db))"
  unfolding ensure_workspace_for_authorized_identity_def ensure_workspace_def
  using assms by (auto split: option.splits intro!: inv_attempt inv_get_or_insert inv_touch dest: inv_insert(1))

lemma inv_thread:
  assumes "\<And>u. inv u \<Longrightarrow> inv (race u)" "inv db"
  shows "inv (snd (ensure_thread race ck uuid w ty k db))"
proof -
  have "inv (snd (get_or_insert (get_thread_by_key k) insert_thread (new_thread ck uuid w ty k) race db))"
    using assms inv_insert(2) by (intro inv_get_or_insert)
  then show ?thesis by (auto simp: ensure_thread_def split: prod.splits sum.splits bool.splits)
qed

lemma inv_binding:
  assumes "\<And>u. inv u \<Longrightarrow> inv (race u)" "inv db"
  shows "inv (snd (ensure_source_binding race ck uuid i p a c s db))"
proof -
  let ?row = "\<lparr>b_id = uuid, b_ai_thread_id = i, b_platform = p, b_account_id = a, b_physical_conversation_id = c,
              b_sender_id = s, b_created_at = db_now ck, b_updated_at = db_now ck\<rparr>"
  have "inv (snd (get_or_insert (get_source_binding p a c) insert_binding ?row race db))"
    using assms inv_insert(3) by (intro inv_get_or_insert)
  then show ?thesis by (auto simp: ensure_source_binding_def split: prod.splits sum.splits bool.splits)
qed

lemma inv_discard:
  assumes "\<And>u. inv u \<Longrightarrow> inv (race u)" "inv db"
  shows "inv (snd (discard_thread_if_unbound race i db))"
  using assms(1) [OF assms(2)] inv_core by (auto simp: discard_thread_if_unbound_def Let_def core_tables_def)

lemma inv_bound_thread: "inv db \<Longrightarrow> inv (snd (checked_bound_thread i ty db))"
  unfolding checked_bound_thread_def by (intro inv_checked) simp_all

lemma inv_thread_of_request:
  assumes r: "\<And>n u. inv u \<Longrightarrow> inv (race n u)" and "inv db"
  shows "inv (snd (thread_of_request race ck uuid w k p a c ty s db))"
proof (cases "get_source_binding p a c db")
  case (Some b)
  then show ?thesis using assms(2) by (simp add: thread_of_request_def inv_bound_thread)
next
  case None
  have step: "inv (snd (case ensure_source_binding (race 3) ck (uuid 2) (t_id t) p a c (Some s) db1 of
               (Inr _, db2) \<Rightarrow> (Inr t, db2)
             | (Inl e, db2) \<Rightarrow>
                 (case binding_conflict e of
                    Some existing \<Rightarrow>
                      attempt_op (if created then discard_thread_if_unbound (race 4) (t_id t) db2 else (Inr (), db2)) (\<lambda>_ db3.
                        checked_bound_thread existing ty db3)
                  | None \<Rightarrow> (Inl e, db2))))" if "inv db1" for t created db1
  proof -
    obtain res db2 where b: "ensure_source_binding (race 3) ck (uuid 2) (t_id t) p a c (Some s) db1 = (res, db2)" by fastforce
    have i2: "inv db2" using inv_binding [where race = "race 3", OF r that, of ck "uuid 2" "t_id t" p a c "Some s"] b by simp
    then have "inv (snd (attempt_op (if created then discard_thread_if_unbound (race 4) (t_id t) db2 else (Inr (), db2)) (\<lambda>_ db3.
                   checked_bound_thread existing ty db3)))" for existing
      using inv_discard [where race = "race 4", OF r i2, of "t_id t"] by (intro inv_attempt inv_bound_thread) simp_all
    with b i2 show ?thesis
      by (cases res; cases created) (simp_all split: option.split)
  qed
  show ?thesis unfolding thread_of_request_def None option.case
    by (rule inv_attempt, rule inv_thread, erule r, rule assms(2), simp only: split_paired_all prod.case, rule step, assumption)
qed

lemma inv_request:
  assumes r: "\<And>n u. inv u \<Longrightarrow> inv (race n u)" and "inv db"
  shows "inv (snd (ensure_thread_for_authorized_request race ck uuid i p a c cty s db))"
  unfolding ensure_thread_for_authorized_request_def
  by (intro inv_checked assms(2) inv_attempt inv_workspace [OF r] inv_thread_of_request [OF r])
    (auto intro: inv_touch(2) [OF r])

lemma inv_resolve_thread:
  assumes r: "\<And>n u. inv u \<Longrightarrow> inv (race n u)" and "inv db"
  shows "inv (snd (resolve_thread race ck uuid c ty p a i pr rv pol db))"
  unfolding resolve_thread_def
  by (intro inv_checked assms(2) inv_attempt inv_workspace [OF r] inv_thread [OF r])
    (auto intro: inv_touch(2) [OF r])

lemma inv_bind_route:
  assumes r: "\<And>n u. inv u \<Longrightarrow> inv (race n u)" and "inv db"
  shows "inv (snd (bind_v2_route_snapshot race ck t i pol db))"
proof (cases "update_threads (unrouted (t_id t))
    (\<lambda>x. x\<lparr>t_agent_profile_id := Some i, t_thread_policy := Some pol, t_updated_at := db_now ck\<rparr>) (race 0 db)")
  case None
  with r [OF assms(2), of 0] assms(2) show ?thesis by (simp add: bind_v2_route_snapshot_def Let_def)
next
  case (Some db1)
  have "inv (race 1 db1)" using r inv_core [OF inv_insert(4) [OF Some]] r [OF assms(2), of 0] by blast
  with Some assms(2) show ?thesis by (simp add: bind_v2_route_snapshot_def Let_def split: option.split)
qed

lemma inv_admit_v1:
  assumes r: "\<And>n u. inv u \<Longrightarrow> inv (race n u)" and "inv db"
  shows "inv (snd (admit_v1 race ck uuid candidate s e au sn gp up db))"
  unfolding admit_v1_def
  by (intro inv_attempt inv_workspace inv_request) (simp_all add: r assms(2))

lemma inv_admit_v2:
  assumes r: "\<And>n u. inv u \<Longrightarrow> inv (race n u)" and "inv db"
  shows "inv (snd (admit_v2 race ck uuid candidate e au sn gp up db))"
proof (cases "resolve_route (ca_source candidate) (ca_source_account_id candidate) (ca_conversation_id candidate)
             (ca_conversation_type candidate) e db")
  case (Inl err)
  then show ?thesis using assms(2) by (simp add: admit_v2_def split: option.splits)
next
  case (Inr route)
  show ?thesis unfolding admit_v2_def Inr sum.case
    by (intro inv_attempt inv_resolve_thread inv_bind_route inv_workspace) (simp_all add: r assms(2))
qed

lemma inv_admit:
  assumes r: "\<And>n u. inv u \<Longrightarrow> inv (race n u)" and i: "inv db"
  shows "inv (snd (admit isoformat race ck uuid v2 candidate db))"
  unfolding admit_def Let_def
  by (cases "ca_sender_id candidate")
    (auto simp: i r intro!: inv_checked inv_admit_v1 inv_admit_v2 split: option.splits)

end

interpretation core_same: core_invariant "\<lambda>u. core_tables u = core_tables db" for db
  by unfold_locales simp

section \<open>The dispatch record of an outcome\<close>

definition dispatch_settled :: "AdmissionOutcome \<Rightarrow> HermesDispatchRecord \<Rightarrow> gateway_db \<Rightarrow> bool" where
  "dispatch_settled a r db \<longleftrightarrow> dispatch_get_by_message_id (ao_message_id a) db = Some r
     \<and> (\<exists>tg k. dispatch_target a = Inr tg \<and> build_hermes_dispatch_idempotency_key (dt_message_id tg) = Inr k
          \<and> compatible_record_or_raise r tg = Inr r)"

lemma compatible_record_Inr:
  "compatible_record_or_raise q tg = Inr r \<Longrightarrow> q = r \<and> d_message_id r = dt_message_id tg"
  by (auto simp: compatible_record_or_raise_def split: if_splits)

lemma found_settled:
  assumes "dispatch_target a = Inr tg" "build_hermes_dispatch_idempotency_key (dt_message_id tg) = Inr k"
    and "dispatch_find_existing (dt_message_id tg) k db = Some q" "compatible_record_or_raise q tg = Inr r"
  shows "dispatch_settled a r db"
proof -
  note q = compatible_record_Inr [OF assms(4)]
  have mid: "dt_message_id tg = ao_message_id a" using dispatch_target_Inr(5) [OF assms(1)] .
  have "dispatch_get_by_message_id (dt_message_id tg) db = Some q"
  proof (cases "dispatch_get_by_message_id (dt_message_id tg) db")
    case (Some x)
    with assms(3) show ?thesis by (simp add: dispatch_find_existing_def)
  next
    case None
    with assms(3) have "q \<in> set (dispatches db)"
      by (auto simp: dispatch_find_existing_def dispatch_get_by_idempotency_key_def dest!: lookup_by_Some)
    with q have "dt_message_id tg \<in> d_message_id ` set (dispatches db)" by (auto intro: rev_image_eqI)
    with None show ?thesis by (simp add: dispatch_get_by_message_id_def lookup_by_None)
  qed
  with assms q mid show ?thesis unfolding dispatch_settled_def by auto
qed

lemma stage_enqueue_cases:
  assumes "dispatch_stage_enqueue rl rf ck a db = (Inr (r, created), committed, staged)"
  shows "dispatch_settled a r staged \<and> messages staged = messages committed \<and> admissions staged = admissions committed
    \<and> admission_seq staged = admission_seq committed \<and> (\<not> created \<longrightarrow> staged = committed)"
proof -
  obtain tg where tg: "dispatch_target a = Inr tg"
    using assms by (auto simp: dispatch_stage_enqueue_def split: sum.splits)
  obtain k where k: "build_hermes_dispatch_idempotency_key (dt_message_id tg) = Inr k"
    using assms tg by (auto simp: dispatch_stage_enqueue_def split: sum.splits)
  note mid = dispatch_target_Inr(5) [OF tg]
  show ?thesis
  proof (cases "dispatch_find_existing (dt_message_id tg) k db")
    case (Some q)
    with assms tg k have "(map_sum id (\<lambda>x. (x, False)) (compatible_record_or_raise q tg), db, db) = (Inr (r, created), committed, staged)"
      by (auto simp: dispatch_stage_enqueue_def)
    then have "compatible_record_or_raise q tg = Inr r" "staged = db" "committed = db" "\<not> created"
      by (cases "compatible_record_or_raise q tg"; simp)+
    with found_settled [OF tg k Some] show ?thesis by simp
  next
    case None
    show ?thesis
    proof (cases "dispatch_find_existing (dt_message_id tg) k (rl db)")
      case (Some q)
      with None assms tg k have "(map_sum id (\<lambda>x. (x, False)) (compatible_record_or_raise q tg), rl db, rl db) = (Inr (r, created), committed, staged)"
        by (auto simp: dispatch_stage_enqueue_def Let_def)
      then have "compatible_record_or_raise q tg = Inr r" "staged = rl db" "committed = rl db" "\<not> created"
        by (cases "compatible_record_or_raise q tg"; simp)+
      with found_settled [OF tg k Some] show ?thesis by simp
    next
      case none: None
      let ?u = "rf (rl db)"
      let ?row = "new_dispatch_record ck (dispatch_seq ?u) k tg"
      from assms tg k None none have ok: "dispatch_table_ok (dispatches ?u @ [?row])" and r: "r = ?row" "committed = ?u" created
          "staged = ?u\<lparr>dispatches := dispatches ?u @ [?row], dispatch_seq := dispatch_seq ?u + 1\<rparr>"
        by (auto simp: dispatch_stage_enqueue_def Let_def split: if_splits)
      have row: "d_message_id ?row = dt_message_id tg" by (simp add: new_dispatch_record_def)
      have "dt_message_id tg \<notin> d_message_id ` set (dispatches ?u)" using ok row by (auto simp: dispatch_table_ok_def)
      then have "dispatch_get_by_message_id (dt_message_id tg) staged = Some ?row"
        using r(4) row by (auto simp: dispatch_get_by_message_id_def lookup_by_None intro!: lookup_by_snoc)
      moreover have "compatible_record_or_raise ?row tg = Inr ?row"
        by (simp add: compatible_record_or_raise_def new_dispatch_record_def)
      ultimately show ?thesis using tg k mid r unfolding dispatch_settled_def by auto
    qed
  qed
qed

lemma settled_stage_enqueue:
  assumes "dispatch_settled a r db"
  shows "dispatch_stage_enqueue rl rf ck a db = (Inr (r, False), db, db)"
proof -
  from assms obtain tg k where "dispatch_target a = Inr tg" "build_hermes_dispatch_idempotency_key (dt_message_id tg) = Inr k"
      "compatible_record_or_raise r tg = Inr r" "dispatch_get_by_message_id (ao_message_id a) db = Some r"
    by (auto simp: dispatch_settled_def)
  with dispatch_target_Inr(5) show ?thesis by (simp add: dispatch_stage_enqueue_def dispatch_find_existing_def)
qed

text \<open>A failed attempt leaves only what the other sessions committed.\<close>

lemma stage_enqueue_committed:
  assumes "\<And>u. good u \<Longrightarrow> good (rl u)" "\<And>u. good u \<Longrightarrow> good (rf u)" "good db"
    and "dispatch_stage_enqueue rl rf ck a db = (res, committed, staged)"
  shows "good committed"
  using assms by (auto simp: dispatch_stage_enqueue_def Let_def split: sum.splits option.splits if_splits)

lemma dispatch_enqueue_settled:
  assumes "dispatch_enqueue rl rf ck a db = (Inr (r, created), db')"
  shows "dispatch_settled a r db'"
proof -
  obtain tg where tg: "dispatch_target a = Inr tg"
    using assms by (auto simp: dispatch_enqueue_def split: sum.splits)
  obtain k where k: "build_hermes_dispatch_idempotency_key (dt_message_id tg) = Inr k"
    using assms tg by (auto simp: dispatch_enqueue_def split: sum.splits)
  obtain res committed staged where s: "dispatch_stage_enqueue rl rf ck a db = (res, committed, staged)" by (metis prod_cases3)
  show ?thesis
  proof (cases res)
    case (Inr x)
    with assms tg k s have "res = Inr (r, created)" "db' = staged" by (auto simp: dispatch_enqueue_def)
    with stage_enqueue_cases s show ?thesis by blast
  next
    case (Inl e)
    with assms tg k s have e: "e = IntegrityError" by (cases e) (auto simp: dispatch_enqueue_def)
    with assms tg k s Inl obtain q where "dispatch_find_existing (dt_message_id tg) k committed = Some q"
        "compatible_record_or_raise q tg = Inr r" "db' = committed"
      by (auto simp: dispatch_enqueue_def map_sum_def split: option.splits sum.splits)
    with found_settled [OF tg k] show ?thesis by blast
  qed
qed

lemma dispatch_enqueue_quiet:
  "dispatch_enqueue (\<lambda>u. u) (\<lambda>u. u) ck a db = (res, db') \<Longrightarrow>
     messages db' = messages db \<and> admissions db' = admissions db \<and> admission_seq db' = admission_seq db"
  by (auto simp: dispatch_enqueue_def dispatch_stage_enqueue_def Let_def split: sum.splits option.splits if_splits gateway_error.splits)


section \<open>Both or nothing\<close>

lemma stage_completion_frame:
  "stage_completion ck token a db = (res, db') \<Longrightarrow> messages db' = messages db \<and> dispatches db' = dispatches db"
  by (auto simp: stage_completion_def update_admissions_def checked_def Let_def split: sum.splits if_splits prod.splits)

lemma dispatch_settled_frame: "dispatches u = dispatches v \<Longrightarrow> dispatch_settled a r u = dispatch_settled a r v"
  by (simp add: dispatch_settled_def dispatch_get_by_message_id_def)

definition admission_stored :: "(json \<Rightarrow> string) \<Rightarrow> AdmissionOutcome \<Rightarrow> gateway_db \<Rightarrow> bool" where
  "admission_stored repr a db \<longleftrightarrow> (\<exists>m. admission_get_by_message_id (ao_message_id a) db = Some m
     \<and> m_state m = ADMISSION_COMPLETED \<and> to_admission_outcome repr m = Inr (a\<lparr>ao_enterprise_identity_id := stored_identity a\<rparr>))"

lemma stage_completion_stored:
  assumes "stage_completion ck token a db = (Inr x, db')" "admissions_ok db" "admission_consistent a"
  shows "admission_stored repr a db' \<and> admissions_ok db'"
proof (rule stage_completion_done [OF assms(1,2)])
  fix m d assume m: "admission_get_by_message_id (ao_message_id a) db = Some m" "completed_decision a = Inr d" "admissions_ok db'"
    and get: "\<And>i. admission_get_by_message_id i db' = (if i = ao_message_id a then Some (admission_values ck d a m)
       else admission_get_by_message_id i db)"
  have "m_message_id m = ao_message_id a" using m(1) admission_get_iff [OF assms(2)] by simp
  from completed_outcome_roundtrip [OF m(2) this assms(3)] get m(3) show ?thesis
    unfolding admission_stored_def by (simp add: admission_values_sel)
qed

lemma admissions_ok_frame: "admissions u = admissions v \<Longrightarrow> admission_seq u = admission_seq v \<Longrightarrow> admissions_ok u = admissions_ok v"
  by (simp add: admissions_ok_def)

lemma complete_allowed_once_both:
  assumes r: "\<And>n u. admissions_ok u \<Longrightarrow> admissions_ok (race n u)" and ok: "admissions_ok db" and c: "admission_consistent a"
    and e: "complete_allowed_once race ck token a db = (Inr (d, created), db')"
  shows "admission_stored repr a db' \<and> dispatch_settled a d db' \<and> admissions_ok db'"
proof -
  obtain res committed staged where s: "dispatch_stage_enqueue (race 0) (race 1) ck a db = (res, committed, staged)" by (metis prod_cases3)
  with e have res: "res = Inr (d, created)" and t: "stage_completion ck token a staged = (Inr (), db')"
    by (auto simp: complete_allowed_once_def split: sum.splits prod.splits)
  have "admissions_ok committed" using stage_enqueue_committed [of admissions_ok "race 0" "race 1", OF r r ok s] by simp
  with stage_enqueue_cases [OF s [unfolded res]] have "admissions_ok staged" "dispatch_settled a d staged"
    using admissions_ok_frame by blast+
  with stage_completion_stored [OF t _ c] stage_completion_frame [OF t] dispatch_settled_frame show ?thesis by blast
qed

lemma complete_allowed_once_nothing:
  assumes "\<And>n u. good u \<Longrightarrow> good (race n u)" "good db" "complete_allowed_once race ck token a db = (Inl e, db')"
  shows "good db'"
proof -
  obtain res committed staged where s: "dispatch_stage_enqueue (race 0) (race 1) ck a db = (res, committed, staged)" by (metis prod_cases3)
  with assms(3) have "db' = committed" by (auto simp: complete_allowed_once_def split: sum.splits prod.splits)
  with stage_enqueue_committed [of good "race 0" "race 1", OF assms(1,1,2) s] show ?thesis by simp
qed

lemma complete_allowed_both_or_nothing:
  assumes r: "\<And>n u. admissions_ok u \<Longrightarrow> admissions_ok (race n u)" and ok: "admissions_ok db" and c: "admission_consistent a"
    and e: "complete_allowed_admission_atomically race ck token a db = (res, db')"
  shows "case res of
      Inr (d, created) \<Rightarrow> admission_stored repr a db' \<and> dispatch_settled a d db' \<and> admissions_ok db'
    | Inl err \<Rightarrow> (\<forall>good. (\<forall>n u. good u \<longrightarrow> good (race n u)) \<longrightarrow> good db \<longrightarrow> good db')"
proof -
  obtain res1 db1 where one: "complete_allowed_once race ck token a db = (res1, db1)" by fastforce
  let ?race = "\<lambda>n. race (2 + n)"
  show ?thesis
  proof (cases "res1 = Inl IntegrityError")
    case True
    with e one have two: "complete_allowed_once ?race ck token a db1 = (res, db')"
      by (simp add: complete_allowed_admission_atomically_def)
    note one' = one [unfolded True]
    have "admissions_ok db1" using complete_allowed_once_nothing [of admissions_ok race, OF r ok one'] by simp
    with complete_allowed_once_both [of ?race, OF r _ c] two
    have good: "res = Inr (d, created) \<Longrightarrow> admission_stored repr a db' \<and> dispatch_settled a d db' \<and> admissions_ok db'" for d created
      by blast
    have "good db'" if "res = Inl err" "\<forall>n u. good u \<longrightarrow> good (race n u)" "good db" for err good
    proof -
      have "good db1" using complete_allowed_once_nothing [of good race, OF _ that(3) one'] that(2) by blast
      with complete_allowed_once_nothing [of good ?race db1 ck token a err db'] two that show ?thesis by blast
    qed
    with good show ?thesis by (auto split: sum.splits)
  next
    case False
    with e one have "res = res1" "db' = db1"
      by (auto simp: complete_allowed_admission_atomically_def split: sum.splits gateway_error.splits)
    with one complete_allowed_once_both [OF r ok c] complete_allowed_once_nothing show ?thesis
      by (auto split: sum.splits) blast+
  qed
qed

section \<open>Replays\<close>

lemma map_sum_Inr: "map_sum id f y = Inr z \<longleftrightarrow> (\<exists>x. y = Inr x \<and> z = f x)"
  by (cases y) auto

definition replays_to :: "(json \<Rightarrow> string) \<Rightarrow> MessageAdmissionOutcome \<Rightarrow> MessageIngestionOutcome \<Rightarrow> gateway_db \<Rightarrow> bool" where
  "replays_to repr m o1 db \<longleftrightarrow> (\<forall>race ck. replay_persisted_admission repr race ck m db = (Inr o1, db))"

lemma admitted_replays:
  assumes "to_admission_outcome repr m = Inr a" "ao_admitted a" "dispatch_settled a r db"
  shows "replays_to repr m (ingestion_outcome False a (Some r) None) db"
  using assms settled_stage_enqueue [OF assms(3)]
  by (simp add: replays_to_def replay_persisted_admission_def dispatch_settled_def)

lemma denied_replays:
  assumes "to_admission_outcome repr m = Inr a" "\<not> ao_admitted a" "dispatch_get_by_message_id (ao_message_id a) db = None"
  shows "replays_to repr m (ingestion_outcome False a None None) db"
  using assms by (simp add: replays_to_def replay_persisted_admission_def)

lemma replay_settles:
  assumes "replay_persisted_admission repr race ck m db = (Inr o1, db')"
  shows "replays_to repr m o1 db'"
proof -
  from assms obtain a where a: "to_admission_outcome repr m = Inr a"
    by (auto simp: replay_persisted_admission_def dest!: checked_InrD)
  show ?thesis
  proof (cases "ao_admitted a")
    case False
    with a assms have "dispatch_get_by_message_id (ao_message_id a) db' = None" "o1 = ingestion_outcome False a None None"
      by (auto simp: replay_persisted_admission_def split: if_splits)
    with denied_replays [OF a False] show ?thesis by simp
  next
    case True
    show ?thesis
    proof (cases "dispatch_get_by_message_id (ao_message_id a) db")
      case None
      with a True assms obtain r created where "dispatch_enqueue (race 0) (race 1) ck a db = (Inr (r, created), db')"
          "o1 = ingestion_outcome False a (Some r) None"
        by (auto simp: replay_persisted_admission_def dest!: attempt_op_InrD)
      with admitted_replays [OF a True dispatch_enqueue_settled] show ?thesis by blast
    next
      case (Some x)
      obtain res committed staged where s: "dispatch_stage_enqueue (race 0) (race 1) ck a db = (res, committed, staged)" by (metis prod_cases3)
      with a True Some assms obtain r created where r: "res = Inr (r, created)" "db' = committed" "o1 = ingestion_outcome False a (Some r) None"
        by (auto simp: replay_persisted_admission_def split: sum.splits)
      from s r Some have "\<not> created"
        by (auto simp: dispatch_stage_enqueue_def dispatch_find_existing_def map_sum_Inr dest!: dispatch_target_Inr(5) split: sum.splits)
      with stage_enqueue_cases [OF s [unfolded r(1)]] r admitted_replays [OF a True] show ?thesis by blast
    qed
  qed
qed

lemma replay_quiet:
  assumes "replay_persisted_admission repr (\<lambda>_ u. u) ck m db = (Inr o1, db')"
  shows "messages db' = messages db \<and> admissions db' = admissions db \<and> admission_seq db' = admission_seq db"
proof -
  have "committed = db" if "dispatch_stage_enqueue (\<lambda>u. u) (\<lambda>u. u) ck a db = (res, committed, staged)" for a res committed staged
    using stage_enqueue_committed [of "\<lambda>u. u = db" "\<lambda>u. u" "\<lambda>u. u", OF _ _ _ that] by simp
  with assms show ?thesis
    by (fastforce simp: replay_persisted_admission_def dest!: checked_InrD attempt_op_InrD dispatch_enqueue_quiet
        split: if_splits option.splits prod.splits sum.splits)
qed

end
