(* ===== verification/Redelivery.thy ===== *)
theory Redelivery
  imports Ingestion
begin

text \<open>
  A message that is delivered again: what a successful \<open>process_event\<close> leaves behind (the stored
  message, its completed admission and, for an allowed one, its dispatch record) answers every
  later delivery of the event with the same outcome and writes nothing. The runs here are those
  of a session that is alone; the effect of interference on the single operations is in the
  theories of the stores.
\<close>

section \<open>Events that are settled\<close>

definition ingested :: "(json \<Rightarrow> string) \<Rightarrow> MessageEvent \<Rightarrow> MessageIngestionOutcome \<Rightarrow> gateway_db \<Rightarrow> bool" where
  "ingested repr event o1 db \<longleftrightarrow> (\<exists>m a. get_existing_message event db = Some m \<and> message_get (g_id m) db = Some m
     \<and> admission_get_by_message_id (g_id m) db = Some a \<and> m_state a = ADMISSION_COMPLETED \<and> replays_to repr a o1 db)"

abbreviation alone :: "nat \<Rightarrow> nat \<Rightarrow> gateway_db \<Rightarrow> gateway_db" where
  "alone \<equiv> \<lambda>_ _ u. u"

lemma ingested_answer:
  assumes "ingested repr event o1 db"
  shows "process_event repr isoformat resolver dispatcher alone ck uuid v2 lease event db = (Inr o1, db)"
  using assms by (auto simp: ingested_def process_event_def message_create_def replays_to_def)

text \<open>The stored message of the event, while only other tables are written.\<close>

lemma ingestedI:
  assumes "get_existing_message event db1 = Some m" "messages_ok db1" "messages db' = messages db1"
    and "admission_get_by_message_id (g_id m) db' = Some a" "m_state a = ADMISSION_COMPLETED" "replays_to repr a o1 db'"
  shows "ingested repr event o1 db'"
proof -
  have "get_existing_message event db' = Some m"
    using assms(1,3) by (simp add: get_existing_message_def get_by_event_id_def get_by_source_message_def cong: option.case_cong)
  moreover have "message_get (g_id m) db' = Some m"
    using assms(2,3) get_existing_message_stored [OF assms(1)] lookup_by_distinct [of g_id "messages db1" m]
    by (simp add: message_get_def messages_ok_def message_table_ok_def)
  ultimately show ?thesis using assms(4-6) unfolding ingested_def by blast
qed

lemma replay_ingested:
  assumes "get_existing_message event db1 = Some m" "messages_ok db1" "messages db = messages db1"
    and "admission_get_by_message_id (g_id m) db = Some a" "m_state a = ADMISSION_COMPLETED"
    and r: "replay_persisted_admission repr (\<lambda>_ u. u) ck a db = (Inr o1, db')"
  shows "ingested repr event o1 db'"
  using ingestedI [OF assms(1,2), of db' a repr o1] replay_quiet [OF r] replay_settles [OF r] assms(3-5)
  by (simp add: admission_get_by_message_id_def)

text \<open>What the claim of an undisturbed session leaves behind.\<close>

lemma update_admissions_frame:
  "update_admissions q f db = (res, db') \<Longrightarrow> messages db' = messages db \<and> dispatches db' = dispatches db \<and> admission_seq db' = admission_seq db"
  by (auto simp: update_admissions_def Let_def split: if_splits)

lemma insert_admission_frame:
  "insert_admission m db = Some db' \<Longrightarrow> messages db' = messages db \<and> dispatches db' = dispatches db"
  by (auto simp: insert_admission_def split: if_splits)

lemma insert_admission_get:
  assumes "insert_admission m db = Some db'"
  shows "admission_get_by_message_id (m_message_id m) db' = Some m"
  using assms by (auto simp: insert_admission_def admission_get_by_message_id_def admission_table_ok_def lookup_by_None
      intro!: lookup_by_snoc split: if_splits)

lemma claim_existing_frame:
  assumes "claim_existing (\<lambda>u. u) (\<lambda>u. u) ck token x lease now db = (Inr c, db')"
  shows "messages db' = messages db \<and> dispatches db' = dispatches db
    \<and> (cl_claim_token c = None \<longrightarrow> m_state (cl_outcome c) = ADMISSION_COMPLETED
         \<and> (m_state x = ADMISSION_COMPLETED \<and> cl_outcome c = x \<and> db' = db
            \<or> admission_get_by_message_id (m_message_id x) db' = Some (cl_outcome c)))"
  using assms unfolding claim_existing_def
  by (auto simp: Let_def dest!: update_admissions_frame split: if_splits prod.splits sum.splits option.splits)

lemma claim_admission_frame:
  assumes "claim_admission (\<lambda>_ u. u) ck uuid resolver lease m found db = (Inr c, db')"
    and "found = admission_get_by_message_id (g_id m) db" "\<And>a. found = Some a \<Longrightarrow> m_state a \<noteq> ADMISSION_COMPLETED"
    and "admissions_ok db"
  shows "messages db' = messages db \<and> dispatches db' = dispatches db \<and> admissions_ok db'
    \<and> (cl_claim_token c = None \<longrightarrow> m_state (cl_outcome c) = ADMISSION_COMPLETED
         \<and> admission_get_by_message_id (g_id m) db' = Some (cl_outcome c))"
proof -
  have grow: "admission_grows u u" for u by blast
  have ok: "admissions_ok db'"
  proof -
    have "admission_grows db (snd (claim_admission (\<lambda>_ u. u) ck uuid resolver lease m found db))"
      unfolding claim_admission_def claim_pending_def
      by (auto split: option.splits intro!: create_pending_grows checked_grows claim_existing_grows)
    with assms(1,4) show ?thesis by (simp add: admission_grows_def)
  qed
  show ?thesis
  proof (cases found)
    case None
    with assms(2) have none: "admission_get_by_message_id (g_id m) db = None" by simp
    from assms(1) [unfolded None claim_admission_def create_pending_def none Let_def option.case] obtain l t where
        "(case insert_admission (pending_row ck (uuid 100) (admission_seq db) (g_id m) (resolver m) l t) db of
            Some db2 \<Rightarrow> (Inr \<lparr>cl_outcome = pending_row ck (uuid 100) (admission_seq db) (g_id m) (resolver m) l t,
                              cl_claim_token = Some (uuid 100), cl_created = True\<rparr>, db2)
          | None \<Rightarrow> (Inl IntegrityError, db)) = (Inr c, db')"
      by (fast dest: checked_InrD)
    with ok show ?thesis by (auto dest!: insert_admission_frame split: option.splits)
  next
    case (Some a)
    have ns: "m_state a \<noteq> ADMISSION_COMPLETED" and mid: "m_message_id a = g_id m"
      using assms(2-3) Some admission_get_iff [OF assms(4), of "g_id m" a] by simp_all
    from assms(1) Some ns obtain l t where "claim_existing (\<lambda>u. u) (\<lambda>u. u) ck (uuid 101) a l t db = (Inr c, db')"
      by (auto simp: claim_admission_def claim_pending_def dest!: checked_InrD)
    from claim_existing_frame [OF this] ns mid ok show ?thesis by auto
  qed
qed

lemma admit_alone_core:
  assumes "admit isoformat (\<lambda>_ u. u) ck uuid v2 candidate db = (res, db')"
  shows "core_tables db' = core_tables db"
  using core_same.inv_admit [of db "\<lambda>_ u. u" db isoformat ck uuid v2 candidate] assms by simp

lemma admit_stored_identity:
  assumes "admit isoformat race ck uuid v2 candidate db = (Inr a, db')"
  shows "stored_identity a = ao_enterprise_identity_id a"
  using assms
proof (cases rule: admit_cases)
  case (preprocessing r)
  then show ?thesis by (simp add: stored_identity_def preprocessing_denial_def)
next
  case (denied s i c g sn gp up)
  then show ?thesis by (simp add: stored_identity_def preprocessing_denial_def with_policies_def split: option.split)
next
  case (allowed s i c g e sn gp up)
  have "\<exists>j. ao_enterprise_identity_id a = Some j"
  proof (cases v2)
    case True
    with allowed(5) have "admit_v2 race ck uuid candidate e (evaluate_access i c (candidate_request candidate) g) sn gp up (race 8 db) = (Inr a, db')"
      by simp
    then show ?thesis by (cases rule: admit_v2_cases) (auto simp: with_policies_def with_route_def admitted_outcome_def)
  next
    case False
    with allowed(5) have "admit_v1 race ck uuid candidate s e (evaluate_access i c (candidate_request candidate) g) sn gp up (race 8 db) = (Inr a, db')"
      by simp
    then show ?thesis by (cases rule: admit_v1_cases) (auto simp: with_policies_def admitted_outcome_def)
  qed
  then show ?thesis by (auto simp: stored_identity_def)
qed

lemma adopt_ingested:
  assumes "get_existing_message event db1 = Some m" "messages_ok db1" "messages db = messages db1"
    and "d_message_id r = g_id m"
    and e: "adopt_legacy_dispatch repr (\<lambda>_ u. u) ck token r db = (Inr x, db')"
  shows "\<exists>o1. x = Inl o1 \<and> ingested repr event o1 db'"
proof -
  from e obtain stored db2 o1 where c: "complete_claim_from_legacy_dispatch (\<lambda>u. u) (\<lambda>u. u) ck token r db = (Inr stored, db2)"
    and p: "replay_persisted_admission repr (\<lambda>_ u. u) ck stored db2 = (Inr o1, db')" and x: "x = Inl o1"
    by (auto simp: adopt_legacy_dispatch_def dest!: attempt_op_InrD)
  from c have "admission_get_by_message_id (d_message_id r) db2 = Some stored" "m_state stored = ADMISSION_COMPLETED" "messages db2 = messages db"
    by (auto simp: complete_claim_from_legacy_dispatch_def compatible_legacy_dispatch_outcome_def Let_def
        dest!: update_admissions_frame split: prod.splits sum.splits option.splits if_splits)
  with replay_ingested [OF assms(1,2) _ _ _ p] assms(3,4) x show ?thesis by simp
qed

lemma replay_not_created:
  assumes "replay_persisted_admission repr race ck m db = (Inr o1, db')"
  shows "\<not> io_message_created o1"
  using assms unfolding replay_persisted_admission_def
  by (auto simp: ingestion_outcome_def dest!: checked_InrD attempt_op_InrD split: if_splits option.splits prod.splits sum.splits)

lemma not_created_id: "\<not> io_message_created o1 \<Longrightarrow> o1\<lparr>io_message_created := False\<rparr> = o1"
  by (cases o1) simp

lemma stored_ingested:
  assumes m: "get_existing_message event db1 = Some m" "messages_ok db1" "messages db' = messages db1"
    and a: "ao_message_id a = g_id m" "stored_identity a = ao_enterprise_identity_id a" "admission_stored repr a db'"
    and d: "if ao_admitted a then rec \<noteq> None \<and> dispatch_settled a (the rec) db' else rec = None \<and> dispatch_get_by_message_id (g_id m) db' = None"
  shows "ingested repr event (ingestion_outcome False a rec None) db'"
proof -
  from a obtain x where x: "admission_get_by_message_id (g_id m) db' = Some x" "m_state x = ADMISSION_COMPLETED"
      "to_admission_outcome repr x = Inr a"
    by (auto simp: admission_stored_def)
  have "replays_to repr x (ingestion_outcome False a rec None) db'"
  proof (cases "ao_admitted a")
    case True
    with d obtain r where "rec = Some r" "dispatch_settled a r db'" by auto
    with admitted_replays [OF x(3) True] show ?thesis by blast
  next
    case False
    with d a denied_replays [OF x(3) False] show ?thesis by simp
  qed
  from ingestedI [OF m x(1,2) this] show ?thesis .
qed

lemma core_tables_sel:
  "core_tables u = core_tables v \<Longrightarrow> messages u = messages v \<and> admissions u = admissions v \<and> admission_seq u = admission_seq v
     \<and> dispatches u = dispatches v \<and> (admissions_ok u \<longleftrightarrow> admissions_ok v)"
  by (simp add: core_tables_def admissions_ok_def)

lemma complete_allowed_messages:
  assumes "complete_allowed_admission_atomically (\<lambda>_ u. u) ck token a db = (Inr x, db')"
  shows "messages db' = messages db"
proof -
  have once: "messages v = messages u" if "complete_allowed_once (\<lambda>_ u. u) ck token a u = (Inr x, v)" for u v
  proof -
    obtain res committed staged where s: "dispatch_stage_enqueue (\<lambda>u. u) (\<lambda>u. u) ck a u = (res, committed, staged)" by (metis prod_cases3)
    have "committed = u" using stage_enqueue_committed [of "\<lambda>w. w = u" "\<lambda>u. u" "\<lambda>u. u", OF _ _ _ s] by simp
    with s that have r: "dispatch_stage_enqueue (\<lambda>u. u) (\<lambda>u. u) ck a u = (Inr x, u, staged)"
        and t: "stage_completion ck token a staged = (Inr (), v)"
      by (auto simp: complete_allowed_once_def split: sum.splits prod.splits)
    from stage_enqueue_cases [of _ _ _ _ _ "fst x" "snd x"] r stage_completion_frame [OF t] show ?thesis by fastforce
  qed
  have same: "v = u" if "complete_allowed_once (\<lambda>_ u. u) ck token a u = (Inl e, v)" for u v e
    using complete_allowed_once_nothing [of "\<lambda>w. w = u", OF _ _ that] by simp
  from assms show ?thesis
    by (auto simp: complete_allowed_admission_atomically_def split: prod.splits sum.splits gateway_error.splits dest: once dest!: same)
qed

lemma evaluate_ingested:
  assumes m: "get_existing_message event db1 = Some m" "messages_ok db1" "messages db = messages db1"
    and ok: "admissions_ok db" "rows_named db" and u: "\<And>n. uuid n \<noteq> []"
    and e: "evaluate_claim repr isoformat alone ck uuid v2 token claim m db = (Inr x, db')"
    and f: "finish_decision None created x db' = (Inr o1, db2)"
  shows "db2 = db' \<and> ingested repr event (o1\<lparr>io_message_created := False\<rparr>) db'"
proof -
  have legacy: ?thesis if r: "dispatch_get_by_message_id (g_id m) w = Some r" "messages w = messages db1"
      "adopt_legacy_dispatch repr (\<lambda>_ u. u) ck token r w = (Inr x, db')" for r w
  proof -
    have "d_message_id r = g_id m" using r(1) by (auto simp: dispatch_get_by_message_id_def dest: lookup_by_Some)
    from adopt_ingested [OF m(1,2) r(2) this r(3)] obtain o2 where o2: "x = Inl o2" "ingested repr event o2 db'" by blast
    have "\<not> io_message_created o2" using r(3) o2(1)
      by (auto simp: adopt_legacy_dispatch_def dest!: attempt_op_InrD replay_not_created)
    with o2 f show ?thesis by (auto simp: finish_decision_def not_created_id)
  qed
  show ?thesis
  proof (cases "dispatch_get_by_message_id (g_id m) db")
    case (Some r)
    with e m(3) legacy [of db r] show ?thesis by (simp add: evaluate_claim_def)
  next
    case None
    from e [unfolded evaluate_claim_def Let_def None option.case] obtain request candidate a dba where c: "admission_candidate m request = Inr candidate"
      and a: "admit isoformat (\<lambda>_ u. u) ck uuid v2 candidate db = (Inr a, dba)"
      and k: "(if ao_admitted a \<and> ao_reason a = ADMISSION_ALLOWED
              then attempt_op (complete_allowed_admission_atomically (\<lambda>_ u. u) ck token a dba) (\<lambda>rc db3. (Inr (Inr (a, Some rc)), db3))
              else (case dispatch_get_by_message_id (g_id m) dba of
                   Some r \<Rightarrow> adopt_legacy_dispatch repr (\<lambda>_ u. u) ck token r dba
                 | None \<Rightarrow> attempt_op (complete_denied (\<lambda>u. u) (\<lambda>u. u) ck token a dba) (\<lambda>_ db4. (Inr (Inr (a, None)), db4)))) = (Inr x, db')"
      by (fast dest: checked_InrD attempt_op_InrD)
    from core_tables_sel [OF admit_alone_core [OF a]] m(3) ok(1)
    have same: "messages dba = messages db1" "admissions_ok dba" "dispatches dba = dispatches db" by auto
    from admit_outcome_storable [of "\<lambda>_ u. u", OF _ u ok(2) a] have st: "admission_consistent a" "ao_message_id a = ca_message_id candidate"
        "completed_decision a = Inr (if ao_admitted a then ADMISSION_DECISION_ALLOWED else ADMISSION_DECISION_DENIED)" by auto
    have id: "ao_message_id a = g_id m" using c st(2) by (auto simp: admission_candidate_def split: if_splits option.splits)
    note ident = admit_stored_identity [OF a]
    have reason: "ao_admitted a \<Longrightarrow> ao_reason a = ADMISSION_ALLOWED" using st(3) by (auto simp: completed_decision_def split: if_splits)
    show ?thesis
    proof (cases "ao_admitted a")
      case True
      with k reason obtain rc where rc: "complete_allowed_admission_atomically (\<lambda>_ u. u) ck token a dba = (Inr rc, db')" "x = Inr (a, Some rc)"
        by (auto dest!: attempt_op_InrD)
      obtain d new where dn: "rc = (d, new)" by fastforce
      from complete_allowed_both_or_nothing [of "\<lambda>_ u. u", OF _ same(2) st(1) rc(1), where repr = repr] dn
      have "admission_stored repr a db'" "dispatch_settled a d db'" by auto
      with stored_ingested [OF m(1,2) _ id ident, of db' repr "Some d"] complete_allowed_messages [OF rc(1)] same(1) True
      have "ingested repr event (ingestion_outcome False a (Some d) None) db'" by simp
      with f rc(2) dn show ?thesis by (auto simp: finish_decision_def ingestion_outcome_def)
    next
      case False
      have free: "dispatch_get_by_message_id (g_id m) dba = None" using None same(3) by (simp add: dispatch_get_by_message_id_def)
      with k False obtain y where y: "complete_denied (\<lambda>u. u) (\<lambda>u. u) ck token a dba = (Inr y, db')" "x = Inr (a, None)"
        by (auto dest!: attempt_op_InrD)
      then obtain z where z: "stage_completion ck token a dba = (Inr z, db')"
        by (auto simp: complete_denied_def Let_def split: if_splits prod.splits sum.splits option.splits)
      have "admission_stored repr a db'" using stage_completion_stored [OF z same(2) st(1)] by blast
      moreover have "messages db' = messages db1" "dispatch_get_by_message_id (g_id m) db' = None"
        using stage_completion_frame [OF z] same(1) free by (auto simp: dispatch_get_by_message_id_def)
      ultimately have "ingested repr event (ingestion_outcome False a None None) db'"
        using stored_ingested [OF m(1,2) _ id ident, of db' repr None] False by simp
      with f y(2) show ?thesis by (auto simp: finish_decision_def ingestion_outcome_def)
    qed
  qed
qed

lemma message_create_frame:
  assumes "message_create (\<lambda>_ u. u) ck event db = (res, db')"
  shows "admissions db' = admissions db \<and> admission_seq db' = admission_seq db \<and> workspaces db' = workspaces db
    \<and> ai_threads db' = ai_threads db \<and> user_policies db' = user_policies db"
proof -
  have ins: "insert_message x u = Some v \<Longrightarrow> admissions v = admissions u \<and> admission_seq v = admission_seq u \<and> workspaces v = workspaces u
    \<and> ai_threads v = ai_threads u \<and> user_policies v = user_policies u" for x u v
    by (auto simp: insert_message_def split: if_splits)
  have conv: "stage_conversation ck c event u = Some v \<Longrightarrow> admissions v = admissions u \<and> admission_seq v = admission_seq u \<and> workspaces v = workspaces u
    \<and> ai_threads v = ai_threads u \<and> user_policies v = user_policies u" for c u v
    by (auto simp: stage_conversation_def insert_conversation_def rename_conversation_def split: option.splits if_splits)
  show ?thesis using assms
    by (fastforce simp: message_create_def retry_message_insert_def Let_def bind_eq_Some_conv bind_eq_None_conv checked_def dest!: ins conv
        split: option.splits sum.splits prod.splits if_splits)
qed

lemma claim_admission_named:
  assumes "claim_admission (\<lambda>_ u. u) ck uuid resolver lease m found db = (Inr c, db')" "rows_named db"
  shows "rows_named db'"
proof -
  have upd: "update_admissions q f u = (res, v) \<Longrightarrow> rows_named v = rows_named u" for q f u res v
    by (auto simp: update_admissions_def rows_named_def Let_def split: if_splits)
  have ins: "insert_admission x u = Some v \<Longrightarrow> rows_named v = rows_named u" for x u v
    by (auto simp: insert_admission_def rows_named_def split: if_splits)
  have ex: "claim_existing (\<lambda>u. u) (\<lambda>u. u) ck token x l t u = (res, v) \<Longrightarrow> rows_named v = rows_named u" for token x l t u res v
    by (auto simp: claim_existing_def Let_def dest!: upd split: if_splits prod.splits sum.splits option.splits)
  show ?thesis using assms
    by (auto simp: claim_admission_def create_pending_def claim_pending_def Let_def dest!: checked_InrD ins ex
        split: option.splits if_splits)
qed

lemma process_event_cases:
  assumes e: "process_event repr isoformat resolver None alone ck uuid v2 lease event db = (Inr o1, db')"
    and c: "message_create (\<lambda>_ u. u) ck event db = (Inr (m, created), db1)" and g: "message_get (g_id m) db1 = Some m"
  obtains (replayed) a where "admission_get_by_message_id (g_id m) db1 = Some a" "m_state a = ADMISSION_COMPLETED"
      "replay_persisted_admission repr (\<lambda>_ u. u) ck a db1 = (Inr o1, db')"
  | (legacy) r a new db2 where "admission_get_by_message_id (g_id m) db1 = None" "dispatch_get_by_message_id (g_id m) db1 = Some r"
      "create_legacy_dispatch_outcome (\<lambda>u. u) ck r db1 = (Inr (a, new), db2)"
      "replay_persisted_admission repr (\<lambda>_ u. u) ck a db2 = (Inr o1, db')"
  | (claimed) found claim db2 where "found = admission_get_by_message_id (g_id m) db1" "\<And>a. found = Some a \<Longrightarrow> m_state a \<noteq> ADMISSION_COMPLETED"
      "claim_admission (\<lambda>_ u. u) ck uuid resolver lease m found db1 = (Inr claim, db2)"
      "(case cl_claim_token claim of
          None \<Rightarrow> replay_persisted_admission repr (\<lambda>_ u. u) ck (cl_outcome claim) db2
        | Some token \<Rightarrow> attempt_op (release_on_error (\<lambda>u. u) ck (g_id m) token
            (evaluate_claim repr isoformat alone ck uuid v2 token claim m db2)) (finish_decision None created)) = (Inr o1, db')"
proof (cases "admission_get_by_message_id (g_id m) db1")
  case (Some a)
  show thesis
  proof (cases "m_state a = ADMISSION_COMPLETED")
    case True
    with Some e c g show thesis by (intro replayed [of a]) (simp_all add: process_event_def Let_def)
  next
    case False
    obtain res db2 where r: "claim_admission (\<lambda>_ u. u) ck uuid resolver lease m (Some a) db1 = (res, db2)" by fastforce
    with False Some e c g claimed [of "Some a"] show thesis by (cases res) (simp_all add: process_event_def Let_def)
  qed
next
  case None
  show thesis
  proof (cases "dispatch_get_by_message_id (g_id m) db1")
    case (Some r)
    obtain res db2 where r: "create_legacy_dispatch_outcome (\<lambda>u. u) ck r db1 = (res, db2)" by fastforce
    with None Some e c g obtain a new where "res = Inr (a, new)" "replay_persisted_admission repr (\<lambda>_ u. u) ck a db2 = (Inr o1, db')"
      by (cases res) (auto simp: process_event_def Let_def)
    with None Some r legacy show thesis by blast
  next
    case none: None
    obtain res db2 where r: "claim_admission (\<lambda>_ u. u) ck uuid resolver lease m None db1 = (res, db2)" by fastforce
    with None none e c g claimed [of None] show thesis by (cases res) (simp_all add: process_event_def Let_def)
  qed
qed

lemma legacy_outcome_frame:
  assumes "create_legacy_dispatch_outcome (\<lambda>u. u) ck r db = (Inr (a, new), db')"
  shows "admission_get_by_message_id (d_message_id r) db' = Some a \<and> m_state a = ADMISSION_COMPLETED \<and> messages db' = messages db"
proof -
  have compat: "compatible_legacy_dispatch_outcome x r = Inr y \<Longrightarrow> y = x \<and> m_state x = ADMISSION_COMPLETED" for x y
    by (auto simp: compatible_legacy_dispatch_outcome_def split: if_splits option.splits)
  have row: "m_message_id (legacy_row ck i r) = d_message_id r" for i by (simp add: legacy_row_def new_admission_def)
  show ?thesis
  proof (cases "insert_admission (legacy_row ck (admission_seq db) r) db")
    case (Some w)
    with assms have "compatible_legacy_dispatch_outcome (legacy_row ck (admission_seq db) r) r = Inr a" "db' = w"
      by (auto simp: create_legacy_dispatch_outcome_def map_sum_Inr)
    with compat insert_admission_get [OF Some] insert_admission_frame [OF Some] row show ?thesis by auto
  next
    case None
    with assms show ?thesis
      by (auto simp: create_legacy_dispatch_outcome_def map_sum_Inr dest!: compat split: option.splits)
  qed
qed

lemma redelivery_answers_the_same:
  assumes ok: "messages_ok db" "admissions_ok db" "rows_named db" and u: "\<And>n. uuid n \<noteq> []"
    and e: "process_event repr isoformat resolver None alone ck uuid v2 lease event db = (Inr o1, db')"
  shows "process_event repr isoformat' resolver' dispatcher alone ck' uuid' v2' lease' event db' = (Inr (o1\<lparr>io_message_created := False\<rparr>), db')"
proof (rule ingested_answer)
  from attempt_op_InrD [OF e [unfolded process_event_def]] obtain m created db1 where
    c: "message_create (\<lambda>_ u. u) ck event db = (Inr (m, created), db1)" by auto
  from message_create_answer [of "\<lambda>_ u. u", OF _ ok(1) c] ok(1) have m: "get_existing_message event db1 = Some m" "messages_ok db1"
    by (auto simp: message_kept_def)
  have g: "message_get (g_id m) db1 = Some m" using get_existing_message_stored [OF m(1)] m(2) lookup_by_distinct [of g_id "messages db1" m]
    by (simp add: message_get_def messages_ok_def message_table_ok_def)
  have ok1: "admissions_ok db1" "rows_named db1" using message_create_frame [OF c] ok by (simp_all add: admissions_ok_def rows_named_def)
  have replay: "ingested repr event (o1\<lparr>io_message_created := False\<rparr>) db'"
    if "messages w = messages db1" "admission_get_by_message_id (g_id m) w = Some a" "m_state a = ADMISSION_COMPLETED"
      "replay_persisted_admission repr (\<lambda>_ u. u) ck a w = (Inr o1, db')" for w a
    unfolding not_created_id [OF replay_not_created [OF that(4)]] using replay_ingested [OF m that] .
  from e c g show "ingested repr event (o1\<lparr>io_message_created := False\<rparr>) db'"
  proof (cases rule: process_event_cases)
    case (replayed a)
    with replay show ?thesis by blast
  next
    case (legacy r a new db2)
    have "d_message_id r = g_id m" using legacy(2) by (auto simp: dispatch_get_by_message_id_def dest: lookup_by_Some)
    with legacy_outcome_frame [OF legacy(3)] replay legacy(4) show ?thesis by auto
  next
    case (claimed found claim db2)
    note fr = claim_admission_frame [OF claimed(3,1,2) ok1(1)]
    show ?thesis
    proof (cases "cl_claim_token claim")
      case None
      with fr replay claimed(4) show ?thesis by auto
    next
      case (Some token)
      with claimed(4) obtain x db3 where x: "evaluate_claim repr isoformat alone ck uuid v2 token claim m db2 = (Inr x, db3)"
          and f: "finish_decision None created x db3 = (Inr o1, db')"
        by (auto simp: release_on_error_def dest!: attempt_op_InrD split: prod.splits sum.splits)
      from evaluate_ingested [OF m _ _ claim_admission_named [OF claimed(3) ok1(2)] u x f] fr show ?thesis by auto
    qed
  qed
qed

end
