(* ===== verification/Sample_Ingestion.thy ===== *)
theory Sample_Ingestion
  imports Redelivery Admission_Machine Sample_Runs
begin

text \<open>
  A directory with one employee and its policies, and the ingestion of a message from the
  employee and from a stranger: the runs the witnesses about admission and ingestion evaluate.
\<close>

definition sample_mapping :: SourceIdentityMapping where
  "sample_mapping = \<lparr>s_id = ''s1'', s_platform = ''wechat'', s_account_id = ''bot'', s_sender_id = ''u1'',
     s_enterprise_identity_id = ''e1'', s_enabled = True, s_created_at = 0, s_updated_at = 0\<rparr>"

definition sample_user_policy :: UserAccessPolicy where
  "sample_user_policy = \<lparr>up_id = ''p1'', up_enterprise_identity_id = ''e1'', up_enabled = True, up_permission_scope = {''chat''},
     up_allowed_skills = {}, up_valid_from = None, up_valid_until = None, up_created_at = 0, up_updated_at = 0\<rparr>"

definition sample_gateway_policy :: GatewayAccessPolicy where
  "sample_gateway_policy = \<lparr>gap_id = ''g1'', gap_policy_key = ''default'', gap_permission_scope = {''chat''},
     gap_allowed_skills = {}, gap_allowed_risk_levels = {''normal''}, gap_enabled = True, gap_created_at = 0, gap_updated_at = 0\<rparr>"

definition sample_directory :: gateway_db where
  "sample_directory = empty_db\<lparr>identities := [sample_identity], identity_mappings := [sample_mapping],
     user_policies := [sample_user_policy], gateway_policies := [sample_gateway_policy]\<rparr>"

definition sample_event :: "string \<Rightarrow> MessageEvent" where
  "sample_event sender =
     \<lparr>ev_event_id = ''ev-1'', ev_source = ''wechat'', ev_source_account_id = ''bot'', ev_source_message_id = ''m-1'',
      ev_conversation_id = ''c1'', ev_conversation_type = ''private'', ev_is_mentioned = None, ev_is_self = False,
      ev_conversation_name = None, ev_sender_type = ''human'', ev_sender_id = Some sender, ev_sender_name = None,
      ev_message_type = ''text'', ev_raw_type = Some 1, ev_content = ''hello'', ev_timestamp = Some 5, ev_occurred_at = Some 5,
      ev_received_at = 6, ev_direction = Some ''inbound'', ev_source_local_id = None, ev_source_server_id = None,
      ev_source_message_id_is_fallback = False, ev_reply_context = None, ev_reply_to_message_id = None,
      ev_attachments = [], ev_raw_payload = None\<rparr>"

definition sample_uuid :: "nat \<Rightarrow> string" where
  "sample_uuid n = ''id-'' @ nat_str n"

definition sample_process :: "string \<Rightarrow> gateway_db \<Rightarrow> MessageIngestionOutcome outcome" where
  "sample_process sender = process_event (\<lambda>_. []) (\<lambda>_. []) default_request_resolver None alone (sample_clock 10) sample_uuid False
     (PyInt 30) (sample_event sender)"

definition sample_admitted :: gateway_db where
  "sample_admitted = snd (sample_process ''u1'' sample_directory)"

lemma sample_uuid_nonempty: "sample_uuid n \<noteq> []"
  by (simp add: sample_uuid_def)

lemma sample_directory_ok: "messages_ok sample_directory" "admissions_ok sample_directory" "rows_named sample_directory"
    "mapping_table_ok (identity_mappings sample_directory)"
proof -
  show "messages_ok sample_directory" "admissions_ok sample_directory" "mapping_table_ok (identity_mappings sample_directory)"
    by code_simp+
  show "rows_named sample_directory"
    by (simp add: rows_named_def sample_directory_def empty_db_def sample_user_policy_def)
qed

definition sample_candidate :: "string \<Rightarrow> AdmissionCandidate" where
  "sample_candidate sender =
     \<lparr>ca_message_id = 1, ca_source = ''wechat'', ca_source_account_id = ''bot'', ca_conversation_id = ''c1'',
      ca_conversation_type = ''private'', ca_sender_type = SENDER_HUMAN, ca_sender_id = Some sender, ca_is_self = False,
      ca_is_mentioned = None, ca_message_type = ''text'', ca_requested_scope = {}, ca_requested_skill_ids = {},
      ca_risk_level = RISK_NORMAL\<rparr>"

definition sample_admit :: "string \<Rightarrow> gateway_db \<Rightarrow> AdmissionOutcome outcome" where
  "sample_admit sender = admit (\<lambda>_. []) (\<lambda>_ u. u) (sample_clock 10) sample_uuid False (sample_candidate sender)"

text \<open>The message stored, its admission claimed and decided, not yet completed.\<close>

definition sample_stored :: gateway_db where
  "sample_stored = snd (message_create (\<lambda>_ u. u) (sample_clock 10) (sample_event ''u1'') sample_directory)"

definition sample_claimed :: gateway_db where
  "sample_claimed = snd (create_pending id id id (sample_clock 10) ''tok'' ''tok2'' 1 (default_request_resolver (sample_message 1)) (PyInt 30) None sample_stored)"

definition sample_decided :: "AdmissionOutcome outcome" where
  "sample_decided = sample_admit ''u1'' sample_claimed"

lemma answerE:
  assumes "map_sum (\<lambda>_. ()) f (fst r) = Inr y"
  obtains x db where "r = (Inr x, db)" "f x = y"
  using assms by (cases r; cases "fst r") auto

lemma sample_runs:
  "map_sum (\<lambda>_. ()) (\<lambda>x. (ao_admitted (io_admission x), io_dispatch_record_id x)) (fst (sample_process ''u1'' sample_directory)) = Inr (True, Some 1)"
  "map_sum (\<lambda>_. ()) (\<lambda>x. (ao_admitted (io_admission x), io_dispatch_record_id x)) (fst (sample_process ''u2'' sample_directory)) = Inr (False, None)"
  "map_sum (\<lambda>_. ()) ao_admitted (fst sample_decided) = Inr True"
  by code_simp+

definition sample_completed :: gateway_db where
  "sample_completed = snd (stage_completion (sample_clock 12) ''tok'' (projr (fst sample_decided)) (snd sample_decided))"

lemma sample_claimed_ok: "rows_named sample_claimed"
proof -
  have "workspaces sample_claimed = []" "ai_threads sample_claimed = []" by code_simp+
  moreover have "user_policies sample_claimed = [sample_user_policy]" by code_simp
  ultimately show ?thesis by (simp add: rows_named_def sample_user_policy_def)
qed

lemma sample_completed_reached: "admission_step\<^sup>*\<^sup>* empty_db sample_completed"
proof -
  have "admissions sample_stored = admissions empty_db \<and> admission_seq sample_stored = admission_seq empty_db" by code_simp
  then have "admission_step empty_db sample_stored" by (simp add: admission_step.elsewhere)
  moreover have "admission_step sample_stored sample_claimed"
    unfolding sample_claimed_def by (rule admission_step.create [OF surjective_pairing])
  moreover have "admissions (snd sample_decided) = admissions sample_claimed \<and> admission_seq (snd sample_decided) = admission_seq sample_claimed"
    by code_simp
  then have "admission_step sample_claimed (snd sample_decided)" by (simp add: admission_step.elsewhere)
  moreover have "admission_step (snd sample_decided) sample_completed"
    unfolding sample_completed_def by (rule admission_step.complete [OF surjective_pairing])
  ultimately show ?thesis by (meson converse_rtranclp_into_rtranclp r_into_rtranclp)
qed

end
