(* ===== verification/Admission_Properties.thy ===== *)
theory Admission_Properties
  imports Admission_Machine Sample_Ingestion
begin

text \<open>
  What the admission of a message and its ingestion promise, with runs of the sample directory
  as witnesses.
\<close>

section \<open>Decisions\<close>





text \<open>
  Disabling the mapping of a sender locks the sender out: no message of the sender on that
  account is admitted afterwards.
\<close>

theorem disabled_sender_is_denied:
  assumes "disable_mapping ck p acc s db = (Inr m, db')" "mapping_table_ok (identity_mappings db)"
    and "py_strip (ca_source candidate) = py_strip p" "py_strip (ca_source_account_id candidate) = py_strip acc"
    and "ca_sender_id candidate = Some s'" "py_strip s' = py_strip s"
    and "admit isoformat race ck' uuid v2 candidate db' = (Inr a, db'')"
  shows "\<not> ao_admitted a"
proof
  assume "ao_admitted a"
  from admitted_outcome_authorized [OF assms(7) this] assms(3-6) obtain x where
    "list_mappings (py_strip p) (py_strip acc) (py_strip s) db' = [x]" "s_enabled x"
    by (auto simp: admission_authorized_def)
  with disable_mapping_lists [OF assms(1,2)] show False by simp
qed

theorem disabled_sender_is_denied_witness:
  "\<exists>a. fst (sample_admit ''u1'' (snd (disable_mapping (sample_clock 11) ''wechat'' ''bot'' ''u1'' sample_directory))) = Inr a \<and> \<not> ao_admitted a"
proof -
  let ?off = "disable_mapping (sample_clock 11) ''wechat'' ''bot'' ''u1'' sample_directory"
  have "map_sum (\<lambda>_. ()) (\<lambda>_. ()) (fst ?off) = Inr ()" by code_simp
  then obtain m db where off: "?off = (Inr m, db)" by (rule answerE)
  have "map_sum (\<lambda>_. ()) (\<lambda>_. ()) (fst (sample_admit ''u1'' (snd ?off))) = Inr ()" by code_simp
  then obtain a db' where a: "sample_admit ''u1'' db = (Inr a, db')" unfolding off snd_conv by (rule answerE)
  from disabled_sender_is_denied [OF off sample_directory_ok(4) _ _ _ _ a [unfolded sample_admit_def], of "''u1''"] a
  show ?thesis by (simp add: off sample_candidate_def)
qed

section \<open>The stored outcome\<close>

text \<open>
  C20. An allowed admission and the dispatch of its message are committed together: when the
  completion succeeds under any races, the stored admission reads back as the outcome and the
  dispatch record of the message is the one returned; when it fails, nothing of it remains, so
  only what the other sessions did is in the database.
\<close>

theorem allowed_admission_commits_with_dispatch:
  assumes "\<And>n u. admissions_ok u \<Longrightarrow> admissions_ok (race n u)" "admissions_ok db" "admission_consistent a"
    and "complete_allowed_admission_atomically race ck token a db = (res, db')"
  shows "case res of
      Inr (d, created) \<Rightarrow> admission_stored repr a db' \<and> dispatch_settled a d db' \<and> admissions_ok db'
    | Inl err \<Rightarrow> (\<forall>good. (\<forall>n u. good u \<longrightarrow> good (race n u)) \<longrightarrow> good db \<longrightarrow> good db')"
  using complete_allowed_both_or_nothing [of race, OF assms] .

theorem allowed_admission_commits_with_dispatch_witness:
  "\<exists>a d created. fst sample_decided = Inr a
     \<and> fst (complete_allowed_admission_atomically (\<lambda>_ u. u) (sample_clock 12) ''tok'' a (snd sample_decided)) = Inr (d, created)
     \<and> dispatch_settled a d (snd (complete_allowed_admission_atomically (\<lambda>_ u. u) (sample_clock 12) ''tok'' a (snd sample_decided)))"
proof -
  obtain a db where a: "sample_decided = (Inr a, db)" "ao_admitted a = True" using sample_runs(3) by (rule answerE)
  have "map_sum (\<lambda>_. ()) (\<lambda>_. ()) (fst (complete_allowed_admission_atomically (\<lambda>_ u. u) (sample_clock 12) ''tok''
      (projr (fst sample_decided)) (snd sample_decided))) = Inr ()" by code_simp
  then obtain r db' where r: "complete_allowed_admission_atomically (\<lambda>_ u. u) (sample_clock 12) ''tok'' a db = (Inr r, db')"
    unfolding a fst_conv snd_conv sum.sel by (rule answerE)
  have "rows_named sample_claimed" by (rule sample_claimed_ok)
  from admit_outcome_storable [of "\<lambda>_ u. u", OF _ sample_uuid_nonempty this a(1) [unfolded sample_decided_def sample_admit_def]]
  have c: "admission_consistent a" by simp
  have "admissions_ok (snd sample_decided)" by code_simp
  then have ok: "admissions_ok db" by (simp add: a)
  obtain d created where dc: "r = (d, created)" by fastforce
  from allowed_admission_commits_with_dispatch [of "\<lambda>_ u. u", OF _ ok c r [unfolded dc], of "\<lambda>_. []"]
  have "dispatch_settled a d db'" by simp
  with r dc show ?thesis unfolding a(1) fst_conv snd_conv by (intro exI [of _ a] exI [of _ d] exI [of _ created]) simp
qed

text \<open>
  What is decided is what is read: after the holder of the claim completed an admission,
  the stored row reads back as the outcome that was decided, with its authorization, its policy
  snapshot and its route.
\<close>

theorem completed_admission_reads_back:
  assumes "stage_completion ck token a db = (Inr x, db')" "admissions_ok db" "admission_consistent a"
  shows "\<exists>m. admission_get_by_message_id (ao_message_id a) db' = Some m \<and> m_state m = ADMISSION_COMPLETED
    \<and> to_admission_outcome repr m = Inr (a\<lparr>ao_enterprise_identity_id := stored_identity a\<rparr>)"
  using stage_completion_stored [OF assms] unfolding admission_stored_def by blast

theorem completed_admission_reads_back_witness:
  "\<exists>a db' m. fst sample_decided = Inr a \<and> stage_completion (sample_clock 12) ''tok'' a (snd sample_decided) = (Inr (), db')
     \<and> admission_get_by_message_id 1 db' = Some m \<and> to_admission_outcome (\<lambda>_. []) m = Inr (a\<lparr>ao_enterprise_identity_id := stored_identity a\<rparr>)"
proof -
  obtain a db where a: "sample_decided = (Inr a, db)" "ao_admitted a = True" using sample_runs(3) by (rule answerE)
  have "map_sum (\<lambda>_. ()) (\<lambda>_. ()) (fst (stage_completion (sample_clock 12) ''tok'' (projr (fst sample_decided)) (snd sample_decided))) = Inr ()"
    by code_simp
  then obtain u db' where r: "stage_completion (sample_clock 12) ''tok'' a db = (Inr u, db')"
    unfolding a fst_conv snd_conv sum.sel by (rule answerE)
  have "rows_named sample_claimed" by (rule sample_claimed_ok)
  from admit_outcome_storable [of "\<lambda>_ u. u", OF _ sample_uuid_nonempty this a(1) [unfolded sample_decided_def sample_admit_def]]
  have c: "admission_consistent a" "ao_message_id a = 1" by (simp_all add: sample_candidate_def)
  have "admissions_ok (snd sample_decided)" by code_simp
  then have "admissions_ok db" by (simp add: a)
  from completed_admission_reads_back [OF r this c(1), of "\<lambda>_. []"] r c(2) show ?thesis
    unfolding a(1) fst_conv snd_conv by (intro exI [of _ a]) auto
qed

text \<open>
  C21. A completed admission is final: in every run from the empty database, of any number of
  sessions, a completed row keeps every column for ever and stays the only row of its message.
\<close>

theorem completed_admission_is_final:
  assumes "admission_step\<^sup>*\<^sup>* empty_db db" "m \<in> set (admissions db)" "m_state m = ADMISSION_COMPLETED"
    and "admission_step\<^sup>*\<^sup>* db db'"
  shows "m \<in> set (admissions db') \<and> (\<forall>m'\<in>set (admissions db'). m_message_id m' = m_message_id m \<longrightarrow> m' = m)"
proof -
  have "admissions_ok db" using admission_reached_ok [OF assms(1)] .
  from admission_run_completed [OF this assms(4,2,3)] admission_reached_ok [OF rtranclp_trans [OF assms(1,4)]]
  show ?thesis using admission_get_iff by (metis option.inject)
qed

theorem completed_admission_is_final_witness:
  "\<exists>m. m \<in> set (admissions sample_completed) \<and> m_state m = ADMISSION_COMPLETED
     \<and> m \<in> set (admissions (snd (release_claim id (sample_clock 13) 1 ''tok'' ''late'' sample_completed)))"
proof -
  let ?m = "hd (admissions sample_completed)"
  have m: "?m \<in> set (admissions sample_completed)" "m_state ?m = ADMISSION_COMPLETED" by code_simp+
  have reached: "admission_step\<^sup>*\<^sup>* empty_db sample_completed" by (rule sample_completed_reached)
  have "admission_step\<^sup>*\<^sup>* sample_completed (snd (release_claim id (sample_clock 13) 1 ''tok'' ''late'' sample_completed))"
    by (rule r_into_rtranclp) (rule admission_step.release [OF surjective_pairing])
  from completed_admission_is_final [OF reached m this] m show ?thesis by blast
qed

text \<open>
  One evaluator at a time: while the lease of the holder runs, every other session that
  claims the admission is turned away without a change, and no other token completes it. The
  completion of the holder releases the claim, and no second completion follows.
\<close>

theorem admission_has_one_evaluator:
  assumes "admissions_ok db" "admission_get_by_message_id (ao_message_id a) db = Some m" "m_state m = ADMISSION_PENDING"
    and "m_claim_token m = Some t" "m_lease_expires_at m = Some e" "now < e"
  shows "claim_existing id id ck token m lease now db = (Inl (AdmissionPendingError (ao_message_id a)), db)
    \<and> (\<forall>u x db'. stage_completion ck u a db = (Inr x, db') \<longrightarrow> u = t
         \<and> (\<forall>v y db'' b. ao_message_id b = ao_message_id a \<longrightarrow> stage_completion ck v b db' \<noteq> (Inr y, db'')))"
proof (intro conjI allI impI)
  show "claim_existing id id ck token m lease now db = (Inl (AdmissionPendingError (ao_message_id a)), db)"
    by (rule held_claim_refused [OF assms])
next
  fix u x db' assume c: "stage_completion ck u a db = (Inr x, db')"
  then have f: "admission_finish ck a (ao_message_id a) u db = Some db'" by (simp add: stage_completion_finish)
  have "admission_holder db (ao_message_id a) = Some t" using assms(2-4) by (simp add: admission_holder_def)
  with admission_fence.finish_needs_token [OF assms(1) f] show "u = t" by simp
  fix v y db'' and b :: AdmissionOutcome assume "ao_message_id b = ao_message_id a"
  then have "admission_finish ck b (ao_message_id a) v db' = None"
    using admission_fence.stale_token_refused [OF admission_fence.finish_wf [OF assms(1) f], of "ao_message_id a" v ck b]
      admission_fence.finish_releases [OF assms(1) f] by simp
  with \<open>ao_message_id b = ao_message_id a\<close> show "stage_completion ck v b db' \<noteq> (Inr y, db'')"
    using stage_completion_finish [of ck b v db'] by auto
qed

theorem admission_has_one_evaluator_witness:
  "\<exists>m. admission_get_by_message_id 1 sample_claimed = Some m \<and> m_claim_token m = Some ''tok''
     \<and> claim_existing id id (sample_clock 20) ''other'' m 30 20 sample_claimed = (Inl (AdmissionPendingError 1), sample_claimed)"
proof -
  let ?m = "hd (admissions sample_claimed)"
  have m: "admission_get_by_message_id (ao_message_id (sample_admission 1)) sample_claimed = Some ?m" "m_state ?m = ADMISSION_PENDING"
      "m_claim_token ?m = Some ''tok''" "m_lease_expires_at ?m = Some 30000010" by code_simp+
  have ok: "admissions_ok sample_claimed" by code_simp
  from admission_has_one_evaluator [OF ok m, of 20 "sample_clock 20" "''other''" 30] m show ?thesis by (simp add: sample_admission_def)
qed

section \<open>Messages and conversations\<close>



text \<open>
  A message is stored once: after an event was stored or found, under any races, every
  later event with the id of the stored message is answered with that message and writes
  nothing, whatever was stored in between.
\<close>

theorem message_is_stored_once:
  assumes "\<And>n u. message_kept u (race n u)" "messages_ok db"
    and "message_create race ck event db = (Inr (m, created), db')"
    and "message_kept db' later" "ev_event_id event' = g_event_id m"
  shows "message_create race' ck' event' later = (Inr (m, False), later)"
proof -
  from message_create_answer [of race, OF assms(1-3)] have "message_kept db db'" "get_existing_message event db' = Some m" by auto
  with assms(2,4) get_existing_message_stored have "messages_ok later" "m \<in> set (messages later)" by (auto simp: message_kept_def)
  from get_existing_self [OF this] assms(5) show ?thesis by (simp add: message_create_def)
qed

theorem message_is_stored_once_witness:
  "\<exists>m. message_create (\<lambda>_ u. u) (sample_clock 10) (sample_event ''u1'') sample_directory = (Inr (m, True), sample_stored)
     \<and> message_create (\<lambda>_ u. u) (sample_clock 99) (sample_event ''u2'') sample_stored = (Inr (m, False), sample_stored)"
proof -
  have "map_sum (\<lambda>_. ()) (\<lambda>(m, c). (g_event_id m, c)) (fst (message_create (\<lambda>_ u. u) (sample_clock 10) (sample_event ''u1'') sample_directory))
    = Inr (''ev-1'', True)" by code_simp
  then obtain r db where "message_create (\<lambda>_ u. u) (sample_clock 10) (sample_event ''u1'') sample_directory = (Inr r, db)"
      "(\<lambda>(m, c). (g_event_id m, c)) r = (''ev-1'', True)" by (rule answerE)
  then obtain m where m: "message_create (\<lambda>_ u. u) (sample_clock 10) (sample_event ''u1'') sample_directory = (Inr (m, True), db)"
      "g_event_id m = ''ev-1''" by (auto split: prod.splits)
  have "sample_stored = db" by (simp add: sample_stored_def m)
  with message_is_stored_once [of "\<lambda>_ u. u", OF _ sample_directory_ok(1) m(1), of db "sample_event ''u2''"] m show ?thesis
    by (simp add: sample_event_def)
qed

text \<open>
  C23. A conversation keeps its thread: once a request of a conversation was given a thread,
  every later request of the same conversation, from any sender and in any later database that
  keeps the bindings, is given the same thread.
\<close>

theorem conversation_keeps_its_thread:
  assumes "\<And>n u. keeps_bindings u (race n u)" "\<And>n u. keeps_bindings u (race' n u)"
    and "ensure_thread_for_authorized_request race ck uuid i p a c ty s db = (Inr t, db')"
    and "keeps_bindings db' later"
    and "ensure_thread_for_authorized_request race' ck' uuid' i' p' a' c' ty' s' later = (Inr t', later')"
    and "py_strip p' = py_strip p" "py_strip a' = py_strip a" "py_strip c' = py_strip c"
  shows "t_id t' = t_id t"
proof -
  have "bound_to (py_strip p) (py_strip a) (py_strip c) (t_id t) later"
    using keeps_bindings_bound [OF assms(4) request_binds_conversation [of race, OF assms(1,3)]] .
  with bound_request_answer [of race', OF assms(2) _ assms(5)] assms(6-8) show ?thesis by simp
qed

definition sample_thread_request :: "(nat \<Rightarrow> string) \<Rightarrow> string \<Rightarrow> gateway_db \<Rightarrow> AIThread outcome" where
  "sample_thread_request uuid sender = ensure_thread_for_authorized_request (\<lambda>_ u. u) (sample_clock 10) uuid ''e1'' ''wechat'' ''bot'' ''c1'' ''private'' sender"

theorem conversation_keeps_its_thread_witness:
  "\<exists>t t'. fst (sample_thread_request sample_uuid ''u1'' sample_directory) = Inr t
     \<and> fst (sample_thread_request (\<lambda>n. ''x'' @ sample_uuid n) '' u2 '' (snd (sample_thread_request sample_uuid ''u1'' sample_directory))) = Inr t'
     \<and> t_id t' = t_id t"
proof -
  have "map_sum (\<lambda>_. ()) (\<lambda>_. ()) (fst (sample_thread_request sample_uuid ''u1'' sample_directory)) = Inr ()" by code_simp
  then obtain t db where t: "sample_thread_request sample_uuid ''u1'' sample_directory = (Inr t, db)" by (rule answerE)
  have "map_sum (\<lambda>_. ()) (\<lambda>_. ()) (fst (sample_thread_request (\<lambda>n. ''x'' @ sample_uuid n) '' u2 ''
      (snd (sample_thread_request sample_uuid ''u1'' sample_directory)))) = Inr ()" by code_simp
  then obtain t' db' where t': "sample_thread_request (\<lambda>n. ''x'' @ sample_uuid n) '' u2 '' db = (Inr t', db')"
    unfolding t snd_conv by (rule answerE)
  from conversation_keeps_its_thread [of "\<lambda>_ u. u" "\<lambda>_ u. u", OF _ _ t [unfolded sample_thread_request_def] _ t' [unfolded sample_thread_request_def]]
  have "t_id t' = t_id t" by simp
  with t t' show ?thesis unfolding t fst_conv snd_conv by (metis fst_conv)
qed



end
