(* ===== verification/Artifact_Writes.thy ===== *)
theory Artifact_Writes
  imports Artifact_Repository
begin

text \<open>
  Writing artifacts (\<open>artifact/repository.py\<close>): creation, publication of the content, failure and
  expiry. The state is the database together with the files beneath the storage root. Every
  operation takes the fate of its file operations and commits and what other sessions do before
  its \<open>UPDATE\<close>; a commit may raise although the server applied it. Bytes are characters.
\<close>

section \<open>Values\<close>

record artifact_store =
  as_db :: gateway_db
  as_files :: "string list \<Rightarrow> string option"

datatype artifact_failure =
    ArtifactRaised artifact_error
  | ArtifactSizeLimitError nat
  | ArtifactSizeMismatchError
  | ArtifactHashMismatchError
  | ArtifactDatabaseError

text \<open>Content is bytes, or a stream of chunks; an object without \<open>read\<close> is refused.\<close>

datatype stream_item = Chunk string | NotBytes | ReadFails

datatype artifact_content = ContentBytes string | ContentStream "stream_item list" | ContentInvalid

record artifact_io =
  io_inside :: "string list \<Rightarrow> bool"
  io_temp :: string
  io_partial :: string
  io_stage :: bool
  io_write :: bool
  io_publish :: bool
  io_sync :: bool
  io_unlink :: bool
  io_commit :: commit_fate
  io_fail_commit :: commit_fate
  io_restore :: bool
  io_race :: "artifact_store \<Rightarrow> artifact_store"

type_synonym 'a artifact_outcome = "(artifact_failure + 'a) \<times> artifact_store"

section \<open>Validation\<close>

definition artifact_kind :: "string \<Rightarrow> artifact_failure + ArtifactKind" where
  "artifact_kind value =
     (if value = ''image'' then Inr ARTIFACT_IMAGE else if value = ''file'' then Inr ARTIFACT_FILE
      else Inl (ArtifactRaised ArtifactValidationError))"

definition safe_filename :: "string \<Rightarrow> artifact_failure + string" where
  "safe_filename value =
     (case artifact_required_string value 255 of
        Inl e \<Rightarrow> Inl (ArtifactRaised e)
      | Inr filename \<Rightarrow>
          if filename \<in> {''.'', ''..''} \<or> list_ex (\<lambda>c. c \<in> {CHR ''/'', CHR 0x5C, CHR '':''}) filename
          then Inl (ArtifactRaised ArtifactValidationError) else Inr filename)"

definition positive_integer :: "py_num \<Rightarrow> artifact_failure + nat" where
  "positive_integer value =
     (case value of PyInt i \<Rightarrow> if i \<le> 0 then Inl (ArtifactRaised ArtifactValidationError) else Inr (nat i)
      | _ \<Rightarrow> Inl (ArtifactRaised ArtifactValidationError))"

definition expected_size_of :: "nat \<Rightarrow> py_num \<Rightarrow> artifact_failure + nat" where
  "expected_size_of max_size value =
     (case value of
        PyInt i \<Rightarrow>
          if i < 0 then Inl (ArtifactRaised ArtifactValidationError)
          else if i > int max_size then Inl (ArtifactSizeLimitError max_size) else Inr (nat i)
      | _ \<Rightarrow> Inl (ArtifactRaised ArtifactValidationError))"

definition ascii_lower :: "string \<Rightarrow> string" where
  "ascii_lower s = map (\<lambda>c. if CHR ''A'' \<le> c \<and> c \<le> CHR ''Z'' then char_of (of_char c + 32 :: nat) else c) s"

definition sha256_digest :: "string \<Rightarrow> artifact_failure + string" where
  "sha256_digest value =
     (if length value \<noteq> 64 then Inl (ArtifactRaised ArtifactValidationError)
      else
        let normalized = ascii_lower value in
        if list_ex (\<lambda>c. c \<notin> set ''0123456789abcdef'') normalized then Inl (ArtifactRaised ArtifactValidationError)
        else Inr normalized)"

definition optionally :: "('a \<Rightarrow> 'e + 'b) \<Rightarrow> 'a option \<Rightarrow> 'e + 'b option" where
  "optionally f x = (case x of None \<Rightarrow> Inr None | Some y \<Rightarrow> map_sum id Some (f y))"

section \<open>Staging\<close>

definition STREAM_CHUNK_SIZE :: nat where "STREAM_CHUNK_SIZE = 64 * 1024"

fun chunks :: "nat \<Rightarrow> string \<Rightarrow> stream_item list" where
  "chunks n [] = []"
| "chunks n (c # cs) = (if n = 0 then [] else Chunk (take n (c # cs)) # chunks n (drop n (c # cs)))"

text \<open>\<open>bytes\<close>, \<open>bytearray\<close> and \<open>memoryview\<close> are read through \<open>BytesIO\<close>.\<close>

definition content_stream :: "artifact_content \<Rightarrow> artifact_failure + stream_item list" where
  "content_stream content =
     (case content of
        ContentBytes b \<Rightarrow> Inr (chunks STREAM_CHUNK_SIZE b)
      | ContentStream s \<Rightarrow> Inr s
      | ContentInvalid \<Rightarrow> Inl (ArtifactRaised ArtifactValidationError))"

definition bytes_like_size :: "artifact_content \<Rightarrow> nat option" where
  "bytes_like_size content = (case content of ContentBytes b \<Rightarrow> Some (length b) | _ \<Rightarrow> None)"

text \<open>The copy loop, with what was written so far; the end of the list is the end of the stream.\<close>

fun copy_stream :: "nat \<Rightarrow> stream_item list \<Rightarrow> string \<Rightarrow> artifact_failure + string" where
  "copy_stream max_bytes [] written = Inr written"
| "copy_stream max_bytes (Chunk [] # items) written = Inr written"
| "copy_stream max_bytes (Chunk (c # cs) # items) written =
     (if length written + length (c # cs) > max_bytes then Inl (ArtifactSizeLimitError max_bytes)
      else copy_stream max_bytes items (written @ c # cs))"
| "copy_stream max_bytes (NotBytes # items) written = Inl (ArtifactRaised ArtifactValidationError)"
| "copy_stream max_bytes (ReadFails # items) written = Inl (ArtifactRaised ArtifactStorageError)"

definition artifact_storage_path :: "artifact_io \<Rightarrow> string \<Rightarrow> artifact_failure + string list" where
  "artifact_storage_path io key = map_sum ArtifactRaised id (storage_path (io_inside io) key)"

definition temporary_path :: "artifact_io \<Rightarrow> string list \<Rightarrow> string list" where
  "temporary_path io destination = butlast destination @ [''.artifact-'' @ io_temp io]"

text \<open>
  \<open>_stage_content\<close>: the content is copied into a new temporary file beside the destination and
  removed again when the copy fails; when that removal raises, what was written stays behind and
  the caller reports a storage error.
\<close>

definition abandon_staged :: "artifact_io \<Rightarrow> artifact_failure \<Rightarrow> string list \<Rightarrow> artifact_store \<Rightarrow> 'a artifact_outcome" where
  "abandon_staged io e destination w =
     (if io_unlink io then (Inl e, w)
      else (Inl (ArtifactRaised ArtifactStorageError), w\<lparr>as_files := (as_files w)(temporary_path io destination \<mapsto> io_partial io)\<rparr>))"

definition stage_content ::
  "artifact_io \<Rightarrow> nat \<Rightarrow> string \<Rightarrow> artifact_content \<Rightarrow> artifact_store \<Rightarrow> (string list \<times> string list \<times> string) artifact_outcome" where
  "stage_content io max_bytes key content w =
     (case content_stream content of
        Inl e \<Rightarrow> (Inl e, w)
      | Inr stream \<Rightarrow>
        (case artifact_storage_path io key of
           Inl e \<Rightarrow> (Inl e, w)
         | Inr destination \<Rightarrow>
             if \<not> io_stage io then (Inl (ArtifactRaised ArtifactStorageError), w)
             else
               (case copy_stream max_bytes stream [] of
                  Inl e \<Rightarrow> abandon_staged io e destination w
                | Inr bytes \<Rightarrow>
                    if \<not> io_write io then abandon_staged io (ArtifactRaised ArtifactStorageError) destination w
                    else (Inr (destination, temporary_path io destination, bytes),
                          w\<lparr>as_files := (as_files w)(temporary_path io destination \<mapsto> bytes)\<rparr>))))"

section \<open>Rows\<close>

definition artifact_row_ok :: "Artifact \<Rightarrow> bool" where
  "artifact_row_ok a \<longleftrightarrow> (case f_size a of None \<Rightarrow> True | Some n \<Rightarrow> n \<ge> 0)
     \<and> (f_status a = ARTIFACT_READY \<longrightarrow> f_size a \<noteq> None \<and> f_sha256 a \<noteq> None)"

definition artifact_table_ok :: "Artifact list \<Rightarrow> bool" where
  "artifact_table_ok rows \<longleftrightarrow> distinct (map f_artifact_id rows) \<and> distinct (map f_storage_key rows) \<and> list_all artifact_row_ok rows"

definition with_artifacts :: "Artifact list \<Rightarrow> artifact_store \<Rightarrow> artifact_store" where
  "with_artifacts rows w = w\<lparr>as_db := (as_db w)\<lparr>artifacts := rows\<rparr>\<rparr>"

definition stored_artifacts :: "artifact_store \<Rightarrow> Artifact list" where
  "stored_artifacts w = artifacts (as_db w)"

text \<open>What a commit of new rows leaves, and whether it raises.\<close>

definition commit_rows :: "commit_fate \<Rightarrow> Artifact list \<Rightarrow> artifact_store \<Rightarrow> bool \<times> artifact_store" where
  "commit_rows fate rows w =
     (case fate of Commits \<Rightarrow> (True, with_artifacts rows w) | CommitFails \<Rightarrow> (False, w) | CommitUnknown \<Rightarrow> (False, with_artifacts rows w))"

definition move_file :: "string list \<Rightarrow> string list \<Rightarrow> artifact_store \<Rightarrow> artifact_store" where
  "move_file source target w = w\<lparr>as_files := (as_files w)(source := None, target := as_files w source)\<rparr>"

definition best_effort_unlink :: "artifact_io \<Rightarrow> string list \<Rightarrow> artifact_store \<Rightarrow> artifact_store" where
  "best_effort_unlink io path w = (if io_unlink io then w\<lparr>as_files := (as_files w)(path := None)\<rparr> else w)"

definition best_effort_remove_content :: "artifact_io \<Rightarrow> string \<Rightarrow> artifact_store \<Rightarrow> artifact_store" where
  "best_effort_remove_content io key w =
     (case artifact_storage_path io key of Inl _ \<Rightarrow> w | Inr path \<Rightarrow> best_effort_unlink io path w)"

definition created_where :: "string \<Rightarrow> Artifact \<Rightarrow> bool" where
  "created_where artifact_id a = (f_artifact_id a = artifact_id \<and> f_status a = ARTIFACT_CREATED)"

definition mark_failed_if_created :: "artifact_io \<Rightarrow> string \<Rightarrow> artifact_store \<Rightarrow> bool artifact_outcome" where
  "mark_failed_if_created io artifact_id w =
     (let rows = update_where (created_where artifact_id) (\<lambda>a. a\<lparr>f_status := ARTIFACT_FAILED\<rparr>) (stored_artifacts w) in
      case commit_rows (io_fail_commit io) rows w of
        (True, w') \<Rightarrow> (Inr (rowcount (created_where artifact_id) (stored_artifacts w) = 1), w')
      | (False, w') \<Rightarrow> (Inl ArtifactDatabaseError, w'))"

text \<open>\<open>_mark_failed_if_created\<close> followed by \<open>raise\<close>: its own exception wins.\<close>

definition fail_created :: "artifact_io \<Rightarrow> string \<Rightarrow> artifact_failure \<Rightarrow> artifact_store \<Rightarrow> 'a artifact_outcome" where
  "fail_created io artifact_id e w =
     (case mark_failed_if_created io artifact_id w of (Inl e', w') \<Rightarrow> (Inl e', w') | (Inr _, w') \<Rightarrow> (Inl e, w'))"

definition required_row :: "string \<Rightarrow> artifact_store \<Rightarrow> artifact_failure + Artifact" where
  "required_row artifact_id w = map_sum ArtifactRaised id (required_artifact artifact_id (as_db w))"

definition reload_artifact :: "string \<Rightarrow> artifact_store \<Rightarrow> Artifact artifact_outcome" where
  "reload_artifact artifact_id w = (required_row artifact_id w, w)"

section \<open>Publishing\<close>

definition ready_values :: "string \<Rightarrow> string \<Rightarrow> Artifact \<Rightarrow> Artifact" where
  "ready_values key bytes a =
     a\<lparr>f_size := Some (int (length bytes)), f_sha256 := Some (sha256_hexdigest bytes), f_storage_key := key, f_status := ARTIFACT_READY\<rparr>"

definition cleanup_uncommitted_publish :: "artifact_io \<Rightarrow> string \<Rightarrow> string \<Rightarrow> string list \<Rightarrow> artifact_store \<Rightarrow> artifact_store" where
  "cleanup_uncommitted_publish io artifact_id key destination w =
     (case artifact_get artifact_id (as_db w) of
        Some current \<Rightarrow>
          if f_status current \<noteq> ARTIFACT_READY \<or> f_storage_key current \<noteq> key then best_effort_unlink io destination w else w
      | None \<Rightarrow> best_effort_unlink io destination w)"

definition publish ::
  "artifact_io \<Rightarrow> Artifact \<Rightarrow> string \<Rightarrow> string list \<Rightarrow> string list \<Rightarrow> string \<Rightarrow> artifact_store \<Rightarrow> Artifact artifact_outcome" where
  "publish io artifact key destination staged bytes w =
     (let i = f_artifact_id artifact; w1 = io_race io w;
          rows = update_where (created_where i) (ready_values key bytes) (stored_artifacts w1) in
      if rowcount (created_where i) (stored_artifacts w1) \<noteq> 1
      then
        (let w2 = best_effort_unlink io staged w1 in
         case required_row i w2 of
           Inl e \<Rightarrow> (Inl e, w2)
         | Inr current \<Rightarrow> (Inl (ArtifactRaised (ArtifactStateError (f_status current) ''mark_ready'')), w2))
      else if \<not> artifact_table_ok rows then (Inl ArtifactDatabaseError, best_effort_unlink io staged w1)
      else if \<not> io_publish io
      then fail_created io i (ArtifactRaised ArtifactStorageError) (best_effort_unlink io destination (best_effort_unlink io staged w1))
      else
        (let w2 = move_file staged destination w1 in
         if \<not> io_sync io
         then fail_created io i (ArtifactRaised ArtifactStorageError) (best_effort_unlink io destination (best_effort_unlink io staged w2))
         else
           (case commit_rows (io_commit io) rows w2 of
              (True, w3) \<Rightarrow> reload_artifact i w3
            | (False, w3) \<Rightarrow> (Inl ArtifactDatabaseError, cleanup_uncommitted_publish io i key destination w3))))"

definition mark_ready ::
  "artifact_io \<Rightarrow> nat \<Rightarrow> string \<Rightarrow> string \<Rightarrow> artifact_content \<Rightarrow> py_num option \<Rightarrow> string option \<Rightarrow> artifact_store \<Rightarrow> Artifact artifact_outcome" where
  "mark_ready io max_bytes uuid_hex artifact_id content expected_size expected_sha256 w =
     (case required_row artifact_id w of
        Inl e \<Rightarrow> (Inl e, w)
      | Inr artifact \<Rightarrow>
        (case require_status artifact ARTIFACT_CREATED ''mark_ready'' of
           Inl e \<Rightarrow> (Inl (ArtifactRaised e), w)
         | Inr _ \<Rightarrow>
        (case optionally (expected_size_of max_bytes) expected_size of
           Inl e \<Rightarrow> (Inl e, w)
         | Inr expected_size' \<Rightarrow>
        (case optionally sha256_digest expected_sha256 of
           Inl e \<Rightarrow> (Inl e, w)
         | Inr expected_sha \<Rightarrow>
             (let i = f_artifact_id artifact; key = ready_storage_key uuid_hex i in
              if (case bytes_like_size content of None \<Rightarrow> False | Some n \<Rightarrow> n > max_bytes)
              then fail_created io i (ArtifactSizeLimitError max_bytes) w
              else
                (case artifact_storage_path io (f_storage_key artifact) of
                   Inl e \<Rightarrow> fail_created io i e w
                 | Inr _ \<Rightarrow>
                   (case stage_content io max_bytes key content w of
                      (Inl e, w1) \<Rightarrow> fail_created io i e w1
                    | (Inr (destination, staged, bytes), w1) \<Rightarrow>
                        if (case expected_size' of None \<Rightarrow> False | Some n \<Rightarrow> n \<noteq> length bytes)
                        then fail_created io i ArtifactSizeMismatchError (best_effort_unlink io staged w1)
                        else if (case expected_sha of None \<Rightarrow> False | Some d \<Rightarrow> d \<noteq> sha256_hexdigest bytes)
                        then fail_created io i ArtifactHashMismatchError (best_effort_unlink io staged w1)
                        else publish io artifact key destination staged bytes w1)))))))"

section \<open>Creating\<close>

definition new_artifact :: "string \<Rightarrow> string \<Rightarrow> ArtifactKind \<Rightarrow> string \<Rightarrow> string \<Rightarrow> Artifact" where
  "new_artifact artifact_id response_id kind filename mime_type =
     \<lparr>f_artifact_id = artifact_id, f_response_id = response_id, f_kind = kind, f_filename = filename, f_mime_type = mime_type,
      f_size = None, f_sha256 = None, f_storage_key = artifact_storage_key artifact_id, f_status = ARTIFACT_CREATED\<rparr>"

definition insert_artifact :: "artifact_io \<Rightarrow> Artifact \<Rightarrow> artifact_store \<Rightarrow> unit artifact_outcome" where
  "insert_artifact io a w =
     (let rows = stored_artifacts w @ [a] in
      if \<not> artifact_table_ok rows then (Inl ArtifactDatabaseError, w)
      else
        (case commit_rows (io_fail_commit io) rows w of
           (True, w') \<Rightarrow> (Inr (), w') | (False, w') \<Rightarrow> (Inl ArtifactDatabaseError, w')))"

definition artifact_create ::
  "artifact_io \<Rightarrow> artifact_io \<Rightarrow> nat \<Rightarrow> string \<Rightarrow> string \<Rightarrow> string \<Rightarrow> string \<Rightarrow> string \<Rightarrow> string \<Rightarrow> artifact_content option
     \<Rightarrow> py_num option \<Rightarrow> string option \<Rightarrow> artifact_store \<Rightarrow> Artifact artifact_outcome"
where
  "artifact_create io io' max_bytes uuid uuid_hex response_id kind filename mime_type content expected_size expected_sha256 w =
     (case artifact_required_string response_id 255 of
        Inl e \<Rightarrow> (Inl (ArtifactRaised e), w)
      | Inr response \<Rightarrow>
     (case artifact_kind kind of
        Inl e \<Rightarrow> (Inl e, w)
      | Inr k \<Rightarrow>
     (case safe_filename filename of
        Inl e \<Rightarrow> (Inl e, w)
      | Inr name \<Rightarrow>
     (case artifact_required_string mime_type 255 of
        Inl e \<Rightarrow> (Inl (ArtifactRaised e), w)
      | Inr mime \<Rightarrow>
     (case optionally (expected_size_of max_bytes) expected_size of
        Inl e \<Rightarrow> (Inl e, w)
      | Inr _ \<Rightarrow>
     (case optionally sha256_digest expected_sha256 of
        Inl e \<Rightarrow> (Inl e, w)
      | Inr sha \<Rightarrow>
          if content = None \<and> (expected_size \<noteq> None \<or> expected_sha256 \<noteq> None)
          then (Inl (ArtifactRaised ArtifactValidationError), w)
          else
            (let a = new_artifact uuid response k name mime in
             case insert_artifact io a w of
               (Inl e, w1) \<Rightarrow> (Inl e, w1)
             | (Inr _, w1) \<Rightarrow>
                 (case content of
                    None \<Rightarrow> (Inr a, w1)
                  | Some c \<Rightarrow> mark_ready io' max_bytes uuid_hex uuid c expected_size sha w1))))))))"

section \<open>Failing and expiring\<close>

definition mark_failed :: "artifact_io \<Rightarrow> string \<Rightarrow> artifact_store \<Rightarrow> Artifact artifact_outcome" where
  "mark_failed io artifact_id w =
     (case required_row artifact_id w of
        Inl e \<Rightarrow> (Inl e, w)
      | Inr artifact \<Rightarrow>
          if f_status artifact = ARTIFACT_FAILED then (Inr artifact, w)
          else
            (case require_status artifact ARTIFACT_CREATED ''mark_failed'' of
               Inl e \<Rightarrow> (Inl (ArtifactRaised e), w)
             | Inr _ \<Rightarrow>
               (case mark_failed_if_created io (f_artifact_id artifact) (io_race io w) of
                  (Inl e, w1) \<Rightarrow> (Inl e, w1)
                | (Inr True, w1) \<Rightarrow>
                    reload_artifact (f_artifact_id artifact) (best_effort_remove_content io (f_storage_key artifact) w1)
                | (Inr False, w1) \<Rightarrow>
                    (case required_row (f_artifact_id artifact) w1 of
                       Inl e \<Rightarrow> (Inl e, w1)
                     | Inr current \<Rightarrow>
                         if f_status current = ARTIFACT_FAILED then (Inr current, w1)
                         else (Inl (ArtifactRaised (ArtifactStateError (f_status current) ''mark_failed'')), w1)))))"

definition unexpired_where :: "string \<Rightarrow> Artifact \<Rightarrow> bool" where
  "unexpired_where artifact_id a = (f_artifact_id a = artifact_id \<and> f_status a \<noteq> ARTIFACT_EXPIRED)"

text \<open>
  \<open>_quarantine_content\<close>: no content gives no quarantine; a failure to synchronise the directory
  moves the content back before it raises.
\<close>

definition quarantine_content ::
  "artifact_io \<Rightarrow> string \<Rightarrow> string \<Rightarrow> artifact_store \<Rightarrow> (string list \<times> string list) option artifact_outcome" where
  "quarantine_content io uuid_hex key w =
     (case artifact_storage_path io key of
        Inl e \<Rightarrow> (Inl e, w)
      | Inr source \<Rightarrow>
          (let quarantine = butlast source @ [''.expired-'' @ uuid_hex] in
           if as_files w source = None then (Inr None, w)
           else if \<not> io_publish io then (Inl (ArtifactRaised ArtifactStorageError), w)
           else if \<not> io_sync io
           then (Inl (ArtifactRaised ArtifactStorageError), if io_restore io then w else move_file source quarantine w)
           else (Inr (Some (source, quarantine)), move_file source quarantine w)))"

definition recover_failed_expiration ::
  "artifact_io \<Rightarrow> string \<Rightarrow> string list \<Rightarrow> string list \<Rightarrow> artifact_failure \<Rightarrow> artifact_store \<Rightarrow> 'a artifact_outcome" where
  "recover_failed_expiration io artifact_id source quarantine e w =
     (if rowcount (unexpired_where artifact_id) (stored_artifacts w) \<noteq> 1
      then
        (if io_unlink io then (Inl e, w\<lparr>as_files := (as_files w)(quarantine := None)\<rparr>)
         else (Inl (ArtifactRaised ArtifactStorageError), w))
      else if io_restore io then (Inl e, move_file quarantine source w)
      else (Inl (ArtifactRaised ArtifactStorageError), w))"

definition delete_quarantined_content ::
  "artifact_io \<Rightarrow> string list \<Rightarrow> string list \<Rightarrow> artifact_store \<Rightarrow> unit artifact_outcome" where
  "delete_quarantined_content io source quarantine w =
     (if io_unlink io then (Inr (), w\<lparr>as_files := (as_files w)(quarantine := None)\<rparr>)
      else (Inl (ArtifactRaised ArtifactStorageError), if io_restore io then move_file quarantine source w else w))"

definition expire :: "artifact_io \<Rightarrow> string \<Rightarrow> string \<Rightarrow> artifact_store \<Rightarrow> Artifact artifact_outcome" where
  "expire io uuid_hex artifact_id w =
     (case required_row artifact_id w of
        Inl e \<Rightarrow> (Inl e, w)
      | Inr artifact \<Rightarrow>
          if f_status artifact = ARTIFACT_EXPIRED
          then (Inr artifact, best_effort_remove_content io (f_storage_key artifact) w)
          else
            (let i = f_artifact_id artifact; w1 = io_race io w;
                 rows = update_where (unexpired_where i) (\<lambda>a. a\<lparr>f_status := ARTIFACT_EXPIRED\<rparr>) (stored_artifacts w1) in
             if rowcount (unexpired_where i) (stored_artifacts w1) \<noteq> 1
             then
               (case required_row i w1 of
                  Inl e \<Rightarrow> (Inl e, w1)
                | Inr current \<Rightarrow>
                    if f_status current = ARTIFACT_EXPIRED
                    then (Inr current, best_effort_remove_content io (f_storage_key current) w1)
                    else (Inl (ArtifactRaised (ArtifactStateError (f_status current) ''expire'')), w1))
             else
               (case quarantine_content io uuid_hex (f_storage_key artifact) w1 of
                  (Inl e, w2) \<Rightarrow> (Inl e, w2)
                | (Inr moved, w2) \<Rightarrow>
                    (case commit_rows (io_commit io) rows w2 of
                       (True, w3) \<Rightarrow>
                         (case moved of
                            None \<Rightarrow> reload_artifact i w3
                          | Some (source, quarantine) \<Rightarrow>
                              (case delete_quarantined_content io source quarantine w3 of
                                 (Inl e, w4) \<Rightarrow> (Inl e, w4)
                               | (Inr _, w4) \<Rightarrow> reload_artifact i w4))
                     | (False, w3) \<Rightarrow>
                         (case moved of
                            None \<Rightarrow> (Inl ArtifactDatabaseError, w3)
                          | Some (source, quarantine) \<Rightarrow>
                              recover_failed_expiration io i source quarantine ArtifactDatabaseError w3)))))"

definition list_for_response :: "string \<Rightarrow> artifact_store \<Rightarrow> artifact_failure + Artifact list" where
  "list_for_response response_id w =
     (case artifact_required_string response_id 255 of
        Inl e \<Rightarrow> Inl (ArtifactRaised e)
      | Inr r \<Rightarrow> Inr (sort_key f_artifact_id (filter (\<lambda>a. f_response_id a = r) (stored_artifacts w))))"

section \<open>Storage keys name paths\<close>

text \<open>The identifiers \<open>uuid4\<close> gives, in its two forms.\<close>

definition uuid_text :: "string \<Rightarrow> bool" where
  "uuid_text s \<longleftrightarrow> length s = 36 \<and> list_all (\<lambda>c. c \<in> set ''0123456789abcdef-'') s"

definition hex_text :: "string \<Rightarrow> bool" where
  "hex_text s \<longleftrightarrow> length s = 32 \<and> list_all (\<lambda>c. c \<in> set ''0123456789abcdef'') s"

definition artifact_keyed :: "Artifact \<Rightarrow> bool" where
  "artifact_keyed a \<longleftrightarrow> uuid_text (f_artifact_id a)
     \<and> (f_storage_key a = artifact_storage_key (f_artifact_id a)
        \<or> (\<exists>h. hex_text h \<and> f_storage_key a = ready_storage_key h (f_artifact_id a)))"

lemma split_slash_part: "CHR ''/'' \<notin> set p \<Longrightarrow> split_slash p = [p]"
  by (induction p) auto

lemma split_slash_append: "CHR ''/'' \<notin> set p \<Longrightarrow> split_slash (p @ CHR ''/'' # s) = p # split_slash s"
  by (induction p) auto

lemma double_slash_append:
  "CHR ''/'' \<notin> set p \<Longrightarrow> has_double_slash (p @ CHR ''/'' # s) \<longleftrightarrow> take 1 s = ''/'' \<or> has_double_slash s"
proof (induction p)
  case Nil
  then show ?case by (cases s) auto
next
  case (Cons c p)
  then show ?case by (cases p) auto
qed

lemma double_slash_none: "CHR ''/'' \<notin> set p \<Longrightarrow> \<not> has_double_slash p"
  by (induction p rule: has_double_slash.induct) auto

definition plain_text :: "string \<Rightarrow> bool" where
  "plain_text s \<longleftrightarrow> s \<noteq> [] \<and> list_all (\<lambda>c. c \<in> set ''0123456789abcdef-'') s"

lemma plain_text_chars:
  assumes "plain_text s"
  shows "CHR ''/'' \<notin> set s" "CHR 0x00 \<notin> set s" "CHR 0x5C \<notin> set s" "CHR '':'' \<notin> set s" "CHR ''.'' \<notin> set s" "s \<noteq> []"
    "s \<noteq> ''.''" "s \<noteq> ''..''" "hd s \<noteq> CHR ''.''" "take 1 s \<noteq> ''/''"
proof -
  have c: "c \<in> set ''0123456789abcdef-'' \<Longrightarrow> c \<noteq> CHR ''/'' \<and> c \<noteq> CHR 0x00 \<and> c \<noteq> CHR 0x5C \<and> c \<noteq> CHR '':'' \<and> c \<noteq> CHR ''.''" for c
    by auto
  have all: "c \<in> set ''0123456789abcdef-''" if "c \<in> set s" for c
    using that assms unfolding plain_text_def list_all_iff by blast
  show ne: "CHR ''/'' \<notin> set s" "CHR 0x00 \<notin> set s" "CHR 0x5C \<notin> set s" "CHR '':'' \<notin> set s" "CHR ''.'' \<notin> set s"
    using all c by blast+
  show n: "s \<noteq> []" using assms unfolding plain_text_def by blast
  show "s \<noteq> ''.''" "s \<noteq> ''..''" using ne(5) by auto
  show "hd s \<noteq> CHR ''.''" using ne(5) n hd_in_set by metis
  show "take 1 s \<noteq> ''/''" using ne(1) n by (cases s) auto
qed

lemma object_key_parts:
  assumes "plain_text p" "plain_text l"
  shows "storage_key_parts (''objects/'' @ p @ ''/'' @ l) = Inr [''objects'', p, l]"
proof -
  note c = plain_text_chars [OF assms(1)] plain_text_chars [OF assms(2)]
  have s: "split_slash (''objects/'' @ p @ ''/'' @ l) = [''objects'', p, l]"
    using split_slash_append [of "''objects''" "p @ ''/'' @ l"] split_slash_append [of p l] split_slash_part [of l] c by simp
  have d: "\<not> has_double_slash (''objects/'' @ p @ ''/'' @ l)"
    using double_slash_append [of "''objects''" "p @ ''/'' @ l"] double_slash_append [of p l] double_slash_none [of l] c by (cases p) auto
  show ?thesis unfolding storage_key_parts_def s Let_def using c d
    by (simp add: posix_absolute_def windows_drive_def)
qed

lemma uuid_plain:
  assumes "uuid_text i"
  shows "plain_text i \<and> plain_text (take 2 i)"
proof -
  have "length i = 36" and l: "list_all (\<lambda>c. c \<in> set ''0123456789abcdef-'') i" using assms unfolding uuid_text_def by blast+
  then have "i \<noteq> []" "take 2 i \<noteq> []" by auto
  moreover have "list_all (\<lambda>c. c \<in> set ''0123456789abcdef-'') (take 2 i)"
    using l unfolding list_all_iff by (meson in_set_takeD)
  ultimately show ?thesis using l unfolding plain_text_def by blast
qed
lemma ready_plain:
  assumes "uuid_text i" "hex_text h"
  shows "plain_text (i @ ''-'' @ h)"
proof -
  define ok where "ok = (\<lambda>c. c \<in> set ''0123456789abcdef-'')"
  have "list_all ok i" "i \<noteq> []" using assms(1) unfolding uuid_text_def ok_def by auto
  moreover have "c \<in> set ''0123456789abcdef'' \<Longrightarrow> ok c" for c unfolding ok_def by auto
  then have "list_all ok h" using assms(2) unfolding hex_text_def list_all_iff by blast
  moreover have "ok (CHR ''-'')" by (simp add: ok_def)
  ultimately show ?thesis unfolding plain_text_def ok_def [symmetric] by simp
qed

lemma keyed_path:
  assumes "artifact_keyed a"
  obtains l where "storage_key_parts (f_storage_key a) = Inr [''objects'', take 2 (f_artifact_id a), l]"
    "hd l \<noteq> CHR ''.''" "take 36 l = f_artifact_id a"
proof -
  let ?i = "f_artifact_id a"
  have u: "uuid_text ?i" and len: "length ?i = 36" using assms by (auto simp: artifact_keyed_def uuid_text_def)
  consider "f_storage_key a = artifact_storage_key ?i" | h where "hex_text h" "f_storage_key a = ready_storage_key h ?i"
    using assms by (auto simp: artifact_keyed_def)
  then show thesis
  proof cases
    case 1
    with object_key_parts [of "take 2 ?i" ?i] uuid_plain [OF u] plain_text_chars len that [of ?i] show thesis
      by (auto simp: artifact_storage_key_def)
  next
    case 2
    with object_key_parts [of "take 2 ?i" "?i @ ''-'' @ h"] uuid_plain [OF u] ready_plain [OF u] plain_text_chars(9) len
      that [of "?i @ ''-'' @ h"] show thesis
      by (auto simp: artifact_storage_key_def ready_storage_key_def)
  qed
qed

lemma ready_key_keyed: "uuid_text (f_artifact_id a) \<Longrightarrow> hex_text h \<Longrightarrow> artifact_keyed (ready_values (ready_storage_key h (f_artifact_id a)) bytes a)"
  by (auto simp: artifact_keyed_def ready_values_def)

section \<open>The invariant\<close>

definition content_ok :: "nat \<Rightarrow> (string list \<Rightarrow> string option) \<Rightarrow> Artifact \<Rightarrow> bool" where
  "content_ok max_bytes files a \<longleftrightarrow> (\<exists>parts bytes. storage_key_parts (f_storage_key a) = Inr parts \<and> files parts = Some bytes
     \<and> f_size a = Some (int (length bytes)) \<and> f_sha256 a = Some (sha256_hexdigest bytes) \<and> length bytes \<le> max_bytes)"

definition rows_stored :: "nat \<Rightarrow> Artifact list \<Rightarrow> (string list \<Rightarrow> string option) \<Rightarrow> bool" where
  "rows_stored max_bytes rows files \<longleftrightarrow> artifact_table_ok rows
     \<and> (\<forall>a\<in>set rows. artifact_keyed a \<and> (f_status a = ARTIFACT_READY \<longrightarrow> content_ok max_bytes files a))"

definition artifact_inv :: "nat \<Rightarrow> artifact_store \<Rightarrow> bool" where
  "artifact_inv max_bytes w \<longleftrightarrow> rows_stored max_bytes (stored_artifacts w) (as_files w)"

text \<open>No ready artifact lives at the path.\<close>

definition free_path :: "Artifact list \<Rightarrow> string list \<Rightarrow> bool" where
  "free_path rows p \<longleftrightarrow> (\<forall>a\<in>set rows. f_status a = ARTIFACT_READY \<longrightarrow> storage_key_parts (f_storage_key a) \<noteq> Inr p)"

lemma rows_stored_write: "rows_stored n rows files \<Longrightarrow> free_path rows p \<Longrightarrow> rows_stored n rows (files(p := x))"
  by (fastforce simp: rows_stored_def free_path_def content_ok_def)

lemma hidden_free:
  assumes "rows_stored n rows files" "hd (last p) = CHR ''.''"
  shows "free_path rows p"
  unfolding free_path_def
proof (intro ballI impI notI)
  fix a assume a: "a \<in> set rows" "storage_key_parts (f_storage_key a) = Inr p"
  then have "artifact_keyed a" using assms(1) by (simp add: rows_stored_def)
  with a(2) assms(2) show False by (auto elim!: keyed_path)
qed

lemma same_path_same_row:
  assumes "rows_stored n rows files" "b \<in> set rows" "artifact_keyed a" "storage_key_parts (f_storage_key a) = Inr p"
    "storage_key_parts (f_storage_key b) = Inr p"
  shows "f_artifact_id b = f_artifact_id a"
proof -
  have "artifact_keyed b" using assms(1,2) by (simp add: rows_stored_def)
  with assms(3-5) show ?thesis by (auto elim!: keyed_path)
qed

lemma keyed_status [simp]: "artifact_keyed (a\<lparr>f_status := s\<rparr>) = artifact_keyed a"
  by (simp add: artifact_keyed_def)

lemma own_path_free:
  assumes "rows_stored n rows files" "artifact_keyed a" "storage_key_parts (f_storage_key a) = Inr p"
    and "\<And>b. b \<in> set rows \<Longrightarrow> f_artifact_id b = f_artifact_id a \<Longrightarrow> f_status b \<noteq> ARTIFACT_READY"
  shows "free_path rows p"
  using assms(4) same_path_same_row [OF assms(1) _ assms(2,3)] unfolding free_path_def by blast

text \<open>Taking a row out of \<open>READY\<close>, or changing its status elsewhere, keeps the others stored.\<close>

lemma rows_stored_demote:
  assumes "rows_stored n rows files" "s \<noteq> ARTIFACT_READY"
  shows "rows_stored n (update_where q (\<lambda>a. a\<lparr>f_status := s\<rparr>) rows) files"
proof -
  let ?f = "\<lambda>a :: Artifact. a\<lparr>f_status := s\<rparr>"
  have "map f_artifact_id (update_where q ?f rows) = map f_artifact_id rows" "map f_storage_key (update_where q ?f rows) = map f_storage_key rows"
    by (simp_all add: map_key_update_where)
  with assms show ?thesis
    by (auto simp: rows_stored_def artifact_table_ok_def list_all_iff set_update_where artifact_row_ok_def)
qed

section \<open>The operations keep it\<close>

text \<open>
  Other sessions keep the invariant and leave the temporary files of this one alone, and a file
  that was moved aside can be moved back.
\<close>

definition artifact_polite :: "nat \<Rightarrow> artifact_io \<Rightarrow> bool" where
  "artifact_polite n io \<longleftrightarrow> io_restore io \<and> (\<forall>w. artifact_inv n w \<longrightarrow> artifact_inv n (io_race io w)
     \<and> (\<forall>p. hd (last p) = CHR ''.'' \<longrightarrow> as_files (io_race io w) p = as_files w p))"

lemma stored_artifacts_simps [simp]:
  "stored_artifacts (w\<lparr>as_files := fs\<rparr>) = stored_artifacts w" "stored_artifacts (with_artifacts rows w) = rows"
  "as_files (with_artifacts rows w) = as_files w" "stored_artifacts (move_file p q w) = stored_artifacts w"
  "stored_artifacts (best_effort_unlink io p w) = stored_artifacts w"
  by (simp_all add: stored_artifacts_def with_artifacts_def move_file_def best_effort_unlink_def)

lemma inv_write: "artifact_inv n w \<Longrightarrow> free_path (stored_artifacts w) p \<Longrightarrow> artifact_inv n (w\<lparr>as_files := (as_files w)(p := x)\<rparr>)"
  by (simp add: artifact_inv_def rows_stored_write)

lemma inv_unlink: "artifact_inv n w \<Longrightarrow> free_path (stored_artifacts w) p \<Longrightarrow> artifact_inv n (best_effort_unlink io p w)"
  by (simp add: best_effort_unlink_def inv_write)

lemma inv_hidden: "artifact_inv n w \<Longrightarrow> hd (last p) = CHR ''.'' \<Longrightarrow> free_path (stored_artifacts w) p"
  unfolding artifact_inv_def by (rule hidden_free)

lemma inv_keyed: "artifact_inv n w \<Longrightarrow> a \<in> set (stored_artifacts w) \<Longrightarrow> artifact_keyed a"
  by (simp add: artifact_inv_def rows_stored_def)

lemma inv_commit_rows:
  assumes "artifact_inv n w" "rows_stored n rows (as_files w)" "commit_rows fate rows w = (ok, w')"
  shows "artifact_inv n w'"
  using assms by (cases fate) (auto simp: commit_rows_def artifact_inv_def)

lemma mark_failed_if_created_inv:
  assumes "artifact_inv n w" "mark_failed_if_created io i w = (res, w')"
  shows "artifact_inv n w'"
proof -
  let ?rows = "update_where (created_where i) (\<lambda>a. a\<lparr>f_status := ARTIFACT_FAILED\<rparr>) (stored_artifacts w)"
  obtain ok w2 where c: "commit_rows (io_fail_commit io) ?rows w = (ok, w2)" by fastforce
  have "rows_stored n ?rows (as_files w)" using assms(1) rows_stored_demote by (simp add: artifact_inv_def)
  from inv_commit_rows [OF assms(1) this c] assms(2) c show ?thesis
    by (cases ok) (auto simp: mark_failed_if_created_def Let_def)
qed

lemma fail_created_inv: "artifact_inv n w \<Longrightarrow> fail_created io i e w = (res, w') \<Longrightarrow> artifact_inv n w'"
  by (auto simp: fail_created_def split: prod.splits sum.splits dest: mark_failed_if_created_inv)

lemma required_row_Inr:
  assumes "required_row i w = Inr a"
  shows "a \<in> set (stored_artifacts w) \<and> f_artifact_id a = py_strip i"
  using assms by (auto simp: required_row_def required_artifact_def artifact_required_string_def artifact_get_def stored_artifacts_def
      Let_def map_sum_def dest!: lookup_by_Some split: sum.splits option.splits if_splits)

lemma artifact_storage_path_Inr: "artifact_storage_path io key = Inr p \<Longrightarrow> storage_key_parts key = Inr p \<and> io_inside io p"
  by (auto simp: artifact_storage_path_def storage_path_def map_sum_def split: sum.splits if_splits)

lemma copy_stream_Inr: "copy_stream n items written = Inr bytes \<Longrightarrow> length written \<le> n \<Longrightarrow> length bytes \<le> n"
  by (induction n items written rule: copy_stream.induct) (auto split: if_splits)

lemma stage_content_Inr:
  assumes "stage_content io n key content w = (Inr (destination, staged, bytes), w')"
  shows "storage_key_parts key = Inr destination \<and> io_inside io destination \<and> staged = temporary_path io destination \<and> length bytes \<le> n
    \<and> w' = w\<lparr>as_files := (as_files w)(staged \<mapsto> bytes)\<rparr>
    \<and> (\<exists>stream. content_stream content = Inr stream \<and> copy_stream n stream [] = Inr bytes)"
  using assms by (auto simp: stage_content_def abandon_staged_def dest: copy_stream_Inr dest!: artifact_storage_path_Inr
      split: sum.splits if_splits)

lemma temporary_hidden: "hd (last (temporary_path io p)) = CHR ''.''"
  by (simp add: temporary_path_def)

lemma stage_content_Inl: "stage_content io n key content w = (Inl e, w') \<Longrightarrow> artifact_inv n w \<Longrightarrow> artifact_inv n w'"
  by (auto simp: stage_content_def abandon_staged_def temporary_hidden intro!: inv_write inv_hidden split: sum.splits if_splits)

subsection \<open>Publication\<close>

lemma created_row_unique:
  assumes "artifact_inv n w" "rowcount (created_where i) (stored_artifacts w) = 1"
  obtains r where "r \<in> set (stored_artifacts w)" "f_artifact_id r = i" "f_status r = ARTIFACT_CREATED"
    "\<forall>b\<in>set (stored_artifacts w). f_artifact_id b = i \<longrightarrow> b = r"
proof -
  have d: "distinct (map f_artifact_id (stored_artifacts w))" using assms(1) by (simp add: artifact_inv_def rows_stored_def artifact_table_ok_def)
  from assms(2) obtain r where "r \<in> set (stored_artifacts w)" "created_where i r"
    using rowcount_0_iff [of "created_where i" "stored_artifacts w"] by force
  then have "f_artifact_id r = i" "f_status r = ARTIFACT_CREATED" "\<forall>b\<in>set (stored_artifacts w). f_artifact_id b = i \<longrightarrow> b = r"
    using distinct_key_eq [OF d] by (auto simp: created_where_def)
  with \<open>r \<in> set (stored_artifacts w)\<close> show thesis by (rule that)
qed

lemma published_rows:
  assumes inv: "artifact_inv n w" and one: "rowcount (created_where i) (stored_artifacts w) = 1"
    and h: "uuid_text i" "hex_text h" and key: "storage_key_parts (ready_storage_key h i) = Inr destination"
    and ok: "artifact_table_ok (update_where (created_where i) (ready_values (ready_storage_key h i) bytes) (stored_artifacts w))"
    and "length bytes \<le> n" "hd (last staged) = CHR ''.''" "as_files w staged = Some bytes"
  shows "free_path (stored_artifacts w) destination"
    and "rows_stored n (update_where (created_where i) (ready_values (ready_storage_key h i) bytes) (stored_artifacts w))
           (as_files (move_file staged destination w))"
proof -
  obtain r where r: "r \<in> set (stored_artifacts w)" "f_artifact_id r = i" "f_status r = ARTIFACT_CREATED"
      "\<forall>b\<in>set (stored_artifacts w). f_artifact_id b = i \<longrightarrow> b = r"
    by (rule created_row_unique [OF inv one])
  let ?new = "ready_values (ready_storage_key h i) bytes"
  have new: "artifact_keyed (?new r)" using ready_key_keyed [of r h bytes] h r(2) by simp
  have path: "storage_key_parts (f_storage_key (?new r)) = Inr destination" "f_artifact_id (?new r) = i"
    using key r(2) by (simp_all add: ready_values_def)
  show free: "free_path (stored_artifacts w) destination"
  proof (rule own_path_free [OF inv [unfolded artifact_inv_def] new path(1)])
    fix b assume "b \<in> set (stored_artifacts w)" "f_artifact_id b = f_artifact_id (?new r)"
    with r(3,4) path(2) show "f_status b \<noteq> ARTIFACT_READY" by auto
  qed
  have mem: "x = ?new r \<or> x \<in> set (stored_artifacts w)" if "x \<in> set (update_where (created_where i) ?new (stored_artifacts w))" for x
    using that r(4) by (auto simp: set_update_where created_where_def)
  let ?files = "as_files (move_file staged destination w)"
  have files: "?files destination = Some bytes" "\<And>p. p \<noteq> destination \<Longrightarrow> p \<noteq> staged \<Longrightarrow> ?files p = as_files w p"
    using assms(9) by (auto simp: move_file_def)
  have "content_ok n ?files (?new r)" using path(1) files(1) assms(7) unfolding content_ok_def ready_values_def by auto
  moreover have "content_ok n ?files b" if b: "b \<in> set (stored_artifacts w)" "f_status b = ARTIFACT_READY" for b
  proof -
    have "content_ok n (as_files w) b" using inv b by (simp add: artifact_inv_def rows_stored_def)
    then obtain parts x where x: "storage_key_parts (f_storage_key b) = Inr parts" "as_files w parts = Some x"
        "f_size b = Some (int (length x))" "f_sha256 b = Some (sha256_hexdigest x)" "length x \<le> n" by (auto simp: content_ok_def)
    with b free inv_hidden [OF inv assms(8)] have "parts \<noteq> destination" "parts \<noteq> staged" by (auto simp: free_path_def)
    with x files(2) show ?thesis unfolding content_ok_def by metis
  qed
  ultimately show "rows_stored n (update_where (created_where i) ?new (stored_artifacts w)) ?files"
    using ok new inv_keyed [OF inv] mem unfolding rows_stored_def by metis
qed

lemma cleanup_inv:
  assumes inv: "artifact_inv n w" and a: "artifact_keyed a" "storage_key_parts (f_storage_key a) = Inr destination"
  shows "artifact_inv n (cleanup_uncommitted_publish io (f_artifact_id a) (f_storage_key a) destination w)"
proof -
  have d: "distinct (map f_artifact_id (stored_artifacts w))" using inv by (simp add: artifact_inv_def rows_stored_def artifact_table_ok_def)
  have free: "free_path (stored_artifacts w) destination"
    if "\<And>b. artifact_get (f_artifact_id a) (as_db w) = Some b \<Longrightarrow> f_status b \<noteq> ARTIFACT_READY \<or> f_storage_key b \<noteq> f_storage_key a"
    unfolding free_path_def
  proof (intro ballI impI notI)
    fix b assume b: "b \<in> set (stored_artifacts w)" "f_status b = ARTIFACT_READY" "storage_key_parts (f_storage_key b) = Inr destination"
    have "f_artifact_id b = f_artifact_id a" using same_path_same_row [OF inv [unfolded artifact_inv_def] b(1) a b(3)] .
    then have "artifact_get (f_artifact_id a) (as_db w) = Some b"
      using lookup_by_distinct [OF d b(1)] by (simp add: artifact_get_def stored_artifacts_def)
    with that b(2) have "f_storage_key b \<noteq> f_storage_key a" by blast
    with storage_key_parts_Inr(1) [OF b(3)] storage_key_parts_Inr(1) [OF a(2)] show False by simp
  qed
  show ?thesis
    by (auto simp: cleanup_uncommitted_publish_def split: option.splits if_splits intro!: inv inv_unlink [OF inv] free)
qed

lemma publish_inv:
  assumes p: "artifact_polite n io" and inv: "artifact_inv n w" and h: "uuid_text (f_artifact_id a)" "hex_text h"
    and key: "storage_key_parts (ready_storage_key h (f_artifact_id a)) = Inr destination" and "length bytes \<le> n"
    and staged: "hd (last staged) = CHR ''.''" "as_files w staged = Some bytes"
    and e: "publish io a (ready_storage_key h (f_artifact_id a)) destination staged bytes w = (res, w')"
  shows "artifact_inv n w'"
proof -
  let ?i = "f_artifact_id a" and ?w = "io_race io w"
  let ?rows = "update_where (created_where ?i) (ready_values (ready_storage_key h ?i) bytes) (stored_artifacts ?w)"
  have inv1: "artifact_inv n ?w" and st: "as_files ?w staged = Some bytes" using p inv staged by (auto simp: artifact_polite_def)
  note hid = inv_hidden [OF inv1 staged(1)]
  have un: "artifact_inv n (best_effort_unlink io staged ?w)" by (rule inv_unlink [OF inv1 hid])
  show ?thesis
  proof (cases "rowcount (created_where ?i) (stored_artifacts ?w) = 1 \<and> artifact_table_ok ?rows")
    case False
    with e un show ?thesis by (auto simp: publish_def Let_def split: if_splits sum.splits)
  next
    case True
    then have one: "rowcount (created_where ?i) (stored_artifacts ?w) = 1" and ok: "artifact_table_ok ?rows" by auto
    note pub = published_rows [OF inv1 one h key ok assms(6) staged(1) st]
    let ?moved = "move_file staged destination ?w"
    have mv: "artifact_inv n ?moved"
      using inv_write [OF inv_write [OF inv1 hid, of None], of destination "Some bytes"] pub(1) st by (simp add: move_file_def)
    have drop: "artifact_inv n (best_effort_unlink io destination (best_effort_unlink io staged u))"
      if "artifact_inv n u" "stored_artifacts u = stored_artifacts ?w" for u
      by (intro inv_unlink that(1) inv_hidden [OF that(1) staged(1)]) (simp add: that(2) pub(1))
    show ?thesis
    proof (cases "io_publish io \<and> io_sync io")
      case False
      with e one ok drop [OF inv1] drop [OF mv] show ?thesis
        by (auto simp: publish_def Let_def split: if_splits dest!: fail_created_inv [rotated])
    next
      case True
      obtain good w3 where c: "commit_rows (io_commit io) ?rows ?moved = (good, w3)" by fastforce
      have w3: "artifact_inv n w3" by (rule inv_commit_rows [OF mv pub(2) c])
      have clean: "artifact_inv n (cleanup_uncommitted_publish io ?i (ready_storage_key h ?i) destination w3)"
        using cleanup_inv [OF w3, of "ready_values (ready_storage_key h ?i) bytes a" destination io] ready_key_keyed [OF h] key by (simp add: ready_values_def)
      from e one ok True c w3 clean show ?thesis
        by (cases good) (auto simp: publish_def Let_def reload_artifact_def)
    qed
  qed
qed

lemma mark_ready_inv:
  assumes p: "artifact_polite n io" and inv: "artifact_inv n w" and h: "hex_text h"
    and e: "mark_ready io n h artifact_id content expected_size expected_sha256 w = (res, w')"
  shows "artifact_inv n w'"
proof (cases "required_row artifact_id w")
  case (Inl x)
  with e inv show ?thesis by (auto simp: mark_ready_def)
next
  case (Inr a)
  have u: "uuid_text (f_artifact_id a)" using required_row_Inr [OF Inr] inv_keyed [OF inv, of a] unfolding artifact_keyed_def by blast
  let ?key = "ready_storage_key h (f_artifact_id a)"
  have staged: "artifact_inv n w1 \<and> artifact_inv n (best_effort_unlink io staged w1) \<and> storage_key_parts ?key = Inr d
      \<and> length bytes \<le> n \<and> hd (last staged) = CHR ''.'' \<and> as_files w1 staged = Some bytes"
    if "stage_content io n ?key content w = (Inr (d, staged, bytes), w1)" for d staged bytes w1
  proof -
    note f = stage_content_Inr [OF that]
    have hid: "hd (last staged) = CHR ''.''" using f temporary_hidden by simp
    have w1: "w1 = w\<lparr>as_files := (as_files w)(staged \<mapsto> bytes)\<rparr>" using f by blast
    have i: "artifact_inv n w1" unfolding w1 by (rule inv_write [OF inv inv_hidden [OF inv hid]])
    from inv_unlink [OF i inv_hidden [OF i hid]] i f hid w1 show ?thesis by simp
  qed
  show ?thesis using e Inr inv unfolding mark_ready_def
    by (auto simp: Let_def dest!: fail_created_inv [rotated] publish_inv [OF p _ u h, rotated -1] stage_content_Inl staged
        split: sum.splits if_splits prod.splits)
qed

lemma insert_artifact_inv:
  assumes inv: "artifact_inv n w" and u: "uuid_text i" and e: "insert_artifact io (new_artifact i r k f t) w = (res, w')"
  shows "artifact_inv n w'"
proof (cases "artifact_table_ok (stored_artifacts w @ [new_artifact i r k f t])")
  case True
  have "rows_stored n (stored_artifacts w @ [new_artifact i r k f t]) (as_files w)"
    using True inv u by (auto simp: artifact_inv_def rows_stored_def artifact_keyed_def new_artifact_def)
  moreover obtain ok w2 where c: "commit_rows (io_fail_commit io) (stored_artifacts w @ [new_artifact i r k f t]) w = (ok, w2)" by fastforce
  ultimately have "artifact_inv n w2" using inv_commit_rows [OF inv] by blast
  with True c e show ?thesis by (cases ok) (auto simp: insert_artifact_def Let_def)
next
  case False
  with e inv show ?thesis by (simp add: insert_artifact_def Let_def)
qed

lemma artifact_create_inv:
  assumes p: "artifact_polite n io'" and inv: "artifact_inv n w" and h: "uuid_text uuid" "hex_text h"
    and e: "artifact_create io io' n uuid h r k f t content expected_size expected_sha256 w = (res, w')"
  shows "artifact_inv n w'"
  using e inv unfolding artifact_create_def
  by (auto simp: Let_def dest!: mark_ready_inv [OF p _ h(2), rotated -1] dest: insert_artifact_inv [OF inv h(1)]
      split: sum.splits if_splits prod.splits option.splits)

subsection \<open>Failure and expiry\<close>

lemma remove_content_inv:
  assumes inv: "artifact_inv n w" and a: "artifact_keyed a"
    and no: "\<And>b. b \<in> set (stored_artifacts w) \<Longrightarrow> f_artifact_id b = f_artifact_id a \<Longrightarrow> f_status b \<noteq> ARTIFACT_READY"
  shows "artifact_inv n (best_effort_remove_content io (f_storage_key a) w)"
proof (cases "artifact_storage_path io (f_storage_key a)")
  case (Inr p)
  have "free_path (stored_artifacts w) p"
    using own_path_free [OF inv [unfolded artifact_inv_def] a] artifact_storage_path_Inr [OF Inr] no by blast
  with inv_unlink [OF inv] Inr show ?thesis by (simp add: best_effort_remove_content_def)
qed (simp add: best_effort_remove_content_def inv)

lemma mark_failed_inv:
  assumes p: "artifact_polite n io" and inv: "artifact_inv n w" and e: "mark_failed io artifact_id w = (res, w')"
  shows "artifact_inv n w'"
proof (cases "required_row artifact_id w")
  case (Inl x)
  with e inv show ?thesis by (auto simp: mark_failed_def)
next
  case (Inr a)
  have keyed: "artifact_keyed a" using required_row_Inr [OF Inr] inv_keyed [OF inv] by blast
  have inv1: "artifact_inv n (io_race io w)" using p inv by (simp add: artifact_polite_def)
  obtain r w1 where r: "mark_failed_if_created io (f_artifact_id a) (io_race io w) = (r, w1)" by fastforce
  have w1: "artifact_inv n w1" by (rule mark_failed_if_created_inv [OF inv1 r])
  have "artifact_inv n (best_effort_remove_content io (f_storage_key a) w1)" if "r = Inr True"
  proof (rule remove_content_inv [OF w1 keyed])
    fix b assume b: "b \<in> set (stored_artifacts w1)" "f_artifact_id b = f_artifact_id a"
    have one: "rowcount (created_where (f_artifact_id a)) (stored_artifacts (io_race io w)) = 1"
      and rows: "stored_artifacts w1 = update_where (created_where (f_artifact_id a)) (\<lambda>a. a\<lparr>f_status := ARTIFACT_FAILED\<rparr>) (stored_artifacts (io_race io w))"
      using r that by (auto simp: mark_failed_if_created_def commit_rows_def Let_def split: prod.splits bool.splits commit_fate.splits)
    obtain c where "f_status c = ARTIFACT_CREATED" "\<forall>b\<in>set (stored_artifacts (io_race io w)). f_artifact_id b = f_artifact_id a \<longrightarrow> b = c"
      by (rule created_row_unique [OF inv1 one]) blast
    with b rows show "f_status b \<noteq> ARTIFACT_READY" by (auto simp: set_update_where)
  qed
  with e Inr r w1 inv show ?thesis
    by (auto simp: mark_failed_def reload_artifact_def split: if_splits sum.splits bool.splits)
qed

lemma expired_row_rows:
  assumes "b \<in> set (update_where (unexpired_where i) (\<lambda>a. a\<lparr>f_status := ARTIFACT_EXPIRED\<rparr>) rows)" "f_artifact_id b = i"
  shows "f_status b = ARTIFACT_EXPIRED"
proof -
  from assms(1) obtain a where "b = (if unexpired_where i a then a\<lparr>f_status := ARTIFACT_EXPIRED\<rparr> else a)"
    unfolding set_update_where by blast
  with assms(2) show ?thesis by (auto simp: unexpired_where_def split: if_splits)
qed

lemma quarantine_hidden: "hd (last (butlast source @ [''.expired-'' @ h])) = CHR ''.''"
  by simp

lemma expire_inv:
  assumes p: "artifact_polite n io" and inv: "artifact_inv n w" and e: "expire io h artifact_id w = (res, w')"
  shows "artifact_inv n w'"
proof (cases "required_row artifact_id w")
  case (Inl x)
  with e inv show ?thesis by (auto simp: expire_def)
next
  case (Inr a)
  have mem: "a \<in> set (stored_artifacts w)" and keyed: "artifact_keyed a"
    using required_row_Inr [OF Inr] inv_keyed [OF inv] by blast+
  have d: "distinct (map f_artifact_id (stored_artifacts v))" if "artifact_inv n v" for v
    using that by (simp add: artifact_inv_def rows_stored_def artifact_table_ok_def)
  have gone: "artifact_inv n (best_effort_remove_content io (f_storage_key b) v)"
    if v: "artifact_inv n v" "b \<in> set (stored_artifacts v)" "f_status b = ARTIFACT_EXPIRED" for b v
  proof (rule remove_content_inv [OF v(1) inv_keyed [OF v(1,2)]])
    fix c assume "c \<in> set (stored_artifacts v)" "f_artifact_id c = f_artifact_id b"
    with distinct_key_eq [OF d [OF v(1)]] v(2,3) show "f_status c \<noteq> ARTIFACT_READY" by force
  qed
  show ?thesis
  proof (cases "f_status a = ARTIFACT_EXPIRED")
    case True
    with e Inr gone [OF inv mem] show ?thesis by (simp add: expire_def)
  next
    case live: False
    let ?i = "f_artifact_id a" and ?w = "io_race io w"
    let ?rows = "update_where (unexpired_where ?i) (\<lambda>a. a\<lparr>f_status := ARTIFACT_EXPIRED\<rparr>) (stored_artifacts ?w)"
    have inv1: "artifact_inv n ?w" and restore: "io_restore io" using p inv by (auto simp: artifact_polite_def)
    have rows: "rows_stored n ?rows (as_files ?w)" using inv1 rows_stored_demote by (simp add: artifact_inv_def)
    show ?thesis
    proof (cases "rowcount (unexpired_where ?i) (stored_artifacts ?w) = 1")
      case False
      show ?thesis
      proof (cases "required_row ?i ?w")
        case (Inr c)
        have "c \<in> set (stored_artifacts ?w)" using required_row_Inr [OF Inr] by blast
        with Inr False e \<open>required_row artifact_id w = Inr a\<close> live inv1 gone [OF inv1] show ?thesis
          by (auto simp: expire_def Let_def split: if_splits)
      qed (use False e Inr live inv1 in \<open>simp add: expire_def Let_def\<close>)
    next
      case True
      obtain r w2 where q: "quarantine_content io h (f_storage_key a) ?w = (r, w2)" by fastforce
      obtain good w3 where c: "commit_rows (io_commit io) ?rows w2 = (good, w3)" by fastforce
      consider (raised) x where "r = Inl x" "w2 = ?w" | (none) "r = Inr None" "w2 = ?w"
        | (moved) source where "r = Inr (Some (source, butlast source @ [''.expired-'' @ h]))"
            "w2 = move_file source (butlast source @ [''.expired-'' @ h]) ?w" "storage_key_parts (f_storage_key a) = Inr source"
        using q restore by (auto simp: quarantine_content_def Let_def dest!: artifact_storage_path_Inr split: sum.splits if_splits)
      then show ?thesis
      proof cases
        case raised
        with e Inr live True q inv1 show ?thesis by (simp add: expire_def Let_def)
      next
        case none
        with inv_commit_rows [OF inv1 rows] c have "artifact_inv n w3" by simp
        with e Inr live True q none c show ?thesis by (cases good) (auto simp: expire_def Let_def reload_artifact_def)
      next
        case moved
        let ?q = "butlast source @ [''.expired-'' @ h]"
        have free: "free_path ?rows source" using own_path_free [OF rows keyed moved(3)] expired_row_rows by fastforce
        have hid: "free_path ?rows ?q" by (rule hidden_free [OF rows quarantine_hidden])
        have rows2: "rows_stored n ?rows ((as_files ?w)(source := x, ?q := y))" for x y
          by (intro rows_stored_write rows free hid)
        have undone: "artifact_inv n (move_file ?q source w2)"
        proof -
          have "source \<noteq> ?q" using keyed_path [OF keyed] moved(3) quarantine_hidden by (metis last.simps list.distinct(1) sum.inject(2))
          then have "as_files (move_file ?q source w2) = (as_files ?w)(?q := None)"
            by (auto simp: moved(2) move_file_def fun_eq_iff)
          with inv_write [OF inv1 inv_hidden [OF inv1 quarantine_hidden, of source h], where x = None] moved(2) show ?thesis
            by (simp add: artifact_inv_def)
        qed
        have w2: "as_files w2 = (as_files ?w)(source := None, ?q := as_files ?w source)" "stored_artifacts w2 = stored_artifacts ?w"
          by (simp_all add: moved(2) move_file_def)
        have gone: "artifact_inv n v" if "stored_artifacts v = ?rows" "\<And>p. p \<noteq> source \<Longrightarrow> p \<noteq> ?q \<Longrightarrow> as_files v p = as_files ?w p" for v
        proof -
          have "as_files v = (as_files ?w)(source := as_files v source, ?q := as_files v ?q)" using that(2) by (auto simp: fun_eq_iff)
          with rows2 [of "as_files v source" "as_files v ?q"] that(1) show ?thesis by (simp add: artifact_inv_def)
        qed
        have none: "rowcount (unexpired_where ?i) ?rows \<noteq> 1"
          using expired_row_rows [of _ ?i "stored_artifacts ?w"] rowcount_0_iff [of "unexpired_where ?i" ?rows]
          by (metis One_nat_def nat.distinct(1) unexpired_where_def)
        have del: "artifact_inv n v" if "stored_artifacts u = ?rows" "as_files u = as_files w2" "delete_quarantined_content io source ?q u = (x, v)" for u v x
          by (rule gone) (use that w2(1) in \<open>auto simp: delete_quarantined_content_def move_file_def split: if_splits\<close>)
        show ?thesis
        proof (cases "io_commit io")
          case Commits
          then have "good" "w3 = with_artifacts ?rows w2" using c by (auto simp: commit_rows_def)
          with e Inr live True q moved(1) c del [of w3] show ?thesis
            by (auto simp: expire_def Let_def reload_artifact_def split: prod.splits sum.splits)
        next
          case CommitFails
          then have "\<not> good" "w3 = w2" using c by (auto simp: commit_rows_def)
          with e Inr live True q moved(1) c undone restore w2(2) show ?thesis
            by (auto simp: expire_def Let_def recover_failed_expiration_def)
        next
          case CommitUnknown
          then have "\<not> good" "w3 = with_artifacts ?rows w2" using c by (auto simp: commit_rows_def)
          with e Inr live True q moved(1) c none show ?thesis
            by (intro gone) (auto simp: expire_def Let_def recover_failed_expiration_def w2(1) split: if_splits)
        qed
      qed
    qed
  qed
qed

end
