(* ===== verification/Artifact_Runs.thy ===== *)
theory Artifact_Runs
  imports Artifact_Writes
begin

text \<open>
  The runs of the artifact repository and what reading gives in them: every ready artifact reads
  back, and publishing stores exactly the content it was given.
\<close>

section \<open>Runs\<close>

text \<open>
  Any number of sessions work on the repository. Every file operation and every commit may
  fail, a commit may also be applied although it raised; only moving a file back succeeds.
\<close>

inductive artifact_step :: "nat \<Rightarrow> artifact_store \<Rightarrow> artifact_store \<Rightarrow> bool" for n where
  create: "artifact_create io io' n uuid h r k f t content expected_size expected_sha256 w = (res, w') \<Longrightarrow> artifact_polite n io'
     \<Longrightarrow> uuid_text uuid \<Longrightarrow> hex_text h \<Longrightarrow> artifact_step n w w'"
| ready: "mark_ready io n h artifact_id content expected_size expected_sha256 w = (res, w') \<Longrightarrow> artifact_polite n io \<Longrightarrow> hex_text h
     \<Longrightarrow> artifact_step n w w'"
| failed: "mark_failed io artifact_id w = (res, w') \<Longrightarrow> artifact_polite n io \<Longrightarrow> artifact_step n w w'"
| expired: "expire io h artifact_id w = (res, w') \<Longrightarrow> artifact_polite n io \<Longrightarrow> artifact_step n w w'"

lemma artifact_step_inv: "artifact_step n w w' \<Longrightarrow> artifact_inv n w \<Longrightarrow> artifact_inv n w'"
  by (induction rule: artifact_step.induct) (blast intro: artifact_create_inv mark_ready_inv mark_failed_inv expire_inv)+

lemma artifact_run_inv: "(artifact_step n)\<^sup>*\<^sup>* w w' \<Longrightarrow> artifact_inv n w \<Longrightarrow> artifact_inv n w'"
  by (induction rule: rtranclp_induct) (auto intro: artifact_step_inv)

lemma no_artifacts_inv: "stored_artifacts w = [] \<Longrightarrow> artifact_inv n w"
  by (simp add: artifact_inv_def rows_stored_def artifact_table_ok_def)

section \<open>Reading back\<close>

definition file_view :: "artifact_store \<Rightarrow> string list \<Rightarrow> file_state" where
  "file_view w p = (case as_files w p of None \<Rightarrow> FileAbsent | Some bytes \<Rightarrow> FileBytes bytes)"

lemma plain_char: "c \<in> set ''0123456789abcdef-'' \<Longrightarrow> \<not> py_isspace c \<and> \<not> (of_char c :: nat) < 32"
  by (auto simp: py_isspace_def)

lemma plain_required:
  assumes "plain_text s" "length s \<le> n"
  shows "artifact_required_string s n = Inr s"
proof -
  have all: "\<not> py_isspace c \<and> \<not> (of_char c :: nat) < 32" if "c \<in> set s" for c
    using that assms(1) plain_char unfolding plain_text_def list_all_iff by blast
  have "dropWhile py_isspace t = t" if "set t \<subseteq> set s" for t using that all by (cases t) auto
  then have "py_strip s = s" by (simp add: py_strip_def)
  moreover have "nonblank s" using all plain_text_chars(6) [OF assms(1)] by (cases s) (auto simp: nonblank_iff)
  ultimately show ?thesis using all assms(2) by (simp add: artifact_required_string_def Let_def list_ex_iff)
qed

lemma ready_is_readable:
  assumes inv: "artifact_inv n w" and a: "a \<in> set (stored_artifacts w)" "f_status a = ARTIFACT_READY"
    and inside: "\<And>parts. storage_key_parts (f_storage_key a) = Inr parts \<Longrightarrow> inside parts"
  obtains parts bytes where "storage_key_parts (f_storage_key a) = Inr parts" "as_files w parts = Some bytes"
    "f_size a = Some (int (length bytes))" "f_sha256 a = Some (sha256_hexdigest bytes)"
    "artifact_read inside (file_view w) n (f_artifact_id a) (as_db w) = Inr bytes"
proof -
  have u: "uuid_text (f_artifact_id a)" using inv_keyed [OF inv a(1)] by (simp add: artifact_keyed_def)
  then have "artifact_required_string (f_artifact_id a) 36 = Inr (f_artifact_id a)"
    using plain_required uuid_plain by (simp add: uuid_text_def)
  moreover have "artifact_get (f_artifact_id a) (as_db w) = Some a"
    using inv a(1) lookup_by_distinct [of f_artifact_id "stored_artifacts w" a]
    by (simp add: artifact_get_def stored_artifacts_def artifact_inv_def rows_stored_def artifact_table_ok_def)
  ultimately have row: "required_artifact (f_artifact_id a) (as_db w) = Inr a" by (simp add: required_artifact_def)
  have "content_ok n (as_files w) a" using inv a by (simp add: artifact_inv_def rows_stored_def)
  then obtain parts bytes where c: "storage_key_parts (f_storage_key a) = Inr parts" "as_files w parts = Some bytes"
      "f_size a = Some (int (length bytes))" "f_sha256 a = Some (sha256_hexdigest bytes)" "length bytes \<le> n"
    by (auto simp: content_ok_def)
  have "artifact_read inside (file_view w) n (f_artifact_id a) (as_db w) = Inr bytes"
    using row a(2) c inside [OF c(1)]
    by (simp add: artifact_read_def require_status_def read_content_def storage_path_def file_view_def Let_def)
  with c that show thesis by blast
qed

lemma copy_chunks:
  assumes "0 < k"
  shows "copy_stream n (chunks k b) written =
    (if b \<noteq> [] \<and> length written + length b > n then Inl (ArtifactSizeLimitError n) else Inr (written @ b))"
  using assms
proof (induction k b arbitrary: written rule: chunks.induct)
  case (2 k c cs)
  obtain x xs where x: "take k (c # cs) = x # xs" using 2 by (cases k) auto
  have len: "length (x # xs) + length (drop k (c # cs)) = Suc (length cs)" "(x # xs) @ drop k (c # cs) = c # cs"
    unfolding x [symmetric] by auto
  show ?case
  proof (cases "length written + length (x # xs) > n")
    case True
    with 2 x len show ?thesis by simp
  next
    case False
    with 2 x len show ?thesis by (auto simp del: take.simps drop.simps)
  qed
qed simp

lemma publish_Inr:
  assumes p: "artifact_polite n io" and inv: "artifact_inv n w" and h: "uuid_text (f_artifact_id a)"
    and staged: "hd (last staged) = CHR ''.''" "as_files w staged = Some bytes"
    and e: "publish io a key destination staged bytes w = (Inr b, w')"
  shows "f_artifact_id b = f_artifact_id a \<and> b \<in> set (stored_artifacts w') \<and> f_status b = ARTIFACT_READY \<and> f_storage_key b = key
    \<and> as_files w' destination = Some bytes"
proof -
  let ?i = "f_artifact_id a" and ?w = "io_race io w"
  let ?rows = "update_where (created_where ?i) (ready_values key bytes) (stored_artifacts ?w)"
  have inv1: "artifact_inv n ?w" and st: "as_files ?w staged = Some bytes" using p inv staged by (auto simp: artifact_polite_def)
  have one: "rowcount (created_where ?i) (stored_artifacts ?w) = 1" and w': "w' = with_artifacts ?rows (move_file staged destination ?w)"
      and b: "required_row ?i w' = Inr b"
    using e by (auto simp: publish_def Let_def fail_created_def commit_rows_def reload_artifact_def
        split: if_splits sum.splits prod.splits bool.splits commit_fate.splits)
  have mem: "b \<in> set ?rows" "f_artifact_id b = ?i"
  proof -
    have "py_strip ?i = ?i" using plain_required [of ?i 36] uuid_plain [OF h] h
      by (auto simp: artifact_required_string_def uuid_text_def Let_def split: if_splits)
    with required_row_Inr [OF b] w' show "b \<in> set ?rows" "f_artifact_id b = ?i" by simp_all
  qed
  obtain r where r: "f_status r = ARTIFACT_CREATED" "f_artifact_id r = ?i" "\<forall>x\<in>set (stored_artifacts ?w). f_artifact_id x = ?i \<longrightarrow> x = r"
    by (rule created_row_unique [OF inv1 one]) blast
  from mem r have "b = ready_values key bytes r"
    by (auto simp: set_update_where created_where_def ready_values_def split: if_splits)
  with mem w' st show ?thesis by (auto simp: ready_values_def move_file_def)
qed

lemma mark_ready_Inr:
  assumes p: "artifact_polite n io" and inv: "artifact_inv n w" and h: "hex_text h"
    and e: "mark_ready io n h artifact_id content expected_size expected_sha256 w = (Inr b, w')"
  obtains parts bytes stream where "b \<in> set (stored_artifacts w')" "f_status b = ARTIFACT_READY" "storage_key_parts (f_storage_key b) = Inr parts"
    "as_files w' parts = Some bytes" "content_stream content = Inr stream" "copy_stream n stream [] = Inr bytes" "io_inside io parts"
proof -
  from e obtain a where a: "required_row artifact_id w = Inr a" by (auto simp: mark_ready_def split: sum.splits)
  have u: "uuid_text (f_artifact_id a)" using required_row_Inr [OF a] inv_keyed [OF inv, of a] unfolding artifact_keyed_def by blast
  let ?key = "ready_storage_key h (f_artifact_id a)"
  from e a obtain d staged bytes w1 where s: "stage_content io n ?key content w = (Inr (d, staged, bytes), w1)"
      and pub: "publish io a ?key d staged bytes w1 = (Inr b, w')"
    by (auto simp: mark_ready_def Let_def fail_created_def split: sum.splits if_splits prod.splits)
  note f = stage_content_Inr [OF s]
  have hid: "hd (last staged) = CHR ''.''" using f temporary_hidden by simp
  have w1: "w1 = w\<lparr>as_files := (as_files w)(staged \<mapsto> bytes)\<rparr>" using f by blast
  have i: "artifact_inv n w1" unfolding w1 by (rule inv_write [OF inv inv_hidden [OF inv hid]])
  have "as_files w1 staged = Some bytes" by (simp add: w1)
  from publish_Inr [OF p i u hid this pub] f that show thesis by auto
qed

end
