(* ===== verification/Artifact_Properties.thy ===== *)
theory Artifact_Properties
  imports Artifact_Runs
begin

text \<open>
  The promises of the artifact repository, with one published artifact as a witness.
\<close>

section \<open>A published artifact\<close>

definition sample_artifact_io :: artifact_io where
  "sample_artifact_io = \<lparr>io_inside = (\<lambda>_. True), io_temp = ''t'', io_partial = [], io_stage = True, io_write = True, io_publish = True, io_sync = True,
     io_unlink = True, io_commit = Commits, io_fail_commit = Commits, io_restore = True, io_race = (\<lambda>w. w)\<rparr>"

definition sample_artifact_id :: string where
  "sample_artifact_id = ''0a1b2c3d-0000-4000-8000-00000000000a''"

definition sample_hex :: string where
  "sample_hex = ''0123456789abcdef0123456789abcdef''"

definition sample_shelf :: artifact_store where
  "sample_shelf = \<lparr>as_db = empty_db\<lparr>artifacts := [new_artifact sample_artifact_id ''resp-1'' ARTIFACT_FILE ''a.txt'' ''text/plain'']\<rparr>,
     as_files = (\<lambda>_. None)\<rparr>"

definition sample_publish :: "Artifact artifact_outcome" where
  "sample_publish = mark_ready sample_artifact_io 10 sample_hex sample_artifact_id (ContentBytes ''hello'') (Some (PyInt 5)) None sample_shelf"

lemma sample_artifact_polite: "artifact_polite n sample_artifact_io"
  by (simp add: artifact_polite_def sample_artifact_io_def)

lemma sample_texts: "uuid_text sample_artifact_id" "hex_text sample_hex"
  by code_simp+

lemma sample_shelf_inv: "artifact_inv n sample_shelf"
  using sample_texts(1)
  by (simp add: artifact_inv_def rows_stored_def sample_shelf_def stored_artifacts_def artifact_table_ok_def artifact_row_ok_def
      artifact_keyed_def new_artifact_def)


lemma sample_published: "\<exists>b. fst sample_publish = Inr b"
proof -
  let ?a = "new_artifact sample_artifact_id ''resp-1'' ARTIFACT_FILE ''a.txt'' ''text/plain''"
  have row: "required_row sample_artifact_id sample_shelf = Inr ?a" by code_simp
  have sz: "optionally (expected_size_of 10) (Some (PyInt 5)) = Inr (Some 5)" by code_simp
  have path: "artifact_storage_path sample_artifact_io (f_storage_key ?a) = Inr [''objects'', ''0a'', sample_artifact_id]" by code_simp
  have dest: "artifact_storage_path sample_artifact_io (ready_storage_key sample_hex sample_artifact_id)
    = Inr [''objects'', ''0a'', sample_artifact_id @ ''-'' @ sample_hex]" by code_simp
  have copy: "copy_stream 10 (chunks STREAM_CHUNK_SIZE ''hello'') [] = Inr ''hello''"
    by (simp add: copy_chunks STREAM_CHUNK_SIZE_def)
  have req: "artifact_required_string sample_artifact_id 36 = Inr sample_artifact_id" by code_simp
  have i: "f_artifact_id ?a = sample_artifact_id" "f_status ?a = ARTIFACT_CREATED" "stored_artifacts sample_shelf = [?a]"
    by (simp_all add: new_artifact_def sample_shelf_def stored_artifacts_def)
  have io: "io_stage sample_artifact_io" "io_write sample_artifact_io" "io_publish sample_artifact_io" "io_sync sample_artifact_io"
      "io_commit sample_artifact_io = Commits" "\<And>w. io_race sample_artifact_io w = w"
    by (simp_all add: sample_artifact_io_def)
  have reload: "required_row sample_artifact_id w = Inr b" if "stored_artifacts w = [b]" "f_artifact_id b = sample_artifact_id" for w b
    using that req by (simp add: required_row_def required_artifact_def artifact_get_def stored_artifacts_def lookup_by_def)
  show ?thesis
    unfolding sample_publish_def mark_ready_def row sz
    by (simp add: require_status_def i path dest copy optionally_def bytes_like_size_def stage_content_def content_stream_def Let_def
        publish_def io commit_rows_def reload_artifact_def reload update_where_def created_where_def ready_values_def
        artifact_table_ok_def artifact_row_ok_def rowcount_def del: chunks.simps)
qed

section \<open>Properties\<close>



text \<open>
  C28. Publishing is lossless: when \<open>mark_ready\<close> succeeds, under any interference, reading the
  artifact returns exactly the bytes that were given to it, although they were copied in chunks
  through a temporary file; content above the limit is never published.
\<close>

theorem published_content_reads_back:
  assumes "artifact_polite n io" "artifact_inv n w" "hex_text h"
    and "mark_ready io n h artifact_id (ContentBytes content) expected_size expected_sha256 w = (Inr a, w')"
  shows "artifact_read (io_inside io) (file_view w') n (f_artifact_id a) (as_db w') = Inr content \<and> length content \<le> n"
proof -
  obtain parts bytes stream where r: "a \<in> set (stored_artifacts w')" "f_status a = ARTIFACT_READY" "storage_key_parts (f_storage_key a) = Inr parts"
      "as_files w' parts = Some bytes" "content_stream (ContentBytes content) = Inr stream" "copy_stream n stream [] = Inr bytes" "io_inside io parts"
    by (rule mark_ready_Inr [OF assms])
  have c: "bytes = content" "length content \<le> n" using r(5,6) copy_chunks [of STREAM_CHUNK_SIZE n content "[]"]
    by (auto simp: content_stream_def STREAM_CHUNK_SIZE_def split: if_splits)
  obtain x where "artifact_read (io_inside io) (file_view w') n (f_artifact_id a) (as_db w') = Inr x" "as_files w' parts = Some x"
    using ready_is_readable [OF mark_ready_inv [OF assms] r(1,2), of "io_inside io"] r(3,7) by (metis sum.inject(2))
  with r(4) c show ?thesis by simp
qed

theorem published_content_reads_back_witness:
  "\<exists>a. fst sample_publish = Inr a
     \<and> artifact_read (\<lambda>_. True) (file_view (snd sample_publish)) 10 (f_artifact_id a) (as_db (snd sample_publish)) = Inr ''hello''"
proof -
  obtain b where b: "sample_publish = (Inr b, snd sample_publish)" using sample_published by (metis prod.collapse)
  have "io_inside sample_artifact_io = (\<lambda>_. True)" by (simp add: sample_artifact_io_def)
  with published_content_reads_back [OF sample_artifact_polite sample_shelf_inv sample_texts(2) b [unfolded sample_publish_def]] b
  show ?thesis unfolding sample_publish_def by (metis fst_conv)
qed

end
