(* ===== verification/Wechat_Checkpoints.thy ===== *)
theory Wechat_Checkpoints
  imports Keyed_Insert
begin

text \<open>
  The synchronisation checkpoints of the WeChat poller (\<open>adapters/wechat/polling_models.py\<close>,
  \<open>polling_errors.py\<close>, \<open>polling_store.py\<close>): one row per account and conversation that says up to
  which local id the messages of the conversation were handled, in which generation of the remote
  history, and the fingerprint of the last handled message. Every transition is a compare-and-set
  on all three columns. The operations work on the table together with the rest of the state that
  concurrent pollers share; each takes what other sessions do before its statement and before it
  reads the row again, and the fate of its commit.
\<close>

section \<open>Errors\<close>

datatype wechat_polling_error =
    InvalidBootstrapModeError
  | WechatChatIdentityError
  | WechatLocalIdError
  | WechatCheckpointNotFoundError
  | WechatCheckpointValueError
  | WechatCheckpointGenerationError
  | WechatCheckpointFingerprintError
  | WechatCheckpointStateConflictError
  | WechatCheckpointContinuityError
  | WechatConversationMismatchError

fun polling_error_code :: "wechat_polling_error \<Rightarrow> string" where
  "polling_error_code InvalidBootstrapModeError = ''wechat_invalid_bootstrap_mode''"
| "polling_error_code WechatChatIdentityError = ''wechat_chat_identity_error''"
| "polling_error_code WechatLocalIdError = ''wechat_local_id_error''"
| "polling_error_code WechatCheckpointNotFoundError = ''wechat_checkpoint_not_found''"
| "polling_error_code WechatCheckpointValueError = ''wechat_checkpoint_value_error''"
| "polling_error_code WechatCheckpointGenerationError = ''wechat_checkpoint_generation_error''"
| "polling_error_code WechatCheckpointFingerprintError = ''wechat_checkpoint_fingerprint_error''"
| "polling_error_code WechatCheckpointStateConflictError = ''wechat_checkpoint_state_conflict''"
| "polling_error_code WechatCheckpointContinuityError = ''wechat_checkpoint_continuity_unverified''"
| "polling_error_code WechatConversationMismatchError = ''wechat_conversation_mismatch''"

text \<open>What a call may raise: an error of the poller, of the adapter with its code, or any other.\<close>

datatype poll_error = PollingError wechat_polling_error | AdapterError string | OtherError

section \<open>The table\<close>

definition MAX_CHECKPOINT_LOCAL_ID :: int where "MAX_CHECKPOINT_LOCAL_ID = 2 ^ 63 - 1"
definition CHECKPOINT_FINGERPRINT_LENGTH :: nat where "CHECKPOINT_FINGERPRINT_LENGTH = 64"

record WechatSyncCheckpoint =
  k_id :: int
  k_source_account_id :: string
  k_conversation_id :: string
  k_last_local_id :: int
  k_regression_generation :: int
  k_last_message_fingerprint :: "string option"
  k_initialized_at :: instant
  k_updated_at :: instant

definition checkpoint_key :: "WechatSyncCheckpoint \<Rightarrow> string \<times> string" where
  "checkpoint_key r = (k_source_account_id r, k_conversation_id r)"

definition checkpoint_row_ok :: "WechatSyncCheckpoint \<Rightarrow> bool" where
  "checkpoint_row_ok r \<longleftrightarrow>
     k_last_local_id r \<ge> 0 \<and> k_regression_generation r \<ge> 0
     \<and> (case k_last_message_fingerprint r of None \<Rightarrow> True | Some f \<Rightarrow> length f = CHECKPOINT_FINGERPRINT_LENGTH)"

definition checkpoint_table_ok :: "WechatSyncCheckpoint list \<Rightarrow> bool" where
  "checkpoint_table_ok rows \<longleftrightarrow> distinct (map k_id rows) \<and> distinct (map checkpoint_key rows) \<and> list_all checkpoint_row_ok rows"

text \<open>The table, its sequence, and the rest of the state the pollers share.\<close>

record 's checkpoint_db =
  cp_rows :: "WechatSyncCheckpoint list"
  cp_seq :: int
  cp_rest :: 's

text \<open>
  One call of the store: the time of the server, whether its first and its last \<open>SELECT\<close> succeed,
  what other sessions do before the statement and before the row is read again, and the commit.
\<close>

record 's checkpoint_session =
  cs_now :: instant
  cs_reads :: bool
  cs_race :: "'s checkpoint_db \<Rightarrow> 's checkpoint_db"
  cs_fate :: commit_fate
  cs_late :: "'s checkpoint_db \<Rightarrow> 's checkpoint_db"
  cs_reloads :: bool

type_synonym ('a, 's) checkpoint_outcome = "(poll_error + 'a) \<times> 's checkpoint_db"

section \<open>Validation\<close>

definition validated_checkpoint_local_id :: "py_num \<Rightarrow> poll_error + int" where
  "validated_checkpoint_local_id value =
     (case value of
        PyInt v \<Rightarrow> if 0 \<le> v \<and> v \<le> MAX_CHECKPOINT_LOCAL_ID then Inr v else Inl (PollingError WechatCheckpointValueError)
      | _ \<Rightarrow> Inl (PollingError WechatCheckpointValueError))"

definition validated_checkpoint_generation :: "py_num \<Rightarrow> poll_error + int" where
  "validated_checkpoint_generation value =
     (case value of
        PyInt v \<Rightarrow> if 0 \<le> v \<and> v \<le> MAX_CHECKPOINT_LOCAL_ID then Inr v else Inl (PollingError WechatCheckpointGenerationError)
      | _ \<Rightarrow> Inl (PollingError WechatCheckpointGenerationError))"

definition fingerprint_text :: "string \<Rightarrow> bool" where
  "fingerprint_text s \<longleftrightarrow> length s = 64 \<and> list_all (\<lambda>c. c \<in> set ''0123456789abcdef'') s"

definition validated_checkpoint_fingerprint :: "string option \<Rightarrow> poll_error + string option" where
  "validated_checkpoint_fingerprint value =
     (case value of
        None \<Rightarrow> Inr None
      | Some f \<Rightarrow> if fingerprint_text f then Inr (Some f) else Inl (PollingError WechatCheckpointFingerprintError))"

text \<open>Validated arguments are passed on; the first that is refused ends the call.\<close>

definition validated :: "poll_error + 'a \<Rightarrow> 's checkpoint_db \<Rightarrow> ('a \<Rightarrow> ('b, 's) checkpoint_outcome) \<Rightarrow> ('b, 's) checkpoint_outcome" where
  "validated v db k = (case v of Inl e \<Rightarrow> (Inl e, db) | Inr x \<Rightarrow> k x)"

section \<open>The store\<close>

definition checkpoint_reload :: "string \<Rightarrow> string \<Rightarrow> 's checkpoint_db \<Rightarrow> WechatSyncCheckpoint option" where
  "checkpoint_reload source_account_id conversation_id db =
     lookup_by checkpoint_key (source_account_id, conversation_id) (cp_rows db)"

definition checkpoint_get ::
  "'s checkpoint_session \<Rightarrow> string \<Rightarrow> string \<Rightarrow> 's checkpoint_db \<Rightarrow> (WechatSyncCheckpoint option, 's) checkpoint_outcome"
where
  "checkpoint_get s source_account_id conversation_id db =
     (if cs_reads s then (Inr (checkpoint_reload source_account_id conversation_id db), db) else (Inl OtherError, db))"

text \<open>What the commit of a changed table leaves, and whether it raises.\<close>

definition commit_checkpoints :: "commit_fate \<Rightarrow> 's checkpoint_db \<Rightarrow> 's checkpoint_db \<Rightarrow> bool \<times> 's checkpoint_db" where
  "commit_checkpoints fate changed db =
     (case fate of Commits \<Rightarrow> (True, changed) | CommitFails \<Rightarrow> (False, db) | CommitUnknown \<Rightarrow> (False, changed))"

definition new_checkpoint :: "'s checkpoint_session \<Rightarrow> int \<Rightarrow> string \<Rightarrow> string \<Rightarrow> int \<Rightarrow> string option \<Rightarrow> WechatSyncCheckpoint" where
  "new_checkpoint s i source_account_id conversation_id last_local_id fingerprint =
     \<lparr>k_id = i, k_source_account_id = source_account_id, k_conversation_id = conversation_id, k_last_local_id = last_local_id,
      k_regression_generation = 0, k_last_message_fingerprint = fingerprint, k_initialized_at = cs_now s, k_updated_at = cs_now s\<rparr>"

definition insert_checkpoint ::
  "'s checkpoint_session \<Rightarrow> string \<Rightarrow> string \<Rightarrow> int \<Rightarrow> string option \<Rightarrow> 's checkpoint_db
     \<Rightarrow> (WechatSyncCheckpoint \<times> bool, 's) checkpoint_outcome"
where
  "insert_checkpoint s source_account_id conversation_id last_local_id fingerprint db =
     (let row = new_checkpoint s (cp_seq db) source_account_id conversation_id last_local_id fingerprint;
          rows = cp_rows db @ [row] in
      if \<not> checkpoint_table_ok rows
      then
        (let db1 = cs_late s db in
         if \<not> cs_reloads s then (Inl OtherError, db1)
         else
           (case checkpoint_reload source_account_id conversation_id db1 of
              None \<Rightarrow> (Inl OtherError, db1) | Some existing \<Rightarrow> (Inr (existing, False), db1)))
      else
        (case commit_checkpoints (cs_fate s) (db\<lparr>cp_rows := rows, cp_seq := cp_seq db + 1\<rparr>) db of
           (True, db1) \<Rightarrow> (Inr (row, True), db1) | (False, db1) \<Rightarrow> (Inl OtherError, db1)))"

definition checkpoint_initialize ::
  "'s checkpoint_session \<Rightarrow> string \<Rightarrow> string \<Rightarrow> py_num \<Rightarrow> string option \<Rightarrow> 's checkpoint_db
     \<Rightarrow> (WechatSyncCheckpoint \<times> bool, 's) checkpoint_outcome"
where
  "checkpoint_initialize s source_account_id conversation_id last_local_id last_message_fingerprint db =
     validated (validated_checkpoint_local_id last_local_id) db (\<lambda>l.
     validated (validated_checkpoint_fingerprint last_message_fingerprint) db (\<lambda>fingerprint.
       if l = 0 \<and> fingerprint \<noteq> None then (Inl (PollingError WechatCheckpointFingerprintError), db)
       else
         (case checkpoint_get s source_account_id conversation_id db of
            (Inl e, db1) \<Rightarrow> (Inl e, db1)
          | (Inr (Some existing), db1) \<Rightarrow> (Inr (existing, False), db1)
          | (Inr None, db1) \<Rightarrow> insert_checkpoint s source_account_id conversation_id l fingerprint (cs_race s db1))))"

text \<open>The rows a compare-and-set addresses; \<open>IS NULL\<close> where no fingerprint is expected.\<close>

definition checkpoint_where :: "string \<Rightarrow> string \<Rightarrow> int \<Rightarrow> int \<Rightarrow> string option \<Rightarrow> WechatSyncCheckpoint \<Rightarrow> bool" where
  "checkpoint_where source_account_id conversation_id local_id generation fingerprint r \<longleftrightarrow>
     k_source_account_id r = source_account_id \<and> k_conversation_id r = conversation_id
     \<and> k_last_local_id r = local_id \<and> k_regression_generation r = generation
     \<and> k_last_message_fingerprint r = fingerprint"

definition required_reload ::
  "'s checkpoint_session \<Rightarrow> string \<Rightarrow> string \<Rightarrow> bool \<Rightarrow> 's checkpoint_db \<Rightarrow> (WechatSyncCheckpoint \<times> bool, 's) checkpoint_outcome"
where
  "required_reload s source_account_id conversation_id changed db =
     (if \<not> cs_reloads s then (Inl OtherError, db)
      else
        (case checkpoint_reload source_account_id conversation_id db of
           None \<Rightarrow> (Inl (PollingError WechatCheckpointNotFoundError), db) | Some checkpoint \<Rightarrow> (Inr (checkpoint, changed), db)))"

definition apply_cas ::
  "'s checkpoint_session \<Rightarrow> (WechatSyncCheckpoint \<Rightarrow> bool) \<Rightarrow> (WechatSyncCheckpoint \<Rightarrow> WechatSyncCheckpoint) \<Rightarrow> string \<Rightarrow> string
     \<Rightarrow> 's checkpoint_db \<Rightarrow> (WechatSyncCheckpoint \<times> bool, 's) checkpoint_outcome"
where
  "apply_cas s p f source_account_id conversation_id db0 =
     (let db = cs_race s db0;
          rows = update_where p (\<lambda>r. (f r)\<lparr>k_updated_at := cs_now s\<rparr>) (cp_rows db) in
      if \<not> checkpoint_table_ok rows then (Inl OtherError, db)
      else
        (case commit_checkpoints (cs_fate s) (db\<lparr>cp_rows := rows\<rparr>) db of
           (False, db1) \<Rightarrow> (Inl OtherError, db1)
         | (True, db1) \<Rightarrow> required_reload s source_account_id conversation_id (rowcount p (cp_rows db) = 1) (cs_late s db1)))"

definition advance_cas ::
  "'s checkpoint_session \<Rightarrow> string \<Rightarrow> string \<Rightarrow> py_num \<Rightarrow> py_num \<Rightarrow> string option \<Rightarrow> py_num \<Rightarrow> string option \<Rightarrow> 's checkpoint_db
     \<Rightarrow> (WechatSyncCheckpoint \<times> bool, 's) checkpoint_outcome"
where
  "advance_cas s source_account_id conversation_id expected_last_local_id expected_generation expected_message_fingerprint
       last_local_id last_message_fingerprint db =
     validated (validated_checkpoint_local_id expected_last_local_id) db (\<lambda>expected_local_id.
     validated (validated_checkpoint_generation expected_generation) db (\<lambda>generation.
     validated (validated_checkpoint_local_id last_local_id) db (\<lambda>local_id.
     validated (validated_checkpoint_fingerprint expected_message_fingerprint) db (\<lambda>expected_fingerprint.
     validated (validated_checkpoint_fingerprint last_message_fingerprint) db (\<lambda>fingerprint.
       if local_id \<le> expected_local_id then required_reload s source_account_id conversation_id False (cs_late s db)
       else apply_cas s (checkpoint_where source_account_id conversation_id expected_local_id generation expected_fingerprint)
              (\<lambda>r. r\<lparr>k_last_local_id := local_id, k_last_message_fingerprint := fingerprint\<rparr>)
              source_account_id conversation_id db)))))"

definition checkpoint_advance ::
  "'s checkpoint_session \<Rightarrow> string \<Rightarrow> string \<Rightarrow> py_num \<Rightarrow> string option \<Rightarrow> 's checkpoint_db
     \<Rightarrow> (WechatSyncCheckpoint, 's) checkpoint_outcome"
where
  "checkpoint_advance s source_account_id conversation_id last_local_id last_message_fingerprint db =
     validated (validated_checkpoint_local_id last_local_id) db (\<lambda>local_id.
     validated (validated_checkpoint_fingerprint last_message_fingerprint) db (\<lambda>fingerprint.
       (case checkpoint_get s source_account_id conversation_id db of
          (Inl e, db1) \<Rightarrow> (Inl e, db1)
        | (Inr None, db1) \<Rightarrow> (Inl (PollingError WechatCheckpointNotFoundError), db1)
        | (Inr (Some checkpoint), db1) \<Rightarrow>
            (case advance_cas s source_account_id conversation_id (PyInt (k_last_local_id checkpoint))
                    (PyInt (k_regression_generation checkpoint)) (k_last_message_fingerprint checkpoint) (PyInt local_id) fingerprint db1 of
               (Inl e, db2) \<Rightarrow> (Inl e, db2) | (Inr (r, _), db2) \<Rightarrow> (Inr r, db2)))))"

definition enroll_anchor ::
  "'s checkpoint_session \<Rightarrow> string \<Rightarrow> string \<Rightarrow> py_num \<Rightarrow> py_num \<Rightarrow> string option \<Rightarrow> 's checkpoint_db
     \<Rightarrow> (WechatSyncCheckpoint \<times> bool, 's) checkpoint_outcome"
where
  "enroll_anchor s source_account_id conversation_id expected_last_local_id expected_generation last_message_fingerprint db =
     validated (validated_checkpoint_local_id expected_last_local_id) db (\<lambda>expected_local_id.
     validated (validated_checkpoint_generation expected_generation) db (\<lambda>generation.
     validated (validated_checkpoint_fingerprint last_message_fingerprint) db (\<lambda>fingerprint.
       if expected_local_id = 0 \<or> fingerprint = None then (Inl (PollingError WechatCheckpointFingerprintError), db)
       else apply_cas s (checkpoint_where source_account_id conversation_id expected_local_id generation None)
              (\<lambda>r. r\<lparr>k_last_message_fingerprint := fingerprint\<rparr>) source_account_id conversation_id db)))"

definition checkpoint_rewind ::
  "'s checkpoint_session \<Rightarrow> string \<Rightarrow> string \<Rightarrow> py_num \<Rightarrow> py_num \<Rightarrow> string option \<Rightarrow> py_num \<Rightarrow> 's checkpoint_db
     \<Rightarrow> (WechatSyncCheckpoint \<times> bool, 's) checkpoint_outcome"
where
  "checkpoint_rewind s source_account_id conversation_id expected_last_local_id expected_generation expected_message_fingerprint
       last_local_id db =
     validated (validated_checkpoint_local_id expected_last_local_id) db (\<lambda>expected_local_id.
     validated (validated_checkpoint_generation expected_generation) db (\<lambda>generation.
     validated (validated_checkpoint_fingerprint expected_message_fingerprint) db (\<lambda>expected_fingerprint.
     validated (validated_checkpoint_local_id last_local_id) db (\<lambda>rewind_local_id.
       if generation = MAX_CHECKPOINT_LOCAL_ID then (Inl (PollingError WechatCheckpointGenerationError), db)
       else if rewind_local_id \<ge> expected_local_id then (Inl (PollingError WechatCheckpointValueError), db)
       else apply_cas s (checkpoint_where source_account_id conversation_id expected_local_id generation expected_fingerprint)
              (\<lambda>r. r\<lparr>k_last_local_id := rewind_local_id, k_regression_generation := k_regression_generation r + 1,
                      k_last_message_fingerprint := None\<rparr>)
              source_account_id conversation_id db))))"

definition rebase_latest_after_regression ::
  "'s checkpoint_session \<Rightarrow> string \<Rightarrow> string \<Rightarrow> py_num \<Rightarrow> py_num \<Rightarrow> string option \<Rightarrow> py_num \<Rightarrow> string option \<Rightarrow> 's checkpoint_db
     \<Rightarrow> (WechatSyncCheckpoint \<times> bool, 's) checkpoint_outcome"
where
  "rebase_latest_after_regression s source_account_id conversation_id expected_last_local_id expected_generation
       expected_message_fingerprint remote_latest_local_id remote_latest_message_fingerprint db =
     validated (validated_checkpoint_local_id expected_last_local_id) db (\<lambda>expected_local_id.
     validated (validated_checkpoint_generation expected_generation) db (\<lambda>generation.
     validated (validated_checkpoint_local_id remote_latest_local_id) db (\<lambda>latest_local_id.
     validated (validated_checkpoint_fingerprint expected_message_fingerprint) db (\<lambda>expected_fingerprint.
     validated (validated_checkpoint_fingerprint remote_latest_message_fingerprint) db (\<lambda>latest_fingerprint.
       if generation = MAX_CHECKPOINT_LOCAL_ID then (Inl (PollingError WechatCheckpointGenerationError), db)
       else if latest_local_id = 0 \<or> latest_fingerprint = None then (Inl (PollingError WechatCheckpointFingerprintError), db)
       else apply_cas s (checkpoint_where source_account_id conversation_id expected_local_id generation expected_fingerprint)
              (\<lambda>r. r\<lparr>k_last_local_id := latest_local_id, k_regression_generation := k_regression_generation r + 1,
                      k_last_message_fingerprint := latest_fingerprint\<rparr>)
              source_account_id conversation_id db)))))"

definition begin_live_suffix_after_empty_window ::
  "'s checkpoint_session \<Rightarrow> string \<Rightarrow> string \<Rightarrow> py_num \<Rightarrow> py_num \<Rightarrow> string option \<Rightarrow> py_num \<Rightarrow> string option \<Rightarrow> 's checkpoint_db
     \<Rightarrow> (WechatSyncCheckpoint \<times> bool, 's) checkpoint_outcome"
where
  "begin_live_suffix_after_empty_window s source_account_id conversation_id expected_last_local_id expected_generation
       expected_message_fingerprint first_live_local_id baseline_message_fingerprint db =
     validated (validated_checkpoint_local_id expected_last_local_id) db (\<lambda>expected_local_id.
     validated (validated_checkpoint_generation expected_generation) db (\<lambda>generation.
     validated (validated_checkpoint_local_id first_live_local_id) db (\<lambda>live_local_id.
     validated (validated_checkpoint_fingerprint expected_message_fingerprint) db (\<lambda>expected_fingerprint.
     validated (validated_checkpoint_fingerprint baseline_message_fingerprint) db (\<lambda>baseline_fingerprint.
       if generation = MAX_CHECKPOINT_LOCAL_ID then (Inl (PollingError WechatCheckpointGenerationError), db)
       else if live_local_id = 0 then (Inl (PollingError WechatCheckpointValueError), db)
       else
         (let baseline_local_id = live_local_id - 1 in
          if (baseline_local_id = 0) \<noteq> (baseline_fingerprint = None) then (Inl (PollingError WechatCheckpointFingerprintError), db)
          else apply_cas s (checkpoint_where source_account_id conversation_id expected_local_id generation expected_fingerprint)
                 (\<lambda>r. r\<lparr>k_last_local_id := baseline_local_id, k_regression_generation := k_regression_generation r + 1,
                         k_last_message_fingerprint := baseline_fingerprint\<rparr>)
                 source_account_id conversation_id db))))))"

section \<open>The order of checkpoints\<close>

text \<open>
  What the writers keep of a row beyond the constraints of the table: both numbers fit a
  \<open>BigInteger\<close>, a fingerprint is a lowercase digest, and the start of a conversation has none.
\<close>

definition checkpoint_sound :: "WechatSyncCheckpoint \<Rightarrow> bool" where
  "checkpoint_sound r \<longleftrightarrow>
     0 \<le> k_last_local_id r \<and> k_last_local_id r \<le> MAX_CHECKPOINT_LOCAL_ID
     \<and> 0 \<le> k_regression_generation r \<and> k_regression_generation r \<le> MAX_CHECKPOINT_LOCAL_ID
     \<and> (\<forall>f. k_last_message_fingerprint r = Some f \<longrightarrow> fingerprint_text f)
     \<and> (k_last_local_id r = 0 \<longrightarrow> k_last_message_fingerprint r = None)"

definition checkpoints_ok :: "'s checkpoint_db \<Rightarrow> bool" where
  "checkpoints_ok db \<longleftrightarrow>
     checkpoint_table_ok (cp_rows db) \<and> (\<forall>r\<in>set (cp_rows db). checkpoint_sound r \<and> k_id r < cp_seq db)"

text \<open>Generation first, then local id, then whether the anchor is known.\<close>

definition checkpoint_rank :: "WechatSyncCheckpoint \<Rightarrow> int \<times> int \<times> bool" where
  "checkpoint_rank r = (k_regression_generation r, k_last_local_id r, k_last_message_fingerprint r \<noteq> None)"

definition checkpoint_later :: "WechatSyncCheckpoint \<Rightarrow> WechatSyncCheckpoint \<Rightarrow> bool" where
  "checkpoint_later r r' \<longleftrightarrow> checkpoint_key r' = checkpoint_key r \<and> (r' = r \<or> checkpoint_rank r < checkpoint_rank r')"

text \<open>What any session may do to the table: rows stay, and only move up.\<close>

definition checkpoints_follow :: "'s checkpoint_db \<Rightarrow> 's checkpoint_db \<Rightarrow> bool" where
  "checkpoints_follow db db' \<longleftrightarrow>
     checkpoints_ok db \<longrightarrow> checkpoints_ok db' \<and> (\<forall>r\<in>set (cp_rows db). \<exists>r'\<in>set (cp_rows db'). checkpoint_later r r')"

definition checkpoint_polite :: "'s checkpoint_session \<Rightarrow> bool" where
  "checkpoint_polite s \<longleftrightarrow> (\<forall>db. checkpoints_follow db (cs_race s db)) \<and> (\<forall>db. checkpoints_follow db (cs_late s db))"

lemma checkpoint_later_refl [simp, intro]: "checkpoint_later r r"
  by (simp add: checkpoint_later_def)

lemma checkpoint_later_trans: "checkpoint_later a b \<Longrightarrow> checkpoint_later b c \<Longrightarrow> checkpoint_later a c"
  by (auto simp: checkpoint_later_def)

lemma checkpoints_follow_refl [simp, intro]: "checkpoints_follow db db"
  by (auto simp: checkpoints_follow_def)

lemma checkpoints_follow_trans: "checkpoints_follow a b \<Longrightarrow> checkpoints_follow b c \<Longrightarrow> checkpoints_follow a c"
  unfolding checkpoints_follow_def by (meson checkpoint_later_trans)

lemma checkpoint_later_eq:
  "checkpoint_later r q \<Longrightarrow> checkpoint_later q t \<Longrightarrow> checkpoint_rank t = checkpoint_rank r \<Longrightarrow> q = r"
  by (auto simp: checkpoint_later_def)

lemma checkpoint_row_sound: "checkpoint_sound r \<Longrightarrow> checkpoint_row_ok r"
  by (auto simp: checkpoint_sound_def checkpoint_row_ok_def fingerprint_text_def CHECKPOINT_FINGERPRINT_LENGTH_def split: option.splits)

text \<open>Rows are found under their key, and the key has one row.\<close>

lemma reload_row: "checkpoint_reload a c db = Some r \<Longrightarrow> r \<in> set (cp_rows db) \<and> checkpoint_key r = (a, c)"
  unfolding checkpoint_reload_def by (rule lookup_by_Some)

lemma reload_iff:
  "checkpoints_ok db \<Longrightarrow> checkpoint_reload a c db = Some r \<longleftrightarrow> r \<in> set (cp_rows db) \<and> checkpoint_key r = (a, c)"
  by (simp add: checkpoint_reload_def lookup_by_eq_Some_iff checkpoints_ok_def checkpoint_table_ok_def)

lemma checkpoints_follow_reload:
  assumes "checkpoints_follow db db'" "checkpoints_ok db" "checkpoint_reload a c db = Some r"
  obtains r' where "checkpoint_reload a c db' = Some r'" "checkpoint_later r r'" "checkpoints_ok db'"
proof -
  have ok: "checkpoints_ok db'" using assms by (simp add: checkpoints_follow_def)
  from reload_row [OF assms(3)] assms(1,2) obtain r' where "r' \<in> set (cp_rows db')" "checkpoint_later r r'" "checkpoint_key r = (a, c)"
    by (auto simp: checkpoints_follow_def)
  with ok that show ?thesis by (auto simp: reload_iff checkpoint_later_def)
qed

section \<open>What the operations do\<close>

lemma validated_Inr: "validated v db k = (Inr y, db') \<longleftrightarrow> (\<exists>x. v = Inr x \<and> k x = (Inr y, db'))"
  by (cases v) (auto simp: validated_def)

lemma validated_follow:
  "(\<And>x. v = Inr x \<Longrightarrow> checkpoints_follow db (snd (k x))) \<Longrightarrow> checkpoints_follow db (snd (validated v db k))"
  by (cases v) (auto simp: validated_def)

lemma local_id_Inr: "validated_checkpoint_local_id v = Inr n \<longleftrightarrow> v = PyInt n \<and> 0 \<le> n \<and> n \<le> MAX_CHECKPOINT_LOCAL_ID"
  by (auto simp: validated_checkpoint_local_id_def split: py_num.splits)

lemma generation_Inr: "validated_checkpoint_generation v = Inr n \<longleftrightarrow> v = PyInt n \<and> 0 \<le> n \<and> n \<le> MAX_CHECKPOINT_LOCAL_ID"
  by (auto simp: validated_checkpoint_generation_def split: py_num.splits)

lemma fingerprint_Inr: "validated_checkpoint_fingerprint v = Inr f \<longleftrightarrow> f = v \<and> (\<forall>s. v = Some s \<longrightarrow> fingerprint_text s)"
  by (auto simp: validated_checkpoint_fingerprint_def split: option.splits if_splits)

lemmas validated_iffs = local_id_Inr generation_Inr fingerprint_Inr

text \<open>A column update that moves the addressed row up keeps the table in order.\<close>

definition checkpoint_moves :: "(WechatSyncCheckpoint \<Rightarrow> bool) \<Rightarrow> (WechatSyncCheckpoint \<Rightarrow> WechatSyncCheckpoint) \<Rightarrow> bool" where
  "checkpoint_moves p f \<longleftrightarrow>
     (\<forall>r. k_id (f r) = k_id r \<and> checkpoint_key (f r) = checkpoint_key r)
     \<and> (\<forall>r. p r \<longrightarrow> checkpoint_sound r \<longrightarrow> checkpoint_sound (f r) \<and> checkpoint_rank r < checkpoint_rank (f r))"

lemma touched_fields [simp]:
  "checkpoint_key (r\<lparr>k_updated_at := t\<rparr>) = checkpoint_key r" "checkpoint_sound (r\<lparr>k_updated_at := t\<rparr>) = checkpoint_sound r"
  "checkpoint_rank (r\<lparr>k_updated_at := t\<rparr>) = checkpoint_rank r"
  by (simp_all add: checkpoint_key_def checkpoint_sound_def checkpoint_rank_def)

lemma moved_table:
  assumes "checkpoint_moves p f" "checkpoints_ok db"
  shows "checkpoints_ok (db\<lparr>cp_rows := update_where p (\<lambda>r. (f r)\<lparr>k_updated_at := t\<rparr>) (cp_rows db)\<rparr>)"
proof -
  let ?f = "\<lambda>r. (f r)\<lparr>k_updated_at := t\<rparr>"
  have m: "map k_id (update_where p ?f (cp_rows db)) = map k_id (cp_rows db)"
    "map checkpoint_key (update_where p ?f (cp_rows db)) = map checkpoint_key (cp_rows db)"
    using assms(1) by (auto intro!: map_key_update_where simp: checkpoint_moves_def)
  have s: "checkpoint_sound r' \<and> k_id r' < cp_seq db" if r': "r' \<in> set (update_where p ?f (cp_rows db))" for r'
  proof -
    from r' obtain r where "r \<in> set (cp_rows db)" "r' = (if p r then ?f r else r)" by (auto simp: set_update_where)
    moreover from this(1) assms(2) have "checkpoint_sound r" "k_id r < cp_seq db" by (simp_all add: checkpoints_ok_def)
    ultimately show ?thesis using assms(1) by (simp add: checkpoint_moves_def)
  qed
  then have "list_all checkpoint_row_ok (update_where p ?f (cp_rows db))" by (auto simp: list_all_iff intro: checkpoint_row_sound)
  with m s assms(2) show ?thesis by (simp add: checkpoints_ok_def checkpoint_table_ok_def)
qed

lemma moved_follows:
  assumes "checkpoint_moves p f"
  shows "checkpoints_follow db (db\<lparr>cp_rows := update_where p (\<lambda>r. (f r)\<lparr>k_updated_at := t\<rparr>) (cp_rows db)\<rparr>)"
proof -
  let ?f = "\<lambda>r. (f r)\<lparr>k_updated_at := t\<rparr>"
  have "checkpoint_later r (if p r then ?f r else r)" if "checkpoint_sound r" for r
    using that assms by (simp add: checkpoint_later_def checkpoint_moves_def)
  then have "\<exists>r'\<in>set (update_where p ?f (cp_rows db)). checkpoint_later r r'" if "r \<in> set (cp_rows db)" "checkpoints_ok db" for r
    using that unfolding set_update_where checkpoints_ok_def by blast
  with moved_table [OF assms, of db t] show ?thesis
    unfolding checkpoints_follow_def by simp
qed

lemma commit_checkpoints_follow:
  "checkpoints_follow db changed \<Longrightarrow> checkpoints_follow db (snd (commit_checkpoints fate changed db))"
  by (cases fate) (simp_all add: commit_checkpoints_def)

lemma required_reload_snd [simp]: "snd (required_reload s a c changed db) = db"
  by (auto simp: required_reload_def split: option.splits)

lemma required_reload_Inr:
  "required_reload s a c changed db = (Inr (q, b), db') \<longleftrightarrow> cs_reloads s \<and> checkpoint_reload a c db = Some q \<and> b = changed \<and> db' = db"
  by (auto simp: required_reload_def split: option.splits)

lemma checkpoint_politeD: "checkpoint_polite s \<Longrightarrow> checkpoints_follow db (cs_race s db)" "checkpoint_polite s \<Longrightarrow> checkpoints_follow db (cs_late s db)"
  by (simp_all add: checkpoint_polite_def)

lemma apply_cas_follows:
  assumes "checkpoint_polite s" "checkpoint_moves p f"
  shows "checkpoints_follow db (snd (apply_cas s p f a c db))"
proof -
  define u where "u = cs_race s db"
  define v where "v = u\<lparr>cp_rows := update_where p (\<lambda>r. (f r)\<lparr>k_updated_at := cs_now s\<rparr>) (cp_rows u)\<rparr>"
  define w where "w = snd (commit_checkpoints (cs_fate s) v u)"
  have "checkpoints_follow db u" using checkpoint_politeD(1) [OF assms(1)] by (simp add: u_def)
  moreover have w: "checkpoints_follow u w"
    unfolding w_def v_def by (rule commit_checkpoints_follow [OF moved_follows [OF assms(2)]])
  moreover have "checkpoints_follow w (cs_late s w)" by (rule checkpoint_politeD(2) [OF assms(1)])
  moreover have "snd (apply_cas s p f a c db) \<in> {u, w, cs_late s w}"
    by (auto simp: apply_cas_def Let_def u_def v_def w_def split: prod.splits bool.splits)
  ultimately show ?thesis by (auto intro: checkpoints_follow_trans)
qed

text \<open>A reported success changed the row that was there at the moment of the update.\<close>

lemma apply_cas_won:
  assumes "apply_cas s p f a c db = (Inr (q, True), db')" "checkpoint_polite s" "checkpoint_moves p f" "checkpoints_ok db"
    and key: "\<And>r. p r \<Longrightarrow> checkpoint_key r = (a, c)"
  obtains r where "checkpoint_reload a c (cs_race s db) = Some r" "p r" "checkpoint_rank (f r) \<le> checkpoint_rank q"
proof -
  define u where "u = cs_race s db"
  define g where "g = (\<lambda>r. (f r)\<lparr>k_updated_at := cs_now s\<rparr>)"
  define v where "v = u\<lparr>cp_rows := update_where p g (cp_rows u)\<rparr>"
  from assms(1) have r: "rowcount p (cp_rows u) = 1" "checkpoint_reload a c (cs_late s v) = Some q"
    by (auto simp: apply_cas_def Let_def u_def v_def g_def commit_checkpoints_def required_reload_Inr split: commit_fate.splits if_splits)
  have ok: "checkpoints_ok u" using checkpoint_politeD(1) [OF assms(2), of db] assms(4) by (simp add: u_def checkpoints_follow_def)
  from r(1) have "rowcount p (cp_rows u) \<noteq> 0" by simp
  then obtain x where x: "x \<in> set (cp_rows u)" "p x" unfolding rowcount_0_iff by blast
  have v: "checkpoints_ok v" unfolding v_def g_def by (rule moved_table [OF assms(3) ok])
  have "checkpoint_reload a c v = Some (g x)"
  proof -
    have "g x \<in> set (cp_rows v)" using x by (force simp: v_def set_update_where)
    moreover have "checkpoint_key (g x) = (a, c)" using key [OF x(2)] assms(3) by (simp add: g_def checkpoint_moves_def)
    ultimately show ?thesis by (simp add: reload_iff [OF v])
  qed
  then obtain q' where "checkpoint_reload a c (cs_late s v) = Some q'" "checkpoint_later (g x) q'"
    by (rule checkpoints_follow_reload [OF checkpoint_politeD(2) [OF assms(2)] v])
  then have "checkpoint_rank (f x) \<le> checkpoint_rank q" using r(2) by (auto simp: checkpoint_later_def g_def)
  moreover have "checkpoint_reload a c u = Some x" using x key by (simp add: reload_iff [OF ok])
  ultimately show ?thesis using that x(2) by (simp add: u_def)
qed

subsection \<open>Every operation moves checkpoints up\<close>

lemma sound_values:
  "checkpoint_where a c l g fp r \<Longrightarrow> k_last_local_id r = l \<and> k_regression_generation r = g \<and> k_last_message_fingerprint r = fp
     \<and> checkpoint_key r = (a, c)"
  by (simp add: checkpoint_where_def checkpoint_key_def)

lemma advance_moves:
  assumes "l < n" "0 \<le> l" "n \<le> MAX_CHECKPOINT_LOCAL_ID" "\<forall>s. fp' = Some s \<longrightarrow> fingerprint_text s"
  shows "checkpoint_moves (checkpoint_where a c l g fp) (\<lambda>r. r\<lparr>k_last_local_id := n, k_last_message_fingerprint := fp'\<rparr>)"
  using assms by (auto simp: checkpoint_moves_def checkpoint_sound_def checkpoint_rank_def checkpoint_key_def dest!: sound_values)

lemma enroll_moves:
  assumes "l \<noteq> 0" "fingerprint_text f"
  shows "checkpoint_moves (checkpoint_where a c l g None) (\<lambda>r. r\<lparr>k_last_message_fingerprint := Some f\<rparr>)"
  using assms by (auto simp: checkpoint_moves_def checkpoint_sound_def checkpoint_rank_def checkpoint_key_def dest!: sound_values)

lemma generation_moves:
  assumes "g \<noteq> MAX_CHECKPOINT_LOCAL_ID" "0 \<le> n" "n \<le> MAX_CHECKPOINT_LOCAL_ID" "\<forall>s. fp' = Some s \<longrightarrow> fingerprint_text s"
    "n = 0 \<longrightarrow> fp' = None"
  shows "checkpoint_moves (checkpoint_where a c l g fp)
    (\<lambda>r. r\<lparr>k_last_local_id := n, k_regression_generation := k_regression_generation r + 1, k_last_message_fingerprint := fp'\<rparr>)"
  using assms by (auto simp: checkpoint_moves_def checkpoint_sound_def checkpoint_rank_def checkpoint_key_def dest!: sound_values)

lemma advance_cas_follows:
  assumes "checkpoint_polite s"
  shows "checkpoints_follow db (snd (advance_cas s a c l g fp n fp' db))"
  unfolding advance_cas_def
  by (intro validated_follow) (auto simp: validated_iffs checkpoint_politeD(2) [OF assms] intro!: apply_cas_follows [OF assms] advance_moves)

lemma enroll_anchor_follows:
  assumes "checkpoint_polite s"
  shows "checkpoints_follow db (snd (enroll_anchor s a c l g fp' db))"
  unfolding enroll_anchor_def
  by (intro validated_follow) (auto simp: validated_iffs intro!: apply_cas_follows [OF assms] enroll_moves)

lemma checkpoint_rewind_follows:
  assumes "checkpoint_polite s"
  shows "checkpoints_follow db (snd (checkpoint_rewind s a c l g fp n db))"
  unfolding checkpoint_rewind_def
  by (intro validated_follow) (auto simp: validated_iffs intro!: apply_cas_follows [OF assms] generation_moves)

lemma rebase_follows:
  assumes "checkpoint_polite s"
  shows "checkpoints_follow db (snd (rebase_latest_after_regression s a c l g fp n fp' db))"
  unfolding rebase_latest_after_regression_def
  by (intro validated_follow) (auto simp: validated_iffs intro!: apply_cas_follows [OF assms] generation_moves)

lemma begin_live_follows:
  assumes "checkpoint_polite s"
  shows "checkpoints_follow db (snd (begin_live_suffix_after_empty_window s a c l g fp n fp' db))"
  unfolding begin_live_suffix_after_empty_window_def
  by (intro validated_follow) (auto simp: validated_iffs Let_def intro!: apply_cas_follows [OF assms] generation_moves)

lemma insert_checkpoint_follows:
  assumes "checkpoint_polite s" "0 \<le> l" "l \<le> MAX_CHECKPOINT_LOCAL_ID" "\<forall>s. fp = Some s \<longrightarrow> fingerprint_text s" "l = 0 \<longrightarrow> fp = None"
  shows "checkpoints_follow db (snd (insert_checkpoint s a c l fp db))"
proof -
  let ?row = "new_checkpoint s (cp_seq db) a c l fp"
  have sound: "checkpoint_sound ?row" using assms(2-5) by (simp add: checkpoint_sound_def new_checkpoint_def MAX_CHECKPOINT_LOCAL_ID_def)
  have id: "k_id ?row = cp_seq db" by (simp add: new_checkpoint_def)
  have "checkpoints_follow db (db\<lparr>cp_rows := cp_rows db @ [?row], cp_seq := cp_seq db + 1\<rparr>)"
    if "checkpoint_table_ok (cp_rows db @ [?row])"
    using that sound id unfolding checkpoints_follow_def checkpoints_ok_def by (auto simp: less_imp_le)
  then show ?thesis
    by (auto simp: insert_checkpoint_def Let_def checkpoint_politeD(2) [OF assms(1)] commit_checkpoints_def split: commit_fate.splits option.splits)
qed

lemma initialize_follows:
  assumes "checkpoint_polite s"
  shows "checkpoints_follow db (snd (checkpoint_initialize s a c l fp db))"
  unfolding checkpoint_initialize_def
  by (intro validated_follow)
    (auto simp: validated_iffs checkpoint_get_def split: option.splits if_splits
      intro!: checkpoints_follow_trans [OF checkpoint_politeD(1) [OF assms] insert_checkpoint_follows [OF assms]])

lemma advance_follows:
  assumes "checkpoint_polite s"
  shows "checkpoints_follow db (snd (checkpoint_advance s a c l fp db))"
  unfolding checkpoint_advance_def
proof (intro validated_follow)
  fix x y
  show "checkpoints_follow db (snd (case checkpoint_get s a c db of (Inl e, db1) \<Rightarrow> (Inl e, db1)
     | (Inr None, db1) \<Rightarrow> (Inl (PollingError WechatCheckpointNotFoundError), db1)
     | (Inr (Some k), db1) \<Rightarrow>
         (case advance_cas s a c (PyInt (k_last_local_id k)) (PyInt (k_regression_generation k)) (k_last_message_fingerprint k) (PyInt x) y db1 of
            (Inl e, db2) \<Rightarrow> (Inl e, db2) | (Inr (r, _), db2) \<Rightarrow> (Inr r, db2))))"
    using advance_cas_follows [OF assms, of db a c]
    by (auto simp: checkpoint_get_def split: option.splits prod.splits sum.splits)
       (metis snd_conv)+
qed

lemmas checkpoint_operations_follow = initialize_follows advance_follows advance_cas_follows enroll_anchor_follows
  checkpoint_rewind_follows rebase_follows begin_live_follows

section \<open>Runs of the store\<close>

inductive checkpoint_step :: "'s checkpoint_db \<Rightarrow> 's checkpoint_db \<Rightarrow> bool" where
  initialize: "checkpoint_polite s \<Longrightarrow> checkpoint_step db (snd (checkpoint_initialize s a c l fp db))"
| advance: "checkpoint_polite s \<Longrightarrow> checkpoint_step db (snd (checkpoint_advance s a c l fp db))"
| advance_cas: "checkpoint_polite s \<Longrightarrow> checkpoint_step db (snd (advance_cas s a c l g fp n fp' db))"
| enroll: "checkpoint_polite s \<Longrightarrow> checkpoint_step db (snd (enroll_anchor s a c l g fp' db))"
| rewind: "checkpoint_polite s \<Longrightarrow> checkpoint_step db (snd (checkpoint_rewind s a c l g fp n db))"
| rebase: "checkpoint_polite s \<Longrightarrow> checkpoint_step db (snd (rebase_latest_after_regression s a c l g fp n fp' db))"
| begin_live: "checkpoint_polite s \<Longrightarrow> checkpoint_step db (snd (begin_live_suffix_after_empty_window s a c l g fp n fp' db))"

lemma checkpoint_step_follows: "checkpoint_step db db' \<Longrightarrow> checkpoints_follow db db'"
  by (induction rule: checkpoint_step.induct) (simp_all add: checkpoint_operations_follow)

lemma checkpoint_run_follows: "checkpoint_step\<^sup>*\<^sup>* db db' \<Longrightarrow> checkpoints_follow db db'"
proof (induction rule: rtranclp_induct)
  case base
  show ?case by simp
next
  case (step y z)
  from step.IH checkpoint_step_follows [OF step.hyps(2)] show ?case by (rule checkpoints_follow_trans)
qed

text \<open>Once a row has left a state, a compare-and-set that expects this state changes nothing.\<close>

definition passed_by :: "int \<Rightarrow> int \<Rightarrow> string option \<Rightarrow> WechatSyncCheckpoint \<Rightarrow> bool" where
  "passed_by l g fp r \<longleftrightarrow> (g, l, fp \<noteq> None) < checkpoint_rank r"

lemma passed_cas_refused:
  assumes "checkpoints_ok db" "checkpoint_reload a c db = Some r" "passed_by l g fp r" "checkpoint_polite s"
    and "checkpoint_moves (checkpoint_where a c l g fp) f"
  shows "fst (apply_cas s (checkpoint_where a c l g fp) f a c db) \<noteq> Inr (q, True)"
proof
  assume "fst (apply_cas s (checkpoint_where a c l g fp) f a c db) = Inr (q, True)"
  then obtain db' where cas: "apply_cas s (checkpoint_where a c l g fp) f a c db = (Inr (q, True), db')" by (metis prod.collapse)
  obtain x where x: "checkpoint_reload a c (cs_race s db) = Some x" "checkpoint_where a c l g fp x"
    by (rule apply_cas_won [OF cas assms(4,5,1)]) (auto dest: sound_values)
  obtain y where "checkpoint_reload a c (cs_race s db) = Some y" "checkpoint_later r y"
    by (rule checkpoints_follow_reload [OF checkpoint_politeD(1) [OF assms(4)] assms(1,2)])
  moreover have "checkpoint_rank x = (g, l, fp \<noteq> None)" using sound_values [OF x(2)] by (simp add: checkpoint_rank_def)
  ultimately show False using x(1) assms(3) unfolding passed_by_def checkpoint_later_def by (metis less_asym less_irrefl option.inject)
qed

lemma validated_not_won: "(\<And>x. v = Inr x \<Longrightarrow> fst (k x) \<noteq> Inr y) \<Longrightarrow> fst (validated v db k) \<noteq> Inr y"
  by (cases v) (auto simp: validated_def)

lemma required_reload_not_won: "fst (required_reload s a c False db) \<noteq> Inr (q, True)"
  by (auto simp: required_reload_def split: option.splits)

lemma passed_operations_refused:
  assumes "checkpoints_ok db" "checkpoint_reload a c db = Some r" "passed_by l g fp r" "checkpoint_polite s"
  shows "fst (advance_cas s a c (PyInt l) (PyInt g) fp n fp' db) \<noteq> Inr (q, True)"
    and "fst (enroll_anchor s a c (PyInt l) (PyInt g) fp' db) \<noteq> Inr (q, True)"
    and "fst (checkpoint_rewind s a c (PyInt l) (PyInt g) fp n db) \<noteq> Inr (q, True)"
    and "fst (rebase_latest_after_regression s a c (PyInt l) (PyInt g) fp n fp' db) \<noteq> Inr (q, True)"
    and "fst (begin_live_suffix_after_empty_window s a c (PyInt l) (PyInt g) fp n fp' db) \<noteq> Inr (q, True)"
proof -
  have none: "passed_by l g None r" using assms(3) by (cases "fp = None") (auto simp: passed_by_def intro: order.strict_trans [rotated])
  show "fst (advance_cas s a c (PyInt l) (PyInt g) fp n fp' db) \<noteq> Inr (q, True)"
    unfolding advance_cas_def
    by (intro validated_not_won) (auto simp: validated_iffs required_reload_not_won passed_cas_refused [OF assms] advance_moves)
  show "fst (enroll_anchor s a c (PyInt l) (PyInt g) fp' db) \<noteq> Inr (q, True)"
    unfolding enroll_anchor_def
    by (intro validated_not_won) (auto simp: validated_iffs passed_cas_refused [OF assms(1,2) none assms(4)] enroll_moves)
  show "fst (checkpoint_rewind s a c (PyInt l) (PyInt g) fp n db) \<noteq> Inr (q, True)"
    unfolding checkpoint_rewind_def
    by (intro validated_not_won) (auto simp: validated_iffs passed_cas_refused [OF assms] generation_moves)
  show "fst (rebase_latest_after_regression s a c (PyInt l) (PyInt g) fp n fp' db) \<noteq> Inr (q, True)"
    unfolding rebase_latest_after_regression_def
    by (intro validated_not_won) (auto simp: validated_iffs passed_cas_refused [OF assms] generation_moves)
  show "fst (begin_live_suffix_after_empty_window s a c (PyInt l) (PyInt g) fp n fp' db) \<noteq> Inr (q, True)"
    unfolding begin_live_suffix_after_empty_window_def
    by (intro validated_not_won) (auto simp: validated_iffs Let_def passed_cas_refused [OF assms] generation_moves)
qed

end
