(* ===== verification/Wechat_Lifecycle.thy ===== *)
theory Wechat_Lifecycle
  imports Wechat_Checkpoints Thread_Keys "HOL-Library.AList"
begin

text \<open>
  What the poller remembers between its cycles (\<open>WechatPollingLifecycleState\<close> in
  \<open>adapters/wechat/polling_service.py\<close>) and the results it reports (\<open>polling_models.py\<close>). The
  dictionaries are association lists, and \<open>ls_order\<close> is the insertion order of the chats that have
  an entry. The invariant \<open>lifecycle_ok\<close> says that no dictionary has a chat the order has not, and
  that at most \<open>MAX_LIFECYCLE_CHAT_STATES\<close> chats are remembered.
\<close>

section \<open>Results of a poll\<close>

datatype BootstrapMode = LATEST | BACKFILL

definition bootstrap_mode_of :: "string \<Rightarrow> poll_error + BootstrapMode" where
  "bootstrap_mode_of value =
     (if value = ''latest'' then Inr LATEST else if value = ''backfill'' then Inr BACKFILL
      else Inl (PollingError InvalidBootstrapModeError))"

datatype PollFailureStage =
    STAGE_AUTH | STAGE_LIST_CHATS | STAGE_PARSE_CHAT | STAGE_LIST_MESSAGES | STAGE_VALIDATE_MESSAGE | STAGE_NORMALIZE
  | STAGE_POLL_CHAT | STAGE_SINK | STAGE_CHECKPOINT

fun stage_value :: "PollFailureStage \<Rightarrow> string" where
  "stage_value STAGE_AUTH = ''auth''"
| "stage_value STAGE_LIST_CHATS = ''list_chats''"
| "stage_value STAGE_PARSE_CHAT = ''parse_chat''"
| "stage_value STAGE_LIST_MESSAGES = ''list_messages''"
| "stage_value STAGE_VALIDATE_MESSAGE = ''validate_message''"
| "stage_value STAGE_NORMALIZE = ''normalize''"
| "stage_value STAGE_POLL_CHAT = ''poll_chat''"
| "stage_value STAGE_SINK = ''sink''"
| "stage_value STAGE_CHECKPOINT = ''checkpoint''"

datatype MessageSinkDisposition = SINK_CREATED | SINK_DUPLICATE

record PollFailure =
  pf_stage :: PollFailureStage
  pf_code :: string
  pf_conversation_id :: "string option"
  pf_local_id :: "int option"

record ChatPollResult =
  cr_conversation_id :: "string option"
  cr_conversation_name :: "string option"
  cr_succeeded :: bool
  cr_messages_seen :: nat
  cr_messages_processed :: nat
  cr_messages_new :: nat
  cr_messages_duplicate :: nat
  cr_messages_failed :: nat
  cr_messages_skipped_by_checkpoint :: nat
  cr_messages_skipped_as_self :: nat
  cr_messages_without_server_id :: nat
  cr_bootstrapped :: bool
  cr_failures :: "PollFailure list"
  cr_continuity_only :: bool
  cr_continuity_state_ref :: "string option"
  cr_continuity_state_changed :: bool

record PollResult =
  pl_source_account_id :: "string option"
  pl_logged_in :: bool
  pl_chats_seen :: nat
  pl_chats_succeeded :: nat
  pl_chats_failed :: nat
  pl_messages_seen :: nat
  pl_messages_processed :: nat
  pl_messages_new :: nat
  pl_messages_duplicate :: nat
  pl_messages_failed :: nat
  pl_messages_skipped_by_checkpoint :: nat
  pl_messages_skipped_as_self :: nat
  pl_messages_without_server_id :: nat
  pl_bootstrapped_chats :: nat
  pl_failures :: "PollFailure list"
  pl_chat_results :: "ChatPollResult list"

text \<open>The defaults of the fields a result does not name.\<close>

definition chat_result :: "string option \<Rightarrow> string option \<Rightarrow> bool \<Rightarrow> ChatPollResult" where
  "chat_result conversation_id conversation_name succeeded =
     \<lparr>cr_conversation_id = conversation_id, cr_conversation_name = conversation_name, cr_succeeded = succeeded,
      cr_messages_seen = 0, cr_messages_processed = 0, cr_messages_new = 0, cr_messages_duplicate = 0, cr_messages_failed = 0,
      cr_messages_skipped_by_checkpoint = 0, cr_messages_skipped_as_self = 0, cr_messages_without_server_id = 0,
      cr_bootstrapped = False, cr_failures = [], cr_continuity_only = False, cr_continuity_state_ref = None,
      cr_continuity_state_changed = False\<rparr>"

definition poll_failure :: "PollFailureStage \<Rightarrow> poll_error \<Rightarrow> string option \<Rightarrow> int option \<Rightarrow> PollFailure" where
  "poll_failure stage error conversation_id local_id =
     \<lparr>pf_stage = stage,
      pf_code = (case error of
                   PollingError e \<Rightarrow> polling_error_code e
                 | AdapterError code \<Rightarrow> code
                 | OtherError \<Rightarrow> ''wechat_'' @ stage_value stage @ ''_error''),
      pf_conversation_id = conversation_id, pf_local_id = local_id\<rparr>"

definition chat_result_has_immediate_activity :: "ChatPollResult \<Rightarrow> bool" where
  "chat_result_has_immediate_activity result \<longleftrightarrow>
     \<not> cr_succeeded result \<or> cr_failures result \<noteq> [] \<or> cr_bootstrapped result
     \<or> list_ex (\<lambda>count. count > 0) [cr_messages_processed result, cr_messages_new result, cr_messages_duplicate result,
          cr_messages_skipped_as_self result, cr_messages_failed result]"

section \<open>The remembered state\<close>

type_synonym chat_key = "string \<times> string"

record EmptyWindowMarker =
  em_source_account_id :: string
  em_conversation_id :: string
  em_checkpoint_last_local_id :: int
  em_checkpoint_generation :: int
  em_checkpoint_fingerprint :: "string option"
  em_empty_since :: instant
  em_last_empty_observed_at :: instant
  em_observation_count :: nat

record ChatHistoryObservation =
  ho_visible_local_ids :: "int list"
  ho_messages_seen :: nat
  ho_messages_skipped_by_checkpoint :: nat
  ho_messages_without_server_id :: nat

record ContinuityObservation =
  co_checkpoint_local_id :: int
  co_checkpoint_generation :: int
  co_checkpoint_fingerprint :: "string option"
  co_remote_first_local_id :: int
  co_remote_latest_local_id :: int
  co_recovery_action :: string
  co_failure_code :: string

record lifecycle =
  ls_active_source_account_id :: "string option"
  ls_empty_window_markers :: "(chat_key \<times> EmptyWindowMarker) list"
  ls_marker_clock_watermarks :: "(chat_key \<times> instant) list"
  ls_pending_visible_windows :: "(chat_key \<times> int list) list"
  ls_chat_history_observations :: "(chat_key \<times> ChatHistoryObservation) list"
  ls_continuity_observations :: "(chat_key \<times> ContinuityObservation) list"
  ls_order :: "chat_key list"

definition MAX_LIFECYCLE_CHAT_STATES :: nat where "MAX_LIFECYCLE_CHAT_STATES = 1024"

definition new_lifecycle :: lifecycle where
  "new_lifecycle = \<lparr>ls_active_source_account_id = None, ls_empty_window_markers = [], ls_marker_clock_watermarks = [],
     ls_pending_visible_windows = [], ls_chat_history_observations = [], ls_continuity_observations = [], ls_order = []\<rparr>"

definition invalidate_all :: "lifecycle \<Rightarrow> lifecycle" where
  "invalidate_all ls = ls\<lparr>ls_empty_window_markers := [], ls_marker_clock_watermarks := [], ls_pending_visible_windows := [],
     ls_chat_history_observations := [], ls_continuity_observations := [], ls_order := [], ls_active_source_account_id := None\<rparr>"

definition observe_account :: "string \<Rightarrow> lifecycle \<Rightarrow> lifecycle" where
  "observe_account source_account_id ls =
     (if ls_active_source_account_id ls \<noteq> Some source_account_id
      then (invalidate_all ls)\<lparr>ls_active_source_account_id := Some source_account_id\<rparr> else ls)"

definition drop_chat_state :: "chat_key \<Rightarrow> lifecycle \<Rightarrow> lifecycle" where
  "drop_chat_state key ls = ls\<lparr>ls_order := filter (\<lambda>k. k \<noteq> key) (ls_order ls),
     ls_empty_window_markers := AList.delete key (ls_empty_window_markers ls),
     ls_marker_clock_watermarks := AList.delete key (ls_marker_clock_watermarks ls),
     ls_pending_visible_windows := AList.delete key (ls_pending_visible_windows ls),
     ls_chat_history_observations := AList.delete key (ls_chat_history_observations ls),
     ls_continuity_observations := AList.delete key (ls_continuity_observations ls)\<rparr>"

definition invalidate_chat :: "string \<Rightarrow> string \<Rightarrow> lifecycle \<Rightarrow> lifecycle" where
  "invalidate_chat source_account_id conversation_id ls = drop_chat_state (source_account_id, conversation_id) ls"

definition cached_chat_count :: "lifecycle \<Rightarrow> nat" where
  "cached_chat_count ls = length (ls_order ls)"

definition observation_counts :: "lifecycle \<Rightarrow> (string \<times> nat) list" where
  "observation_counts ls =
     [(''chats'', length (ls_order ls)), (''empty_markers'', length (ls_empty_window_markers ls)),
      (''marker_clock_watermarks'', length (ls_marker_clock_watermarks ls)),
      (''pending_windows'', length (ls_pending_visible_windows ls)), (''history'', length (ls_chat_history_observations ls)),
      (''continuity'', length (ls_continuity_observations ls))]"

definition prune_chats :: "string \<Rightarrow> string list \<Rightarrow> lifecycle \<Rightarrow> lifecycle" where
  "prune_chats source_account_id conversation_ids ls =
     foldl (\<lambda>s key. if fst key = source_account_id \<and> snd key \<notin> set conversation_ids then drop_chat_state key s else s)
       ls (ls_order ls)"

definition touch_chat_state :: "chat_key \<Rightarrow> lifecycle \<Rightarrow> lifecycle" where
  "touch_chat_state key ls =
     (let s = (if key \<in> set (ls_order ls) then ls\<lparr>ls_order := filter (\<lambda>k. k \<noteq> key) (ls_order ls)\<rparr>
               else if length (ls_order ls) \<ge> MAX_LIFECYCLE_CHAT_STATES then drop_chat_state (hd (ls_order ls)) ls
               else ls) in
      s\<lparr>ls_order := ls_order s @ [key]\<rparr>)"

definition chat_state_used :: "chat_key \<Rightarrow> lifecycle \<Rightarrow> bool" where
  "chat_state_used key ls \<longleftrightarrow>
     key \<in> fst ` set (ls_empty_window_markers ls) \<or> key \<in> fst ` set (ls_marker_clock_watermarks ls)
     \<or> key \<in> fst ` set (ls_pending_visible_windows ls) \<or> key \<in> fst ` set (ls_chat_history_observations ls)
     \<or> key \<in> fst ` set (ls_continuity_observations ls)"

definition release_chat_state_if_unused :: "chat_key \<Rightarrow> lifecycle \<Rightarrow> lifecycle" where
  "release_chat_state_if_unused key ls =
     (if \<not> chat_state_used key ls then ls\<lparr>ls_order := filter (\<lambda>k. k \<noteq> key) (ls_order ls)\<rparr> else ls)"

definition invalidate_marker_evidence :: "string \<Rightarrow> string \<Rightarrow> lifecycle \<Rightarrow> lifecycle" where
  "invalidate_marker_evidence source_account_id conversation_id ls =
     (let key = (source_account_id, conversation_id) in
      release_chat_state_if_unused key
        (ls\<lparr>ls_empty_window_markers := AList.delete key (ls_empty_window_markers ls),
            ls_pending_visible_windows := AList.delete key (ls_pending_visible_windows ls),
            ls_chat_history_observations := AList.delete key (ls_chat_history_observations ls)\<rparr>))"

definition record_visible_window :: "string \<Rightarrow> string \<Rightarrow> int list \<Rightarrow> lifecycle \<Rightarrow> lifecycle" where
  "record_visible_window source_account_id conversation_id local_ids ls =
     (let key = (source_account_id, conversation_id); s = touch_chat_state key ls in
      s\<lparr>ls_pending_visible_windows := AList.update key local_ids (ls_pending_visible_windows s)\<rparr>)"

text \<open>\<open>value.encode()\<close>, and references that do not reveal the value.\<close>

definition utf8_encode :: "string \<Rightarrow> string" where
  "utf8_encode s = concat (map utf8_char s)"

definition redacted_reference :: "string \<Rightarrow> string \<Rightarrow> string" where
  "redacted_reference kind value = kind @ '':sha256:'' @ take 16 (sha256_hexdigest (utf8_encode (kind @ '':'' @ value)))"

fun join_bar :: "string list \<Rightarrow> string" where
  "join_bar [] = []"
| "join_bar [x] = x"
| "join_bar (x # y # zs) = x @ ''|'' @ join_bar (y # zs)"

definition observe_continuity_failure :: "string \<Rightarrow> string \<Rightarrow> ContinuityObservation \<Rightarrow> lifecycle \<Rightarrow> (bool \<times> string) \<times> lifecycle" where
  "observe_continuity_failure source_account_id conversation_id observation ls =
     (let key = (source_account_id, conversation_id); s = touch_chat_state key ls;
          changed = (map_of (ls_continuity_observations s) key \<noteq> Some observation);
          signature = join_bar [redacted_reference ''source_account'' source_account_id, redacted_reference ''conversation'' conversation_id,
            int_str (co_checkpoint_local_id observation), int_str (co_checkpoint_generation observation),
            (case co_checkpoint_fingerprint observation of None \<Rightarrow> [] | Some f \<Rightarrow> f), int_str (co_remote_first_local_id observation),
            int_str (co_remote_latest_local_id observation), co_recovery_action observation, co_failure_code observation] in
      ((changed, ''continuity:sha256:'' @ take 16 (sha256_hexdigest (utf8_encode signature))),
       s\<lparr>ls_continuity_observations := AList.update key observation (ls_continuity_observations s)\<rparr>))"

datatype log_level = LOG_INFO | LOG_DEBUG

definition chat_result_log_level :: "string \<Rightarrow> ChatPollResult \<Rightarrow> lifecycle \<Rightarrow> log_level \<times> lifecycle" where
  "chat_result_log_level source_account_id result ls =
     (case cr_conversation_id result of
        None \<Rightarrow> (if chat_result_has_immediate_activity result then LOG_INFO else LOG_DEBUG, ls)
      | Some conversation_id \<Rightarrow>
        (let key = (source_account_id, conversation_id);
             visible = (case map_of (ls_pending_visible_windows ls) key of None \<Rightarrow> [] | Some w \<Rightarrow> w);
             s = ls\<lparr>ls_pending_visible_windows := AList.delete key (ls_pending_visible_windows ls)\<rparr>;
             without_history = (\<lambda>x. x\<lparr>ls_chat_history_observations := AList.delete key (ls_chat_history_observations x)\<rparr>) in
         if cr_continuity_only result
         then (if cr_continuity_state_changed result then LOG_INFO else LOG_DEBUG, without_history s)
         else
           (let t = s\<lparr>ls_continuity_observations := AList.delete key (ls_continuity_observations s)\<rparr> in
            if chat_result_has_immediate_activity result then (LOG_INFO, release_chat_state_if_unused key (without_history t))
            else if cr_messages_seen result = 0 then (LOG_DEBUG, release_chat_state_if_unused key (without_history t))
            else
              (let u = touch_chat_state key t;
                   observation = \<lparr>ho_visible_local_ids = visible, ho_messages_seen = cr_messages_seen result,
                     ho_messages_skipped_by_checkpoint = cr_messages_skipped_by_checkpoint result,
                     ho_messages_without_server_id = cr_messages_without_server_id result\<rparr>;
                   previous = map_of (ls_chat_history_observations u) key in
               (if Some observation \<noteq> previous then LOG_INFO else LOG_DEBUG,
                u\<lparr>ls_chat_history_observations := AList.update key observation (ls_chat_history_observations u)\<rparr>)))))"

section \<open>Empty windows\<close>

definition aware_utc :: "py_datetime \<Rightarrow> instant option" where
  "aware_utc value = (case value of Aware t \<Rightarrow> Some t | Naive _ \<Rightarrow> None)"

definition valid_checkpoint_marker_state :: "WechatSyncCheckpoint option \<Rightarrow> bool" where
  "valid_checkpoint_marker_state checkpoint =
     (case checkpoint of
        None \<Rightarrow> False
      | Some r \<Rightarrow>
          0 < k_last_local_id r \<and> k_last_local_id r \<le> MAX_CHECKPOINT_LOCAL_ID
          \<and> 0 \<le> k_regression_generation r \<and> k_regression_generation r \<le> MAX_CHECKPOINT_LOCAL_ID
          \<and> (case k_last_message_fingerprint r of None \<Rightarrow> False | Some f \<Rightarrow> fingerprint_text f))"

definition marker_matches_checkpoint :: "EmptyWindowMarker \<Rightarrow> WechatSyncCheckpoint option \<Rightarrow> bool" where
  "marker_matches_checkpoint marker checkpoint \<longleftrightarrow>
     valid_checkpoint_marker_state checkpoint
     \<and> (case checkpoint of
          None \<Rightarrow> False
        | Some r \<Rightarrow> k_last_local_id r = em_checkpoint_last_local_id marker
            \<and> k_regression_generation r = em_checkpoint_generation marker
            \<and> k_last_message_fingerprint r = em_checkpoint_fingerprint marker)"

text \<open>The clock of the state: what it returns, or nothing when it raises.\<close>

definition record_empty_window ::
  "py_datetime option \<Rightarrow> string \<Rightarrow> string \<Rightarrow> WechatSyncCheckpoint \<Rightarrow> lifecycle \<Rightarrow> bool \<times> lifecycle"
where
  "record_empty_window clock source_account_id conversation_id checkpoint ls =
     (let key = (source_account_id, conversation_id); s = touch_chat_state key ls;
          refused = (\<lambda>x. (False, invalidate_marker_evidence source_account_id conversation_id x)) in
      if \<not> valid_checkpoint_marker_state (Some checkpoint) then refused s
      else
        (case Option.bind clock aware_utc of
           None \<Rightarrow> refused s
         | Some observed_at \<Rightarrow>
           if (case map_of (ls_marker_clock_watermarks s) key of None \<Rightarrow> False | Some previous \<Rightarrow> observed_at < previous)
           then refused s
           else
             (let t = s\<lparr>ls_marker_clock_watermarks := AList.update key observed_at (ls_marker_clock_watermarks s)\<rparr> in
              case map_of (ls_empty_window_markers t) key of
                Some existing \<Rightarrow>
                  if \<not> marker_matches_checkpoint existing (Some checkpoint) then refused t
                  else if observed_at < em_last_empty_observed_at existing then refused t
                  else (True, t\<lparr>ls_empty_window_markers := AList.update key
                         (existing\<lparr>em_source_account_id := source_account_id, em_conversation_id := conversation_id,
                            em_last_empty_observed_at := observed_at, em_observation_count := em_observation_count existing + 1\<rparr>)
                         (ls_empty_window_markers t)\<rparr>)
              | None \<Rightarrow>
                  (True, t\<lparr>ls_empty_window_markers := AList.update key
                     \<lparr>em_source_account_id = source_account_id, em_conversation_id = conversation_id,
                      em_checkpoint_last_local_id = k_last_local_id checkpoint,
                      em_checkpoint_generation = k_regression_generation checkpoint,
                      em_checkpoint_fingerprint = k_last_message_fingerprint checkpoint,
                      em_empty_since = observed_at, em_last_empty_observed_at = observed_at, em_observation_count = 1\<rparr>
                     (ls_empty_window_markers t)\<rparr>))))"

definition take_empty_window :: "string \<Rightarrow> string \<Rightarrow> lifecycle \<Rightarrow> EmptyWindowMarker option \<times> lifecycle" where
  "take_empty_window source_account_id conversation_id ls =
     (let key = (source_account_id, conversation_id) in
      (map_of (ls_empty_window_markers ls) key,
       ls\<lparr>ls_empty_window_markers := AList.delete key (ls_empty_window_markers ls),
          ls_marker_clock_watermarks := AList.delete key (ls_marker_clock_watermarks ls)\<rparr>))"

section \<open>The memory of the poller is bounded\<close>

definition keyed_by :: "('k \<times> 'v) list \<Rightarrow> 'k list \<Rightarrow> bool" where
  "keyed_by d ks \<longleftrightarrow> distinct (map fst d) \<and> fst ` set d \<subseteq> set ks"

definition lifecycle_ok :: "lifecycle \<Rightarrow> bool" where
  "lifecycle_ok ls \<longleftrightarrow>
     distinct (ls_order ls) \<and> length (ls_order ls) \<le> MAX_LIFECYCLE_CHAT_STATES
     \<and> keyed_by (ls_empty_window_markers ls) (ls_order ls) \<and> keyed_by (ls_marker_clock_watermarks ls) (ls_order ls)
     \<and> keyed_by (ls_pending_visible_windows ls) (ls_order ls) \<and> keyed_by (ls_chat_history_observations ls) (ls_order ls)
     \<and> keyed_by (ls_continuity_observations ls) (ls_order ls)"

lemma keyed_by_Nil [simp]: "keyed_by [] ks"
  by (simp add: keyed_by_def)

lemma keyed_by_delete [intro]: "keyed_by d ks \<Longrightarrow> keyed_by (AList.delete k d) ks"
  by (auto simp: keyed_by_def AList.delete_eq distinct_map intro: inj_on_subset)

lemma keyed_by_drop [intro]: "keyed_by d ks \<Longrightarrow> keyed_by (AList.delete k d) (filter (\<lambda>x. x \<noteq> k) ks)"
  by (auto simp: keyed_by_def AList.delete_eq distinct_map intro: inj_on_subset)

lemma keyed_by_update [intro]: "keyed_by d ks \<Longrightarrow> k \<in> set ks \<Longrightarrow> keyed_by (AList.update k v d) ks"
  using AList.dom_update [of k v d] by (auto simp: keyed_by_def AList.distinct_update)

lemma keyed_by_mono: "keyed_by d ks \<Longrightarrow> set ks \<subseteq> set ks' \<Longrightarrow> keyed_by d ks'"
  by (auto simp: keyed_by_def)

lemma keyed_by_unused: "keyed_by d ks \<Longrightarrow> k \<notin> fst ` set d \<Longrightarrow> keyed_by d (filter (\<lambda>x. x \<noteq> k) ks)"
  by (auto simp: keyed_by_def)

lemma keyed_by_length: "keyed_by d ks \<Longrightarrow> length d \<le> length ks"
proof -
  assume a: "keyed_by d ks"
  have "length d = card (fst ` set d)" using distinct_card [of "map fst d"] a by (simp add: keyed_by_def)
  also have "\<dots> \<le> card (set ks)" using a by (simp add: keyed_by_def card_mono)
  also have "\<dots> \<le> length ks" by (rule card_length)
  finally show ?thesis .
qed

lemma filter_length_le: "length xs \<le> n \<Longrightarrow> length (filter p xs) \<le> n"
  by (rule le_trans [OF length_filter_le])

lemma new_lifecycle_ok: "lifecycle_ok new_lifecycle"
  by (simp add: lifecycle_ok_def new_lifecycle_def)

lemma invalidate_all_ok: "lifecycle_ok (invalidate_all ls)"
  by (simp add: lifecycle_ok_def invalidate_all_def)

lemma observe_account_ok: "lifecycle_ok ls \<Longrightarrow> lifecycle_ok (observe_account a ls)"
  using invalidate_all_ok [of ls] by (simp add: observe_account_def lifecycle_ok_def)

lemma drop_chat_state_ok: "lifecycle_ok ls \<Longrightarrow> lifecycle_ok (drop_chat_state k ls)"
  by (auto simp: lifecycle_ok_def drop_chat_state_def intro: filter_length_le)

lemma invalidate_chat_ok: "lifecycle_ok ls \<Longrightarrow> lifecycle_ok (invalidate_chat a c ls)"
  by (simp add: invalidate_chat_def drop_chat_state_ok)

lemma prune_chats_ok: "lifecycle_ok ls \<Longrightarrow> lifecycle_ok (prune_chats a cs ls)"
proof -
  have "lifecycle_ok s \<Longrightarrow> lifecycle_ok (foldl (\<lambda>s key. if fst key = a \<and> snd key \<notin> set cs then drop_chat_state key s else s) s ks)" for s ks
    by (induction ks arbitrary: s) (simp_all add: drop_chat_state_ok)
  then show "lifecycle_ok ls \<Longrightarrow> ?thesis" by (simp add: prune_chats_def)
qed

lemma release_ok: "lifecycle_ok ls \<Longrightarrow> lifecycle_ok (release_chat_state_if_unused k ls)"
  by (auto simp: release_chat_state_if_unused_def chat_state_used_def lifecycle_ok_def intro: keyed_by_unused filter_length_le)

lemma dropped_head_length: "xs \<noteq> [] \<Longrightarrow> length (filter (\<lambda>k. k \<noteq> hd xs) xs) < length xs"
  by (cases xs) (auto simp: less_Suc_eq_le)

lemma touch_ok:
  assumes "lifecycle_ok ls"
  shows "lifecycle_ok (touch_chat_state k ls) \<and> k \<in> set (ls_order (touch_chat_state k ls))"
proof -
  let ?d = "drop_chat_state (hd (ls_order ls)) ls"
  consider (known) "k \<in> set (ls_order ls)"
    | (full) "k \<notin> set (ls_order ls)" "length (ls_order ls) \<ge> MAX_LIFECYCLE_CHAT_STATES"
    | (room) "k \<notin> set (ls_order ls)" "length (ls_order ls) < MAX_LIFECYCLE_CHAT_STATES" by linarith
  then show ?thesis
  proof cases
    case known
    have "length (filter (\<lambda>x. x \<noteq> k) (ls_order ls)) < length (ls_order ls)" by (rule length_filter_less [OF known]) simp
    then show ?thesis
      using known assms by (auto simp: touch_chat_state_def Let_def lifecycle_ok_def intro: keyed_by_mono)
  next
    case full
    then have "ls_order ls \<noteq> []" by (auto simp: MAX_LIFECYCLE_CHAT_STATES_def)
    then have "length (ls_order ?d) < length (ls_order ls)" "k \<notin> set (ls_order ?d)"
      using full(1) dropped_head_length [of "ls_order ls"] by (auto simp: drop_chat_state_def)
    then show ?thesis
      using full drop_chat_state_ok [OF assms, of "hd (ls_order ls)"] assms
      by (auto simp: touch_chat_state_def Let_def lifecycle_ok_def intro: keyed_by_mono)
  next
    case room
    then show ?thesis using assms by (auto simp: touch_chat_state_def Let_def lifecycle_ok_def intro: keyed_by_mono)
  qed
qed

lemmas touched = touch_ok [THEN conjunct1] touch_ok [THEN conjunct2]

lemma invalidate_marker_evidence_ok: "lifecycle_ok ls \<Longrightarrow> lifecycle_ok (invalidate_marker_evidence a c ls)"
  unfolding invalidate_marker_evidence_def Let_def by (rule release_ok) (auto simp: lifecycle_ok_def)

lemma record_visible_window_ok: "lifecycle_ok ls \<Longrightarrow> lifecycle_ok (record_visible_window a c w ls)"
  using touch_ok [of ls "(a, c)"] by (auto simp: record_visible_window_def Let_def lifecycle_ok_def)

lemma observe_continuity_failure_ok: "lifecycle_ok ls \<Longrightarrow> lifecycle_ok (snd (observe_continuity_failure a c x ls))"
  using touch_ok [of ls "(a, c)"] by (auto simp: observe_continuity_failure_def Let_def lifecycle_ok_def)

lemma record_empty_window_ok:
  assumes "lifecycle_ok ls"
  shows "lifecycle_ok (snd (record_empty_window clock a c r ls))"
proof -
  let ?s = "touch_chat_state (a, c) ls"
  have s: "lifecycle_ok ?s" "(a, c) \<in> set (ls_order ?s)" using touch_ok [OF assms] by simp_all
  have t: "lifecycle_ok (?s\<lparr>ls_marker_clock_watermarks := AList.update (a, c) x (ls_marker_clock_watermarks ?s)\<rparr>)" for x
    using s by (auto simp: lifecycle_ok_def)
  have m: "lifecycle_ok (?s\<lparr>ls_marker_clock_watermarks := AList.update (a, c) x (ls_marker_clock_watermarks ?s),
      ls_empty_window_markers := AList.update (a, c) y (ls_empty_window_markers ?s)\<rparr>)" for x y
    using s by (auto simp: lifecycle_ok_def)
  show ?thesis
    using s t m by (simp add: record_empty_window_def Let_def invalidate_marker_evidence_ok split: option.splits)
qed

lemma take_empty_window_ok: "lifecycle_ok ls \<Longrightarrow> lifecycle_ok (snd (take_empty_window a c ls))"
  by (auto simp: take_empty_window_def Let_def lifecycle_ok_def)

lemma chat_result_log_level_ok:
  assumes "lifecycle_ok ls"
  shows "lifecycle_ok (snd (chat_result_log_level a result ls))"
proof (cases "cr_conversation_id result")
  case None
  with assms show ?thesis by (simp add: chat_result_log_level_def)
next
  case (Some c)
  let ?s = "ls\<lparr>ls_pending_visible_windows := AList.delete (a, c) (ls_pending_visible_windows ls)\<rparr>"
  let ?t = "?s\<lparr>ls_continuity_observations := AList.delete (a, c) (ls_continuity_observations ?s)\<rparr>"
  have s: "lifecycle_ok ?s" "lifecycle_ok ?t"
    "lifecycle_ok (?s\<lparr>ls_chat_history_observations := AList.delete (a, c) (ls_chat_history_observations ?s)\<rparr>)"
    "lifecycle_ok (?t\<lparr>ls_chat_history_observations := AList.delete (a, c) (ls_chat_history_observations ?t)\<rparr>)"
    using assms by (auto simp: lifecycle_ok_def)
  let ?u = "touch_chat_state (a, c) ?t"
  have u: "lifecycle_ok (?u\<lparr>ls_chat_history_observations := AList.update (a, c) x (ls_chat_history_observations ?u)\<rparr>)" for x
    using touch_ok [OF s(2), of "(a, c)"] by (auto simp: lifecycle_ok_def)
  show ?thesis
    using s u release_ok [OF s(4)] by (simp add: chat_result_log_level_def Some Let_def)
qed

lemma observation_counts_bounded:
  assumes "lifecycle_ok ls" "(name, n) \<in> set (observation_counts ls)"
  shows "n \<le> MAX_LIFECYCLE_CHAT_STATES"
  using assms by (auto simp: observation_counts_def lifecycle_ok_def dest!: keyed_by_length)

lemmas lifecycle_ok_rules = invalidate_all_ok observe_account_ok invalidate_chat_ok prune_chats_ok record_visible_window_ok
  observe_continuity_failure_ok record_empty_window_ok take_empty_window_ok chat_result_log_level_ok

end
