(* ===== verification/Wechat_Messages.thy ===== *)
theory Wechat_Messages
  imports Wechat_Lifecycle Message_Store
begin

text \<open>
  Messages of WeChat: the raw form the API returns (\<open>adapters/wechat/raw_models.py\<close>), the normalized
  form with its event id and the fingerprint of a checkpoint (\<open>normalizer.py\<close>,
  \<open>normalized_models.py\<close>), and the event the gateway stores (\<open>message_event.py\<close> with the fields of
  \<open>message/schemas.py\<close>). The schema library's \<open>model_validate\<close> of a mapping and the XML parser are
  arguments. JSON numbers are integers.
\<close>

section \<open>Standard library\<close>

text \<open>\<open>int(text)\<close> for a decimal literal: white space around it, a sign, single underscores between
  digits, and at most 4300 digits.\<close>

definition ascii_digit :: "char \<Rightarrow> bool" where
  "ascii_digit c \<longleftrightarrow> 48 \<le> (of_char c :: nat) \<and> (of_char c :: nat) \<le> 57"

definition INT_MAX_STR_DIGITS :: nat where "INT_MAX_STR_DIGITS = 4300"

fun digit_groups :: "bool \<Rightarrow> string \<Rightarrow> string option" where
  "digit_groups after_digit [] = (if after_digit then Some [] else None)"
| "digit_groups after_digit (c # cs) =
     (if ascii_digit c then map_option ((#) c) (digit_groups True cs)
      else if c = CHR ''_'' \<and> after_digit then digit_groups False cs
      else None)"

definition py_int :: "string \<Rightarrow> int option" where
  "py_int text =
     (let s = py_strip text;
          negative = (s \<noteq> [] \<and> hd s = CHR ''-'');
          body = (if s \<noteq> [] \<and> hd s \<in> {CHR ''-'', CHR ''+''} then tl s else s) in
      case digit_groups False body of
        None \<Rightarrow> None
      | Some ds \<Rightarrow> if length ds > INT_MAX_STR_DIGITS then None
                   else Some (if negative then - int (str_nat ds) else int (str_nat ds)))"

text \<open>\<open>isoformat\<close> of a datetime in UTC, from microseconds since 1970.\<close>

definition civil_date :: "int \<Rightarrow> int \<times> int \<times> int" where
  "civil_date days =
     (let z = days + 719468; era = z div 146097; doe = z mod 146097;
          yoe = (doe - doe div 1460 + doe div 36524 - doe div 146096) div 365;
          doy = doe - (365 * yoe + yoe div 4 - yoe div 100); mp = (5 * doy + 2) div 153;
          month = (if mp < 10 then mp + 3 else mp - 9) in
      (yoe + era * 400 + (if month \<le> 2 then 1 else 0), month, doy - (153 * mp + 2) div 5 + 1))"

definition pad_int :: "nat \<Rightarrow> int \<Rightarrow> string" where
  "pad_int width n = (let s = int_str n in replicate (width - length s) CHR ''0'' @ s)"

definition utc_isoformat :: "instant \<Rightarrow> string" where
  "utc_isoformat t =
     (let (year, month, day) = civil_date (t div 86400000000); us = t mod 86400000000; seconds = us div 1000000; fraction = us mod 1000000 in
      pad_int 4 year @ ''-'' @ pad_int 2 month @ ''-'' @ pad_int 2 day @ ''T''
      @ pad_int 2 (seconds div 3600) @ '':'' @ pad_int 2 (seconds div 60 mod 60) @ '':'' @ pad_int 2 (seconds mod 60)
      @ (if fraction = 0 then [] else ''.'' @ pad_int 6 fraction) @ ''+00:00'')"

text \<open>An XML element: its tag, the text before its first child, and its children.\<close>

datatype xml = Xml string "string option" "xml list"

fun xml_tag :: "xml \<Rightarrow> string" where
  "xml_tag (Xml tag _ _) = tag"

fun xml_children :: "xml \<Rightarrow> xml list" where
  "xml_children (Xml _ _ cs) = cs"

text \<open>\<open>find(".//tag")\<close>: the first descendant in document order.\<close>

fun xml_find :: "string \<Rightarrow> xml list \<Rightarrow> xml option" where
  "xml_find tag [] = None"
| "xml_find tag (Xml t x cs # rest) =
     (if t = tag then Some (Xml t x cs)
      else (case xml_find tag cs of Some e \<Rightarrow> Some e | None \<Rightarrow> xml_find tag rest))"

text \<open>\<open>findtext(tag)\<close>: the text of the first child with the tag, empty when it has none.\<close>

definition xml_findtext :: "string \<Rightarrow> xml \<Rightarrow> string option" where
  "xml_findtext tag e =
     (case find (\<lambda>c. xml_tag c = tag) (xml_children e) of
        None \<Rightarrow> None
      | Some (Xml _ t _) \<Rightarrow> Some (case t of None \<Rightarrow> [] | Some s \<Rightarrow> s))"

section \<open>Raw messages\<close>

record AgentWechatAuthStatus =
  au_logged_in_user :: "string option"
  au_status :: string

definition auth_source_account_id :: "AgentWechatAuthStatus \<Rightarrow> string option" where
  "auth_source_account_id auth = (if au_status auth = ''logged_in'' then au_logged_in_user auth else None)"

record RawWechatMessage =
  rw_raw_payload :: json
  rw_local_id :: json
  rw_server_id :: json
  rw_chat_id :: string
  rw_sender :: "string option"
  rw_sender_name :: "string option"
  rw_type :: int
  rw_content :: string
  rw_timestamp :: py_datetime
  rw_is_mentioned :: json
  rw_is_self :: json
  rw_reply :: json

text \<open>What the client returns: a validated model, a mapping, or something else.\<close>

datatype raw_item = RawModel RawWechatMessage | RawMapping "(string \<times> json) list" | RawOther

definition item_field :: "(RawWechatMessage \<Rightarrow> json) \<Rightarrow> string \<Rightarrow> raw_item \<Rightarrow> json" where
  "item_field field key item =
     (case item of
        RawModel m \<Rightarrow> field m
      | RawMapping kvs \<Rightarrow> (case map_of kvs key of None \<Rightarrow> JNull | Some v \<Rightarrow> v)
      | RawOther \<Rightarrow> JNull)"

type_synonym model_validator = "(string \<times> json) list \<Rightarrow> RawWechatMessage option"

definition NORMALIZATION_ERROR :: poll_error where "NORMALIZATION_ERROR = AdapterError ''wechat_normalization_error''"

definition raw_message :: "model_validator \<Rightarrow> raw_item \<Rightarrow> poll_error + RawWechatMessage" where
  "raw_message model_validate raw =
     (case raw of
        RawModel m \<Rightarrow> Inr m
      | RawMapping kvs \<Rightarrow> (case model_validate kvs of None \<Rightarrow> Inl NORMALIZATION_ERROR | Some m \<Rightarrow> Inr m)
      | RawOther \<Rightarrow> Inl NORMALIZATION_ERROR)"

section \<open>Normalized messages\<close>

datatype WechatConversationType = WX_GROUP | WX_PRIVATE

fun conversation_type_value :: "WechatConversationType \<Rightarrow> string" where
  "conversation_type_value WX_GROUP = ''group''"
| "conversation_type_value WX_PRIVATE = ''private''"

datatype WechatMessageType = WX_APP | WX_FILE | WX_FORWARD | WX_IMAGE | WX_REPLY | WX_SYSTEM | WX_TEXT | WX_UNKNOWN

fun message_type_value :: "WechatMessageType \<Rightarrow> string" where
  "message_type_value WX_APP = ''app''"
| "message_type_value WX_FILE = ''file''"
| "message_type_value WX_FORWARD = ''forward''"
| "message_type_value WX_IMAGE = ''image''"
| "message_type_value WX_REPLY = ''reply''"
| "message_type_value WX_SYSTEM = ''system''"
| "message_type_value WX_TEXT = ''text''"
| "message_type_value WX_UNKNOWN = ''unknown''"

datatype WechatSenderType = WX_HUMAN_SENDER | WX_SYSTEM_SENDER

fun wechat_sender_value :: "WechatSenderType \<Rightarrow> string" where
  "wechat_sender_value WX_HUMAN_SENDER = ''human''"
| "wechat_sender_value WX_SYSTEM_SENDER = ''system''"

record WechatReplySummary =
  rs_local_id :: "string option"
  rs_server_id :: "string option"
  rs_sender_id :: "string option"
  rs_sender_name :: "string option"
  rs_raw_type :: "int option"
  rs_content :: "string option"

record NormalizedWechatMessage =
  nm_source :: string
  nm_source_account_id :: string
  nm_source_message_id :: string
  nm_source_local_id :: "string option"
  nm_source_server_id :: "string option"
  nm_source_message_id_is_fallback :: bool
  nm_event_id :: string
  nm_conversation_id :: string
  nm_conversation_type :: WechatConversationType
  nm_conversation_name :: "string option"
  nm_sender_type :: WechatSenderType
  nm_sender_id :: "string option"
  nm_sender_name :: "string option"
  nm_message_type :: WechatMessageType
  nm_raw_type :: int
  nm_content :: string
  nm_timestamp :: py_datetime
  nm_is_mentioned :: "bool option"
  nm_is_self :: bool
  nm_reply :: "WechatReplySummary option"
  nm_raw_payload :: "json option"

section \<open>Normalization\<close>

definition EVENT_ID_VERSION :: int where "EVENT_ID_VERSION = 1"
definition LOCAL_MESSAGE_ID_VERSION :: int where "LOCAL_MESSAGE_ID_VERSION = 1"
definition GENERATION_LOCAL_MESSAGE_ID_VERSION :: int where "GENERATION_LOCAL_MESSAGE_ID_VERSION = 2"
definition CHECKPOINT_FINGERPRINT_VERSION :: int where "CHECKPOINT_FINGERPRINT_VERSION = 1"
definition FALLBACK_CHECKPOINT_FINGERPRINT_VERSION :: int where "FALLBACK_CHECKPOINT_FINGERPRINT_VERSION = 1"
definition WECHAT_SOURCE :: string where "WECHAT_SOURCE = ''wechat''"

definition optional_text :: "string option \<Rightarrow> string option" where
  "optional_text value = (case value of None \<Rightarrow> None | Some v \<Rightarrow> if py_strip v = [] then None else Some (py_strip v))"

definition optional_string :: "json \<Rightarrow> string option" where
  "optional_string value = (case value of JStr s \<Rightarrow> optional_text (Some s) | _ \<Rightarrow> None)"

definition required_text :: "string option \<Rightarrow> poll_error + string" where
  "required_text value = (case optional_text value of None \<Rightarrow> Inl NORMALIZATION_ERROR | Some v \<Rightarrow> Inr v)"

definition usable_id :: "json \<Rightarrow> string option" where
  "usable_id value =
     (case value of
        JInt n \<Rightarrow> if n > 0 then Some (int_str n) else None
      | JStr s \<Rightarrow> if py_strip s \<noteq> [] \<and> py_strip s \<noteq> ''0'' then Some (py_strip s) else None
      | _ \<Rightarrow> None)"

definition wechat_digest :: "(string \<times> json) list \<Rightarrow> string" where
  "wechat_digest kvs = sha256_hexdigest (utf8_dumps (JObj kvs))"

definition validated_generation :: "int \<Rightarrow> poll_error + int" where
  "validated_generation value = (if 0 \<le> value \<and> value \<le> 2 ^ 63 - 1 then Inr value else Inl NORMALIZATION_ERROR)"

definition source_message_fields :: "string \<Rightarrow> string \<Rightarrow> string \<Rightarrow> int \<Rightarrow> (string \<times> json) list" where
  "source_message_fields account_id chat_id local_id generation =
     [(''account_id'', JStr account_id), (''chat_id'', JStr chat_id)]
     @ (if generation > 0 then [(''generation'', JInt generation)] else [])
     @ [(''local_id'', JStr local_id), (''platform'', JStr WECHAT_SOURCE),
        (''version'', JInt (if generation > 0 then GENERATION_LOCAL_MESSAGE_ID_VERSION else LOCAL_MESSAGE_ID_VERSION))]"

text \<open>The ids were stripped before, so \<open>_usable_id\<close> leaves them as they are.\<close>

definition wechat_source_message_id ::
  "string option \<Rightarrow> string option \<Rightarrow> string \<Rightarrow> string \<Rightarrow> int \<Rightarrow> poll_error + string \<times> bool"
where
  "wechat_source_message_id server_id local_id account_id chat_id generation =
     (case Option.bind server_id (\<lambda>s. usable_id (JStr s)) of
        Some stable_id \<Rightarrow> Inr (stable_id, False)
      | None \<Rightarrow>
        (case Option.bind local_id (\<lambda>s. usable_id (JStr s)) of
           None \<Rightarrow> Inl NORMALIZATION_ERROR
         | Some fallback \<Rightarrow>
             Inr (''local:v'' @ int_str (if generation > 0 then GENERATION_LOCAL_MESSAGE_ID_VERSION else LOCAL_MESSAGE_ID_VERSION)
                  @ '':'' @ wechat_digest (source_message_fields account_id chat_id fallback generation), True)))"

definition event_id_fields :: "string \<Rightarrow> string \<Rightarrow> string \<Rightarrow> (string \<times> json) list" where
  "event_id_fields account_id chat_id source_message_id =
     [(''account_id'', JStr account_id), (''chat_id'', JStr chat_id), (''platform'', JStr WECHAT_SOURCE),
      (''source_message_id'', JStr source_message_id), (''version'', JInt EVENT_ID_VERSION)]"

definition build_wechat_event_id :: "string \<Rightarrow> string \<Rightarrow> string \<Rightarrow> poll_error + string" where
  "build_wechat_event_id source_account_id chat_id source_message_id =
     (case required_text (Some source_account_id) of
        Inl e \<Rightarrow> Inl e
      | Inr account_id \<Rightarrow>
        (case required_text (Some chat_id) of
           Inl e \<Rightarrow> Inl e
         | Inr chat \<Rightarrow>
           (case required_text (Some source_message_id) of
              Inl e \<Rightarrow> Inl e
            | Inr message \<Rightarrow>
                Inr (''v'' @ int_str EVENT_ID_VERSION @ '':'' @ WECHAT_SOURCE @ '':'' @ wechat_digest (event_id_fields account_id chat message)))))"

definition app_message_subtype :: "(string \<Rightarrow> xml option) \<Rightarrow> string \<Rightarrow> int option" where
  "app_message_subtype parse_xml content =
     (case parse_xml content of
        None \<Rightarrow> None
      | Some document \<Rightarrow>
        (case (if xml_tag document = ''appmsg'' then Some document else xml_find ''appmsg'' (xml_children document)) of
           None \<Rightarrow> None
         | Some app_message \<Rightarrow> Option.bind (xml_findtext ''type'' app_message) py_int))"

definition wechat_message_type :: "(string \<Rightarrow> xml option) \<Rightarrow> RawWechatMessage \<Rightarrow> WechatReplySummary option \<Rightarrow> WechatMessageType" where
  "wechat_message_type parse_xml message reply =
     (if rw_type message = 10000 then WX_SYSTEM
      else if rw_type message = 1 then WX_TEXT
      else if rw_type message = 3 then WX_IMAGE
      else if rw_type message \<noteq> 49 then WX_UNKNOWN
      else if reply \<noteq> None then WX_REPLY
      else
        (let subtype = app_message_subtype parse_xml (rw_content message) in
         if subtype = Some 6 then WX_FILE else if subtype = Some 19 then WX_FORWARD else WX_APP))"

definition json_field :: "json \<Rightarrow> string \<Rightarrow> json" where
  "json_field j key = (case json_get j key of None \<Rightarrow> JNull | Some v \<Rightarrow> v)"

definition reply_summary :: "json \<Rightarrow> WechatReplySummary option" where
  "reply_summary reply =
     (case reply of
        JStr s \<Rightarrow>
          (case optional_text (Some s) of
             None \<Rightarrow> None
           | Some content \<Rightarrow> Some \<lparr>rs_local_id = None, rs_server_id = None, rs_sender_id = None, rs_sender_name = None,
               rs_raw_type = None, rs_content = Some content\<rparr>)
      | JObj kvs \<Rightarrow>
          (let summary = \<lparr>rs_local_id = usable_id (json_field reply ''localId''), rs_server_id = usable_id (json_field reply ''serverId''),
                 rs_sender_id = optional_string (json_field reply ''sender''), rs_sender_name = optional_string (json_field reply ''senderName''),
                 rs_raw_type = (case json_field reply ''type'' of JInt n \<Rightarrow> Some n | _ \<Rightarrow> None),
                 rs_content = optional_string (json_field reply ''content'')\<rparr> in
           if rs_local_id summary \<noteq> None \<or> rs_server_id summary \<noteq> None \<or> rs_sender_id summary \<noteq> None
              \<or> rs_sender_name summary \<noteq> None \<or> rs_raw_type summary \<noteq> None \<or> rs_content summary \<noteq> None
           then Some summary else None)
      | _ \<Rightarrow> None)"

definition ends_with :: "string \<Rightarrow> string \<Rightarrow> bool" where
  "ends_with suffix s \<longleftrightarrow> length suffix \<le> length s \<and> drop (length s - length suffix) s = suffix"

definition normalized_message ::
  "(string \<Rightarrow> xml option) \<Rightarrow> RawWechatMessage \<Rightarrow> string \<Rightarrow> string \<Rightarrow> string option \<Rightarrow> string option \<Rightarrow> string \<times> bool \<Rightarrow> string
     \<Rightarrow> NormalizedWechatMessage"
where
  "normalized_message parse_xml message account_id chat_id sender_id conversation_name source event_id =
     (let conversation_type = (if ends_with ''@chatroom'' chat_id then WX_GROUP else WX_PRIVATE);
          reply = reply_summary (rw_reply message) in
      \<lparr>nm_source = WECHAT_SOURCE, nm_source_account_id = account_id, nm_source_message_id = fst source,
       nm_source_local_id = usable_id (rw_local_id message), nm_source_server_id = usable_id (rw_server_id message),
       nm_source_message_id_is_fallback = snd source, nm_event_id = event_id, nm_conversation_id = chat_id,
       nm_conversation_type = conversation_type, nm_conversation_name = conversation_name,
       nm_sender_type = (if rw_type message = 10000 then WX_SYSTEM_SENDER else WX_HUMAN_SENDER), nm_sender_id = sender_id,
       nm_sender_name = rw_sender_name message, nm_message_type = wechat_message_type parse_xml message reply,
       nm_raw_type = rw_type message, nm_content = rw_content message, nm_timestamp = rw_timestamp message,
       nm_is_mentioned = (if conversation_type = WX_GROUP then Some (rw_is_mentioned message = JBool True) else None),
       nm_is_self = (rw_is_self message = JBool True), nm_reply = reply, nm_raw_payload = Some (rw_raw_payload message)\<rparr>)"

definition normalize_wechat_message ::
  "model_validator \<Rightarrow> (string \<Rightarrow> xml option) \<Rightarrow> raw_item \<Rightarrow> string \<Rightarrow> string option \<Rightarrow> int \<Rightarrow> poll_error + NormalizedWechatMessage"
where
  "normalize_wechat_message model_validate parse_xml raw source_account_id conversation_name regression_generation =
     (case raw_message model_validate raw of
        Inl e \<Rightarrow> Inl e
      | Inr message \<Rightarrow>
     (case required_text (Some source_account_id) of
        Inl e \<Rightarrow> Inl e
      | Inr account_id \<Rightarrow>
     (case required_text (Some (rw_chat_id message)) of
        Inl e \<Rightarrow> Inl e
      | Inr chat_id \<Rightarrow>
     (case (if rw_type message = 10000 then Inr (optional_text (rw_sender message)) else map_sum id Some (required_text (rw_sender message))) of
        Inl e \<Rightarrow> Inl e
      | Inr sender_id \<Rightarrow>
     (case validated_generation regression_generation of
        Inl e \<Rightarrow> Inl e
      | Inr generation \<Rightarrow>
     (case wechat_source_message_id (usable_id (rw_server_id message)) (usable_id (rw_local_id message)) account_id chat_id generation of
        Inl e \<Rightarrow> Inl e
      | Inr source \<Rightarrow>
     (case build_wechat_event_id account_id chat_id (fst source) of
        Inl e \<Rightarrow> Inl e
      | Inr event_id \<Rightarrow> Inr (normalized_message parse_xml message account_id chat_id sender_id conversation_name source event_id))))))))"

definition fallback_fingerprint_fields :: "RawWechatMessage \<Rightarrow> string \<Rightarrow> string \<Rightarrow> (string \<times> json) list" where
  "fallback_fingerprint_fields message chat_id local_id =
     [(''chat_id'', JStr chat_id), (''identity'', JStr ''fallback''), (''is_self'', JBool (rw_is_self message = JBool True)),
      (''local_id'', JStr local_id), (''message_type'', JInt (rw_type message)),
      (''sender_id'', (case optional_text (rw_sender message) of None \<Rightarrow> JNull | Some s \<Rightarrow> JStr s)),
      (''timestamp'', JStr (utc_isoformat (case rw_timestamp message of Aware t \<Rightarrow> t | Naive t \<Rightarrow> t))),
      (''version'', JInt FALLBACK_CHECKPOINT_FINGERPRINT_VERSION)]"

definition build_wechat_checkpoint_fingerprint :: "model_validator \<Rightarrow> raw_item \<Rightarrow> poll_error + string option" where
  "build_wechat_checkpoint_fingerprint model_validate raw =
     (case raw_message model_validate raw of
        Inl e \<Rightarrow> Inl e
      | Inr message \<Rightarrow>
        (case usable_id (rw_server_id message) of
           Some server_id \<Rightarrow>
             Inr (Some (wechat_digest [(''identity'', JStr ''server''), (''server_id'', JStr server_id),
                                       (''version'', JInt CHECKPOINT_FINGERPRINT_VERSION)]))
         | None \<Rightarrow>
             (case (usable_id (rw_local_id message), optional_text (Some (rw_chat_id message))) of
                (Some local_id, Some chat_id) \<Rightarrow> Inr (Some (wechat_digest (fallback_fingerprint_fields message chat_id local_id)))
              | _ \<Rightarrow> Inr None)))"

section \<open>The event of a message\<close>

text \<open>A field with an upper bound only.\<close>

definition schema_bounded :: "nat \<Rightarrow> string option \<Rightarrow> gateway_error + string option" where
  "schema_bounded max_length value =
     (case value of
        None \<Rightarrow> Inr None
      | Some v \<Rightarrow> if length (py_strip v) > max_length then Inl SchemaValidationError else Inr (Some (py_strip v)))"

definition schema_bind :: "gateway_error + 'a \<Rightarrow> ('a \<Rightarrow> gateway_error + 'b) \<Rightarrow> gateway_error + 'b" where
  "schema_bind v k = (case v of Inl e \<Rightarrow> Inl e | Inr x \<Rightarrow> k x)"

definition opt_json_string :: "string option \<Rightarrow> json" where
  "opt_json_string v = (case v of None \<Rightarrow> JNull | Some s \<Rightarrow> JStr s)"

definition reply_context :: "WechatReplySummary \<Rightarrow> gateway_error + json" where
  "reply_context r =
     schema_bind (schema_optional 255 (rs_local_id r)) (\<lambda>local_id.
     schema_bind (schema_optional 255 (rs_server_id r)) (\<lambda>server_id.
     schema_bind (schema_optional 255 (rs_sender_id r)) (\<lambda>sender_id.
     schema_bind (schema_optional 255 (rs_sender_name r)) (\<lambda>sender_name.
       Inr (JObj [(''source_local_id'', opt_json_string local_id), (''source_server_id'', opt_json_string server_id),
                  (''sender_id'', opt_json_string sender_id), (''sender_name'', opt_json_string sender_name),
                  (''raw_type'', (case rs_raw_type r of None \<Rightarrow> JNull | Some n \<Rightarrow> JInt n)),
                  (''content'', opt_json_string (rs_content r))])))))"

definition message_event_fields :: "MessageEvent \<Rightarrow> gateway_error + MessageEvent" where
  "message_event_fields e =
     schema_bind (schema_string 255 (ev_event_id e)) (\<lambda>event_id.
     schema_bind (schema_string 64 (ev_source e)) (\<lambda>source.
     schema_bind (schema_string 255 (ev_source_account_id e)) (\<lambda>account_id.
     schema_bind (schema_string 255 (ev_source_message_id e)) (\<lambda>source_message_id.
     schema_bind (schema_string 255 (ev_conversation_id e)) (\<lambda>conversation_id.
     schema_bind (schema_bounded 255 (ev_conversation_name e)) (\<lambda>conversation_name.
     schema_bind (schema_optional 255 (ev_sender_id e)) (\<lambda>sender_id.
     schema_bind (schema_bounded 255 (ev_sender_name e)) (\<lambda>sender_name.
     schema_bind (schema_string 64 (ev_message_type e)) (\<lambda>message_type.
     schema_bind (schema_optional 255 (ev_source_local_id e)) (\<lambda>local_id.
     schema_bind (schema_optional 255 (ev_source_server_id e)) (\<lambda>server_id.
       if ev_conversation_type e \<notin> {''private'', ''group''} \<or> ev_sender_type e \<notin> {''human'', ''system''} then Inl SchemaValidationError
       else Inr (e\<lparr>ev_event_id := event_id, ev_source := source, ev_source_account_id := account_id,
                   ev_source_message_id := source_message_id, ev_conversation_id := conversation_id,
                   ev_conversation_name := conversation_name, ev_sender_id := sender_id, ev_sender_name := sender_name,
                   ev_message_type := message_type, ev_source_local_id := local_id, ev_source_server_id := server_id\<rparr>))))))))))))"

text \<open>A naive time stamp is read as UTC.\<close>

definition wechat_event :: "instant \<Rightarrow> NormalizedWechatMessage \<Rightarrow> json option \<Rightarrow> MessageEvent" where
  "wechat_event now message reply =
     \<lparr>ev_event_id = nm_event_id message, ev_source = nm_source message, ev_source_account_id = nm_source_account_id message,
      ev_source_message_id = nm_source_message_id message, ev_conversation_id = nm_conversation_id message,
      ev_conversation_type = conversation_type_value (nm_conversation_type message), ev_is_mentioned = nm_is_mentioned message,
      ev_is_self = nm_is_self message, ev_conversation_name = nm_conversation_name message,
      ev_sender_type = wechat_sender_value (nm_sender_type message), ev_sender_id = nm_sender_id message,
      ev_sender_name = nm_sender_name message, ev_message_type = message_type_value (nm_message_type message),
      ev_raw_type = Some (nm_raw_type message), ev_content = nm_content message,
      ev_timestamp = Some (case nm_timestamp message of Aware t \<Rightarrow> t | Naive t \<Rightarrow> t), ev_occurred_at = None, ev_received_at = now,
      ev_direction = None, ev_source_local_id = nm_source_local_id message, ev_source_server_id = nm_source_server_id message,
      ev_source_message_id_is_fallback = nm_source_message_id_is_fallback message, ev_reply_context = reply,
      ev_reply_to_message_id = None, ev_attachments = [], ev_raw_payload = nm_raw_payload message\<rparr>"

definition wechat_message_to_event :: "instant \<Rightarrow> NormalizedWechatMessage \<Rightarrow> gateway_error + MessageEvent" where
  "wechat_message_to_event now message =
     schema_bind (case nm_reply message of None \<Rightarrow> Inr None | Some r \<Rightarrow> map_sum id Some (reply_context r)) (\<lambda>reply.
     schema_bind (message_event_fields (wechat_event now message reply)) validate_envelope)"

section \<open>The identity of a message\<close>

lemma strip_plain: "(\<And>c. c \<in> set s \<Longrightarrow> \<not> py_isspace c) \<Longrightarrow> py_strip s = s"
proof -
  assume a: "\<And>c. c \<in> set s \<Longrightarrow> \<not> py_isspace c"
  have "dropWhile py_isspace t = t" if "set t \<subseteq> set s" for t using that a by (cases t) auto
  from this [of s] this [of "rev s"] show ?thesis by (simp add: py_strip_def)
qed

lemma nat_str_digits: "c \<in> set (nat_str n) \<Longrightarrow> ascii_digit c"
proof (induction n rule: nat_str.induct)
  case (1 n)
  have d: "ascii_digit (char_of (48 + k :: nat))" if "k < 10" for k
    using that of_char_digit [OF that] by (simp add: ascii_digit_def)
  from 1 d [of n] d [of "n mod 10"] show ?case by (auto simp: nat_str.simps [of n] split: if_splits)
qed

lemma digit_not_space: "ascii_digit c \<Longrightarrow> \<not> py_isspace c"
  by (auto simp: ascii_digit_def py_isspace_def Let_def)

lemma strip_usable: "usable_id j = Some s \<Longrightarrow> py_strip s = s \<and> s \<noteq> []"
proof (cases j)
  case (JInt n)
  assume "usable_id j = Some s"
  with JInt have "s = nat_str (nat n)" by (auto simp: usable_id_def int_str_def split: if_splits)
  then show ?thesis using nat_str_nonempty strip_plain [of s] by (metis nat_str_digits digit_not_space)
qed (auto simp: usable_id_def split: if_splits)

lemma usable_again: "usable_id j = Some s \<Longrightarrow> usable_id (JStr s) = Some s"
proof -
  assume u: "usable_id j = Some s"
  have "s \<noteq> ''0''"
  proof (cases j)
    case (JInt n)
    with u have "s = nat_str (nat n)" "0 < n" by (auto simp: usable_id_def int_str_def split: if_splits)
    then show ?thesis using str_nat_nat_str [of "nat n"] by (auto simp: str_nat_def)
  qed (use u in \<open>auto simp: usable_id_def split: if_splits\<close>)
  with strip_usable [OF u] show ?thesis by (simp add: usable_id_def)
qed

lemma hexdigest_not_space: "c \<in> set (sha256_hexdigest s) \<Longrightarrow> \<not> py_isspace c"
  by (auto simp: sha256_hexdigest_def word_hex_def hex_digit_not_space)

lemma required_text_Inr: "required_text (Some v) = Inr x \<longleftrightarrow> x = py_strip v \<and> x \<noteq> []"
  by (auto simp: required_text_def optional_text_def)

lemma version_texts:
  "int_str EVENT_ID_VERSION = ''1''" "int_str LOCAL_MESSAGE_ID_VERSION = ''1''" "int_str GENERATION_LOCAL_MESSAGE_ID_VERSION = ''2''"
  by (simp_all add: EVENT_ID_VERSION_def LOCAL_MESSAGE_ID_VERSION_def GENERATION_LOCAL_MESSAGE_ID_VERSION_def int_str_def nat_str.simps
      char_of_nat_eq)

text \<open>The canonical texts behind both digests determine their fields.\<close>

definition event_text :: "string \<Rightarrow> string \<Rightarrow> string \<Rightarrow> string" where
  "event_text account_id chat_id source_message_id = utf8_dumps (JObj (event_id_fields account_id chat_id source_message_id))"

definition local_text :: "string \<Rightarrow> string \<Rightarrow> string \<Rightarrow> int \<Rightarrow> string" where
  "local_text account_id chat_id local_id generation = utf8_dumps (JObj (source_message_fields account_id chat_id local_id generation))"

lemma event_text_inject: "event_text a c m = event_text a' c' m' \<longleftrightarrow> a = a' \<and> c = c' \<and> m = m'"
proof -
  have "event_text a c m = ''{'' @ utf8_dumps_string ''account_id'' @ '':'' @ utf8_dumps_string a @ '','' @ utf8_dumps_string ''chat_id'' @ '':''
     @ utf8_dumps_string c @ '','' @ utf8_dumps_string ''platform'' @ '':'' @ utf8_dumps_string WECHAT_SOURCE @ '',''
     @ utf8_dumps_string ''source_message_id'' @ '':'' @ utf8_dumps_string m @ '','' @ utf8_dumps_string ''version'' @ '':'' @ ''1}''" for a c m
    unfolding event_text_def event_id_fields_def by (simp add: version_texts)
  then show ?thesis by (simp add: utf8_dumps_string_inject)
qed

lemma local_text_eq:
  "local_text a c l g = ''{'' @ utf8_dumps_string ''account_id'' @ '':'' @ utf8_dumps_string a @ '','' @ utf8_dumps_string ''chat_id'' @ '':''
     @ utf8_dumps_string c @ '',''
     @ (if g > 0 then utf8_dumps_string ''generation'' @ '':'' @ int_str g @ '','' else [])
     @ utf8_dumps_string ''local_id'' @ '':'' @ utf8_dumps_string l @ '','' @ utf8_dumps_string ''platform'' @ '':''
     @ utf8_dumps_string WECHAT_SOURCE @ '','' @ utf8_dumps_string ''version'' @ '':''
     @ (if g > 0 then ''2}'' else ''1}'')"
  unfolding local_text_def source_message_fields_def by (simp add: version_texts)

lemma nat_str_comma:
  "nat_str m @ CHR '','' # x = nat_str n @ CHR '','' # y \<longleftrightarrow> m = n \<and> x = y"
proof -
  have t: "takeWhile (\<lambda>c. c \<noteq> CHR '','') (nat_str k @ CHR '','' # z) = nat_str k" for k z
  proof -
    have "\<not> ascii_digit (CHR '','')" by (simp add: ascii_digit_def)
    then have "\<forall>c\<in>set (nat_str k). c \<noteq> CHR '',''" using nat_str_digits by metis
    then show ?thesis by (simp add: takeWhile_append2)
  qed
  show ?thesis using t [of m x] t [of n y] by (auto simp: nat_str_inject)
qed

lemma local_text_inject:
  assumes "0 \<le> g" "0 \<le> g'"
  shows "local_text a c l g = local_text a' c' l' g' \<longleftrightarrow> a = a' \<and> c = c' \<and> l = l' \<and> g = g'"
proof -
  have d: "utf8_dumps_string ''generation'' @ x \<noteq> utf8_dumps_string ''local_id'' @ y" for x y
    by (simp add: utf8_dumps_string_inject)
  have n: "int_str g @ CHR '','' # x = int_str g' @ CHR '','' # y \<longleftrightarrow> g = g' \<and> x = y" for x y
    using assms by (auto simp: int_str_def nat_str_comma)
  show ?thesis
    unfolding local_text_eq
    using assms d d [symmetric] n
    by (cases "g > 0"; cases "g' > 0") (auto simp: utf8_dumps_string_inject)
qed

text \<open>What a normalized message is made of.\<close>

definition local_message_id :: "string \<Rightarrow> string \<Rightarrow> string \<Rightarrow> int \<Rightarrow> string" where
  "local_message_id a c l g = ''local:v'' @ (if g > 0 then ''2'' else ''1'') @ '':'' @ sha256_hexdigest (local_text a c l g)"

lemma local_message_id_strip: "py_strip (local_message_id a c l g) = local_message_id a c l g"
  by (rule strip_plain) (auto simp: local_message_id_def py_isspace_def hexdigest_not_space [unfolded py_isspace_def] split: if_splits)

lemma local_message_id_inject:
  assumes "0 \<le> g" "0 \<le> g'"
    and "sha256_hexdigest (local_text a c l g) = sha256_hexdigest (local_text a' c' l' g') \<Longrightarrow> local_text a c l g = local_text a' c' l' g'"
  shows "local_message_id a c l g = local_message_id a' c' l' g' \<longleftrightarrow> a = a' \<and> c = c' \<and> l = l' \<and> g = g'"
  using assms(3) local_text_inject [OF assms(1,2), of a c l a' c' l'] by (auto simp: local_message_id_def split: if_splits)

lemma source_message_id_Inr:
  assumes "wechat_source_message_id (usable_id s) (usable_id l) a c g = Inr (i, b)"
  shows "py_strip i = i \<and> i \<noteq> []
    \<and> (b \<longleftrightarrow> usable_id s = None) \<and> (\<not> b \<longrightarrow> usable_id s = Some i)
    \<and> (b \<longrightarrow> (\<exists>k. usable_id l = Some k \<and> i = local_message_id a c k g))"
proof (cases "usable_id s")
  case (Some t)
  with assms usable_again [OF Some] strip_usable [OF Some] show ?thesis by (auto simp: wechat_source_message_id_def)
next
  case None
  with assms obtain k where k: "usable_id l = Some k" by (cases "usable_id l") (auto simp: wechat_source_message_id_def)
  with None assms usable_again [OF k] have "i = local_message_id a c k g" "b"
    by (auto simp: wechat_source_message_id_def version_texts local_message_id_def local_text_def wechat_digest_def split: if_splits)
  with None k local_message_id_strip show ?thesis by (simp add: local_message_id_def)
qed

lemma build_event_id_Inr:
  assumes "build_wechat_event_id a c m = Inr e"
  shows "e = ''v1:wechat:'' @ sha256_hexdigest (event_text (py_strip a) (py_strip c) (py_strip m))"
  using assms by (auto simp: build_wechat_event_id_def required_text_Inr version_texts WECHAT_SOURCE_def wechat_digest_def event_text_def
      split: sum.splits)

lemma normalize_Inr:
  assumes "normalize_wechat_message mv px raw a name g = Inr n"
  obtains message where "raw_message mv raw = Inr message"
    and "nm_source_account_id n = py_strip a" "nm_conversation_id n = py_strip (rw_chat_id message)" "py_strip a \<noteq> []" "nm_conversation_id n \<noteq> []"
    and "0 \<le> g" "nm_source n = ''wechat''" "nm_conversation_name n = name"
    and "wechat_source_message_id (usable_id (rw_server_id message)) (usable_id (rw_local_id message)) (py_strip a) (nm_conversation_id n) g
           = Inr (nm_source_message_id n, nm_source_message_id_is_fallback n)"
    and "nm_event_id n = ''v1:wechat:'' @ sha256_hexdigest (event_text (nm_source_account_id n) (nm_conversation_id n) (nm_source_message_id n))"
    and "nm_source_local_id n = usable_id (rw_local_id message)" "nm_source_server_id n = usable_id (rw_server_id message)"
    and "nm_sender_type n = WX_HUMAN_SENDER \<Longrightarrow> \<exists>s. nm_sender_id n = Some s \<and> py_strip s = s \<and> s \<noteq> []"
    and "nm_is_mentioned n = None \<longleftrightarrow> nm_conversation_type n = WX_PRIVATE"
proof -
  from assms obtain message chat sender gen source e where m: "raw_message mv raw = Inr message"
      "required_text (Some a) = Inr (py_strip a)" "required_text (Some (rw_chat_id message)) = Inr chat"
      "(if rw_type message = 10000 then Inr (optional_text (rw_sender message)) else map_sum id Some (required_text (rw_sender message))) = Inr sender"
      "validated_generation g = Inr gen"
      "wechat_source_message_id (usable_id (rw_server_id message)) (usable_id (rw_local_id message)) (py_strip a) chat gen = Inr source"
      "build_wechat_event_id (py_strip a) chat (fst source) = Inr e"
      "n = normalized_message px message (py_strip a) chat sender name source e"
    unfolding normalize_wechat_message_def by (auto simp: required_text_Inr split: sum.splits)
  have g: "gen = g" "0 \<le> g" using m(5) by (auto simp: validated_generation_def split: if_splits)
  have chat: "chat = py_strip (rw_chat_id message)" "chat \<noteq> []" "py_strip a \<noteq> []" using m(2,3) by (auto simp: required_text_Inr)
  have src: "py_strip (fst source) = fst source" using source_message_id_Inr m(6) by (metis prod.collapse)
  have s: "\<exists>s. sender = Some s \<and> py_strip s = s \<and> s \<noteq> []" if "rw_type message \<noteq> 10000"
    using m(4) that by (auto simp: required_text_def optional_text_def split: option.splits if_splits)
  show ?thesis
    by (rule that [OF m(1)])
      (use m(6,8) g chat src s build_event_id_Inr [OF m(7)] in \<open>auto simp: normalized_message_def Let_def WECHAT_SOURCE_def split: if_splits\<close>)
qed

end
