(* ===== verification/Ingestion_Frame.thy ===== *)
theory Ingestion_Frame
  imports Ingestion
begin

text \<open>
  What processing an event leaves alone. Storing the message is the only write to the table of
  messages: an invariant that looks at this table only and survives the races survives the whole
  of \<open>process_event\<close> after the message was stored. The locale \<open>message_invariant\<close> proves it once
  for every such invariant; its interpretation says that stored messages stay stored.
\<close>

locale message_invariant =
  fixes inv :: "gateway_db \<Rightarrow> bool"
  assumes inv_messages: "messages v = messages u \<Longrightarrow> message_seq v = message_seq u \<Longrightarrow> inv u \<Longrightarrow> inv v"

sublocale message_invariant \<subseteq> core_invariant inv
  by unfold_locales (auto simp: core_tables_def intro: inv_messages)

context message_invariant
begin

lemma inv_insert_admission: "insert_admission m u = Some v \<Longrightarrow> inv u \<Longrightarrow> inv v"
  by (auto simp: insert_admission_def intro: inv_messages split: if_splits)

lemma inv_update_admissions: "inv u \<Longrightarrow> inv (snd (update_admissions q f u))"
  by (auto simp: update_admissions_def Let_def intro: inv_messages)

lemma inv_update_admissions': "update_admissions q f u = (r, v) \<Longrightarrow> inv u \<Longrightarrow> inv v"
  using inv_update_admissions [of u q f] by simp

lemma inv_claim_existing:
  assumes "\<And>u. inv u \<Longrightarrow> inv (r1 u)" "\<And>u. inv u \<Longrightarrow> inv (r2 u)" "inv db"
  shows "inv (snd (claim_existing r1 r2 ck token m l t db))"
proof -
  obtain res db1 where u: "update_admissions (claimable_admission (m_message_id m) t) (claim_admission_values ck token l t) (r1 db) = (res, db1)"
    by fastforce
  have "inv (r1 db)" "inv db1" using assms inv_update_admissions' [OF u] by blast+
  with assms show ?thesis by (simp add: claim_existing_def u Let_def split: sum.splits option.splits)
qed

lemma inv_claim_admission:
  assumes r: "\<And>n u. inv u \<Longrightarrow> inv (race n u)" and "inv db"
  shows "inv (snd (claim_admission race ck uuid resolver lease m found db))"
proof (cases found)
  case None
  have "inv (race 0 db)" using assms by blast
  then have "insert_admission x (race 0 db) = Some v \<Longrightarrow> inv v"
      "inv (snd (claim_existing (race 1) (race 2) ck token y l t (race 0 db)))" for x v token y l t
    by (auto intro: inv_insert_admission inv_claim_existing r)
  with \<open>inv (race 0 db)\<close> show ?thesis
    by (auto simp: None claim_admission_def create_pending_def Let_def assms(2) simp del: One_nat_def split: option.splits intro!: inv_checked)
next
  case (Some a)
  then show ?thesis
    by (auto simp: claim_admission_def claim_pending_def assms(2) intro!: inv_checked inv_claim_existing r)
qed

lemma inv_legacy_outcome:
  assumes "\<And>u. inv u \<Longrightarrow> inv (race u)" "inv db"
  shows "inv (snd (create_legacy_dispatch_outcome race ck r db))"
  using assms by (auto simp: create_legacy_dispatch_outcome_def Let_def split: option.splits intro: inv_insert_admission)

lemma inv_legacy_completion:
  assumes "\<And>u. inv u \<Longrightarrow> inv (r1 u)" "\<And>u. inv u \<Longrightarrow> inv (r2 u)" "inv db"
  shows "inv (snd (complete_claim_from_legacy_dispatch r1 r2 ck token r db))"
proof -
  obtain res db1 where u: "update_admissions (held_admission (d_message_id r) token) (legacy_values ck r) (r1 db) = (res, db1)"
    by fastforce
  have "inv (r1 db)" "inv db1" using assms inv_update_admissions' [OF u] by blast+
  with assms show ?thesis by (simp add: complete_claim_from_legacy_dispatch_def u Let_def split: sum.splits option.splits)
qed

lemma inv_release:
  assumes "\<And>u. inv u \<Longrightarrow> inv (race u)" "inv db"
  shows "inv (snd (release_claim race ck i token code db))"
  unfolding release_claim_def
  by (intro inv_checked assms(2)) (auto simp: assms dest!: inv_update_admissions' split: prod.splits sum.splits)

lemma inv_stage_completion: "inv db \<Longrightarrow> inv (snd (stage_completion ck token a db))"
  unfolding stage_completion_def
  by (intro inv_checked) (auto dest!: inv_update_admissions' split: prod.splits sum.splits)

lemma inv_complete_denied:
  assumes "\<And>u. inv u \<Longrightarrow> inv (r1 u)" "\<And>u. inv u \<Longrightarrow> inv (r2 u)" "inv db"
  shows "inv (snd (complete_denied r1 r2 ck token a db))"
proof -
  obtain res db1 where u: "stage_completion ck token a (r1 db) = (res, db1)" by fastforce
  have "inv (r1 db)" "inv db1" using assms inv_stage_completion [of "r1 db" ck token a] u by auto
  with assms show ?thesis by (simp add: complete_denied_def u Let_def split: sum.splits option.splits)
qed

lemma inv_stage_enqueue:
  assumes "\<And>u. inv u \<Longrightarrow> inv (r1 u)" "\<And>u. inv u \<Longrightarrow> inv (r2 u)" "inv db"
    and "dispatch_stage_enqueue r1 r2 ck a db = (res, committed, staged)"
  shows "inv committed \<and> inv staged"
proof -
  have "inv (r1 db)" "inv (r2 (r1 db))" using assms(1-3) by blast+
  with assms(3,4) show ?thesis
    by (auto simp: dispatch_stage_enqueue_def Let_def split: sum.splits option.splits if_splits intro: inv_messages)
qed

lemma inv_enqueue:
  assumes "\<And>u. inv u \<Longrightarrow> inv (r1 u)" "\<And>u. inv u \<Longrightarrow> inv (r2 u)" "inv db"
  shows "inv (snd (dispatch_enqueue r1 r2 ck a db))"
proof -
  obtain res committed staged where e: "dispatch_stage_enqueue r1 r2 ck a db = (res, committed, staged)" by (metis prod_cases3)
  from inv_stage_enqueue [OF assms e] assms(3) show ?thesis
    by (auto simp: dispatch_enqueue_def e split: sum.splits option.splits gateway_error.splits)
qed

lemma inv_replay:
  assumes r: "\<And>n u. inv u \<Longrightarrow> inv (race n u)" and "inv db"
  shows "inv (snd (replay_persisted_admission repr race ck stored db))"
proof -
  obtain res committed staged where e: "\<And>a. dispatch_stage_enqueue (race 0) (race 1) ck a db = (res a, committed a, staged a)"
    by (metis prod_cases3 [of "dispatch_stage_enqueue (race 0) (race 1) ck _ db"])
  have c: "inv (committed a)" for a using inv_stage_enqueue [OF r r assms(2) e] by simp
  show ?thesis unfolding replay_persisted_admission_def
    by (intro inv_checked assms(2)) (auto simp: e c assms(2) simp del: One_nat_def intro!: inv_attempt inv_enqueue r split: option.splits sum.splits)
qed

lemma inv_allowed_once:
  assumes r: "\<And>n u. inv u \<Longrightarrow> inv (race n u)" and "inv db"
  shows "inv (snd (complete_allowed_once race ck token a db))"
proof -
  obtain res committed staged where e: "dispatch_stage_enqueue (race 0) (race 1) ck a db = (res, committed, staged)" by (metis prod_cases3)
  have c: "inv committed" "inv staged" using inv_stage_enqueue [OF r r assms(2) e] by simp_all
  with inv_stage_completion [OF c(2), of ck token a] show ?thesis
    by (auto simp: complete_allowed_once_def e simp del: One_nat_def split: sum.splits prod.splits)
qed

lemma inv_allowed:
  assumes r: "\<And>n u. inv u \<Longrightarrow> inv (race n u)" and "inv db"
  shows "inv (snd (complete_allowed_admission_atomically race ck token a db))"
proof -
  obtain res db1 where o: "complete_allowed_once race ck token a db = (res, db1)" by fastforce
  have "inv db1" using inv_allowed_once [of race db ck token a, OF r assms(2)] o by simp
  then have "inv (snd (complete_allowed_once (\<lambda>n. race (2 + n)) ck token a db1))" by (intro inv_allowed_once r)
  with o \<open>inv db1\<close> show ?thesis
    by (auto simp: complete_allowed_admission_atomically_def split: sum.splits gateway_error.splits)
qed

lemma inv_adopt:
  assumes r: "\<And>n u. inv u \<Longrightarrow> inv (race n u)" and "inv db"
  shows "inv (snd (adopt_legacy_dispatch repr race ck token rec db))"
  unfolding adopt_legacy_dispatch_def
  by (intro inv_attempt inv_legacy_completion r assms(2) inv_replay) (simp_all add: r)

lemma inv_evaluate:
  assumes r: "\<And>i n u. inv u \<Longrightarrow> inv (race i n u)" and "inv db"
  shows "inv (snd (evaluate_claim repr isoformat race ck uuid v2 token claim m db))"
proof -
  have d: "inv (race 3 0 db)" using assms by blast
  have denied: "inv (snd (let db3 = race 3 1 u in
                 case dispatch_get_by_message_id (g_id m) db3 of
                   Some x \<Rightarrow> adopt_legacy_dispatch repr (race 4) ck token x db3
                 | None \<Rightarrow> attempt_op (complete_denied (race 7 0) (race 7 1) ck token a db3) (\<lambda>_ db4. (Inr (Inr (a, None)), db4))))"
    if "inv u" for a u
    using r [OF that, of 3 1]
    by (auto simp: Let_def split: option.splits intro!: inv_adopt inv_attempt inv_complete_denied r)
  have allowed: "inv (snd (attempt_op (complete_allowed_admission_atomically (race 6) ck token a u) (\<lambda>rc db3. (Inr (Inr (a, Some rc)), db3))))"
    if "inv u" for a u
    using that by (intro inv_attempt inv_allowed r) simp_all
  have decided: "inv (snd (attempt_op (admit isoformat (race 5) ck uuid v2 candidate (race 3 0 db)) (\<lambda>admission db2.
              if ao_admitted admission \<and> ao_reason admission = ADMISSION_ALLOWED
              then attempt_op (complete_allowed_admission_atomically (race 6) ck token admission db2) (\<lambda>rc db3. (Inr (Inr (admission, Some rc)), db3))
              else (let db3 = race 3 1 db2 in
                 case dispatch_get_by_message_id (g_id m) db3 of
                   Some x \<Rightarrow> adopt_legacy_dispatch repr (race 4) ck token x db3
                 | None \<Rightarrow> attempt_op (complete_denied (race 7 0) (race 7 1) ck token admission db3) (\<lambda>_ db4. (Inr (Inr (admission, None)), db4))))))"
    for candidate
    by (rule inv_attempt [OF inv_admit [of "race 5", OF r d]]) (use denied allowed in \<open>auto simp: Let_def\<close>)
  show ?thesis
    using d decided inv_adopt [of "race 4", OF r d]
    by (simp add: evaluate_claim_def Let_def checked_def split: option.splits sum.splits)
qed

text \<open>Everything after the message was stored.\<close>

lemma inv_process_stored:
  assumes r: "\<And>i n u. inv u \<Longrightarrow> inv (race i n u)"
    and dsp: "\<And>d a u. dispatcher = Some d \<Longrightarrow> inv u \<Longrightarrow> inv (snd (d a u))"
    and created: "inv (snd (message_create (race 0) ck event db))"
  shows "inv (snd (process_event repr isoformat resolver dispatcher race ck uuid v2 lease event db))"
proof -
  have fin: "inv (snd (finish_decision dispatcher mc x u))" if "inv u" for mc x u
    using that dsp by (auto simp: finish_decision_def intro!: inv_attempt split: sum.splits option.splits)
  have rel: "inv (snd (release_on_error (race 9 0) ck i token res))" if "inv (snd res)" for i token and res :: "'x outcome"
    using that by (cases res) (auto simp: release_on_error_def split: sum.splits intro!: inv_release r)
  have claimed: "inv (snd (case cl_claim_token claim of
       None \<Rightarrow> replay_persisted_admission repr (race 8) ck (cl_outcome claim) u
     | Some token \<Rightarrow> attempt_op (release_on_error (race 9 0) ck (g_id m) token
          (evaluate_claim repr isoformat race ck uuid v2 token claim m u)) (finish_decision dispatcher mc)))"
    if "inv u" for claim m mc u
    using that by (auto split: option.splits intro!: inv_attempt rel fin inv_replay r inv_evaluate)
  have answer: "inv (snd (attempt_op (claim_admission (race 2) ck uuid resolver lease m found u) (\<lambda>claim db4.
       (case cl_claim_token claim of
          None \<Rightarrow> replay_persisted_admission repr (race 8) ck (cl_outcome claim) db4
        | Some token \<Rightarrow> attempt_op (release_on_error (race 9 0) ck (g_id m) token
             (evaluate_claim repr isoformat race ck uuid v2 token claim m db4)) (finish_decision dispatcher mc)))))"
    if "inv u" for m found mc u
    by (rule inv_attempt [OF inv_claim_admission [of "race 2", OF r that] claimed])
  have legacy: "inv (snd (attempt_op (create_legacy_dispatch_outcome (race 1 2) ck x u) (\<lambda>(a, _) db4.
       replay_persisted_admission repr (race 8) ck a db4)))" if "inv u" for x u
    by (rule inv_attempt [OF inv_legacy_outcome [of "race 1 2", OF r that]]) (auto intro!: inv_replay r)
  show ?thesis unfolding process_event_def
    by (rule inv_attempt [OF created])
      (use r answer legacy in \<open>auto simp: Let_def split: option.splits intro!: inv_replay\<close>)
qed

end

end
