(* ===== verification/Wechat_Sink.thy ===== *)
theory Wechat_Sink
  imports Wechat_Messages Ingestion_Frame
begin

text \<open>
  The sinks of the poller (\<open>ingestion/sink.py\<close> and \<open>_handle_with_disposition\<close> of
  \<open>adapters/wechat/polling_service.py\<close>). The contract the poller relies on is the locale
  \<open>durable_sink\<close>: a message that was accepted stays accepted. The sink of the gateway, which turns a
  message into an event and runs it through admission in a session of its own, interprets it with
  the messages that are stored.
\<close>

section \<open>Sinks\<close>

record ('e, 's) message_sink =
  sk_handle :: "'e \<Rightarrow> NormalizedWechatMessage \<Rightarrow> 's \<Rightarrow> (poll_error + unit) \<times> 's"
  sk_handle_with_disposition :: "('e \<Rightarrow> NormalizedWechatMessage \<Rightarrow> 's \<Rightarrow> (poll_error + string) \<times> 's) option"

definition disposition_of_value :: "string \<Rightarrow> poll_error + MessageSinkDisposition" where
  "disposition_of_value value =
     (if value = ''created'' then Inr SINK_CREATED else if value = ''duplicate'' then Inr SINK_DUPLICATE else Inl OtherError)"

definition handle_with_disposition ::
  "('e, 's) message_sink \<Rightarrow> 'e \<Rightarrow> NormalizedWechatMessage \<Rightarrow> 's \<Rightarrow> (poll_error + MessageSinkDisposition) \<times> 's" where
  "handle_with_disposition sink env message s =
     (case sk_handle_with_disposition sink of
        None \<Rightarrow>
          (case sk_handle sink env message s of (Inl e, s1) \<Rightarrow> (Inl e, s1) | (Inr _, s1) \<Rightarrow> (Inr SINK_CREATED, s1))
      | Some disposition_handler \<Rightarrow>
          (case disposition_handler env message s of
             (Inl e, s1) \<Rightarrow> (Inl e, s1) | (Inr value, s1) \<Rightarrow> (disposition_of_value value, s1)))"

text \<open>The contract of a sink under polite circumstances.\<close>

locale durable_sink =
  fixes sink :: "('e, 's) message_sink"
    and polite :: "'e \<Rightarrow> bool"
    and accepted :: "NormalizedWechatMessage \<Rightarrow> 's \<Rightarrow> bool"
    and wf :: "'s \<Rightarrow> bool"
  assumes handled_wf: "polite e \<Longrightarrow> wf s \<Longrightarrow> handle_with_disposition sink e m s = (r, s') \<Longrightarrow> wf s'"
    and handled_accepted: "polite e \<Longrightarrow> wf s \<Longrightarrow> handle_with_disposition sink e m s = (Inr d, s') \<Longrightarrow> accepted m s'"
    and accepted_stays:
      "polite e \<Longrightarrow> wf s \<Longrightarrow> handle_with_disposition sink e m s = (r, s') \<Longrightarrow> accepted n s \<Longrightarrow> accepted n s'"

section \<open>The sink of the gateway\<close>

text \<open>
  The parts of one call: whether the session opens, the dispatcher is built and the session
  closes, and the arguments of the admission service.
\<close>

record sink_env =
  se_opens :: bool
  se_builds :: bool
  se_closes :: bool
  se_repr :: "json \<Rightarrow> string"
  se_isoformat :: "instant \<Rightarrow> string"
  se_resolver :: "Message \<Rightarrow> RequestFacts"
  se_dispatcher :: "(AdmissionOutcome \<Rightarrow> gateway_db \<Rightarrow> HermesDispatchOutcome outcome) option"
  se_race :: "nat \<Rightarrow> nat \<Rightarrow> gateway_db \<Rightarrow> gateway_db"
  se_ck :: clocks
  se_uuid :: "nat \<Rightarrow> string"
  se_v2_routing_enabled :: bool
  se_lease :: py_num

definition service_process :: "sink_env \<Rightarrow> NormalizedWechatMessage \<Rightarrow> gateway_db \<Rightarrow> MessageIngestionOutcome outcome" where
  "service_process e message db =
     checked (wechat_message_to_event (wall_now (se_ck e)) message) db (\<lambda>event.
       process_event (se_repr e) (se_isoformat e) (se_resolver e) (se_dispatcher e) (se_race e) (se_ck e) (se_uuid e)
         (se_v2_routing_enabled e) (se_lease e) event db)"

text \<open>The errors of the gateway are neither errors of the adapter nor of the poller.\<close>

definition sink_error :: "(gateway_error + 'a) \<Rightarrow> poll_error + 'a" where
  "sink_error r = (case r of Inl _ \<Rightarrow> Inl OtherError | Inr x \<Rightarrow> Inr x)"

definition admission_sink_process ::
  "sink_env \<Rightarrow> NormalizedWechatMessage \<Rightarrow> gateway_db \<Rightarrow> (poll_error + MessageIngestionOutcome) \<times> gateway_db" where
  "admission_sink_process e message db =
     (case service_process e message db of (r, db1) \<Rightarrow> (sink_error r, db1))"

definition session_sink_process ::
  "sink_env \<Rightarrow> NormalizedWechatMessage \<Rightarrow> gateway_db \<Rightarrow> (poll_error + MessageIngestionOutcome) \<times> gateway_db" where
  "session_sink_process e message db =
     (if \<not> se_opens e \<or> \<not> se_builds e then (Inl OtherError, db)
      else
        (case service_process e message db of
           (Inl _, db1) \<Rightarrow> (Inl OtherError, db1)
         | (Inr outcome, db1) \<Rightarrow> (if se_closes e then (Inr outcome, db1) else (Inl OtherError, db1))))"

definition sink_disposition :: "MessageIngestionOutcome \<Rightarrow> string" where
  "sink_disposition outcome = (if io_message_created outcome then ''created'' else ''duplicate'')"

definition sink_of ::
  "(sink_env \<Rightarrow> NormalizedWechatMessage \<Rightarrow> gateway_db \<Rightarrow> (poll_error + MessageIngestionOutcome) \<times> gateway_db)
     \<Rightarrow> (sink_env, gateway_db) message_sink" where
  "sink_of process =
     \<lparr>sk_handle = (\<lambda>e m db. case process e m db of (r, db1) \<Rightarrow> (map_sum id (\<lambda>_. ()) r, db1)),
      sk_handle_with_disposition = Some (\<lambda>e m db. case process e m db of (r, db1) \<Rightarrow> (map_sum id sink_disposition r, db1))\<rparr>"

definition message_store_admission_sink :: "(sink_env, gateway_db) message_sink" where
  "message_store_admission_sink = sink_of admission_sink_process"

definition session_factory_sink :: "(sink_env, gateway_db) message_sink" where
  "session_factory_sink = sink_of session_sink_process"

section \<open>Accepted messages are stored\<close>

definition message_stored :: "NormalizedWechatMessage \<Rightarrow> gateway_db \<Rightarrow> bool" where
  "message_stored n db \<longleftrightarrow>
     (\<exists>m\<in>set (messages db). g_event_id m = py_strip (nm_event_id n)
        \<or> message_source_key m = (py_strip (nm_source n), py_strip (nm_source_account_id n), py_strip (nm_conversation_id n),
             py_strip (nm_source_message_id n)))"

definition sink_polite :: "sink_env \<Rightarrow> bool" where
  "sink_polite e \<longleftrightarrow>
     (\<forall>i n u. message_kept u (se_race e i n u))
     \<and> (\<forall>d a u. se_dispatcher e = Some d \<longrightarrow> message_kept u (snd (d a u)))"

interpretation stored_since: message_invariant "\<lambda>u. messages_ok u \<and> S \<subseteq> set (messages u)" for S
  by unfold_locales (simp add: messages_ok_def)

lemma process_event_stores:
  assumes p: "\<And>i n u. message_kept u (race i n u)" "\<And>d a u. dispatcher = Some d \<Longrightarrow> message_kept u (snd (d a u))"
    and ok: "messages_ok db"
    and e: "process_event repr isoformat resolver dispatcher race ck uuid v2 lease event db = (r, db')"
  shows "messages_ok db'" "set (messages db) \<subseteq> set (messages db')" "r = Inr x \<Longrightarrow> \<exists>m. get_existing_message event db' = Some m"
proof -
  obtain c db1 where c: "message_create (race 0) ck event db = (c, db1)" by fastforce
  from message_create_answer [of "race 0", OF p(1) ok c]
  have k: "messages_ok db1" "set (messages db) \<subseteq> set (messages db1)" and ans: "\<And>m new. c = Inr (m, new) \<Longrightarrow> get_existing_message event db1 = Some m"
    using ok by (auto simp: message_kept_def)
  have keep: "messages_ok db' \<and> S \<subseteq> set (messages db')" if "S \<subseteq> set (messages db1)" for S
  proof -
    have "messages_ok (race i n u) \<and> S \<subseteq> set (messages (race i n u))" if "messages_ok u \<and> S \<subseteq> set (messages u)" for i n u
      using p(1) [of u i n] that by (auto simp: message_kept_def)
    moreover have "messages_ok (snd (d a u)) \<and> S \<subseteq> set (messages (snd (d a u)))"
      if "dispatcher = Some d" "messages_ok u \<and> S \<subseteq> set (messages u)" for d a u
      using p(2) [OF that(1), of u a] that(2) by (auto simp: message_kept_def)
    ultimately have "messages_ok (snd (process_event repr isoformat resolver dispatcher race ck uuid v2 lease event db))
        \<and> S \<subseteq> set (messages (snd (process_event repr isoformat resolver dispatcher race ck uuid v2 lease event db)))"
      using c k that by (intro stored_since.inv_process_stored) auto
    with e show ?thesis by simp
  qed
  from keep [OF k(2)] show "messages_ok db'" "set (messages db) \<subseteq> set (messages db')" by simp_all
  show "\<exists>m. get_existing_message event db' = Some m" if "r = Inr x"
  proof -
    from attempt_op_InrD [OF e [unfolded process_event_def that]] c obtain m new where m: "c = Inr (m, new)" by auto
    note stored = get_existing_message_stored [OF ans [OF m]]
    have "m \<in> set (messages db')" using keep [of "set (messages db1)"] stored by auto
    moreover have "g_event_id m = ev_event_id event \<or> message_source_key m = (ev_source event, ev_source_account_id event,
        ev_conversation_id event, ev_source_message_id event)"
      using ans [OF m] by (auto simp: get_existing_message_def get_by_event_id_def get_by_source_message_def dest!: lookup_by_Some
          split: option.splits)
    ultimately have "get_existing_message event db' \<noteq> None"
      by (auto simp: get_existing_message_def get_by_event_id_def get_by_source_message_def lookup_by_None image_iff simp del: not_None_eq split: option.splits intro!: bexI [of _ m])
    then show ?thesis by blast
  qed
qed

lemma to_event_ids:
  assumes "wechat_message_to_event now n = Inr e"
  shows "ev_event_id e = py_strip (nm_event_id n)" "ev_source e = py_strip (nm_source n)"
    "ev_source_account_id e = py_strip (nm_source_account_id n)" "ev_conversation_id e = py_strip (nm_conversation_id n)"
    "ev_source_message_id e = py_strip (nm_source_message_id n)"
proof -
  have v: "validate_envelope x = Inr y \<Longrightarrow> ev_event_id y = ev_event_id x \<and> ev_source y = ev_source x
      \<and> ev_source_account_id y = ev_source_account_id x \<and> ev_conversation_id y = ev_conversation_id x
      \<and> ev_source_message_id y = ev_source_message_id x" for x y
    by (auto simp: validate_envelope_def Let_def split: if_splits)
  have b: "schema_bind x k = Inr y \<Longrightarrow> \<exists>z. x = Inr z \<and> k z = Inr y" for x :: "gateway_error + 'x" and k and y :: 'y
    by (cases x) (auto simp: schema_bind_def)
  from assms obtain reply f where f: "message_event_fields (wechat_event now n reply) = Inr f" "validate_envelope f = Inr e"
    unfolding wechat_message_to_event_def by (auto simp: schema_bind_def split: sum.splits)
  have s: "ev_event_id f = py_strip (nm_event_id n)" "ev_source f = py_strip (nm_source n)"
      "ev_source_account_id f = py_strip (nm_source_account_id n)" "ev_conversation_id f = py_strip (nm_conversation_id n)"
      "ev_source_message_id f = py_strip (nm_source_message_id n)"
    using f(1) by (auto simp: message_event_fields_def wechat_event_def schema_bind_def schema_string_Inr split: sum.splits if_splits)
  show "ev_event_id e = py_strip (nm_event_id n)" "ev_source e = py_strip (nm_source n)"
    "ev_source_account_id e = py_strip (nm_source_account_id n)" "ev_conversation_id e = py_strip (nm_conversation_id n)"
    "ev_source_message_id e = py_strip (nm_source_message_id n)"
    using v [OF f(2)] s by simp_all
qed

lemma service_process_stores:
  assumes p: "sink_polite e" and ok: "messages_ok db" and e: "service_process e n db = (r, db')"
  shows "messages_ok db'" "message_stored k db \<Longrightarrow> message_stored k db'" "r = Inr x \<Longrightarrow> message_stored n db'"
proof -
  have "messages_ok db' \<and> set (messages db) \<subseteq> set (messages db') \<and> (r = Inr x \<longrightarrow> message_stored n db')"
  proof (cases "wechat_message_to_event (wall_now (se_ck e)) n")
    case (Inl a)
    with e ok show ?thesis by (auto simp: service_process_def)
  next
    case (Inr event)
    with e have q: "process_event (se_repr e) (se_isoformat e) (se_resolver e) (se_dispatcher e) (se_race e) (se_ck e) (se_uuid e)
         (se_v2_routing_enabled e) (se_lease e) event db = (r, db')" by (simp add: service_process_def)
    have "message_stored n db'" if m: "get_existing_message event db' = Some m" for m
      using m get_existing_message_stored [OF m] to_event_ids [OF Inr]
      by (auto simp: message_stored_def get_existing_message_def get_by_event_id_def get_by_source_message_def dest!: lookup_by_Some
          split: option.splits)
    with process_event_stores [OF _ _ ok q] p show ?thesis by (auto simp: sink_polite_def)
  qed
  then show "messages_ok db'" "message_stored k db \<Longrightarrow> message_stored k db'" "r = Inr x \<Longrightarrow> message_stored n db'"
    by (auto simp: message_stored_def)
qed

lemma sink_of_handled:
  "handle_with_disposition (sink_of process) e n db = (r, db') \<Longrightarrow>
     \<exists>q. process e n db = (q, db') \<and> (\<forall>d. r = Inr d \<longrightarrow> (\<exists>x. q = Inr x))"
  by (auto simp: handle_with_disposition_def sink_of_def split: prod.splits sum.splits) (auto simp: map_sum_def split: sum.splits)

text \<open>Both sinks keep the contract; a session that does not close reports an error, but the message is stored.\<close>

definition sink_law :: "(sink_env, gateway_db) message_sink \<Rightarrow> bool" where
  "sink_law sink \<longleftrightarrow>
     (\<forall>e m db r db'. sink_polite e \<longrightarrow> messages_ok db \<longrightarrow> handle_with_disposition sink e m db = (r, db') \<longrightarrow>
        messages_ok db' \<and> (\<forall>n. message_stored n db \<longrightarrow> message_stored n db') \<and> (\<forall>d. r = Inr d \<longrightarrow> message_stored m db'))"

lemma sink_lawI:
  assumes "\<And>e m db q db'. process e m db = (q, db') \<Longrightarrow>
      db' = db \<and> (\<forall>x. q \<noteq> Inr x) \<or> (\<exists>q'. service_process e m db = (q', db') \<and> (\<forall>x. q = Inr x \<longrightarrow> (\<exists>y. q' = Inr y)))"
  shows "sink_law (sink_of process)"
  unfolding sink_law_def
proof (intro allI impI)
  fix e m db r db'
  assume p: "sink_polite e" and ok: "messages_ok db" and h: "handle_with_disposition (sink_of process) e m db = (r, db')"
  obtain q where q: "process e m db = (q, db')" "\<forall>d. r = Inr d \<longrightarrow> (\<exists>x. q = Inr x)"
    using sink_of_handled [OF h] by (elim exE conjE) (rule that)
  from assms [OF q(1)] show "messages_ok db' \<and> (\<forall>n. message_stored n db \<longrightarrow> message_stored n db') \<and> (\<forall>d. r = Inr d \<longrightarrow> message_stored m db')"
  proof
    assume "db' = db \<and> (\<forall>x. q \<noteq> Inr x)"
    with ok q(2) show ?thesis by auto
  next
    assume "\<exists>q'. service_process e m db = (q', db') \<and> (\<forall>x. q = Inr x \<longrightarrow> (\<exists>y. q' = Inr y))"
    then obtain q' where s: "service_process e m db = (q', db')" "\<forall>x. q = Inr x \<longrightarrow> (\<exists>y. q' = Inr y)"
      by (elim exE conjE) (rule that)
    have "message_stored m db'" if "r = Inr d" for d
    proof -
      from q(2) s(2) that obtain y where "q' = Inr y" by auto
      then show ?thesis by (rule service_process_stores(3) [OF p ok s(1)])
    qed
    with service_process_stores(1,2) [OF p ok s(1)] show ?thesis by simp
  qed
qed

lemma admission_sink_law: "sink_law message_store_admission_sink"
  unfolding message_store_admission_sink_def
  by (rule sink_lawI) (auto simp: admission_sink_process_def sink_error_def split: prod.splits sum.splits)

lemma session_sink_law: "sink_law session_factory_sink"
  unfolding session_factory_sink_def
  by (rule sink_lawI) (auto simp: session_sink_process_def split: prod.splits sum.splits if_splits)

interpretation admission_sink: durable_sink message_store_admission_sink sink_polite message_stored messages_ok
  using admission_sink_law by unfold_locales (unfold sink_law_def, blast+)

interpretation session_sink: durable_sink session_factory_sink sink_polite message_stored messages_ok
  using session_sink_law by unfold_locales (unfold sink_law_def, blast+)

end
