(* ===== verification/Wechat_Polling.thy ===== *)
theory Wechat_Polling
  imports Wechat_Sink
begin

text \<open>
  One polling cycle (\<open>WechatPollingService.poll_once\<close> and \<open>_poll_chat\<close> in
  \<open>adapters/wechat/polling_service.py\<close>): every chat is listed, its window of messages is checked
  against the checkpoint, a regression of the remote history is recovered, and the new messages
  are given to the sink one by one, each followed by the advance of the checkpoint. The answers of
  the client, the clock, the circumstances of every call of the checkpoint store and of the sink
  are arguments. An exception that no handler catches is the left value of a poll.
\<close>

section \<open>Chats and messages\<close>

definition nonempty_string :: "json \<Rightarrow> string option" where
  "nonempty_string value =
     (case value of JStr s \<Rightarrow> if py_strip s = [] then None else Some (py_strip s) | _ \<Rightarrow> None)"

definition parse_chat :: "json \<Rightarrow> poll_error + string \<times> string option" where
  "parse_chat chat =
     (case chat of
        JObj kvs \<Rightarrow>
          (let candidates = remdups (List.map_filter (\<lambda>key. nonempty_string (json_field chat key))
                 [''id'', ''chatId'', ''chat_id'', ''userName'', ''username'']) in
           case candidates of
             [conversation_id] \<Rightarrow> Inr (conversation_id, nonempty_string (json_field chat ''name''))
           | _ \<Rightarrow> Inl (PollingError WechatChatIdentityError))
      | _ \<Rightarrow> Inl (PollingError WechatChatIdentityError))"

definition in_local_range :: "int \<Rightarrow> poll_error + int" where
  "in_local_range n = (if 0 < n \<and> n \<le> MAX_CHECKPOINT_LOCAL_ID then Inr n else Inl (PollingError WechatLocalIdError))"

definition numeric_local_id :: "raw_item \<Rightarrow> poll_error + int" where
  "numeric_local_id message =
     (case item_field rw_local_id ''localId'' message of
        JInt n \<Rightarrow> in_local_range n
      | JStr s \<Rightarrow>
          (let normalized = py_strip s in
           if normalized = [] \<or> \<not> list_all ascii_digit normalized then Inl (PollingError WechatLocalIdError)
           else if length normalized > INT_MAX_STR_DIGITS then Inl OtherError
           else in_local_range (int (str_nat normalized)))
      | _ \<Rightarrow> Inl (PollingError WechatLocalIdError))"

definition is_self_message :: "raw_item \<Rightarrow> bool" where
  "is_self_message message \<longleftrightarrow> item_field rw_is_self ''isSelf'' message = JBool True"

definition message_has_usable_server_id :: "raw_item \<Rightarrow> bool" where
  "message_has_usable_server_id message =
     (case item_field rw_server_id ''serverId'' message of
        JInt n \<Rightarrow> n > 0
      | JStr s \<Rightarrow> py_strip s \<noteq> [] \<and> py_strip s \<noteq> ''0''
      | _ \<Rightarrow> False)"

fun collect_messages :: "string \<Rightarrow> raw_item list \<Rightarrow> poll_error + (int \<times> raw_item) list" where
  "collect_messages conversation_id [] = Inr []"
| "collect_messages conversation_id (message # rest) =
     (if nonempty_string (item_field (\<lambda>m. JStr (rw_chat_id m)) ''chatId'' message) \<noteq> Some conversation_id
      then Inl (PollingError WechatConversationMismatchError)
      else
        (case numeric_local_id message of
           Inl e \<Rightarrow> Inl e
         | Inr local_id \<Rightarrow> map_sum id ((#) (local_id, message)) (collect_messages conversation_id rest)))"

definition validated_ordered_messages :: "string \<Rightarrow> raw_item list \<Rightarrow> poll_error + (int \<times> raw_item) list" where
  "validated_ordered_messages conversation_id raw_messages =
     map_sum id (sort_key fst) (collect_messages conversation_id raw_messages)"

definition message_timestamp :: "model_validator \<Rightarrow> raw_item \<Rightarrow> instant option" where
  "message_timestamp model_validate message =
     (case raw_message model_validate message of Inl _ \<Rightarrow> None | Inr m \<Rightarrow> aware_utc (rw_timestamp m))"

text \<open>The scan of \<open>_live_suffix_start_index\<close>; nothing is its \<open>ValueError\<close>.\<close>

fun live_suffix_scan ::
  "model_validator \<Rightarrow> instant \<Rightarrow> int \<Rightarrow> instant option \<Rightarrow> nat \<Rightarrow> nat option \<Rightarrow> (int \<times> raw_item) list \<Rightarrow> nat option option"
where
  "live_suffix_scan model_validate empty_since previous_local_id previous_timestamp index start [] = Some start"
| "live_suffix_scan model_validate empty_since previous_local_id previous_timestamp index start ((local_id, message) # rest) =
     (case message_timestamp model_validate message of
        None \<Rightarrow> None
      | Some timestamp \<Rightarrow>
          if local_id \<le> previous_local_id \<or> (case previous_timestamp of None \<Rightarrow> False | Some p \<Rightarrow> timestamp < p) then None
          else live_suffix_scan model_validate empty_since local_id (Some timestamp) (index + 1)
                 (if start = None \<and> timestamp > empty_since then Some index else start) rest)"

definition live_suffix_start_index :: "model_validator \<Rightarrow> EmptyWindowMarker \<Rightarrow> (int \<times> raw_item) list \<Rightarrow> nat option option" where
  "live_suffix_start_index model_validate marker ordered_messages =
     (case live_suffix_scan model_validate (em_empty_since marker) 0 None 0 None ordered_messages of
        None \<Rightarrow> None
      | Some None \<Rightarrow> Some None
      | Some (Some start) \<Rightarrow>
          (let first_live_local_id = fst (ordered_messages ! start) in
           if start = 0 then (if first_live_local_id \<noteq> 1 then None else Some (Some start))
           else if fst (ordered_messages ! (start - 1)) + 1 \<noteq> first_live_local_id then None else Some (Some start)))"

section \<open>The circumstances of a cycle\<close>

record ('e, 's) poll_env =
  pe_model_validate :: model_validator
  pe_parse_xml :: "string \<Rightarrow> xml option"
  pe_bootstrap_mode :: BootstrapMode
  pe_sink :: "('e, 's) message_sink"
  pe_auth_status :: "poll_error + AgentWechatAuthStatus"
  pe_list_chats :: "poll_error + json list"
  pe_list_messages :: "nat \<Rightarrow> string \<Rightarrow> poll_error + raw_item list"
  pe_clock :: "nat \<Rightarrow> py_datetime option"
  pe_session :: "nat \<Rightarrow> nat \<Rightarrow> 's checkpoint_session"
  pe_sink_env :: "nat \<Rightarrow> nat \<Rightarrow> 'e"

record 's poll_world =
  pw_db :: "'s checkpoint_db"
  pw_life :: lifecycle

type_synonym ('a, 's) poll_outcome = "(poll_error + 'a) \<times> 's poll_world"

text \<open>The chat a step works on: its place in the cycle, its ids and the counts of its window.\<close>

record chat_window =
  cx_index :: nat
  cx_account :: string
  cx_conversation :: string
  cx_name :: "string option"
  cx_seen :: nat
  cx_without_server_id :: nat

definition window_result :: "chat_window \<Rightarrow> bool \<Rightarrow> ChatPollResult" where
  "window_result x succeeded =
     (chat_result (Some (cx_conversation x)) (cx_name x) succeeded)
       \<lparr>cr_messages_seen := cx_seen x, cr_messages_without_server_id := cx_without_server_id x\<rparr>"

definition checkpoint_failure :: "chat_window \<Rightarrow> nat \<Rightarrow> bool \<Rightarrow> poll_error \<Rightarrow> ChatPollResult" where
  "checkpoint_failure x skipped bootstrapped error =
     (window_result x False)\<lparr>cr_messages_skipped_by_checkpoint := skipped, cr_bootstrapped := bootstrapped,
        cr_failures := [poll_failure STAGE_CHECKPOINT error (Some (cx_conversation x)) None]\<rparr>"

definition continuity_failure :: "chat_window \<Rightarrow> nat \<Rightarrow> bool \<Rightarrow> string option \<Rightarrow> bool \<Rightarrow> ChatPollResult" where
  "continuity_failure x skipped bootstrapped state_ref changed =
     (checkpoint_failure x skipped bootstrapped (PollingError WechatCheckpointContinuityError))
       \<lparr>cr_continuity_only := (state_ref \<noteq> None), cr_continuity_state_ref := state_ref, cr_continuity_state_changed := changed\<rparr>"

definition continuity_failure_result ::
  "chat_window \<Rightarrow> nat \<Rightarrow> bool \<Rightarrow> int \<Rightarrow> int \<Rightarrow> string option \<Rightarrow> int \<Rightarrow> int \<Rightarrow> string \<Rightarrow> 's poll_world \<Rightarrow> (ChatPollResult, 's) poll_outcome"
where
  "continuity_failure_result x skipped bootstrapped checkpoint generation fingerprint remote_first remote_latest action w =
     (case observe_continuity_failure (cx_account x) (cx_conversation x)
             \<lparr>co_checkpoint_local_id = checkpoint, co_checkpoint_generation = generation, co_checkpoint_fingerprint = fingerprint,
              co_remote_first_local_id = remote_first, co_remote_latest_local_id = remote_latest, co_recovery_action = action,
              co_failure_code = polling_error_code WechatCheckpointContinuityError\<rparr> (pw_life w) of
        ((changed, state_ref), life) \<Rightarrow> (Inr (continuity_failure x skipped bootstrapped (Some state_ref) changed), w\<lparr>pw_life := life\<rparr>))"

definition window_first :: "(int \<times> raw_item) list \<Rightarrow> int" where
  "window_first ordered_messages = (if ordered_messages = [] then 0 else fst (hd ordered_messages))"

definition window_latest :: "(int \<times> raw_item) list \<Rightarrow> int" where
  "window_latest ordered_messages = (if ordered_messages = [] then 0 else fst (last ordered_messages))"

section \<open>Delivering the new messages\<close>

definition normalize_for_chat ::
  "model_validator \<Rightarrow> (string \<Rightarrow> xml option) \<Rightarrow> raw_item \<Rightarrow> string \<Rightarrow> string \<Rightarrow> string option \<Rightarrow> int \<Rightarrow> poll_error + NormalizedWechatMessage"
where
  "normalize_for_chat model_validate parse_xml raw source_account_id conversation_id conversation_name generation =
     (case normalize_wechat_message model_validate parse_xml raw source_account_id conversation_name generation of
        Inl e \<Rightarrow> Inl e
      | Inr normalized \<Rightarrow>
          if nm_conversation_id normalized \<noteq> conversation_id then Inl (PollingError WechatConversationMismatchError)
          else Inr normalized)"

definition compatible_concurrent_advance :: "WechatSyncCheckpoint \<Rightarrow> int \<Rightarrow> int \<Rightarrow> string option \<Rightarrow> bool" where
  "compatible_concurrent_advance checkpoint expected_generation local_id message_fingerprint \<longleftrightarrow>
     k_regression_generation checkpoint = expected_generation \<and> k_last_local_id checkpoint \<ge> local_id
     \<and> (k_last_local_id checkpoint = local_id \<longrightarrow> k_last_message_fingerprint checkpoint = message_fingerprint)"

record tally =
  ty_processed :: nat
  ty_new :: nat
  ty_duplicate :: nat
  ty_skipped :: nat
  ty_skipped_as_self :: nat

definition no_messages :: tally where
  "no_messages = \<lparr>ty_processed = 0, ty_new = 0, ty_duplicate = 0, ty_skipped = 0, ty_skipped_as_self = 0\<rparr>"

definition tally_result :: "chat_window \<Rightarrow> bool \<Rightarrow> bool \<Rightarrow> tally \<Rightarrow> ChatPollResult" where
  "tally_result x succeeded bootstrapped t =
     (window_result x succeeded)\<lparr>cr_messages_processed := ty_processed t, cr_messages_new := ty_new t,
        cr_messages_duplicate := ty_duplicate t, cr_messages_skipped_by_checkpoint := ty_skipped t,
        cr_messages_skipped_as_self := ty_skipped_as_self t, cr_bootstrapped := bootstrapped\<rparr>"

definition message_failure :: "chat_window \<Rightarrow> bool \<Rightarrow> tally \<Rightarrow> PollFailureStage \<Rightarrow> poll_error \<Rightarrow> int \<Rightarrow> ChatPollResult" where
  "message_failure x bootstrapped t stage error local_id =
     (tally_result x False bootstrapped t)\<lparr>cr_messages_failed := 1,
        cr_failures := [poll_failure stage error (Some (cx_conversation x)) (Some local_id)]\<rparr>"

text \<open>A message that is not our own is normalized and given to the sink.\<close>

definition hand_over ::
  "('e, 's) poll_env \<Rightarrow> chat_window \<Rightarrow> nat \<Rightarrow> int \<Rightarrow> raw_item \<Rightarrow> tally \<Rightarrow> 's poll_world
     \<Rightarrow> ((PollFailureStage \<times> poll_error) + tally) \<times> 's poll_world"
where
  "hand_over env x i generation raw t w =
     (if is_self_message raw then (Inr (t\<lparr>ty_skipped_as_self := ty_skipped_as_self t + 1\<rparr>), w)
      else
        (case normalize_for_chat (pe_model_validate env) (pe_parse_xml env) raw (cx_account x) (cx_conversation x) (cx_name x) generation of
           Inl e \<Rightarrow> (Inl (STAGE_NORMALIZE, e), w)
         | Inr normalized \<Rightarrow>
             (case handle_with_disposition (pe_sink env) (pe_sink_env env (cx_index x) i) normalized (cp_rest (pw_db w)) of
                (r, s) \<Rightarrow>
                  (case r of
                     Inl e \<Rightarrow> Inl (STAGE_SINK, e)
                   | Inr SINK_DUPLICATE \<Rightarrow> Inr (t\<lparr>ty_duplicate := ty_duplicate t + 1\<rparr>)
                   | Inr SINK_CREATED \<Rightarrow> Inr (t\<lparr>ty_new := ty_new t + 1\<rparr>), w\<lparr>pw_db := (pw_db w)\<lparr>cp_rest := s\<rparr>\<rparr>))))"

definition advance_past ::
  "('e, 's) poll_env \<Rightarrow> chat_window \<Rightarrow> nat \<Rightarrow> WechatSyncCheckpoint \<Rightarrow> int \<Rightarrow> raw_item \<Rightarrow> 's poll_world
     \<Rightarrow> (WechatSyncCheckpoint, 's) poll_outcome"
where
  "advance_past env x i checkpoint local_id raw w =
     (case build_wechat_checkpoint_fingerprint (pe_model_validate env) raw of
        Inl e \<Rightarrow> (Inl e, w)
      | Inr message_fingerprint \<Rightarrow>
          (case advance_cas (pe_session env (cx_index x) (3 + i)) (cx_account x) (cx_conversation x)
                  (PyInt (k_last_local_id checkpoint)) (PyInt (k_regression_generation checkpoint))
                  (k_last_message_fingerprint checkpoint) (PyInt local_id) message_fingerprint (pw_db w) of
             (Inl e, db) \<Rightarrow> (Inl e, w\<lparr>pw_db := db\<rparr>)
           | (Inr (current, advanced), db) \<Rightarrow>
               (if \<not> advanced \<and> \<not> compatible_concurrent_advance current (k_regression_generation checkpoint) local_id message_fingerprint
                then Inl (PollingError WechatCheckpointStateConflictError) else Inr current, w\<lparr>pw_db := db\<rparr>)))"

fun deliver_messages ::
  "('e, 's) poll_env \<Rightarrow> chat_window \<Rightarrow> bool \<Rightarrow> nat \<Rightarrow> WechatSyncCheckpoint \<Rightarrow> tally \<Rightarrow> (int \<times> raw_item) list \<Rightarrow> 's poll_world
     \<Rightarrow> (ChatPollResult, 's) poll_outcome"
where
  "deliver_messages env x bootstrapped i checkpoint t [] w = (Inr (tally_result x True bootstrapped t), w)"
| "deliver_messages env x bootstrapped i checkpoint t ((local_id, raw) # rest) w =
     (if local_id \<le> k_last_local_id checkpoint
      then deliver_messages env x bootstrapped (i + 1) checkpoint (t\<lparr>ty_skipped := ty_skipped t + 1\<rparr>) rest w
      else
        (case hand_over env x i (k_regression_generation checkpoint) raw t w of
           (Inl (stage, e), w1) \<Rightarrow> (Inr (message_failure x bootstrapped t stage e local_id), w1)
         | (Inr t1, w1) \<Rightarrow>
             (case advance_past env x i checkpoint local_id raw w1 of
                (Inl e, w2) \<Rightarrow> (Inr (message_failure x bootstrapped t1 STAGE_CHECKPOINT e local_id), w2)
              | (Inr current, w2) \<Rightarrow>
                  deliver_messages env x bootstrapped (i + 1) current
                    (if is_self_message raw then t1 else t1\<lparr>ty_processed := ty_processed t1 + 1\<rparr>) rest w2)))"

section \<open>Recovering from a regression\<close>

definition begin_live_suffix ::
  "('e, 's) poll_env \<Rightarrow> chat_window \<Rightarrow> (int \<times> raw_item) list \<Rightarrow> nat \<Rightarrow> WechatSyncCheckpoint \<Rightarrow> bool \<Rightarrow> 's poll_world
     \<Rightarrow> (ChatPollResult, 's) poll_outcome"
where
  "begin_live_suffix env x ordered_messages start checkpoint bootstrapped w =
     (case (if start > 0 then build_wechat_checkpoint_fingerprint (pe_model_validate env) (snd (ordered_messages ! (start - 1))) else Inr None) of
        Inl e \<Rightarrow> (Inl e, w)
      | Inr baseline_fingerprint \<Rightarrow>
          if start > 0 \<and> baseline_fingerprint = None
          then continuity_failure_result x (cx_seen x) bootstrapped (k_last_local_id checkpoint) (k_regression_generation checkpoint)
                 (k_last_message_fingerprint checkpoint) (window_first ordered_messages) (window_latest ordered_messages)
                 ''stop_chat_live_suffix_baseline_unavailable'' w
          else
            (case begin_live_suffix_after_empty_window (pe_session env (cx_index x) 2) (cx_account x) (cx_conversation x)
                    (PyInt (k_last_local_id checkpoint)) (PyInt (k_regression_generation checkpoint))
                    (k_last_message_fingerprint checkpoint) (PyInt (fst (ordered_messages ! start))) baseline_fingerprint (pw_db w) of
               (Inl e, db) \<Rightarrow> (Inr (checkpoint_failure x (cx_seen x) bootstrapped e), w\<lparr>pw_db := db\<rparr>)
             | (Inr (current, started), db) \<Rightarrow>
                 if \<not> started
                 then (Inr (checkpoint_failure x (cx_seen x) bootstrapped (PollingError WechatCheckpointStateConflictError)), w\<lparr>pw_db := db\<rparr>)
                 else deliver_messages env x True 0 current no_messages ordered_messages (w\<lparr>pw_db := db\<rparr>)))"

definition rebase_latest ::
  "('e, 's) poll_env \<Rightarrow> chat_window \<Rightarrow> (int \<times> raw_item) list \<Rightarrow> WechatSyncCheckpoint \<Rightarrow> bool \<Rightarrow> 's poll_world
     \<Rightarrow> (ChatPollResult, 's) poll_outcome"
where
  "rebase_latest env x ordered_messages checkpoint bootstrapped w =
     (case build_wechat_checkpoint_fingerprint (pe_model_validate env) (snd (last ordered_messages)) of
        Inl e \<Rightarrow> (Inl e, w)
      | Inr None \<Rightarrow> (Inr (continuity_failure x (cx_seen x) bootstrapped None False), w)
      | Inr (Some latest_fingerprint) \<Rightarrow>
          (case rebase_latest_after_regression (pe_session env (cx_index x) 2) (cx_account x) (cx_conversation x)
                  (PyInt (k_last_local_id checkpoint)) (PyInt (k_regression_generation checkpoint))
                  (k_last_message_fingerprint checkpoint) (PyInt (window_latest ordered_messages)) (Some latest_fingerprint) (pw_db w) of
             (Inl e, db) \<Rightarrow> (Inr (checkpoint_failure x (cx_seen x) bootstrapped e), w\<lparr>pw_db := db\<rparr>)
           | (Inr (current, rebased), db) \<Rightarrow>
               (Inr (if \<not> rebased then checkpoint_failure x (cx_seen x) bootstrapped (PollingError WechatCheckpointStateConflictError)
                     else (window_result x True)\<lparr>cr_messages_skipped_by_checkpoint := cx_seen x, cr_bootstrapped := True\<rparr>),
                w\<lparr>pw_db := db\<rparr>)))"

definition rewind_window ::
  "('e, 's) poll_env \<Rightarrow> chat_window \<Rightarrow> (int \<times> raw_item) list \<Rightarrow> WechatSyncCheckpoint \<Rightarrow> bool \<Rightarrow> 's poll_world
     \<Rightarrow> (ChatPollResult, 's) poll_outcome"
where
  "rewind_window env x ordered_messages checkpoint bootstrapped w =
     (case checkpoint_rewind (pe_session env (cx_index x) 2) (cx_account x) (cx_conversation x)
             (PyInt (k_last_local_id checkpoint)) (PyInt (k_regression_generation checkpoint))
             (k_last_message_fingerprint checkpoint) (PyInt (window_first ordered_messages - 1)) (pw_db w) of
        (Inl e, db) \<Rightarrow> (Inr (checkpoint_failure x 0 bootstrapped e), w\<lparr>pw_db := db\<rparr>)
      | (Inr (current, rewound), db) \<Rightarrow>
          if \<not> rewound
          then (Inr (checkpoint_failure x 0 bootstrapped (PollingError WechatCheckpointStateConflictError)), w\<lparr>pw_db := db\<rparr>)
          else deliver_messages env x bootstrapped 0 current no_messages ordered_messages (w\<lparr>pw_db := db\<rparr>))"

definition recover_regression ::
  "('e, 's) poll_env \<Rightarrow> chat_window \<Rightarrow> (int \<times> raw_item) list \<Rightarrow> EmptyWindowMarker option \<Rightarrow> WechatSyncCheckpoint \<Rightarrow> bool \<Rightarrow> 's poll_world
     \<Rightarrow> (ChatPollResult, 's) poll_outcome"
where
  "recover_regression env x ordered_messages marker checkpoint bootstrapped w =
     (case pe_bootstrap_mode env of
        BACKFILL \<Rightarrow> rewind_window env x ordered_messages checkpoint bootstrapped w
      | LATEST \<Rightarrow>
          (case marker of
             None \<Rightarrow> rebase_latest env x ordered_messages checkpoint bootstrapped w
           | Some k \<Rightarrow>
               (case live_suffix_start_index (pe_model_validate env) k ordered_messages of
                  None \<Rightarrow>
                    continuity_failure_result x (cx_seen x) bootstrapped (k_last_local_id checkpoint) (k_regression_generation checkpoint)
                      (k_last_message_fingerprint checkpoint) (window_first ordered_messages) (window_latest ordered_messages)
                      ''stop_chat_empty_window_time_unverified'' w
                | Some None \<Rightarrow> rebase_latest env x ordered_messages checkpoint bootstrapped w
                | Some (Some start) \<Rightarrow> begin_live_suffix env x ordered_messages start checkpoint bootstrapped w)))"

section \<open>The continuity of a window\<close>

text \<open>The anchor: the message of the window the checkpoint stands on.\<close>

definition enroll_window_anchor ::
  "('e, 's) poll_env \<Rightarrow> chat_window \<Rightarrow> nat \<Rightarrow> WechatSyncCheckpoint \<Rightarrow> bool \<Rightarrow> string \<Rightarrow> 's poll_world \<Rightarrow> (ChatPollResult, 's) poll_outcome"
where
  "enroll_window_anchor env x skipped checkpoint bootstrapped fingerprint w =
     (case enroll_anchor (pe_session env (cx_index x) 2) (cx_account x) (cx_conversation x)
             (PyInt (k_last_local_id checkpoint)) (PyInt (k_regression_generation checkpoint)) (Some fingerprint) (pw_db w) of
        (Inl e, db) \<Rightarrow> (Inr (checkpoint_failure x skipped bootstrapped e), w\<lparr>pw_db := db\<rparr>)
      | (Inr _, db) \<Rightarrow> (Inr (continuity_failure x skipped bootstrapped None False), w\<lparr>pw_db := db\<rparr>))"

definition check_anchor ::
  "('e, 's) poll_env \<Rightarrow> chat_window \<Rightarrow> (int \<times> raw_item) list \<Rightarrow> EmptyWindowMarker option \<Rightarrow> WechatSyncCheckpoint \<Rightarrow> bool \<Rightarrow> 's poll_world
     \<Rightarrow> (ChatPollResult, 's) poll_outcome"
where
  "check_anchor env x ordered_messages marker checkpoint bootstrapped w =
     (let old_checkpoint = k_last_local_id checkpoint;
          skipped = length (filter (\<lambda>(local_id, _). local_id \<le> old_checkpoint) ordered_messages);
          stop = (\<lambda>action. continuity_failure_result x skipped bootstrapped old_checkpoint (k_regression_generation checkpoint)
                    (k_last_message_fingerprint checkpoint) (window_first ordered_messages) (window_latest ordered_messages) action w) in
      case filter (\<lambda>(local_id, _). local_id = old_checkpoint) ordered_messages of
        [(_, anchor)] \<Rightarrow>
          (case build_wechat_checkpoint_fingerprint (pe_model_validate env) anchor of
             Inl e \<Rightarrow> (Inl e, w)
           | Inr remote_fingerprint \<Rightarrow>
               (case (k_last_message_fingerprint checkpoint, remote_fingerprint) of
                  (None, None) \<Rightarrow> stop ''stop_chat_anchor_unavailable''
                | (None, Some fingerprint) \<Rightarrow> enroll_window_anchor env x skipped checkpoint bootstrapped fingerprint w
                | (Some _, None) \<Rightarrow> stop ''stop_chat_remote_anchor_unavailable''
                | (Some saved, Some remote) \<Rightarrow>
                    if saved = remote then deliver_messages env x bootstrapped 0 checkpoint no_messages ordered_messages w
                    else recover_regression env x ordered_messages marker checkpoint bootstrapped w))
      | _ \<Rightarrow> stop ''stop_chat_anchor_ambiguous'')"

definition poll_continuity ::
  "('e, 's) poll_env \<Rightarrow> chat_window \<Rightarrow> (int \<times> raw_item) list \<Rightarrow> EmptyWindowMarker option \<Rightarrow> WechatSyncCheckpoint \<Rightarrow> bool \<Rightarrow> 's poll_world
     \<Rightarrow> (ChatPollResult, 's) poll_outcome"
where
  "poll_continuity env x ordered_messages marker checkpoint bootstrapped w =
     (if k_last_local_id checkpoint > 0 \<and> ordered_messages \<noteq> [] \<and> fst (hd ordered_messages) \<le> k_last_local_id checkpoint
      then
        (if window_latest ordered_messages < k_last_local_id checkpoint
         then recover_regression env x ordered_messages marker checkpoint bootstrapped w
         else check_anchor env x ordered_messages marker checkpoint bootstrapped w)
      else deliver_messages env x bootstrapped 0 checkpoint no_messages ordered_messages w)"

section \<open>One chat\<close>

definition bootstrap_checkpoint ::
  "('e, 's) poll_env \<Rightarrow> chat_window \<Rightarrow> (int \<times> raw_item) list \<Rightarrow> 's poll_world \<Rightarrow> (WechatSyncCheckpoint \<times> bool, 's) poll_outcome"
where
  "bootstrap_checkpoint env x ordered_messages w =
     (let initial_local_id = (if pe_bootstrap_mode env = LATEST then window_latest ordered_messages else 0) in
      case (if initial_local_id > 0 then build_wechat_checkpoint_fingerprint (pe_model_validate env) (snd (last ordered_messages)) else Inr None) of
        Inl e \<Rightarrow> (Inl e, w)
      | Inr initial_fingerprint \<Rightarrow>
          (case checkpoint_initialize (pe_session env (cx_index x) 1) (cx_account x) (cx_conversation x) (PyInt initial_local_id)
                  initial_fingerprint (pw_db w) of
             (r, db) \<Rightarrow> (r, w\<lparr>pw_db := db\<rparr>)))"

definition poll_checkpoint ::
  "('e, 's) poll_env \<Rightarrow> chat_window \<Rightarrow> (int \<times> raw_item) list \<Rightarrow> EmptyWindowMarker option \<Rightarrow> WechatSyncCheckpoint option \<Rightarrow> 's poll_world
     \<Rightarrow> (ChatPollResult, 's) poll_outcome"
where
  "poll_checkpoint env x ordered_messages marker checkpoint w =
     (case checkpoint of
        Some r \<Rightarrow> poll_continuity env x ordered_messages marker r False w
      | None \<Rightarrow>
          (case bootstrap_checkpoint env x ordered_messages w of
             (Inl e, w1) \<Rightarrow> (Inr (checkpoint_failure x 0 False e), w1)
           | (Inr (r, bootstrapped), w1) \<Rightarrow>
               if bootstrapped \<and> pe_bootstrap_mode env = LATEST
               then (Inr ((window_result x True)\<lparr>cr_messages_skipped_by_checkpoint := cx_seen x, cr_bootstrapped := True\<rparr>), w1)
               else poll_continuity env x ordered_messages marker r bootstrapped w1))"

definition poll_window ::
  "('e, 's) poll_env \<Rightarrow> chat_window \<Rightarrow> (int \<times> raw_item) list \<Rightarrow> WechatSyncCheckpoint option \<Rightarrow> 's poll_world
     \<Rightarrow> (ChatPollResult, 's) poll_outcome"
where
  "poll_window env x ordered_messages checkpoint w =
     (let emptied = (case checkpoint of
            Some r \<Rightarrow> if pe_bootstrap_mode env = LATEST \<and> k_last_local_id r > 0 \<and> ordered_messages = [] then Some r else None
          | None \<Rightarrow> None) in
      case emptied of
        Some r \<Rightarrow>
          (case record_empty_window (pe_clock env (cx_index x)) (cx_account x) (cx_conversation x) r (pw_life w) of
             (marker_recorded, life) \<Rightarrow>
               continuity_failure_result x 0 False (k_last_local_id r) (k_regression_generation r) (k_last_message_fingerprint r) 0 0
                 (if marker_recorded then ''stop_chat_visible_window_empty'' else ''stop_chat_empty_window_marker_unavailable'')
                 (w\<lparr>pw_life := life\<rparr>))
      | None \<Rightarrow>
          (case take_empty_window (cx_account x) (cx_conversation x) (pw_life w) of
             (marker, life) \<Rightarrow>
               (let w1 = w\<lparr>pw_life := life\<rparr> in
                case marker of
                  Some k \<Rightarrow>
                    if \<not> marker_matches_checkpoint k checkpoint
                    then continuity_failure_result x (cx_seen x) False (em_checkpoint_last_local_id k) (em_checkpoint_generation k)
                           (em_checkpoint_fingerprint k) (window_first ordered_messages) (window_latest ordered_messages)
                           ''stop_chat_empty_window_marker_mismatch'' w1
                    else poll_checkpoint env x ordered_messages marker checkpoint w1
                | None \<Rightarrow> poll_checkpoint env x ordered_messages marker checkpoint w1)))"

definition listed_window :: "nat \<Rightarrow> string \<Rightarrow> string \<Rightarrow> string option \<Rightarrow> raw_item list \<Rightarrow> chat_window" where
  "listed_window i account conversation_id name raw_messages =
     \<lparr>cx_index = i, cx_account = account, cx_conversation = conversation_id, cx_name = name, cx_seen = length raw_messages,
      cx_without_server_id = 0\<rparr>"

definition poll_listed ::
  "('e, 's) poll_env \<Rightarrow> nat \<Rightarrow> string \<Rightarrow> string \<Rightarrow> string option \<Rightarrow> raw_item list \<Rightarrow> 's poll_world \<Rightarrow> (ChatPollResult, 's) poll_outcome"
where
  "poll_listed env i account conversation_id name raw_messages w =
     (let x = listed_window i account conversation_id name raw_messages in
      case validated_ordered_messages conversation_id raw_messages of
        Inl e \<Rightarrow>
          (Inr ((window_result x False)\<lparr>cr_failures := [poll_failure STAGE_VALIDATE_MESSAGE e (Some conversation_id) None]\<rparr>),
           w\<lparr>pw_life := invalidate_chat account conversation_id (pw_life w)\<rparr>)
      | Inr ordered_messages \<Rightarrow>
          (let x1 = x\<lparr>cx_without_server_id := length (filter (\<lambda>(_, m). \<not> message_has_usable_server_id m) ordered_messages)\<rparr>;
               life = record_visible_window account conversation_id (map fst ordered_messages) (pw_life w);
               w1 = w\<lparr>pw_life := life\<rparr> in
           case checkpoint_get (pe_session env i 0) account conversation_id (pw_db w1) of
             (Inl e, db) \<Rightarrow>
               (Inr (checkpoint_failure x1 0 False e), w1\<lparr>pw_db := db, pw_life := invalidate_chat account conversation_id life\<rparr>)
           | (Inr checkpoint, db) \<Rightarrow> poll_window env x1 ordered_messages checkpoint (w1\<lparr>pw_db := db\<rparr>)))"

definition poll_chat ::
  "('e, 's) poll_env \<Rightarrow> nat \<Rightarrow> string \<Rightarrow> json \<Rightarrow> string list \<Rightarrow> 's poll_world \<Rightarrow> (ChatPollResult, 's) poll_outcome"
where
  "poll_chat env i account chat failed_conversation_ids w =
     (case parse_chat chat of
        Inl e \<Rightarrow> (Inr ((chat_result None None False)\<lparr>cr_failures := [poll_failure STAGE_PARSE_CHAT e None None]\<rparr>), w)
      | Inr (conversation_id, name) \<Rightarrow>
          if conversation_id \<in> set failed_conversation_ids
          then
            (Inr ((chat_result (Some conversation_id) name False)
               \<lparr>cr_failures := [\<lparr>pf_stage = STAGE_POLL_CHAT, pf_code = ''wechat_conversation_failed_earlier_in_cycle'',
                  pf_conversation_id = Some conversation_id, pf_local_id = None\<rparr>]\<rparr>),
             w\<lparr>pw_life := invalidate_chat account conversation_id (pw_life w)\<rparr>)
          else
            (case pe_list_messages env i conversation_id of
               Inl e \<Rightarrow>
                 (Inr ((chat_result (Some conversation_id) name False)
                    \<lparr>cr_failures := [poll_failure STAGE_LIST_MESSAGES e (Some conversation_id) None]\<rparr>),
                  w\<lparr>pw_life := invalidate_chat account conversation_id (pw_life w)\<rparr>)
             | Inr raw_messages \<Rightarrow> poll_listed env i account conversation_id name raw_messages w))"

section \<open>One cycle\<close>

fun poll_chats ::
  "('e, 's) poll_env \<Rightarrow> string \<Rightarrow> nat \<Rightarrow> string list \<Rightarrow> json list \<Rightarrow> 's poll_world \<Rightarrow> (ChatPollResult list, 's) poll_outcome"
where
  "poll_chats env account i failed [] w = (Inr [], w)"
| "poll_chats env account i failed (chat # chats) w =
     (case poll_chat env i account chat failed w of
        (Inl e, w1) \<Rightarrow> (Inl e, w1)
      | (Inr result, w1) \<Rightarrow>
          (let w2 = w1\<lparr>pw_life := snd (chat_result_log_level account result (pw_life w1))\<rparr>;
               failed' = (case cr_conversation_id result of
                            Some c \<Rightarrow> if \<not> cr_succeeded result then c # failed else failed | None \<Rightarrow> failed) in
           case poll_chats env account (i + 1) failed' chats w2 of (r, w3) \<Rightarrow> (map_sum id ((#) result) r, w3)))"

definition empty_poll :: "string option \<Rightarrow> bool \<Rightarrow> PollFailure list \<Rightarrow> PollResult" where
  "empty_poll account logged_in failures =
     \<lparr>pl_source_account_id = account, pl_logged_in = logged_in, pl_chats_seen = 0, pl_chats_succeeded = 0, pl_chats_failed = 0,
      pl_messages_seen = 0, pl_messages_processed = 0, pl_messages_new = 0, pl_messages_duplicate = 0, pl_messages_failed = 0,
      pl_messages_skipped_by_checkpoint = 0, pl_messages_skipped_as_self = 0, pl_messages_without_server_id = 0,
      pl_bootstrapped_chats = 0, pl_failures = failures, pl_chat_results = []\<rparr>"

definition poll_summary :: "string \<Rightarrow> nat \<Rightarrow> ChatPollResult list \<Rightarrow> PollResult" where
  "poll_summary account chats_seen results =
     \<lparr>pl_source_account_id = Some account, pl_logged_in = True, pl_chats_seen = chats_seen,
      pl_chats_succeeded = length (filter cr_succeeded results), pl_chats_failed = length (filter (\<lambda>r. \<not> cr_succeeded r) results),
      pl_messages_seen = sum_list (map cr_messages_seen results), pl_messages_processed = sum_list (map cr_messages_processed results),
      pl_messages_new = sum_list (map cr_messages_new results), pl_messages_duplicate = sum_list (map cr_messages_duplicate results),
      pl_messages_failed = sum_list (map cr_messages_failed results),
      pl_messages_skipped_by_checkpoint = sum_list (map cr_messages_skipped_by_checkpoint results),
      pl_messages_skipped_as_self = sum_list (map cr_messages_skipped_as_self results),
      pl_messages_without_server_id = sum_list (map cr_messages_without_server_id results),
      pl_bootstrapped_chats = length (filter cr_bootstrapped results),
      pl_failures = concat (map cr_failures results), pl_chat_results = results\<rparr>"

definition poll_once :: "('e, 's) poll_env \<Rightarrow> 's poll_world \<Rightarrow> (PollResult, 's) poll_outcome" where
  "poll_once env w =
     (let reset = w\<lparr>pw_life := invalidate_all (pw_life w)\<rparr> in
      case pe_auth_status env of
        Inl e \<Rightarrow> (Inr (empty_poll None False [poll_failure STAGE_AUTH e None None]), reset)
      | Inr auth \<Rightarrow>
          if au_status auth \<noteq> ''logged_in'' then (Inr (empty_poll None False []), reset)
          else
            (case auth_source_account_id auth of
               None \<Rightarrow>
                 (Inr (empty_poll None False [\<lparr>pf_stage = STAGE_AUTH, pf_code = ''wechat_auth_status_error'',
                    pf_conversation_id = None, pf_local_id = None\<rparr>]), reset)
             | Some account \<Rightarrow>
                 (let w1 = w\<lparr>pw_life := observe_account account (pw_life w)\<rparr> in
                  case pe_list_chats env of
                    Inl e \<Rightarrow>
                      (Inr (empty_poll (Some account) True [poll_failure STAGE_LIST_CHATS e None None]),
                       w1\<lparr>pw_life := invalidate_all (pw_life w1)\<rparr>)
                  | Inr chats \<Rightarrow>
                      (case poll_chats env account 0 [] chats w1 of
                         (Inl e, w2) \<Rightarrow> (Inl e, w2)
                       | (Inr results, w2) \<Rightarrow>
                           (Inr (poll_summary account (length chats) results),
                            w2\<lparr>pw_life := prune_chats account (List.map_filter cr_conversation_id results) (pw_life w2)\<rparr>)))))"

end
