(* ===== verification/Wechat_Delivery.thy ===== *)
theory Wechat_Delivery
  imports Wechat_Polling
begin

text \<open>
  At-least-once delivery. For a conversation and a generation of its history, \<open>handled_up_to\<close> says
  that the checkpoint has only passed messages that are our own or that the sink accepted. The
  locale \<open>delivery_promise\<close> proves that a polling cycle keeps it, for every sink that keeps its
  contract: whatever the client answers, whichever call fails and whatever concurrent pollers that
  keep it too do in between. The history is a set of messages with their local ids; a window that
  the client lists has to show the messages above the checkpoint that are not newer than its last.
\<close>

definition raw_settled ::
  "model_validator \<Rightarrow> (string \<Rightarrow> xml option) \<Rightarrow> (NormalizedWechatMessage \<Rightarrow> 's \<Rightarrow> bool) \<Rightarrow> string \<Rightarrow> string \<Rightarrow> int \<Rightarrow> raw_item \<Rightarrow> 's \<Rightarrow> bool"
where
  "raw_settled mv px accepted a c g raw s \<longleftrightarrow>
     is_self_message raw \<or> (\<exists>name n. normalize_for_chat mv px raw a c name g = Inr n \<and> accepted n s)"

definition history_handled ::
  "model_validator \<Rightarrow> (string \<Rightarrow> xml option) \<Rightarrow> (NormalizedWechatMessage \<Rightarrow> 's \<Rightarrow> bool) \<Rightarrow> string \<Rightarrow> string \<Rightarrow> int \<Rightarrow> (int \<times> raw_item) set
     \<Rightarrow> int \<Rightarrow> 's \<Rightarrow> bool"
where
  "history_handled mv px accepted a c g H n s \<longleftrightarrow> (\<forall>(l, raw)\<in>H. l \<le> n \<longrightarrow> raw_settled mv px accepted a c g raw s)"

definition handled_up_to ::
  "model_validator \<Rightarrow> (string \<Rightarrow> xml option) \<Rightarrow> (NormalizedWechatMessage \<Rightarrow> 's \<Rightarrow> bool) \<Rightarrow> ('s \<Rightarrow> bool) \<Rightarrow> string \<Rightarrow> string \<Rightarrow> int \<Rightarrow> int
     \<Rightarrow> (int \<times> raw_item) set \<Rightarrow> 's checkpoint_db \<Rightarrow> bool"
where
  "handled_up_to mv px accepted valid a c g start H db \<longleftrightarrow>
     checkpoints_ok db \<and> valid (cp_rest db)
     \<and> (\<exists>r. checkpoint_reload a c db = Some r \<and> g \<le> k_regression_generation r
          \<and> (k_regression_generation r = g \<longrightarrow>
               start \<le> k_last_local_id r \<and> history_handled mv px accepted a c g H (k_last_local_id r) (cp_rest db)))"

definition window_shows :: "(int \<times> raw_item) set \<Rightarrow> int \<Rightarrow> (int \<times> raw_item) list \<Rightarrow> bool" where
  "window_shows H start ordered_messages \<longleftrightarrow>
     (\<forall>(l, raw)\<in>H. start < l \<and> l \<le> window_latest ordered_messages \<longrightarrow> filter (\<lambda>e. fst e = l) ordered_messages = [(l, raw)])"

text \<open>What concurrent sessions keep: the order of the checkpoints, what was accepted, and the promise.\<close>

definition session_keeps ::
  "('s checkpoint_db \<Rightarrow> bool) \<Rightarrow> (NormalizedWechatMessage \<Rightarrow> 's \<Rightarrow> bool) \<Rightarrow> 's checkpoint_session \<Rightarrow> bool"
where
  "session_keeps promise accepted s \<longleftrightarrow>
     checkpoint_polite s \<and> (\<forall>db. promise db \<longrightarrow> promise (cs_race s db) \<and> promise (cs_late s db))
     \<and> (\<forall>db n. promise db \<longrightarrow> accepted n (cp_rest db) \<longrightarrow> accepted n (cp_rest (cs_race s db)))"

lemma raw_settled_mono:
  "(\<And>n. accepted n s \<Longrightarrow> accepted n s') \<Longrightarrow> raw_settled mv px accepted a c g raw s \<Longrightarrow> raw_settled mv px accepted a c g raw s'"
  by (auto simp: raw_settled_def)

lemma history_handled_mono:
  "(\<And>n. accepted n s \<Longrightarrow> accepted n s') \<Longrightarrow> history_handled mv px accepted a c g H m s \<Longrightarrow> history_handled mv px accepted a c g H m s'"
  unfolding history_handled_def by (auto intro: raw_settled_mono [of accepted s s'])

lemma handled_up_toI:
  assumes "checkpoints_ok db" "valid (cp_rest db)" "checkpoint_reload a c db = Some r" "g \<le> k_regression_generation r"
    and "k_regression_generation r = g \<Longrightarrow> start \<le> k_last_local_id r"
    and "k_regression_generation r = g \<Longrightarrow> history_handled mv px accepted a c g H (k_last_local_id r) (cp_rest db)"
  shows "handled_up_to mv px accepted valid a c g start H db"
  using assms by (auto simp: handled_up_to_def)

text \<open>An update of one row, seen from the row of a conversation.\<close>

lemma reload_after_cas:
  assumes ok: "checkpoints_ok u" and m: "checkpoint_moves p f" and r: "checkpoint_reload a c u = Some r"
  shows "checkpoint_reload a c (u\<lparr>cp_rows := update_where p (\<lambda>r. (f r)\<lparr>k_updated_at := t\<rparr>) (cp_rows u)\<rparr>)
    = Some (if p r then (f r)\<lparr>k_updated_at := t\<rparr> else r)"
proof -
  have "checkpoint_key ((f x)\<lparr>k_updated_at := t\<rparr>) = checkpoint_key x" for x using m by (simp add: checkpoint_moves_def)
  then have "lookup_by checkpoint_key (a, c) (update_where p (\<lambda>r. (f r)\<lparr>k_updated_at := t\<rparr>) (cp_rows u))
    = map_option (\<lambda>r. if p r then (f r)\<lparr>k_updated_at := t\<rparr> else r) (lookup_by checkpoint_key (a, c) (cp_rows u))"
    by (rule lookup_by_update_where)
  with r show ?thesis by (simp add: checkpoint_reload_def)
qed

locale delivery_promise = durable_sink +
  fixes mv :: model_validator and px :: "string \<Rightarrow> xml option" and a c :: string and g start :: int and H :: "(int \<times> raw_item) set"
begin

abbreviation promise where
  "promise \<equiv> handled_up_to mv px accepted wf a c g start H"

abbreviation keeps where
  "keeps \<equiv> session_keeps promise accepted"

abbreviation settled where
  "settled \<equiv> raw_settled mv px accepted a c g"

lemma promise_ok: "promise db \<Longrightarrow> checkpoints_ok db" "promise db \<Longrightarrow> wf (cp_rest db)"
  by (simp_all add: handled_up_to_def)

lemma keepsD:
  assumes "keeps s"
  shows "checkpoint_polite s" "promise db \<Longrightarrow> promise (cs_race s db)" "promise db \<Longrightarrow> promise (cs_late s db)"
    "promise db \<Longrightarrow> accepted n (cp_rest db) \<Longrightarrow> accepted n (cp_rest (cs_race s db))"
  using assms by (auto simp: session_keeps_def)

lemma apply_cas_promise:
  assumes s: "keeps s" and db: "promise db" and m: "checkpoint_moves p f"
    and C: "\<And>u r. promise u \<Longrightarrow> (\<And>n. accepted n (cp_rest db) \<Longrightarrow> accepted n (cp_rest u)) \<Longrightarrow> checkpoint_reload a c u = Some r \<Longrightarrow> p r
      \<Longrightarrow> g \<le> k_regression_generation (f r)
        \<and> (k_regression_generation (f r) = g \<longrightarrow>
             start \<le> k_last_local_id (f r) \<and> history_handled mv px accepted a c g H (k_last_local_id (f r)) (cp_rest u))"
  shows "promise (snd (apply_cas s p f a' c' db))"
proof -
  define u where "u = cs_race s db"
  define v where "v = u\<lparr>cp_rows := update_where p (\<lambda>r. (f r)\<lparr>k_updated_at := cs_now s\<rparr>) (cp_rows u)\<rparr>"
  have u: "promise u" unfolding u_def by (rule keepsD(2) [OF s db])
  have acc: "accepted n (cp_rest u)" if "accepted n (cp_rest db)" for n unfolding u_def by (rule keepsD(4) [OF s db that])
  obtain r where r: "checkpoint_reload a c u = Some r" "g \<le> k_regression_generation r"
      "k_regression_generation r = g \<Longrightarrow> start \<le> k_last_local_id r \<and> history_handled mv px accepted a c g H (k_last_local_id r) (cp_rest u)"
    using u by (auto simp: handled_up_to_def)
  have v: "promise v"
  proof (rule handled_up_toI)
    show "checkpoints_ok v" unfolding v_def by (rule moved_table [OF m promise_ok(1) [OF u]])
    show "wf (cp_rest v)" using promise_ok(2) [OF u] by (simp add: v_def)
    show "checkpoint_reload a c v = Some (if p r then (f r)\<lparr>k_updated_at := cs_now s\<rparr> else r)"
      unfolding v_def by (rule reload_after_cas [OF promise_ok(1) [OF u] m r(1)])
  qed (use r C [OF u acc r(1)] in \<open>auto simp: v_def\<close>)
  have "snd (apply_cas s p f a' c' db) \<in> {u, v, cs_late s v, cs_late s u}"
    by (auto simp: apply_cas_def Let_def u_def v_def commit_checkpoints_def split: commit_fate.splits)
  with u v keepsD(3) [OF s] show ?thesis by auto
qed

lemma promise_row:
  assumes "promise u" "checkpoint_reload a c u = Some r"
  shows "g \<le> k_regression_generation r" "k_regression_generation r = g \<Longrightarrow> start \<le> k_last_local_id r"
    "k_regression_generation r = g \<Longrightarrow> history_handled mv px accepted a c g H (k_last_local_id r) (cp_rest u)"
  using assms by (auto simp: handled_up_to_def)

lemma validated_promise:
  "(\<And>x. v = Inr x \<Longrightarrow> promise (snd (k x))) \<Longrightarrow> promise db \<Longrightarrow> promise (snd (validated v db k))"
  by (cases v) (auto simp: validated_def)

text \<open>A new generation makes no promise about the old one.\<close>

lemma generation_promise:
  assumes "keeps s" "promise db" "l \<noteq> MAX_CHECKPOINT_LOCAL_ID" "0 \<le> n" "n \<le> MAX_CHECKPOINT_LOCAL_ID"
    "\<forall>s. fp' = Some s \<longrightarrow> fingerprint_text s" "n = 0 \<longrightarrow> fp' = None"
  shows "promise (snd (apply_cas s (checkpoint_where a' c' i l fp)
    (\<lambda>r. r\<lparr>k_last_local_id := n, k_regression_generation := k_regression_generation r + 1, k_last_message_fingerprint := fp'\<rparr>) a' c' db))"
proof (rule apply_cas_promise [OF assms(1,2) generation_moves [OF assms(3-7)]])
  fix u r
  assume "promise u" "checkpoint_reload a c u = Some r"
  from promise_row(1) [OF this] show "g \<le> k_regression_generation
        (r\<lparr>k_last_local_id := n, k_regression_generation := k_regression_generation r + 1, k_last_message_fingerprint := fp'\<rparr>)
    \<and> (k_regression_generation (r\<lparr>k_last_local_id := n, k_regression_generation := k_regression_generation r + 1, k_last_message_fingerprint := fp'\<rparr>) = g \<longrightarrow>
        start \<le> k_last_local_id (r\<lparr>k_last_local_id := n, k_regression_generation := k_regression_generation r + 1, k_last_message_fingerprint := fp'\<rparr>)
        \<and> history_handled mv px accepted a c g H (k_last_local_id
            (r\<lparr>k_last_local_id := n, k_regression_generation := k_regression_generation r + 1, k_last_message_fingerprint := fp'\<rparr>)) (cp_rest u))"
    by simp
qed

lemma rewind_promise: "keeps s \<Longrightarrow> promise db \<Longrightarrow> promise (snd (checkpoint_rewind s a' c' l g' fp n db))"
  unfolding checkpoint_rewind_def
  by (intro validated_promise) (auto simp: validated_iffs intro!: generation_promise)

lemma rebase_promise: "keeps s \<Longrightarrow> promise db \<Longrightarrow> promise (snd (rebase_latest_after_regression s a' c' l g' fp n fp' db))"
  unfolding rebase_latest_after_regression_def
  by (intro validated_promise) (auto simp: validated_iffs intro!: generation_promise)

lemma begin_live_promise: "keeps s \<Longrightarrow> promise db \<Longrightarrow> promise (snd (begin_live_suffix_after_empty_window s a' c' l g' fp n fp' db))"
  unfolding begin_live_suffix_after_empty_window_def
  by (intro validated_promise) (auto simp: validated_iffs Let_def intro!: generation_promise)

lemma enroll_promise:
  assumes "keeps s" "promise db"
  shows "promise (snd (enroll_anchor s a' c' l g' fp db))"
proof -
  have "promise (snd (apply_cas s (checkpoint_where a' c' i j None) (\<lambda>r. r\<lparr>k_last_message_fingerprint := Some f\<rparr>) a' c' db))"
    if "i \<noteq> 0" "fingerprint_text f" for i j f
  proof (rule apply_cas_promise [OF assms enroll_moves [OF that]])
    fix u r
    assume "promise u" "checkpoint_reload a c u = Some r"
    from promise_row [OF this] show "g \<le> k_regression_generation (r\<lparr>k_last_message_fingerprint := Some f\<rparr>)
      \<and> (k_regression_generation (r\<lparr>k_last_message_fingerprint := Some f\<rparr>) = g \<longrightarrow> start \<le> k_last_local_id (r\<lparr>k_last_message_fingerprint := Some f\<rparr>)
          \<and> history_handled mv px accepted a c g H (k_last_local_id (r\<lparr>k_last_message_fingerprint := Some f\<rparr>)) (cp_rest u))"
      by simp
  qed
  with assms(2) show ?thesis
    unfolding enroll_anchor_def by (intro validated_promise) (auto simp: validated_iffs)
qed

text \<open>The checkpoint advances past messages that are settled.\<close>

lemma advance_promise:
  assumes s: "keeps s" and db: "promise db"
    and cover: "\<And>l raw. (a', c') = (a, c) \<Longrightarrow> g' = g \<Longrightarrow> start \<le> l0 \<Longrightarrow> (l, raw) \<in> H \<Longrightarrow> l0 < l \<Longrightarrow> l \<le> n \<Longrightarrow> settled raw (cp_rest db)"
  shows "promise (snd (advance_cas s a' c' (PyInt l0) (PyInt g') fp (PyInt n) fp' db))"
proof -
  have cas: "promise (snd (apply_cas s (checkpoint_where a' c' l0 g' fp) (\<lambda>r. r\<lparr>k_last_local_id := n, k_last_message_fingerprint := fp'\<rparr>) a' c' db))"
    if v: "l0 < n" "0 \<le> l0" "n \<le> MAX_CHECKPOINT_LOCAL_ID" "\<forall>s. fp' = Some s \<longrightarrow> fingerprint_text s"
  proof (rule apply_cas_promise [OF s db advance_moves [OF v]])
    fix u r
    assume u: "promise u" and acc: "\<And>n. accepted n (cp_rest db) \<Longrightarrow> accepted n (cp_rest u)"
      and r: "checkpoint_reload a c u = Some r" and p: "checkpoint_where a' c' l0 g' fp r"
    have same: "(a', c') = (a, c)" using reload_row [OF r] sound_values [OF p] by simp
    have vals: "k_last_local_id r = l0" "k_regression_generation r = g'" using sound_values [OF p] by simp_all
    note row = promise_row [OF u r]
    have "history_handled mv px accepted a c g H n (cp_rest u)" if "g' = g"
    proof -
      have "settled raw (cp_rest u)" if "(l, raw) \<in> H" "l \<le> n" for l raw
      proof (cases "l \<le> l0")
        case True
        with row(3) vals \<open>g' = g\<close> \<open>(l, raw) \<in> H\<close> show ?thesis by (auto simp: history_handled_def)
      next
        case False
        with cover [OF same \<open>g' = g\<close> _ that(1)] row(2) vals \<open>g' = g\<close> that(2) have "settled raw (cp_rest db)" by simp
        with acc show ?thesis by (rule raw_settled_mono)
      qed
      then show ?thesis by (auto simp: history_handled_def)
    qed
    with row vals v(1) show "g \<le> k_regression_generation (r\<lparr>k_last_local_id := n, k_last_message_fingerprint := fp'\<rparr>)
        \<and> (k_regression_generation (r\<lparr>k_last_local_id := n, k_last_message_fingerprint := fp'\<rparr>) = g \<longrightarrow>
             start \<le> k_last_local_id (r\<lparr>k_last_local_id := n, k_last_message_fingerprint := fp'\<rparr>)
             \<and> history_handled mv px accepted a c g H (k_last_local_id (r\<lparr>k_last_local_id := n, k_last_message_fingerprint := fp'\<rparr>)) (cp_rest u))"
      by auto
  qed
  show ?thesis unfolding advance_cas_def
    by (intro validated_promise db) (auto simp: validated_iffs cas db keepsD(3) [OF s])
qed

text \<open>A new row for another conversation.\<close>

lemma insert_promise:
  assumes s: "keeps s" and db: "promise db" and v: "0 \<le> l" "l \<le> MAX_CHECKPOINT_LOCAL_ID" "\<forall>s. fp = Some s \<longrightarrow> fingerprint_text s" "l = 0 \<longrightarrow> fp = None"
  shows "promise (snd (insert_checkpoint s a' c' l fp db))"
proof -
  let ?row = "new_checkpoint s (cp_seq db) a' c' l fp"
  let ?v = "db\<lparr>cp_rows := cp_rows db @ [?row], cp_seq := cp_seq db + 1\<rparr>"
  obtain r where r: "checkpoint_reload a c db = Some r" using db by (auto simp: handled_up_to_def)
  have "promise ?v" if t: "checkpoint_table_ok (cp_rows db @ [?row])"
  proof (rule handled_up_toI)
    have "checkpoint_sound ?row" "k_id ?row = cp_seq db" using v by (simp_all add: checkpoint_sound_def new_checkpoint_def MAX_CHECKPOINT_LOCAL_ID_def)
    with t promise_ok(1) [OF db] show "checkpoints_ok ?v" by (auto simp: checkpoints_ok_def less_imp_le)
    show "wf (cp_rest ?v)" using promise_ok(2) [OF db] by simp
    show "checkpoint_reload a c ?v = Some r" using r by (simp add: checkpoint_reload_def lookup_by_def find_append)
  qed (use promise_row [OF db r] in auto)
  with db keepsD(3) [OF s db] show ?thesis
    by (auto simp: insert_checkpoint_def Let_def commit_checkpoints_def split: commit_fate.splits option.splits)
qed

lemma initialize_promise:
  assumes "keeps s" "promise db"
  shows "promise (snd (checkpoint_initialize s a' c' l fp db))"
  unfolding checkpoint_initialize_def
  by (intro validated_promise assms(2))
    (auto simp: validated_iffs checkpoint_get_def assms(2) split: option.splits if_splits
      intro!: insert_promise [OF assms(1) keepsD(2) [OF assms]])

end

section \<open>One chat keeps the promise\<close>

lemma advance_cas_answer:
  assumes "advance_cas s a c (PyInt l) (PyInt g) fp (PyInt n) fp' db = (Inr (q, adv), db')" "l < n" "checkpoint_polite s" "checkpoints_ok db"
  shows "checkpoint_reload a c db' = Some q" "adv \<Longrightarrow> (g, n, fp' \<noteq> None) \<le> checkpoint_rank q"
proof -
  let ?f = "\<lambda>r. r\<lparr>k_last_local_id := n, k_last_message_fingerprint := fp'\<rparr>"
  from assms(1,2) have v: "0 \<le> l" "n \<le> MAX_CHECKPOINT_LOCAL_ID" "\<forall>s. fp' = Some s \<longrightarrow> fingerprint_text s"
    and cas: "apply_cas s (checkpoint_where a c l g fp) ?f a c db = (Inr (q, adv), db')"
    by (auto simp: advance_cas_def validated_Inr validated_iffs)
  show "checkpoint_reload a c db' = Some q"
    using cas by (auto simp: apply_cas_def Let_def required_reload_Inr commit_checkpoints_def split: commit_fate.splits if_splits)
  assume adv
  with cas have won: "apply_cas s (checkpoint_where a c l g fp) ?f a c db = (Inr (q, True), db')" by simp
  obtain r where "checkpoint_where a c l g fp r" "checkpoint_rank (?f r) \<le> checkpoint_rank q"
    by (rule apply_cas_won [OF won assms(3) advance_moves [OF assms(2) v] assms(4)]) (auto dest: sound_values)
  then show "(g, n, fp' \<noteq> None) \<le> checkpoint_rank q" using sound_values by (auto simp: checkpoint_rank_def)
qed

definition chat_row :: "chat_window \<Rightarrow> 's checkpoint_db \<Rightarrow> WechatSyncCheckpoint \<Rightarrow> bool" where
  "chat_row x db k \<longleftrightarrow> (\<exists>r. checkpoint_reload (cx_account x) (cx_conversation x) db = Some r \<and> checkpoint_later k r)"

lemma chat_row_follow: "chat_row x db k \<Longrightarrow> checkpoints_ok db \<Longrightarrow> checkpoints_follow db db' \<Longrightarrow> chat_row x db' k"
  unfolding chat_row_def by (metis checkpoints_follow_reload checkpoint_later_trans)

text \<open>The circumstances of a cycle keep the promise: its sink keeps its contract, its sessions theirs.\<close>

definition cycle_keeps ::
  "('s checkpoint_db \<Rightarrow> bool) \<Rightarrow> (NormalizedWechatMessage \<Rightarrow> 's \<Rightarrow> bool) \<Rightarrow> ('e, 's) message_sink \<Rightarrow> ('e \<Rightarrow> bool)
     \<Rightarrow> model_validator \<Rightarrow> (string \<Rightarrow> xml option) \<Rightarrow> ('e, 's) poll_env \<Rightarrow> bool"
where
  "cycle_keeps promise accepted sink polite mv px env \<longleftrightarrow>
     pe_sink env = sink \<and> pe_model_validate env = mv \<and> pe_parse_xml env = px
     \<and> (\<forall>i j. polite (pe_sink_env env i j)) \<and> (\<forall>i j. session_keeps promise accepted (pe_session env i j))"

text \<open>The place of a delivery loop in the window of the conversation.\<close>

definition delivering_at ::
  "string \<Rightarrow> string \<Rightarrow> int \<Rightarrow> int \<Rightarrow> (int \<times> raw_item) set \<Rightarrow> chat_window \<Rightarrow> WechatSyncCheckpoint \<Rightarrow> (int \<times> raw_item) list
     \<Rightarrow> (int \<times> raw_item) list \<Rightarrow> bool"
where
  "delivering_at a c g start H x k past todo \<longleftrightarrow>
     sorted (map fst (past @ todo))
     \<and> ((cx_account x, cx_conversation x) = (a, c) \<longrightarrow> g \<le> k_regression_generation k \<and> window_shows H start (past @ todo)
          \<and> (k_regression_generation k = g \<longrightarrow> start \<le> k_last_local_id k \<and> (\<forall>e\<in>set past. fst e \<le> k_last_local_id k)))"

context delivery_promise
begin

abbreviation keeps_env where
  "keeps_env \<equiv> cycle_keeps promise accepted sink polite mv px"

abbreviation loop_at where
  "loop_at \<equiv> delivering_at a c g start H"

lemma promise_rest:
  assumes "promise db" "wf s" "\<And>n. accepted n (cp_rest db) \<Longrightarrow> accepted n s"
  shows "promise (db\<lparr>cp_rest := s\<rparr>)"
proof -
  obtain r where r: "checkpoint_reload a c db = Some r" using assms(1) by (auto simp: handled_up_to_def)
  note row = promise_row [OF assms(1) r]
  show ?thesis
  proof (rule handled_up_toI)
    show "checkpoints_ok (db\<lparr>cp_rest := s\<rparr>)" using promise_ok(1) [OF assms(1)] by (simp add: checkpoints_ok_def)
    show "checkpoint_reload a c (db\<lparr>cp_rest := s\<rparr>) = Some r" using r by (simp add: checkpoint_reload_def)
    show "history_handled mv px accepted a c g H (k_last_local_id r) (cp_rest (db\<lparr>cp_rest := s\<rparr>))" if "k_regression_generation r = g"
      using history_handled_mono [OF assms(3) row(3) [OF that]] by simp
  qed (use assms(2) row in auto)
qed

lemma hand_over_promise:
  assumes e: "keeps_env env" and w: "promise (pw_db w)" and h: "hand_over env x i gen raw t w = (res, w1)"
  shows "promise (pw_db w1)" "cp_rows (pw_db w1) = cp_rows (pw_db w)"
    and "(cx_account x, cx_conversation x) = (a, c) \<Longrightarrow> gen = g \<Longrightarrow> res = Inr t1 \<Longrightarrow> settled raw (cp_rest (pw_db w1))"
proof -
  have "promise (pw_db w1) \<and> cp_rows (pw_db w1) = cp_rows (pw_db w)
    \<and> ((cx_account x, cx_conversation x) = (a, c) \<longrightarrow> gen = g \<longrightarrow> res = Inr t1 \<longrightarrow> settled raw (cp_rest (pw_db w1)))"
  proof (cases "is_self_message raw")
    case True
    with h w show ?thesis by (auto simp: hand_over_def raw_settled_def)
  next
    case other: False
    show ?thesis
    proof (cases "normalize_for_chat mv px raw (cx_account x) (cx_conversation x) (cx_name x) gen")
      case (Inl err)
      with other h w e show ?thesis by (auto simp: hand_over_def cycle_keeps_def)
    next
      case (Inr n)
      obtain r s where hd: "handle_with_disposition sink (pe_sink_env env (cx_index x) i) n (cp_rest (pw_db w)) = (r, s)" by fastforce
      have p: "polite (pe_sink_env env (cx_index x) i)" using e by (simp add: cycle_keeps_def)
      note ok = promise_ok(2) [OF w]
      have "promise ((pw_db w)\<lparr>cp_rest := s\<rparr>)"
        by (rule promise_rest [OF w handled_wf [OF p ok hd] accepted_stays [OF p ok hd]])
      moreover have "w1 = w\<lparr>pw_db := (pw_db w)\<lparr>cp_rest := s\<rparr>\<rparr>" "res = Inr t1 \<Longrightarrow> \<exists>d. r = Inr d"
        using h other Inr hd e by (auto simp: hand_over_def cycle_keeps_def split: sum.splits)
      moreover have "settled raw s" if "r = Inr d" "(cx_account x, cx_conversation x) = (a, c)" "gen = g" for d
        using handled_accepted [OF p ok hd [unfolded that(1)]] Inr that(2,3) by (auto simp: raw_settled_def)
      ultimately show ?thesis by auto
    qed
  qed
  then show "promise (pw_db w1)" "cp_rows (pw_db w1) = cp_rows (pw_db w)"
    "(cx_account x, cx_conversation x) = (a, c) \<Longrightarrow> gen = g \<Longrightarrow> res = Inr t1 \<Longrightarrow> settled raw (cp_rest (pw_db w1))" by auto
qed

text \<open>Between the checkpoint and the next message of the window the history has only this message.\<close>

lemma next_covers:
  assumes at: "loop_at x k past ((n, raw) # rest)" and x: "(cx_account x, cx_conversation x) = (a, c)" and k: "k_regression_generation k = g"
    and l: "(l, m) \<in> H" "k_last_local_id k < l" "l \<le> n"
  shows "m = raw"
proof -
  let ?w = "past @ (n, raw) # rest"
  have sorted: "sorted (map fst ?w)" and sh: "window_shows H start ?w" and st: "start \<le> k_last_local_id k"
    and past: "\<forall>e\<in>set past. fst e \<le> k_last_local_id k"
    using at x k by (simp_all add: delivering_at_def)
  have "n \<le> fst (last ?w)" using sorted last_in_set [of rest] by (cases "rest = []") (auto simp: sorted_append)
  then have "l \<le> window_latest ?w" using l(3) by (simp add: window_latest_def)
  with sh l(1,2) st have only: "filter (\<lambda>e. fst e = l) ?w = [(l, m)]" by (auto simp: window_shows_def)
  then have "(l, m) \<in> set ?w" by (metis filter_is_subset list.set_intros(1) subsetD)
  moreover have "(l, m) \<notin> set past" using past l(2) by force
  ultimately have "n \<le> l" using sorted by (auto simp: sorted_append)
  with l(3) have "(n, raw) \<in> set (filter (\<lambda>e. fst e = l) ?w)" by simp
  with only show ?thesis by simp
qed

lemma advance_past_promise:
  assumes e: "keeps_env env" and w: "promise (pw_db w)" and k: "chat_row x (pw_db w) k"
    and at: "loop_at x k past ((n, raw) # rest)" and n: "k_last_local_id k < n"
    and settled: "(cx_account x, cx_conversation x) = (a, c) \<Longrightarrow> k_regression_generation k = g \<Longrightarrow> settled raw (cp_rest (pw_db w))"
    and adv: "advance_past env x i k n raw w = (res, w1)"
  shows "promise (pw_db w1)" "res = Inr q \<Longrightarrow> chat_row x (pw_db w1) q \<and> loop_at x q (past @ [(n, raw)]) rest"
proof -
  let ?s = "pe_session env (cx_index x) (3 + i)"
  have s: "keeps ?s" and pol: "checkpoint_polite ?s" using e keepsD(1) by (auto simp: cycle_keeps_def)
  note ok = promise_ok(1) [OF w]
  have "promise (pw_db w1) \<and> (res = Inr q \<longrightarrow> chat_row x (pw_db w1) q \<and> loop_at x q (past @ [(n, raw)]) rest)"
  proof (cases "build_wechat_checkpoint_fingerprint (pe_model_validate env) raw")
    case (Inl err)
    with adv w show ?thesis by (auto simp: advance_past_def)
  next
    case (Inr fp)
    obtain r db where c: "advance_cas ?s (cx_account x) (cx_conversation x) (PyInt (k_last_local_id k)) (PyInt (k_regression_generation k))
        (k_last_message_fingerprint k) (PyInt n) fp (pw_db w) = (r, db)" by fastforce
    have w1: "pw_db w1 = db" using adv Inr c by (auto simp: advance_past_def split: sum.splits prod.splits if_splits)
    have "promise db"
      using advance_promise [OF s w, of "cx_account x" "cx_conversation x" "k_regression_generation k" "k_last_local_id k" n
          "k_last_message_fingerprint k" fp] next_covers [OF at] settled c by auto
    moreover have "chat_row x db q \<and> loop_at x q (past @ [(n, raw)]) rest" if "res = Inr q"
    proof -
      from adv Inr c that obtain b where r: "r = Inr (q, b)" "b \<or> compatible_concurrent_advance q (k_regression_generation k) n fp"
        by (auto simp: advance_past_def split: sum.splits prod.splits if_splits)
      note ans = advance_cas_answer [OF c [unfolded r(1)] n pol ok]
      have "checkpoints_follow (pw_db w) db" using advance_cas_follows [OF pol, of "pw_db w"] c by (metis snd_conv)
      from chat_row_follow [OF k ok this] ans(1) have later: "checkpoint_later k q" by (simp add: chat_row_def)
      then have mono: "k_regression_generation k \<le> k_regression_generation q"
          "k_regression_generation q = k_regression_generation k \<Longrightarrow> k_last_local_id k \<le> k_last_local_id q"
        by (auto simp: checkpoint_later_def checkpoint_rank_def)
      have reach: "n \<le> k_last_local_id q" if "k_regression_generation q = k_regression_generation k"
        using r(2) ans(2) that by (auto simp: compatible_concurrent_advance_def checkpoint_rank_def)
      have "chat_row x db q" using ans(1) by (auto simp: chat_row_def)
      moreover have "fst z \<le> k_last_local_id q" if "z \<in> set (past @ [(n, raw)])" "(cx_account x, cx_conversation x) = (a, c)"
          "k_regression_generation q = g" for z
        using that mono reach at unfolding delivering_at_def by fastforce
      moreover have "start \<le> k_last_local_id q" if "(cx_account x, cx_conversation x) = (a, c)" "k_regression_generation q = g"
        using that mono at unfolding delivering_at_def by fastforce
      ultimately show ?thesis using at mono(1) unfolding delivering_at_def by auto
    qed
    ultimately show ?thesis using w1 by simp
  qed
  then show "promise (pw_db w1)" "res = Inr q \<Longrightarrow> chat_row x (pw_db w1) q \<and> loop_at x q (past @ [(n, raw)]) rest" by auto
qed

lemma deliver_promise:
  assumes "keeps_env env" "promise (pw_db w)" "chat_row x (pw_db w) k" "loop_at x k past todo"
  shows "promise (pw_db (snd (deliver_messages env x b i k t todo w)))"
  using assms(2-4)
proof (induction todo arbitrary: past i k t w)
  case Nil
  then show ?case by simp
next
  case (Cons m rest)
  obtain n raw where m: "m = (n, raw)" by fastforce
  show ?case
  proof (cases "n \<le> k_last_local_id k")
    case True
    have "loop_at x k (past @ [m]) rest" using Cons.prems(3) True m by (auto simp: delivering_at_def)
    with Cons.IH [OF Cons.prems(1,2)] True m show ?thesis by simp
  next
    case False
    obtain res w1 where h: "hand_over env x i (k_regression_generation k) raw t w = (res, w1)" by fastforce
    note ho = hand_over_promise [OF assms(1) Cons.prems(1) h]
    have row: "chat_row x (pw_db w1) k" using Cons.prems(2) ho(2) by (simp add: chat_row_def checkpoint_reload_def)
    show ?thesis
    proof (cases res)
      case (Inl err)
      with False m h ho(1) show ?thesis by (cases err) simp
    next
      case (Inr t1)
      obtain res2 w2 where ap: "advance_past env x i k n raw w1 = (res2, w2)" by fastforce
      have at: "loop_at x k past ((n, raw) # rest)" using Cons.prems(3) m by simp
      note ad = advance_past_promise [OF assms(1) ho(1) row at _ _ ap]
      have ad1: "promise (pw_db w2)" "\<And>q. res2 = Inr q \<Longrightarrow> chat_row x (pw_db w2) q \<and> loop_at x q (past @ [(n, raw)]) rest"
        using ad ho(3) [OF _ _ Inr] False by auto
      show ?thesis
      proof (cases res2)
        case (Inl err)
        with False m h Inr ap ad1(1) show ?thesis by simp
      next
        case q: (Inr q)
        from Cons.IH [OF ad1(1)] ad1(2) [OF q] have "promise (pw_db (snd (deliver_messages env x b (i + 1) q t' rest w2)))" for t' by blast
        with False m h Inr ap q show ?thesis by simp
      qed
    qed
  qed
qed

end

lemma apply_cas_row: "apply_cas s p f a c db = (Inr (q, b), db') \<Longrightarrow> checkpoint_reload a c db' = Some q"
  by (auto simp: apply_cas_def Let_def required_reload_Inr commit_checkpoints_def split: commit_fate.splits if_splits)

lemma transition_rows:
  "checkpoint_rewind s a c l g fp n db = (Inr (q, b), db') \<Longrightarrow> checkpoint_reload a c db' = Some q"
  "begin_live_suffix_after_empty_window s a c l g fp n fp' db = (Inr (q, b), db') \<Longrightarrow> checkpoint_reload a c db' = Some q"
  by (auto simp: checkpoint_rewind_def begin_live_suffix_after_empty_window_def validated_Inr Let_def split: if_splits dest: apply_cas_row)

lemma initialize_row:
  assumes "checkpoint_initialize s a c l fp db = (Inr (q, b), db')"
  shows "checkpoint_reload a c db' = Some q"
proof -
  have ins: "checkpoint_reload a c v = Some r" if "insert_checkpoint s a c n f u = (Inr (r, b), v)" for n f u v r
  proof -
    let ?row = "new_checkpoint s (cp_seq u) a c n f"
    have key: "checkpoint_key ?row = (a, c)" by (simp add: checkpoint_key_def new_checkpoint_def)
    have "checkpoint_reload a c (u\<lparr>cp_rows := cp_rows u @ [?row], cp_seq := cp_seq u + 1\<rparr>) = Some ?row"
      if t: "checkpoint_table_ok (cp_rows u @ [?row])"
    proof -
      from t have d: "distinct (map checkpoint_key (cp_rows u @ [?row]))" by (simp add: checkpoint_table_ok_def)
      from lookup_by_distinct [OF d, of ?row] key show ?thesis by (simp add: checkpoint_reload_def)
    qed
    with that show ?thesis
      by (auto simp: insert_checkpoint_def Let_def commit_checkpoints_def split: if_splits option.splits commit_fate.splits)
  qed
  from assms show ?thesis
    by (auto simp: checkpoint_initialize_def validated_Inr checkpoint_get_def split: if_splits option.splits dest: ins)
qed

text \<open>What the client shows of the conversation, in every listing of the cycle.\<close>

definition listings_show :: "string \<Rightarrow> (int \<times> raw_item) set \<Rightarrow> int \<Rightarrow> ('e, 's) poll_env \<Rightarrow> bool" where
  "listings_show c H start env \<longleftrightarrow>
     (\<forall>i raw ordered. pe_list_messages env i c = Inr raw \<longrightarrow> validated_ordered_messages c raw = Inr ordered \<longrightarrow> window_shows H start ordered)"

context delivery_promise
begin

abbreviation shown where
  "shown x ordered \<equiv> sorted (map fst ordered) \<and> ((cx_account x, cx_conversation x) = (a, c) \<longrightarrow> window_shows H start ordered)"

lemma deliver_row:
  assumes "keeps_env env" "promise (pw_db w)" "checkpoint_reload (cx_account x) (cx_conversation x) (pw_db w) = Some k" "shown x ordered"
  shows "promise (pw_db (snd (deliver_messages env x b i k t ordered w)))"
proof (rule deliver_promise [OF assms(1,2), of x k "[]"])
  show "chat_row x (pw_db w) k" using assms(3) by (auto simp: chat_row_def)
  show "loop_at x k [] ordered" using assms(3,4) promise_row [OF assms(2), of k] by (auto simp: delivering_at_def)
qed

lemma continuity_db [simp]: "pw_db (snd (continuity_failure_result x n b l j fp f e act w)) = pw_db w"
  by (simp add: continuity_failure_result_def split: prod.splits)

lemma keeps_session: "keeps_env env \<Longrightarrow> keeps (pe_session env i j)"
  by (simp add: cycle_keeps_def)

lemma begin_live_suffix_promise:
  assumes e: "keeps_env env" and w: "promise (pw_db w)" and o: "shown x ordered"
  shows "promise (pw_db (snd (begin_live_suffix env x ordered st k b w)))"
proof -
  define fpr where "fpr = (if st > 0 then build_wechat_checkpoint_fingerprint (pe_model_validate env) (snd (ordered ! (st - 1))) else Inr None)"
  show ?thesis
  proof (cases fpr)
    case (Inl err)
    with w show ?thesis unfolding begin_live_suffix_def fpr_def [symmetric] by simp
  next
    case (Inr fp)
    obtain r db where c: "begin_live_suffix_after_empty_window (pe_session env (cx_index x) 2) (cx_account x) (cx_conversation x)
        (PyInt (k_last_local_id k)) (PyInt (k_regression_generation k)) (k_last_message_fingerprint k) (PyInt (fst (ordered ! st))) fp (pw_db w) = (r, db)"
      by fastforce
    have db: "promise db" using begin_live_promise [OF keeps_session [OF e] w] c by (metis snd_conv)
    have "promise (pw_db (snd (deliver_messages env x True 0 q no_messages ordered (w\<lparr>pw_db := db\<rparr>))))" if "r = Inr (q, s)" for q s
      using deliver_row [OF e, of "w\<lparr>pw_db := db\<rparr>" x q ordered True 0 no_messages] db transition_rows(2) [OF c [unfolded that]] o by simp
    with c db w Inr show ?thesis
      unfolding begin_live_suffix_def fpr_def [symmetric] by (auto split: sum.splits)
  qed
qed

lemma rebase_latest_promise:
  assumes e: "keeps_env env" and w: "promise (pw_db w)"
  shows "promise (pw_db (snd (rebase_latest env x ordered k b w)))"
proof -
  have "promise (snd (rebase_latest_after_regression (pe_session env (cx_index x) 2) (cx_account x) (cx_conversation x) l j fp n f (pw_db w)))" for l j fp n f
    by (rule rebase_promise [OF keeps_session [OF e] w])
  with w show ?thesis
    by (auto simp: rebase_latest_def split: sum.splits option.splits prod.splits) (metis snd_conv)+
qed

lemma rewind_window_promise:
  assumes e: "keeps_env env" and w: "promise (pw_db w)" and o: "shown x ordered"
  shows "promise (pw_db (snd (rewind_window env x ordered k b w)))"
proof -
  obtain r db where c: "checkpoint_rewind (pe_session env (cx_index x) 2) (cx_account x) (cx_conversation x)
      (PyInt (k_last_local_id k)) (PyInt (k_regression_generation k)) (k_last_message_fingerprint k) (PyInt (window_first ordered - 1)) (pw_db w) = (r, db)"
    by fastforce
  have db: "promise db" using rewind_promise [OF keeps_session [OF e] w] c by (metis snd_conv)
  have "promise (pw_db (snd (deliver_messages env x b 0 q no_messages ordered (w\<lparr>pw_db := db\<rparr>))))" if "r = Inr (q, s)" for q s
    using deliver_row [OF e, of "w\<lparr>pw_db := db\<rparr>" x q ordered b 0 no_messages] db transition_rows(1) [OF c [unfolded that]] o by simp
  with c db show ?thesis unfolding rewind_window_def by (auto split: sum.splits)
qed

lemma recover_promise:
  assumes "keeps_env env" "promise (pw_db w)" "shown x ordered"
  shows "promise (pw_db (snd (recover_regression env x ordered m k b w)))"
  using rewind_window_promise [OF assms] rebase_latest_promise [OF assms(1,2)] begin_live_suffix_promise [OF assms] assms(2)
  by (simp add: recover_regression_def split: BootstrapMode.splits option.splits)

lemma enroll_window_promise:
  assumes "keeps_env env" "promise (pw_db w)"
  shows "promise (pw_db (snd (enroll_window_anchor env x n k b f w)))"
  using enroll_promise [OF keeps_session [OF assms(1), of "cx_index x" 2] assms(2), of "cx_account x" "cx_conversation x"
      "PyInt (k_last_local_id k)" "PyInt (k_regression_generation k)" "Some f"]
  by (auto simp: enroll_window_anchor_def split: prod.splits sum.splits)

lemma check_anchor_promise:
  assumes "keeps_env env" "promise (pw_db w)" "checkpoint_reload (cx_account x) (cx_conversation x) (pw_db w) = Some k" "shown x ordered"
  shows "promise (pw_db (snd (check_anchor env x ordered m k b w)))"
  unfolding check_anchor_def Let_def
  using deliver_row [OF assms] recover_promise [OF assms(1,2,4)] enroll_window_promise [OF assms(1,2)] assms(2)
  by (auto split: list.splits prod.splits sum.splits option.splits)

lemma continuity_promise:
  assumes "keeps_env env" "promise (pw_db w)" "checkpoint_reload (cx_account x) (cx_conversation x) (pw_db w) = Some k" "shown x ordered"
  shows "promise (pw_db (snd (poll_continuity env x ordered m k b w)))"
  unfolding poll_continuity_def
  using deliver_row [OF assms] recover_promise [OF assms(1,2,4)] check_anchor_promise [OF assms] by simp

lemma poll_checkpoint_promise:
  assumes e: "keeps_env env" and w: "promise (pw_db w)" and o: "shown x ordered"
    and k: "\<And>r. k = Some r \<Longrightarrow> checkpoint_reload (cx_account x) (cx_conversation x) (pw_db w) = Some r"
  shows "promise (pw_db (snd (poll_checkpoint env x ordered m k w)))"
proof (cases k)
  case (Some r)
  then show ?thesis using continuity_promise [OF e w k o] by (simp add: poll_checkpoint_def)
next
  case None
  obtain res w1 where b: "bootstrap_checkpoint env x ordered w = (res, w1)" by fastforce
  define fpr where "fpr = (let n = (if pe_bootstrap_mode env = LATEST then window_latest ordered else 0) in
    if n > 0 then build_wechat_checkpoint_fingerprint (pe_model_validate env) (snd (last ordered)) else Inr None)"
  have w1: "promise (pw_db w1) \<and> (\<forall>r s. res = Inr (r, s) \<longrightarrow> checkpoint_reload (cx_account x) (cx_conversation x) (pw_db w1) = Some r)"
  proof (cases fpr)
    case (Inl err)
    with b w show ?thesis by (auto simp: bootstrap_checkpoint_def fpr_def Let_def)
  next
    case (Inr fp)
    obtain q db where i: "checkpoint_initialize (pe_session env (cx_index x) 1) (cx_account x) (cx_conversation x)
        (PyInt (if pe_bootstrap_mode env = LATEST then window_latest ordered else 0)) fp (pw_db w) = (q, db)" by fastforce
    have "promise db" using initialize_promise [OF keeps_session [OF e] w] i by (metis snd_conv)
    moreover have "res = q" "w1 = w\<lparr>pw_db := db\<rparr>" using b Inr i by (auto simp: bootstrap_checkpoint_def fpr_def Let_def)
    ultimately show ?thesis using initialize_row i by auto
  qed
  with b None show ?thesis
    using continuity_promise [OF e _ _ o, of w1] by (auto simp: poll_checkpoint_def split: sum.splits)
qed

lemma poll_window_promise:
  assumes e: "keeps_env env" and w: "promise (pw_db w)" and o: "shown x ordered"
    and k: "\<And>r. k = Some r \<Longrightarrow> checkpoint_reload (cx_account x) (cx_conversation x) (pw_db w) = Some r"
  shows "promise (pw_db (snd (poll_window env x ordered k w)))"
proof -
  have "promise (pw_db (snd (poll_checkpoint env x ordered m k (w\<lparr>pw_life := life\<rparr>))))" for m life
    by (rule poll_checkpoint_promise [OF e _ o]) (use w k in auto)
  with w show ?thesis by (auto simp: poll_window_def Let_def split: option.splits prod.splits)
qed

lemma poll_chat_promise:
  assumes e: "keeps_env env" and w: "promise (pw_db w)" and l: "listings_show c H start env"
  shows "promise (pw_db (snd (poll_chat env i acc chat failed w)))"
proof -
  have listed: "promise (pw_db (snd (poll_listed env i acc cv name raw w)))" if raw: "pe_list_messages env i cv = Inr raw" for cv name raw
  proof (cases "validated_ordered_messages cv raw")
    case (Inl err)
    with w show ?thesis by (simp add: poll_listed_def Let_def)
  next
    case (Inr ordered)
    define x where "x = (listed_window i acc cv name raw)\<lparr>cx_without_server_id := length (filter (\<lambda>(_, m). \<not> message_has_usable_server_id m) ordered)\<rparr>"
    have ids: "cx_account x = acc" "cx_conversation x = cv" by (simp_all add: x_def listed_window_def)
    have o: "shown x ordered" using Inr l raw ids
      by (auto simp: listings_show_def validated_ordered_messages_def map_sum_def split: sum.splits)
    have "promise (pw_db (snd (poll_window env x ordered (checkpoint_reload acc cv (pw_db w)) (w\<lparr>pw_life := life, pw_db := pw_db w\<rparr>))))" for life
      by (rule poll_window_promise [OF e _ o]) (use w ids in auto)
    with w Inr show ?thesis by (simp add: poll_listed_def Let_def checkpoint_get_def x_def)
  qed
  show ?thesis using w listed by (auto simp: poll_chat_def split: sum.splits)
qed

lemma poll_chats_promise:
  assumes e: "keeps_env env" and l: "listings_show c H start env" and w: "promise (pw_db w)"
  shows "promise (pw_db (snd (poll_chats env acc i failed chats w)))"
  using w
proof (induction chats arbitrary: i failed w)
  case Nil
  then show ?case by simp
next
  case (Cons chat chats)
  obtain r w1 where r: "poll_chat env i acc chat failed w = (r, w1)" by fastforce
  have "promise (pw_db w1)" using poll_chat_promise [OF e Cons.prems l] r by (metis snd_conv)
  with Cons.IH r show ?case by (auto simp: Let_def split: sum.splits prod.splits) (metis (no_types, lifting) poll_world.select_convs(1) poll_world.surjective poll_world.update_convs(2) snd_conv)
qed

lemma poll_once_promise:
  assumes "keeps_env env" "listings_show c H start env" "promise (pw_db w)"
  shows "promise (pw_db (snd (poll_once env w)))"
proof -
  have "promise (pw_db w2)" if "poll_chats env acc 0 [] chats (w\<lparr>pw_life := life\<rparr>) = (r, w2)" for acc chats life r w2
    using poll_chats_promise [OF assms(1,2), of "w\<lparr>pw_life := life\<rparr>" acc 0 "[]" chats] assms(3) that by simp
  with assms(3) show ?thesis
    by (auto simp: poll_once_def Let_def split: sum.splits option.splits prod.splits)
qed

end

end
