(* ===== verification/Wechat_Cycles.thy ===== *)
theory Wechat_Cycles
  imports Wechat_Delivery
begin

text \<open>
  What every polling cycle keeps besides the promise of delivery: the memory of the poller stays
  bounded, the counts of its results agree, and with messages that the client validated no
  exception leaves the cycle. A run of the poller is a list of cycles.
\<close>

section \<open>Memory\<close>

lemma deliver_life: "pw_life (snd (deliver_messages env x b i k t ordered w)) = pw_life w"
proof (induction ordered arbitrary: i k t w)
  case Nil
  show ?case by simp
next
  case (Cons m rest)
  obtain n raw where m: "m = (n, raw)" by fastforce
  obtain res w1 where h: "hand_over env x i (k_regression_generation k) raw t w = (res, w1)" by fastforce
  obtain res2 w2 where a: "advance_past env x i k n raw w1 = (res2, w2)" by fastforce
  have "pw_life w1 = pw_life w" using h by (auto simp: hand_over_def split: if_splits sum.splits prod.splits)
  moreover have "pw_life w2 = pw_life w1" using a by (auto simp: advance_past_def split: sum.splits prod.splits)
  ultimately show ?case using Cons.IH by (auto simp: m h a split: sum.splits)
qed

lemma continuity_failure_life:
  "lifecycle_ok (pw_life w) \<Longrightarrow> lifecycle_ok (pw_life (snd (continuity_failure_result x n b l j fp f e act w)))"
  using observe_continuity_failure_ok [of "pw_life w" "cx_account x" "cx_conversation x"]
  by (auto simp: continuity_failure_result_def split: prod.splits) (metis snd_conv)

lemma recover_life:
  assumes "lifecycle_ok (pw_life w)"
  shows "lifecycle_ok (pw_life (snd (recover_regression env x ordered m k b w)))"
proof -
  have "lifecycle_ok (pw_life (snd (rewind_window env x ordered k b w)))"
    using assms by (auto simp: rewind_window_def deliver_life split: prod.splits sum.splits)
  moreover have "lifecycle_ok (pw_life (snd (rebase_latest env x ordered k b w)))"
    using assms by (auto simp: rebase_latest_def split: prod.splits sum.splits option.splits)
  moreover have "lifecycle_ok (pw_life (snd (begin_live_suffix env x ordered s k b w)))" for s
    using assms continuity_failure_life [OF assms]
    by (auto simp: begin_live_suffix_def deliver_life split: prod.splits sum.splits)
  ultimately show ?thesis using continuity_failure_life [OF assms]
    by (simp add: recover_regression_def split: BootstrapMode.splits option.splits)
qed

lemma poll_continuity_life:
  assumes "lifecycle_ok (pw_life w)"
  shows "lifecycle_ok (pw_life (snd (poll_continuity env x ordered m k b w)))"
proof -
  have "lifecycle_ok (pw_life (snd (enroll_window_anchor env x n k b f w)))" for n f
    using assms by (auto simp: enroll_window_anchor_def split: prod.splits sum.splits)
  then have "lifecycle_ok (pw_life (snd (check_anchor env x ordered m k b w)))"
    using assms continuity_failure_life [OF assms] recover_life [OF assms, of env x ordered m k b]
    by (auto simp: check_anchor_def Let_def deliver_life split: list.splits prod.splits sum.splits option.splits)
  with assms recover_life [OF assms, of env x ordered m k b] show ?thesis by (simp add: poll_continuity_def deliver_life)
qed

lemma poll_checkpoint_life:
  assumes "lifecycle_ok (pw_life w)"
  shows "lifecycle_ok (pw_life (snd (poll_checkpoint env x ordered m k w)))"
proof -
  have "lifecycle_ok (pw_life w1)" if "bootstrap_checkpoint env x ordered w = (r, w1)" for r w1
    using that assms by (auto simp: bootstrap_checkpoint_def Let_def split: sum.splits prod.splits if_splits)
  with assms poll_continuity_life show ?thesis
    by (auto simp: poll_checkpoint_def split: option.splits prod.splits sum.splits)
qed

lemma poll_window_life:
  assumes "lifecycle_ok (pw_life w)"
  shows "lifecycle_ok (pw_life (snd (poll_window env x ordered k w)))"
proof -
  have t: "lifecycle_ok (snd (take_empty_window (cx_account x) (cx_conversation x) (pw_life w)))" by (rule take_empty_window_ok [OF assms])
  have r: "lifecycle_ok (snd (record_empty_window (pe_clock env (cx_index x)) (cx_account x) (cx_conversation x) y (pw_life w)))" for y
    by (rule record_empty_window_ok [OF assms])
  have "lifecycle_ok (pw_life (snd (poll_checkpoint env x ordered m k (w\<lparr>pw_life := life\<rparr>))))" if "lifecycle_ok life" for m life
    using poll_checkpoint_life [of "w\<lparr>pw_life := life\<rparr>"] that by simp
  moreover have "lifecycle_ok (pw_life (snd (continuity_failure_result x n b l j fp f e act (w\<lparr>pw_life := life\<rparr>))))" if "lifecycle_ok life"
    for n b l j fp f e act life
    using continuity_failure_life [of "w\<lparr>pw_life := life\<rparr>"] that by simp
  ultimately show ?thesis using t r
    by (auto simp: poll_window_def Let_def split: option.splits prod.splits) (metis snd_conv)+
qed

lemma poll_chat_life:
  assumes "lifecycle_ok (pw_life w)"
  shows "lifecycle_ok (pw_life (snd (poll_chat env i acc chat failed w)))"
proof -
  have "lifecycle_ok (pw_life (snd (poll_listed env i acc cv name raw w)))" for cv name raw
    using assms by (auto simp: poll_listed_def Let_def intro!: poll_window_life lifecycle_ok_rules split: sum.splits prod.splits)
  with assms show ?thesis by (auto simp: poll_chat_def intro!: lifecycle_ok_rules split: sum.splits)
qed

lemma poll_chats_life:
  "lifecycle_ok (pw_life w) \<Longrightarrow> lifecycle_ok (pw_life (snd (poll_chats env acc i failed chats w)))"
proof (induction chats arbitrary: i failed w)
  case Nil
  then show ?case by simp
next
  case (Cons chat chats)
  obtain r w1 where r: "poll_chat env i acc chat failed w = (r, w1)" by fastforce
  have w1: "lifecycle_ok (pw_life w1)" using poll_chat_life [OF Cons.prems] r by (metis snd_conv)
  show ?case
  proof (cases r)
    case (Inl e)
    with r w1 show ?thesis by simp
  next
    case (Inr res)
    let ?w2 = "w1\<lparr>pw_life := snd (chat_result_log_level acc res (pw_life w1))\<rparr>"
    have "lifecycle_ok (pw_life ?w2)" using chat_result_log_level_ok [OF w1] by simp
    from Cons.IH [OF this] have "lifecycle_ok (pw_life (snd (poll_chats env acc (i + 1) f chats ?w2)))" for f .
    with r Inr show ?thesis by (simp add: Let_def split: prod.splits) (metis snd_conv)
  qed
qed

lemma poll_once_life:
  assumes "lifecycle_ok (pw_life w)"
  shows "lifecycle_ok (pw_life (snd (poll_once env w)))"
proof -
  have "lifecycle_ok (pw_life w2)" if "poll_chats env acc 0 [] chats (w\<lparr>pw_life := observe_account acc (pw_life w)\<rparr>) = (r, w2)" for acc chats r w2
    using poll_chats_life [of "w\<lparr>pw_life := observe_account acc (pw_life w)\<rparr>" env acc 0 "[]" chats] observe_account_ok [OF assms] that by simp
  then show ?thesis
    by (auto simp: poll_once_def Let_def intro!: lifecycle_ok_rules split: sum.splits option.splits prod.splits)
qed

text \<open>The cycles of a poller, one after the other.\<close>

fun poll_cycles :: "('e, 's) poll_env list \<Rightarrow> 's poll_world \<Rightarrow> 's poll_world" where
  "poll_cycles [] w = w"
| "poll_cycles (env # envs) w = poll_cycles envs (snd (poll_once env w))"

lemma poll_cycles_life: "lifecycle_ok (pw_life w) \<Longrightarrow> lifecycle_ok (pw_life (poll_cycles envs w))"
  by (induction envs arbitrary: w) (simp_all add: poll_once_life)

context delivery_promise
begin

lemma poll_cycles_promise:
  "(\<And>env. env \<in> set envs \<Longrightarrow> keeps_env env \<and> listings_show c H start env) \<Longrightarrow> promise (pw_db w)
    \<Longrightarrow> promise (pw_db (poll_cycles envs w))"
  by (induction envs arbitrary: w) (simp_all add: poll_once_promise)

end

interpretation gateway_delivery: delivery_promise session_factory_sink sink_polite message_stored messages_ok mv px a c g start H
  for mv px a c g start H
  by unfold_locales

section \<open>Results\<close>

text \<open>
  A chat that succeeded accounts for every message of its window; a chat that failed reports one
  failure, and at most one message was accepted without being counted as processed.
\<close>

definition accounted :: "ChatPollResult \<Rightarrow> bool" where
  "accounted r \<longleftrightarrow>
     (if cr_succeeded r
      then cr_failures r = [] \<and> cr_messages_failed r = 0 \<and> cr_messages_new r + cr_messages_duplicate r = cr_messages_processed r
        \<and> cr_messages_seen r = cr_messages_processed r + cr_messages_skipped_by_checkpoint r + cr_messages_skipped_as_self r
      else length (cr_failures r) = 1 \<and> cr_messages_failed r \<le> 1
        \<and> cr_messages_processed r \<le> cr_messages_new r + cr_messages_duplicate r
        \<and> cr_messages_new r + cr_messages_duplicate r \<le> cr_messages_processed r + cr_messages_failed r)"

definition reports :: "(poll_error + ChatPollResult) \<Rightarrow> bool" where
  "reports r \<longleftrightarrow> (case r of Inl _ \<Rightarrow> False | Inr res \<Rightarrow> accounted res)"

lemma reports_Inr [simp]: "reports (Inr res) = accounted res" "\<not> reports (Inl e)"
  by (simp_all add: reports_def)

lemmas result_defs = window_result_def chat_result_def tally_result_def message_failure_def checkpoint_failure_def continuity_failure_def
  accounted_def

lemma checkpoint_failure_accounted [simp]: "accounted (checkpoint_failure x n b e)"
  by (simp add: result_defs)

lemma continuity_failure_accounted [simp]: "accounted (continuity_failure x n b ref ch)"
  by (simp add: result_defs)

lemma continuity_result_reports [simp]: "reports (fst (continuity_failure_result x n b l j fp f e act w))"
  by (simp add: continuity_failure_result_def split: prod.splits)

lemma skipped_window_accounted [simp]:
  "accounted ((window_result x True)\<lparr>cr_messages_skipped_by_checkpoint := cx_seen x, cr_bootstrapped := b\<rparr>)"
  by (simp add: result_defs)

lemma deliver_reports:
  assumes "ty_processed t + ty_skipped t + ty_skipped_as_self t + length ordered = cx_seen x" "ty_new t + ty_duplicate t = ty_processed t"
  shows "reports (fst (deliver_messages env x b i k t ordered w))"
  using assms
proof (induction ordered arbitrary: i k t w)
  case Nil
  then show ?case by (simp add: result_defs)
next
  case (Cons m rest)
  obtain n raw where m: "m = (n, raw)" by fastforce
  show ?case
  proof (cases "n \<le> k_last_local_id k")
    case True
    with Cons m show ?thesis by simp
  next
    case False
    obtain res w1 where h: "hand_over env x i (k_regression_generation k) raw t w = (res, w1)" by fastforce
    obtain res2 w2 where a: "advance_past env x i k n raw w1 = (res2, w2)" by fastforce
    have failed: "accounted (message_failure x b t st e n)" for st e using Cons.prems(2) by (simp add: result_defs)
    show ?thesis
    proof (cases res)
      case (Inl e)
      with False m h failed show ?thesis by (cases e) simp
    next
      case (Inr t1)
      have t1: "ty_processed t1 = ty_processed t" "ty_skipped t1 = ty_skipped t"
          "(is_self_message raw \<and> ty_skipped_as_self t1 = ty_skipped_as_self t + 1 \<and> ty_new t1 = ty_new t \<and> ty_duplicate t1 = ty_duplicate t)
         \<or> (\<not> is_self_message raw \<and> ty_skipped_as_self t1 = ty_skipped_as_self t \<and> ty_new t1 + ty_duplicate t1 = ty_new t + ty_duplicate t + 1)"
        using h Inr by (auto simp: hand_over_def split: if_splits sum.splits prod.splits MessageSinkDisposition.splits)
      show ?thesis
      proof (cases res2)
        case (Inl e)
        have "accounted (message_failure x b t1 STAGE_CHECKPOINT e n)" using Cons.prems(2) t1 by (auto simp: result_defs)
        with Inl False m h Inr a show ?thesis by simp
      next
        case q: (Inr q)
        have "reports (fst (deliver_messages env x b (i + 1) q (if is_self_message raw then t1 else t1\<lparr>ty_processed := ty_processed t1 + 1\<rparr>) rest w2))"
          by (rule Cons.IH) (use Cons.prems t1 in auto)
        with q False m h Inr a show ?thesis by simp
      qed
    qed
  qed
qed

text \<open>Windows of validated messages.\<close>

definition validated_models :: "(int \<times> raw_item) list \<Rightarrow> bool" where
  "validated_models ordered \<longleftrightarrow> (\<forall>(_, raw)\<in>set ordered. \<exists>m. raw = RawModel m)"

lemma fingerprint_of_model:
  "validated_models ordered \<Longrightarrow> e \<in> set ordered \<Longrightarrow> \<exists>fp. build_wechat_checkpoint_fingerprint mv (snd e) = Inr fp"
  by (fastforce simp: validated_models_def build_wechat_checkpoint_fingerprint_def raw_message_def split: option.splits)

lemma live_scan_index:
  "live_suffix_scan mv since pl pt index st ordered = Some (Some s) \<Longrightarrow> st = None \<or> (\<exists>q. st = Some q \<and> q < index) \<Longrightarrow> s < index + length ordered"
proof (induction ordered arbitrary: pl pt index st)
  case Nil
  then show ?case by auto
next
  case (Cons m rest)
  obtain n raw where "m = (n, raw)" by fastforce
  with Cons.prems(1) obtain ts where
    "live_suffix_scan mv since n (Some ts) (index + 1) (if st = None \<and> ts > since then Some index else st) rest = Some (Some s)"
    by (cases "message_timestamp mv raw") (simp_all split: if_splits)
  from Cons.IH [OF this] Cons.prems(2) show ?case by (auto split: if_splits)
qed

lemma live_start_index: "live_suffix_start_index mv k ordered = Some (Some s) \<Longrightarrow> s < length ordered"
  using live_scan_index [of mv "em_empty_since k" 0 None 0 None ordered s]
  by (auto simp: live_suffix_start_index_def Let_def split: option.splits if_splits)


lemma recover_reports:
  assumes models: "validated_models ordered" and counted: "cx_seen x = length ordered" and ne: "ordered \<noteq> []"
  shows "reports (fst (recover_regression env x ordered m k b w))"
proof -
  have d: "reports (fst (deliver_messages env x b' 0 q no_messages ordered w'))" for b' q w'
    by (rule deliver_reports) (simp_all add: no_messages_def counted)
  have rw: "reports (fst (rewind_window env x ordered k b w))"
    using d by (auto simp: rewind_window_def split: prod.splits sum.splits)
  have rb: "reports (fst (rebase_latest env x ordered k b w))"
    using fingerprint_of_model [OF models last_in_set [OF ne], of "pe_model_validate env"]
    by (auto simp: rebase_latest_def split: prod.splits sum.splits option.splits)
  have bl: "reports (fst (begin_live_suffix env x ordered s k b w))" if "s < length ordered" for s
  proof -
    obtain fp where "(if s > 0 then build_wechat_checkpoint_fingerprint (pe_model_validate env) (snd (ordered ! (s - 1))) else Inr None) = Inr fp"
    proof (cases "s > 0")
      case True
      then have "s - 1 < length ordered" using \<open>s < length ordered\<close> by simp
      with fingerprint_of_model [OF models nth_mem [of "s - 1"], of "pe_model_validate env"] True that show ?thesis by auto
    qed (use that in simp)
    with d show ?thesis unfolding begin_live_suffix_def by (auto split: prod.splits sum.splits)
  qed
  show ?thesis using rw rb bl live_start_index
    by (auto simp: recover_regression_def split: BootstrapMode.splits option.splits)
qed

lemma poll_continuity_reports:
  assumes models: "validated_models ordered" and counted: "cx_seen x = length ordered"
  shows "reports (fst (poll_continuity env x ordered m k b w))"
proof -
  have d: "reports (fst (deliver_messages env x b' 0 q no_messages ordered w'))" for b' q w'
    by (rule deliver_reports) (simp_all add: no_messages_def counted)
  have en: "reports (fst (enroll_window_anchor env x n k b f w))" for n f
    by (auto simp: enroll_window_anchor_def split: prod.splits sum.splits)
  have "reports (fst (check_anchor env x ordered m k b w))" if ne: "ordered \<noteq> []"
  proof (cases "filter (\<lambda>(l, _). l = k_last_local_id k) ordered")
    case (Cons e rest)
    then have "e \<in> set ordered" by (metis filter_is_subset list.set_intros(1) subsetD)
    with fingerprint_of_model [OF models, of e "pe_model_validate env"] obtain fp where
      "build_wechat_checkpoint_fingerprint (pe_model_validate env) (snd e) = Inr fp" by blast
    with Cons recover_reports [OF models counted ne, of env m k b w] d en show ?thesis
      by (auto simp: check_anchor_def Let_def split: list.splits prod.splits option.splits)
  qed (simp add: check_anchor_def Let_def)
  with recover_reports [OF models counted, of env m k b w] d show ?thesis by (simp add: poll_continuity_def)
qed

lemma poll_window_reports:
  assumes "validated_models ordered" "cx_seen x = length ordered"
  shows "reports (fst (poll_window env x ordered k w))"
proof -
  have "reports (fst (poll_checkpoint env x ordered m k w'))" for m w'
    using poll_continuity_reports [OF assms, of env]
    by (auto simp: poll_checkpoint_def split: option.splits prod.splits sum.splits)
  then show ?thesis by (auto simp: poll_window_def Let_def split: option.splits prod.splits)
qed

lemma collect_messages_items: "collect_messages c raw = Inr ms \<Longrightarrow> map snd ms = raw"
proof (induction raw arbitrary: ms)
  case (Cons r raw)
  then show ?case by (cases "collect_messages c raw") (auto split: if_splits sum.splits)
qed simp

lemma poll_chat_reports:
  assumes "\<And>cv raw. pe_list_messages env i cv = Inr raw \<Longrightarrow> \<forall>item\<in>set raw. \<exists>m. item = RawModel m"
  shows "reports (fst (poll_chat env i acc chat failed w))"
proof -
  have "reports (fst (poll_listed env i acc cv name raw w))" if raw: "pe_list_messages env i cv = Inr raw" for cv name raw
  proof (cases "collect_messages cv raw")
    case (Inl e)
    then show ?thesis by (simp add: poll_listed_def validated_ordered_messages_def Let_def result_defs)
  next
    case (Inr ms)
    note items = collect_messages_items [OF Inr]
    have "validated_models (sort_key fst ms)"
      unfolding validated_models_def
    proof (clarsimp)
      fix l item
      assume "(l, item) \<in> set ms"
      then have "item \<in> set (map snd ms)" by force
      with assms [OF raw] items show "\<exists>m. item = RawModel m" by simp
    qed
    moreover have "length raw = length ms" using arg_cong [OF items, of length] by simp
    ultimately show ?thesis using Inr
      by (auto simp: poll_listed_def validated_ordered_messages_def Let_def listed_window_def intro!: poll_window_reports split: prod.splits sum.splits)
  qed
  then show ?thesis by (auto simp: poll_chat_def result_defs split: sum.splits)
qed

lemma poll_chats_report:
  assumes "\<And>i cv raw. pe_list_messages env i cv = Inr raw \<Longrightarrow> \<forall>item\<in>set raw. \<exists>m. item = RawModel m"
  shows "\<exists>rs w'. poll_chats env acc i failed chats w = (Inr rs, w') \<and> length rs = length chats \<and> (\<forall>r\<in>set rs. accounted r)"
proof (induction chats arbitrary: i failed w)
  case Nil
  then show ?case by simp
next
  case (Cons chat chats)
  obtain r w1 where r: "poll_chat env i acc chat failed w = (r, w1)" by fastforce
  with poll_chat_reports [of env i acc chat failed w] assms obtain res where res: "r = Inr res" "accounted res"
    by (cases r) auto
  define w2 where "w2 = w1\<lparr>pw_life := snd (chat_result_log_level acc res (pw_life w1))\<rparr>"
  define failed' where "failed' = (case cr_conversation_id res of Some c \<Rightarrow> if \<not> cr_succeeded res then c # failed else failed | None \<Rightarrow> failed)"
  obtain rs w' where "poll_chats env acc (i + 1) failed' chats w2 = (Inr rs, w')" "length rs = length chats" "\<forall>r\<in>set rs. accounted r"
    using Cons.IH by blast
  with r res show ?case by (simp add: Let_def w2_def failed'_def)
qed

end
