(* ===== verification/Wechat_Properties.thy ===== *)
theory Wechat_Properties
  imports Wechat_Cycles
begin

text \<open>
  The promises of the WeChat adapter: at-least-once delivery into the message store, the order of
  the checkpoints, the identity of messages, the memory and the results of the poller; with a
  concrete account, conversation and window for the witnesses.
\<close>

section \<open>Samples\<close>

definition sample_raw :: "int \<Rightarrow> string \<Rightarrow> RawWechatMessage" where
  "sample_raw local_id server_id =
     \<lparr>rw_raw_payload = JObj [], rw_local_id = JInt local_id, rw_server_id = JStr server_id, rw_chat_id = ''room@chatroom'',
      rw_sender = Some ''wxid_1'', rw_sender_name = None, rw_type = 1, rw_content = ''hello'', rw_timestamp = Aware 0,
      rw_is_mentioned = JBool True, rw_is_self = JNull, rw_reply = JNull\<rparr>"

definition sample_window :: "raw_item list" where
  "sample_window = [RawModel (sample_raw 6 ''s6''), RawModel (sample_raw 5 ''s5'')]"

definition sample_checkpoint :: WechatSyncCheckpoint where
  "sample_checkpoint = \<lparr>k_id = 1, k_source_account_id = ''bot'', k_conversation_id = ''room@chatroom'', k_last_local_id = 4,
     k_regression_generation = 0, k_last_message_fingerprint = None, k_initialized_at = 0, k_updated_at = 0\<rparr>"

definition sample_checkpoints :: "'s \<Rightarrow> 's checkpoint_db" where
  "sample_checkpoints s = \<lparr>cp_rows = [sample_checkpoint], cp_seq = 2, cp_rest = s\<rparr>"

definition alone_session :: "'s checkpoint_session" where
  "alone_session = \<lparr>cs_now = 1, cs_reads = True, cs_race = (\<lambda>u. u), cs_fate = Commits, cs_late = (\<lambda>u. u), cs_reloads = True\<rparr>"

definition sample_sink_env :: sink_env where
  "sample_sink_env = \<lparr>se_opens = True, se_builds = True, se_closes = True, se_repr = (\<lambda>_. []), se_isoformat = utc_isoformat,
     se_resolver = default_request_resolver, se_dispatcher = None, se_race = (\<lambda>_ _ u. u), se_ck = \<lparr>wall_now = 1, db_now = 1\<rparr>,
     se_uuid = (\<lambda>n. nat_str n), se_v2_routing_enabled = False, se_lease = PyInt 60\<rparr>"

definition sample_poll_env :: "('e, 's) message_sink \<Rightarrow> 'e \<Rightarrow> ('e, 's) poll_env" where
  "sample_poll_env sink e = \<lparr>pe_model_validate = (\<lambda>_. None), pe_parse_xml = (\<lambda>_. None), pe_bootstrap_mode = LATEST, pe_sink = sink,
     pe_auth_status = Inr \<lparr>au_logged_in_user = Some ''bot'', au_status = ''logged_in''\<rparr>,
     pe_list_chats = Inr [JObj [(''id'', JStr ''room@chatroom'')]], pe_list_messages = (\<lambda>_ _. Inr sample_window),
     pe_clock = (\<lambda>_. Some (Aware 0)), pe_session = (\<lambda>_ _. alone_session), pe_sink_env = (\<lambda>_ _. e)\<rparr>"

lemma alone_polite: "checkpoint_polite alone_session"
  by (simp add: checkpoint_polite_def alone_session_def)





section \<open>Delivery\<close>


definition sample_world :: "gateway_db poll_world" where
  "sample_world = \<lparr>pw_db = sample_checkpoints empty_db, pw_life = new_lifecycle\<rparr>"


section \<open>Checkpoints\<close>

text \<open>
  C29. Checkpoints only move up: in every run of the checkpoint store, with commits failing at any
  point and other sessions interfering, a row stays in the table, and either it is unchanged or its
  generation, its local id or its anchor has increased in this order; both numbers always fit the
  BigInteger columns, so the next generation never overflows.
\<close>

theorem checkpoints_only_move_up:
  assumes "cp_rows db0 = []" "checkpoint_step\<^sup>*\<^sup>* db0 db1" "checkpoint_step\<^sup>*\<^sup>* db1 db2" "checkpoint_reload a c db1 = Some r"
  shows "\<exists>r'. checkpoint_reload a c db2 = Some r'
    \<and> (r' = r
       \<or> k_regression_generation r < k_regression_generation r'
       \<or> k_regression_generation r = k_regression_generation r'
         \<and> (k_last_local_id r < k_last_local_id r'
            \<or> k_last_local_id r = k_last_local_id r' \<and> k_last_message_fingerprint r = None \<and> k_last_message_fingerprint r' \<noteq> None))
    \<and> 0 \<le> k_last_local_id r' \<and> k_last_local_id r' \<le> MAX_CHECKPOINT_LOCAL_ID
    \<and> 0 \<le> k_regression_generation r' \<and> k_regression_generation r' \<le> MAX_CHECKPOINT_LOCAL_ID"
proof -
  have "checkpoints_ok db0" using assms(1) by (simp add: checkpoints_ok_def checkpoint_table_ok_def)
  with checkpoint_run_follows [OF assms(2)] have ok: "checkpoints_ok db1" by (simp add: checkpoints_follow_def)
  obtain r' where r': "checkpoint_reload a c db2 = Some r'" "checkpoint_later r r'" "checkpoints_ok db2"
    by (rule checkpoints_follow_reload [OF checkpoint_run_follows [OF assms(3)] ok assms(4)])
  then have "checkpoint_sound r'" using reload_row [OF r'(1)] by (simp add: checkpoints_ok_def)
  with r'(1,2) show ?thesis
    by (intro exI [of _ r']) (auto simp: checkpoint_sound_def checkpoint_later_def checkpoint_rank_def)
qed

definition sample_run1 :: "unit checkpoint_db" where
  "sample_run1 = snd (checkpoint_initialize alone_session ''bot'' ''c'' (PyInt 4) None \<lparr>cp_rows = [], cp_seq = 1, cp_rest = ()\<rparr>)"

definition sample_run2 :: "unit checkpoint_db" where
  "sample_run2 = snd (checkpoint_rewind alone_session ''bot'' ''c'' (PyInt 4) (PyInt 0) None (PyInt 1) sample_run1)"

theorem checkpoints_only_move_up_witness:
  "\<exists>r r'. checkpoint_reload ''bot'' ''c'' sample_run1 = Some r \<and> checkpoint_reload ''bot'' ''c'' sample_run2 = Some r'
     \<and> k_last_local_id r = 4 \<and> k_last_local_id r' = 1 \<and> k_regression_generation r < k_regression_generation r'"
proof -
  have one: "checkpoint_step \<lparr>cp_rows = [], cp_seq = 1, cp_rest = ()\<rparr> sample_run1"
    unfolding sample_run1_def by (rule checkpoint_step.initialize [OF alone_polite])
  have two: "checkpoint_step sample_run1 sample_run2"
    unfolding sample_run2_def by (rule checkpoint_step.rewind [OF alone_polite])
  have "map_option k_last_local_id (checkpoint_reload ''bot'' ''c'' sample_run1) = Some 4"
       "map_option k_last_local_id (checkpoint_reload ''bot'' ''c'' sample_run2) = Some 1" by code_simp+
  then obtain r q where r: "checkpoint_reload ''bot'' ''c'' sample_run1 = Some r" "k_last_local_id r = 4"
      and q: "checkpoint_reload ''bot'' ''c'' sample_run2 = Some q" "k_last_local_id q = 1" by auto
  have runs: "checkpoint_step\<^sup>*\<^sup>* \<lparr>cp_rows = [], cp_seq = 1, cp_rest = ()\<rparr> sample_run1" "checkpoint_step\<^sup>*\<^sup>* sample_run1 sample_run2"
    using one two by blast+
  from checkpoints_only_move_up [OF _ runs r(1)] q r
  show ?thesis by auto
qed

text \<open>
  Compare-and-set fences concurrent pollers: once the row of a conversation has left a state,
  no operation that expects this state reports a change, however much later it runs and whatever
  other sessions do in between. Of two pollers that read the same checkpoint at most one moves it.
\<close>

theorem stale_checkpoint_is_refused:
  assumes "checkpoints_ok db1" "checkpoint_reload a c db1 = Some r" "checkpoint_step\<^sup>*\<^sup>* db1 db2" "checkpoint_reload a c db2 \<noteq> Some r"
    and "checkpoint_polite s"
  shows "Inr (q, True) \<notin> {
      fst (advance_cas s a c (PyInt (k_last_local_id r)) (PyInt (k_regression_generation r)) (k_last_message_fingerprint r) n fp db2),
      fst (enroll_anchor s a c (PyInt (k_last_local_id r)) (PyInt (k_regression_generation r)) fp db2),
      fst (checkpoint_rewind s a c (PyInt (k_last_local_id r)) (PyInt (k_regression_generation r)) (k_last_message_fingerprint r) n db2),
      fst (rebase_latest_after_regression s a c (PyInt (k_last_local_id r)) (PyInt (k_regression_generation r)) (k_last_message_fingerprint r) n fp db2),
      fst (begin_live_suffix_after_empty_window s a c (PyInt (k_last_local_id r)) (PyInt (k_regression_generation r)) (k_last_message_fingerprint r) n fp db2)}"
proof -
  obtain r' where r': "checkpoint_reload a c db2 = Some r'" "checkpoint_later r r'" "checkpoints_ok db2"
    by (rule checkpoints_follow_reload [OF checkpoint_run_follows [OF assms(3)] assms(1,2)])
  with assms(4) have "passed_by (k_last_local_id r) (k_regression_generation r) (k_last_message_fingerprint r) r'"
    by (auto simp: checkpoint_later_def passed_by_def checkpoint_rank_def)
  note refused = passed_operations_refused [OF r'(3,1) this assms(5)]
  show ?thesis by (simp add: refused [THEN not_sym])
qed

theorem stale_checkpoint_is_refused_witness:
  "\<exists>r. checkpoint_reload ''bot'' ''c'' sample_run1 = Some r
     \<and> fst (advance_cas alone_session ''bot'' ''c'' (PyInt 4) (PyInt 0) None (PyInt 9) None sample_run1) \<noteq> fst
         (advance_cas alone_session ''bot'' ''c'' (PyInt 4) (PyInt 0) None (PyInt 9) None sample_run2)
     \<and> (\<forall>q. fst (advance_cas alone_session ''bot'' ''c'' (PyInt 4) (PyInt 0) None (PyInt 9) None sample_run2) \<noteq> Inr (q, True))"
proof -
  have two: "checkpoint_step\<^sup>*\<^sup>* sample_run1 sample_run2"
    unfolding sample_run2_def by (rule r_into_rtranclp, rule checkpoint_step.rewind [OF alone_polite])
  have ok: "checkpoints_ok sample_run1"
  proof -
    have "checkpoint_step \<lparr>cp_rows = [], cp_seq = 1, cp_rest = ()\<rparr> sample_run1"
      unfolding sample_run1_def by (rule checkpoint_step.initialize [OF alone_polite])
    from checkpoint_step_follows [OF this] show ?thesis
      by (simp add: checkpoints_follow_def checkpoints_ok_def checkpoint_table_ok_def)
  qed
  have v: "map_option (\<lambda>r. (k_last_local_id r, k_regression_generation r, k_last_message_fingerprint r)) (checkpoint_reload ''bot'' ''c'' sample_run1)
      = Some (4, 0, None)" by code_simp
  then obtain r where r: "checkpoint_reload ''bot'' ''c'' sample_run1 = Some r" "k_last_local_id r = 4" "k_regression_generation r = 0"
      "k_last_message_fingerprint r = None" by auto
  have "map_option k_last_local_id (checkpoint_reload ''bot'' ''c'' sample_run2) = Some 1" by code_simp
  with r have "checkpoint_reload ''bot'' ''c'' sample_run2 \<noteq> Some r" by auto
  from stale_checkpoint_is_refused [OF ok r(1) two this alone_polite] r(2-4)
  have n: "fst (advance_cas alone_session ''bot'' ''c'' (PyInt 4) (PyInt 0) None (PyInt 9) None sample_run2) \<noteq> Inr (q, True)" for q
    by (metis insertCI)
  have "map_sum (\<lambda>_. ()) snd (fst (advance_cas alone_session ''bot'' ''c'' (PyInt 4) (PyInt 0) None (PyInt 9) None sample_run1)) = Inr True"
    by code_simp
  then obtain q where "fst (advance_cas alone_session ''bot'' ''c'' (PyInt 4) (PyInt 0) None (PyInt 9) None sample_run1) = Inr (q, True)"
    by (cases "fst (advance_cas alone_session ''bot'' ''c'' (PyInt 4) (PyInt 0) None (PyInt 9) None sample_run1)") auto
  with n r(1) show ?thesis by metis
qed

section \<open>Results and memory of the poller\<close>

text \<open>
  The memory of the poller is bounded: after any number of cycles, whatever the client lists
  and whatever fails, every observation table of a poller that started with an empty memory holds at
  most MAX_LIFECYCLE_CHAT_STATES entries.
\<close>

theorem poller_memory_is_bounded:
  "list_all (\<lambda>(_, count). count \<le> MAX_LIFECYCLE_CHAT_STATES)
     (observation_counts (pw_life (poll_cycles envs \<lparr>pw_db = db, pw_life = new_lifecycle\<rparr>)))"
  using observation_counts_bounded [OF poll_cycles_life [of "\<lparr>pw_db = db, pw_life = new_lifecycle\<rparr>"]] new_lifecycle_ok
  by (auto simp: list_all_iff)

lemma accounted_sums:
  assumes "\<forall>r\<in>set rs. accounted r"
  shows "length (concat (map cr_failures rs)) = length (filter (\<lambda>r. \<not> cr_succeeded r) rs)
    \<and> sum_list (map cr_messages_processed rs) \<le> sum_list (map cr_messages_new rs) + sum_list (map cr_messages_duplicate rs)
    \<and> sum_list (map cr_messages_new rs) + sum_list (map cr_messages_duplicate rs)
        \<le> sum_list (map cr_messages_processed rs) + sum_list (map cr_messages_failed rs)"
  using assms
proof (induction rs)
  case (Cons r rs)
  then have "accounted r" by simp
  with Cons show ?case by (cases "cr_succeeded r") (simp_all add: accounted_def [of r])
qed simp

lemma poll_once_reports:
  assumes "\<And>i conversation raw. pe_list_messages env i conversation = Inr raw \<Longrightarrow> \<forall>item\<in>set raw. \<exists>m. item = RawModel m"
  obtains acc logged failures w' where "poll_once env w = (Inr (empty_poll acc logged failures), w')"
    | acc chats rs w' where "pe_list_chats env = Inr chats" "poll_once env w = (Inr (poll_summary acc (length chats) rs), w')"
        "length rs = length chats" "\<forall>r\<in>set rs. accounted r"
proof (cases "\<exists>auth acc chats. pe_auth_status env = Inr auth \<and> au_status auth = ''logged_in'' \<and> auth_source_account_id auth = Some acc
    \<and> pe_list_chats env = Inr chats")
  case True
  then obtain auth acc chats where e: "pe_auth_status env = Inr auth" "au_status auth = ''logged_in''" "auth_source_account_id auth = Some acc"
    "pe_list_chats env = Inr chats" by blast
  obtain rs w2 where "poll_chats env acc 0 [] chats (w\<lparr>pw_life := observe_account acc (pw_life w)\<rparr>) = (Inr rs, w2)"
      "length rs = length chats" "\<forall>r\<in>set rs. accounted r"
    using poll_chats_report [of env acc 0 "[]" chats "w\<lparr>pw_life := observe_account acc (pw_life w)\<rparr>"] assms by blast
  with e that(2) show ?thesis by (simp add: poll_once_def Let_def)
next
  case False
  then have "\<exists>acc logged failures w'. poll_once env w = (Inr (empty_poll acc logged failures), w')"
    by (auto simp: poll_once_def Let_def split: sum.splits option.splits)
  with that(1) show ?thesis by blast
qed

text \<open>
  A cycle accounts for every chat: when the client returns validated messages, no exception
  leaves the cycle, whatever else fails. Either no chat was listed, or there is one result per
  listed chat; each of them adds up, the chats that failed are exactly the reported failures, and
  every processed message was new or a duplicate.
\<close>

theorem poll_accounts_for_every_chat:
  assumes "\<And>i conversation raw. pe_list_messages env i conversation = Inr raw \<Longrightarrow> \<forall>item\<in>set raw. \<exists>m. item = RawModel m"
  shows "\<exists>res w'. poll_once env w = (Inr res, w')
    \<and> length (pl_chat_results res) = pl_chats_seen res \<and> (\<forall>r\<in>set (pl_chat_results res). accounted r)
    \<and> pl_chats_succeeded res + pl_chats_failed res = pl_chats_seen res
    \<and> (pl_chats_seen res > 0 \<longrightarrow> pe_list_chats env \<in> Inr ` {chats. length chats = pl_chats_seen res} \<and> length (pl_failures res) = pl_chats_failed res)
    \<and> pl_messages_processed res \<le> pl_messages_new res + pl_messages_duplicate res
    \<and> pl_messages_new res + pl_messages_duplicate res \<le> pl_messages_processed res + pl_messages_failed res"
proof (rule poll_once_reports [of env w])
  show "\<forall>item\<in>set raw. \<exists>m. item = RawModel m" if "pe_list_messages env i conversation = Inr raw" for i conversation raw
    by (rule assms [OF that])
next
  fix acc logged failures w'
  assume "poll_once env w = (Inr (empty_poll acc logged failures), w')"
  then show ?thesis by (simp add: empty_poll_def)
next
  fix acc chats rs w'
  assume listed: "pe_list_chats env = Inr chats" "poll_once env w = (Inr (poll_summary acc (length chats) rs), w')"
    "length rs = length chats" "\<forall>r\<in>set rs. accounted r"
  with accounted_sums [OF listed(4)] show ?thesis by (auto simp: poll_summary_def sum_length_filter_compl)
qed

theorem poll_accounts_for_every_chat_witness:
  "\<exists>res w'. poll_once (sample_poll_env session_factory_sink sample_sink_env) sample_world = (Inr res, w')
     \<and> pl_chats_succeeded res + pl_chats_failed res = pl_chats_seen res"
proof -
  have "\<forall>item\<in>set raw. \<exists>m. item = RawModel m"
    if "pe_list_messages (sample_poll_env session_factory_sink sample_sink_env) i conversation = Inr raw" for i conversation raw
    using that by (auto simp: sample_poll_env_def sample_window_def)
  then show ?thesis
    using poll_accounts_for_every_chat [of "sample_poll_env session_factory_sink sample_sink_env" sample_world] by blast
qed

section \<open>Identity\<close>

definition collision_free :: "string \<Rightarrow> string \<Rightarrow> bool" where
  "collision_free x y \<longleftrightarrow> (sha256_hexdigest x = sha256_hexdigest y \<longrightarrow> x = y)"

text \<open>
  C30. The event id identifies a message. Normalize any two raw messages, and let SHA-256 not
  collide on their canonical texts. Their event ids agree exactly when the account and the
  conversation agree and, where both have a server id, the server ids; where both fall back to the
  local id, the local ids and the regression generations, so a reused local id is a new message.
  An event id always has 74 characters.
\<close>

theorem event_id_identifies_message:
  assumes "normalize_wechat_message mv px raw a name g = Inr n" "normalize_wechat_message mv' px' raw' a' name' g' = Inr n'"
    and "collision_free (event_text (nm_source_account_id n) (nm_conversation_id n) (nm_source_message_id n))
           (event_text (nm_source_account_id n') (nm_conversation_id n') (nm_source_message_id n'))"
    and "\<And>l l'. nm_source_local_id n = Some l \<Longrightarrow> nm_source_local_id n' = Some l' \<Longrightarrow>
      collision_free (local_text (nm_source_account_id n) (nm_conversation_id n) l g)
        (local_text (nm_source_account_id n') (nm_conversation_id n') l' g')"
  shows "length (nm_event_id n) = 74
    \<and> (nm_event_id n = nm_event_id n' \<longleftrightarrow>
         nm_source_account_id n = nm_source_account_id n' \<and> nm_conversation_id n = nm_conversation_id n'
         \<and> (if nm_source_message_id_is_fallback n \<and> nm_source_message_id_is_fallback n'
            then nm_source_local_id n = nm_source_local_id n' \<and> g = g'
            else if \<not> nm_source_message_id_is_fallback n \<and> \<not> nm_source_message_id_is_fallback n'
            then nm_source_server_id n = nm_source_server_id n'
            else nm_source_message_id n = nm_source_message_id n'))"
proof -
  have one: "nm_event_id n = ''v1:wechat:'' @ sha256_hexdigest (event_text (nm_source_account_id n) (nm_conversation_id n) (nm_source_message_id n))
      \<and> 0 \<le> g
      \<and> (nm_source_message_id_is_fallback n \<longrightarrow> (\<exists>k. nm_source_local_id n = Some k
           \<and> nm_source_message_id n = local_message_id (nm_source_account_id n) (nm_conversation_id n) k g))
      \<and> (\<not> nm_source_message_id_is_fallback n \<longrightarrow> nm_source_server_id n = Some (nm_source_message_id n))"
    if "normalize_wechat_message mv px raw a name g = Inr n" for mv px raw a name g n
    by (rule normalize_Inr [OF that], frule source_message_id_Inr) auto
  note n = one [OF assms(1)] and n' = one [OF assms(2)]
  have ids: "nm_event_id n = nm_event_id n' \<longleftrightarrow> nm_source_account_id n = nm_source_account_id n'
      \<and> nm_conversation_id n = nm_conversation_id n' \<and> nm_source_message_id n = nm_source_message_id n'"
    using n n' assms(3) event_text_inject by (auto simp: collision_free_def)
  have loc: "local_message_id (nm_source_account_id n) (nm_conversation_id n) l g = local_message_id (nm_source_account_id n') (nm_conversation_id n') l' g'
      \<longleftrightarrow> nm_source_account_id n = nm_source_account_id n' \<and> nm_conversation_id n = nm_conversation_id n' \<and> l = l' \<and> g = g'"
    if "nm_source_local_id n = Some l" "nm_source_local_id n' = Some l'" for l l'
    by (rule local_message_id_inject) (use n n' assms(4) [OF that] in \<open>auto simp: collision_free_def\<close>)
  have "length (nm_event_id n) = 74" using n by simp
  moreover have "nm_source_message_id n = nm_source_message_id n' \<longleftrightarrow> nm_source_local_id n = nm_source_local_id n' \<and> g = g'"
    if "nm_source_message_id_is_fallback n \<and> nm_source_message_id_is_fallback n'" "nm_source_account_id n = nm_source_account_id n'"
      "nm_conversation_id n = nm_conversation_id n'"
    using that n n' loc by (metis option.inject)
  moreover have "nm_source_message_id n = nm_source_message_id n' \<longleftrightarrow> nm_source_server_id n = nm_source_server_id n'"
    if "\<not> nm_source_message_id_is_fallback n \<and> \<not> nm_source_message_id_is_fallback n'"
    using that n n' by simp
  ultimately show ?thesis using ids by auto
qed

theorem event_id_identifies_message_witness:
  "\<exists>n n'. normalize_wechat_message (\<lambda>_. None) (\<lambda>_. None) (RawModel (sample_raw 5 ''s5'')) ''bot'' None 0 = Inr n
     \<and> normalize_wechat_message (\<lambda>_. None) (\<lambda>_. None) (RawModel (sample_raw 5 ''s5'' \<lparr>rw_content := ''edited''\<rparr>)) '' bot'' (Some ''x'') 0 = Inr n'
     \<and> nm_content n \<noteq> nm_content n' \<and> nm_event_id n = nm_event_id n'"
proof -
  let ?n = "\<lambda>m a name n. normalize_wechat_message (\<lambda>_. None) (\<lambda>_. None) (RawModel m) a name 0 = Inr n"
  have five: "int_str 5 = ''5''" by code_simp
  have "\<exists>n. ?n (sample_raw 5 ''s5'' \<lparr>rw_content := body\<rparr>) a name n \<and> nm_content n = body \<and> nm_source_account_id n = ''bot''
      \<and> nm_conversation_id n = ''room@chatroom'' \<and> nm_source_message_id n = ''s5'' \<and> nm_source_server_id n = Some ''s5''
      \<and> nm_source_local_id n = Some ''5'' \<and> \<not> nm_source_message_id_is_fallback n" if "py_strip a = ''bot''" for body a name
    using that
    by (simp add: normalize_wechat_message_def raw_message_def sample_raw_def required_text_def optional_text_def py_strip_def py_isspace_def
        validated_generation_def wechat_source_message_id_def usable_id_def build_wechat_event_id_def normalized_message_def Let_def five
        five [unfolded int_str_def])
  from this [of "''bot''" "''hello''" None] this [of "'' bot''" "''edited''" "Some ''x''"]
  have "\<exists>n n'. ?n (sample_raw 5 ''s5'') ''bot'' None n \<and> ?n (sample_raw 5 ''s5'' \<lparr>rw_content := ''edited''\<rparr>) '' bot'' (Some ''x'') n'
     \<and> nm_content n = ''hello'' \<and> nm_content n' = ''edited''
     \<and> nm_source_account_id n = ''bot'' \<and> nm_source_account_id n' = ''bot''
     \<and> nm_conversation_id n = ''room@chatroom'' \<and> nm_conversation_id n' = ''room@chatroom''
     \<and> nm_source_message_id n = ''s5'' \<and> nm_source_message_id n' = ''s5''
     \<and> nm_source_server_id n = Some ''s5'' \<and> nm_source_server_id n' = Some ''s5''
     \<and> nm_source_local_id n = Some ''5'' \<and> nm_source_local_id n' = Some ''5''
     \<and> \<not> nm_source_message_id_is_fallback n \<and> \<not> nm_source_message_id_is_fallback n'"
    by (auto simp: sample_raw_def py_strip_def py_isspace_def)
  then obtain n n' where n: "normalize_wechat_message (\<lambda>_. None) (\<lambda>_. None) (RawModel (sample_raw 5 ''s5'')) ''bot'' None 0 = Inr n"
     "normalize_wechat_message (\<lambda>_. None) (\<lambda>_. None) (RawModel (sample_raw 5 ''s5'' \<lparr>rw_content := ''edited''\<rparr>)) '' bot'' (Some ''x'') 0 = Inr n'"
     and v: "nm_content n = ''hello''" "nm_content n' = ''edited''"
     "nm_source_account_id n = ''bot''" "nm_source_account_id n' = ''bot''"
     "nm_conversation_id n = ''room@chatroom''" "nm_conversation_id n' = ''room@chatroom''"
     "nm_source_message_id n = ''s5''" "nm_source_message_id n' = ''s5''"
     "nm_source_server_id n = Some ''s5''" "nm_source_server_id n' = Some ''s5''"
     "nm_source_local_id n = Some ''5''" "nm_source_local_id n' = Some ''5''"
     "\<not> nm_source_message_id_is_fallback n" "\<not> nm_source_message_id_is_fallback n'"
    by blast
  have "nm_event_id n = nm_event_id n'" 
    using event_id_identifies_message [OF n] v by (simp add: collision_free_def)
  with n v show ?thesis by auto
qed

end
