(* ===== verification/Context_Store.thy ===== *)
theory Context_Store
  imports Dispatch_Results
begin

text \<open>
  The conversation context of a thread (\<open>context/errors.py\<close>, \<open>models.py\<close>, \<open>snapshot_models.py\<close>,
  \<open>storage.py\<close>): successful dispatches joined with their messages and results are the turns of a
  timeline, read in full, by range, from the end or by a text search; a snapshot is a summary of a
  prefix of the timeline and may be created only when this prefix is settled.

  Instants of the database are times in UTC, so \<open>_as_utc\<close> leaves them as they are.
\<close>

section \<open>Data\<close>

text \<open>
  Exceptions: denied access, an invalid request, and everything else (a stored payload that does not
  validate, a failing statement).
\<close>

datatype context_error = ContextAccessDeniedError string | ContextValidationError | ContextStorageError

fun context_error_code :: "context_error \<Rightarrow> string option" where
  "context_error_code (ContextAccessDeniedError _) = Some ''context_access_denied''"
| "context_error_code ContextValidationError = Some ''context_request_invalid''"
| "context_error_code ContextStorageError = None"

datatype ContextEntryKind = CTX_MESSAGE | CTX_ASSISTANT_RESPONSE | CTX_ARTIFACT_REFERENCE

record ContextSnapshot =
  sn_thread_id :: string
  sn_snapshot_version :: int
  sn_summary :: string
  sn_covered_until :: int
  sn_created_at :: instant

record ContextEntry =
  ce_thread_id :: string
  ce_kind :: ContextEntryKind
  ce_occurred_at :: instant
  ce_received_at :: instant
  ce_created_at :: instant
  ce_message_id :: int
  ce_response_id :: "string option"
  ce_part_ordinal :: "nat option"
  ce_content :: "string option"
  ce_artifact_id :: "string option"
  ce_dispatch_id :: "int option"

record ContextSnapshotRecord =
  sr_thread_id :: string
  sr_snapshot_version :: int
  sr_summary :: string
  sr_covered_until :: int
  sr_created_at :: instant

definition snapshot_row_ok :: "ContextSnapshotRecord \<Rightarrow> bool" where
  "snapshot_row_ok r \<longleftrightarrow> sr_snapshot_version r > 0 \<and> sql_nonempty (sr_summary r) \<and> sr_covered_until r > 0"

definition snapshot_table_ok :: "ContextSnapshotRecord list \<Rightarrow> bool" where
  "snapshot_table_ok rows \<longleftrightarrow> list_all snapshot_row_ok rows \<and> distinct (map (\<lambda>r. (sr_thread_id r, sr_snapshot_version r)) rows)"

text \<open>The database with the snapshots.\<close>

record context_db =
  xd_gateway :: gateway_db
  xd_snapshots :: "ContextSnapshotRecord list"

section \<open>Arguments\<close>

definition context_required_text :: "string \<Rightarrow> context_error + string" where
  "context_required_text value = (if py_strip value = [] then Inl ContextValidationError else Inr (py_strip value))"

definition required_positive_integer :: "py_num \<Rightarrow> context_error + int" where
  "required_positive_integer value =
     (case value of PyInt n \<Rightarrow> if n \<le> 0 then Inl ContextValidationError else Inr n | _ \<Rightarrow> Inl ContextValidationError)"

definition optional_positive_integer :: "py_num option \<Rightarrow> context_error + int option" where
  "optional_positive_integer value =
     (case value of None \<Rightarrow> Inr None | Some v \<Rightarrow> map_sum id Some (required_positive_integer v))"

definition required_aware_datetime :: "py_datetime \<Rightarrow> context_error + instant" where
  "required_aware_datetime value = (case value of Aware t \<Rightarrow> Inr t | Naive _ \<Rightarrow> Inl ContextValidationError)"

section \<open>Turns\<close>

type_synonym context_turn = "HermesDispatchRecord \<times> Message \<times> HermesDispatchResponse"

text \<open>The join of dispatches, messages and results, in the order of the dispatch table.\<close>

definition joined_turns :: "gateway_db \<Rightarrow> context_turn list" where
  "joined_turns db =
     concat (map (\<lambda>r. concat (map (\<lambda>m. map (\<lambda>h. (r, m, h)) (filter (\<lambda>h. h_dispatch_record_id h = d_id r) (dispatch_responses db)))
                                 (filter (\<lambda>m. g_id m = d_message_id r) (messages db))))
                 (dispatches db))"

definition turn_where :: "string \<Rightarrow> context_turn \<Rightarrow> bool" where
  "turn_where thread_id t \<longleftrightarrow> d_ai_thread_id (fst t) = thread_id \<and> d_status (fst t) = D_SUCCESS"

definition message_entry :: "string \<Rightarrow> HermesDispatchRecord \<Rightarrow> Message \<Rightarrow> ContextEntry" where
  "message_entry thread_id r message =
     \<lparr>ce_thread_id = thread_id, ce_kind = CTX_MESSAGE, ce_occurred_at = g_occurred_at message, ce_received_at = g_received_at message,
      ce_created_at = g_created_at message, ce_message_id = g_id message, ce_response_id = None, ce_part_ordinal = None,
      ce_content = Some (g_content message), ce_artifact_id = None, ce_dispatch_id = Some (d_id r)\<rparr>"

definition assistant_entry ::
  "string \<Rightarrow> HermesDispatchRecord \<Rightarrow> HermesDispatchResponse \<Rightarrow> string option \<Rightarrow> nat \<Rightarrow> string \<Rightarrow> ContextEntry"
where
  "assistant_entry thread_id r response response_id ordinal content =
     \<lparr>ce_thread_id = thread_id, ce_kind = CTX_ASSISTANT_RESPONSE, ce_occurred_at = h_created_at response,
      ce_received_at = h_created_at response, ce_created_at = h_created_at response, ce_message_id = d_message_id r,
      ce_response_id = response_id, ce_part_ordinal = Some ordinal, ce_content = Some content, ce_artifact_id = None,
      ce_dispatch_id = Some (d_id r)\<rparr>"

definition artifact_entry ::
  "string \<Rightarrow> HermesDispatchRecord \<Rightarrow> HermesDispatchResponse \<Rightarrow> string \<Rightarrow> nat \<Rightarrow> string \<Rightarrow> ContextEntry"
where
  "artifact_entry thread_id r response response_id ordinal artifact_id =
     \<lparr>ce_thread_id = thread_id, ce_kind = CTX_ARTIFACT_REFERENCE, ce_occurred_at = h_created_at response,
      ce_received_at = h_created_at response, ce_created_at = h_created_at response, ce_message_id = d_message_id r,
      ce_response_id = Some response_id, ce_part_ordinal = Some ordinal, ce_content = None, ce_artifact_id = Some artifact_id,
      ce_dispatch_id = Some (d_id r)\<rparr>"

definition artifact_response :: "string \<Rightarrow> gateway_db \<Rightarrow> string option" where
  "artifact_response artifact_id db = map_option f_response_id (lookup_by f_artifact_id artifact_id (artifacts db))"

text \<open>An artifact of another response is left out.\<close>

fun part_entries ::
  "string \<Rightarrow> HermesDispatchRecord \<Rightarrow> HermesDispatchResponse \<Rightarrow> string \<Rightarrow> gateway_db \<Rightarrow> nat \<Rightarrow> ResponsePart list \<Rightarrow> ContextEntry list"
where
  "part_entries thread_id r response response_id db ordinal [] = []"
| "part_entries thread_id r response response_id db ordinal (TextPart text # parts) =
     assistant_entry thread_id r response (Some response_id) ordinal text
       # part_entries thread_id r response response_id db (Suc ordinal) parts"
| "part_entries thread_id r response response_id db ordinal (ArtifactRefPart artifact_id # parts) =
     (if artifact_response artifact_id db = Some response_id then [artifact_entry thread_id r response response_id ordinal artifact_id] else [])
       @ part_entries thread_id r response response_id db (Suc ordinal) parts"

definition response_entries ::
  "string \<Rightarrow> HermesDispatchRecord \<Rightarrow> HermesDispatchResponse \<Rightarrow> gateway_db \<Rightarrow> context_error + ContextEntry list"
where
  "response_entries thread_id r response db =
     (case h_response_payload response of
        None \<Rightarrow>
          Inr (if h_assistant_content response = [] then []
               else [assistant_entry thread_id r response (h_hermes_response_id response) 0 (h_assistant_content response)])
      | Some payload \<Rightarrow>
          (case envelope_validate payload of
             None \<Rightarrow> Inl ContextStorageError
           | Some envelope \<Rightarrow> Inr (part_entries thread_id r response (env_response_id envelope) db 0 (env_parts envelope))))"

definition turn_entries :: "string \<Rightarrow> gateway_db \<Rightarrow> context_turn \<Rightarrow> context_error + ContextEntry list" where
  "turn_entries thread_id db t =
     (case t of (r, message, response) \<Rightarrow> map_sum id ((#) (message_entry thread_id r message)) (response_entries thread_id r response db))"

fun collect_entries :: "string \<Rightarrow> gateway_db \<Rightarrow> context_turn list \<Rightarrow> context_error + ContextEntry list" where
  "collect_entries thread_id db [] = Inr []"
| "collect_entries thread_id db (t # turns) =
     (case turn_entries thread_id db t of
        Inl e \<Rightarrow> Inl e
      | Inr entries \<Rightarrow> map_sum id ((@) entries) (collect_entries thread_id db turns))"

section \<open>Reading the timeline\<close>

definition in_range :: "int option \<Rightarrow> int option \<Rightarrow> int \<Rightarrow> bool" where
  "in_range range_start range_end i \<longleftrightarrow>
     (case range_start of None \<Rightarrow> True | Some s \<Rightarrow> s \<le> i) \<and> (case range_end of None \<Rightarrow> True | Some e \<Rightarrow> i < e)"

definition timeline_turns :: "string \<Rightarrow> int option \<Rightarrow> int option \<Rightarrow> gateway_db \<Rightarrow> context_turn list" where
  "timeline_turns thread_id range_start range_end db =
     sort_key (\<lambda>t. d_id (fst t)) (filter (\<lambda>t. turn_where thread_id t \<and> in_range range_start range_end (d_id (fst t))) (joined_turns db))"

definition read_timeline :: "string \<Rightarrow> py_num option \<Rightarrow> py_num option \<Rightarrow> gateway_db \<Rightarrow> context_error + ContextEntry list" where
  "read_timeline thread_id range_from range_to db =
     (case context_required_text thread_id of
        Inl e \<Rightarrow> Inl e
      | Inr thread \<Rightarrow>
     (case optional_positive_integer range_from of
        Inl e \<Rightarrow> Inl e
      | Inr range_start \<Rightarrow>
     (case optional_positive_integer range_to of
        Inl e \<Rightarrow> Inl e
      | Inr range_end \<Rightarrow>
          if range_start \<noteq> None \<and> range_end \<noteq> None \<and> the range_start \<ge> the range_end then Inl ContextValidationError
          else collect_entries thread db (timeline_turns thread range_start range_end db))))"

definition context_read :: "string \<Rightarrow> gateway_db \<Rightarrow> context_error + ContextEntry list" where
  "context_read thread_id db = read_timeline thread_id None None db"

definition recent_turns :: "string \<Rightarrow> nat \<Rightarrow> gateway_db \<Rightarrow> context_turn list" where
  "recent_turns thread_id limit db = rev (take limit (sort_key (\<lambda>t. - d_id (fst t)) (filter (turn_where thread_id) (joined_turns db))))"

definition read_recent :: "string \<Rightarrow> py_num \<Rightarrow> gateway_db \<Rightarrow> context_error + ContextEntry list" where
  "read_recent thread_id limit db =
     (case context_required_text thread_id of
        Inl e \<Rightarrow> Inl e
      | Inr thread \<Rightarrow>
     (case required_positive_integer limit of
        Inl e \<Rightarrow> Inl e
      | Inr n \<Rightarrow> collect_entries thread db (recent_turns thread (nat n) db)))"

definition range_turns :: "string \<Rightarrow> instant \<Rightarrow> instant \<Rightarrow> gateway_db \<Rightarrow> context_turn list" where
  "range_turns thread_id range_start range_end db =
     sort_key (\<lambda>t. (d_created_at (fst t), d_id (fst t)))
       (filter (\<lambda>t. turn_where thread_id t \<and> range_start \<le> g_occurred_at (fst (snd t)) \<and> g_occurred_at (fst (snd t)) < range_end) (joined_turns db))"

definition read_range :: "string \<Rightarrow> py_datetime \<Rightarrow> py_datetime \<Rightarrow> gateway_db \<Rightarrow> context_error + ContextEntry list" where
  "read_range thread_id occurred_at_gte occurred_at_lt db =
     (case context_required_text thread_id of
        Inl e \<Rightarrow> Inl e
      | Inr thread \<Rightarrow>
     (case required_aware_datetime occurred_at_gte of
        Inl e \<Rightarrow> Inl e
      | Inr range_start \<Rightarrow>
     (case required_aware_datetime occurred_at_lt of
        Inl e \<Rightarrow> Inl e
      | Inr range_end \<Rightarrow>
          if range_start \<ge> range_end then Inl ContextValidationError
          else collect_entries thread db (range_turns thread range_start range_end db))))"

text \<open>
  \<open>str.casefold()\<close> on code points below 256: capital letters become small, the sharp s becomes two
  letters and the micro sign the Greek letter, so the result is a list of code points.
\<close>

definition casefold_points :: "char \<Rightarrow> nat list" where
  "casefold_points c =
     (let n = of_char c :: nat in
      if 65 \<le> n \<and> n \<le> 90 \<or> 192 \<le> n \<and> n \<le> 222 \<and> n \<noteq> 215 then [n + 32]
      else if n = 223 then [115, 115] else if n = 181 then [956] else [n])"

definition casefold :: "string \<Rightarrow> nat list" where
  "casefold s = concat (map casefold_points s)"

definition text_contains :: "'a list \<Rightarrow> 'a list \<Rightarrow> bool" where
  "text_contains part whole \<longleftrightarrow> list_ex (\<lambda>i. take (length part) (drop i whole) = part) [0..<Suc (length whole)]"

fun join_lines :: "string list \<Rightarrow> string" where
  "join_lines [] = []"
| "join_lines [s] = s"
| "join_lines (s # t # ss) = s @ CHR 0x0A # join_lines (t # ss)"

definition searchable_text :: "ContextEntry \<Rightarrow> string" where
  "searchable_text e = join_lines (List.map_filter id [ce_content e, ce_artifact_id e, ce_response_id e])"

definition context_search :: "string \<Rightarrow> string \<Rightarrow> gateway_db \<Rightarrow> context_error + ContextEntry list" where
  "context_search thread_id query db =
     (case context_required_text query of
        Inl e \<Rightarrow> Inl e
      | Inr q \<Rightarrow> map_sum id (filter (\<lambda>entry. text_contains (casefold q) (casefold (searchable_text entry)))) (context_read thread_id db))"

section \<open>Snapshots\<close>

definition snapshot_of :: "ContextSnapshotRecord \<Rightarrow> ContextSnapshot" where
  "snapshot_of r = \<lparr>sn_thread_id = sr_thread_id r, sn_snapshot_version = sr_snapshot_version r, sn_summary = sr_summary r,
     sn_covered_until = sr_covered_until r, sn_created_at = sr_created_at r\<rparr>"

definition latest_record :: "string \<Rightarrow> context_db \<Rightarrow> ContextSnapshotRecord option" where
  "latest_record thread_id db =
     select_min (\<lambda>r. - sr_snapshot_version r) (filter (\<lambda>r. sr_thread_id r = thread_id) (xd_snapshots db))"

definition read_snapshot :: "string \<Rightarrow> context_db \<Rightarrow> context_error + ContextSnapshot option" where
  "read_snapshot thread_id db = map_sum id (\<lambda>thread. map_option snapshot_of (latest_record thread db)) (context_required_text thread_id)"

definition timeline_end :: "string \<Rightarrow> gateway_db \<Rightarrow> int" where
  "timeline_end thread_id db =
     (let ids = map d_id (filter (\<lambda>r. d_ai_thread_id r = thread_id) (dispatches db)) in (if ids = [] then 0 else Max (set ids)) + 1)"

definition unfinished :: "HermesDispatchRecord \<Rightarrow> bool" where
  "unfinished r \<longleftrightarrow> d_status r \<in> {D_QUEUED, D_RUNNING, D_FAILED, D_UNCERTAIN}"

definition coverage_bounds :: "string \<Rightarrow> int \<Rightarrow> int option \<Rightarrow> HermesDispatchRecord \<Rightarrow> bool" where
  "coverage_bounds thread_id covered_until validated_from r \<longleftrightarrow>
     d_ai_thread_id r = thread_id \<and> d_id r < covered_until \<and> (case validated_from of None \<Rightarrow> True | Some i \<Rightarrow> i \<le> d_id r)"

definition covered_payloads :: "(HermesDispatchRecord \<Rightarrow> bool) \<Rightarrow> gateway_db \<Rightarrow> json list" where
  "covered_payloads bounds db =
     List.map_filter h_response_payload
       (filter (\<lambda>h. list_ex (\<lambda>r. d_id r = h_dispatch_record_id h \<and> bounds r \<and> d_status r = D_SUCCESS) (dispatches db)) (dispatch_responses db))"

fun validate_envelopes :: "json list \<Rightarrow> context_error + ResponseEnvelope list" where
  "validate_envelopes [] = Inr []"
| "validate_envelopes (p # ps) =
     (case envelope_validate p of
        None \<Rightarrow> Inl ContextStorageError
      | Some e \<Rightarrow> map_sum id ((#) e) (validate_envelopes ps))"

text \<open>The pairs of an artifact and the response that refers to it.\<close>

definition artifact_references :: "ResponseEnvelope list \<Rightarrow> (string \<times> string) list" where
  "artifact_references envelopes = concat (map (\<lambda>e. map (\<lambda>a. (a, env_response_id e)) (envelope_artifact_ids e)) envelopes)"

definition ARTIFACT_LOOKUP_BATCH_SIZE :: nat where "ARTIFACT_LOOKUP_BATCH_SIZE = 500"

function lookup_batches :: "nat \<Rightarrow> 'a list \<Rightarrow> 'a list list" where
  "lookup_batches n ids = (if ids = [] \<or> n = 0 then [] else take n ids # lookup_batches n (drop n ids))"
  by auto
termination by (relation "measure (length \<circ> snd)") auto

declare lookup_batches.simps [simp del]

definition reference_resolved :: "(string \<times> string) list \<Rightarrow> gateway_db \<Rightarrow> string \<Rightarrow> bool" where
  "reference_resolved refs db artifact_id \<longleftrightarrow>
     (case artifact_response artifact_id db of
        None \<Rightarrow> False
      | Some response_id \<Rightarrow> list_all (\<lambda>(a, i). a = artifact_id \<longrightarrow> i = response_id) refs)"

definition validate_boundary :: "string \<Rightarrow> int \<Rightarrow> int option \<Rightarrow> gateway_db \<Rightarrow> context_error option" where
  "validate_boundary thread_id covered_until validated_from db =
     (let bounds = coverage_bounds thread_id covered_until validated_from in
      if covered_until > timeline_end thread_id db then Some ContextValidationError
      else if list_ex (\<lambda>r. bounds r \<and> unfinished r) (dispatches db) then Some ContextValidationError
      else
        (case validate_envelopes (covered_payloads bounds db) of
           Inl e \<Rightarrow> Some e
         | Inr envelopes \<Rightarrow>
             (let refs = artifact_references envelopes;
                  ids = sort (remdups (map fst refs)) in
              if list_all (list_all (reference_resolved refs db)) (lookup_batches ARTIFACT_LOOKUP_BATCH_SIZE ids) then None
              else Some ContextValidationError)))"

text \<open>
  The thread row is locked first, so other sessions commit only before the lock; the commit itself
  may fail, or raise after the server applied it.
\<close>

record context_session =
  xs_now :: instant
  xs_race :: "context_db \<Rightarrow> context_db"
  xs_fate :: commit_fate

definition lock_thread :: "string \<Rightarrow> context_db \<Rightarrow> bool" where
  "lock_thread thread_id db \<longleftrightarrow> rowcount (\<lambda>t. t_id t = thread_id) (ai_threads (xd_gateway db)) = 1"

definition new_snapshot :: "context_session \<Rightarrow> string \<Rightarrow> string \<Rightarrow> int \<Rightarrow> ContextSnapshotRecord option \<Rightarrow> ContextSnapshotRecord" where
  "new_snapshot s thread_id summary covered_until latest =
     \<lparr>sr_thread_id = thread_id, sr_snapshot_version = (case latest of None \<Rightarrow> 1 | Some l \<Rightarrow> sr_snapshot_version l + 1),
      sr_summary = summary, sr_covered_until = covered_until, sr_created_at = xs_now s\<rparr>"

definition commit_snapshot ::
  "context_session \<Rightarrow> ContextSnapshotRecord \<Rightarrow> context_db \<Rightarrow> (context_error + ContextSnapshot) \<times> context_db"
where
  "commit_snapshot s r db =
     (let rows = xd_snapshots db @ [r]; committed = db\<lparr>xd_snapshots := rows\<rparr> in
      if \<not> snapshot_table_ok rows then (Inl ContextStorageError, db)
      else
        (case xs_fate s of
           Commits \<Rightarrow> (Inr (snapshot_of r), committed)
         | CommitFails \<Rightarrow> (Inl ContextStorageError, db)
         | CommitUnknown \<Rightarrow> (Inl ContextStorageError, committed)))"

definition snapshot_create ::
  "context_session \<Rightarrow> string \<Rightarrow> string \<Rightarrow> py_num \<Rightarrow> context_db \<Rightarrow> (context_error + ContextSnapshot) \<times> context_db"
where
  "snapshot_create s thread_id summary covered_until db0 =
     (case context_required_text thread_id of
        Inl e \<Rightarrow> (Inl e, db0)
      | Inr thread \<Rightarrow>
     (case context_required_text summary of
        Inl e \<Rightarrow> (Inl e, db0)
      | Inr text \<Rightarrow>
     (case required_positive_integer covered_until of
        Inl e \<Rightarrow> (Inl e, db0)
      | Inr covered \<Rightarrow>
          (let db = xs_race s db0; latest = latest_record thread db in
           if \<not> lock_thread thread db then (Inl ContextValidationError, db)
           else if latest \<noteq> None \<and> covered < sr_covered_until (the latest) then (Inl ContextValidationError, db)
           else
             (case validate_boundary thread covered (map_option sr_covered_until latest) (xd_gateway db) of
                Some e \<Rightarrow> (Inl e, db)
              | None \<Rightarrow> commit_snapshot s (new_snapshot s thread text covered latest) db)))))"

end
