(* ===== verification/Context_Access.thy ===== *)
theory Context_Access
  imports Context_Store "HOL-Library.Multiset"
begin

text \<open>
  Who may read the context of a thread (\<open>context/policy.py\<close>, \<open>provider.py\<close>, \<open>tool.py\<close>): the access
  policies, the provider that is bound to one identity and one thread, and the tool that Hermes
  invokes through it. Storage and policy are arguments, as in the protocols of the code; the SQL
  storage and the dispatch policy are the ones the gateway composes.
\<close>

section \<open>Policies\<close>

type_synonym context_policy = "string \<Rightarrow> string \<Rightarrow> context_error + bool"

definition is_required_text :: "string \<Rightarrow> bool" where
  "is_required_text value \<longleftrightarrow> py_strip value \<noteq> []"

definition enabled_policy :: context_policy where
  "enabled_policy enterprise_identity_id thread_id = Inr (is_required_text enterprise_identity_id \<and> is_required_text thread_id)"

text \<open>Construction raises \<open>ValueError\<close> for an empty identity or thread.\<close>

definition thread_policy :: "string \<Rightarrow> string \<Rightarrow> bool \<Rightarrow> context_policy option" where
  "thread_policy identity thread allowed =
     (if \<not> is_required_text identity \<or> \<not> is_required_text thread then None
      else Some (\<lambda>enterprise_identity_id thread_id. Inr (allowed \<and> enterprise_identity_id = identity \<and> thread_id = thread)))"

definition dispatch_policy :: "string \<Rightarrow> string \<Rightarrow> bool \<Rightarrow> gateway_db \<Rightarrow> context_policy option" where
  "dispatch_policy identity thread allowed db =
     (if \<not> is_required_text identity \<or> \<not> is_required_text thread then None
      else
        Some (\<lambda>enterprise_identity_id thread_id.
          if \<not> allowed \<or> enterprise_identity_id \<noteq> py_strip identity \<or> thread_id \<noteq> py_strip thread then Inr False
          else Inr (list_ex (\<lambda>r. d_enterprise_identity_id r = py_strip identity \<and> d_ai_thread_id r = py_strip thread
                               \<and> d_status r \<in> {D_RUNNING, D_SUCCESS}) (dispatches db))))"

section \<open>The provider\<close>

text \<open>The protocol \<open>ContextStorage\<close>.\<close>

record context_storage =
  st_read :: "string \<Rightarrow> context_error + ContextEntry list"
  st_read_snapshot :: "string \<Rightarrow> context_error + ContextSnapshot option"
  st_read_timeline :: "string \<Rightarrow> py_num option \<Rightarrow> py_num option \<Rightarrow> context_error + ContextEntry list"
  st_read_recent :: "string \<Rightarrow> py_num \<Rightarrow> context_error + ContextEntry list"
  st_read_range :: "string \<Rightarrow> py_datetime \<Rightarrow> py_datetime \<Rightarrow> context_error + ContextEntry list"
  st_search :: "string \<Rightarrow> string \<Rightarrow> context_error + ContextEntry list"

definition sql_storage :: "context_db \<Rightarrow> context_storage" where
  "sql_storage db =
     \<lparr>st_read = (\<lambda>thread. context_read thread (xd_gateway db)), st_read_snapshot = (\<lambda>thread. read_snapshot thread db),
      st_read_timeline = (\<lambda>thread f t. read_timeline thread f t (xd_gateway db)),
      st_read_recent = (\<lambda>thread n. read_recent thread n (xd_gateway db)),
      st_read_range = (\<lambda>thread f t. read_range thread f t (xd_gateway db)),
      st_search = (\<lambda>thread q. context_search thread q (xd_gateway db))\<rparr>"

record AuthorizedContextProvider =
  pv_storage :: context_storage
  pv_access_policy :: context_policy
  pv_enterprise_identity_id :: string
  pv_thread_id :: string

definition make_provider :: "context_storage \<Rightarrow> context_policy \<Rightarrow> string \<Rightarrow> string \<Rightarrow> context_error + AuthorizedContextProvider" where
  "make_provider storage policy enterprise_identity_id thread_id =
     (case context_required_text enterprise_identity_id of
        Inl e \<Rightarrow> Inl e
      | Inr identity \<Rightarrow>
          map_sum id (\<lambda>thread. \<lparr>pv_storage = storage, pv_access_policy = policy, pv_enterprise_identity_id = identity, pv_thread_id = thread\<rparr>)
            (context_required_text thread_id))"

definition authorize :: "AuthorizedContextProvider \<Rightarrow> string \<Rightarrow> context_error + string" where
  "authorize p thread_id =
     (case context_required_text thread_id of
        Inl e \<Rightarrow> Inl e
      | Inr thread \<Rightarrow>
          if thread \<noteq> pv_thread_id p then Inl (ContextAccessDeniedError thread)
          else if pv_access_policy p (pv_enterprise_identity_id p) thread = Inr True then Inr thread
          else Inl (ContextAccessDeniedError thread))"

definition authorized :: "AuthorizedContextProvider \<Rightarrow> string \<Rightarrow> (string \<Rightarrow> context_error + 'a) \<Rightarrow> context_error + 'a" where
  "authorized p thread_id operation = (case authorize p thread_id of Inl e \<Rightarrow> Inl e | Inr thread \<Rightarrow> operation thread)"

definition provider_read :: "AuthorizedContextProvider \<Rightarrow> string \<Rightarrow> context_error + ContextEntry list" where
  "provider_read p thread_id = authorized p thread_id (st_read (pv_storage p))"

definition provider_read_snapshot :: "AuthorizedContextProvider \<Rightarrow> string \<Rightarrow> context_error + ContextSnapshot option" where
  "provider_read_snapshot p thread_id =
     authorized p thread_id (\<lambda>thread.
       case st_read_snapshot (pv_storage p) thread of
         Inl e \<Rightarrow> Inl e
       | Inr snapshot \<Rightarrow>
           if snapshot \<noteq> None \<and> sn_thread_id (the snapshot) \<noteq> thread then Inl (ContextAccessDeniedError thread) else Inr snapshot)"

definition provider_read_timeline ::
  "AuthorizedContextProvider \<Rightarrow> string \<Rightarrow> py_num option \<Rightarrow> py_num option \<Rightarrow> context_error + ContextEntry list"
where
  "provider_read_timeline p thread_id range_from range_to =
     authorized p thread_id (\<lambda>thread.
       case st_read_timeline (pv_storage p) thread range_from range_to of
         Inl e \<Rightarrow> Inl e
       | Inr entries \<Rightarrow> if list_ex (\<lambda>e. ce_thread_id e \<noteq> thread) entries then Inl (ContextAccessDeniedError thread) else Inr entries)"

definition provider_read_recent :: "AuthorizedContextProvider \<Rightarrow> string \<Rightarrow> py_num \<Rightarrow> context_error + ContextEntry list" where
  "provider_read_recent p thread_id limit = authorized p thread_id (\<lambda>thread. st_read_recent (pv_storage p) thread limit)"

definition provider_read_range ::
  "AuthorizedContextProvider \<Rightarrow> string \<Rightarrow> py_datetime \<Rightarrow> py_datetime \<Rightarrow> context_error + ContextEntry list"
where
  "provider_read_range p thread_id occurred_at_gte occurred_at_lt =
     authorized p thread_id (\<lambda>thread. st_read_range (pv_storage p) thread occurred_at_gte occurred_at_lt)"

definition provider_search :: "AuthorizedContextProvider \<Rightarrow> string \<Rightarrow> string \<Rightarrow> context_error + ContextEntry list" where
  "provider_search p thread_id query = authorized p thread_id (\<lambda>thread. st_search (pv_storage p) thread query)"

text \<open>
  The \<open>ValueError\<close> of the policy is raised before the provider is made. The session sees \<open>granted\<close>
  when the policy reads and \<open>db\<close>, perhaps later, when the storage does.
\<close>

definition create_context_provider :: "gateway_db \<Rightarrow> context_db \<Rightarrow> string \<Rightarrow> string \<Rightarrow> bool \<Rightarrow> context_error + AuthorizedContextProvider" where
  "create_context_provider granted db enterprise_identity_id thread_id allowed =
     (case dispatch_policy enterprise_identity_id thread_id allowed granted of
        None \<Rightarrow> Inl ContextStorageError
      | Some policy \<Rightarrow> make_provider (sql_storage db) policy enterprise_identity_id thread_id)"

section \<open>The tool\<close>

record ContextTimelineMessage =
  tm_role :: string
  tm_kind :: ContextEntryKind
  tm_content :: "string option"
  tm_occurred_at :: instant
  tm_received_at :: instant
  tm_created_at :: instant
  tm_message_id :: int
  tm_response_id :: "string option"
  tm_part_ordinal :: "nat option"
  tm_artifact_id :: "string option"

record ContextTimeline =
  tl_thread_id :: string
  tl_messages :: "ContextTimelineMessage list"

definition DEFAULT_RECENT_CONTEXT_TURNS :: int where "DEFAULT_RECENT_CONTEXT_TURNS = 20"

definition MAX_RECENT_CONTEXT_TURNS :: int where "MAX_RECENT_CONTEXT_TURNS = 100"

definition CONTEXT_READ_TOOL_NAME :: string where "CONTEXT_READ_TOOL_NAME = ''context.read''"

definition CONTEXT_SEARCH_TOOL_NAME :: string where "CONTEXT_SEARCH_TOOL_NAME = ''context.search''"

definition timeline_message :: "ContextEntry \<Rightarrow> ContextTimelineMessage" where
  "timeline_message e =
     \<lparr>tm_role = (if ce_kind e = CTX_MESSAGE then ''user'' else ''assistant''), tm_kind = ce_kind e, tm_content = ce_content e,
      tm_occurred_at = ce_occurred_at e, tm_received_at = ce_received_at e, tm_created_at = ce_created_at e,
      tm_message_id = ce_message_id e, tm_response_id = ce_response_id e, tm_part_ordinal = ce_part_ordinal e,
      tm_artifact_id = ce_artifact_id e\<rparr>"

definition recent_turn_limit :: "py_num \<Rightarrow> context_error + int" where
  "recent_turn_limit value =
     (case value of
        PyInt n \<Rightarrow> if 1 \<le> n \<and> n \<le> MAX_RECENT_CONTEXT_TURNS then Inr n else Inl ContextValidationError
      | _ \<Rightarrow> Inl ContextValidationError)"

text \<open>Any exception of the provider but the two of its own is a denial.\<close>

definition provider_call :: "AuthorizedContextProvider \<Rightarrow> context_error + 'a \<Rightarrow> context_error + 'a" where
  "provider_call p result =
     (case result of Inl ContextStorageError \<Rightarrow> Inl (ContextAccessDeniedError (pv_thread_id p)) | _ \<Rightarrow> result)"

definition tool_timeline :: "AuthorizedContextProvider \<Rightarrow> ContextEntry list \<Rightarrow> context_error + ContextTimeline" where
  "tool_timeline p entries =
     (if list_ex (\<lambda>e. ce_thread_id e \<noteq> pv_thread_id p) entries then Inl (ContextAccessDeniedError (pv_thread_id p))
      else Inr \<lparr>tl_thread_id = pv_thread_id p, tl_messages = map timeline_message entries\<rparr>)"

definition call_timeline ::
  "AuthorizedContextProvider \<Rightarrow> (ContextEntry list \<Rightarrow> ContextEntry list) \<Rightarrow> context_error + ContextEntry list \<Rightarrow> context_error + ContextTimeline"
where
  "call_timeline p f result = (case provider_call p result of Inl e \<Rightarrow> Inl e | Inr entries \<Rightarrow> tool_timeline p (f entries))"

definition read_current_thread :: "AuthorizedContextProvider \<Rightarrow> context_error + ContextTimeline" where
  "read_current_thread p = call_timeline p (\<lambda>entries. entries) (provider_read p (pv_thread_id p))"

text \<open>
  The loop over the entries from the last one: it stops as soon as it has seen \<open>limit\<close> messages.
\<close>

fun select_message_ids :: "nat \<Rightarrow> int list \<Rightarrow> ContextEntry list \<Rightarrow> int list" where
  "select_message_ids limit seen [] = seen"
| "select_message_ids limit seen (e # entries) =
     (let seen' = List.insert (ce_message_id e) seen in
      if length seen' = limit then seen' else select_message_ids limit seen' entries)"

definition latest_entries :: "nat \<Rightarrow> ContextEntry list \<Rightarrow> ContextEntry list" where
  "latest_entries limit entries =
     (let selected = select_message_ids limit [] (rev entries) in filter (\<lambda>e. ce_message_id e \<in> set selected) entries)"

definition read_recent_messages ::
  "AuthorizedContextProvider \<Rightarrow> py_num \<Rightarrow> py_datetime option \<Rightarrow> py_datetime option \<Rightarrow> context_error + ContextTimeline"
where
  "read_recent_messages p limit occurred_at_gte occurred_at_lt =
     (case recent_turn_limit limit of
        Inl e \<Rightarrow> Inl e
      | Inr n \<Rightarrow>
          if (occurred_at_gte = None) \<noteq> (occurred_at_lt = None) then Inl ContextValidationError
          else
            call_timeline p (latest_entries (nat n))
              (case (occurred_at_gte, occurred_at_lt) of
                 (Some gte, Some lt) \<Rightarrow> provider_read_range p (pv_thread_id p) gte lt
               | _ \<Rightarrow> provider_read_recent p (pv_thread_id p) (PyInt n)))"

definition search_thread_context :: "AuthorizedContextProvider \<Rightarrow> string \<Rightarrow> context_error + ContextTimeline" where
  "search_thread_context p query =
     (case context_required_text query of
        Inl e \<Rightarrow> Inl e
      | Inr q \<Rightarrow> call_timeline p (\<lambda>entries. entries) (provider_search p (pv_thread_id p) q))"

definition authorize_invocation :: "AuthorizedContextProvider \<Rightarrow> string \<Rightarrow> string \<Rightarrow> context_error + unit" where
  "authorize_invocation p thread_id identity =
     (case context_required_text thread_id of
        Inl e \<Rightarrow> Inl e
      | Inr thread \<Rightarrow>
     (case context_required_text identity of
        Inl e \<Rightarrow> Inl e
      | Inr i \<Rightarrow>
          if thread \<noteq> pv_thread_id p \<or> i \<noteq> pv_enterprise_identity_id p then Inl (ContextAccessDeniedError thread) else Inr ()))"

definition tool_invoke ::
  "AuthorizedContextProvider \<Rightarrow> string \<Rightarrow> string \<Rightarrow> string \<Rightarrow> string option \<Rightarrow> py_num option \<Rightarrow> py_datetime option \<Rightarrow> py_datetime option
     \<Rightarrow> context_error + ContextTimeline"
where
  "tool_invoke p tool_name thread_id identity query limit occurred_at_gte occurred_at_lt =
     (case authorize_invocation p thread_id identity of
        Inl e \<Rightarrow> Inl e
      | Inr _ \<Rightarrow>
     (case context_required_text tool_name of
        Inl e \<Rightarrow> Inl e
      | Inr name \<Rightarrow>
          if name = CONTEXT_READ_TOOL_NAME then
            if query \<noteq> None then Inl ContextValidationError
            else if limit = None \<and> occurred_at_gte = None \<and> occurred_at_lt = None then read_current_thread p
            else read_recent_messages p (case limit of None \<Rightarrow> PyInt DEFAULT_RECENT_CONTEXT_TURNS | Some n \<Rightarrow> n) occurred_at_gte occurred_at_lt
          else if name = CONTEXT_SEARCH_TOOL_NAME then
            if limit \<noteq> None \<or> occurred_at_gte \<noteq> None \<or> occurred_at_lt \<noteq> None then Inl ContextValidationError
            else (case query of None \<Rightarrow> Inl ContextValidationError | Some q \<Rightarrow> search_thread_context p q)
          else Inl ContextValidationError))"

definition create_context_tool :: "gateway_db \<Rightarrow> context_db \<Rightarrow> string \<Rightarrow> string \<Rightarrow> bool \<Rightarrow> context_error + AuthorizedContextProvider" where
  "create_context_tool granted db enterprise_identity_id thread_id allowed = create_context_provider granted db enterprise_identity_id thread_id allowed"

section \<open>What an invocation returns\<close>

lemma required_text_Inr_iff: "context_required_text v = Inr t \<longleftrightarrow> t = py_strip v \<and> t \<noteq> []"
  by (auto simp: context_required_text_def)

lemma authorize_Inr: "authorize p thread = Inr t \<Longrightarrow> t = pv_thread_id p \<and> pv_access_policy p (pv_enterprise_identity_id p) t = Inr True"
  by (auto simp: authorize_def split: sum.splits if_splits)

lemma call_timeline_Inr:
  assumes "call_timeline p f result = Inr line"
  obtains es where "result = Inr es" "tl_thread_id line = pv_thread_id p" "tl_messages line = map timeline_message (f es)"
    "\<forall>e\<in>set (f es). ce_thread_id e = pv_thread_id p"
  using assms unfolding call_timeline_def provider_call_def tool_timeline_def
  by (auto simp: list_ex_iff split: sum.splits context_error.splits if_splits)

lemma authorized_Inr:
  assumes "authorized p thread operation = Inr x"
  shows "operation (pv_thread_id p) = Inr x \<and> pv_access_policy p (pv_enterprise_identity_id p) (pv_thread_id p) = Inr True"
  using assms authorize_Inr [of p thread] by (auto simp: authorized_def split: sum.splits)

definition confined :: "(string \<Rightarrow> ContextEntry \<Rightarrow> bool) \<Rightarrow> AuthorizedContextProvider \<Rightarrow> ContextTimeline \<Rightarrow> bool" where
  "confined belongs p line \<longleftrightarrow>
     pv_access_policy p (pv_enterprise_identity_id p) (pv_thread_id p) = Inr True \<and> tl_thread_id line = pv_thread_id p
     \<and> (\<forall>m\<in>set (tl_messages line). \<exists>e. m = timeline_message e \<and> belongs (pv_thread_id p) e \<and> ce_thread_id e = pv_thread_id p)"

text \<open>
  The contract of a storage: whatever it returns for a thread belongs to this thread. An invocation
  of the tool then returns only such entries, after the policy has granted the thread.
\<close>

locale context_reader =
  fixes storage :: context_storage and belongs :: "string \<Rightarrow> ContextEntry \<Rightarrow> bool"
  assumes reads: "st_read storage t = Inr es \<Longrightarrow> e \<in> set es \<Longrightarrow> belongs t e"
    and recents: "st_read_recent storage t n = Inr es \<Longrightarrow> e \<in> set es \<Longrightarrow> belongs t e"
    and ranges: "st_read_range storage t gte lt = Inr es \<Longrightarrow> e \<in> set es \<Longrightarrow> belongs t e"
    and searches: "st_search storage t q = Inr es \<Longrightarrow> e \<in> set es \<Longrightarrow> belongs t e"
begin

lemma call_confined:
  assumes "call_timeline p f (authorized p thread operation) = Inr line" "\<And>es. set (f es) \<subseteq> set es"
    and "\<And>es e. operation (pv_thread_id p) = Inr es \<Longrightarrow> e \<in> set es \<Longrightarrow> belongs (pv_thread_id p) e"
  shows "confined belongs p line"
proof -
  obtain es where es: "authorized p thread operation = Inr es" "tl_thread_id line = pv_thread_id p" "tl_messages line = map timeline_message (f es)"
      "\<forall>e\<in>set (f es). ce_thread_id e = pv_thread_id p" by (rule call_timeline_Inr [OF assms(1)])
  with authorized_Inr [OF es(1)] assms(2) [of es] assms(3) [of es] show ?thesis by (fastforce simp: confined_def)
qed

lemma latest_entries_subset: "set (latest_entries n es) \<subseteq> set es"
  by (auto simp: latest_entries_def Let_def)

lemma recent_confined:
  assumes "pv_storage p = storage" "read_recent_messages p limit gte lt = Inr line"
  shows "confined belongs p line"
  using assms unfolding read_recent_messages_def provider_read_range_def provider_read_recent_def
  by (auto split: sum.splits if_splits option.splits intro: call_confined [OF _ latest_entries_subset] ranges recents)

lemma invoke_confined:
  assumes "pv_storage p = storage" "tool_invoke p name thread identity query limit gte lt = Inr line"
  shows "confined belongs p line \<and> py_strip thread = pv_thread_id p \<and> py_strip identity = pv_enterprise_identity_id p"
proof -
  have who: "py_strip thread = pv_thread_id p \<and> py_strip identity = pv_enterprise_identity_id p"
    using assms(2) by (auto simp: tool_invoke_def authorize_invocation_def required_text_Inr_iff split: sum.splits if_splits)
  have cur: "confined belongs p line" if "read_current_thread p = Inr line"
    using that unfolding read_current_thread_def provider_read_def by (rule call_confined) (use assms(1) reads in auto)
  have sea: "confined belongs p line" if "search_thread_context p q = Inr line" for q
    using that assms(1) unfolding search_thread_context_def provider_search_def
    by (auto split: sum.splits intro: call_confined searches)
  from assms(2) cur sea recent_confined [OF assms(1)] show ?thesis using who
    by (auto simp: tool_invoke_def split: sum.splits if_splits option.splits)
qed

end

section \<open>Entries of the SQL storage\<close>

definition entry_of :: "gateway_db \<Rightarrow> string \<Rightarrow> ContextEntry \<Rightarrow> bool" where
  "entry_of g thread e \<longleftrightarrow>
     (\<exists>t\<in>set (joined_turns g). turn_where (py_strip thread) t \<and> (\<exists>es. turn_entries (py_strip thread) g t = Inr es \<and> e \<in> set es))"

lemma collect_entries_mem:
  "collect_entries thread g ts = Inr es \<Longrightarrow> e \<in> set es \<Longrightarrow> \<exists>t\<in>set ts. \<exists>fs. turn_entries thread g t = Inr fs \<and> e \<in> set fs"
proof (induction ts arbitrary: es)
  case (Cons t ts)
  then show ?case by (cases "collect_entries thread g ts") (auto split: sum.splits)
qed simp

lemma part_entries_mem:
  "e \<in> set (part_entries thread r h i g k parts) \<Longrightarrow> ce_message_id e = d_message_id r \<and> ce_thread_id e = thread \<and> ce_kind e \<noteq> CTX_MESSAGE"
proof (induction parts arbitrary: k)
  case (Cons p parts)
  then show ?case by (cases p) (auto simp: assistant_entry_def artifact_entry_def split: if_splits)
qed simp

lemma turn_entries_mem:
  assumes "turn_entries thread g (r, m, h) = Inr es" "e \<in> set es"
  shows "ce_thread_id e = thread \<and> (ce_message_id e = g_id m \<or> ce_message_id e = d_message_id r)
    \<and> (ce_kind e = CTX_MESSAGE \<longrightarrow> ce_content e = Some (g_content m))"
  using assms part_entries_mem
  by (auto simp: turn_entries_def response_entries_def message_entry_def assistant_entry_def
      split: option.splits if_splits sum.splits dest!: part_entries_mem)

lemma joined_turns_mem:
  "(r, m, h) \<in> set (joined_turns g) \<longleftrightarrow>
     r \<in> set (dispatches g) \<and> m \<in> set (messages g) \<and> h \<in> set (dispatch_responses g) \<and> g_id m = d_message_id r \<and> h_dispatch_record_id h = d_id r"
  by (auto simp: joined_turns_def)

lemma entry_of_turns:
  assumes "collect_entries (py_strip thread) g ts = Inr es" "e \<in> set es"
    and "\<And>t. t \<in> set ts \<Longrightarrow> t \<in> set (joined_turns g) \<and> turn_where (py_strip thread) t"
  shows "entry_of g thread e"
  using collect_entries_mem [OF assms(1,2)] assms(3) by (auto simp: entry_of_def)

lemma read_timeline_entry: "read_timeline thread f u g = Inr es \<Longrightarrow> e \<in> set es \<Longrightarrow> entry_of g thread e"
  by (rule entry_of_turns [of thread g "timeline_turns (py_strip thread) (case optional_positive_integer f of Inr x \<Rightarrow> x) (case optional_positive_integer u of Inr x \<Rightarrow> x) g"])
    (auto simp: read_timeline_def required_text_Inr_iff timeline_turns_def split: sum.splits if_splits)

interpretation sql_reader: context_reader "sql_storage db" "entry_of (xd_gateway db)" for db
proof unfold_locales
  fix t es e
  assume "st_read (sql_storage db) t = Inr es" "e \<in> set es"
  then show "entry_of (xd_gateway db) t e" by (simp add: sql_storage_def context_read_def read_timeline_entry)
next
  fix t n es e
  assume "st_read_recent (sql_storage db) t n = Inr es" "e \<in> set es"
  then show "entry_of (xd_gateway db) t e"
    by (auto simp: sql_storage_def read_recent_def required_text_Inr_iff recent_turns_def intro!: entry_of_turns dest!: in_set_takeD split: sum.splits)
next
  fix t gte lt es e
  assume "st_read_range (sql_storage db) t gte lt = Inr es" "e \<in> set es"
  then show "entry_of (xd_gateway db) t e"
    by (auto simp: sql_storage_def read_range_def required_text_Inr_iff range_turns_def intro!: entry_of_turns split: sum.splits if_splits)
next
  fix t q es e
  assume "st_search (sql_storage db) t q = Inr es" "e \<in> set es"
  then show "entry_of (xd_gateway db) t e"
    by (cases "context_read t (xd_gateway db)")
      (auto simp: sql_storage_def context_search_def context_read_def split: sum.splits intro: read_timeline_entry)
qed

end
