(* ===== verification/Context_Machine.thy ===== *)
theory Context_Machine
  imports Context_Access Dispatch_Machine
begin

text \<open>
  Runs of the gateway together with its snapshots. A snapshot is created over a settled prefix: its
  dispatches are final, their results are readable and their artifacts are resolved. Every later
  step of the gateway leaves such a prefix, and the entries read from it, as they are.
\<close>

section \<open>Turns of a prefix\<close>

lemma map_insort_key: "map k (insort_key (\<lambda>x. f (k x)) x xs) = insort_key f (k x) (map k xs)"
  by (induction xs) simp_all

lemma map_sort_key: "map k (sort_key (\<lambda>x. f (k x)) xs) = sort_key f (map k xs)"
  by (induction xs) (simp_all add: map_insort_key)

lemma filter_concat_map: "filter P (concat (map f xs)) = concat (map (\<lambda>x. filter P (f x)) xs)"
  by (induction xs) simp_all

text \<open>What the entries of a turn are made of.\<close>

definition turn_key :: "context_turn \<Rightarrow> int \<times> int \<times> Message \<times> HermesDispatchResponse" where
  "turn_key t = (d_id (fst t), d_message_id (fst t), snd t)"

definition record_turns :: "gateway_db \<Rightarrow> HermesDispatchRecord \<Rightarrow> context_turn list" where
  "record_turns g r =
     concat (map (\<lambda>m. map (\<lambda>h. (r, m, h)) (filter (\<lambda>h. h_dispatch_record_id h = d_id r) (dispatch_responses g)))
       (filter (\<lambda>m. g_id m = d_message_id r) (messages g)))"

lemma joined_turns_records: "joined_turns g = concat (map (record_turns g) (dispatches g))"
  by (simp add: joined_turns_def record_turns_def [abs_def])

lemma record_turns_fst: "t \<in> set (record_turns g r) \<Longrightarrow> fst t = r"
  by (auto simp: record_turns_def)

lemma record_turns_filter:
  "filter P (record_turns g r) = (if Q r then record_turns g r else [])" if "\<And>t. fst t = r \<Longrightarrow> P t \<longleftrightarrow> Q r"
  using that record_turns_fst [of _ g r] by (auto simp: filter_empty_conv intro!: filter_True)

definition in_prefix :: "string \<Rightarrow> int \<Rightarrow> HermesDispatchRecord \<Rightarrow> bool" where
  "in_prefix thread until r \<longleftrightarrow> d_ai_thread_id r = thread \<and> d_id r < until"

lemma prefix_turns:
  "timeline_turns thread None (Some until) g =
     sort_key (\<lambda>t. d_id (fst t))
       (concat (map (\<lambda>r. if in_prefix thread until r \<and> d_status r = D_SUCCESS then record_turns g r else []) (dispatches g)))"
  unfolding timeline_turns_def joined_turns_records filter_concat_map
  by (rule arg_cong [where f = "\<lambda>rs. sort_key _ (concat rs)"], rule map_cong [OF refl], rule record_turns_filter)
    (auto simp: turn_where_def in_range_def in_prefix_def)

lemma record_turns_key:
  "map turn_key (record_turns g r) =
     concat (map (\<lambda>m. map (\<lambda>h. (d_id r, d_message_id r, m, h)) (filter (\<lambda>h. h_dispatch_record_id h = d_id r) (dispatch_responses g)))
       (filter (\<lambda>m. g_id m = d_message_id r) (messages g)))"
  by (simp add: record_turns_def map_concat comp_def turn_key_def)

section \<open>Settled prefixes\<close>

definition response_settled :: "gateway_db \<Rightarrow> HermesDispatchResponse \<Rightarrow> bool" where
  "response_settled g h \<longleftrightarrow>
     (\<forall>p. h_response_payload h = Some p \<longrightarrow>
        (\<exists>e. envelope_validate p = Some e \<and> (\<forall>a\<in>set (envelope_artifact_ids e). artifact_response a g = Some (env_response_id e))))"

definition prefix_settled :: "string \<Rightarrow> int \<Rightarrow> gateway_db \<Rightarrow> bool" where
  "prefix_settled thread until g \<longleftrightarrow>
     until \<le> dispatch_seq g
     \<and> (\<forall>r\<in>set (dispatches g). in_prefix thread until r \<longrightarrow>
          d_status r \<in> {D_SUCCESS, D_DEAD}
          \<and> (d_status r = D_SUCCESS \<longrightarrow> (\<forall>h\<in>set (dispatch_responses g). h_dispatch_record_id h = d_id r \<longrightarrow> response_settled g h)))"

text \<open>
  What the rest of the gateway leaves alone: the message of a dispatch is stored before it and is
  never changed, and an artifact keeps its response.
\<close>

definition history_kept :: "gateway_db \<Rightarrow> gateway_db \<Rightarrow> bool" where
  "history_kept g g' \<longleftrightarrow>
     (\<forall>r\<in>set (dispatches g). filter (\<lambda>m. g_id m = d_message_id r) (messages g') = filter (\<lambda>m. g_id m = d_message_id r) (messages g))
     \<and> (\<forall>a i. artifact_response a g = Some i \<longrightarrow> artifact_response a g' = Some i)"

lemma part_entries_cong:
  "\<forall>a. ArtifactRefPart a \<in> set parts \<longrightarrow> artifact_response a g' = artifact_response a g \<Longrightarrow> d_id r' = d_id r \<Longrightarrow> d_message_id r' = d_message_id r \<Longrightarrow>
   part_entries thread r' h i g' k parts = part_entries thread r h i g k parts"
proof (induction parts arbitrary: k)
  case (Cons p parts)
  then show ?case by (cases p) (simp_all add: assistant_entry_def artifact_entry_def)
qed simp

lemma artifact_ids_parts: "ArtifactRefPart a \<in> set (env_parts e) \<Longrightarrow> a \<in> set (envelope_artifact_ids e)"
  by (force simp: envelope_artifact_ids_def)

lemma settled_turn_entries:
  assumes "turn_key t' = turn_key t" "response_settled g (snd (snd t))" "history_kept g g'"
  shows "turn_entries thread g' t' = turn_entries thread g t" and "\<exists>es. turn_entries thread g t = Inr es"
proof -
  obtain r m h where t: "t = (r, m, h)" by (cases t) auto
  with assms(1) obtain r' where t': "t' = (r', m, h)" "d_id r' = d_id r" "d_message_id r' = d_message_id r"
    by (cases t') (auto simp: turn_key_def)
  have res: "response_entries thread r' h g' = response_entries thread r h g \<and> (\<exists>es. response_entries thread r h g = Inr es)"
  proof (cases "h_response_payload h")
    case None
    with t'(2,3) show ?thesis by (simp add: response_entries_def assistant_entry_def)
  next
    case (Some p)
    with assms(2) t obtain e where e: "envelope_validate p = Some e"
        "\<forall>a\<in>set (envelope_artifact_ids e). artifact_response a g = Some (env_response_id e)" by (auto simp: response_settled_def)
    with assms(3) have "\<forall>a. ArtifactRefPart a \<in> set (env_parts e) \<longrightarrow> artifact_response a g' = artifact_response a g"
      using artifact_ids_parts by (fastforce simp: history_kept_def)
    from part_entries_cong [OF this t'(2,3)] Some e(1) show ?thesis by (simp add: response_entries_def)
  qed
  from res t t' show "turn_entries thread g' t' = turn_entries thread g t" "\<exists>es. turn_entries thread g t = Inr es"
    by (auto simp: turn_entries_def message_entry_def)
qed

lemma settled_collect:
  assumes "map turn_key ts' = map turn_key ts" "\<And>t. t \<in> set ts \<Longrightarrow> response_settled g (snd (snd t))" "history_kept g g'"
  shows "collect_entries thread g' ts' = collect_entries thread g ts \<and> (\<exists>es. collect_entries thread g ts = Inr es)"
  using assms(1,2)
proof (induction ts arbitrary: ts')
  case Nil
  then show ?case by simp
next
  case (Cons t ts)
  then obtain t' rest where ts': "ts' = t' # rest" "turn_key t' = turn_key t" "map turn_key rest = map turn_key ts" by (cases ts') auto
  have "response_settled g (snd (snd t))" by (rule Cons.prems(2)) simp
  from settled_turn_entries [OF ts'(2) this assms(3), where thread = thread] obtain es where
    "turn_entries thread g' t' = Inr es" "turn_entries thread g t = Inr es" by metis
  moreover have "collect_entries thread g' rest = collect_entries thread g ts \<and> (\<exists>es. collect_entries thread g ts = Inr es)"
    by (rule Cons.IH [OF ts'(3)]) (rule Cons.prems(2), simp)
  ultimately show ?case by (auto simp: ts'(1))
qed

section \<open>A step of the gateway keeps a settled prefix\<close>

text \<open>What a step of the queue does to a prefix below the next id.\<close>

lemma step_prefix:
  assumes eff: "step_effect m n g g'" and inv: "dispatch_inv g" and settled: "prefix_settled thread until g"
  obtains F rest where "dispatches g' = map F (dispatches g) @ rest"
    and "\<And>r. r \<in> set rest \<Longrightarrow> until \<le> d_id r"
    and "\<And>r. r \<in> set (dispatches g) \<Longrightarrow> ident (F r) = ident r"
    and "\<And>r. r \<in> set (dispatches g) \<Longrightarrow> in_prefix thread until r \<Longrightarrow> d_status (F r) = d_status r"
    and "\<And>r. r \<in> set (dispatches g) \<Longrightarrow> in_prefix thread until r \<Longrightarrow>
      filter (\<lambda>h. h_dispatch_record_id h = d_id r) (dispatch_responses g') = filter (\<lambda>h. h_dispatch_record_id h = d_id r) (dispatch_responses g)"
    and "until \<le> dispatch_seq g'"
proof -
  have final: "d_status r \<in> {D_SUCCESS, D_DEAD}" if "r \<in> set (dispatches g)" "in_prefix thread until r" for r
    using settled that by (simp add: prefix_settled_def)
  have seq: "until \<le> dispatch_seq g" using settled by (simp add: prefix_settled_def)
  have stay: "d_status (f r) = d_status r" if "lifecycle n (dispatches g) r (f r)" "r \<in> set (dispatches g)" "in_prefix thread until r" for f r
    using lifecycle_terminal [OF that(1) final [OF that(2,3)]] by (simp add: control_def)
  from eff show ?thesis
  proof (cases rule: step_effect.cases)
    case (evolved p f)
    let ?F = "\<lambda>r. if p r then f r else r"
    have resp: "filter (\<lambda>h. h_dispatch_record_id h = d_id r) (dispatch_responses g') = filter (\<lambda>h. h_dispatch_record_id h = d_id r) (dispatch_responses g)"
      if r: "r \<in> set (dispatches g)" "in_prefix thread until r" for r
      using evolved(4)
    proof
      assume "\<exists>h q. dispatch_responses g' = dispatch_responses g @ [h] \<and> q \<in> set (dispatches g) \<and> p q
         \<and> d_id q = h_dispatch_record_id h \<and> d_status (f q) = D_SUCCESS \<and> d_status q = D_RUNNING"
      then obtain h q where h: "dispatch_responses g' = dispatch_responses g @ [h]" "q \<in> set (dispatches g)" "d_id q = h_dispatch_record_id h"
        "d_status q = D_RUNNING" by blast
      have "d_id q \<noteq> d_id r"
        using distinct_key_eq [OF dispatch_table_okD(2) [OF dispatch_invD(1) [OF inv]] h(2) r(1)] h(4) final [OF r] by auto
      with h(1,3) show ?thesis by auto
    qed simp
    show ?thesis
    proof (rule that [of ?F "[]"])
      show "ident (?F r) = ident r" if "r \<in> set (dispatches g)" for r using evolved(2) [OF that] lifecycle_ident by auto
      show "d_status (?F r) = d_status r" if "r \<in> set (dispatches g)" "in_prefix thread until r" for r
        using evolved(2) [OF that(1)] stay [of r f] that by auto
    qed (use evolved seq resp in \<open>auto simp: update_where_def\<close>)
  next
    case (resolved i ck a x q)
    let ?F = "\<lambda>r. if recovery_where i r then recovery_values ck a (action_after a) r else r"
    show ?thesis
    proof (rule that [of ?F "[]"])
      show "d_status (?F r) = d_status r" if "r \<in> set (dispatches g)" "in_prefix thread until r" for r
        using final [OF that] by (auto simp: recovery_where_def)
    qed (use resolved seq in \<open>auto simp: update_where_def\<close>)
  next
    case (arrived row)
    show ?thesis by (rule that [of "\<lambda>r. r" "[row]"]) (use arrived seq in auto)
  qed
qed

lemma prefix_kept:
  assumes "gateway_step m n g g'" "machine_inv n g" "history_kept g g'" and settled: "prefix_settled thread until g"
  shows "prefix_settled thread until g'"
    and "collect_entries thread' g' (timeline_turns thread None (Some until) g') = collect_entries thread' g (timeline_turns thread None (Some until) g)"
    and "\<exists>es. collect_entries thread' g (timeline_turns thread None (Some until) g) = Inr es"
proof -
  note inv = machine_invD(1,2) [OF assms(2)]
  obtain F rest where F: "dispatches g' = map F (dispatches g) @ rest" "\<And>r. r \<in> set rest \<Longrightarrow> until \<le> d_id r"
    "\<And>r. r \<in> set (dispatches g) \<Longrightarrow> ident (F r) = ident r"
    "\<And>r. r \<in> set (dispatches g) \<Longrightarrow> in_prefix thread until r \<Longrightarrow> d_status (F r) = d_status r"
    "\<And>r. r \<in> set (dispatches g) \<Longrightarrow> in_prefix thread until r \<Longrightarrow>
      filter (\<lambda>h. h_dispatch_record_id h = d_id r) (dispatch_responses g') = filter (\<lambda>h. h_dispatch_record_id h = d_id r) (dispatch_responses g)"
    "until \<le> dispatch_seq g'"
    using step_prefix [OF gateway_step_effect [OF assms(1) inv, THEN conjunct1] inv(1) settled] by blast
  have same: "d_id (F r) = d_id r" "d_message_id (F r) = d_message_id r" "in_prefix thread until (F r) = in_prefix thread until r"
    if "r \<in> set (dispatches g)" for r
    using ident_sel [OF F(3) [OF that]] by (simp_all add: in_prefix_def)
  have kept: "response_settled g h \<Longrightarrow> response_settled g' h" for h
    using assms(3) by (auto simp: response_settled_def history_kept_def)
  show "prefix_settled thread until g'"
    unfolding prefix_settled_def
  proof (intro conjI ballI impI)
    fix q assume q: "q \<in> set (dispatches g')" "in_prefix thread until q"
    then have "q \<notin> set rest" using F(2) [of q] by (auto simp: in_prefix_def)
    with q(1) F(1) obtain r where r: "r \<in> set (dispatches g)" "q = F r" by auto
    with q(2) same(3) [OF r(1)] have p: "in_prefix thread until r" by simp
    show "d_status q \<in> {D_SUCCESS, D_DEAD}" using settled r p F(4) [OF r(1) p] by (simp add: prefix_settled_def)
    fix h assume h: "d_status q = D_SUCCESS" "h \<in> set (dispatch_responses g')" "h_dispatch_record_id h = d_id q"
    have "h \<in> set (filter (\<lambda>h. h_dispatch_record_id h = d_id r) (dispatch_responses g'))" using h(2,3) r(2) same(1) [OF r(1)] by simp
    then have "h \<in> set (dispatch_responses g)" unfolding F(5) [OF r(1) p] by simp
    with h settled r p F(4) [OF r(1) p] same(1) [OF r(1)] show "response_settled g' h" by (auto simp: prefix_settled_def intro: kept)
  qed (rule F(6))
  let ?sel = "\<lambda>r. in_prefix thread until r \<and> d_status r = D_SUCCESS"
  have block: "map turn_key (if ?sel (F r) then record_turns g' (F r) else []) = map turn_key (if ?sel r then record_turns g r else [])"
    if r: "r \<in> set (dispatches g)" for r
  proof (cases "in_prefix thread until r")
    case True
    have "filter (\<lambda>m. g_id m = d_message_id r) (messages g') = filter (\<lambda>m. g_id m = d_message_id r) (messages g)"
      using assms(3) r by (simp add: history_kept_def)
    with True F(4,5) [OF r True] same [OF r] show ?thesis by (simp add: record_turns_key)
  qed (simp add: same(3) [OF r])
  have none: "concat (map (\<lambda>r. if ?sel r then record_turns g' r else []) rest) = []"
    using F(2) by (force simp: in_prefix_def)
  have "map turn_key (concat (map (\<lambda>r. if ?sel r then record_turns g' r else []) (dispatches g')))
      = map turn_key (concat (map (\<lambda>r. if ?sel r then record_turns g r else []) (dispatches g)))"
    unfolding F(1) map_append concat_append none append_Nil2 map_concat map_map
    by (rule arg_cong [where f = concat], rule map_cong [OF refl]) (use block in \<open>simp add: comp_def\<close>)
  then have keys: "map turn_key (timeline_turns thread None (Some until) g') = map turn_key (timeline_turns thread None (Some until) g)"
    unfolding prefix_turns
    using map_sort_key [of turn_key fst] by (simp add: turn_key_def [abs_def] map_sort_key)
  have set: "response_settled g (snd (snd t))" if t: "t \<in> set (timeline_turns thread None (Some until) g)" for t
  proof -
    from t obtain r where r: "r \<in> set (dispatches g)" "?sel r" "t \<in> set (record_turns g r)"
      unfolding prefix_turns by (auto split: if_splits)
    then have "snd (snd t) \<in> set (dispatch_responses g)" "h_dispatch_record_id (snd (snd t)) = d_id r" by (auto simp: record_turns_def)
    with settled r show ?thesis by (simp add: prefix_settled_def)
  qed
  from settled_collect [OF keys set assms(3), where thread = thread']
  show "collect_entries thread' g' (timeline_turns thread None (Some until) g') = collect_entries thread' g (timeline_turns thread None (Some until) g)"
    and "\<exists>es. collect_entries thread' g (timeline_turns thread None (Some until) g) = Inr es" by auto
qed

section \<open>Boundaries\<close>

lemma concat_lookup_batches: "n > 0 \<Longrightarrow> concat (lookup_batches n ids) = ids"
proof (induction n ids rule: lookup_batches.induct)
  case (1 n ids)
  then show ?case by (simp add: lookup_batches.simps [of n ids])
qed

lemma list_all_batches: "n > 0 \<Longrightarrow> list_all (list_all P) (lookup_batches n ids) \<longleftrightarrow> list_all P ids"
  using arg_cong [OF concat_lookup_batches, of n "list_all P" ids] by (auto simp: list_all_iff)

lemma validate_envelopes_Inr:
  "validate_envelopes ps = Inr es \<Longrightarrow> p \<in> set ps \<Longrightarrow> \<exists>e\<in>set es. envelope_validate p = Some e"
  by (induction ps arbitrary: es) (auto split: option.splits sum.splits simp: map_sum_def)

lemma timeline_end_bound:
  assumes "dispatch_inv g" "1 \<le> dispatch_seq g"
  shows "timeline_end thread g \<le> dispatch_seq g"
proof (cases "filter (\<lambda>r. d_ai_thread_id r = thread) (dispatches g) = []")
  case False
  let ?ids = "set (map d_id (filter (\<lambda>r. d_ai_thread_id r = thread) (dispatches g)))"
  have "Max ?ids \<in> ?ids" by (rule Max_in) (use False in \<open>auto simp: filter_empty_conv\<close>)
  then have "Max ?ids < dispatch_seq g" using dispatch_invD(2) [OF assms(1)] by auto
  with False show ?thesis by (simp add: timeline_end_def Let_def)
qed (use assms(2) in \<open>simp add: timeline_end_def\<close>)

text \<open>A boundary that validates extends the settled prefix of the latest snapshot.\<close>

lemma boundary_settled:
  assumes ok: "validate_boundary thread until validated g = None" and inv: "dispatch_inv g" "1 \<le> dispatch_seq g"
    and old: "\<And>i. validated = Some i \<Longrightarrow> prefix_settled thread i g"
  shows "prefix_settled thread until g"
proof -
  let ?b = "coverage_bounds thread until validated"
  from ok obtain envelopes where b: "until \<le> timeline_end thread g" "\<not> list_ex (\<lambda>r. ?b r \<and> unfinished r) (dispatches g)"
    and env: "validate_envelopes (covered_payloads ?b g) = Inr envelopes"
    and res: "list_all (reference_resolved (artifact_references envelopes) g) (sort (remdups (map fst (artifact_references envelopes))))"
    unfolding validate_boundary_def Let_def
    by (auto simp: list_all_batches [of ARTIFACT_LOOKUP_BATCH_SIZE, unfolded ARTIFACT_LOOKUP_BATCH_SIZE_def] ARTIFACT_LOOKUP_BATCH_SIZE_def
        split: if_splits sum.splits)
  have settled: "response_settled g h"
    if h: "h \<in> set (dispatch_responses g)" "r \<in> set (dispatches g)" "h_dispatch_record_id h = d_id r" "?b r" "d_status r = D_SUCCESS" for h r
    unfolding response_settled_def
  proof (intro allI impI)
    fix p assume p: "h_response_payload h = Some p"
    have "p \<in> set (covered_payloads ?b g)"
      unfolding covered_payloads_def map_filter_def set_map set_filter list_ex_iff using h p by (auto simp: image_iff intro!: exI [of _ h])
    from validate_envelopes_Inr [OF env this] obtain e where e: "e \<in> set envelopes" "envelope_validate p = Some e" by blast
    have "artifact_response a g = Some (env_response_id e)" if a: "a \<in> set (envelope_artifact_ids e)" for a
    proof -
      from e(1) a have ref: "(a, env_response_id e) \<in> set (artifact_references envelopes)" by (force simp: artifact_references_def)
      then have "a \<in> set (sort (remdups (map fst (artifact_references envelopes))))" by force
      with res have "reference_resolved (artifact_references envelopes) g a" by (auto simp: list_all_iff)
      with ref show ?thesis by (auto simp: reference_resolved_def list_all_iff split: option.splits)
    qed
    with e(2) show "\<exists>e. envelope_validate p = Some e \<and> (\<forall>a\<in>set (envelope_artifact_ids e). artifact_response a g = Some (env_response_id e))"
      by blast
  qed
  show ?thesis
    unfolding prefix_settled_def
  proof (intro conjI ballI impI)
    show "until \<le> dispatch_seq g" using b(1) timeline_end_bound [OF inv, of thread] by simp
    fix r assume r: "r \<in> set (dispatches g)" "in_prefix thread until r"
    have cases: "?b r \<or> (\<exists>i. validated = Some i \<and> in_prefix thread i r)"
      using r(2) by (cases validated) (auto simp: coverage_bounds_def in_prefix_def)
    then show "d_status r \<in> {D_SUCCESS, D_DEAD}"
    proof
      assume "?b r"
      with b(2) r(1) show ?thesis by (cases "d_status r") (auto simp: list_ex_iff unfinished_def)
    qed (use old r(1) in \<open>auto simp: prefix_settled_def\<close>)
    fix h assume "d_status r = D_SUCCESS" "h \<in> set (dispatch_responses g)" "h_dispatch_record_id h = d_id r"
    with cases settled r(1) old show "response_settled g h" by (auto simp: prefix_settled_def)
  qed
qed

section \<open>Runs with snapshots\<close>

inductive context_step :: "bool \<Rightarrow> int \<Rightarrow> context_db \<Rightarrow> context_db \<Rightarrow> bool"
  for m n
where
  gateway: "gateway_step m n (xd_gateway db) g \<Longrightarrow> history_kept (xd_gateway db) g \<Longrightarrow> context_step m n db (db\<lparr>xd_gateway := g\<rparr>)"
| snapshot: "snapshot_create s thread summary until db = (res, db') \<Longrightarrow> xs_race s = (\<lambda>u. u) \<Longrightarrow> context_step m n db db'"

inductive_cases context_step_elim: "context_step m n db db'"

definition empty_context :: context_db where
  "empty_context = \<lparr>xd_gateway = empty_db, xd_snapshots = []\<rparr>"

definition thread_snapshots :: "string \<Rightarrow> context_db \<Rightarrow> ContextSnapshotRecord list" where
  "thread_snapshots thread db = filter (\<lambda>r. sr_thread_id r = thread) (xd_snapshots db)"

text \<open>The snapshots of a thread are numbered from one, and each covers at least what the one before covers.\<close>

definition snapshots_ordered :: "ContextSnapshotRecord list \<Rightarrow> bool" where
  "snapshots_ordered rows \<longleftrightarrow> map sr_snapshot_version rows = map int [1..<Suc (length rows)] \<and> sorted (map sr_covered_until rows)"

definition context_inv :: "int \<Rightarrow> context_db \<Rightarrow> bool" where
  "context_inv n db \<longleftrightarrow>
     machine_inv n (xd_gateway db) \<and> 1 \<le> dispatch_seq (xd_gateway db)
     \<and> (\<forall>r\<in>set (xd_snapshots db). prefix_settled (sr_thread_id r) (sr_covered_until r) (xd_gateway db))
     \<and> (\<forall>thread. snapshots_ordered (thread_snapshots thread db))"

lemma ordered_last:
  assumes "snapshots_ordered rows" "r \<in> set rows" "\<And>q. q \<in> set rows \<Longrightarrow> sr_snapshot_version q \<le> sr_snapshot_version r"
  shows "sr_snapshot_version r = int (length rows) \<and> (\<forall>q\<in>set rows. sr_covered_until q \<le> sr_covered_until r)"
proof -
  have version: "sr_snapshot_version (rows ! i) = int (Suc i)" if "i < length rows" for i
  proof -
    have "map sr_snapshot_version rows ! i = map int [1..<Suc (length rows)] ! i" using assms(1) by (simp add: snapshots_ordered_def)
    with that show ?thesis by (simp del: upt_Suc)
  qed
  have ne: "rows \<noteq> []" using assms(2) by auto
  obtain i where i: "i < length rows" "r = rows ! i" using assms(2) by (metis in_set_conv_nth)
  have "sr_snapshot_version (rows ! (length rows - 1)) \<le> sr_snapshot_version r" by (rule assms(3)) (use ne in simp)
  with version [OF i(1)] version [of "length rows - 1"] i ne have last: "i = length rows - 1" by simp
  have "sr_covered_until q \<le> sr_covered_until r" if "q \<in> set rows" for q
  proof -
    from that obtain j where j: "j < length rows" "q = rows ! j" by (metis in_set_conv_nth)
    with assms(1) last i show ?thesis using sorted_nth_mono [of "map sr_covered_until rows" j i] by (simp add: snapshots_ordered_def)
  qed
  with version [OF i(1)] i(2) last ne show ?thesis by simp
qed

lemma latest_ordered:
  assumes "snapshots_ordered (thread_snapshots thread db)" "latest_record thread db = Some l"
  shows "l \<in> set (thread_snapshots thread db)" "sr_snapshot_version l = int (length (thread_snapshots thread db))"
    "\<forall>q\<in>set (thread_snapshots thread db). sr_covered_until q \<le> sr_covered_until l"
  using select_min_Some [OF assms(2) [unfolded latest_record_def]] ordered_last [OF assms(1), of l] by (auto simp: thread_snapshots_def)

lemma ordered_snoc:
  assumes "snapshots_ordered rows" "sr_snapshot_version r = int (length rows) + 1" "\<forall>q\<in>set rows. sr_covered_until q \<le> sr_covered_until r"
  shows "snapshots_ordered (rows @ [r])"
  using assms by (simp add: snapshots_ordered_def sorted_append)

lemma snapshot_create_cases:
  assumes "snapshot_create s thread summary until db0 = (res, db')"
  obtains e where "res = Inl e" "db' = db0 \<or> db' = xs_race s db0"
  | t body c r where "context_required_text thread = Inr t" "context_required_text summary = Inr body" "required_positive_integer until = Inr c"
      "validate_boundary t c (map_option sr_covered_until (latest_record t (xs_race s db0))) (xd_gateway (xs_race s db0)) = None"
      "r = new_snapshot s t body c (latest_record t (xs_race s db0))"
      "\<And>l. latest_record t (xs_race s db0) = Some l \<Longrightarrow> sr_covered_until l \<le> c"
      "db' = (xs_race s db0)\<lparr>xd_snapshots := xd_snapshots (xs_race s db0) @ [r]\<rparr>"
      "res = Inr (snapshot_of r) \<or> (\<exists>e. res = Inl e)"
proof -
  let ?u = "xs_race s db0"
  let ?go = "\<lambda>t body c. context_required_text thread = Inr t \<and> context_required_text summary = Inr body \<and> required_positive_integer until = Inr c
    \<and> lock_thread t ?u \<and> \<not> (latest_record t ?u \<noteq> None \<and> c < sr_covered_until (the (latest_record t ?u)))
    \<and> validate_boundary t c (map_option sr_covered_until (latest_record t ?u)) (xd_gateway ?u) = None"
  show thesis
  proof (cases "\<exists>t body c. ?go t body c")
    case True
    then obtain t body c where go: "?go t body c" by blast
    let ?r = "new_snapshot s t body c (latest_record t ?u)"
    have run: "commit_snapshot s ?r ?u = (res, db')" using assms go by (cases "latest_record t ?u") (simp_all add: snapshot_create_def Let_def)
    show thesis
    proof (cases "db' = ?u")
      case True
      with run have "\<exists>e. res = Inl e" by (auto simp: commit_snapshot_def Let_def split: if_splits commit_fate.splits dest!: arg_cong [where f = xd_snapshots])
      with True that(1) show thesis by blast
    next
      case False
      with run have "db' = ?u\<lparr>xd_snapshots := xd_snapshots ?u @ [?r]\<rparr>" "res = Inr (snapshot_of ?r) \<or> (\<exists>e. res = Inl e)"
        by (auto simp: commit_snapshot_def Let_def split: if_splits commit_fate.splits)
      with go show thesis by (intro that(2) [of t body c ?r]) auto
    qed
  next
    case False
    with assms have "(\<exists>e. res = Inl e) \<and> (db' = db0 \<or> db' = ?u)"
      by (auto simp: snapshot_create_def Let_def split: sum.splits if_splits option.splits)
    with that(1) show thesis by blast
  qed
qed

lemma snapshot_created_inv:
  assumes inv: "context_inv n u" and v: "validate_boundary t c (map_option sr_covered_until (latest_record t u)) (xd_gateway u) = None"
    and c: "\<And>l. latest_record t u = Some l \<Longrightarrow> sr_covered_until l \<le> c"
  shows "context_inv n (u\<lparr>xd_snapshots := xd_snapshots u @ [new_snapshot s t body c (latest_record t u)]\<rparr>)"
proof -
  let ?r = "new_snapshot s t body c (latest_record t u)"
  have ordered: "snapshots_ordered (thread_snapshots t u)" and mach: "dispatch_inv (xd_gateway u)" "1 \<le> dispatch_seq (xd_gateway u)"
    using inv machine_invD(1) by (auto simp: context_inv_def)
  have old: "prefix_settled t (sr_covered_until l) (xd_gateway u)" if "latest_record t u = Some l" for l
    using latest_ordered(1) [OF ordered that] inv by (auto simp: context_inv_def thread_snapshots_def)
  have "prefix_settled t c (xd_gateway u)"
    by (rule boundary_settled [OF v mach]) (use old in auto)
  moreover have "snapshots_ordered (thread_snapshots t u @ [?r])"
  proof (cases "latest_record t u")
    case None
    then have "thread_snapshots t u = []" by (simp add: latest_record_def thread_snapshots_def select_min_None)
    with None show ?thesis by (simp add: snapshots_ordered_def new_snapshot_def)
  next
    case (Some l)
    from latest_ordered [OF ordered Some] c [OF Some] Some show ?thesis
      by (intro ordered_snoc [OF ordered]) (auto simp: new_snapshot_def intro: order_trans)
  qed
  ultimately show ?thesis using inv by (auto simp: context_inv_def thread_snapshots_def new_snapshot_def)
qed

lemma snapshot_step_inv:
  assumes "snapshot_create s thread summary until db = (res, db')" "context_inv n (xs_race s db)" "context_inv n db"
  shows "context_inv n db'"
  using assms(1)
proof (cases rule: snapshot_create_cases)
  case (1 e)
  with assms(2,3) show ?thesis by auto
next
  case (2 t body c r)
  with snapshot_created_inv [OF assms(2), of t c s body] show ?thesis by simp
qed

lemma gateway_seq_mono: "gateway_step m n g g' \<Longrightarrow> machine_inv n g \<Longrightarrow> dispatch_seq g \<le> dispatch_seq g'"
  using gateway_step_effect [of m n g g'] machine_invD(1,2) [of n g] by (auto elim: step_effect.cases)

lemma context_step_inv:
  assumes "context_step m n db db'" "context_inv n db" "0 \<le> n"
  shows "context_inv n db'"
  using assms(1)
proof (cases rule: context_step.cases)
  case (gateway g)
  note inv = assms(2) [unfolded context_inv_def]
  have "machine_inv n g" using machine_inv_step [OF gateway(2)] inv assms(3) by blast
  with inv gateway gateway_seq_mono [OF gateway(2)] prefix_kept(1) [OF gateway(2) _ gateway(3)] show ?thesis
    by (auto simp: context_inv_def thread_snapshots_def intro: order_trans)
next
  case (snapshot s thread summary until res)
  with snapshot_step_inv [OF snapshot(1), of n] assms(2) show ?thesis by simp
qed

lemma context_run_inv:
  assumes "(context_step m n)\<^sup>*\<^sup>* db db'" "context_inv n db" "0 \<le> n"
  shows "context_inv n db'"
  using assms(1) by (induction rule: rtranclp_induct) (use assms(2,3) context_step_inv in blast)+

text \<open>The entries below a covered boundary.\<close>

definition prefix_entries :: "string \<Rightarrow> int \<Rightarrow> context_db \<Rightarrow> context_error + ContextEntry list" where
  "prefix_entries thread until db = collect_entries thread (xd_gateway db) (timeline_turns thread None (Some until) (xd_gateway db))"

lemma context_run_prefix:
  assumes "(context_step m n)\<^sup>*\<^sup>* db db'" "context_inv n db" "0 \<le> n" "prefix_settled thread until (xd_gateway db)"
  shows "prefix_settled thread until (xd_gateway db') \<and> prefix_entries thread until db' = prefix_entries thread until db"
  using assms(1)
proof (induction rule: rtranclp_induct)
  case base
  show ?case using assms(4) by simp
next
  case (step x y)
  have inv: "context_inv n x" by (rule context_run_inv [OF step(1) assms(2,3)])
  from step(2) show ?case
  proof (cases rule: context_step.cases)
    case (gateway g)
    have mi: "machine_inv n (xd_gateway x)" using inv by (simp add: context_inv_def)
    from prefix_kept [OF gateway(2) mi gateway(3), where thread = thread and until = until] step.IH gateway(1) show ?thesis by (simp add: prefix_entries_def)
  next
    case (snapshot s t summary u res)
    from snapshot(1) have "xd_gateway y = xd_gateway x" by (cases rule: snapshot_create_cases) (auto simp: snapshot(2))
    with step.IH show ?thesis by (simp add: prefix_entries_def)
  qed
qed

lemma settled_readable: "prefix_settled thread until (xd_gateway db) \<Longrightarrow> \<exists>es. prefix_entries thread until db = Inr es"
proof -
  assume settled: "prefix_settled thread until (xd_gateway db)"
  let ?g = "xd_gateway db"
  have "response_settled ?g (snd (snd t))" if t: "t \<in> set (timeline_turns thread None (Some until) ?g)" for t
  proof -
    from t obtain r where r: "r \<in> set (dispatches ?g)" "in_prefix thread until r" "d_status r = D_SUCCESS" "t \<in> set (record_turns ?g r)"
      unfolding prefix_turns by (auto split: if_splits)
    then have "snd (snd t) \<in> set (dispatch_responses ?g)" "h_dispatch_record_id (snd (snd t)) = d_id r" by (auto simp: record_turns_def)
    with settled r show ?thesis by (simp add: prefix_settled_def)
  qed
  from settled_collect [OF refl this, where g' = ?g] show ?thesis unfolding prefix_entries_def by (simp add: history_kept_def)
qed

end
