(* ===== verification/Context_Properties.thy ===== *)
theory Context_Properties
  imports Context_Machine Sample_Runs
begin

text \<open>
  The promises of the conversation context: a snapshot covers a history that never changes, the tool
  shows a granted thread and nothing else, and recent context is the end of the timeline.
\<close>

section \<open>The most recent turns\<close>

lemma sort_key_uminus:
  fixes f :: "'a \<Rightarrow> int"
  assumes "distinct (map f xs)"
  shows "sort_key (\<lambda>x. - f x) xs = rev (sort_key f xs)"
proof (rule sort_key_inj_key_eq)
  show "inj_on (\<lambda>x. - f x) (set xs)" using assms by (auto simp: distinct_map inj_on_def)
  have "sorted_wrt (\<lambda>x y. f x \<le> f y) (sort_key f xs)" using sorted_sort_key [of f xs] by (simp add: sorted_map)
  then show "sorted (map (\<lambda>x. - f x) (rev (sort_key f xs)))" by (simp add: sorted_map sorted_wrt_rev)
qed simp

lemma distinct_concat_records:
  assumes "distinct (map key xs)" "\<And>x. x \<in> set xs \<Longrightarrow> length (F x) \<le> 1" "\<And>x t. x \<in> set xs \<Longrightarrow> t \<in> set (F x) \<Longrightarrow> k t = key x"
  shows "distinct (map k (concat (map F xs)))"
  using assms
proof (induction xs)
  case (Cons x xs)
  have "F x = [] \<or> (\<exists>t. F x = [t])" using Cons.prems(2) [of x] by (cases "F x"; cases "tl (F x)") auto
  moreover have "k t \<noteq> key x" if "t \<in> set (F y)" "y \<in> set xs" for t y
    using Cons.prems(1) Cons.prems(3) [of y t] that by (auto simp: image_iff)
  moreover have "k t = key x" if "t \<in> set (F x)" for t using Cons.prems(3) that by simp
  ultimately show ?case using Cons.IH Cons.prems by fastforce
qed simp

lemma filter_key_le1: "distinct (map key xs) \<Longrightarrow> length (filter (\<lambda>x. key x = k) xs) \<le> 1"
  using rowcount_le_1 [of key xs "\<lambda>x. key x = k" k] by (simp add: rowcount_def)

text \<open>Under the keys of the tables a dispatch has at most one turn.\<close>

lemma joined_turns_distinct:
  assumes "distinct (map d_id (dispatches g))" "distinct (map g_id (messages g))" "distinct (map h_dispatch_record_id (dispatch_responses g))"
  shows "distinct (map (\<lambda>t. d_id (fst t)) (joined_turns g))"
  unfolding joined_turns_records
proof (rule distinct_concat_records [OF assms(1)])
  fix r :: HermesDispatchRecord
  have m: "length (filter (\<lambda>m. g_id m = d_message_id r) (messages g)) \<le> 1" by (rule filter_key_le1 [OF assms(2)])
  have h: "length (filter (\<lambda>h. h_dispatch_record_id h = d_id r) (dispatch_responses g)) \<le> 1" by (rule filter_key_le1 [OF assms(3)])
  show "length (record_turns g r) \<le> 1"
    using m h by (cases "filter (\<lambda>m. g_id m = d_message_id r) (messages g)") (simp_all add: record_turns_def)
qed (auto dest: record_turns_fst)

lemma recent_turns_suffix:
  assumes "distinct (map d_id (dispatches g))" "distinct (map g_id (messages g))" "distinct (map h_dispatch_record_id (dispatch_responses g))"
  shows "recent_turns thread k g = drop (length (timeline_turns thread None None g) - k) (timeline_turns thread None None g)"
proof -
  have "distinct (map (\<lambda>t. d_id (fst t)) (filter (turn_where thread) (joined_turns g)))"
    using joined_turns_distinct [OF assms] by (rule distinct_map_filter)
  from sort_key_uminus [OF this] show ?thesis
    by (simp add: recent_turns_def timeline_turns_def in_range_def take_rev)
qed

lemma select_message_ids_all:
  "distinct seen \<Longrightarrow> length seen < n \<Longrightarrow> card (set seen \<union> ce_message_id ` set es) \<le> n \<Longrightarrow>
   ce_message_id ` set es \<subseteq> set (select_message_ids n seen es)"
proof (induction es arbitrary: seen)
  case (Cons e es)
  let ?s = "List.insert (ce_message_id e) seen"
  have d: "distinct ?s" using Cons.prems(1) by simp
  have c: "card (set ?s \<union> ce_message_id ` set es) \<le> n" using Cons.prems(3) by simp
  show ?case
  proof (cases "length ?s = n")
    case True
    then have "card (set ?s) = n" using distinct_card [OF d] by simp
    with c have "card (set ?s \<union> ce_message_id ` set es) \<le> card (set ?s)" by simp
    then have "set ?s \<union> ce_message_id ` set es = set ?s" by (intro card_seteq [symmetric]) auto
    with True show ?thesis by auto
  next
    case False
    then have l: "length ?s < n" using Cons.prems(2) by (auto simp: List.insert_def split: if_splits)
    have mono: "set seen \<subseteq> set (select_message_ids n seen xs)" for seen xs
      by (induction xs arbitrary: seen) (fastforce simp: Let_def)+
    from Cons.IH [OF d l c] mono [of ?s es] False show ?thesis by auto
  qed
qed simp

lemma latest_entries_all: "0 < n \<Longrightarrow> card (ce_message_id ` set es) \<le> n \<Longrightarrow> latest_entries n es = es"
  using select_message_ids_all [of "[]" n "rev es"] by (auto simp: latest_entries_def Let_def intro!: filter_True)

lemma turns_message_ids:
  assumes "collect_entries thread g ts = Inr es" "set ts \<subseteq> set (joined_turns g)"
  shows "card (ce_message_id ` set es) \<le> length ts"
proof -
  have "ce_message_id e \<in> (\<lambda>t. d_message_id (fst t)) ` set ts" if "e \<in> set es" for e
  proof -
    from collect_entries_mem [OF assms(1) that] obtain r m h fs where t: "(r, m, h) \<in> set ts" "turn_entries thread g (r, m, h) = Inr fs" "e \<in> set fs"
      by auto
    with turn_entries_mem [OF t(2,3)] assms(2) joined_turns_mem show ?thesis by force
  qed
  then have "card (ce_message_id ` set es) \<le> card ((\<lambda>t. d_message_id (fst t)) ` set ts)" by (intro card_mono) auto
  also have "\<dots> \<le> length ts" using card_image_le [of "set ts"] card_length [of ts] by (meson List.finite_set le_trans)
  finally show ?thesis .
qed

lemma create_tool_Inr:
  assumes "create_context_tool granted db identity thread allowed = Inr p"
  shows "pv_storage p = sql_storage db" "pv_thread_id p = py_strip thread" "pv_enterprise_identity_id p = py_strip identity"
    "pv_access_policy p (py_strip identity) (py_strip thread) = Inr True \<longleftrightarrow>
       allowed \<and> (\<exists>r\<in>set (dispatches granted). d_enterprise_identity_id r = py_strip identity \<and> d_ai_thread_id r = py_strip thread
         \<and> d_status r \<in> {D_RUNNING, D_SUCCESS})"
  using assms unfolding create_context_tool_def create_context_provider_def dispatch_policy_def make_provider_def
  by (auto simp: context_required_text_def is_required_text_def list_ex_iff split: if_splits)

section \<open>Samples\<close>

definition plain_context :: "gateway_db \<Rightarrow> context_db" where
  "plain_context g = \<lparr>xd_gateway = g, xd_snapshots = []\<rparr>"

definition quiet_session :: context_session where
  "quiet_session = \<lparr>xs_now = 9, xs_race = (\<lambda>u. u), xs_fate = Commits\<rparr>"

definition sample_covered :: context_db where
  "sample_covered = snd (snapshot_create quiet_session ''t1'' '' summary '' (PyInt 2) (plain_context sample_done))"

lemma history_kept_same: "messages g' = messages g \<Longrightarrow> artifacts g' = artifacts g \<Longrightarrow> history_kept g g'"
  by (simp add: history_kept_def artifact_response_def)

lemma plain_step:
  assumes "gateway_step m n g g'" "history_kept g g'"
  shows "context_step m n (db\<lparr>xd_gateway := g\<rparr>) (db\<lparr>xd_gateway := g'\<rparr>)"
  using context_step.gateway [of m n "db\<lparr>xd_gateway := g\<rparr>" g'] assms by simp

lemma sample_context_reached: "(context_step True 2)\<^sup>*\<^sup>* empty_context (plain_context sample_done)"
proof -
  let ?u = "snd (dispatch_enqueue id id (sample_clock 1) (sample_admission 7) sample_base)"
  have plain: "context_step True 2 (plain_context g) (plain_context g')" if "gateway_step True 2 g g'" "history_kept g g'" for g g'
    using plain_step [OF that, of "plain_context g"] by (simp add: plain_context_def)
  have none: "dispatches sample_base = []" by (simp add: sample_base_def empty_db_def)
  have one: "gateway_step True 2 sample_base ?u"
    by (rule gateway_step.enqueue [OF surjective_pairing]) (simp add: none)
  have two: "gateway_step True 2 ?u sample_queued"
    unfolding sample_queued_def
  proof (rule gateway_step.enqueue [OF surjective_pairing])
    have "map d_created_at (dispatches ?u) = [1]" by code_simp
    then have "\<forall>t\<in>set (map d_created_at (dispatches ?u)). t \<le> db_now (sample_clock 2)" by (simp only:) (simp add: sample_clock_def)
    then show "\<forall>r\<in>set (dispatches ?u). d_created_at r \<le> db_now (sample_clock 2)" by simp
  qed
  have run: "gateway_step True 2 sample_queued sample_running"
    unfolding sample_running_def by (rule gateway_step.claim [OF surjective_pairing])
  have kept: "messages ?u = messages sample_base" "messages sample_queued = messages sample_base" "messages sample_running = messages sample_base"
    "messages sample_done = messages sample_base" "artifacts ?u = []" "artifacts sample_queued = []" "artifacts sample_running = []"
    "artifacts sample_done = []" "artifacts sample_base = []" by code_simp+
  have base: "history_kept empty_db sample_base" by (simp add: history_kept_def artifact_response_def lookup_by_def empty_db_def)
  have "context_step True 2 empty_context (plain_context sample_base)"
    using plain [OF sample_base_step base] by (simp add: empty_context_def plain_context_def)
  moreover have "context_step True 2 (plain_context sample_base) (plain_context ?u)"
    by (rule plain [OF one history_kept_same]) (simp_all add: kept)
  moreover have "context_step True 2 (plain_context ?u) (plain_context sample_queued)"
    by (rule plain [OF two history_kept_same]) (simp_all add: kept)
  moreover have "context_step True 2 (plain_context sample_queued) (plain_context sample_running)"
    by (rule plain [OF run history_kept_same]) (simp_all add: kept)
  moreover have "context_step True 2 (plain_context sample_running) (plain_context sample_done)"
    by (rule plain [OF sample_done_step history_kept_same]) (simp_all add: kept)
  ultimately show ?thesis by (meson converse_rtranclp_into_rtranclp rtranclp.rtrancl_refl)
qed

section \<open>Snapshots\<close>

lemma context_run_snapshots:
  "(context_step m n)\<^sup>*\<^sup>* db db' \<Longrightarrow> set (xd_snapshots db) \<subseteq> set (xd_snapshots db')"
proof (induction rule: rtranclp_induct)
  case (step x y)
  from step(2) have "set (xd_snapshots x) \<subseteq> set (xd_snapshots y)"
  proof (cases rule: context_step.cases)
    case (snapshot s t summary u res)
    from snapshot(1) show ?thesis by (cases rule: snapshot_create_cases) (auto simp: snapshot(2))
  qed simp
  with step.IH show ?case by blast
qed simp

lemma empty_context_inv: "context_inv n empty_context"
  by (simp add: context_inv_def empty_context_def machine_inv_empty thread_snapshots_def snapshots_ordered_def) (simp add: empty_db_def)

lemma latest_covers:
  assumes "context_inv n db" "r \<in> set (xd_snapshots db)"
  shows "\<exists>l. latest_record (sr_thread_id r) db = Some l \<and> sr_snapshot_version r \<le> sr_snapshot_version l \<and> sr_covered_until r \<le> sr_covered_until l"
proof -
  have r: "r \<in> set (thread_snapshots (sr_thread_id r) db)" using assms(2) by (simp add: thread_snapshots_def)
  then have "latest_record (sr_thread_id r) db \<noteq> None" by (auto simp: latest_record_def thread_snapshots_def select_min_None filter_empty_conv)
  then obtain l where l: "latest_record (sr_thread_id r) db = Some l" by blast
  have "sr_snapshot_version r \<le> sr_snapshot_version l"
    using select_min_Some [OF l [unfolded latest_record_def]] assms(2) by auto
  moreover have "sr_covered_until r \<le> sr_covered_until l"
    using latest_ordered(3) [OF _ l] assms(1) r by (simp add: context_inv_def)
  ultimately show ?thesis using l by blast
qed

lemma read_prefix:
  "py_strip thread = thread \<Longrightarrow> thread \<noteq> [] \<Longrightarrow> 0 < until \<Longrightarrow>
   read_timeline thread None (Some (PyInt until)) (xd_gateway db) = prefix_entries thread until db"
  by (simp add: read_timeline_def prefix_entries_def context_required_text_def optional_positive_integer_def required_positive_integer_def)

lemma snapshot_created:
  assumes "snapshot_create s thread summary until db = (Inr snap, db')"
  obtains r where "r \<in> set (xd_snapshots db')" "snap = snapshot_of r" "py_strip (sr_thread_id r) = sr_thread_id r" "sr_thread_id r \<noteq> []"
    "0 < sr_covered_until r"
proof (rule snapshot_create_cases [OF assms])
  fix t body c r
  assume *: "context_required_text thread = Inr t" "required_positive_integer until = Inr c"
    "r = new_snapshot s t body c (latest_record t (xs_race s db))"
    "db' = (xs_race s db)\<lparr>xd_snapshots := xd_snapshots (xs_race s db) @ [r]\<rparr>"
    "Inr snap = Inr (snapshot_of r) \<or> (\<exists>e. Inr snap = Inl e)"
  have "t \<noteq> []" "py_strip t = t" using *(1) by (auto simp: required_text_Inr_iff)
  moreover have "0 < c" using *(2) by (auto simp: required_positive_integer_def split: py_num.splits if_splits)
  ultimately show thesis using *(3-5) by (intro that [of r]) (auto simp: new_snapshot_def)
qed simp

lemma snapshot_create_gateway:
  "snapshot_create s thread summary until db = (res, db') \<Longrightarrow> xd_gateway db' = xd_gateway db \<or> xd_gateway db' = xd_gateway (xs_race s db)"
  by (erule snapshot_create_cases) auto

text \<open>
  C31. The history a snapshot covers is stable. When the creation of a snapshot succeeds, the
  timeline below its boundary can be read, and after any later steps of the gateway and of other
  snapshots it reads exactly the same. The latest snapshot of the thread is then this one or one
  with a larger version that covers at least as much. Other sessions may commit steps of the same
  kind before the thread is locked.
\<close>

theorem covered_history_is_stable:
  assumes "(context_step m n)\<^sup>*\<^sup>* empty_context db1" "0 \<le> n" "\<And>u. (context_step m n)\<^sup>*\<^sup>* u (xs_race s u)"
    and "snapshot_create s thread summary until db1 = (Inr snap, db2)" "(context_step m n)\<^sup>*\<^sup>* db2 db3"
  shows "\<exists>entries latest.
    read_timeline (sn_thread_id snap) None (Some (PyInt (sn_covered_until snap))) (xd_gateway db2) = Inr entries
    \<and> read_timeline (sn_thread_id snap) None (Some (PyInt (sn_covered_until snap))) (xd_gateway db3) = Inr entries
    \<and> read_snapshot (sn_thread_id snap) db3 = Inr (Some latest)
    \<and> sn_snapshot_version snap \<le> sn_snapshot_version latest \<and> sn_covered_until snap \<le> sn_covered_until latest"
proof -
  have i1: "context_inv n db1" by (rule context_run_inv [OF assms(1) empty_context_inv assms(2)])
  have iu: "context_inv n (xs_race s db1)" by (rule context_run_inv [OF assms(3) i1 assms(2)])
  have i2: "context_inv n db2" by (rule snapshot_step_inv [OF assms(4) iu i1])
  have i3: "context_inv n db3" by (rule context_run_inv [OF assms(5) i2 assms(2)])
  obtain r where r: "r \<in> set (xd_snapshots db2)" "snap = snapshot_of r" "py_strip (sr_thread_id r) = sr_thread_id r"
      "sr_thread_id r \<noteq> []" "0 < sr_covered_until r"
    by (rule snapshot_created [OF assms(4)])
  have settled: "prefix_settled (sr_thread_id r) (sr_covered_until r) (xd_gateway db2)" using i2 r(1) by (simp add: context_inv_def)
  obtain entries where "prefix_entries (sr_thread_id r) (sr_covered_until r) db2 = Inr entries" using settled_readable [OF settled] by blast
  moreover have "prefix_entries (sr_thread_id r) (sr_covered_until r) db3 = prefix_entries (sr_thread_id r) (sr_covered_until r) db2"
    using context_run_prefix [OF assms(5) i2 assms(2) settled] by simp
  moreover obtain l where "latest_record (sr_thread_id r) db3 = Some l" "sr_snapshot_version r \<le> sr_snapshot_version l"
      "sr_covered_until r \<le> sr_covered_until l"
    using latest_covers [OF i3] context_run_snapshots [OF assms(5)] r(1) by blast
  ultimately show ?thesis using read_prefix [OF r(3-5)] r(2-4)
    by (simp add: snapshot_of_def read_snapshot_def context_required_text_def)
qed

theorem covered_history_is_stable_witness:
  "\<exists>snap entries. fst (snapshot_create quiet_session ''t1'' '' summary '' (PyInt 2) (plain_context sample_done)) = Inr snap
     \<and> sn_summary snap = ''summary'' \<and> sn_covered_until snap = 2
     \<and> read_timeline ''t1'' None (Some (PyInt 2)) sample_next = Inr entries \<and> map ce_content entries = [Some ''hello'', Some ''hi'', Some ''there'']"
proof -
  have v: "map_sum (\<lambda>_. ()) (\<lambda>x. (sn_thread_id x, sn_summary x, sn_covered_until x))
      (fst (snapshot_create quiet_session ''t1'' '' summary '' (PyInt 2) (plain_context sample_done))) = Inr (''t1'', ''summary'', 2)"
    by code_simp
  then obtain snap where snap: "fst (snapshot_create quiet_session ''t1'' '' summary '' (PyInt 2) (plain_context sample_done)) = Inr snap"
      "sn_thread_id snap = ''t1''" "sn_summary snap = ''summary''" "sn_covered_until snap = 2"
    by (cases "fst (snapshot_create quiet_session ''t1'' '' summary '' (PyInt 2) (plain_context sample_done))") auto
  then have create: "snapshot_create quiet_session ''t1'' '' summary '' (PyInt 2) (plain_context sample_done) = (Inr snap, sample_covered)"
    by (simp add: sample_covered_def prod_eq_iff)
  have gw: "xd_gateway sample_covered = sample_done"
    using snapshot_create_gateway [OF create] by (simp add: quiet_session_def plain_context_def)
  have "messages sample_next = messages sample_done" "artifacts sample_next = artifacts sample_done" by code_simp+
  then have later: "context_step True 2 sample_covered (sample_covered\<lparr>xd_gateway := sample_next\<rparr>)"
    by (intro context_step.gateway) (auto simp: gw sample_next_step history_kept_same)
  have race: "(context_step True 2)\<^sup>*\<^sup>* u (xs_race quiet_session u)" for u by (simp add: quiet_session_def)
  from covered_history_is_stable [OF sample_context_reached _ race create r_into_rtranclp [of "context_step True 2", OF later]] snap
  obtain entries where e: "read_timeline ''t1'' None (Some (PyInt 2)) sample_done = Inr entries"
      "read_timeline ''t1'' None (Some (PyInt 2)) sample_next = Inr entries" by (auto simp: gw)
  have "map_sum (\<lambda>_. ()) (map ce_content) (read_timeline ''t1'' None (Some (PyInt 2)) sample_done)
      = Inr [Some ''hello'', Some ''hi'', Some ''there'']" by code_simp
  with e snap show ?thesis by auto
qed

section \<open>The tool\<close>



text \<open>
  C33. Recent context is the end of the timeline: asking for the last turns (at most a hundred)
  returns exactly the entries of the last turns of the full timeline, complete and in order, although
  the query reads them backwards and the tool counts messages from the end.
\<close>

theorem recent_context_is_the_end:
  assumes "distinct (map d_id (dispatches (xd_gateway db)))" "distinct (map g_id (messages (xd_gateway db)))"
    and "distinct (map h_dispatch_record_id (dispatch_responses (xd_gateway db)))"
    and "create_context_tool granted db identity thread allowed = Inr p" "read_recent_messages p (PyInt k) None None = Inr line"
  shows "1 \<le> k \<and> k \<le> 100
    \<and> (let turns = timeline_turns (py_strip thread) None None (xd_gateway db) in
       map_sum id (map timeline_message) (collect_entries (py_strip thread) (xd_gateway db) (drop (length turns - nat k) turns)) = Inr (tl_messages line))"
proof -
  note p = create_tool_Inr [OF assms(4)]
  let ?g = "xd_gateway db"
  let ?turns = "timeline_turns (py_strip thread) None None ?g"
  have k: "1 \<le> k" "k \<le> 100" using assms(5)
    by (auto simp: read_recent_messages_def recent_turn_limit_def MAX_RECENT_CONTEXT_TURNS_def split: if_splits)
  then have "call_timeline p (latest_entries (nat k)) (provider_read_recent p (pv_thread_id p) (PyInt k)) = Inr line"
    using assms(5) by (simp add: read_recent_messages_def recent_turn_limit_def MAX_RECENT_CONTEXT_TURNS_def)
  then obtain es where es: "provider_read_recent p (pv_thread_id p) (PyInt k) = Inr es" "tl_messages line = map timeline_message (latest_entries (nat k) es)"
    by (rule call_timeline_Inr)
  from authorized_Inr [OF es(1) [unfolded provider_read_recent_def]] have "read_recent (py_strip thread) (PyInt k) ?g = Inr es"
    by (simp add: p(1,2) sql_storage_def)
  then have c: "collect_entries (py_strip thread) ?g (drop (length ?turns - nat k) ?turns) = Inr es"
    by (auto simp: read_recent_def required_text_Inr_iff required_positive_integer_def recent_turns_suffix [OF assms(1-3)] split: sum.splits if_splits)
  have "set (drop (length ?turns - nat k) ?turns) \<subseteq> set (joined_turns ?g)"
    using set_drop_subset [of "length ?turns - nat k" ?turns] by (auto simp: timeline_turns_def)
  from turns_message_ids [OF c this] have "card (ce_message_id ` set es) \<le> nat k" by simp
  with k have "latest_entries (nat k) es = es" by (intro latest_entries_all) auto
  with k c es(2) show ?thesis by (simp add: Let_def)
qed

theorem recent_context_is_the_end_witness:
  "\<exists>p line. create_context_tool sample_next (plain_context sample_next) ''e1'' ''t1'' True = Inr p
     \<and> read_recent_messages p (PyInt 3) None None = Inr line
     \<and> map tm_role (tl_messages line) = [''user'', ''assistant'', ''assistant'']
     \<and> map_sum id (map timeline_message) (context_read ''t1'' sample_next) = Inr (tl_messages line)"
proof -
  let ?tool = "create_context_tool sample_next (plain_context sample_next) ''e1'' ''t1'' True"
  have strip: "py_strip ''t1'' = ''t1''" by code_simp
  have d: "distinct (map d_id (dispatches (xd_gateway (plain_context sample_next))))" "distinct (map g_id (messages (xd_gateway (plain_context sample_next))))"
    "distinct (map h_dispatch_record_id (dispatch_responses (xd_gateway (plain_context sample_next))))" by code_simp+
  have v: "map_sum (\<lambda>_. ()) (\<lambda>l. map tm_role (tl_messages l))
      (case ?tool of Inl e \<Rightarrow> Inl e | Inr p \<Rightarrow> read_recent_messages p (PyInt 3) None None) = Inr [''user'', ''assistant'', ''assistant'']"
    by code_simp
  then obtain p where p: "?tool = Inr p" by (cases ?tool) auto
  with v obtain line where l: "read_recent_messages p (PyInt 3) None None = Inr line" "map tm_role (tl_messages line) = [''user'', ''assistant'', ''assistant'']"
    by (cases "read_recent_messages p (PyInt 3) None None") auto
  have n: "length (timeline_turns ''t1'' None None sample_next) = 1" by code_simp
  have "context_read ''t1'' sample_next = collect_entries ''t1'' sample_next (timeline_turns ''t1'' None None sample_next)"
    by (simp add: context_read_def read_timeline_def context_required_text_def strip optional_positive_integer_def)
  with recent_context_is_the_end [OF d p l(1)] n p l show ?thesis by (auto simp: plain_context_def strip)
qed

end
