(* ===== verification/Hermes_Service.thy ===== *)
theory Hermes_Service
  imports Message_Store Context_Access
begin

text \<open>
  The call of Hermes for an admitted message and the way back (\<open>hermes/service.py\<close>,
  \<open>hermes/response.py\<close>, \<open>hermes/outbox.py\<close>). The client is an argument: what it answers to an
  invocation. A dispatch returns its result, the database it leaves and the invocations it made, in
  order; a handled response returns the texts it sent. Exceptions of the stores are outside the
  hierarchy of Hermes errors.
\<close>

section \<open>Calls\<close>

record HermesChatResult =
  hc_assistant_content :: string
  hc_hermes_thread_id :: string
  hc_response :: "ResponseEnvelope option"

record hermes_profile_call =
  pc_profile_reference :: string
  pc_profile_revision :: int
  pc_thread_id :: string
  pc_session_metadata :: json

record hermes_invocation =
  iv_content :: string
  iv_hermes_thread_id :: string
  iv_idempotency_key :: "string option"
  iv_profile :: "hermes_profile_call option"

text \<open>
  The collaborators of the service, what other sessions commit at the points where it touches the
  database, and whether its own commits succeed.
\<close>

record hermes_env =
  sv_chat :: "hermes_invocation \<Rightarrow> hermes_exception + HermesChatResult"
  sv_context_access_policy :: "context_policy option"
  sv_available_tools :: "string list"
  sv_ck :: clocks
  sv_race :: "nat \<Rightarrow> gateway_db \<Rightarrow> gateway_db"
  sv_commits :: "nat \<Rightarrow> bool"

definition HERMES_THREAD_NAMESPACE :: string where "HERMES_THREAD_NAMESPACE = ''v1:cf-agent-gateway''"

definition store_exception :: hermes_exception where "store_exception = OtherException ''store''"

text \<open>\<open>available_tools\<close> of the constructor; \<open>None\<close> stands for the \<open>ValueError\<close>.\<close>

definition context_tool_names :: "string list \<Rightarrow> string list option" where
  "context_tool_names names =
     (let normalized = map py_strip names in
      if list_ex (\<lambda>n. py_strip n = []) names \<or> \<not> distinct normalized
         \<or> list_ex (\<lambda>n. n \<notin> {CONTEXT_READ_TOOL_NAME, CONTEXT_SEARCH_TOOL_NAME}) normalized
      then None else Some normalized)"

definition allowed_target :: "AdmissionOutcome \<Rightarrow> hermes_exception + string \<times> string" where
  "allowed_target admission =
     (if \<not> ao_admitted admission \<or> ao_reason admission \<noteq> ADMISSION_ALLOWED then Inl (HermesDispatchError ''admission_not_allowed'')
      else if ao_enterprise_identity_id admission = None then Inl (HermesDispatchError ''enterprise_identity_missing'')
      else
        (case (ao_workspace_id admission, ao_ai_thread_id admission) of
           (Some workspace_id, Some ai_thread_id) \<Rightarrow> Inr (workspace_id, ai_thread_id)
         | _ \<Rightarrow> Inl (HermesDispatchError ''dispatch_target_missing'')))"

definition available_thread :: "string \<Rightarrow> AIThread option \<Rightarrow> hermes_exception + AIThread" where
  "available_thread workspace_id t =
     (case t of
        None \<Rightarrow> Inl (HermesDispatchError ''ai_thread_not_found'')
      | Some thread \<Rightarrow>
          if t_thread_type thread = THREAD_PRIVATE \<and> t_workspace_id thread \<noteq> workspace_id
          then Inl (HermesDispatchError ''ai_thread_workspace_mismatch'')
          else if t_status thread \<noteq> THREAD_ACTIVE then Inl (HermesDispatchError ''ai_thread_unavailable'')
          else Inr thread)"

definition available_workspace :: "string option \<Rightarrow> EmployeeWorkspace option \<Rightarrow> hermes_exception + EmployeeWorkspace" where
  "available_workspace enterprise_identity_id w =
     (case w of
        None \<Rightarrow> Inl (HermesDispatchError ''workspace_not_found'')
      | Some workspace \<Rightarrow>
          if w_status workspace \<noteq> WORKSPACE_ACTIVE then Inl (HermesDispatchError ''workspace_unavailable'')
          else if Some (w_enterprise_identity_id workspace) \<noteq> enterprise_identity_id
          then Inl (HermesDispatchError ''workspace_identity_mismatch'')
          else Inr workspace)"

text \<open>The key a routed thread must have for a message of this sender.\<close>

definition routed_thread_key :: "Message \<Rightarrow> string \<Rightarrow> AgentProfile \<Rightarrow> ThreadPolicy \<Rightarrow> gateway_error + string" where
  "routed_thread_key message sender_identity_id profile policy =
     build_v2_thread_key (Some (g_source message)) (Some (g_source_account_id message)) (Some (g_conversation_id message))
       (Inr (g_conversation_type message)) (Some sender_identity_id) (Some (ap_id profile)) (Some (Inl (ap_revision profile))) (Inl policy)"

definition message_binding :: "Message \<Rightarrow> gateway_db \<Rightarrow> ThreadSourceBinding option" where
  "message_binding message db = get_source_binding (g_source message) (g_source_account_id message) (g_conversation_id message) db"

definition resolve_dispatch_profile ::
  "AIThread \<Rightarrow> Message \<Rightarrow> AdmissionOutcome \<Rightarrow> gateway_db \<Rightarrow> hermes_exception + AgentProfile option"
where
  "resolve_dispatch_profile thread message admission db =
     (case (t_agent_profile_id thread, t_thread_policy thread) of
        (None, None) \<Rightarrow>
          (case message_binding message db of
             None \<Rightarrow> Inl (HermesDispatchError ''source_binding_not_found'')
           | Some b \<Rightarrow> if b_ai_thread_id b \<noteq> t_id thread then Inl (HermesDispatchError ''message_thread_mismatch'') else Inr None)
      | (Some profile_id, Some policy) \<Rightarrow>
          (case get_agent_profile profile_id db of
             None \<Rightarrow> Inl (HermesDispatchError ''agent_profile_not_found'')
           | Some profile \<Rightarrow>
               if ap_status profile \<noteq> PROFILE_ACTIVE then Inl (HermesDispatchError ''agent_profile_unavailable'')
               else
                 (case ao_enterprise_identity_id admission of
                    None \<Rightarrow> Inl (HermesDispatchError ''enterprise_identity_missing'')
                  | Some identity \<Rightarrow>
                      (case routed_thread_key message identity profile policy of
                         Inl _ \<Rightarrow> Inl store_exception
                       | Inr key \<Rightarrow>
                           if key \<noteq> t_thread_key thread then Inl (HermesDispatchError ''message_thread_mismatch'') else Inr (Some profile))))
      | _ \<Rightarrow> Inl (HermesDispatchError ''v2_route_snapshot_invalid''))"

definition context_available :: "hermes_env \<Rightarrow> string \<Rightarrow> string \<Rightarrow> bool" where
  "context_available env enterprise_identity_id thread_id =
     (case sv_context_access_policy env of None \<Rightarrow> False | Some policy \<Rightarrow> policy enterprise_identity_id thread_id = Inr True)"

definition session_metadata :: "hermes_env \<Rightarrow> Message \<Rightarrow> AIThread \<Rightarrow> AdmissionOutcome \<Rightarrow> hermes_exception + json" where
  "session_metadata env message thread admission =
     (case (ao_enterprise_identity_id admission, t_thread_policy thread) of
        (Some identity, Some policy) \<Rightarrow>
          (let available = context_available env identity (t_id thread) in
           Inr (JObj [(''message_id'', JInt (g_id message)), (''source'', JStr (g_source message)), (''channel'', JStr (g_source message)),
                      (''source_account_id'', JStr (g_source_account_id message)), (''conversation_id'', JStr (g_conversation_id message)),
                      (''conversation_type'', JStr (g_conversation_type message)), (''enterprise_identity_id'', JStr identity),
                      (''sender_identity_id'', JStr identity),
                      (''sender_id'', (case g_sender_id message of None \<Rightarrow> JNull | Some s \<Rightarrow> JStr s)),
                      (''thread_id'', JStr (t_id thread)), (''thread_policy'', JStr (thread_policy_value policy)),
                      (''context_available'', JBool available),
                      (''available_tools'', JList (if available then map JStr (sv_available_tools env) else []))]))
      | _ \<Rightarrow> Inl (HermesDispatchError ''v2_route_snapshot_invalid''))"

definition initial_hermes_thread_id :: "AIThread \<Rightarrow> string" where
  "initial_hermes_thread_id thread = HERMES_THREAD_NAMESPACE @ '':'' @ t_id thread"

definition hermes_thread_id_for_dispatch :: "AIThread \<Rightarrow> string" where
  "hermes_thread_id_for_dispatch thread =
     (case t_hermes_thread_id thread of Some h \<Rightarrow> h | None \<Rightarrow> initial_hermes_thread_id thread)"

section \<open>A dispatch\<close>

text \<open>The reads and checks before the thread is locked.\<close>

record dispatch_plan =
  dp_message :: Message
  dp_workspace :: EmployeeWorkspace
  dp_thread :: AIThread
  dp_profile :: "AgentProfile option"

definition plan_dispatch :: "AdmissionOutcome \<Rightarrow> string \<Rightarrow> string \<Rightarrow> gateway_db \<Rightarrow> hermes_exception + dispatch_plan" where
  "plan_dispatch admission workspace_id ai_thread_id db =
     (case message_get (ao_message_id admission) db of
        None \<Rightarrow> Inl (HermesDispatchError ''message_not_found'')
      | Some message \<Rightarrow>
     (case available_thread workspace_id (get_thread ai_thread_id db) of
        Inl e \<Rightarrow> Inl e
      | Inr thread \<Rightarrow>
     (case available_workspace (ao_enterprise_identity_id admission) (lookup_by w_id workspace_id (workspaces db)) of
        Inl e \<Rightarrow> Inl e
      | Inr workspace \<Rightarrow>
     (case resolve_dispatch_profile thread message admission db of
        Inl e \<Rightarrow> Inl e
      | Inr profile \<Rightarrow>
          if g_content message = [] then Inl (HermesDispatchError ''empty_message_content'')
          else Inr \<lparr>dp_message = message, dp_workspace = workspace, dp_thread = thread, dp_profile = profile\<rparr>))))"

text \<open>The locked thread, with the Hermes session it was given.\<close>

definition locked_thread :: "hermes_env \<Rightarrow> string \<Rightarrow> string \<Rightarrow> gateway_db \<Rightarrow> (hermes_exception + AIThread) \<times> gateway_db" where
  "locked_thread env workspace_id ai_thread_id db0 =
     (let db = sv_race env 0 db0 in
      case available_thread workspace_id (get_thread ai_thread_id db) of
        Inl e \<Rightarrow> (Inl e, db)
      | Inr thread \<Rightarrow>
          if t_hermes_thread_id thread = None
          then (case claim_hermes_thread (\<lambda>n. sv_race env (1 + n)) (sv_ck env) thread (initial_hermes_thread_id thread) db of
                  (Inl _, db1) \<Rightarrow> (Inl store_exception, db1)
                | (Inr t, db1) \<Rightarrow> (Inr t, db1))
          else (Inr thread, db))"

definition build_invocation ::
  "hermes_env \<Rightarrow> AdmissionOutcome \<Rightarrow> string option \<Rightarrow> dispatch_plan \<Rightarrow> AIThread \<Rightarrow> hermes_exception + hermes_invocation"
where
  "build_invocation env admission idempotency_key plan thread =
     map_sum id (\<lambda>p. \<lparr>iv_content = g_content (dp_message plan), iv_hermes_thread_id = hermes_thread_id_for_dispatch thread,
                       iv_idempotency_key = idempotency_key, iv_profile = p\<rparr>)
       (case dp_profile plan of
          None \<Rightarrow> Inr None
        | Some profile \<Rightarrow>
            map_sum id (\<lambda>metadata. Some \<lparr>pc_profile_reference = ap_external_profile_ref profile, pc_profile_revision = ap_revision profile,
                                            pc_thread_id = t_id thread, pc_session_metadata = metadata\<rparr>)
              (session_metadata env (dp_message plan) thread admission))"

definition dispatch_outcome :: "dispatch_plan \<Rightarrow> AIThread \<Rightarrow> HermesChatResult \<Rightarrow> string option \<Rightarrow> string option \<Rightarrow> HermesDispatchOutcome" where
  "dispatch_outcome plan thread result requested next_id =
     \<lparr>out_message_id = g_id (dp_message plan), out_workspace_id = w_id (dp_workspace plan), out_ai_thread_id = t_id thread,
      out_assistant_content = hc_assistant_content result, out_response = hc_response result,
      out_requested_hermes_thread_id = requested, out_next_hermes_thread_id = next_id\<rparr>"

text \<open>After the call: a durable dispatch leaves the rotation of the session to the stored result.\<close>

definition finish_call ::
  "hermes_env \<Rightarrow> bool \<Rightarrow> dispatch_plan \<Rightarrow> AIThread \<Rightarrow> HermesChatResult \<Rightarrow> gateway_db \<Rightarrow> (hermes_exception + HermesDispatchOutcome) \<times> gateway_db"
where
  "finish_call env defer_binding_update plan thread result db =
     (let requested = hermes_thread_id_for_dispatch thread in
      if defer_binding_update
      then (Inr (dispatch_outcome plan thread result (Some requested) (Some (hc_hermes_thread_id result))), db)
      else
        (case advance_hermes_thread (sv_race env 4) (sv_ck env) thread requested (hc_hermes_thread_id result) db of
           (Inl _, db1) \<Rightarrow> (Inl store_exception, db1)
         | (Inr advanced, db1) \<Rightarrow>
             if \<not> advanced then (Inl (HermesDispatchError ''hermes_thread_advanced_concurrently''), db1)
             else if \<not> sv_commits env 1 then (Inl store_exception, db1)
             else (Inr (dispatch_outcome plan thread result None None), db1)))"

type_synonym dispatch_run = "(hermes_exception + HermesDispatchOutcome) \<times> gateway_db \<times> hermes_invocation list"

definition service_dispatch :: "hermes_env \<Rightarrow> AdmissionOutcome \<Rightarrow> string option \<Rightarrow> bool \<Rightarrow> gateway_db \<Rightarrow> dispatch_run" where
  "service_dispatch env admission idempotency_key defer_binding_update db0 =
     (case allowed_target admission of
        Inl e \<Rightarrow> (Inl e, db0, [])
      | Inr (workspace_id, ai_thread_id) \<Rightarrow>
     (case plan_dispatch admission workspace_id ai_thread_id db0 of
        Inl e \<Rightarrow> (Inl e, db0, [])
      | Inr plan \<Rightarrow>
     (case locked_thread env workspace_id ai_thread_id db0 of
        (Inl e, db) \<Rightarrow> (Inl e, db, [])
      | (Inr thread, db) \<Rightarrow>
     (case build_invocation env admission idempotency_key plan thread of
        Inl e \<Rightarrow> (Inl e, db, [])
      | Inr invocation \<Rightarrow>
          if defer_binding_update \<and> \<not> sv_commits env 0 then (Inl store_exception, db, [])
          else
            (case sv_chat env invocation of
               Inl e \<Rightarrow> (Inl e, sv_race env 3 db, [invocation])
             | Inr result \<Rightarrow>
                 (case finish_call env defer_binding_update plan thread result (sv_race env 3 db) of
                    (r, db1) \<Rightarrow> (r, db1, [invocation])))))))"

definition hermes_dispatch :: "hermes_env \<Rightarrow> AdmissionOutcome \<Rightarrow> gateway_db \<Rightarrow> dispatch_run" where
  "hermes_dispatch env admission db = service_dispatch env admission None False db"

definition record_admission :: "HermesDispatchRecord \<Rightarrow> AdmissionOutcome" where
  "record_admission r =
     \<lparr>ao_message_id = d_message_id r, ao_admitted = True, ao_should_create_task = True, ao_reason = ADMISSION_ALLOWED,
      ao_enterprise_identity_id = Some (d_enterprise_identity_id r), ao_workspace_id = Some (d_workspace_id r),
      ao_ai_thread_id = Some (d_ai_thread_id r), ao_authorization = None, ao_policy_snapshot = None, ao_gateway_policy_id = None,
      ao_gateway_policy_updated_at = None, ao_user_policy_id = None, ao_user_policy_updated_at = None, ao_routing_mode = ''none'',
      ao_route_conversation_record_id = None, ao_agent_profile_id = None, ao_agent_profile_key = None, ao_agent_profile_reference = None,
      ao_agent_profile_revision = None, ao_group_type_id = None, ao_group_type_key = None, ao_thread_policy = None\<rparr>"

definition dispatch_record :: "hermes_env \<Rightarrow> HermesDispatchRecord \<Rightarrow> gateway_db \<Rightarrow> dispatch_run" where
  "dispatch_record env r db =
     (if d_status r \<noteq> D_RUNNING \<or> d_claim_token r = None then (Inl (HermesDispatchError ''dispatch_record_not_claimed''), db, [])
      else service_dispatch env (record_admission r) (Some (d_idempotency_key r)) True db)"

section \<open>The synchronous path\<close>

text \<open>
  \<open>HermesDispatchOutboxExecutor.dispatch\<close> around any dispatcher: the record is enqueued and claimed,
  and its status follows the result. The clocks of the four statements are arguments.
\<close>

datatype executor_error = ExecutorStore gateway_error | ExecutorHermes hermes_exception

definition outbox_dispatch ::
  "(nat \<Rightarrow> clocks) \<Rightarrow> (nat \<Rightarrow> gateway_db \<Rightarrow> gateway_db) \<Rightarrow> string \<Rightarrow> (AdmissionOutcome \<Rightarrow> gateway_db \<Rightarrow> dispatch_run) \<Rightarrow> AdmissionOutcome
     \<Rightarrow> gateway_db \<Rightarrow> (executor_error + HermesDispatchOutcome) \<times> gateway_db \<times> hermes_invocation list"
where
  "outbox_dispatch ck race claim_token dispatcher admission db =
     (case dispatch_enqueue (race 0) (race 1) (ck 0) admission db of
        (Inl e, db1) \<Rightarrow> (Inl (ExecutorStore e), db1, [])
      | (Inr (r, _), db1) \<Rightarrow>
     (case dispatch_claim (ck 1) (d_id r) claim_token (PyFloat 60) (PyInt 3) None (race 2 db1) of
        (Inl e, db2) \<Rightarrow> (Inl (ExecutorStore e), db2, [])
      | (Inr _, db2) \<Rightarrow>
     (case dispatcher admission db2 of
        (Inl error, db3, calls) \<Rightarrow>
          (case (if dispatch_failure_status error = D_FAILED
                 then dispatch_mark_failed (ck 2) (d_id r) claim_token (dispatch_error_code error) None (race 3 db3)
                 else dispatch_mark_uncertain (ck 2) (d_id r) claim_token (dispatch_error_code error) (race 3 db3)) of
             (Inl e, db4) \<Rightarrow> (Inl (ExecutorStore e), db4, calls)
           | (Inr _, db4) \<Rightarrow> (Inl (ExecutorHermes error), db4, calls))
      | (Inr out, db3, calls) \<Rightarrow>
          (case dispatch_mark_success (ck 2) (d_id r) claim_token (race 3 db3) of
             (Inl e, db4) \<Rightarrow> (Inl (ExecutorStore e), db4, calls)
           | (Inr _, db4) \<Rightarrow> (Inr out, db4, calls)))))"

section \<open>The way back\<close>

record HermesResponseDeliveryOutcome =
  rd_message_id :: int
  rd_ai_thread_id :: string
  rd_conversation_id :: string

record text_sender =
  ts_account_id :: string
  ts_send_text :: "string \<Rightarrow> string \<Rightarrow> hermes_exception + unit"

type_synonym response_run = "(hermes_exception + HermesResponseDeliveryOutcome) \<times> (string \<times> string) list"

definition validate_response_thread :: "AIThread \<Rightarrow> HermesDispatchOutcome \<Rightarrow> hermes_exception option" where
  "validate_response_thread thread response =
     (if t_thread_type thread = THREAD_PRIVATE \<and> t_workspace_id thread \<noteq> out_workspace_id response
      then Some (HermesDeliveryError ''ai_thread_workspace_mismatch'')
      else if t_status thread \<noteq> THREAD_ACTIVE then Some (HermesDeliveryError ''ai_thread_unavailable'') else None)"

definition binding_matches_response :: "ThreadSourceBinding \<Rightarrow> Message \<Rightarrow> HermesDispatchOutcome \<Rightarrow> bool" where
  "binding_matches_response binding message response \<longleftrightarrow>
     b_ai_thread_id binding = out_ai_thread_id response \<and> b_platform binding = g_source message
     \<and> b_account_id binding = g_source_account_id message \<and> b_physical_conversation_id binding = g_conversation_id message"

text \<open>The last checks and the send: \<open>account_id\<close> and \<open>conversation_id\<close> are those of the source.\<close>

definition send_answer ::
  "text_sender \<Rightarrow> Message \<Rightarrow> AIThread \<Rightarrow> HermesDispatchOutcome \<Rightarrow> string \<Rightarrow> string \<Rightarrow> response_run"
where
  "send_answer sender message thread response account_id conversation_id =
     (if ts_account_id sender \<noteq> account_id then (Inl (HermesDeliveryError ''sender_account_mismatch''), [])
      else if out_assistant_content response = [] then (Inl (HermesDeliveryError ''empty_assistant_content''), [])
      else
        (map_sum id (\<lambda>_. \<lparr>rd_message_id = g_id message, rd_ai_thread_id = t_id thread, rd_conversation_id = conversation_id\<rparr>)
           (ts_send_text sender conversation_id (out_assistant_content response)),
         [(conversation_id, out_assistant_content response)]))"

definition process_v2_response :: "text_sender \<Rightarrow> AIThread \<Rightarrow> Message \<Rightarrow> HermesDispatchOutcome \<Rightarrow> gateway_db \<Rightarrow> response_run" where
  "process_v2_response sender thread message response db =
     (case (t_agent_profile_id thread, t_thread_policy thread) of
        (Some profile_id, Some policy) \<Rightarrow>
          (case build_hermes_dispatch_idempotency_key (g_id message) of
             Inl _ \<Rightarrow> (Inl store_exception, [])
           | Inr idempotency_key \<Rightarrow>
          (case dispatch_get_by_idempotency_key idempotency_key db of
             None \<Rightarrow> (Inl (HermesDeliveryError ''dispatch_record_not_found''), [])
           | Some r \<Rightarrow>
               if d_message_id r \<noteq> g_id message \<or> d_ai_thread_id r \<noteq> t_id thread \<or> d_workspace_id r \<noteq> out_workspace_id response
               then (Inl (HermesDeliveryError ''conversation_mismatch''), [])
               else
                 (case get_agent_profile profile_id db of
                    None \<Rightarrow> (Inl (HermesDeliveryError ''agent_profile_not_found''), [])
                  | Some profile \<Rightarrow>
                      (case routed_thread_key message (d_enterprise_identity_id r) profile policy of
                         Inl _ \<Rightarrow> (Inl store_exception, [])
                       | Inr key \<Rightarrow>
                           if key \<noteq> t_thread_key thread then (Inl (HermesDeliveryError ''conversation_mismatch''), [])
                           else send_answer sender message thread response (g_source_account_id message) (g_conversation_id message)))))
      | _ \<Rightarrow> (Inl (HermesDeliveryError ''v2_route_snapshot_invalid''), []))"

definition WECHAT_PLATFORM :: string where "WECHAT_PLATFORM = ''wechat''"

definition process_response :: "text_sender \<Rightarrow> HermesDispatchOutcome \<Rightarrow> gateway_db \<Rightarrow> response_run" where
  "process_response sender response db =
     (case message_get (out_message_id response) db of
        None \<Rightarrow> (Inl (HermesDeliveryError ''message_not_found''), [])
      | Some message \<Rightarrow>
     (case get_thread (out_ai_thread_id response) db of
        None \<Rightarrow> (Inl (HermesDeliveryError ''ai_thread_not_found''), [])
      | Some thread \<Rightarrow>
     (case validate_response_thread thread response of
        Some e \<Rightarrow> (Inl e, [])
      | None \<Rightarrow>
          if g_source message \<noteq> WECHAT_PLATFORM then (Inl (HermesDeliveryError ''unsupported_source''), [])
          else if t_agent_profile_id thread \<noteq> None \<or> t_thread_policy thread \<noteq> None then process_v2_response sender thread message response db
          else
            (case message_binding message db of
               None \<Rightarrow>
                 (Inl (HermesDeliveryError (if list_source_bindings_for_thread (t_id thread) db \<noteq> [] then ''conversation_mismatch''
                                            else ''source_binding_not_found'')), [])
             | Some binding \<Rightarrow>
                 if \<not> binding_matches_response binding message response then (Inl (HermesDeliveryError ''conversation_mismatch''), [])
                 else send_answer sender message thread response (b_account_id binding) (b_physical_conversation_id binding)))))"

text \<open>\<open>HermesResponseRelay.dispatch\<close>: a response that cannot be delivered raises after the dispatch.\<close>

definition relay_dispatch ::
  "(AdmissionOutcome \<Rightarrow> gateway_db \<Rightarrow> dispatch_run) \<Rightarrow> text_sender \<Rightarrow> AdmissionOutcome \<Rightarrow> gateway_db \<Rightarrow> dispatch_run \<times> (string \<times> string) list"
where
  "relay_dispatch dispatcher sender admission db =
     (case dispatcher admission db of
        (Inl e, db1, calls) \<Rightarrow> ((Inl e, db1, calls), [])
      | (Inr response, db1, calls) \<Rightarrow>
          (case process_response sender response db1 of
             (Inl e, sent) \<Rightarrow> ((Inl e, db1, calls), sent)
           | (Inr _, sent) \<Rightarrow> ((Inr response, db1, calls), sent)))"

end
