(* ===== verification/Python_Text.thy ===== *)
theory Python_Text
  imports Gateway_Prelude
begin

text \<open>
  Case mapping of strings and Base64, as the HTTP adapters use them (\<open>str.lower\<close>, \<open>str.upper\<close>,
  \<open>base64.b64encode\<close> and \<open>b64decode(validate=True)\<close>). Bytes are characters. Encoding and decoding are
  inverse.
\<close>

section \<open>Case\<close>

definition lower_char :: "char \<Rightarrow> char" where
  "lower_char c = (let n = (of_char c :: nat) in if (65 \<le> n \<and> n \<le> 90) \<or> (192 \<le> n \<and> n \<le> 222 \<and> n \<noteq> 215) then char_of (n + 32) else c)"

definition py_lower :: "string \<Rightarrow> string" where "py_lower s = map lower_char s"

text \<open>The two code points whose upper case lies above 255 are kept.\<close>

definition upper_char :: "char \<Rightarrow> string" where
  "upper_char c =
     (let n = (of_char c :: nat) in
      if (97 \<le> n \<and> n \<le> 122) \<or> (224 \<le> n \<and> n \<le> 254 \<and> n \<noteq> 247) then [char_of (n - 32)] else if n = 223 then ''SS'' else [c])"

definition py_upper :: "string \<Rightarrow> string" where "py_upper s = concat (map upper_char s)"

section \<open>Base64\<close>

definition base64_digit :: "nat \<Rightarrow> char" where
  "base64_digit n =
     (if n < 26 then char_of (n + 65) else if n < 52 then char_of (n + 71) else if n < 62 then char_of (n - 4)
      else if n = 62 then CHR ''+'' else CHR ''/'')"

definition base64_value :: "char \<Rightarrow> nat option" where
  "base64_value c =
     (let n = (of_char c :: nat) in
      if 65 \<le> n \<and> n \<le> 90 then Some (n - 65) else if 97 \<le> n \<and> n \<le> 122 then Some (n - 71)
      else if 48 \<le> n \<and> n \<le> 57 then Some (n + 4) else if n = 43 then Some 62 else if n = 47 then Some 63 else None)"

fun b64encode :: "string \<Rightarrow> string" where
  "b64encode [] = []"
| "b64encode [a] = (let x = of_char a in [base64_digit (x div 4), base64_digit (x mod 4 * 16), CHR ''='', CHR ''=''])"
| "b64encode [a, b] =
     (let x = of_char a; y = of_char b in
      [base64_digit (x div 4), base64_digit (x mod 4 * 16 + y div 16), base64_digit (y mod 16 * 4), CHR ''=''])"
| "b64encode (a # b # c # rest) =
     (let x = of_char a; y = of_char b; z = of_char c in
      [base64_digit (x div 4), base64_digit (x mod 4 * 16 + y div 16), base64_digit (y mod 16 * 4 + z div 64), base64_digit (z mod 64)]
      @ b64encode rest)"

definition byte1 :: "nat \<Rightarrow> nat \<Rightarrow> char" where "byte1 p q = char_of (p * 4 + q div 16)"
definition byte2 :: "nat \<Rightarrow> nat \<Rightarrow> char" where "byte2 q r = char_of (q mod 16 * 16 + r div 4)"
definition byte3 :: "nat \<Rightarrow> nat \<Rightarrow> char" where "byte3 r s = char_of (r mod 4 * 64 + s)"

fun b64decode :: "string \<Rightarrow> string option" where
  "b64decode [] = Some []"
| "b64decode (p # q # r # s # rest) =
     (case (base64_value p, base64_value q) of
        (Some p', Some q') \<Rightarrow>
          if r = CHR ''='' then (if s = CHR ''='' \<and> rest = [] then Some [byte1 p' q'] else None)
          else
            (case base64_value r of
               None \<Rightarrow> None
             | Some r' \<Rightarrow>
                 if s = CHR ''='' then (if rest = [] then Some [byte1 p' q', byte2 q' r'] else None)
                 else
                   (case base64_value s of
                      None \<Rightarrow> None
                    | Some s' \<Rightarrow> map_option (\<lambda>bs. byte1 p' q' # byte2 q' r' # byte3 r' s' # bs) (b64decode rest)))
      | _ \<Rightarrow> None)"
| "b64decode _ = None"

lemma base64_digit_value:
  assumes "n < 64"
  shows "base64_value (base64_digit n) = Some n" "base64_digit n \<noteq> CHR ''=''"
proof -
  show *: "base64_value (base64_digit n) = Some n"
    using assms by (auto simp: base64_value_def base64_digit_def Let_def of_char_of)
  have "base64_value (CHR ''='') = None" by (simp add: base64_value_def)
  with * show "base64_digit n \<noteq> CHR ''=''" by auto
qed

lemma packed: "(b :: nat) < n \<Longrightarrow> (a * n + b) div n = a \<and> (a * n + b) mod n = b"
  by simp

lemma sextets:
  fixes x y z :: nat
  assumes "x < 256" "y < 256" "z < 256"
  shows "x div 4 < 64" "x mod 4 * 16 + y div 16 < 64" "y mod 16 * 4 + z div 64 < 64" "z mod 64 < 64"
    "x div 4 * 4 + (x mod 4 * 16 + y div 16) div 16 = x"
    "(x mod 4 * 16 + y div 16) mod 16 * 16 + (y mod 16 * 4 + z div 64) div 4 = y"
    "(y mod 16 * 4 + z div 64) mod 4 * 64 + z mod 64 = z"
proof -
  have b: "y div 16 < 16" "z div 64 < 4" using assms by auto
  have m: "x mod 4 < 4" "y mod 16 < 16" by simp_all
  show "x div 4 < 64" "z mod 64 < 64" using assms by auto
  show "x mod 4 * 16 + y div 16 < 64" "y mod 16 * 4 + z div 64 < 64" using b m by linarith+
  show "x div 4 * 4 + (x mod 4 * 16 + y div 16) div 16 = x"
    "(x mod 4 * 16 + y div 16) mod 16 * 16 + (y mod 16 * 4 + z div 64) div 4 = y"
    "(y mod 16 * 4 + z div 64) mod 4 * 64 + z mod 64 = z"
    using packed [OF b(1)] packed [OF b(2)] by simp_all
qed

lemma of_char_bound: "(of_char c :: nat) < 256"
  by (metis UNIV_I atLeastLessThan_iff imageI range_nat_of_char)

lemma b64_roundtrip: "b64decode (b64encode bs) = Some bs"
proof (induction bs rule: b64encode.induct)
  case (2 a)
  note s = sextets [OF of_char_bound [of a], of 0 0]
  show ?case using s(1,2,5) by (simp add: Let_def base64_digit_value byte1_def)
next
  case (3 a b)
  note s = sextets [OF of_char_bound [of a] of_char_bound [of b], of 0]
  show ?case using s(1-3,5,6) by (simp add: Let_def base64_digit_value byte1_def byte2_def)
next
  case (4 a b c rest)
  note s = sextets [OF of_char_bound [of a] of_char_bound [of b] of_char_bound [of c]]
  show ?case using s 4 by (simp add: Let_def base64_digit_value byte1_def byte2_def byte3_def)
qed simp

end
