(* ===== verification/Hermes_Client.thy ===== *)
theory Hermes_Client
  imports Hermes_Service Admission_Store Python_Text
begin

text \<open>
  The HTTP client of Hermes (\<open>hermes/client.py\<close>, the request and response models of
  \<open>hermes/models.py\<close>, \<open>hermes_timeouts.py\<close>): which request a call makes and which result or exception
  an exchange becomes. The transport is an argument: what \<open>httpx\<close> and the wall-clock budget make of a
  request. A response body is the value its JSON text denotes, or nothing when it has none; numbers
  that are not integers do not occur in it.
\<close>

section \<open>Exchanges\<close>

record HermesTimeoutSettings =
  tm_connect_seconds :: rat
  tm_read_seconds :: rat
  tm_write_seconds :: rat
  tm_pool_seconds :: rat
  tm_execution_seconds :: rat

definition timeout_seconds :: "rat \<Rightarrow> py_num \<Rightarrow> rat option" where
  "timeout_seconds maximum value =
     (case value of
        PyBool _ \<Rightarrow> None
      | PyNonFinite \<Rightarrow> None
      | PyInt n \<Rightarrow> if 0 < n \<and> of_int n \<le> maximum then Some (of_int n) else None
      | PyFloat q \<Rightarrow> if 0 < q \<and> q \<le> maximum then Some q else None)"

definition make_timeouts :: "py_num \<Rightarrow> py_num \<Rightarrow> py_num \<Rightarrow> py_num \<Rightarrow> py_num \<Rightarrow> HermesTimeoutSettings option" where
  "make_timeouts connect_seconds read_seconds write_seconds pool_seconds execution_seconds =
     (case (timeout_seconds 120 connect_seconds, timeout_seconds 3600 read_seconds, timeout_seconds 120 write_seconds,
            timeout_seconds 120 pool_seconds, timeout_seconds 3600 execution_seconds) of
        (Some c, Some r, Some w, Some p, Some e) \<Rightarrow>
          Some \<lparr>tm_connect_seconds = c, tm_read_seconds = r, tm_write_seconds = w, tm_pool_seconds = p, tm_execution_seconds = e\<rparr>
      | _ \<Rightarrow> None)"

record HermesClient =
  hk_base_url :: string
  hk_headers :: "(string \<times> string) list"
  hk_model :: string
  hk_timeouts :: HermesTimeoutSettings
  hk_closed :: bool

definition client_close :: "HermesClient \<Rightarrow> HermesClient" where "client_close client = client\<lparr>hk_closed := True\<rparr>"

record http_request =
  rq_base_url :: string
  rq_client_headers :: "(string \<times> string) list"
  rq_timeouts :: HermesTimeoutSettings
  rq_method :: string
  rq_endpoint :: string
  rq_json :: json
  rq_headers :: "(string \<times> string) list"

record http_response =
  rs_status_code :: int
  rs_headers :: "string \<Rightarrow> string option"
  rs_json :: "json option"

datatype http_exchange =
    ExecutionTimeout
  | TransportTimeout
  | TransportFailure
  | TransportOther string
  | HttpResponse http_response

definition HERMES_SESSION_HEADER :: string where "HERMES_SESSION_HEADER = ''X-Hermes-Session-Id''"
definition HERMES_IDEMPOTENCY_HEADER :: string where "HERMES_IDEMPOTENCY_HEADER = ''Idempotency-Key''"
definition MAX_IDEMPOTENCY_KEY_LENGTH :: nat where "MAX_IDEMPOTENCY_KEY_LENGTH = 255"
definition MAX_HERMES_THREAD_ID_LENGTH :: nat where "MAX_HERMES_THREAD_ID_LENGTH = 255"
definition CHAT_OPERATION :: string where "CHAT_OPERATION = ''chat_completion''"

definition value_error :: hermes_exception where "value_error = OtherException ''ValueError''"

section \<open>Arguments of a call\<close>

definition client_required_string :: "string option \<Rightarrow> hermes_exception + string" where
  "client_required_string v = (case v of None \<Rightarrow> Inl value_error | Some s \<Rightarrow> if py_strip s = [] then Inl value_error else Inr (py_strip s))"

definition visible_ascii :: "string \<Rightarrow> bool" where
  "visible_ascii s = list_all (\<lambda>c. 0x21 \<le> (of_char c :: nat) \<and> (of_char c :: nat) \<le> 0x7E) s"

definition client_api_key :: "string option \<Rightarrow> hermes_exception + string" where
  "client_api_key v =
     (case v of
        None \<Rightarrow> Inl HermesAPIKeyError
      | Some s \<Rightarrow> if py_strip s = [] \<or> \<not> visible_ascii (py_strip s) then Inl HermesAPIKeyError else Inr (py_strip s))"

definition client_idempotency_key :: "string \<Rightarrow> hermes_exception + string" where
  "client_idempotency_key v =
     (case client_required_string (Some v) of
        Inl e \<Rightarrow> Inl e
      | Inr key \<Rightarrow> if length key > MAX_IDEMPOTENCY_KEY_LENGTH \<or> \<not> visible_ascii key then Inl value_error else Inr key)"

definition client_thread_id :: "string option \<Rightarrow> hermes_exception + string" where
  "client_thread_id v =
     (case client_required_string v of
        Inl e \<Rightarrow> Inl e
      | Inr thread_id \<Rightarrow> if length thread_id > MAX_HERMES_THREAD_ID_LENGTH then Inl value_error else Inr thread_id)"

definition optional_arg :: "('a \<Rightarrow> hermes_exception + 'b) \<Rightarrow> 'a option \<Rightarrow> hermes_exception + 'b option" where
  "optional_arg f v = (case v of None \<Rightarrow> Inr None | Some x \<Rightarrow> map_sum id Some (f x))"

text \<open>The arguments of \<open>chat\<close>, and those of an invocation of the dispatch service.\<close>

record chat_args =
  cg_content :: string
  cg_hermes_thread_id :: "string option"
  cg_profile_reference :: "string option"
  cg_profile_revision :: "int option"
  cg_thread_id :: "string option"
  cg_session_metadata :: "json option"
  cg_idempotency_key :: "string option"

definition invocation_args :: "hermes_invocation \<Rightarrow> chat_args" where
  "invocation_args iv =
     \<lparr>cg_content = iv_content iv, cg_hermes_thread_id = Some (iv_hermes_thread_id iv),
      cg_profile_reference = map_option pc_profile_reference (iv_profile iv), cg_profile_revision = map_option pc_profile_revision (iv_profile iv),
      cg_thread_id = map_option pc_thread_id (iv_profile iv), cg_session_metadata = map_option pc_session_metadata (iv_profile iv),
      cg_idempotency_key = iv_idempotency_key iv\<rparr>"

text \<open>\<open>HermesChatCompletionRequest\<close>: its field bounds and \<open>validate_v2_invocation\<close>.\<close>

definition bounded_field :: "string option \<Rightarrow> bool" where
  "bounded_field v = (case v of None \<Rightarrow> True | Some s \<Rightarrow> 1 \<le> length s \<and> length s \<le> 255)"

definition valid_request :: "string \<Rightarrow> chat_args \<Rightarrow> bool" where
  "valid_request model args \<longleftrightarrow>
     model \<noteq> [] \<and> cg_content args \<noteq> []
     \<and> bounded_field (cg_profile_reference args) \<and> (case cg_profile_revision args of None \<Rightarrow> True | Some n \<Rightarrow> n > 0)
     \<and> bounded_field (cg_thread_id args)
     \<and> (let given = [cg_profile_reference args \<noteq> None, cg_profile_revision args \<noteq> None, cg_thread_id args \<noteq> None, cg_session_metadata args \<noteq> None]
        in list_ex id given \<longrightarrow> list_all id given)"

text \<open>\<open>request.model_dump(mode="json", exclude_none=True)\<close>.\<close>

definition optional_json :: "string \<Rightarrow> ('a \<Rightarrow> json) \<Rightarrow> 'a option \<Rightarrow> (string \<times> json) list" where
  "optional_json name f v = (case v of None \<Rightarrow> [] | Some x \<Rightarrow> [(name, f x)])"

definition request_json :: "string \<Rightarrow> chat_args \<Rightarrow> json" where
  "request_json model args =
     JObj ([(''model'', JStr model), (''messages'', JList [JObj [(''role'', JStr ''user''), (''content'', JStr (cg_content args))]])]
           @ optional_json ''profile_reference'' JStr (cg_profile_reference args) @ optional_json ''profile_revision'' JInt (cg_profile_revision args)
           @ optional_json ''thread_id'' JStr (cg_thread_id args) @ optional_json ''session_metadata'' id (cg_session_metadata args))"

definition header_of :: "string \<Rightarrow> string option \<Rightarrow> (string \<times> string) list" where
  "header_of name v = (case v of None \<Rightarrow> [] | Some s \<Rightarrow> [(name, s)])"

definition chat_request :: "HermesClient \<Rightarrow> chat_args \<Rightarrow> hermes_exception + http_request" where
  "chat_request client args =
     (if cg_content args = [] then Inl value_error
      else
        (case optional_arg (\<lambda>s. client_thread_id (Some s)) (cg_hermes_thread_id args) of
           Inl e \<Rightarrow> Inl e
         | Inr hermes_thread_id \<Rightarrow>
        (case optional_arg client_idempotency_key (cg_idempotency_key args) of
           Inl e \<Rightarrow> Inl e
         | Inr idempotency_key \<Rightarrow>
             if \<not> valid_request (hk_model client) args then Inl value_error
             else if hk_closed client then Inl (OtherException ''RuntimeError'')
             else Inr \<lparr>rq_base_url = hk_base_url client, rq_client_headers = hk_headers client, rq_timeouts = hk_timeouts client,
                       rq_method = ''POST'', rq_endpoint = ''v1/chat/completions'', rq_json = request_json (hk_model client) args,
                       rq_headers = header_of HERMES_SESSION_HEADER hermes_thread_id @ header_of HERMES_IDEMPOTENCY_HEADER idempotency_key\<rparr>)))"

section \<open>Answers\<close>

fun exchange_response :: "string \<Rightarrow> http_exchange \<Rightarrow> hermes_exception + http_response" where
  "exchange_response operation ExecutionTimeout = Inl (HermesExecutionTimeoutError operation)"
| "exchange_response operation TransportTimeout = Inl (HermesTimeoutError operation)"
| "exchange_response operation TransportFailure = Inl (HermesTransportError operation)"
| "exchange_response operation (TransportOther name) = Inl (OtherException name)"
| "exchange_response operation (HttpResponse r) =
     (if \<not> (200 \<le> rs_status_code r \<and> rs_status_code r < 300) then Inl (HermesAPIError operation (rs_status_code r)) else Inr r)"

definition header_flag :: "http_response \<Rightarrow> string \<Rightarrow> string" where
  "header_flag r name = py_strip (case rs_headers r name of None \<Rightarrow> [] | Some v \<Rightarrow> v)"

definition explicit_incomplete_response :: "http_response \<Rightarrow> json \<Rightarrow> bool" where
  "explicit_incomplete_response r payload \<longleftrightarrow>
     py_lower (header_flag r ''X-Hermes-Completed'') = ''false''
     \<or> py_lower (header_flag r ''X-Hermes-Partial'') = ''true''
     \<or> header_flag r ''X-Hermes-Error'' \<noteq> []
     \<or> (case json_get payload ''hermes'' of
          Some (JObj kvs) \<Rightarrow>
            map_of kvs ''completed'' = Some (JBool False) \<or> map_of kvs ''partial'' = Some (JBool True) \<or> map_of kvs ''failed'' = Some (JBool True)
            \<or> (case map_of kvs ''error'' of None \<Rightarrow> False | Some e \<Rightarrow> json_truth e)
        | _ \<Rightarrow> False)"

text \<open>\<open>HermesChatCompletionResponse.model_validate\<close>: the content of every choice.\<close>

definition choice_content :: "json \<Rightarrow> string option" where
  "choice_content choice =
     (case json_get choice ''message'' of
        None \<Rightarrow> None
      | Some m \<Rightarrow> if json_get m ''role'' = Some (JStr ''assistant'') then Dispatch_Results.json_str m ''content'' else None)"

fun choice_contents :: "json list \<Rightarrow> string list option" where
  "choice_contents [] = Some []"
| "choice_contents (c # cs) = (case choice_content c of None \<Rightarrow> None | Some s \<Rightarrow> map_option ((#) s) (choice_contents cs))"

definition completion_validate :: "json \<Rightarrow> string list option" where
  "completion_validate payload =
     (case json_get payload ''choices'' of
        Some (JList cs) \<Rightarrow> if cs = [] then None else choice_contents cs
      | _ \<Rightarrow> None)"

definition is_v2_response :: "json \<Rightarrow> bool" where
  "is_v2_response payload \<longleftrightarrow> json_get payload ''response_id'' \<noteq> None \<or> json_get payload ''parts'' \<noteq> None"

definition result_from_response :: "ResponseEnvelope \<Rightarrow> string \<Rightarrow> HermesChatResult" where
  "result_from_response response hermes_thread_id =
     \<lparr>hc_assistant_content = envelope_assistant_content response, hc_hermes_thread_id = hermes_thread_id, hc_response = Some response\<rparr>"

definition answer_result :: "http_response \<Rightarrow> hermes_exception + HermesChatResult" where
  "answer_result r =
     (case (rs_json r, client_thread_id (rs_headers r HERMES_SESSION_HEADER)) of
        (Some payload, Inr effective_thread_id) \<Rightarrow>
          if explicit_incomplete_response r payload then Inl (HermesResponseError CHAT_OPERATION)
          else if \<not> is_v2_response payload
          then (case completion_validate payload of
                  Some (content # _) \<Rightarrow> Inr \<lparr>hc_assistant_content = content, hc_hermes_thread_id = effective_thread_id, hc_response = None\<rparr>
                | _ \<Rightarrow> Inl (HermesResponseError CHAT_OPERATION))
          else (case envelope_validate payload of
                  Some envelope \<Rightarrow> Inr (result_from_response envelope effective_thread_id)
                | None \<Rightarrow> Inl (HermesResponseError CHAT_OPERATION))
      | _ \<Rightarrow> Inl (HermesResponseError CHAT_OPERATION))"

text \<open>A call returns its result and the requests it sent.\<close>

definition client_chat :: "(http_request \<Rightarrow> http_exchange) \<Rightarrow> HermesClient \<Rightarrow> chat_args \<Rightarrow> (hermes_exception + HermesChatResult) \<times> http_request list" where
  "client_chat transport client args =
     (case chat_request client args of
        Inl e \<Rightarrow> (Inl e, [])
      | Inr rq \<Rightarrow> (case exchange_response CHAT_OPERATION (transport rq) of Inl e \<Rightarrow> Inl e | Inr r \<Rightarrow> answer_result r, [rq]))"

definition client_invoke :: "(http_request \<Rightarrow> http_exchange) \<Rightarrow> HermesClient \<Rightarrow> hermes_invocation \<Rightarrow> hermes_exception + HermesChatResult" where
  "client_invoke transport client iv = fst (client_chat transport client (invocation_args iv))"

end
