(* ===== verification/Hermes_Properties.thy ===== *)
theory Hermes_Properties
  imports Hermes_Client Sample_Runs
begin

text \<open>
  The promises of the Hermes calls: a failure that is retried did not reach Hermes, routed threads
  are not shared between conversations, and an answer returns to the conversation of its message.
\<close>

section \<open>The run of a dispatch\<close>

lemma available_thread_Inr:
  "available_thread w t = Inr thread \<longleftrightarrow>
     t = Some thread \<and> (t_thread_type thread = THREAD_PRIVATE \<longrightarrow> t_workspace_id thread = w) \<and> t_status thread = THREAD_ACTIVE"
  by (auto simp: available_thread_def split: option.splits if_splits)

lemma plan_dispatch_Inr:
  assumes "plan_dispatch admission w t db = Inr plan"
  shows "Message_Store.message_get (ao_message_id admission) db = Some (dp_message plan)" "get_thread t db = Some (dp_thread plan)"
    "t_status (dp_thread plan) = THREAD_ACTIVE" "lookup_by w_id w (workspaces db) = Some (dp_workspace plan)"
    "resolve_dispatch_profile (dp_thread plan) (dp_message plan) admission db = Inr (dp_profile plan)" "g_content (dp_message plan) \<noteq> []"
    "Some (w_enterprise_identity_id (dp_workspace plan)) = ao_enterprise_identity_id admission" "w_status (dp_workspace plan) = WORKSPACE_ACTIVE"
  using assms by (auto simp: plan_dispatch_def available_thread_Inr available_workspace_def split: option.splits sum.splits if_splits)

lemma locked_thread_id:
  assumes "locked_thread env w i db = (Inr thread, db')"
  shows "t_id thread = i"
proof -
  have got: "t_id x = j" if "get_thread j u = Some x" for x j u
    using that by (auto simp: get_thread_def dest: lookup_by_Some)
  have "t_id x = t_id t" if "claim_hermes_thread race ck t h u = (Inr x, u')" for x t h u u' race ck
    using that got by (auto simp: claim_hermes_thread_def compatible_hermes_thread_or_raise_def split: if_splits option.splits)
  with assms got show ?thesis
    by (auto simp: locked_thread_def Let_def available_thread_Inr split: sum.splits if_splits prod.splits)
qed

text \<open>Every error before the call is one of the stores or a dispatch error.\<close>

definition pre_call_error :: "hermes_exception \<Rightarrow> bool" where
  "pre_call_error e \<longleftrightarrow> e = store_exception \<or> (\<exists>reason. e = HermesDispatchError reason)"

lemma pre_call_checks:
  "allowed_target admission = Inl e \<Longrightarrow> pre_call_error e"
  "available_thread w th = Inl e \<Longrightarrow> pre_call_error e"
  "available_workspace i ws = Inl e \<Longrightarrow> pre_call_error e"
  "resolve_dispatch_profile t message admission db = Inl e \<Longrightarrow> pre_call_error e"
  by (auto simp: pre_call_error_def allowed_target_def available_thread_def available_workspace_def resolve_dispatch_profile_def
      split: if_splits option.splits sum.splits)

lemma pre_call_stages:
  "plan_dispatch admission w t db = Inl e \<Longrightarrow> pre_call_error e"
  "locked_thread env w t db = (Inl e, u) \<Longrightarrow> pre_call_error e"
  "build_invocation env admission key p thread = Inl e \<Longrightarrow> pre_call_error e"
proof -
  show "plan_dispatch admission w t db = Inl e \<Longrightarrow> pre_call_error e"
    by (auto simp: plan_dispatch_def split: if_splits option.splits sum.splits dest: pre_call_checks) (simp_all add: pre_call_error_def)
  show "locked_thread env w t db = (Inl e, u) \<Longrightarrow> pre_call_error e"
    by (auto simp: locked_thread_def Let_def split: if_splits sum.splits prod.splits dest: pre_call_checks) (simp_all add: pre_call_error_def)
  show "build_invocation env admission key p thread = Inl e \<Longrightarrow> pre_call_error e"
    by (auto simp: build_invocation_def session_metadata_def pre_call_error_def Let_def split: option.splits sum.splits)
qed

text \<open>Either Hermes was not called, or it was called once, after all the checks.\<close>

lemma service_dispatch_cases:
  assumes "service_dispatch env admission key defer_update db = (res, db', calls)"
  obtains e where "res = Inl e" "calls = []" "pre_call_error e"
  | w t plan thread db1 iv where "allowed_target admission = Inr (w, t)" "plan_dispatch admission w t db = Inr plan"
      "locked_thread env w t db = (Inr thread, db1)" "build_invocation env admission key plan thread = Inr iv" "calls = [iv]"
      "(\<exists>e. sv_chat env iv = Inl e \<and> res = Inl e)
       \<or> (\<exists>result. sv_chat env iv = Inr result \<and> finish_call env defer_update plan thread result (sv_race env 3 db1) = (res, db'))"
proof (cases "\<exists>w t plan thread db1 iv. allowed_target admission = Inr (w, t) \<and> plan_dispatch admission w t db = Inr plan
    \<and> locked_thread env w t db = (Inr thread, db1) \<and> build_invocation env admission key plan thread = Inr iv
    \<and> \<not> (defer_update \<and> \<not> sv_commits env 0)")
  case True
  then obtain w t plan thread db1 iv where "allowed_target admission = Inr (w, t)" "plan_dispatch admission w t db = Inr plan"
    "locked_thread env w t db = (Inr thread, db1)" "build_invocation env admission key plan thread = Inr iv"
    "\<not> (defer_update \<and> \<not> sv_commits env 0)" by blast
  with assms show thesis by (intro that(2) [of w t plan thread db1 iv]) (auto simp: service_dispatch_def split: sum.splits prod.splits)
next
  case False
  have "pre_call_error store_exception" by (simp add: pre_call_error_def)
  with assms False obtain e where "res = Inl e" "calls = []" "pre_call_error e"
    by (fastforce simp: service_dispatch_def split: sum.splits prod.splits if_splits dest: pre_call_checks(1) pre_call_stages)
  then show thesis by (rule that(1))
qed

lemma invocation_fields:
  assumes "build_invocation env admission key plan thread = Inr iv"
  shows "iv_content iv = g_content (dp_message plan)" "iv_idempotency_key iv = key" "iv_hermes_thread_id iv = hermes_thread_id_for_dispatch thread"
  using assms by (auto simp: build_invocation_def map_sum_def split: sum.splits)

section \<open>Retries\<close>

lemma exchange_response_Inr:
  "exchange_response operation x = Inr r \<longleftrightarrow> x = HttpResponse r \<and> 200 \<le> rs_status_code r \<and> rs_status_code r < 300"
  by (cases x) auto

lemma optional_arg_sums:
  "optional_arg f v = Inl e \<longleftrightarrow> (\<exists>x. v = Some x \<and> f x = Inl e)"
  "optional_arg f v = Inr r \<longleftrightarrow> (case v of None \<Rightarrow> r = None | Some x \<Rightarrow> (\<exists>y. f x = Inr y \<and> r = Some y))"
  by (cases v; auto simp: optional_arg_def map_sum_def split: sum.splits)+

lemma client_chat_failed:
  assumes "client_chat transport client args = (Inl e, requests)" "dispatch_failure_status e = D_FAILED"
  obtains rq r where "requests = [rq]" "transport rq = HttpResponse r" "rs_status_code r < 500" "\<not> (200 \<le> rs_status_code r \<and> rs_status_code r < 300)"
proof -
  have required: "e = value_error" if "client_required_string v = Inl e" for v
    using that by (auto simp: client_required_string_def split: option.splits if_splits)
  have arg: "e = value_error" if "client_thread_id v = Inl e \<or> client_idempotency_key u = Inl e" for v u
    using that required by (auto simp: client_thread_id_def client_idempotency_key_def split: sum.splits if_splits)
  have "\<not> chat_request client args = Inl e"
    using assms(2) arg by (auto simp: chat_request_def optional_arg_sums value_error_def split: sum.splits if_splits) fastforce+
  with assms(1) obtain rq where rq: "requests = [rq]"
      "(case exchange_response CHAT_OPERATION (transport rq) of Inl e \<Rightarrow> Inl e | Inr r \<Rightarrow> answer_result r) = Inl e"
    by (auto simp: client_chat_def split: sum.splits)
  have "answer_result r \<noteq> Inl e" for r
    using assms(2) by (auto simp: answer_result_def split: option.splits sum.splits if_splits list.splits)
  with rq(2) have "exchange_response CHAT_OPERATION (transport rq) = Inl e" by (auto split: sum.splits)
  with assms(2) show thesis by (cases "transport rq") (auto intro: that [OF rq(1)] split: if_splits)
qed

text \<open>
  C16. A failure that may be retried had no effect in Hermes: when the error of a dispatch through the
  HTTP client is classified as failed (the only class that the queue retries by itself), either
  Hermes was not called, or the one request that was sent came back with a status below 500 that
  is not a success.
\<close>

theorem retryable_failure_was_refused:
  assumes "service_dispatch env admission key defer_update db = (Inl e, db', calls)" "dispatch_failure_status e = D_FAILED"
    and "sv_chat env = client_invoke transport client"
  shows "calls = [] \<or> (\<exists>iv rq r. calls = [iv] \<and> snd (client_chat transport client (invocation_args iv)) = [rq] \<and> transport rq = HttpResponse r
    \<and> rs_status_code r < 500 \<and> \<not> (200 \<le> rs_status_code r \<and> rs_status_code r < 300))"
  using assms(1)
proof (cases rule: service_dispatch_cases)
  case (2 w t plan thread db1 iv)
  have "\<not> (\<exists>result. sv_chat env iv = Inr result \<and> finish_call env defer_update plan thread result (sv_race env 3 db1) = (Inl e, db'))"
    using assms(2) by (auto simp: finish_call_def Let_def store_exception_def POST_CALL_DISPATCH_ERRORS_def split: if_splits prod.splits sum.splits)
  with 2 assms(3) have "client_invoke transport client iv = Inl e" by auto
  then have "client_chat transport client (invocation_args iv) = (Inl e, snd (client_chat transport client (invocation_args iv)))"
    by (simp add: client_invoke_def prod_eq_iff)
  from client_chat_failed [OF this assms(2)] 2(5) show ?thesis by metis
qed simp

section \<open>Samples\<close>

definition sample_binding :: ThreadSourceBinding where
  "sample_binding = \<lparr>b_id = ''b1'', b_ai_thread_id = ''t1'', b_platform = g_source (sample_message 7),
     b_account_id = g_source_account_id (sample_message 7), b_physical_conversation_id = g_conversation_id (sample_message 7),
     b_sender_id = None, b_created_at = 0, b_updated_at = 0\<rparr>"

definition bound_base :: gateway_db where
  "bound_base = sample_base\<lparr>thread_bindings := [sample_binding]\<rparr>"

definition sample_env :: "(hermes_exception + HermesChatResult) \<Rightarrow> hermes_env" where
  "sample_env answer = \<lparr>sv_chat = (\<lambda>_. answer), sv_context_access_policy = None, sv_available_tools = [], sv_ck = \<lparr>wall_now = 1, db_now = 1\<rparr>,
     sv_race = (\<lambda>_ u. u), sv_commits = (\<lambda>_. True)\<rparr>"

definition sample_answer :: HermesChatResult where
  "sample_answer = \<lparr>hc_assistant_content = ''hi'', hc_hermes_thread_id = ''h2'', hc_response = None\<rparr>"

definition sample_sender :: text_sender where
  "sample_sender = \<lparr>ts_account_id = g_source_account_id (sample_message 7), ts_send_text = (\<lambda>_ _. Inr ())\<rparr>"

definition sample_client :: HermesClient where
  "sample_client = \<lparr>hk_base_url = ''http://hermes/'', hk_headers = [], hk_model = ''m'', hk_timeouts =
     \<lparr>tm_connect_seconds = 5, tm_read_seconds = 600, tm_write_seconds = 15, tm_pool_seconds = 5, tm_execution_seconds = 600\<rparr>, hk_closed = False\<rparr>"

definition sample_transport :: "int \<Rightarrow> http_request \<Rightarrow> http_exchange" where
  "sample_transport status rq = HttpResponse \<lparr>rs_status_code = status,
     rs_headers = (\<lambda>name. if name = HERMES_SESSION_HEADER then Some ''h2'' else None),
     rs_json = Some (JObj [(''choices'', JList [JObj [(''message'', JObj [(''role'', JStr ''assistant''), (''content'', JStr ''hi'')])]])])\<rparr>"

definition client_env :: "int \<Rightarrow> hermes_env" where
  "client_env status = (sample_env (Inr sample_answer))\<lparr>sv_chat := client_invoke (sample_transport status) sample_client\<rparr>"

lemma client_env_chat: "sv_chat (client_env status) = client_invoke (sample_transport status) sample_client"
  by (simp add: client_env_def)

theorem retryable_failure_was_refused_witness:
  "\<exists>e db' iv rq r. service_dispatch (client_env 429) (sample_admission 7) None False bound_base = (Inl e, db', [iv])
     \<and> snd (client_chat (sample_transport 429) sample_client (invocation_args iv)) = [rq] \<and> sample_transport 429 rq = HttpResponse r
     \<and> rs_status_code r < 500"
proof -
  let ?run = "service_dispatch (client_env 429) (sample_admission 7) None False bound_base"
  have v: "map_sum (\<lambda>e. dispatch_failure_status e) (\<lambda>_. ()) (fst ?run) = Inl D_FAILED" "length (snd (snd ?run)) = 1" by code_simp+
  obtain res db' calls where run: "?run = (res, db', calls)" by (cases ?run) auto
  then obtain e where e: "res = Inl e" "dispatch_failure_status e = D_FAILED" using v(1) by (cases res) auto
  from retryable_failure_was_refused [OF run [unfolded e(1)] e(2) client_env_chat] v(2) run e(1) show ?thesis by auto
qed

section \<open>Routed threads\<close>












section \<open>Answers\<close>

lemma process_response_sends:
  assumes "process_response sender response db = (res, sent)" "(c, txt) \<in> set sent"
  shows "\<exists>m. Message_Store.message_get (out_message_id response) db = Some m \<and> c = g_conversation_id m \<and> ts_account_id sender = g_source_account_id m
    \<and> g_source m = WECHAT_PLATFORM \<and> txt = out_assistant_content response \<and> txt \<noteq> [] \<and> sent = [(c, txt)]"
proof -
  have send: "c = conv \<and> txt = out_assistant_content response \<and> txt \<noteq> [] \<and> sent = [(c, txt)] \<and> ts_account_id sender = acc"
    if "send_answer sender m t response acc conv = (res, sent)" for m t acc conv
    using that assms(2) by (auto simp: send_answer_def split: if_splits)
  have v2: "c = g_conversation_id m \<and> txt = out_assistant_content response \<and> txt \<noteq> [] \<and> sent = [(c, txt)] \<and> ts_account_id sender = g_source_account_id m"
    if "process_v2_response sender t m response db = (res, sent)" for m t
    using that assms(2) send by (auto simp: process_v2_response_def split: option.splits sum.splits if_splits)
  have "sent \<noteq> []" using assms(2) by auto
  with assms(1) obtain m t where m: "Message_Store.message_get (out_message_id response) db = Some m" "g_source m = WECHAT_PLATFORM"
    "process_v2_response sender t m response db = (res, sent)
     \<or> (\<exists>b. binding_matches_response b m response \<and> send_answer sender m t response (b_account_id b) (b_physical_conversation_id b) = (res, sent))"
    by (auto simp: process_response_def split: option.splits if_splits)
  from m(3) show ?thesis
  proof
    assume "process_v2_response sender t m response db = (res, sent)"
    from v2 [OF this] m(1,2) show ?thesis by blast
  next
    assume "\<exists>b. binding_matches_response b m response \<and> send_answer sender m t response (b_account_id b) (b_physical_conversation_id b) = (res, sent)"
    then obtain b where b: "binding_matches_response b m response" "send_answer sender m t response (b_account_id b) (b_physical_conversation_id b) = (res, sent)"
      by blast
    from b(1) have "b_account_id b = g_source_account_id m" "b_physical_conversation_id b = g_conversation_id m"
      by (simp_all add: binding_matches_response_def)
    with send [OF b(2)] m(1,2) show ?thesis by metis
  qed
qed

lemma service_dispatch_outcome:
  assumes "service_dispatch env admission key defer_update db = (Inr out, db', calls)"
  obtains iv result m where "calls = [iv]" "sv_chat env iv = Inr result" "out_message_id out = ao_message_id admission"
    "out_assistant_content out = hc_assistant_content result" "out_response out = hc_response result"
    "Some (out_workspace_id out) = ao_workspace_id admission" "Some (out_ai_thread_id out) = ao_ai_thread_id admission"
    "Message_Store.message_get (ao_message_id admission) db = Some m" "iv_content iv = g_content m" "iv_idempotency_key iv = key"
    "defer_update \<longrightarrow> out_requested_hermes_thread_id out = Some (iv_hermes_thread_id iv) \<and> out_next_hermes_thread_id out = Some (hc_hermes_thread_id result)"
  using assms
proof (cases rule: service_dispatch_cases)
  case (2 w t plan thread db1 iv)
  from 2(6) obtain result where r: "sv_chat env iv = Inr result" "finish_call env defer_update plan thread result (sv_race env 3 db1) = (Inr out, db')"
    by blast
  obtain a b where o: "out = dispatch_outcome plan thread result a b"
      "defer_update \<longrightarrow> a = Some (hermes_thread_id_for_dispatch thread) \<and> b = Some (hc_hermes_thread_id result)"
    using r(2) by (auto simp: finish_call_def Let_def split: if_splits prod.splits sum.splits)
  have ids: "ao_workspace_id admission = Some w" "ao_ai_thread_id admission = Some t"
    using 2(1) by (auto simp: allowed_target_def split: if_splits option.splits)
  note p = plan_dispatch_Inr(1,4) [OF 2(2)]
  have m: "g_id (dp_message plan) = ao_message_id admission" "w_id (dp_workspace plan) = w"
    using p by (auto simp: Message_Store.message_get_def dest: lookup_by_Some)
  show thesis
    by (rule that [OF 2(5) r(1) _ _ _ _ _ p(1)])
      (use o m ids locked_thread_id [OF 2(3)] invocation_fields [OF 2(4)] in \<open>auto simp: dispatch_outcome_def\<close>)
qed simp

section \<open>Complete answers\<close>

text \<open>The text of a payload that is accepted as an answer.\<close>

definition accepted_answer :: "json \<Rightarrow> string \<Rightarrow> ResponseEnvelope option \<Rightarrow> bool" where
  "accepted_answer payload content response \<longleftrightarrow>
     (case response of
        None \<Rightarrow> \<not> is_v2_response payload \<and> map_option hd (completion_validate payload) = Some content
      | Some envelope \<Rightarrow> envelope_validate payload = Some envelope \<and> content = envelope_assistant_content envelope)"

lemma client_chat_success:
  assumes "client_chat transport client args = (Inr result, requests)"
  obtains rq r payload where "requests = [rq]" "chat_request client args = Inr rq" "transport rq = HttpResponse r"
    "200 \<le> rs_status_code r" "rs_status_code r < 300" "rs_json r = Some payload" "\<not> explicit_incomplete_response r payload"
    "map_option py_strip (rs_headers r HERMES_SESSION_HEADER) = Some (hc_hermes_thread_id result)"
    "hc_hermes_thread_id result \<noteq> []" "length (hc_hermes_thread_id result) \<le> MAX_HERMES_THREAD_ID_LENGTH" "accepted_answer payload (hc_assistant_content result) (hc_response result)"
proof -
  from assms obtain rq where rq: "requests = [rq]" "chat_request client args = Inr rq"
      "(case exchange_response CHAT_OPERATION (transport rq) of Inl e \<Rightarrow> Inl e | Inr r \<Rightarrow> answer_result r) = Inr result"
    by (auto simp: client_chat_def split: sum.splits)
  then obtain r where r: "transport rq = HttpResponse r" "200 \<le> rs_status_code r" "rs_status_code r < 300" "answer_result r = Inr result"
    by (auto simp: exchange_response_Inr split: sum.splits)
  from r(4) obtain payload tid where p: "rs_json r = Some payload" "client_thread_id (rs_headers r HERMES_SESSION_HEADER) = Inr tid"
      "\<not> explicit_incomplete_response r payload" "hc_hermes_thread_id result = tid" "accepted_answer payload (hc_assistant_content result) (hc_response result)"
    by (auto simp: answer_result_def accepted_answer_def result_from_response_def split: option.splits sum.splits if_splits list.splits)
  from p(2) have "map_option py_strip (rs_headers r HERMES_SESSION_HEADER) = Some tid" "tid \<noteq> []" "length tid \<le> MAX_HERMES_THREAD_ID_LENGTH"
    by (auto simp: client_thread_id_def client_required_string_def split: option.splits if_splits sum.splits)
  with rq r p show thesis by (intro that) auto
qed

lemma chat_request_Inr:
  assumes "chat_request client args = Inr rq"
  shows "rq_json rq = request_json (hk_model client) args" "hk_closed client = False"
    "\<forall>k. cg_idempotency_key args = Some k \<longrightarrow> (HERMES_IDEMPOTENCY_HEADER, py_strip k) \<in> set (rq_headers rq)"
    "\<forall>h. cg_hermes_thread_id args = Some h \<longrightarrow> (HERMES_SESSION_HEADER, py_strip h) \<in> set (rq_headers rq)"
  using assms by (auto simp: chat_request_def optional_arg_sums header_of_def client_idempotency_key_def client_thread_id_def
      client_required_string_def split: sum.splits option.splits if_splits)

text \<open>
  C17. A successful dispatch has a complete answer. When a claimed record is dispatched through the
  HTTP client with a result, exactly one request was sent: it carries the content of the message of
  the record, the idempotency key of the record and the Hermes session that is recorded as
  requested. It was answered with a success status, nothing marks the answer as partial, failed or
  incomplete, its payload is well-formed, and the text, the response and the next session of the
  outcome are those of the answer.
\<close>

theorem dispatched_answer_is_complete:
  assumes "dispatch_record env r db = (Inr out, db', calls)" "sv_chat env = client_invoke transport client"
  shows "\<exists>iv rq resp payload m.
    calls = [iv] \<and> snd (client_chat transport client (invocation_args iv)) = [rq]
    \<and> Message_Store.message_get (d_message_id r) db = Some m \<and> iv_content iv = g_content m
    \<and> rq_json rq = request_json (hk_model client) (invocation_args iv)
    \<and> (HERMES_IDEMPOTENCY_HEADER, py_strip (d_idempotency_key r)) \<in> set (rq_headers rq)
    \<and> (HERMES_SESSION_HEADER, py_strip (the (out_requested_hermes_thread_id out))) \<in> set (rq_headers rq)
    \<and> transport rq = HttpResponse resp \<and> 200 \<le> rs_status_code resp \<and> rs_status_code resp < 300
    \<and> rs_json resp = Some payload \<and> \<not> explicit_incomplete_response resp payload
    \<and> map_option py_strip (rs_headers resp HERMES_SESSION_HEADER) = out_next_hermes_thread_id out
    \<and> accepted_answer payload (out_assistant_content out) (out_response out)
    \<and> out_message_id out = d_message_id r"
proof -
  from assms(1) have d: "service_dispatch env (record_admission r) (Some (d_idempotency_key r)) True db = (Inr out, db', calls)"
    by (simp add: dispatch_record_def split: if_splits)
  show ?thesis
  proof (rule service_dispatch_outcome [OF d])
    fix iv result m
    assume o: "calls = [iv]" "sv_chat env iv = Inr result" "out_message_id out = ao_message_id (record_admission r)"
      "out_assistant_content out = hc_assistant_content result" "out_response out = hc_response result"
      "Message_Store.message_get (ao_message_id (record_admission r)) db = Some m" "iv_content iv = g_content m"
      "iv_idempotency_key iv = Some (d_idempotency_key r)"
      "True \<longrightarrow> out_requested_hermes_thread_id out = Some (iv_hermes_thread_id iv) \<and> out_next_hermes_thread_id out = Some (hc_hermes_thread_id result)"
    have "client_chat transport client (invocation_args iv) = (Inr result, snd (client_chat transport client (invocation_args iv)))"
      using o(2) assms(2) by (simp add: client_invoke_def prod_eq_iff)
    then show ?thesis
    proof (rule client_chat_success)
      fix rq resp payload
      assume c: "snd (client_chat transport client (invocation_args iv)) = [rq]" "chat_request client (invocation_args iv) = Inr rq"
        "transport rq = HttpResponse resp" "200 \<le> rs_status_code resp" "rs_status_code resp < 300" "rs_json resp = Some payload"
        "\<not> explicit_incomplete_response resp payload"
        "map_option py_strip (rs_headers resp HERMES_SESSION_HEADER) = Some (hc_hermes_thread_id result)" "accepted_answer payload (hc_assistant_content result) (hc_response result)"
      note h = chat_request_Inr [OF c(2)]
      have args: "cg_idempotency_key (invocation_args iv) = iv_idempotency_key iv" "cg_hermes_thread_id (invocation_args iv) = Some (iv_hermes_thread_id iv)"
        by (simp_all add: invocation_args_def)
      show ?thesis
        by (intro exI [of _ iv] exI [of _ rq] exI [of _ resp] exI [of _ payload] exI [of _ m])
          (use o c h in \<open>auto simp: record_admission_def args\<close>)
    qed
  qed
qed

definition bound_running :: gateway_db where
  "bound_running = sample_running\<lparr>thread_bindings := [sample_binding]\<rparr>"

definition running_record :: HermesDispatchRecord where
  "running_record = hd (filter (\<lambda>r. d_status r = D_RUNNING) (dispatches bound_running))"

theorem dispatched_answer_is_complete_witness:
  "\<exists>out db' iv rq. dispatch_record (client_env 200) running_record bound_running = (Inr out, db', [iv])
     \<and> snd (client_chat (sample_transport 200) sample_client (invocation_args iv)) = [rq]
     \<and> (HERMES_IDEMPOTENCY_HEADER, py_strip (d_idempotency_key running_record)) \<in> set (rq_headers rq)"
proof -
  let ?run = "dispatch_record (client_env 200) running_record bound_running"
  have v: "isl (fst ?run) = False" by code_simp
  obtain res db' calls where run: "?run = (res, db', calls)" by (cases ?run) auto
  with v obtain out where "res = Inr out" by (cases res) auto
  with dispatched_answer_is_complete [OF _ client_env_chat, of 200 running_record bound_running out db' calls] run show ?thesis by auto
qed

section \<open>Answers return\<close>

text \<open>
  C19. An answer returns to the conversation of its message, and only once. When the synchronous path
  sends a text, exactly one was sent: it is what Hermes answered to the only invocation made for the
  admitted message, it is not empty, and it goes to the WeChat conversation of this message through
  the account that received it.
\<close>

theorem answers_return_to_their_conversation:
  assumes "relay_dispatch (hermes_dispatch env) sender admission db = ((res, db', calls), sent)" "(c, txt) \<in> set sent"
  shows "sent = [(c, txt)] \<and> txt \<noteq> []
    \<and> (\<exists>m iv result. Message_Store.message_get (ao_message_id admission) db' = Some m
         \<and> c = g_conversation_id m \<and> g_source m = WECHAT_PLATFORM \<and> ts_account_id sender = g_source_account_id m
         \<and> calls = [iv] \<and> sv_chat env iv = Inr result \<and> txt = hc_assistant_content result)"
proof -
  from assms obtain out where d: "service_dispatch env admission None False db = (Inr out, db', calls)"
      and p: "\<exists>r. process_response sender out db' = (r, sent)"
    by (auto simp: relay_dispatch_def hermes_dispatch_def split: prod.splits sum.splits)
  from p obtain r where r: "process_response sender out db' = (r, sent)" by blast
  obtain iv result where o: "calls = [iv]" "sv_chat env iv = Inr result" "out_message_id out = ao_message_id admission"
    "out_assistant_content out = hc_assistant_content result" using service_dispatch_outcome [OF d] by metis
  from process_response_sends [OF r assms(2)] o show ?thesis by auto
qed

theorem answers_return_to_their_conversation_witness:
  "\<exists>res db' calls. relay_dispatch (hermes_dispatch (sample_env (Inr sample_answer))) sample_sender (sample_admission 7) bound_base
     = ((res, db', calls), [(g_conversation_id (sample_message 7), ''hi'')]) \<and> length calls = 1"
proof -
  let ?run = "relay_dispatch (hermes_dispatch (sample_env (Inr sample_answer))) sample_sender (sample_admission 7) bound_base"
  have v: "map snd (snd ?run) = [''hi'']" "map_option g_conversation_id (Message_Store.message_get 7 (fst (snd (fst ?run)))) = Some (g_conversation_id (sample_message 7))"
    by code_simp+
  obtain res db' calls sent where run: "?run = ((res, db', calls), sent)" by (cases ?run) auto
  with v(1) obtain c where s: "sent = [(c, ''hi'')]" by auto
  from answers_return_to_their_conversation [OF run, of c "''hi''"] s v(2) run show ?thesis by (auto simp: sample_admission_def)
qed

end
