(* ===== verification/Wechat_Http.thy ===== *)
theory Wechat_Http
  imports Python_Text Delivery_Worker Wechat_Messages
begin

text \<open>
  The HTTP client of agent-wechat and the senders of the delivery worker (\<open>adapters/wechat/client.py\<close>,
  \<open>outbound_http.py\<close>, \<open>media_http.py\<close>). The transport is an argument: what \<open>httpx\<close> makes of a request.
  A send returns its result and the requests it made, in order. JSON numbers are integers.
\<close>

section \<open>Exchanges\<close>

record wx_request =
  wq_method :: string
  wq_endpoint :: string
  wq_json :: "json option"

record wx_response =
  wr_status_code :: int
  wr_empty :: bool
  wr_json :: "json option"

datatype wx_exchange = WxTimeout | WxRequestError | WxRaised | WxResponse wx_response

fun wx_response_of :: "string \<Rightarrow> wx_exchange \<Rightarrow> delivery_exception + wx_response" where
  "wx_response_of operation WxTimeout = Inl (WechatTimeoutError operation)"
| "wx_response_of operation WxRequestError = Inl (WechatTransportError operation)"
| "wx_response_of operation WxRaised = Inl (delivery_exception.OtherError None)"
| "wx_response_of operation (WxResponse r) =
     (if \<not> (200 \<le> wr_status_code r \<and> wr_status_code r < 300) then Inl (WechatAPIError operation (wr_status_code r)) else Inr r)"

definition wx_json :: "string \<Rightarrow> wx_response \<Rightarrow> delivery_exception + json" where
  "wx_json operation r = (case wr_json r of None \<Rightarrow> Inl (WechatResponseError operation) | Some j \<Rightarrow> Inr j)"

definition wx_get :: "string \<Rightarrow> wx_request" where
  "wx_get endpoint = \<lparr>wq_method = ''GET'', wq_endpoint = endpoint, wq_json = None\<rparr>"

definition wx_fetch :: "(wx_request \<Rightarrow> wx_exchange) \<Rightarrow> string \<Rightarrow> string \<Rightarrow> delivery_exception + json" where
  "wx_fetch transport endpoint operation =
     (case wx_response_of operation (transport (wx_get endpoint)) of Inl e \<Rightarrow> Inl e | Inr r \<Rightarrow> wx_json operation r)"

definition json_is_object :: "json \<Rightarrow> bool" where "json_is_object j = (case j of JObj _ \<Rightarrow> True | _ \<Rightarrow> False)"

section \<open>The client\<close>

definition wx_required_string :: "string \<Rightarrow> delivery_exception + string" where
  "wx_required_string v = (if py_strip v = [] then Inl PlainValueError else Inr (py_strip v))"

definition py_isprintable :: "char \<Rightarrow> bool" where
  "py_isprintable c = (let n = (of_char c :: nat) in 32 \<le> n \<and> \<not> (127 \<le> n \<and> n \<le> 160) \<and> n \<noteq> 173)"

definition auth_identifier :: "nat \<Rightarrow> string \<Rightarrow> bool" where
  "auth_identifier bound s \<longleftrightarrow> 1 \<le> length s \<and> length s \<le> bound \<and> list_all (\<lambda>c. py_isprintable c \<and> \<not> py_isspace c) s"

text \<open>\<open>AgentWechatAuthStatus.model_validate\<close>: a field is given by its alias or its name.\<close>

definition auth_validate :: "json \<Rightarrow> AgentWechatAuthStatus option" where
  "auth_validate j =
     (let user = (case json_get j ''loggedInUser'' of Some v \<Rightarrow> Some v | None \<Rightarrow> json_get j ''logged_in_user'');
          logged_in_user = (case user of
                              None \<Rightarrow> Some None
                            | Some JNull \<Rightarrow> Some None
                            | Some (JStr s) \<Rightarrow> if auth_identifier 255 s then Some (Some s) else None
                            | Some _ \<Rightarrow> None) in
      case (logged_in_user, json_get j ''status'') of
        (Some u, Some (JStr s)) \<Rightarrow> if auth_identifier 64 s then Some \<lparr>au_logged_in_user = u, au_status = s\<rparr> else None
      | _ \<Rightarrow> None)"

definition reports_failure :: "json \<Rightarrow> bool" where
  "reports_failure j \<longleftrightarrow>
     json_get j ''success'' = Some (JBool False) \<or> json_get j ''error'' \<notin> {None, Some JNull, Some (JStr [])}"

definition AUTH_ENDPOINT :: string where "AUTH_ENDPOINT = ''api/status/auth''"

definition get_auth_status :: "(wx_request \<Rightarrow> wx_exchange) \<Rightarrow> delivery_exception + AgentWechatAuthStatus" where
  "get_auth_status transport =
     (let failed = Inl (WechatResponseError ''get_auth_status'') in
      case wx_fetch transport AUTH_ENDPOINT ''get_auth_status'' of
        Inl e \<Rightarrow> Inl e
      | Inr payload \<Rightarrow>
          if json_is_object payload \<and> reports_failure payload then failed
          else
            (let candidate = (if json_is_object payload \<and> json_get payload ''status'' = None
                              then (case json_get payload ''data'' of None \<Rightarrow> JNull | Some d \<Rightarrow> d) else payload) in
             if \<not> json_is_object candidate \<or> reports_failure candidate then failed
             else (case auth_validate candidate of None \<Rightarrow> failed | Some st \<Rightarrow> Inr st)))"

definition list_payload :: "json \<Rightarrow> string \<Rightarrow> string \<Rightarrow> delivery_exception + json list" where
  "list_payload payload key operation =
     (case payload of
        JList items \<Rightarrow> Inr items
      | JObj _ \<Rightarrow>
          (case (json_get payload key, json_get payload ''data'') of
             (Some (JList items), _) \<Rightarrow> Inr items
           | (_, Some (JList items)) \<Rightarrow> Inr items
           | (_, Some (JObj kvs)) \<Rightarrow>
               (case map_of kvs key of Some (JList items) \<Rightarrow> Inr items | _ \<Rightarrow> Inl (WechatResponseError operation))
           | _ \<Rightarrow> Inl (WechatResponseError operation))
      | _ \<Rightarrow> Inl (WechatResponseError operation))"

definition list_chats :: "(wx_request \<Rightarrow> wx_exchange) \<Rightarrow> delivery_exception + json list" where
  "list_chats transport =
     (case wx_fetch transport ''api/chats'' ''list_chats'' of
        Inl e \<Rightarrow> Inl e
      | Inr payload \<Rightarrow>
          (case list_payload payload ''chats'' ''list_chats'' of
             Inl e \<Rightarrow> Inl e
           | Inr items \<Rightarrow> if list_all json_is_object items then Inr items else Inl (WechatResponseError ''list_chats'')))"

text \<open>\<open>quote(normalized, safe="")\<close>: unlike in thread keys the at sign is escaped.\<close>

definition path_char :: "char \<Rightarrow> string" where
  "path_char c = (if segment_safe c \<and> c \<noteq> CHR ''@'' then [c] else concat (map percent_byte (utf8_char c)))"

definition path_segment :: "string \<Rightarrow> delivery_exception + string" where
  "path_segment v = map_sum id (\<lambda>s. concat (map path_char s)) (wx_required_string v)"

record AgentWechatMedia =
  am_media_type :: string
  am_data :: "string option"
  am_format :: "string option"
  am_filename :: "string option"
  am_supported :: bool

definition optional_response_string :: "json \<Rightarrow> string \<Rightarrow> string \<Rightarrow> delivery_exception + string option" where
  "optional_response_string payload key operation =
     (case json_get payload key of
        None \<Rightarrow> Inr None | Some JNull \<Rightarrow> Inr None | Some (JStr s) \<Rightarrow> Inr (Some s) | _ \<Rightarrow> Inl (WechatResponseError operation))"

definition media_of_payload :: "json \<Rightarrow> delivery_exception + AgentWechatMedia" where
  "media_of_payload payload =
     (let operation = ''get_media''; failed = Inl (WechatResponseError operation) in
      case json_get payload ''type'' of
        Some (JStr media_type) \<Rightarrow>
          if py_strip media_type = [] then failed
          else
            (case (optional_response_string payload ''format'' operation, optional_response_string payload ''filename'' operation) of
               (Inr media_format, Inr filename) \<Rightarrow>
                 if media_type = ''unsupported''
                 then Inr \<lparr>am_media_type = media_type, am_data = None, am_format = media_format, am_filename = filename, am_supported = False\<rparr>
                 else
                   (case json_get payload ''data'' of
                      Some (JStr encoded_data) \<Rightarrow>
                        (case b64decode encoded_data of
                           None \<Rightarrow> failed
                         | Some bs \<Rightarrow> Inr \<lparr>am_media_type = media_type, am_data = Some bs, am_format = media_format, am_filename = filename,
                                           am_supported = True\<rparr>)
                    | _ \<Rightarrow> failed)
             | _ \<Rightarrow> failed)
      | _ \<Rightarrow> failed)"

definition get_media :: "(wx_request \<Rightarrow> wx_exchange) \<Rightarrow> string \<Rightarrow> string \<Rightarrow> delivery_exception + AgentWechatMedia" where
  "get_media transport chat_id local_id =
     (case (path_segment chat_id, path_segment local_id) of
        (Inr chat, Inr local) \<Rightarrow>
          (case wx_fetch transport (''api/messages/'' @ chat @ ''/media/'' @ local) ''get_media'' of
             Inl e \<Rightarrow> Inl e
           | Inr payload \<Rightarrow> media_of_payload payload)
      | _ \<Rightarrow> Inl PlainValueError)"

text \<open>\<open>list_messages\<close>; \<open>model_validate\<close> of \<open>RawWechatMessage\<close> is an argument.\<close>

definition list_messages ::
  "(json \<Rightarrow> RawWechatMessage option) \<Rightarrow> (wx_request \<Rightarrow> wx_exchange) \<Rightarrow> string \<Rightarrow> delivery_exception + RawWechatMessage list"
where
  "list_messages model_validate transport chat_id =
     (case path_segment chat_id of
        Inl e \<Rightarrow> Inl e
      | Inr chat \<Rightarrow>
     (case wx_fetch transport (''api/messages/'' @ chat) ''list_messages'' of
        Inl e \<Rightarrow> Inl e
      | Inr payload \<Rightarrow>
     (case list_payload payload ''messages'' ''list_messages'' of
        Inl e \<Rightarrow> Inl e
      | Inr items \<Rightarrow>
          (case those (map model_validate items) of
             None \<Rightarrow> Inl (WechatResponseError ''list_messages'')
           | Some ms \<Rightarrow> Inr ms))))"

section \<open>Sending\<close>

definition bearer_token :: "string \<Rightarrow> delivery_exception + string" where
  "bearer_token v =
     (case wx_required_string v of
        Inl e \<Rightarrow> Inl e
      | Inr token \<Rightarrow>
          if list_all (\<lambda>c. 0x21 \<le> (of_char c :: nat) \<and> (of_char c :: nat) \<le> 0x7E) token then Inr token else Inl PlainValueError)"

fun is_adapter_error :: "delivery_exception \<Rightarrow> bool" where
  "is_adapter_error (WechatAPIError _ _) = True"
| "is_adapter_error (WechatTransportError _) = True"
| "is_adapter_error (WechatTimeoutError _) = True"
| "is_adapter_error (WechatResponseError _) = True"
| "is_adapter_error WechatPreSendAuthError = True"
| "is_adapter_error WechatAccountMismatchError = True"
| "is_adapter_error WechatNormalizationError = True"
| "is_adapter_error _ = False"

definition verify_current_account :: "(wx_request \<Rightarrow> wx_exchange) \<Rightarrow> string \<Rightarrow> delivery_exception option" where
  "verify_current_account transport account_id =
     (case map_sum id auth_source_account_id (get_auth_status transport) of
        Inl e \<Rightarrow> Some (if is_adapter_error e then WechatPreSendAuthError else e)
      | Inr None \<Rightarrow> Some WechatPreSendAuthError
      | Inr (Some current) \<Rightarrow> if current \<noteq> account_id then Some WechatAccountMismatchError else None)"

definition SEND_ENDPOINT :: string where "SEND_ENDPOINT = ''api/messages/send''"

definition wx_post :: "json \<Rightarrow> wx_request" where
  "wx_post payload = \<lparr>wq_method = ''POST'', wq_endpoint = SEND_ENDPOINT, wq_json = Some payload\<rparr>"

text \<open>What the answer of a send means: nothing, the payload that reports success, or an error.\<close>

definition sent_receipt :: "string \<Rightarrow> wx_response \<Rightarrow> delivery_exception + raw_receipt" where
  "sent_receipt operation r =
     (if wr_status_code r = 204 then Inr ReceiptNone
      else if wr_empty r then Inl (WechatResponseError operation)
      else
        (case wr_json r of
           Some (JObj kvs) \<Rightarrow>
             if map_of kvs ''success'' = Some (JBool True) then Inr (ReceiptMapping (Some kvs)) else Inl (WechatResponseError operation)
         | _ \<Rightarrow> Inl (WechatResponseError operation)))"

text \<open>\<open>AgentWechatClient.send_text\<close>, which accepts every payload that is an object.\<close>

definition client_send_text :: "(wx_request \<Rightarrow> wx_exchange) \<Rightarrow> string \<Rightarrow> string \<Rightarrow> delivery_exception + json option" where
  "client_send_text transport chat_id content =
     (case wx_required_string chat_id of
        Inl e \<Rightarrow> Inl e
      | Inr chat \<Rightarrow>
          if content = [] then Inl PlainValueError
          else
            (case wx_response_of ''send_text'' (transport (wx_post (JObj [(''chatId'', JStr chat), (''text'', JStr content)]))) of
               Inl e \<Rightarrow> Inl e
             | Inr r \<Rightarrow>
                 if wr_empty r then Inr None
                 else
                   (case wx_json ''send_text'' r of
                      Inl e \<Rightarrow> Inl e
                    | Inr payload \<Rightarrow> if json_is_object payload then Inr (Some payload) else Inl (WechatResponseError ''send_text''))))"

type_synonym wx_send = "(delivery_exception + raw_receipt) \<times> wx_request list"

definition verified_send :: "(wx_request \<Rightarrow> wx_exchange) \<Rightarrow> string \<Rightarrow> string \<Rightarrow> json \<Rightarrow> wx_send" where
  "verified_send transport account_id operation payload =
     (let auth = wx_get AUTH_ENDPOINT in
      case verify_current_account transport account_id of
        Some e \<Rightarrow> (Inl e, [auth])
      | None \<Rightarrow>
          ((case wx_response_of operation (transport (wx_post payload)) of Inl e \<Rightarrow> Inl e | Inr r \<Rightarrow> sent_receipt operation r),
           [auth, wx_post payload]))"

definition wechat_send_text :: "(wx_request \<Rightarrow> wx_exchange) \<Rightarrow> string \<Rightarrow> string \<Rightarrow> string \<Rightarrow> wx_send" where
  "wechat_send_text transport account_id conversation_id content =
     (case wx_required_string conversation_id of
        Inl e \<Rightarrow> (Inl e, [])
      | Inr chat_id \<Rightarrow>
          if content = [] then (Inl PlainValueError, [])
          else verified_send transport account_id ''send_text'' (JObj [(''chatId'', JStr chat_id), (''text'', JStr content)]))"

subsection \<open>Media\<close>

definition MAX_MEDIA_BYTES :: nat where "MAX_MEDIA_BYTES = 25 * 1024 * 1024"
definition IMAGE_MIME_TYPES :: "string list" where "IMAGE_MIME_TYPES = [''image/gif'', ''image/jpeg'', ''image/png'']"

datatype WechatMediaType = MEDIA_IMAGE | MEDIA_FILE

datatype media_value = MediaBytes string | MediaText string

definition media_size_limit :: "py_num \<Rightarrow> nat option" where
  "media_size_limit v = (case v of PyInt n \<Rightarrow> if 1 \<le> n \<and> n \<le> int MAX_MEDIA_BYTES then Some (nat n) else None | _ \<Rightarrow> None)"

definition media_type_of :: "string \<Rightarrow> WechatMediaType option" where
  "media_type_of v =
     (let normalized = py_lower (py_strip v) in
      if normalized = ''image'' then Some MEDIA_IMAGE else if normalized = ''file'' then Some MEDIA_FILE else None)"

definition mime_first :: "char \<Rightarrow> bool" where
  "mime_first c = (let n = (of_char c :: nat) in (48 \<le> n \<and> n \<le> 57) \<or> (65 \<le> n \<and> n \<le> 90) \<or> (97 \<le> n \<and> n \<le> 122))"

definition mime_name :: "string \<Rightarrow> bool" where
  "mime_name s = (case s of [] \<Rightarrow> False | c # cs \<Rightarrow> mime_first c \<and> length cs \<le> 126 \<and> list_all (\<lambda>d. mime_first d \<or> d \<in> set ''!#$&^_.+-'') cs)"

definition mime_type_of :: "string \<Rightarrow> string option" where
  "mime_type_of v =
     (let normalized = py_lower v; kind = takeWhile (\<lambda>c. c \<noteq> CHR ''/'') normalized; rest = dropWhile (\<lambda>c. c \<noteq> CHR ''/'') normalized in
      if v = [] \<or> v \<noteq> py_strip v then None else if mime_name kind \<and> rest \<noteq> [] \<and> mime_name (tl rest) then Some normalized else None)"

definition media_data :: "nat \<Rightarrow> media_value \<Rightarrow> (string \<times> string) option" where
  "media_data max_bytes v =
     (case v of
        MediaBytes bs \<Rightarrow> if bs = [] \<or> length bs > max_bytes then None else Some (b64encode bs, bs)
      | MediaText s \<Rightarrow>
          if s = [] \<or> length s > 4 * ((max_bytes + 2) div 3) then None
          else
            (case b64decode s of
               None \<Rightarrow> None
             | Some bs \<Rightarrow> if bs = [] \<or> length bs > max_bytes \<or> b64encode bs \<noteq> s then None else Some (s, bs)))"

definition starts_with :: "nat list \<Rightarrow> string \<Rightarrow> bool" where
  "starts_with codes bs \<longleftrightarrow> map of_char (take (length codes) bs) = codes"

definition image_signature_ok :: "string \<Rightarrow> string \<Rightarrow> bool" where
  "image_signature_ok bs mime_type =
     (if mime_type = ''image/png'' then starts_with [0x89, 80, 78, 71, 13, 10, 0x1A, 10] bs
      else if mime_type = ''image/jpeg'' then starts_with [0xFF, 0xD8, 0xFF] bs
      else if mime_type = ''image/gif'' then take 6 bs = ''GIF87a'' \<or> take 6 bs = ''GIF89a''
      else False)"

definition WINDOWS_INVALID_FILENAME_CHARACTERS :: string where
  "WINDOWS_INVALID_FILENAME_CHARACTERS = [CHR ''<'', CHR ''>'', CHR '':'', CHR 0x22, CHR ''/'', CHR 0x5C, CHR ''|'', CHR ''?'', CHR ''*'']"

definition WINDOWS_RESERVED_FILENAMES :: "string list" where
  "WINDOWS_RESERVED_FILENAMES =
     [''AUX'', ''CON'', ''CONIN$'', ''CONOUT$'', ''NUL'', ''PRN'']
     @ concat (map (\<lambda>prefix. map (\<lambda>c. prefix @ [c]) (''123456789'' @ [CHR 0xB9, CHR 0xB2, CHR 0xB3])) [''COM'', ''LPT''])"

text \<open>\<open>unicodedata.category\<close> starting with C, below 256.\<close>

definition category_other :: "char \<Rightarrow> bool" where
  "category_other c = (let n = (of_char c :: nat) in n < 32 \<or> (127 \<le> n \<and> n \<le> 159) \<or> n = 173)"

definition media_filename_ok :: "string \<Rightarrow> bool" where
  "media_filename_ok filename \<longleftrightarrow>
     filename \<noteq> [] \<and> filename = py_strip filename \<and> filename \<notin> {''.'', ''..''} \<and> last filename \<notin> {CHR ''.'', CHR '' ''}
     \<and> list_all (\<lambda>c. c \<notin> set WINDOWS_INVALID_FILENAME_CHARACTERS) filename
     \<and> py_upper (rev (dropWhile (\<lambda>c. c \<in> {CHR '' '', CHR ''.''}) (rev (takeWhile (\<lambda>c. c \<noteq> CHR ''.'') filename)))) \<notin> set WINDOWS_RESERVED_FILENAMES
     \<and> list_all (\<lambda>c. \<not> category_other c) filename
     \<and> length (concat (map utf8_char filename)) \<le> 255"

text \<open>\<open>PurePath(filename).suffix\<close>, for a file name without a separator.\<close>

definition file_suffix :: "string \<Rightarrow> string" where
  "file_suffix filename =
     (let after = rev (takeWhile (\<lambda>c. c \<noteq> CHR ''.'') (rev filename)); i = length filename - length after in
      if CHR ''.'' \<in> set filename \<and> 1 < i \<and> after \<noteq> [] then CHR ''.'' # after else [])"

definition FILE_MIME_TYPES_BY_SUFFIX :: "(string \<times> string list) list" where
  "FILE_MIME_TYPES_BY_SUFFIX =
     [(''.7z'', [''application/x-7z-compressed'']), (''.csv'', [''text/csv'']), (''.doc'', [''application/msword'']),
      (''.docx'', [''application/vnd.openxmlformats-officedocument.wordprocessingml.document'']), (''.json'', [''application/json'']),
      (''.gz'', [''application/gzip'']), (''.html'', [''text/html'']), (''.md'', [''text/markdown'', ''text/plain'']), (''.pdf'', [''application/pdf'']),
      (''.ppt'', [''application/vnd.ms-powerpoint'']), (''.pptx'', [''application/vnd.openxmlformats-officedocument.presentationml.presentation'']),
      (''.rar'', [''application/vnd.rar'', ''application/x-rar-compressed'']), (''.rtf'', [''application/rtf'', ''text/rtf'']),
      (''.tar'', [''application/x-tar'']), (''.txt'', [''text/plain'']), (''.xls'', [''application/vnd.ms-excel'']),
      (''.xlsx'', [''application/vnd.openxmlformats-officedocument.spreadsheetml.sheet'']), (''.xml'', [''application/xml'', ''text/xml'']),
      (''.zip'', [''application/zip'', ''application/x-zip-compressed''])]"

definition file_mime_ok :: "string \<Rightarrow> string \<Rightarrow> bool" where
  "file_mime_ok filename mime_type =
     (case map_of FILE_MIME_TYPES_BY_SUFFIX (py_lower (file_suffix filename)) of
        None \<Rightarrow> mime_type = ''application/octet-stream''
      | Some expected \<Rightarrow> mime_type \<in> set expected)"

text \<open>The operation and payload of a media message; \<open>None\<close> stands for the \<open>ValueError\<close>.\<close>

definition media_payload ::
  "nat \<Rightarrow> string \<Rightarrow> string \<Rightarrow> media_value \<Rightarrow> string \<Rightarrow> string option \<Rightarrow> (string \<times> json) option"
where
  "media_payload max_bytes conversation_id media_type data mime_type filename =
     (if py_strip conversation_id = [] then None
      else
        (let chat = (''chatId'', JStr (py_strip conversation_id)) in
         case (media_type_of media_type, mime_type_of mime_type, media_data max_bytes data) of
           (Some MEDIA_IMAGE, Some mime, Some (encoded, decoded)) \<Rightarrow>
             if filename = None \<and> mime \<in> set IMAGE_MIME_TYPES \<and> image_signature_ok decoded mime
             then Some (''send_image'', JObj [chat, (''image'', JObj [(''data'', JStr encoded), (''mimeType'', JStr mime)])])
             else None
         | (Some MEDIA_FILE, Some mime, Some (encoded, _)) \<Rightarrow>
             (case filename of
                None \<Rightarrow> None
              | Some name \<Rightarrow>
                  if media_filename_ok name \<and> file_mime_ok name mime
                  then Some (''send_file'', JObj [chat, (''file'', JObj [(''data'', JStr encoded), (''filename'', JStr name)])])
                  else None)
         | _ \<Rightarrow> None))"

definition wechat_send_media ::
  "(wx_request \<Rightarrow> wx_exchange) \<Rightarrow> string \<Rightarrow> nat \<Rightarrow> string \<Rightarrow> string \<Rightarrow> media_value \<Rightarrow> string \<Rightarrow> string option \<Rightarrow> wx_send"
where
  "wechat_send_media transport account_id max_bytes conversation_id media_type data mime_type filename =
     (case media_payload max_bytes conversation_id media_type data mime_type filename of
        None \<Rightarrow> (Inl PlainValueError, [])
      | Some (operation, payload) \<Rightarrow> verified_send transport account_id operation payload)"

text \<open>The sender of the delivery worker: its construction, and its calls over a transport per send.\<close>

record WechatHttpMediaSender =
  ws_account_id :: string
  ws_base_url :: string
  ws_token :: string
  ws_max_media_bytes :: nat

definition rstrip_slash :: "string \<Rightarrow> string" where
  "rstrip_slash s = rev (dropWhile (\<lambda>c. c = CHR ''/'') (rev s))"

definition make_wechat_sender ::
  "(string \<Rightarrow> string option) \<Rightarrow> string \<Rightarrow> string \<Rightarrow> string \<Rightarrow> py_num \<Rightarrow> delivery_exception + WechatHttpMediaSender"
where
  "make_wechat_sender environment_reader account_id base_url token_env max_media_bytes =
     (case (media_size_limit max_media_bytes, wx_required_string account_id, wx_required_string base_url, wx_required_string token_env) of
        (Some limit, Inr account, Inr url, Inr env) \<Rightarrow>
          (case environment_reader env of
             None \<Rightarrow> Inl PlainValueError
           | Some raw \<Rightarrow>
               map_sum id (\<lambda>token. \<lparr>ws_account_id = account, ws_base_url = rstrip_slash url @ ''/'', ws_token = token, ws_max_media_bytes = limit\<rparr>)
                 (bearer_token raw))
      | _ \<Rightarrow> Inl PlainValueError)"

definition wechat_sender :: "(nat \<Rightarrow> wx_request \<Rightarrow> wx_exchange) \<Rightarrow> WechatHttpMediaSender \<Rightarrow> ChannelDeliverySender" where
  "wechat_sender transport s =
     \<lparr>sn_account_id = Inr (ws_account_id s),
      sn_send_text = (\<lambda>n conversation_id content. fst (wechat_send_text (transport n) (ws_account_id s) conversation_id content)),
      sn_send_media = Some (\<lambda>n c. fst (wechat_send_media (transport n) (ws_account_id s) (ws_max_media_bytes s) (md_conversation_id c)
                                         (md_media_type c) (MediaBytes (md_data c)) (md_mime_type c) (md_filename c)))\<rparr>"

end
