(* ===== verification/Wechat_Sending.thy ===== *)
theory Wechat_Sending
  imports Wechat_Http
begin

text \<open>
  What the WeChat senders promise the delivery worker: nothing is posted through another account, a
  success was confirmed by the provider, a failure that is retried was not accepted, and media
  arrive as the bytes that were stored.
\<close>

lemma wx_response_of_Inr:
  "wx_response_of operation x = Inr r \<longleftrightarrow> x = WxResponse r \<and> 200 \<le> wr_status_code r \<and> wr_status_code r < 300"
  by (cases x) auto

lemma wx_response_of_retryable:
  assumes "wx_response_of operation x = Inl e" "classify_delivery_error e = FAILURE_RETRYABLE"
  obtains r where "x = WxResponse r" "wr_status_code r = 429"
  using assms by (cases x) (auto split: if_splits)

lemma sent_receipt_Inr:
  "sent_receipt operation r = Inr raw \<longleftrightarrow>
     wr_status_code r = 204 \<and> raw = ReceiptNone
     \<or> wr_status_code r \<noteq> 204 \<and> \<not> wr_empty r
       \<and> (\<exists>kvs. wr_json r = Some (JObj kvs) \<and> map_of kvs ''success'' = Some (JBool True) \<and> raw = ReceiptMapping (Some kvs))"
  by (auto simp: sent_receipt_def split: option.splits json.splits if_splits)

lemma sent_receipt_Inl: "sent_receipt operation r = Inl e \<Longrightarrow> e = WechatResponseError operation"
  by (auto simp: sent_receipt_def split: option.splits json.splits if_splits)

definition confirmed :: "wx_exchange \<Rightarrow> bool" where
  "confirmed x = (case x of
     WxResponse r \<Rightarrow> 200 \<le> wr_status_code r \<and> wr_status_code r < 300
       \<and> (wr_status_code r = 204 \<or> (case wr_json r of Some (JObj kvs) \<Rightarrow> map_of kvs ''success'' = Some (JBool True) | _ \<Rightarrow> False))
   | _ \<Rightarrow> False)"

definition rate_limited :: "wx_exchange \<Rightarrow> bool" where
  "rate_limited x = (case x of WxResponse r \<Rightarrow> wr_status_code r = 429 | _ \<Rightarrow> False)"

text \<open>Either nothing was posted and the send failed, or one message was posted through the account.\<close>

definition accounted_send :: "(wx_request \<Rightarrow> wx_exchange) \<Rightarrow> string \<Rightarrow> wx_send \<Rightarrow> bool" where
  "accounted_send transport account_id run \<longleftrightarrow>
     (case run of (res, requests) \<Rightarrow>
        isl res \<and> list_all (\<lambda>rq. wq_method rq = ''GET'') requests
        \<or> (\<exists>payload st. requests = [wx_get AUTH_ENDPOINT, wx_post payload]
             \<and> get_auth_status transport = Inr st \<and> auth_source_account_id st = Some account_id
             \<and> (\<not> isl res \<longrightarrow> confirmed (transport (wx_post payload)))
             \<and> (\<forall>e. res = Inl e \<and> classify_delivery_error e = FAILURE_RETRYABLE \<longrightarrow> rate_limited (transport (wx_post payload)))))"

lemma verified_send_accounted: "accounted_send transport account_id (verified_send transport account_id operation payload)"
proof (cases "verify_current_account transport account_id")
  case (Some e)
  then show ?thesis by (simp add: verified_send_def accounted_send_def wx_get_def Let_def)
next
  case None
  then obtain st where st: "get_auth_status transport = Inr st" "auth_source_account_id st = Some account_id"
    by (auto simp: verify_current_account_def map_sum_def split: sum.splits option.splits if_splits)
  define x where "x = transport (wx_post payload)"
  let ?res = "case wx_response_of operation x of Inl e \<Rightarrow> Inl e | Inr r \<Rightarrow> sent_receipt operation r"
  have ok: "confirmed x" if n: "\<not> isl ?res"
  proof -
    from n obtain raw where "?res = Inr raw" by (cases ?res) auto
    then show ?thesis by (auto simp: wx_response_of_Inr confirmed_def sent_receipt_Inr split: sum.splits)
  qed
  have retry: "rate_limited x" if "?res = Inl e" "classify_delivery_error e = FAILURE_RETRYABLE" for e
    using that by (auto simp: rate_limited_def split: sum.splits dest!: sent_receipt_Inl elim!: wx_response_of_retryable)
  show ?thesis using None st ok retry by (auto simp: verified_send_def accounted_send_def Let_def x_def [symmetric])
qed

text \<open>
  C38. Every WeChat message is accounted for. A text or media send either posts nothing and fails, or
  posts exactly one message, after the provider confirmed that the account of the delivery is
  logged in. A send that reports success was confirmed by the provider (status 204, or a success
  status with a payload that says so), and a failure after a post that the worker retries by itself
  is a rejection with status 429; so no retried message was accepted.
\<close>

theorem wechat_sends_are_accounted:
  "accounted_send transport account_id (wechat_send_text transport account_id conversation_id content)
   \<and> accounted_send transport account_id (wechat_send_media transport account_id max_bytes conversation_id media_type data mime_type filename)"
proof -
  have "accounted_send transport account_id (Inl e, [])" for e by (simp add: accounted_send_def)
  then show ?thesis by (simp add: wechat_send_text_def wechat_send_media_def verified_send_accounted split: sum.splits option.splits prod.splits)
qed

section \<open>Media\<close>

fun media_bytes :: "media_value \<Rightarrow> string option" where
  "media_bytes (MediaBytes bs) = Some bs"
| "media_bytes (MediaText s) = b64decode s"

lemma media_data_Some:
  assumes "media_data max_bytes v = Some (encoded, bs)"
  shows "media_bytes v = Some bs" "b64decode encoded = Some bs" "bs \<noteq> []" "length bs \<le> max_bytes"
  using assms by (cases v; auto simp: media_data_def b64_roundtrip split: if_splits option.splits)+

text \<open>
  C39. Media arrive as they were stored. When a media message is posted, the Base64 text of its
  payload decodes to exactly the given bytes, which are not empty and not longer than the limit; an
  image has an allowed type and the signature of that type, and a file name contains no path
  separator, no control character and no trailing dot.
\<close>

theorem media_is_sent_unchanged:
  assumes "wechat_send_media transport account_id max_bytes conversation_id media_type data mime_type filename = (res, requests)"
    and "rq \<in> set requests" "wq_method rq = ''POST''"
  shows "\<exists>kind encoded bs label name. wq_json rq = Some (JObj [(''chatId'', JStr (py_strip conversation_id)),
      (kind, JObj [(''data'', JStr encoded), (label, JStr name)])])
    \<and> media_bytes data = Some bs \<and> b64decode encoded = Some bs \<and> bs \<noteq> [] \<and> length bs \<le> max_bytes
    \<and> (kind = ''image'' \<and> label = ''mimeType'' \<and> name \<in> set IMAGE_MIME_TYPES \<and> image_signature_ok bs name
       \<or> kind = ''file'' \<and> label = ''filename'' \<and> filename = Some name \<and> CHR ''/'' \<notin> set name \<and> CHR 0x5C \<notin> set name
         \<and> list_all (\<lambda>c. \<not> category_other c) name \<and> last name \<noteq> CHR ''.'')"
proof -
  from assms obtain operation payload where p: "media_payload max_bytes conversation_id media_type data mime_type filename = Some (operation, payload)"
      and rq: "rq = wx_post payload"
    by (auto simp: wechat_send_media_def verified_send_def wx_get_def Let_def split: option.splits prod.splits)
  have name: "CHR ''/'' \<notin> set n \<and> CHR 0x5C \<notin> set n \<and> list_all (\<lambda>c. \<not> category_other c) n \<and> last n \<noteq> CHR ''.''" if "media_filename_ok n" for n
    using that by (auto simp: media_filename_ok_def WINDOWS_INVALID_FILENAME_CHARACTERS_def list_all_iff)
  from p obtain kind mime encoded bs where m: "media_type_of media_type = Some kind" "mime_type_of mime_type = Some mime"
      "media_data max_bytes data = Some (encoded, bs)"
    by (auto simp: media_payload_def Let_def split: if_splits option.splits prod.splits WechatMediaType.splits)
  note d = media_data_Some [OF m(3)]
  show ?thesis
    using p rq m d name by (cases kind) (auto simp: media_payload_def wx_post_def Let_def split: if_splits option.splits)
qed

section \<open>Samples\<close>

definition sample_wx :: "wx_request \<Rightarrow> wx_exchange" where
  "sample_wx rq = WxResponse
     (if wq_method rq = ''GET''
      then \<lparr>wr_status_code = 200, wr_empty = False, wr_json = Some (JObj [(''status'', JStr ''logged_in''), (''loggedInUser'', JStr ''bot'')])\<rparr>
      else \<lparr>wr_status_code = 200, wr_empty = False, wr_json = Some (JObj [(''success'', JBool True)])\<rparr>)"

theorem media_is_sent_unchanged_witness:
  "\<exists>rq kind encoded label name. snd (wechat_send_media sample_wx ''bot'' 100 ''c1'' ''file'' (MediaBytes ''hello'') ''text/plain'' (Some ''a.txt''))
       = [wx_get AUTH_ENDPOINT, rq] \<and> b64decode encoded = Some ''hello''
     \<and> wq_json rq = Some (JObj [(''chatId'', JStr (py_strip ''c1'')), (kind, JObj [(''data'', JStr encoded), (label, JStr name)])])"
proof -
  let ?run = "wechat_send_media sample_wx ''bot'' 100 ''c1'' ''file'' (MediaBytes ''hello'') ''text/plain'' (Some ''a.txt'')"
  have v: "map wq_method (snd ?run) = [''GET'', ''POST'']" by code_simp
  obtain res requests where run: "?run = (res, requests)" by fastforce
  with v obtain a rq where r: "requests = [a, rq]" "wq_method rq = ''POST''" by (auto simp: map_eq_Cons_conv)
  have a: "a = wx_get AUTH_ENDPOINT"
    using run r by (auto simp: wechat_send_media_def verified_send_def Let_def split: option.splits prod.splits)
  have "\<exists>kind encoded label name. wq_json rq = Some (JObj [(''chatId'', JStr (py_strip ''c1'')), (kind, JObj [(''data'', JStr encoded), (label, JStr name)])])
      \<and> b64decode encoded = Some ''hello''"
    using media_is_sent_unchanged [OF run, of rq] r by auto
  with run r a show ?thesis by auto
qed

end
