(* ===== verification/Business_Access.thy ===== *)
theory Business_Access
  imports Python_Text Admission_Service Admission_Store Message_Store Dispatch_Store
begin

text \<open>
  Granting and withdrawing access (\<open>initial_identity.py\<close>, \<open>business_access.py\<close>): the serializable
  transaction that creates or compares every row a private text route needs, the status of an
  observed message, its approval, and the disabling of an employee. A serializable transaction runs
  alone: the stores are used without interference, and every error leaves the database as it was.
\<close>

section \<open>Input\<close>

datatype business_error =
    BusinessAccessError string string
  | InitialIdentityError string string
  | BusinessStoreFailure gateway_error
  | InvalidConfiguration
  | MigrationsPending
  | TransactionFailed

definition explicit_value :: "string \<Rightarrow> bool" where
  "explicit_value v \<longleftrightarrow> CHR ''*'' \<notin> set v \<and> take 8 (py_upper v) \<noteq> ''REPLACE_'' \<and> list_all (\<lambda>c. \<not> (of_char c :: nat) < 32) v"

definition initial_value :: "nat \<Rightarrow> string \<Rightarrow> string option" where
  "initial_value bound s = (let v = py_strip s in if 1 \<le> length v \<and> length v \<le> bound \<and> explicit_value v then Some v else None)"

record InitialProfile =
  ip_profile_key :: string
  ip_revision :: int
  ip_provider :: string
  ip_external_profile_ref :: string
  ip_model :: string

record InitialBusinessIdentity =
  ib_employee_id :: string
  ib_display_name :: string

record InitialWechatIdentity =
  iw_account_id :: string
  iw_sender_id :: string
  iw_conversation_id :: string

record InitialIdentityConfig =
  ic_profile :: InitialProfile
  ic_identity :: InitialBusinessIdentity
  ic_wechat :: InitialWechatIdentity

definition ends_with :: "string \<Rightarrow> string \<Rightarrow> bool" where
  "ends_with suffix s \<longleftrightarrow> length suffix \<le> length s \<and> drop (length s - length suffix) s = suffix"

definition CHATROOM_SUFFIX :: string where "CHATROOM_SUFFIX = ''@chatroom''"

definition validate_profile :: "InitialProfile \<Rightarrow> InitialProfile option" where
  "validate_profile p =
     (case (initial_value 64 (ip_profile_key p), initial_value 255 (ip_external_profile_ref p), initial_value 255 (ip_model p)) of
        (Some k, Some r, Some m) \<Rightarrow>
          if ip_revision p > 0 \<and> ip_provider p = ''hermes''
          then Some \<lparr>ip_profile_key = k, ip_revision = ip_revision p, ip_provider = ip_provider p, ip_external_profile_ref = r, ip_model = m\<rparr>
          else None
      | _ \<Rightarrow> None)"

definition validate_identity :: "InitialBusinessIdentity \<Rightarrow> InitialBusinessIdentity option" where
  "validate_identity b =
     (case (initial_value 255 (ib_employee_id b), initial_value 255 (ib_display_name b)) of
        (Some e, Some d) \<Rightarrow> Some \<lparr>ib_employee_id = e, ib_display_name = d\<rparr>
      | _ \<Rightarrow> None)"

definition validate_wechat :: "InitialWechatIdentity \<Rightarrow> InitialWechatIdentity option" where
  "validate_wechat w =
     (case (initial_value 255 (iw_account_id w), initial_value 255 (iw_sender_id w), initial_value 255 (iw_conversation_id w)) of
        (Some a, Some s, Some c) \<Rightarrow>
          if ends_with CHATROOM_SUFFIX c then None else Some \<lparr>iw_account_id = a, iw_sender_id = s, iw_conversation_id = c\<rparr>
      | _ \<Rightarrow> None)"

definition validate_config :: "int \<Rightarrow> InitialProfile \<Rightarrow> InitialBusinessIdentity \<Rightarrow> InitialWechatIdentity \<Rightarrow> InitialIdentityConfig option" where
  "validate_config version p b w =
     (case (validate_profile p, validate_identity b, validate_wechat w) of
        (Some p', Some b', Some w') \<Rightarrow> if version = 1 then Some \<lparr>ic_profile = p', ic_identity = b', ic_wechat = w'\<rparr> else None
      | _ \<Rightarrow> None)"

section \<open>Creating a route\<close>

text \<open>A stage finds its row or creates it, and compares it with what the configuration says.\<close>

definition create_stage ::
  "bool \<Rightarrow> (gateway_db \<Rightarrow> 'a option) \<Rightarrow> (gateway_db \<Rightarrow> 'a outcome) \<Rightarrow> ('a \<Rightarrow> bool) \<Rightarrow> string \<Rightarrow> string list \<times> gateway_db
     \<Rightarrow> business_error + 'a \<times> string list \<times> gateway_db"
where
  "create_stage check_only existing create same stage s =
     (case s of (created, db) \<Rightarrow>
        (case existing db of
           Some x \<Rightarrow> if same x then Inr (x, created, db) else Inl (InitialIdentityError ''initial_identity_conflict'' stage)
         | None \<Rightarrow>
             if check_only then Inl (InitialIdentityError ''initial_identity_missing'' stage)
             else
               (case create db of
                  (Inl e, _) \<Rightarrow> Inl (BusinessStoreFailure e)
                | (Inr x, db') \<Rightarrow>
                    if same x then Inr (x, created @ [stage], db') else Inl (InitialIdentityError ''initial_identity_conflict'' stage))))"

definition first_of :: "('a \<times> bool) outcome \<Rightarrow> 'a outcome" where
  "first_of out = (case out of (Inl e, db) \<Rightarrow> (Inl e, db) | (Inr (x, _), db) \<Rightarrow> (Inr x, db))"

definition profile_stage :: "bool \<Rightarrow> clocks \<Rightarrow> string \<Rightarrow> InitialProfile \<Rightarrow> string list \<times> gateway_db \<Rightarrow> business_error + AgentProfile \<times> string list \<times> gateway_db" where
  "profile_stage check_only ck uuid p =
     create_stage check_only (get_agent_profile_revision (ip_profile_key p) (ip_revision p))
       (\<lambda>db. first_of (create_agent_profile id ck uuid (ip_profile_key p) (ip_revision p) (ip_provider p) (ip_external_profile_ref p) (ip_model p)
                         PROFILE_ACTIVE None db))
       (\<lambda>x. ap_profile_key x = ip_profile_key p \<and> ap_revision x = ip_revision p \<and> ap_provider x = ip_provider p
            \<and> ap_external_profile_ref x = ip_external_profile_ref p \<and> ap_model x = ip_model p \<and> ap_status x = PROFILE_ACTIVE)
       ''profile''"

definition identity_stage ::
  "bool \<Rightarrow> clocks \<Rightarrow> string \<Rightarrow> InitialBusinessIdentity \<Rightarrow> string list \<times> gateway_db \<Rightarrow> business_error + EnterpriseIdentity \<times> string list \<times> gateway_db"
where
  "identity_stage check_only ck uuid b =
     create_stage check_only (get_identity_by_employee_id (ib_employee_id b))
       (create_identity id ck uuid (Some (ib_employee_id b)) (Some (ib_display_name b)) STORED_ACTIVE)
       (\<lambda>x. e_employee_id x = Some (ib_employee_id b) \<and> e_display_name x = Some (ib_display_name b) \<and> e_status x = STORED_ACTIVE)
       ''identity''"

definition WECHAT_SOURCE :: string where "WECHAT_SOURCE = ''wechat''"

definition mapping_stage ::
  "bool \<Rightarrow> clocks \<Rightarrow> string \<Rightarrow> InitialWechatIdentity \<Rightarrow> string \<Rightarrow> string list \<times> gateway_db
     \<Rightarrow> business_error + SourceIdentityMapping \<times> string list \<times> gateway_db"
where
  "mapping_stage check_only ck uuid w identity_id =
     create_stage check_only (get_mapping WECHAT_SOURCE (iw_account_id w) (iw_sender_id w))
       (create_mapping id ck uuid WECHAT_SOURCE (iw_account_id w) (iw_sender_id w) identity_id)
       (\<lambda>x. s_enterprise_identity_id x = identity_id \<and> s_enabled x) ''source_mapping''"

definition user_policy_stage ::
  "bool \<Rightarrow> clocks \<Rightarrow> string \<Rightarrow> string \<Rightarrow> string list \<times> gateway_db \<Rightarrow> business_error + UserAccessPolicy \<times> string list \<times> gateway_db"
where
  "user_policy_stage check_only ck uuid identity_id =
     create_stage check_only (get_user_policy identity_id) (upsert_user_policy id ck uuid identity_id True [] [] None None)
       (\<lambda>x. up_enabled x \<and> up_permission_scope x = {} \<and> up_allowed_skills x = {} \<and> up_valid_from x = None \<and> up_valid_until x = None)
       ''user_policy''"

definition gateway_policy_stage ::
  "bool \<Rightarrow> clocks \<Rightarrow> string \<Rightarrow> string list \<times> gateway_db \<Rightarrow> business_error + GatewayAccessPolicy \<times> string list \<times> gateway_db"
where
  "gateway_policy_stage check_only ck uuid =
     create_stage check_only (get_gateway_policy DEFAULT_GATEWAY_POLICY_KEY)
       (upsert_gateway_policy id ck uuid DEFAULT_GATEWAY_POLICY_KEY True [] [] [risk_value RISK_NORMAL])
       (\<lambda>x. gap_enabled x \<and> gap_permission_scope x = {} \<and> gap_allowed_skills x = {} \<and> gap_allowed_risk_levels x = {risk_value RISK_NORMAL})
       ''gateway_policy''"

definition conversation_stage ::
  "bool \<Rightarrow> clocks \<Rightarrow> InitialWechatIdentity \<Rightarrow> string list \<times> gateway_db \<Rightarrow> business_error + Conversation \<times> string list \<times> gateway_db"
where
  "conversation_stage check_only ck w =
     create_stage check_only (get_conversation WECHAT_SOURCE (iw_account_id w) (iw_conversation_id w))
       (\<lambda>db. first_of (prepare_conversation id ck WECHAT_SOURCE (iw_account_id w) (iw_conversation_id w) ''private'' db))
       (\<lambda>x. v_conversation_type x = ''private'') ''conversation''"

definition binding_stage ::
  "bool \<Rightarrow> clocks \<Rightarrow> string \<Rightarrow> int \<Rightarrow> string \<Rightarrow> string list \<times> gateway_db
     \<Rightarrow> business_error + ConversationAgentProfileBinding \<times> string list \<times> gateway_db"
where
  "binding_stage check_only ck uuid conversation_id profile_id =
     create_stage check_only (get_conversation_agent_profile_binding conversation_id)
       (\<lambda>db. first_of (bind_conversation_agent_profile (\<lambda>_. id) ck uuid conversation_id profile_id db))
       (\<lambda>x. cp_agent_profile_id x = profile_id) ''profile_binding''"

definition normal_request :: RequestFacts where
  "normal_request = \<lparr>requested_scope = {}, requested_skill_ids = {}, rf_risk_level = RISK_NORMAL\<rparr>"

text \<open>The resolution paths of the admission, on the rows as they are now.\<close>

definition verify_route :: "instant \<Rightarrow> InitialWechatIdentity \<Rightarrow> string \<Rightarrow> string \<Rightarrow> gateway_db \<Rightarrow> business_error option" where
  "verify_route now w identity_id profile_id db =
     (case resolve_route WECHAT_SOURCE (iw_account_id w) (iw_conversation_id w) ''private'' identity_id db of
        Inl e \<Rightarrow> Some (BusinessStoreFailure e)
      | Inr route \<Rightarrow>
     (case resolve_source_identity_facts now WECHAT_SOURCE (iw_account_id w) (iw_sender_id w) db of
        Inl e \<Rightarrow> Some (BusinessStoreFailure e)
      | Inr identity \<Rightarrow>
     (case (resolve_conversation_facts ''private'' None, resolve_gateway_policy_facts db) of
        (Inr conversation, Inr policy) \<Rightarrow>
          if \<not> ad_allowed (evaluate_access identity conversation normal_request policy) \<or> rr_agent_profile_id route \<noteq> profile_id
          then Some (InitialIdentityError ''initial_identity_verification_failed'' ''resolution'') else None
      | (Inl e, _) \<Rightarrow> Some (BusinessStoreFailure e)
      | (_, Inl e) \<Rightarrow> Some (BusinessStoreFailure e))))"

definition next_stage :: "business_error + 'a \<times> 's \<Rightarrow> ('a \<Rightarrow> 's \<Rightarrow> business_error + 'b) \<Rightarrow> business_error + 'b" where
  "next_stage r f = (case r of Inl e \<Rightarrow> Inl e | Inr (x, s) \<Rightarrow> f x s)"

definition initialize_stages ::
  "bool \<Rightarrow> clocks \<Rightarrow> (nat \<Rightarrow> string) \<Rightarrow> InitialIdentityConfig \<Rightarrow> string list \<times> gateway_db \<Rightarrow> business_error + string list \<times> gateway_db"
where
  "initialize_stages check_only ck uuid config s0 =
     next_stage (profile_stage check_only ck (uuid 0) (ic_profile config) s0) (\<lambda>profile s1.
     next_stage (identity_stage check_only ck (uuid 1) (ic_identity config) s1) (\<lambda>identity s2.
     next_stage (mapping_stage check_only ck (uuid 2) (ic_wechat config) (e_id identity) s2) (\<lambda>_ s3.
     next_stage (user_policy_stage check_only ck (uuid 3) (e_id identity) s3) (\<lambda>_ s4.
     next_stage (gateway_policy_stage check_only ck (uuid 4) s4) (\<lambda>_ s5.
     next_stage (conversation_stage check_only ck (ic_wechat config) s5) (\<lambda>conversation s6.
     next_stage (binding_stage check_only ck (uuid 5) (v_id conversation) (ap_id profile) s6) (\<lambda>_ s7.
       (case verify_route (wall_now ck) (ic_wechat config) (e_id identity) (ap_id profile) (snd s7) of Some e \<Rightarrow> Inl e | None \<Rightarrow> Inr s7))))))))"

text \<open>The transaction: \<open>commits\<close> is false when the database refuses to serialize it.\<close>

definition initialize_identity ::
  "bool \<Rightarrow> bool \<Rightarrow> bool \<Rightarrow> clocks \<Rightarrow> (nat \<Rightarrow> string) \<Rightarrow> InitialIdentityConfig \<Rightarrow> gateway_db \<Rightarrow> (business_error + string list) \<times> gateway_db"
where
  "initialize_identity migrated commits check_only ck uuid config db =
     (if \<not> migrated then (Inl MigrationsPending, db)
      else
        (case initialize_stages check_only ck uuid config ([], db) of
           Inl e \<Rightarrow> (Inl e, db)
         | Inr (created, db') \<Rightarrow> if commits then (Inr created, db') else (Inl TransactionFailed, db)))"

section \<open>Observed messages\<close>

text \<open>\<open>_message\<close> and \<open>_eligibility\<close>.\<close>

definition observed_message :: "int \<Rightarrow> gateway_db \<Rightarrow> business_error + Message" where
  "observed_message message_id db =
     (case message_get message_id db of
        Some m \<Rightarrow> if g_source m = WECHAT_SOURCE then Inr m else Inl (BusinessAccessError ''observed_message_not_found'' ''message'')
      | None \<Rightarrow> Inl (BusinessAccessError ''observed_message_not_found'' ''message''))"

definition eligibility :: "Message \<Rightarrow> string option" where
  "eligibility m =
     (if g_is_self m \<or> g_direction m \<noteq> ''inbound'' then Some ''inbound_human_message_required''
      else if g_sender_type m \<noteq> ''human'' \<or> \<not> truthy (g_sender_id m) then Some ''inbound_human_message_required''
      else if g_message_type m \<noteq> ''text'' then Some ''text_message_required''
      else if g_conversation_type m \<noteq> ''private'' \<or> ends_with CHATROOM_SUFFIX (g_conversation_id m) then Some ''private_conversation_required''
      else None)"

text \<open>The attribute \<open>code\<close> of the errors of routing and of the profile store.\<close>

fun routing_code :: "routing_error \<Rightarrow> string" where
  "routing_code RouteConversationNotFoundError = ''route_conversation_not_found''"
| "routing_code (RouteConversationTypeConflictError _ _) = ''route_conversation_type_conflict''"
| "routing_code (RouteGroupTypeUnavailableError _ _) = ''route_group_type_unavailable''"
| "routing_code (RouteAgentProfileUnavailableError _ _) = ''route_agent_profile_unavailable''"
| "routing_code (AgentProfileNotFoundError _) = ''agent_profile_not_found''"
| "routing_code (AgentProfileRevisionConflictError _ _) = ''agent_profile_revision_conflict''"
| "routing_code (AgentProfileIdConflictError _) = ''agent_profile_id_conflict''"
| "routing_code (GroupTypeNotFoundError _) = ''group_type_not_found''"
| "routing_code (GroupTypeConflictError _) = ''group_type_conflict''"
| "routing_code (GroupTypeIdConflictError _) = ''group_type_id_conflict''"
| "routing_code (InvalidGroupThreadPolicyError _) = ''invalid_group_thread_policy''"
| "routing_code (ConversationNotFoundError _) = ''conversation_not_found''"
| "routing_code (ConversationNotGroupError _) = ''conversation_not_group''"
| "routing_code (ConversationNotPrivateError _) = ''conversation_not_private''"
| "routing_code (PrivateConversationProfileNotConfiguredError _) = ''private_conversation_profile_not_configured''"
| "routing_code UnknownGroupTypeNotConfiguredError = ''unknown_group_type_not_configured''"

record access_status =
  xs_permitted :: bool
  xs_reason_code :: string
  xs_enterprise_identity_id :: "string option"
  xs_employee_id :: "string option"
  xs_conversation_record_id :: "int option"
  xs_agent_profile_id :: "string option"
  xs_agent_profile_key :: "string option"
  xs_agent_profile_revision :: "int option"

definition configuration_facts ::
  "instant \<Rightarrow> string \<Rightarrow> string \<Rightarrow> string option \<Rightarrow> string \<Rightarrow> string \<Rightarrow> bool option \<Rightarrow> gateway_db \<Rightarrow> gateway_error + access_status"
where
  "configuration_facts now source account_id sender_id conversation_id conversation_type is_mentioned db =
     (case (if truthy sender_id then resolve_source_identity_facts now source account_id (the sender_id) db
            else Inr (resolve_identity_facts now None db)) of
        Inl e \<Rightarrow> Inl e
      | Inr identity \<Rightarrow>
     (case resolve_conversation_facts conversation_type is_mentioned of
        Inl e \<Rightarrow> Inl e
      | Inr conversation \<Rightarrow>
     (case resolve_gateway_policy_facts db of
        Inl e \<Rightarrow> Inl e
      | Inr policy \<Rightarrow>
          (let decision = evaluate_access identity conversation normal_request policy;
               i = if_enterprise_identity_id identity;
               result = \<lparr>xs_permitted = False, xs_reason_code = reason_value (ad_reason_code decision), xs_enterprise_identity_id = i,
                         xs_employee_id = Option.bind i (\<lambda>x. Option.bind (get_identity x db) e_employee_id),
                         xs_conversation_record_id = map_option v_id (get_conversation source account_id conversation_id db),
                         xs_agent_profile_id = None, xs_agent_profile_key = None, xs_agent_profile_revision = None\<rparr> in
           case i of
             None \<Rightarrow> Inr result
           | Some identity_id \<Rightarrow>
               (case resolve_route source account_id conversation_id conversation_type identity_id db of
                  Inl (RoutingFailure e) \<Rightarrow> Inr (if ad_allowed decision then result\<lparr>xs_reason_code := routing_code e\<rparr> else result)
                | Inl e \<Rightarrow> Inl e
                | Inr route \<Rightarrow>
                    Inr (result\<lparr>xs_permitted := ad_allowed decision, xs_agent_profile_id := Some (rr_agent_profile_id route),
                                xs_agent_profile_key := Some (rr_agent_profile_key route),
                                xs_agent_profile_revision := Some (rr_agent_profile_revision route)\<rparr>))))))"

record historical_admission =
  ha_state :: AdmissionOutcomeState
  ha_admitted :: bool
  ha_reason_code :: "string option"

record message_status =
  ms_message :: Message
  ms_approval_reason_code :: "string option"
  ms_current :: access_status
  ms_ai_thread_id :: "string option"
  ms_workspace_id :: "string option"
  ms_historical_admission :: "historical_admission option"

definition status_of_message :: "instant \<Rightarrow> Message \<Rightarrow> gateway_db \<Rightarrow> gateway_error + message_status" where
  "status_of_message now m db =
     (case configuration_facts now (g_source m) (g_source_account_id m) (g_sender_id m) (g_conversation_id m) (g_conversation_type m)
             (g_is_mentioned m) db of
        Inl e \<Rightarrow> Inl e
      | Inr current \<Rightarrow>
          (let reason = eligibility m; dispatch = dispatch_get_by_message_id (g_id m) db in
           Inr \<lparr>ms_message = m, ms_approval_reason_code = reason,
                ms_current = (case reason of
                                Some code \<Rightarrow> if code \<noteq> ''private_conversation_required''
                                             then current\<lparr>xs_permitted := False, xs_reason_code := code\<rparr> else current
                              | None \<Rightarrow> current),
                ms_ai_thread_id = map_option d_ai_thread_id dispatch, ms_workspace_id = map_option d_workspace_id dispatch,
                ms_historical_admission =
                  map_option (\<lambda>a. \<lparr>ha_state = m_state a, ha_admitted = m_should_create_task a,
                                   ha_reason_code = (if truthy (m_authorization_reason_code a) then m_authorization_reason_code a
                                                     else m_admission_reason a)\<rparr>)
                    (admission_get_by_message_id (g_id m) db)\<rparr>))"

definition message_status_of :: "bool \<Rightarrow> instant \<Rightarrow> int \<Rightarrow> gateway_db \<Rightarrow> business_error + message_status" where
  "message_status_of migrated now message_id db =
     (if \<not> migrated then Inl MigrationsPending
      else (case observed_message message_id db of
              Inl e \<Rightarrow> Inl e
            | Inr m \<Rightarrow> map_sum BusinessStoreFailure id (status_of_message now m db)))"

text \<open>\<open>_overview\<close>: which private routes an enabled mapping can use, and the sizes of the tables.\<close>

record business_overview =
  bo_configured :: bool
  bo_identities :: nat
  bo_active_identities :: nat
  bo_enabled_user_policies :: nat
  bo_active_profiles :: nat
  bo_observed_messages :: nat
  bo_observed_conversations :: nat
  bo_configured_private_routes :: nat
  bo_configured_identity_route_pairs :: nat

definition candidate_pairs :: "gateway_db \<Rightarrow> (Conversation \<times> SourceIdentityMapping) list" where
  "candidate_pairs db =
     filter (\<lambda>(v, m). s_platform m = v_source v \<and> s_account_id m = v_source_account_id v \<and> v_source v = WECHAT_SOURCE
                      \<and> v_conversation_type v = ''private'' \<and> s_enabled m)
       (List.product (conversations db) (identity_mappings db))"

fun configured_pairs :: "instant \<Rightarrow> gateway_db \<Rightarrow> (Conversation \<times> SourceIdentityMapping) list \<Rightarrow> gateway_error + (string option \<times> int) list" where
  "configured_pairs now db [] = Inr []"
| "configured_pairs now db ((v, m) # rest) =
     (case configuration_facts now (v_source v) (v_source_account_id v) (Some (s_sender_id m)) (v_conversation_id v) (v_conversation_type v) None db of
        Inl e \<Rightarrow> Inl e
      | Inr facts \<Rightarrow>
          map_sum id (\<lambda>pairs. if xs_permitted facts then (xs_enterprise_identity_id facts, v_id v) # pairs else pairs)
            (configured_pairs now db rest))"

definition overview :: "instant \<Rightarrow> gateway_db \<Rightarrow> gateway_error + business_overview" where
  "overview now db =
     map_sum id (\<lambda>pairs.
       \<lparr>bo_configured = (pairs \<noteq> []), bo_identities = length (identities db),
        bo_active_identities = rowcount (\<lambda>e. e_status e = STORED_ACTIVE) (identities db),
        bo_enabled_user_policies = rowcount up_enabled (user_policies db),
        bo_active_profiles = rowcount (\<lambda>p. ap_status p = PROFILE_ACTIVE) (agent_profiles db),
        bo_observed_messages = rowcount (\<lambda>m. g_source m = WECHAT_SOURCE) (messages db),
        bo_observed_conversations =
          rowcount (\<lambda>v. v_source v = WECHAT_SOURCE
             \<and> list_ex (\<lambda>m. g_source m = v_source v \<and> g_source_account_id m = v_source_account_id v \<and> g_conversation_id m = v_conversation_id v)
                 (messages db)) (conversations db),
        bo_configured_private_routes = length (remdups (map snd pairs)), bo_configured_identity_route_pairs = length (remdups pairs)\<rparr>)
       (configured_pairs now db (candidate_pairs db))"

section \<open>Approval and withdrawal\<close>

record approval_result =
  ar_status :: message_status
  ar_created_stages :: "string list"

definition approve ::
  "bool \<Rightarrow> bool \<Rightarrow> clocks \<Rightarrow> (nat \<Rightarrow> string) \<Rightarrow> int \<Rightarrow> InitialProfile \<Rightarrow> InitialBusinessIdentity \<Rightarrow> string option \<Rightarrow> gateway_db
     \<Rightarrow> (business_error + approval_result) \<times> gateway_db"
where
  "approve migrated commits ck uuid message_id profile identity authenticated_account_id db =
     (if \<not> migrated then (Inl MigrationsPending, db)
      else
        (case observed_message message_id db of
           Inl e \<Rightarrow> (Inl e, db)
         | Inr m \<Rightarrow>
        (case eligibility m of
           Some reason \<Rightarrow> (Inl (BusinessAccessError reason ''message''), db)
         | None \<Rightarrow>
             if authenticated_account_id = None then (Inl (BusinessAccessError ''wechat_login_required'' ''wechat_auth''), db)
             else if Some (g_source_account_id m) \<noteq> authenticated_account_id
             then (Inl (BusinessAccessError ''wechat_account_changed'' ''wechat_auth''), db)
             else
               (let observed = \<lparr>iw_account_id = g_source_account_id m, iw_sender_id = the (g_sender_id m), iw_conversation_id = g_conversation_id m\<rparr> in
                case validate_config 1 profile identity observed of
                  None \<Rightarrow> (Inl InvalidConfiguration, db)
                | Some config \<Rightarrow>
                    if ic_wechat config \<noteq> observed then (Inl (BusinessAccessError ''observed_source_identity_invalid'' ''message''), db)
                    else
                      (case initialize_identity migrated commits False ck uuid config db of
                         (Inl e, db1) \<Rightarrow> (Inl e, db1)
                       | (Inr created, db1) \<Rightarrow>
                           (map_sum id (\<lambda>st. \<lparr>ar_status = st, ar_created_stages = created\<rparr>)
                              (message_status_of migrated (wall_now ck) message_id db1), db1))))))"

record disable_result =
  dr_employee_id :: "string option"
  dr_enterprise_identity_id :: string
  dr_changed :: bool

definition disable_employee ::
  "bool \<Rightarrow> bool \<Rightarrow> clocks \<Rightarrow> string \<Rightarrow> string \<Rightarrow> gateway_db \<Rightarrow> (business_error + disable_result) \<times> gateway_db"
where
  "disable_employee migrated commits ck uuid employee_id db =
     (if \<not> migrated then (Inl MigrationsPending, db)
      else
        (case get_identity_by_employee_id employee_id db of
           None \<Rightarrow> (Inl (BusinessAccessError ''employee_not_found'' ''identity''), db)
         | Some identity \<Rightarrow>
        (case get_user_policy (e_id identity) db of
           None \<Rightarrow> (Inl (BusinessAccessError ''user_policy_not_found'' ''user_policy''), db)
         | Some policy \<Rightarrow>
        (case upsert_user_policy id ck uuid (e_id identity) False (sorted_list_of_set (up_permission_scope policy))
                (sorted_list_of_set (up_allowed_skills policy)) (map_option Aware (up_valid_from policy)) (map_option Aware (up_valid_until policy)) db of
           (Inl e, _) \<Rightarrow> (Inl (BusinessStoreFailure e), db)
         | (Inr _, db1) \<Rightarrow>
             if commits
             then (Inr \<lparr>dr_employee_id = e_employee_id identity, dr_enterprise_identity_id = e_id identity, dr_changed = up_enabled policy\<rparr>, db1)
             else (Inl TransactionFailed, db)))))"

end
