(* ===== verification/Business_Properties.thy ===== *)
theory Business_Properties
  imports Business_Access Sample_Ingestion
begin

text \<open>
  What granting and withdrawing access achieve: an approved sender is admitted on the approved
  route, and an employee who is disabled is not admitted any more.
\<close>

section \<open>Withdrawal\<close>

text \<open>
  C25. A disabled employee is locked out. After the employee was disabled, and as long as the user
  policies stay as they are, no message is admitted in the name of this employee, whatever the
  account, the conversation, the route and the time.
\<close>

theorem disabled_employee_is_denied:
  assumes "disable_employee migrated commits ck uuid employee_id db = (Inr result, db')"
    and "get_identity_by_employee_id employee_id db = Some identity" "py_strip (e_id identity) = e_id identity"
    and "user_policies later = user_policies db'" "admit isoformat race ck' uuid' v2 candidate later = (Inr a, db'')"
  shows "\<not> (ao_admitted a \<and> ao_enterprise_identity_id a = Some (e_id identity))"
proof
  assume a: "ao_admitted a \<and> ao_enterprise_identity_id a = Some (e_id identity)"
  from assms(1,2) obtain scope skills vf vu p where
    "upsert_user_policy id ck uuid (e_id identity) False scope skills vf vu db = (Inr p, db')"
    by (auto simp: disable_employee_def split: if_splits option.splits prod.splits sum.splits)
  from upsert_user_policy_stored [OF this] assms(3,4) have "get_user_policy (e_id identity) later = Some p" "\<not> up_enabled p"
    by (auto simp: get_user_policy_def)
  with admitted_outcome_authorized [OF assms(5)] a show False by (auto simp: admission_authorized_def is_active_policy_def)
qed

definition sample_employee :: EnterpriseIdentity where
  "sample_employee = sample_identity\<lparr>e_employee_id := Some ''E7''\<rparr>"

definition staff_directory :: gateway_db where
  "staff_directory = sample_directory\<lparr>identities := [sample_employee]\<rparr>"

theorem disabled_employee_is_denied_witness:
  "\<exists>result db' a. disable_employee True True (sample_clock 11) ''p'' ''E7'' staff_directory = (Inr result, db')
     \<and> fst (sample_admit ''u1'' db') = Inr a \<and> \<not> (ao_admitted a \<and> ao_enterprise_identity_id a = Some (e_id sample_employee))"
proof -
  let ?off = "disable_employee True True (sample_clock 11) ''p'' ''E7'' staff_directory"
  have "map_sum (\<lambda>_. ()) (\<lambda>_. ()) (fst ?off) = Inr ()" by code_simp
  then obtain r db where off: "?off = (Inr r, db)" by (rule answerE)
  have "map_sum (\<lambda>_. ()) (\<lambda>_. ()) (fst (sample_admit ''u1'' (snd ?off))) = Inr ()" by code_simp
  then obtain a db' where a: "sample_admit ''u1'' db = (Inr a, db')" unfolding off snd_conv by (rule answerE)
  have i: "get_identity_by_employee_id ''E7'' staff_directory = Some sample_employee" "py_strip (e_id sample_employee) = e_id sample_employee"
    by code_simp+
  from disabled_employee_is_denied [OF off i refl a [unfolded sample_admit_def]] off a show ?thesis by auto
qed

section \<open>Approval\<close>

































section \<open>A sample route\<close>



end
