(* ===== verification/Spec2Isabelle.thy ===== *)
theory Spec2Isabelle
  imports Delivery_Properties Admission_Properties Artifact_Properties Wechat_Properties Context_Properties Hermes_Properties Wechat_Sending Business_Properties
begin

text \<open>
  A verification library for the CF agent gateway (\<open>src/src/cf_agent_gateway\<close>), the service
  that takes messages from a chat channel, decides who may talk to the agent, queues every
  admitted message for the Hermes agent, and delivers the answers.

  \<^bold>\<open>The program.\<close> A polling worker stores a message and admits it (identity, access policies,
  workspace and AI thread); admission and the queued dispatch are written together. Dispatch
  workers claim the head of a thread under a lease, call Hermes and record the result, a failure
  or uncertainty; a reconciliation pass repairs responses that a crash left without an outbox
  entry. Delivery workers claim outbox entries and send their parts one by one, with one attempt
  per send and one receipt per delivered part. Operators resolve uncertain dispatches. All of
  them share one database and coordinate only through compare-and-set updates, claim tokens,
  leases, unique constraints and a partial unique index.

  \<^bold>\<open>How it is modelled.\<close> The database is the record \<open>gateway_db\<close> of its tables (lists of rows). An
  operation of a store takes the clocks and the database and returns a value or an exception
  together with the database it leaves (\<open>'a outcome\<close>); a rollback is the unchanged database, a
  violated constraint is \<open>IntegrityError\<close>. What other sessions commit in the middle of an operation
  is an explicit argument (\<open>race\<close>), so theorems about an operation can quantify over it. Values of
  \<open>uuid4\<close>, the result of a call to Hermes, the sender of a channel and the file system are
  arguments. Instants are microseconds; floats are exact rationals; characters are code points
  below 256.

  \<^bold>\<open>Theories.\<close>
  \<^item> \<open>Gateway_Prelude\<close>: Python strings, numbers and datetimes, JSON values and their printing, tables
    as lists with SQL updates, minimal rows and key lookups, and the locale \<open>cas_queue\<close>: a queue
    whose consumers select a candidate and compare-and-set it, under interference.
  \<^item> \<open>Access_Control\<close> (\<open>access/\<close>): \<open>evaluate_access\<close> with its decision and reason codes.
  \<^item> \<open>Gateway_Schema\<close> (the \<open>models.py\<close> files): rows, enums, the database, the exceptions and the
    argument validations the stores share.
  \<^item> \<open>Dispatch_Store\<close> (\<open>task/model/store.py\<close>): enqueueing, claiming, leases, completion and
    finalisation of dispatches; \<open>dispatch_queue\<close> interprets \<open>cas_queue\<close>.
  \<^item> \<open>Dispatch_Results\<close> (\<open>hermes/models.py\<close>, \<open>errors.py\<close>, \<open>result_store.py\<close>, \<open>outbox.py\<close>): the response
    envelope, the classification of Hermes errors, and the result stored with the success.
  \<^item> \<open>Dispatch_Recovery\<close> (\<open>admin/recovery.py\<close>): the operator's resolutions with audit and replay.
  \<^item> \<open>Dispatch_Worker\<close> (\<open>hermes/worker.py\<close>): the worker with heartbeat, reconciliation and backoff.
  \<^item> \<open>Dispatch_Machine\<close>: the step relation of the dispatch queue, its invariant by rule induction and
    the refinement of an abstract queue; \<open>Dispatch_Properties\<close> states the results.
  \<^item> \<open>Gateway_Digest\<close>: SHA-256 on 32-bit words, used for content hashes and keys.
  \<^item> \<open>Response_Store\<close> (\<open>response/\<close>): saving a response and its delivery once.
  \<^item> \<open>Delivery_Outbox\<close>, \<open>Delivery_Ledger\<close> (\<open>delivery/outbox.py\<close>): the operations of the outbox, the
    local view of a delivery, and the effect of every operation on it; \<open>delivery_queue\<close> interprets
    \<open>cas_queue\<close>.
  \<^item> \<open>Artifact_Repository\<close> (\<open>artifact/\<close>): storage keys and verified reads; \<open>Artifact_Writes\<close>: creation,
    publication through a staged file, failure and expiry, with every file operation and commit
    allowed to fail, and the invariant of rows and files; \<open>Artifact_Runs\<close>: the step relation of the
    repository; \<open>Artifact_Properties\<close> states the results.
  \<^item> \<open>Delivery_Worker\<close> (\<open>delivery/worker.py\<close>): classification of channel errors, sending a part,
    backoff, one turn and the batch.
  \<^item> \<open>Delivery_Turns\<close>: a turn keeps the invariant of the outbox and returns, under polite
    interference and arbitrary channels, files, clocks and commits.
  \<^item> \<open>Delivery_Machine\<close>: the step relation of the outbox and its refinement of the specification
    \<open>outbox_spec\<close>; \<open>Delivery_Properties\<close> states the results.
  \<^item> \<open>Keyed_Insert\<close>: the look-up, insert, look-up-again idiom of the stores as the locale
    \<open>keyed_table\<close> (whoever wins the race, the answer is the stored row), and the string fields of the
    request schemas.
  \<^item> \<open>Identity_Policy\<close> (\<open>identity/\<close>, \<open>access/policy_store.py\<close>, \<open>access/policy_service.py\<close>): identities,
    their mappings, the access policies and the facts the evaluator is given.
  \<^item> \<open>Thread_Keys\<close> (\<open>workspace/thread_keys.py\<close>): both versions of the thread key, with the locale
    \<open>prefix_code\<close> for their escaped texts and the injectivity of the keys.
  \<^item> \<open>Workspace_Threads\<close> (\<open>workspace/store.py\<close>, \<open>service.py\<close>, \<open>thread_resolver.py\<close>): workspaces, threads and
    the bindings of conversations; \<open>Agent_Routing\<close> (\<open>agent_profile/store.py\<close>, \<open>routing/resolver.py\<close>):
    agent profiles, group types and the route of a conversation.
  \<^item> \<open>Admission_Store\<close> (\<open>admission/store.py\<close>): the admission table with its claims, leases and stored
    outcomes (\<open>admission_fence\<close> interprets the locale \<open>claim_fence\<close>); \<open>Admission_Service\<close>
    (\<open>admission/service.py\<close>): the decision; \<open>Admission_Machine\<close>: the runs of the table.
  \<^item> \<open>Message_Store\<close> (\<open>message/store.py\<close>): conversations and messages; \<open>Ingestion\<close>
    (\<open>ingestion/service.py\<close>): storing, claiming, deciding, completing and replaying a message;
    \<open>Redelivery\<close>: what a processed event answers from then on. \<open>Admission_Properties\<close> states the
    results.
  \<^item> \<open>Wechat_Checkpoints\<close> (\<open>adapters/wechat/polling_store.py\<close>): the checkpoint of a conversation, its
    compare-and-set operations with failing commits and concurrent sessions, and their runs: the
    rows only move up. \<open>Wechat_Lifecycle\<close>: what \<open>WechatPollingLifecycleState\<close> remembers between cycles
    and its bound.
  \<^item> \<open>Wechat_Messages\<close> (\<open>adapters/wechat/normalizer.py\<close>, \<open>message_event.py\<close>): raw and normalized messages,
    event ids and fingerprints, and the fields of a \<open>MessageEvent\<close>; the canonical texts behind the
    digests determine their fields.
  \<^item> \<open>Ingestion_Frame\<close>: the locale \<open>message_invariant\<close>, for what every step of ingestion keeps of the
    stored messages. \<open>Wechat_Sink\<close> (\<open>ingestion/sink.py\<close>): both sinks; they interpret the locale
    \<open>durable_sink\<close>: a sink that accepts a message has stored it, and stored messages stay.
  \<^item> \<open>Wechat_Polling\<close> (\<open>adapters/wechat/polling_service.py\<close>): one polling cycle, with every branch of
    \<open>_poll_chat\<close>. \<open>Wechat_Delivery\<close>: the locale \<open>delivery_promise\<close>, in which the cycle is shown to pass
    only messages that are settled; \<open>Wechat_Cycles\<close>: runs of cycles, the interpretation on the session
    sink, the memory and the results. \<open>Wechat_Properties\<close> states the results.
  \<^item> \<open>Context_Store\<close> (\<open>context/storage.py\<close>): the timeline of a thread, its reads and search, and the
    snapshots; \<open>Context_Access\<close> (\<open>context/policy.py\<close>, \<open>provider.py\<close>, \<open>tool.py\<close>): policies, provider and
    tool, with the locale \<open>context_reader\<close> for the contract of a storage; \<open>Context_Machine\<close>: a settled
    prefix of the timeline is never changed by a step of the gateway. \<open>Context_Properties\<close> states the
    results.
  \<^item> \<open>Hermes_Service\<close> (\<open>hermes/service.py\<close>, \<open>response.py\<close>, \<open>outbox.py\<close>): the checks before Hermes is called,
    the invocation, the rotation of the session, the durable and the synchronous path, and the
    return of an answer to its conversation. \<open>Hermes_Client\<close> (\<open>hermes/client.py\<close>): requests, exchanges
    and what answer they become. \<open>Hermes_Properties\<close> states the results.
  \<^item> \<open>Python_Text\<close>: case mapping and Base64, with the round trip. \<open>Wechat_Http\<close>
    (\<open>adapters/wechat/client.py\<close>, \<open>outbound_http.py\<close>, \<open>media_http.py\<close>): the HTTP client of the WeChat agent
    and the text and media senders of the delivery worker; \<open>Wechat_Sending\<close> states the results.
  \<^item> \<open>Business_Access\<close> (\<open>initial_identity.py\<close>, \<open>business_access.py\<close>): the transaction that creates or checks
    the rows of an approved route, the status of an observed message, approval and withdrawal;
    \<open>Business_Properties\<close> states the results.
  \<^item> \<open>Sample_Runs\<close>, \<open>Sample_Ingestion\<close>: concrete databases and runs the witnesses evaluate.

  \<^bold>\<open>Loops and fuel.\<close> The bounded claim loops recurse over their rounds (\<open>cas_loop\<close>); everything else
  recurses over data. The loop of a delivery turn carries fuel, and \<open>deliver_loop_returns\<close> shows that
  one unit per remaining part and one more are enough; \<open>deliver_loop_fuel\<close> that more fuel changes nothing.

  \<^bold>\<open>Not modelled.\<close> The network below the two HTTP clients (what it makes of a request is an
  argument), the constructor of the Hermes client, the resident loop of the dispatch worker, HTTP
  routes, authentication headers and the read-only listings of the administration, the command line
  tools, process supervision with its heartbeat and health reports, configuration, logging and
  migrations: they are I/O, wiring or generated code.
\<close>

section \<open>Access decisions\<close>

text \<open>
  The evaluator allows exactly the requests the access rules describe: a private message
  or a group message that mentions the bot, from a resolved, active and permitted employee, at
  an allowed risk level, and with some of the requested scope and some of the requested skills
  within what both the employee and the gateway have. The decision, its reason code and the
  grants agree with the verdict.
\<close>

theorem access_iff_granted:
  "ad_allowed (evaluate_access i v r p) = access_granted i v r p
   \<and> (ad_decision (evaluate_access i v r p) = DECISION_ALLOWED) = access_granted i v r p
   \<and> (ad_reason_code (evaluate_access i v r p) = REASON_ALLOWED) = access_granted i v r p
   \<and> ad_permission_scope (evaluate_access i v r p) =
       (if access_granted i v r p
        then user_permission_scope i \<inter> system_permission_scope p \<inter> (if requested_scope r = {} then UNIV else requested_scope r)
        else {})
   \<and> ad_allowed_skills (evaluate_access i v r p) =
       (if access_granted i v r p
        then user_allowed_skills i \<inter> system_allowed_skills p \<inter> (if requested_skill_ids r = {} then UNIV else requested_skill_ids r)
        else {})"
  using evaluate_access_allowed [of i v r p] evaluate_access_consistent [of i v r p] evaluate_access_grants [of i v r p]
  by (auto split: if_splits)

text \<open>
  Widening a policy never takes access away: with larger scopes, skills and risk levels
  of the employee and of the gateway, an allowed request stays allowed and its grants grow.
\<close>

theorem access_monotone:
  assumes "user_permission_scope i \<subseteq> user_permission_scope i'" "user_allowed_skills i \<subseteq> user_allowed_skills i'"
    and "i' = i\<lparr>user_permission_scope := user_permission_scope i', user_allowed_skills := user_allowed_skills i'\<rparr>"
    and "system_permission_scope p \<subseteq> system_permission_scope p'" "system_allowed_skills p \<subseteq> system_allowed_skills p'"
      "gp_allowed_risk_levels p \<subseteq> gp_allowed_risk_levels p'"
    and "ad_allowed (evaluate_access i v r p)"
  shows "ad_allowed (evaluate_access i' v r p')
    \<and> ad_permission_scope (evaluate_access i v r p) \<subseteq> ad_permission_scope (evaluate_access i' v r p')
    \<and> ad_allowed_skills (evaluate_access i v r p) \<subseteq> ad_allowed_skills (evaluate_access i' v r p')"
proof -
  have same: "identity_resolved i' = identity_resolved i" "if_enterprise_identity_id i' = if_enterprise_identity_id i"
    "identity_status i' = identity_status i" "if_user_allowed i' = if_user_allowed i"
    by (subst assms(3), simp)+
  have g: "access_granted i v r p" using assms(7) by (simp add: evaluate_access_allowed)
  then have "access_granted i' v r p'"
    using assms(1,2,4-6) unfolding access_granted_def same by blast
  with g show ?thesis using assms(1,2,4,5) by (auto simp: evaluate_access_allowed evaluate_access_grants)
qed

definition sample_facts :: "string set \<Rightarrow> IdentityFacts" where
  "sample_facts scope = \<lparr>identity_resolved = True, if_enterprise_identity_id = Some ''e1'', identity_status = IDENTITY_ACTIVE,
     if_user_allowed = True, user_permission_scope = scope, user_allowed_skills = {}\<rparr>"

definition sample_policy :: GatewayPolicyFacts where
  "sample_policy = \<lparr>system_permission_scope = {''chat'', ''files''}, system_allowed_skills = {}, gp_allowed_risk_levels = {RISK_LOW}\<rparr>"

definition sample_request :: RequestFacts where
  "sample_request = \<lparr>requested_scope = {''chat''}, requested_skill_ids = {}, rf_risk_level = RISK_LOW\<rparr>"

definition sample_private :: ConversationFacts where
  "sample_private = \<lparr>cf_conversation_type = CONVERSATION_PRIVATE, cf_is_mentioned = None\<rparr>"

theorem access_monotone_witness:
  "ad_allowed (evaluate_access (sample_facts {''chat'', ''files''}) sample_private sample_request sample_policy)
   \<and> ad_permission_scope (evaluate_access (sample_facts {''chat''}) sample_private sample_request sample_policy) = {''chat''}"
proof -
  have a: "ad_allowed (evaluate_access (sample_facts {''chat''}) sample_private sample_request sample_policy)" by code_simp
  have "ad_permission_scope (evaluate_access (sample_facts {''chat''}) sample_private sample_request sample_policy) = {''chat''}" by code_simp
  with access_monotone [OF _ _ _ _ _ _ a, of "sample_facts {''chat'', ''files''}" sample_policy] show ?thesis
    by (simp add: sample_facts_def)
qed

section \<open>Responses\<close>

text \<open>
  A response is stored once and for ever: after a save succeeded under any races, saving
  the same outcome again, in any later database that still has the rows, answers with the same
  response and the same delivery and writes nothing.
\<close>

theorem response_saved_once:
  assumes "response_inv db" "response_safe race" "response_safe race2"
    and "save_generated race race2 ck out tg db = (Inr (r, d, c), db')"
    and "response_inv later" "response_extends db' later"
  shows "\<exists>r' d'. save_generated race3 race4 ck' out tg later = (Inr (r', d', False), later)
    \<and> response_identity r' = response_identity r \<and> delivery_identity d' = delivery_identity d"
proof -
  have "saved_as out tg r d db'" using save_generated_ok [OF assms(1-4)] by blast
  from saved_as_extends [OF this assms(6)] obtain r' d' where s: "saved_as out tg r' d' later"
    "response_identity r' = response_identity r" "delivery_identity d' = delivery_identity d" by metis
  from save_generated_saved [OF assms(5) s(1)] s(2,3) show ?thesis by blast
qed

theorem response_saved_once_witness:
  "\<exists>r d r' d'. save_generated id id (sample_clock 6) sample_outcome sample_target sample_done = (Inr (r, d, True), sample_saved)
     \<and> save_generated id id (sample_clock 9) sample_outcome sample_target sample_saved = (Inr (r', d', False), sample_saved)
     \<and> response_identity r' = response_identity r \<and> delivery_identity d' = delivery_identity d"
proof -
  have inv: "response_inv sample_done" by code_simp
  obtain r d where s: "save_generated id id (sample_clock 6) sample_outcome sample_target sample_done = (Inr (r, d, True), sample_saved)"
    using sample_save by blast
  have later: "response_inv sample_saved" using save_generated_ok [OF inv _ _ s] by simp
  from response_saved_once [OF inv _ _ s later] s show ?thesis by auto
qed

text \<open>
  A message has one answer: an outcome for a message whose stored response differs in
  identity, place or content is refused as a conflict and changes nothing.
\<close>

theorem different_answer_conflicts:
  assumes "response_inv db" "response_envelope out = Inr e"
    and "build_response_idempotency_key (out_message_id out) = Inr (r_idempotency_key r)"
    and "r \<in> set (responses db)" "\<not> compatible_response r out e (content_sha256 e)"
  shows "save_generated race race2 ck out tg db = (Inl (ResponseConflictError (r_idempotency_key r)), db)"
  by (rule save_generated_conflict [OF assms])


definition sample_other_envelope :: ResponseEnvelope where
  "sample_other_envelope = \<lparr>env_response_id = ''resp-1'', env_parts = [TextPart ''no'']\<rparr>"

theorem different_answer_conflicts_witness:
  "\<exists>r. r \<in> set (responses sample_saved)
     \<and> save_generated id id (sample_clock 9) (sample_outcome\<lparr>out_response := Some sample_other_envelope\<rparr>) sample_target sample_saved
       = (Inl (ResponseConflictError (r_idempotency_key r)), sample_saved)"
proof -
  let ?out = "sample_outcome\<lparr>out_response := Some sample_other_envelope\<rparr>"
  have inv: "response_inv sample_done" by code_simp
  obtain r d sha where s: "save_generated id id (sample_clock 6) sample_outcome sample_target sample_done = (Inr (r, d, True), sample_saved)"
    "r \<in> set (responses sample_saved)" "r = new_response (sample_clock 6) ''v1:hermes-response:message:7'' sample_outcome sample_envelope sha"
    using sample_save by blast
  have later: "response_inv sample_saved" using save_generated_ok [OF inv _ _ s(1)] by simp
  have parts: "r_part_count r = 2" unfolding s(3) by code_simp
  have k: "build_response_idempotency_key (out_message_id ?out) = Inr (r_idempotency_key r)" unfolding s(3) by code_simp
  have e: "response_envelope ?out = Inr sample_other_envelope" by (simp add: response_envelope_def)
  have "\<not> compatible_response r ?out sample_other_envelope (content_sha256 sample_other_envelope)"
    using parts by (simp add: compatible_response_def sample_other_envelope_def)
  from different_answer_conflicts [OF later e k s(2) this] s(2) show ?thesis by blast
qed

end
